(* ===== verification/Prelude.thy ===== *)
theory Prelude
  imports Main "HOL-Library.Multiset" "HOL-Library.Sublist"
begin

text \<open>
  Shared vocabulary of the development: the names of the Qt and C++ types the program uses,
  index-based list operations (a C++ \<open>vector::insert\<close> / \<open>vector::erase\<close>), the search loops
  that run over containers, and the lemma collections the component theories extend.

  \<^item> \<open>qstring\<close> is a list of characters; operations of QString that only look at positions and
    literal characters (\<open>startsWith\<close>, \<open>mid\<close>, \<open>chop\<close>, \<open>contains\<close>) are list operations,
    everything that depends on Unicode tables (case folding) stays a parameter.
  \<^item> \<open>insert_at i x xs\<close> and \<open>remove_at i xs\<close> are the vector operations at a valid index.
  \<^item> \<open>find_index P xs\<close> is the loop that returns the first index whose element satisfies \<open>P\<close>.
\<close>

type_synonym qstring = string

named_theorems invariants "preservation of well-formedness invariants"
named_theorems contents "abstract contents of a container after an operation"

section \<open>Vectors\<close>

definition insert_at :: "nat \<Rightarrow> 'a \<Rightarrow> 'a list \<Rightarrow> 'a list" where
  "insert_at i x xs = take i xs @ x # drop i xs"

definition remove_at :: "nat \<Rightarrow> 'a list \<Rightarrow> 'a list" where
  "remove_at i xs = take i xs @ drop (Suc i) xs"

lemma length_insert_at [simp]: "i \<le> length xs \<Longrightarrow> length (insert_at i x xs) = Suc (length xs)"
  by (simp add: insert_at_def)

lemma length_remove_at [simp]: "i < length xs \<Longrightarrow> length (remove_at i xs) = length xs - 1"
  by (simp add: remove_at_def)

lemma insert_at_0 [simp]: "insert_at 0 x xs = x # xs"
  by (simp add: insert_at_def)

lemma insert_at_length [simp]: "insert_at (length xs) x xs = xs @ [x]"
  by (simp add: insert_at_def)

lemma remove_insert_at [simp]: "i \<le> length xs \<Longrightarrow> remove_at i (insert_at i x xs) = xs"
  by (simp add: insert_at_def remove_at_def)

lemma mset_insert_at [simp]: "mset (insert_at i x xs) = add_mset x (mset xs)"
proof -
  have "mset (insert_at i x xs) = add_mset x (mset (take i xs) + mset (drop i xs))"
    by (simp add: insert_at_def)
  then show ?thesis
    by (simp flip: mset_append)
qed

lemma set_insert_at [simp]: "set (insert_at i x xs) = insert x (set xs)"
  by (metis mset_insert_at set_mset_add_mset_insert set_mset_mset)

lemma mset_remove_at: "i < length xs \<Longrightarrow> add_mset (xs ! i) (mset (remove_at i xs)) = mset xs"
  by (metis id_take_nth_drop mset_append mset.simps(2) remove_at_def union_mset_add_mset_right)

lemma set_remove_at_subset: "set (remove_at i xs) \<subseteq> set xs"
  by (auto simp: remove_at_def dest: in_set_takeD in_set_dropD)

lemma distinct_remove_at [simp]: "distinct xs \<Longrightarrow> distinct (remove_at i xs)"
  by (auto simp: remove_at_def distinct_append distinct_take distinct_drop
      dest: set_take_disj_set_drop_if_distinct [of xs i "Suc i"])

lemma distinct_insert_at [simp]: "distinct (insert_at i x xs) \<longleftrightarrow> x \<notin> set xs \<and> distinct xs"
  by (metis distinct.simps(2) mset.simps(2) mset_eq_imp_distinct_iff mset_insert_at)

lemma map_insert_at [simp]: "map f (insert_at i x xs) = insert_at i (f x) (map f xs)"
  by (simp add: insert_at_def take_map drop_map)

lemma map_remove_at [simp]: "map f (remove_at i xs) = remove_at i (map f xs)"
  by (simp add: remove_at_def take_map drop_map)

lemma nth_insert_at:
  "i \<le> length xs \<Longrightarrow> k \<le> length xs \<Longrightarrow>
   insert_at i x xs ! k = (if k < i then xs ! k else if k = i then x else xs ! (k - 1))"
  by (auto simp: insert_at_def nth_append min_def nth_Cons' Suc_diff_le)

lemma insert_at_Suc_Cons [simp]: "insert_at (Suc i) x (y # ys) = y # insert_at i x ys"
  by (simp add: insert_at_def)

lemma remove_at_Suc_Cons [simp]: "remove_at (Suc i) (y # ys) = y # remove_at i ys"
  by (simp add: remove_at_def)

lemma remove_at_0_Cons [simp]: "remove_at 0 (y # ys) = ys"
  by (simp add: remove_at_def)

section \<open>Search loops\<close>

fun find_index :: "('a \<Rightarrow> bool) \<Rightarrow> 'a list \<Rightarrow> nat option" where
  "find_index P [] = None"
| "find_index P (x # xs) = (if P x then Some 0 else map_option Suc (find_index P xs))"

lemma find_index_None [simp]: "find_index P xs = None \<longleftrightarrow> (\<forall>x \<in> set xs. \<not> P x)"
  by (induction xs) auto

lemma find_index_Some:
  "find_index P xs = Some i \<longleftrightarrow> i < length xs \<and> P (xs ! i) \<and> (\<forall>j < i. \<not> P (xs ! j))"
proof (induction xs arbitrary: i)
  case Nil
  then show ?case by simp
next
  case (Cons x xs)
  show ?case
    by (cases i) (auto simp: Cons.IH All_less_Suc2)
qed

lemma find_index_SomeD: "find_index P xs = Some i \<Longrightarrow> i < length xs \<and> P (xs ! i)"
  by (simp add: find_index_Some)

lemma find_index_less: "find_index P xs = Some i \<Longrightarrow> i < length xs"
  by (simp add: find_index_Some)

lemma list_update_split: "i < length xs \<Longrightarrow> xs[i := x] = take i xs @ x # drop (Suc i) xs"
  by (rule upd_conv_take_nth_drop)

lemma find_append:
  "List.find P (xs @ ys) = (case List.find P xs of None \<Rightarrow> List.find P ys | Some x \<Rightarrow> Some x)"
  by (induction xs) auto

lemma find_SomeD: "List.find P xs = Some x \<Longrightarrow> x \<in> set xs \<and> P x"
  by (induction xs) (auto split: if_splits)

section \<open>Sorted association lists\<close>

text \<open>A \<open>QMap\<close> or \<open>std::map\<close> as the list of its entries in key order.\<close>

fun qmap_insert :: "'k::linorder \<Rightarrow> 'v \<Rightarrow> ('k \<times> 'v) list \<Rightarrow> ('k \<times> 'v) list" where
  "qmap_insert k v [] = [(k, v)]"
| "qmap_insert k v ((k', v') # m) =
     (if k < k' then (k, v) # (k', v') # m
      else if k = k' then (k, v) # m
      else (k', v') # qmap_insert k v m)"

definition qmap_remove :: "'k \<Rightarrow> ('k \<times> 'v) list \<Rightarrow> ('k \<times> 'v) list" where
  "qmap_remove k m = filter (\<lambda>e. fst e \<noteq> k) m"

abbreviation qmap_ok :: "('k::linorder \<times> 'v) list \<Rightarrow> bool" where
  "qmap_ok m \<equiv> sorted_wrt (<) (map fst m)"

lemma keys_qmap_insert [simp]: "fst ` set (qmap_insert k v m) = insert k (fst ` set m)"
  by (induction k v m rule: qmap_insert.induct) auto

lemma set_qmap_insert: "e \<in> set (qmap_insert k v m) \<Longrightarrow> e = (k, v) \<or> e \<in> set m"
  by (induction k v m rule: qmap_insert.induct) (auto split: if_splits)

lemma qmap_insert_ok [invariants, simp]: "qmap_ok m \<Longrightarrow> qmap_ok (qmap_insert k v m)"
proof (induction k v m rule: qmap_insert.induct)
  case (2 k v k' v' m)
  have "fst ` set (qmap_insert k v m) = insert k (fst ` set m)" by simp
  with 2 show ?case by (auto simp: image_iff)
qed simp

lemma qmap_lookup_insert [simp]:
  "qmap_ok m \<Longrightarrow> map_of (qmap_insert k v m) = (map_of m)(k \<mapsto> v)"
proof (induction k v m rule: qmap_insert.induct)
  case (2 k v k' v' m)
  then show ?case by (auto simp: fun_eq_iff)
qed simp

lemma qmap_remove_ok [invariants, simp]: "qmap_ok m \<Longrightarrow> qmap_ok (qmap_remove k m)"
  by (induction m) (auto simp: qmap_remove_def)

lemma qmap_lookup_remove [simp]: "map_of (qmap_remove k m) = (map_of m)(k := None)"
  by (induction m) (auto simp: qmap_remove_def fun_eq_iff)

lemma qmap_ok_distinct: "qmap_ok m \<Longrightarrow> distinct (map fst m)"
  by (simp add: strict_sorted_iff)

section \<open>Numbers as text\<close>

text \<open>\<open>QString::number\<close> of a non-negative and of any integer.\<close>

definition digit_char :: "nat \<Rightarrow> char" where
  "digit_char d = char_of (48 + d)"

lemma digit_chars [simp]:
  "digit_char 0 = CHR ''0''" "digit_char (Suc 0) = CHR ''1''" "digit_char 2 = CHR ''2''"
  "digit_char 3 = CHR ''3''" "digit_char 4 = CHR ''4''" "digit_char 5 = CHR ''5''"
  "digit_char 6 = CHR ''6''" "digit_char 7 = CHR ''7''" "digit_char 8 = CHR ''8''"
  "digit_char 9 = CHR ''9''"
  by code_simp+

fun show_nat :: "nat \<Rightarrow> qstring" where
  "show_nat n = (if n < 10 then [digit_char n] else show_nat (n div 10) @ [digit_char (n mod 10)])"

declare show_nat.simps [simp del]

definition show_int :: "int \<Rightarrow> qstring" where
  "show_int i = (if i < 0 then CHR ''-'' # show_nat (nat (- i)) else show_nat (nat i))"

definition is_digit :: "char \<Rightarrow> bool" where
  "is_digit c \<longleftrightarrow> 48 \<le> (of_char c :: nat) \<and> (of_char c :: nat) \<le> 57"

lemma is_digit_digit_char: "d < 10 \<Longrightarrow> is_digit (digit_char d)"
  by (simp add: is_digit_def digit_char_def)

lemma show_nat_digits: "\<forall>c \<in> set (show_nat n). is_digit c"
proof (induction n rule: show_nat.induct)
  case (1 n)
  then show ?case by (subst show_nat.simps) (auto simp: is_digit_digit_char)
qed

lemma show_nat_nonempty [simp]: "show_nat n \<noteq> []"
  by (subst show_nat.simps) simp

end
