(* ===== verification/Limited_Queue.thy ===== *)
theory Limited_Queue
  imports Prelude
begin

text \<open>
  \<open>messages/LimitedQueue.hpp\<close> and \<open>messages/LimitedQueueSnapshot.hpp\<close>: the bounded message
  buffer of a channel. The class stores a \<open>boost::circular_buffer\<close>; Boost is not part of the
  repository, so the buffer is a parameter: the record \<open>cbuf_ops\<close> of the operations the class
  calls, with the documented contract as the locale \<open>circular_buffer\<close>. \<open>ring_ops\<close> at the end
  is an array with a start offset that satisfies the contract.
  Every member function locks the queue's mutex for its whole body, so each is one atomic step.
\<close>

section \<open>The circular buffer\<close>

record ('b, 'a) cbuf_ops =
  cb_make :: "nat \<Rightarrow> 'b"
  cb_capacity :: "'b \<Rightarrow> nat"
  cb_list :: "'b \<Rightarrow> 'a list"
  cb_clear :: "'b \<Rightarrow> 'b"
  cb_push_back :: "'a \<Rightarrow> 'b \<Rightarrow> 'b"
  cb_push_front :: "'a \<Rightarrow> 'b \<Rightarrow> 'b"
  cb_assign :: "nat \<Rightarrow> 'a \<Rightarrow> 'b \<Rightarrow> 'b"
  cb_insert :: "nat \<Rightarrow> 'a \<Rightarrow> 'b \<Rightarrow> 'b"

text \<open>
  Boost's contract: \<open>push_back\<close> on a full buffer overwrites the front, \<open>push_front\<close> the back;
  \<open>insert\<close> on a full buffer overwrites the front, and inserts nothing at \<open>begin()\<close>; a buffer of
  capacity 0 stores nothing.
\<close>

locale circular_buffer =
  fixes B :: "('b, 'a) cbuf_ops"
    and ok :: "'b \<Rightarrow> bool"
  assumes ok_make: "ok (cb_make B n)"
    and list_make: "cb_list B (cb_make B n) = []"
    and capacity_make: "cb_capacity B (cb_make B n) = n"
    and bounded: "ok b \<Longrightarrow> length (cb_list B b) \<le> cb_capacity B b"
    and ok_clear: "ok b \<Longrightarrow> ok (cb_clear B b)"
    and list_clear: "ok b \<Longrightarrow> cb_list B (cb_clear B b) = []"
    and capacity_clear: "ok b \<Longrightarrow> cb_capacity B (cb_clear B b) = cb_capacity B b"
    and ok_push_back: "ok b \<Longrightarrow> ok (cb_push_back B x b)"
    and list_push_back: "ok b \<Longrightarrow> cb_list B (cb_push_back B x b) =
          drop (Suc (length (cb_list B b)) - cb_capacity B b) (cb_list B b @ [x])"
    and capacity_push_back: "ok b \<Longrightarrow> cb_capacity B (cb_push_back B x b) = cb_capacity B b"
    and ok_push_front: "ok b \<Longrightarrow> ok (cb_push_front B x b)"
    and list_push_front: "ok b \<Longrightarrow> cb_list B (cb_push_front B x b) =
          take (cb_capacity B b) (x # cb_list B b)"
    and capacity_push_front: "ok b \<Longrightarrow> cb_capacity B (cb_push_front B x b) = cb_capacity B b"
    and ok_assign: "ok b \<Longrightarrow> i < length (cb_list B b) \<Longrightarrow> ok (cb_assign B i x b)"
    and list_assign: "ok b \<Longrightarrow> i < length (cb_list B b) \<Longrightarrow>
          cb_list B (cb_assign B i x b) = (cb_list B b)[i := x]"
    and capacity_assign: "ok b \<Longrightarrow> i < length (cb_list B b) \<Longrightarrow>
          cb_capacity B (cb_assign B i x b) = cb_capacity B b"
    and ok_insert: "ok b \<Longrightarrow> i \<le> length (cb_list B b) \<Longrightarrow> ok (cb_insert B i x b)"
    and list_insert: "ok b \<Longrightarrow> i \<le> length (cb_list B b) \<Longrightarrow> cb_list B (cb_insert B i x b) =
          drop (Suc (length (cb_list B b)) - cb_capacity B b) (insert_at i x (cb_list B b))"
    and capacity_insert: "ok b \<Longrightarrow> i \<le> length (cb_list B b) \<Longrightarrow>
          cb_capacity B (cb_insert B i x b) = cb_capacity B b"

section \<open>LimitedQueue\<close>

record 'b limited_queue =
  q_limit :: nat
  q_buffer :: 'b

definition LimitedQueue :: "('b, 'a) cbuf_ops \<Rightarrow> nat \<Rightarrow> 'b limited_queue" where
  "LimitedQueue B limit = \<lparr>q_limit = limit, q_buffer = cb_make B limit\<rparr>"

definition lq_limit :: "'b limited_queue \<Rightarrow> nat" where
  "lq_limit q = q_limit q"

definition lq_space :: "('b, 'a) cbuf_ops \<Rightarrow> 'b limited_queue \<Rightarrow> nat" where
  "lq_space B q = lq_limit q - length (cb_list B (q_buffer q))"

definition lq_empty :: "('b, 'a) cbuf_ops \<Rightarrow> 'b limited_queue \<Rightarrow> bool" where
  "lq_empty B q = (cb_list B (q_buffer q) = [])"

definition lq_get :: "('b, 'a) cbuf_ops \<Rightarrow> 'b limited_queue \<Rightarrow> nat \<Rightarrow> 'a option" where
  "lq_get B q index =
     (if index \<ge> length (cb_list B (q_buffer q)) then None
      else Some (cb_list B (q_buffer q) ! index))"

definition lq_first :: "('b, 'a) cbuf_ops \<Rightarrow> 'b limited_queue \<Rightarrow> 'a option" where
  "lq_first B q =
     (case cb_list B (q_buffer q) of [] \<Rightarrow> None | x # _ \<Rightarrow> Some x)"

definition lq_last :: "('b, 'a) cbuf_ops \<Rightarrow> 'b limited_queue \<Rightarrow> 'a option" where
  "lq_last B q =
     (if cb_list B (q_buffer q) = [] then None else Some (last (cb_list B (q_buffer q))))"

definition lq_clear :: "('b, 'a) cbuf_ops \<Rightarrow> 'b limited_queue \<Rightarrow> 'b limited_queue" where
  "lq_clear B q = q\<lparr>q_buffer := cb_clear B (q_buffer q)\<rparr>"

text \<open>
  \<open>pushBack(item, deleted)\<close>: \<open>buffer_.full()\<close> compares size and capacity. The out parameter is
  an option: \<open>None\<close> where the code leaves it alone; \<open>front()\<close> of a full buffer of capacity 0
  would read outside the buffer, and is \<open>None\<close> as well.
\<close>

definition lq_pushBack :: "('b, 'a) cbuf_ops \<Rightarrow> 'b limited_queue \<Rightarrow> 'a
    \<Rightarrow> 'b limited_queue \<times> bool \<times> 'a option" where
  "lq_pushBack B q item =
     (let xs = cb_list B (q_buffer q);
          isFull = (length xs = cb_capacity B (q_buffer q));
          deleted = (if isFull then (case xs of [] \<Rightarrow> None | x # _ \<Rightarrow> Some x) else None)
      in (q\<lparr>q_buffer := cb_push_back B item (q_buffer q)\<rparr>, isFull, deleted))"

definition lq_pushBack' :: "('b, 'a) cbuf_ops \<Rightarrow> 'b limited_queue \<Rightarrow> 'a
    \<Rightarrow> 'b limited_queue \<times> bool" where
  "lq_pushBack' B q item =
     (let isFull = (length (cb_list B (q_buffer q)) = cb_capacity B (q_buffer q))
      in (q\<lparr>q_buffer := cb_push_back B item (q_buffer q)\<rparr>, isFull))"

text \<open>
  The loop of \<open>pushFront\<close>: \<open>f\<close> counts up to the size, \<open>b\<close> down from the last index; \<open>n\<close> is the
  number of rounds left, so \<open>f = size - n\<close>.
\<close>

fun pushFront_loop :: "('b, 'a) cbuf_ops \<Rightarrow> 'a list \<Rightarrow> nat \<Rightarrow> nat \<Rightarrow> 'b \<Rightarrow> 'a list
    \<Rightarrow> 'b \<times> 'a list" where
  "pushFront_loop B items 0 b buf pushed = (buf, pushed)"
| "pushFront_loop B items (Suc n) b buf pushed =
     pushFront_loop B items n (b - 1) (cb_push_front B (items ! b) buf)
       (pushed @ [items ! (length items - Suc n)])"

definition lq_pushFront :: "('b, 'a) cbuf_ops \<Rightarrow> 'b limited_queue \<Rightarrow> 'a list
    \<Rightarrow> 'b limited_queue \<times> 'a list" where
  "lq_pushFront B q items =
     (let numToPush = min (length items) (lq_space B q);
          (buf, pushed) = pushFront_loop B items numToPush (length items - 1) (q_buffer q) []
      in (q\<lparr>q_buffer := buf\<rparr>, pushed))"

definition lq_replaceItem :: "('b, 'a) cbuf_ops \<Rightarrow> ('a \<Rightarrow> 'a \<Rightarrow> bool) \<Rightarrow> 'b limited_queue
    \<Rightarrow> 'a \<Rightarrow> 'a \<Rightarrow> 'b limited_queue \<times> int" where
  "lq_replaceItem B eq q needle replacement =
     (case find_index (\<lambda>x. eq x needle) (cb_list B (q_buffer q)) of
        Some i \<Rightarrow> (q\<lparr>q_buffer := cb_assign B i replacement (q_buffer q)\<rparr>, int i)
      | None \<Rightarrow> (q, -1))"

definition lq_replaceAt :: "('b, 'a) cbuf_ops \<Rightarrow> 'b limited_queue \<Rightarrow> nat \<Rightarrow> 'a
    \<Rightarrow> 'b limited_queue \<times> bool" where
  "lq_replaceAt B q index replacement =
     (if index \<ge> length (cb_list B (q_buffer q)) then (q, False)
      else (q\<lparr>q_buffer := cb_assign B index replacement (q_buffer q)\<rparr>, True))"

definition lq_insertBefore :: "('b, 'a) cbuf_ops \<Rightarrow> ('a \<Rightarrow> 'a \<Rightarrow> bool) \<Rightarrow> 'b limited_queue
    \<Rightarrow> 'a \<Rightarrow> 'a \<Rightarrow> 'b limited_queue \<times> bool" where
  "lq_insertBefore B eq q needle item =
     (case find_index (\<lambda>x. eq x needle) (cb_list B (q_buffer q)) of
        Some i \<Rightarrow> (q\<lparr>q_buffer := cb_insert B i item (q_buffer q)\<rparr>, True)
      | None \<Rightarrow> (q, False))"

definition lq_insertAfter :: "('b, 'a) cbuf_ops \<Rightarrow> ('a \<Rightarrow> 'a \<Rightarrow> bool) \<Rightarrow> 'b limited_queue
    \<Rightarrow> 'a \<Rightarrow> 'a \<Rightarrow> 'b limited_queue \<times> bool" where
  "lq_insertAfter B eq q needle item =
     (case find_index (\<lambda>x. eq x needle) (cb_list B (q_buffer q)) of
        Some i \<Rightarrow> (q\<lparr>q_buffer := cb_insert B (Suc i) item (q_buffer q)\<rparr>, True)
      | None \<Rightarrow> (q, False))"

text \<open>\<open>getSnapshot\<close> copies the buffer into a vector, so a snapshot is the list itself.\<close>

type_synonym 'a snapshot = "'a list"

definition lq_getSnapshot :: "('b, 'a) cbuf_ops \<Rightarrow> 'b limited_queue \<Rightarrow> 'a snapshot" where
  "lq_getSnapshot B q = cb_list B (q_buffer q)"

definition snapshot_size :: "'a snapshot \<Rightarrow> nat" where
  "snapshot_size s = length s"

text \<open>\<open>operator[]\<close> of the snapshot is unchecked; \<open>None\<close> stands for a read outside the vector.\<close>

definition snapshot_at :: "'a snapshot \<Rightarrow> nat \<Rightarrow> 'a option" where
  "snapshot_at s index = (if index < length s then Some (s ! index) else None)"

definition lq_find :: "('b, 'a) cbuf_ops \<Rightarrow> 'b limited_queue \<Rightarrow> ('a \<Rightarrow> bool) \<Rightarrow> 'a option" where
  "lq_find B q pred = List.find pred (cb_list B (q_buffer q))"

definition lq_rfind :: "('b, 'a) cbuf_ops \<Rightarrow> 'b limited_queue \<Rightarrow> ('a \<Rightarrow> bool) \<Rightarrow> 'a option" where
  "lq_rfind B q pred = List.find pred (rev (cb_list B (q_buffer q)))"

section \<open>Laws of the queue, from the laws of the buffer\<close>

text \<open>
  \<open>lq_items\<close> is the abstraction of a queue; \<open>lq_ok\<close> its invariant: the buffer is well formed and
  its capacity is the queue's limit.
\<close>

abbreviation lq_items :: "('b, 'a) cbuf_ops \<Rightarrow> 'b limited_queue \<Rightarrow> 'a list" where
  "lq_items B q \<equiv> cb_list B (q_buffer q)"

definition lq_ok :: "('b, 'a) cbuf_ops \<Rightarrow> ('b \<Rightarrow> bool) \<Rightarrow> 'b limited_queue \<Rightarrow> bool" where
  "lq_ok B ok q \<longleftrightarrow> ok (q_buffer q) \<and> cb_capacity B (q_buffer q) = q_limit q"

context circular_buffer
begin

lemmas buffer_laws = ok_make list_make capacity_make ok_clear list_clear capacity_clear
  ok_push_back list_push_back capacity_push_back ok_push_front list_push_front
  capacity_push_front ok_assign list_assign capacity_assign ok_insert list_insert capacity_insert

lemma queue_bounded: "lq_ok B ok q \<Longrightarrow> length (lq_items B q) \<le> q_limit q"
  using bounded [of "q_buffer q"] by (simp add: lq_ok_def)

lemma new_queue: "lq_ok B ok (LimitedQueue B n)" "lq_items B (LimitedQueue B n) = []"
  by (simp_all add: LimitedQueue_def lq_ok_def buffer_laws)

lemma clear_ok: "lq_ok B ok q \<Longrightarrow> lq_ok B ok (lq_clear B q)"
  and clear_items: "lq_ok B ok q \<Longrightarrow> lq_items B (lq_clear B q) = []"
  by (simp_all add: lq_clear_def lq_ok_def buffer_laws)

lemma pushBack_ok: "lq_ok B ok q \<Longrightarrow> lq_ok B ok (fst (lq_pushBack B q x))"
  by (simp add: lq_pushBack_def lq_ok_def buffer_laws Let_def)

lemma pushBack_limit: "q_limit (fst (lq_pushBack B q x)) = q_limit q"
  by (simp add: lq_pushBack_def Let_def)

lemma pushBack_items:
  assumes "lq_ok B ok q"
  shows "lq_items B (fst (lq_pushBack B q x)) =
    (if length (lq_items B q) < q_limit q then lq_items B q @ [x]
     else if q_limit q = 0 then [] else tl (lq_items B q) @ [x])"
  using assms queue_bounded [OF assms]
  by (cases "lq_items B q") (auto simp: lq_pushBack_def lq_ok_def buffer_laws Let_def)

lemma pushBack_deleted:
  assumes "lq_ok B ok q" "0 < q_limit q" "lq_pushBack B q x = (q', full, del)"
  shows "full \<longleftrightarrow> length (lq_items B q) = q_limit q"
    and "full \<Longrightarrow> \<exists>d rest. del = Some d \<and> lq_items B q = d # rest \<and> lq_items B q' = rest @ [x]"
    and "\<not> full \<Longrightarrow> del = None \<and> lq_items B q' = lq_items B q @ [x]"
  using assms pushBack_items [OF assms(1), of x] queue_bounded [OF assms(1)]
  by (auto simp: lq_pushBack_def lq_ok_def Let_def split: list.splits)

lemma pushFront_loop_spec:
  assumes "ok buf" "n + length (cb_list B buf) \<le> cb_capacity B buf" "n \<le> Suc b" "Suc b \<le> length items \<or> n = 0"
  shows "ok (fst (pushFront_loop B items n b buf acc)) \<and>
    cb_capacity B (fst (pushFront_loop B items n b buf acc)) = cb_capacity B buf \<and>
    cb_list B (fst (pushFront_loop B items n b buf acc)) =
      take n (drop (Suc b - n) items) @ cb_list B buf"
  using assms
proof (induction n arbitrary: b buf acc)
  case 0
  then show ?case by simp
next
  case (Suc n)
  let ?buf = "cb_push_front B (items ! b) buf"
  have b: "b < length items" using Suc.prems by auto
  have lst: "cb_list B ?buf = items ! b # cb_list B buf"
    using Suc.prems by (simp add: buffer_laws take_Cons' split: nat.splits)
  have pre: "ok ?buf" "n + length (cb_list B ?buf) \<le> cb_capacity B ?buf"
      "n \<le> Suc (b - 1)" "Suc (b - 1) \<le> length items \<or> n = 0"
    using Suc.prems lst b by (auto simp: buffer_laws)
  have "take n (drop (Suc (b - 1) - n) items) @ items ! b # cb_list B buf =
      take (Suc n) (drop (Suc b - Suc n) items) @ cb_list B buf"
  proof (cases n)
    case 0
    then show ?thesis using b by (simp add: take_Suc hd_drop_conv_nth)
  next
    case (Suc m)
    then have "0 < b" "b - n + n = b" using Suc.prems \<open>Suc n \<le> Suc b\<close> by auto
    moreover have "take (Suc n) (drop (b - n) items) = take n (drop (b - n) items) @ [items ! b]"
      using b \<open>b - n + n = b\<close> by (simp add: take_Suc_conv_app_nth)
    ultimately show ?thesis by simp
  qed
  then show ?case
    using Suc.IH [OF pre, of "acc @ [items ! (length items - Suc n)]"] Suc.prems(1) lst
    by (simp add: capacity_push_front)
qed

lemma pushFront_loop_pushed:
  "n \<le> length items \<Longrightarrow>
   snd (pushFront_loop B items n b buf acc) = acc @ drop (length items - n) items"
proof (induction n arbitrary: b buf acc)
  case 0
  then show ?case by simp
next
  case (Suc n)
  then have "drop (length items - Suc n) items =
      items ! (length items - Suc n) # drop (length items - n) items"
    by (metis Cons_nth_drop_Suc Suc_diff_Suc Suc_le_lessD diff_less length_greater_0_conv
        list.size(3) not_less_zero zero_less_Suc)
  then show ?case using Suc by simp
qed

text \<open>
  \<open>pushFront\<close> keeps the order of the items, takes the last ones that fit and never removes an
  element; what it returns is what it inserted.
\<close>

lemma pushFront_items:
  assumes "lq_ok B ok q" "lq_pushFront B q items = (q', pushed)"
  shows "lq_ok B ok q'" "q_limit q' = q_limit q"
    and "pushed = drop (length items - (q_limit q - length (lq_items B q))) items"
    and "lq_items B q' = pushed @ lq_items B q"
proof -
  let ?n = "min (length items) (lq_space B q)"
  have q: "ok (q_buffer q)" "cb_capacity B (q_buffer q) = q_limit q"
    using assms(1) by (auto simp: lq_ok_def)
  have len: "length (lq_items B q) \<le> q_limit q" by (rule queue_bounded [OF assms(1)])
  have pre: "?n + length (lq_items B q) \<le> cb_capacity B (q_buffer q)"
      "?n \<le> Suc (length items - 1)" "Suc (length items - 1) \<le> length items \<or> ?n = 0"
    using len q by (auto simp: lq_space_def lq_limit_def)
  define r where "r = pushFront_loop B items ?n (length items - 1) (q_buffer q) []"
  have q': "q' = q\<lparr>q_buffer := fst r\<rparr>" "pushed = snd r"
    using assms(2) by (auto simp: lq_pushFront_def r_def Let_def split: prod.splits)
  have spec: "ok (fst r) \<and> cb_capacity B (fst r) = cb_capacity B (q_buffer q) \<and>
      cb_list B (fst r) = take ?n (drop (Suc (length items - 1) - ?n) items) @ lq_items B q"
    unfolding r_def by (rule pushFront_loop_spec [OF q(1) pre])
  have p: "pushed = drop (length items - ?n) items"
    using pushFront_loop_pushed [of ?n items "length items - 1" "q_buffer q" "[]"] q'
    by (simp add: r_def)
  have "take ?n (drop (Suc (length items - 1) - ?n) items) = drop (length items - ?n) items"
    by (cases items) auto
  then show "lq_items B q' = pushed @ lq_items B q"
    using spec q' p by simp
  show "pushed = drop (length items - (q_limit q - length (lq_items B q))) items"
    using p by (simp add: lq_space_def lq_limit_def min_def)
  show "lq_ok B ok q'" "q_limit q' = q_limit q" using spec q' q by (auto simp: lq_ok_def)
qed

lemma replaceItem_spec:
  assumes "lq_ok B ok q" "lq_replaceItem B eq q needle r = (q', i)"
  shows "lq_ok B ok q'" "q_limit q' = q_limit q"
    and "i = -1 \<Longrightarrow> q' = q \<and> (\<forall>x \<in> set (lq_items B q). \<not> eq x needle)"
    and "i \<noteq> -1 \<Longrightarrow> 0 \<le> i \<and> nat i < length (lq_items B q) \<and> eq (lq_items B q ! nat i) needle \<and>
      (\<forall>j < nat i. \<not> eq (lq_items B q ! j) needle) \<and> lq_items B q' = (lq_items B q)[nat i := r]"
  using assms
  by (auto simp: lq_replaceItem_def lq_ok_def buffer_laws find_index_Some split: option.splits)

lemma replaceAt_spec:
  assumes "lq_ok B ok q" "lq_replaceAt B q i r = (q', done)"
  shows "lq_ok B ok q'" "q_limit q' = q_limit q" "done \<longleftrightarrow> i < length (lq_items B q)"
    "lq_items B q' = (lq_items B q)[i := r]"
  using assms by (auto simp: lq_replaceAt_def lq_ok_def buffer_laws list_update_beyond split: if_splits)

lemma insertBefore_spec:
  assumes "lq_ok B ok q" "lq_insertBefore B eq q needle x = (q', done)"
  shows "lq_ok B ok q'" "q_limit q' = q_limit q"
    and "\<not> done \<Longrightarrow> q' = q \<and> (\<forall>y \<in> set (lq_items B q). \<not> eq y needle)"
    and "done \<Longrightarrow> \<exists>i < length (lq_items B q). eq (lq_items B q ! i) needle \<and>
      (\<forall>j < i. \<not> eq (lq_items B q ! j) needle) \<and>
      lq_items B q' = drop (Suc (length (lq_items B q)) - q_limit q) (insert_at i x (lq_items B q))"
  using assms
  by (auto simp: lq_insertBefore_def lq_ok_def buffer_laws find_index_Some split: option.splits)

lemma insertAfter_spec:
  assumes "lq_ok B ok q" "lq_insertAfter B eq q needle x = (q', done)"
  shows "lq_ok B ok q'" "q_limit q' = q_limit q"
    and "\<not> done \<Longrightarrow> q' = q \<and> (\<forall>y \<in> set (lq_items B q). \<not> eq y needle)"
    and "done \<Longrightarrow> \<exists>i < length (lq_items B q). eq (lq_items B q ! i) needle \<and>
      (\<forall>j < i. \<not> eq (lq_items B q ! j) needle) \<and>
      lq_items B q' =
        drop (Suc (length (lq_items B q)) - q_limit q) (insert_at (Suc i) x (lq_items B q))"
  using assms
  by (auto simp: lq_insertAfter_def lq_ok_def buffer_laws find_index_Some split: option.splits)

end

section \<open>An array ring\<close>

text \<open>
  A circular buffer as an array of slots, the index of the front and a size; it meets Boost's
  contract, so everything proved from the locale applies to it.
\<close>

record 'a ring =
  ring_slots :: "'a option list"
  ring_first :: nat
  ring_size :: nat

definition ring_pos :: "'a ring \<Rightarrow> nat \<Rightarrow> nat" where
  "ring_pos b i = (ring_first b + i) mod length (ring_slots b)"

definition ring_list :: "'a ring \<Rightarrow> 'a list" where
  "ring_list b = map (\<lambda>i. the (ring_slots b ! ring_pos b i)) [0..<ring_size b]"

definition ring_make :: "nat \<Rightarrow> 'a ring" where
  "ring_make n = \<lparr>ring_slots = replicate n None, ring_first = 0, ring_size = 0\<rparr>"

definition ring_of :: "nat \<Rightarrow> 'a list \<Rightarrow> 'a ring" where
  "ring_of n xs = \<lparr>ring_slots = map Some xs @ replicate (n - length xs) None,
     ring_first = 0, ring_size = length xs\<rparr>"

definition ring_push_back :: "'a \<Rightarrow> 'a ring \<Rightarrow> 'a ring" where
  "ring_push_back x b =
     (let n = length (ring_slots b) in
      if n = 0 then b
      else if ring_size b = n then
        b\<lparr>ring_slots := (ring_slots b)[ring_first b := Some x],
          ring_first := Suc (ring_first b) mod n\<rparr>
      else b\<lparr>ring_slots := (ring_slots b)[ring_pos b (ring_size b) := Some x],
             ring_size := Suc (ring_size b)\<rparr>)"

definition ring_push_front :: "'a \<Rightarrow> 'a ring \<Rightarrow> 'a ring" where
  "ring_push_front x b =
     (let n = length (ring_slots b); f = (ring_first b + n - 1) mod n in
      if n = 0 then b
      else b\<lparr>ring_slots := (ring_slots b)[f := Some x], ring_first := f,
             ring_size := min n (Suc (ring_size b))\<rparr>)"

definition ring_assign :: "nat \<Rightarrow> 'a \<Rightarrow> 'a ring \<Rightarrow> 'a ring" where
  "ring_assign i x b = b\<lparr>ring_slots := (ring_slots b)[ring_pos b i := Some x]\<rparr>"

definition ring_insert :: "nat \<Rightarrow> 'a \<Rightarrow> 'a ring \<Rightarrow> 'a ring" where
  "ring_insert i x b =
     (let n = length (ring_slots b); xs = insert_at i x (ring_list b)
      in ring_of n (drop (length xs - n) xs))"

definition ring_ops :: "('a ring, 'a) cbuf_ops" where
  "ring_ops = \<lparr>cb_make = ring_make, cb_capacity = (\<lambda>b. length (ring_slots b)),
     cb_list = ring_list, cb_clear = (\<lambda>b. b\<lparr>ring_size := 0\<rparr>),
     cb_push_back = ring_push_back, cb_push_front = ring_push_front,
     cb_assign = ring_assign, cb_insert = ring_insert\<rparr>"

definition ring_ok :: "'a ring \<Rightarrow> bool" where
  "ring_ok b \<longleftrightarrow> ring_size b \<le> length (ring_slots b) \<and>
     (ring_slots b = [] \<or> ring_first b < length (ring_slots b))"

lemma mod_shift_neq: "(a::nat) < n \<Longrightarrow> 0 < k \<Longrightarrow> k < n \<Longrightarrow> (a + k) mod n \<noteq> a"
  by (cases "a + k < n") (auto simp: mod_if)

lemma mod_add_inj:
  assumes "(i::nat) < n" "j < n" "(a + i) mod n = (a + j) mod n"
  shows "i = j"
proof -
  have *: "i = j" if "i \<le> j" "j < n" "(a + i) mod n = (a + j) mod n" for i j
  proof -
    have "n dvd (a + j) - (a + i)"
      using that mod_eq_dvd_iff_nat [of "a + i" "a + j" n] by auto
    then have "n dvd j - i" by simp
    moreover have "j - i < n" using that by simp
    ultimately have "j - i = 0" by (metis gr0I nat_dvd_not_less)
    then show ?thesis using that by simp
  qed
  show ?thesis using * [of i j] * [of j i] assms by (cases "i \<le> j") auto
qed

lemma length_ring_list [simp]: "length (ring_list b) = ring_size b"
  by (simp add: ring_list_def)

lemma nth_ring_list [simp]:
  "i < ring_size b \<Longrightarrow> ring_list b ! i = the (ring_slots b ! ring_pos b i)"
  by (simp add: ring_list_def)

lemma ring_pos_less: "ring_slots b \<noteq> [] \<Longrightarrow> ring_pos b i < length (ring_slots b)"
  by (simp add: ring_pos_def)


lemma ring_push_back_list:
  assumes "ring_ok b"
  shows "ring_list (ring_push_back x b) =
    drop (Suc (ring_size b) - length (ring_slots b)) (ring_list b @ [x])"
proof (cases "ring_slots b = [] \<or> ring_size b < length (ring_slots b)")
  case True
  show ?thesis
  proof (cases "ring_slots b = []")
    case True
    then show ?thesis using assms by (simp add: ring_push_back_def ring_ok_def ring_list_def)
  next
    case False
    with \<open>ring_slots b = [] \<or> _\<close> have less: "ring_size b < length (ring_slots b)" by simp
    have "ring_pos b (ring_size b) \<noteq> ring_pos b i" if "i < ring_size b" for i
      using that less mod_add_inj [of i "length (ring_slots b)" "ring_size b" "ring_first b"]
      by (auto simp: ring_pos_def)
    moreover have "ring_pos (b\<lparr>ring_slots := s, ring_size := k\<rparr>) i =
        (ring_first b + i) mod length s" for s k i
      by (simp add: ring_pos_def)
    ultimately show ?thesis
      using less False ring_pos_less [OF False, of "ring_size b"]
      by (auto simp: ring_push_back_def ring_list_def ring_pos_def Let_def)
  qed
next
  case False
  then have n: "ring_slots b \<noteq> []" "ring_size b = length (ring_slots b)"
    using assms by (auto simp: ring_ok_def)
  then have f: "ring_first b < length (ring_slots b)" using assms by (simp add: ring_ok_def)
  let ?b = "ring_push_back x b"
  have b': "ring_size ?b = ring_size b" "length (ring_slots ?b) = length (ring_slots b)"
      "ring_slots ?b = (ring_slots b)[ring_first b := Some x]"
      "ring_first ?b = Suc (ring_first b) mod length (ring_slots b)"
    using n by (auto simp: ring_push_back_def Let_def)
  show ?thesis
  proof (rule nth_equalityI)
    show "length (ring_list ?b) =
        length (drop (Suc (ring_size b) - length (ring_slots b)) (ring_list b @ [x]))"
      using n b' by simp
  next
    fix i assume "i < length (ring_list ?b)"
    then have i: "i < ring_size b" using b' by simp
    have pos: "ring_pos ?b i = (ring_first b + Suc i) mod length (ring_slots b)"
      using b' by (simp add: ring_pos_def mod_simps)
    have "ring_list ?b ! i = the (((ring_slots b)[ring_first b := Some x]) ! ring_pos ?b i)"
      using i b' by simp
    also have "\<dots> = (ring_list b @ [x]) ! Suc i"
    proof (cases "Suc i < ring_size b")
      case True
      then have "ring_pos ?b i \<noteq> ring_first b"
        using pos mod_shift_neq [of "ring_first b" "length (ring_slots b)" "Suc i"] f n by simp
      then show ?thesis using True pos by (simp add: nth_append ring_pos_def)
    next
      case False
      then have "Suc i = length (ring_slots b)" using i n by simp
      then have "ring_pos ?b i = ring_first b" using pos f by simp
      then show ?thesis using False i f by (simp add: nth_append)
    qed
    also have "\<dots> = drop 1 (ring_list b @ [x]) ! i"
      using nth_drop [of 1 "ring_list b @ [x]" i] by simp
    finally show "ring_list ?b ! i =
        drop (Suc (ring_size b) - length (ring_slots b)) (ring_list b @ [x]) ! i"
      using n by (simp del: drop_append)
  qed
qed

lemma ring_push_front_list:
  assumes "ring_ok b"
  shows "ring_list (ring_push_front x b) = take (length (ring_slots b)) (x # ring_list b)"
proof (cases "ring_slots b = []")
  case True
  then show ?thesis using assms by (simp add: ring_push_front_def ring_ok_def ring_list_def)
next
  case False
  let ?n = "length (ring_slots b)" and ?b = "ring_push_front x b"
  let ?f = "(ring_first b + ?n - 1) mod ?n"
  have f: "ring_first b < ?n" using assms False by (simp add: ring_ok_def)
  have b': "ring_size ?b = min ?n (Suc (ring_size b))" "length (ring_slots ?b) = ?n"
      "ring_slots ?b = (ring_slots b)[?f := Some x]" "ring_first ?b = ?f"
    using False by (auto simp: ring_push_front_def Let_def)
  have f': "?f < ?n" using False by simp
  show ?thesis
  proof (rule nth_equalityI)
    show "length (ring_list ?b) = length (take ?n (x # ring_list b))" using b' by simp
  next
    fix i assume "i < length (ring_list ?b)"
    then have i: "i < ?n" "i < Suc (ring_size b)" using b' by auto
    show "ring_list ?b ! i = take ?n (x # ring_list b) ! i"
    proof (cases i)
      case 0
      then have "ring_pos ?b i = ?f" using b' f' by (simp add: ring_pos_def)
      then show ?thesis using 0 b' i f' by simp
    next
      case (Suc k)
      have "ring_pos ?b i = (?f + Suc k) mod ?n" using b' Suc by (simp add: ring_pos_def)
      also have "\<dots> = (ring_first b + ?n - 1 + Suc k) mod ?n" by (rule mod_add_left_eq)
      also have "ring_first b + ?n - 1 + Suc k = ring_first b + k + ?n" using False by auto
      finally have pos: "ring_pos ?b i = ring_pos b k" by (simp add: ring_pos_def)
      have "(?f + Suc k) mod ?n \<noteq> ?f"
        using mod_shift_neq [OF f', of "Suc k"] i Suc by simp
      then have "ring_pos ?b i \<noteq> ?f" using b' Suc by (simp add: ring_pos_def)
      then show ?thesis using b' i Suc pos by simp
    qed
  qed
qed

lemma ring_assign_list:
  assumes "ring_ok b" "i < ring_size b"
  shows "ring_list (ring_assign i x b) = (ring_list b)[i := x]"
proof (rule nth_equalityI)
  show "length (ring_list (ring_assign i x b)) = length ((ring_list b)[i := x])"
    by (simp add: ring_assign_def)
next
  fix j assume "j < length (ring_list (ring_assign i x b))"
  then have j: "j < ring_size b" by (simp add: ring_assign_def)
  have n: "ring_size b \<le> length (ring_slots b)" "ring_slots b \<noteq> []"
    using assms by (auto simp: ring_ok_def)
  have "ring_pos b j = ring_pos b i \<longleftrightarrow> j = i"
    using mod_add_inj [of j "length (ring_slots b)" i "ring_first b"] assms j n
    by (auto simp: ring_pos_def)
  moreover have "ring_pos (ring_assign i x b) j = ring_pos b j"
    by (simp add: ring_assign_def ring_pos_def)
  ultimately show "ring_list (ring_assign i x b) ! j = (ring_list b)[i := x] ! j"
    using j assms(2) ring_pos_less [OF n(2)]
    by (auto simp: ring_assign_def nth_list_update)
qed

lemma ring_of_list: "length xs \<le> n \<Longrightarrow> ring_list (ring_of n xs) = xs"
  by (cases n; rule nth_equalityI) (auto simp: ring_of_def ring_pos_def nth_append)

interpretation boost_ring: circular_buffer ring_ops ring_ok
proof (unfold_locales, goal_cases)
  case (1 n) then show ?case by (cases n) (simp_all add: ring_ops_def ring_ok_def ring_make_def)
next
  case (2 n) then show ?case by (simp add: ring_ops_def ring_make_def ring_list_def)
next
  case (3 n) then show ?case by (simp add: ring_ops_def ring_make_def)
next
  case (4 b) then show ?case by (simp add: ring_ops_def ring_ok_def)
next
  case (5 b) then show ?case by (simp add: ring_ops_def ring_ok_def)
next
  case (6 b) then show ?case by (simp add: ring_ops_def ring_list_def)
next
  case (7 b) then show ?case by (simp add: ring_ops_def)
next
  case (8 b x) then show ?case
    by (auto simp: ring_ops_def ring_ok_def ring_push_back_def Let_def)
next
  case (9 b x) then show ?case by (simp add: ring_ops_def ring_push_back_list)
next
  case (10 b x) then show ?case by (simp add: ring_ops_def ring_push_back_def Let_def)
next
  case (11 b x) then show ?case
    by (auto simp: ring_ops_def ring_ok_def ring_push_front_def Let_def)
next
  case (12 b x) then show ?case by (simp add: ring_ops_def ring_push_front_list)
next
  case (13 b x) then show ?case by (simp add: ring_ops_def ring_push_front_def Let_def)
next
  case (14 b i x) then show ?case by (simp add: ring_ops_def ring_ok_def ring_assign_def)
next
  case (15 b i x) then show ?case by (simp add: ring_ops_def ring_assign_list)
next
  case (16 b i x) then show ?case by (simp add: ring_ops_def ring_assign_def)
next
  case (17 b i x) then show ?case
    by (auto simp: ring_ops_def ring_insert_def ring_of_def ring_ok_def Let_def)
next
  case (18 b i x) then show ?case by (simp add: ring_ops_def ring_insert_def ring_of_list Let_def)
next
  case (19 b i x) then show ?case by (auto simp: ring_ops_def ring_insert_def ring_of_def ring_ok_def Let_def)
qed

section \<open>Properties\<close>

text \<open>Pushing a list of items one after the other; the second component is what fell out.\<close>

fun push_all :: "('b, 'a) cbuf_ops \<Rightarrow> 'b limited_queue \<Rightarrow> 'a list \<Rightarrow> 'b limited_queue \<times> 'a list" where
  "push_all B q [] = (q, [])"
| "push_all B q (x # xs) =
     (case lq_pushBack B q x of (q', full, deleted) \<Rightarrow>
        (case push_all B q' xs of (q'', ds) \<Rightarrow>
           (q'', (case deleted of Some d \<Rightarrow> [d] | None \<Rightarrow> []) @ ds)))"

context circular_buffer
begin

lemma push_all_conserves:
  assumes "lq_ok B ok q" "0 < q_limit q"
  shows "lq_ok B ok (fst (push_all B q xs)) \<and> q_limit (fst (push_all B q xs)) = q_limit q \<and>
    snd (push_all B q xs) @ lq_items B (fst (push_all B q xs)) = lq_items B q @ xs \<and>
    length (lq_items B (fst (push_all B q xs))) = min (q_limit q) (length (lq_items B q) + length xs)"
  using assms
proof (induction xs arbitrary: q)
  case Nil
  then show ?case using queue_bounded [of q] by simp
next
  case (Cons x xs)
  obtain q' full del where p: "lq_pushBack B q x = (q', full, del)" by (cases "lq_pushBack B q x")
  have q': "lq_ok B ok q'" "q_limit q' = q_limit q"
    using pushBack_ok [OF Cons.prems(1), of x] pushBack_limit [of q x] p by simp_all
  have ih: "lq_ok B ok (fst (push_all B q' xs)) \<and> q_limit (fst (push_all B q' xs)) = q_limit q' \<and>
    snd (push_all B q' xs) @ lq_items B (fst (push_all B q' xs)) = lq_items B q' @ xs \<and>
    length (lq_items B (fst (push_all B q' xs))) = min (q_limit q') (length (lq_items B q') + length xs)"
    using Cons.IH [OF q'(1)] q'(2) Cons.prems(2) by simp
  note deleted = pushBack_deleted [OF Cons.prems p]
  show ?case
  proof (cases full)
    case True
    then show ?thesis using ih q' p deleted(1) deleted(2) by (auto simp: split_beta)
  next
    case False
    then have "length (lq_items B q) < q_limit q"
      using deleted(1) queue_bounded [OF Cons.prems(1)] by simp
    then show ?thesis using False ih q' p deleted(3) by (simp add: split_beta)
  qed
qed

lemma push_all_new:
  assumes "0 < n"
  shows "lq_getSnapshot B (fst (push_all B (LimitedQueue B n) xs)) = drop (length xs - n) xs"
    and "snd (push_all B (LimitedQueue B n) xs) = take (length xs - n) xs"
proof -
  let ?r = "push_all B (LimitedQueue B n) xs"
  have n: "q_limit (LimitedQueue B n) = n" by (simp add: LimitedQueue_def)
  have r: "snd ?r @ lq_items B (fst ?r) = xs" "length (lq_items B (fst ?r)) = min n (length xs)"
    using push_all_conserves [OF new_queue(1) , of n xs] assms by (simp_all add: n new_queue(2))
  have "length (snd ?r) + length (lq_items B (fst ?r)) = length xs"
    using arg_cong [OF r(1), of length] by simp
  then have "length (snd ?r) = length xs - n" using r(2) by simp
  then show "lq_getSnapshot B (fst ?r) = drop (length xs - n) xs"
      "snd ?r = take (length xs - n) xs"
    using r(1) by (simp_all add: lq_getSnapshot_def append_eq_conv_conj)
qed

end

text \<open>
  C3: a queue of limit \<open>n\<close> into which a sequence of items was pushed holds exactly the last \<open>n\<close>
  of them in order, and the items reported as deleted are exactly the earlier ones in order: no
  message is lost or reported twice, for any buffer that keeps Boost's contract.
\<close>

theorem queue_keeps_newest:
  assumes "circular_buffer B ok" "0 < n"
  shows "lq_getSnapshot B (fst (push_all B (LimitedQueue B n) xs)) = drop (length xs - n) xs \<and>
    snd (push_all B (LimitedQueue B n) xs) = take (length xs - n) xs"
  using circular_buffer.push_all_new [OF assms] by blast

theorem queue_keeps_newest_witness:
  "lq_getSnapshot ring_ops (fst (push_all ring_ops (LimitedQueue ring_ops 2) ''abcde'')) = ''de'' \<and>
   snd (push_all ring_ops (LimitedQueue ring_ops 2) ''abcde'') = ''abc''"
  using queue_keeps_newest [OF boost_ring.circular_buffer_axioms, of 2 "''abcde''"] by simp

text \<open>
  Filling in older items at the front takes the newest of them that still fit, in their
  order, returns exactly those, and never removes an item or exceeds the limit.
\<close>

theorem queue_pushFront:
  assumes "circular_buffer B ok" "lq_ok B ok q" "lq_pushFront B q items = (q', pushed)"
  shows "pushed = drop (length items - (q_limit q - length (lq_items B q))) items \<and>
    lq_items B q' = pushed @ lq_items B q \<and> length (lq_items B q') \<le> q_limit q \<and> lq_ok B ok q'"
  using circular_buffer.pushFront_items [OF assms]
    circular_buffer.queue_bounded [OF assms(1), of q'] by simp

theorem queue_pushFront_witness:
  "lq_items ring_ops (fst (lq_pushFront ring_ops (LimitedQueue ring_ops 2) ''abc'')) = ''bc''"
  using queue_pushFront [OF boost_ring.circular_buffer_axioms boost_ring.new_queue(1), of 2 "''abc''"
    "fst (lq_pushFront ring_ops (LimitedQueue ring_ops 2) ''abc'')"
    "snd (lq_pushFront ring_ops (LimitedQueue ring_ops 2) ''abc'')"]
  by (simp add: boost_ring.new_queue(2)) (simp add: LimitedQueue_def)

end
