(* ===== verification/Lru_Cache.thy ===== *)
theory Lru_Cache
  imports Prelude "HOL-Library.AList"
begin

text \<open>
  \<open>lib/lrucache/lrucache/lrucache.hpp\<close>: a linked list of key/value pairs, most recently used
  first, and a hash map from keys to list iterators. An iterator is a node identity (a number
  drawn from \<open>lru_next\<close> when the node is created), the hash map an association list without
  duplicate keys (only its lookups and its size are observed). \<open>lru_abs\<close> forgets the
  identities; the refinement lemmas say that \<open>put\<close> and \<open>get\<close> are move-to-front on that list.
\<close>

record ('k, 'v) lru_cache =
  lru_list :: "(nat \<times> 'k \<times> 'v) list"
  lru_map :: "('k \<times> nat) list"
  lru_max :: nat
  lru_next :: nat

datatype lru_error = RangeError

definition lru_new :: "nat \<Rightarrow> ('k, 'v) lru_cache" where
  "lru_new n = \<lparr>lru_list = [], lru_map = [], lru_max = n, lru_next = 0\<rparr>"

definition lru_erase_node :: "nat \<Rightarrow> (nat \<times> 'k \<times> 'v) list \<Rightarrow> (nat \<times> 'k \<times> 'v) list" where
  "lru_erase_node i xs = filter (\<lambda>n. fst n \<noteq> i) xs"

definition lru_put :: "'k \<Rightarrow> 'v \<Rightarrow> ('k, 'v) lru_cache \<Rightarrow> ('k, 'v) lru_cache" where
  "lru_put key v c =
     (let it = map_of (lru_map c) key;
          l1 = (lru_next c, key, v) # lru_list c;
          l2 = (case it of Some i \<Rightarrow> lru_erase_node i l1 | None \<Rightarrow> l1);
          m2 = (case it of Some i \<Rightarrow> AList.delete key (lru_map c) | None \<Rightarrow> lru_map c);
          m3 = AList.update key (lru_next c) m2
      in if length m3 > lru_max c
         then c\<lparr>lru_list := butlast l2, lru_map := AList.delete (fst (snd (last l2))) m3,
                lru_next := Suc (lru_next c)\<rparr>
         else c\<lparr>lru_list := l2, lru_map := m3, lru_next := Suc (lru_next c)\<rparr>)"

text \<open>\<open>get\<close> throws when the key is absent; otherwise it splices the node to the front.\<close>

definition lru_get :: "'k \<Rightarrow> ('k, 'v) lru_cache \<Rightarrow> lru_error + ('k, 'v) lru_cache \<times> 'v" where
  "lru_get key c =
     (case map_of (lru_map c) key of
        None \<Rightarrow> Inl RangeError
      | Some i \<Rightarrow>
          (case map_of (lru_list c) i of
             None \<Rightarrow> Inl RangeError
           | Some kv \<Rightarrow> Inr (c\<lparr>lru_list := (i, kv) # lru_erase_node i (lru_list c)\<rparr>, snd kv)))"

definition lru_exists :: "'k \<Rightarrow> ('k, 'v) lru_cache \<Rightarrow> bool" where
  "lru_exists key c = (map_of (lru_map c) key \<noteq> None)"

definition lru_size :: "('k, 'v) lru_cache \<Rightarrow> nat" where
  "lru_size c = length (lru_map c)"

definition lru_move :: "('k, 'v) lru_cache \<Rightarrow> ('k, 'v) lru_cache \<Rightarrow> ('k, 'v) lru_cache \<times> ('k, 'v) lru_cache" where
  "lru_move target other =
     (target\<lparr>lru_list := lru_list other, lru_map := lru_map other, lru_max := lru_max other,
        lru_next := lru_next other\<rparr>,
      other\<lparr>lru_list := [], lru_map := []\<rparr>)"

text \<open>Iteration, \<open>begin()\<close> to \<open>end()\<close>: also the abstraction function.\<close>

definition lru_abs :: "('k, 'v) lru_cache \<Rightarrow> ('k \<times> 'v) list" where
  "lru_abs c = map snd (lru_list c)"

text \<open>
  The invariant \<open>lru_wf\<close>: identities and keys of the list are distinct, the map has one entry per
  key and holds exactly the pairs of the list, and identities are older than \<open>lru_next\<close>.
  \<open>lru_ok\<close> adds that the cache is not over-full.
\<close>

definition lru_wf :: "('k, 'v) lru_cache \<Rightarrow> bool" where
  "lru_wf c \<longleftrightarrow> distinct (map fst (lru_list c)) \<and> distinct (map (fst \<circ> snd) (lru_list c)) \<and>
     (\<forall>n \<in> set (lru_list c). fst n < lru_next c) \<and> distinct (map fst (lru_map c)) \<and>
     (\<forall>k i. (k, i) \<in> set (lru_map c) \<longleftrightarrow> (\<exists>v. (i, k, v) \<in> set (lru_list c)))"

definition lru_ok :: "('k, 'v) lru_cache \<Rightarrow> bool" where
  "lru_ok c \<longleftrightarrow> lru_wf c \<and> length (lru_list c) \<le> lru_max c"

section \<open>The abstract cache\<close>

definition mtf_put :: "nat \<Rightarrow> 'k \<Rightarrow> 'v \<Rightarrow> ('k \<times> 'v) list \<Rightarrow> ('k \<times> 'v) list" where
  "mtf_put n k v xs = take n ((k, v) # filter (\<lambda>p. fst p \<noteq> k) xs)"

definition mtf_get :: "'k \<Rightarrow> ('k \<times> 'v) list \<Rightarrow> ('k \<times> 'v) list" where
  "mtf_get k xs =
     (case map_of xs k of None \<Rightarrow> xs | Some v \<Rightarrow> (k, v) # filter (\<lambda>p. fst p \<noteq> k) xs)"

lemma set_delete: "set (AList.delete k xs) = {p \<in> set xs. fst p \<noteq> k}"
  by (auto simp: AList.delete_eq)

lemma set_update:
  "distinct (map fst xs) \<Longrightarrow> set (AList.update k v xs) = insert (k, v) {p \<in> set xs. fst p \<noteq> k}"
proof (induction xs)
  case (Cons x xs)
  then show ?case by (cases x) (force simp: image_iff)
qed simp

lemma lru_map_lookup:
  assumes "lru_wf c"
  shows "map_of (lru_map c) k = Some i \<longleftrightarrow> (\<exists>v. (i, k, v) \<in> set (lru_list c))"
  using assms by (simp add: lru_wf_def map_of_eq_Some_iff)

lemma lru_map_None:
  assumes "lru_wf c"
  shows "map_of (lru_map c) k = None \<longleftrightarrow> k \<notin> fst ` set (lru_abs c)"
proof -
  have "map_of (lru_map c) k = None \<longleftrightarrow> (\<forall>i v. (i, k, v) \<notin> set (lru_list c))"
    using lru_map_lookup [OF assms, of k] by (metis not_None_eq)
  also have "\<dots> \<longleftrightarrow> k \<notin> fst ` set (lru_abs c)"
    by (force simp: lru_abs_def)
  finally show ?thesis .
qed

lemma lru_exists_abs: "lru_wf c \<Longrightarrow> lru_exists k c \<longleftrightarrow> k \<in> fst ` set (lru_abs c)"
  using lru_map_None [of c k] by (simp add: lru_exists_def)

lemma lru_map_length:
  assumes "lru_wf c"
  shows "length (lru_map c) = length (lru_list c)"
proof -
  have "fst ` set (lru_map c) = (fst \<circ> snd) ` set (lru_list c)"
  proof (rule set_eqI)
    fix k
    have "k \<in> fst ` set (lru_map c) \<longleftrightarrow> (\<exists>i. (k, i) \<in> set (lru_map c))" by force
    also have "\<dots> \<longleftrightarrow> (\<exists>i v. (i, k, v) \<in> set (lru_list c))"
      using assms by (simp add: lru_wf_def)
    also have "\<dots> \<longleftrightarrow> k \<in> (fst \<circ> snd) ` set (lru_list c)" by force
    finally show "k \<in> fst ` set (lru_map c) \<longleftrightarrow> k \<in> (fst \<circ> snd) ` set (lru_list c)" .
  qed
  moreover have "distinct (map fst (lru_map c))" "distinct (map (fst \<circ> snd) (lru_list c))"
    using assms by (auto simp: lru_wf_def)
  ultimately show ?thesis
    using distinct_card [of "map fst (lru_map c)"] distinct_card [of "map (fst \<circ> snd) (lru_list c)"]
    by simp
qed

lemma lru_size_abs: "lru_wf c \<Longrightarrow> lru_size c = length (lru_abs c)"
  by (simp add: lru_map_length lru_size_def lru_abs_def)

lemma lru_abs_keys: "lru_wf c \<Longrightarrow> distinct (map fst (lru_abs c))"
  by (simp add: lru_wf_def lru_abs_def)

lemma new_ok [simp]: "lru_ok (lru_new n)" "lru_abs (lru_new n) = []" "lru_max (lru_new n) = n"
  by (simp_all add: lru_ok_def lru_wf_def lru_new_def lru_abs_def)

lemma lru_move_target [simp]: "lru_abs (fst (lru_move a b)) = lru_abs b"
    "lru_max (fst (lru_move a b)) = lru_max b" "lru_ok (fst (lru_move a b)) = lru_ok b"
  by (simp_all add: lru_move_def lru_abs_def lru_ok_def lru_wf_def)

text \<open>Erasing the node of a key, found through the map, is erasing the key.\<close>

lemma erase_node_key:
  assumes "lru_wf c" "map_of (lru_map c) k = Some i"
  shows "lru_erase_node i (lru_list c) = filter (\<lambda>n. fst (snd n) \<noteq> k) (lru_list c)"
proof -
  obtain v where v: "(i, k, v) \<in> set (lru_list c)"
    using assms(2) by (auto simp: lru_map_lookup [OF assms(1)])
  have "inj_on fst (set (lru_list c))" "inj_on (fst \<circ> snd) (set (lru_list c))"
    using assms(1) by (auto simp: lru_wf_def distinct_map)
  then have "fst n \<noteq> i \<longleftrightarrow> fst (snd n) \<noteq> k" if "n \<in> set (lru_list c)" for n
    using v that unfolding inj_on_def by (metis comp_apply fst_conv snd_conv)
  then show ?thesis unfolding lru_erase_node_def by (rule filter_cong [OF refl])
qed

section \<open>Refinement\<close>

text \<open>The cache after the node has been pushed and an older node of the key erased.\<close>

definition lru_pushed :: "'k \<Rightarrow> 'v \<Rightarrow> ('k, 'v) lru_cache \<Rightarrow> ('k, 'v) lru_cache" where
  "lru_pushed k v c = c\<lparr>
     lru_list := (lru_next c, k, v) # filter (\<lambda>n. fst (snd n) \<noteq> k) (lru_list c),
     lru_map := AList.update k (lru_next c)
       (case map_of (lru_map c) k of Some i \<Rightarrow> AList.delete k (lru_map c) | None \<Rightarrow> lru_map c),
     lru_next := Suc (lru_next c)\<rparr>"

lemma lru_pushed_wf:
  assumes "lru_wf c"
  shows "lru_wf (lru_pushed k v c)"
proof -
  let ?m = "case map_of (lru_map c) k of Some i \<Rightarrow> AList.delete k (lru_map c) | None \<Rightarrow> lru_map c"
  let ?d = "lru_pushed k v c"
  have m: "distinct (map fst ?m)" "{p \<in> set ?m. fst p \<noteq> k} = {p \<in> set (lru_map c). fst p \<noteq> k}"
    using assms by (auto simp: lru_wf_def distinct_delete set_delete split: option.split)
  have "set (lru_map ?d) = insert (k, lru_next c) {p \<in> set (lru_map c). fst p \<noteq> k}"
    using m by (simp add: set_update lru_pushed_def)
  moreover have "distinct (map fst (lru_map ?d))"
    using m(1) by (simp add: lru_pushed_def distinct_update)
  moreover have "fst n < lru_next c" if "n \<in> set (lru_list c)" for n
    using assms that by (simp add: lru_wf_def)
  then have "lru_next c \<notin> fst ` set (lru_list c)" by (auto simp: image_iff dest: less_not_refl2)
  then have "distinct (map fst (lru_list ?d))" "distinct (map (fst \<circ> snd) (lru_list ?d))"
      "\<forall>n \<in> set (lru_list ?d). fst n < lru_next ?d"
    using assms by (auto simp: lru_pushed_def lru_wf_def distinct_map_filter less_SucI)
  ultimately show ?thesis
    using assms unfolding lru_wf_def by (auto simp: lru_pushed_def)
qed

lemma lru_put_pushed:
  assumes "lru_wf c"
  shows "lru_put k v c = (let d = lru_pushed k v c in
     if length (lru_map d) > lru_max c
     then d\<lparr>lru_list := butlast (lru_list d),
            lru_map := AList.delete (fst (snd (last (lru_list d)))) (lru_map d)\<rparr>
     else d)"
proof -
  have l2: "(case map_of (lru_map c) k of
        Some i \<Rightarrow> lru_erase_node i ((lru_next c, k, v) # lru_list c)
      | None \<Rightarrow> (lru_next c, k, v) # lru_list c) = lru_list (lru_pushed k v c)"
  proof (cases "map_of (lru_map c) k")
    case None
    then have "\<forall>n \<in> set (lru_list c). fst (snd n) \<noteq> k"
      using lru_map_None [OF assms] by (auto simp: lru_abs_def)
    then have "filter (\<lambda>n. fst (snd n) \<noteq> k) (lru_list c) = lru_list c"
      by (simp add: filter_id_conv)
    then show ?thesis using None by (simp add: lru_pushed_def)
  next
    case (Some i)
    then have "i < lru_next c"
      using assms lru_map_lookup [OF assms, of k i] by (auto simp: lru_wf_def)
    then show ?thesis
      using erase_node_key [OF assms Some] Some by (simp add: lru_pushed_def lru_erase_node_def)
  qed
  show ?thesis
    unfolding lru_put_def Let_def l2 by (simp add: lru_pushed_def)
qed

lemma lru_drop_last_wf:
  assumes "lru_wf d" "lru_list d = xs @ [x]"
  shows "lru_wf (d\<lparr>lru_list := xs, lru_map := AList.delete (fst (snd x)) (lru_map d)\<rparr>)"
proof -
  have d: "distinct (map fst xs)" "distinct (map (fst \<circ> snd) xs)" "\<forall>n \<in> set xs. fst n < lru_next d"
      "distinct (map fst (lru_map d))"
      "fst (snd x) \<notin> (fst \<circ> snd) ` set xs"
    using assms by (auto simp: lru_wf_def)
  have "(k, i) \<in> set (AList.delete (fst (snd x)) (lru_map d)) \<longleftrightarrow> (\<exists>v. (i, k, v) \<in> set xs)" for k i
  proof -
    have "(k, i) \<in> set (lru_map d) \<longleftrightarrow> (\<exists>v. (i, k, v) \<in> insert x (set xs))"
      using assms by (simp add: lru_wf_def)
    moreover have "(i, k, v) \<in> set xs \<Longrightarrow> k \<noteq> fst (snd x)" for v
      using d(5) by (force simp: image_iff)
    ultimately show ?thesis by (auto simp: set_delete)
  qed
  then show ?thesis using d by (simp add: lru_wf_def distinct_delete)
qed

lemma lru_put_refines:
  assumes "lru_ok c"
  shows "lru_ok (lru_put k v c)" "lru_max (lru_put k v c) = lru_max c"
    and "lru_abs (lru_put k v c) = mtf_put (lru_max c) k v (lru_abs c)"
proof -
  let ?d = "lru_pushed k v c" and ?n = "lru_max c"
  have wf: "lru_wf c" using assms by (simp add: lru_ok_def)
  then have d: "lru_wf ?d" by (rule lru_pushed_wf)
  have max: "lru_max ?d = ?n" by (simp add: lru_pushed_def)
  have len: "length (lru_list ?d) \<le> Suc ?n"
    using assms by (simp add: lru_ok_def lru_pushed_def order_trans [OF length_filter_le])
  have abs: "map snd (lru_list ?d) = (k, v) # filter (\<lambda>p. fst p \<noteq> k) (lru_abs c)"
    by (simp add: lru_pushed_def lru_abs_def filter_map comp_def)
  have "lru_ok (lru_put k v c) \<and> lru_max (lru_put k v c) = ?n \<and>
      lru_abs (lru_put k v c) = take ?n (map snd (lru_list ?d))"
  proof (cases "length (lru_list ?d) > ?n")
    case True
    then have n: "length (lru_list ?d) = Suc ?n" using len by simp
    then obtain xs x where xs: "lru_list ?d = xs @ [x]"
      by (cases "lru_list ?d" rule: rev_cases) auto
    then have put: "lru_put k v c =
        ?d\<lparr>lru_list := xs, lru_map := AList.delete (fst (snd x)) (lru_map ?d)\<rparr>"
      using True by (simp add: lru_put_pushed [OF wf] lru_map_length [OF d] Let_def)
    show ?thesis
      using lru_drop_last_wf [OF d xs] n xs max unfolding put by (simp add: lru_ok_def lru_abs_def)
  next
    case False
    then show ?thesis
      using d max by (simp add: lru_put_pushed [OF wf] lru_map_length [OF d] lru_ok_def lru_abs_def)
  qed
  then show "lru_ok (lru_put k v c)" "lru_max (lru_put k v c) = ?n"
    "lru_abs (lru_put k v c) = mtf_put ?n k v (lru_abs c)"
    using abs by (auto simp: mtf_put_def)
qed

lemma lru_get_None: "lru_wf c \<Longrightarrow> k \<notin> fst ` set (lru_abs c) \<Longrightarrow> lru_get k c = Inl RangeError"
  by (simp add: lru_get_def lru_map_None [symmetric])

lemma lru_get_refines:
  assumes "lru_ok c" "(k, v) \<in> set (lru_abs c)"
  obtains c' where "lru_get k c = Inr (c', v)" "lru_ok c'" "lru_max c' = lru_max c"
    "lru_abs c' = mtf_get k (lru_abs c)"
proof -
  have wf: "lru_wf c" using assms by (simp add: lru_ok_def)
  obtain i where i: "(i, k, v) \<in> set (lru_list c)" using assms(2) by (auto simp: lru_abs_def)
  then have it: "map_of (lru_map c) k = Some i" using lru_map_lookup [OF wf] by blast
  have kv: "map_of (lru_list c) i = Some (k, v)"
    using i wf by (simp add: lru_wf_def map_of_eq_Some_iff)
  have v: "map_of (lru_abs c) k = Some v"
    using assms(2) lru_abs_keys [OF wf] by (simp add: map_of_eq_Some_iff)
  let ?c = "c\<lparr>lru_list := (i, k, v) # filter (\<lambda>n. fst (snd n) \<noteq> k) (lru_list c)\<rparr>"
  have get: "lru_get k c = Inr (?c, v)"
    using erase_node_key [OF wf it] by (simp add: lru_get_def it kv)
  have ids: "fst n \<noteq> i" if "n \<in> set (lru_list c)" "fst (snd n) \<noteq> k" for n
  proof
    assume "fst n = i"
    then have "snd n = (k, v)"
      using that kv wf map_of_eq_Some_iff [of "lru_list c" i "snd n"]
      by (cases n) (simp add: lru_wf_def)
    then show False using that by simp
  qed
  have mem: "(\<exists>w. (j, k', w) \<in> set (lru_list ?c)) \<longleftrightarrow> (\<exists>w. (j, k', w) \<in> set (lru_list c))" for j k'
  proof (cases "k' = k")
    case True
    have "j = i" if "(j, k, w) \<in> set (lru_list c)" for w
      using that it lru_map_lookup [OF wf, of k j] by auto
    then show ?thesis using True i by auto
  next
    case False
    then show ?thesis by auto
  qed
  have "lru_wf ?c"
    using wf i ids mem unfolding lru_wf_def by (auto simp: distinct_map_filter)
  moreover have "length (lru_list ?c) \<le> length (lru_list c)"
  proof -
    have "length (filter (\<lambda>n. fst (snd n) \<noteq> k) (lru_list c)) < length (lru_list c)"
      using i by (intro length_filter_less [of "(i, k, v)"]) auto
    then show ?thesis by simp
  qed
  ultimately have "lru_ok ?c" using assms(1) by (simp add: lru_ok_def)
  moreover have "lru_abs ?c = mtf_get k (lru_abs c)"
    by (simp add: mtf_get_def v) (simp add: lru_abs_def filter_map comp_def)
  ultimately show ?thesis using that [OF get] by simp
qed

section \<open>The interface the clients use\<close>

text \<open>
  What \<open>ChatterSet\<close> and \<open>ChannelChatters\<close> rely on: a bounded association list in order of
  recency. The client lemmas are about lookups only.
\<close>

locale recency_cache =
  fixes put :: "'k \<Rightarrow> 'v \<Rightarrow> 'c \<Rightarrow> 'c"
    and get :: "'k \<Rightarrow> 'c \<Rightarrow> 'e + 'c \<times> 'v"
    and has :: "'k \<Rightarrow> 'c \<Rightarrow> bool"
    and entries :: "'c \<Rightarrow> ('k \<times> 'v) list"
    and cap :: "'c \<Rightarrow> nat"
    and ok :: "'c \<Rightarrow> bool"
  assumes keys_distinct: "ok c \<Longrightarrow> distinct (map fst (entries c))"
    and bounded: "ok c \<Longrightarrow> length (entries c) \<le> cap c"
    and has_iff: "ok c \<Longrightarrow> has k c \<longleftrightarrow> map_of (entries c) k \<noteq> None"
    and put_ok: "ok c \<Longrightarrow> ok (put k v c)"
    and put_cap: "ok c \<Longrightarrow> cap (put k v c) = cap c"
    and put_entries: "ok c \<Longrightarrow> entries (put k v c) = mtf_put (cap c) k v (entries c)"
    and get_hit: "ok c \<Longrightarrow> map_of (entries c) k = Some v \<Longrightarrow>
      \<exists>c'. get k c = Inr (c', v) \<and> ok c' \<and> cap c' = cap c \<and> entries c' = mtf_get k (entries c)"
    and get_miss: "ok c \<Longrightarrow> map_of (entries c) k = None \<Longrightarrow> \<exists>e. get k c = Inl e"
begin

lemma map_of_filter_neq: "map_of (filter (\<lambda>p. fst p \<noteq> k) xs) = (map_of xs)(k := None)"
  by (induction xs) (auto simp: fun_eq_iff)

lemma lookup_get: "map_of (mtf_get k xs) = map_of xs"
  by (auto simp: mtf_get_def map_of_filter_neq fun_eq_iff split: option.split)

text \<open>A key just put is found with its value; if there is room, nothing else changes.\<close>

lemma lookup_put_same: "ok c \<Longrightarrow> 0 < cap c \<Longrightarrow> map_of (entries (put k v c)) k = Some v"
  by (cases "cap c") (auto simp: put_entries mtf_put_def)

lemma lookup_put:
  assumes "ok c" "length (entries c) < cap c"
  shows "map_of (entries (put k v c)) = (map_of (entries c))(k \<mapsto> v)"
proof -
  have "length ((k, v) # filter (\<lambda>p. fst p \<noteq> k) (entries c)) \<le> cap c"
    using assms(2) by (simp add: Suc_le_eq order_le_less_trans [OF length_filter_le])
  then have "entries (put k v c) = (k, v) # filter (\<lambda>p. fst p \<noteq> k) (entries c)"
    using assms(1) by (simp add: put_entries mtf_put_def)
  then show ?thesis by (simp add: map_of_filter_neq)
qed

lemma put_keys: "ok c \<Longrightarrow> fst ` set (entries (put k v c)) \<subseteq> insert k (fst ` set (entries c))"
  by (auto simp: put_entries mtf_put_def dest!: in_set_takeD)

lemma entries_length: "ok c \<Longrightarrow> length (entries c) = card (fst ` set (entries c))"
  using distinct_card [OF keys_distinct] by simp

end

interpretation lru: recency_cache lru_put lru_get lru_exists lru_abs lru_max lru_ok
proof (unfold_locales, goal_cases)
  case (1 c) then show ?case by (simp add: lru_ok_def lru_abs_keys)
next
  case (2 c) then show ?case by (simp add: lru_ok_def lru_abs_def)
next
  case (3 c k) then show ?case by (simp add: lru_ok_def lru_exists_abs map_of_eq_None_iff)
next
  case (4 c k v) then show ?case by (rule lru_put_refines)
next
  case (5 c k v) then show ?case by (rule lru_put_refines)
next
  case (6 c k v) then show ?case by (rule lru_put_refines)
next
  case (7 c k v) then show ?case using lru_get_refines [of c k v] by (metis map_of_SomeD)
next
  case (8 c k) then show ?case using lru_get_None [of c k] by (simp add: lru_ok_def map_of_eq_None_iff)
qed

section \<open>Properties\<close>

datatype ('k, 'v) lru_op = Put 'k 'v | Get 'k

text \<open>A run of calls, with the result of every \<open>get\<close> (\<open>None\<close> where it throws), on both levels.\<close>

fun lru_run :: "('k, 'v) lru_op list \<Rightarrow> ('k, 'v) lru_cache \<Rightarrow> ('k, 'v) lru_cache \<times> 'v option list" where
  "lru_run [] c = (c, [])"
| "lru_run (Put k v # ops) c = lru_run ops (lru_put k v c)"
| "lru_run (Get k # ops) c =
     (case lru_get k c of
        Inl e \<Rightarrow> (case lru_run ops c of (d, rs) \<Rightarrow> (d, None # rs))
      | Inr (c', v) \<Rightarrow> (case lru_run ops c' of (d, rs) \<Rightarrow> (d, Some v # rs)))"

fun mtf_run :: "nat \<Rightarrow> ('k, 'v) lru_op list \<Rightarrow> ('k \<times> 'v) list \<Rightarrow> ('k \<times> 'v) list \<times> 'v option list" where
  "mtf_run n [] xs = (xs, [])"
| "mtf_run n (Put k v # ops) xs = mtf_run n ops (mtf_put n k v xs)"
| "mtf_run n (Get k # ops) xs =
     (case mtf_run n ops (mtf_get k xs) of (ys, rs) \<Rightarrow> (ys, map_of xs k # rs))"

text \<open>
  C10: the linked list with its hash map of iterators is a bounded move-to-front list: every run of
  \<open>put\<close> and \<open>get\<close> from an empty cache gives the same entries in the same order of recency and the
  same results as the abstract list, throws only for absent keys, and keeps the invariant.
\<close>

theorem lru_run_refines:
  assumes "lru_ok c"
  shows "lru_ok (fst (lru_run ops c)) \<and>
    lru_abs (fst (lru_run ops c)) = fst (mtf_run (lru_max c) ops (lru_abs c)) \<and>
    snd (lru_run ops c) = snd (mtf_run (lru_max c) ops (lru_abs c))"
  using assms
proof (induction ops arbitrary: c)
  case (Cons a ops)
  show ?case
  proof (cases a)
    case (Put k v)
    then show ?thesis using Cons.IH [OF lru.put_ok [OF Cons.prems]] Cons.prems
      by (simp add: lru.put_cap lru.put_entries)
  next
    case (Get k)
    show ?thesis
    proof (cases "map_of (lru_abs c) k")
      case None
      then obtain e where "lru_get k c = Inl e" using lru.get_miss [OF Cons.prems] by blast
      then show ?thesis using Get None Cons.IH [OF Cons.prems] by (simp add: mtf_get_def split_beta)
    next
      case (Some v)
      obtain c' where "lru_get k c = Inr (c', v)" "lru_ok c'" "lru_max c' = lru_max c"
          "lru_abs c' = mtf_get k (lru_abs c)"
        using lru.get_hit [OF Cons.prems Some] by blast
      then show ?thesis using Get Some Cons.IH [of c'] by (simp add: split_beta)
    qed
  qed
qed simp

theorem lru_run_refines_witness:
  "snd (lru_run [Put ''a'' (1::int), Put ''b'' 2, Get ''a'', Put ''c'' 3, Get ''b''] (lru_new 2)) =
     [Some 1, None]"
  using lru_run_refines [OF new_ok(1), of "[Put ''a'' (1::int), Put ''b'' 2, Get ''a'', Put ''c'' 3, Get ''b'']" 2]
  by (simp add: mtf_put_def mtf_get_def numeral_2_eq_2)

end
