(* ===== verification/Chatters.thy ===== *)
theory Chatters
  imports Lru_Cache "HOL-Library.List_Lexorder" "HOL-Library.Char_ord"
begin

text \<open>
  \<open>common/ChatterSet.cpp\<close> (recent chatters of a channel, for completion) and
  \<open>common/ChannelChatters.cpp\<close> (chatters, user colours, and the join and part messages that are
  merged for 500 ms). \<open>QString::toLower\<close> is the parameter \<open>lower\<close>. The iteration order of the
  unordered set given to \<open>updateOnlineChatters\<close> is the order of the list that models it.
\<close>

section \<open>ChatterSet\<close>

type_synonym chatter_set = "(qstring, qstring) lru_cache"

definition chatterLimit :: nat where
  "chatterLimit = 2000"

definition ChatterSet :: chatter_set where
  "ChatterSet = lru_new chatterLimit"

definition addRecentChatter :: "(qstring \<Rightarrow> qstring) \<Rightarrow> qstring \<Rightarrow> chatter_set \<Rightarrow> chatter_set" where
  "addRecentChatter lower userName items = lru_put (lower userName) userName items"

fun updateOnline_loop :: "nat \<Rightarrow> qstring list \<Rightarrow> chatter_set \<Rightarrow> chatter_set
    \<Rightarrow> lru_error + chatter_set \<times> chatter_set" where
  "updateOnline_loop n [] items tmp = Inr (items, tmp)"
| "updateOnline_loop n (chatter # rest) items tmp =
     (if lru_exists chatter items then
        (case lru_get chatter items of
           Inl e \<Rightarrow> Inl e
         | Inr (items', name) \<Rightarrow> updateOnline_loop n rest items' (lru_put chatter name tmp))
      else if n < chatterLimit then updateOnline_loop n rest items (lru_put chatter chatter tmp)
      else updateOnline_loop n rest items tmp)"

definition updateOnlineChatters :: "qstring list \<Rightarrow> chatter_set \<Rightarrow> lru_error + chatter_set" where
  "updateOnlineChatters lowerCaseUsernames items =
     (case updateOnline_loop (length lowerCaseUsernames) lowerCaseUsernames items
             (lru_new chatterLimit) of
        Inl e \<Rightarrow> Inl e
      | Inr (items', tmp) \<Rightarrow> Inr (fst (lru_move items' tmp)))"

definition chatters_contains :: "(qstring \<Rightarrow> qstring) \<Rightarrow> qstring \<Rightarrow> chatter_set \<Rightarrow> bool" where
  "chatters_contains lower userName items = lru_exists (lower userName) items"

definition filterByPrefix :: "(qstring \<Rightarrow> qstring) \<Rightarrow> qstring \<Rightarrow> chatter_set \<Rightarrow> qstring list" where
  "filterByPrefix lower pre items =
     map snd (filter (\<lambda>item. prefix (lower pre) (fst item)) (lru_abs items))"

abbreviation cs_ok :: "chatter_set \<Rightarrow> bool" where
  "cs_ok s \<equiv> lru_ok s \<and> lru_max s = chatterLimit"

abbreviation chatter_name :: "chatter_set \<Rightarrow> qstring \<Rightarrow> qstring option" where
  "chatter_name s \<equiv> map_of (lru_abs s)"

lemma ChatterSet_ok: "cs_ok ChatterSet"
  by (simp add: ChatterSet_def)

lemma addRecentChatter_ok: "cs_ok s \<Longrightarrow> cs_ok (addRecentChatter lower name s)"
  by (simp add: addRecentChatter_def lru.put_ok lru.put_cap)

text \<open>The name an online chatter has after an update of \<open>n\<close> users.\<close>

definition online_name :: "nat \<Rightarrow> chatter_set \<Rightarrow> qstring \<Rightarrow> qstring option" where
  "online_name n s u =
     (case chatter_name s u of Some v \<Rightarrow> Some v | None \<Rightarrow> if n < chatterLimit then Some u else None)"

lemma updateOnline_loop_spec:
  assumes "cs_ok items" "cs_ok tmp" "distinct (done @ us)" "n = length (done @ us)"
    and "fst ` set (lru_abs tmp) \<subseteq> set done"
    and "\<not> n < chatterLimit \<Longrightarrow> fst ` set (lru_abs tmp) \<subseteq> fst ` set (lru_abs items)"
  shows "\<exists>items' tmp'. updateOnline_loop n us items tmp = Inr (items', tmp') \<and> cs_ok tmp' \<and>
    chatter_name tmp' = (\<lambda>u. if u \<in> set us then online_name n items u else chatter_name tmp u)"
  using assms
proof (induction us arbitrary: items tmp "done")
  case Nil
  then show ?case by simp
next
  case (Cons c us)
  have new: "c \<notin> fst ` set (lru_abs tmp)" using Cons.prems(3,5) by auto
  then have no: "chatter_name tmp c = None" by (simp add: map_of_eq_None_iff)
  have step: "\<exists>items'' tmp''. updateOnline_loop n us items' (lru_put c v tmp) = Inr (items'', tmp'') \<and>
      cs_ok tmp'' \<and> chatter_name tmp'' =
        (\<lambda>u. if u \<in> set us then online_name n items u else ((chatter_name tmp)(c \<mapsto> v)) u)"
    if items': "cs_ok items'" "chatter_name items' = chatter_name items"
      and room: "n < chatterLimit \<or> c \<in> fst ` set (lru_abs items)" for items' v
  proof -
    have "fst ` set (lru_abs items') = fst ` set (lru_abs items)"
      using items'(2) by (metis dom_map_of_conv_image_fst)
    have "length (lru_abs tmp) < chatterLimit"
    proof (cases "n < chatterLimit")
      case True
      have "length (lru_abs tmp) \<le> card (set done)"
        using Cons.prems(2,5) by (simp add: lru.entries_length card_mono)
      also have "\<dots> \<le> length done" by (rule card_length)
      finally show ?thesis using True Cons.prems(4) by simp
    next
      case False
      then have "insert c (fst ` set (lru_abs tmp)) \<subseteq> fst ` set (lru_abs items)"
        using room Cons.prems(6) by auto
      then have "card (insert c (fst ` set (lru_abs tmp))) \<le> length (lru_abs items)"
        using Cons.prems(1) by (simp add: lru.entries_length card_mono)
      then show ?thesis
        using new Cons.prems(1,2) lru.bounded [of items] by (simp add: lru.entries_length)
    qed
    then have put: "chatter_name (lru_put c v tmp) = (chatter_name tmp)(c \<mapsto> v)"
      using Cons.prems(2) by (intro lru.lookup_put) auto
    have IH: "\<exists>items'' tmp''. updateOnline_loop n us items' (lru_put c v tmp) = Inr (items'', tmp'') \<and>
        cs_ok tmp'' \<and> chatter_name tmp'' =
          (\<lambda>u. if u \<in> set us then online_name n items' u else chatter_name (lru_put c v tmp) u)"
    proof (rule Cons.IH [of items' "lru_put c v tmp" "done @ [c]"])
      show "cs_ok (lru_put c v tmp)" using Cons.prems(2) by (simp add: lru.put_ok lru.put_cap)
      show "fst ` set (lru_abs (lru_put c v tmp)) \<subseteq> set (done @ [c])"
        using lru.put_keys [of tmp c v] Cons.prems(2,5) by auto
      show "\<not> n < chatterLimit \<Longrightarrow>
          fst ` set (lru_abs (lru_put c v tmp)) \<subseteq> fst ` set (lru_abs items')"
        using lru.put_keys [of tmp c v] Cons.prems(2,6) room
          \<open>fst ` set (lru_abs items') = fst ` set (lru_abs items)\<close> by auto
    qed (use Cons.prems items' in auto)
    have on: "online_name n items' = online_name n items"
      using items'(2) by (simp add: online_name_def fun_eq_iff)
    from IH show ?thesis unfolding on put .
  qed
  show ?case
  proof (cases "chatter_name items c")
    case None
    then have ex: "\<not> lru_exists c items" using Cons.prems(1) by (simp add: lru.has_iff)
    show ?thesis
    proof (cases "n < chatterLimit")
      case True
      from step [of items c] True Cons.prems(1) obtain i t where
        "updateOnline_loop n us items (lru_put c c tmp) = Inr (i, t)" "cs_ok t"
        "chatter_name t =
          (\<lambda>u. if u \<in> set us then online_name n items u else ((chatter_name tmp)(c \<mapsto> c)) u)"
        by auto
      moreover have "online_name n items c = Some c" using None True by (simp add: online_name_def)
      ultimately show ?thesis using ex True by (auto simp: fun_eq_iff)
    next
      case False
      have "\<exists>i t. updateOnline_loop n us items tmp = Inr (i, t) \<and> cs_ok t \<and>
          chatter_name t = (\<lambda>u. if u \<in> set us then online_name n items u else chatter_name tmp u)"
        by (rule Cons.IH [of items tmp "done @ [c]"]) (use Cons.prems in auto)
      moreover have "online_name n items c = None" using None False by (simp add: online_name_def)
      ultimately show ?thesis using ex False no by (auto simp: fun_eq_iff)
    qed
  next
    case (Some v)
    then have ex: "lru_exists c items" using Cons.prems(1) by (simp add: lru.has_iff)
    obtain items' where get: "lru_get c items = Inr (items', v)" "lru_ok items'"
        "lru_max items' = lru_max items" "lru_abs items' = mtf_get c (lru_abs items)"
      using lru.get_hit [of items c v] Cons.prems(1) Some by auto
    have "c \<in> fst ` set (lru_abs items)" using Some by (force dest: map_of_SomeD)
    with step [of items' v] get Cons.prems(1) obtain i t where
      "updateOnline_loop n us items' (lru_put c v tmp) = Inr (i, t)" "cs_ok t"
      "chatter_name t =
        (\<lambda>u. if u \<in> set us then online_name n items u else ((chatter_name tmp)(c \<mapsto> v)) u)"
      by (auto simp: lru.lookup_get)
    moreover have "online_name n items c = Some v" using Some by (simp add: online_name_def)
    ultimately show ?thesis using ex get(1) by (auto simp: fun_eq_iff)
  qed
qed

text \<open>
  After an update exactly the online users are known (all of them when they are fewer than the
  limit, otherwise those that were known), under the casing they were last seen with; the update
  never throws and nothing is evicted.
\<close>

theorem updateOnlineChatters_names:
  assumes "cs_ok s" "distinct us"
  shows "\<exists>s'. updateOnlineChatters us s = Inr s' \<and> cs_ok s' \<and>
    (\<forall>u. chatter_name s' u = (if u \<in> set us then online_name (length us) s u else None))"
proof -
  obtain i t where "updateOnline_loop (length us) us s (lru_new chatterLimit) = Inr (i, t)" "cs_ok t"
      "chatter_name t = (\<lambda>u. if u \<in> set us then online_name (length us) s u
         else chatter_name (lru_new chatterLimit) u)"
    using updateOnline_loop_spec [of s "lru_new chatterLimit" "[]" us "length us"] assms by auto
  then show ?thesis
    by (auto simp: updateOnlineChatters_def)
qed

theorem updateOnlineChatters_names_witness:
  "\<exists>s'. updateOnlineChatters [''abc'', ''x''] (addRecentChatter id ''abc'' ChatterSet) = Inr s' \<and>
     chatter_name s' ''x'' = Some ''x'' \<and> chatter_name s' ''y'' = None"
proof -
  have "cs_ok (addRecentChatter id ''abc'' ChatterSet)"
    by (rule addRecentChatter_ok [OF ChatterSet_ok])
  moreover have "chatter_name (addRecentChatter id ''abc'' ChatterSet) ''x'' = None"
    by code_simp
  ultimately show ?thesis
    using updateOnlineChatters_names [of "addRecentChatter id ''abc'' ChatterSet" "[''abc'', ''x'']"]
    by (auto simp: online_name_def chatterLimit_def)
qed

text \<open>
  Completion by prefix offers every known chatter whose lower-case name starts with the
  lower-cased prefix, each once, and a chatter that has just spoken first.
\<close>

theorem filterByPrefix_recent:
  assumes "cs_ok s" "prefix (lower p) (lower name)"
  shows "\<exists>rest. filterByPrefix lower p (addRecentChatter lower name s) = name # rest \<and>
    set rest \<subseteq> {v. \<exists>k. k \<noteq> lower name \<and> chatter_name s k = Some v \<and> prefix (lower p) k}"
proof -
  let ?others = "filter (\<lambda>e. fst e \<noteq> lower name) (lru_abs s)"
  have "lru_abs (addRecentChatter lower name s) = (lower name, name) # take 1999 ?others"
    using assms(1) by (simp add: addRecentChatter_def lru.put_entries mtf_put_def chatterLimit_def
        take_Cons' del: numeral_eq_Suc)
  then have "filterByPrefix lower p (addRecentChatter lower name s) =
      name # map snd (filter (\<lambda>e. prefix (lower p) (fst e)) (take 1999 ?others))"
    using assms(2) by (simp add: filterByPrefix_def)
  moreover have "chatter_name s k = Some v" if "(k, v) \<in> set (lru_abs s)" for k v
    using that lru.keys_distinct [of s] assms(1) by (simp add: map_of_eq_Some_iff)
  ultimately show ?thesis by (force dest: in_set_takeD)
qed

theorem filterByPrefix_recent_witness:
  "\<exists>rest. filterByPrefix id ''al'' (addRecentChatter id ''alice'' (addRecentChatter id ''alan'' ChatterSet))
     = ''alice'' # rest"
proof -
  have "cs_ok (addRecentChatter id ''alan'' ChatterSet)"
    by (rule addRecentChatter_ok [OF ChatterSet_ok])
  then show ?thesis
    using filterByPrefix_recent [of "addRecentChatter id ''alan'' ChatterSet" id "''al''" "''alice''"]
    by auto
qed

section \<open>ChannelChatters\<close>

text \<open>
  A pending single-shot timer is an entry of \<open>cc_timers\<close>, a message added to the channel (with
  the \<open>Collapsed\<close> flag) an entry of \<open>cc_messages\<close>. A timer callback runs under the lock of the
  list it reads, so firing a timer is one step. Colours are stored as RGB values; \<open>None\<close> is
  the invalid \<open>QColor()\<close>.
\<close>

datatype cc_timer = JoinTimer | PartTimer

record user_list_message =
  ulm_prefix :: qstring
  ulm_users :: "qstring list"
  ulm_collapsed :: bool

record 'rgb channel_chatters =
  cc_chatters :: chatter_set
  cc_colors :: "(qstring, 'rgb) lru_cache"
  cc_joined :: "qstring list"
  cc_joinedQueued :: bool
  cc_parted :: "qstring list"
  cc_partedQueued :: bool
  cc_timers :: "cc_timer list"
  cc_messages :: "user_list_message list"

definition maxChatterColorCount :: nat where
  "maxChatterColorCount = 5000"

definition ChannelChatters :: "'rgb channel_chatters" where
  "ChannelChatters = \<lparr>cc_chatters = ChatterSet, cc_colors = lru_new maxChatterColorCount,
     cc_joined = [], cc_joinedQueued = False, cc_parted = [], cc_partedQueued = False,
     cc_timers = [], cc_messages = []\<rparr>"

definition cc_addRecentChatter :: "(qstring \<Rightarrow> qstring) \<Rightarrow> qstring \<Rightarrow> 'rgb channel_chatters
    \<Rightarrow> 'rgb channel_chatters" where
  "cc_addRecentChatter lower user c = c\<lparr>cc_chatters := addRecentChatter lower user (cc_chatters c)\<rparr>"

definition addJoinedUser :: "qstring \<Rightarrow> 'rgb channel_chatters \<Rightarrow> 'rgb channel_chatters" where
  "addJoinedUser user c =
     (let c1 = c\<lparr>cc_joined := cc_joined c @ [user]\<rparr>
      in if \<not> cc_joinedQueued c1
         then c1\<lparr>cc_joinedQueued := True, cc_timers := cc_timers c1 @ [JoinTimer]\<rparr> else c1)"

definition addPartedUser :: "qstring \<Rightarrow> 'rgb channel_chatters \<Rightarrow> 'rgb channel_chatters" where
  "addPartedUser user c =
     (let c1 = c\<lparr>cc_parted := cc_parted c @ [user]\<rparr>
      in if \<not> cc_partedQueued c1
         then c1\<lparr>cc_partedQueued := True, cc_timers := cc_timers c1 @ [PartTimer]\<rparr> else c1)"

definition fireJoined :: "'rgb channel_chatters \<Rightarrow> 'rgb channel_chatters" where
  "fireJoined c = c\<lparr>
     cc_messages := cc_messages c @ [\<lparr>ulm_prefix = ''Users joined:'',
       ulm_users = sort (cc_joined c), ulm_collapsed = True\<rparr>],
     cc_joined := [], cc_joinedQueued := False\<rparr>"

definition fireParted :: "'rgb channel_chatters \<Rightarrow> 'rgb channel_chatters" where
  "fireParted c = c\<lparr>
     cc_messages := cc_messages c @ [\<lparr>ulm_prefix = ''Users parted:'',
       ulm_users = sort (cc_parted c), ulm_collapsed = True\<rparr>],
     cc_parted := [], cc_partedQueued := False\<rparr>"

definition cc_updateOnlineChatters :: "qstring list \<Rightarrow> 'rgb channel_chatters
    \<Rightarrow> lru_error + 'rgb channel_chatters" where
  "cc_updateOnlineChatters usernames c =
     (case updateOnlineChatters usernames (cc_chatters c) of
        Inl e \<Rightarrow> Inl e | Inr s \<Rightarrow> Inr (c\<lparr>cc_chatters := s\<rparr>))"

definition colorsSize :: "'rgb channel_chatters \<Rightarrow> nat" where
  "colorsSize c = lru_size (cc_colors c)"

definition getUserColor :: "(qstring \<Rightarrow> qstring) \<Rightarrow> qstring \<Rightarrow> 'rgb channel_chatters
    \<Rightarrow> lru_error + 'rgb channel_chatters \<times> 'rgb option" where
  "getUserColor lower user c =
     (let lowerUser = lower user in
      if \<not> lru_exists lowerUser (cc_colors c) then Inr (c, None)
      else (case lru_get lowerUser (cc_colors c) of
              Inl e \<Rightarrow> Inl e
            | Inr (cols, rgb) \<Rightarrow> Inr (c\<lparr>cc_colors := cols\<rparr>, Some rgb)))"

definition setUserColor :: "(qstring \<Rightarrow> qstring) \<Rightarrow> qstring \<Rightarrow> 'rgb \<Rightarrow> 'rgb channel_chatters
    \<Rightarrow> 'rgb channel_chatters" where
  "setUserColor lower user rgb c = c\<lparr>cc_colors := lru_put (lower user) rgb (cc_colors c)\<rparr>"

text \<open>
  Joins, parts and timers in any order. A timer that fires is the one at any position of the
  pending list.
\<close>

inductive cc_step :: "'rgb channel_chatters \<Rightarrow> qstring list \<Rightarrow> qstring list \<Rightarrow> 'rgb channel_chatters
    \<Rightarrow> bool" where
  join: "cc_step c [u] [] (addJoinedUser u c)"
| part: "cc_step c [] [u] (addPartedUser u c)"
| joinTimer: "i < length (cc_timers c) \<Longrightarrow> cc_timers c ! i = JoinTimer \<Longrightarrow>
    cc_step c [] [] (fireJoined (c\<lparr>cc_timers := remove_at i (cc_timers c)\<rparr>))"
| partTimer: "i < length (cc_timers c) \<Longrightarrow> cc_timers c ! i = PartTimer \<Longrightarrow>
    cc_step c [] [] (fireParted (c\<lparr>cc_timers := remove_at i (cc_timers c)\<rparr>))"

inductive cc_run :: "qstring list \<Rightarrow> qstring list \<Rightarrow> 'rgb channel_chatters \<Rightarrow> bool" where
  start: "cc_run [] [] ChannelChatters"
| step: "cc_run js ps c \<Longrightarrow> cc_step c j p c' \<Longrightarrow> cc_run (js @ j) (ps @ p) c'"

definition reported :: "qstring \<Rightarrow> 'rgb channel_chatters \<Rightarrow> qstring list" where
  "reported pre c = concat (map ulm_users (filter (\<lambda>m. ulm_prefix m = pre) (cc_messages c)))"

definition cc_inv :: "'rgb channel_chatters \<Rightarrow> bool" where
  "cc_inv c \<longleftrightarrow>
     count_list (cc_timers c) JoinTimer = (if cc_joinedQueued c then 1 else 0) \<and>
     count_list (cc_timers c) PartTimer = (if cc_partedQueued c then 1 else 0) \<and>
     (cc_joined c \<noteq> [] \<longleftrightarrow> cc_joinedQueued c) \<and> (cc_parted c \<noteq> [] \<longleftrightarrow> cc_partedQueued c)"

lemma count_list_remove_at:
  "i < length xs \<Longrightarrow> count_list (remove_at i xs) x = count_list xs x - (if xs ! i = x then 1 else 0)"
  using arg_cong [OF mset_remove_at [of i xs], of "\<lambda>m. count m x"]
  by (auto simp: count_mset split: if_splits)

lemma cc_step_inv: "cc_step c j p c' \<Longrightarrow> cc_inv c \<Longrightarrow> cc_inv c'"
  by (induction rule: cc_step.induct)
     (auto simp: cc_inv_def addJoinedUser_def addPartedUser_def fireJoined_def fireParted_def Let_def
        count_list_remove_at)

lemma cc_step_reported:
  "cc_step c j p c' \<Longrightarrow>
   mset (reported ''Users joined:'' c') + mset (cc_joined c') =
     mset (reported ''Users joined:'' c) + mset (cc_joined c) + mset j \<and>
   mset (reported ''Users parted:'' c') + mset (cc_parted c') =
     mset (reported ''Users parted:'' c) + mset (cc_parted c) + mset p"
  by (induction rule: cc_step.induct)
     (auto simp: reported_def addJoinedUser_def addPartedUser_def fireJoined_def fireParted_def Let_def)

text \<open>
  No join or part is lost or reported twice, whatever the order of events and timers: the users
  named by the posted messages together with those still waiting are exactly the users that
  joined (or parted), and users wait only while a timer that will report them is pending.
\<close>

theorem chatters_reported_once:
  assumes "cc_run js ps c"
  shows "mset (reported ''Users joined:'' c) + mset (cc_joined c) = mset js \<and>
    mset (reported ''Users parted:'' c) + mset (cc_parted c) = mset ps \<and>
    (cc_joined c \<noteq> [] \<longleftrightarrow> count_list (cc_timers c) JoinTimer = 1) \<and>
    (cc_parted c \<noteq> [] \<longleftrightarrow> count_list (cc_timers c) PartTimer = 1)"
proof -
  have "cc_inv c \<and> mset (reported ''Users joined:'' c) + mset (cc_joined c) = mset js \<and>
      mset (reported ''Users parted:'' c) + mset (cc_parted c) = mset ps"
    using assms
  proof (induction rule: cc_run.induct)
    case start
    then show ?case by (simp add: cc_inv_def ChannelChatters_def reported_def)
  next
    case (step js ps c j p c')
    then show ?case using cc_step_inv cc_step_reported [OF step.hyps(2)] by fastforce
  qed
  then show ?thesis by (auto simp: cc_inv_def)
qed

theorem chatters_reported_once_witness:
  "mset (reported ''Users joined:'' (addJoinedUser ''bob'' (ChannelChatters :: nat channel_chatters))) +
   mset (cc_joined (addJoinedUser ''bob'' (ChannelChatters :: nat channel_chatters))) = {#''bob''#}"
proof -
  have "cc_run ([] @ [''bob'']) ([] @ []) (addJoinedUser ''bob'' (ChannelChatters :: nat channel_chatters))"
    by (rule cc_run.step [OF cc_run.start cc_step.join])
  from chatters_reported_once [OF this] show ?thesis by simp
qed

end
