(* ===== verification/Filter_Types.thy ===== *)
theory Filter_Types
  imports Prelude "HOL-Library.Signed_Division"
begin

text \<open>
  \<open>controllers/filters/parser/Types.hpp\<close> and \<open>Types.cpp\<close>: token types and the expressions of the
  message filter language, with their evaluation (\<open>execute\<close>) and printing (\<open>filterString\<close>).

  QVariant is a datatype of the kinds of value the evaluator meets. Qt's conversions and its
  case-insensitive string operations are the fields of \<open>qt_ops\<close>, a parameter of the evaluator.
  \<open>int\<close> arithmetic whose result does not fit 32 bits, and division by zero, are undefined in C++;
  they are the two values of \<open>exec_error\<close>.
\<close>

section \<open>Token types\<close>

datatype TokenType = CONTROL_START | AND | OR | LP | RP | LIST_START | LIST_END | COMMA | CONTROL_END
  | BINARY_START | EQ | NEQ | LT | GT | LTE | GTE | CONTAINS | STARTS_WITH | ENDS_WITH | MATCH
  | BINARY_END | UNARY_START | NOT | UNARY_END | MATH_START | PLUS | MINUS | MULTIPLY | DIVIDE | MOD
  | MATH_END | OTHER_START | STRING | INT' | IDENTIFIER | REGULAR_EXPRESSION | NONE

fun token_value :: "TokenType \<Rightarrow> nat" where
  "token_value CONTROL_START = 0"
| "token_value AND = 1"
| "token_value OR = 2"
| "token_value LP = 3"
| "token_value RP = 4"
| "token_value LIST_START = 5"
| "token_value LIST_END = 6"
| "token_value COMMA = 7"
| "token_value CONTROL_END = 19"
| "token_value BINARY_START = 20"
| "token_value EQ = 21"
| "token_value NEQ = 22"
| "token_value LT = 23"
| "token_value GT = 24"
| "token_value LTE = 25"
| "token_value GTE = 26"
| "token_value CONTAINS = 27"
| "token_value STARTS_WITH = 28"
| "token_value ENDS_WITH = 29"
| "token_value MATCH = 30"
| "token_value BINARY_END = 49"
| "token_value UNARY_START = 50"
| "token_value NOT = 51"
| "token_value UNARY_END = 99"
| "token_value MATH_START = 100"
| "token_value PLUS = 101"
| "token_value MINUS = 102"
| "token_value MULTIPLY = 103"
| "token_value DIVIDE = 104"
| "token_value MOD = 105"
| "token_value MATH_END = 149"
| "token_value OTHER_START = 150"
| "token_value STRING = 151"
| "token_value INT' = 152"
| "token_value IDENTIFIER = 153"
| "token_value REGULAR_EXPRESSION = 154"
| "token_value NONE = 200"

fun tokenTypeToInfoString :: "TokenType \<Rightarrow> qstring" where
  "tokenTypeToInfoString AND = ''<and>''"
| "tokenTypeToInfoString OR = ''<or>''"
| "tokenTypeToInfoString LP = ''<left parenthesis>''"
| "tokenTypeToInfoString RP = ''<right parenthesis>''"
| "tokenTypeToInfoString LIST_START = ''<list start>''"
| "tokenTypeToInfoString LIST_END = ''<list end>''"
| "tokenTypeToInfoString COMMA = ''<comma>''"
| "tokenTypeToInfoString PLUS = ''<plus>''"
| "tokenTypeToInfoString MINUS = ''<minus>''"
| "tokenTypeToInfoString MULTIPLY = ''<multiply>''"
| "tokenTypeToInfoString DIVIDE = ''<divide>''"
| "tokenTypeToInfoString MOD = ''<modulus>''"
| "tokenTypeToInfoString EQ = ''<equals>''"
| "tokenTypeToInfoString NEQ = ''<not equals>''"
| "tokenTypeToInfoString LT = ''<less than>''"
| "tokenTypeToInfoString GT = ''<greater than>''"
| "tokenTypeToInfoString LTE = ''<less than equal>''"
| "tokenTypeToInfoString GTE = ''<greater than equal>''"
| "tokenTypeToInfoString CONTAINS = ''<contains>''"
| "tokenTypeToInfoString STARTS_WITH = ''<starts with>''"
| "tokenTypeToInfoString ENDS_WITH = ''<ends with>''"
| "tokenTypeToInfoString MATCH = ''<match>''"
| "tokenTypeToInfoString NOT = ''<not>''"
| "tokenTypeToInfoString STRING = ''<string>''"
| "tokenTypeToInfoString INT' = ''<int>''"
| "tokenTypeToInfoString IDENTIFIER = ''<identifier>''"
| "tokenTypeToInfoString _ = ''<unknown>''"

section \<open>Values\<close>

datatype qregex = QRegex (rx_pattern: qstring) (rx_caseInsensitive: bool)

datatype qvariant = VInvalid | VBool bool | VInt int | VString qstring | VStringList "qstring list"
  | VList "qvariant list" | VMap "(qstring \<times> qvariant) list" | VColor int | VRegex qregex

text \<open>
  Qt: \<open>canConvert\<close>, \<open>toString\<close>, \<open>toBool\<close>; \<open>convert(Int)\<close> and \<open>convert(Bool)\<close> as the converted value
  when they succeed; the case-insensitive comparisons of QString; \<open>operator==\<close> of QVariant; a
  regular expression match as the function from group numbers to captured texts.
\<close>

record qt_ops =
  canConvertString :: "qvariant \<Rightarrow> bool"
  toString :: "qvariant \<Rightarrow> qstring"
  canConvertBool :: "qvariant \<Rightarrow> bool"
  toBool :: "qvariant \<Rightarrow> bool"
  convertInt :: "qvariant \<Rightarrow> int option"
  convertBool :: "qvariant \<Rightarrow> bool option"
  equalCI :: "qstring \<Rightarrow> qstring \<Rightarrow> bool"
  containsCI :: "qstring \<Rightarrow> qstring \<Rightarrow> bool"
  startsWithCI :: "qstring \<Rightarrow> qstring \<Rightarrow> bool"
  endsWithCI :: "qstring \<Rightarrow> qstring \<Rightarrow> bool"
  variantEq :: "qvariant \<Rightarrow> qvariant \<Rightarrow> bool"
  regexMatch :: "qregex \<Rightarrow> qstring \<Rightarrow> (int \<Rightarrow> qstring) option"

datatype exec_error = DivideByZero | SignedOverflow

type_synonym context_map = "qstring \<rightharpoonup> qvariant"

definition int_result :: "int \<Rightarrow> exec_error + qvariant" where
  "int_result i = (if - (2 ^ 31) \<le> i \<and> i < 2 ^ 31 then Inr (VInt i) else Inl SignedOverflow)"

definition convertVariantInts :: "qt_ops \<Rightarrow> qvariant \<Rightarrow> qvariant \<Rightarrow> (int \<times> int) option" where
  "convertVariantInts qt a b =
     (case convertInt qt a of None \<Rightarrow> None
      | Some i \<Rightarrow> (case convertInt qt b of None \<Rightarrow> None | Some j \<Rightarrow> Some (i, j)))"

definition convertVariantBools :: "qt_ops \<Rightarrow> qvariant \<Rightarrow> qvariant \<Rightarrow> (bool \<times> bool) option" where
  "convertVariantBools qt a b =
     (case convertBool qt a of None \<Rightarrow> None
      | Some i \<Rightarrow> (case convertBool qt b of None \<Rightarrow> None | Some j \<Rightarrow> Some (i, j)))"

section \<open>Expressions\<close>

datatype expr = ValueExpression qvariant TokenType
  | RegexExpression qstring bool
  | ListExpression "expr list"
  | BinaryOperation TokenType expr expr
  | UnaryOperation TokenType expr

subsection \<open>The binary operators\<close>

definition exec_plus :: "qt_ops \<Rightarrow> qvariant \<Rightarrow> qvariant \<Rightarrow> exec_error + qvariant" where
  "exec_plus qt left right =
     (case left of
        VString s \<Rightarrow> if canConvertString qt right then Inr (VString (s @ toString qt right))
          else (case convertVariantInts qt left right of
                  Some (i, j) \<Rightarrow> int_result (i + j) | None \<Rightarrow> Inr (VInt 0))
      | _ \<Rightarrow> (case convertVariantInts qt left right of
                Some (i, j) \<Rightarrow> int_result (i + j) | None \<Rightarrow> Inr (VInt 0)))"

definition exec_math :: "qt_ops \<Rightarrow> (int \<Rightarrow> int \<Rightarrow> exec_error + qvariant) \<Rightarrow> qvariant \<Rightarrow> qvariant
    \<Rightarrow> exec_error + qvariant" where
  "exec_math qt f left right =
     (case convertVariantInts qt left right of Some (i, j) \<Rightarrow> f i j | None \<Rightarrow> Inr (VInt 0))"

text \<open>C++ division truncates; \<open>INT_MIN / -1\<close> does not fit, and makes \<open>%\<close> undefined as well.\<close>

definition int_divide :: "int \<Rightarrow> int \<Rightarrow> exec_error + qvariant" where
  "int_divide i j = (if j = 0 then Inl DivideByZero else int_result (i sdiv j))"

definition int_modulo :: "int \<Rightarrow> int \<Rightarrow> exec_error + qvariant" where
  "int_modulo i j =
     (if j = 0 then Inl DivideByZero
      else if i = - (2 ^ 31) \<and> j = -1 then Inl SignedOverflow
      else int_result (i smod j))"

definition exec_logic :: "qt_ops \<Rightarrow> (bool \<Rightarrow> bool \<Rightarrow> bool) \<Rightarrow> qvariant \<Rightarrow> qvariant \<Rightarrow> qvariant" where
  "exec_logic qt f left right =
     (case convertVariantBools qt left right of Some (a, b) \<Rightarrow> VBool (f a b) | None \<Rightarrow> VBool False)"

definition exec_compare :: "qt_ops \<Rightarrow> (int \<Rightarrow> int \<Rightarrow> bool) \<Rightarrow> qvariant \<Rightarrow> qvariant \<Rightarrow> qvariant" where
  "exec_compare qt f left right =
     (case convertVariantInts qt left right of Some (i, j) \<Rightarrow> VBool (f i j) | None \<Rightarrow> VBool False)"

fun variants_equal :: "qt_ops \<Rightarrow> qvariant \<Rightarrow> qvariant \<Rightarrow> bool" where
  "variants_equal qt (VString a) (VString b) = equalCI qt a b"
| "variants_equal qt left right = variantEq qt left right"

definition both_strings :: "qt_ops \<Rightarrow> (qstring \<Rightarrow> qstring \<Rightarrow> bool) \<Rightarrow> qvariant \<Rightarrow> qvariant \<Rightarrow> qvariant" where
  "both_strings qt f left right =
     (if canConvertString qt left \<and> canConvertString qt right
      then VBool (f (toString qt left) (toString qt right)) else VBool False)"

definition exec_contains :: "qt_ops \<Rightarrow> qvariant \<Rightarrow> qvariant \<Rightarrow> qvariant" where
  "exec_contains qt left right =
     (case left of
        VStringList xs \<Rightarrow>
          if canConvertString qt right
          then VBool (list_ex (\<lambda>x. equalCI qt x (toString qt right)) xs)
          else both_strings qt (containsCI qt) left right
      | VMap m \<Rightarrow>
          if canConvertString qt right then VBool (list_ex (\<lambda>e. fst e = toString qt right) m)
          else both_strings qt (containsCI qt) left right
      | VList xs \<Rightarrow> VBool (list_ex (\<lambda>x. variantEq qt x right) xs)
      | _ \<Rightarrow> both_strings qt (containsCI qt) left right)"

text \<open>
  The string-list cases of \<open>startswith\<close> and \<open>endswith\<close> use the result of \<open>compare\<close>, which is 0
  for equal strings, as a truth value.
\<close>

definition exec_startswith :: "qt_ops \<Rightarrow> qvariant \<Rightarrow> qvariant \<Rightarrow> qvariant" where
  "exec_startswith qt left right =
     (case left of
        VStringList xs \<Rightarrow>
          if canConvertString qt right
          then VBool (case xs of [] \<Rightarrow> False | x # _ \<Rightarrow> \<not> equalCI qt x (toString qt right))
          else both_strings qt (startsWithCI qt) left right
      | VList xs \<Rightarrow> VBool (case xs of [] \<Rightarrow> False | x # _ \<Rightarrow> variantEq qt x right)
      | _ \<Rightarrow> both_strings qt (startsWithCI qt) left right)"

definition exec_endswith :: "qt_ops \<Rightarrow> qvariant \<Rightarrow> qvariant \<Rightarrow> qvariant" where
  "exec_endswith qt left right =
     (case left of
        VStringList xs \<Rightarrow>
          if canConvertString qt right
          then VBool (xs \<noteq> [] \<and> \<not> equalCI qt (last xs) (toString qt right))
          else both_strings qt (endsWithCI qt) left right
      | VList xs \<Rightarrow> VBool (xs \<noteq> [] \<and> variantEq qt (last xs) right)
      | _ \<Rightarrow> both_strings qt (endsWithCI qt) left right)"

definition exec_match :: "qt_ops \<Rightarrow> qvariant \<Rightarrow> qvariant \<Rightarrow> qvariant" where
  "exec_match qt left right =
     (if \<not> canConvertString qt left then VBool False
      else let matching = toString qt left in
        (case right of
           VRegex r \<Rightarrow> VBool (regexMatch qt r matching \<noteq> None)
         | VList [VRegex r, VInt n] \<Rightarrow>
             (case regexMatch qt r matching of
                Some captured \<Rightarrow> VString (captured n) | None \<Rightarrow> VBool False)
         | _ \<Rightarrow> VBool False))"

fun exec_binary :: "qt_ops \<Rightarrow> TokenType \<Rightarrow> qvariant \<Rightarrow> qvariant \<Rightarrow> exec_error + qvariant" where
  "exec_binary qt PLUS left right = exec_plus qt left right"
| "exec_binary qt MINUS left right = exec_math qt (\<lambda>i j. int_result (i - j)) left right"
| "exec_binary qt MULTIPLY left right = exec_math qt (\<lambda>i j. int_result (i * j)) left right"
| "exec_binary qt DIVIDE left right = exec_math qt int_divide left right"
| "exec_binary qt MOD left right = exec_math qt int_modulo left right"
| "exec_binary qt OR left right = Inr (exec_logic qt (\<lambda>a b. a \<or> b) left right)"
| "exec_binary qt AND left right = Inr (exec_logic qt (\<lambda>a b. a \<and> b) left right)"
| "exec_binary qt EQ left right = Inr (VBool (variants_equal qt left right))"
| "exec_binary qt NEQ left right = Inr (VBool (\<not> variants_equal qt left right))"
| "exec_binary qt LT left right = Inr (exec_compare qt (<) left right)"
| "exec_binary qt GT left right = Inr (exec_compare qt (>) left right)"
| "exec_binary qt LTE left right = Inr (exec_compare qt (\<le>) left right)"
| "exec_binary qt GTE left right = Inr (exec_compare qt (\<ge>) left right)"
| "exec_binary qt CONTAINS left right = Inr (exec_contains qt left right)"
| "exec_binary qt STARTS_WITH left right = Inr (exec_startswith qt left right)"
| "exec_binary qt ENDS_WITH left right = Inr (exec_endswith qt left right)"
| "exec_binary qt MATCH left right = Inr (exec_match qt left right)"
| "exec_binary qt _ left right = Inr (VBool False)"

fun exec_unary :: "qt_ops \<Rightarrow> TokenType \<Rightarrow> qvariant \<Rightarrow> qvariant" where
  "exec_unary qt NOT right =
     (if canConvertBool qt right then VBool (\<not> toBool qt right) else VBool False)"
| "exec_unary qt _ right = VBool False"

definition list_result :: "qt_ops \<Rightarrow> qvariant list \<Rightarrow> qvariant" where
  "list_result qt results =
     (if list_all (\<lambda>v. case v of VString _ \<Rightarrow> True | _ \<Rightarrow> False) results
      then VStringList (map (toString qt) results) else VList results)"

fun execute :: "qt_ops \<Rightarrow> context_map \<Rightarrow> expr \<Rightarrow> exec_error + qvariant"
  and execute_list :: "qt_ops \<Rightarrow> context_map \<Rightarrow> expr list \<Rightarrow> exec_error + qvariant list" where
  "execute qt ctx (ValueExpression v t) =
     Inr (if t = IDENTIFIER then (case ctx (toString qt v) of Some x \<Rightarrow> x | None \<Rightarrow> VInvalid) else v)"
| "execute qt ctx (RegexExpression r ci) = Inr (VRegex (QRegex r ci))"
| "execute qt ctx (ListExpression es) =
     (case execute_list qt ctx es of Inl e \<Rightarrow> Inl e | Inr vs \<Rightarrow> Inr (list_result qt vs))"
| "execute qt ctx (BinaryOperation op l r) =
     (case execute qt ctx l of Inl e \<Rightarrow> Inl e
      | Inr left \<Rightarrow> (case execute qt ctx r of Inl e \<Rightarrow> Inl e
          | Inr right \<Rightarrow> exec_binary qt op left right))"
| "execute qt ctx (UnaryOperation op r) =
     (case execute qt ctx r of Inl e \<Rightarrow> Inl e | Inr right \<Rightarrow> Inr (exec_unary qt op right))"
| "execute_list qt ctx [] = Inr []"
| "execute_list qt ctx (e # es) =
     (case execute qt ctx e of Inl x \<Rightarrow> Inl x
      | Inr v \<Rightarrow> (case execute_list qt ctx es of Inl x \<Rightarrow> Inl x | Inr vs \<Rightarrow> Inr (v # vs)))"

end
