(* ===== verification/Qt_Text.thy ===== *)
theory Qt_Text
  imports Prelude
begin

text \<open>
  \<open>QString::arg\<close> as Qt documents it: the call replaces every place marker \<open>%n\<close> (\<open>%Ln\<close>, one or two
  digits) with the lowest number. The program builds texts with chained calls, where a marker that
  came in with an earlier argument is a marker of the later calls.
\<close>

section \<open>QString::arg\<close>

definition digit_value :: "char \<Rightarrow> nat" where
  "digit_value c = of_char c - 48"

text \<open>After a percent sign: an optional \<open>L\<close>, then one or two digits; the marker's number and length.\<close>

definition marker_at :: "qstring \<Rightarrow> (nat \<times> nat) option" where
  "marker_at s =
     (let t = (case s of c # r \<Rightarrow> if c = CHR ''L'' then r else s | [] \<Rightarrow> []);
          l = length s - length t
      in case t of
           d1 # r \<Rightarrow>
             if is_digit d1 then
               (case r of
                  d2 # _ \<Rightarrow> if is_digit d2 then Some (10 * digit_value d1 + digit_value d2, l + 2)
                           else Some (digit_value d1, l + 1)
                | [] \<Rightarrow> Some (digit_value d1, l + 1))
             else None
         | [] \<Rightarrow> None)"

fun lowest_marker :: "qstring \<Rightarrow> nat option" where
  "lowest_marker [] = None"
| "lowest_marker (c # s) =
     (if c = CHR ''%'' then
        (case marker_at s of
           Some (n, k) \<Rightarrow> (case lowest_marker (drop k s) of Some m \<Rightarrow> Some (min n m) | None \<Rightarrow> Some n)
         | None \<Rightarrow> lowest_marker s)
      else lowest_marker s)"

fun replace_marker :: "nat \<Rightarrow> qstring \<Rightarrow> qstring \<Rightarrow> qstring" where
  "replace_marker i a [] = []"
| "replace_marker i a (c # s) =
     (if c = CHR ''%'' then
        (case marker_at s of
           Some (n, k) \<Rightarrow>
             (if n = i then a else c # take k s) @ replace_marker i a (drop k s)
         | None \<Rightarrow> c # replace_marker i a s)
      else c # replace_marker i a s)"

definition qarg :: "qstring \<Rightarrow> qstring \<Rightarrow> qstring" where
  "qarg s a = (case lowest_marker s of None \<Rightarrow> s | Some i \<Rightarrow> replace_marker i a s)"

text \<open>A text without markers, closed by a parenthesis, is passed over.\<close>

lemma marker_at_closed: "marker_at a = None \<Longrightarrow> marker_at (a @ CHR '')'' # s) = None"
  by (cases a; cases "tl a") (auto simp: marker_at_def Let_def is_digit_def split: if_splits list.splits)

lemma lowest_marker_closed:
  "lowest_marker a = None \<Longrightarrow>
   lowest_marker (a @ CHR '')'' # s) = lowest_marker s \<and>
   replace_marker i x (a @ CHR '')'' # s) = a @ CHR '')'' # replace_marker i x s"
proof (induction a)
  case Nil
  then show ?case by simp
next
  case (Cons c a)
  show ?case
  proof (cases "c = CHR ''%''")
    case True
    then have "marker_at a = None" using Cons.prems by (auto split: option.splits)
    then have "marker_at (a @ CHR '')'' # s) = None" by (rule marker_at_closed)
    with True Cons \<open>marker_at a = None\<close> show ?thesis by simp
  next
    case False
    with Cons show ?thesis by simp
  qed
qed

lemma qarg_closed:
  assumes "lowest_marker a = None"
  shows "qarg (CHR ''('' # a @ CHR '')'' # s) x = CHR ''('' # a @ CHR '')'' # qarg s x"
  using lowest_marker_closed [OF assms, of s] by (simp add: qarg_def split: option.split)

section \<open>QString::split, join and section\<close>

fun split_on :: "char \<Rightarrow> qstring \<Rightarrow> qstring list" where
  "split_on sep [] = [[]]"
| "split_on sep (c # s) =
     (if c = sep then [] # split_on sep s
      else (case split_on sep s of [] \<Rightarrow> [[c]] | w # ws \<Rightarrow> (c # w) # ws))"

text \<open>With \<open>Qt::SkipEmptyParts\<close>.\<close>

definition split_skip :: "char \<Rightarrow> qstring \<Rightarrow> qstring list" where
  "split_skip sep s = filter (\<lambda>w. w \<noteq> []) (split_on sep s)"

fun join_with :: "char \<Rightarrow> qstring list \<Rightarrow> qstring" where
  "join_with sep [] = []"
| "join_with sep [w] = w"
| "join_with sep (w # ws) = w @ sep # join_with sep ws"

text \<open>\<open>section(sep, 0, 0)\<close> and \<open>section(sep, 1, -1)\<close>: what is before the first separator and after it.\<close>

definition section_first :: "char \<Rightarrow> qstring \<Rightarrow> qstring" where
  "section_first sep s = takeWhile (\<lambda>c. c \<noteq> sep) s"

definition section_rest :: "char \<Rightarrow> qstring \<Rightarrow> qstring" where
  "section_rest sep s = drop 1 (dropWhile (\<lambda>c. c \<noteq> sep) s)"

lemma split_on_nonempty [simp]: "split_on sep s \<noteq> []"
  by (induction s) (auto split: list.splits)

lemma split_on_word: "sep \<notin> set w \<Longrightarrow> split_on sep w = [w]"
  by (induction w) auto

lemma split_on_append: "sep \<notin> set w \<Longrightarrow> split_on sep (w @ sep # s) = w # split_on sep s"
  by (induction w) auto

lemma split_on_join: "ws \<noteq> [] \<Longrightarrow> \<forall>w \<in> set ws. sep \<notin> set w \<Longrightarrow> split_on sep (join_with sep ws) = ws"
  by (induction sep ws rule: join_with.induct) (auto simp: split_on_word split_on_append)

lemma split_on_words: "\<forall>w \<in> set (split_on sep s). sep \<notin> set w"
  by (induction sep s rule: split_on.induct) (auto split: list.splits)

lemma join_split_on: "join_with sep (split_on sep s) = s"
proof (induction sep s rule: split_on.induct)
  case (2 sep c s)
  obtain w ws where "split_on sep s = w # ws" using split_on_nonempty [of sep s] by (cases "split_on sep s") auto
  then show ?case using 2 by (cases ws) auto
qed simp

lemma concat_split_on: "concat (split_on sep s) = filter (\<lambda>c. c \<noteq> sep) s"
  by (induction sep s rule: split_on.induct) (auto split: list.splits)

lemma split_skip_join: "\<forall>w \<in> set ws. sep \<notin> set w \<and> w \<noteq> [] \<Longrightarrow> split_skip sep (join_with sep ws) = ws"
  by (cases "ws = []") (simp_all add: split_skip_def split_on_join)

lemma sections_of_pair:
  assumes "sep \<notin> set k"
  shows "section_first sep (k @ sep # v) = k" "section_rest sep (k @ sep # v) = v"
  using assms by (simp_all add: section_first_def section_rest_def takeWhile_append dropWhile_append)

section \<open>Trimming\<close>

text \<open>\<open>QChar::isSpace\<close> on the characters of Latin-1, and \<open>QString::trimmed\<close>.\<close>

definition q_isSpace :: "char \<Rightarrow> bool" where
  "q_isSpace c \<longleftrightarrow> of_char c \<in> {9, 10, 11, 12, 13, 32, 133, 160 :: nat}"

definition q_trimmed :: "qstring \<Rightarrow> qstring" where
  "q_trimmed s = rev (dropWhile q_isSpace (rev (dropWhile q_isSpace s)))"

lemma dropWhile_rev_dropWhile:
  "dropWhile P (rev (dropWhile P (rev (dropWhile P s)))) = rev (dropWhile P (rev (dropWhile P s)))"
proof (cases "dropWhile P s")
  case (Cons c t)
  then have c: "\<not> P c" by (metis hd_dropWhile list.distinct(1) list.sel(1))
  then have "dropWhile P (rev (c # t)) = dropWhile P (rev t) @ [c]" by (simp add: dropWhile_append3)
  then show ?thesis using c by (simp add: Cons)
next
  case Nil
  show ?thesis by (simp only: Nil) simp
qed

lemma q_trimmed_trimmed [simp]: "q_trimmed (q_trimmed s) = q_trimmed s"
proof -
  have "dropWhile q_isSpace (q_trimmed s) = q_trimmed s"
    unfolding q_trimmed_def by (rule dropWhile_rev_dropWhile)
  then have "q_trimmed (q_trimmed s) = rev (dropWhile q_isSpace (rev (q_trimmed s)))"
    by (simp add: q_trimmed_def)
  then show ?thesis by (simp add: q_trimmed_def)
qed

end
