(* ===== verification/Filter_Print.thy ===== *)
theory Filter_Print
  imports Filter_Types Qt_Text
begin

text \<open>
  The printing half of \<open>Types.cpp\<close>: \<open>debug\<close> and \<open>filterString\<close>. Both build their text with
  \<open>QString::arg\<close>; chained calls replace the lowest-numbered place marker of the text built so far,
  markers that came in with an argument included, so \<open>arg\<close> is modelled with its documented
  behaviour (\<open>qarg\<close>). \<open>render\<close> is the intended text, and \<open>filterString_render\<close> says when the code
  produces it.
\<close>

section \<open>filterString\<close>

definition escape_quotes :: "qstring \<Rightarrow> qstring" where
  "escape_quotes s = concat (map (\<lambda>c. if c = CHR 0x22 then [CHR 0x5C, CHR 0x22] else [c]) s)"

fun unescape_quotes :: "qstring \<Rightarrow> qstring" where
  "unescape_quotes (c # d # s) =
     (if c = CHR 0x5C \<and> d = CHR 0x22 then CHR 0x22 # unescape_quotes s
      else c # unescape_quotes (d # s))"
| "unescape_quotes s = s"

lemma escape_quotes_simps [simp]:
  "escape_quotes [] = []"
  "escape_quotes (c # s) =
     (if c = CHR 0x22 then CHR 0x5C # CHR 0x22 # escape_quotes s else c # escape_quotes s)"
  by (simp_all add: escape_quotes_def)

lemma unescape_escape: "unescape_quotes (escape_quotes s) = s"
proof (induction s)
  case Nil
  then show ?case by simp
next
  case (Cons c s)
  show ?case
  proof (cases "c = CHR 0x22")
    case True
    then show ?thesis using Cons by simp
  next
    case c: False
    show ?thesis
    proof (cases "escape_quotes s")
      case Nil
      then show ?thesis using Cons c by simp
    next
      case e: (Cons d t)
      then have "d \<noteq> CHR 0x22" by (cases s) (auto split: if_splits)
      then show ?thesis using Cons e c by simp
    qed
  qed
qed

fun binary_op_text :: "TokenType \<Rightarrow> qstring" where
  "binary_op_text AND = ''&&''"
| "binary_op_text OR = ''||''"
| "binary_op_text PLUS = ''+''"
| "binary_op_text MINUS = ''-''"
| "binary_op_text MULTIPLY = ''*''"
| "binary_op_text DIVIDE = ''/''"
| "binary_op_text MOD = ''%''"
| "binary_op_text EQ = ''==''"
| "binary_op_text NEQ = ''!=''"
| "binary_op_text LT = ''<''"
| "binary_op_text GT = ''>''"
| "binary_op_text LTE = ''<=''"
| "binary_op_text GTE = ''>=''"
| "binary_op_text CONTAINS = ''contains''"
| "binary_op_text STARTS_WITH = ''startswith''"
| "binary_op_text ENDS_WITH = ''endswith''"
| "binary_op_text MATCH = ''match''"
| "binary_op_text _ = ''''"

definition value_filterString :: "qt_ops \<Rightarrow> qvariant \<Rightarrow> TokenType \<Rightarrow> qstring" where
  "value_filterString qt v t =
     (case t of
        INT' \<Rightarrow> show_int (case convertInt qt v of Some i \<Rightarrow> i | None \<Rightarrow> 0)
      | STRING \<Rightarrow> qarg [CHR 0x22, CHR ''%'', CHR ''1'', CHR 0x22] (escape_quotes (toString qt v))
      | IDENTIFIER \<Rightarrow> toString qt v
      | _ \<Rightarrow> '''')"

definition join :: "qstring \<Rightarrow> qstring list \<Rightarrow> qstring" where
  "join sep xs = (case xs of [] \<Rightarrow> [] | x # rest \<Rightarrow> x @ concat (map (\<lambda>y. sep @ y) rest))"

fun filterString :: "qt_ops \<Rightarrow> expr \<Rightarrow> qstring" where
  "filterString qt (ValueExpression v t) = value_filterString qt v t"
| "filterString qt (RegexExpression r ci) =
     qarg (qarg (''%1'' @ [CHR 0x22] @ ''%2'' @ [CHR 0x22]) (if ci then ''ri'' else ''r''))
       (escape_quotes r)"
| "filterString qt (ListExpression es) =
     qarg ''{%1}'' (join '', '' (map (\<lambda>e. qarg ''(%1)'' (filterString qt e)) es))"
| "filterString qt (BinaryOperation op l r) =
     qarg (qarg (qarg ''(%1) %2 (%3)'' (filterString qt l)) (binary_op_text op)) (filterString qt r)"
| "filterString qt (UnaryOperation op r) =
     qarg (qarg ''%1(%2)'' (if op = NOT then ''!'' else '''')) (filterString qt r)"

text \<open>\<open>debug\<close> passes all arguments to one \<open>arg\<close> call, which replaces the markers of the format only.\<close>

fun debug :: "qt_ops \<Rightarrow> expr \<Rightarrow> qstring" where
  "debug qt (ValueExpression v t) = toString qt v"
| "debug qt (RegexExpression r ci) = r"
| "debug qt (ListExpression es) = qarg ''{%1}'' (join '', '' (map (debug qt) es))"
| "debug qt (BinaryOperation op l r) =
     ''('' @ debug qt l @ '' '' @ tokenTypeToInfoString op @ '' '' @ debug qt r @ '')''"
| "debug qt (UnaryOperation op r) = ''('' @ tokenTypeToInfoString op @ '' '' @ debug qt r @ '')''"

section \<open>The intended text\<close>

fun render :: "qt_ops \<Rightarrow> expr \<Rightarrow> qstring" where
  "render qt (ValueExpression v t) =
     (case t of
        INT' \<Rightarrow> show_int (case convertInt qt v of Some i \<Rightarrow> i | None \<Rightarrow> 0)
      | STRING \<Rightarrow> CHR 0x22 # escape_quotes (toString qt v) @ [CHR 0x22]
      | IDENTIFIER \<Rightarrow> toString qt v
      | _ \<Rightarrow> '''')"
| "render qt (RegexExpression r ci) =
     (if ci then ''ri'' else ''r'') @ CHR 0x22 # escape_quotes r @ [CHR 0x22]"
| "render qt (ListExpression es) =
     ''{'' @ join '', '' (map (\<lambda>e. ''('' @ render qt e @ '')'') es) @ ''}''"
| "render qt (BinaryOperation op l r) =
     ''('' @ render qt l @ '') '' @ binary_op_text op @ '' ('' @ render qt r @ '')''"
| "render qt (UnaryOperation op r) =
     (if op = NOT then ''!'' else '''') @ ''('' @ render qt r @ '')''"

text \<open>No left operand prints a place marker.\<close>

fun marker_free :: "qt_ops \<Rightarrow> expr \<Rightarrow> bool" where
  "marker_free qt (ValueExpression v t) = True"
| "marker_free qt (RegexExpression r ci) = True"
| "marker_free qt (ListExpression es) = list_all (marker_free qt) es"
| "marker_free qt (BinaryOperation op l r) =
     (lowest_marker (render qt l) = None \<and> marker_free qt l \<and> marker_free qt r)"
| "marker_free qt (UnaryOperation op r) = marker_free qt r"

lemma qarg_binary:
  assumes "lowest_marker l = None"
  shows "qarg (qarg (qarg ''(%1) %2 (%3)'' l) (binary_op_text op)) r =
    ''('' @ l @ '') '' @ binary_op_text op @ '' ('' @ r @ '')''"
proof -
  have 1: "qarg ''(%1) %2 (%3)'' l = CHR ''('' # l @ CHR '')'' # '' %2 (%3)''"
    by (simp add: qarg_def marker_at_def is_digit_def digit_value_def)
  have 2: "qarg '' %2 (%3)'' x = '' '' @ x @ '' (%3)''" for x
    by (simp add: qarg_def marker_at_def is_digit_def digit_value_def)
  have 3: "qarg ('' '' @ binary_op_text op @ '' (%3)'') x =
      '' '' @ binary_op_text op @ '' ('' @ x @ '')''" for x
    by (cases op) (simp_all add: qarg_def marker_at_def is_digit_def digit_value_def)
  show ?thesis unfolding 1 qarg_closed [OF assms] 2 3 by simp
qed

lemma qarg_one: "qarg ''(%1)'' x = ''('' @ x @ '')''" "qarg ''{%1}'' x = ''{'' @ x @ ''}''"
    "qarg [CHR 0x22, CHR ''%'', CHR ''1'', CHR 0x22] x = CHR 0x22 # x @ [CHR 0x22]"
  by (simp_all add: qarg_def marker_at_def is_digit_def digit_value_def)

lemma qarg_regex:
  "qarg (qarg (''%1'' @ [CHR 0x22] @ ''%2'' @ [CHR 0x22]) (if ci then ''ri'' else ''r'')) x =
     (if ci then ''ri'' else ''r'') @ CHR 0x22 # x @ [CHR 0x22]"
  by (simp add: qarg_def marker_at_def is_digit_def digit_value_def)

lemma qarg_unary:
  "qarg (qarg ''%1(%2)'' (if op = NOT then ''!'' else '''')) x =
     (if op = NOT then ''!'' else '''') @ ''('' @ x @ '')''"
  by (simp add: qarg_def marker_at_def is_digit_def digit_value_def)

text \<open>
  Where no left operand prints a percent sign, \<open>filterString\<close> is the plain text of the
  expression; the chained \<open>arg\<close> calls corrupt nothing else.
\<close>

theorem filterString_render: "marker_free qt e \<Longrightarrow> filterString qt e = render qt e"
proof (induction e)
  case (ValueExpression v t)
  then show ?case by (cases t) (simp_all add: value_filterString_def qarg_one)
next
  case (RegexExpression r ci)
  then show ?case by (simp only: filterString.simps render.simps qarg_regex)
next
  case (ListExpression es)
  then have "map (\<lambda>e. qarg ''(%1)'' (filterString qt e)) es = map (\<lambda>e. ''('' @ render qt e @ '')'') es"
    by (simp add: qarg_one list_all_iff)
  then show ?case by (simp only: filterString.simps render.simps qarg_one)
next
  case (BinaryOperation op l r)
  then show ?case using qarg_binary [of "render qt l" op "render qt r"] by simp
next
  case (UnaryOperation op r)
  then show ?case by (simp only: filterString.simps render.simps marker_free.simps qarg_unary)
qed

text \<open>
  A simple instance of Qt's operations: conversions of integers, booleans and strings, exact
  comparison, a regular expression that matches its own pattern only.
\<close>

definition plain_qt :: qt_ops where
  "plain_qt = \<lparr>
     canConvertString = (\<lambda>v. case v of VString _ \<Rightarrow> True | VInt _ \<Rightarrow> True | VBool _ \<Rightarrow> True | _ \<Rightarrow> False),
     toString = (\<lambda>v. case v of VString s \<Rightarrow> s | VInt i \<Rightarrow> show_int i
       | VBool b \<Rightarrow> if b then ''true'' else ''false'' | _ \<Rightarrow> []),
     canConvertBool = (\<lambda>v. case v of VString _ \<Rightarrow> True | VInt _ \<Rightarrow> True | VBool _ \<Rightarrow> True | _ \<Rightarrow> False),
     toBool = (\<lambda>v. case v of VBool b \<Rightarrow> b | VInt i \<Rightarrow> i \<noteq> 0
       | VString s \<Rightarrow> s \<noteq> [] \<and> s \<noteq> ''0'' \<and> s \<noteq> ''false'' | _ \<Rightarrow> False),
     convertInt = (\<lambda>v. case v of VInt i \<Rightarrow> Some i | VBool b \<Rightarrow> Some (if b then 1 else 0) | _ \<Rightarrow> None),
     convertBool = (\<lambda>v. case v of VBool b \<Rightarrow> Some b | VInt i \<Rightarrow> Some (i \<noteq> 0)
       | VString s \<Rightarrow> Some (s \<noteq> [] \<and> s \<noteq> ''0'' \<and> s \<noteq> ''false'') | _ \<Rightarrow> None),
     equalCI = (=), containsCI = (\<lambda>s t. sublist t s), startsWithCI = (\<lambda>s t. prefix t s),
     endsWithCI = (\<lambda>s t. suffix t s), variantEq = (=),
     regexMatch = (\<lambda>r s. if rx_pattern r = s then Some (\<lambda>n. if n = 0 then s else []) else None)\<rparr>"

text \<open>A left operand that prints a marker is corrupted: the filter \<open>"%1" == "b"\<close>.\<close>

lemma filterString_corrupts_markers:
  "filterString plain_qt (BinaryOperation EQ (ValueExpression (VString ''%1'') STRING)
      (ValueExpression (VString ''b'') STRING)) =
   ''('' @ [CHR 0x22] @ ''=='' @ [CHR 0x22] @ '') '' @ [CHR 0x22] @ ''b'' @ [CHR 0x22] @ '' (%3)''"
  by (simp add: plain_qt_def value_filterString_def qarg_def marker_at_def is_digit_def digit_value_def)

theorem filterString_render_witness:
  "filterString plain_qt (BinaryOperation MOD (ValueExpression (VInt 7) INT') (ValueExpression (VInt 2) INT'))
     = ''(7) % (2)''"
proof -
  have "marker_free plain_qt (BinaryOperation MOD (ValueExpression (VInt 7) INT') (ValueExpression (VInt 2) INT'))"
    by (simp add: plain_qt_def show_int_def show_nat.simps marker_at_def)
  note filterString_render [OF this]
  also have "render plain_qt (BinaryOperation MOD (ValueExpression (VInt 7) INT') (ValueExpression (VInt 2) INT'))
      = ''(7) % (2)''"
    by (simp add: plain_qt_def show_int_def show_nat.simps)
  finally show ?thesis .
qed

end
