(* ===== verification/Filter_Parser.thy ===== *)
theory Filter_Parser
  imports Filter_Print
begin

text \<open>
  \<open>controllers/filters/parser/Tokenizer.cpp\<close> and \<open>FilterParser.cpp\<close>: the tokenizer and the
  recursive-descent parser of the filter language.

  The tokenizer's regular expression is applied by Qt: \<open>globalMatch\<close> is a parameter, as is
  \<open>QString::toInt\<close> (\<open>textToInt\<close>). \<open>QStringList::at\<close> outside the list is the value \<open>None\<close>
  (in the parser: the error \<open>OutOfRange\<close>). The parser's methods call each other and loop, so they
  take fuel; \<open>parser_total\<close> shows that \<open>8 * length tokens + 8\<close>, which the constructor passes, is
  always enough and that no access is out of range.
\<close>

section \<open>Tokenizer\<close>

record tokenizer =
  tk_i :: nat
  tk_tokens :: "qstring list"
  tk_types :: "TokenType list"

definition validIdentifiersMap :: "(qstring \<times> qstring) list" where
  "validIdentifiersMap = [
     (''author.badges'', ''author badges''),
     (''author.color'', ''author color''),
     (''author.name'', ''author name''),
     (''author.no_color'', ''author has no color?''),
     (''author.subbed'', ''author subscribed?''),
     (''author.sub_length'', ''author sub length''),
     (''channel.name'', ''channel name''),
     (''channel.watching'', ''/watching channel?''),
     (''channel.live'', ''Channel live?''),
     (''flags.highlighted'', ''highlighted?''),
     (''flags.points_redeemed'', ''redeemed points?''),
     (''flags.sub_message'', ''sub/resub message?''),
     (''flags.system_message'', ''system message?''),
     (''flags.reward_message'', ''channel point reward message?''),
     (''flags.first_message'', ''first message?''),
     (''flags.whisper'', ''whisper message?''),
     (''flags.reply'', ''reply message?''),
     (''message.content'', ''message text''),
     (''message.length'', ''message length''),
     (''flags.webchat_detected'', ''Webchat detected'')]"

definition typeIsBinaryOp :: "TokenType \<Rightarrow> bool" where
  "typeIsBinaryOp t \<longleftrightarrow> token_value BINARY_START < token_value t \<and> token_value t < token_value BINARY_END"

definition typeIsUnaryOp :: "TokenType \<Rightarrow> bool" where
  "typeIsUnaryOp t \<longleftrightarrow> token_value UNARY_START < token_value t \<and> token_value t < token_value UNARY_END"

definition typeIsMathOp :: "TokenType \<Rightarrow> bool" where
  "typeIsMathOp t \<longleftrightarrow> token_value MATH_START < token_value t \<and> token_value t < token_value MATH_END"

definition typeIsOp :: "TokenType \<Rightarrow> bool" where
  "typeIsOp t \<longleftrightarrow> typeIsBinaryOp t \<or> typeIsUnaryOp t \<or> typeIsMathOp t \<or> t = AND \<or> t = OR"

text \<open>The matches of the token expression are never empty; \<open>back()\<close> and \<open>front()\<close> need that.\<close>

definition tokenize :: "(qstring \<Rightarrow> int option) \<Rightarrow> qstring \<Rightarrow> TokenType" where
  "tokenize textToInt text =
     (if text = ''&&'' then AND
      else if text = ''||'' then OR
      else if text = ''('' then LP
      else if text = '')'' then RP
      else if text = ''{'' then LIST_START
      else if text = ''}'' then LIST_END
      else if text = '','' then COMMA
      else if text = ''+'' then PLUS
      else if text = ''-'' then MINUS
      else if text = ''*'' then MULTIPLY
      else if text = ''/'' then DIVIDE
      else if text = ''=='' then EQ
      else if text = ''!='' then NEQ
      else if text = ''%'' then MOD
      else if text = ''<'' then LT
      else if text = ''>'' then GT
      else if text = ''<='' then LTE
      else if text = ''>='' then GTE
      else if text = ''contains'' then CONTAINS
      else if text = ''startswith'' then STARTS_WITH
      else if text = ''endswith'' then ENDS_WITH
      else if text = ''match'' then MATCH
      else if text = ''!'' then NOT
      else if (prefix [CHR ''r'', CHR 0x22] text \<or> prefix [CHR ''r'', CHR ''i'', CHR 0x22] text) \<and>
              last text = CHR 0x22 then REGULAR_EXPRESSION
      else if text \<noteq> [] \<and> hd text = CHR 0x22 \<and> last text = CHR 0x22 then STRING
      else if text \<in> set (map fst validIdentifiersMap) then IDENTIFIER
      else if textToInt text \<noteq> None then INT'
      else NONE)"

definition Tokenizer :: "(qstring \<Rightarrow> qstring list) \<Rightarrow> (qstring \<Rightarrow> int option) \<Rightarrow> qstring \<Rightarrow> tokenizer" where
  "Tokenizer globalMatch textToInt text =
     \<lparr>tk_i = 0, tk_tokens = globalMatch text, tk_types = map (tokenize textToInt) (globalMatch text)\<rparr>"

definition tk_hasNext :: "tokenizer \<Rightarrow> bool" where
  "tk_hasNext t \<longleftrightarrow> tk_i t < length (tk_tokens t)"

definition list_at :: "'a list \<Rightarrow> nat \<Rightarrow> 'a option" where
  "list_at xs i = (if i < length xs then Some (xs ! i) else None)"

definition tk_next :: "tokenizer \<Rightarrow> (qstring \<times> tokenizer) option" where
  "tk_next t = map_option (\<lambda>text. (text, t\<lparr>tk_i := Suc (tk_i t)\<rparr>)) (list_at (tk_tokens t) (tk_i t))"

definition tk_current :: "tokenizer \<Rightarrow> qstring option" where
  "tk_current t = (case tk_i t of 0 \<Rightarrow> None | Suc i \<Rightarrow> list_at (tk_tokens t) i)"

definition tk_preview :: "tokenizer \<Rightarrow> qstring" where
  "tk_preview t = (if tk_hasNext t then tk_tokens t ! tk_i t else [])"

definition tk_nextTokenType :: "tokenizer \<Rightarrow> TokenType option" where
  "tk_nextTokenType t = list_at (tk_types t) (tk_i t)"

definition tk_tokenType :: "tokenizer \<Rightarrow> TokenType option" where
  "tk_tokenType t = (case tk_i t of 0 \<Rightarrow> None | Suc i \<Rightarrow> list_at (tk_types t) i)"

section \<open>The parser\<close>

record fparser =
  fp_tok :: tokenizer
  fp_valid :: bool
  fp_log :: "qstring list"

datatype parse_error = OutOfFuel | OutOfRange

type_synonym parse_result = "parse_error + expr \<times> fparser"

definition errorLog :: "qstring \<Rightarrow> bool \<Rightarrow> fparser \<Rightarrow> fparser" where
  "errorLog text expand p =
     (let p1 = p\<lparr>fp_valid := False\<rparr>
      in if expand \<or> length (fp_log p1) = 0 then p1\<lparr>fp_log := fp_log p1 @ [text]\<rparr> else p1)"

text \<open>\<open>hasNext()\<close>, and the type of the next token if there is one.\<close>

abbreviation fp_hasNext :: "fparser \<Rightarrow> bool" where
  "fp_hasNext p \<equiv> tk_hasNext (fp_tok p)"

abbreviation fp_peek :: "fparser \<Rightarrow> TokenType option" where
  "fp_peek p \<equiv> tk_nextTokenType (fp_tok p)"

text \<open>\<open>tokenizer_.next()\<close> followed by \<open>tokenizer_.tokenType()\<close>.\<close>

definition fp_take :: "fparser \<Rightarrow> parse_error + qstring \<times> TokenType \<times> fparser" where
  "fp_take p =
     (case tk_next (fp_tok p) of
        None \<Rightarrow> Inl OutOfRange
      | Some (text, t) \<Rightarrow>
          (case tk_tokenType t of
             None \<Rightarrow> Inl OutOfRange
           | Some type \<Rightarrow> Inr (text, type, p\<lparr>fp_tok := t\<rparr>)))"

text \<open>The literals of \<open>parseValue\<close>: the quotes (and \<open>r\<close> or \<open>ri\<close>) are cut off, quotes unescaped.\<close>

definition string_literal :: "qstring \<Rightarrow> expr" where
  "string_literal before = ValueExpression (VString (unescape_quotes (butlast (drop 1 before)))) STRING"

definition regex_literal :: "qstring \<Rightarrow> expr" where
  "regex_literal before =
     (let caseInsensitive = prefix ''ri'' before
      in RegexExpression (unescape_quotes (butlast (drop (if caseInsensitive then 3 else 2) before)))
           caseInsensitive)"

definition int_literal :: "(qstring \<Rightarrow> int option) \<Rightarrow> qstring \<Rightarrow> expr" where
  "int_literal textToInt text =
     ValueExpression (VInt (case textToInt text of Some i \<Rightarrow> i | None \<Rightarrow> 0)) INT'"

text \<open>
  Each method is a definition over \<open>call\<close>, the method calls it makes; the loops of
  \<open>parseExpression\<close>, \<open>parseAnd\<close>, \<open>parseCondition\<close> and \<open>parseList\<close> are methods of their own, whose
  arguments are the loop variables. \<open>parse\<close> ties the knot, one unit of fuel per call.
\<close>

datatype parse_method = Expression bool | Expression_loop expr | And | And_loop expr | Unary
  | Parentheses | Condition | Condition_loop expr | Value | List | List_loop "expr list" bool

type_synonym parse_call = "parse_method \<Rightarrow> fparser \<Rightarrow> parse_result"

definition parseExpression :: "parse_call \<Rightarrow> bool \<Rightarrow> fparser \<Rightarrow> parse_result" where
  "parseExpression call isTop p =
     (case call And p of Inl err \<Rightarrow> Inl err | Inr (e, p1) \<Rightarrow>
      (case call (Expression_loop e) p1 of Inl err \<Rightarrow> Inl err | Inr (e, p2) \<Rightarrow>
       Inr (e, if fp_hasNext p2 \<and> isTop
               then errorLog (qarg ''Unexpected token at end: %1'' (tk_preview (fp_tok p2))) False p2
               else p2)))"

definition parseExpression_loop :: "parse_call \<Rightarrow> expr \<Rightarrow> fparser \<Rightarrow> parse_result" where
  "parseExpression_loop call e p =
     (if fp_hasNext p \<and> fp_peek p = Some OR then
        (case fp_take p of Inl err \<Rightarrow> Inl err | Inr (_, _, p1) \<Rightarrow>
         (case call And p1 of Inl err \<Rightarrow> Inl err | Inr (nextAnd, p2) \<Rightarrow>
          call (Expression_loop (BinaryOperation OR e nextAnd)) p2))
      else Inr (e, p))"

definition parseAnd :: "parse_call \<Rightarrow> fparser \<Rightarrow> parse_result" where
  "parseAnd call p =
     (case call Unary p of Inl err \<Rightarrow> Inl err | Inr (e, p1) \<Rightarrow> call (And_loop e) p1)"

definition parseAnd_loop :: "parse_call \<Rightarrow> expr \<Rightarrow> fparser \<Rightarrow> parse_result" where
  "parseAnd_loop call e p =
     (if fp_hasNext p \<and> fp_peek p = Some AND then
        (case fp_take p of Inl err \<Rightarrow> Inl err | Inr (_, _, p1) \<Rightarrow>
         (case call Unary p1 of Inl err \<Rightarrow> Inl err | Inr (nextUnary, p2) \<Rightarrow>
          call (And_loop (BinaryOperation AND e nextUnary)) p2))
      else Inr (e, p))"

definition parseUnary :: "parse_call \<Rightarrow> fparser \<Rightarrow> parse_result" where
  "parseUnary call p =
     (if fp_hasNext p \<and> (case fp_peek p of None \<Rightarrow> False | Some t \<Rightarrow> typeIsUnaryOp t) then
        (case fp_take p of Inl err \<Rightarrow> Inl err | Inr (_, type, p1) \<Rightarrow>
         (case call Condition p1 of Inl err \<Rightarrow> Inl err | Inr (nextCondition, p2) \<Rightarrow>
          Inr (UnaryOperation type nextCondition, p2)))
      else call Condition p)"

definition parseParentheses :: "parse_call \<Rightarrow> fparser \<Rightarrow> parse_result" where
  "parseParentheses call p =
     (case fp_take p of Inl err \<Rightarrow> Inl err | Inr (_, _, p1) \<Rightarrow>
      (case call (Expression False) p1 of Inl err \<Rightarrow> Inl err | Inr (e, p2) \<Rightarrow>
       (if fp_hasNext p2 \<and> fp_peek p2 = Some RP then
          (case fp_take p2 of Inl err \<Rightarrow> Inl err | Inr (_, _, p3) \<Rightarrow> Inr (e, p3))
        else
          (let message = (if fp_hasNext p2
                 then qarg ''Missing closing parentheses: got %1'' (tk_preview (fp_tok p2))
                 else ''Missing closing parentheses at end of statement'')
           in Inr (e, errorLog message False p2)))))"

definition parseCondition :: "parse_call \<Rightarrow> fparser \<Rightarrow> parse_result" where
  "parseCondition call p =
     (case (if fp_hasNext p \<and> fp_peek p = Some LP then call Parentheses p else call Value p)
      of Inl err \<Rightarrow> Inl err | Inr (value, p1) \<Rightarrow> call (Condition_loop value) p1)"

definition parseCondition_loop :: "parse_call \<Rightarrow> expr \<Rightarrow> fparser \<Rightarrow> parse_result" where
  "parseCondition_loop call value p =
     (if \<not> fp_hasNext p then Inr (value, p)
      else case fp_peek p of None \<Rightarrow> Inl OutOfRange | Some t \<Rightarrow>
        if typeIsBinaryOp t then
          (case fp_take p of Inl err \<Rightarrow> Inl err | Inr (_, type, p1) \<Rightarrow>
           (case call Value p1 of Inl err \<Rightarrow> Inl err | Inr (nextValue, p2) \<Rightarrow>
            Inr (BinaryOperation type value nextValue, p2)))
        else if typeIsMathOp t then
          (case fp_take p of Inl err \<Rightarrow> Inl err | Inr (_, type, p1) \<Rightarrow>
           (case call Value p1 of Inl err \<Rightarrow> Inl err | Inr (nextValue, p2) \<Rightarrow>
            call (Condition_loop (BinaryOperation type value nextValue)) p2))
        else if t = RP then Inr (value, p)
        else if \<not> typeIsOp t then
          Inr (value, errorLog (qarg (qarg ''Expected an operator but got %1 %2'' (tk_preview (fp_tok p)))
                 (tokenTypeToInfoString t)) False p)
        else Inr (value, p))"

definition parseValue :: "(qstring \<Rightarrow> int option) \<Rightarrow> parse_call \<Rightarrow> fparser \<Rightarrow> parse_result" where
  "parseValue ti call p =
     (if fp_hasNext p then
        (case fp_peek p of None \<Rightarrow> Inl OutOfRange | Some t \<Rightarrow>
          if t = LP then call Parentheses p
          else if t = LIST_START then call List p
          else
            (case fp_take p of Inl err \<Rightarrow> Inl err | Inr (text, _, p1) \<Rightarrow>
              if t = INT' then Inr (int_literal ti text, p1)
              else if t = STRING then Inr (string_literal text, p1)
              else if t = IDENTIFIER then Inr (ValueExpression (VString text) t, p1)
              else if t = REGULAR_EXPRESSION then Inr (regex_literal text, p1)
              else Inr (ValueExpression (VInt 0) INT',
                errorLog (qarg (qarg ''Expected value but got %1 %2'' text) (tokenTypeToInfoString t))
                  False p1)))
      else Inr (ValueExpression (VInt 0) INT', errorLog ''Unexpected end of statement'' False p))"

definition parseList :: "parse_call \<Rightarrow> fparser \<Rightarrow> parse_result" where
  "parseList call p =
     (case fp_take p of Inl err \<Rightarrow> Inl err | Inr (_, _, p1) \<Rightarrow> call (List_loop [] True) p1)"

definition parseList_loop :: "parse_call \<Rightarrow> expr list \<Rightarrow> bool \<Rightarrow> fparser \<Rightarrow> parse_result" where
  "parseList_loop call list first p =
     (if fp_hasNext p \<and> fp_peek p = Some LIST_END then
        (case fp_take p of Inl err \<Rightarrow> Inl err | Inr (_, _, p1) \<Rightarrow> Inr (ListExpression list, p1))
      else if fp_hasNext p \<and> fp_peek p = Some COMMA \<and> \<not> first then
        (case fp_take p of Inl err \<Rightarrow> Inl err | Inr (_, _, p1) \<Rightarrow>
         (case call Value p1 of Inl err \<Rightarrow> Inl err | Inr (v, p2) \<Rightarrow>
          call (List_loop (list @ [v]) False) p2))
      else if fp_hasNext p \<and> first then
        (case call Value p of Inl err \<Rightarrow> Inl err | Inr (v, p1) \<Rightarrow>
         call (List_loop (list @ [v]) False) p1)
      else
        (let message = (if fp_hasNext p
               then qarg ''Missing closing list braces: got %1'' (tk_preview (fp_tok p))
               else ''Missing closing list braces at end of statement'')
         in Inr (ListExpression [], errorLog message False p)))"

definition parse_body :: "(qstring \<Rightarrow> int option) \<Rightarrow> parse_call \<Rightarrow> parse_call" where
  "parse_body ti call m p =
     (case m of
        Expression isTop \<Rightarrow> parseExpression call isTop p
      | Expression_loop e \<Rightarrow> parseExpression_loop call e p
      | And \<Rightarrow> parseAnd call p
      | And_loop e \<Rightarrow> parseAnd_loop call e p
      | Unary \<Rightarrow> parseUnary call p
      | Parentheses \<Rightarrow> parseParentheses call p
      | Condition \<Rightarrow> parseCondition call p
      | Condition_loop v \<Rightarrow> parseCondition_loop call v p
      | Value \<Rightarrow> parseValue ti call p
      | List \<Rightarrow> parseList call p
      | List_loop xs first \<Rightarrow> parseList_loop call xs first p)"

primrec parse :: "(qstring \<Rightarrow> int option) \<Rightarrow> nat \<Rightarrow> parse_call" where
  "parse ti 0 = (\<lambda>m p. Inl OutOfFuel)"
| "parse ti (Suc n) = parse_body ti (parse ti n)"

definition parse_fuel :: "tokenizer \<Rightarrow> nat" where
  "parse_fuel t = 8 * length (tk_tokens t) + 8"

definition FilterParser :: "(qstring \<Rightarrow> qstring list) \<Rightarrow> (qstring \<Rightarrow> int option) \<Rightarrow> qstring \<Rightarrow> parse_result" where
  "FilterParser globalMatch textToInt text =
     (let t = Tokenizer globalMatch textToInt text
      in parse textToInt (parse_fuel t) (Expression True) \<lparr>fp_tok = t, fp_valid = True, fp_log = []\<rparr>)"

end
