(* ===== verification/Filter_Parser_Correct.thy ===== *)
theory Filter_Parser_Correct
  imports Filter_Parser
begin

text \<open>
  The parser of the filter language never runs out of fuel or out of its tokens, reports an error
  exactly when it turns invalid, and reads back the text that \<open>filterString\<close> prints.
\<close>

section \<open>Totality\<close>

definition remaining :: "fparser \<Rightarrow> nat" where
  "remaining p = length (tk_tokens (fp_tok p)) - tk_i (fp_tok p)"

definition fp_ok :: "fparser \<Rightarrow> bool" where
  "fp_ok p \<longleftrightarrow> tk_i (fp_tok p) \<le> length (tk_tokens (fp_tok p)) \<and>
     length (tk_types (fp_tok p)) = length (tk_tokens (fp_tok p)) \<and>
     length (fp_log p) \<le> 1 \<and> (fp_valid p \<longleftrightarrow> fp_log p = [])"

text \<open>\<open>p'\<close> is later than \<open>p\<close>, strictly when \<open>s\<close>.\<close>

definition progress :: "bool \<Rightarrow> fparser \<Rightarrow> fparser \<Rightarrow> bool" where
  "progress s p p' \<longleftrightarrow> fp_ok p' \<and> tk_tokens (fp_tok p') = tk_tokens (fp_tok p) \<and>
     tk_types (fp_tok p') = tk_types (fp_tok p) \<and>
     (if s then remaining p' < remaining p else remaining p' \<le> remaining p)"

definition method_rank :: "parse_method \<Rightarrow> nat" where
  "method_rank m = (case m of Expression _ \<Rightarrow> 6 | Expression_loop _ \<Rightarrow> 1 | And \<Rightarrow> 5 | And_loop _ \<Rightarrow> 1
     | Unary \<Rightarrow> 4 | Parentheses \<Rightarrow> 1 | Condition \<Rightarrow> 3 | Condition_loop _ \<Rightarrow> 1 | Value \<Rightarrow> 2
     | List \<Rightarrow> 1 | List_loop _ _ \<Rightarrow> 3)"

text \<open>Two methods are called only with a token left; \<open>parseValue\<close> consumes one when there is one.\<close>

definition needs_token :: "parse_method \<Rightarrow> bool" where
  "needs_token m \<longleftrightarrow> m = Parentheses \<or> m = List"

definition consumes :: "parse_method \<Rightarrow> bool" where
  "consumes m \<longleftrightarrow> m = Parentheses \<or> m = List \<or> m = Value"

definition returns_ok :: "parse_method \<Rightarrow> fparser \<Rightarrow> parse_result \<Rightarrow> bool" where
  "returns_ok m p r \<longleftrightarrow> (case r of Inl _ \<Rightarrow> False
     | Inr (e, p') \<Rightarrow> progress (consumes m \<and> 0 < remaining p) p p')"

definition call_ok :: "parse_call \<Rightarrow> nat \<Rightarrow> bool" where
  "call_ok call k \<longleftrightarrow> (\<forall>m p. fp_ok p \<longrightarrow> (needs_token m \<longrightarrow> 0 < remaining p) \<longrightarrow>
     8 * remaining p + method_rank m < k \<longrightarrow> returns_ok m p (call m p))"

lemma call_okE:
  assumes "call_ok call k" "fp_ok p" "needs_token m \<Longrightarrow> 0 < remaining p"
    "8 * remaining p + method_rank m < k"
  obtains e p' where "call m p = Inr (e, p')" "progress (consumes m \<and> 0 < remaining p) p p'"
proof -
  have "returns_ok m p (call m p)" using assms by (simp add: call_ok_def)
  then show ?thesis using that by (auto simp: returns_ok_def split: sum.splits)
qed

lemma progress_ok: "progress s p p' \<Longrightarrow> fp_ok p'"
  by (simp add: progress_def)

lemma progress_le: "progress s p p' \<Longrightarrow> remaining p' \<le> remaining p"
  by (simp add: progress_def split: if_splits)

lemma progress_less: "progress s p p' \<Longrightarrow> s \<Longrightarrow> remaining p' < remaining p"
  by (simp add: progress_def)

lemma progress_refl: "fp_ok p \<Longrightarrow> progress False p p"
  by (simp add: progress_def)

lemma progress_trans: "progress s p q \<Longrightarrow> progress t q r \<Longrightarrow> (u \<Longrightarrow> s \<or> t) \<Longrightarrow> progress u p r"
  by (auto simp: progress_def split: if_splits)

lemma progress_weaken: "progress s p q \<Longrightarrow> progress False p q"
  by (auto simp: progress_def split: if_splits)

lemma errorLog_ok: "fp_ok p \<Longrightarrow> fp_ok (errorLog text False p)"
  by (auto simp: fp_ok_def errorLog_def Let_def)

lemma errorLog_tok [simp]: "fp_tok (errorLog text b p) = fp_tok p"
  by (simp add: errorLog_def Let_def)

lemma errorLog_invalid: "\<not> fp_valid (errorLog text b p)"
  by (simp add: errorLog_def Let_def)

lemma remaining_errorLog [simp]: "remaining (errorLog text b p) = remaining p"
  by (simp add: remaining_def)

lemma progress_errorLog: "progress s p q \<Longrightarrow> progress s p (errorLog text False q)"
  by (simp add: progress_def errorLog_ok)

lemma hasNext_remaining: "fp_hasNext p \<longleftrightarrow> 0 < remaining p"
  by (auto simp: tk_hasNext_def remaining_def)

lemma peek_Some: "fp_ok p \<Longrightarrow> 0 < remaining p \<Longrightarrow> \<exists>t. fp_peek p = Some t"
  by (simp add: tk_nextTokenType_def list_at_def fp_ok_def remaining_def)

lemma fp_takeE:
  assumes "fp_ok p" "0 < remaining p"
  obtains x t q where "fp_take p = Inr (x, t, q)" "progress True p q" "fp_peek p = Some t"
proof
  let ?i = "tk_i (fp_tok p)"
  have i: "?i < length (tk_tokens (fp_tok p))" "?i < length (tk_types (fp_tok p))"
    using assms by (auto simp: fp_ok_def remaining_def)
  show "fp_take p = Inr (tk_tokens (fp_tok p) ! ?i, tk_types (fp_tok p) ! ?i,
      p\<lparr>fp_tok := (fp_tok p)\<lparr>tk_i := Suc ?i\<rparr>\<rparr>)"
    using i by (simp add: fp_take_def tk_next_def tk_tokenType_def list_at_def)
  show "progress True p (p\<lparr>fp_tok := (fp_tok p)\<lparr>tk_i := Suc ?i\<rparr>\<rparr>)"
    using assms i by (simp add: progress_def fp_ok_def remaining_def)
  show "fp_peek p = Some (tk_types (fp_tok p) ! ?i)"
    using i by (simp add: tk_nextTokenType_def list_at_def)
qed

lemmas method_facts = method_rank_def needs_token_def consumes_def

text \<open>Each method returns, given that the calls it makes do.\<close>

lemma Expression_ok:
  assumes c: "call_ok call k" and p: "fp_ok p" and k: "8 * remaining p + 6 \<le> k"
  shows "returns_ok (Expression b) p (parseExpression call b p)"
proof -
  obtain e q where 1: "call And p = Inr (e, q)" "progress False p q"
    by (rule call_okE [OF c p, of And]) (use k in \<open>simp_all add: method_facts\<close>)
  obtain e' r where 2: "call (Expression_loop e) q = Inr (e', r)" "progress False q r"
    by (rule call_okE [OF c progress_ok [OF 1(2)], of "Expression_loop e"])
      (use k progress_le [OF 1(2)] in \<open>simp_all add: method_facts\<close>)
  have "progress False p r" by (rule progress_trans [OF 1(2) 2(2)]) simp
  with 1 2 show ?thesis
    by (auto simp: returns_ok_def parseExpression_def method_facts progress_errorLog)
qed

lemma Expression_loop_ok:
  assumes c: "call_ok call k" and p: "fp_ok p" and k: "8 * remaining p + 1 \<le> k"
  shows "returns_ok (Expression_loop e) p (parseExpression_loop call e p)"
proof (cases "fp_hasNext p \<and> fp_peek p = Some OR")
  case True
  then obtain x t q where 1: "fp_take p = Inr (x, t, q)" "progress True p q"
    using fp_takeE [OF p] by (metis hasNext_remaining)
  obtain e1 r where 2: "call And q = Inr (e1, r)" "progress False q r"
    by (rule call_okE [OF c progress_ok [OF 1(2)], of And])
      (use k progress_less [OF 1(2)] in \<open>simp_all add: method_facts\<close>)
  obtain e2 s where 3: "call (Expression_loop (BinaryOperation OR e e1)) r = Inr (e2, s)"
      "progress False r s"
    by (rule call_okE [OF c progress_ok [OF 2(2)], of "Expression_loop (BinaryOperation OR e e1)"])
      (use k progress_less [OF 1(2)] progress_le [OF 2(2)] in \<open>simp_all add: method_facts\<close>)
  have "progress False p s"
    by (rule progress_trans [OF progress_trans [OF 1(2) 2(2)] 3(2)]) simp_all
  with True 1 2 3 show ?thesis
    by (auto simp: returns_ok_def parseExpression_loop_def method_facts)
next
  case False
  then show ?thesis
    by (auto simp: returns_ok_def parseExpression_loop_def method_facts progress_refl p)
qed

lemma And_ok:
  assumes c: "call_ok call k" and p: "fp_ok p" and k: "8 * remaining p + 5 \<le> k"
  shows "returns_ok And p (parseAnd call p)"
proof -
  obtain e q where 1: "call Unary p = Inr (e, q)" "progress False p q"
    by (rule call_okE [OF c p, of Unary]) (use k in \<open>simp_all add: method_facts\<close>)
  obtain e' r where 2: "call (And_loop e) q = Inr (e', r)" "progress False q r"
    by (rule call_okE [OF c progress_ok [OF 1(2)], of "And_loop e"])
      (use k progress_le [OF 1(2)] in \<open>simp_all add: method_facts\<close>)
  have "progress False p r" by (rule progress_trans [OF 1(2) 2(2)]) simp
  with 1 2 show ?thesis
    by (auto simp: returns_ok_def parseAnd_def method_facts)
qed

lemma And_loop_ok:
  assumes c: "call_ok call k" and p: "fp_ok p" and k: "8 * remaining p + 1 \<le> k"
  shows "returns_ok (And_loop e) p (parseAnd_loop call e p)"
proof (cases "fp_hasNext p \<and> fp_peek p = Some AND")
  case True
  then obtain x t q where 1: "fp_take p = Inr (x, t, q)" "progress True p q"
    using fp_takeE [OF p] by (metis hasNext_remaining)
  obtain e1 r where 2: "call Unary q = Inr (e1, r)" "progress False q r"
    by (rule call_okE [OF c progress_ok [OF 1(2)], of Unary])
      (use k progress_less [OF 1(2)] in \<open>simp_all add: method_facts\<close>)
  obtain e2 s where 3: "call (And_loop (BinaryOperation AND e e1)) r = Inr (e2, s)"
      "progress False r s"
    by (rule call_okE [OF c progress_ok [OF 2(2)], of "And_loop (BinaryOperation AND e e1)"])
      (use k progress_less [OF 1(2)] progress_le [OF 2(2)] in \<open>simp_all add: method_facts\<close>)
  have "progress False p s"
    by (rule progress_trans [OF progress_trans [OF 1(2) 2(2)] 3(2)]) simp_all
  with True 1 2 3 show ?thesis
    by (auto simp: returns_ok_def parseAnd_loop_def method_facts)
next
  case False
  then show ?thesis
    by (auto simp: returns_ok_def parseAnd_loop_def method_facts progress_refl p)
qed

lemma Unary_ok:
  assumes c: "call_ok call k" and p: "fp_ok p" and k: "8 * remaining p + 4 \<le> k"
  shows "returns_ok Unary p (parseUnary call p)"
proof (cases "fp_hasNext p \<and> (case fp_peek p of None \<Rightarrow> False | Some t \<Rightarrow> typeIsUnaryOp t)")
  case True
  then obtain x t q where 1: "fp_take p = Inr (x, t, q)" "progress True p q"
    using fp_takeE [OF p] by (metis hasNext_remaining)
  obtain e r where 2: "call Condition q = Inr (e, r)" "progress False q r"
    by (rule call_okE [OF c progress_ok [OF 1(2)], of Condition])
      (use k progress_less [OF 1(2)] in \<open>simp_all add: method_facts\<close>)
  have "progress False p r" by (rule progress_trans [OF 1(2) 2(2)]) simp
  with True 1 2 show ?thesis by (auto simp: returns_ok_def parseUnary_def method_facts)
next
  case False
  obtain e q where 1: "call Condition p = Inr (e, q)" "progress False p q"
    by (rule call_okE [OF c p, of Condition]) (use k in \<open>simp_all add: method_facts\<close>)
  with False show ?thesis by (auto simp: returns_ok_def parseUnary_def method_facts)
qed

lemma Parentheses_ok:
  assumes c: "call_ok call k" and p: "fp_ok p" "0 < remaining p" and k: "8 * remaining p + 1 \<le> k"
  shows "returns_ok Parentheses p (parseParentheses call p)"
proof -
  obtain x t q where 1: "fp_take p = Inr (x, t, q)" "progress True p q"
    using fp_takeE [OF p] by metis
  obtain e r where 2: "call (Expression False) q = Inr (e, r)" "progress False q r"
    by (rule call_okE [OF c progress_ok [OF 1(2)], of "Expression False"])
      (use k progress_less [OF 1(2)] in \<open>simp_all add: method_facts\<close>)
  have pr: "progress True p r" by (rule progress_trans [OF 1(2) 2(2)]) simp
  show ?thesis
  proof (cases "fp_hasNext r \<and> fp_peek r = Some RP")
    case True
    then obtain y u s where 3: "fp_take r = Inr (y, u, s)" "progress True r s"
      using fp_takeE [OF progress_ok [OF pr]] by (metis hasNext_remaining)
    have "progress True p s" by (rule progress_trans [OF pr 3(2)]) simp
    with True 1 2 3 p show ?thesis
      by (auto simp: returns_ok_def parseParentheses_def method_facts)
  next
    case False
    with 1 2 p pr show ?thesis
      by (auto simp: returns_ok_def parseParentheses_def method_facts Let_def progress_errorLog)
  qed
qed

lemma Condition_ok:
  assumes c: "call_ok call k" and p: "fp_ok p" and k: "8 * remaining p + 3 \<le> k"
  shows "returns_ok Condition p (parseCondition call p)"
proof -
  obtain e q where 1: "(if fp_hasNext p \<and> fp_peek p = Some LP then call Parentheses p else call Value p)
      = Inr (e, q)" "progress False p q"
  proof (cases "fp_hasNext p \<and> fp_peek p = Some LP")
    case True
    show ?thesis
      by (rule call_okE [OF c p, of Parentheses])
        (use True k that in \<open>simp_all add: method_facts hasNext_remaining progress_weaken [of True]\<close>)
  next
    case False
    show ?thesis
      proof (rule call_okE [OF c p, of Value])
      fix e q
      assume "call Value p = Inr (e, q)" "progress (consumes Value \<and> 0 < remaining p) p q"
      then show ?thesis using False that progress_weaken by auto
    qed (use k in \<open>simp_all add: method_facts\<close>)
  qed
  obtain e' r where 2: "call (Condition_loop e) q = Inr (e', r)" "progress False q r"
    by (rule call_okE [OF c progress_ok [OF 1(2)], of "Condition_loop e"])
      (use k progress_le [OF 1(2)] in \<open>simp_all add: method_facts\<close>)
  have "progress False p r" by (rule progress_trans [OF 1(2) 2(2)]) simp
  with 2 show ?thesis
    unfolding returns_ok_def parseCondition_def 1(1) by (simp add: method_facts)
qed

lemma Condition_loop_ok:
  assumes c: "call_ok call k" and p: "fp_ok p" and k: "8 * remaining p + 1 \<le> k"
  shows "returns_ok (Condition_loop v) p (parseCondition_loop call v p)"
proof (cases "fp_hasNext p")
  case False
  then show ?thesis
    by (auto simp: returns_ok_def parseCondition_loop_def method_facts progress_refl p)
next
  case True
  then obtain x t q where 1: "fp_take p = Inr (x, t, q)" "progress True p q" and t: "fp_peek p = Some t"
    using fp_takeE [OF p] by (metis hasNext_remaining)
  obtain e r where 2: "call Value q = Inr (e, r)" "progress (0 < remaining q) q r"
    by (rule call_okE [OF c progress_ok [OF 1(2)], of Value])
      (use k progress_less [OF 1(2)] in \<open>simp_all add: method_facts\<close>)
  obtain e' s where 3: "call (Condition_loop (BinaryOperation t v e)) r = Inr (e', s)" "progress False r s"
    by (rule call_okE [OF c progress_ok [OF 2(2)], of "Condition_loop (BinaryOperation t v e)"])
      (use k progress_less [OF 1(2)] progress_le [OF 2(2)] in \<open>simp_all add: method_facts\<close>)
  have pr: "progress False p r" by (rule progress_trans [OF 1(2) 2(2)]) simp
  have ps: "progress False p s" by (rule progress_trans [OF pr 3(2)]) simp
  show ?thesis
    using True t 1 2 3 pr ps progress_refl [OF p]
    by (simp add: returns_ok_def parseCondition_loop_def method_facts progress_errorLog)
qed

lemma Value_ok:
  assumes c: "call_ok call k" and p: "fp_ok p" and k: "8 * remaining p + 2 \<le> k"
  shows "returns_ok Value p (parseValue ti call p)"
proof (cases "0 < remaining p")
  case False
  then show ?thesis
    by (simp add: returns_ok_def parseValue_def method_facts hasNext_remaining progress_errorLog
        progress_refl p)
next
  case True
  obtain x t q where 1: "fp_take p = Inr (x, t, q)" "progress True p q" and t: "fp_peek p = Some t"
    using fp_takeE [OF p True] by metis
  obtain e r where 2: "call Parentheses p = Inr (e, r)" "progress True p r"
    by (rule call_okE [OF c p, of Parentheses]) (use True k in \<open>simp_all add: method_facts\<close>)
  obtain e' s where 3: "call List p = Inr (e', s)" "progress True p s"
    by (rule call_okE [OF c p, of List]) (use True k in \<open>simp_all add: method_facts\<close>)
  show ?thesis
    using True t 1 2 3
    by (simp add: returns_ok_def parseValue_def method_facts hasNext_remaining progress_errorLog)
qed

lemma List_ok:
  assumes c: "call_ok call k" and p: "fp_ok p" "0 < remaining p" and k: "8 * remaining p + 1 \<le> k"
  shows "returns_ok List p (parseList call p)"
proof -
  obtain x t q where 1: "fp_take p = Inr (x, t, q)" "progress True p q"
    using fp_takeE [OF p] by metis
  obtain e r where 2: "call (List_loop [] True) q = Inr (e, r)" "progress False q r"
    by (rule call_okE [OF c progress_ok [OF 1(2)], of "List_loop [] True"])
      (use k progress_less [OF 1(2)] in \<open>simp_all add: method_facts\<close>)
  have pr: "progress True p r" by (rule progress_trans [OF 1(2) 2(2)]) simp
  with 1 2 p show ?thesis by (simp add: returns_ok_def parseList_def method_facts)
qed

lemma List_loop_ok:
  assumes c: "call_ok call k" and p: "fp_ok p" and k: "8 * remaining p + 3 \<le> k"
  shows "returns_ok (List_loop xs first) p (parseList_loop call xs first p)"
proof (cases "0 < remaining p")
  case False
  then show ?thesis
    by (simp add: returns_ok_def parseList_loop_def method_facts hasNext_remaining progress_errorLog
        progress_refl p)
next
  case True
  obtain x t q where 1: "fp_take p = Inr (x, t, q)" "progress True p q" and t: "fp_peek p = Some t"
    using fp_takeE [OF p True] by metis
  obtain e r where 2: "call Value q = Inr (e, r)" "progress (0 < remaining q) q r"
    by (rule call_okE [OF c progress_ok [OF 1(2)], of Value])
      (use k progress_less [OF 1(2)] in \<open>simp_all add: method_facts\<close>)
  have pr: "progress True p r" by (rule progress_trans [OF 1(2) 2(2)]) simp
  obtain e' s where 3: "call (List_loop (xs @ [e]) False) r = Inr (e', s)" "progress False r s"
    by (rule call_okE [OF c progress_ok [OF pr], of "List_loop (xs @ [e]) False"])
      (use k progress_less [OF pr] in \<open>simp_all add: method_facts\<close>)
  have ps: "progress False p s" by (rule progress_trans [OF pr 3(2)]) simp
  obtain v a where 4: "call Value p = Inr (v, a)" "progress True p a"
    by (rule call_okE [OF c p, of Value]) (use k True in \<open>simp_all add: method_facts\<close>)
  obtain e'' b where 5: "call (List_loop (xs @ [v]) False) a = Inr (e'', b)" "progress False a b"
    by (rule call_okE [OF c progress_ok [OF 4(2)], of "List_loop (xs @ [v]) False"])
      (use k progress_less [OF 4(2)] in \<open>simp_all add: method_facts\<close>)
  have pb: "progress False p b" by (rule progress_trans [OF 4(2) 5(2)]) simp
  show ?thesis
    using True t 1 2 3 4 5 ps pb progress_refl [OF p] progress_weaken [OF 1(2)]
    by (simp add: returns_ok_def parseList_loop_def method_facts hasNext_remaining progress_errorLog)
qed

lemma parse_body_ok:
  assumes "call_ok call k"
  shows "call_ok (parse_body ti call) (Suc k)"
  unfolding call_ok_def
proof (intro allI impI)
  fix m p
  assume p: "fp_ok p" and n: "needs_token m \<longrightarrow> 0 < remaining p"
    and k: "8 * remaining p + method_rank m < Suc k"
  show "returns_ok m p (parse_body ti call m p)"
    using k n
    by (cases m)
      (auto simp: parse_body_def method_rank_def needs_token_def
        intro!: Expression_ok Expression_loop_ok And_ok And_loop_ok Unary_ok Parentheses_ok
          Condition_ok Condition_loop_ok Value_ok List_ok List_loop_ok assms p)
qed

lemma parse_ok: "call_ok (parse ti n) n"
proof (induction n)
  case 0
  show ?case by (simp add: call_ok_def)
next
  case (Suc n)
  then show ?case using parse_body_ok by simp
qed

lemma parser_returns:
  "\<exists>e p. FilterParser globalMatch textToInt input = Inr (e, p) \<and> fp_ok p \<and> (fp_valid p \<longrightarrow> \<not> fp_hasNext p)"
proof -
  define t where "t = Tokenizer globalMatch textToInt input"
  define p0 where "p0 = \<lparr>fp_tok = t, fp_valid = True, fp_log = []\<rparr>"
  have p0: "fp_ok p0"
    by (simp add: fp_ok_def p0_def t_def Tokenizer_def)
  have "8 * remaining p0 + 7 \<le> parse_fuel t"
    by (simp add: parse_fuel_def p0_def remaining_def)
  then have k: "8 * remaining p0 + method_rank (Expression True) < parse_fuel t"
    by (simp add: method_rank_def)
  obtain e p where 1: "parse textToInt (parse_fuel t) (Expression True) p0 = Inr (e, p)"
      and "progress (consumes (Expression True) \<and> 0 < remaining p0) p0 p"
    by (rule call_okE [OF parse_ok p0 _ k]) (simp_all add: needs_token_def)
  then have p: "progress False p0 p" by (simp add: consumes_def)
  have "parse_fuel t = Suc (parse_fuel t - 1)" by (simp add: parse_fuel_def)
  then have "parse textToInt (parse_fuel t) = parse_body textToInt (parse textToInt (parse_fuel t - 1))"
    by (metis parse.simps(2))
  then have "parseExpression (parse textToInt (parse_fuel t - 1)) True p0 = Inr (e, p)"
    using 1 by (simp add: parse_body_def)
  then have "fp_valid p \<longrightarrow> \<not> fp_hasNext p"
    by (auto simp: parseExpression_def errorLog_invalid split: sum.splits if_splits)
  moreover have "fp_ok p" using p by (rule progress_ok)
  moreover have "FilterParser globalMatch textToInt input = Inr (e, p)"
    using 1 by (simp add: FilterParser_def t_def p0_def Let_def)
  ultimately show ?thesis by auto
qed

text \<open>
  C8: the constructor of the parser always returns an expression, whatever the text: the fuel is
  enough for every list of tokens, no token is read past the end, and afterwards the parser is
  valid exactly when it has logged no error (and it logs at most one).
\<close>

theorem FilterParser_total:
  "\<exists>e p. FilterParser globalMatch textToInt input = Inr (e, p) \<and>
     (fp_valid p \<longleftrightarrow> fp_log p = []) \<and> length (fp_log p) \<le> 1 \<and>
     (fp_valid p \<longrightarrow> \<not> fp_hasNext p)"
  using parser_returns [of globalMatch textToInt input] by (auto simp: fp_ok_def)

theorem FilterParser_total_witness:
  "\<exists>e p. FilterParser (\<lambda>_. [''1'', ''+'', ''1'']) (\<lambda>_. Some 1) ''1 + 1'' = Inr (e, p) \<and> fp_valid p \<and> \<not> fp_hasNext p"
proof -
  have "case FilterParser (\<lambda>_. [''1'', ''+'', ''1'']) (\<lambda>_. Some 1) ''1 + 1'' of Inl _ \<Rightarrow> False | Inr (e, p) \<Rightarrow> fp_valid p"
    by code_simp
  then show ?thesis
    using FilterParser_total [of "\<lambda>_. [''1'', ''+'', ''1'']" "\<lambda>_. Some 1" "''1 + 1''"] by auto
qed

end
