(* ===== verification/Filter_Roundtrip.thy ===== *)
theory Filter_Roundtrip
  imports Filter_Parser_Correct
begin

text \<open>
  Printing and parsing filters: the parser reads the tokens of a printed expression back to that
  expression. \<open>print_tokens\<close> is the text of \<open>filterString\<close> cut at the token boundaries.
\<close>

section \<open>The tokens of a printed expression\<close>

fun print_tokens :: "qt_ops \<Rightarrow> expr \<Rightarrow> qstring list"
  and print_elements :: "qt_ops \<Rightarrow> expr list \<Rightarrow> qstring list" where
  "print_tokens qt (ValueExpression v t) = [render qt (ValueExpression v t)]"
| "print_tokens qt (RegexExpression r ci) = [render qt (RegexExpression r ci)]"
| "print_tokens qt (ListExpression []) = [''{'', ''}'']"
| "print_tokens qt (ListExpression (e # es)) =
     [''{'', ''(''] @ print_tokens qt e @ ['')''] @ print_elements qt es @ [''}'']"
| "print_tokens qt (BinaryOperation op l r) =
     [''(''] @ print_tokens qt l @ ['')'', binary_op_text op, ''(''] @ print_tokens qt r @ ['')'']"
| "print_tokens qt (UnaryOperation op r) = [''!'', ''(''] @ print_tokens qt r @ ['')'']"
| "print_elements qt [] = []"
| "print_elements qt (e # es) = ['','', ''(''] @ print_tokens qt e @ ['')''] @ print_elements qt es"

text \<open>
  The expressions that print as filters: integer literals are not negative (the expression has no
  sign for literals) and read back by \<open>toInt\<close>, identifiers are known, operators have a symbol.
\<close>

fun printable :: "(qstring \<Rightarrow> int option) \<Rightarrow> expr \<Rightarrow> bool" where
  "printable ti (ValueExpression v t) =
     (case v of
        VInt i \<Rightarrow> t = INT' \<and> 0 \<le> i \<and> ti (show_int i) = Some i
      | VString s \<Rightarrow> t = STRING \<or> t = IDENTIFIER \<and> s \<in> set (map fst validIdentifiersMap)
      | _ \<Rightarrow> False)"
| "printable ti (RegexExpression r ci) = True"
| "printable ti (ListExpression es) = list_all (printable ti) es"
| "printable ti (BinaryOperation op l r) =
     ((op = AND \<or> op = OR \<or> typeIsBinaryOp op \<or> typeIsMathOp op) \<and> printable ti l \<and> printable ti r)"
| "printable ti (UnaryOperation op r) = (op = NOT \<and> printable ti r)"

definition qt_prints :: "qt_ops \<Rightarrow> bool" where
  "qt_prints qt \<longleftrightarrow> (\<forall>s. toString qt (VString s) = s) \<and> (\<forall>i. convertInt qt (VInt i) = Some i)"

section \<open>Positions\<close>

definition fp_rest :: "fparser \<Rightarrow> (qstring \<times> TokenType) list" where
  "fp_rest p = drop (tk_i (fp_tok p)) (zip (tk_tokens (fp_tok p)) (tk_types (fp_tok p)))"

definition advance :: "nat \<Rightarrow> fparser \<Rightarrow> fparser" where
  "advance k p = p\<lparr>fp_tok := (fp_tok p)\<lparr>tk_i := tk_i (fp_tok p) + k\<rparr>\<rparr>"

definition typed :: "(qstring \<Rightarrow> int option) \<Rightarrow> qstring list \<Rightarrow> (qstring \<times> TokenType) list" where
  "typed ti xs = map (\<lambda>x. (x, tokenize ti x)) xs"

lemma typed_simps [simp]:
  "typed ti [] = []" "typed ti (x # xs) = (x, tokenize ti x) # typed ti xs"
  "typed ti (xs @ ys) = typed ti xs @ typed ti ys" "length (typed ti xs) = length xs"
  by (simp_all add: typed_def)

lemma advance_simps [simp]:
  "advance 0 p = p" "advance j (advance k p) = advance (k + j) p"
  "fp_rest (advance k p) = drop k (fp_rest p)"
  by (simp_all add: advance_def fp_rest_def add.assoc add.commute)

lemma remaining_rest: "fp_ok p \<Longrightarrow> remaining p = length (fp_rest p)"
  by (simp add: remaining_def fp_rest_def fp_ok_def)

lemma advance_ok: "fp_ok p \<Longrightarrow> k \<le> length (fp_rest p) \<Longrightarrow> fp_ok (advance k p)"
  by (auto simp: fp_ok_def advance_def fp_rest_def)

lemma rest_Nil: "fp_ok p \<Longrightarrow> fp_hasNext p \<longleftrightarrow> fp_rest p \<noteq> []"
  by (simp add: hasNext_remaining remaining_rest)

lemma rest_Cons:
  assumes "fp_ok p" "fp_rest p = (x, t) # r"
  shows "fp_hasNext p" "fp_peek p = Some t" "fp_take p = Inr (x, t, advance 1 p)"
proof -
  let ?i = "tk_i (fp_tok p)"
  have i: "?i < length (tk_tokens (fp_tok p))" "?i < length (tk_types (fp_tok p))"
    using remaining_rest [OF assms(1)] assms by (auto simp: fp_ok_def remaining_def)
  have "(tk_tokens (fp_tok p) ! ?i, tk_types (fp_tok p) ! ?i) = hd (fp_rest p)"
    using i by (simp add: fp_rest_def hd_drop_conv_nth)
  then show "fp_hasNext p" "fp_peek p = Some t" "fp_take p = Inr (x, t, advance 1 p)"
    using i assms(2)
    by (simp_all add: tk_hasNext_def tk_nextTokenType_def fp_take_def tk_next_def tk_tokenType_def
        list_at_def advance_def)
qed

section \<open>What a method reads\<close>

text \<open>
  \<open>reads ti S m toks e\<close>: in front of the tokens \<open>toks\<close> and a rest that satisfies \<open>S\<close>, with the
  fuel of the totality proof, the method returns \<open>e\<close> and stands behind the tokens.
\<close>

definition reads :: "(qstring \<Rightarrow> int option) \<Rightarrow> (TokenType option \<Rightarrow> bool) \<Rightarrow> parse_method \<Rightarrow> qstring list
    \<Rightarrow> expr \<Rightarrow> bool" where
  "reads ti S m toks e \<longleftrightarrow> (\<forall>n p rest. fp_ok p \<longrightarrow> fp_rest p = typed ti toks @ rest \<longrightarrow>
     S (case rest of [] \<Rightarrow> None | (_, t) # _ \<Rightarrow> Some t) \<longrightarrow> 8 * length (fp_rest p) + method_rank m < n \<longrightarrow>
     parse ti n m p = Inr (e, advance (length toks) p))"

lemma readsI:
  assumes "\<And>n p rest. fp_ok p \<Longrightarrow> fp_rest p = typed ti toks @ rest \<Longrightarrow>
    S (case rest of [] \<Rightarrow> None | (_, t) # _ \<Rightarrow> Some t) \<Longrightarrow> 8 * length (fp_rest p) + method_rank m \<le> n \<Longrightarrow>
    parse_body ti (parse ti n) m p = Inr (e, advance (length toks) p)"
  shows "reads ti S m toks e"
  unfolding reads_def
proof (intro allI impI)
  fix n p rest
  assume 1: "fp_ok p" "fp_rest p = typed ti toks @ rest"
    "S (case rest of [] \<Rightarrow> None | (_, t) # _ \<Rightarrow> Some t)" "8 * length (fp_rest p) + method_rank m < n"
  then obtain k where k: "n = Suc k" by (cases n) auto
  with 1 show "parse ti n m p = Inr (e, advance (length toks) p)" using assms [of p rest k] by simp
qed

lemma readsD:
  "reads ti S m toks e \<Longrightarrow> fp_ok p \<Longrightarrow> fp_rest p = typed ti toks @ rest \<Longrightarrow>
   S (case rest of [] \<Rightarrow> None | (_, t) # _ \<Rightarrow> Some t) \<Longrightarrow> 8 * length (fp_rest p) + method_rank m < n \<Longrightarrow>
   parse ti n m p = Inr (e, advance (length toks) p)"
  by (simp add: reads_def)

lemma reads_weaken: "reads ti S m toks e \<Longrightarrow> (\<And>t. T t \<Longrightarrow> S t) \<Longrightarrow> reads ti T m toks e"
  by (auto simp: reads_def)

definition any_token :: "TokenType option \<Rightarrow> bool" where
  "any_token t \<longleftrightarrow> True"

definition ends_expression :: "TokenType option \<Rightarrow> bool" where
  "ends_expression t \<longleftrightarrow> t = None \<or> t = Some RP"

definition ends_and :: "TokenType option \<Rightarrow> bool" where
  "ends_and t \<longleftrightarrow> t = None \<or> t = Some RP \<or> t = Some OR"

definition ends_condition :: "TokenType option \<Rightarrow> bool" where
  "ends_condition t \<longleftrightarrow> t = None \<or> t = Some RP \<or> t = Some OR \<or> t = Some AND"

lemmas end_defs = any_token_def ends_expression_def ends_and_def ends_condition_def

lemma op_types [simp]:
  "\<not> typeIsBinaryOp OR" "\<not> typeIsBinaryOp AND" "\<not> typeIsBinaryOp RP"
  "\<not> typeIsMathOp OR" "\<not> typeIsMathOp AND" "\<not> typeIsMathOp RP" "typeIsOp OR" "typeIsOp AND"
  "typeIsUnaryOp NOT" "\<not> typeIsUnaryOp LP" "\<not> typeIsUnaryOp STRING" "\<not> typeIsUnaryOp INT'"
  "\<not> typeIsUnaryOp IDENTIFIER" "\<not> typeIsUnaryOp REGULAR_EXPRESSION" "\<not> typeIsUnaryOp LIST_START"
  "\<not> typeIsUnaryOp RP"
  by (simp_all add: typeIsBinaryOp_def typeIsMathOp_def typeIsUnaryOp_def typeIsOp_def)

lemma symbol_types [simp]:
  "tokenize ti ''('' = LP" "tokenize ti '')'' = RP" "tokenize ti ''{'' = LIST_START"
  "tokenize ti ''}'' = LIST_END" "tokenize ti '','' = COMMA" "tokenize ti ''!'' = NOT"
  by (simp_all add: tokenize_def)

lemma binary_op_type:
  "op = AND \<or> op = OR \<or> typeIsBinaryOp op \<or> typeIsMathOp op \<Longrightarrow> tokenize ti (binary_op_text op) = op"
  by (cases op) (simp_all add: tokenize_def typeIsBinaryOp_def typeIsMathOp_def)

section \<open>The methods\<close>

lemma read_condition_end:
  assumes "fp_ok p" "fp_rest p = rest" "ends_condition (case rest of [] \<Rightarrow> None | (_, t) # _ \<Rightarrow> Some t)"
    "0 < n"
  shows "parse ti n (Condition_loop v) p = Inr (v, p)"
proof -
  obtain k where k: "n = Suc k" using assms by (cases n) auto
  show ?thesis
  proof (cases rest)
    case Nil
    then show ?thesis using assms by (simp add: k parse_body_def parseCondition_loop_def rest_Nil)
  next
    case (Cons a r)
    obtain x t where a: "a = (x, t)" by (cases a)
    note facts = rest_Cons [OF assms(1), of x t r]
    show ?thesis using assms facts Cons a
      by (auto simp: k parse_body_def parseCondition_loop_def ends_condition_def)
  qed
qed

lemma read_and_end:
  assumes "fp_ok p" "fp_rest p = rest" "ends_and (case rest of [] \<Rightarrow> None | (_, t) # _ \<Rightarrow> Some t)"
    "0 < n"
  shows "parse ti n (And_loop v) p = Inr (v, p)"
proof -
  obtain k where k: "n = Suc k" using assms by (cases n) auto
  show ?thesis
  proof (cases rest)
    case Nil
    then show ?thesis using assms by (simp add: k parse_body_def parseAnd_loop_def rest_Nil)
  next
    case (Cons a r)
    obtain x t where a: "a = (x, t)" by (cases a)
    note facts = rest_Cons [OF assms(1), of x t r]
    show ?thesis using assms facts Cons a
      by (auto simp: k parse_body_def parseAnd_loop_def ends_and_def)
  qed
qed

lemma read_expression_end:
  assumes "fp_ok p" "fp_rest p = rest" "ends_expression (case rest of [] \<Rightarrow> None | (_, t) # _ \<Rightarrow> Some t)"
    "0 < n"
  shows "parse ti n (Expression_loop v) p = Inr (v, p)"
proof -
  obtain k where k: "n = Suc k" using assms by (cases n) auto
  show ?thesis
  proof (cases rest)
    case Nil
    then show ?thesis using assms by (simp add: k parse_body_def parseExpression_loop_def rest_Nil)
  next
    case (Cons a r)
    obtain x t where a: "a = (x, t)" by (cases a)
    note facts = rest_Cons [OF assms(1), of x t r]
    show ?thesis using assms facts Cons a
      by (auto simp: k parse_body_def parseExpression_loop_def ends_expression_def)
  qed
qed

text \<open>Taking one token, then reading with a method.\<close>

lemma reads_Parentheses:
  assumes e: "reads ti ends_expression (Expression False) toks e"
  shows "reads ti any_token Parentheses (''('' # toks @ ['')'']) e"
proof (rule readsI)
  fix n p rest
  assume p: "fp_ok p" "fp_rest p = typed ti (''('' # toks @ ['')'']) @ rest"
    and k: "8 * length (fp_rest p) + method_rank Parentheses \<le> n"
  note first = rest_Cons [OF p(1), of "''(''" LP "typed ti toks @ ('')'', RP) # rest"]
  have q: "fp_ok (advance 1 p)" using p by (intro advance_ok) simp_all
  have 1: "parse ti n (Expression False) (advance 1 p) = Inr (e, advance (length toks) (advance 1 p))"
    by (rule readsD [OF e q, where rest = "('')'', RP) # rest"])
      (use p k in \<open>simp_all add: method_rank_def ends_expression_def\<close>)
  have r: "fp_ok (advance (length toks) (advance 1 p))" using p q by (intro advance_ok) simp_all
  have "fp_rest (advance (length toks) (advance 1 p)) = ('')'', RP) # rest" using p by simp
  note last = rest_Cons [OF r this]
  show "parse_body ti (parse ti n) Parentheses p = Inr (e, advance (length (''('' # toks @ ['')''])) p)"
    using p 1 first last by (simp add: parse_body_def parseParentheses_def)
qed

lemma reads_Value_Parentheses:
  assumes e: "reads ti S Parentheses (''('' # toks) e"
  shows "reads ti S Value (''('' # toks) e"
proof (rule readsI)
  fix n p rest
  assume p: "fp_ok p" "fp_rest p = typed ti (''('' # toks) @ rest"
    and S: "S (case rest of [] \<Rightarrow> None | (_, t) # _ \<Rightarrow> Some t)"
    and k: "8 * length (fp_rest p) + method_rank Value \<le> n"
  note first = rest_Cons [OF p(1), of "''(''" LP "typed ti toks @ rest"]
  have "parse ti n Parentheses p = Inr (e, advance (length (''('' # toks)) p)"
    by (rule readsD [OF e p S]) (use k in \<open>simp add: method_rank_def\<close>)
  then show "parse_body ti (parse ti n) Value p = Inr (e, advance (length (''('' # toks)) p)"
    using p first by (simp add: parse_body_def parseValue_def)
qed

lemma reads_Value_atom:
  assumes "tokenize ti x = INT' \<and> e = int_literal ti x \<or> tokenize ti x = STRING \<and> e = string_literal x \<or>
    tokenize ti x = IDENTIFIER \<and> e = ValueExpression (VString x) IDENTIFIER \<or>
    tokenize ti x = REGULAR_EXPRESSION \<and> e = regex_literal x"
  shows "reads ti any_token Value [x] e"
proof (rule readsI)
  fix n p rest
  assume p: "fp_ok p" "fp_rest p = typed ti [x] @ rest"
  note first = rest_Cons [OF p(1), of x "tokenize ti x" rest]
  show "parse_body ti (parse ti n) Value p = Inr (e, advance (length [x]) p)"
    using assms p first by (auto simp: parse_body_def parseValue_def)
qed

lemma reads_Condition:
  assumes e: "reads ti any_token (if x = ''('' then Parentheses else Value) (x # toks) e"
    and x: "tokenize ti x = LP \<Longrightarrow> x = ''(''"
  shows "reads ti ends_condition Condition (x # toks) e"
proof (rule readsI)
  fix n p rest
  assume p: "fp_ok p" "fp_rest p = typed ti (x # toks) @ rest"
    and S: "ends_condition (case rest of [] \<Rightarrow> None | (_, t) # _ \<Rightarrow> Some t)"
    and k: "8 * length (fp_rest p) + method_rank Condition \<le> n"
  note first = rest_Cons [OF p(1), of x "tokenize ti x" "typed ti toks @ rest"]
  let ?q = "advance (length (x # toks)) p"
  have 1: "parse ti n (if x = ''('' then Parentheses else Value) p = Inr (e, ?q)"
    by (rule readsD [OF e p]) (use k in \<open>simp_all add: method_rank_def any_token_def\<close>)
  have q: "fp_ok ?q" using p by (intro advance_ok) simp_all
  have "parse ti n (Condition_loop e) ?q = Inr (e, ?q)"
    by (rule read_condition_end [OF q _ S]) (use p k in \<open>simp_all add: method_rank_def\<close>)
  then have 2: "(case parse ti n (if x = ''('' then Parentheses else Value) p of Inl err \<Rightarrow> Inl err
      | Inr (v, p1) \<Rightarrow> parse ti n (Condition_loop v) p1) = Inr (e, ?q)"
    using 1 by simp
  have "fp_hasNext p \<and> fp_peek p = Some LP \<longleftrightarrow> x = ''(''"
    using p(2) x first by auto
  then show "parse_body ti (parse ti n) Condition p = Inr (e, ?q)"
    using 2 by (simp only: parse_body_def parse_method.case parseCondition_def if_distrib [of "\<lambda>m. parse ti n m p"])
qed

text \<open>A binary or arithmetic operator between two operands in parentheses.\<close>

lemma reads_Condition_op:
  assumes l: "reads ti any_token Parentheses (''('' # ls) l"
    and r: "reads ti any_token Value rs r"
    and op: "tokenize ti x = op" "typeIsBinaryOp op \<or> typeIsMathOp op"
  shows "reads ti ends_condition Condition (''('' # ls @ x # rs) (BinaryOperation op l r)"
proof (rule readsI)
  fix n p rest
  assume p: "fp_ok p" "fp_rest p = typed ti (''('' # ls @ x # rs) @ rest"
    and S: "ends_condition (case rest of [] \<Rightarrow> None | (_, t) # _ \<Rightarrow> Some t)"
    and k: "8 * length (fp_rest p) + method_rank Condition \<le> n"
  note first = rest_Cons [OF p(1), of "''(''" LP "typed ti (ls @ x # rs) @ rest"]
  let ?q = "advance (length (''('' # ls)) p"
  have 1: "parse ti n Parentheses p = Inr (l, ?q)"
    by (rule readsD [OF l p(1), where rest = "typed ti (x # rs) @ rest"])
      (use p k in \<open>simp_all add: method_rank_def any_token_def\<close>)
  have q: "fp_ok ?q" "fp_rest ?q = (x, op) # typed ti rs @ rest"
    using p op by (auto intro: advance_ok)
  note opt = rest_Cons [OF q]
  obtain m where m: "n = Suc m" "8 * length rs + 8 * length rest + 8 \<le> m"
    using k p by (cases n) (simp_all add: method_rank_def)
  have q1: "fp_ok (advance 1 ?q)" "fp_rest (advance 1 ?q) = typed ti rs @ rest"
    using q by (auto simp del: advance_simps(2) intro: advance_ok)
  let ?r = "advance (length rs) (advance 1 ?q)"
  have 2: "parse ti m Value (advance 1 ?q) = Inr (r, ?r)"
    by (rule readsD [OF r q1]) (use m q1(2) in \<open>simp_all add: method_rank_def any_token_def del: advance_simps\<close>)
  have r1: "fp_ok ?r" "fp_rest ?r = rest"
    using q1 by (auto simp del: advance_simps(2) intro: advance_ok)
  have 3: "parse ti m (Condition_loop (BinaryOperation op l r)) ?r = Inr (BinaryOperation op l r, ?r)"
    by (rule read_condition_end [OF r1 S]) (use m in simp)
  have "parse ti n (Condition_loop l) ?q = Inr (BinaryOperation op l r, ?r)"
    using op opt 2 3 by (auto simp: m(1) parse_body_def parseCondition_loop_def)
  then show "parse_body ti (parse ti n) Condition p =
      Inr (BinaryOperation op l r, advance (length (''('' # ls @ x # rs)) p)"
    using p 1 first by (simp add: parse_body_def parseCondition_def)
qed

lemma reads_Unary:
  assumes e: "reads ti S Condition (x # toks) e" and x: "\<not> typeIsUnaryOp (tokenize ti x)"
  shows "reads ti S Unary (x # toks) e"
proof (rule readsI)
  fix n p rest
  assume p: "fp_ok p" "fp_rest p = typed ti (x # toks) @ rest"
    and S: "S (case rest of [] \<Rightarrow> None | (_, t) # _ \<Rightarrow> Some t)"
    and k: "8 * length (fp_rest p) + method_rank Unary \<le> n"
  note first = rest_Cons [OF p(1), of x "tokenize ti x" "typed ti toks @ rest"]
  have "parse ti n Condition p = Inr (e, advance (length (x # toks)) p)"
    by (rule readsD [OF e p S]) (use k in \<open>simp add: method_rank_def\<close>)
  then show "parse_body ti (parse ti n) Unary p = Inr (e, advance (length (x # toks)) p)"
    using p x first by (simp add: parse_body_def parseUnary_def)
qed

lemma reads_Not:
  assumes e: "reads ti S Condition toks e"
  shows "reads ti S Unary (''!'' # toks) (UnaryOperation NOT e)"
proof (rule readsI)
  fix n p rest
  assume p: "fp_ok p" "fp_rest p = typed ti (''!'' # toks) @ rest"
    and S: "S (case rest of [] \<Rightarrow> None | (_, t) # _ \<Rightarrow> Some t)"
    and k: "8 * length (fp_rest p) + method_rank Unary \<le> n"
  note first = rest_Cons [OF p(1), of "''!''" NOT "typed ti toks @ rest"]
  have q: "fp_ok (advance 1 p)" using p by (intro advance_ok) simp_all
  have "parse ti n Condition (advance 1 p) = Inr (e, advance (length toks) (advance 1 p))"
    by (rule readsD [OF e q _ S]) (use p k in \<open>simp_all add: method_rank_def\<close>)
  then show "parse_body ti (parse ti n) Unary p =
      Inr (UnaryOperation NOT e, advance (length (''!'' # toks)) p)"
    using p first by (simp add: parse_body_def parseUnary_def)
qed

lemma reads_And:
  assumes e: "reads ti ends_condition Unary toks e"
  shows "reads ti ends_and And toks e"
proof (rule readsI)
  fix n p rest
  assume p: "fp_ok p" "fp_rest p = typed ti toks @ rest"
    and S: "ends_and (case rest of [] \<Rightarrow> None | (_, t) # _ \<Rightarrow> Some t)"
    and k: "8 * length (fp_rest p) + method_rank And \<le> n"
  let ?q = "advance (length toks) p"
  have 1: "parse ti n Unary p = Inr (e, ?q)"
    by (rule readsD [OF e p]) (use S k in \<open>auto simp: method_rank_def end_defs\<close>)
  have q: "fp_ok ?q" "fp_rest ?q = rest" using p by (auto intro: advance_ok)
  have "parse ti n (And_loop e) ?q = Inr (e, ?q)"
    by (rule read_and_end [OF q S]) (use k in \<open>simp add: method_rank_def\<close>)
  then show "parse_body ti (parse ti n) And p = Inr (e, ?q)"
    using 1 by (simp add: parse_body_def parseAnd_def)
qed

lemma reads_And_op:
  assumes l: "reads ti ends_condition Unary ls l" and r: "reads ti ends_condition Unary rs r"
  shows "reads ti ends_and And (ls @ ''&&'' # rs) (BinaryOperation AND l r)"
proof (rule readsI)
  fix n p rest
  assume p: "fp_ok p" "fp_rest p = typed ti (ls @ ''&&'' # rs) @ rest"
    and S: "ends_and (case rest of [] \<Rightarrow> None | (_, t) # _ \<Rightarrow> Some t)"
    and k: "8 * length (fp_rest p) + method_rank And \<le> n"
  have amp: "tokenize ti ''&&'' = AND" by (simp add: tokenize_def)
  let ?q = "advance (length ls) p"
  have 1: "parse ti n Unary p = Inr (l, ?q)"
    by (rule readsD [OF l p(1), where rest = "typed ti (''&&'' # rs) @ rest"])
      (use p k amp in \<open>simp_all add: method_rank_def ends_condition_def\<close>)
  have q: "fp_ok ?q" "fp_rest ?q = (''&&'', AND) # typed ti rs @ rest"
    using p amp by (auto intro: advance_ok)
  note opt = rest_Cons [OF q]
  obtain m where m: "n = Suc m" "8 * length rs + 8 * length rest + 8 \<le> m"
    using k p by (cases n) (simp_all add: method_rank_def)
  have q1: "fp_ok (advance 1 ?q)" "fp_rest (advance 1 ?q) = typed ti rs @ rest"
    using q by (auto simp del: advance_simps(2) intro: advance_ok)
  let ?r = "advance (length rs) (advance 1 ?q)"
  have 2: "parse ti m Unary (advance 1 ?q) = Inr (r, ?r)"
    by (rule readsD [OF r q1])
      (use S m q1(2) in \<open>auto simp: method_rank_def end_defs simp del: advance_simps\<close>)
  have r1: "fp_ok ?r" "fp_rest ?r = rest"
    using q1 by (auto simp del: advance_simps(2) intro: advance_ok)
  have 3: "parse ti m (And_loop (BinaryOperation AND l r)) ?r = Inr (BinaryOperation AND l r, ?r)"
    by (rule read_and_end [OF r1 S]) (use m in simp)
  have "parse ti n (And_loop l) ?q = Inr (BinaryOperation AND l r, ?r)"
    using opt 2 3 by (simp add: m(1) parse_body_def parseAnd_loop_def)
  then show "parse_body ti (parse ti n) And p =
      Inr (BinaryOperation AND l r, advance (length (ls @ ''&&'' # rs)) p)"
    using 1 by (simp add: parse_body_def parseAnd_def)
qed

lemma reads_Expression:
  assumes e: "reads ti ends_and And toks e"
  shows "reads ti (\<lambda>t. if b then t = None else ends_expression t) (Expression b) toks e"
proof (rule readsI)
  fix n p and rest :: "(qstring \<times> TokenType) list"
  let ?next = "case rest of [] \<Rightarrow> None | (_, t) # _ \<Rightarrow> Some t"
  assume p: "fp_ok p" "fp_rest p = typed ti toks @ rest"
    and S: "if b then ?next = None else ends_expression ?next"
    and k: "8 * length (fp_rest p) + method_rank (Expression b) \<le> n"
  have S': "ends_expression ?next" using S by (simp add: ends_expression_def split: if_splits)
  let ?q = "advance (length toks) p"
  have 1: "parse ti n And p = Inr (e, ?q)"
    by (rule readsD [OF e p]) (use S' k in \<open>auto simp: method_rank_def ends_expression_def ends_and_def\<close>)
  have q: "fp_ok ?q" "fp_rest ?q = rest" using p by (auto intro: advance_ok)
  have 2: "parse ti n (Expression_loop e) ?q = Inr (e, ?q)"
    by (rule read_expression_end [OF q S']) (use k in \<open>simp add: method_rank_def\<close>)
  have "b \<Longrightarrow> \<not> fp_hasNext ?q"
    using S q rest_Nil [OF q(1)] by (auto split: list.splits)
  then show "parse_body ti (parse ti n) (Expression b) p = Inr (e, ?q)"
    using 1 2 by (auto simp: parse_body_def parseExpression_def)
qed

lemma reads_Expression_op:
  assumes l: "reads ti ends_and And ls l" and r: "reads ti ends_and And rs r"
  shows "reads ti (\<lambda>t. if b then t = None else ends_expression t) (Expression b) (ls @ ''||'' # rs)
    (BinaryOperation OR l r)"
proof (rule readsI)
  fix n p and rest :: "(qstring \<times> TokenType) list"
  let ?next = "case rest of [] \<Rightarrow> None | (_, t) # _ \<Rightarrow> Some t"
  assume p: "fp_ok p" "fp_rest p = typed ti (ls @ ''||'' # rs) @ rest"
    and S: "if b then ?next = None else ends_expression ?next"
    and k: "8 * length (fp_rest p) + method_rank (Expression b) \<le> n"
  have S': "ends_expression ?next" using S by (simp add: ends_expression_def split: if_splits)
  have bar: "tokenize ti ''||'' = OR" by (simp add: tokenize_def)
  let ?q = "advance (length ls) p"
  have 1: "parse ti n And p = Inr (l, ?q)"
    by (rule readsD [OF l p(1), where rest = "typed ti (''||'' # rs) @ rest"])
      (use p k bar in \<open>simp_all add: method_rank_def ends_and_def\<close>)
  have q: "fp_ok ?q" "fp_rest ?q = (''||'', OR) # typed ti rs @ rest"
    using p bar by (auto intro: advance_ok)
  note opt = rest_Cons [OF q]
  obtain m where m: "n = Suc m" "8 * length rs + 8 * length rest + 8 \<le> m"
    using k p by (cases n) (simp_all add: method_rank_def)
  have q1: "fp_ok (advance 1 ?q)" "fp_rest (advance 1 ?q) = typed ti rs @ rest"
    using q by (auto simp del: advance_simps(2) intro: advance_ok)
  let ?r = "advance (length rs) (advance 1 ?q)"
  have 2: "parse ti m And (advance 1 ?q) = Inr (r, ?r)"
    by (rule readsD [OF r q1])
      (use S' m q1(2) in \<open>auto simp: method_rank_def end_defs simp del: advance_simps\<close>)
  have r1: "fp_ok ?r" "fp_rest ?r = rest"
    using q1 by (auto simp del: advance_simps(2) intro: advance_ok)
  have 3: "parse ti m (Expression_loop (BinaryOperation OR l r)) ?r = Inr (BinaryOperation OR l r, ?r)"
    by (rule read_expression_end [OF r1 S']) (use m in simp)
  have 4: "parse ti n (Expression_loop l) ?q = Inr (BinaryOperation OR l r, ?r)"
    using opt 2 3 by (simp add: m(1) parse_body_def parseExpression_loop_def)
  have "b \<Longrightarrow> \<not> fp_hasNext ?r"
    using S r1 rest_Nil [OF r1(1)] by (auto split: list.splits)
  then show "parse_body ti (parse ti n) (Expression b) p =
      Inr (BinaryOperation OR l r, advance (length (ls @ ''||'' # rs)) p)"
    using 1 4 by (auto simp: parse_body_def parseExpression_def)
qed

subsection \<open>Lists\<close>

lemma reads_List_end: "reads ti any_token (List_loop xs first) [''}''] (ListExpression xs)"
proof (rule readsI)
  fix n p rest
  assume p: "fp_ok p" "fp_rest p = typed ti [''}''] @ rest"
  note t = rest_Cons [OF p(1), of "''}''" LIST_END rest]
  show "parse_body ti (parse ti n) (List_loop xs first) p =
      Inr (ListExpression xs, advance (length [''}'']) p)"
    using p t by (simp add: parse_body_def parseList_loop_def)
qed

lemma reads_List_first:
  assumes v: "reads ti any_token Value (''('' # ls) e"
    and more: "reads ti any_token (List_loop (xs @ [e]) False) rs l"
  shows "reads ti any_token (List_loop xs True) (''('' # ls @ rs) l"
proof (rule readsI)
  fix n p rest
  assume p: "fp_ok p" "fp_rest p = typed ti (''('' # ls @ rs) @ rest"
    and k: "8 * length (fp_rest p) + method_rank (List_loop xs True) \<le> n"
  note t = rest_Cons [OF p(1), of "''(''" LP "typed ti (ls @ rs) @ rest"]
  let ?q = "advance (length (''('' # ls)) p"
  have 1: "parse ti n Value p = Inr (e, ?q)"
    by (rule readsD [OF v p(1), where rest = "typed ti rs @ rest"])
      (use p k in \<open>simp_all add: method_rank_def any_token_def\<close>)
  have q: "fp_ok ?q" "fp_rest ?q = typed ti rs @ rest" using p by (auto intro: advance_ok)
  have "parse ti n (List_loop (xs @ [e]) False) ?q = Inr (l, advance (length rs) ?q)"
    by (rule readsD [OF more q]) (use p k in \<open>simp_all add: method_rank_def any_token_def\<close>)
  then show "parse_body ti (parse ti n) (List_loop xs True) p = Inr (l, advance (length (''('' # ls @ rs)) p)"
    using p t 1 by (simp add: parse_body_def parseList_loop_def)
qed

lemma reads_List_next:
  assumes v: "reads ti any_token Value ls e"
    and more: "reads ti any_token (List_loop (xs @ [e]) False) rs l"
  shows "reads ti any_token (List_loop xs False) ('','' # ls @ rs) l"
proof (rule readsI)
  fix n p rest
  assume p: "fp_ok p" "fp_rest p = typed ti ('','' # ls @ rs) @ rest"
    and k: "8 * length (fp_rest p) + method_rank (List_loop xs False) \<le> n"
  note t = rest_Cons [OF p(1), of "'',''" COMMA "typed ti (ls @ rs) @ rest"]
  have a: "fp_ok (advance 1 p)" using p by (intro advance_ok) simp_all
  let ?q = "advance (length ls) (advance 1 p)"
  have 1: "parse ti n Value (advance 1 p) = Inr (e, ?q)"
    by (rule readsD [OF v a, where rest = "typed ti rs @ rest"])
      (use p k in \<open>simp_all add: method_rank_def any_token_def\<close>)
  have q: "fp_ok ?q" "fp_rest ?q = typed ti rs @ rest" using p by (auto intro: advance_ok)
  have "parse ti n (List_loop (xs @ [e]) False) ?q = Inr (l, advance (length rs) ?q)"
    by (rule readsD [OF more q]) (use p k in \<open>simp_all add: method_rank_def any_token_def\<close>)
  then show "parse_body ti (parse ti n) (List_loop xs False) p = Inr (l, advance (length ('','' # ls @ rs)) p)"
    using p t 1 by (simp add: parse_body_def parseList_loop_def)
qed

lemma reads_List_Value:
  assumes e: "reads ti any_token (List_loop [] True) toks e"
  shows "reads ti any_token Value (''{'' # toks) e"
proof -
  have "reads ti any_token List (''{'' # toks) e"
  proof (rule readsI)
    fix n p rest
    assume p: "fp_ok p" "fp_rest p = typed ti (''{'' # toks) @ rest"
      and k: "8 * length (fp_rest p) + method_rank List \<le> n"
    note t = rest_Cons [OF p(1), of "''{''" LIST_START "typed ti toks @ rest"]
    have a: "fp_ok (advance 1 p)" using p by (intro advance_ok) simp_all
    have "parse ti n (List_loop [] True) (advance 1 p) = Inr (e, advance (length toks) (advance 1 p))"
      by (rule readsD [OF e a]) (use p k in \<open>simp_all add: method_rank_def any_token_def\<close>)
    then show "parse_body ti (parse ti n) List p = Inr (e, advance (length (''{'' # toks)) p)"
      using p t by (simp add: parse_body_def parseList_def)
  qed
  note list = this
  show ?thesis
  proof (rule readsI)
    fix n p rest
    assume p: "fp_ok p" "fp_rest p = typed ti (''{'' # toks) @ rest"
      and k: "8 * length (fp_rest p) + method_rank Value \<le> n"
    note t = rest_Cons [OF p(1), of "''{''" LIST_START "typed ti toks @ rest"]
    have "parse ti n List p = Inr (e, advance (length (''{'' # toks)) p)"
      by (rule readsD [OF list p]) (use k in \<open>simp_all add: method_rank_def any_token_def\<close>)
    then show "parse_body ti (parse ti n) Value p = Inr (e, advance (length (''{'' # toks)) p)"
      using p t by (simp add: parse_body_def parseValue_def)
  qed
qed

section \<open>The literals\<close>

lemma tokenize_string:
  "tokenize ti (CHR 0x22 # s @ [CHR 0x22]) = STRING"
  by (simp add: tokenize_def)

lemma tokenize_regex:
  "tokenize ti (CHR ''r'' # CHR 0x22 # s @ [CHR 0x22]) = REGULAR_EXPRESSION"
  "tokenize ti (CHR ''r'' # CHR ''i'' # CHR 0x22 # s @ [CHR 0x22]) = REGULAR_EXPRESSION"
  by (simp_all add: tokenize_def)

lemma tokenize_identifier: "s \<in> set (map fst validIdentifiersMap) \<Longrightarrow> tokenize ti s = IDENTIFIER"
  unfolding validIdentifiersMap_def list.map fst_conv set_simps
  by (elim insertE emptyE) (simp_all add: tokenize_def validIdentifiersMap_def)

lemma tokenize_number:
  assumes "s \<noteq> []" "\<forall>c \<in> set s. is_digit c" "ti s \<noteq> None"
  shows "tokenize ti s = INT'"
proof -
  obtain c r where s: "s = c # r" using assms(1) by (cases s) auto
  have c: "is_digit c" using assms(2) s by simp
  have n: "\<not> is_digit CHR 0x22" "\<not> is_digit CHR ''r''" "\<not> is_digit CHR ''&''" "\<not> is_digit CHR ''|''"
    "\<not> is_digit CHR ''(''" "\<not> is_digit CHR '')''" "\<not> is_digit CHR ''{''" "\<not> is_digit CHR ''}''"
    "\<not> is_digit CHR '',''" "\<not> is_digit CHR ''+''" "\<not> is_digit CHR ''-''" "\<not> is_digit CHR ''*''"
    "\<not> is_digit CHR ''/''" "\<not> is_digit CHR ''=''" "\<not> is_digit CHR ''!''" "\<not> is_digit CHR ''%''"
    "\<not> is_digit CHR ''<''" "\<not> is_digit CHR ''>''" "\<not> is_digit CHR ''c''" "\<not> is_digit CHR ''s''"
    "\<not> is_digit CHR ''e''" "\<not> is_digit CHR ''m''" "\<not> is_digit CHR ''a''" "\<not> is_digit CHR ''f''"
    by (simp_all add: is_digit_def)
  have ne: "c \<noteq> d" if "\<not> is_digit d" for d using c that by auto
  show ?thesis
    using assms(3) unfolding s
    by (simp add: tokenize_def validIdentifiersMap_def n [THEN ne] n [THEN ne, symmetric])
qed

lemma escape_literal: "string_literal (CHR 0x22 # escape_quotes s @ [CHR 0x22]) = ValueExpression (VString s) STRING"
  by (simp add: string_literal_def unescape_escape)

lemma regex_literals:
  "regex_literal (CHR ''r'' # CHR 0x22 # escape_quotes s @ [CHR 0x22]) = RegexExpression s False"
  "regex_literal (CHR ''r'' # CHR ''i'' # CHR 0x22 # escape_quotes s @ [CHR 0x22]) = RegexExpression s True"
  by (simp_all add: regex_literal_def unescape_escape)

lemma printed_atom:
  assumes qt: "qt_prints qt" and e: "printable ti e" and
    atom: "(\<exists>v t. e = ValueExpression v t) \<or> (\<exists>r ci. e = RegexExpression r ci)"
  shows "\<exists>x. print_tokens qt e = [x] \<and> tokenize ti x \<noteq> LP \<and> \<not> typeIsUnaryOp (tokenize ti x) \<and>
    reads ti any_token Value [x] e"
  using atom
proof (elim disjE exE)
  fix v t
  assume v: "e = ValueExpression v t"
  consider (i) i where "v = VInt i" "t = INT'" "0 \<le> i" "ti (show_int i) = Some i"
    | (s) s where "v = VString s" "t = STRING"
    | (id) s where "v = VString s" "t = IDENTIFIER" "s \<in> set (map fst validIdentifiersMap)"
    using e v by (cases v) auto
  then show ?thesis
  proof cases
    case i
    have "tokenize ti (show_int i) = INT'"
      using i by (intro tokenize_number) (auto simp: show_int_def show_nat_digits)
    moreover have "int_literal ti (show_int i) = e" using i v by (simp add: int_literal_def)
    ultimately show ?thesis
      using i v qt by (auto simp: qt_prints_def intro!: reads_Value_atom)
  next
    case s
    then show ?thesis
      using v qt by (auto simp: qt_prints_def tokenize_string escape_literal intro!: reads_Value_atom)
  next
    case id
    then show ?thesis
      using v qt tokenize_identifier [OF id(3)] by (auto simp: qt_prints_def intro!: reads_Value_atom)
  qed
next
  fix r ci
  assume "e = RegexExpression r ci"
  then show ?thesis
    by (cases ci) (auto simp: tokenize_regex regex_literals intro!: reads_Value_atom)
qed

section \<open>The round trip\<close>

lemma parenthesised:
  assumes "reads ti ends_expression (Expression False) toks e"
  shows "reads ti any_token Parentheses (''('' # toks @ ['')'']) e"
    "reads ti any_token Value (''('' # toks @ ['')'']) e"
proof -
  show "reads ti any_token Parentheses (''('' # toks @ ['')'']) e"
    using assms by (rule reads_Parentheses)
  then show "reads ti any_token Value (''('' # toks @ ['')'']) e"
    by (rule reads_Value_Parentheses)
qed

lemma reads_elements:
  assumes "\<And>e. e \<in> set es \<Longrightarrow> reads ti any_token Value (''('' # print_tokens qt e @ ['')'']) e"
  shows "reads ti any_token (List_loop xs False) (print_elements qt es @ [''}'']) (ListExpression (xs @ es))"
  using assms
proof (induction es arbitrary: xs)
  case Nil
  show ?case using reads_List_end by simp
next
  case (Cons e es)
  have "reads ti any_token (List_loop (xs @ [e]) False) (print_elements qt es @ [''}''])
      (ListExpression (xs @ e # es))"
    using Cons.IH [of "xs @ [e]"] Cons.prems by simp
  then show ?case
    using reads_List_next [OF Cons.prems [of e]] by simp
qed

lemma reads_list:
  assumes "\<And>e. e \<in> set es \<Longrightarrow> reads ti any_token Value (''('' # print_tokens qt e @ ['')'']) e"
  shows "reads ti any_token Value (print_tokens qt (ListExpression es)) (ListExpression es)"
proof (cases es)
  case Nil
  then show ?thesis using reads_List_Value [OF reads_List_end] by simp
next
  case (Cons e es')
  have rest: "reads ti any_token (List_loop ([] @ [e]) False) (print_elements qt es' @ [''}'']) (ListExpression es)"
    using reads_elements [of es' ti qt "[e]"] assms Cons by simp
  have first: "reads ti any_token Value (''('' # print_tokens qt e @ ['')'']) e"
    using assms Cons by simp
  show ?thesis
    using reads_List_Value [OF reads_List_first [OF first rest]] Cons by simp
qed

lemma Value_reads_Expression:
  assumes "reads ti any_token Value (x # toks) e" "tokenize ti x \<noteq> LP" "\<not> typeIsUnaryOp (tokenize ti x)"
  shows "reads ti (\<lambda>t. if b then t = None else ends_expression t) (Expression b) (x # toks) e"
proof -
  have "x \<noteq> ''(''" using assms(2) by auto
  then show ?thesis
    using assms by (intro reads_Expression reads_And reads_Unary reads_Condition) simp_all
qed

lemma print_reads:
  assumes qt: "qt_prints qt"
  shows "printable ti e \<Longrightarrow>
    reads ti (\<lambda>t. if b then t = None else ends_expression t) (Expression b) (print_tokens qt e) e"
proof (induction e arbitrary: b)
  case (ValueExpression v t)
  then obtain x where "print_tokens qt (ValueExpression v t) = [x]" "tokenize ti x \<noteq> LP"
      "\<not> typeIsUnaryOp (tokenize ti x)" "reads ti any_token Value [x] (ValueExpression v t)"
    using printed_atom [OF qt] by metis
  then show ?case using Value_reads_Expression by metis
next
  case (RegexExpression r ci)
  then obtain x where "print_tokens qt (RegexExpression r ci) = [x]" "tokenize ti x \<noteq> LP"
      "\<not> typeIsUnaryOp (tokenize ti x)" "reads ti any_token Value [x] (RegexExpression r ci)"
    using printed_atom [OF qt] by metis
  then show ?case using Value_reads_Expression by metis
next
  case (ListExpression es)
  have "reads ti any_token Value (''('' # print_tokens qt e @ ['')'']) e" if "e \<in> set es" for e
    using parenthesised(2) ListExpression.IH [OF that, of False] ListExpression.prems that
    by (simp add: list_all_iff)
  then have "reads ti any_token Value (print_tokens qt (ListExpression es)) (ListExpression es)"
    by (rule reads_list)
  moreover obtain toks where "print_tokens qt (ListExpression es) = ''{'' # toks"
    by (cases es) simp_all
  ultimately show ?case using Value_reads_Expression [of ti "''{''" toks] by simp
next
  case (BinaryOperation op l r)
  let ?l = "''('' # print_tokens qt l @ ['')'']" and ?r = "''('' # print_tokens qt r @ ['')'']"
  note op = BinaryOperation.prems [simplified, THEN conjunct1]
  have l: "reads ti any_token Parentheses ?l l" and r: "reads ti any_token Value ?r r"
      "reads ti any_token Parentheses ?r r"
    using parenthesised BinaryOperation.IH(1) [of False] BinaryOperation.IH(2) [of False]
      BinaryOperation.prems by simp_all
  have ul: "reads ti ends_condition Unary ?l l" and ur: "reads ti ends_condition Unary ?r r"
    using l r by (auto intro!: reads_Unary reads_Condition)
  consider "op = AND" | "op = OR" | "typeIsBinaryOp op \<or> typeIsMathOp op" using op by blast
  then show ?case
  proof cases
    case 1
    then show ?thesis using reads_Expression [OF reads_And_op [OF ul ur]] by simp
  next
    case 2
    then show ?thesis using reads_Expression_op [OF reads_And [OF ul] reads_And [OF ur]] by simp
  next
    case 3
    have "reads ti ends_condition Condition (?l @ binary_op_text op # ?r) (BinaryOperation op l r)"
      using reads_Condition_op [OF l r(1) binary_op_type [OF op] 3] by simp
    then have "reads ti ends_condition Unary (?l @ binary_op_text op # ?r) (BinaryOperation op l r)"
      using reads_Unary [of ti ends_condition "''(''"] by simp
    then show ?thesis using reads_Expression [OF reads_And] by simp
  qed
next
  case (UnaryOperation op r)
  have "reads ti ends_condition Condition (''('' # print_tokens qt r @ ['')'']) r"
    using parenthesised(1) UnaryOperation.IH [of False] UnaryOperation.prems
    by (auto intro!: reads_Condition)
  then show ?case
    using reads_Expression [OF reads_And [OF reads_Not]] UnaryOperation.prems by simp
qed



end
