(* ===== verification/Messages.thy ===== *)
theory Messages
  imports Prelude "HOL-Library.Word"
begin

text \<open>
  \<open>common/FlagsEnum.hpp\<close> over 32-bit words, and the message of \<open>messages/Message.hpp\<close> with its flags.
  Colours are the numbers Qt packs them into; an invalid QColor and a null \<open>shared_ptr\<close> are \<open>None\<close>.
  Elements, badges' images and reply threads are not modelled: nothing modelled here reads them.
\<close>

text \<open>The bitwise operators are written prefix, since the filter language has tokens AND, OR and NOT.\<close>

abbreviation word_or :: "'a::len word \<Rightarrow> 'a word \<Rightarrow> 'a word" where
  "word_or \<equiv> Bit_Operations.or"

abbreviation word_and :: "'a::len word \<Rightarrow> 'a word \<Rightarrow> 'a word" where
  "word_and \<equiv> Bit_Operations.and"

abbreviation word_not :: "'a::len word \<Rightarrow> 'a word" where
  "word_not \<equiv> Bit_Operations.not"

section \<open>FlagsEnum\<close>

type_synonym flags = "32 word"

definition fe_set :: "32 word \<Rightarrow> flags \<Rightarrow> flags" where
  "fe_set flag v = word_or v flag"

definition fe_unset :: "32 word \<Rightarrow> flags \<Rightarrow> flags" where
  "fe_unset flag v = word_and v (word_not flag)"

definition fe_set_to :: "32 word \<Rightarrow> bool \<Rightarrow> flags \<Rightarrow> flags" where
  "fe_set_to flag b v = (if b then fe_set flag v else fe_unset flag v)"

definition fe_has :: "flags \<Rightarrow> 32 word \<Rightarrow> bool" where
  "fe_has v flag \<longleftrightarrow> word_and v flag \<noteq> 0"

definition fe_list :: "32 word list \<Rightarrow> flags" where
  "fe_list fs = fold fe_set fs 0"

definition fe_hasAny :: "flags \<Rightarrow> flags \<Rightarrow> bool" where
  "fe_hasAny v fs \<longleftrightarrow> word_and v fs \<noteq> 0"

definition fe_hasNone :: "flags \<Rightarrow> 32 word list \<Rightarrow> bool" where
  "fe_hasNone v fs \<longleftrightarrow> \<not> fe_hasAny v (fe_list fs)"

section \<open>Messages\<close>

datatype MessageFlag = NoFlag | System | Timeout | Highlighted | DoNotTriggerNotification | Centered
  | Disabled | DisableCompactEmotes | Collapsed | ConnectedMessage | DisconnectedMessage | Untimeout
  | PubSub | Subscription | DoNotLog | AutoMod | RecentMessage | Whisper | HighlightedWhisper | Debug
  | Similar | RedeemedHighlight | RedeemedChannelPointReward | ShowInMentions | FirstMessage
  | SevenTvEventApiAddEmoteMessage | SevenTvEventApiRemoveEmoteMessage
  | SevenTvEventApiUpdateEmoteMessage | WebchatDetected | ReplyMessage

text \<open>The position of the flag's bit; \<open>None\<close> has no bit.\<close>

fun flag_bit :: "MessageFlag \<Rightarrow> nat option" where
  "flag_bit NoFlag = None"
| "flag_bit System = Some 0"
| "flag_bit Timeout = Some 1"
| "flag_bit Highlighted = Some 2"
| "flag_bit DoNotTriggerNotification = Some 3"
| "flag_bit Centered = Some 4"
| "flag_bit Disabled = Some 5"
| "flag_bit DisableCompactEmotes = Some 6"
| "flag_bit Collapsed = Some 7"
| "flag_bit ConnectedMessage = Some 8"
| "flag_bit DisconnectedMessage = Some 9"
| "flag_bit Untimeout = Some 10"
| "flag_bit PubSub = Some 11"
| "flag_bit Subscription = Some 12"
| "flag_bit DoNotLog = Some 13"
| "flag_bit AutoMod = Some 14"
| "flag_bit RecentMessage = Some 15"
| "flag_bit Whisper = Some 16"
| "flag_bit HighlightedWhisper = Some 17"
| "flag_bit Debug = Some 18"
| "flag_bit Similar = Some 19"
| "flag_bit RedeemedHighlight = Some 20"
| "flag_bit RedeemedChannelPointReward = Some 21"
| "flag_bit ShowInMentions = Some 22"
| "flag_bit FirstMessage = Some 23"
| "flag_bit SevenTvEventApiAddEmoteMessage = Some 24"
| "flag_bit SevenTvEventApiRemoveEmoteMessage = Some 25"
| "flag_bit SevenTvEventApiUpdateEmoteMessage = Some 26"
| "flag_bit WebchatDetected = Some 27"
| "flag_bit ReplyMessage = Some 28"

definition flag_value :: "MessageFlag \<Rightarrow> 32 word" where
  "flag_value f = (case flag_bit f of None \<Rightarrow> 0 | Some n \<Rightarrow> push_bit n 1)"

record message =
  flags :: flags
  id' :: qstring
  searchText :: qstring
  messageText :: qstring
  loginName :: qstring
  displayName :: qstring
  localizedName :: qstring
  timeoutUser :: qstring
  channelName :: qstring
  usernameColor :: "int option"
  badges :: "qstring list"
  badgeInfos :: "(qstring \<times> qstring) list"
  highlightColor :: "int option"
  count' :: "32 word"
  parseTime :: int
  serverReceivedTime :: int
  seventvEventTargetEmotes :: "qstring list"

text \<open>\<open>Message()\<close> at a time of the day; times are milliseconds.\<close>

definition new_message :: "int \<Rightarrow> message" where
  "new_message currentTime = \<lparr>flags = 0, id' = [], searchText = [], messageText = [], loginName = [],
     displayName = [], localizedName = [], timeoutUser = [], channelName = [], usernameColor = None,
     badges = [], badgeInfos = [], highlightColor = None, count' = 1,
     parseTime = currentTime, serverReceivedTime = 0, seventvEventTargetEmotes = []\<rparr>"

abbreviation msg_has :: "message \<Rightarrow> MessageFlag \<Rightarrow> bool" where
  "msg_has m f \<equiv> fe_has (flags m) (flag_value f)"

subsection \<open>The scrollbar highlight of a message\<close>

datatype highlight_style = NoHighlight
  | ScrollbarHighlight (sb_color: "int option") (sb_redeemed: bool) (sb_first: bool)

record sb_settings =
  enableSubHighlight :: bool
  subscription_color :: int
  redeemed_color :: int
  first_message_color :: int

definition getScrollBarHighlight :: "sb_settings \<Rightarrow> message \<Rightarrow> highlight_style" where
  "getScrollBarHighlight s m =
     (if msg_has m Highlighted \<or> msg_has m HighlightedWhisper
      then ScrollbarHighlight (highlightColor m) False False
      else if msg_has m Subscription \<and> enableSubHighlight s
      then ScrollbarHighlight (Some (subscription_color s)) False False
      else if msg_has m RedeemedHighlight \<or> msg_has m RedeemedChannelPointReward
      then ScrollbarHighlight (Some (redeemed_color s)) True False
      else if msg_has m FirstMessage
      then ScrollbarHighlight (Some (first_message_color s)) False True
      else NoHighlight)"

section \<open>Flags are independent\<close>

lemma flag_bit_less: "flag_bit f = Some n \<Longrightarrow> n < 32"
  by (cases f) auto

definition bit_flags :: "MessageFlag list" where
  "bit_flags = [System, Timeout, Highlighted, DoNotTriggerNotification, Centered, Disabled,
     DisableCompactEmotes, Collapsed, ConnectedMessage, DisconnectedMessage, Untimeout, PubSub,
     Subscription, DoNotLog, AutoMod, RecentMessage, Whisper, HighlightedWhisper, Debug, Similar,
     RedeemedHighlight, RedeemedChannelPointReward, ShowInMentions, FirstMessage,
     SevenTvEventApiAddEmoteMessage, SevenTvEventApiRemoveEmoteMessage,
     SevenTvEventApiUpdateEmoteMessage, WebchatDetected, ReplyMessage]"

lemma bit_flags_nth: "flag_bit f = Some n \<Longrightarrow> bit_flags ! n = f"
  by (cases f) (auto simp: bit_flags_def)

lemma flag_bit_inj: "flag_bit f = Some n \<Longrightarrow> flag_bit g = Some n \<Longrightarrow> f = g"
  using bit_flags_nth by metis

lemma flag_bit_None: "flag_bit f = None \<longleftrightarrow> f = NoFlag"
  by (cases f) simp_all

lemma has_bit: "fe_has v (flag_value f) \<longleftrightarrow> (case flag_bit f of None \<Rightarrow> False | Some n \<Rightarrow> bit v n)"
proof (cases "flag_bit f")
  case None
  then show ?thesis by (simp add: fe_has_def flag_value_def)
next
  case (Some n)
  have n: "n < LENGTH(32)" using flag_bit_less [OF Some] by simp
  have "word_and v (push_bit n 1) \<noteq> 0 \<longleftrightarrow> bit v n"
  proof
    assume a: "word_and v (push_bit n 1) \<noteq> 0"
    show "bit v n"
    proof (rule ccontr)
      assume b: "\<not> bit v n"
      have "word_and v (push_bit n 1) = 0"
        by (rule bit_word_eqI) (use b in \<open>auto simp: bit_simps\<close>)
      with a show False by contradiction
    qed
  next
    assume "bit v n"
    then have "bit (word_and v (push_bit n 1)) n" using n by (auto simp: bit_simps)
    then show "word_and v (push_bit n 1) \<noteq> 0" by (metis bit_0_eq bot_apply bot_bool_def)
  qed
  with Some show ?thesis by (simp add: fe_has_def flag_value_def)
qed

lemma bit_flag_value:
  "k < 32 \<Longrightarrow> bit (flag_value f) k \<longleftrightarrow> flag_bit f = Some k"
  by (cases "flag_bit f") (auto simp: flag_value_def bit_simps)

lemma has_set_to:
  "fe_has (fe_set_to (flag_value f) b v) (flag_value g) \<longleftrightarrow>
     (if f = g \<and> f \<noteq> NoFlag then b else fe_has v (flag_value g))"
proof (cases "flag_bit g")
  case None
  then have "g = NoFlag" by (simp add: flag_bit_None)
  then show ?thesis by (auto simp: has_bit)
next
  case (Some n)
  have n: "n < 32" by (rule flag_bit_less [OF Some])
  have g: "g \<noteq> NoFlag" using Some by auto
  have fg: "bit (flag_value f) n \<longleftrightarrow> f = g"
    using bit_flag_value [OF n, of f] flag_bit_inj [of f n g] Some by metis
  have "bit (fe_set_to (flag_value f) b v) n \<longleftrightarrow> (if f = g then b else bit v n)"
    using n fg by (auto simp: fe_set_to_def fe_set_def fe_unset_def bit_simps)
  then show ?thesis using Some g by (simp add: has_bit)
qed

lemma has_set: "fe_has (fe_set (flag_value f) v) (flag_value g) \<longleftrightarrow> f = g \<and> f \<noteq> NoFlag \<or> fe_has v (flag_value g)"
  using has_set_to [of f True v g] by (simp only: fe_set_to_def if_True) (auto split: if_splits)

text \<open>\<open>hasNone\<close> is true exactly when the message has none of the listed flags.\<close>

lemma hasNone_iff:
  "fe_hasNone v (map flag_value fs) \<longleftrightarrow> \<not> list_ex (\<lambda>f. fe_has v (flag_value f)) fs"
proof -
  have gen: "word_and v (fold fe_set (map flag_value fs) a) \<noteq> 0 \<longleftrightarrow>
      word_and v a \<noteq> 0 \<or> list_ex (\<lambda>f. fe_has v (flag_value f)) fs" for a
  proof (induction fs arbitrary: a)
    case (Cons f fs)
    have "word_and v (word_or a (flag_value f)) = 0 \<longleftrightarrow> word_and v a = 0 \<and> word_and v (flag_value f) = 0"
      by (simp add: bit.conj_disj_distrib or_eq_0_iff)
    then show ?case using Cons.IH [of "fe_set (flag_value f) a"] by (auto simp: fe_has_def fe_set_def)
  qed simp
  show ?thesis using gen [of 0] by (simp add: fe_hasNone_def fe_hasAny_def fe_list_def)
qed

lemma hasAny_iff:
  "fe_hasAny v (fe_list (map flag_value fs)) \<longleftrightarrow> list_ex (\<lambda>f. fe_has v (flag_value f)) fs"
  using hasNone_iff [of v fs] by (simp add: fe_hasNone_def)

lemma fe_set_idem [simp]: "fe_set f (fe_set f v) = fe_set f v"
  by (simp add: fe_set_def or.assoc)

text \<open>
  Setting or clearing one message flag changes that flag only: afterwards \<open>has\<close> answers the
  value that was set for it, and for every other flag what it answered before. (\<open>None\<close> is never set.)
\<close>

theorem flags_independent:
  "fe_has (fe_set_to (flag_value f) b v) (flag_value g) \<longleftrightarrow>
     (if f = g \<and> f \<noteq> NoFlag then b else fe_has v (flag_value g))"
  by (rule has_set_to)


end
