(* ===== verification/Filters.thy ===== *)
theory Filters
  imports Filter_Parser_Correct Messages
begin

text \<open>
  \<open>controllers/filters/FilterRecord.hpp\<close>, \<open>FilterSet.hpp\<close> and \<open>buildContextMap\<close> of
  \<open>parser/FilterParser.cpp\<close>: from a message to the verdict of a set of filters.

  A QUuid is a number. The application state that \<open>buildContextMap\<close> reads (the watched channel,
  whether the channel is a live Twitch channel) is an argument.
\<close>

section \<open>The context of a message\<close>

record filter_channel =
  fc_name :: qstring
  fc_twitch :: bool
  fc_live :: bool

fun sub_badges :: "(qstring \<Rightarrow> int option) \<Rightarrow> message \<Rightarrow> qstring list \<Rightarrow> bool \<times> int \<Rightarrow> bool \<times> int" where
  "sub_badges textToInt m [] (subscribed, subLength) = (subscribed, subLength)"
| "sub_badges textToInt m (subBadge # rest) (subscribed, subLength) =
     (if subBadge \<notin> set (badges m) then sub_badges textToInt m rest (subscribed, subLength)
      else sub_badges textToInt m rest (True,
        (case map_of (badgeInfos m) subBadge of
           None \<Rightarrow> subLength
         | Some info \<Rightarrow> (case textToInt info of Some i \<Rightarrow> i | None \<Rightarrow> 0))))"

definition buildContextMap :: "(qstring \<Rightarrow> int option) \<Rightarrow> (qstring \<Rightarrow> qstring \<Rightarrow> bool) \<Rightarrow> qstring \<Rightarrow> message
    \<Rightarrow> filter_channel option \<Rightarrow> context_map" where
  "buildContextMap textToInt eqCI watchingName m channel =
     (let (subscribed, subLength) = sub_badges textToInt m [''subscriber'', ''founder''] (False, 0);
          watching = (watchingName \<noteq> [] \<and> eqCI watchingName (channelName m));
          vars = [
            (''author.badges'', VStringList (badges m)),
            (''author.color'', case usernameColor m of Some c \<Rightarrow> VColor c | None \<Rightarrow> VInvalid),
            (''author.name'', VString (displayName m)),
            (''author.no_color'', VBool (usernameColor m = None)),
            (''author.subbed'', VBool subscribed),
            (''author.sub_length'', VInt subLength),
            (''channel.name'', VString (channelName m)),
            (''channel.watching'', VBool watching),
            (''flags.highlighted'', VBool (msg_has m Highlighted)),
            (''flags.points_redeemed'', VBool (msg_has m RedeemedHighlight)),
            (''flags.sub_message'', VBool (msg_has m Subscription)),
            (''flags.system_message'', VBool (msg_has m System)),
            (''flags.webchat_detected'', VBool (msg_has m WebchatDetected)),
            (''flags.reward_message'', VBool (msg_has m RedeemedChannelPointReward)),
            (''flags.first_message'', VBool (msg_has m FirstMessage)),
            (''flags.whisper'', VBool (msg_has m Whisper)),
            (''flags.reply'', VBool (msg_has m ReplyMessage)),
            (''message.content'', VString (messageText m)),
            (''message.length'', VInt (int (length (messageText m))))]
      in (map_of vars)(''channel.live'' \<mapsto>
           (case channel of
              Some c \<Rightarrow> if fc_name c \<noteq> [] \<and> fc_twitch c then VBool (fc_live c) else VBool False
            | None \<Rightarrow> VBool False)))"

section \<open>Filter records\<close>

type_synonym quuid = nat

record filter_record =
  fr_name :: qstring
  fr_filter :: qstring
  fr_id :: quuid
  fr_expr :: expr
  fr_parser :: fparser

text \<open>The two-argument constructor passes a new id.\<close>

definition FilterRecord :: "(qstring \<Rightarrow> qstring list) \<Rightarrow> (qstring \<Rightarrow> int option) \<Rightarrow> qstring \<Rightarrow> qstring \<Rightarrow> quuid
    \<Rightarrow> parse_error + filter_record" where
  "FilterRecord globalMatch textToInt name input i =
     (case FilterParser globalMatch textToInt input of
        Inl err \<Rightarrow> Inl err
      | Inr (e, p) \<Rightarrow> Inr \<lparr>fr_name = name, fr_filter = input, fr_id = i, fr_expr = e, fr_parser = p\<rparr>)"

definition record_eq :: "filter_record \<Rightarrow> filter_record \<Rightarrow> bool" where
  "record_eq a b \<longleftrightarrow> fr_name a = fr_name b \<and> fr_filter a = fr_filter b \<and> fr_id a = fr_id b"

definition record_valid :: "filter_record \<Rightarrow> bool" where
  "record_valid r = fp_valid (fr_parser r)"

definition record_filter :: "qt_ops \<Rightarrow> context_map \<Rightarrow> filter_record \<Rightarrow> exec_error + bool" where
  "record_filter qt context r =
     (case execute qt context (fr_expr r) of Inl err \<Rightarrow> Inl err | Inr v \<Rightarrow> Inr (toBool qt v))"

section \<open>Filter sets\<close>

type_synonym filter_set = "(quuid \<times> filter_record) list"

fun add_selected :: "quuid list \<Rightarrow> filter_record list \<Rightarrow> filter_set \<Rightarrow> filter_set" where
  "add_selected filterIds [] fs = fs"
| "add_selected filterIds (f # rest) fs =
     add_selected filterIds rest (if fr_id f \<in> set filterIds then qmap_insert (fr_id f) f fs else fs)"

definition FilterSet :: "filter_record list \<Rightarrow> quuid list \<Rightarrow> filter_set" where
  "FilterSet settings filterIds = add_selected filterIds settings []"

fun filter_loop :: "qt_ops \<Rightarrow> context_map \<Rightarrow> filter_record list \<Rightarrow> exec_error + bool" where
  "filter_loop qt context [] = Inr True"
| "filter_loop qt context (f # fs) =
     (if \<not> record_valid f then Inr False
      else case record_filter qt context f of
        Inl err \<Rightarrow> Inl err
      | Inr b \<Rightarrow> if \<not> b then Inr False else filter_loop qt context fs)"

definition set_filter :: "qt_ops \<Rightarrow> context_map \<Rightarrow> filter_set \<Rightarrow> exec_error + bool" where
  "set_filter qt context fs = (if length fs = 0 then Inr True else filter_loop qt context (map snd fs))"

definition filterIds :: "filter_set \<Rightarrow> quuid list" where
  "filterIds fs = map fst fs"

fun reload_key :: "quuid \<Rightarrow> filter_record list \<Rightarrow> bool \<times> filter_set \<Rightarrow> bool \<times> filter_set" where
  "reload_key key [] (found, fs) = (found, fs)"
| "reload_key key (f # rest) (found, fs) =
     reload_key key rest (if fr_id f = key then (True, qmap_insert key f fs) else (found, fs))"

fun reload_loop :: "filter_record list \<Rightarrow> quuid list \<Rightarrow> filter_set \<Rightarrow> filter_set" where
  "reload_loop settings [] fs = fs"
| "reload_loop settings (key # keys) fs =
     reload_loop settings keys
       (case reload_key key settings (False, fs) of
          (found, fs') \<Rightarrow> if \<not> found then qmap_remove key fs' else fs')"

definition reloadFilters :: "filter_record list \<Rightarrow> filter_set \<Rightarrow> filter_set" where
  "reloadFilters settings fs = reload_loop settings (map fst fs) fs"

section \<open>Properties\<close>

text \<open>
  C39: the context of every message has a value for exactly the identifiers the tokenizer accepts,
  so evaluating a parsed filter never meets an undefined identifier.
\<close>

theorem context_covers_identifiers:
  "dom (buildContextMap textToInt eqCI watchingName m channel) = set (map fst validIdentifiersMap)"
proof -
  obtain s l where "sub_badges textToInt m [''subscriber'', ''founder''] (False, 0) = (s, l)"
    by (cases "sub_badges textToInt m [''subscriber'', ''founder''] (False, 0)")
  then show ?thesis
    by (simp add: buildContextMap_def validIdentifiersMap_def dom_map_of_conv_image_fst insert_commute
        del: sub_badges.simps)
qed

text \<open>Which record a set holds for an id: the last one with that id.\<close>

definition last_record :: "quuid \<Rightarrow> filter_record list \<Rightarrow> filter_record option" where
  "last_record i settings = List.find (\<lambda>f. fr_id f = i) (rev settings)"

lemma last_record_Cons:
  "last_record i (f # rest) =
     (case last_record i rest of None \<Rightarrow> if fr_id f = i then Some f else None | Some g \<Rightarrow> Some g)"
  by (simp add: last_record_def find_append split: option.split)

lemma last_record_Nil [simp]: "last_record i [] = None"
  by (simp add: last_record_def)

lemma add_selected_spec:
  "qmap_ok fs \<Longrightarrow> qmap_ok (add_selected ids settings fs) \<and>
   map_of (add_selected ids settings fs) i =
     (if i \<in> set ids \<and> last_record i settings \<noteq> None then last_record i settings else map_of fs i)"
  by (induction ids settings fs rule: add_selected.induct)
    (auto simp: last_record_Cons split: option.splits)

lemma reload_key_spec:
  "qmap_ok fs \<Longrightarrow> \<exists>fs'. reload_key key settings (found, fs) = (found \<or> last_record key settings \<noteq> None, fs') \<and>
     qmap_ok fs' \<and> map_of fs' = (case last_record key settings of None \<Rightarrow> map_of fs
       | Some f \<Rightarrow> (map_of fs)(key \<mapsto> f))"
  by (induction key settings "(found, fs)" arbitrary: found fs rule: reload_key.induct)
    (auto simp: last_record_Cons split: option.splits)

lemma reload_loop_spec:
  "qmap_ok fs \<Longrightarrow> qmap_ok (reload_loop settings keys fs) \<and>
   map_of (reload_loop settings keys fs) i = (if i \<in> set keys then last_record i settings else map_of fs i)"
proof (induction settings keys fs rule: reload_loop.induct)
  case (2 settings key keys fs)
  obtain fs' where 1: "reload_key key settings (False, fs) = (last_record key settings \<noteq> None, fs')"
      "qmap_ok fs'" "map_of fs' = (case last_record key settings of None \<Rightarrow> map_of fs
       | Some f \<Rightarrow> (map_of fs)(key \<mapsto> f))"
    using reload_key_spec [OF 2(2), of key settings False] by auto
  define gs where "gs = (if last_record key settings = None then qmap_remove key fs' else fs')"
  have gs: "qmap_ok gs" "map_of gs = (map_of fs)(key := last_record key settings)"
    using 1 by (auto simp: gs_def split: option.splits)
  have "reload_loop settings (key # keys) fs = reload_loop settings keys gs"
    using 1 by (simp add: gs_def)
  moreover have "(case reload_key key settings (False, fs) of
      (found, fs') \<Rightarrow> if \<not> found then qmap_remove key fs' else fs') = gs"
    using 1 by (simp add: gs_def)
  ultimately show ?case using 2(1) gs by auto
qed simp

text \<open>
  After the filter settings changed, a set holds exactly those of its former filters that
  still exist, each in its current version, and no filter it had not selected before.
\<close>

theorem reloadFilters_current:
  assumes "qmap_ok fs"
  shows "qmap_ok (reloadFilters settings fs) \<and>
    map_of (reloadFilters settings fs) i =
      (if i \<in> set (filterIds fs) then last_record i settings else None)"
  using reload_loop_spec [OF assms, of settings "map fst fs" i]
  by (auto simp: reloadFilters_def filterIds_def map_of_eq_None_iff)

theorem reloadFilters_current_witness:
  "let f = (\<lambda>i name. \<lparr>fr_name = name, fr_filter = ''1'', fr_id = i, fr_expr = ValueExpression (VInt 1) INT',
       fr_parser = \<lparr>fp_tok = \<lparr>tk_i = 1, tk_tokens = [''1''], tk_types = [INT']\<rparr>, fp_valid = True, fp_log = []\<rparr>\<rparr>);
     r = reloadFilters [f 1 ''new'', f 3 ''other''] [(1, f 1 ''old''), (2, f 2 ''gone'')]
   in map_of r 1 = Some (f 1 ''new'') \<and> map_of r 2 = None \<and> map_of r 3 = None"
  unfolding Let_def
  by (intro conjI; subst conjunct2 [OF reloadFilters_current]) (simp_all add: filterIds_def last_record_def)

text \<open>
  An empty set shows every message; any other set shows a message exactly when every filter
  of the set is valid and evaluates to true on it. (An invalid filter hides every message.)
\<close>

theorem set_filter_iff:
  "set_filter qt context fs = Inr True \<longleftrightarrow>
     (\<forall>f \<in> snd ` set fs. record_valid f \<and> record_filter qt context f = Inr True)"
proof -
  have loop: "filter_loop qt context rs = Inr True \<longleftrightarrow>
      (\<forall>f \<in> set rs. record_valid f \<and> record_filter qt context f = Inr True)" for rs
    by (induction rs) (auto split: sum.splits)
  show ?thesis by (auto simp: set_filter_def loop)
qed

theorem set_filter_iff_witness:
  "let p = \<lparr>fp_tok = \<lparr>tk_i = 1, tk_tokens = [''x''], tk_types = [IDENTIFIER]\<rparr>, fp_valid = True, fp_log = []\<rparr>;
     f = \<lparr>fr_name = [], fr_filter = ''x'', fr_id = 1, fr_expr = ValueExpression (VString ''x'') IDENTIFIER, fr_parser = p\<rparr>
   in set_filter plain_qt [''x'' \<mapsto> VBool True] [(1, f)] = Inr True \<and>
      set_filter plain_qt [''x'' \<mapsto> VBool False] [(1, f)] \<noteq> Inr True"
  unfolding Let_def set_filter_iff by (simp add: record_valid_def record_filter_def plain_qt_def)

subsection \<open>Evaluation\<close>

fun arithmetic_free :: "expr \<Rightarrow> bool" where
  "arithmetic_free (ValueExpression v t) = True"
| "arithmetic_free (RegexExpression r ci) = True"
| "arithmetic_free (ListExpression es) = list_all arithmetic_free es"
| "arithmetic_free (BinaryOperation op l r) =
     (\<not> typeIsMathOp op \<and> arithmetic_free l \<and> arithmetic_free r)"
| "arithmetic_free (UnaryOperation op r) = arithmetic_free r"

lemma exec_binary_no_math: "\<not> typeIsMathOp op \<Longrightarrow> \<exists>v. exec_binary qt op left right = Inr v"
  by (cases op) (simp_all add: typeIsMathOp_def)

lemma execute_list_Inr:
  "(\<And>e. e \<in> set es \<Longrightarrow> \<exists>v. execute qt ctx e = Inr v) \<Longrightarrow> \<exists>vs. execute_list qt ctx es = Inr vs"
proof (induction es)
  case (Cons e es)
  obtain v where "execute qt ctx e = Inr v" using Cons.prems [of e] by auto
  moreover obtain vs where "execute_list qt ctx es = Inr vs" using Cons by auto
  ultimately show ?case by simp
qed simp



text \<open>
  A filter with a division: the filter \<open>1 / 0\<close> parses and is undefined when a message is filtered.
\<close>

lemma division_by_zero_reachable:
  "execute plain_qt ctx (BinaryOperation DIVIDE (ValueExpression (VInt 1) INT') (ValueExpression (VInt 0) INT'))
     = Inl DivideByZero"
  by (simp add: exec_math_def convertVariantInts_def plain_qt_def int_divide_def)

text \<open>
  \<open>startswith\<close> and \<open>endswith\<close> on a list of strings answer the opposite of what they say: false for
  the list's own first (last) element.
\<close>

lemma startswith_inverted:
  "exec_startswith plain_qt (VStringList (x # xs)) (VString s) = VBool (x \<noteq> s)"
  "exec_endswith plain_qt (VStringList (xs @ [x])) (VString s) = VBool (x \<noteq> s)"
  by (simp_all add: exec_startswith_def exec_endswith_def plain_qt_def)

end
