(* ===== verification/Message_Builder.thy ===== *)
theory Message_Builder
  imports Messages Qt_Text
begin

text \<open>
  The constructors of \<open>messages/MessageBuilder.cpp\<close> whose messages a channel stacks: the text and
  the fields of the message, without its display elements. \<open>trimmed\<close> is Qt's.
\<close>

section \<open>Timeouts\<close>

definition system_text :: "qstring \<Rightarrow> qstring \<Rightarrow> qstring" where
  "system_text piece toUpdate = toUpdate @ piece @ '' ''"

definition set_flags :: "MessageFlag list \<Rightarrow> message \<Rightarrow> message" where
  "set_flags fs m = m\<lparr>flags := fold (\<lambda>f. fe_set (flag_value f)) fs (flags m)\<rparr>"

text \<open>A system message (\<open>makeSystemMessage\<close>).\<close>

definition system_message :: "int \<Rightarrow> qstring \<Rightarrow> message" where
  "system_message now t =
     (set_flags [System, DoNotTriggerNotification] (new_message now))\<lparr>messageText := t, searchText := t\<rparr>"

definition timeout_stacked :: "(qstring \<Rightarrow> qstring) \<Rightarrow> int \<Rightarrow> qstring \<Rightarrow> int \<Rightarrow> message" where
  "timeout_stacked trimmed now systemMessageText howOften =
     (let username = takeWhile (\<lambda>c. c \<noteq> CHR '' '') systemMessageText;
          remainder = drop (length username + 1) systemMessageText;
          t = system_text (qarg (qarg ''%1 (%2 times)'' (trimmed remainder)) (show_int howOften))
                (system_text username [])
      in (new_message now)\<lparr>messageText := t, searchText := t\<rparr>)"

definition timeout_message :: "(qstring \<Rightarrow> int option) \<Rightarrow> (int \<Rightarrow> qstring) \<Rightarrow> int \<Rightarrow> qstring \<Rightarrow> qstring \<Rightarrow> bool
    \<Rightarrow> message" where
  "timeout_message textToInt formatTime now username durationInSeconds multipleTimes =
     (let reason = (if durationInSeconds \<noteq> [] then
            ''has been timed out'' @ '' for '' @
              (case textToInt durationInSeconds of Some s \<Rightarrow> formatTime s | None \<Rightarrow> [])
          else ''has been permanently banned'');
          t = reason @ ''.'' @ (if multipleTimes then '' (multiple times)'' else []);
          fullText = system_text t (system_text username [])
      in (set_flags [System, Timeout, DoNotTriggerNotification] (new_message now))
           \<lparr>timeoutUser := username, messageText := fullText, searchText := fullText\<rparr>)"

section \<open>7TV emote changes\<close>

definition emote_list :: "qstring list \<Rightarrow> qstring" where
  "emote_list emoteNames =
     concat (map (\<lambda>i. (if i = 0 then [] else if Suc i = length emoteNames then '' and '' else '', '')
       @ emoteNames ! i) [0..<length emoteNames])"

definition seventv_text :: "qstring \<Rightarrow> qstring list \<Rightarrow> qstring" where
  "seventv_text verb emoteNames =
     (if length emoteNames = 1 then verb @ '' 7TV emote ''
      else qarg (verb @ '' %1 7TV emotes '') (show_nat (length emoteNames)))
     @ emote_list emoteNames @ ''.''"

definition seventv_message :: "MessageFlag \<Rightarrow> qstring \<Rightarrow> int \<Rightarrow> qstring \<Rightarrow> qstring list \<Rightarrow> message" where
  "seventv_message kind verb now actor emoteNames =
     (let finalText = actor @ '' '' @ seventv_text verb emoteNames
      in set_flags [System, kind, DoNotTriggerNotification]
           ((new_message now)\<lparr>loginName := actor, messageText := finalText, searchText := finalText,
             seventvEventTargetEmotes := emoteNames\<rparr>))"

definition seventvAddEmote :: "int \<Rightarrow> qstring \<Rightarrow> qstring list \<Rightarrow> message" where
  "seventvAddEmote = seventv_message SevenTvEventApiAddEmoteMessage ''added''"

definition seventvRemoveEmote :: "int \<Rightarrow> qstring \<Rightarrow> qstring list \<Rightarrow> message" where
  "seventvRemoveEmote = seventv_message SevenTvEventApiRemoveEmoteMessage ''removed''"

definition seventvUpdateEmote :: "int \<Rightarrow> qstring \<Rightarrow> qstring \<Rightarrow> qstring \<Rightarrow> message" where
  "seventvUpdateEmote now actor emoteName oldEmoteName =
     (let finalText = actor @ '' '' @ ''renamed 7TV emote '' @ oldEmoteName @ '' to '' @ emoteName @ ''.''
      in set_flags [System, SevenTvEventApiUpdateEmoteMessage, DoNotTriggerNotification]
           ((new_message now)\<lparr>loginName := actor, messageText := finalText, searchText := finalText,
             seventvEventTargetEmotes := [emoteName, oldEmoteName]\<rparr>))"

lemma set_flags_has:
  "msg_has (set_flags fs m) g \<longleftrightarrow> g \<noteq> NoFlag \<and> g \<in> set fs \<or> msg_has m g"
proof -
  have "fe_has (fold (\<lambda>f. fe_set (flag_value f)) fs v) (flag_value g) \<longleftrightarrow>
      g \<noteq> NoFlag \<and> g \<in> set fs \<or> fe_has v (flag_value g)" for v
  proof (induction fs arbitrary: v)
    case (Cons f fs)
    then show ?case using has_set [of f v g] by auto
  qed simp
  then show ?thesis by (simp add: set_flags_def)
qed

end
