(* ===== verification/Channels.thy ===== *)
theory Channels
  imports Limited_Queue Message_Builder
begin

text \<open>
  \<open>common/Channel.hpp/.cpp\<close>: a channel's message buffer and the operations that add, stack,
  replace and disable messages.

  A MessagePtr is a number, and \<open>ch_heap\<close> the store it points into: messages are mutable through
  the pointers of the buffer and of its snapshots (flags are set on shared messages), so the store is
  explicit. Pointers in the buffer are never null. The signals a channel fires, and the entry it
  passes to the log, are appended to \<open>ch_signals\<close>; their receivers are views and are not modelled.
\<close>

section \<open>The channel\<close>

type_synonym msg_ptr = nat

datatype channel_type = TypeNone | Direct | Twitch | TwitchWhispers | TwitchWatching | TwitchMentions
  | TwitchLive | TwitchEnd | Irc | Misc

datatype timeout_stack_style = StackHard | DontStackBeyondUserMessage | DontStack

datatype channel_signal =
    Logged qstring msg_ptr qstring
  | MessageRemovedFromStart "msg_ptr option"
  | MessageAppended msg_ptr "flags option"
  | MessagesAddedAtStart "msg_ptr list"
  | MessageReplaced nat msg_ptr
  | FilledInMessages "msg_ptr list"

record 'b channel =
  ch_name :: qstring
  ch_type :: channel_type
  ch_messages :: "'b limited_queue"
  ch_heap :: "msg_ptr \<Rightarrow> message"
  ch_next :: msg_ptr
  ch_signals :: "channel_signal list"

definition new_channel :: "('b, msg_ptr) cbuf_ops \<Rightarrow> nat \<Rightarrow> qstring \<Rightarrow> channel_type \<Rightarrow> 'b channel" where
  "new_channel B limit name type = \<lparr>ch_name = name, ch_type = type, ch_messages = LimitedQueue B limit,
     ch_heap = (\<lambda>_. new_message 0), ch_next = 0, ch_signals = []\<rparr>"

definition fire :: "channel_signal \<Rightarrow> 'b channel \<Rightarrow> 'b channel" where
  "fire s c = c\<lparr>ch_signals := ch_signals c @ [s]\<rparr>"

definition allocate :: "message \<Rightarrow> 'b channel \<Rightarrow> msg_ptr \<times> 'b channel" where
  "allocate m c = (ch_next c, c\<lparr>ch_heap := (ch_heap c)(ch_next c := m), ch_next := Suc (ch_next c)\<rparr>)"

definition isTwitchChannel :: "'b channel \<Rightarrow> bool" where
  "isTwitchChannel c \<longleftrightarrow> ch_type c \<in> {Twitch, TwitchWhispers, TwitchWatching, TwitchMentions, TwitchLive}"

definition isEmpty :: "'b channel \<Rightarrow> bool" where
  "isEmpty c \<longleftrightarrow> ch_name c = []"

definition hasMessages :: "('b, msg_ptr) cbuf_ops \<Rightarrow> 'b channel \<Rightarrow> bool" where
  "hasMessages B c \<longleftrightarrow> \<not> lq_empty B (ch_messages c)"

definition getMessageSnapshot :: "('b, msg_ptr) cbuf_ops \<Rightarrow> 'b channel \<Rightarrow> msg_ptr snapshot" where
  "getMessageSnapshot B c = lq_getSnapshot B (ch_messages c)"

section \<open>Adding messages\<close>

text \<open>\<open>ircServer\<close> is the identifier of the server when the channel is an IrcChannel.\<close>

definition addMessage :: "('b, msg_ptr) cbuf_ops \<Rightarrow> qstring option \<Rightarrow> msg_ptr \<Rightarrow> flags option \<Rightarrow> 'b channel
    \<Rightarrow> 'b channel" where
  "addMessage B ircServer message overridingFlags c =
     (let platform =
            (if ch_type c = Irc then
               (case ircServer of Some i \<Rightarrow> qarg ''irc-%1'' i | None \<Rightarrow> ''other'')
             else if isTwitchChannel c then ''twitch'' else ''other'');
          c1 = (if (case overridingFlags of None \<Rightarrow> True | Some f \<Rightarrow> \<not> fe_has f (flag_value DoNotLog))
                then fire (Logged (ch_name c) message platform) c else c);
          (q, wasFull, deleted) = lq_pushBack B (ch_messages c1) message;
          c2 = c1\<lparr>ch_messages := q\<rparr>;
          c3 = (if wasFull then fire (MessageRemovedFromStart deleted) c2 else c2)
      in fire (MessageAppended message overridingFlags) c3)"

definition addMessagesAtStart :: "('b, msg_ptr) cbuf_ops \<Rightarrow> msg_ptr list \<Rightarrow> 'b channel \<Rightarrow> 'b channel" where
  "addMessagesAtStart B messages c =
     (let (q, added) = lq_pushFront B (ch_messages c) messages;
          c1 = c\<lparr>ch_messages := q\<rparr>
      in if length added \<noteq> 0 then fire (MessagesAddedAtStart added) c1 else c1)"

definition replaceMessage :: "('b, msg_ptr) cbuf_ops \<Rightarrow> msg_ptr \<Rightarrow> msg_ptr \<Rightarrow> 'b channel \<Rightarrow> 'b channel" where
  "replaceMessage B message replacement c =
     (let (q, index) = lq_replaceItem B (=) (ch_messages c) message replacement;
          c1 = c\<lparr>ch_messages := q\<rparr>
      in if index \<ge> 0 then fire (MessageReplaced (nat index) replacement) c1 else c1)"

definition replaceMessageAt :: "('b, msg_ptr) cbuf_ops \<Rightarrow> nat \<Rightarrow> msg_ptr \<Rightarrow> 'b channel \<Rightarrow> 'b channel" where
  "replaceMessageAt B index replacement c =
     (let (q, found) = lq_replaceAt B (ch_messages c) index replacement;
          c1 = c\<lparr>ch_messages := q\<rparr>
      in if found then fire (MessageReplaced index replacement) c1 else c1)"

definition findMessage :: "('b, msg_ptr) cbuf_ops \<Rightarrow> qstring \<Rightarrow> 'b channel \<Rightarrow> msg_ptr option" where
  "findMessage B messageID c = lq_rfind B (ch_messages c) (\<lambda>p. id' (ch_heap c p) = messageID)"

definition set_flag :: "msg_ptr \<Rightarrow> MessageFlag \<Rightarrow> 'b channel \<Rightarrow> 'b channel" where
  "set_flag p f c =
     c\<lparr>ch_heap := (ch_heap c)(p := (ch_heap c p)\<lparr>flags := fe_set (flag_value f) (flags (ch_heap c p))\<rparr>)\<rparr>"

definition deleteMessage :: "('b, msg_ptr) cbuf_ops \<Rightarrow> qstring \<Rightarrow> 'b channel \<Rightarrow> 'b channel" where
  "deleteMessage B messageID c =
     (case findMessage B messageID c of None \<Rightarrow> c | Some p \<Rightarrow> set_flag p Disabled c)"

section \<open>Timeouts\<close>

record timeout_env =
  now_ms :: int
  stackStyle :: timeout_stack_style
  env_trimmed :: "qstring \<Rightarrow> qstring"
  env_ircServer :: "qstring option"

text \<open>\<open>QTime::addSecs\<close> wraps around at midnight.\<close>

definition minimumTime :: "timeout_env \<Rightarrow> int" where
  "minimumTime env = (now_ms env - 5000) mod 86400000"

text \<open>The replacement of a stacked timeout; the count is a \<open>uint32_t\<close> that becomes an \<open>int\<close>.\<close>

definition stacked_message :: "timeout_env \<Rightarrow> message \<Rightarrow> message \<Rightarrow> message" where
  "stacked_message env s message =
     (timeout_stacked (env_trimmed env) (now_ms env) (searchText message) (sint (count' s + 1)))
       \<lparr>timeoutUser := timeoutUser message, count' := count' s + 1, flags := flags message\<rparr>"

text \<open>The loop over the last messages, newest first; the flag is \<open>addMessage\<close>.\<close>

fun timeout_loop :: "('b, msg_ptr) cbuf_ops \<Rightarrow> timeout_env \<Rightarrow> msg_ptr \<Rightarrow> msg_ptr list \<Rightarrow> 'b channel
    \<Rightarrow> bool \<times> 'b channel" where
  "timeout_loop B env message [] c = (True, c)"
| "timeout_loop B env message (s # older) c =
     (let ms = ch_heap c s; m = ch_heap c message in
      if parseTime ms < minimumTime env then (True, c)
      else if msg_has ms Untimeout \<and> timeoutUser ms = timeoutUser m then (True, c)
      else if stackStyle env = DontStackBeyondUserMessage \<and> loginName ms = timeoutUser m \<and>
              fe_hasNone (flags ms) [flag_value Disabled, flag_value Timeout, flag_value Untimeout]
      then (True, c)
      else if msg_has ms Timeout \<and> timeoutUser ms = timeoutUser m then
        (if msg_has m PubSub \<and> \<not> msg_has ms PubSub then (False, replaceMessage B s message c)
         else if \<not> msg_has m PubSub \<and> msg_has ms PubSub then (stackStyle env = DontStack, c)
         else (case allocate (stacked_message env ms m) c of
                 (replacement, c1) \<Rightarrow> (False, replaceMessage B s replacement c1)))
      else timeout_loop B env message older c)"

fun disable_loop :: "qstring \<Rightarrow> msg_ptr list \<Rightarrow> 'b channel \<Rightarrow> 'b channel" where
  "disable_loop user [] c = c"
| "disable_loop user (s # rest) c =
     disable_loop user rest
       (if loginName (ch_heap c s) = user \<and>
           fe_hasNone (flags (ch_heap c s)) [flag_value Timeout, flag_value Untimeout, flag_value Whisper]
        then set_flag s Disabled c else c)"

text \<open>\<open>end = max(0, snapshotLength - 20)\<close>.\<close>

definition last_messages :: "msg_ptr snapshot \<Rightarrow> msg_ptr list" where
  "last_messages snapshot = rev (drop (length snapshot - 20) snapshot)"

definition addOrReplaceTimeout :: "('b, msg_ptr) cbuf_ops \<Rightarrow> timeout_env \<Rightarrow> msg_ptr \<Rightarrow> 'b channel
    \<Rightarrow> 'b channel" where
  "addOrReplaceTimeout B env message c =
     (let snapshot = getMessageSnapshot B c;
          (add, c1) = timeout_loop B env message (last_messages snapshot) c;
          c2 = disable_loop (timeoutUser (ch_heap c1 message)) snapshot c1
      in if add then addMessage B (env_ircServer env) message None c2 else c2)"

section \<open>7TV emote changes\<close>

fun seventv_loop :: "('b, msg_ptr) cbuf_ops \<Rightarrow> timeout_env \<Rightarrow> MessageFlag \<Rightarrow> msg_ptr \<Rightarrow> msg_ptr list
    \<Rightarrow> 'b channel \<Rightarrow> bool \<times> 'b channel" where
  "seventv_loop B env currentFlag message [] c = (True, c)"
| "seventv_loop B env currentFlag message (s # older) c =
     (let ms = ch_heap c s; m = ch_heap c message in
      if parseTime ms < minimumTime env then (True, c)
      else if msg_has ms currentFlag \<and> loginName ms \<noteq> loginName m then (True, c)
      else if fe_hasAny (flags ms) (fe_list [flag_value SevenTvEventApiAddEmoteMessage,
                flag_value SevenTvEventApiRemoveEmoteMessage, flag_value SevenTvEventApiUpdateEmoteMessage]) \<and>
              list_ex (\<lambda>e. e \<in> set (seventvEventTargetEmotes m)) (seventvEventTargetEmotes ms)
      then (True, c)
      else if msg_has ms currentFlag then
        (let emotes = seventvEventTargetEmotes ms @ seventvEventTargetEmotes m;
             replacement = (if currentFlag = SevenTvEventApiAddEmoteMessage
               then seventvAddEmote (now_ms env) (loginName m) emotes
               else seventvRemoveEmote (now_ms env) (loginName m) emotes)\<lparr>flags := flags m\<rparr>
         in (case allocate replacement c of (r, c1) \<Rightarrow> (False, replaceMessage B s r c1)))
      else seventv_loop B env currentFlag message older c)"

definition addOrReplaceSevenTvEventAddRemove :: "('b, msg_ptr) cbuf_ops \<Rightarrow> timeout_env \<Rightarrow> msg_ptr
    \<Rightarrow> 'b channel \<Rightarrow> 'b channel" where
  "addOrReplaceSevenTvEventAddRemove B env message c =
     (let snapshot = getMessageSnapshot B c;
          m = ch_heap c message;
          (add, c1) =
            (if msg_has m SevenTvEventApiAddEmoteMessage then
               seventv_loop B env SevenTvEventApiAddEmoteMessage message (last_messages snapshot) c
             else if msg_has m SevenTvEventApiRemoveEmoteMessage then
               seventv_loop B env SevenTvEventApiRemoveEmoteMessage message (last_messages snapshot) c
             else (True, c))
      in if add then addMessage B (env_ircServer env) message None c1 else c1)"

section \<open>Disabling everything\<close>

fun disableAll_loop :: "msg_ptr list \<Rightarrow> 'b channel \<Rightarrow> 'b channel" where
  "disableAll_loop [] c = c"
| "disableAll_loop (s # rest) c =
     disableAll_loop rest
       (if fe_hasAny (flags (ch_heap c s)) (fe_list [flag_value System, flag_value Timeout, flag_value Whisper])
        then c else set_flag s Disabled c)"

definition disableAllMessages :: "('b, msg_ptr) cbuf_ops \<Rightarrow> 'b channel \<Rightarrow> 'b channel" where
  "disableAllMessages B c = disableAll_loop (getMessageSnapshot B c) c"

section \<open>Filling in messages\<close>

definition existing_ids :: "(msg_ptr \<Rightarrow> message) \<Rightarrow> msg_ptr snapshot \<Rightarrow> qstring list" where
  "existing_ids heap snapshot =
     map (\<lambda>p. id' (heap p)) (filter (\<lambda>p. \<not> (msg_has (heap p) System \<or> id' (heap p) = [])) snapshot)"

text \<open>The first message of the snapshot that is no system message and was received later.\<close>

definition first_later :: "(msg_ptr \<Rightarrow> message) \<Rightarrow> msg_ptr \<Rightarrow> msg_ptr snapshot \<Rightarrow> msg_ptr option" where
  "first_later heap msg snapshot =
     List.find (\<lambda>p. \<not> msg_has (heap p) System \<and> serverReceivedTime (heap msg) < serverReceivedTime (heap p))
       snapshot"

fun fill_loop :: "('b, msg_ptr) cbuf_ops \<Rightarrow> (msg_ptr \<Rightarrow> message) \<Rightarrow> msg_ptr snapshot \<Rightarrow> qstring list
    \<Rightarrow> msg_ptr list \<Rightarrow> bool \<Rightarrow> msg_ptr \<Rightarrow> 'b limited_queue \<Rightarrow> bool \<times> 'b limited_queue" where
  "fill_loop B heap snapshot ids [] anyInserted lastMsg q = (anyInserted, q)"
| "fill_loop B heap snapshot ids (msg # rest) anyInserted lastMsg q =
     (if id' (heap msg) \<in> set ids then fill_loop B heap snapshot ids rest anyInserted lastMsg q
      else case first_later heap msg snapshot of
        Some p \<Rightarrow> fill_loop B heap snapshot ids rest True lastMsg (fst (lq_insertBefore B (=) q p msg))
      | None \<Rightarrow> fill_loop B heap snapshot ids rest True msg (fst (lq_insertAfter B (=) q lastMsg msg)))"

text \<open>\<open>snapshot[snapshot.size() - 1]\<close> of an empty snapshot reads outside the vector: \<open>None\<close>.\<close>

definition fillInMissingMessages :: "('b, msg_ptr) cbuf_ops \<Rightarrow> msg_ptr list \<Rightarrow> 'b channel
    \<Rightarrow> 'b channel option" where
  "fillInMissingMessages B messages c =
     (let snapshot = getMessageSnapshot B c in
      case snapshot of
        [] \<Rightarrow> None
      | _ \<Rightarrow>
        (let (anyInserted, q) = fill_loop B (ch_heap c) snapshot (existing_ids (ch_heap c) snapshot) messages
               False (last snapshot) (ch_messages c);
             c1 = c\<lparr>ch_messages := q\<rparr>
         in Some (if anyInserted then fire (FilledInMessages messages) c1 else c1)))"

section \<open>Capabilities\<close>

definition isWritable :: "'b channel \<Rightarrow> bool" where
  "isWritable c \<longleftrightarrow> ch_type c \<noteq> TwitchMentions \<and> ch_type c \<noteq> TwitchLive"

definition shouldIgnoreHighlights :: "'b channel \<Rightarrow> bool" where
  "shouldIgnoreHighlights c \<longleftrightarrow> ch_type c = TwitchMentions \<or> ch_type c = TwitchWhispers"

definition hasModRights :: "bool \<Rightarrow> bool \<Rightarrow> bool" where
  "hasModRights isMod isBroadcaster \<longleftrightarrow> isMod \<or> isBroadcaster"

section \<open>Indirect channels\<close>

record indirect_channel =
  ic_channel :: nat
  ic_type :: channel_type
  ic_changed :: nat

definition IndirectChannel :: "nat \<Rightarrow> channel_type \<Rightarrow> indirect_channel" where
  "IndirectChannel c t = \<lparr>ic_channel = c, ic_type = t, ic_changed = 0\<rparr>"

text \<open>\<open>reset\<close> asserts that the channel is not direct; \<open>ic_changed\<close> counts the notifications.\<close>

definition ic_reset :: "nat \<Rightarrow> indirect_channel \<Rightarrow> indirect_channel option" where
  "ic_reset c i =
     (if ic_type i = Direct then None
      else Some (i\<lparr>ic_channel := c, ic_changed := Suc (ic_changed i)\<rparr>))"

definition ic_getType :: "(nat \<Rightarrow> channel_type) \<Rightarrow> indirect_channel \<Rightarrow> channel_type" where
  "ic_getType typeOf i = (if ic_type i = Direct then typeOf (ic_channel i) else ic_type i)"

end
