(* ===== verification/Channels_Correct.thy ===== *)
theory Channels_Correct
  imports Channels
begin

text \<open>
  Properties of a channel's message operations: the bounded buffer and its signals, stacked
  timeouts, and the merge of messages that were missed. The laws of the circular buffer are the
  hypothesis \<open>message_buffer B ok\<close>; the witnesses use the array ring that satisfies them.
\<close>

section \<open>Adding\<close>

lemma fire_simps [simp]:
  "ch_messages (fire s c) = ch_messages c" "ch_heap (fire s c) = ch_heap c"
  "ch_next (fire s c) = ch_next c" "ch_signals (fire s c) = ch_signals c @ [s]"
  "ch_name (fire s c) = ch_name c" "ch_type (fire s c) = ch_type c"
  by (simp_all add: fire_def)

definition log_entry :: "qstring option \<Rightarrow> msg_ptr \<Rightarrow> flags option \<Rightarrow> 'b channel \<Rightarrow> channel_signal list" where
  "log_entry ircServer message overridingFlags c =
     (if \<exists>f. overridingFlags = Some f \<and> fe_has f (flag_value DoNotLog) then []
      else [Logged (ch_name c) message
        (if ch_type c = Irc then (case ircServer of Some i \<Rightarrow> qarg ''irc-%1'' i | None \<Rightarrow> ''other'')
         else if isTwitchChannel c then ''twitch'' else ''other'')])"

text \<open>A circular buffer of message pointers.\<close>

locale message_buffer = circular_buffer B ok
  for B :: "('b, msg_ptr) cbuf_ops" and ok :: "'b \<Rightarrow> bool"
begin

lemma addMessage_items:
  fixes ircServer m fl
  assumes "lq_ok B ok (ch_messages c)" "0 < q_limit (ch_messages c)"
  defines "c' \<equiv> addMessage B ircServer m fl c"
  shows "lq_ok B ok (ch_messages c')" "q_limit (ch_messages c') = q_limit (ch_messages c)"
    "ch_heap c' = ch_heap c" "ch_next c' = ch_next c"
    "lq_items B (ch_messages c') =
       (if length (lq_items B (ch_messages c)) < q_limit (ch_messages c) then lq_items B (ch_messages c) @ [m]
        else tl (lq_items B (ch_messages c)) @ [m])"
    "ch_signals c' = ch_signals c @ log_entry ircServer m fl c @
       (if length (lq_items B (ch_messages c)) = q_limit (ch_messages c)
        then [MessageRemovedFromStart (Some (hd (lq_items B (ch_messages c))))] else []) @ [MessageAppended m fl]"
proof -
  obtain q full del where p: "lq_pushBack B (ch_messages c) m = (q, full, del)"
    by (cases "lq_pushBack B (ch_messages c) m") auto
  have pm: "lq_pushBack B (ch_messages (fire x c)) m = (q, full, del)" for x by (simp add: p)
  have q: "ch_messages c' = q" "ch_heap c' = ch_heap c" "ch_next c' = ch_next c"
    by (simp_all add: c'_def addMessage_def p Let_def)
  have sig: "ch_signals c' = ch_signals c @ log_entry ircServer m fl c @
      (if full then [MessageRemovedFromStart del] else []) @ [MessageAppended m fl]"
    by (auto simp: c'_def addMessage_def p Let_def log_entry_def split: option.splits)
  show "ch_heap c' = ch_heap c" "ch_next c' = ch_next c" using q by simp_all
  show "lq_ok B ok (ch_messages c')" using pushBack_ok [OF assms(1), of m] p q by simp
  show "q_limit (ch_messages c') = q_limit (ch_messages c)"
    using pushBack_limit [of "ch_messages c" m] p q by simp
  show "lq_items B (ch_messages c') =
       (if length (lq_items B (ch_messages c)) < q_limit (ch_messages c) then lq_items B (ch_messages c) @ [m]
        else tl (lq_items B (ch_messages c)) @ [m])"
    using pushBack_items [OF assms(1), of m] p q assms(2) by auto
  show "ch_signals c' = ch_signals c @ log_entry ircServer m fl c @
       (if length (lq_items B (ch_messages c)) = q_limit (ch_messages c)
        then [MessageRemovedFromStart (Some (hd (lq_items B (ch_messages c))))] else []) @ [MessageAppended m fl]"
    using pushBack_deleted [OF assms(1,2) p] sig by (cases full) auto
qed

lemma replaceMessage_items:
  assumes "lq_ok B ok (ch_messages c)"
  shows "lq_ok B ok (ch_messages (replaceMessage B s r c))"
    "q_limit (ch_messages (replaceMessage B s r c)) = q_limit (ch_messages c)"
    "ch_heap (replaceMessage B s r c) = ch_heap c" "ch_next (replaceMessage B s r c) = ch_next c"
    "s \<in> set (lq_items B (ch_messages c)) \<Longrightarrow> \<exists>i < length (lq_items B (ch_messages c)).
       lq_items B (ch_messages c) ! i = s \<and>
       lq_items B (ch_messages (replaceMessage B s r c)) = (lq_items B (ch_messages c))[i := r]"
proof -
  obtain q i where p: "lq_replaceItem B (=) (ch_messages c) s r = (q, i)"
    by (cases "lq_replaceItem B (=) (ch_messages c) s r")
  have m: "ch_messages (replaceMessage B s r c) = q" by (simp add: replaceMessage_def p Let_def)
  show "lq_ok B ok (ch_messages (replaceMessage B s r c))"
    "q_limit (ch_messages (replaceMessage B s r c)) = q_limit (ch_messages c)"
    using replaceItem_spec(1,2) [OF assms p] m by simp_all
  show "ch_heap (replaceMessage B s r c) = ch_heap c" "ch_next (replaceMessage B s r c) = ch_next c"
    by (simp_all add: replaceMessage_def p Let_def)
  assume s: "s \<in> set (lq_items B (ch_messages c))"
  have "i \<noteq> -1" using replaceItem_spec(3) [OF assms p] s by auto
  from replaceItem_spec(4) [OF assms p this] m
  show "\<exists>i < length (lq_items B (ch_messages c)). lq_items B (ch_messages c) ! i = s \<and>
       lq_items B (ch_messages (replaceMessage B s r c)) = (lq_items B (ch_messages c))[i := r]"
    by auto
qed

end

interpretation ring_messages: message_buffer ring_ops ring_ok
  by unfold_locales

text \<open>
  C11: adding a message to a channel keeps the newest messages up to the limit: the message is
  appended, the oldest one is dropped exactly when the buffer was full, that one is announced as
  removed before the new one is announced as appended, and the message is logged unless the
  overriding flags forbid it.
\<close>

theorem addMessage_spec:
  assumes "message_buffer B ok" "lq_ok B ok (ch_messages c)" "0 < q_limit (ch_messages c)"
  shows "lq_items B (ch_messages (addMessage B ircServer m fl c)) =
      (if length (lq_items B (ch_messages c)) < q_limit (ch_messages c) then lq_items B (ch_messages c) @ [m]
       else tl (lq_items B (ch_messages c)) @ [m]) \<and>
    lq_ok B ok (ch_messages (addMessage B ircServer m fl c)) \<and>
    ch_signals (addMessage B ircServer m fl c) = ch_signals c @ log_entry ircServer m fl c @
      (if length (lq_items B (ch_messages c)) = q_limit (ch_messages c)
       then [MessageRemovedFromStart (Some (hd (lq_items B (ch_messages c))))] else []) @ [MessageAppended m fl]"
  using message_buffer.addMessage_items [OF assms] by simp

theorem addMessage_spec_witness:
  "lq_items ring_ops (ch_messages (addMessage ring_ops None 7 None (new_channel ring_ops 1 ''x'' Twitch))) = [7]"
  using addMessage_spec [OF ring_messages.message_buffer_axioms, of "new_channel ring_ops 1 ''x'' Twitch" None 7 None]
  by (simp add: new_channel_def boost_ring.new_queue) (simp add: LimitedQueue_def)

section \<open>Timeouts\<close>

definition disabled :: "message \<Rightarrow> message" where
  "disabled m = m\<lparr>flags := fe_set (flag_value Disabled) (flags m)\<rparr>"

definition written_by :: "qstring \<Rightarrow> message \<Rightarrow> bool" where
  "written_by user m \<longleftrightarrow> loginName m = user \<and> \<not> msg_has m Timeout \<and> \<not> msg_has m Untimeout \<and> \<not> msg_has m Whisper"

lemma hasNone_written:
  "loginName m = user \<and> fe_hasNone (flags m) [flag_value Timeout, flag_value Untimeout, flag_value Whisper]
     \<longleftrightarrow> written_by user m"
  using hasNone_iff [of "flags m" "[Timeout, Untimeout, Whisper]"] by (auto simp: written_by_def)

lemma disabled_simps [simp]: "disabled (disabled m) = disabled m" "written_by u (disabled m) \<longleftrightarrow> written_by u m"
  by (simp_all add: disabled_def written_by_def has_set)

lemma set_flag_Disabled: "set_flag p Disabled c = c\<lparr>ch_heap := (ch_heap c)(p := disabled (ch_heap c p))\<rparr>"
  by (simp add: set_flag_def disabled_def)

lemma disable_loop_heap:
  "ch_heap (disable_loop u xs c) p =
     (if p \<in> set xs \<and> written_by u (ch_heap c p) then disabled (ch_heap c p) else ch_heap c p)"
  by (induction u xs c rule: disable_loop.induct) (auto simp: hasNone_written set_flag_Disabled)

lemma disable_loop_rest:
  "ch_messages (disable_loop u xs c) = ch_messages c \<and> ch_next (disable_loop u xs c) = ch_next c"
  by (induction u xs c rule: disable_loop.induct) (auto simp: set_flag_def)

text \<open>The three outcomes of the loop: nothing found, an entry replaced by the message or by a new one.\<close>

lemma timeout_loop_cases:
  assumes "timeout_loop B env message xs c = (add, c1)"
  shows "c1 = c \<or> (\<not> add \<and> (\<exists>s \<in> set xs. c1 = replaceMessage B s message c \<or>
    (\<exists>m. c1 = replaceMessage B s (ch_next c) (snd (allocate m c)))))"
  using assms
proof (induction B env message xs c rule: timeout_loop.induct)
  case (2 B env message s older c)
  let ?ms = "ch_heap c s" and ?m = "ch_heap c message"
  let ?stop = "parseTime ?ms < minimumTime env \<or> (msg_has ?ms Untimeout \<and> timeoutUser ?ms = timeoutUser ?m) \<or>
    (stackStyle env = DontStackBeyondUserMessage \<and> loginName ?ms = timeoutUser ?m \<and>
     fe_hasNone (flags ?ms) [flag_value Disabled, flag_value Timeout, flag_value Untimeout])"
  consider (stop) ?stop | (found) "\<not> ?stop" "msg_has ?ms Timeout \<and> timeoutUser ?ms = timeoutUser ?m"
    | (older) "\<not> ?stop" "\<not> (msg_has ?ms Timeout \<and> timeoutUser ?ms = timeoutUser ?m)" by blast
  then show ?case
  proof cases
    case stop
    then have "timeout_loop B env message (s # older) c = (True, c)" by (auto simp: Let_def)
    then show ?thesis using 2(2) by simp
  next
    case found
    then show ?thesis using 2(2)
      by (auto simp: Let_def allocate_def split: if_splits)
  next
    case older
    then have "timeout_loop B env message (s # older) c = timeout_loop B env message older c"
      by (auto simp: Let_def)
    then show ?thesis using 2 older by (auto simp: Let_def)
  qed
qed simp

context message_buffer
begin

lemma timeout_effect:
  fixes env
  assumes ok: "lq_ok B ok (ch_messages c)" "0 < q_limit (ch_messages c)"
    and fresh: "message < ch_next c"
  defines "xs \<equiv> lq_items B (ch_messages c)" and "c' \<equiv> addOrReplaceTimeout B env message c"
  shows "\<forall>p < ch_next c. ch_heap c' p = (if p \<in> set xs \<and> written_by (timeoutUser (ch_heap c message)) (ch_heap c p)
      then disabled (ch_heap c p) else ch_heap c p)"
    and "lq_items B (ch_messages c') = xs \<or>
      (\<exists>i < length xs. lq_items B (ch_messages c') = xs[i := message] \<or>
         lq_items B (ch_messages c') = xs[i := ch_next c]) \<or>
      lq_items B (ch_messages c') = (if length xs < q_limit (ch_messages c) then xs @ [message] else tl xs @ [message])"
proof -
  obtain add c1 where l: "timeout_loop B env message (last_messages xs) c = (add, c1)"
    by (cases "timeout_loop B env message (last_messages xs) c")
  define c2 where "c2 = disable_loop (timeoutUser (ch_heap c1 message)) xs c1"
  have c': "c' = (if add then addMessage B (env_ircServer env) message None c2 else c2)"
    using l by (simp add: c'_def addOrReplaceTimeout_def getMessageSnapshot_def lq_getSnapshot_def
        xs_def c2_def Let_def)
  have mem: "s \<in> set xs" if "s \<in> set (last_messages xs)" for s
    using that by (auto simp: last_messages_def dest: in_set_dropD)
  have alloc: "ch_messages (snd (allocate m c)) = ch_messages c" "ch_heap (snd (allocate m c)) = (ch_heap c)(ch_next c := m)" for m
    by (simp_all add: allocate_def)
  have h1: "ch_heap c1 p = ch_heap c p" if "p < ch_next c" for p
    using timeout_loop_cases [OF l] that replaceMessage_items(3) [OF ok(1)]
      replaceMessage_items(3) [of "snd (allocate _ c)"] ok(1) alloc by auto
  have h2: "ch_heap c2 p = (if p \<in> set xs \<and> written_by (timeoutUser (ch_heap c message)) (ch_heap c p)
      then disabled (ch_heap c p) else ch_heap c p)" if "p < ch_next c" for p
    using h1 [OF that] h1 [OF fresh] by (simp add: c2_def disable_loop_heap)
  have m2: "ch_messages c2 = ch_messages c1" by (simp add: c2_def disable_loop_rest)
  have no_add: "\<not> add \<Longrightarrow> c' = c2" using c' by simp
  consider (same) "c1 = c" | (repl) s where "\<not> add" "s \<in> set xs" "c1 = replaceMessage B s message c"
    | (new) s m where "\<not> add" "s \<in> set xs" "c1 = replaceMessage B s (ch_next c) (snd (allocate m c))"
    using timeout_loop_cases [OF l] mem by blast
  note cases = this
  have add_same: "add \<Longrightarrow> c1 = c" using cases by cases auto
  show "\<forall>p < ch_next c. ch_heap c' p = (if p \<in> set xs \<and> written_by (timeoutUser (ch_heap c message)) (ch_heap c p)
      then disabled (ch_heap c p) else ch_heap c p)"
  proof (cases add)
    case True
    then have "ch_messages c2 = ch_messages c" using add_same m2 by simp
    then have "ch_heap c' = ch_heap c2" using addMessage_items(3) [of c2] ok True c' by simp
    then show ?thesis using h2 by simp
  next
    case False
    then show ?thesis using no_add h2 by simp
  qed
  show "lq_items B (ch_messages c') = xs \<or>
      (\<exists>i < length xs. lq_items B (ch_messages c') = xs[i := message] \<or>
         lq_items B (ch_messages c') = xs[i := ch_next c]) \<or>
      lq_items B (ch_messages c') = (if length xs < q_limit (ch_messages c) then xs @ [message] else tl xs @ [message])"
    using cases
  proof cases
    case same
    show ?thesis
    proof (cases add)
      case True
      then have "ch_messages c2 = ch_messages c" using same m2 by simp
      then show ?thesis using addMessage_items(5) [of c2] ok True c' by (simp add: xs_def)
    next
      case False
      then show ?thesis using no_add same m2 by (simp add: xs_def)
    qed
  next
    case (repl s)
    then show ?thesis using replaceMessage_items(5) [OF ok(1), of s message] no_add m2
      by (auto simp: xs_def)
  next
    case (new s m)
    have "lq_ok B ok (ch_messages (snd (allocate m c)))" using ok(1) alloc by simp
    from replaceMessage_items(5) [OF this, of s "ch_next c"] show ?thesis
      using new no_add m2 alloc by (auto simp: xs_def)
  qed
qed

end

text \<open>
  C4: a timeout disables exactly the messages the timed-out user wrote (no timeout notice, no
  whisper) and leaves every other message as it is; the buffer keeps its order, and the timeout is
  either appended, or stacked in place of one earlier notice, or dropped as a duplicate.
\<close>

theorem timeout_stacks:
  assumes "message_buffer B ok" "lq_ok B ok (ch_messages c)" "0 < q_limit (ch_messages c)"
    and "message < ch_next c"
  shows "(\<forall>p < ch_next c. ch_heap (addOrReplaceTimeout B env message c) p =
      (if p \<in> set (lq_items B (ch_messages c)) \<and> written_by (timeoutUser (ch_heap c message)) (ch_heap c p)
       then disabled (ch_heap c p) else ch_heap c p)) \<and>
    lq_items B (ch_messages (addOrReplaceTimeout B env message c)) \<in>
      {lq_items B (ch_messages c),
       if length (lq_items B (ch_messages c)) < q_limit (ch_messages c) then lq_items B (ch_messages c) @ [message]
       else tl (lq_items B (ch_messages c)) @ [message]} \<union>
      {(lq_items B (ch_messages c))[i := r] | i r. i < length (lq_items B (ch_messages c)) \<and> r \<in> {message, ch_next c}}"
  using message_buffer.timeout_effect [OF assms, of env] by auto

theorem timeout_stacks_witness:
  "lq_items ring_ops (ch_messages (addOrReplaceTimeout ring_ops
     \<lparr>now_ms = 0, stackStyle = DontStack, env_trimmed = id, env_ircServer = None\<rparr> 0
     ((new_channel ring_ops 2 ''x'' Twitch)\<lparr>ch_next := 1\<rparr>))) \<in> {[], [0]}"
proof -
  let ?c = "(new_channel ring_ops 2 ''x'' Twitch)\<lparr>ch_next := 1\<rparr>"
  have "lq_ok ring_ops ring_ok (ch_messages ?c)" "lq_items ring_ops (ch_messages ?c) = []"
      "q_limit (ch_messages ?c) = 2" "0 < ch_next ?c"
    by (simp_all add: new_channel_def boost_ring.new_queue) (simp add: LimitedQueue_def)
  then show ?thesis
    using timeout_stacks [OF ring_messages.message_buffer_axioms, of ?c 0] by auto
qed

text \<open>
  The five-second window is compared as a time of the day, which wraps at midnight: in the first
  seconds of a day every message of the day looks too old, and afterwards messages of the previous
  evening look recent.
\<close>

lemma window_wraps_at_midnight:
  "minimumTime \<lparr>now_ms = 2000, stackStyle = st, env_trimmed = t, env_ircServer = i\<rparr> = 86397000"
  "minimumTime \<lparr>now_ms = 600000, stackStyle = st, env_trimmed = t, env_ircServer = i\<rparr> < 82800000"
  by (simp_all add: minimumTime_def)

section \<open>Filling in\<close>

text \<open>The messages that count for the order: no system messages.\<close>

definition timed :: "(msg_ptr \<Rightarrow> message) \<Rightarrow> msg_ptr list \<Rightarrow> msg_ptr list" where
  "timed heap xs = filter (\<lambda>p. \<not> msg_has (heap p) System) xs"

definition in_order :: "(msg_ptr \<Rightarrow> message) \<Rightarrow> msg_ptr list \<Rightarrow> bool" where
  "in_order heap xs \<longleftrightarrow> sorted_wrt (\<lambda>p q. serverReceivedTime (heap p) \<le> serverReceivedTime (heap q)) xs"

text \<open>
  The state of the loop: the snapshot is still in the buffer, in order; what was inserted is not
  later than the message that comes next; \<open>lastMsg\<close> is the end of the buffer.
\<close>

definition fill_inv :: "(msg_ptr \<Rightarrow> message) \<Rightarrow> msg_ptr list \<Rightarrow> int \<Rightarrow> msg_ptr \<Rightarrow> msg_ptr list \<Rightarrow> bool" where
  "fill_inv heap snapshot t lastMsg xs \<longleftrightarrow>
     distinct xs \<and> filter (\<lambda>p. p \<in> set snapshot) xs = snapshot \<and> in_order heap (timed heap xs) \<and>
     (\<forall>p \<in> set xs - set snapshot. serverReceivedTime (heap p) \<le> t) \<and> xs \<noteq> [] \<and> last xs = lastMsg"

lemma timed_Nil [simp]: "timed h [] = []"
  by (simp add: timed_def)

lemma timed_append [simp]: "timed h (xs @ ys) = timed h xs @ timed h ys"
  by (simp add: timed_def)

lemma timed_Cons: "timed h (x # ys) = (if msg_has (h x) System then timed h ys else x # timed h ys)"
  by (simp add: timed_def)

lemma in_timed: "p \<in> set (timed h xs) \<longleftrightarrow> p \<in> set xs \<and> \<not> msg_has (h p) System"
  by (auto simp: timed_def)

lemma fill_inv_le: "fill_inv h sn t l xs \<Longrightarrow> t \<le> t' \<Longrightarrow> fill_inv h sn t' l xs"
  by (force simp: fill_inv_def)

lemma fill_before:
  assumes i: "fill_inv h sn (serverReceivedTime (h m)) l (front @ p # rest)"
    and p: "first_later h m sn = Some p" and m: "m \<notin> set (front @ p # rest)" "m \<notin> set sn"
  shows "fill_inv h sn (serverReceivedTime (h m)) l (front @ m # p # rest)"
proof -
  let ?t = "\<lambda>p. serverReceivedTime (h p)"
  have psn: "p \<in> set sn" and pt: "\<not> msg_has (h p) System" "?t m < ?t p"
    using find_SomeD [OF p [unfolded first_later_def]] by auto
  have sn: "filter (\<lambda>p. p \<in> set sn) front @ p # filter (\<lambda>p. p \<in> set sn) rest = sn"
    using i psn by (simp add: fill_inv_def)
  have d: "p \<notin> set front" using i by (auto simp: fill_inv_def)
  have early: "?t q \<le> ?t m" if "q \<in> set front" "q \<in> set sn" "\<not> msg_has (h q) System" for q
  proof -
    have "q \<in> set (filter (\<lambda>p. p \<in> set sn) front)" using that by simp
    then obtain us vs where f: "filter (\<lambda>p. p \<in> set sn) front = us @ q # vs" by (meson split_list)
    have "\<not> (\<not> msg_has (h q) System \<and> ?t m < ?t q)"
    proof
      assume a: "\<not> msg_has (h q) System \<and> ?t m < ?t q"
      have "List.find (\<lambda>p. \<not> msg_has (h p) System \<and> ?t m < ?t p) (filter (\<lambda>p. p \<in> set sn) front) \<noteq> None"
        using a f by (simp add: find_append split: option.split)
      then obtain r where r: "List.find (\<lambda>p. \<not> msg_has (h p) System \<and> ?t m < ?t p) (filter (\<lambda>p. p \<in> set sn) front) = Some r"
        by auto
      have "first_later h m sn = Some r"
        unfolding first_later_def by (subst sn [symmetric]) (simp add: find_append r)
      then show False using p d find_SomeD [OF r] by auto
    qed
    then show ?thesis using that by simp
  qed
  have front: "\<forall>q \<in> set (timed h front). ?t q \<le> ?t m"
    using early i by (auto simp: in_timed fill_inv_def)
  have "in_order h (timed h (front @ m # p # rest))"
    using i front pt by (auto simp: fill_inv_def in_order_def timed_Cons sorted_wrt_append)
  then show ?thesis using i m by (auto simp: fill_inv_def)
qed

lemma fill_after:
  assumes i: "fill_inv h sn (serverReceivedTime (h m)) l xs"
    and p: "first_later h m sn = None" and m: "m \<notin> set xs" "m \<notin> set sn"
  shows "fill_inv h sn (serverReceivedTime (h m)) m (xs @ [m])"
proof -
  have "\<forall>q \<in> set (timed h xs). serverReceivedTime (h q) \<le> serverReceivedTime (h m)"
    using i p by (fastforce simp: in_timed fill_inv_def first_later_def find_None_iff)
  then have "in_order h (timed h (xs @ [m]))"
    using i by (auto simp: fill_inv_def in_order_def timed_Cons sorted_wrt_append)
  then show ?thesis using i m by (auto simp: fill_inv_def)
qed

definition fresh_messages :: "(msg_ptr \<Rightarrow> message) \<Rightarrow> qstring list \<Rightarrow> msg_ptr list \<Rightarrow> msg_ptr list" where
  "fresh_messages heap ids messages = filter (\<lambda>m. id' (heap m) \<notin> set ids) messages"

context message_buffer
begin

lemma insertBefore_at:
  assumes ok: "lq_ok B ok q" and items: "lq_items B q = front @ p # rest" "p \<notin> set front"
    and room: "length (lq_items B q) < q_limit q"
  shows "lq_ok B ok (fst (lq_insertBefore B (=) q p m))"
    "q_limit (fst (lq_insertBefore B (=) q p m)) = q_limit q"
    "lq_items B (fst (lq_insertBefore B (=) q p m)) = front @ m # p # rest"
proof -
  obtain q' b where r: "lq_insertBefore B (=) q p m = (q', b)" by (cases "lq_insertBefore B (=) q p m")
  note found = insertBefore_spec [OF ok r]
  show "lq_ok B ok (fst (lq_insertBefore B (=) q p m))" "q_limit (fst (lq_insertBefore B (=) q p m)) = q_limit q"
    using found(1,2) r by simp_all
  have b using found(3) items by auto
  from found(4) [OF this] obtain i where i: "i < length (lq_items B q)" "lq_items B q ! i = p"
      "\<forall>j < i. lq_items B q ! j \<noteq> p" "lq_items B q' = insert_at i m (lq_items B q)"
    using room by auto
  have "i = length front"
  proof (rule ccontr)
    assume "i \<noteq> length front"
    then consider "i < length front" | "length front < i" by linarith
    then show False
      using i items by cases (auto simp: nth_append in_set_conv_nth)
  qed
  then show "lq_items B (fst (lq_insertBefore B (=) q p m)) = front @ m # p # rest"
    using i items r by (simp add: insert_at_def)
qed

lemma insertAfter_last:
  assumes ok: "lq_ok B ok q" and items: "lq_items B q = xs @ [l]" "l \<notin> set xs"
    and room: "length (lq_items B q) < q_limit q"
  shows "lq_ok B ok (fst (lq_insertAfter B (=) q l m))"
    "q_limit (fst (lq_insertAfter B (=) q l m)) = q_limit q"
    "lq_items B (fst (lq_insertAfter B (=) q l m)) = xs @ [l, m]"
proof -
  obtain q' b where r: "lq_insertAfter B (=) q l m = (q', b)" by (cases "lq_insertAfter B (=) q l m")
  note found = insertAfter_spec [OF ok r]
  show "lq_ok B ok (fst (lq_insertAfter B (=) q l m))" "q_limit (fst (lq_insertAfter B (=) q l m)) = q_limit q"
    using found(1,2) r by simp_all
  have b using found(3) items by auto
  from found(4) [OF this] obtain i where i: "i < length (lq_items B q)" "lq_items B q ! i = l"
      "lq_items B q' = insert_at (Suc i) m (lq_items B q)"
    using room by auto
  have "i = length xs"
  proof (rule ccontr)
    assume "i \<noteq> length xs"
    then have "i < length xs" using i items by simp
    then show False using i items by (auto simp: nth_append)
  qed
  then show "lq_items B (fst (lq_insertAfter B (=) q l m)) = xs @ [l, m]"
    using i items r by (simp add: insert_at_def)
qed

lemma fill_loop_spec:
  assumes "lq_ok B ok q" "fill_inv h sn t l (lq_items B q)" "sn \<noteq> []"
    "length (lq_items B q) + length ms \<le> q_limit q"
    "in_order h ms" "\<forall>m \<in> set ms. t \<le> serverReceivedTime (h m)"
    "distinct ms" "set ms \<inter> set (lq_items B q) = {}" "set ms \<inter> set sn = {}"
  shows "\<exists>l' t'. fill_inv h sn t' l' (lq_items B (snd (fill_loop B h sn ids ms any l q))) \<and>
    mset (lq_items B (snd (fill_loop B h sn ids ms any l q))) =
      mset (lq_items B q) + mset (fresh_messages h ids ms) \<and>
    fst (fill_loop B h sn ids ms any l q) = (any \<or> fresh_messages h ids ms \<noteq> [])"
  using assms
proof (induction ms arbitrary: q t l any)
  case Nil
  then show ?case by (auto simp: fresh_messages_def)
next
  case (Cons m ms)
  have tm: "t \<le> serverReceivedTime (h m)" and later: "\<forall>m' \<in> set ms. serverReceivedTime (h m) \<le> serverReceivedTime (h m')"
    using Cons.prems by (auto simp: in_order_def)
  have inv: "fill_inv h sn (serverReceivedTime (h m)) l (lq_items B q)"
    using Cons.prems(2) tm by (rule fill_inv_le)
  have m: "m \<notin> set (lq_items B q)" "m \<notin> set sn" using Cons.prems by auto
  have room: "length (lq_items B q) < q_limit q" using Cons.prems by simp
  show ?case
  proof (cases "id' (h m) \<in> set ids")
    case True
    then show ?thesis
      using Cons.IH [OF Cons.prems(1) inv Cons.prems(3) _ _ later] Cons.prems
      by (auto simp: fresh_messages_def in_order_def)
  next
    case False
    show ?thesis
    proof (cases "first_later h m sn")
      case (Some p)
      have "p \<in> set sn" using find_SomeD [OF Some [unfolded first_later_def]] by simp
      moreover have "sn = filter (\<lambda>p. p \<in> set sn) (lq_items B q)" using inv by (simp add: fill_inv_def)
      ultimately have "p \<in> set (filter (\<lambda>p. p \<in> set sn) (lq_items B q))" by metis
      then have "p \<in> set (lq_items B q)" by simp
      then obtain front rest where items: "lq_items B q = front @ p # rest" by (meson split_list)
      have "p \<notin> set front" using inv items by (auto simp: fill_inv_def)
      note ins = insertBefore_at [OF Cons.prems(1) items this room, of m]
      have inv': "fill_inv h sn (serverReceivedTime (h m)) l (lq_items B (fst (lq_insertBefore B (=) q p m)))"
        using fill_before [of h sn m l front p rest] inv Some m items ins by simp
      show ?thesis
        using Cons.IH [OF ins(1) inv' Cons.prems(3) _ _ later, of True] Cons.prems False Some ins items
        by (auto simp: fresh_messages_def in_order_def)
    next
      case None
      obtain xs where items: "lq_items B q = xs @ [l]"
        using inv by (metis append_butlast_last_id fill_inv_def)
      have "l \<notin> set xs" using inv items by (auto simp: fill_inv_def)
      note ins = insertAfter_last [OF Cons.prems(1) items this room, of m]
      have inv': "fill_inv h sn (serverReceivedTime (h m)) m (lq_items B (fst (lq_insertAfter B (=) q l m)))"
        using fill_after [OF inv None m] items ins by simp
      show ?thesis
        using Cons.IH [OF ins(1) inv' Cons.prems(3) _ _ later, of True] Cons.prems False None ins items
        by (auto simp: fresh_messages_def in_order_def)
    qed
  qed
qed

end


definition two_messages :: "msg_ptr \<Rightarrow> message" where
  "two_messages p = (new_message 0)\<lparr>id' := (if p = 0 then ''a'' else ''b''), serverReceivedTime := int p\<rparr>"


end
