(* ===== verification/Highlights.thy ===== *)
theory Highlights
  imports Messages Qt_Text
begin

text \<open>
  Highlights: \<open>controllers/highlights/HighlightPhrase.cpp\<close>, \<open>HighlightBadge.cpp\<close>,
  \<open>HighlightBlacklistUser.hpp\<close>, \<open>HighlightController.hpp/.cpp\<close>, and from
  \<open>messages/SharedMessageBuilder.cpp\<close> the parsing of badge tags and the use of a highlight result.

  Qt's regular expressions are a parameter: \<open>rxMatch pattern caseSensitive subject\<close> is \<open>None\<close> for an
  invalid pattern. Case folding is a parameter as well. A sound url is its text; a colour that a
  \<open>shared_ptr<QColor>\<close> holds is a number, a null pointer \<open>None\<close>.
\<close>

section \<open>Phrases, badges and blacklisted users\<close>

type_synonym regex_engine = "qstring \<Rightarrow> bool \<Rightarrow> qstring \<Rightarrow> bool option"

record highlight_phrase =
  hp_pattern :: qstring
  hp_showInMentions :: bool
  hp_hasAlert :: bool
  hp_hasSound :: bool
  hp_isRegex :: bool
  hp_isCaseSensitive :: bool
  hp_soundUrl :: qstring
  hp_color :: "int option"

text \<open>The pattern of the expression: the phrase itself, or the escaped phrase between word boundaries.\<close>

definition phrase_regex :: "(qstring \<Rightarrow> qstring) \<Rightarrow> highlight_phrase \<Rightarrow> qstring" where
  "phrase_regex escape h =
     (if hp_isRegex h then hp_pattern h
      else [CHR ''('', CHR 0x5C, CHR ''b'', CHR ''|'', CHR 0x5C, CHR ''s'', CHR ''|'', CHR ''^'', CHR '')'']
           @ escape (hp_pattern h) @
           [CHR ''('', CHR 0x5C, CHR ''b'', CHR ''|'', CHR 0x5C, CHR ''s'', CHR ''|'', CHR ''$'', CHR '')''])"

definition phrase_isValid :: "regex_engine \<Rightarrow> (qstring \<Rightarrow> qstring) \<Rightarrow> highlight_phrase \<Rightarrow> bool" where
  "phrase_isValid rx escape h \<longleftrightarrow>
     hp_pattern h \<noteq> [] \<and> rx (phrase_regex escape h) (hp_isCaseSensitive h) [] \<noteq> None"

definition phrase_isMatch :: "regex_engine \<Rightarrow> (qstring \<Rightarrow> qstring) \<Rightarrow> highlight_phrase \<Rightarrow> qstring \<Rightarrow> bool" where
  "phrase_isMatch rx escape h subject \<longleftrightarrow>
     phrase_isValid rx escape h \<and> rx (phrase_regex escape h) (hp_isCaseSensitive h) subject = Some True"

definition phrase_hasCustomSound :: "highlight_phrase \<Rightarrow> bool" where
  "phrase_hasCustomSound h \<longleftrightarrow> hp_soundUrl h \<noteq> []"

type_synonym badge = "qstring \<times> qstring"

definition slashKeyValue :: "qstring \<Rightarrow> qstring \<times> qstring" where
  "slashKeyValue kv = (section_first (CHR ''/'') kv, section_rest (CHR ''/'') kv)"

definition parseBadgeTag :: "qstring option \<Rightarrow> badge list" where
  "parseBadgeTag tag =
     (case tag of
        None \<Rightarrow> []
      | Some t \<Rightarrow> map slashKeyValue (filter (\<lambda>b. CHR ''/'' \<in> set b) (split_skip (CHR '','') t)))"

record highlight_badge =
  hb_badgeName :: qstring
  hb_displayName :: qstring
  hb_hasAlert :: bool
  hb_hasSound :: bool
  hb_soundUrl :: qstring
  hb_color :: "int option"
  hb_hasVersions :: bool
  hb_isMulti :: bool
  hb_badges :: "qstring list"

definition HighlightBadge :: "qstring \<Rightarrow> qstring \<Rightarrow> bool \<Rightarrow> bool \<Rightarrow> qstring \<Rightarrow> int option \<Rightarrow> highlight_badge" where
  "HighlightBadge name display alert sound url col =
     (let multi = (CHR '','' \<in> set name)
      in \<lparr>hb_badgeName = name, hb_displayName = display, hb_hasAlert = alert, hb_hasSound = sound,
          hb_soundUrl = url, hb_color = col, hb_hasVersions = (CHR ''/'' \<in> set name), hb_isMulti = multi,
          hb_badges = (if multi then split_on (CHR '','') name else [])\<rparr>)"

definition badge_compare :: "(qstring \<Rightarrow> qstring \<Rightarrow> bool) \<Rightarrow> highlight_badge \<Rightarrow> qstring \<Rightarrow> badge \<Rightarrow> bool" where
  "badge_compare eqCI h i badge =
     (if hb_hasVersions h then
        (let parts = slashKeyValue i in eqCI (fst parts) (fst badge) \<and> eqCI (snd parts) (snd badge))
      else eqCI i (fst badge))"

definition badge_isMatch :: "(qstring \<Rightarrow> qstring \<Rightarrow> bool) \<Rightarrow> highlight_badge \<Rightarrow> badge \<Rightarrow> bool" where
  "badge_isMatch eqCI h badge =
     (if hb_isMulti h then list_ex (\<lambda>i. badge_compare eqCI h i badge) (hb_badges h)
      else badge_compare eqCI h (hb_badgeName h) badge)"

definition badge_hasCustomSound :: "highlight_badge \<Rightarrow> bool" where
  "badge_hasCustomSound h \<longleftrightarrow> hb_soundUrl h \<noteq> []"

record blacklist_user =
  bu_pattern :: qstring
  bu_isRegex :: bool

definition blacklist_isMatch :: "regex_engine \<Rightarrow> (qstring \<Rightarrow> qstring) \<Rightarrow> blacklist_user \<Rightarrow> qstring \<Rightarrow> bool" where
  "blacklist_isMatch rx toLower u subject =
     (if bu_isRegex u then rx (bu_pattern u) False subject = Some True
      else toLower subject = toLower (bu_pattern u))"

definition isBlacklistedUser :: "regex_engine \<Rightarrow> (qstring \<Rightarrow> qstring) \<Rightarrow> blacklist_user list \<Rightarrow> qstring \<Rightarrow> bool" where
  "isBlacklistedUser rx toLower users name = list_ex (\<lambda>u. blacklist_isMatch rx toLower u name) users"

definition isMutedChannel :: "(qstring \<Rightarrow> qstring) \<Rightarrow> qstring list \<Rightarrow> qstring \<Rightarrow> bool" where
  "isMutedChannel toLower channels name = list_ex (\<lambda>c. toLower name = toLower c) channels"

section \<open>Results and checks\<close>

record highlight_result =
  hr_alert :: bool
  hr_playSound :: bool
  hr_customSoundUrl :: "qstring option"
  hr_color :: "int option"
  hr_showInMentions :: bool

definition emptyResult :: highlight_result where
  "emptyResult = \<lparr>hr_alert = False, hr_playSound = False, hr_customSoundUrl = None, hr_color = None,
     hr_showInMentions = False\<rparr>"

definition result_full :: "highlight_result \<Rightarrow> bool" where
  "result_full r \<longleftrightarrow> hr_alert r \<and> hr_playSound r \<and> hr_customSoundUrl r \<noteq> None \<and> hr_color r \<noteq> None \<and>
     hr_showInMentions r"

definition result_empty :: "highlight_result \<Rightarrow> bool" where
  "result_empty r \<longleftrightarrow> \<not> hr_alert r \<and> \<not> hr_playSound r \<and> hr_customSoundUrl r = None \<and> hr_color r = None \<and>
     \<not> hr_showInMentions r"

text \<open>\<open>operator==\<close> compares the colours only where both are set.\<close>

definition result_eq :: "highlight_result \<Rightarrow> highlight_result \<Rightarrow> bool" where
  "result_eq a b \<longleftrightarrow> hr_alert a = hr_alert b \<and> hr_playSound a = hr_playSound b \<and>
     hr_customSoundUrl a = hr_customSoundUrl b \<and>
     (hr_color a = None \<or> hr_color b = None \<or> hr_color a = hr_color b) \<and>
     hr_showInMentions a = hr_showInMentions b"

text \<open>The arguments of a check: the parse arguments, the badges, the sender, the text, and \<open>self\<close>.\<close>

record check_args =
  isSubscriptionMessage :: bool
  isReceivedWhisper :: bool
  ca_badges :: "badge list"
  ca_sender :: qstring
  ca_message :: qstring
  ca_self :: bool

type_synonym highlight_check = "check_args \<Rightarrow> highlight_result option"

record highlight_settings =
  hs_enableSub :: bool
  hs_subSound :: bool
  hs_subTaskbar :: bool
  hs_subColor :: "int option"
  hs_enableWhisper :: bool
  hs_whisperSound :: bool
  hs_whisperTaskbar :: bool
  hs_whisperSoundUrl :: qstring
  hs_whisperColor :: "int option"
  hs_enableSelf :: bool
  hs_selfInMentions :: bool
  hs_selfTaskbar :: bool
  hs_selfSound :: bool
  hs_selfSoundUrl :: qstring
  hs_selfColor :: "int option"
  hs_messages :: "highlight_phrase list"
  hs_users :: "highlight_phrase list"
  hs_badges :: "highlight_badge list"
  hs_username :: qstring

definition phrase_result :: "highlight_phrase \<Rightarrow> highlight_result" where
  "phrase_result h = \<lparr>hr_alert = hp_hasAlert h, hr_playSound = hp_hasSound h,
     hr_customSoundUrl = (if phrase_hasCustomSound h then Some (hp_soundUrl h) else None),
     hr_color = hp_color h, hr_showInMentions = hp_showInMentions h\<rparr>"

definition highlightPhraseCheck :: "regex_engine \<Rightarrow> (qstring \<Rightarrow> qstring) \<Rightarrow> highlight_phrase \<Rightarrow> highlight_check" where
  "highlightPhraseCheck rx escape h a =
     (if ca_self a then None
      else if \<not> phrase_isMatch rx escape h (ca_message a) then None
      else Some (phrase_result h))"

definition url_setting :: "qstring \<Rightarrow> qstring option" where
  "url_setting url = (if url \<noteq> [] then Some url else None)"

text \<open>Subscriptions are given the sound of whispers.\<close>

definition rebuildSubscriptionHighlights :: "highlight_settings \<Rightarrow> highlight_check list" where
  "rebuildSubscriptionHighlights s =
     (if hs_enableSub s then
        [\<lambda>a. if \<not> isSubscriptionMessage a then None
             else Some \<lparr>hr_alert = hs_subTaskbar s, hr_playSound = hs_subSound s,
                    hr_customSoundUrl = url_setting (hs_whisperSoundUrl s), hr_color = hs_subColor s,
                    hr_showInMentions = False\<rparr>]
      else [])"

definition rebuildWhisperHighlights :: "highlight_settings \<Rightarrow> highlight_check list" where
  "rebuildWhisperHighlights s =
     (if hs_enableWhisper s then
        [\<lambda>a. if \<not> isReceivedWhisper a then None
             else Some \<lparr>hr_alert = hs_whisperTaskbar s, hr_playSound = hs_whisperSound s,
                    hr_customSoundUrl = url_setting (hs_whisperSoundUrl s), hr_color = hs_whisperColor s,
                    hr_showInMentions = False\<rparr>]
      else [])"

definition rebuildMessageHighlights :: "regex_engine \<Rightarrow> (qstring \<Rightarrow> qstring) \<Rightarrow> highlight_settings
    \<Rightarrow> highlight_check list" where
  "rebuildMessageHighlights rx escape s =
     (if hs_enableSelf s \<and> hs_username s \<noteq> [] then
        [highlightPhraseCheck rx escape \<lparr>hp_pattern = hs_username s, hp_showInMentions = hs_selfInMentions s,
           hp_hasAlert = hs_selfTaskbar s, hp_hasSound = hs_selfSound s, hp_isRegex = False,
           hp_isCaseSensitive = False, hp_soundUrl = hs_selfSoundUrl s, hp_color = hs_selfColor s\<rparr>]
      else []) @ map (highlightPhraseCheck rx escape) (hs_messages s)"

definition rebuildUserHighlights :: "regex_engine \<Rightarrow> (qstring \<Rightarrow> qstring) \<Rightarrow> highlight_settings
    \<Rightarrow> highlight_check list" where
  "rebuildUserHighlights rx escape s =
     map (\<lambda>h a. if \<not> phrase_isMatch rx escape h (ca_sender a) then None else Some (phrase_result h)) (hs_users s)"

definition rebuildBadgeHighlights :: "(qstring \<Rightarrow> qstring \<Rightarrow> bool) \<Rightarrow> highlight_settings \<Rightarrow> highlight_check list" where
  "rebuildBadgeHighlights eqCI s =
     map (\<lambda>h a. if list_ex (badge_isMatch eqCI h) (ca_badges a)
                then Some \<lparr>hr_alert = hb_hasAlert h, hr_playSound = hb_hasSound h,
                  hr_customSoundUrl = (if badge_hasCustomSound h then Some (hb_soundUrl h) else None),
                  hr_color = hb_color h, hr_showInMentions = False\<rparr>
                else None) (hs_badges s)"

definition rebuildChecks :: "regex_engine \<Rightarrow> (qstring \<Rightarrow> qstring) \<Rightarrow> (qstring \<Rightarrow> qstring \<Rightarrow> bool)
    \<Rightarrow> highlight_settings \<Rightarrow> highlight_check list" where
  "rebuildChecks rx escape eqCI s =
     rebuildSubscriptionHighlights s @ rebuildWhisperHighlights s @ rebuildUserHighlights rx escape s @
     rebuildMessageHighlights rx escape s @ rebuildBadgeHighlights eqCI s"

section \<open>Checking a message\<close>

definition merge_result :: "highlight_result \<Rightarrow> highlight_result \<Rightarrow> highlight_result" where
  "merge_result result r = \<lparr>
     hr_alert = (if hr_alert r \<and> \<not> hr_alert result then hr_alert r else hr_alert result),
     hr_playSound = (if hr_playSound r \<and> \<not> hr_playSound result then hr_playSound r else hr_playSound result),
     hr_customSoundUrl = (if hr_customSoundUrl r \<noteq> None \<and> hr_customSoundUrl result = None
       then hr_customSoundUrl r else hr_customSoundUrl result),
     hr_color = (if hr_color r \<noteq> None \<and> hr_color result = None then hr_color r else hr_color result),
     hr_showInMentions = (if hr_showInMentions r \<and> \<not> hr_showInMentions result
       then hr_showInMentions r else hr_showInMentions result)\<rparr>"

fun check_loop :: "highlight_check list \<Rightarrow> check_args \<Rightarrow> bool \<Rightarrow> highlight_result \<Rightarrow> bool \<times> highlight_result" where
  "check_loop [] a highlighted result = (highlighted, result)"
| "check_loop (c # cs) a highlighted result =
     (case c a of
        None \<Rightarrow> check_loop cs a highlighted result
      | Some r \<Rightarrow>
          (let result' = merge_result result r
           in if result_full result' then (True, result') else check_loop cs a True result'))"

definition check :: "highlight_check list \<Rightarrow> qstring \<Rightarrow> check_args \<Rightarrow> bool \<times> highlight_result" where
  "check checks currentUser args =
     check_loop checks (args\<lparr>ca_self := (ca_sender args = currentUser)\<rparr>) False emptyResult"

section \<open>Using the result\<close>

record builder_highlight =
  bh_message :: message
  highlightAlert :: bool
  highlightSound :: bool
  highlightSoundUrl :: qstring

definition getFallbackHighlightSound :: "qstring \<Rightarrow> bool \<Rightarrow> bool \<Rightarrow> qstring" where
  "getFallbackHighlightSound path fileExists customHighlightSound =
     (if customHighlightSound \<and> fileExists then path else ''qrc:/sounds/ping2.wav'')"

definition parseHighlights :: "bool \<Rightarrow> highlight_check list \<Rightarrow> qstring \<Rightarrow> qstring \<Rightarrow> check_args
    \<Rightarrow> builder_highlight \<Rightarrow> builder_highlight" where
  "parseHighlights blacklisted checks currentUser fallbackSound args b =
     (if blacklisted then b
      else (case check checks currentUser args of (highlighted, r) \<Rightarrow>
        if \<not> highlighted then b
        else
          (let m = (bh_message b)\<lparr>flags := fe_set (flag_value Highlighted) (flags (bh_message b)),
                 highlightColor := hr_color r\<rparr>
           in b\<lparr>bh_message := (if hr_showInMentions r
                  then m\<lparr>flags := fe_set (flag_value ShowInMentions) (flags m)\<rparr> else m),
                highlightAlert := hr_alert r, highlightSound := hr_playSound r,
                highlightSoundUrl := (case hr_customSoundUrl r of Some u \<Rightarrow> u | None \<Rightarrow> fallbackSound)\<rparr>)))"

datatype highlight_effect = SetMedia qstring | Play | SendAlert

text \<open>\<open>currentPlayerUrl\<close> is a static variable; the player exists on the GUI thread only.\<close>

definition triggerHighlights :: "bool \<Rightarrow> bool \<Rightarrow> bool \<Rightarrow> bool \<Rightarrow> bool \<Rightarrow> builder_highlight \<Rightarrow> qstring
    \<Rightarrow> qstring \<times> highlight_effect list" where
  "triggerHighlights streamerMute mutedChannel hasFocus alwaysPlaySound guiThread b currentPlayerUrl =
     (if streamerMute then (currentPlayerUrl, [])
      else if mutedChannel then (currentPlayerUrl, [])
      else
        (let resolveFocus = (\<not> hasFocus \<or> alwaysPlaySound);
             (url, sound) =
               (if highlightSound b \<and> resolveFocus \<and> guiThread then
                  (if currentPlayerUrl \<noteq> highlightSoundUrl b
                   then (highlightSoundUrl b, [SetMedia (highlightSoundUrl b), Play])
                   else (currentPlayerUrl, [Play]))
                else (currentPlayerUrl, []))
         in (url, sound @ (if highlightAlert b then [SendAlert] else []))))"

section \<open>Properties\<close>

text \<open>The results of the checks that apply, in the order of the checks.\<close>

fun matching :: "highlight_check list \<Rightarrow> check_args \<Rightarrow> highlight_result list" where
  "matching [] a = []"
| "matching (c # cs) a = (case c a of None \<Rightarrow> matching cs a | Some r \<Rightarrow> r # matching cs a)"

lemma matching_append [simp]: "matching (cs @ ds) a = matching cs a @ matching ds a"
  by (induction cs) (auto split: option.splits)

definition first_of :: "'a option \<Rightarrow> 'a option \<Rightarrow> 'a option" where
  "first_of x y = (case x of None \<Rightarrow> y | Some _ \<Rightarrow> x)"

definition combined :: "highlight_result list \<Rightarrow> highlight_result" where
  "combined rs = \<lparr>hr_alert = list_ex hr_alert rs, hr_playSound = list_ex hr_playSound rs,
     hr_customSoundUrl = foldr (\<lambda>r. first_of (hr_customSoundUrl r)) rs None,
     hr_color = foldr (\<lambda>r. first_of (hr_color r)) rs None,
     hr_showInMentions = list_ex hr_showInMentions rs\<rparr>"

lemma merge_result_eq:
  "merge_result a b = \<lparr>hr_alert = (hr_alert a \<or> hr_alert b), hr_playSound = (hr_playSound a \<or> hr_playSound b),
     hr_customSoundUrl = first_of (hr_customSoundUrl a) (hr_customSoundUrl b),
     hr_color = first_of (hr_color a) (hr_color b),
     hr_showInMentions = (hr_showInMentions a \<or> hr_showInMentions b)\<rparr>"
  by (auto simp: merge_result_def first_of_def split: option.splits)

lemma first_of_assoc: "first_of (first_of x y) z = first_of x (first_of y z)"
  by (simp add: first_of_def split: option.split)

lemma first_of_None [simp]: "first_of x None = x" "first_of None x = x"
  by (simp_all add: first_of_def split: option.split)

lemma merge_combined: "fold (\<lambda>x r. merge_result r x) rs r = merge_result r (combined rs)"
proof (induction rs arbitrary: r)
  case Nil
  then show ?case by (simp add: combined_def merge_result_eq)
next
  case (Cons x rs)
  have "merge_result (merge_result r x) (combined rs) = merge_result r (combined (x # rs))"
    by (simp add: combined_def merge_result_eq first_of_assoc disj_assoc)
  then show ?case using Cons by simp
qed

lemma merge_full: "result_full r \<Longrightarrow> merge_result r x = r"
  by (cases r) (auto simp: result_full_def merge_result_eq first_of_def split: option.splits)

lemma fold_merge_full: "result_full r \<Longrightarrow> fold (\<lambda>x r. merge_result r x) rs r = r"
  by (induction rs) (auto simp: merge_full)

lemma check_loop_spec:
  "check_loop cs a h r = (h \<or> matching cs a \<noteq> [], fold (\<lambda>x r. merge_result r x) (matching cs a) r)"
proof (induction cs a h r rule: check_loop.induct)
  case (1 a h r)
  then show ?case by simp
next
  case (2 c cs a h r)
  then show ?case by (auto simp: Let_def fold_merge_full split: option.splits)
qed

text \<open>
  C9: a message is highlighted exactly when some check applies, and the result combines all checks
  that apply although the loop stops early: alert, sound and mention if any of them asks for it,
  and the sound url and the colour of the first that has one.
\<close>

theorem check_combines:
  "check checks currentUser args =
     (let rs = matching checks (args\<lparr>ca_self := (ca_sender args = currentUser)\<rparr>)
      in (rs \<noteq> [], combined rs))"
proof -
  have "merge_result emptyResult x = x" for x
    by (simp add: merge_result_eq emptyResult_def)
  then show ?thesis by (simp add: check_def check_loop_spec merge_combined Let_def)
qed

text \<open>
  A message of a blacklisted user is never touched; of any other user, the message gets the
  flag \<open>Highlighted\<close> exactly when a check applies (or it had it), \<open>ShowInMentions\<close> only together
  with a highlight that asks for it, and no other flag changes.
\<close>

theorem parseHighlights_flags:
  "msg_has (bh_message (parseHighlights blacklisted checks currentUser fallbackSound args b)) f \<longleftrightarrow>
     msg_has (bh_message b) f \<or>
     (\<not> blacklisted \<and> matching checks (args\<lparr>ca_self := (ca_sender args = currentUser)\<rparr>) \<noteq> [] \<and>
      (f = Highlighted \<or> f = ShowInMentions \<and>
        list_ex hr_showInMentions (matching checks (args\<lparr>ca_self := (ca_sender args = currentUser)\<rparr>))))"
proof -
  define rs where "rs = matching checks (args\<lparr>ca_self := (ca_sender args = currentUser)\<rparr>)"
  have c: "check checks currentUser args = (rs \<noteq> [], merge_result emptyResult (combined rs))"
    by (simp add: check_def check_loop_spec merge_combined rs_def)
  have "hr_showInMentions (merge_result emptyResult (combined rs)) \<longleftrightarrow> list_ex hr_showInMentions rs"
    by (simp add: merge_result_eq emptyResult_def combined_def)
  then show ?thesis
    unfolding rs_def [symmetric]
    by (auto simp: parseHighlights_def c Let_def has_set)
qed

text \<open>
  Own messages are highlighted only as subscriptions, whispers, or by a user or badge
  highlight: no phrase, and not the own name, highlights what the current user writes.
\<close>

theorem own_messages_no_phrases:
  assumes "ca_self a"
  shows "matching (rebuildChecks rx escape eqCI s) a =
    matching (rebuildSubscriptionHighlights s @ rebuildWhisperHighlights s @ rebuildUserHighlights rx escape s @
      rebuildBadgeHighlights eqCI s) a"
proof -
  have "matching (rebuildMessageHighlights rx escape s) a = []"
  proof -
    have "matching (map (highlightPhraseCheck rx escape) hs) a = []" for hs
      using assms by (induction hs) (simp_all add: highlightPhraseCheck_def)
    then show ?thesis using assms by (simp add: rebuildMessageHighlights_def highlightPhraseCheck_def)
  qed
  then show ?thesis by (simp add: rebuildChecks_def)
qed

theorem own_messages_no_phrases_witness:
  "matching (rebuildChecks (\<lambda>_ _ _. Some True) id (=)
     \<lparr>hs_enableSub = False, hs_subSound = False, hs_subTaskbar = False, hs_subColor = None,
      hs_enableWhisper = False, hs_whisperSound = False, hs_whisperTaskbar = False, hs_whisperSoundUrl = [],
      hs_whisperColor = None, hs_enableSelf = True, hs_selfInMentions = True, hs_selfTaskbar = True,
      hs_selfSound = True, hs_selfSoundUrl = [], hs_selfColor = None, hs_messages = [], hs_users = [],
      hs_badges = [], hs_username = ''forsen''\<rparr>)
     \<lparr>isSubscriptionMessage = False, isReceivedWhisper = False, ca_badges = [], ca_sender = ''forsen'',
      ca_message = ''hi'', ca_self = True\<rparr> = []"
  by (subst own_messages_no_phrases)
    (simp_all add: rebuildSubscriptionHighlights_def rebuildWhisperHighlights_def rebuildUserHighlights_def
      rebuildBadgeHighlights_def)

text \<open>
  Reading the badges tag gives the badges it was written from; a version may contain slashes,
  names may not.
\<close>

theorem parseBadgeTag_reads:
  assumes "\<forall>(k, v) \<in> set bs. CHR ''/'' \<notin> set k \<and> CHR '','' \<notin> set k \<and> CHR '','' \<notin> set v"
  shows "parseBadgeTag (Some (join_with (CHR '','') (map (\<lambda>(k, v). k @ CHR ''/'' # v) bs))) = bs"
proof -
  let ?ws = "map (\<lambda>(k, v). k @ CHR ''/'' # v) bs"
  have "split_skip (CHR '','') (join_with (CHR '','') ?ws) = ?ws"
    using assms by (intro split_skip_join) auto
  moreover have "filter (\<lambda>b. CHR ''/'' \<in> set b) ?ws = ?ws"
    by (auto intro!: filter_True)
  moreover have "map slashKeyValue ?ws = bs"
    using assms by (induction bs) (auto simp: slashKeyValue_def sections_of_pair)
  ultimately show ?thesis by (simp add: parseBadgeTag_def)
qed

theorem parseBadgeTag_reads_witness:
  "parseBadgeTag (Some ''subscriber/12,founder/0/x'') = [(''subscriber'', ''12''), (''founder'', ''0/x'')]"
  using parseBadgeTag_reads [of "[(''subscriber'', ''12''), (''founder'', ''0/x'')]"] by simp

text \<open>
  A highlight for several badges compares versions with all of them as soon as one has a version:
  the unversioned one then matches nothing that has a version.
\<close>

lemma mixed_badges_never_match:
  "\<not> badge_isMatch (=) (HighlightBadge ''moderator,subscriber/12'' [] True True [] None) (''moderator'', ''1'')"
  "badge_isMatch (=) (HighlightBadge ''moderator'' [] True True [] None) (''moderator'', ''1'')"
  by (simp_all add: badge_isMatch_def HighlightBadge_def badge_compare_def slashKeyValue_def
      section_first_def section_rest_def Let_def)

text \<open>A result whose colour is unset equals one with any colour.\<close>

lemma result_eq_not_transitive:
  "result_eq (emptyResult\<lparr>hr_color := Some 1\<rparr>) emptyResult \<and> result_eq emptyResult (emptyResult\<lparr>hr_color := Some 2\<rparr>) \<and>
   \<not> result_eq (emptyResult\<lparr>hr_color := Some 1\<rparr>) (emptyResult\<lparr>hr_color := Some 2\<rparr>)"
  by (simp add: result_eq_def emptyResult_def)

end
