(* ===== verification/Ratelimit.thy ===== *)
theory Ratelimit
  imports Prelude "HOL-Library.Word"
begin

text \<open>
  \<open>util/ExponentialBackoff.hpp\<close> and \<open>util/RatelimitBucket.cpp\<close>.

  The bucket's timers are the number of \<open>singleShot\<close> callbacks that have not run; Qt runs each of
  them once, in an order the event loop decides, so a timer step may happen whenever one is pending.
\<close>

section \<open>Exponential backoff\<close>

record backoff =
  start_ms :: int
  step' :: "32 word"

definition ExponentialBackoff :: "int \<Rightarrow> backoff" where
  "ExponentialBackoff start = \<lparr>start_ms = start, step' = 1\<rparr>"

text \<open>
  \<open>1 << (step_ - 1)\<close> is a shift of an \<open>int\<close> by an unsigned number: undefined (\<open>None\<close>) from 31 on,
  where the result does not fit.
\<close>

definition backoff_next :: "32 word \<Rightarrow> backoff \<Rightarrow> (int \<times> backoff) option" where
  "backoff_next maxSteps b =
     (let shift = unat (step' b - 1) in
      if shift < 31 then
        (let step = step' b + 1
         in Some (start_ms b * 2 ^ shift, b\<lparr>step' := (if step \<ge> maxSteps then maxSteps else step)\<rparr>))
      else None)"

definition backoff_reset :: "backoff \<Rightarrow> backoff" where
  "backoff_reset b = b\<lparr>step' := 1\<rparr>"

fun backoff_run :: "32 word \<Rightarrow> nat \<Rightarrow> backoff \<Rightarrow> (int list \<times> backoff) option" where
  "backoff_run maxSteps 0 b = Some ([], b)"
| "backoff_run maxSteps (Suc k) b =
     (case backoff_next maxSteps b of
        None \<Rightarrow> None
      | Some (d, b') \<Rightarrow>
          (case backoff_run maxSteps k b' of None \<Rightarrow> None | Some (ds, b'') \<Rightarrow> Some (d # ds, b'')))"

lemma backoff_run_from:
  assumes m: "1 < maxSteps" "maxSteps < 32" and s: "1 \<le> s" "s \<le> unat maxSteps"
  shows "backoff_run maxSteps k \<lparr>start_ms = t, step' = of_nat s\<rparr> =
    Some (map (\<lambda>i. t * 2 ^ (min (s - 1 + i) (unat maxSteps - 1))) [0..<k],
      \<lparr>start_ms = t, step' = of_nat (min (s + k) (unat maxSteps))\<rparr>)"
  using s
proof (induction k arbitrary: s)
  case 0
  then show ?case by (simp add: min_def)
next
  case (Suc k)
  have mx: "unat maxSteps < 32" using m(2) by (simp add: word_less_nat_alt)
  have small: "unat (of_nat i :: 32 word) = i" if "i < 2 ^ 32" for i
    using that by (simp add: unat_of_nat)
  have u: "unat (of_nat s - 1 :: 32 word) = s - 1" "unat (of_nat s + 1 :: 32 word) = s + 1"
  proof -
    have "(of_nat s - 1 :: 32 word) = of_nat (s - 1)" using Suc.prems by (simp add: of_nat_diff)
    then show "unat (of_nat s - 1 :: 32 word) = s - 1" using Suc.prems mx small [of "s - 1"] by simp
    have "(of_nat s + 1 :: 32 word) = of_nat (s + 1)" by simp
    then show "unat (of_nat s + 1 :: 32 word) = s + 1" using Suc.prems mx small [of "s + 1"] by (simp add: add.commute)
  qed
  let ?s = "min (s + 1) (unat maxSteps)"
  have step: "(if maxSteps \<le> of_nat s + 1 then maxSteps else of_nat s + 1) = (of_nat ?s :: 32 word)"
    using u by (auto simp: word_le_nat_alt min_def)
  have next': "backoff_next maxSteps \<lparr>start_ms = t, step' = of_nat s\<rparr> =
      Some (t * 2 ^ (s - 1), \<lparr>start_ms = t, step' = of_nat ?s\<rparr>)"
    using Suc.prems mx u step by (simp add: backoff_next_def Let_def)
  have s': "1 \<le> ?s" "?s \<le> unat maxSteps" using Suc.prems by auto
  have "min (?s - 1 + i) (unat maxSteps - 1) = min (s - 1 + Suc i) (unat maxSteps - 1)" for i
    using Suc.prems by auto
  then have "map (\<lambda>i. t * 2 ^ (min (?s - 1 + i) (unat maxSteps - 1))) [0..<k] =
      map (\<lambda>i. t * 2 ^ (min (s - 1 + i) (unat maxSteps - 1))) (map Suc [0..<k])"
    by simp
  then have tail: "map (\<lambda>i. t * 2 ^ (min (?s - 1 + i) (unat maxSteps - 1))) [0..<k] =
      map (\<lambda>i. t * 2 ^ (min (s - 1 + i) (unat maxSteps - 1))) [Suc 0..<Suc k]"
    by (simp only: map_Suc_upt)
  have head: "min (s - 1 + 0) (unat maxSteps - 1) = s - 1" using Suc.prems by auto
  have all: "map (\<lambda>i. t * 2 ^ (min (s - 1 + i) (unat maxSteps - 1))) [0..<Suc k] =
      t * 2 ^ (s - 1) # map (\<lambda>i. t * 2 ^ (min (?s - 1 + i) (unat maxSteps - 1))) [0..<k]"
    unfolding tail upt_conv_Cons [OF zero_less_Suc] list.map head ..
  have last': "min (?s + k) (unat maxSteps) = min (s + Suc k) (unat maxSteps)" by auto
  show ?case
    unfolding backoff_run.simps next' option.case prod.case Suc.IH [OF s'] all last' ..
qed

text \<open>
  \<open>next\<close> returns the start time doubled at every call and stays at
  \<open>start * 2 ^ (maxSteps - 1)\<close> from the cap on; the shift is defined for every \<open>maxSteps\<close> up to 31.
\<close>

theorem backoff_sequence:
  assumes "1 < maxSteps" "maxSteps < 32"
  shows "map_option fst (backoff_run maxSteps k (ExponentialBackoff t)) =
    Some (map (\<lambda>i. t * 2 ^ (min i (unat maxSteps - 1))) [0..<k])"
  using backoff_run_from [OF assms, of 1 k t] assms
  by (simp add: ExponentialBackoff_def word_less_nat_alt)

theorem backoff_sequence_witness:
  "map_option fst (backoff_run 5 6 (ExponentialBackoff 1000)) = Some [1000, 2000, 4000, 8000, 16000, 16000]"
  using backoff_sequence [of 5 6 1000] by (simp add: upt_rec)

section \<open>Rate limits\<close>

record bucket =
  budget :: int
  queue' :: "qstring list"
  timers :: nat
  called :: "qstring list"

definition RatelimitBucket :: "int \<Rightarrow> bucket" where
  "RatelimitBucket b = \<lparr>budget = b, queue' = [], timers = 0, called = []\<rparr>"

definition handleOne :: "bucket \<Rightarrow> bucket" where
  "handleOne b =
     (case queue' b of
        [] \<Rightarrow> b
      | item # rest \<Rightarrow> b\<lparr>queue' := rest, budget := budget b - 1, called := called b @ [item],
          timers := Suc (timers b)\<rparr>)"

definition bucket_send :: "qstring \<Rightarrow> bucket \<Rightarrow> bucket" where
  "bucket_send channel b =
     (let b1 = b\<lparr>queue' := queue' b @ [channel]\<rparr>
      in if budget b1 > 0 then handleOne b1 else b1)"

definition bucket_timer :: "bucket \<Rightarrow> bucket" where
  "bucket_timer b = handleOne (b\<lparr>timers := timers b - 1, budget := budget b + 1\<rparr>)"

datatype bucket_event = Send qstring | Timer

inductive bucket_step :: "bucket \<Rightarrow> bucket_event \<Rightarrow> bucket \<Rightarrow> bool" where
  send: "bucket_step b (Send c) (bucket_send c b)"
| timer: "0 < timers b \<Longrightarrow> bucket_step b Timer (bucket_timer b)"

inductive bucket_run :: "bucket \<Rightarrow> bucket_event list \<Rightarrow> bucket \<Rightarrow> bool" where
  start: "bucket_run b [] b"
| step: "bucket_run b es b' \<Longrightarrow> bucket_step b' e b'' \<Longrightarrow> bucket_run b (es @ [e]) b''"

inductive_cases bucket_stepE: "bucket_step b e b'"

fun sent :: "bucket_event list \<Rightarrow> qstring list" where
  "sent [] = []"
| "sent (Send c # es) = c # sent es"
| "sent (Timer # es) = sent es"

lemma sent_append [simp]: "sent (es @ fs) = sent es @ sent fs"
  by (induction es rule: sent.induct) auto

definition bucket_inv :: "nat \<Rightarrow> qstring list \<Rightarrow> bucket \<Rightarrow> bool" where
  "bucket_inv n cs b \<longleftrightarrow> budget b + int (timers b) = int n \<and> 0 \<le> budget b \<and>
     (queue' b \<noteq> [] \<longrightarrow> budget b = 0) \<and> called b @ queue' b = cs"

lemma bucket_send_inv: "bucket_inv n cs b \<Longrightarrow> bucket_inv n (cs @ [c]) (bucket_send c b)"
  by (auto simp: bucket_inv_def bucket_send_def handleOne_def Let_def split: list.splits)

lemma bucket_timer_inv: "bucket_inv n cs b \<Longrightarrow> 0 < timers b \<Longrightarrow> bucket_inv n cs (bucket_timer b)"
  by (auto simp: bucket_inv_def bucket_timer_def handleOne_def of_nat_diff split: list.splits)

lemma bucket_run_inv:
  "bucket_run b es b' \<Longrightarrow> bucket_inv n cs b \<Longrightarrow> bucket_inv n (cs @ sent es) b'"
proof (induction rule: bucket_run.induct)
  case (step b es b' e b'')
  then have "bucket_inv n (cs @ sent es) b'" by simp
  with step(2) show ?case
    by (cases rule: bucket_step.cases)
      (use bucket_send_inv [of n "cs @ sent es" b'] in \<open>auto simp: bucket_timer_inv\<close>)
qed simp

text \<open>
  In every run of a bucket with budget \<open>n\<close>, at most \<open>n\<close> calls are in their cooldown, calls
  happen in the order of the requests, none is lost or made twice, and a request waits only while
  the whole budget is in use.
\<close>

theorem bucket_rate_limited:
  assumes "bucket_run (RatelimitBucket (int n)) es b"
  shows "timers b \<le> n \<and> called b @ queue' b = sent es \<and> (queue' b \<noteq> [] \<longrightarrow> timers b = n)"
proof -
  have "bucket_inv n [] (RatelimitBucket (int n))" by (simp add: bucket_inv_def RatelimitBucket_def)
  from bucket_run_inv [OF assms this] show ?thesis by (auto simp: bucket_inv_def)
qed

theorem bucket_rate_limited_witness:
  "\<exists>b. bucket_run (RatelimitBucket 1) [Send ''a'', Send ''b'', Timer] b \<and> called b @ queue' b = [''a'', ''b'']"
proof -
  let ?b = "bucket_timer (bucket_send ''b'' (bucket_send ''a'' (RatelimitBucket (int 1))))"
  have "bucket_run (RatelimitBucket (int 1)) ((([] @ [Send ''a'']) @ [Send ''b'']) @ [Timer]) ?b"
    by (rule bucket_run.step [OF bucket_run.step [OF bucket_run.step [OF bucket_run.start
          bucket_step.send] bucket_step.send] bucket_step.timer])
      (simp add: bucket_send_def handleOne_def RatelimitBucket_def Let_def)
  then have r: "bucket_run (RatelimitBucket (int 1)) [Send ''a'', Send ''b'', Timer] ?b" by simp
  from bucket_rate_limited [OF this] r show ?thesis by auto
qed

text \<open>
  If no more requests come, as many timer events as requests wait are possible and empty the
  queue: every request is made eventually.
\<close>

theorem bucket_drains:
  assumes "bucket_run (RatelimitBucket (int n)) es b" "0 < n"
  shows "\<exists>b'. bucket_run (RatelimitBucket (int n)) (es @ replicate (length (queue' b)) Timer) b' \<and>
    queue' b' = [] \<and> called b' = sent es"
  using assms(1)
proof (induction "length (queue' b)" arbitrary: es b)
  case 0
  have "called b @ queue' b = sent es"
    using bucket_run_inv [OF 0(2), of n "[]"] by (simp add: bucket_inv_def RatelimitBucket_def)
  with 0 show ?case by auto
next
  case (Suc k)
  have i: "bucket_inv n (sent es) b"
    using bucket_run_inv [OF Suc(3), of n "[]"] by (simp add: bucket_inv_def RatelimitBucket_def)
  have t: "0 < timers b" using i Suc(2) assms(2) by (auto simp: bucket_inv_def)
  obtain x q where q: "queue' b = x # q" using Suc(2) by (cases "queue' b") auto
  have run: "bucket_run (RatelimitBucket (int n)) (es @ [Timer]) (bucket_timer b)"
    by (rule bucket_run.step [OF Suc(3) bucket_step.timer [OF t]])
  have "k = length (queue' (bucket_timer b))"
    using Suc(2) q by (simp add: bucket_timer_def handleOne_def)
  note k = this
  obtain b' where b': "bucket_run (RatelimitBucket (int n)) ((es @ [Timer]) @ replicate k Timer) b'"
      "queue' b' = []" "called b' = sent (es @ [Timer])"
    using Suc(1) [OF k run] k by blast
  have "(es @ [Timer]) @ replicate k Timer = es @ replicate (length (queue' b)) Timer"
    using Suc(2) [symmetric] by simp
  with b' show ?case by auto
qed

theorem bucket_drains_witness:
  "\<exists>b'. bucket_run (RatelimitBucket 1) ([Send ''a'', Send ''b''] @ [Timer]) b' \<and> queue' b' = []"
proof -
  let ?b = "bucket_send ''b'' (bucket_send ''a'' (RatelimitBucket (int 1)))"
  have "bucket_run (RatelimitBucket (int 1)) (([] @ [Send ''a'']) @ [Send ''b'']) ?b"
    by (rule bucket_run.step [OF bucket_run.step [OF bucket_run.start bucket_step.send]
          bucket_step.send])
  then have "bucket_run (RatelimitBucket (int 1)) [Send ''a'', Send ''b''] ?b" by simp
  from bucket_drains [OF this] show ?thesis
    by (auto simp: bucket_send_def handleOne_def RatelimitBucket_def Let_def)
qed

end
