(* ===== verification/PubSub_Model.thy ===== *)
theory PubSub_Model
  imports Ratelimit Qt_Text "HOL-Library.Word"
begin

text \<open>
  \<open>providers/twitch/PubSubClient.cpp\<close> and the connection management of \<open>PubSubManager.cpp\<close>: topics
  are spread over websocket connections of at most 50 topics each; topics for which there is no room
  wait in \<open>requests\<close> until another connection opens.

  All handlers run on the thread of the io service, one at a time, so each is one step on the
  state \<open>pubsub\<close>. The websocket library is not in the repository: a call that may fail has its
  outcome as an argument (\<open>connOk\<close> for \<open>get_connection\<close>, \<open>sendOk\<close> for sending a ping), and its
  callbacks are the events of \<open>ps_step\<close>. Handles are numbers; \<open>std::map\<close> iterates over the clients in
  key order. A violated \<open>assert\<close> is \<open>None\<close>. Nonces are unique, so a counter stands for
  \<open>generateUuid\<close>. \<open>ps_effects\<close> is what is sent, \<open>ps_debug\<close> the counters of DebugCount.
  \<open>numListens_\<close> is a \<open>uint16_t\<close>.
\<close>

section \<open>A client\<close>

definition MAX_LISTENS :: nat where
  "MAX_LISTENS = 50"

record pubsub_client =
  numListens :: "16 word"
  listeners :: "qstring list"
  awaitingPong :: bool
  started :: bool

definition PubSubClient :: pubsub_client where
  "PubSubClient = \<lparr>numListens = 0, listeners = [], awaitingPong = False, started = False\<rparr>"

definition client_listen :: "qstring list \<Rightarrow> pubsub_client \<Rightarrow> pubsub_client option" where
  "client_listen topics c =
     (if unat (numListens c) + length topics > MAX_LISTENS then None
      else Some (c\<lparr>numListens := numListens c + of_nat (length topics), listeners := listeners c @ topics\<rparr>))"

fun split_prefix :: "qstring \<Rightarrow> qstring list \<Rightarrow> qstring list \<times> qstring list" where
  "split_prefix pre [] = ([], [])"
| "split_prefix pre (t # ts) =
     (case split_prefix pre ts of
        (removed, kept) \<Rightarrow> if prefix pre t then (t # removed, kept) else (removed, t # kept))"

definition client_unlistenPrefix :: "qstring \<Rightarrow> pubsub_client \<Rightarrow> qstring list \<times> pubsub_client" where
  "client_unlistenPrefix pre c =
     (case split_prefix pre (listeners c) of
        (topics, kept) \<Rightarrow>
          if topics = [] then ([], c\<lparr>listeners := kept\<rparr>)
          else (topics, c\<lparr>listeners := kept, numListens := numListens c - of_nat (length topics)\<rparr>))"

definition client_isListeningToTopic :: "qstring \<Rightarrow> pubsub_client \<Rightarrow> bool" where
  "client_isListeningToTopic topic c = list_ex (\<lambda>t. t = topic) (listeners c)"

datatype client_effect = SendPing | StartPingTimer | CloseClient qstring

text \<open>\<open>ping\<close> asserts that the client is started.\<close>

definition client_ping :: "bool \<Rightarrow> pubsub_client \<Rightarrow> (client_effect list \<times> pubsub_client) option" where
  "client_ping sendOk c =
     (if \<not> started c then None
      else if awaitingPong c then Some ([CloseClient (''Didn'' @ [CHR 0x27] @ ''t respond to ping'')], c)
      else if \<not> sendOk then Some ([], c)
      else Some ([SendPing, StartPingTimer], c\<lparr>awaitingPong := True\<rparr>))"

definition client_start :: "bool \<Rightarrow> pubsub_client \<Rightarrow> (client_effect list \<times> pubsub_client) option" where
  "client_start sendOk c = (if started c then None else client_ping sendOk (c\<lparr>started := True\<rparr>))"

definition client_stop :: "pubsub_client \<Rightarrow> pubsub_client option" where
  "client_stop c = (if started c then Some (c\<lparr>started := False\<rparr>) else None)"

definition client_handlePong :: "pubsub_client \<Rightarrow> pubsub_client option" where
  "client_handlePong c = (if awaitingPong c then Some (c\<lparr>awaitingPong := False\<rparr>) else None)"

definition client_pingTimer :: "bool \<Rightarrow> pubsub_client \<Rightarrow> (client_effect list \<times> pubsub_client) option" where
  "client_pingTimer sendOk c = (if \<not> started c then Some ([], c) else client_ping sendOk c)"

section \<open>The manager\<close>

type_synonym conn_handle = nat

record nonce_info =
  ni_client :: conn_handle
  ni_messageType :: qstring
  ni_topics :: "qstring list"
  ni_topicCount :: nat

datatype pubsub_effect =
    Connect
  | ClientEffect conn_handle client_effect
  | SendListen conn_handle nat "qstring list" qstring
  | SendUnlisten conn_handle nat "qstring list"

record pubsub =
  ps_token :: qstring
  ps_userID :: qstring
  ps_requests :: "qstring list"
  ps_addingClient :: bool
  ps_backoff :: backoff
  ps_clients :: "(conn_handle \<times> pubsub_client) list"
  ps_nonces :: "nat \<rightharpoonup> nonce_info"
  ps_nextNonce :: nat
  ps_stopping :: bool
  ps_connecting :: nat
  ps_timers :: nat
  ps_debug :: "qstring \<Rightarrow> int"
  ps_effects :: "pubsub_effect list"
  ps_failedListens :: nat
  ps_listens :: nat
  ps_unlistens :: nat

definition PubSub :: pubsub where
  "PubSub = \<lparr>ps_token = [], ps_userID = [], ps_requests = [], ps_addingClient = False,
     ps_backoff = ExponentialBackoff 1000, ps_clients = [], ps_nonces = Map.empty, ps_nextNonce = 0,
     ps_stopping = False, ps_connecting = 0, ps_timers = 0, ps_debug = (\<lambda>_. 0), ps_effects = [],
     ps_failedListens = 0, ps_listens = 0, ps_unlistens = 0\<rparr>"

definition emit :: "pubsub_effect list \<Rightarrow> pubsub \<Rightarrow> pubsub" where
  "emit es s = s\<lparr>ps_effects := ps_effects s @ es\<rparr>"

definition debug_add :: "qstring \<Rightarrow> int \<Rightarrow> pubsub \<Rightarrow> pubsub" where
  "debug_add name n s = s\<lparr>ps_debug := (ps_debug s)(name := ps_debug s name + n)\<rparr>"

definition registerNonce :: "nat \<Rightarrow> nonce_info \<Rightarrow> pubsub \<Rightarrow> pubsub" where
  "registerNonce nonce info s = s\<lparr>ps_nonces := (ps_nonces s)(nonce \<mapsto> info)\<rparr>"

definition findNonceInfo :: "nat \<Rightarrow> pubsub \<Rightarrow> nonce_info option" where
  "findNonceInfo nonce s = ps_nonces s nonce"

definition put_client :: "conn_handle \<Rightarrow> pubsub_client \<Rightarrow> pubsub \<Rightarrow> pubsub" where
  "put_client h c s = s\<lparr>ps_clients := qmap_insert h c (ps_clients s)\<rparr>"

definition setAccountData :: "qstring \<Rightarrow> qstring \<Rightarrow> pubsub \<Rightarrow> pubsub" where
  "setAccountData token userID s = s\<lparr>ps_token := token, ps_userID := userID\<rparr>"

text \<open>When \<open>get_connection\<close> fails, \<open>addingClient\<close> stays set.\<close>

definition addClient :: "bool \<Rightarrow> pubsub \<Rightarrow> pubsub" where
  "addClient connOk s =
     (if ps_addingClient s then s
      else
        (let s1 = s\<lparr>ps_addingClient := True\<rparr>
         in if \<not> connOk then s1 else emit [Connect] (s1\<lparr>ps_connecting := Suc (ps_connecting s1)\<rparr>)))"

subsection \<open>Listening\<close>

text \<open>A client that accepts the topics, with what \<open>PubSubClient::listen\<close> and \<open>registerNonce\<close> do.\<close>

definition accept_listen :: "conn_handle \<Rightarrow> pubsub_client \<Rightarrow> nat \<Rightarrow> qstring list \<Rightarrow> pubsub \<Rightarrow> pubsub" where
  "accept_listen h c nonce topics s =
     registerNonce nonce \<lparr>ni_client = h, ni_messageType = ''LISTEN'', ni_topics = topics,
       ni_topicCount = length topics\<rparr>
       (emit [SendListen h nonce topics (ps_token s)]
         (debug_add ''PubSub topic pending listens'' (int (length topics)) (put_client h c s)))"

fun tryListen_loop :: "(conn_handle \<times> pubsub_client) list \<Rightarrow> nat \<Rightarrow> qstring list \<Rightarrow> pubsub \<Rightarrow> pubsub option" where
  "tryListen_loop [] nonce topics s = None"
| "tryListen_loop ((h, c) # rest) nonce topics s =
     (case client_listen topics c of
        Some c' \<Rightarrow> Some (accept_listen h c' nonce topics s)
      | None \<Rightarrow> tryListen_loop rest nonce topics s)"

definition tryListen :: "nat \<Rightarrow> qstring list \<Rightarrow> pubsub \<Rightarrow> pubsub option" where
  "tryListen nonce topics s = tryListen_loop (ps_clients s) nonce topics s"

definition ps_listen :: "bool \<Rightarrow> nat \<Rightarrow> qstring list \<Rightarrow> pubsub \<Rightarrow> pubsub" where
  "ps_listen connOk nonce topics s =
     (case tryListen nonce topics s of
        Some s' \<Rightarrow> s'
      | None \<Rightarrow>
          (let s1 = addClient connOk s
           in debug_add ''PubSub topic backlog'' (int (length topics))
                (s1\<lparr>ps_requests := ps_requests s1 @ topics\<rparr>)))"

definition listenToTopic :: "bool \<Rightarrow> qstring \<Rightarrow> pubsub \<Rightarrow> pubsub" where
  "listenToTopic connOk topic s =
     ps_listen connOk (ps_nextNonce s) [topic] (s\<lparr>ps_nextNonce := Suc (ps_nextNonce s)\<rparr>)"

definition isListeningToTopic :: "qstring \<Rightarrow> pubsub \<Rightarrow> bool" where
  "isListeningToTopic topic s = list_ex (\<lambda>(h, c). client_isListeningToTopic topic c) (ps_clients s)"

definition listenToWhispers :: "bool \<Rightarrow> pubsub \<Rightarrow> bool \<times> pubsub" where
  "listenToWhispers connOk s =
     (if ps_userID s = [] then (False, s)
      else (True, listenToTopic connOk (''whispers.'' @ ps_userID s) s))"

definition listenUnless :: "bool \<Rightarrow> qstring \<Rightarrow> pubsub \<Rightarrow> pubsub" where
  "listenUnless connOk topic s = (if isListeningToTopic topic s then s else listenToTopic connOk topic s)"

definition listenToChannelModerationActions :: "bool \<Rightarrow> qstring \<Rightarrow> pubsub \<Rightarrow> pubsub option" where
  "listenToChannelModerationActions connOk channelID s =
     (if ps_userID s = [] then Some s
      else if channelID = [] then None
      else Some (listenUnless connOk (''chat_moderator_actions.'' @ ps_userID s @ ''.'' @ channelID) s))"

definition listenToAutomod :: "bool \<Rightarrow> qstring \<Rightarrow> pubsub \<Rightarrow> pubsub option" where
  "listenToAutomod connOk channelID s =
     (if ps_userID s = [] then Some s
      else if channelID = [] then None
      else Some (listenUnless connOk (''automod-queue.'' @ ps_userID s @ ''.'' @ channelID) s))"

definition listenToChannelPointRewards :: "bool \<Rightarrow> qstring \<Rightarrow> pubsub \<Rightarrow> pubsub option" where
  "listenToChannelPointRewards connOk channelID s =
     (if channelID = [] then None
      else Some (listenUnless connOk (''community-points-channel-v1.'' @ channelID) s))"

subsection \<open>Unlistening\<close>

fun unlisten_loop :: "qstring \<Rightarrow> (conn_handle \<times> pubsub_client) list \<Rightarrow> pubsub \<Rightarrow> pubsub" where
  "unlisten_loop pre [] s = s"
| "unlisten_loop pre ((h, c) # rest) s =
     (case client_unlistenPrefix pre c of
        (topics, c') \<Rightarrow>
          unlisten_loop pre rest
            (if topics = [] then s
             else
               (let nonce = ps_nextNonce s;
                    s1 = put_client h c' (s\<lparr>ps_nextNonce := Suc nonce\<rparr>);
                    s2 = debug_add ''PubSub topic pending unlistens'' (int (length topics)) s1;
                    s3 = emit [SendUnlisten h nonce topics] s2
                in registerNonce nonce \<lparr>ni_client = h, ni_messageType = ''UNLISTEN'', ni_topics = topics,
                     ni_topicCount = length topics\<rparr> s3)))"

definition unlistenPrefix :: "qstring \<Rightarrow> pubsub \<Rightarrow> pubsub" where
  "unlistenPrefix pre s = unlisten_loop pre (ps_clients s) s"

definition unlistenAllModerationActions :: "pubsub \<Rightarrow> pubsub" where
  "unlistenAllModerationActions = unlistenPrefix ''chat_moderator_actions.''"

definition unlistenAutomod :: "pubsub \<Rightarrow> pubsub" where
  "unlistenAutomod = unlistenPrefix ''automod-queue.''"

definition unlistenWhispers :: "pubsub \<Rightarrow> pubsub" where
  "unlistenWhispers = unlistenPrefix ''whispers.''"

section \<open>Connection events\<close>

text \<open>A new connection takes up to \<open>MAX_LISTENS\<close> waiting topics.\<close>

definition onConnectionOpen :: "bool \<Rightarrow> bool \<Rightarrow> conn_handle \<Rightarrow> pubsub \<Rightarrow> pubsub option" where
  "onConnectionOpen connOk sendOk h s =
     (let s1 = debug_add ''PubSub connections'' 1
            (s\<lparr>ps_addingClient := False, ps_backoff := backoff_reset (ps_backoff s)\<rparr>)
      in case client_start sendOk PubSubClient of
           None \<Rightarrow> None
         | Some (es, c) \<Rightarrow>
             (let s2 = put_client h c (emit (map (ClientEffect h) es) s1);
                  topicsToTake = min (length (ps_requests s2)) MAX_LISTENS;
                  newTopics = take topicsToTake (ps_requests s2);
                  nonce = ps_nextNonce s2;
                  s3 = s2\<lparr>ps_requests := drop topicsToTake (ps_requests s2), ps_nextNonce := Suc nonce\<rparr>
              in case client_listen newTopics c of
                   None \<Rightarrow> Some s3
                 | Some c' \<Rightarrow>
                     (let s4 = debug_add ''PubSub topic backlog'' (- int (length newTopics))
                            (accept_listen h c' nonce newTopics s3)
                      in Some (if ps_requests s4 \<noteq> [] then addClient connOk s4 else s4))))"

text \<open>The retry is a timer that runs \<open>addClient\<close>; the backoff's shift is in range, so \<open>next\<close> is defined.\<close>

definition onConnectionFail :: "pubsub \<Rightarrow> pubsub option" where
  "onConnectionFail s =
     (let s1 = debug_add ''PubSub failed connections'' 1 (s\<lparr>ps_addingClient := False\<rparr>)
      in if ps_requests s1 \<noteq> [] then
           (case backoff_next 5 (ps_backoff s1) of
              None \<Rightarrow> None
            | Some (_, b) \<Rightarrow> Some (s1\<lparr>ps_backoff := b, ps_timers := Suc (ps_timers s1)\<rparr>))
         else Some s1)"

fun relisten :: "bool \<Rightarrow> qstring list \<Rightarrow> pubsub \<Rightarrow> pubsub" where
  "relisten connOk [] s = s"
| "relisten connOk (t # ts) s = relisten connOk ts (listenToTopic connOk t s)"

definition onConnectionClose :: "bool \<Rightarrow> conn_handle \<Rightarrow> pubsub \<Rightarrow> pubsub option" where
  "onConnectionClose connOk h s =
     (let s1 = debug_add ''PubSub connections'' (-1) s
      in case map_of (ps_clients s1) h of
           None \<Rightarrow> None
         | Some client \<Rightarrow>
             (let s2 = s1\<lparr>ps_clients := qmap_remove h (ps_clients s1)\<rparr>
              in case client_stop client of
                   None \<Rightarrow> None
                 | Some client' \<Rightarrow>
                     Some (if \<not> ps_stopping s2 then relisten connOk (listeners client') s2 else s2)))"

definition onPong :: "conn_handle \<Rightarrow> pubsub \<Rightarrow> pubsub option" where
  "onPong h s =
     (case map_of (ps_clients s) h of
        None \<Rightarrow> None
      | Some c \<Rightarrow> map_option (\<lambda>c'. put_client h c' s) (client_handlePong c))"

text \<open>A ping timer keeps its client alive; one that left the map is stopped and does nothing.\<close>

definition onPingTimer :: "bool \<Rightarrow> conn_handle \<Rightarrow> pubsub \<Rightarrow> pubsub option" where
  "onPingTimer sendOk h s =
     (case map_of (ps_clients s) h of
        None \<Rightarrow> Some s
      | Some c \<Rightarrow> map_option (\<lambda>(es, c'). put_client h c' (emit (map (ClientEffect h) es) s)) (client_pingTimer sendOk c))"

definition onBackoffTimer :: "bool \<Rightarrow> pubsub \<Rightarrow> pubsub" where
  "onBackoffTimer connOk s = addClient connOk (s\<lparr>ps_timers := ps_timers s - 1\<rparr>)"

text \<open>\<open>stop\<close>, without the thread it joins.\<close>

definition ps_stop :: "pubsub \<Rightarrow> pubsub" where
  "ps_stop s = emit (map (\<lambda>(h, c). ClientEffect h (CloseClient ''Shutting down'')) (ps_clients s))
     (s\<lparr>ps_stopping := True\<rparr>)"

section \<open>Responses\<close>

definition handleListenResponse :: "nonce_info \<Rightarrow> bool \<Rightarrow> pubsub \<Rightarrow> pubsub" where
  "handleListenResponse info failed s =
     (let s1 = debug_add ''PubSub topic pending listens'' (- int (ni_topicCount info)) s
      in if failed
         then debug_add ''PubSub topic failed listens'' (int (ni_topicCount info))
                (s1\<lparr>ps_failedListens := Suc (ps_failedListens s1)\<rparr>)
         else debug_add ''PubSub topic listening'' (int (ni_topicCount info))
                (s1\<lparr>ps_listens := Suc (ps_listens s1)\<rparr>))"

definition handleUnlistenResponse :: "nonce_info \<Rightarrow> bool \<Rightarrow> pubsub \<Rightarrow> pubsub" where
  "handleUnlistenResponse info failed s =
     (let s1 = debug_add ''PubSub topic pending unlistens'' (- int (ni_topicCount info))
            (s\<lparr>ps_unlistens := Suc (ps_unlistens s)\<rparr>)
      in if failed
         then debug_add ''PubSub topic failed unlistens'' (int (ni_topicCount info)) s1
         else debug_add ''PubSub topic listening'' (- int (ni_topicCount info)) s1)"

text \<open>
  \<open>alive\<close>: whether the weak pointer of the nonce still has a client. The handlers of the client
  itself do nothing.
\<close>

definition handleResponse :: "bool \<Rightarrow> qstring \<Rightarrow> nat option \<Rightarrow> pubsub \<Rightarrow> pubsub" where
  "handleResponse alive err nonce s =
     (case nonce of
        None \<Rightarrow> s
      | Some n \<Rightarrow>
          (case findNonceInfo n s of
             None \<Rightarrow> s
           | Some info \<Rightarrow>
               if \<not> alive then s
               else if ni_messageType info = ''LISTEN'' then handleListenResponse info (err \<noteq> []) s
               else if ni_messageType info = ''UNLISTEN'' then handleUnlistenResponse info (err \<noteq> []) s
               else s))"

section \<open>Messages on a topic\<close>

text \<open>
  The inner message of each kind of topic as parsed by \<open>pubsubmessages/\<close>: \<open>None\<close> where parsing
  fails. The tables of action handlers are given as the actions they have; a handler's signal is
  named by the action.
\<close>

datatype whisper_type = WhisperReceived | WhisperSent | Thread | WhisperInvalid

datatype mod_type = ModerationAction qstring | ChannelTermsAction qstring | ModInvalid

record inner_message =
  im_whisper :: "whisper_type option"
  im_moderation :: "mod_type option"
  im_redeemed :: "bool option"
  im_automod :: bool

datatype pubsub_signal = whisper_received | whisper_sent | moderation_action qstring qstring
  | terms_action qstring qstring | pointReward_redeemed | autoModMessageCaught qstring

definition topic_channel :: "qstring \<Rightarrow> qstring option" where
  "topic_channel topic =
     (let parts = split_on (CHR ''.'') topic in if length parts = 3 then Some (parts ! 2) else None)"

definition handleMessageResponse :: "qstring list \<Rightarrow> qstring list \<Rightarrow> qstring \<Rightarrow> inner_message
    \<Rightarrow> pubsub_signal list option" where
  "handleMessageResponse moderationHandlers termsHandlers topic im =
     (if prefix ''whispers.'' topic then
        Some (case im_whisper im of
          Some WhisperReceived \<Rightarrow> [whisper_received] | Some WhisperSent \<Rightarrow> [whisper_sent] | _ \<Rightarrow> [])
      else if prefix ''chat_moderator_actions.'' topic then
        (case im_moderation im of
           None \<Rightarrow> Some []
         | Some m \<Rightarrow>
             (case topic_channel topic of
                None \<Rightarrow> None
              | Some channelID \<Rightarrow>
                  Some (case m of
                    ModerationAction a \<Rightarrow> if a \<in> set moderationHandlers then [moderation_action a channelID] else []
                  | ChannelTermsAction a \<Rightarrow> if a \<in> set termsHandlers then [terms_action a channelID] else []
                  | ModInvalid \<Rightarrow> [])))
      else if prefix ''community-points-channel-v1.'' topic then
        Some (case im_redeemed im of Some True \<Rightarrow> [pointReward_redeemed] | _ \<Rightarrow> [])
      else if prefix ''automod-queue.'' topic then
        (if im_automod im
         then map_option (\<lambda>channelID. [autoModMessageCaught channelID]) (topic_channel topic)
         else Some [])
      else Some [])"

text \<open>
  \<open>onMessage\<close>: the parsed payload (\<open>None\<close> where it does not parse) by its type. The diagnostic
  counters of received and malformed messages are left out.
\<close>

datatype base_message = BasePong | BaseResponse qstring "nat option"
  | BaseMessage "(qstring \<times> inner_message) option" | BaseInvalid

definition onMessage :: "bool \<Rightarrow> qstring list \<Rightarrow> qstring list \<Rightarrow> conn_handle \<Rightarrow> base_message option \<Rightarrow> pubsub
    \<Rightarrow> (pubsub_signal list \<times> pubsub) option" where
  "onMessage alive moderationHandlers termsHandlers h oMessage s =
     (case oMessage of
        None \<Rightarrow> Some ([], s)
      | Some BasePong \<Rightarrow> map_option (Pair []) (onPong h s)
      | Some (BaseResponse err nonce) \<Rightarrow> Some ([], handleResponse alive err nonce s)
      | Some (BaseMessage None) \<Rightarrow> Some ([], s)
      | Some (BaseMessage (Some (topic, im))) \<Rightarrow>
          map_option (\<lambda>signals. (signals, s)) (handleMessageResponse moderationHandlers termsHandlers topic im)
      | Some BaseInvalid \<Rightarrow> Some ([], s))"

section \<open>Steps\<close>

datatype ps_event = Listen qstring | Unlisten qstring | Opened conn_handle | Failed | Closed conn_handle
  | Pong conn_handle | PingTimer conn_handle | BackoffTimer | Response nat

text \<open>
  A step of a manager that is not stopping, where \<open>connOk\<close> says whether \<open>get_connection\<close> works. An
  opened or failed connection is one that was being established, and its handle is new.
\<close>

inductive ps_step :: "bool \<Rightarrow> pubsub \<Rightarrow> ps_event \<Rightarrow> pubsub \<Rightarrow> bool" for connOk where
  listen: "ps_step connOk s (Listen t) (listenToTopic connOk t s)"
| unlisten: "ps_step connOk s (Unlisten pre) (unlistenPrefix pre s)"
| opened: "0 < ps_connecting s \<Longrightarrow> map_of (ps_clients s) h = None \<Longrightarrow>
    onConnectionOpen connOk sendOk h (s\<lparr>ps_connecting := ps_connecting s - 1\<rparr>) = Some s' \<Longrightarrow>
    ps_step connOk s (Opened h) s'"
| failed: "0 < ps_connecting s \<Longrightarrow> onConnectionFail (s\<lparr>ps_connecting := ps_connecting s - 1\<rparr>) = Some s' \<Longrightarrow>
    ps_step connOk s Failed s'"
| closed: "onConnectionClose connOk h s = Some s' \<Longrightarrow> ps_step connOk s (Closed h) s'"
| pong: "onPong h s = Some s' \<Longrightarrow> ps_step connOk s (Pong h) s'"
| pingTimer: "onPingTimer sendOk h s = Some s' \<Longrightarrow> ps_step connOk s (PingTimer h) s'"
| backoffTimer: "0 < ps_timers s \<Longrightarrow> ps_step connOk s BackoffTimer (onBackoffTimer connOk s)"
| response: "ps_step connOk s (Response n) (handleResponse alive err (Some n) s)"

inductive ps_run :: "bool \<Rightarrow> ps_event list \<Rightarrow> pubsub \<Rightarrow> bool" for connOk where
  init: "ps_run connOk [] PubSub"
| step: "ps_run connOk es s \<Longrightarrow> ps_step connOk s e s' \<Longrightarrow> ps_run connOk (es @ [e]) s'"

inductive_cases ps_stepE: "ps_step connOk s e s'"

end
