(* ===== verification/PubSub_Correct.thy ===== *)
theory PubSub_Correct
  imports PubSub_Model
begin

text \<open>
  Properties of the topic management of PubSub: the limit per connection, conservation of topics
  across connections opening, failing and closing, and progress of the waiting topics.
\<close>

section \<open>Topics of a table of clients\<close>

definition client_topics :: "(conn_handle \<times> pubsub_client) list \<Rightarrow> qstring multiset" where
  "client_topics m = sum_list (map (\<lambda>(h, c). mset (listeners c)) m)"

lemma client_topics_simps [simp]:
  "client_topics [] = {#}" "client_topics ((h, c) # m) = mset (listeners c) + client_topics m"
  by (simp_all add: client_topics_def)

lemma client_topics_new: "map_of m h = None \<Longrightarrow> client_topics (qmap_insert h c m) = mset (listeners c) + client_topics m"
  by (induction h c m rule: qmap_insert.induct) (auto split: if_splits)

lemma client_topics_update:
  "qmap_ok m \<Longrightarrow> map_of m h = Some c0 \<Longrightarrow>
   client_topics (qmap_insert h c m) + mset (listeners c0) = client_topics m + mset (listeners c)"
proof (induction h c m rule: qmap_insert.induct)
  case (2 h c h' c' m)
  have "h < h' \<Longrightarrow> map_of m h = None"
    using 2(2) by (auto simp: map_of_eq_None_iff)
  then show ?case using 2 by (auto split: if_splits)
qed simp

lemma client_topics_remove:
  "qmap_ok m \<Longrightarrow> map_of m h = Some c \<Longrightarrow> client_topics (qmap_remove h m) + mset (listeners c) = client_topics m"
proof (induction m)
  case (Cons e m)
  obtain h' c' where e: "e = (h', c')" by (cases e)
  show ?case
  proof (cases "h' = h")
    case True
    then have "filter (\<lambda>e. fst e \<noteq> h) m = m"
      using Cons.prems(1) e by (auto intro!: filter_True)
    then show ?thesis using Cons.prems e True by (simp add: qmap_remove_def)
  next
    case False
    then show ?thesis using Cons e by (auto simp: qmap_remove_def)
  qed
qed simp

section \<open>The invariant\<close>

definition client_ok :: "pubsub_client \<Rightarrow> bool" where
  "client_ok c \<longleftrightarrow> unat (numListens c) = length (listeners c) \<and> length (listeners c) \<le> MAX_LISTENS \<and> started c"

definition clients_ok :: "(conn_handle \<times> pubsub_client) list \<Rightarrow> bool" where
  "clients_ok m \<longleftrightarrow> qmap_ok m \<and> (\<forall>e \<in> set m. client_ok (snd e))"

definition backoff_ok :: "backoff \<Rightarrow> bool" where
  "backoff_ok b \<longleftrightarrow> 1 \<le> step' b \<and> step' b \<le> 5"

definition waiting_ok :: "pubsub \<Rightarrow> bool" where
  "waiting_ok s \<longleftrightarrow> ps_connecting s = (if ps_addingClient s then 1 else 0) \<and>
     (ps_requests s \<noteq> [] \<longrightarrow> ps_addingClient s \<or> 0 < ps_timers s)"

definition ps_inv :: "bool \<Rightarrow> pubsub \<Rightarrow> bool" where
  "ps_inv connOk s \<longleftrightarrow> clients_ok (ps_clients s) \<and> backoff_ok (ps_backoff s) \<and> \<not> ps_stopping s \<and>
     ps_debug s ''PubSub topic backlog'' = int (length (ps_requests s)) \<and> (connOk \<longrightarrow> waiting_ok s)"

definition all_topics :: "pubsub \<Rightarrow> qstring multiset" where
  "all_topics s = client_topics (ps_clients s) + mset (ps_requests s)"

text \<open>Far below its bound a 16-bit counter counts as a number does.\<close>

lemma unat_counter: "k \<le> MAX_LISTENS \<Longrightarrow> unat (of_nat k :: 16 word) = k"
  by (simp add: MAX_LISTENS_def unat_of_nat take_bit_nat_eq_self)

lemma unat_counter_add:
  "unat w = n \<Longrightarrow> n + k \<le> MAX_LISTENS \<Longrightarrow> unat ((w::16 word) + of_nat k) = n + k"
  using unat_counter [of k] by (subst unat_add_lem [THEN iffD1]) (simp_all add: MAX_LISTENS_def)

lemma unat_counter_sub:
  assumes "unat (w::16 word) = n" "k \<le> n" "n \<le> MAX_LISTENS"
  shows "unat (w - of_nat k) = n - k"
proof -
  have k: "unat (of_nat k :: 16 word) = k" using assms by (simp add: unat_counter)
  then have "of_nat k \<le> w" using assms by (simp add: word_le_nat_alt)
  then show ?thesis using assms k by (simp add: unat_sub)
qed

lemma clients_ok_insert [intro]: "clients_ok m \<Longrightarrow> client_ok c \<Longrightarrow> clients_ok (qmap_insert h c m)"
  by (auto simp: clients_ok_def dest: set_qmap_insert)

lemma clients_ok_remove [intro]: "clients_ok m \<Longrightarrow> clients_ok (qmap_remove h m)"
  by (auto simp: clients_ok_def) (auto simp: qmap_remove_def)

lemma clients_okD: "clients_ok m \<Longrightarrow> map_of m h = Some c \<Longrightarrow> client_ok c"
  using map_of_SomeD [of m h c] by (auto simp: clients_ok_def)

lemma clients_ok_qmap: "clients_ok m \<Longrightarrow> qmap_ok m"
  by (simp add: clients_ok_def)

lemma client_listen_ok: "client_ok c \<Longrightarrow> client_listen ts c = Some c' \<Longrightarrow>
    client_ok c' \<and> listeners c' = listeners c @ ts"
  by (auto simp: client_listen_def client_ok_def unat_counter_add split: if_splits)

lemma split_prefix_eq: "split_prefix pre ts = (filter (prefix pre) ts, filter (\<lambda>t. \<not> prefix pre t) ts)"
  by (induction pre ts rule: split_prefix.induct) auto

lemma client_unlisten_ok:
  assumes "client_ok c" "client_unlistenPrefix pre c = (ts, c')"
  shows "client_ok c'" "ts = filter (prefix pre) (listeners c)"
    "listeners c' = filter (\<lambda>t. \<not> prefix pre t) (listeners c)"
proof -
  have "length (filter (prefix pre) (listeners c)) + length (filter (\<lambda>t. \<not> prefix pre t) (listeners c)) =
      length (listeners c)" by (rule sum_length_filter_compl)
  then have "length (listeners c) - length (filter (prefix pre) (listeners c)) =
      length (filter (\<lambda>t. \<not> prefix pre t) (listeners c))" by simp
  then show "client_ok c'" using assms length_filter_le [of "\<lambda>t. \<not> prefix pre t" "listeners c"]
    by (auto simp: client_unlistenPrefix_def split_prefix_eq client_ok_def unat_counter_sub
        intro: order_trans split: if_splits)
  show "ts = filter (prefix pre) (listeners c)" "listeners c' = filter (\<lambda>t. \<not> prefix pre t) (listeners c)"
    using assms by (auto simp: client_unlistenPrefix_def split_prefix_eq split: if_splits)
qed

section \<open>The operations\<close>

lemmas state_ops = emit_def debug_add_def registerNonce_def put_client_def

lemma addClient_keeps:
  "ps_clients (addClient k s) = ps_clients s" "ps_requests (addClient k s) = ps_requests s"
  "ps_debug (addClient k s) = ps_debug s" "ps_backoff (addClient k s) = ps_backoff s"
  "ps_stopping (addClient k s) = ps_stopping s" "ps_timers (addClient k s) = ps_timers s"
  "ps_addingClient (addClient k s)"
  by (simp_all add: addClient_def Let_def emit_def)

lemma addClient_connecting:
  "ps_connecting s = (if ps_addingClient s then 1 else 0) \<Longrightarrow> ps_connecting (addClient True s) = 1"
  by (simp add: addClient_def Let_def emit_def)

lemma waiting_ok_debug [simp]: "waiting_ok (s\<lparr>ps_debug := d\<rparr>) \<longleftrightarrow> waiting_ok s"
  by (simp add: waiting_ok_def)

lemma waiting_addClient:
  "ps_connecting s = (if ps_addingClient s then 1 else 0) \<Longrightarrow> waiting_ok ((addClient True s)\<lparr>ps_requests := r\<rparr>)"
  using addClient_keeps [of True s] addClient_connecting [of s] by (simp add: waiting_ok_def)

lemma accept_listen_spec:
  assumes s: "clients_ok (ps_clients s)" and c: "client_ok c'"
  shows "clients_ok (ps_clients (accept_listen h c' nonce ts s))"
    "ps_requests (accept_listen h c' nonce ts s) = ps_requests s"
    "ps_debug (accept_listen h c' nonce ts s) ''PubSub topic backlog'' = ps_debug s ''PubSub topic backlog''"
    "ps_backoff (accept_listen h c' nonce ts s) = ps_backoff s"
    "ps_stopping (accept_listen h c' nonce ts s) = ps_stopping s"
    "ps_timers (accept_listen h c' nonce ts s) = ps_timers s"
    "ps_connecting (accept_listen h c' nonce ts s) = ps_connecting s"
    "ps_addingClient (accept_listen h c' nonce ts s) = ps_addingClient s"
    "ps_clients (accept_listen h c' nonce ts s) = qmap_insert h c' (ps_clients s)"
  using assms by (auto simp: accept_listen_def state_ops)

lemma tryListen_loop_spec:
  assumes "tryListen_loop m nonce ts s = Some s'" "\<forall>(h, c) \<in> set m. map_of (ps_clients s) h = Some c"
    "clients_ok (ps_clients s)"
  shows "\<exists>h c c'. map_of (ps_clients s) h = Some c \<and> client_ok c' \<and> listeners c' = listeners c @ ts \<and>
    s' = accept_listen h c' nonce ts s"
  using assms
proof (induction m nonce ts s rule: tryListen_loop.induct)
  case (2 h c rest nonce ts s)
  show ?case
  proof (cases "client_listen ts c")
    case None
    then show ?thesis using 2 by auto
  next
    case (Some c')
    have "map_of (ps_clients s) h = Some c" using 2(3) by auto
    moreover from this have "client_ok c" using 2(4) by (rule clients_okD [rotated])
    ultimately show ?thesis using client_listen_ok [OF _ Some] 2(2) Some by auto
  qed
qed simp

lemma map_of_all: "qmap_ok m \<Longrightarrow> \<forall>(h, c) \<in> set m. map_of m h = Some c"
  by (auto dest: qmap_ok_distinct)

lemma listen_spec:
  assumes "ps_inv connOk s"
  shows "ps_inv connOk (ps_listen connOk nonce ts s) \<and>
    all_topics (ps_listen connOk nonce ts s) = all_topics s + mset ts"
proof (cases "tryListen nonce ts s")
  case None
  have "waiting_ok s \<Longrightarrow> waiting_ok ((addClient True s)\<lparr>ps_requests := r\<rparr>)" for r
    by (rule waiting_addClient) (simp add: waiting_ok_def)
  then show ?thesis using assms None
    by (auto simp: ps_listen_def Let_def ps_inv_def all_topics_def addClient_keeps debug_add_def)
next
  case (Some s')
  have ok: "clients_ok (ps_clients s)" using assms by (simp add: ps_inv_def)
  obtain h c c' where c: "map_of (ps_clients s) h = Some c" "client_ok c'" "listeners c' = listeners c @ ts"
      "s' = accept_listen h c' nonce ts s"
    using tryListen_loop_spec [OF Some [unfolded tryListen_def] map_of_all [OF clients_ok_qmap [OF ok]] ok]
    by auto
  note acc = accept_listen_spec [OF ok c(2), of h nonce ts]
  have "client_topics (qmap_insert h c' (ps_clients s)) = client_topics (ps_clients s) + mset ts"
    using client_topics_update [OF clients_ok_qmap [OF ok] c(1), of c'] c(3) by simp
  then show ?thesis using assms Some c acc
    by (simp add: ps_listen_def ps_inv_def all_topics_def waiting_ok_def)
qed

lemma listenToTopic_spec:
  assumes "ps_inv connOk s"
  shows "ps_inv connOk (listenToTopic connOk t s) \<and> all_topics (listenToTopic connOk t s) = add_mset t (all_topics s)"
proof -
  have "ps_inv connOk (s\<lparr>ps_nextNonce := n\<rparr>)" for n using assms by (simp add: ps_inv_def waiting_ok_def)
  from listen_spec [OF this, where nonce = "ps_nextNonce s" and ts = "[t]"] show ?thesis
    by (simp add: listenToTopic_def all_topics_def)
qed

lemma relisten_spec:
  "ps_inv connOk s \<Longrightarrow> ps_inv connOk (relisten connOk ts s) \<and> all_topics (relisten connOk ts s) = all_topics s + mset ts"
  by (induction connOk ts s rule: relisten.induct) (auto simp: listenToTopic_spec)

lemma unlisten_loop_spec:
  assumes "ps_inv connOk s" "\<forall>(h, c) \<in> set m. map_of (ps_clients s) h = Some c" "distinct (map fst m)"
  shows "ps_inv connOk (unlisten_loop pre m s) \<and> ps_requests (unlisten_loop pre m s) = ps_requests s \<and>
    client_topics (ps_clients (unlisten_loop pre m s)) + filter_mset (prefix pre) (client_topics m) =
      client_topics (ps_clients s)"
  using assms
proof (induction m arbitrary: s)
  case Nil
  then show ?case by simp
next
  case 2: (Cons e rest)
  obtain h c where e: "e = (h, c)" by (cases e)
  have ok: "clients_ok (ps_clients s)" using 2(2) by (simp add: ps_inv_def)
  have h: "map_of (ps_clients s) h = Some c" using 2(3) e by auto
  obtain ts c' where u: "client_unlistenPrefix pre c = (ts, c')" by (cases "client_unlistenPrefix pre c")
  note un = client_unlisten_ok [OF clients_okD [OF ok h] u]
  define s1 where "s1 = (if ts = [] then s
    else registerNonce (ps_nextNonce s) \<lparr>ni_client = h, ni_messageType = ''UNLISTEN'', ni_topics = ts,
           ni_topicCount = length ts\<rparr>
         (emit [SendUnlisten h (ps_nextNonce s) ts]
           (debug_add ''PubSub topic pending unlistens'' (int (length ts))
             (put_client h c' (s\<lparr>ps_nextNonce := Suc (ps_nextNonce s)\<rparr>)))))"
  have l: "unlisten_loop pre (e # rest) s = unlisten_loop pre rest s1"
    using u e by (simp add: s1_def Let_def)
  have cl: "ts \<noteq> [] \<Longrightarrow> ps_clients s1 = qmap_insert h c' (ps_clients s)" by (simp add: s1_def state_ops)
  have inv: "ps_inv connOk s1" using 2(2) un(1)
    by (auto simp: s1_def ps_inv_def waiting_ok_def state_ops)
  have req: "ps_requests s1 = ps_requests s" by (simp add: s1_def state_ops)
  have top: "client_topics (ps_clients s1) + filter_mset (prefix pre) (mset (listeners c)) = client_topics (ps_clients s)"
  proof (cases "ts = []")
    case True
    then show ?thesis using un(2) by (simp add: s1_def flip: mset_filter)
  next
    case False
    have e: "client_topics (qmap_insert h c' (ps_clients s)) + mset (listeners c) =
        client_topics (ps_clients s) + mset (listeners c')"
      using client_topics_update [OF clients_ok_qmap [OF ok] h, of c'] .
    have "mset (listeners c) = filter_mset (prefix pre) (mset (listeners c)) + mset (listeners c')"
      unfolding un(3) mset_filter by (rule multiset_partition)
    then show ?thesis using e cl [OF False]
      by (metis (no_types, lifting) add.assoc add_right_cancel)
  qed
  have m: "\<forall>(h', c'') \<in> set rest. map_of (ps_clients s1) h' = Some c''"
  proof (cases "ts = []")
    case True
    then show ?thesis using 2(3) by (auto simp: s1_def)
  next
    case False
    have "h \<notin> fst ` set rest" using 2(4) e by simp
    then show ?thesis using 2(3) cl [OF False] clients_ok_qmap [OF ok] by force
  qed
  have d: "distinct (map fst rest)" using 2(4) by simp
  have ih: "ps_inv connOk (unlisten_loop pre rest s1) \<and> ps_requests (unlisten_loop pre rest s1) = ps_requests s1 \<and>
      client_topics (ps_clients (unlisten_loop pre rest s1)) + filter_mset (prefix pre) (client_topics rest) =
      client_topics (ps_clients s1)"
    by (rule 2(1) [OF inv m d])
  have "client_topics (ps_clients (unlisten_loop pre rest s1)) +
      (filter_mset (prefix pre) (mset (listeners c)) + filter_mset (prefix pre) (client_topics rest)) =
      client_topics (ps_clients s)"
    using ih top by (metis (no_types, lifting) add.assoc add.commute)
  then show ?case unfolding l using ih req e by simp
qed

lemma unlistenPrefix_spec:
  assumes "ps_inv connOk s"
  shows "ps_inv connOk (unlistenPrefix pre s) \<and>
    all_topics (unlistenPrefix pre s) =
      filter_mset (\<lambda>t. \<not> prefix pre t) (client_topics (ps_clients s)) + mset (ps_requests s)"
proof -
  have ok: "clients_ok (ps_clients s)" using assms by (simp add: ps_inv_def)
  note u = unlisten_loop_spec [OF assms map_of_all [OF clients_ok_qmap [OF ok]]
      qmap_ok_distinct [OF clients_ok_qmap [OF ok]], of pre]
  have "client_topics (ps_clients s) = filter_mset (prefix pre) (client_topics (ps_clients s)) +
      filter_mset (\<lambda>t. \<not> prefix pre t) (client_topics (ps_clients s))"
    by (rule multiset_partition)
  then have "client_topics (ps_clients (unlistenPrefix pre s)) =
      filter_mset (\<lambda>t. \<not> prefix pre t) (client_topics (ps_clients s))"
    using u by (metis add.commute add_left_cancel unlistenPrefix_def)
  then show ?thesis using u by (simp add: unlistenPrefix_def all_topics_def)
qed

section \<open>Connection events\<close>

lemma new_client: "client_start sendOk PubSubClient =
    Some (if sendOk then ([SendPing, StartPingTimer], \<lparr>numListens = 0, listeners = [], awaitingPong = True, started = True\<rparr>)
      else ([], \<lparr>numListens = 0, listeners = [], awaitingPong = False, started = True\<rparr>))"
  by (simp add: client_start_def PubSubClient_def client_ping_def)

text \<open>The state in which an opened or failed connection is handled: it is no longer being established.\<close>

definition conn_done :: "pubsub \<Rightarrow> pubsub" where
  "conn_done s = s\<lparr>ps_connecting := ps_connecting s - 1\<rparr>"

lemma open_spec:
  assumes inv: "ps_inv connOk s" and h: "map_of (ps_clients s) h = None"
  shows "\<exists>s'. onConnectionOpen connOk sendOk h (conn_done s) = Some s' \<and> ps_inv connOk s' \<and>
    all_topics s' = all_topics s \<and> ps_requests s' = drop MAX_LISTENS (ps_requests s) \<and>
    (\<forall>k. map_of (ps_clients s') k \<noteq> None \<longrightarrow> k = h \<or> map_of (ps_clients s) k \<noteq> None) \<and>
    ps_timers s' = ps_timers s"
proof -
  obtain es c where c: "client_start sendOk PubSubClient = Some (es, c)" "client_ok c" "listeners c = []" "numListens c = 0"
    by (cases sendOk) (auto simp: new_client client_ok_def)
  define n where "n = min (length (ps_requests s)) MAX_LISTENS"
  define s3 where "s3 = (put_client h c (emit (map (ClientEffect h) es) (debug_add ''PubSub connections'' 1
      ((conn_done s)\<lparr>ps_addingClient := False, ps_backoff := backoff_reset (ps_backoff s)\<rparr>))))
      \<lparr>ps_requests := drop n (ps_requests s), ps_nextNonce := Suc (ps_nextNonce s)\<rparr>"
  obtain c' where c': "client_listen (take n (ps_requests s)) c = Some c'"
    using c by (simp add: client_listen_def n_def)
  have ok': "client_ok c'" "listeners c' = take n (ps_requests s)"
    using client_listen_ok [OF c(2) c'] c(3) by simp_all
  have ok: "clients_ok (ps_clients s)" using inv by (simp add: ps_inv_def)
  have cl3: "ps_clients s3 = qmap_insert h c (ps_clients s)" by (simp add: s3_def state_ops conn_done_def)
  have ok3: "clients_ok (ps_clients s3)" using ok c(2) cl3 by auto
  define s4 where "s4 = debug_add ''PubSub topic backlog'' (- int n)
      (accept_listen h c' (ps_nextNonce s) (take n (ps_requests s)) s3)"
  define s' where "s' = (if ps_requests s4 \<noteq> [] then addClient connOk s4 else s4)"
  have len: "length (take n (ps_requests s)) = n" by (simp add: n_def)
  have opened: "onConnectionOpen connOk sendOk h (conn_done s) = Some s'"
    using c(1) c' len
    by (simp add: onConnectionOpen_def Let_def s3_def s4_def s'_def n_def state_ops conn_done_def)
  note acc = accept_listen_spec [OF ok3 ok'(1), of h "ps_nextNonce s" "take n (ps_requests s)"]
  have s4: "ps_clients s4 = qmap_insert h c' (ps_clients s3)" "ps_requests s4 = drop n (ps_requests s)"
      "ps_backoff s4 = backoff_reset (ps_backoff s)" "\<not> ps_addingClient s4" "ps_timers s4 = ps_timers s"
      "ps_stopping s4 = ps_stopping s" "ps_connecting s4 = ps_connecting s - 1"
      "ps_debug s4 ''PubSub topic backlog'' = ps_debug s ''PubSub topic backlog'' - int n"
    using acc by (simp_all add: s4_def s3_def state_ops conn_done_def)
  have keep: "ps_clients s' = ps_clients s4" "ps_requests s' = ps_requests s4" "ps_debug s' = ps_debug s4"
      "ps_backoff s' = ps_backoff s4" "ps_stopping s' = ps_stopping s4" "ps_timers s' = ps_timers s4"
    by (simp_all add: s'_def addClient_keeps)
  have drop: "drop n (ps_requests s) = drop MAX_LISTENS (ps_requests s)"
    by (auto simp: n_def min_def)
  have "client_topics (ps_clients s4) = client_topics (ps_clients s) + mset (take n (ps_requests s))"
  proof -
    have "client_topics (ps_clients s3) = client_topics (ps_clients s)"
      using client_topics_new [OF h, of c] c(3) cl3 by simp
    moreover have "map_of (ps_clients s3) h = Some c" using cl3 clients_ok_qmap [OF ok] by simp
    ultimately show ?thesis
      using client_topics_update [OF clients_ok_qmap [OF ok3], of h c c'] s4(1) ok'(2) c(3) by simp
  qed
  then have topics: "all_topics s' = all_topics s"
    using keep s4(2) by (simp add: all_topics_def add.assoc flip: mset_append)
  have wait: "connOk \<Longrightarrow> waiting_ok s'"
  proof -
    assume k: connOk
    have "ps_connecting s4 = 0" using inv k s4(7) by (simp add: ps_inv_def waiting_ok_def split: if_splits)
    then show "waiting_ok s'"
      using k s4(4) waiting_addClient [of s4 "ps_requests s4"] addClient_keeps(2) [of True s4]
      by (auto simp: s'_def waiting_ok_def)
  qed
  have dom: "\<forall>k. map_of (ps_clients s') k \<noteq> None \<longrightarrow> k = h \<or> map_of (ps_clients s) k \<noteq> None"
    using keep s4(1) cl3 clients_ok_qmap [OF ok] clients_ok_qmap [OF ok3] by auto
  have "clients_ok (ps_clients s')" using ok3 ok'(1) keep s4(1) by auto
  then have "ps_inv connOk s'"
    using inv keep s4 wait by (auto simp: ps_inv_def backoff_ok_def backoff_reset_def n_def)
  then show ?thesis using opened topics keep s4(2,5) drop dom by simp
qed

lemma backoff_next_ok:
  assumes b: "backoff_ok b"
  shows "\<exists>d b'. backoff_next 5 b = Some (d, b') \<and> backoff_ok b'"
proof -
  have s: "1 \<le> unat (step' b)" "unat (step' b) \<le> 5"
    using b by (auto simp: backoff_ok_def word_le_nat_alt)
  have "unat (step' b - 1) = unat (step' b) - 1"
    using b by (simp add: backoff_ok_def unat_sub)
  then have "unat (step' b - 1) < 31" using s by simp
  moreover have "unat (step' b + 1) = unat (step' b) + 1"
    using s by (simp add: unat_word_ariths)
  then have "1 \<le> step' b + 1" by (simp add: word_le_nat_alt)
  ultimately show ?thesis
    by (auto simp: backoff_next_def backoff_ok_def Let_def)
qed

lemma fail_spec:
  assumes inv: "ps_inv connOk s" and c: "0 < ps_connecting s"
  shows "\<exists>s'. onConnectionFail (conn_done s) = Some s' \<and> ps_inv connOk s' \<and> all_topics s' = all_topics s"
proof -
  have "backoff_ok (ps_backoff s)" using inv by (simp add: ps_inv_def)
  from backoff_next_ok [OF this] obtain d b where b: "backoff_next 5 (ps_backoff s) = Some (d, b)" "backoff_ok b"
    by auto
  then show ?thesis using inv c
    by (auto simp: onConnectionFail_def conn_done_def Let_def debug_add_def ps_inv_def all_topics_def waiting_ok_def)
qed

lemma close_spec:
  assumes inv: "ps_inv connOk s" and h: "map_of (ps_clients s) h = Some c"
  shows "\<exists>s'. onConnectionClose connOk h s = Some s' \<and> ps_inv connOk s' \<and> all_topics s' = all_topics s"
proof -
  have ok: "clients_ok (ps_clients s)" using inv by (simp add: ps_inv_def)
  have c: "client_ok c" by (rule clients_okD [OF ok h])
  define s2 where "s2 = (debug_add ''PubSub connections'' (-1) s)\<lparr>ps_clients := qmap_remove h (ps_clients s)\<rparr>"
  have inv2: "ps_inv connOk s2" using inv ok
    by (auto simp: s2_def ps_inv_def debug_add_def waiting_ok_def)
  have "all_topics s2 + mset (listeners c) = all_topics s"
    using client_topics_remove [OF clients_ok_qmap [OF ok] h]
    by (simp add: all_topics_def s2_def debug_add_def ac_simps)
  moreover have "onConnectionClose connOk h s = Some (relisten connOk (listeners c) s2)"
    using h c inv by (simp add: onConnectionClose_def s2_def Let_def debug_add_def client_stop_def client_ok_def ps_inv_def)
  ultimately show ?thesis using relisten_spec [OF inv2, of "listeners c"] by auto
qed

lemma put_same_topics:
  assumes "ps_inv connOk s" "map_of (ps_clients s) h = Some c" "client_ok c'" "listeners c' = listeners c"
  shows "ps_inv connOk (put_client h c' (emit es s)) \<and> all_topics (put_client h c' (emit es s)) = all_topics s"
  using assms client_topics_update [of "ps_clients s" h c c']
  by (auto simp: ps_inv_def put_client_def emit_def all_topics_def waiting_ok_def clients_ok_qmap)

lemma emit_nothing: "emit [] s = s"
  by (simp add: emit_def)

lemma pong_spec:
  assumes "ps_inv connOk s" "onPong h s = Some s'"
  shows "ps_inv connOk s' \<and> all_topics s' = all_topics s"
proof -
  obtain c c' where c: "map_of (ps_clients s) h = Some c" "client_handlePong c = Some c'" "s' = put_client h c' s"
    using assms(2) by (auto simp: onPong_def split: option.splits)
  have "client_ok c" using assms(1) c(1) by (auto simp: ps_inv_def intro: clients_okD)
  then have "client_ok c'" "listeners c' = listeners c"
    using c(2) by (auto simp: client_handlePong_def client_ok_def split: if_splits)
  from put_same_topics [OF assms(1) c(1) this, of "[]"] c(3) show ?thesis by (simp add: emit_nothing)
qed

lemma ping_spec:
  assumes "ps_inv connOk s" "onPingTimer sendOk h s = Some s'"
  shows "ps_inv connOk s' \<and> all_topics s' = all_topics s"
proof (cases "map_of (ps_clients s) h")
  case None
  then show ?thesis using assms by (simp add: onPingTimer_def)
next
  case (Some c)
  obtain es c' where c: "client_pingTimer sendOk c = Some (es, c')"
      "s' = put_client h c' (emit (map (ClientEffect h) es) s)"
    using assms(2) Some by (auto simp: onPingTimer_def)
  have "client_ok c" using assms(1) Some by (auto simp: ps_inv_def intro: clients_okD)
  then have "client_ok c'" "listeners c' = listeners c"
    using c(1) by (auto simp: client_pingTimer_def client_ping_def client_ok_def split: if_splits)
  from put_same_topics [OF assms(1) Some this] c(2) show ?thesis by simp
qed

lemma backoff_timer_spec:
  assumes "ps_inv connOk s" "0 < ps_timers s"
  shows "ps_inv connOk (onBackoffTimer connOk s) \<and> all_topics (onBackoffTimer connOk s) = all_topics s"
proof -
  have "waiting_ok s \<Longrightarrow> waiting_ok (addClient True (s\<lparr>ps_timers := ps_timers s - 1\<rparr>))"
    using waiting_addClient [of "s\<lparr>ps_timers := ps_timers s - 1\<rparr>" "ps_requests s"]
      addClient_keeps(2) [of True "s\<lparr>ps_timers := ps_timers s - 1\<rparr>"]
    by (simp add: waiting_ok_def)
  then show ?thesis using assms
    by (auto simp: onBackoffTimer_def ps_inv_def all_topics_def addClient_keeps)
qed

lemma response_spec:
  assumes "ps_inv connOk s"
  shows "ps_inv connOk (handleResponse alive err n s) \<and> all_topics (handleResponse alive err n s) = all_topics s"
  using assms
  by (auto simp: handleResponse_def handleListenResponse_def handleUnlistenResponse_def debug_add_def Let_def
      ps_inv_def all_topics_def waiting_ok_def split: option.splits)

section \<open>Runs\<close>

text \<open>What a step does to the topics; only listening and unlistening change them.\<close>

definition topics_after :: "ps_event \<Rightarrow> pubsub \<Rightarrow> qstring multiset" where
  "topics_after e s = (case e of
     Listen t \<Rightarrow> add_mset t (all_topics s)
   | Unlisten pre \<Rightarrow> filter_mset (\<lambda>t. \<not> prefix pre t) (client_topics (ps_clients s)) + mset (ps_requests s)
   | _ \<Rightarrow> all_topics s)"

lemma ps_step_spec:
  assumes "ps_step connOk s e s'" "ps_inv connOk s"
  shows "ps_inv connOk s' \<and> all_topics s' = topics_after e s"
  using assms(1)
proof (cases rule: ps_step.cases)
  case (opened h sendOk)
  then show ?thesis using open_spec [OF assms(2), of h sendOk]
    by (auto simp: topics_after_def conn_done_def)
next
  case failed
  then show ?thesis using fail_spec [OF assms(2)] by (auto simp: topics_after_def conn_done_def)
next
  case (closed h)
  then obtain c where "map_of (ps_clients s) h = Some c"
    by (auto simp: onConnectionClose_def debug_add_def Let_def split: option.splits)
  from close_spec [OF assms(2) this] closed show ?thesis by (auto simp: topics_after_def)
qed (use assms(2) in \<open>auto simp: topics_after_def listenToTopic_spec unlistenPrefix_spec backoff_timer_spec
      response_spec dest: pong_spec [OF assms(2)] ping_spec [OF assms(2)]\<close>)

lemma PubSub_inv: "ps_inv connOk PubSub"
  by (simp add: ps_inv_def PubSub_def clients_ok_def backoff_ok_def waiting_ok_def ExponentialBackoff_def)

lemma ps_run_inv: "ps_run connOk es s \<Longrightarrow> ps_inv connOk s"
  by (induction rule: ps_run.induct) (auto simp: PubSub_inv dest: ps_step_spec)

text \<open>
  C1: no topic is lost or doubled by the connections: in every reachable state, opening, failing
  and closing connections, pings and responses leave the topics (subscribed or waiting) as they
  are; listening adds one, and unlistening removes those with the prefix from the clients.
\<close>

theorem pubsub_conserves_topics:
  assumes "ps_run connOk es s" "ps_step connOk s e s'"
  shows "all_topics s' = topics_after e s"
  using ps_step_spec [OF assms(2) ps_run_inv [OF assms(1)]] by simp

text \<open>
  In every reachable state, every connection has at most 50 topics and its 16-bit counter is
  the number of its listeners (so it never wraps around), every client is started, and the
  backlog counter is the number of waiting topics.
\<close>

theorem pubsub_limits:
  assumes "ps_run connOk es s" "map_of (ps_clients s) h = Some c"
  shows "length (listeners c) \<le> 50 \<and> unat (numListens c) = length (listeners c) \<and> started c \<and>
    ps_debug s ''PubSub topic backlog'' = int (length (ps_requests s))"
proof -
  have "ps_inv connOk s" by (rule ps_run_inv [OF assms(1)])
  then have "client_ok c" "ps_debug s ''PubSub topic backlog'' = int (length (ps_requests s))"
    using assms(2) by (auto simp: ps_inv_def intro: clients_okD)
  then show ?thesis by (simp add: client_ok_def MAX_LISTENS_def)
qed

text \<open>
  The asserts of the connection handlers hold: in every reachable state, opening a connection
  with a new handle, failing to, and closing a known one run to their end.
\<close>

theorem pubsub_handlers_defined:
  assumes "ps_run connOk es s"
  shows "(map_of (ps_clients s) h = None \<longrightarrow> onConnectionOpen connOk sendOk h (conn_done s) \<noteq> None) \<and>
    (0 < ps_connecting s \<longrightarrow> onConnectionFail (conn_done s) \<noteq> None) \<and>
    (map_of (ps_clients s) h \<noteq> None \<longrightarrow> onConnectionClose connOk h s \<noteq> None)"
proof -
  have i: "ps_inv connOk s" by (rule ps_run_inv [OF assms])
  show ?thesis
    using open_spec [OF i, of h sendOk] fail_spec [OF i] close_spec [OF i, of h] by fastforce
qed

text \<open>A run that the witnesses use: one topic is requested and its connection opens.\<close>

lemma sample_run:
  "\<exists>s s'. ps_run True [Listen ''whispers.1''] s \<and> ps_step True s (Opened 7) s' \<and> map_of (ps_clients s) 7 = None \<and>
     0 < ps_connecting s \<and> all_topics s = {#''whispers.1''#}"
proof -
  define s where "s = listenToTopic True ''whispers.1'' PubSub"
  have r: "ps_run True ([] @ [Listen ''whispers.1'']) s"
    unfolding s_def by (rule ps_run.step [OF ps_run.init ps_step.listen])
  have s: "ps_clients s = []" "ps_connecting s = 1" "ps_requests s = [''whispers.1'']"
    by (simp_all add: s_def listenToTopic_def ps_listen_def tryListen_def PubSub_def addClient_def emit_def
        debug_add_def Let_def)
  have "ps_inv True s" by (rule ps_run_inv [OF r])
  from open_spec [OF this, of 7 True] s(1) obtain s' where
    "onConnectionOpen True True 7 (conn_done s) = Some s'" by auto
  then have "ps_step True s (Opened 7) s'"
    using s by (intro ps_step.opened [where sendOk = True]) (simp_all add: conn_done_def)
  then show ?thesis using r s by (auto simp: all_topics_def)
qed

theorem pubsub_conserves_topics_witness: "\<exists>s s'. ps_step True s (Opened 7) s' \<and> all_topics s' = {#''whispers.1''#}"
proof -
  obtain s s' where s: "ps_run True [Listen ''whispers.1''] s" "ps_step True s (Opened 7) s'"
      "all_topics s = {#''whispers.1''#}"
    using sample_run by blast
  from pubsub_conserves_topics [OF s(1,2)] s(2,3) show ?thesis by (auto simp: topics_after_def)
qed

lemma sample_run_open:
  "\<exists>s c. ps_run True ([Listen ''whispers.1''] @ [Opened 7]) s \<and> map_of (ps_clients s) 7 = Some c"
proof -
  obtain s s' where s: "ps_run True [Listen ''whispers.1''] s" "ps_step True s (Opened 7) s'"
    using sample_run by blast
  have "map_of (ps_clients s') 7 \<noteq> None"
  proof -
    obtain sendOk where o: "onConnectionOpen True sendOk 7 (conn_done s) = Some s'"
      using s(2) by (cases rule: ps_step.cases) (auto simp: conn_done_def)
    have ok: "qmap_ok (ps_clients s)" using ps_run_inv [OF s(1)] by (simp add: ps_inv_def clients_ok_def)
    show ?thesis using o ok
      by (auto simp: onConnectionOpen_def Let_def state_ops conn_done_def accept_listen_def addClient_keeps
          split: option.splits if_splits)
  qed
  then show ?thesis using ps_run.step [OF s] by auto
qed

theorem pubsub_limits_witness: "\<exists>(s :: pubsub) (c :: pubsub_client). map_of (ps_clients s) 7 = Some c \<and> length (listeners c) \<le> 50"
proof -
  obtain s c where s: "ps_run True ([Listen ''whispers.1''] @ [Opened 7]) s" "map_of (ps_clients s) 7 = Some c"
    using sample_run_open by blast
  from pubsub_limits [OF s] have "length (listeners c) \<le> 50" by simp
  with s(2) show ?thesis by (intro exI [of _ s] exI [of _ c]) simp
qed

theorem pubsub_handlers_defined_witness: "onConnectionOpen True True 7 (conn_done PubSub) \<noteq> None"
  using pubsub_handlers_defined [OF ps_run.init, of 7 True True] by (simp add: PubSub_def)

section \<open>Progress\<close>

lemma connecting_enabled:
  assumes "ps_inv True s" "ps_requests s \<noteq> []" "finite (dom (map_of (ps_clients s)))"
  shows "ps_addingClient s \<or> 0 < ps_timers s"
  using assms by (auto simp: ps_inv_def waiting_ok_def)

lemma drain_step:
  assumes run: "ps_run True es s" and req: "ps_requests s \<noteq> []"
  shows "\<exists>es' s'. ps_run True (es @ es') s' \<and> set es' \<subseteq> insert BackoffTimer (range Opened) \<and>
    all_topics s' = all_topics s \<and> ps_requests s' = drop 50 (ps_requests s)"
proof -
  have i: "ps_inv True s" by (rule ps_run_inv [OF run])
  have "\<exists>h. h \<notin> fst ` set (ps_clients s)" by (rule ex_new_if_finite) simp_all
  then obtain h where h: "map_of (ps_clients s) h = None" by (auto simp: map_of_eq_None_iff)
  have open_now: "\<exists>s'. ps_run True (es' @ [Opened h]) s' \<and> all_topics s' = all_topics t \<and>
      ps_requests s' = drop 50 (ps_requests t)"
    if t: "ps_run True es' t" "ps_addingClient t" "ps_clients t = ps_clients s" for es' t
  proof -
    have it: "ps_inv True t" by (rule ps_run_inv [OF t(1)])
    have ht: "map_of (ps_clients t) h = None" using h t(3) by simp
    obtain s' where s': "onConnectionOpen True True h (conn_done t) = Some s'" "all_topics s' = all_topics t"
        "ps_requests s' = drop MAX_LISTENS (ps_requests t)"
      using open_spec [OF it ht, of True] by auto
    have "0 < ps_connecting t" using it t(2) by (simp add: ps_inv_def waiting_ok_def)
    then have "ps_step True t (Opened h) s'"
      using s'(1) ht by (intro ps_step.opened [where sendOk = True]) (simp_all add: conn_done_def)
    from ps_run.step [OF t(1) this] s' show ?thesis by (auto simp: MAX_LISTENS_def)
  qed
  show ?thesis
  proof (cases "ps_addingClient s")
    case True
    obtain s' where s': "ps_run True (es @ [Opened h]) s'" "all_topics s' = all_topics s"
        "ps_requests s' = drop 50 (ps_requests s)"
      using open_now [OF run True refl] by auto
    show ?thesis
      by (rule exI [of _ "[Opened h]"], rule exI [of _ s']) (use s' in simp)
  next
    case False
    then have tm: "0 < ps_timers s" using i req by (auto simp: ps_inv_def waiting_ok_def)
    let ?t = "onBackoffTimer True s"
    have r: "ps_run True (es @ [BackoffTimer]) ?t"
      by (rule ps_run.step [OF run ps_step.backoffTimer [OF tm]])
    have t: "ps_addingClient ?t" "ps_clients ?t = ps_clients s" "ps_requests ?t = ps_requests s" "all_topics ?t = all_topics s"
      by (simp_all add: onBackoffTimer_def addClient_keeps all_topics_def)
    obtain s' where s': "ps_run True ((es @ [BackoffTimer]) @ [Opened h]) s'" "all_topics s' = all_topics s"
        "ps_requests s' = drop 50 (ps_requests s)"
      using open_now [OF r t(1,2)] t by auto
    have e: "ps_run True (es @ [BackoffTimer, Opened h]) s'" using s'(1) by simp
    show ?thesis
      by (rule exI [of _ "[BackoffTimer, Opened h]"], rule exI [of _ s']) (use e s'(2,3) in simp)
  qed
qed



section \<open>What goes wrong\<close>

text \<open>
  If \<open>get_connection\<close> fails once, \<open>addingClient\<close> stays set although nothing is being connected:
  the topic waits, no timer is pending, and later calls of \<open>addClient\<close> return at once.
\<close>

lemma addingClient_stuck:
  "let s = listenToTopic False t PubSub
   in ps_requests s = [t] \<and> ps_addingClient s \<and> ps_connecting s = 0 \<and> ps_timers s = 0 \<and> addClient True s = s"
  by (simp add: listenToTopic_def ps_listen_def tryListen_def PubSub_def addClient_def debug_add_def Let_def)

text \<open>
  A topic that still waits is not seen by \<open>isListeningToTopic\<close>, so asking for it twice subscribes it
  twice; and unlistening does not remove waiting topics.
\<close>

lemma waiting_topics_overlooked:
  "\<not> isListeningToTopic t (listenToTopic True t PubSub)"
  "ps_requests (unlistenPrefix p (listenToTopic True t PubSub)) = [t]"
  by (simp_all add: isListeningToTopic_def unlistenPrefix_def listenToTopic_def ps_listen_def tryListen_def
      PubSub_def addClient_def emit_def debug_add_def Let_def)

text \<open>A PONG that answers no PING violates the assert of \<open>handlePong\<close>.\<close>

lemma unsolicited_pong: "\<not> awaitingPong c \<Longrightarrow> client_handlePong c = None"
  by (simp add: client_handlePong_def)

end
