(* ===== verification/Text_Utils.thy ===== *)
theory Text_Utils
  imports Prelude "HOL-Library.Word"
begin

text \<open>
  Text helpers: \<open>util/SplitCommand.cpp\<close>, \<open>util/FormatTime.cpp\<close>, \<open>util/IrcHelpers.hpp\<close>
  (\<open>parseTagString\<close>), \<open>util/Twitch.cpp\<close>, \<open>util/FuzzyConvert.cpp\<close> and \<open>util/Helpers.hpp/.cpp\<close>. Character
  classes and number parsing of Qt are parameters.
\<close>

section \<open>splitCommand\<close>

record split_state =
  sp_args :: "qstring list"
  sp_tmp :: qstring
  quoteCount :: nat
  inQuote :: bool

abbreviation dquote :: char where
  "dquote \<equiv> CHR 0x22"

definition split_step :: "(char \<Rightarrow> bool) \<Rightarrow> char \<Rightarrow> split_state \<Rightarrow> split_state" where
  "split_step isSpace c s =
     (if c = dquote then
        (let s1 = s\<lparr>quoteCount := Suc (quoteCount s)\<rparr>
         in if quoteCount s1 = 3 then s1\<lparr>quoteCount := 0, sp_tmp := sp_tmp s1 @ [c]\<rparr> else s1)
      else
        (let s1 = (if quoteCount s \<noteq> 0
                   then (if quoteCount s = 1 then s\<lparr>inQuote := \<not> inQuote s\<rparr> else s)\<lparr>quoteCount := 0\<rparr>
                   else s)
         in if \<not> inQuote s1 \<and> isSpace c
            then (if sp_tmp s1 \<noteq> [] then s1\<lparr>sp_args := sp_args s1 @ [sp_tmp s1], sp_tmp := []\<rparr> else s1)
            else s1\<lparr>sp_tmp := sp_tmp s1 @ [c]\<rparr>))"

definition splitCommand :: "(char \<Rightarrow> bool) \<Rightarrow> qstring \<Rightarrow> qstring list" where
  "splitCommand isSpace command =
     (let s = fold (split_step isSpace) command \<lparr>sp_args = [], sp_tmp = [], quoteCount = 0, inQuote = False\<rparr>
      in if sp_tmp s \<noteq> [] then sp_args s @ [sp_tmp s] else sp_args s)"

text \<open>Quoting an argument: surrounding quotes, and three quotes for each quote in it.\<close>

definition quote_arg :: "qstring \<Rightarrow> qstring" where
  "quote_arg a = dquote # concat (map (\<lambda>c. if c = dquote then [dquote, dquote, dquote] else [c]) a) @ [dquote]"

fun quote_args :: "qstring list \<Rightarrow> qstring" where
  "quote_args [] = []"
| "quote_args [a] = quote_arg a"
| "quote_args (a # as) = quote_arg a @ '' '' @ quote_args as"

text \<open>Inside a quoted argument: the opening quote is still counted, or the quote is open.\<close>

definition inside_quote :: "split_state \<Rightarrow> bool" where
  "inside_quote s \<longleftrightarrow> quoteCount s = 1 \<and> \<not> inQuote s \<or> quoteCount s = 0 \<and> inQuote s"

lemma split_body:
  "inside_quote s \<Longrightarrow> \<exists>s'. fold (split_step sp) (concat (map (\<lambda>c. if c = dquote then [dquote, dquote, dquote] else [c]) a)) s = s'
     \<and> inside_quote s' \<and> sp_tmp s' = sp_tmp s @ a \<and> sp_args s' = sp_args s"
proof (induction a arbitrary: s)
  case (Cons c a)
  define s1 where "s1 = fold (split_step sp) (if c = dquote then [dquote, dquote, dquote] else [c]) s"
  have "inside_quote s1 \<and> sp_tmp s1 = sp_tmp s @ [c] \<and> sp_args s1 = sp_args s"
    using Cons.prems by (auto simp: s1_def inside_quote_def split_step_def Let_def)
  moreover have "fold (split_step sp) (concat (map (\<lambda>c. if c = dquote then [dquote, dquote, dquote] else [c]) (c # a))) s
      = fold (split_step sp) (concat (map (\<lambda>c. if c = dquote then [dquote, dquote, dquote] else [c]) a)) s1"
    by (simp add: s1_def)
  ultimately show ?case using Cons.IH [of s1] by simp
qed simp

text \<open>After a quoted argument: the closing quote is not yet acted on.\<close>

definition after_quote :: "split_state \<Rightarrow> bool" where
  "after_quote s \<longleftrightarrow> quoteCount s = 2 \<and> \<not> inQuote s \<or> quoteCount s = 1 \<and> inQuote s"

lemma split_arg:
  assumes "quoteCount s = 0" "\<not> inQuote s"
  shows "\<exists>s'. fold (split_step sp) (quote_arg a) s = s' \<and> after_quote s' \<and>
    sp_tmp s' = sp_tmp s @ a \<and> sp_args s' = sp_args s"
proof -
  have i: "inside_quote (split_step sp dquote s)" "sp_tmp (split_step sp dquote s) = sp_tmp s"
      "sp_args (split_step sp dquote s) = sp_args s"
    using assms by (simp_all add: split_step_def inside_quote_def Let_def)
  obtain s2 where s2: "fold (split_step sp) (concat (map (\<lambda>c. if c = dquote then [dquote, dquote, dquote] else [c]) a))
      (split_step sp dquote s) = s2" "inside_quote s2" "sp_tmp s2 = sp_tmp s @ a" "sp_args s2 = sp_args s"
    using split_body [OF i(1), of sp a] i by auto
  have "fold (split_step sp) (quote_arg a) s = split_step sp dquote s2"
    using s2(1) by (simp add: quote_arg_def)
  moreover have "after_quote (split_step sp dquote s2)" "sp_tmp (split_step sp dquote s2) = sp_tmp s2"
      "sp_args (split_step sp dquote s2) = sp_args s2"
    using s2(2) by (auto simp: split_step_def inside_quote_def after_quote_def Let_def)
  ultimately show ?thesis using s2 by simp
qed

lemma split_space:
  assumes "after_quote s" "sp_tmp s \<noteq> []" "sp (CHR '' '')"
  shows "split_step sp (CHR '' '') s =
    \<lparr>sp_args = sp_args s @ [sp_tmp s], sp_tmp = [], quoteCount = 0, inQuote = False\<rparr>"
  using assms by (auto simp: split_step_def after_quote_def Let_def)

text \<open>
  Quoting the arguments of a command and splitting it again gives the arguments todo, whatever
  they contain: blanks are kept inside quotes, and three quotes stand for one, also where they meet
  the surrounding quotes.
\<close>

theorem splitCommand_quote:
  assumes "isSpace (CHR '' '')" "[] \<notin> set as"
  shows "splitCommand isSpace (quote_args as) = as"
proof -
  have gen: "(let s = fold (split_step isSpace) (quote_args as) \<lparr>sp_args = done', sp_tmp = [], quoteCount = 0, inQuote = False\<rparr>
      in if sp_tmp s \<noteq> [] then sp_args s @ [sp_tmp s] else sp_args s) = done' @ as" for done'
    using assms(2)
  proof (induction as arbitrary: done' rule: quote_args.induct)
    case 1
    then show ?case by simp
  next
    case (2 a)
    then show ?case
      using split_arg [of "\<lparr>sp_args = done', sp_tmp = [], quoteCount = 0, inQuote = False\<rparr>" isSpace a]
      by (auto simp: Let_def)
  next
    case (3 a b as)
    have a: "a \<noteq> []" using 3(2) by auto
    obtain s where s: "fold (split_step isSpace) (quote_arg a) \<lparr>sp_args = done', sp_tmp = [], quoteCount = 0, inQuote = False\<rparr> = s"
        "after_quote s" "sp_tmp s = a" "sp_args s = done'"
      using split_arg [of "\<lparr>sp_args = done', sp_tmp = [], quoteCount = 0, inQuote = False\<rparr>" isSpace a] by auto
    have "fold (split_step isSpace) (quote_args (a # b # as)) \<lparr>sp_args = done', sp_tmp = [], quoteCount = 0, inQuote = False\<rparr>
        = fold (split_step isSpace) (quote_args (b # as))
            \<lparr>sp_args = done' @ [a], sp_tmp = [], quoteCount = 0, inQuote = False\<rparr>"
      using split_space [OF s(2), of isSpace] s a assms(1) by simp
    then show ?case using 3(1) [of "done' @ [a]"] 3(2) by simp
  qed
  show ?thesis using gen [of "[]"] by (simp add: splitCommand_def)
qed

theorem splitCommand_quote_witness:
  "splitCommand (\<lambda>c. c = CHR '' '') (quote_args [''a b'', [dquote], ''/x'']) = [''a b'', [dquote], ''/x'']"
  by (rule splitCommand_quote) simp_all

section \<open>parseTagString\<close>

text \<open>
  The tag value as UTF-16 code units; \<open>QChar::cell\<close> is the low byte. \<open>replace\<close> and \<open>remove\<close> at
  position \<open>i\<close> shorten the string by one; the loop runs at most \<open>length\<close> times.
\<close>

type_synonym utf16 = "16 word list"

definition cell :: "16 word \<Rightarrow> nat" where
  "cell c = unat c mod 256"

function parseTagString_loop :: "nat \<Rightarrow> nat \<Rightarrow> utf16 \<Rightarrow> utf16" where
  "parseTagString_loop i len output =
     (if Suc i < len then
        (if output ! i = 92 then
           (let c = output ! Suc i;
                put = (\<lambda>x. take i output @ x # drop (i + 2) output);
                output' =
                  (if cell c = 110 then put 10
                   else if cell c = 114 then put 13
                   else if cell c = 115 then put 32
                   else if cell c = 92 then put 92
                   else if cell c = 58 then put 59
                   else take i output @ drop (Suc i) output)
            in parseTagString_loop (Suc i) (len - 1) output')
         else parseTagString_loop (Suc i) len output)
      else output)"
  by auto
termination
  by (relation "measure (\<lambda>(i, len, output). len - i)") (auto simp: Let_def)

declare parseTagString_loop.simps [simp del]

definition parseTagString :: "utf16 \<Rightarrow> utf16" where
  "parseTagString input = parseTagString_loop 0 (length input) input"

text \<open>The reference: unescape from left to right; a single backslash at the end stays.\<close>

definition unescape_char :: "16 word \<Rightarrow> 16 word" where
  "unescape_char c =
     (if cell c = 110 then 10 else if cell c = 114 then 13 else if cell c = 115 then 32
      else if cell c = 92 then 92 else if cell c = 58 then 59 else c)"

fun unescape_tag :: "utf16 \<Rightarrow> utf16" where
  "unescape_tag (x # c # rest) =
     (if x = 92 then unescape_char c # unescape_tag rest else x # unescape_tag (c # rest))"
| "unescape_tag xs = xs"

definition escape_char :: "16 word \<Rightarrow> utf16" where
  "escape_char c =
     (if c = 59 then [92, 58] else if c = 32 then [92, 115] else if c = 92 then [92, 92]
      else if c = 13 then [92, 114] else if c = 10 then [92, 110] else [c])"

definition escape_tag :: "utf16 \<Rightarrow> utf16" where
  "escape_tag xs = concat (map escape_char xs)"

lemma parseTagString_loop_spec:
  "parseTagString_loop (length seen) (length seen + length todo) (seen @ todo) = seen @ unescape_tag todo"
proof (induction todo arbitrary: seen rule: unescape_tag.induct)
  case (1 x c rest)
  show ?case
  proof (cases "x = 92")
    case True
    have "parseTagString_loop (length seen) (length seen + length (x # c # rest)) (seen @ x # c # rest) =
        parseTagString_loop (length (seen @ [unescape_char c])) (length (seen @ [unescape_char c]) + length rest)
          ((seen @ [unescape_char c]) @ rest)"
      using True by (subst parseTagString_loop.simps) (simp add: Let_def unescape_char_def nth_append)
    then show ?thesis using 1(1) [OF True, of "seen @ [unescape_char c]"] True by simp
  next
    case False
    have "parseTagString_loop (length seen) (length seen + length (x # c # rest)) (seen @ x # c # rest) =
        parseTagString_loop (length (seen @ [x])) (length (seen @ [x]) + length (c # rest))
          ((seen @ [x]) @ c # rest)"
      using False by (subst parseTagString_loop.simps) (simp add: nth_append)
    then show ?thesis using 1(2) [OF False, of "seen @ [x]"] False by simp
  qed
qed (subst parseTagString_loop.simps; simp)+

lemma unescape_escape_tag: "unescape_tag (escape_tag xs) = xs"
proof (induction xs)
  case (Cons c xs)
  show ?case
  proof (cases "c \<in> {59, 32, 92, 13, 10}")
    case True
    then show ?thesis using Cons by (auto simp: escape_tag_def escape_char_def unescape_char_def cell_def)
  next
    case False
    then have "escape_tag (c # xs) = c # escape_tag xs" "c \<noteq> 92"
      by (simp_all add: escape_tag_def escape_char_def)
    then show ?thesis using Cons by (cases "escape_tag xs") auto
  qed
qed (simp add: escape_tag_def)

text \<open>
  The in-place loop of \<open>parseTagString\<close>, whose string shrinks while it is scanned, is the
  left-to-right unescaping of IRCv3 tag values, and undoes the escaping of every string.
\<close>

theorem parseTagString_unescapes:
  "parseTagString input = unescape_tag input \<and> parseTagString (escape_tag value) = value"
  using parseTagString_loop_spec [of "[]"] by (simp add: parseTagString_def unescape_escape_tag)

text \<open>
  Only the low byte of the escaped character is looked at: a backslash before U+016E (whose low
  byte is that of \<open>n\<close>) becomes a line feed.
\<close>

lemma parseTagString_low_byte: "parseTagString [92, 0x16E] = [10]"
  using parseTagString_loop_spec [of "[]" "[92, 0x16E]"]
  by (simp add: parseTagString_def unescape_char_def cell_def)

section \<open>formatTime\<close>

definition appendDuration :: "int \<Rightarrow> char \<Rightarrow> qstring \<Rightarrow> qstring" where
  "appendDuration n unit out = (if out \<noteq> [] then out @ '' '' else out) @ show_int n @ [unit]"

text \<open>The durations are C++ \<open>int\<close>s; \<open>/\<close> and \<open>%\<close> truncate.\<close>

definition formatTime :: "int \<Rightarrow> qstring" where
  "formatTime totalSeconds =
     (let quot = (\<lambda>a b :: int. sgn a * (\<bar>a\<bar> div b));
          rem = (\<lambda>a b. a - b * quot a b);
          seconds = rem totalSeconds 60;
          timeoutMinutes = quot totalSeconds 60;
          minutes = rem timeoutMinutes 60;
          timeoutHours = quot timeoutMinutes 60;
          hours = rem timeoutHours 24;
          days = quot timeoutHours 24;
          res0 = (if days > 0 then appendDuration days (CHR ''d'') [] else []);
          res1 = (if hours > 0 then appendDuration hours (CHR ''h'') res0 else res0);
          res2 = (if minutes > 0 then appendDuration minutes (CHR ''m'') res1 else res1)
      in (if seconds > 0 then appendDuration seconds (CHR ''s'') res2 else res2))"

definition formatTime_string :: "(qstring \<Rightarrow> int option) \<Rightarrow> qstring \<Rightarrow> qstring" where
  "formatTime_string textToInt s =
     (case textToInt s of Some totalSeconds \<Rightarrow> formatTime totalSeconds | None \<Rightarrow> ''n/a'')"

text \<open>Reading a duration: numbers, each followed by its unit.\<close>

definition char_digit :: "char \<Rightarrow> int" where
  "char_digit c = int (of_char c) - 48"

definition unit_seconds :: "char \<Rightarrow> int" where
  "unit_seconds c =
     (if c = CHR ''d'' then 86400 else if c = CHR ''h'' then 3600 else if c = CHR ''m'' then 60
      else if c = CHR ''s'' then 1 else 0)"

fun read_duration :: "int \<Rightarrow> qstring \<Rightarrow> int" where
  "read_duration n [] = 0"
| "read_duration n (c # cs) =
     (if is_digit c then read_duration (10 * n + char_digit c) cs
      else n * unit_seconds c + read_duration 0 cs)"

lemma char_digit_digit_char: "d < 10 \<Longrightarrow> char_digit (digit_char d) = int d"
  by (simp add: char_digit_def digit_char_def)

lemma read_show_nat: "read_duration 0 (show_nat n @ cs) = read_duration (int n) cs"
proof (induction n arbitrary: cs rule: show_nat.induct)
  case (1 n)
  show ?case
  proof (cases "n < 10")
    case True
    then show ?thesis by (subst show_nat.simps) (simp add: is_digit_digit_char char_digit_digit_char)
  next
    case False
    have "10 * int (n div 10) + int (n mod 10) = int n"
      by (simp add: zdiv_int zmod_int)
    then show ?thesis using 1 [OF False, of "digit_char (n mod 10) # cs"] False
      by (subst show_nat.simps) (simp add: is_digit_digit_char char_digit_digit_char)
  qed
qed

lemma read_show_int: "0 \<le> i \<Longrightarrow> read_duration 0 (show_int i @ c # cs) =
    (if is_digit c then read_duration (10 * i + char_digit c) cs else i * unit_seconds c + read_duration 0 cs)"
  by (simp add: show_int_def read_show_nat)

lemma duration_chars [simp]: "\<not> is_digit CHR ''d''" "\<not> is_digit CHR ''h''" "\<not> is_digit CHR ''m''"
    "\<not> is_digit CHR ''s''" "\<not> is_digit CHR '' ''"
  by (simp_all add: is_digit_def)

text \<open>Text that ends a unit: what follows is read from zero.\<close>

definition unit_end :: "qstring \<Rightarrow> bool" where
  "unit_end out \<longleftrightarrow> out = [] \<or> \<not> is_digit (last out)"

lemma read_append:
  "out \<noteq> [] \<Longrightarrow> \<not> is_digit (last out) \<Longrightarrow> read_duration n (out @ cs) = read_duration n out + read_duration 0 cs"
  by (induction n out rule: read_duration.induct) (auto split: if_splits)

lemma read_appendDuration:
  assumes "0 \<le> n" "\<not> is_digit u" "unit_end out"
  shows "read_duration 0 (if n > 0 then appendDuration n u out else out) =
      read_duration 0 out + n * unit_seconds u \<and> unit_end (if n > 0 then appendDuration n u out else out)"
proof -
  have "read_duration 0 (out @ '' '' @ show_int n @ [u]) = read_duration 0 out + n * unit_seconds u"
    if "out \<noteq> []"
    using that assms by (simp add: read_append unit_end_def read_show_int unit_seconds_def del: append_Cons)
  then show ?thesis using assms by (auto simp: appendDuration_def unit_end_def read_show_int)
qed

lemma duration_parts:
  fixes t :: int
  shows "t div 60 div 60 div 24 * 86400 + t div 60 div 60 mod 24 * 3600 + t div 60 mod 60 * 60 + t mod 60 = t"
proof -
  have "t = 60 * (t div 60) + t mod 60" "t div 60 = 60 * (t div 60 div 60) + t div 60 mod 60"
      "t div 60 div 60 = 24 * (t div 60 div 60 div 24) + t div 60 div 60 mod 24"
    by simp_all
  then show ?thesis by linarith
qed

text \<open>
  The text of \<open>formatTime\<close> says exactly the duration it was given: reading its days, hours,
  minutes and seconds back gives the number of seconds.
\<close>

theorem formatTime_reads_back:
  assumes "0 \<le> totalSeconds"
  shows "read_duration 0 (formatTime totalSeconds) = totalSeconds"
proof -
  define d h m s where "d = totalSeconds div 60 div 60 div 24" and "h = totalSeconds div 60 div 60 mod 24"
    and "m = totalSeconds div 60 mod 60" and "s = totalSeconds mod 60"
  have parts: "0 \<le> d" "0 \<le> h" "0 \<le> m" "0 \<le> s"
    using assms by (simp_all add: d_def h_def m_def s_def)
  have quot: "sgn a * (\<bar>a\<bar> div b) = a div b" if "0 \<le> a" for a b :: int
    using that by (cases "a = 0") simp_all
  have q: "0 \<le> totalSeconds div 60" "0 \<le> totalSeconds div 60 div 60"
    using assms by simp_all
  define r0 where "r0 = (if d > 0 then appendDuration d (CHR ''d'') [] else [])"
  define r1 where "r1 = (if h > 0 then appendDuration h (CHR ''h'') r0 else r0)"
  define r2 where "r2 = (if m > 0 then appendDuration m (CHR ''m'') r1 else r1)"
  have f: "formatTime totalSeconds = (if s > 0 then appendDuration s (CHR ''s'') r2 else r2)"
    unfolding formatTime_def Let_def quot [OF assms] quot [OF q(1)] quot [OF q(2)]
      minus_mult_div_eq_mod r0_def r1_def r2_def d_def h_def m_def s_def ..
  have 0: "read_duration 0 r0 = d * 86400 \<and> unit_end r0"
    using read_appendDuration [of d "CHR ''d''" "[]"] parts
    by (simp add: r0_def unit_seconds_def unit_end_def)
  have 1: "read_duration 0 r1 = d * 86400 + h * 3600 \<and> unit_end r1"
    using read_appendDuration [of h "CHR ''h''" r0] parts 0 by (simp add: r1_def unit_seconds_def)
  have 2: "read_duration 0 r2 = d * 86400 + h * 3600 + m * 60 \<and> unit_end r2"
    using read_appendDuration [of m "CHR ''m''" r1] parts 1 by (simp add: r2_def unit_seconds_def)
  have "read_duration 0 (formatTime totalSeconds) = d * 86400 + h * 3600 + m * 60 + s"
    unfolding f using read_appendDuration [of s "CHR ''s''" r2] parts 2 by (simp add: unit_seconds_def)
  then show ?thesis unfolding d_def h_def m_def s_def duration_parts .
qed

theorem formatTime_reads_back_witness: "read_duration 0 (formatTime 93784) = 93784"
  by (rule formatTime_reads_back) simp

section \<open>Names and short texts\<close>

definition stripUserName :: "qstring \<Rightarrow> qstring" where
  "stripUserName userName =
     (let u = (if prefix ''@'' userName then drop 1 userName else userName)
      in if suffix '','' u then butlast u else u)"

definition stripChannelName :: "qstring \<Rightarrow> qstring" where
  "stripChannelName channelName =
     (let u = (if prefix ''@'' channelName \<or> prefix ''#'' channelName then drop 1 channelName else channelName)
      in if suffix '','' u then butlast u else u)"

definition formatUserMention :: "(qstring \<Rightarrow> qstring) \<Rightarrow> qstring \<Rightarrow> bool \<Rightarrow> bool \<Rightarrow> bool \<Rightarrow> qstring" where
  "formatUserMention toLower userName isFirstWord mentionUsersWithComma lowercaseUsernames =
     (let result = (if isFirstWord \<and> mentionUsersWithComma then userName @ '','' else userName)
      in if lowercaseUsernames then toLower result else result)"

text \<open>\<open>int(maxWidth)\<close> of an unsigned number.\<close>

definition shortenString :: "qstring \<Rightarrow> 32 word \<Rightarrow> qstring" where
  "shortenString str maxWidth =
     (if int (length str) > sint maxWidth then take (nat (sint maxWidth)) str @ ''...'' else str)"

definition startsWithOrContains :: "(qstring \<Rightarrow> qstring \<Rightarrow> bool) \<Rightarrow> (qstring \<Rightarrow> qstring \<Rightarrow> bool) \<Rightarrow> qstring \<Rightarrow> qstring
    \<Rightarrow> bool \<Rightarrow> bool" where
  "startsWithOrContains startsWith contains str1 str2 start =
     (if start then startsWith str1 str2 else contains str1 str2)"

definition formatRichLink :: "qstring \<Rightarrow> bool \<Rightarrow> qstring" where
  "formatRichLink url file =
     ''<a href='' @ [dquote] @ (if file then ''file:///'' else []) @ url @ [dquote] @ ''>'' @ url @ ''</a>''"

definition formatRichNamedLink :: "qstring \<Rightarrow> qstring \<Rightarrow> bool \<Rightarrow> qstring" where
  "formatRichNamedLink url name file =
     ''<a href='' @ [dquote] @ (if file then ''file:///'' else []) @ url @ [dquote] @ ''>'' @ name @ ''</a>''"

text \<open>
  \<open>fuzzyToInt\<close>: the first maximal run of digits; \<open>toInt\<close> of a run that does not fit is 0.
\<close>

definition fuzzyToInt :: "(qstring \<Rightarrow> int option) \<Rightarrow> qstring \<Rightarrow> int \<Rightarrow> int" where
  "fuzzyToInt textToInt str default' =
     (let captured = takeWhile is_digit (dropWhile (\<lambda>c. \<not> is_digit c) str)
      in if captured \<noteq> [] then (case textToInt captured of Some i \<Rightarrow> i | None \<Rightarrow> 0) else default')"

text \<open>
  Mentioning a user and stripping the mention again gives the user back, for every name that
  has no \<open>@\<close> in front and no comma at the end.
\<close>

theorem strip_mention:
  assumes "\<not> prefix ''@'' name" "\<not> suffix '','' name" "name \<noteq> []"
  shows "stripUserName (''@'' @ formatUserMention toLower name isFirst comma False) = name"
  using assms by (auto simp: stripUserName_def formatUserMention_def Let_def)

theorem strip_mention_witness:
  "stripUserName (''@'' @ formatUserMention id ''forsen'' True True False) = ''forsen''"
  by (rule strip_mention) (simp_all add: suffix_def)

section \<open>User colours\<close>

definition TWITCH_USERNAME_COLORS :: "(nat \<times> nat \<times> nat) list" where
  "TWITCH_USERNAME_COLORS =
     [(255, 0, 0), (0, 0, 255), (0, 255, 0), (178, 34, 34), (255, 127, 80), (154, 205, 50), (255, 69, 0),
      (46, 139, 87), (218, 165, 32), (210, 105, 30), (95, 158, 160), (30, 144, 255), (255, 105, 180),
      (138, 43, 226), (0, 255, 127)]"

text \<open>
  The seed is an \<open>int\<close>; \<open>%\<close> with the \<open>size_t\<close> size converts it to 64 bits unsigned. \<open>digitValue\<close>
  is -1 for a character that is no digit.
\<close>

definition getRandomColor :: "(qstring \<Rightarrow> int option) \<Rightarrow> (char \<Rightarrow> int) \<Rightarrow> qstring \<Rightarrow> (nat \<times> nat \<times> nat) option" where
  "getRandomColor textToInt digitValue userId =
     (let colorSeed = (case textToInt userId of
            Some i \<Rightarrow> i
          | None \<Rightarrow> sum_list (map digitValue userId));
          colorIndex = unat ((of_int colorSeed :: 64 word) mod of_nat (length TWITCH_USERNAME_COLORS))
      in if colorIndex < length TWITCH_USERNAME_COLORS then Some (TWITCH_USERNAME_COLORS ! colorIndex) else None)"

text \<open>
  Every user gets a colour of the table, also where the seed is negative (an IRC nick without
  digits): the index is never out of range.
\<close>

theorem getRandomColor_total:
  "\<exists>c \<in> set TWITCH_USERNAME_COLORS. getRandomColor textToInt digitValue userId = Some c"
proof -
  have "unat (w mod of_nat (length TWITCH_USERNAME_COLORS)) < length TWITCH_USERNAME_COLORS" for w :: "64 word"
    by (simp add: TWITCH_USERNAME_COLORS_def unat_mod_distrib)
  then show ?thesis by (simp add: getRandomColor_def Let_def)
qed

section \<open>Batches\<close>

fun take_batch :: "nat \<Rightarrow> 'a list \<Rightarrow> 'a list \<times> 'a list" where
  "take_batch 0 it = ([], it)"
| "take_batch (Suc i) [] = ([], [])"
| "take_batch (Suc i) (x # it) = (case take_batch i it of (batch, rest) \<Rightarrow> (x # batch, rest))"

fun batch_loop :: "nat \<Rightarrow> nat \<Rightarrow> 'a list \<Rightarrow> 'a list list" where
  "batch_loop 0 batchSize it = []"
| "batch_loop (Suc j) batchSize it =
     (case take_batch batchSize it of
        (batch, rest) \<Rightarrow> if batch = [] then [] else batch # batch_loop j batchSize rest)"

text \<open>\<open>batchCount\<close> is the quotient rounded up.\<close>

definition splitListIntoBatches :: "nat \<Rightarrow> 'a list \<Rightarrow> 'a list list" where
  "splitListIntoBatches batchSize list =
     batch_loop ((length list + batchSize - 1) div batchSize) batchSize list"

lemma take_batch_eq: "take_batch n it = (take n it, drop n it)"
  by (induction n it rule: take_batch.induct) auto

text \<open>
  The batches are the list, in order; none is empty and none is longer than the batch size.
\<close>

theorem batches_partition:
  assumes "0 < batchSize"
  shows "concat (splitListIntoBatches batchSize list) = list \<and>
    list_all (\<lambda>b. b \<noteq> [] \<and> length b \<le> batchSize) (splitListIntoBatches batchSize list)"
proof -
  have gen: "length it \<le> j * batchSize \<Longrightarrow> concat (batch_loop j batchSize it) = it \<and>
      list_all (\<lambda>b. b \<noteq> [] \<and> length b \<le> batchSize) (batch_loop j batchSize it)" for j and it :: "'a list"
  proof (induction j arbitrary: it)
    case (Suc j)
    then show ?case using assms Suc.IH [of "drop batchSize it"]
      by (auto simp: take_batch_eq)
  qed simp
  have "length list \<le> (length list + batchSize - 1) div batchSize * batchSize"
  proof -
    have "length list + batchSize - 1 = (length list + batchSize - 1) div batchSize * batchSize
        + (length list + batchSize - 1) mod batchSize" by simp
    moreover have "(length list + batchSize - 1) mod batchSize < batchSize" using assms by simp
    ultimately show ?thesis using assms by linarith
  qed
  then show ?thesis using gen by (simp add: splitListIntoBatches_def)
qed

theorem batches_partition_witness:
  "concat (splitListIntoBatches 2 [1, 2, 3 :: nat]) = [1, 2, 3]"
  using batches_partition [of 2 "[1, 2, 3 :: nat]"] by simp

end
