(* ===== verification/Signal_Vector.thy ===== *)
theory Signal_Vector
  imports Prelude
begin

text \<open>
  \<open>common/SignalVector.hpp\<close> and \<open>common/SignalVectorModel.hpp\<close>: the lists of the settings (phrases,
  filters, commands, accounts) and the table models that show them. A model is connected to the
  vector's signals: every insertion and removal reaches it as an event, except those the model caused
  itself (\<open>own\<close>, the code's \<open>args.caller == this\<close>). Rows may be custom rows that stand for no item
  (category headers).

  The comparator of a sorted vector is an optional argument. \<open>std::lower_bound\<close> is written as the
  number of leading smaller items, which is what it returns on a vector ordered by the comparator. A
  violated \<open>assert\<close> and an access outside a vector are \<open>None\<close>. The derived class is the record
  \<open>model_ops\<close>.
\<close>

section \<open>The vector\<close>

record 'v signal_vector =
  sv_items :: "'v list"
  sv_readOnly :: "'v list"
  sv_timerActive :: bool
  sv_delayedEvents :: nat

type_synonym 'v comparator = "('v \<Rightarrow> 'v \<Rightarrow> bool) option"

definition SignalVector :: "'v signal_vector" where
  "SignalVector = \<lparr>sv_items = [], sv_readOnly = [], sv_timerActive = False, sv_delayedEvents = 0\<rparr>"

definition sv_isSorted :: "'v comparator \<Rightarrow> bool" where
  "sv_isSorted cmp \<longleftrightarrow> cmp \<noteq> None"

definition itemsChanged :: "'v signal_vector \<Rightarrow> 'v signal_vector" where
  "itemsChanged v = v\<lparr>sv_timerActive := True, sv_readOnly := sv_items v\<rparr>"

text \<open>The timer's timeout, 100 ms after it was started.\<close>

definition itemsChangedTimer :: "'v signal_vector \<Rightarrow> 'v signal_vector" where
  "itemsChangedTimer v = v\<lparr>sv_timerActive := False, sv_delayedEvents := Suc (sv_delayedEvents v)\<rparr>"

definition sv_insert :: "'v comparator \<Rightarrow> 'v \<Rightarrow> int \<Rightarrow> 'v signal_vector \<Rightarrow> (nat \<times> 'v signal_vector) option" where
  "sv_insert cmp item index v =
     (case cmp of
        Some lt \<Rightarrow>
          (let i = length (takeWhile (\<lambda>x. lt x item) (sv_items v))
           in Some (i, itemsChanged (v\<lparr>sv_items := insert_at i item (sv_items v)\<rparr>)))
      | None \<Rightarrow>
          (let i = (if index = -1 then int (length (sv_items v)) else index)
           in if 0 \<le> i \<and> i \<le> int (length (sv_items v))
              then Some (nat i, itemsChanged (v\<lparr>sv_items := insert_at (nat i) item (sv_items v)\<rparr>))
              else None))"

definition sv_append :: "'v comparator \<Rightarrow> 'v \<Rightarrow> 'v signal_vector \<Rightarrow> (nat \<times> 'v signal_vector) option" where
  "sv_append cmp item v = sv_insert cmp item (-1) v"

definition sv_removeAt :: "int \<Rightarrow> 'v signal_vector \<Rightarrow> ('v \<times> 'v signal_vector) option" where
  "sv_removeAt index v =
     (if 0 \<le> index \<and> index < int (length (sv_items v))
      then Some (sv_items v ! nat index, itemsChanged (v\<lparr>sv_items := remove_at (nat index) (sv_items v)\<rparr>))
      else None)"

definition sv_empty :: "'v signal_vector \<Rightarrow> bool" where
  "sv_empty v \<longleftrightarrow> sv_items v = []"

section \<open>Rows\<close>

text \<open>A cell is a QStandardItem, by the roles the models use; the display and edit roles are one.\<close>

record cell =
  cell_text :: qstring
  cell_check :: bool
  cell_user :: qstring
  cell_color :: "int option"

datatype cell_role = DisplayRole | EditRole | CheckStateRole | UserRole | DecorationRole

datatype cell_value = CellText qstring | CellCheck bool | CellColor "int option"

definition cell_setData :: "cell_value \<Rightarrow> cell_role \<Rightarrow> cell \<Rightarrow> cell" where
  "cell_setData value role c =
     (case (role, value) of
        (DisplayRole, CellText t) \<Rightarrow> c\<lparr>cell_text := t\<rparr>
      | (EditRole, CellText t) \<Rightarrow> c\<lparr>cell_text := t\<rparr>
      | (CheckStateRole, CellCheck b) \<Rightarrow> c\<lparr>cell_check := b\<rparr>
      | (UserRole, CellText t) \<Rightarrow> c\<lparr>cell_user := t\<rparr>
      | (DecorationRole, CellColor x) \<Rightarrow> c\<lparr>cell_color := x\<rparr>
      | _ \<Rightarrow> c)"

definition blank_cell :: cell where
  "blank_cell = \<lparr>cell_text = [], cell_check = False, cell_user = [], cell_color = None\<rparr>"

record 'v mrow =
  row_items :: "cell list"
  row_original :: "'v option"
  row_custom :: bool

text \<open>\<open>tm_extra\<close> is the state a derived class adds.\<close>

record ('v, 'x) table_model =
  tm_rows :: "'v mrow list"
  tm_extra :: 'x

text \<open>
  The virtual functions: \<open>getItemFromRow\<close> may write to the cells of the row, so they are returned as
  well.
\<close>

record ('v, 'x) model_ops =
  columnCount :: nat
  getItemFromRow :: "cell list \<Rightarrow> 'v \<Rightarrow> 'v \<times> cell list"
  getRowFromItem :: "'v \<Rightarrow> cell list \<Rightarrow> cell list"
  beforeInsert :: "'v \<Rightarrow> nat \<Rightarrow> ('v, 'x) table_model \<Rightarrow> (('v, 'x) table_model \<times> nat) option"
  afterRemoved :: "'v \<Rightarrow> nat \<Rightarrow> ('v, 'x) table_model \<Rightarrow> ('v, 'x) table_model option"

definition createRow :: "('v, 'x) model_ops \<Rightarrow> cell list" where
  "createRow ops = replicate (columnCount ops) blank_cell"

fun vectorIndex_loop :: "'v mrow list \<Rightarrow> int \<Rightarrow> nat \<Rightarrow> nat" where
  "vectorIndex_loop [] index i = i"
| "vectorIndex_loop (r # rs) index i =
     (if row_custom r then vectorIndex_loop rs (index - 1) i
      else if int i = index then i
      else vectorIndex_loop rs index (Suc i))"

definition getVectorIndexFromModelIndex :: "int \<Rightarrow> ('v, 'x) table_model \<Rightarrow> nat" where
  "getVectorIndexFromModelIndex index m = vectorIndex_loop (tm_rows m) index 0"

fun modelIndex_loop :: "'v mrow list \<Rightarrow> nat \<Rightarrow> nat \<Rightarrow> nat" where
  "modelIndex_loop [] vectorIndex modelIndex = modelIndex"
| "modelIndex_loop (r # rs) vectorIndex modelIndex =
     (let v = (if row_custom r then Suc vectorIndex else vectorIndex)
      in if modelIndex = v then modelIndex else modelIndex_loop rs v (Suc modelIndex))"

definition getModelIndexFromVectorIndex :: "nat \<Rightarrow> ('v, 'x) table_model \<Rightarrow> nat" where
  "getModelIndexFromVectorIndex vectorIndex m = modelIndex_loop (tm_rows m) vectorIndex 0"

definition insertCustomRow :: "cell list \<Rightarrow> nat \<Rightarrow> ('v, 'x) table_model \<Rightarrow> ('v, 'x) table_model option" where
  "insertCustomRow row index m =
     (if index \<le> length (tm_rows m)
      then Some (m\<lparr>tm_rows := insert_at index \<lparr>row_items = row, row_original = None, row_custom = True\<rparr> (tm_rows m)\<rparr>)
      else None)"

definition removeCustomRow :: "int \<Rightarrow> ('v, 'x) table_model \<Rightarrow> ('v, 'x) table_model option" where
  "removeCustomRow index m =
     (if 0 \<le> index \<and> index < int (length (tm_rows m)) \<and> row_custom (tm_rows m ! nat index)
      then Some (m\<lparr>tm_rows := remove_at (nat index) (tm_rows m)\<rparr>) else None)"

section \<open>The slots of the vector's signals\<close>

definition on_inserted :: "('v, 'x) model_ops \<Rightarrow> 'v \<Rightarrow> nat \<Rightarrow> bool \<Rightarrow> ('v, 'x) table_model
    \<Rightarrow> ('v, 'x) table_model option" where
  "on_inserted ops item vectorIndex own m =
     (if own then Some m
      else
        (let index = getModelIndexFromVectorIndex vectorIndex m;
             row = getRowFromItem ops item (createRow ops)
         in if index > length (tm_rows m) then None
            else case beforeInsert ops item index m of
              None \<Rightarrow> None
            | Some (m1, i) \<Rightarrow>
                if i > length (tm_rows m1) then None
                else Some (m1\<lparr>tm_rows := insert_at i \<lparr>row_items = row, row_original = Some item, row_custom = False\<rparr>
                  (tm_rows m1)\<rparr>)))"

definition on_removed :: "('v, 'x) model_ops \<Rightarrow> 'v \<Rightarrow> nat \<Rightarrow> bool \<Rightarrow> ('v, 'x) table_model
    \<Rightarrow> ('v, 'x) table_model option" where
  "on_removed ops item vectorIndex own m =
     (if own then Some m
      else
        (let row = getModelIndexFromVectorIndex vectorIndex m
         in if row \<ge> length (tm_rows m) then None
            else afterRemoved ops item row (m\<lparr>tm_rows := remove_at row (tm_rows m)\<rparr>)))"

fun initialize_loop :: "('v, 'x) model_ops \<Rightarrow> 'v list \<Rightarrow> nat \<Rightarrow> ('v, 'x) table_model
    \<Rightarrow> ('v, 'x) table_model option" where
  "initialize_loop ops [] i m = Some m"
| "initialize_loop ops (x # xs) i m =
     (case on_inserted ops x i False m of None \<Rightarrow> None | Some m' \<Rightarrow> initialize_loop ops xs (Suc i) m')"

definition initialize :: "('v, 'x) model_ops \<Rightarrow> 'v signal_vector \<Rightarrow> ('v, 'x) table_model
    \<Rightarrow> ('v, 'x) table_model option" where
  "initialize ops vec m = initialize_loop ops (sv_items vec) 0 m"

section \<open>A vector with its model\<close>

record ('v, 'x) table =
  tb_vec :: "'v signal_vector"
  tb_model :: "('v, 'x) table_model"

definition tb_insert :: "('v, 'x) model_ops \<Rightarrow> 'v comparator \<Rightarrow> bool \<Rightarrow> 'v \<Rightarrow> int \<Rightarrow> ('v, 'x) table
    \<Rightarrow> ('v, 'x) table option" where
  "tb_insert ops cmp own item index t =
     (case sv_insert cmp item index (tb_vec t) of
        None \<Rightarrow> None
      | Some (i, v) \<Rightarrow>
          map_option (\<lambda>m. \<lparr>tb_vec = v, tb_model = m\<rparr>) (on_inserted ops item i own (tb_model t)))"

definition tb_removeAt :: "('v, 'x) model_ops \<Rightarrow> bool \<Rightarrow> int \<Rightarrow> ('v, 'x) table \<Rightarrow> ('v, 'x) table option" where
  "tb_removeAt ops own index t =
     (case sv_removeAt index (tb_vec t) of
        None \<Rightarrow> None
      | Some (item, v) \<Rightarrow>
          map_option (\<lambda>m. \<lparr>tb_vec = v, tb_model = m\<rparr>) (on_removed ops item (nat index) own (tb_model t)))"

definition rowCount :: "('v, 'x) table \<Rightarrow> nat" where
  "rowCount t = length (tm_rows (tb_model t))"

definition set_row :: "nat \<Rightarrow> 'v mrow \<Rightarrow> ('v, 'x) table \<Rightarrow> ('v, 'x) table" where
  "set_row i r t = t\<lparr>tb_model := (tb_model t)\<lparr>tm_rows := (tm_rows (tb_model t))[i := r]\<rparr>\<rparr>"

text \<open>\<open>customRowSetData\<close> does nothing in the base class.\<close>

definition setData :: "('v, 'x) model_ops \<Rightarrow> 'v comparator \<Rightarrow> int \<Rightarrow> int \<Rightarrow> cell_value \<Rightarrow> cell_role
    \<Rightarrow> ('v, 'x) table \<Rightarrow> (bool \<times> ('v, 'x) table) option" where
  "setData ops cmp row column value role t =
     (if row < 0 \<or> column < 0 \<or> row \<ge> int (rowCount t) \<or> column \<ge> int (columnCount ops) then Some (False, t)
      else
        (let r = tm_rows (tb_model t) ! nat row;
             cells = (row_items r)[nat column := cell_setData value role (row_items r ! nat column)];
             t1 = set_row (nat row) (r\<lparr>row_items := cells\<rparr>) t
         in if length (row_items r) \<noteq> columnCount ops then None
            else if row_custom r then Some (True, t1)
            else
              (let vecRow = int (getVectorIndexFromModelIndex row (tb_model t1))
               in case tb_removeAt ops True vecRow t1 of
                    None \<Rightarrow> None
                  | Some t2 \<Rightarrow>
                      (case row_original r of
                         None \<Rightarrow> None
                       | Some orig \<Rightarrow>
                           (case getItemFromRow ops cells orig of
                              (item, cells') \<Rightarrow>
                                map_option (Pair True)
                                  (tb_insert ops cmp True item vecRow
                                    (set_row (nat row) (r\<lparr>row_items := cells'\<rparr>) t2)))))))"

definition deleteRow :: "('v, 'x) model_ops \<Rightarrow> int \<Rightarrow> ('v, 'x) table \<Rightarrow> ('v, 'x) table option" where
  "deleteRow ops row t = tb_removeAt ops False (int (getVectorIndexFromModelIndex row (tb_model t))) t"

definition removeRows :: "('v, 'x) model_ops \<Rightarrow> int \<Rightarrow> nat \<Rightarrow> ('v, 'x) table \<Rightarrow> (bool \<times> ('v, 'x) table) option" where
  "removeRows ops row howMany t =
     (if howMany \<noteq> 1 then Some (False, t)
      else if \<not> (0 \<le> row \<and> row < int (rowCount t)) then None
      else map_option (Pair True) (deleteRow ops row t))"

definition moveRows :: "('v, 'x) model_ops \<Rightarrow> 'v comparator \<Rightarrow> int \<Rightarrow> nat \<Rightarrow> int \<Rightarrow> ('v, 'x) table
    \<Rightarrow> (bool \<times> ('v, 'x) table) option" where
  "moveRows ops cmp sourceRow howMany destinationChild t =
     (if howMany \<noteq> 1 then Some (False, t)
      else if \<not> (0 \<le> sourceRow \<and> sourceRow < int (rowCount t)) then None
      else
        (let r = tm_rows (tb_model t) ! nat sourceRow;
             signalVectorRow = int (getVectorIndexFromModelIndex sourceRow (tb_model t))
         in case row_original r of
              None \<Rightarrow> None
            | Some orig \<Rightarrow>
                (case getItemFromRow ops (row_items r) orig of
                   (item, cells') \<Rightarrow>
                     (case tb_removeAt ops False signalVectorRow (set_row (nat sourceRow) (r\<lparr>row_items := cells'\<rparr>) t) of
                        None \<Rightarrow> None
                      | Some t1 \<Rightarrow>
                          map_option (Pair True)
                            (tb_insert ops cmp False item
                              (int (getVectorIndexFromModelIndex destinationChild (tb_model t1))) t1)))))"

definition dropMimeData :: "('v, 'x) model_ops \<Rightarrow> 'v comparator \<Rightarrow> int option \<Rightarrow> bool \<Rightarrow> int \<Rightarrow> ('v, 'x) table
    \<Rightarrow> ('v, 'x) table option" where
  "dropMimeData ops cmp rowId moveOrCopy parentRow t =
     (case rowId of
        None \<Rightarrow> Some t
      | Some from' \<Rightarrow>
          if \<not> moveOrCopy then Some t
          else
            (let vectorFrom = getVectorIndexFromModelIndex from' (tb_model t);
                 vectorTo = getVectorIndexFromModelIndex parentRow (tb_model t);
                 size = length (sv_items (tb_vec t))
             in if vectorFrom > size \<or> vectorTo > size then Some t
                else if from' \<noteq> parentRow then map_option snd (moveRows ops cmp from' 1 parentRow t)
                else Some t))"

end
