(* ===== verification/Table_Correct.thy ===== *)
theory Table_Correct
  imports Signal_Vector
begin

text \<open>
  A table model stays in step with its vector: the interface a derived model has to provide (the
  locale \<open>row_model\<close>), the index translations, and the operations under that interface.
\<close>

section \<open>Index translation\<close>

definition normal :: "'v mrow list \<Rightarrow> 'v mrow list" where
  "normal rows = filter (\<lambda>r. \<not> row_custom r) rows"

lemma normal_simps [simp]:
  "normal [] = []" "normal (r # rs) = (if row_custom r then normal rs else r # normal rs)"
  "normal (xs @ ys) = normal xs @ normal ys"
  by (simp_all add: normal_def)

text \<open>Where the \<open>v\<close>-th row that is not custom stands; behind the last row for \<open>v\<close> at the end.\<close>

fun row_pos :: "'v mrow list \<Rightarrow> nat \<Rightarrow> nat" where
  "row_pos [] v = 0"
| "row_pos (r # rs) v = (if row_custom r then Suc (row_pos rs v)
     else case v of 0 \<Rightarrow> 0 | Suc w \<Rightarrow> Suc (row_pos rs w))"

lemma modelIndex_loop_pos: "modelIndex_loop rs (m + v) m = m + row_pos rs v"
proof (induction rs arbitrary: m v)
  case (Cons r rs)
  show ?case
  proof (cases v)
    case 0
    then show ?thesis using Cons [of "Suc m" 0] by (simp add: Let_def)
  next
    case (Suc w)
    then show ?thesis using Cons [of "Suc m" w] Cons [of "Suc m" "Suc w"] by (simp add: Let_def)
  qed
qed simp

lemma modelIndex_pos: "getModelIndexFromVectorIndex v m = row_pos (tm_rows m) v"
  using modelIndex_loop_pos [of "tm_rows m" 0 v] by (simp add: getModelIndexFromVectorIndex_def)

lemma row_pos_le: "row_pos rs v \<le> length rs"
  by (induction rs v rule: row_pos.induct) (auto split: nat.splits)

lemma normal_take_pos: "normal (take (row_pos rs v) rs) = take v (normal rs)"
  by (induction rs v rule: row_pos.induct) (auto split: nat.splits)

lemma normal_drop_pos: "normal (drop (row_pos rs v) rs) = drop v (normal rs)"
  by (induction rs v rule: row_pos.induct) (auto split: nat.splits)

lemma row_pos_normal:
  "v < length (normal rs) \<Longrightarrow> row_pos rs v < length rs \<and> rs ! row_pos rs v = normal rs ! v \<and> \<not> row_custom (rs ! row_pos rs v)"
  by (induction rs v rule: row_pos.induct) (auto split: nat.splits)

lemma vectorIndex_loop_before: "d < int i \<Longrightarrow> vectorIndex_loop rs d i = i + length (normal rs)"
  by (induction rs d i rule: vectorIndex_loop.induct) auto

lemma vectorIndex_loop_eq:
  "d = int i + int p \<Longrightarrow> vectorIndex_loop rs d i =
     (if p < length rs \<and> \<not> row_custom (rs ! p) then i + length (normal (take p rs)) else i + length (normal rs))"
proof (induction rs arbitrary: d i p)
  case (Cons r rs)
  show ?case
  proof (cases p)
    case 0
    then show ?thesis using vectorIndex_loop_before [of "d - 1" i rs] Cons.prems by simp
  next
    case (Suc q)
    then show ?thesis using Cons.IH [of "d - 1" i q] Cons.IH [of d "Suc i" q] Cons.prems by simp
  qed
qed simp

lemma vectorIndex_eq:
  "getVectorIndexFromModelIndex (int p) m =
     (if p < length (tm_rows m) \<and> \<not> row_custom (tm_rows m ! p) then length (normal (take p (tm_rows m)))
      else length (normal (tm_rows m)))"
  using vectorIndex_loop_eq [of "int p" 0 p "tm_rows m"] by (simp add: getVectorIndexFromModelIndex_def)

lemma vectorIndex_bound:
  assumes "p < length (tm_rows m)" "\<not> row_custom (tm_rows m ! p)"
  shows "getVectorIndexFromModelIndex (int p) m < length (normal (tm_rows m))"
    and "normal (tm_rows m) ! getVectorIndexFromModelIndex (int p) m = tm_rows m ! p"
    and "row_pos (tm_rows m) (getVectorIndexFromModelIndex (int p) m) = p"
proof -
  let ?rs = "tm_rows m"
  have s: "normal ?rs = normal (take p ?rs) @ ?rs ! p # normal (drop (Suc p) ?rs)"
    using assms by (subst id_take_nth_drop [OF assms(1)]) simp
  have i: "getVectorIndexFromModelIndex (int p) m = length (normal (take p ?rs))"
    using assms by (simp add: vectorIndex_eq)
  show "getVectorIndexFromModelIndex (int p) m < length (normal ?rs)" using s i by simp
  show "normal ?rs ! getVectorIndexFromModelIndex (int p) m = ?rs ! p" using i by (subst s) simp
  have "row_pos rs (length (normal (take p rs))) = p" if "p < length rs" "\<not> row_custom (rs ! p)" for rs p
    using that
  proof (induction rs arbitrary: p)
    case (Cons r rs)
    show ?case
    proof (cases p)
      case 0
      then show ?thesis using Cons.prems by simp
    next
      case (Suc q)
      then show ?thesis using Cons.IH [of q] Cons.prems by (simp split: nat.split)
    qed
  qed simp
  then show "row_pos ?rs (getVectorIndexFromModelIndex (int p) m) = p" using assms i by simp
qed

lemma vectorIndex_le: "getVectorIndexFromModelIndex (int p) m \<le> length (normal (tm_rows m))"
  using vectorIndex_bound(1) [of p m] by (auto simp: vectorIndex_eq)

section \<open>What a derived model provides\<close>

definition row_item :: "('v, 'x) model_ops \<Rightarrow> 'v mrow \<Rightarrow> 'v" where
  "row_item ops r = fst (getItemFromRow ops (row_items r) (the (row_original r)))"

text \<open>
  \<open>good\<close> are the items the model can show. A row that was made from an item reads back as the item;
  reading a row twice gives the same; the hooks move custom rows only, and keep the place of the
  insertion among the other rows.
\<close>

locale row_model =
  fixes ops :: "('v, 'x) model_ops"
    and good :: "'v \<Rightarrow> bool"
  assumes columns: "length cells = columnCount ops \<Longrightarrow> length (getRowFromItem ops v cells) = columnCount ops"
    and read_back: "good v \<Longrightarrow> getItemFromRow ops (getRowFromItem ops v (createRow ops)) v =
          (v, getRowFromItem ops v (createRow ops))"
    and read_good: "good orig \<Longrightarrow> length cells = columnCount ops \<Longrightarrow>
          getItemFromRow ops cells orig = (v, cells') \<Longrightarrow>
          good v \<and> length cells' = columnCount ops \<and> fst (getItemFromRow ops cells' orig) = v"
    and before_place: "beforeInsert ops v p m = Some (m', q) \<Longrightarrow> p \<le> length (tm_rows m) \<Longrightarrow>
          normal (take q (tm_rows m')) = normal (take p (tm_rows m)) \<and>
          normal (drop q (tm_rows m')) = normal (drop p (tm_rows m))"
    and after_normal: "afterRemoved ops v p m = Some m' \<Longrightarrow> normal (tm_rows m') = normal (tm_rows m)"
begin

definition row_ok :: "'v mrow \<Rightarrow> bool" where
  "row_ok r \<longleftrightarrow> (\<exists>orig. row_original r = Some orig \<and> good orig) \<and> length (row_items r) = columnCount ops"

definition displays :: "('v, 'x) table_model \<Rightarrow> 'v list \<Rightarrow> bool" where
  "displays m xs \<longleftrightarrow> map (row_item ops) (normal (tm_rows m)) = xs \<and> (\<forall>r \<in> set (normal (tm_rows m)). row_ok r)"

lemma displays_length: "displays m xs \<Longrightarrow> length (normal (tm_rows m)) = length xs"
  by (auto simp: displays_def)

lemma inserted_displays:
  assumes "displays m xs" "v \<le> length xs" "good item" "on_inserted ops item v False m = Some m'"
  shows "displays m' (insert_at v item xs)"
proof -
  let ?i = "getModelIndexFromVectorIndex v m" and ?row = "getRowFromItem ops item (createRow ops)"
  let ?r = "\<lparr>row_items = ?row, row_original = Some item, row_custom = False\<rparr>"
  obtain m1 q where h: "beforeInsert ops item ?i m = Some (m1, q)"
      and m': "m' = m1\<lparr>tm_rows := insert_at q ?r (tm_rows m1)\<rparr>"
    using assms(4) by (auto simp: on_inserted_def Let_def split: if_splits option.splits)
  have "?i \<le> length (tm_rows m)" by (simp add: modelIndex_pos row_pos_le)
  note place = before_place [OF h this]
  have n: "normal (tm_rows m') = insert_at v ?r (normal (tm_rows m))"
    using place by (simp add: m' insert_at_def modelIndex_pos normal_take_pos normal_drop_pos)
  have "row_ok ?r" using assms(3) by (simp add: row_ok_def columns createRow_def)
  moreover have "row_item ops ?r = item" using read_back [OF assms(3)] by (simp add: row_item_def)
  ultimately show ?thesis using assms(1) by (auto simp: displays_def n)
qed

lemma normal_remove_pos:
  "v < length (normal rs) \<Longrightarrow> normal (remove_at (row_pos rs v) rs) = remove_at v (normal rs)"
  by (induction rs v rule: row_pos.induct) (auto split: nat.splits)

lemma removed_displays:
  assumes "displays m xs" "v < length xs" "on_removed ops item v False m = Some m'"
  shows "displays m' (remove_at v xs)"
proof -
  have v: "v < length (normal (tm_rows m))" using assms by (simp add: displays_length)
  obtain m1 where "afterRemoved ops item (row_pos (tm_rows m) v)
      (m\<lparr>tm_rows := remove_at (row_pos (tm_rows m) v) (tm_rows m)\<rparr>) = Some m1" "m' = m1"
    using assms(3) by (auto simp: on_removed_def modelIndex_pos Let_def split: if_splits)
  then have "normal (tm_rows m') = remove_at v (normal (tm_rows m))"
    using after_normal normal_remove_pos [OF v] by fastforce
  then show ?thesis using assms(1) set_remove_at_subset [of v "normal (tm_rows m)"]
    by (auto simp: displays_def)
qed

section \<open>In step\<close>

definition in_step :: "('v, 'x) table \<Rightarrow> bool" where
  "in_step t \<longleftrightarrow> displays (tb_model t) (sv_items (tb_vec t)) \<and> sv_readOnly (tb_vec t) = sv_items (tb_vec t)"

lemma sv_insert_items:
  "sv_insert cmp item idx v = Some (i, v') \<Longrightarrow> sv_items v' = insert_at i item (sv_items v) \<and>
     i \<le> length (sv_items v) \<and> sv_readOnly v' = sv_items v'"
  by (auto simp: sv_insert_def Let_def itemsChanged_def length_takeWhile_le split: option.splits if_splits)

lemma insert_in_step:
  assumes "in_step t" "good item" "tb_insert ops cmp False item idx t = Some t'"
  shows "in_step t'"
  using assms sv_insert_items [of cmp item idx "tb_vec t"]
  by (auto simp: tb_insert_def in_step_def split: option.splits intro!: inserted_displays)

lemma remove_in_step:
  assumes "in_step t" "tb_removeAt ops False idx t = Some t'"
  shows "in_step t'"
  using assms
  by (auto simp: tb_removeAt_def sv_removeAt_def in_step_def itemsChanged_def
      split: option.splits if_splits intro!: removed_displays)

lemma normal_update:
  assumes "p < length rs" "\<not> row_custom (rs ! p)" "\<not> row_custom r'"
  shows "normal (rs[p := r']) = (normal rs)[length (normal (take p rs)) := r']"
proof -
  have "rs = take p rs @ rs ! p # drop (Suc p) rs" by (rule id_take_nth_drop [OF assms(1)])
  then have "normal rs = normal (take p rs) @ rs ! p # normal (drop (Suc p) rs)"
    using assms(2) by (metis normal_simps(2,3))
  moreover have "normal (rs[p := r']) = normal (take p rs) @ r' # normal (drop (Suc p) rs)"
    using assms(1,3) by (simp add: list_update_split)
  ultimately show ?thesis by simp
qed

lemma insert_remove_at: "i < length xs \<Longrightarrow> insert_at i x (remove_at i xs) = xs[i := x]"
  by (simp add: insert_at_def remove_at_def list_update_split min_def)

lemma normal_row_ok:
  assumes "in_step t" "p < rowCount t" "\<not> row_custom (tm_rows (tb_model t) ! p)"
  shows "row_ok (tm_rows (tb_model t) ! p)"
    and "getVectorIndexFromModelIndex (int p) (tb_model t) < length (sv_items (tb_vec t))"
    and "sv_items (tb_vec t) ! getVectorIndexFromModelIndex (int p) (tb_model t) =
      row_item ops (tm_rows (tb_model t) ! p)"
proof -
  let ?m = "tb_model t"
  have d: "displays ?m (sv_items (tb_vec t))" using assms(1) by (simp add: in_step_def)
  have b: "getVectorIndexFromModelIndex (int p) ?m < length (normal (tm_rows ?m))"
      "normal (tm_rows ?m) ! getVectorIndexFromModelIndex (int p) ?m = tm_rows ?m ! p"
    using vectorIndex_bound(1,2) [of p ?m] assms(2,3) by (simp_all add: rowCount_def)
  show "row_ok (tm_rows ?m ! p)" using d b by (metis displays_def nth_mem)
  show "getVectorIndexFromModelIndex (int p) ?m < length (sv_items (tb_vec t))"
    using b(1) displays_length [OF d] by simp
  show "sv_items (tb_vec t) ! getVectorIndexFromModelIndex (int p) ?m = row_item ops (tm_rows ?m ! p)"
    using d b by (metis displays_def nth_map)
qed

text \<open>Writing another cell list into a row whose item reads back as \<open>item\<close>.\<close>

lemma displays_update:
  assumes "displays m xs" "p < length (tm_rows m)" "\<not> row_custom (tm_rows m ! p)"
    and "row_ok r'" "\<not> row_custom r'" "row_item ops r' = item"
  shows "displays (m\<lparr>tm_rows := (tm_rows m)[p := r']\<rparr>) (xs[getVectorIndexFromModelIndex (int p) m := item])"
proof -
  have "normal ((tm_rows m)[p := r']) = (normal (tm_rows m))[getVectorIndexFromModelIndex (int p) m := r']"
    using normal_update [OF assms(2,3,5)] assms(2,3) by (simp add: vectorIndex_eq)
  then show ?thesis using assms(1,4,6) by (auto simp: displays_def map_update dest!: set_update_subset_insert [THEN subsetD])
qed

lemma setData_in_step:
  assumes "in_step t" "setData ops None row column value role t = Some (b, t')"
  shows "in_step t'"
proof (cases "row < 0 \<or> column < 0 \<or> row \<ge> int (rowCount t) \<or> column \<ge> int (columnCount ops)")
  case True
  then show ?thesis using assms by (simp add: setData_def)
next
  case False
  define p where "p = nat row"
  have p: "row = int p" "p < rowCount t" using False by (auto simp: p_def)
  let ?m = "tb_model t" and ?xs = "sv_items (tb_vec t)"
  define r where "r = tm_rows ?m ! p"
  define cells where "cells = (row_items r)[nat column := cell_setData value role (row_items r ! nat column)]"
  define t1 where "t1 = set_row p (r\<lparr>row_items := cells\<rparr>) t"
  have len: "length (row_items r) = columnCount ops"
    using assms(2) False by (auto simp: setData_def r_def p_def Let_def split: if_splits)
  then have lc: "length cells = columnCount ops" by (simp add: cells_def)
  show ?thesis
  proof (cases "row_custom r")
    case True
    then have "t' = t1"
      using assms(2) False len by (simp add: setData_def t1_def cells_def r_def p_def Let_def)
    moreover have "normal ((tm_rows ?m)[p := r\<lparr>row_items := cells\<rparr>]) = normal (tm_rows ?m)"
    proof -
      have "tm_rows ?m = take p (tm_rows ?m) @ r # drop (Suc p) (tm_rows ?m)"
        using p(2) unfolding r_def rowCount_def by (rule id_take_nth_drop)
      then have "normal (tm_rows ?m) = normal (take p (tm_rows ?m)) @ normal (drop (Suc p) (tm_rows ?m))"
        using True by (metis normal_simps(2,3))
      then show ?thesis using p(2) True by (simp add: list_update_split rowCount_def)
    qed
    ultimately show ?thesis using assms(1) by (simp add: t1_def set_row_def in_step_def displays_def)
  next
    case custom: False
    obtain orig where o: "row_original r = Some orig" "good orig"
      using normal_row_ok(1) [OF assms(1) p(2)] custom by (auto simp: r_def row_ok_def)
    obtain item cells' where read: "getItemFromRow ops cells orig = (item, cells')"
      by (cases "getItemFromRow ops cells orig")
    have g: "length cells' = columnCount ops" "fst (getItemFromRow ops cells' orig) = item"
      using read_good [OF o(2) lc read] by auto
    let ?i = "getVectorIndexFromModelIndex (int p) ?m"
    let ?r' = "r\<lparr>row_items := cells'\<rparr>"
    have i: "?i < length ?xs" using normal_row_ok(2) [OF assms(1) p(2)] custom by (simp add: r_def)
    have i1: "getVectorIndexFromModelIndex (int p) (tb_model t1) = ?i"
      using p(2) custom by (simp add: vectorIndex_eq t1_def set_row_def rowCount_def r_def)
    define v2 where "v2 = itemsChanged ((tb_vec t)\<lparr>sv_items := remove_at ?i ?xs\<rparr>)"
    define v3 where "v3 = itemsChanged (v2\<lparr>sv_items := insert_at ?i item (sv_items v2)\<rparr>)"
    have v2: "length (sv_items v2) = length ?xs - 1" using i by (simp add: v2_def itemsChanged_def)
    have rem: "tb_removeAt ops True (int ?i) t1 = Some \<lparr>tb_vec = v2, tb_model = tb_model t1\<rparr>"
      using i by (simp add: tb_removeAt_def sv_removeAt_def on_removed_def t1_def set_row_def v2_def)
    have ins: "tb_insert ops None True item (int ?i) \<lparr>tb_vec = v2, tb_model = m\<rparr> =
        Some \<lparr>tb_vec = v3, tb_model = m\<rparr>" for m
      using i v2 by (auto simp: tb_insert_def sv_insert_def on_inserted_def v3_def)
    have row: "set_row p ?r' \<lparr>tb_vec = v2, tb_model = tb_model t1\<rparr> =
        \<lparr>tb_vec = v2, tb_model = ?m\<lparr>tm_rows := (tm_rows ?m)[p := ?r']\<rparr>\<rparr>"
      by (simp add: set_row_def t1_def)
    have "setData ops None row column value role t =
        Some (True, \<lparr>tb_vec = v3, tb_model = ?m\<lparr>tm_rows := (tm_rows ?m)[p := ?r']\<rparr>\<rparr>)"
      unfolding setData_def using False len custom o(1) read
      by (simp add: p(1) Let_def r_def [symmetric] cells_def [symmetric] t1_def [symmetric] i1 rem row ins)
    then have "tb_model t' = ?m\<lparr>tm_rows := (tm_rows ?m)[p := ?r']\<rparr>" "tb_vec t' = v3"
      using assms(2) by auto
    then have "tb_model t' = ?m\<lparr>tm_rows := (tm_rows ?m)[p := ?r']\<rparr>"
      "sv_items (tb_vec t') = ?xs[?i := item]" "sv_readOnly (tb_vec t') = sv_items (tb_vec t')"
      using i by (simp_all add: v3_def v2_def itemsChanged_def insert_remove_at)
    moreover have "displays (?m\<lparr>tm_rows := (tm_rows ?m)[p := ?r']\<rparr>) (?xs[?i := item])"
      using assms(1) p(2) custom o g
      by (intro displays_update) (auto simp: in_step_def rowCount_def r_def row_ok_def row_item_def)
    ultimately show ?thesis by (simp add: in_step_def)
  qed
qed

lemma settle_in_step:
  assumes "in_step t" "p < rowCount t" "\<not> row_custom r" "r = tm_rows (tb_model t) ! p"
    and "row_original r = Some orig" "getItemFromRow ops (row_items r) orig = (item, cells')"
  shows "in_step (set_row p (r\<lparr>row_items := cells'\<rparr>) t)" "good item"
    and "item = sv_items (tb_vec t) ! getVectorIndexFromModelIndex (int p) (tb_model t)"
proof -
  let ?i = "getVectorIndexFromModelIndex (int p) (tb_model t)" and ?xs = "sv_items (tb_vec t)"
  have r: "row_ok r" "?i < length ?xs" "?xs ! ?i = row_item ops r"
    using normal_row_ok [OF assms(1,2)] assms(3,4) by simp_all
  then have g: "good orig" "length (row_items r) = columnCount ops" using assms(5) by (auto simp: row_ok_def)
  have c: "good item \<and> length cells' = columnCount ops \<and> fst (getItemFromRow ops cells' orig) = item"
    by (rule read_good [OF g assms(6)])
  show "item = ?xs ! ?i" using r(3) assms(5,6) by (simp add: row_item_def)
  then have id: "?xs[?i := item] = ?xs" by simp
  show "good item" using c by simp
  have "displays ((tb_model t)\<lparr>tm_rows := (tm_rows (tb_model t))[p := r\<lparr>row_items := cells'\<rparr>]\<rparr>) (?xs[?i := item])"
    using assms c g by (intro displays_update) (auto simp: in_step_def rowCount_def row_ok_def row_item_def)
  then show "in_step (set_row p (r\<lparr>row_items := cells'\<rparr>) t)"
    using assms(1) id by (simp add: in_step_def set_row_def)
qed

lemma moveRows_in_step:
  assumes "in_step t" "moveRows ops cmp src n dest t = Some (b, t')"
  shows "in_step t'"
proof (cases "n = 1")
  case False
  then show ?thesis using assms by (simp add: moveRows_def)
next
  case True
  define p where "p = nat src"
  have p: "src = int p" "p < rowCount t"
    using assms(2) True by (auto simp: moveRows_def p_def split: if_splits)
  define r where "r = tm_rows (tb_model t) ! p"
  obtain orig item cells' t1 where o: "row_original r = Some orig"
      "getItemFromRow ops (row_items r) orig = (item, cells')"
      and rem: "tb_removeAt ops False (int (getVectorIndexFromModelIndex src (tb_model t)))
        (set_row p (r\<lparr>row_items := cells'\<rparr>) t) = Some t1"
      and ins: "tb_insert ops cmp False item (int (getVectorIndexFromModelIndex dest (tb_model t1))) t1 = Some t'"
    using assms(2) True p by (auto simp: moveRows_def r_def Let_def split: option.splits prod.splits)
  show ?thesis
  proof (cases "row_custom r")
    case False
    note s = settle_in_step [OF assms(1) p(2) False r_def o]
    show ?thesis by (rule insert_in_step [OF remove_in_step [OF s(1) rem] s(2) ins])
  next
    case True
    have "length (sv_items (tb_vec t)) = length (normal (tm_rows (tb_model t)))"
      using assms(1) displays_length by (fastforce simp: in_step_def)
    then have "tb_removeAt ops False (int (getVectorIndexFromModelIndex src (tb_model t)))
        (set_row p (r\<lparr>row_items := cells'\<rparr>) t) = None"
      using True p by (simp add: tb_removeAt_def sv_removeAt_def set_row_def vectorIndex_eq r_def rowCount_def)
    then show ?thesis using rem by simp
  qed
qed

lemma initialize_displays:
  assumes "\<forall>x \<in> set ys. good x" "displays m xs" "initialize_loop ops ys (length xs) m = Some m'"
  shows "displays m' (xs @ ys)"
  using assms
proof (induction ys arbitrary: xs m)
  case (Cons y ys)
  obtain m1 where m1: "on_inserted ops y (length xs) False m = Some m1"
      "initialize_loop ops ys (Suc (length xs)) m1 = Some m'"
    using Cons.prems(3) by (auto split: option.splits)
  have "displays m1 (xs @ [y])"
    using inserted_displays [OF Cons.prems(2) _ _ m1(1)] Cons.prems(1) by simp
  then show ?case using Cons.IH [where xs = "xs @ [y]" and m = m1] Cons.prems(1) m1(2) by simp
qed simp

end

section \<open>Operations of a user and of the program\<close>

datatype 'v table_op = Insert 'v int | RemoveAt int | SetData int int cell_value cell_role
  | RemoveRows int nat | MoveRows int nat int | Drop "int option" bool int

fun table_step :: "('v, 'x) model_ops \<Rightarrow> 'v table_op \<Rightarrow> ('v, 'x) table \<Rightarrow> ('v, 'x) table option" where
  "table_step ops (Insert x i) t = tb_insert ops None False x i t"
| "table_step ops (RemoveAt i) t = tb_removeAt ops False i t"
| "table_step ops (SetData row column value role) t = map_option snd (setData ops None row column value role t)"
| "table_step ops (RemoveRows row n) t = map_option snd (removeRows ops row n t)"
| "table_step ops (MoveRows src n dest) t = map_option snd (moveRows ops None src n dest t)"
| "table_step ops (Drop rowId action dest) t = dropMimeData ops None rowId action dest t"

fun table_run :: "('v, 'x) model_ops \<Rightarrow> 'v table_op list \<Rightarrow> ('v, 'x) table \<Rightarrow> ('v, 'x) table option" where
  "table_run ops [] t = Some t"
| "table_run ops (a # acts) t = (case table_step ops a t of None \<Rightarrow> None | Some t' \<Rightarrow> table_run ops acts t')"

fun op_item :: "'v table_op \<Rightarrow> 'v set" where
  "op_item (Insert x i) = {x}"
| "op_item _ = {}"

context row_model
begin

lemma step_in_step:
  assumes "in_step t" "\<forall>x \<in> op_item a. good x" "table_step ops a t = Some t'"
  shows "in_step t'"
proof (cases a)
  case (Insert x i)
  then show ?thesis using assms insert_in_step by simp
next
  case (RemoveAt i)
  then show ?thesis using assms remove_in_step by simp
next
  case (SetData row column x role)
  then show ?thesis using assms setData_in_step by auto
next
  case (RemoveRows row n)
  then show ?thesis using assms remove_in_step
    by (auto simp: removeRows_def deleteRow_def split: if_splits)
next
  case (MoveRows src n dest)
  then show ?thesis using assms moveRows_in_step by auto
next
  case (Drop rowId action dest)
  then show ?thesis using assms moveRows_in_step
    by (auto simp: dropMimeData_def Let_def split: option.splits if_splits)
qed

lemma run_in_step:
  "in_step t \<Longrightarrow> \<forall>a \<in> set acts. \<forall>x \<in> op_item a. good x \<Longrightarrow> table_run ops acts t = Some t' \<Longrightarrow> in_step t'"
proof (induction acts arbitrary: t)
  case (Cons a acts)
  then obtain t1 where t1: "table_step ops a t = Some t1" "table_run ops acts t1 = Some t'"
    by (auto split: option.splits)
  then show ?case using Cons.IH [OF step_in_step [OF Cons.prems(1) _ t1(1)]] Cons.prems(2) by simp
qed simp

lemma start_in_step:
  assumes "\<forall>x \<in> set (sv_items v). good x" "normal (tm_rows m) = []" "initialize ops v m = Some m'"
    and "sv_readOnly v = sv_items v"
  shows "in_step \<lparr>tb_vec = v, tb_model = m'\<rparr>"
  using initialize_displays [OF assms(1), of m "[]" m'] assms(2-4)
  by (simp add: initialize_def in_step_def displays_def)

end

end
