(* ===== verification/Settings_Items.thy ===== *)
theory Settings_Items
  imports Highlights
begin

text \<open>
  The entries of the settings' lists besides highlights and filters: ignore phrases
  (\<open>controllers/ignores/IgnorePhrase.hpp\<close>, \<open>IgnoreController.cpp\<close>), nicknames
  (\<open>controllers/nicknames/Nickname.hpp\<close>), custom commands (\<open>controllers/commands/Command.cpp\<close>) and moderation
  buttons (\<open>controllers/moderationactions/ModerationAction.cpp\<close>).

  The regular expression engine is a parameter, with Unicode properties on; so are the comparisons that
  fold case.
\<close>

section \<open>Ignored phrases\<close>

record regex_ops =
  rx_valid :: "qstring \<Rightarrow> bool"
  rx_indexOf :: "qstring \<Rightarrow> bool \<Rightarrow> nat \<Rightarrow> qstring \<Rightarrow> (nat \<times> nat) option"
  rx_replace :: "qstring \<Rightarrow> bool \<Rightarrow> qstring \<Rightarrow> qstring \<Rightarrow> qstring"

text \<open>
  \<open>rx_indexOf pattern caseSensitive from s\<close> is the position and length of the first match at or behind
  \<open>from\<close>; \<open>rx_replace pattern caseSensitive after s\<close> replaces every match.
\<close>

record ignore_phrase =
  ip_pattern :: qstring
  ip_isRegex :: bool
  ip_isBlock :: bool
  ip_replace :: qstring
  ip_isCaseSensitive :: bool

text \<open>\<open>foldEq\<close> compares two texts of the same length case-insensitively.\<close>

definition same_text :: "(qstring \<Rightarrow> qstring \<Rightarrow> bool) \<Rightarrow> bool \<Rightarrow> qstring \<Rightarrow> qstring \<Rightarrow> bool" where
  "same_text foldEq caseSensitive a b \<longleftrightarrow> (if caseSensitive then a = b else foldEq a b)"

text \<open>\<open>QString::indexOf(pattern, from, cs)\<close> for a pattern that is not empty.\<close>

definition indexOf :: "(qstring \<Rightarrow> qstring \<Rightarrow> bool) \<Rightarrow> bool \<Rightarrow> qstring \<Rightarrow> nat \<Rightarrow> qstring \<Rightarrow> nat option" where
  "indexOf foldEq cs pattern from' s =
     List.find (\<lambda>i. same_text foldEq cs (take (length pattern) (drop i s)) pattern)
       [from'..<Suc (length s) - length pattern]"

definition ip_isMatch :: "regex_ops \<Rightarrow> (qstring \<Rightarrow> qstring \<Rightarrow> bool) \<Rightarrow> ignore_phrase \<Rightarrow> qstring \<Rightarrow> bool" where
  "ip_isMatch rx foldEq p subject \<longleftrightarrow> ip_pattern p \<noteq> [] \<and>
     (if ip_isRegex p
      then rx_valid rx (ip_pattern p) \<and> rx_indexOf rx (ip_pattern p) (ip_isCaseSensitive p) 0 subject \<noteq> None
      else indexOf foldEq (ip_isCaseSensitive p) (ip_pattern p) 0 subject \<noteq> None)"

text \<open>
  \<open>containsEmote\<close> and \<open>getEmotes\<close>: the emotes of the user's accounts that occur in the replacement,
  collected at the first call; a map keeps the first emote of a name.
\<close>

fun emote_map :: "qstring \<Rightarrow> (qstring \<times> nat option) list \<Rightarrow> (qstring \<times> nat option) list" where
  "emote_map replacement [] = []"
| "emote_map replacement ((n, e) # rest) =
     (if sublist n replacement then (n, e) # filter (\<lambda>p. fst p \<noteq> n) (emote_map replacement rest)
      else emote_map replacement rest)"

definition ip_getEmotes :: "(qstring \<times> nat option) list \<Rightarrow> ignore_phrase \<Rightarrow> (qstring \<times> nat option) list" where
  "ip_getEmotes accountEmotes p = emote_map (ip_replace p) accountEmotes"

definition ip_containsEmote :: "(qstring \<times> nat option) list \<Rightarrow> ignore_phrase \<Rightarrow> bool" where
  "ip_containsEmote accountEmotes p \<longleftrightarrow> ip_getEmotes accountEmotes p \<noteq> []"

section \<open>Ignored messages\<close>

datatype show_ignored = Never | IfModerator | IfBroadcaster

record ignored_params =
  igp_message :: qstring
  igp_twitchUserID :: qstring
  igp_isMod :: bool
  igp_isBroadcaster :: bool

definition isIgnoredMessage :: "regex_ops \<Rightarrow> (qstring \<Rightarrow> qstring \<Rightarrow> bool) \<Rightarrow> ignore_phrase list \<Rightarrow> bool \<Rightarrow> qstring set
    \<Rightarrow> show_ignored \<Rightarrow> ignored_params \<Rightarrow> bool" where
  "isIgnoredMessage rx foldEq phrases enableTwitchBlockedUsers blocks showBlocked params =
     (if igp_message params \<noteq> [] \<and> list_ex (\<lambda>p. ip_isBlock p \<and> ip_isMatch rx foldEq p (igp_message params)) phrases
      then True
      else if igp_twitchUserID params \<noteq> [] \<and> enableTwitchBlockedUsers then
        (if igp_twitchUserID params \<in> blocks then
           (case showBlocked of
              IfModerator \<Rightarrow> \<not> (igp_isMod params \<or> igp_isBroadcaster params)
            | IfBroadcaster \<Rightarrow> \<not> igp_isBroadcaster params
            | Never \<Rightarrow> True)
         else False)
      else False)"

section \<open>Nicknames\<close>

record nickname =
  nn_name :: qstring
  nn_replace :: qstring
  nn_isRegex :: bool
  nn_isCaseSensitive :: bool

text \<open>\<open>match\<close> changes its argument when it answers true: the new text, or \<open>None\<close>.\<close>

definition nn_match :: "regex_ops \<Rightarrow> (qstring \<Rightarrow> qstring \<Rightarrow> bool) \<Rightarrow> nickname \<Rightarrow> qstring \<Rightarrow> qstring option" where
  "nn_match rx foldEq n usernameText =
     (if nn_isRegex n then
        (if \<not> rx_valid rx (nn_name n) then None
         else if nn_name n = [] then None
         else
           (let workingCopy = rx_replace rx (nn_name n) (nn_isCaseSensitive n) (nn_replace n) usernameText
            in if workingCopy \<noteq> usernameText then Some workingCopy else None))
      else if same_text foldEq (nn_isCaseSensitive n) (nn_name n) usernameText then Some (nn_replace n)
      else None)"

datatype username_display = Username | LocalizedName | UsernameAndLocalizedName

fun nickname_loop :: "regex_ops \<Rightarrow> (qstring \<Rightarrow> qstring \<Rightarrow> bool) \<Rightarrow> nickname list \<Rightarrow> qstring \<Rightarrow> qstring" where
  "nickname_loop rx foldEq [] usernameText = usernameText"
| "nickname_loop rx foldEq (n # ns) usernameText =
     (case nn_match rx foldEq n usernameText of Some s \<Rightarrow> s | None \<Rightarrow> nickname_loop rx foldEq ns usernameText)"

definition stylizeUsername :: "regex_ops \<Rightarrow> (qstring \<Rightarrow> qstring \<Rightarrow> bool) \<Rightarrow> username_display \<Rightarrow> nickname list
    \<Rightarrow> qstring \<Rightarrow> qstring \<Rightarrow> qstring" where
  "stylizeUsername rx foldEq mode nicknames username localized =
     nickname_loop rx foldEq nicknames
       (case mode of
          Username \<Rightarrow> username
        | LocalizedName \<Rightarrow> if localized \<noteq> [] then localized else username
        | UsernameAndLocalizedName \<Rightarrow>
            if localized \<noteq> [] then username @ ''('' @ localized @ '')'' else username)"

section \<open>Custom commands\<close>

record command =
  cmd_name :: qstring
  cmd_func :: qstring
  cmd_showInMsgContextMenu :: bool

definition Command :: "(qstring \<Rightarrow> qstring) \<Rightarrow> qstring \<Rightarrow> qstring \<Rightarrow> bool \<Rightarrow> command" where
  "Command trimmed name func ctx =
     \<lparr>cmd_name = trimmed name, cmd_func = trimmed func, cmd_showInMsgContextMenu = ctx\<rparr>"

text \<open>
  The constructor from a text. Without a space the flag is not initialised: \<open>garbage\<close>.
\<close>

definition Command_of_text :: "(qstring \<Rightarrow> qstring) \<Rightarrow> bool \<Rightarrow> qstring \<Rightarrow> command" where
  "Command_of_text trimmed garbage t =
     (case find_index (\<lambda>c. c = CHR '' '') t of
        None \<Rightarrow> \<lparr>cmd_name = t, cmd_func = [], cmd_showInMsgContextMenu = garbage\<rparr>
      | Some i \<Rightarrow> \<lparr>cmd_name = trimmed (take i t), cmd_func = trimmed (drop (i + 1) t), cmd_showInMsgContextMenu = False\<rparr>)"

definition command_toString :: "command \<Rightarrow> qstring" where
  "command_toString c = cmd_name c @ '' '' @ cmd_func c"

section \<open>Moderation buttons\<close>

record moderation_action =
  ma_action :: qstring
  ma_line1 :: qstring
  ma_line2 :: qstring
  ma_imageToLoad :: int

text \<open>Multiplication of \<open>int\<close>s overflows outside 32 bits, which is undefined: \<open>None\<close>.\<close>

definition times_int :: "int \<Rightarrow> int \<Rightarrow> int option" where
  "times_int a b = (if - (2 ^ 31) \<le> a * b \<and> a * b < 2 ^ 31 then Some (a * b) else None)"

definition timeout_seconds :: "int \<Rightarrow> qstring \<Rightarrow> int option" where
  "timeout_seconds amount unit =
     (if unit = ''m'' then times_int amount 60
      else if unit = ''h'' then times_int amount 3600
      else if unit = ''d'' then times_int amount 86400
      else if unit = ''w'' then times_int amount 604800
      else Some amount)"

definition timeout_lines :: "int \<Rightarrow> qstring \<times> qstring" where
  "timeout_lines amount =
     (if amount < 60 then (show_int amount, ''s'')
      else if amount < 3600 then (show_int (amount div 60), ''m'')
      else if amount < 86400 then (show_int (amount div 3600), ''h'')
      else if amount < 604800 then (show_int (amount div 86400), ''d'')
      else (if amount > 2 * 604800 then ''>2'' else show_int (amount div 604800), ''w''))"

text \<open>\<open>timeoutMatch\<close>: the captures of \<open>^[./]timeout.* (\d+)([mhdw]?)\<close>, the first as \<open>toInt\<close> reads it.\<close>

definition ModerationAction :: "(qstring \<Rightarrow> (int \<times> qstring) option) \<Rightarrow> qstring \<Rightarrow> moderation_action option" where
  "ModerationAction timeoutMatch action =
     (case timeoutMatch action of
        Some (amount, unit) \<Rightarrow>
          (case timeout_seconds amount unit of
             None \<Rightarrow> None
           | Some n \<Rightarrow> Some \<lparr>ma_action = action, ma_line1 = fst (timeout_lines n), ma_line2 = snd (timeout_lines n),
               ma_imageToLoad = 0\<rparr>)
      | None \<Rightarrow>
          if prefix ''/ban '' action then Some \<lparr>ma_action = action, ma_line1 = [], ma_line2 = [], ma_imageToLoad = 1\<rparr>
          else if prefix ''/delete '' action
          then Some \<lparr>ma_action = action, ma_line1 = [], ma_line2 = [], ma_imageToLoad = 2\<rparr>
          else
            (let xD = filter (\<lambda>c. c \<notin> {CHR ''!'', CHR ''/'', CHR ''.''}) action
             in Some \<lparr>ma_action = action, ma_line1 = take 2 xD, ma_line2 = take 2 (drop 2 xD), ma_imageToLoad = 0\<rparr>))"

section \<open>Lemmas\<close>

lemma indexOf_Some:
  assumes "indexOf foldEq cs pattern from' s = Some i"
  shows "from' \<le> i" "i + length pattern \<le> length s" "same_text foldEq cs (take (length pattern) (drop i s)) pattern"
proof -
  have "i \<in> set [from'..<Suc (length s) - length pattern]"
      "same_text foldEq cs (take (length pattern) (drop i s)) pattern"
    using find_SomeD [OF assms [unfolded indexOf_def]] by simp_all
  then show "from' \<le> i" "i + length pattern \<le> length s" "same_text foldEq cs (take (length pattern) (drop i s)) pattern"
    by auto
qed

lemma show_nat_small: "n < 10 \<Longrightarrow> show_nat n = [digit_char n]"
  by (subst show_nat.simps) simp

lemma show_int_two_digits:
  assumes "0 \<le> n" "n < 100" shows "length (show_int n) \<le> 2"
proof -
  have n: "nat n div 10 < 10" using assms by linarith
  have "length (show_nat (nat n)) \<le> 2"
    by (subst show_nat.simps) (simp add: show_nat_small [OF n])
  then show ?thesis using assms by (simp add: show_int_def)
qed

text \<open>
  The label of a timeout button always fits: for every button whose duration does not overflow an
  \<open>int\<close>, each of the two lines has at most two characters.
\<close>

theorem moderation_label_fits:
  assumes "ModerationAction timeoutMatch action = Some m"
    and "\<And>n u. timeoutMatch action = Some (n, u) \<Longrightarrow> 0 \<le> n"
  shows "length (ma_line1 m) \<le> 2 \<and> length (ma_line2 m) \<le> 2 \<and> ma_action m = action"
proof (cases "timeoutMatch action")
  case None
  then show ?thesis using assms(1) by (auto simp: ModerationAction_def Let_def split: if_splits)
next
  case (Some c)
  obtain n u where c: "c = (n, u)" by (cases c)
  obtain k where k: "timeout_seconds n u = Some k"
      "m = \<lparr>ma_action = action, ma_line1 = fst (timeout_lines k), ma_line2 = snd (timeout_lines k), ma_imageToLoad = 0\<rparr>"
    using assms(1) Some c by (auto simp: ModerationAction_def split: option.splits)
  have "0 \<le> k" using k(1) assms(2) [of n u] Some c
    by (auto simp: timeout_seconds_def times_int_def split: if_splits)
  then have "length (fst (timeout_lines k)) \<le> 2"
    by (auto simp: timeout_lines_def intro!: show_int_two_digits)
  then show ?thesis using k(2) by (auto simp: timeout_lines_def)
qed

theorem moderation_label_fits_witness:
  "\<exists>m. ModerationAction (\<lambda>_. Some (2, ''w'')) ''/timeout x 2w'' = Some m \<and> length (ma_line1 m) \<le> 2"
proof -
  have "ModerationAction (\<lambda>_. Some (2, ''w'')) ''/timeout x 2w'' \<noteq> None" by code_simp
  then obtain m where "ModerationAction (\<lambda>_. Some (2, ''w'')) ''/timeout x 2w'' = Some m" by auto
  then show ?thesis using moderation_label_fits by fastforce
qed

end
