(* ===== verification/Table_Models.thy ===== *)
theory Table_Models
  imports Table_Correct Settings_Items Filters Filter_Parser_Correct
begin

text \<open>
  The table models of the settings pages, each a derived class of \<open>SignalVectorModel\<close> given by the
  record of its virtual functions, and the proof that each meets the interface \<open>row_model\<close>. The cells
  are written with the functions of \<open>util/StandardItemHelper.hpp\<close>, of which the values are kept and not
  the item flags.

  A highlight's colour is a shared pointer that \<open>getItemFromRow\<close> writes through; the model has the
  colour in the item.
\<close>

section \<open>Cells\<close>

definition setStringItem :: "qstring \<Rightarrow> cell \<Rightarrow> cell" where
  "setStringItem v = cell_setData (CellText v) EditRole"

definition setBoolItem :: "bool \<Rightarrow> cell \<Rightarrow> cell" where
  "setBoolItem v = cell_setData (CellCheck v) CheckStateRole"

definition setFilePathItem :: "(qstring \<Rightarrow> qstring) \<Rightarrow> qstring \<Rightarrow> cell \<Rightarrow> cell" where
  "setFilePathItem fileName url = cell_setData (CellText (fileName url)) DisplayRole \<circ> cell_setData (CellText url) UserRole"

definition setColorItem :: "int option \<Rightarrow> cell \<Rightarrow> cell" where
  "setColorItem v = cell_setData (CellColor v) DecorationRole"

lemmas cell_writers [simp] = setStringItem_def setBoolItem_def setFilePathItem_def setColorItem_def

lemma cell_setData_reads [simp]:
  "cell_text (cell_setData (CellText t) EditRole c) = t"
  "cell_text (cell_setData (CellText t) DisplayRole c) = t"
  "cell_user (cell_setData (CellText t) UserRole c) = t"
  "cell_user (cell_setData (CellText t) DisplayRole c) = cell_user c"
  "cell_check (cell_setData (CellCheck b) CheckStateRole c) = b"
  "cell_check (cell_setData (CellText t) EditRole c) = cell_check c"
  "cell_color (cell_setData (CellColor x) DecorationRole c) = x"
  by (simp_all add: cell_setData_def)

text \<open>Writing the cells of a row from left to right.\<close>

definition write_row :: "(cell \<Rightarrow> cell) list \<Rightarrow> cell list \<Rightarrow> cell list" where
  "write_row ws cells = map2 (\<lambda>w c. w c) ws cells"

lemma write_row_simps [simp]:
  "write_row [] cells = []"
  "write_row (w # ws) (c # cells) = w c # write_row ws cells"
  "length (write_row ws cells) = min (length ws) (length cells)"
  by (simp_all add: write_row_def)

text \<open>The hooks of the base class, which the models without categories inherit.\<close>

definition keep_place :: "'v \<Rightarrow> nat \<Rightarrow> ('v, unit) table_model \<Rightarrow> (('v, unit) table_model \<times> nat) option" where
  "keep_place v p m = Some (m, p)"

definition keep_rows :: "'v \<Rightarrow> nat \<Rightarrow> ('v, unit) table_model \<Rightarrow> ('v, unit) table_model option" where
  "keep_rows v p m = Some m"

lemmas base_hooks [simp] = keep_place_def keep_rows_def

section \<open>Models without categories\<close>

definition IgnoreModel :: "(ignore_phrase, unit) model_ops" where
  "IgnoreModel = \<lparr>columnCount = 5,
     getItemFromRow = (\<lambda>row original.
       (\<lparr>ip_pattern = cell_text (row ! 0), ip_isRegex = cell_check (row ! 1), ip_isBlock = cell_check (row ! 3),
         ip_replace = cell_text (row ! 4), ip_isCaseSensitive = cell_check (row ! 2)\<rparr>, row)),
     getRowFromItem = (\<lambda>item. write_row
       [setStringItem (ip_pattern item), setBoolItem (ip_isRegex item),
        setBoolItem (ip_isCaseSensitive item), setBoolItem (ip_isBlock item),
        setStringItem (ip_replace item)]),
     beforeInsert = keep_place, afterRemoved = keep_rows\<rparr>"

definition NicknamesModel :: "(nickname, unit) model_ops" where
  "NicknamesModel = \<lparr>columnCount = 4,
     getItemFromRow = (\<lambda>row original.
       (\<lparr>nn_name = cell_text (row ! 0), nn_replace = cell_text (row ! 1), nn_isRegex = cell_check (row ! 2),
         nn_isCaseSensitive = cell_check (row ! 3)\<rparr>, row)),
     getRowFromItem = (\<lambda>item. write_row
       [setStringItem (nn_name item), setStringItem (nn_replace item),
        setBoolItem (nn_isRegex item), setBoolItem (nn_isCaseSensitive item)]),
     beforeInsert = keep_place, afterRemoved = keep_rows\<rparr>"

definition MutedChannelModel :: "(qstring, unit) model_ops" where
  "MutedChannelModel = \<lparr>columnCount = 1,
     getItemFromRow = (\<lambda>row original. (cell_text (row ! 0), row)),
     getRowFromItem = (\<lambda>item. write_row [setStringItem item]),
     beforeInsert = keep_place, afterRemoved = keep_rows\<rparr>"

definition NotificationModel :: "(qstring, unit) model_ops" where
  "NotificationModel = \<lparr>columnCount = 1,
     getItemFromRow = (\<lambda>row original. (cell_text (row ! 0), row)),
     getRowFromItem = (\<lambda>item. write_row [setStringItem item]),
     beforeInsert = keep_place, afterRemoved = keep_rows\<rparr>"

definition HighlightBlacklistModel :: "(blacklist_user, unit) model_ops" where
  "HighlightBlacklistModel = \<lparr>columnCount = 2,
     getItemFromRow = (\<lambda>row original.
       (\<lparr>bu_pattern = cell_text (row ! 0), bu_isRegex = cell_check (row ! 1)\<rparr>, row)),
     getRowFromItem = (\<lambda>item. write_row
       [setStringItem (bu_pattern item), setBoolItem (bu_isRegex item)]),
     beforeInsert = keep_place, afterRemoved = keep_rows\<rparr>"

definition CommandModel :: "(command, unit) model_ops" where
  "CommandModel = \<lparr>columnCount = 3,
     getItemFromRow = (\<lambda>row original.
       (Command q_trimmed (cell_text (row ! 0)) (cell_text (row ! 1)) (cell_check (row ! 2)), row)),
     getRowFromItem = (\<lambda>item. write_row
       [setStringItem (cmd_name item), setStringItem (cmd_func item),
        setBoolItem (cmd_showInMsgContextMenu item)]),
     beforeInsert = keep_place, afterRemoved = keep_rows\<rparr>"

text \<open>The columns of \<open>HighlightModel\<close>, which \<open>UserHighlightModel\<close> uses as well.\<close>

definition UserHighlightModel :: "(qstring \<Rightarrow> qstring) \<Rightarrow> (highlight_phrase, unit) model_ops" where
  "UserHighlightModel fileName = \<lparr>columnCount = 8,
     getItemFromRow = (\<lambda>row original.
       (\<lparr>hp_pattern = cell_text (row ! 0), hp_showInMentions = cell_check (row ! 1), hp_hasAlert = cell_check (row ! 2),
         hp_hasSound = cell_check (row ! 3), hp_isRegex = cell_check (row ! 4), hp_isCaseSensitive = cell_check (row ! 5),
         hp_soundUrl = cell_user (row ! 6), hp_color = cell_color (row ! 7)\<rparr>, row)),
     getRowFromItem = (\<lambda>item. write_row
       [setStringItem (hp_pattern item), setBoolItem (hp_showInMentions item),
        setBoolItem (hp_hasAlert item), setBoolItem (hp_hasSound item),
        setBoolItem (hp_isRegex item), setBoolItem (hp_isCaseSensitive item),
        setFilePathItem fileName (hp_soundUrl item), setColorItem (hp_color item)]),
     beforeInsert = keep_place, afterRemoved = keep_rows\<rparr>"

definition BadgeHighlightModel :: "(qstring \<Rightarrow> qstring) \<Rightarrow> (highlight_badge, unit) model_ops" where
  "BadgeHighlightModel fileName = \<lparr>columnCount = 5,
     getItemFromRow = (\<lambda>row original.
       (HighlightBadge (hb_badgeName original) (cell_text (row ! 0)) (cell_check (row ! 1)) (cell_check (row ! 2))
          (cell_user (row ! 3)) (cell_color (row ! 4)), row)),
     getRowFromItem = (\<lambda>item. write_row
       [setStringItem (hb_displayName item), setBoolItem (hb_hasAlert item),
        setBoolItem (hb_hasSound item), setFilePathItem fileName (hb_soundUrl item),
        setColorItem (hb_color item)]),
     beforeInsert = keep_place, afterRemoved = keep_rows\<rparr>"

text \<open>
  A filter keeps its id. The constructor of a filter always returns, an invalid text is a record that
  says so. The third column shows the validity and is rewritten whenever the row is read.
\<close>

definition valid_cell :: "filter_record \<Rightarrow> cell \<Rightarrow> cell" where
  "valid_cell r = setStringItem (if record_valid r then ''Valid'' else ''Show errors'') \<circ> setBoolItem (record_valid r)"

definition FilterModel :: "(qstring \<Rightarrow> qstring list) \<Rightarrow> (qstring \<Rightarrow> int option) \<Rightarrow> (filter_record, unit) model_ops" where
  "FilterModel globalMatch textToInt = \<lparr>columnCount = 3,
     getItemFromRow = (\<lambda>row original.
       (let item = projr (FilterRecord globalMatch textToInt (cell_text (row ! 0)) (cell_text (row ! 1)) (fr_id original))
        in (item, row[2 := valid_cell item (row ! 2)]))),
     getRowFromItem = (\<lambda>item. write_row
       [setStringItem (fr_name item), setStringItem (fr_filter item), valid_cell item]),
     beforeInsert = keep_place, afterRemoved = keep_rows\<rparr>"

section \<open>Each meets the interface\<close>

text \<open>What is left of the interface for a model with the base class's hooks.\<close>

lemma plain_row_model:
  assumes "beforeInsert ops = keep_place" "afterRemoved ops = keep_rows"
    and "\<And>v cells. length cells = columnCount ops \<Longrightarrow> length (getRowFromItem ops v cells) = columnCount ops"
    and "\<And>v. good v \<Longrightarrow> getItemFromRow ops (getRowFromItem ops v (createRow ops)) v =
          (v, getRowFromItem ops v (createRow ops))"
    and "\<And>orig cells v cells'. good orig \<Longrightarrow> length cells = columnCount ops \<Longrightarrow>
          getItemFromRow ops cells orig = (v, cells') \<Longrightarrow>
          good v \<and> length cells' = columnCount ops \<and> fst (getItemFromRow ops cells' orig) = v"
  shows "row_model ops good"
proof (unfold_locales, goal_cases)
  case 1
  then show ?case by (rule assms(3))
next
  case 2
  then show ?case by (rule assms(4))
next
  case 3
  then show ?case by (rule assms(5))
next
  case (4 v p m m' q)
  then show ?case by (simp add: assms(1))
next
  case (5 v p m m')
  then show ?case by (simp add: assms(2))
qed

interpretation ignores: row_model IgnoreModel "\<lambda>_. True"
  by (rule plain_row_model) (auto simp: IgnoreModel_def createRow_def numeral_eq_Suc)

interpretation nicknames: row_model NicknamesModel "\<lambda>_. True"
  by (rule plain_row_model) (auto simp: NicknamesModel_def createRow_def numeral_eq_Suc)

interpretation muted_channels: row_model MutedChannelModel "\<lambda>_. True"
  by (rule plain_row_model) (auto simp: MutedChannelModel_def createRow_def)

interpretation notifications: row_model NotificationModel "\<lambda>_. True"
  by (rule plain_row_model) (auto simp: NotificationModel_def createRow_def)

interpretation blacklist: row_model HighlightBlacklistModel "\<lambda>_. True"
  by (rule plain_row_model) (auto simp: HighlightBlacklistModel_def createRow_def numeral_eq_Suc)

lemma replicate_8: "replicate 8 x = [x, x, x, x, x, x, x, x]"
  by (simp add: numeral_eq_Suc)

interpretation user_highlights: row_model "UserHighlightModel fileName" "\<lambda>_. True" for fileName
proof (rule plain_row_model)
  show "getItemFromRow (UserHighlightModel fileName) (getRowFromItem (UserHighlightModel fileName) v
      (createRow (UserHighlightModel fileName))) v =
      (v, getRowFromItem (UserHighlightModel fileName) v (createRow (UserHighlightModel fileName)))" for v
    by (simp add: UserHighlightModel_def createRow_def replicate_8)
qed (simp_all add: UserHighlightModel_def)

interpretation commands: row_model CommandModel "\<lambda>c. q_trimmed (cmd_name c) = cmd_name c \<and> q_trimmed (cmd_func c) = cmd_func c"
  by (rule plain_row_model) (auto simp: CommandModel_def createRow_def Command_def numeral_eq_Suc)

definition built_badge :: "highlight_badge \<Rightarrow> bool" where
  "built_badge h \<longleftrightarrow> h = HighlightBadge (hb_badgeName h) (hb_displayName h) (hb_hasAlert h) (hb_hasSound h)
     (hb_soundUrl h) (hb_color h)"

lemma HighlightBadge_fields [simp]:
  "hb_badgeName (HighlightBadge n d a s u c) = n" "hb_displayName (HighlightBadge n d a s u c) = d"
  "hb_hasAlert (HighlightBadge n d a s u c) = a" "hb_hasSound (HighlightBadge n d a s u c) = s"
  "hb_soundUrl (HighlightBadge n d a s u c) = u" "hb_color (HighlightBadge n d a s u c) = c"
  by (simp_all add: HighlightBadge_def Let_def)

interpretation badge_highlights: row_model "BadgeHighlightModel fileName" built_badge for fileName
proof (rule plain_row_model)
  show "getItemFromRow (BadgeHighlightModel fileName) (getRowFromItem (BadgeHighlightModel fileName) v
      (createRow (BadgeHighlightModel fileName))) v =
      (v, getRowFromItem (BadgeHighlightModel fileName) v (createRow (BadgeHighlightModel fileName)))"
    if "built_badge v" for v
    using that unfolding built_badge_def by (simp add: BadgeHighlightModel_def createRow_def numeral_eq_Suc)
qed (auto simp: BadgeHighlightModel_def createRow_def built_badge_def numeral_eq_Suc)

definition built_filter :: "(qstring \<Rightarrow> qstring list) \<Rightarrow> (qstring \<Rightarrow> int option) \<Rightarrow> filter_record \<Rightarrow> bool" where
  "built_filter globalMatch textToInt r \<longleftrightarrow>
     FilterRecord globalMatch textToInt (fr_name r) (fr_filter r) (fr_id r) = Inr r"

lemma FilterRecord_built:
  "built_filter gm tti (projr (FilterRecord gm tti name input i)) \<and>
   fr_id (projr (FilterRecord gm tti name input i)) = i"
  using parser_returns [of gm tti input] by (auto simp: FilterRecord_def built_filter_def)

interpretation filter_records: row_model "FilterModel gm tti" "built_filter gm tti" for gm tti
proof (rule plain_row_model)
  show "getItemFromRow (FilterModel gm tti) (getRowFromItem (FilterModel gm tti) v (createRow (FilterModel gm tti))) v =
      (v, getRowFromItem (FilterModel gm tti) v (createRow (FilterModel gm tti)))"
    if "built_filter gm tti v" for v
    using that unfolding built_filter_def
    by (simp add: FilterModel_def createRow_def numeral_eq_Suc valid_cell_def Let_def cell_setData_def)
  show "built_filter gm tti v \<and> length cells' = columnCount (FilterModel gm tti) \<and>
      fst (getItemFromRow (FilterModel gm tti) cells' orig) = v"
    if "length cells = columnCount (FilterModel gm tti)"
      "getItemFromRow (FilterModel gm tti) cells orig = (v, cells')" for orig cells v cells'
    using that FilterRecord_built by (auto simp: FilterModel_def Let_def)
qed (auto simp: FilterModel_def numeral_eq_Suc)

section \<open>A table shows its vector\<close>



end
