(* ===== verification/Hotkeys.thy ===== *)
theory Hotkeys
  imports Qt_Text Signal_Vector "HOL-Library.Char_ord" "HOL-Library.List_Lexorder"
begin

text \<open>
  \<open>controllers/hotkeys\<close>: the hotkeys of the user and the program's default hotkeys
  (\<open>HotkeyController.cpp\<close>, \<open>Hotkey.cpp\<close>), the table of the actions (\<open>ActionNames.hpp\<close>) and the parsing of
  arguments (\<open>HotkeyHelpers.cpp\<close>).

  A key sequence is its list of key codes; Qt's conversions from and to text are the record \<open>key_ops\<close>.
  The settings of the submodule \<open>pajlada::Settings\<close> are the record \<open>settings_ops\<close> over a state of any
  type. A \<open>std::set\<close> is its sorted list.
\<close>

section \<open>Categories and hotkeys\<close>

datatype hotkey_category = PopupWindow | Split | SplitInput | Window

text \<open>The order of the enum.\<close>

primrec category_rank :: "hotkey_category \<Rightarrow> nat" where
  "category_rank PopupWindow = 0"
| "category_rank Split = 1"
| "category_rank SplitInput = 2"
| "category_rank Window = 3"

lemma category_rank_inj: "category_rank a = category_rank b \<longleftrightarrow> a = b"
  by (cases a; cases b) simp_all

instantiation hotkey_category :: linorder
begin

definition less_eq_hotkey_category :: "hotkey_category \<Rightarrow> hotkey_category \<Rightarrow> bool" where
  "less_eq_hotkey_category a b \<longleftrightarrow> category_rank a \<le> category_rank b"

definition less_hotkey_category :: "hotkey_category \<Rightarrow> hotkey_category \<Rightarrow> bool" where
  "less_hotkey_category a b \<longleftrightarrow> category_rank a < category_rank b"

instance
  by standard (auto simp: less_eq_hotkey_category_def less_hotkey_category_def category_rank_inj)

end

record hotkey_category_data =
  hcd_name :: qstring
  hcd_displayName :: qstring

definition hotkeyCategories :: "(hotkey_category \<times> hotkey_category_data) list" where
  "hotkeyCategories =
     [(PopupWindow, \<lparr>hcd_name = ''popupWindow'', hcd_displayName = ''Popup Windows''\<rparr>),
      (Split, \<lparr>hcd_name = ''split'', hcd_displayName = ''Split''\<rparr>),
      (SplitInput, \<lparr>hcd_name = ''splitInput'', hcd_displayName = ''Split input box''\<rparr>),
      (Window, \<lparr>hcd_name = ''window'', hcd_displayName = ''Window''\<rparr>)]"

definition categoryDisplayName :: "hotkey_category \<Rightarrow> qstring" where
  "categoryDisplayName c = (case map_of hotkeyCategories c of None \<Rightarrow> [] | Some d \<Rightarrow> hcd_displayName d)"

definition categoryName :: "hotkey_category \<Rightarrow> qstring" where
  "categoryName c = (case map_of hotkeyCategories c of None \<Rightarrow> [] | Some d \<Rightarrow> hcd_name d)"

definition hotkeyCategoryFromName :: "qstring \<Rightarrow> hotkey_category option" where
  "hotkeyCategoryFromName n = map_option fst (List.find (\<lambda>(c, d). hcd_name d = n) hotkeyCategories)"

record hotkey =
  hk_category :: hotkey_category
  hk_keySequence :: "int list"
  hk_action :: qstring
  hk_arguments :: "qstring list"
  hk_name :: qstring

definition hotkeySortCompare :: "hotkey \<Rightarrow> hotkey \<Rightarrow> bool" where
  "hotkeySortCompare a b =
     (if hk_category a = hk_category b then hk_name a < hk_name b else hk_category a < hk_category b)"

datatype shortcut_context = WindowShortcut | WidgetWithChildrenShortcut

fun getContext :: "hotkey_category \<Rightarrow> shortcut_context" where
  "getContext Window = WindowShortcut"
| "getContext Split = WidgetWithChildrenShortcut"
| "getContext SplitInput = WidgetWithChildrenShortcut"
| "getContext PopupWindow = WindowShortcut"

definition parseHotkeyArguments :: "qstring \<Rightarrow> qstring list" where
  "parseHotkeyArguments argumentString =
     (if q_trimmed argumentString = [] then []
      else map q_trimmed (split_on (CHR 0x0A) (q_trimmed argumentString)))"

section \<open>Actions\<close>

record action_definition =
  ad_displayName :: qstring
  ad_argumentDescription :: qstring
  ad_min :: nat
  ad_max :: nat

definition plain_action :: "qstring \<Rightarrow> action_definition" where
  "plain_action d = \<lparr>ad_displayName = d, ad_argumentDescription = [], ad_min = 0, ad_max = 0\<rparr>"

definition popup_actions :: "(qstring \<times> action_definition) list" where
  "popup_actions =
    [(''reject'', plain_action ''Confirmable popups: Cancel''),
     (''accept'', plain_action ''Confirmable popups: Confirm''),
     (''delete'', plain_action ''Close''),
     (''openTab'', \<lparr>ad_displayName = ''Select Tab'',
        ad_argumentDescription = ''<next, previous, or index of tab to select>'', ad_min = 1, ad_max = 1\<rparr>),
     (''scrollPage'', \<lparr>ad_displayName = ''Scroll'',
        ad_argumentDescription = ''<up or down>'', ad_min = 1, ad_max = 1\<rparr>),
     (''search'', plain_action ''Focus search box''),
     (''execModeratorAction'', \<lparr>ad_displayName = ''Usercard: execute moderation action'',
        ad_argumentDescription = ''<ban, unban or number of the timeout button to use>'', ad_min = 1, ad_max = 1\<rparr>)]"

definition split_actions :: "(qstring \<times> action_definition) list" where
  "split_actions =
    [(''changeChannel'', plain_action ''Change channel''),
     (''clearMessages'', plain_action ''Clear messages''),
     (''createClip'', plain_action ''Create a clip''),
     (''delete'', plain_action ''Close''),
     (''focus'', \<lparr>ad_displayName = ''Focus neighbouring split'',
        ad_argumentDescription = ''<up, down, left, or right>'', ad_min = 1, ad_max = 1\<rparr>),
     (''openInBrowser'', plain_action ''Open channel in browser''),
     (''openInCustomPlayer'', plain_action ''Open stream in custom player''),
     (''openInStreamlink'', plain_action ''Open stream in streamlink''),
     (''openModView'', plain_action ''Open mod view in browser''),
     (''openViewerList'', plain_action ''Open viewer list''),
     (''pickFilters'', plain_action ''Pick filters''),
     (''reconnect'', plain_action ''Reconnect to chat''),
     (''reloadEmotes'', \<lparr>ad_displayName = ''Reload emotes'',
        ad_argumentDescription = ''[channel or subscriber]'', ad_min = 0, ad_max = 1\<rparr>),
     (''runCommand'', \<lparr>ad_displayName = ''Run a command'',
        ad_argumentDescription = ''<name of command>'', ad_min = 1, ad_max = 1\<rparr>),
     (''scrollPage'', \<lparr>ad_displayName = ''Scroll'',
        ad_argumentDescription = ''<up or down>'', ad_min = 1, ad_max = 1\<rparr>),
     (''scrollToBottom'', plain_action ''Scroll to the bottom''),
     (''scrollToTop'', plain_action ''Scroll to the top''),
     (''setChannelNotification'', \<lparr>ad_displayName = ''Set channel live notification'',
        ad_argumentDescription = ''[on or off. default: toggle]'', ad_min = 0, ad_max = 1\<rparr>),
     (''setModerationMode'', \<lparr>ad_displayName = ''Set moderation mode'',
        ad_argumentDescription = ''[on or off. default: toggle]'', ad_min = 0, ad_max = 1\<rparr>),
     (''showSearch'', plain_action ''Search current channel''),
     (''showGlobalSearch'', plain_action ''Search all channels''),
     (''startWatching'', plain_action ''Start watching''),
     (''debug'', plain_action ''Show debug popup'')]"

definition input_actions :: "(qstring \<times> action_definition) list" where
  "input_actions =
    [(''clear'', plain_action ''Clear message''),
     (''copy'', \<lparr>ad_displayName = ''Copy'',
        ad_argumentDescription = ''<source of text: split, splitInput or auto>'', ad_min = 1, ad_max = 1\<rparr>),
     (''cursorToStart'', \<lparr>ad_displayName = ''To start of message'',
        ad_argumentDescription = ''<withSelection or withoutSelection>'', ad_min = 1, ad_max = 1\<rparr>),
     (''cursorToEnd'', \<lparr>ad_displayName = ''To end of message'',
        ad_argumentDescription = ''<withSelection or withoutSelection>'', ad_min = 1, ad_max = 1\<rparr>),
     (''nextMessage'', plain_action ''Choose next sent message''),
     (''openEmotesPopup'', plain_action ''Open emotes list''),
     (''paste'', plain_action ''Paste''),
     (''previousMessage'', plain_action ''Choose previously sent message''),
     (''redo'', plain_action ''Redo''),
     (''selectAll'', plain_action ''Select all''),
     (''selectWord'', plain_action ''Select word''),
     (''sendMessage'', \<lparr>ad_displayName = ''Send message'',
        ad_argumentDescription = ''[keepInput to not clear the text after sending]'', ad_min = 0, ad_max = 1\<rparr>),
     (''undo'', plain_action ''Undo'')]"

definition window_actions :: "(qstring \<times> action_definition) list" where
  "window_actions =
    [(''moveTab'', \<lparr>ad_displayName = ''Move tab'',
        ad_argumentDescription = ''<next, previous, or new index of tab>'', ad_min = 1, ad_max = 1\<rparr>),
     (''newSplit'', plain_action ''Create a new split''),
     (''newTab'', plain_action ''Create a new tab''),
     (''openSettings'', plain_action ''Open settings''),
     (''openTab'', \<lparr>ad_displayName = ''Select tab'',
        ad_argumentDescription = ''<last, next, previous, or index of tab to select>'', ad_min = 1, ad_max = 1\<rparr>),
     (''openQuickSwitcher'', plain_action ''Open the quick switcher''),
     (''popup'', \<lparr>ad_displayName = ''New popup'',
        ad_argumentDescription = ''<split or window>'', ad_min = 1, ad_max = 1\<rparr>),
     (''quit'', plain_action ''Quit Chatterino''),
     (''removeTab'', plain_action ''Remove current tab''),
     (''reopenSplit'', plain_action ''Reopen closed split''),
     (''setStreamerMode'', \<lparr>ad_displayName = ''Set streamer mode'',
        ad_argumentDescription = ''[on, off, toggle, or auto. default: toggle]'', ad_min = 0, ad_max = 1\<rparr>),
     (''toggleLocalR9K'', plain_action ''Toggle local R9K''),
     (''zoom'', \<lparr>ad_displayName = ''Zoom in/out'',
        ad_argumentDescription = ''<in, out, or reset>'', ad_min = 1, ad_max = 1\<rparr>),
     (''setTabVisibility'', \<lparr>ad_displayName = ''Set tab visibility'',
        ad_argumentDescription = ''[on, off, or toggle. default: toggle]'', ad_min = 0, ad_max = 1\<rparr>)]"

definition actionNames :: "(hotkey_category \<times> (qstring \<times> action_definition) list) list" where
  "actionNames =
     [(PopupWindow, popup_actions), (Split, split_actions), (SplitInput, input_actions), (Window, window_actions)]"

definition validAction :: "hotkey \<Rightarrow> bool" where
  "validAction h =
     (case map_of actionNames (hk_category h) of
        None \<Rightarrow> False
      | Some actions \<Rightarrow> map_of actions (hk_action h) \<noteq> None)"

section \<open>Key sequences and shortcuts\<close>

record key_ops =
  ko_parse :: "qstring \<Rightarrow> int list"
  ko_portable :: "int list \<Rightarrow> qstring"
  ko_native :: "int list \<Rightarrow> qstring"
  ko_parseNative :: "qstring \<Rightarrow> int list"
  ko_zoomIn :: "int list"
  ko_zoomOut :: "int list"

fun replace_return :: "nat \<Rightarrow> qstring \<Rightarrow> qstring" where
  "replace_return skip [] = []"
| "replace_return (Suc n) (c # s) = replace_return n s"
| "replace_return 0 (c # s) =
     (if prefix ''Return'' (c # s) then ''Enter'' @ replace_return 5 s else c # replace_return 0 s)"

text \<open>
  An action is missing from the map, is there without a function, or has a function \<open>'f\<close>. A shortcut
  has its keys, its context, the function and the arguments it is called with.
\<close>

fun shortcutsForCategory :: "key_ops \<Rightarrow> hotkey_category \<Rightarrow> (qstring \<Rightarrow> 'f option option) \<Rightarrow> hotkey list
    \<Rightarrow> (int list \<times> shortcut_context \<times> 'f \<times> qstring list) list" where
  "shortcutsForCategory ko category actionMap [] = []"
| "shortcutsForCategory ko category actionMap (h # hs) =
     (if hk_category h \<noteq> category then shortcutsForCategory ko category actionMap hs
      else case actionMap (hk_action h) of
        None \<Rightarrow> shortcutsForCategory ko category actionMap hs
      | Some None \<Rightarrow> shortcutsForCategory ko category actionMap hs
      | Some (Some f) \<Rightarrow>
          (let create = (\<lambda>keys. (keys, getContext (hk_category h), f, hk_arguments h));
               stringified = ko_native ko (hk_keySequence h)
           in (if sublist ''Return'' stringified
               then [create (ko_parseNative ko (replace_return 0 stringified))] else [])
              @ [create (hk_keySequence h)]
              @ shortcutsForCategory ko category actionMap hs))"

section \<open>The controller\<close>

definition hk_append :: "hotkey \<Rightarrow> hotkey signal_vector \<Rightarrow> hotkey signal_vector" where
  "hk_append h v = (case sv_append (Some hotkeySortCompare) h v of Some (_, v') \<Rightarrow> v' | None \<Rightarrow> v)"

definition getHotkeyByName :: "qstring \<Rightarrow> hotkey signal_vector \<Rightarrow> hotkey option" where
  "getHotkeyByName n v = List.find (\<lambda>h. hk_name h = n) (sv_items v)"

definition replaceHotkey :: "qstring \<Rightarrow> hotkey \<Rightarrow> hotkey signal_vector \<Rightarrow> hotkey signal_vector" where
  "replaceHotkey oldName newHotkey v =
     hk_append newHotkey
       (case find_index (\<lambda>h. hk_name h = oldName) (sv_items v) of
          None \<Rightarrow> v
        | Some i \<Rightarrow> (case sv_removeAt (int i) v of None \<Rightarrow> v | Some (_, v') \<Rightarrow> v'))"

definition isDuplicate :: "hotkey \<Rightarrow> qstring \<Rightarrow> hotkey signal_vector \<Rightarrow> bool" where
  "isDuplicate h ignoreNamed v =
     list_ex (\<lambda>s. \<not> (hk_name s = ignoreNamed \<or> hk_name s = hk_name h) \<and>
       hk_category s = hk_category h \<and> hk_keySequence s = hk_keySequence h) (sv_items v)"

text \<open>A default hotkey as \<open>addDefaults\<close> passes it: category, keys, action, arguments, name.\<close>

type_synonym default_hotkey = "hotkey_category \<times> int list \<times> qstring \<times> qstring list \<times> qstring"

definition popup_defaults :: "(qstring \<Rightarrow> int list) \<Rightarrow> default_hotkey list" where
  "popup_defaults key =
      [(PopupWindow, key ''Escape'', ''delete'', [], ''close popup window'')]
    @ map (\<lambda>i. (PopupWindow, key (qarg ''Ctrl+%1'' (show_nat (i + 1))), ''openTab'', [show_nat i], qarg ''popup select tab #%1'' (show_nat (i + 1)))) [0..<8]
    @ [(PopupWindow, key ''Ctrl+9'', ''openTab'', [''last''], ''popup select last tab''),
       (PopupWindow, key ''Ctrl+Tab'', ''openTab'', [''next''], ''popup select next tab''),
       (PopupWindow, key ''Ctrl+Shift+Tab'', ''openTab'', [''previous''], ''popup select previous tab''),
       (PopupWindow, key ''PgUp'', ''scrollPage'', [''up''], ''popup scroll up''),
       (PopupWindow, key ''PgDown'', ''scrollPage'', [''down''], ''popup scroll down''),
       (PopupWindow, key ''Return'', ''accept'', [], ''popup accept''),
       (PopupWindow, key ''Escape'', ''reject'', [], ''popup reject''),
       (PopupWindow, key ''Ctrl+F'', ''search'', [], ''popup focus search box'')]"

definition split_defaults :: "(qstring \<Rightarrow> int list) \<Rightarrow> default_hotkey list" where
  "split_defaults key =
      [(Split, key ''Ctrl+W'', ''delete'', [], ''delete''),
       (Split, key ''Ctrl+R'', ''changeChannel'', [], ''change channel''),
       (Split, key ''Ctrl+F'', ''showSearch'', [], ''show search''),
       (Split, key ''Ctrl+Shift+F'', ''showGlobalSearch'', [], ''show global search''),
       (Split, key ''Ctrl+F5'', ''reconnect'', [], ''reconnect''),
       (Split, key ''F5'', ''reloadEmotes'', [], ''reload emotes''),
       (Split, key ''Alt+x'', ''createClip'', [], ''create clip''),
       (Split, key ''Alt+left'', ''focus'', [''left''], ''focus left''),
       (Split, key ''Alt+down'', ''focus'', [''down''], ''focus down''),
       (Split, key ''Alt+up'', ''focus'', [''up''], ''focus up''),
       (Split, key ''Alt+right'', ''focus'', [''right''], ''focus right''),
       (Split, key ''PgUp'', ''scrollPage'', [''up''], ''scroll page up''),
       (Split, key ''PgDown'', ''scrollPage'', [''down''], ''scroll page down''),
       (Split, key ''Ctrl+End'', ''scrollToBottom'', [], ''scroll to bottom''),
       (Split, key ''Ctrl+Home'', ''scrollToTop'', [], ''scroll to top''),
       (Split, key ''F10'', ''debug'', [], ''open debug popup'')]"

definition input_defaults :: "(qstring \<Rightarrow> int list) \<Rightarrow> default_hotkey list" where
  "input_defaults key =
      [(SplitInput, key ''Ctrl+E'', ''openEmotesPopup'', [], ''emote picker''),
       (SplitInput, key ''Return'', ''sendMessage'', [], ''send message''),
       (SplitInput, key ''Ctrl+Return'', ''sendMessage'', [''keepInput''], ''send message and keep text''),
       (SplitInput, key ''Shift+Return'', ''sendMessage'', [], ''send message''),
       (SplitInput, key ''Ctrl+Shift+Return'', ''sendMessage'', [''keepInput''], ''send message and keep text''),
       (SplitInput, key ''Home'', ''cursorToStart'', [''withoutSelection''], ''go to start of input''),
       (SplitInput, key ''End'', ''cursorToEnd'', [''withoutSelection''], ''go to end of input''),
       (SplitInput, key ''Shift+Home'', ''cursorToStart'', [''withSelection''], ''go to start of input with selection''),
       (SplitInput, key ''Shift+End'', ''cursorToEnd'', [''withSelection''], ''go to end of input with selection''),
       (SplitInput, key ''Up'', ''previousMessage'', [], ''previous message''),
       (SplitInput, key ''Down'', ''nextMessage'', [], ''next message'')]"

definition window_defaults :: "(qstring \<Rightarrow> int list) \<Rightarrow> int list \<Rightarrow> int list \<Rightarrow> default_hotkey list" where
  "window_defaults key zoomIn zoomOut =
      [(Window, key ''Ctrl+P'', ''openSettings'', [], ''open settings''),
       (Window, key ''Ctrl+T'', ''newSplit'', [], ''new split'')]
    @ map (\<lambda>i. (Window, key (qarg ''Ctrl+%1'' (show_nat (i + 1))), ''openTab'', [show_nat i], qarg ''select tab #%1'' (show_nat (i + 1)))) [0..<8]
    @ [(Window, key ''Ctrl+9'', ''openTab'', [''last''], ''select last tab''),
       (Window, key ''Ctrl+Tab'', ''openTab'', [''next''], ''select next tab''),
       (Window, key ''Ctrl+Shift+Tab'', ''openTab'', [''previous''], ''select previous tab''),
       (Window, key ''Ctrl+N'', ''popup'', [''split''], ''new popup window''),
       (Window, key ''Ctrl+Shift+N'', ''popup'', [''window''], ''new popup window from tab''),
       (Window, zoomIn, ''zoom'', [''in''], ''zoom in''),
       (Window, zoomOut, ''zoom'', [''out''], ''zoom out''),
       (Window, key ''CTRL+0'', ''zoom'', [''reset''], ''zoom reset''),
       (Window, key ''Ctrl+Shift+T'', ''newTab'', [], ''new tab''),
       (Window, key ''Ctrl+Shift+W'', ''removeTab'', [], ''remove tab''),
       (Window, key ''Ctrl+G'', ''reopenSplit'', [], ''reopen split''),
       (Window, key ''Ctrl+H'', ''toggleLocalR9K'', [], ''toggle local r9k''),
       (Window, key ''Ctrl+K'', ''openQuickSwitcher'', [], ''open quick switcher''),
       (Window, key ''Ctrl+U'', ''setTabVisibility'', [''toggle''], ''toggle tab visibility'')]"

definition default_hotkeys :: "key_ops \<Rightarrow> default_hotkey list" where
  "default_hotkeys ko =
     popup_defaults (ko_parse ko) @ split_defaults (ko_parse ko) @ input_defaults (ko_parse ko)
     @ window_defaults (ko_parse ko) (ko_zoomIn ko) (ko_zoomOut ko)"

fun tryAddDefault :: "default_hotkey \<Rightarrow> qstring list \<times> hotkey signal_vector \<Rightarrow> qstring list \<times> hotkey signal_vector" where
  "tryAddDefault (category, keys, action, args, name) (addedHotkeys, v) =
     (if name \<in> set addedHotkeys then (addedHotkeys, v)
      else (insort_insert name addedHotkeys,
        hk_append \<lparr>hk_category = category, hk_keySequence = keys, hk_action = action, hk_arguments = args,
          hk_name = name\<rparr> v))"

definition addDefaults :: "key_ops \<Rightarrow> qstring list \<times> hotkey signal_vector \<Rightarrow> qstring list \<times> hotkey signal_vector" where
  "addDefaults ko s = fold tryAddDefault (default_hotkeys ko) s"

text \<open>
  The settings, by path: texts, lists of texts, and objects. Reading what is not there gives an empty
  text or list.
\<close>

record 's settings_ops =
  so_getText :: "'s \<Rightarrow> qstring \<Rightarrow> qstring"
  so_setText :: "qstring \<Rightarrow> qstring \<Rightarrow> 's \<Rightarrow> 's"
  so_getList :: "'s \<Rightarrow> qstring \<Rightarrow> qstring list"
  so_setList :: "qstring \<Rightarrow> qstring list \<Rightarrow> 's \<Rightarrow> 's"
  so_keys :: "'s \<Rightarrow> qstring \<Rightarrow> qstring list"
  so_setObject :: "qstring \<Rightarrow> 's \<Rightarrow> 's"

definition hotkey_path :: "qstring \<Rightarrow> qstring \<Rightarrow> qstring" where
  "hotkey_path key field = ''/hotkeys/'' @ key @ ''/'' @ field"

definition save_hotkey :: "'s settings_ops \<Rightarrow> key_ops \<Rightarrow> hotkey \<Rightarrow> 's \<Rightarrow> 's" where
  "save_hotkey so ko h s =
     so_setList so (hotkey_path (hk_name h) ''arguments'') (hk_arguments h)
      (so_setText so (hotkey_path (hk_name h) ''category'') (categoryName (hk_category h))
       (so_setText so (hotkey_path (hk_name h) ''keySequence'') (ko_portable ko (hk_keySequence h))
        (so_setText so (hotkey_path (hk_name h) ''action'') (hk_action h) s)))"

definition saveHotkeys :: "'s settings_ops \<Rightarrow> key_ops \<Rightarrow> hotkey signal_vector \<Rightarrow> 's \<Rightarrow> 's" where
  "saveHotkeys so ko v s =
     (let defaultHotkeysAdded = so_getList so s ''/hotkeys/addedDefaults'';
          s1 = so_setObject so ''/hotkeys'' s;
          s2 = so_setList so ''/hotkeys/addedDefaults'' defaultHotkeysAdded s1
      in fold (save_hotkey so ko) (sv_items v) s2)"

definition read_hotkey :: "'s settings_ops \<Rightarrow> key_ops \<Rightarrow> 's \<Rightarrow> qstring \<Rightarrow> hotkey option" where
  "read_hotkey so ko s key =
     (let name = so_getText so s (hotkey_path key ''category'');
          keys = so_getText so s (hotkey_path key ''keySequence'');
          action = so_getText so s (hotkey_path key ''action'');
          args = so_getList so s (hotkey_path key ''arguments'')
      in if name = [] \<or> keys = [] \<or> action = [] then None
         else case hotkeyCategoryFromName name of
           None \<Rightarrow> None
         | Some category \<Rightarrow> Some \<lparr>hk_category = category, hk_keySequence = ko_parse ko keys, hk_action = action,
             hk_arguments = args, hk_name = key\<rparr>)"

fun load_loop :: "'s settings_ops \<Rightarrow> key_ops \<Rightarrow> 's \<Rightarrow> qstring list \<Rightarrow> hotkey signal_vector \<Rightarrow> hotkey signal_vector" where
  "load_loop so ko s [] v = v"
| "load_loop so ko s (key # ks) v =
     (if key = ''addedDefaults'' then load_loop so ko s ks v
      else case read_hotkey so ko s key of
        None \<Rightarrow> load_loop so ko s ks v
      | Some h \<Rightarrow> load_loop so ko s ks (hk_append h v))"

definition loadHotkeys :: "'s settings_ops \<Rightarrow> key_ops \<Rightarrow> hotkey signal_vector \<Rightarrow> 's \<Rightarrow> hotkey signal_vector \<times> 's" where
  "loadHotkeys so ko v s =
     (let set0 = fold insort_insert (so_getList so s ''/hotkeys/addedDefaults'') [];
          keys = so_keys so s ''/hotkeys'';
          (set1, v1) = addDefaults ko (set0, v);
          s1 = so_setList so ''/hotkeys/addedDefaults'' set1 s;
          v2 = load_loop so ko s1 keys v1
      in (v2, if length set0 \<noteq> length set1 then saveHotkeys so ko v2 s1 else s1))"

fun remove_first :: "nat \<Rightarrow> hotkey signal_vector \<Rightarrow> hotkey signal_vector" where
  "remove_first 0 v = v"
| "remove_first (Suc n) v = remove_first n (case sv_removeAt 0 v of None \<Rightarrow> v | Some (_, v') \<Rightarrow> v')"

definition resetToDefaults :: "'s settings_ops \<Rightarrow> key_ops \<Rightarrow> hotkey signal_vector \<Rightarrow> 's \<Rightarrow> hotkey signal_vector \<times> 's" where
  "resetToDefaults so ko v s =
     (let s1 = so_setList so ''/hotkeys/addedDefaults'' [] s;
          v1 = remove_first (length (sv_items v)) v
      in loadHotkeys so ko v1 (saveHotkeys so ko v1 s1))"

end
