(* ===== verification/Hotkeys_Correct.thy ===== *)
theory Hotkeys_Correct
  imports Hotkeys "HOL-Library.Product_Lexorder"
begin

text \<open>
  The hotkeys survive a restart, a reset gives the default hotkeys, and the table of the default hotkeys
  agrees with the table of the actions. What the settings promise is the locale \<open>settings_store\<close>;
  \<open>path_store\<close> is a store that meets it.
\<close>

section \<open>The sorted vector\<close>

definition hkey :: "hotkey \<Rightarrow> hotkey_category \<times> qstring" where
  "hkey h = (hk_category h, hk_name h)"

lemma hotkeySortCompare_less: "hotkeySortCompare a b \<longleftrightarrow> hkey a < hkey b"
  by (auto simp: hotkeySortCompare_def hkey_def less_prod_def')

abbreviation hotkeys_sorted :: "hotkey list \<Rightarrow> bool" where
  "hotkeys_sorted hs \<equiv> sorted_wrt (<) (map hkey hs)"

lemma sorted_key_unique:
  fixes f :: "'a \<Rightarrow> 'b::linorder"
  assumes "sorted_wrt (<) (map f xs)" "sorted_wrt (<) (map f ys)" "set xs = set ys"
  shows "xs = ys"
proof -
  have "map f xs = map f ys"
    using assms by (intro strict_sorted_equal) auto
  moreover have "inj_on f (set xs)"
    using assms(1) by (simp add: strict_sorted_iff distinct_map)
  ultimately show ?thesis using assms(3) by (simp add: inj_on_map_eq_map)
qed

definition sorted_insert :: "hotkey \<Rightarrow> hotkey list \<Rightarrow> hotkey list" where
  "sorted_insert h hs = takeWhile (\<lambda>x. hkey x < hkey h) hs @ h # dropWhile (\<lambda>x. hkey x < hkey h) hs"

lemma insert_at_takeWhile:
  "insert_at (length (takeWhile P xs)) x xs = takeWhile P xs @ x # dropWhile P xs"
proof -
  have "take (length (takeWhile P xs)) xs = takeWhile P xs" by (rule takeWhile_eq_take [symmetric])
  moreover have "drop (length (takeWhile P xs)) xs = dropWhile P xs" by (rule dropWhile_eq_drop [symmetric])
  ultimately show ?thesis by (simp only: insert_at_def)
qed

lemma hk_append_items: "sv_items (hk_append h v) = sorted_insert h (sv_items v)"
  by (simp add: hk_append_def sv_append_def sv_insert_def itemsChanged_def sorted_insert_def
      hotkeySortCompare_less Let_def insert_at_takeWhile)

lemma set_sorted_insert [simp]: "set (sorted_insert h hs) = insert h (set hs)"
proof -
  have "set (takeWhile P hs) \<union> set (dropWhile P hs) = set hs" for P
    by (metis set_append takeWhile_dropWhile_id)
  then show ?thesis unfolding sorted_insert_def by fastforce
qed

lemma sorted_insert_sorted [invariants]:
  "hotkeys_sorted hs \<Longrightarrow> hkey h \<notin> hkey ` set hs \<Longrightarrow> hotkeys_sorted (sorted_insert h hs)"
proof (induction hs)
  case (Cons x hs)
  have "hkey h < hkey x" if "\<not> hkey x < hkey h" using that Cons.prems(2) by auto
  moreover have "hkey h < hkey y" if "y \<in> set hs" "\<not> hkey x < hkey h" for y
    using Cons.prems(1) that calculation by (auto intro: less_trans)
  ultimately show ?case using Cons
    by (auto simp: sorted_insert_def dest: set_takeWhileD set_dropWhileD)
qed (simp add: sorted_insert_def)

section \<open>What the settings promise\<close>

definition legal :: "qstring \<Rightarrow> bool" where
  "legal n \<longleftrightarrow> n \<noteq> [] \<and> CHR ''/'' \<notin> set n \<and> CHR ''~'' \<notin> set n"

text \<open>A hotkey whose key sequence Qt can print and read again, with a name that is the key of an object.\<close>

definition storable :: "key_ops \<Rightarrow> hotkey \<Rightarrow> bool" where
  "storable ko h \<longleftrightarrow> legal (hk_name h) \<and> hk_name h \<noteq> ''addedDefaults'' \<and> hk_action h \<noteq> [] \<and>
     ko_portable ko (hk_keySequence h) \<noteq> [] \<and> ko_parse ko (ko_portable ko (hk_keySequence h)) = hk_keySequence h"

definition add_key :: "qstring \<Rightarrow> qstring list \<Rightarrow> qstring list" where
  "add_key k ks = (if k \<in> set ks then ks else ks @ [k])"

text \<open>
  Keys without slash and tilde are the members of objects; a value is read back, writing one path
  leaves the others alone, and the keys of an object come in the order they were first written.
\<close>

locale settings_store =
  fixes so :: "'s settings_ops"
  assumes text_text: "legal n \<Longrightarrow> legal f \<Longrightarrow> legal m \<Longrightarrow> legal g \<Longrightarrow>
        so_getText so (so_setText so (hotkey_path n f) t s) (hotkey_path m g) =
        (if n = m \<and> f = g then t else so_getText so s (hotkey_path m g))"
    and list_list: "legal n \<Longrightarrow> legal f \<Longrightarrow> legal m \<Longrightarrow> legal g \<Longrightarrow>
        so_getList so (so_setList so (hotkey_path n f) l s) (hotkey_path m g) =
        (if n = m \<and> f = g then l else so_getList so s (hotkey_path m g))"
    and text_list: "legal n \<Longrightarrow> legal f \<Longrightarrow> legal m \<Longrightarrow> legal g \<Longrightarrow> (n, f) \<noteq> (m, g) \<Longrightarrow>
        so_getText so (so_setList so (hotkey_path n f) l s) (hotkey_path m g) = so_getText so s (hotkey_path m g)"
    and list_text: "legal n \<Longrightarrow> legal f \<Longrightarrow> legal m \<Longrightarrow> legal g \<Longrightarrow> (n, f) \<noteq> (m, g) \<Longrightarrow>
        so_getList so (so_setText so (hotkey_path n f) t s) (hotkey_path m g) = so_getList so s (hotkey_path m g)"
    and added_added: "so_getList so (so_setList so ''/hotkeys/addedDefaults'' l s) ''/hotkeys/addedDefaults'' = l"
    and added_text: "legal n \<Longrightarrow> legal f \<Longrightarrow> n \<noteq> ''addedDefaults'' \<Longrightarrow>
        so_getList so (so_setText so (hotkey_path n f) t s) ''/hotkeys/addedDefaults'' =
        so_getList so s ''/hotkeys/addedDefaults''"
    and added_list: "legal n \<Longrightarrow> legal f \<Longrightarrow> n \<noteq> ''addedDefaults'' \<Longrightarrow>
        so_getList so (so_setList so (hotkey_path n f) l s) ''/hotkeys/addedDefaults'' =
        so_getList so s ''/hotkeys/addedDefaults''"
    and text_added: "legal n \<Longrightarrow> legal f \<Longrightarrow> n \<noteq> ''addedDefaults'' \<Longrightarrow>
        so_getText so (so_setList so ''/hotkeys/addedDefaults'' l s) (hotkey_path n f) = so_getText so s (hotkey_path n f)"
    and list_added: "legal n \<Longrightarrow> legal f \<Longrightarrow> n \<noteq> ''addedDefaults'' \<Longrightarrow>
        so_getList so (so_setList so ''/hotkeys/addedDefaults'' l s) (hotkey_path n f) = so_getList so s (hotkey_path n f)"
    and keys_text: "legal n \<Longrightarrow> legal f \<Longrightarrow>
        so_keys so (so_setText so (hotkey_path n f) t s) ''/hotkeys'' = add_key n (so_keys so s ''/hotkeys'')"
    and keys_list: "legal n \<Longrightarrow> legal f \<Longrightarrow>
        so_keys so (so_setList so (hotkey_path n f) l s) ''/hotkeys'' = add_key n (so_keys so s ''/hotkeys'')"
    and keys_added: "so_keys so (so_setList so ''/hotkeys/addedDefaults'' l s) ''/hotkeys'' =
        add_key ''addedDefaults'' (so_keys so s ''/hotkeys'')"
    and keys_object: "so_keys so (so_setObject so ''/hotkeys'' s) ''/hotkeys'' = []"
begin

lemma legal_fields [simp]:
  "legal ''arguments''" "legal ''category''" "legal ''keySequence''" "legal ''action''"
  by (simp_all add: legal_def)

lemma add_key_idem [simp]: "add_key k (add_key k ks) = add_key k ks"
  by (simp add: add_key_def)

lemma save_hotkey_keys:
  "legal (hk_name h) \<Longrightarrow> so_keys so (save_hotkey so ko h s) ''/hotkeys'' = add_key (hk_name h) (so_keys so s ''/hotkeys'')"
  by (simp add: save_hotkey_def keys_text keys_list)

lemma save_hotkey_added:
  "legal (hk_name h) \<Longrightarrow> hk_name h \<noteq> ''addedDefaults'' \<Longrightarrow>
   so_getList so (save_hotkey so ko h s) ''/hotkeys/addedDefaults'' = so_getList so s ''/hotkeys/addedDefaults''"
  by (simp add: save_hotkey_def added_text added_list)

lemma category_from_name: "hotkeyCategoryFromName (categoryName c) = Some c \<and> categoryName c \<noteq> []"
  by (cases c) (simp_all add: hotkeyCategoryFromName_def categoryName_def hotkeyCategories_def)

lemma read_saved: "storable ko h \<Longrightarrow> read_hotkey so ko (save_hotkey so ko h s) (hk_name h) = Some h"
  using category_from_name
  by (simp add: storable_def read_hotkey_def save_hotkey_def Let_def text_text list_list text_list list_text)

lemma read_other:
  "legal n \<Longrightarrow> legal (hk_name h) \<Longrightarrow> n \<noteq> hk_name h \<Longrightarrow>
   read_hotkey so ko (save_hotkey so ko h s) n = read_hotkey so ko s n"
  by (simp add: read_hotkey_def save_hotkey_def Let_def text_text list_list text_list list_text)

lemma read_added:
  "legal n \<Longrightarrow> n \<noteq> ''addedDefaults'' \<Longrightarrow>
   read_hotkey so ko (so_setList so ''/hotkeys/addedDefaults'' l s) n = read_hotkey so ko s n"
  by (simp add: read_hotkey_def Let_def text_added list_added)

lemma save_all:
  assumes "distinct (map hk_name hs)" "\<forall>h \<in> set hs. storable ko h"
    and "\<forall>h \<in> set hs. hk_name h \<notin> set (so_keys so s ''/hotkeys'')"
  shows "so_keys so (fold (save_hotkey so ko) hs s) ''/hotkeys'' = so_keys so s ''/hotkeys'' @ map hk_name hs \<and>
    so_getList so (fold (save_hotkey so ko) hs s) ''/hotkeys/addedDefaults'' = so_getList so s ''/hotkeys/addedDefaults'' \<and>
    (\<forall>h \<in> set hs. read_hotkey so ko (fold (save_hotkey so ko) hs s) (hk_name h) = Some h)"
  using assms
proof (induction hs rule: rev_induct)
  case (snoc h hs)
  let ?s = "fold (save_hotkey so ko) hs s"
  have ih: "so_keys so ?s ''/hotkeys'' = so_keys so s ''/hotkeys'' @ map hk_name hs"
    "so_getList so ?s ''/hotkeys/addedDefaults'' = so_getList so s ''/hotkeys/addedDefaults''"
    "\<forall>h \<in> set hs. read_hotkey so ko ?s (hk_name h) = Some h"
    using snoc by auto
  have h: "storable ko h" "legal (hk_name h)" "hk_name h \<noteq> ''addedDefaults''"
    "hk_name h \<notin> set (so_keys so s ''/hotkeys'')" "hk_name h \<notin> hk_name ` set hs"
    using snoc.prems by (auto simp: storable_def)
  have "\<forall>g \<in> set hs. read_hotkey so ko (save_hotkey so ko h ?s) (hk_name g) = Some g"
  proof
    fix g assume g: "g \<in> set hs"
    have "legal (hk_name g)" using g snoc.prems(2) by (simp add: storable_def)
    moreover have "hk_name g \<noteq> hk_name h" using g h(5) by (metis imageI)
    ultimately have "legal (hk_name g)" "hk_name g \<noteq> hk_name h" by simp_all
    then show "read_hotkey so ko (save_hotkey so ko h ?s) (hk_name g) = Some g"
      using ih(3) g h(2) by (simp add: read_other)
  qed
  then show ?case using ih h read_saved [OF h(1)]
    by (auto simp: save_hotkey_keys save_hotkey_added add_key_def)
qed simp

lemma load_loop_reads:
  assumes "\<forall>h \<in> set hs. hk_name h \<noteq> ''addedDefaults'' \<and> read_hotkey so ko s (hk_name h) = Some h"
    and "distinct (map hk_name hs)" "hotkeys_sorted (sv_items v)" "hkey ` set hs \<inter> hkey ` set (sv_items v) = {}"
  shows "hotkeys_sorted (sv_items (load_loop so ko s (map hk_name hs) v)) \<and>
    set (sv_items (load_loop so ko s (map hk_name hs) v)) = set (sv_items v) \<union> set hs"
  using assms
proof (induction hs arbitrary: v)
  case (Cons h hs)
  have "hkey ` set hs \<inter> hkey ` set (sv_items (hk_append h v)) = {}"
    using Cons.prems(2,4) by (auto simp: hk_append_items hkey_def)
  moreover have "hotkeys_sorted (sv_items (hk_append h v))"
    using Cons.prems(3,4) by (auto simp: hk_append_items intro!: sorted_insert_sorted)
  ultimately show ?case using Cons.prems(1,2) Cons.IH [of "hk_append h v"]
    by (auto simp: hk_append_items)
qed simp

lemma addDefaults_known:
  "\<forall>d \<in> set ds. snd (snd (snd (snd d))) \<in> set added \<Longrightarrow> fold tryAddDefault ds (added, v) = (added, v)"
  by (induction ds) auto

lemma set_fold_insort: "set (fold insort_insert xs ys) = set xs \<union> set ys"
  by (induction xs arbitrary: ys) (auto simp: set_insort_insert)

lemma reload:
  assumes "hotkeys_sorted (sv_items v)" "distinct (map hk_name (sv_items v))" "\<forall>h \<in> set (sv_items v). storable ko h"
    and "\<forall>d \<in> set (default_hotkeys ko). snd (snd (snd (snd d))) \<in> set (so_getList so s ''/hotkeys/addedDefaults'')"
  shows "sv_items (fst (loadHotkeys so ko SignalVector (saveHotkeys so ko v s))) = sv_items v"
proof -
  let ?hs = "sv_items v"
  define s2 where "s2 = so_setList so ''/hotkeys/addedDefaults'' (so_getList so s ''/hotkeys/addedDefaults'')
    (so_setObject so ''/hotkeys'' s)"
  define s3 where "s3 = fold (save_hotkey so ko) ?hs s2"
  have k2: "so_keys so s2 ''/hotkeys'' = [''addedDefaults'']"
    by (simp add: s2_def keys_added keys_object add_key_def)
  have n: "hk_name h \<noteq> ''addedDefaults'' \<and> legal (hk_name h)" if "h \<in> set ?hs" for h
    using that assms(3) by (auto simp: storable_def)
  have s3: "so_keys so s3 ''/hotkeys'' = ''addedDefaults'' # map hk_name ?hs"
    "so_getList so s3 ''/hotkeys/addedDefaults'' = so_getList so s ''/hotkeys/addedDefaults''"
    "\<forall>h \<in> set ?hs. read_hotkey so ko s3 (hk_name h) = Some h"
    using save_all [OF assms(2,3), of s2] n k2 by (auto simp: s3_def s2_def added_added)
  define set0 where "set0 = fold insort_insert (so_getList so s3 ''/hotkeys/addedDefaults'') []"
  have add: "addDefaults ko (set0, SignalVector) = (set0, SignalVector)"
    unfolding addDefaults_def using assms(4) s3(2)
    by (intro addDefaults_known) (auto simp: set0_def set_fold_insort)
  define s4 where "s4 = so_setList so ''/hotkeys/addedDefaults'' set0 s3"
  have "fst (loadHotkeys so ko SignalVector s3) = load_loop so ko s4 (map hk_name ?hs) SignalVector"
    using add s3(1) by (simp add: loadHotkeys_def Let_def set0_def s4_def)
  moreover have "hotkeys_sorted (sv_items (load_loop so ko s4 (map hk_name ?hs) SignalVector)) \<and>
    set (sv_items (load_loop so ko s4 (map hk_name ?hs) SignalVector)) = set ?hs"
    using load_loop_reads [of ?hs ko s4 SignalVector] s3(3) n assms(2)
    by (simp add: SignalVector_def s4_def read_added)
  ultimately have "sv_items (fst (loadHotkeys so ko SignalVector s3)) = ?hs"
    using sorted_key_unique assms(1) by metis
  then show ?thesis by (simp add: saveHotkeys_def Let_def s3_def s2_def)
qed

end

definition default_hotkey_of :: "default_hotkey \<Rightarrow> hotkey" where
  "default_hotkey_of = (\<lambda>(c, k, a, args, n).
     \<lparr>hk_category = c, hk_keySequence = k, hk_action = a, hk_arguments = args, hk_name = n\<rparr>)"

lemma default_hotkey_name [simp]: "hk_name (default_hotkey_of d) = snd (snd (snd (snd d)))"
  by (simp add: default_hotkey_of_def split_beta)

text \<open>The first default hotkey of each name; a later one of the same name is never added.\<close>

fun first_named :: "qstring set \<Rightarrow> default_hotkey list \<Rightarrow> default_hotkey list" where
  "first_named seen [] = []"
| "first_named seen (d # ds) =
     (let n = hk_name (default_hotkey_of d)
      in if n \<in> seen then first_named seen ds else d # first_named (insert n seen) ds)"

lemma add_defaults_fresh:
  assumes "hotkeys_sorted (sv_items v)" "hk_name ` set (sv_items v) \<subseteq> set added"
  shows "hotkeys_sorted (sv_items (snd (fold tryAddDefault ds (added, v)))) \<and>
    set (sv_items (snd (fold tryAddDefault ds (added, v)))) =
      set (sv_items v) \<union> default_hotkey_of ` set (first_named (set added) ds)"
  using assms
proof (induction ds arbitrary: added v)
  case (Cons d ds)
  obtain c k a args n where d: "d = (c, k, a, args, n)" by (cases d)
  show ?case
  proof (cases "n \<in> set added")
    case True
    then show ?thesis using Cons d by simp
  next
    case False
    then have n: "n \<notin> hk_name ` set (sv_items v)" using Cons.prems(2) by auto
    define v' where "v' = hk_append (default_hotkey_of d) v"
    have t: "tryAddDefault d (added, v) = (insort_insert n added, v')"
      using False by (simp add: d v'_def default_hotkey_of_def)
    have s: "hotkeys_sorted (sv_items v')"
      unfolding v'_def hk_append_items
    proof (rule sorted_insert_sorted [OF Cons.prems(1)])
      show "hkey (default_hotkey_of d) \<notin> hkey ` set (sv_items v)"
        using n by (auto simp: hkey_def d)
    qed
    have "hk_name ` set (sv_items v') \<subseteq> set (insort_insert n added)"
      using Cons.prems(2) d by (auto simp: v'_def hk_append_items set_insort_insert)
    then show ?thesis using Cons.IH [OF s] s t False d
      by (auto simp: v'_def hk_append_items set_insort_insert)
  qed
qed simp

section \<open>A store\<close>

record store =
  st_texts :: "(qstring \<times> qstring) list"
  st_lists :: "(qstring \<times> qstring list) list"
  st_keys :: "qstring list"

definition empty_store :: store where
  "empty_store = \<lparr>st_texts = [], st_lists = [], st_keys = []\<rparr>"

definition key_of :: "qstring \<Rightarrow> qstring" where
  "key_of p = takeWhile (\<lambda>c. c \<noteq> CHR ''/'') (drop 9 p)"

definition path_store :: "store settings_ops" where
  "path_store = \<lparr>
     so_getText = (\<lambda>s p. case map_of (st_texts s) p of None \<Rightarrow> [] | Some t \<Rightarrow> t),
     so_setText = (\<lambda>p t s. s\<lparr>st_texts := (p, t) # st_texts s, st_keys := add_key (key_of p) (st_keys s)\<rparr>),
     so_getList = (\<lambda>s p. case map_of (st_lists s) p of None \<Rightarrow> [] | Some l \<Rightarrow> l),
     so_setList = (\<lambda>p l s. s\<lparr>st_lists := (p, l) # st_lists s, st_keys := add_key (key_of p) (st_keys s)\<rparr>),
     so_keys = (\<lambda>s p. if p = ''/hotkeys'' then st_keys s else []),
     so_setObject = (\<lambda>p s. if p = ''/hotkeys'' then empty_store else s)\<rparr>"

lemma hotkey_path_eq:
  assumes "legal n" "legal m" shows "hotkey_path n f = hotkey_path m g \<longleftrightarrow> n = m \<and> f = g"
proof
  assume "hotkey_path n f = hotkey_path m g"
  then have e: "n @ CHR ''/'' # f = m @ CHR ''/'' # g" by (simp add: hotkey_path_def)
  then have "takeWhile (\<lambda>c. c \<noteq> CHR ''/'') (n @ CHR ''/'' # f) = takeWhile (\<lambda>c. c \<noteq> CHR ''/'') (m @ CHR ''/'' # g)"
    by simp
  then have "n = m" using assms by (subst (asm) (1 2) takeWhile_append2) (auto simp: legal_def)
  then show "n = m \<and> f = g" using e by simp
qed simp

lemma key_of_path: "legal n \<Longrightarrow> key_of (hotkey_path n f) = n"
  by (subst key_of_def, simp add: hotkey_path_def, subst takeWhile_append2) (auto simp: legal_def)

lemma hotkey_path_added: "hotkey_path n f \<noteq> ''/hotkeys/addedDefaults''"
proof
  assume "hotkey_path n f = ''/hotkeys/addedDefaults''"
  then have "length (filter ((=) (CHR ''/'')) (hotkey_path n f)) = 2" by simp
  then show False by (simp add: hotkey_path_def)
qed

lemma key_of_added: "key_of ''/hotkeys/addedDefaults'' = ''addedDefaults''"
  by (simp add: key_of_def)

interpretation path_store: settings_store path_store
  by unfold_locales
    (auto simp: path_store_def hotkey_path_eq key_of_path hotkey_path_added hotkey_path_added [symmetric]
      empty_store_def key_of_added)

section \<open>The default hotkeys\<close>

lemma remove_first_all: "sv_items (remove_first (length (sv_items v)) v) = []"
proof (induction "length (sv_items v)" arbitrary: v)
  case (Suc n)
  then obtain x xs where x: "sv_items v = x # xs" by (cases "sv_items v") auto
  then obtain v' where "sv_removeAt 0 v = Some (x, v')" "sv_items v' = xs"
    by (auto simp: sv_removeAt_def itemsChanged_def)
  then show ?case using Suc.hyps(1) [of v'] Suc.hyps(2) x by simp
qed simp

text \<open>The default hotkeys without their keys, on which nothing here depends.\<close>

definition default_ok :: "default_hotkey \<Rightarrow> bool" where
  "default_ok = (\<lambda>(c, k, a, args, n).
     case map_of actionNames c of
       None \<Rightarrow> False
     | Some actions \<Rightarrow>
         (case map_of actions a of None \<Rightarrow> False | Some d \<Rightarrow> ad_min d \<le> length args \<and> length args \<le> ad_max d))"

lemma popup_defaults_ok: "list_all default_ok (popup_defaults key)"
  by code_simp

lemma split_defaults_ok: "list_all default_ok (split_defaults key)"
  by code_simp

lemma input_defaults_ok: "list_all default_ok (input_defaults key)"
  by code_simp

lemma window_defaults_ok: "list_all default_ok (window_defaults key zoomIn zoomOut)"
  by code_simp

lemma default_ok_valid: "default_ok d \<Longrightarrow> validAction (default_hotkey_of d)"
  by (cases d) (auto simp: default_ok_def validAction_def default_hotkey_of_def split: option.splits)

text \<open>
  The table of the default hotkeys agrees with the table of the actions: every default hotkey has
  an action of its category and as many arguments as the action takes.
\<close>

theorem default_hotkeys_valid:
  "list_all default_ok (default_hotkeys ko) \<and> list_all (validAction \<circ> default_hotkey_of) (default_hotkeys ko)"
proof -
  have ok: "list_all default_ok (default_hotkeys ko)"
    by (simp add: default_hotkeys_def popup_defaults_ok split_defaults_ok input_defaults_ok window_defaults_ok)
  then show ?thesis by (auto simp: list_all_iff default_ok_valid)
qed

text \<open>
  C18: hotkeys survive a restart. When every hotkey can be stored (its name is a key of an object, Qt
  reads its printed keys back) and every default has been added before, the hotkeys a new controller
  loads are the hotkeys that were saved, in the same order, whatever else the settings held.
\<close>

theorem hotkeys_survive_restart:
  assumes "settings_store so"
    and "hotkeys_sorted (sv_items v)" "distinct (map hk_name (sv_items v))" "\<forall>h \<in> set (sv_items v). storable ko h"
    and "\<forall>d \<in> set (default_hotkeys ko). hk_name (default_hotkey_of d) \<in> set (so_getList so s ''/hotkeys/addedDefaults'')"
  shows "sv_items (fst (loadHotkeys so ko SignalVector (saveHotkeys so ko v s))) = sv_items v"
  using settings_store.reload [OF assms(1-4)] assms(5) by simp

definition plain_keys :: key_ops where
  "plain_keys = \<lparr>ko_parse = map (\<lambda>c. int (of_char c)), ko_portable = map (\<lambda>i. char_of (nat i)),
     ko_native = map (\<lambda>i. char_of (nat i)), ko_parseNative = map (\<lambda>c. int (of_char c)), ko_zoomIn = [43], ko_zoomOut = [45]\<rparr>"

theorem hotkeys_survive_restart_witness:
  "let h1 = \<lparr>hk_category = Split, hk_keySequence = [65], hk_action = ''delete'', hk_arguments = [], hk_name = ''b''\<rparr>;
       h2 = \<lparr>hk_category = Window, hk_keySequence = [66, 67], hk_action = ''zoom'', hk_arguments = [''in''], hk_name = ''a''\<rparr>;
       s = so_setList path_store ''/hotkeys/addedDefaults'' (map (hk_name \<circ> default_hotkey_of) (default_hotkeys plain_keys)) empty_store
   in sv_items (fst (loadHotkeys path_store plain_keys SignalVector
        (saveHotkeys path_store plain_keys (SignalVector\<lparr>sv_items := [h1, h2]\<rparr>) s))) = [h1, h2]"
  unfolding Let_def
  by (subst hotkeys_survive_restart [OF path_store.settings_store_axioms])
    (simp_all add: storable_def legal_def plain_keys_def hkey_def path_store_def less_hotkey_category_def)

text \<open>
  Resetting gives the default hotkeys and nothing else, the first one of each name, sorted by
  category and name, whatever the hotkeys and the settings were.
\<close>

theorem reset_gives_defaults:
  assumes "settings_store so"
  shows "set (sv_items (fst (resetToDefaults so ko v s))) = default_hotkey_of ` set (first_named {} (default_hotkeys ko)) \<and>
    hotkeys_sorted (sv_items (fst (resetToDefaults so ko v s)))"
proof -
  define s1 where "s1 = so_setList so ''/hotkeys/addedDefaults'' [] s"
  define s2 where "s2 = saveHotkeys so ko (remove_first (length (sv_items v)) v) s1"
  have v1: "sv_items (remove_first (length (sv_items v)) v) = []" by (rule remove_first_all)
  have s2: "so_getList so s2 ''/hotkeys/addedDefaults'' = []" "so_keys so s2 ''/hotkeys'' = [''addedDefaults'']"
    using assms v1
    by (simp_all add: s2_def s1_def saveHotkeys_def Let_def settings_store.added_added settings_store.keys_added
        settings_store.keys_object add_key_def)
  obtain added v2 where add: "fold tryAddDefault (default_hotkeys ko) ([], remove_first (length (sv_items v)) v) = (added, v2)"
    by fastforce
  have "fst (resetToDefaults so ko v s) = v2"
    using s2 add by (simp add: resetToDefaults_def loadHotkeys_def addDefaults_def Let_def s1_def [symmetric] s2_def [symmetric])
  then show ?thesis
    using add_defaults_fresh [of "remove_first (length (sv_items v)) v" "[]" "default_hotkeys ko"] v1 add by simp
qed

theorem reset_gives_defaults_witness:
  "hotkeys_sorted (sv_items (fst (resetToDefaults path_store plain_keys SignalVector empty_store)))"
  using reset_gives_defaults [OF path_store.settings_store_axioms] by blast

text \<open>Two default hotkeys are never there, since their name is that of another.\<close>

lemma defaults_lost:
  "first_named {} (input_defaults key) = filter (\<lambda>(c, k, a, args, n).
     (k, n) \<noteq> (key ''Shift+Return'', ''send message'') \<and> (k, n) \<noteq> (key ''Ctrl+Shift+Return'', ''send message and keep text''))
     (input_defaults key)"
  if "key = map of_char"
  unfolding that by code_simp

end
