(* ===== verification/Category_Models.thy ===== *)
theory Category_Models
  imports Table_Models Hotkeys_Correct
begin

text \<open>
  \<open>controllers/accounts/AccountModel.cpp\<close> and \<open>controllers/hotkeys/HotkeyModel.cpp\<close>: the models that
  show their items under a header for every category. The number of items of a category is kept in a
  map; the first item of a category brings its header, the last one takes it away.

  The account model meets \<open>row_model\<close>. The hotkey model corrects the place of an item that would land
  under the next header, which is right for the sorted vector it shows: its rows are the items grouped
  under their headers. Where a category appears between others the header is misplaced.
\<close>

section \<open>Accounts\<close>

record account =
  acc_category :: qstring
  acc_text :: qstring

type_synonym category_count = "qstring \<Rightarrow> nat option"

definition count_of :: "category_count \<Rightarrow> qstring \<Rightarrow> nat" where
  "count_of cc c = (case cc c of None \<Rightarrow> 0 | Some n \<Rightarrow> n)"

definition header_row :: "nat \<Rightarrow> qstring \<Rightarrow> cell list" where
  "header_row columns c = (replicate columns blank_cell)[0 := setStringItem c blank_cell]"

definition account_beforeInsert :: "account \<Rightarrow> nat \<Rightarrow> (account, category_count) table_model
    \<Rightarrow> ((account, category_count) table_model \<times> nat) option" where
  "account_beforeInsert item proposedIndex m =
     (let n = count_of (tm_extra m) (acc_category item);
          m1 = m\<lparr>tm_extra := (tm_extra m)(acc_category item \<mapsto> Suc n)\<rparr>
      in if n = 0
         then map_option (\<lambda>m2. (m2, proposedIndex + 1))
                (insertCustomRow (header_row 1 (acc_category item)) proposedIndex m1)
         else Some (m1, proposedIndex))"

definition account_afterRemoved :: "account \<Rightarrow> nat \<Rightarrow> (account, category_count) table_model
    \<Rightarrow> (account, category_count) table_model option" where
  "account_afterRemoved item index m =
     (case tm_extra m (acc_category item) of
        None \<Rightarrow> None
      | Some n \<Rightarrow>
          if n \<le> 1
          then removeCustomRow (int index - 1) (m\<lparr>tm_extra := (tm_extra m)(acc_category item := None)\<rparr>)
          else Some (m\<lparr>tm_extra := (tm_extra m)(acc_category item \<mapsto> n - 1)\<rparr>))"

definition AccountModel :: "(account, category_count) model_ops" where
  "AccountModel = \<lparr>columnCount = 1,
     getItemFromRow = (\<lambda>row original. (original, row)),
     getRowFromItem = (\<lambda>item. write_row [setStringItem (acc_text item)]),
     beforeInsert = account_beforeInsert, afterRemoved = account_afterRemoved\<rparr>"

definition account_less :: "account \<Rightarrow> account \<Rightarrow> bool" where
  "account_less a b \<longleftrightarrow>
     acc_category a < acc_category b \<or> \<not> acc_category b < acc_category a \<and> acc_text a < acc_text b"

lemma insertCustomRow_normal:
  "insertCustomRow row p m = Some m' \<Longrightarrow> normal (take (p + 1) (tm_rows m')) = normal (take p (tm_rows m)) \<and>
     normal (drop (p + 1) (tm_rows m')) = normal (drop p (tm_rows m))"
  by (auto simp: insertCustomRow_def insert_at_def split: if_splits)

lemma removeCustomRow_normal:
  "removeCustomRow p m = Some m' \<Longrightarrow> normal (tm_rows m') = normal (tm_rows m)"
proof -
  assume a: "removeCustomRow p m = Some m'"
  then have p: "nat p < length (tm_rows m)" "row_custom (tm_rows m ! nat p)"
      and m': "tm_rows m' = remove_at (nat p) (tm_rows m)"
    by (auto simp: removeCustomRow_def split: if_splits)
  have "tm_rows m = take (nat p) (tm_rows m) @ tm_rows m ! nat p # drop (Suc (nat p)) (tm_rows m)"
    by (rule id_take_nth_drop [OF p(1)])
  then show ?thesis using p(2) m' by (metis normal_simps(2,3) remove_at_def)
qed

interpretation accounts: row_model AccountModel "\<lambda>_. True"
proof (unfold_locales, goal_cases)
  case (4 v p m m' q)
  then show ?case using insertCustomRow_normal
    by (fastforce simp: AccountModel_def account_beforeInsert_def Let_def split: if_splits)
next
  case (5 v p m m')
  then show ?case using removeCustomRow_normal
    by (fastforce simp: AccountModel_def account_afterRemoved_def split: option.splits if_splits)
qed (auto simp: AccountModel_def createRow_def)

section \<open>Hotkeys\<close>

text \<open>The loop that looks for the header of a category and the header behind it; -1 is not found.\<close>

fun category_loop :: "hotkey mrow list \<Rightarrow> qstring \<Rightarrow> int \<Rightarrow> int \<Rightarrow> int \<times> int" where
  "category_loop [] category modelIndex current = (current, -1)"
| "category_loop (r # rs) category modelIndex current =
     (if row_custom r then
        (if current \<noteq> -1 then (current, modelIndex)
         else category_loop rs category (modelIndex + 1)
           (if cell_text (row_items r ! 0) = category then modelIndex else current))
      else category_loop rs category (modelIndex + 1) current)"

definition getCurrentAndNextCategoryModelIndex :: "qstring \<Rightarrow> (hotkey, category_count) table_model \<Rightarrow> int \<times> int" where
  "getCurrentAndNextCategoryModelIndex category m = category_loop (tm_rows m) category 0 (-1)"

definition hotkey_header :: "qstring \<Rightarrow> cell list" where
  "hotkey_header category = [setStringItem category blank_cell, setStringItem [] blank_cell]"

definition hotkey_beforeInsert :: "hotkey \<Rightarrow> nat \<Rightarrow> (hotkey, category_count) table_model
    \<Rightarrow> ((hotkey, category_count) table_model \<times> nat) option" where
  "hotkey_beforeInsert item proposedIndex m =
     (let category = categoryDisplayName (hk_category item);
          n = count_of (tm_extra m) category;
          m1 = m\<lparr>tm_extra := (tm_extra m)(category \<mapsto> Suc n)\<rparr>
      in if n = 0
         then map_option (\<lambda>m2. (m2, proposedIndex + 1)) (insertCustomRow (hotkey_header category) proposedIndex m1)
         else (let (current, next') = getCurrentAndNextCategoryModelIndex category m1
               in if next' \<noteq> -1 \<and> int proposedIndex \<ge> next' then Some (m1, proposedIndex - 1)
                  else Some (m1, proposedIndex)))"

definition hotkey_afterRemoved :: "hotkey \<Rightarrow> nat \<Rightarrow> (hotkey, category_count) table_model
    \<Rightarrow> (hotkey, category_count) table_model option" where
  "hotkey_afterRemoved item index m =
     (let category = categoryDisplayName (hk_category item)
      in case tm_extra m category of
           None \<Rightarrow> None
         | Some n \<Rightarrow>
             if n \<le> 1 then removeCustomRow (int index - 1) (m\<lparr>tm_extra := (tm_extra m)(category := None)\<rparr>)
             else Some (m\<lparr>tm_extra := (tm_extra m)(category \<mapsto> n - 1)\<rparr>))"

definition HotkeyModel :: "key_ops \<Rightarrow> (hotkey, category_count) model_ops" where
  "HotkeyModel ko = \<lparr>columnCount = 2,
     getItemFromRow = (\<lambda>row original. (original, row)),
     getRowFromItem = (\<lambda>item. write_row [setStringItem (hk_name item), setStringItem (ko_native ko (hk_keySequence item))]),
     beforeInsert = hotkey_beforeInsert, afterRemoved = hotkey_afterRemoved\<rparr>"

section \<open>Grouped rows\<close>

text \<open>The rows the model is meant to have: before the first item of a category stands its header.\<close>

definition item_row :: "key_ops \<Rightarrow> hotkey \<Rightarrow> hotkey mrow" where
  "item_row ko h = \<lparr>row_items = getRowFromItem (HotkeyModel ko) h (createRow (HotkeyModel ko)),
     row_original = Some h, row_custom = False\<rparr>"

definition header :: "hotkey_category \<Rightarrow> hotkey mrow" where
  "header c = \<lparr>row_items = hotkey_header (categoryDisplayName c), row_original = None, row_custom = True\<rparr>"

fun grouped :: "key_ops \<Rightarrow> hotkey_category option \<Rightarrow> hotkey list \<Rightarrow> hotkey mrow list" where
  "grouped ko prev [] = []"
| "grouped ko prev (h # hs) =
     (if prev = Some (hk_category h) then [] else [header (hk_category h)])
     @ item_row ko h # grouped ko (Some (hk_category h)) hs"

definition category_counts :: "hotkey list \<Rightarrow> category_count" where
  "category_counts hs = (\<lambda>n.
     let k = length (filter (\<lambda>h. categoryDisplayName (hk_category h) = n) hs) in if k = 0 then None else Some k)"

definition shows_grouped :: "key_ops \<Rightarrow> (hotkey, category_count) table \<Rightarrow> bool" where
  "shows_grouped ko t \<longleftrightarrow>
     tm_rows (tb_model t) = grouped ko None (sv_items (tb_vec t)) \<and>
     tm_extra (tb_model t) = category_counts (sv_items (tb_vec t)) \<and>
     sorted (map hk_category (sv_items (tb_vec t)))"

section \<open>The rows stay grouped\<close>

definition last_category :: "hotkey_category option \<Rightarrow> hotkey list \<Rightarrow> hotkey_category option" where
  "last_category prev hs = (if hs = [] then prev else Some (hk_category (last hs)))"

lemma grouped_append:
  "grouped ko prev (xs @ ys) = grouped ko prev xs @ grouped ko (last_category prev xs) ys"
  by (induction xs arbitrary: prev) (auto simp: last_category_def)

lemma item_row_simps [simp]: "\<not> row_custom (item_row ko h)" "row_original (item_row ko h) = Some h"
  by (simp_all add: item_row_def)

lemma header_simps [simp]: "row_custom (header c)" "cell_text (row_items (header c) ! 0) = categoryDisplayName c"
  by (simp_all add: header_def hotkey_header_def)

lemma normal_grouped [simp]: "normal (grouped ko prev hs) = map (item_row ko) hs"
  by (induction hs arbitrary: prev) auto

lemma grouped_same:
  "\<forall>h \<in> set hs. hk_category h = c \<Longrightarrow> grouped ko (Some c) hs = map (item_row ko) hs"
  by (induction hs) auto

lemma row_pos_append: "row_pos (as @ bs) (length (normal as) + v) = length as + row_pos bs v"
  by (induction as arbitrary: v) auto

lemma categoryDisplayName_inj [simp]: "categoryDisplayName a = categoryDisplayName b \<longleftrightarrow> a = b"
  by (cases a; cases b) (simp_all add: categoryDisplayName_def hotkeyCategories_def)

text \<open>A sorted list by the place of one category.\<close>

definition before_cat :: "hotkey_category \<Rightarrow> hotkey list \<Rightarrow> hotkey list" where
  "before_cat c = filter (\<lambda>h. hk_category h < c)"

definition within_cat :: "hotkey_category \<Rightarrow> hotkey list \<Rightarrow> hotkey list" where
  "within_cat c = filter (\<lambda>h. hk_category h = c)"

definition behind_cat :: "hotkey_category \<Rightarrow> hotkey list \<Rightarrow> hotkey list" where
  "behind_cat c = filter (\<lambda>h. c < hk_category h)"

lemmas cat_parts = before_cat_def within_cat_def behind_cat_def

lemma cat_partition:
  "sorted (map hk_category hs) \<Longrightarrow> hs = before_cat c hs @ within_cat c hs @ behind_cat c hs"
proof (induction hs)
  case (Cons h hs)
  then have ih: "hs = before_cat c hs @ within_cat c hs @ behind_cat c hs" by simp
  have le: "\<forall>g \<in> set hs. hk_category h \<le> hk_category g" using Cons.prems by simp
  consider "hk_category h < c" | "hk_category h = c" | "c < hk_category h" by fastforce
  then show ?case
  proof cases
    case 1
    then have "hk_category h \<noteq> c" "\<not> c < hk_category h" by auto
    then show ?thesis using ih 1 by (simp add: cat_parts)
  next
    case 2
    then have "before_cat c hs = []" using le by (auto simp: before_cat_def filter_empty_conv)
    then show ?thesis using ih 2 by (simp add: cat_parts)
  next
    case 3
    then have "before_cat c hs = []" "within_cat c hs = []"
      using le by (auto simp: cat_parts filter_empty_conv)
    then show ?thesis using ih 3 by (simp add: cat_parts)
  qed
qed (simp add: cat_parts)

lemma last_category_less:
  assumes "\<forall>g \<in> set L. hk_category g < c"
  shows "last_category None L = None \<or> (\<exists>d. last_category None L = Some d \<and> d < c)"
proof (cases "L = []")
  case False
  then have "hk_category (last L) < c" using assms last_in_set by blast
  then show ?thesis using False by (simp add: last_category_def)
qed (simp add: last_category_def)

text \<open>The rows around a category: those before it, its header and items, and those behind it.\<close>

lemma grouped_parts:
  assumes "\<forall>h \<in> set L. hk_category h < c" "\<forall>h \<in> set M. hk_category h = c" "M \<noteq> []"
  shows "grouped ko None (L @ M @ R) =
    grouped ko None L @ header c # map (item_row ko) M @ grouped ko (Some c) R"
proof -
  obtain x xs where M: "M = x # xs" using assms(3) by (cases M) auto
  have "last_category None L \<noteq> Some c"
    using last_category_less [OF assms(1)] by auto
  moreover have "last_category (Some c) xs = Some c"
    using assms(2) M by (auto simp: last_category_def)
  moreover have "hk_category x = c" "\<forall>h \<in> set xs. hk_category h = c" using assms(2) M by auto
  ultimately show ?thesis
    by (simp add: M grouped_append grouped_same)
qed

lemma grouped_behind:
  assumes "\<forall>h \<in> set R. c < hk_category h" "prev = None \<or> (\<exists>d. prev = Some d \<and> d \<le> c)"
  shows "grouped ko prev R = grouped ko (Some c) R"
  using assms by (cases R) auto

lemma sorted_exchange:
  assumes "sorted (map hk_category (L @ M @ R))" "\<forall>g \<in> set L. hk_category g < c"
    "\<forall>g \<in> set M'. hk_category g = c" "\<forall>g \<in> set R. c < hk_category g"
  shows "sorted (map hk_category (L @ M' @ R))"
proof -
  have "sorted (map hk_category M')" using assms(3) by (induction M') auto
  then show ?thesis using assms by (auto simp: sorted_append intro: less_imp_le)
qed

section \<open>Looking for the next header\<close>

lemma category_loop_found:
  "current \<noteq> -1 \<Longrightarrow> \<forall>r \<in> set pre. \<not> row_custom r \<Longrightarrow>
   category_loop (pre @ rest) category i current = category_loop rest category (i + int (length pre)) current"
  by (induction pre arbitrary: i) (auto simp: algebra_simps)

lemma category_loop_skip:
  "\<forall>r \<in> set pre. row_custom r \<longrightarrow> cell_text (row_items r ! 0) \<noteq> category \<Longrightarrow>
   category_loop (pre @ rest) category i (-1) = category_loop rest category (i + int (length pre)) (-1)"
  by (induction pre arbitrary: i) (auto simp: algebra_simps)

lemma grouped_headers:
  "r \<in> set (grouped ko prev hs) \<Longrightarrow> row_custom r \<Longrightarrow> \<exists>h \<in> set hs. r = header (hk_category h)"
  by (induction hs arbitrary: prev) (auto split: if_splits)

lemma next_header:
  assumes "\<forall>h \<in> set L. hk_category h < c" "\<forall>h \<in> set R. c < hk_category h"
  shows "snd (category_loop (grouped ko None L @ header c # map (item_row ko) M @ grouped ko (Some c) R)
      (categoryDisplayName c) 0 (-1)) =
    (if R = [] then -1 else int (length (grouped ko None L) + 1 + length M))"
proof -
  have skip: "\<forall>r \<in> set (grouped ko None L). row_custom r \<longrightarrow> cell_text (row_items r ! 0) \<noteq> categoryDisplayName c"
    using assms(1) by (auto dest!: grouped_headers)
  show ?thesis
  proof (cases R)
    case Nil
    then show ?thesis
      using category_loop_found [of "int (length (grouped ko None L))" "map (item_row ko) M" "[]"]
      by (simp add: category_loop_skip [OF skip])
  next
    case (Cons r rs)
    then have "grouped ko (Some c) R = header (hk_category r) # item_row ko r # grouped ko (Some (hk_category r)) rs"
      using assms(2) by auto
    then show ?thesis using Cons
      by (simp add: category_loop_skip [OF skip] category_loop_found)
  qed
qed

section \<open>Inserting and removing\<close>

lemma category_counts_insert:
  "category_counts (as @ h # bs) = (category_counts (as @ bs))
     (categoryDisplayName (hk_category h) \<mapsto> Suc (count_of (category_counts (as @ bs)) (categoryDisplayName (hk_category h))))"
  by (rule ext) (auto simp: category_counts_def count_of_def Let_def)

lemma count_of_counts:
  "count_of (category_counts hs) (categoryDisplayName c) = length (within_cat c hs)"
  by (auto simp: count_of_def category_counts_def Let_def within_cat_def)

lemma insert_place:
  assumes "\<forall>g \<in> set L. hk_category g < hk_category h" "\<forall>g \<in> set R. hk_category h < hk_category g"
  shows "length (takeWhile (\<lambda>x. hkey x < hkey h) (L @ M @ R)) = length L + length (takeWhile (\<lambda>x. hkey x < hkey h) M)"
proof -
  have L: "\<forall>g \<in> set L. hkey g < hkey h" using assms(1) by (auto simp: hkey_def less_prod_def')
  have "takeWhile (\<lambda>x. hkey x < hkey h) R = []"
    using assms(2) by (cases R) (auto simp: hkey_def less_prod_def')
  then have "length (takeWhile (\<lambda>x. hkey x < hkey h) (M @ R)) = length (takeWhile (\<lambda>x. hkey x < hkey h) M)"
    by (induction M) auto
  then show ?thesis using L by (simp add: takeWhile_append2)
qed

lemma insert_at_append: "insert_at (length xs + j) y (xs @ ys) = xs @ insert_at j y ys"
  by (simp add: insert_at_def)

lemma insert_at_prefix: "j \<le> length ys \<Longrightarrow> insert_at j y (ys @ zs) = insert_at j y ys @ zs"
  by (simp add: insert_at_def)

lemma remove_at_append: "remove_at (length xs + j) (xs @ ys) = xs @ remove_at j ys"
  by (simp add: remove_at_def Suc_diff_le)

lemma remove_at_prefix: "j < length ys \<Longrightarrow> remove_at j (ys @ zs) = remove_at j ys @ zs"
  by (simp add: remove_at_def)

text \<open>Where the model wants to put the item, and where it corrects the place to.\<close>

lemma known_place:
  assumes "\<forall>g \<in> set L. hk_category g < c" "\<forall>g \<in> set M. hk_category g = c" "\<forall>g \<in> set R. c < hk_category g"
    and "M \<noteq> []" "j \<le> length M"
  shows "row_pos (grouped ko None L @ header c # map (item_row ko) M @ grouped ko (Some c) R) (length L + j) =
      length (grouped ko None L) + 1 + j + (if j = length M \<and> R \<noteq> [] then 1 else 0)"
proof -
  have 1: "row_pos (grouped ko None L @ header c # map (item_row ko) M @ grouped ko (Some c) R) (length L + j) =
      length (grouped ko None L) + Suc (row_pos (map (item_row ko) M @ grouped ko (Some c) R) j)"
    using row_pos_append [of "grouped ko None L" "header c # map (item_row ko) M @ grouped ko (Some c) R" j]
    by simp
  have 2: "row_pos (map (item_row ko) M @ rest) j = (if j < length M then j else length M + row_pos rest 0)" for rest
    using assms(5) by (induction M arbitrary: j) (auto split: nat.split)
  have "row_pos (grouped ko (Some c) R) 0 = (if R = [] then 0 else 1)"
    using assms(3) by (cases R) auto
  then show ?thesis using 1 2 [of "grouped ko (Some c) R"] assms(5) by auto
qed

lemma insert_known:
  assumes "shows_grouped ko t" "\<exists>g \<in> set (sv_items (tb_vec t)). hk_category g = hk_category h"
  shows "\<exists>t'. tb_insert (HotkeyModel ko) (Some hotkeySortCompare) False h i t = Some t' \<and> shows_grouped ko t'"
proof -
  let ?c = "hk_category h" and ?hs = "sv_items (tb_vec t)" and ?m = "tb_model t"
  define L where "L = before_cat ?c ?hs"
  define M where "M = within_cat ?c ?hs"
  define R where "R = behind_cat ?c ?hs"
  have sorted: "sorted (map hk_category ?hs)" using assms(1) by (simp add: shows_grouped_def)
  have hs: "?hs = L @ M @ R" unfolding L_def M_def R_def by (rule cat_partition [OF sorted])
  have L: "\<forall>g \<in> set L. hk_category g < ?c" and M: "\<forall>g \<in> set M. hk_category g = ?c" and R: "\<forall>g \<in> set R. ?c < hk_category g"
    by (auto simp: L_def M_def R_def cat_parts)
  have ne: "M \<noteq> []" using assms(2) by (auto simp: M_def within_cat_def filter_empty_conv)
  define j where "j = length (takeWhile (\<lambda>x. hkey x < hkey h) M)"
  have j: "j \<le> length M" by (simp add: j_def length_takeWhile_le)
  define v' where "v' = itemsChanged ((tb_vec t)\<lparr>sv_items := L @ insert_at j h M @ R\<rparr>)"
  have v: "sv_insert (Some hotkeySortCompare) h i (tb_vec t) = Some (length L + j, v')"
    using insert_place [OF L R, of M] j
    by (simp add: sv_insert_def hotkeySortCompare_less Let_def hs j_def [symmetric] v'_def insert_at_append insert_at_prefix)
  let ?rows = "grouped ko None L @ header ?c # map (item_row ko) M @ grouped ko (Some ?c) R"
  have rows: "tm_rows ?m = ?rows"
    using assms(1) grouped_parts [OF L M ne, of ko R] by (simp add: shows_grouped_def hs)
  have extra: "tm_extra ?m = category_counts ?hs" using assms(1) by (simp add: shows_grouped_def)
  define m1 where "m1 = ?m\<lparr>tm_extra := (tm_extra ?m)(categoryDisplayName ?c \<mapsto>
    Suc (count_of (tm_extra ?m) (categoryDisplayName ?c)))\<rparr>"
  have cnt: "count_of (tm_extra ?m) (categoryDisplayName ?c) \<noteq> 0"
    using ne by (simp add: extra count_of_counts M_def)
  define q where "q = length (grouped ko None L) + 1 + j"
  have before: "hotkey_beforeInsert h (row_pos ?rows (length L + j)) ?m = Some (m1, q)"
    using cnt next_header [OF L R, of ko M] known_place [OF L M R ne j, of ko] j
    by (cases "R = []"; cases "j = length M")
      (auto simp: hotkey_beforeInsert_def getCurrentAndNextCategoryModelIndex_def Let_def m1_def rows q_def
        split: prod.split)
  have len: "q \<le> length (tm_rows m1)" using j by (simp add: q_def m1_def rows)
  have len': "row_pos ?rows (length L + j) \<le> length (tm_rows ?m)" unfolding rows by (rule row_pos_le)
  define m2 where "m2 = m1\<lparr>tm_rows := insert_at q (item_row ko h) (tm_rows m1)\<rparr>"
  have on: "on_inserted (HotkeyModel ko) h (length L + j) False ?m = Some m2"
    using before len len'
    by (simp add: on_inserted_def Let_def modelIndex_pos rows HotkeyModel_def item_row_def m2_def createRow_def)
  have M': "\<forall>g \<in> set (insert_at j h M). hk_category g = ?c" "insert_at j h M \<noteq> []"
    using M by (simp, simp add: insert_at_def)
  have "tm_rows m2 = insert_at q (item_row ko h) ?rows" by (simp add: m2_def m1_def rows)
  also have "\<dots> =
      grouped ko None L @ header ?c # map (item_row ko) (insert_at j h M) @ grouped ko (Some ?c) R"
    using j insert_at_append [of "grouped ko None L @ [header ?c]" j "item_row ko h"
        "map (item_row ko) M @ grouped ko (Some ?c) R"]
    by (simp add: q_def insert_at_prefix)
  also have "\<dots> = grouped ko None (L @ insert_at j h M @ R)"
    by (rule grouped_parts [OF L M', symmetric])
  finally have "tm_rows m2 = grouped ko None (L @ insert_at j h M @ R)" .
  moreover have "tm_extra m2 = category_counts (L @ insert_at j h M @ R)"
  proof -
    have parts: "take j M @ drop j M @ R = M @ R" by (metis append.assoc append_take_drop_id)
    show ?thesis using category_counts_insert [of "L @ take j M" h "drop j M @ R"]
      by (simp add: m2_def m1_def extra hs insert_at_def parts)
  qed
  moreover have "sorted (map hk_category (L @ insert_at j h M @ R))"
    using sorted_exchange [OF _ L M'(1) R] sorted hs by metis
  ultimately show ?thesis
    using v on by (simp add: tb_insert_def shows_grouped_def v'_def itemsChanged_def)
qed

text \<open>The first item of the last category brings its header with it.\<close>

lemma insert_last_category:
  assumes "shows_grouped ko t" "\<forall>g \<in> set (sv_items (tb_vec t)). hk_category g < hk_category h"
  shows "\<exists>t'. tb_insert (HotkeyModel ko) (Some hotkeySortCompare) False h i t = Some t' \<and> shows_grouped ko t'"
proof -
  let ?c = "hk_category h" and ?hs = "sv_items (tb_vec t)" and ?m = "tb_model t"
  have rows: "tm_rows ?m = grouped ko None ?hs" and extra: "tm_extra ?m = category_counts ?hs"
    using assms(1) by (simp_all add: shows_grouped_def)
  have "within_cat ?c ?hs = []" using assms(2) by (auto simp: within_cat_def filter_empty_conv)
  then have cnt: "count_of (tm_extra ?m) (categoryDisplayName ?c) = 0"
    by (simp add: extra count_of_counts)
  define v' where "v' = itemsChanged ((tb_vec t)\<lparr>sv_items := ?hs @ [h]\<rparr>)"
  have v: "sv_insert (Some hotkeySortCompare) h i (tb_vec t) = Some (length ?hs, v')"
    using insert_place [of ?hs h "[]" "[]"] assms(2)
    by (simp add: sv_insert_def hotkeySortCompare_less Let_def v'_def)
  have pos: "row_pos (grouped ko None ?hs) (length ?hs) = length (grouped ko None ?hs)"
    using row_pos_append [of "grouped ko None ?hs" "[]" 0] by simp
  define m2 where "m2 = ?m\<lparr>tm_extra := (tm_extra ?m)(categoryDisplayName ?c \<mapsto> 1),
    tm_rows := grouped ko None ?hs @ [header ?c, item_row ko h]\<rparr>"
  have "on_inserted (HotkeyModel ko) h (length ?hs) False ?m = Some m2"
    using cnt by (simp add: on_inserted_def Let_def modelIndex_pos rows pos HotkeyModel_def item_row_def m2_def createRow_def
        hotkey_beforeInsert_def insertCustomRow_def header_def insert_at_def)
  moreover have "last_category None ?hs \<noteq> Some ?c"
    using last_category_less [OF assms(2)] by auto
  then have "tm_rows m2 = grouped ko None (?hs @ [h])" by (simp add: m2_def grouped_append)
  moreover have "tm_extra m2 = category_counts (?hs @ [h])"
    using category_counts_insert [of ?hs h "[]"] cnt by (simp add: m2_def extra)
  moreover have "sorted (map hk_category (?hs @ [h]))"
    using assms by (auto simp: sorted_append shows_grouped_def)
  ultimately show ?thesis using v by (simp add: tb_insert_def shows_grouped_def v'_def itemsChanged_def)
qed

lemma category_counts_remove:
  "category_counts (as @ bs) = (category_counts (as @ h # bs))
     (categoryDisplayName (hk_category h) :=
       (let n = count_of (category_counts (as @ h # bs)) (categoryDisplayName (hk_category h))
        in if n \<le> 1 then None else Some (n - 1)))"
  by (rule ext) (auto simp: category_counts_def count_of_def Let_def)

lemma remove_grouped:
  assumes "shows_grouped ko t" "v < length (sv_items (tb_vec t))"
  shows "\<exists>t'. tb_removeAt (HotkeyModel ko) False (int v) t = Some t' \<and> shows_grouped ko t'"
proof -
  let ?hs = "sv_items (tb_vec t)" and ?m = "tb_model t"
  define h where "h = ?hs ! v"
  let ?c = "hk_category h"
  define L where "L = before_cat ?c ?hs"
  define M where "M = within_cat ?c ?hs"
  define R where "R = behind_cat ?c ?hs"
  have sorted: "sorted (map hk_category ?hs)" using assms(1) by (simp add: shows_grouped_def)
  have hs: "?hs = L @ M @ R" unfolding L_def M_def R_def by (rule cat_partition [OF sorted])
  have L: "\<forall>g \<in> set L. hk_category g < ?c" and M: "\<forall>g \<in> set M. hk_category g = ?c" and R: "\<forall>g \<in> set R. ?c < hk_category g"
    by (auto simp: L_def M_def R_def cat_parts)
  have v: "length L \<le> v" "v < length L + length M"
  proof -
    have n: "(L @ M @ R) ! v = h" using hs h_def by simp
    show "length L \<le> v"
      using n L by (metis nth_append nth_mem not_less order_less_irrefl)
    show "v < length L + length M"
    proof (rule ccontr)
      assume "\<not> v < length L + length M"
      then have "(L @ M @ R) ! v = R ! (v - length L - length M)" "v - length L - length M < length R"
        using assms(2) hs by (auto simp: nth_append)
      then show False using n R by (metis nth_mem order_less_irrefl)
    qed
  qed
  define j where "j = v - length L"
  have j: "v = length L + j" "j < length M" using v by (auto simp: j_def)
  then have ne: "M \<noteq> []" by auto
  let ?rows = "grouped ko None L @ header ?c # map (item_row ko) M @ grouped ko (Some ?c) R"
  have rows: "tm_rows ?m = ?rows"
    using assms(1) grouped_parts [OF L M ne, of ko R] by (simp add: shows_grouped_def hs)
  have extra: "tm_extra ?m = category_counts ?hs" using assms(1) by (simp add: shows_grouped_def)
  have n: "count_of (tm_extra ?m) (categoryDisplayName ?c) = length M"
    by (simp add: extra count_of_counts M_def)
  then have e: "tm_extra ?m (categoryDisplayName ?c) = Some (length M)"
    using ne by (auto simp: count_of_def split: option.splits)
  let ?p = "length (grouped ko None L) + 1 + j"
  have pos: "row_pos ?rows v = ?p"
    using known_place [OF L M R ne, of j ko] j by simp
  have rem: "remove_at ?p ?rows = grouped ko None L @ header ?c # map (item_row ko) (remove_at j M) @ grouped ko (Some ?c) R"
    using j remove_at_append [of "grouped ko None L @ [header ?c]" j "map (item_row ko) M @ grouped ko (Some ?c) R"]
    by (simp add: remove_at_prefix)
  let ?hs' = "L @ remove_at j M @ R"
  have hs': "remove_at v ?hs = ?hs'" using j by (simp add: hs remove_at_append remove_at_prefix)
  have counts: "category_counts ?hs' = (category_counts ?hs)(categoryDisplayName ?c :=
      (if length M \<le> 1 then None else Some (length M - 1)))"
  proof -
    have "?hs = (L @ take j M) @ h # drop (Suc j) M @ R"
      using id_take_nth_drop [OF j(2)] j hs h_def by (simp add: nth_append)
    then show ?thesis using category_counts_remove [of "L @ take j M" "drop (Suc j) M @ R" h] n
      by (simp add: remove_at_def extra Let_def)
  qed
  define m1 where "m1 = ?m\<lparr>tm_rows := remove_at ?p ?rows\<rparr>"
  obtain m2 where m2: "hotkey_afterRemoved h ?p m1 = Some m2"
      "tm_rows m2 = grouped ko None ?hs'" "tm_extra m2 = category_counts ?hs'"
  proof (cases "length M \<le> 1")
    case True
    then have "j = 0" "remove_at j M = []" using j by (auto simp: remove_at_def)
    moreover have "grouped ko None (L @ R) = grouped ko None L @ grouped ko (Some ?c) R"
      using grouped_behind [OF R, of "last_category None L" ko] last_category_less [OF L]
      by (auto simp: grouped_append)
    ultimately have "hotkey_afterRemoved h ?p m1 = Some (m1\<lparr>tm_extra := category_counts ?hs', tm_rows := grouped ko None ?hs'\<rparr>)"
      using e True counts rem
      by (simp add: hotkey_afterRemoved_def m1_def Let_def removeCustomRow_def extra nth_append remove_at_def)
    then show ?thesis by (rule that) simp_all
  next
    case False
    then have "remove_at j M \<noteq> []" "\<forall>g \<in> set (remove_at j M). hk_category g = ?c"
      using j M set_remove_at_subset [of j M] length_remove_at [OF j(2)] by (auto simp del: length_remove_at)
    then have "grouped ko None ?hs' = remove_at ?p ?rows"
      using grouped_parts [OF L, of "remove_at j M" ko R] rem by simp
    then have m1: "tm_rows m1 = grouped ko None ?hs'" by (simp add: m1_def)
    have "hotkey_afterRemoved h ?p m1 = Some (m1\<lparr>tm_extra := category_counts ?hs'\<rparr>)"
      using e False counts by (simp add: hotkey_afterRemoved_def m1_def Let_def extra)
    then show ?thesis by (rule that) (simp_all add: m1)
  qed
  have "?p < length ?rows" using j by simp
  then have "on_removed (HotkeyModel ko) h v False ?m = Some m2"
    using m2(1) by (simp add: on_removed_def modelIndex_pos rows pos Let_def HotkeyModel_def m1_def)
  moreover have "\<forall>g \<in> set (remove_at j M). hk_category g = ?c" using M set_remove_at_subset [of j M] by auto
  then have "sorted (map hk_category ?hs')" using sorted_exchange L R sorted hs by metis
  ultimately show ?thesis
    using assms(2) m2 hs' by (simp add: tb_removeAt_def sv_removeAt_def h_def shows_grouped_def itemsChanged_def)
qed

section \<open>Properties\<close>

text \<open>
  The table of the hotkeys shows them grouped: on a model whose rows are the hotkeys under the
  headers of their categories, removing a hotkey, and adding one whose category is shown already or
  comes after all those shown, succeeds and leaves the rows of the new vector grouped.
\<close>

theorem hotkey_rows_grouped:
  assumes "shows_grouped ko t"
  shows "(v < length (sv_items (tb_vec t)) \<longrightarrow>
      (\<exists>t'. tb_removeAt (HotkeyModel ko) False (int v) t = Some t' \<and> shows_grouped ko t')) \<and>
    ((\<exists>g \<in> set (sv_items (tb_vec t)). hk_category g = hk_category h) \<or>
     (\<forall>g \<in> set (sv_items (tb_vec t)). hk_category g < hk_category h) \<longrightarrow>
      (\<exists>t'. tb_insert (HotkeyModel ko) (Some hotkeySortCompare) False h i t = Some t' \<and> shows_grouped ko t'))"
  using remove_grouped [OF assms] insert_known [OF assms] insert_last_category [OF assms] by blast

text \<open>The empty table is grouped, and a hotkey added to it comes under its header.\<close>

definition empty_table :: "(hotkey, category_count) table" where
  "empty_table = \<lparr>tb_vec = SignalVector, tb_model = \<lparr>tm_rows = [], tm_extra = Map.empty\<rparr>\<rparr>"

lemma empty_grouped: "shows_grouped ko empty_table"
  by (simp add: empty_table_def shows_grouped_def SignalVector_def category_counts_def)

theorem hotkey_rows_grouped_witness:
  "\<exists>t'. tb_insert (HotkeyModel plain_keys) (Some hotkeySortCompare) False
      \<lparr>hk_category = Split, hk_keySequence = [65], hk_action = ''delete'', hk_arguments = [], hk_name = ''b''\<rparr> 0
      empty_table = Some t' \<and> shows_grouped plain_keys t'"
  using hotkey_rows_grouped [OF empty_grouped, of 0 plain_keys
    "\<lparr>hk_category = Split, hk_keySequence = [65], hk_action = ''delete'', hk_arguments = [], hk_name = ''b''\<rparr>" 0]
  by (simp add: empty_table_def SignalVector_def)

text \<open>
  The first hotkey of a category that comes before another one puts its header between the header of
  the other category and its hotkeys: the hotkey of the window is then shown under the splits.
\<close>

lemma new_category_misplaced:
  "let h = (\<lambda>c. \<lparr>hk_category = c, hk_keySequence = [65], hk_action = ''delete'', hk_arguments = [], hk_name = ''b''\<rparr>);
       add = (\<lambda>x t. the (tb_insert (HotkeyModel plain_keys) (Some hotkeySortCompare) False x (-1) t))
   in map (\<lambda>r. cell_text (row_items r ! 0)) (tm_rows (tb_model (add (h Split) (add (h Window) empty_table)))) =
     [''Window'', ''Split'', ''b'', ''b'']"
  by code_simp

end
