(* ===== verification/Settings_Json.thy ===== *)
theory Settings_Json
  imports Table_Models
begin

text \<open>
  How the lists of the settings are stored: the JSON form of their entries (\<open>Serialize\<close> and
  \<open>Deserialize\<close> in the headers of the entries, \<open>util/RapidjsonHelpers.hpp\<close>,
  \<open>util/RapidJsonSerializeQString.hpp\<close>), \<open>persist\<close> (\<open>util/PersistSignalVector.hpp\<close>) and the muted channels
  of \<open>singletons/Settings.cpp\<close>.

  The conversions of \<open>pajlada::Settings\<close>, a submodule, are parameters: \<open>bool_codec\<close> for truth values,
  and those of a vector in \<open>persist\<close>. So are Qt's texts for colours and ids (\<open>text_ops\<close>). Deserialising
  gives a value and whether an error was reported. A URL is its text.
\<close>

section \<open>JSON values\<close>

datatype json = JNull | JBool bool | JNumber int | JString qstring | JArray "json list" | JObject "(qstring \<times> json) list"

fun isObject :: "json \<Rightarrow> bool" where
  "isObject (JObject ms) = True"
| "isObject _ = False"

fun members :: "json \<Rightarrow> (qstring \<times> json) list" where
  "members (JObject ms) = ms"
| "members _ = []"

definition checkJsonValue :: "json \<Rightarrow> qstring \<Rightarrow> bool" where
  "checkJsonValue obj k \<longleftrightarrow> isObject obj \<and> map_of (members obj) k \<noteq> None"

text \<open>Adding a member does not look for one of the same name; it asserts an object.\<close>

definition rj_set :: "qstring \<Rightarrow> json \<Rightarrow> json \<Rightarrow> json" where
  "rj_set k v obj = (case obj of JObject ms \<Rightarrow> JObject (ms @ [(k, v)]) | _ \<Rightarrow> obj)"

text \<open>
  \<open>getSafe\<close> answers whether the value was there and without error, and assigns what the deserialiser
  returns even where it reports an error.
\<close>

definition getSafe :: "(json \<Rightarrow> 'v \<times> bool) \<Rightarrow> json \<Rightarrow> qstring \<Rightarrow> 'v \<Rightarrow> bool \<times> 'v" where
  "getSafe get obj k out =
     (case map_of (members obj) k of
        Some v \<Rightarrow> (\<not> snd (get v), fst (get v))
      | None \<Rightarrow> (False, out))"

definition putText :: "qstring \<Rightarrow> json" where
  "putText = JString"

definition getText :: "json \<Rightarrow> qstring \<times> bool" where
  "getText v = (case v of JString s \<Rightarrow> (s, False) | _ \<Rightarrow> ([], True))"

record bool_codec =
  putBool :: "bool \<Rightarrow> json"
  getBool :: "json \<Rightarrow> bool \<times> bool"

record text_ops =
  colorName :: "int option \<Rightarrow> qstring"
  parseColor :: "qstring \<Rightarrow> int option"
  uuidText :: "quuid \<Rightarrow> qstring"
  parseUuid :: "qstring \<Rightarrow> quuid"

text \<open>QColor(127, 63, 73, 127), as alpha, red, green and blue.\<close>

definition FALLBACK_HIGHLIGHT_COLOR :: int where
  "FALLBACK_HIGHLIGHT_COLOR = ((127 * 256 + 127) * 256 + 63) * 256 + 73"

definition readColor :: "text_ops \<Rightarrow> qstring \<Rightarrow> int option" where
  "readColor tx t = (case parseColor tx t of None \<Rightarrow> Some FALLBACK_HIGHLIGHT_COLOR | Some c \<Rightarrow> Some c)"

section \<open>The entries\<close>

definition put_ignore :: "bool_codec \<Rightarrow> ignore_phrase \<Rightarrow> json" where
  "put_ignore bc v =
     rj_set ''caseSensitive'' (putBool bc (ip_isCaseSensitive v))
      (rj_set ''replaceWith'' (putText (ip_replace v))
       (rj_set ''isBlock'' (putBool bc (ip_isBlock v))
        (rj_set ''regex'' (putBool bc (ip_isRegex v))
         (rj_set ''pattern'' (putText (ip_pattern v)) (JObject [])))))"

definition get_ignore :: "bool_codec \<Rightarrow> qstring \<Rightarrow> json \<Rightarrow> ignore_phrase \<times> bool" where
  "get_ignore bc ignoredPhraseReplace v =
     (if \<not> isObject v then
        (\<lparr>ip_pattern = [], ip_isRegex = False, ip_isBlock = False, ip_replace = ignoredPhraseReplace,
          ip_isCaseSensitive = True\<rparr>, True)
      else
        (\<lparr>ip_pattern = snd (getSafe getText v ''pattern'' []),
          ip_isRegex = snd (getSafe (getBool bc) v ''regex'' False),
          ip_isBlock = snd (getSafe (getBool bc) v ''isBlock'' False),
          ip_replace = snd (getSafe getText v ''replaceWith'' []),
          ip_isCaseSensitive = snd (getSafe (getBool bc) v ''caseSensitive'' True)\<rparr>, False))"

definition put_nickname :: "bool_codec \<Rightarrow> nickname \<Rightarrow> json" where
  "put_nickname bc v =
     rj_set ''isCaseSensitive'' (putBool bc (nn_isCaseSensitive v))
      (rj_set ''isRegex'' (putBool bc (nn_isRegex v))
       (rj_set ''replace'' (putText (nn_replace v))
        (rj_set ''name'' (putText (nn_name v)) (JObject []))))"

text \<open>The two flags are not initialised: \<open>garbage1\<close>, \<open>garbage2\<close>.\<close>

definition get_nickname :: "bool_codec \<Rightarrow> bool \<Rightarrow> bool \<Rightarrow> json \<Rightarrow> nickname \<times> bool" where
  "get_nickname bc garbage1 garbage2 v =
     (if \<not> isObject v then
        (\<lparr>nn_name = [], nn_replace = [], nn_isRegex = False, nn_isCaseSensitive = False\<rparr>, True)
      else
        (\<lparr>nn_name = snd (getSafe getText v ''name'' []),
          nn_replace = snd (getSafe getText v ''replace'' []),
          nn_isRegex = snd (getSafe (getBool bc) v ''isRegex'' garbage1),
          nn_isCaseSensitive = snd (getSafe (getBool bc) v ''isCaseSensitive'' garbage2)\<rparr>, False))"

definition put_phrase :: "bool_codec \<Rightarrow> text_ops \<Rightarrow> highlight_phrase \<Rightarrow> json" where
  "put_phrase bc tx v =
     rj_set ''color'' (putText (colorName tx (hp_color v)))
      (rj_set ''soundUrl'' (putText (hp_soundUrl v))
       (rj_set ''case'' (putBool bc (hp_isCaseSensitive v))
        (rj_set ''regex'' (putBool bc (hp_isRegex v))
         (rj_set ''sound'' (putBool bc (hp_hasSound v))
          (rj_set ''alert'' (putBool bc (hp_hasAlert v))
           (rj_set ''showInMentions'' (putBool bc (hp_showInMentions v))
            (rj_set ''pattern'' (putText (hp_pattern v)) (JObject []))))))))"

definition get_phrase :: "bool_codec \<Rightarrow> text_ops \<Rightarrow> json \<Rightarrow> highlight_phrase \<times> bool" where
  "get_phrase bc tx v =
     (if \<not> isObject v then
        (\<lparr>hp_pattern = [], hp_showInMentions = False, hp_hasAlert = False, hp_hasSound = False, hp_isRegex = False,
          hp_isCaseSensitive = False, hp_soundUrl = [], hp_color = None\<rparr>, True)
      else
        (\<lparr>hp_pattern = snd (getSafe getText v ''pattern'' []),
          hp_showInMentions = snd (getSafe (getBool bc) v ''showInMentions'' True),
          hp_hasAlert = snd (getSafe (getBool bc) v ''alert'' True),
          hp_hasSound = snd (getSafe (getBool bc) v ''sound'' False),
          hp_isRegex = snd (getSafe (getBool bc) v ''regex'' False),
          hp_isCaseSensitive = snd (getSafe (getBool bc) v ''case'' False),
          hp_soundUrl = snd (getSafe getText v ''soundUrl'' []),
          hp_color = readColor tx (snd (getSafe getText v ''color'' []))\<rparr>, False))"

definition put_badge :: "bool_codec \<Rightarrow> text_ops \<Rightarrow> highlight_badge \<Rightarrow> json" where
  "put_badge bc tx v =
     rj_set ''color'' (putText (colorName tx (hb_color v)))
      (rj_set ''soundUrl'' (putText (hb_soundUrl v))
       (rj_set ''sound'' (putBool bc (hb_hasSound v))
        (rj_set ''alert'' (putBool bc (hb_hasAlert v))
         (rj_set ''displayName'' (putText (hb_displayName v))
          (rj_set ''name'' (putText (hb_badgeName v)) (JObject []))))))"

definition get_badge :: "bool_codec \<Rightarrow> text_ops \<Rightarrow> json \<Rightarrow> highlight_badge \<times> bool" where
  "get_badge bc tx v =
     (if \<not> isObject v then (HighlightBadge [] [] False False [] None, True)
      else
        (HighlightBadge (snd (getSafe getText v ''name'' [])) (snd (getSafe getText v ''displayName'' []))
          (snd (getSafe (getBool bc) v ''alert'' True)) (snd (getSafe (getBool bc) v ''sound'' False))
          (snd (getSafe getText v ''soundUrl'' [])) (readColor tx (snd (getSafe getText v ''color'' []))), False))"

definition put_blacklist :: "bool_codec \<Rightarrow> blacklist_user \<Rightarrow> json" where
  "put_blacklist bc v =
     rj_set ''regex'' (putBool bc (bu_isRegex v)) (rj_set ''pattern'' (putText (bu_pattern v)) (JObject []))"

definition get_blacklist :: "bool_codec \<Rightarrow> json \<Rightarrow> blacklist_user \<times> bool" where
  "get_blacklist bc v =
     (if \<not> isObject v then (\<lparr>bu_pattern = [], bu_isRegex = False\<rparr>, True)
      else
        (\<lparr>bu_pattern = snd (getSafe getText v ''pattern'' []),
          bu_isRegex = snd (getSafe (getBool bc) v ''regex'' False)\<rparr>, False))"

definition put_filter :: "text_ops \<Rightarrow> filter_record \<Rightarrow> json" where
  "put_filter tx v =
     rj_set ''id'' (putText (uuidText tx (fr_id v)))
      (rj_set ''filter'' (putText (fr_filter v)) (rj_set ''name'' (putText (fr_name v)) (JObject [])))"

text \<open>A record that is not an object gets a new id. The constructor always returns.\<close>

definition get_filter :: "(qstring \<Rightarrow> qstring list) \<Rightarrow> (qstring \<Rightarrow> int option) \<Rightarrow> text_ops \<Rightarrow> quuid \<Rightarrow> json
    \<Rightarrow> filter_record \<times> bool" where
  "get_filter globalMatch textToInt tx newId v =
     (if \<not> isObject v then (projr (FilterRecord globalMatch textToInt [] [] newId), True)
      else
        (projr (FilterRecord globalMatch textToInt (snd (getSafe getText v ''name'' []))
           (snd (getSafe getText v ''filter'' [])) (parseUuid tx (snd (getSafe getText v ''id'' [])))), False))"

definition put_command :: "bool_codec \<Rightarrow> command \<Rightarrow> json" where
  "put_command bc v =
     rj_set ''showInMsgContextMenu'' (putBool bc (cmd_showInMsgContextMenu v))
      (rj_set ''func'' (putText (cmd_func v)) (rj_set ''name'' (putText (cmd_name v)) (JObject [])))"

text \<open>The flag of a command that is returned early is not initialised: \<open>garbage\<close>.\<close>

definition get_command :: "bool_codec \<Rightarrow> bool \<Rightarrow> json \<Rightarrow> command \<times> bool" where
  "get_command bc garbage v =
     (let n = getSafe getText v ''name'' [];
          f = getSafe getText v ''func'' [];
          s = getSafe (getBool bc) v ''showInMsgContextMenu'' garbage
      in if \<not> isObject v then (\<lparr>cmd_name = [], cmd_func = [], cmd_showInMsgContextMenu = garbage\<rparr>, True)
         else if \<not> fst n then (\<lparr>cmd_name = snd n, cmd_func = [], cmd_showInMsgContextMenu = garbage\<rparr>, True)
         else if \<not> fst f then (\<lparr>cmd_name = snd n, cmd_func = snd f, cmd_showInMsgContextMenu = garbage\<rparr>, True)
         else if \<not> fst s then (\<lparr>cmd_name = snd n, cmd_func = snd f, cmd_showInMsgContextMenu = False\<rparr>, True)
         else (\<lparr>cmd_name = snd n, cmd_func = snd f, cmd_showInMsgContextMenu = snd s\<rparr>, False))"

definition put_action :: "moderation_action \<Rightarrow> json" where
  "put_action v = rj_set ''pattern'' (putText (ma_action v)) (JObject [])"

text \<open>\<open>None\<close> where the constructor's multiplication overflows.\<close>

definition get_action :: "(qstring \<Rightarrow> (int \<times> qstring) option) \<Rightarrow> json \<Rightarrow> moderation_action option \<times> bool" where
  "get_action timeoutMatch v =
     (if \<not> isObject v then (ModerationAction timeoutMatch [], True)
      else (ModerationAction timeoutMatch (snd (getSafe getText v ''pattern'' [])), False))"

section \<open>Lists in the settings\<close>

text \<open>
  \<open>persist\<close>: the vector takes the items of the setting; the delayed signal of the vector writes them
  back. \<open>vget\<close> and \<open>vput\<close> are the conversions of a vector for those of an item.
\<close>

definition persist_load :: "((json \<Rightarrow> 'v \<times> bool) \<Rightarrow> json \<Rightarrow> 'v list) \<Rightarrow> (json \<Rightarrow> 'v \<times> bool) \<Rightarrow> json
    \<Rightarrow> 'v signal_vector \<Rightarrow> 'v signal_vector" where
  "persist_load vget get setting v =
     fold (\<lambda>item v. case sv_append None item v of None \<Rightarrow> v | Some (_, v') \<Rightarrow> v') (vget get setting) v"

definition persist_save :: "(('v \<Rightarrow> json) \<Rightarrow> 'v list \<Rightarrow> json) \<Rightarrow> ('v \<Rightarrow> json) \<Rightarrow> 'v signal_vector \<Rightarrow> json" where
  "persist_save vput put v = vput put (sv_items v)"

section \<open>Muted channels\<close>

definition mute :: "qstring \<Rightarrow> qstring signal_vector \<Rightarrow> qstring signal_vector" where
  "mute channel v = (case sv_append None channel v of None \<Rightarrow> v | Some (_, v') \<Rightarrow> v')"

text \<open>
  The loop of \<open>unmute\<close>, from an index on. After a removal the index goes down and, at the end of the
  round, up again; at 0 the unsigned index wraps around and back.
\<close>

function unmute_loop :: "(qstring \<Rightarrow> qstring) \<Rightarrow> qstring \<Rightarrow> nat \<Rightarrow> qstring signal_vector \<Rightarrow> qstring signal_vector" where
  "unmute_loop toLower channel i v =
     (if i < length (sv_items v) then
        (if toLower (sv_items v ! i) = toLower channel then
           (case sv_removeAt (int i) v of
              None \<Rightarrow> v
            | Some (_, v') \<Rightarrow> unmute_loop toLower channel i v')
         else unmute_loop toLower channel (Suc i) v)
      else v)"
  by pat_completeness auto
termination
  by (relation "measure (\<lambda>(_, _, i, v). length (sv_items v) - i)")
    (auto simp: sv_removeAt_def itemsChanged_def split: if_splits)

declare unmute_loop.simps [simp del]

definition unmute :: "(qstring \<Rightarrow> qstring) \<Rightarrow> qstring \<Rightarrow> qstring signal_vector \<Rightarrow> qstring signal_vector" where
  "unmute toLower channel v = unmute_loop toLower channel 0 v"

definition toggleMutedChannel :: "(qstring \<Rightarrow> qstring) \<Rightarrow> qstring \<Rightarrow> qstring signal_vector \<Rightarrow> bool \<times> qstring signal_vector" where
  "toggleMutedChannel toLower channel v =
     (if isMutedChannel toLower (sv_readOnly v) channel then (False, unmute toLower channel v)
      else (True, mute channel v))"

section \<open>Reading back\<close>

lemma isObject_rj_set [simp]: "isObject (rj_set k v obj) = isObject obj"
  by (cases obj) (simp_all add: rj_set_def)

lemma getSafe_rj_set [simp]:
  "isObject obj \<Longrightarrow> getSafe get (rj_set k v obj) k' out =
     (if k' = k \<and> map_of (members obj) k = None then (\<not> snd (get v), fst (get v)) else getSafe get obj k' out)"
  by (cases obj) (auto simp: rj_set_def getSafe_def map_add_def split: option.splits)

lemma members_rj_set [simp]:
  "isObject obj \<Longrightarrow> map_of (members (rj_set k v obj)) k' =
     (case map_of (members obj) k' of None \<Rightarrow> if k' = k then Some v else None | Some w \<Rightarrow> Some w)"
  by (cases obj) (auto simp: rj_set_def map_add_def split: option.splits)

lemma getText_putText [simp]: "getText (putText s) = (s, False)"
  by (simp add: getText_def putText_def)

text \<open>What \<open>pajlada::Settings\<close> promises for truth values.\<close>

definition bools_read_back :: "bool_codec \<Rightarrow> bool" where
  "bools_read_back bc \<longleftrightarrow> getBool bc (putBool bc True) = (True, False) \<and> getBool bc (putBool bc False) = (False, False)"

lemma getBool_putBool: "bools_read_back bc \<Longrightarrow> getBool bc (putBool bc b) = (b, False)"
  by (cases b) (simp_all add: bools_read_back_def)

text \<open>The interface of an entry: what was written is read back without an error.\<close>

locale entry =
  fixes put :: "'v \<Rightarrow> json" and get :: "json \<Rightarrow> 'v \<times> bool" and good :: "'v \<Rightarrow> bool"
  assumes read_back: "good v \<Longrightarrow> get (put v) = (v, False)"
begin

lemma append_all:
  "sv_items (fold (\<lambda>item v. case sv_append None item v of None \<Rightarrow> v | Some (_, v') \<Rightarrow> v') xs v) = sv_items v @ xs"
  by (induction xs arbitrary: v) (simp_all add: sv_append_def sv_insert_def itemsChanged_def Let_def)

lemma reload:
  assumes "\<And>xs. \<forall>x \<in> set xs. get (put x) = (x, False) \<Longrightarrow> vget get (vput put xs) = xs"
    and "\<forall>x \<in> set (sv_items v). good x"
  shows "sv_items (persist_load vget get (persist_save vput put v) SignalVector) = sv_items v"
proof -
  have "vget get (vput put (sv_items v)) = sv_items v" using assms read_back by blast
  then show ?thesis unfolding persist_load_def persist_save_def by (simp add: append_all, simp add: SignalVector_def)
qed

end

text \<open>Every entry of the program is one.\<close>

lemma ignore_entry: "bools_read_back bc \<Longrightarrow> entry (put_ignore bc) (get_ignore bc d) (\<lambda>_. True)"
  by unfold_locales (simp add: put_ignore_def get_ignore_def getBool_putBool getSafe_def [of _ "JObject []"])

lemma nickname_entry: "bools_read_back bc \<Longrightarrow> entry (put_nickname bc) (get_nickname bc g1 g2) (\<lambda>_. True)"
  by unfold_locales (simp add: put_nickname_def get_nickname_def getBool_putBool getSafe_def [of _ "JObject []"])

definition color_good :: "text_ops \<Rightarrow> int option \<Rightarrow> bool" where
  "color_good tx c \<longleftrightarrow> c \<noteq> None \<and> parseColor tx (colorName tx c) = c"

lemma readColor_good: "color_good tx c \<Longrightarrow> readColor tx (colorName tx c) = c"
  by (auto simp: color_good_def readColor_def split: option.splits)

lemma phrase_entry: "bools_read_back bc \<Longrightarrow> entry (put_phrase bc tx) (get_phrase bc tx) (\<lambda>v. color_good tx (hp_color v))"
  by unfold_locales (simp add: put_phrase_def get_phrase_def getBool_putBool getSafe_def [of _ "JObject []"] readColor_good)

lemma badge_entry:
  "bools_read_back bc \<Longrightarrow> entry (put_badge bc tx) (get_badge bc tx) (\<lambda>v. built_badge v \<and> color_good tx (hb_color v))"
proof unfold_locales
  fix v assume "bools_read_back bc" "built_badge v \<and> color_good tx (hb_color v)"
  then show "get_badge bc tx (put_badge bc tx v) = (v, False)"
    unfolding built_badge_def
    by (simp add: put_badge_def get_badge_def getBool_putBool getSafe_def [of _ "JObject []"] readColor_good)
qed

lemma blacklist_entry: "bools_read_back bc \<Longrightarrow> entry (put_blacklist bc) (get_blacklist bc) (\<lambda>_. True)"
  by unfold_locales (simp add: put_blacklist_def get_blacklist_def getBool_putBool getSafe_def [of _ "JObject []"])

lemma filter_entry:
  "entry (put_filter tx) (get_filter gm tti tx newId) (\<lambda>v. built_filter gm tti v \<and> parseUuid tx (uuidText tx (fr_id v)) = fr_id v)"
proof unfold_locales
  fix v assume "built_filter gm tti v \<and> parseUuid tx (uuidText tx (fr_id v)) = fr_id v"
  then show "get_filter gm tti tx newId (put_filter tx v) = (v, False)"
    unfolding built_filter_def by (simp add: put_filter_def get_filter_def getSafe_def [of _ "JObject []"])
qed

lemma command_entry: "bools_read_back bc \<Longrightarrow> entry (put_command bc) (get_command bc garbage) (\<lambda>_. True)"
  by unfold_locales (simp add: put_command_def get_command_def getBool_putBool Let_def getSafe_def [of _ "JObject []"])

lemma action_entry:
  "entry (\<lambda>v. put_action (the v)) (get_action tm) (\<lambda>v. v \<noteq> None \<and> ModerationAction tm (ma_action (the v)) = v)"
  by unfold_locales (auto simp: put_action_def get_action_def getSafe_def [of _ "JObject []"])

text \<open>Truth values as \<open>pajlada::Settings\<close> documents them.\<close>

definition plain_bools :: bool_codec where
  "plain_bools = \<lparr>putBool = JBool, getBool = (\<lambda>v. case v of JBool b \<Rightarrow> (b, False) | _ \<Rightarrow> (False, True))\<rparr>"

lemma plain_bools_read_back: "bools_read_back plain_bools"
  by (simp add: bools_read_back_def plain_bools_def)

interpretation ignored: entry "put_ignore plain_bools" "get_ignore plain_bools d" "\<lambda>_. True" for d
  by (rule ignore_entry [OF plain_bools_read_back])

interpretation nicks: entry "put_nickname plain_bools" "get_nickname plain_bools g1 g2" "\<lambda>_. True" for g1 g2
  by (rule nickname_entry [OF plain_bools_read_back])

interpretation phrases: entry "put_phrase plain_bools tx" "get_phrase plain_bools tx" "\<lambda>v. color_good tx (hp_color v)" for tx
  by (rule phrase_entry [OF plain_bools_read_back])

interpretation custom_commands: entry "put_command plain_bools" "get_command plain_bools g" "\<lambda>_. True" for g
  by (rule command_entry [OF plain_bools_read_back])

interpretation saved_filters: entry "put_filter tx" "get_filter gm tti tx newId"
    "\<lambda>v. built_filter gm tti v \<and> parseUuid tx (uuidText tx (fr_id v)) = fr_id v" for tx gm tti newId
  by (rule filter_entry)

section \<open>Properties\<close>

text \<open>
  Every kind of entry of the settings' lists is read back as it was written and without an error:
  ignored phrases, nicknames, highlight phrases and badges (with colours Qt reads back), excluded users,
  filters (with ids Qt reads back), custom commands and moderation buttons.
\<close>

theorem settings_entries_read_back:
  assumes "bools_read_back bc"
  shows "get_ignore bc d (put_ignore bc i) = (i, False) \<and>
    get_nickname bc g1 g2 (put_nickname bc n) = (n, False) \<and>
    get_blacklist bc (put_blacklist bc u) = (u, False) \<and>
    get_command bc g1 (put_command bc c) = (c, False) \<and>
    (color_good tx (hp_color h) \<longrightarrow> get_phrase bc tx (put_phrase bc tx h) = (h, False)) \<and>
    (built_badge b \<and> color_good tx (hb_color b) \<longrightarrow> get_badge bc tx (put_badge bc tx b) = (b, False)) \<and>
    (built_filter gm tti r \<and> parseUuid tx (uuidText tx (fr_id r)) = fr_id r \<longrightarrow>
      get_filter gm tti tx newId (put_filter tx r) = (r, False)) \<and>
    (ModerationAction tm (ma_action m) = Some m \<longrightarrow> get_action tm (put_action m) = (Some m, False))"
  using assms
  by (simp add: entry.read_back [OF ignore_entry] entry.read_back [OF nickname_entry] entry.read_back [OF blacklist_entry]
      entry.read_back [OF command_entry] entry.read_back [OF phrase_entry] entry.read_back [OF badge_entry]
      entry.read_back [OF filter_entry] entry.read_back [OF action_entry, of "Some m" for m, simplified])

theorem settings_entries_read_back_witness:
  "get_nickname plain_bools True True (put_nickname plain_bools
     \<lparr>nn_name = ''a'', nn_replace = ''b'', nn_isRegex = False, nn_isCaseSensitive = True\<rparr>) =
   (\<lparr>nn_name = ''a'', nn_replace = ''b'', nn_isRegex = False, nn_isCaseSensitive = True\<rparr>, False)"
  using settings_entries_read_back [OF plain_bools_read_back] by blast

text \<open>
  A list of the settings survives a restart: the vector that is filled from what the delayed signal
  wrote has the items of the vector it was written from, for every kind of entry that reads back.
\<close>

theorem settings_list_survives:
  assumes "entry put get good" "\<forall>x \<in> set (sv_items v). good x"
    and "\<And>xs. \<forall>x \<in> set xs. get (put x) = (x, False) \<Longrightarrow> vget get (vput put xs) = xs"
  shows "sv_items (persist_load vget get (persist_save vput put v) SignalVector) = sv_items v"
  by (rule entry.reload [OF assms(1) _ assms(2)]) (rule assms(3))

theorem settings_list_survives_witness:
  "sv_items (persist_load (\<lambda>get j. case j of JArray js \<Rightarrow> map (fst \<circ> get) js | _ \<Rightarrow> []) (get_blacklist plain_bools)
     (persist_save (\<lambda>put xs. JArray (map put xs)) (put_blacklist plain_bools)
       (SignalVector\<lparr>sv_items := [\<lparr>bu_pattern = ''a'', bu_isRegex = False\<rparr>]\<rparr>)) SignalVector) =
   [\<lparr>bu_pattern = ''a'', bu_isRegex = False\<rparr>]"
  by (subst settings_list_survives [OF blacklist_entry [OF plain_bools_read_back]]) (simp_all add: map_idI)

lemma unmute_loop_items:
  "sv_items (unmute_loop toLower c i v) =
     take i (sv_items v) @ filter (\<lambda>x. toLower x \<noteq> toLower c) (drop i (sv_items v)) \<and>
   (sv_readOnly v = sv_items v \<longrightarrow> sv_readOnly (unmute_loop toLower c i v) = sv_items (unmute_loop toLower c i v))"
proof (induction toLower c i v rule: unmute_loop.induct)
  case (1 toLower c i v)
  show ?case
  proof (cases "i < length (sv_items v)")
    case False
    then show ?thesis by (subst (1 2 3) unmute_loop.simps) simp
  next
    case True
    then have d: "drop i (sv_items v) = sv_items v ! i # drop (Suc i) (sv_items v)"
      by (simp add: Cons_nth_drop_Suc)
    show ?thesis
    proof (cases "toLower (sv_items v ! i) = toLower c")
      case False
      then show ?thesis using 1(2) [OF True False] True d
        by (subst (1 2 3) unmute_loop.simps) (simp add: take_Suc_conv_app_nth)
    next
      case eq: True
      obtain v' where v': "sv_removeAt (int i) v = Some (sv_items v ! i, v')" "sv_items v' = remove_at i (sv_items v)"
          "sv_readOnly v' = sv_items v'"
        using True by (auto simp: sv_removeAt_def itemsChanged_def)
      have "take i (sv_items v') = take i (sv_items v)" "drop i (sv_items v') = drop (Suc i) (sv_items v)"
        using True v'(2) by (simp_all add: remove_at_def)
      then show ?thesis using 1(1) [OF True eq v'(1)] True eq d v'
        by (subst (1 2 3) unmute_loop.simps) simp
    qed
  qed
qed

text \<open>
  Toggling a muted channel toggles it: the answer says whether the channel is muted afterwards,
  which it is exactly if it was not before, however often and in whatever casing it was in the list;
  every other channel is muted as before.
\<close>

theorem toggle_mutes:
  assumes "sv_readOnly v = sv_items v" "toggleMutedChannel toLower c v = (b, v')"
  shows "b = (\<not> isMutedChannel toLower (sv_readOnly v) c) \<and> sv_readOnly v' = sv_items v' \<and>
    (\<forall>x. isMutedChannel toLower (sv_readOnly v') x =
      (if toLower x = toLower c then b else isMutedChannel toLower (sv_readOnly v) x))"
  using assms unmute_loop_items [of toLower c 0 v]
  by (auto simp: toggleMutedChannel_def unmute_def mute_def isMutedChannel_def sv_append_def sv_insert_def
      itemsChanged_def Let_def list_ex_iff split: if_splits)

theorem toggle_mutes_witness:
  "isMutedChannel id (sv_readOnly (snd (toggleMutedChannel id ''a'' SignalVector))) ''a''"
proof -
  obtain b v' where t: "toggleMutedChannel id ''a'' SignalVector = (b, v')" by fastforce
  have "sv_readOnly (SignalVector :: qstring signal_vector) = sv_items SignalVector" by (simp add: SignalVector_def)
  note * = toggle_mutes [OF this t]
  then have b by (simp add: isMutedChannel_def SignalVector_def)
  then have "isMutedChannel id (sv_readOnly v') ''a''" using * by (metis id_apply)
  then show ?thesis by (simp only: t snd_conv)
qed

end
