(* ===== verification/Twitch_Text.thy ===== *)
theory Twitch_Text
  imports Settings_Items
begin

text \<open>
  \<open>providers/twitch/TwitchMessageBuilder.cpp\<close>: how the text of a message and its Twitch emotes become
  the words of the message. The emotes tag gives positions in the text (\<open>appendTwitchEmote\<close>); the
  ignored phrases rewrite the text and have to move these positions along (\<open>runIgnoreReplaces\<close>); the
  emotes are sorted and made unique by position; \<open>addWords\<close> cuts the words at the emotes.

  An emote is a number, \<open>None\<close> for a null pointer. Positions are \<open>int\<close>s as in the code. The regular
  expression that looks for an emote's name in a replacement is the parameter \<open>emoteMatch\<close>: where it
  matches, and \<open>lastCapturedIndex\<close>. Of \<open>std::partition\<close> and \<open>std::sort\<close>, which need not be stable, the
  stable result is modelled.
\<close>

section \<open>The emotes tag\<close>

record emote_occ =
  eo_start :: int
  eo_end :: int
  eo_ptr :: "nat option"
  eo_name :: qstring

definition correct_positions :: "(char \<Rightarrow> bool) \<Rightarrow> qstring \<Rightarrow> nat list" where
  "correct_positions isLowSurrogate text =
     filter (\<lambda>i. \<not> isLowSurrogate (text ! i)) [0..<length text]"

text \<open>
  The loop over the occurrences of an emote; it returns at the first malformed one. The index into
  \<open>correctPositions\<close> is not checked: \<open>None\<close> is a read outside the vector.
\<close>

fun occurrence_loop :: "(qstring \<Rightarrow> nat) \<Rightarrow> (qstring \<Rightarrow> qstring \<Rightarrow> nat option) \<Rightarrow> qstring \<Rightarrow> nat list \<Rightarrow> qstring
    \<Rightarrow> qstring list \<Rightarrow> emote_occ list \<Rightarrow> emote_occ list option" where
  "occurrence_loop toUInt getEmote text positions i [] vec = Some vec"
| "occurrence_loop toUInt getEmote text positions i (occurrence # rest) vec =
     (case split_on (CHR ''-'') occurrence of
        c0 # c1 # _ \<Rightarrow>
          (if toUInt c0 \<ge> length positions \<or> toUInt c1 \<ge> length positions then None
           else
             (let start = positions ! toUInt c0;
                  end' = positions ! toUInt c1
              in if start \<ge> end' \<or> end' > length text then Some vec
                 else
                   (let name = take (end' - start + 1) (drop start text)
                    in occurrence_loop toUInt getEmote text positions i rest
                         (vec @ [\<lparr>eo_start = int start, eo_end = int end', eo_ptr = getEmote i name, eo_name = name\<rparr>]))))
      | _ \<Rightarrow> Some vec)"

definition appendTwitchEmote :: "(qstring \<Rightarrow> nat) \<Rightarrow> (qstring \<Rightarrow> qstring \<Rightarrow> nat option) \<Rightarrow> qstring \<Rightarrow> nat list
    \<Rightarrow> qstring \<Rightarrow> emote_occ list \<Rightarrow> emote_occ list option" where
  "appendTwitchEmote toUInt getEmote text positions emote vec =
     (if CHR '':'' \<notin> set emote then Some vec
      else case split_on (CHR '':'') emote of
        i # occurrences # _ \<Rightarrow>
          occurrence_loop toUInt getEmote text positions i (split_on (CHR '','') occurrences) vec
      | _ \<Rightarrow> Some vec)"

fun append_emotes :: "(qstring \<Rightarrow> nat) \<Rightarrow> (qstring \<Rightarrow> qstring \<Rightarrow> nat option) \<Rightarrow> qstring \<Rightarrow> nat list
    \<Rightarrow> qstring list \<Rightarrow> emote_occ list \<Rightarrow> emote_occ list option" where
  "append_emotes toUInt getEmote text positions [] vec = Some vec"
| "append_emotes toUInt getEmote text positions (e # es) vec =
     (case appendTwitchEmote toUInt getEmote text positions e vec of
        None \<Rightarrow> None
      | Some vec' \<Rightarrow> append_emotes toUInt getEmote text positions es vec')"

section \<open>Replacing ignored phrases\<close>

definition removeEmotesInRange :: "int \<Rightarrow> int \<Rightarrow> emote_occ list \<Rightarrow> emote_occ list \<times> emote_occ list" where
  "removeEmotesInRange pos len emotes =
     (filter (\<lambda>e. \<not> (eo_start e \<ge> pos \<and> eo_start e < pos + len)) emotes,
      filter (\<lambda>e. eo_start e \<ge> pos \<and> eo_start e < pos + len) emotes)"

definition shiftIndicesAfter :: "int \<Rightarrow> int \<Rightarrow> emote_occ list \<Rightarrow> emote_occ list" where
  "shiftIndicesAfter pos by' emotes =
     map (\<lambda>e. if eo_start e \<ge> pos then e\<lparr>eo_start := eo_start e + by', eo_end := eo_end e + by'\<rparr> else e) emotes"

fun repl_words :: "(qstring \<times> nat option) list \<Rightarrow> qstring list \<Rightarrow> int \<Rightarrow> emote_occ list" where
  "repl_words emotes [] pos = []"
| "repl_words emotes (w # ws) pos =
     map (\<lambda>(n, e). \<lparr>eo_start = pos, eo_end = pos + int (length n), eo_ptr = e, eo_name = n\<rparr>)
       (filter (\<lambda>(n, e). w = n) emotes)
     @ repl_words emotes ws (pos + int (length w) + 1)"

definition addReplEmotes :: "(qstring \<times> nat option) list \<Rightarrow> ignore_phrase \<Rightarrow> qstring \<Rightarrow> int \<Rightarrow> emote_occ list" where
  "addReplEmotes accountEmotes phrase midrepl startIndex =
     (if \<not> ip_containsEmote accountEmotes phrase then []
      else repl_words (ip_getEmotes accountEmotes phrase) (split_on (CHR '' '') midrepl) startIndex)"

text \<open>The start of the word at a position, and its end.\<close>

fun word_start :: "qstring \<Rightarrow> nat \<Rightarrow> nat" where
  "word_start text 0 = 0"
| "word_start text (Suc p) = (if text ! p = CHR '' '' then Suc p else word_start text p)"

definition word_end :: "qstring \<Rightarrow> nat \<Rightarrow> nat" where
  "word_end text p = p + length (takeWhile (\<lambda>c. c \<noteq> CHR '' '') (drop p text))"

text \<open>
  An emote that was removed with the replaced text comes back if its name stands in the replacement.
  The loop moves the occurrence into the vector, so that a second copy has a null pointer and an
  empty name; \<open>end\<close> keeps its old value.
\<close>

fun readd_emotes :: "(qstring \<Rightarrow> qstring \<Rightarrow> (nat \<times> nat) option) \<Rightarrow> qstring \<Rightarrow> int \<Rightarrow> emote_occ list \<Rightarrow> emote_occ list" where
  "readd_emotes emoteMatch mid from' [] = []"
| "readd_emotes emoteMatch mid from' (tup # rest) =
     (if eo_ptr tup = None then []
      else case emoteMatch (eo_name tup) mid of
        None \<Rightarrow> []
      | Some (start, last') \<Rightarrow>
          (let t = tup\<lparr>eo_start := from' + int start\<rparr>
           in t # replicate last' (t\<lparr>eo_ptr := None, eo_name := []\<rparr>)))
     @ readd_emotes emoteMatch mid from' rest"

text \<open>One round of the loop: the text at \<open>from\<close> of length \<open>len\<close> becomes \<open>mid\<close>.\<close>

definition replace_step :: "(qstring \<times> nat option) list \<Rightarrow> (qstring \<Rightarrow> qstring \<Rightarrow> (nat \<times> nat) option) \<Rightarrow> ignore_phrase
    \<Rightarrow> nat \<Rightarrow> nat \<Rightarrow> qstring \<Rightarrow> qstring \<times> emote_occ list \<Rightarrow> qstring \<times> emote_occ list" where
  "replace_step accountEmotes emoteMatch phrase from' len mid s =
     (case s of (text, emotes) \<Rightarrow>
       (let (kept, vret) = removeEmotesInRange (int from') (int len) emotes;
            text' = take from' text @ mid @ drop (from' + len) text;
            pos1 = word_start text' from';
            pos2 = word_end text' (from' + length mid);
            shifted = shiftIndicesAfter (int (from' + len)) (int (length mid) - int len) kept;
            midExtended = take (pos2 - pos1) (drop pos1 text')
        in (text', shifted @ readd_emotes emoteMatch midExtended (int from') vret
              @ addReplEmotes accountEmotes phrase midExtended (int pos1))))"

text \<open>
  The loop of a phrase: \<open>look from text\<close> is the next match, its length and its replacement. A round
  goes on behind the replacement; the loop need not end, and is \<open>None\<close> then.
\<close>

partial_function (option) replace_loop :: "(nat \<Rightarrow> qstring \<Rightarrow> (nat \<times> nat \<times> qstring) option)
    \<Rightarrow> (nat \<Rightarrow> nat \<Rightarrow> qstring \<Rightarrow> qstring \<times> emote_occ list \<Rightarrow> qstring \<times> emote_occ list)
    \<Rightarrow> nat \<Rightarrow> qstring \<times> emote_occ list \<Rightarrow> (qstring \<times> emote_occ list) option" where
  "replace_loop look step from' s =
     (case look from' (fst s) of
        None \<Rightarrow> Some s
      | Some (p, len, mid) \<Rightarrow> replace_loop look step (p + length mid) (step p len mid s))"

definition look_regex :: "regex_ops \<Rightarrow> ignore_phrase \<Rightarrow> nat \<Rightarrow> qstring \<Rightarrow> (nat \<times> nat \<times> qstring) option" where
  "look_regex rx p from' text =
     (case rx_indexOf rx (ip_pattern p) (ip_isCaseSensitive p) from' text of
        None \<Rightarrow> None
      | Some (pos, len) \<Rightarrow> Some (pos, len,
          rx_replace rx (ip_pattern p) (ip_isCaseSensitive p) (ip_replace p) (take len (drop pos text))))"

definition look_plain :: "(qstring \<Rightarrow> qstring \<Rightarrow> bool) \<Rightarrow> ignore_phrase \<Rightarrow> nat \<Rightarrow> qstring \<Rightarrow> (nat \<times> nat \<times> qstring) option" where
  "look_plain foldEq p from' text =
     map_option (\<lambda>pos. (pos, length (ip_pattern p), ip_replace p))
       (indexOf foldEq (ip_isCaseSensitive p) (ip_pattern p) from' text)"

definition run_phrase :: "regex_ops \<Rightarrow> (qstring \<Rightarrow> qstring \<Rightarrow> bool) \<Rightarrow> (qstring \<times> nat option) list
    \<Rightarrow> (qstring \<Rightarrow> qstring \<Rightarrow> (nat \<times> nat) option) \<Rightarrow> ignore_phrase \<Rightarrow> qstring \<times> emote_occ list
    \<Rightarrow> (qstring \<times> emote_occ list) option" where
  "run_phrase rx foldEq accountEmotes emoteMatch p s =
     (if ip_isBlock p then Some s
      else if ip_pattern p = [] then Some s
      else if ip_isRegex p then
        (if \<not> rx_valid rx (ip_pattern p) then Some s
         else replace_loop (look_regex rx p) (replace_step accountEmotes emoteMatch p) 0 s)
      else replace_loop (look_plain foldEq p) (replace_step accountEmotes emoteMatch p) 0 s)"

fun runIgnoreReplaces :: "regex_ops \<Rightarrow> (qstring \<Rightarrow> qstring \<Rightarrow> bool) \<Rightarrow> (qstring \<times> nat option) list
    \<Rightarrow> (qstring \<Rightarrow> qstring \<Rightarrow> (nat \<times> nat) option) \<Rightarrow> ignore_phrase list \<Rightarrow> qstring \<times> emote_occ list
    \<Rightarrow> (qstring \<times> emote_occ list) option" where
  "runIgnoreReplaces rx foldEq accountEmotes emoteMatch [] s = Some s"
| "runIgnoreReplaces rx foldEq accountEmotes emoteMatch (p # ps) s =
     (case run_phrase rx foldEq accountEmotes emoteMatch p s of
        None \<Rightarrow> None
      | Some s' \<Rightarrow> runIgnoreReplaces rx foldEq accountEmotes emoteMatch ps s')"

section \<open>Sorting\<close>

text \<open>\<open>std::unique\<close> keeps the first of each run of equal starts.\<close>

fun unique_starts :: "emote_occ list \<Rightarrow> emote_occ list" where
  "unique_starts [] = []"
| "unique_starts [e] = [e]"
| "unique_starts (a # b # es) =
     (if eo_start a = eo_start b then unique_starts (a # es) else a # unique_starts (b # es))"

definition sort_emotes :: "emote_occ list \<Rightarrow> emote_occ list" where
  "sort_emotes emotes = unique_starts (sort_key eo_start emotes)"

section \<open>Words\<close>

text \<open>
  What \<open>addWords\<close> emits: an emote element, or a text that is parsed for emojis and added as words,
  links and third-party emotes.
\<close>

datatype piece = EmotePiece "nat option" qstring bool | TextPiece qstring

definition doesWordContainATwitchEmote :: "int \<Rightarrow> qstring \<Rightarrow> emote_occ list \<Rightarrow> bool" where
  "doesWordContainATwitchEmote cursor word emotes =
     (case emotes of
        [] \<Rightarrow> False
      | e # _ \<Rightarrow> \<not> (eo_start e < cursor \<or> eo_end e > cursor + int (length word)))"

text \<open>
  The loop inside a word, with the emotes from the iterator on; it need not end. The flag of an emote
  is its trailing space.
\<close>

partial_function (option) word_loop :: "int \<Rightarrow> qstring \<Rightarrow> emote_occ list \<Rightarrow> piece list
    \<Rightarrow> (int \<times> qstring \<times> emote_occ list \<times> piece list) option" where
  "word_loop cursor word emotes out =
     (if \<not> doesWordContainATwitchEmote cursor word emotes then Some (cursor, word, emotes, out)
      else
        (let e = hd emotes in
         if eo_start e = cursor then
           (let cursor' = cursor + int (length (eo_name e));
                word' = drop (length (eo_name e)) word
            in if word' = []
               then Some (cursor' + 1, word', tl emotes, out @ [EmotePiece (eo_ptr e) (eo_name e) True])
               else word_loop cursor' word' (tl emotes) (out @ [EmotePiece (eo_ptr e) (eo_name e) False]))
         else
           (let preText = take (nat (eo_start e - cursor)) word
            in word_loop (cursor + int (length preText)) (drop (length preText) word) emotes
                 (out @ [TextPiece preText]))))"

fun words_loop :: "qstring list \<Rightarrow> int \<Rightarrow> emote_occ list \<Rightarrow> piece list \<Rightarrow> piece list option" where
  "words_loop [] cursor emotes out = Some out"
| "words_loop (word # words) cursor emotes out =
     (if word = [] then words_loop words (cursor + 1) emotes out
      else case word_loop cursor word emotes out of
        None \<Rightarrow> None
      | Some (cursor', word', emotes', out') \<Rightarrow>
          if word' = [] then words_loop words cursor' emotes' out'
          else words_loop words (cursor' + int (length word') + 1) emotes' (out' @ [TextPiece word']))"

definition addWords :: "qstring list \<Rightarrow> emote_occ list \<Rightarrow> piece list option" where
  "addWords words emotes = words_loop words 0 emotes []"

text \<open>The text part of \<open>build\<close>: from the message and its emotes tag to the words.\<close>

definition build_text :: "(qstring \<Rightarrow> nat) \<Rightarrow> (qstring \<Rightarrow> qstring \<Rightarrow> nat option) \<Rightarrow> (char \<Rightarrow> bool) \<Rightarrow> regex_ops
    \<Rightarrow> (qstring \<Rightarrow> qstring \<Rightarrow> bool) \<Rightarrow> (qstring \<times> nat option) list \<Rightarrow> (qstring \<Rightarrow> qstring \<Rightarrow> (nat \<times> nat) option)
    \<Rightarrow> ignore_phrase list \<Rightarrow> qstring option \<Rightarrow> qstring \<Rightarrow> (qstring \<times> piece list) option" where
  "build_text toUInt getEmote isLow rx foldEq accountEmotes emoteMatch phrases emotesTag text =
     (case (case emotesTag of None \<Rightarrow> Some []
            | Some tag \<Rightarrow> append_emotes toUInt getEmote text (correct_positions isLow text) (split_on (CHR ''/'') tag) []) of
        None \<Rightarrow> None
      | Some emotes \<Rightarrow>
          (case runIgnoreReplaces rx foldEq accountEmotes emoteMatch phrases (text, emotes) of
             None \<Rightarrow> None
           | Some (text', emotes') \<Rightarrow>
               map_option (Pair text') (addWords (split_on (CHR '' '') text') (sort_emotes emotes'))))"

end
