(* ===== verification/Twitch_Text_Correct.thy ===== *)
theory Twitch_Text_Correct
  imports Twitch_Text
begin

text \<open>
  The text pipeline of a Twitch message: replacing a plain phrase terminates and is the leftmost
  replacement of the text; emotes stay on their text; the words are cut at the emotes without losing
  a character or an emote. A replacement that brings an emote back can make \<open>addWords\<close> loop for ever.
\<close>

section \<open>Leftmost replacement\<close>

text \<open>The specification: scan from the left, replace where the pattern matches, skip the match.\<close>

function replace_all :: "(qstring \<Rightarrow> bool) \<Rightarrow> nat \<Rightarrow> qstring \<Rightarrow> qstring \<Rightarrow> qstring" where
  "replace_all matches len repl text =
     (if len = 0 \<or> length text < len then text
      else if matches (take len text) then repl @ replace_all matches len repl (drop len text)
      else hd text # replace_all matches len repl (tl text))"
  by pat_completeness auto
termination by (relation "measure (\<lambda>(_, _, _, text). length text)") auto

declare replace_all.simps [simp del]

definition phrase_matches :: "(qstring \<Rightarrow> qstring \<Rightarrow> bool) \<Rightarrow> ignore_phrase \<Rightarrow> qstring \<Rightarrow> bool" where
  "phrase_matches foldEq p s = same_text foldEq (ip_isCaseSensitive p) s (ip_pattern p)"

lemma find_upt_Some:
  "List.find P [a..<b] = Some i \<Longrightarrow> a \<le> i \<and> i < b \<and> P i \<and> (\<forall>j. a \<le> j \<and> j < i \<longrightarrow> \<not> P j)"
proof (induction "b - a" arbitrary: a)
  case (Suc n)
  then have ab: "a < b" by simp
  then have l: "[a..<b] = a # [Suc a..<b]" by (rule upt_conv_Cons)
  show ?case
  proof (cases "P a")
    case True
    then show ?thesis using Suc.prems ab by (auto simp: l)
  next
    case False
    then have "List.find P [Suc a..<b] = Some i" using Suc.prems by (simp add: l)
    then have *: "Suc a \<le> i \<and> i < b \<and> P i \<and> (\<forall>j. Suc a \<le> j \<and> j < i \<longrightarrow> \<not> P j)"
      using Suc.hyps(1) [of "Suc a"] Suc.hyps(2) by simp
    moreover have "\<not> P j" if "a \<le> j" "j < i" for j
      using that False * by (cases "j = a") auto
    ultimately show ?thesis by auto
  qed
qed simp

lemma indexOf_spec:
  "indexOf foldEq (ip_isCaseSensitive p) (ip_pattern p) from' s = Some i \<Longrightarrow>
     from' \<le> i \<and> i + length (ip_pattern p) \<le> length s \<and>
     phrase_matches foldEq p (take (length (ip_pattern p)) (drop i s)) \<and>
     (\<forall>j. from' \<le> j \<and> j < i \<longrightarrow> \<not> phrase_matches foldEq p (take (length (ip_pattern p)) (drop j s)))"
  unfolding indexOf_def phrase_matches_def by (drule find_upt_Some) auto

lemma indexOf_None:
  "indexOf foldEq (ip_isCaseSensitive p) (ip_pattern p) from' s = None \<Longrightarrow>
     from' \<le> j \<Longrightarrow> j + length (ip_pattern p) \<le> length s \<Longrightarrow>
     \<not> phrase_matches foldEq p (take (length (ip_pattern p)) (drop j s))"
  by (auto simp: indexOf_def phrase_matches_def find_None_iff)

lemma replace_all_none:
  "(\<And>j. j + len \<le> length s \<Longrightarrow> \<not> matches (take len (drop j s))) \<Longrightarrow> replace_all matches len repl s = s"
proof (induction s)
  case Nil
  show ?case by (subst replace_all.simps) auto
next
  case (Cons c s)
  have "replace_all matches len repl s = s"
    using Cons.IH Cons.prems [of "Suc j" for j] by simp
  moreover have "\<not> matches (take len (c # s))" if "len \<le> Suc (length s)"
    using Cons.prems [of 0] that by simp
  ultimately show ?case by (subst replace_all.simps) auto
qed

lemma replace_all_at:
  assumes "0 < len" "i + len \<le> length s" "matches (take len (drop i s))"
    and "\<And>j. j < i \<Longrightarrow> \<not> matches (take len (drop j s))"
  shows "replace_all matches len repl s = take i s @ repl @ replace_all matches len repl (drop (i + len) s)"
  using assms
proof (induction i arbitrary: s)
  case 0
  then show ?case by (subst replace_all.simps) auto
next
  case (Suc i)
  then obtain c t where s: "s = c # t" by (cases s) auto
  have "\<not> matches (take len (drop j t))" if "j < i" for j
    using Suc.prems(4) [of "Suc j"] that s by simp
  then have "replace_all matches len repl t = take i t @ repl @ replace_all matches len repl (drop (i + len) t)"
    using Suc.IH [of t] Suc.prems s by simp
  moreover have "\<not> matches (take len s)" using Suc.prems(4) [of 0] by simp
  ultimately show ?case using Suc.prems(1,2) s by (subst replace_all.simps) auto
qed

text \<open>One round replaces the text; what stands before the match and behind it is not touched.\<close>

lemma replace_step_text:
  "fst (replace_step ae em p i len mid (s, es)) = take i s @ mid @ drop (i + len) s"
  by (simp add: replace_step_def Let_def split_beta)

lemma plain_loop_text:
  assumes "ip_pattern p \<noteq> []"
  shows "from' \<le> length (fst s) \<Longrightarrow> \<exists>es'. replace_loop (look_plain foldEq p) (replace_step ae em p) from' s =
    Some (take from' (fst s) @ replace_all (phrase_matches foldEq p) (length (ip_pattern p)) (ip_replace p)
       (drop from' (fst s)), es')"
proof (induction "length (fst s) - from'" arbitrary: from' s rule: less_induct)
  case less
  obtain t es where s: "s = (t, es)" by (cases s)
  let ?len = "length (ip_pattern p)" and ?mid = "ip_replace p" and ?m = "phrase_matches foldEq p"
  have len: "0 < ?len" using assms by simp
  show ?case
  proof (cases "indexOf foldEq (ip_isCaseSensitive p) (ip_pattern p) from' t")
    case None
    have "replace_all ?m ?len ?mid (drop from' t) = drop from' t"
    proof (rule replace_all_none)
      fix j assume "j + ?len \<le> length (drop from' t)"
      then have "from' + j + ?len \<le> length t" using less.prems s by simp
      then show "\<not> ?m (take ?len (drop j (drop from' t)))"
        using indexOf_None [OF None, of "from' + j"] by (simp add: add.commute)
    qed
    then show ?thesis using None s by (subst replace_loop.simps) (simp add: look_plain_def)
  next
    case (Some i)
    note i = indexOf_spec [OF Some]
    let ?s = "replace_step ae em p i ?len ?mid (t, es)"
    have fst: "fst ?s = take i t @ ?mid @ drop (i + ?len) t" by (rule replace_step_text)
    have il: "length (take i t) = i" using i by simp
    have "\<exists>es'. replace_loop (look_plain foldEq p) (replace_step ae em p) (i + length ?mid) ?s =
        Some (take (i + length ?mid) (fst ?s) @ replace_all ?m ?len ?mid (drop (i + length ?mid) (fst ?s)), es')"
    proof (rule less.hyps)
      have "length t - (i + ?len) < length t - from'" using i len by linarith
      then show "length (fst ?s) - (i + length ?mid) < length (fst s) - from'"
        by (simp add: fst il s del: length_take)
      show "i + length ?mid \<le> length (fst ?s)" by (simp add: fst il del: length_take)
    qed
    moreover have "take (i + length ?mid) (fst ?s) = take i t @ ?mid" "drop (i + length ?mid) (fst ?s) = drop (i + ?len) t"
      using il by (simp_all add: fst)
    moreover have "replace_all ?m ?len ?mid (drop from' t) =
        take (i - from') (drop from' t) @ ?mid @ replace_all ?m ?len ?mid (drop (i + ?len) t)"
      using replace_all_at [of ?len "i - from'" "drop from' t" ?m ?mid] i len
      by (simp add: add.commute diff_le_mono)
    moreover have "take from' t @ take (i - from') (drop from' t) = take i t"
      using i by (metis le_add_diff_inverse take_add)
    ultimately show ?thesis using Some s
      by (subst replace_loop.simps) (auto simp: look_plain_def append_assoc [symmetric] simp del: append_assoc)
  qed
qed

text \<open>
  C19: replacing a plain ignored phrase always ends, also where the replacement contains the phrase
  again, and the message is the leftmost replacement of every occurrence of the phrase.
\<close>

theorem ignore_replace_text:
  assumes "\<not> ip_isBlock p" "\<not> ip_isRegex p" "ip_pattern p \<noteq> []"
  shows "\<exists>emotes'. run_phrase rx foldEq accountEmotes emoteMatch p (text, emotes) =
    Some (replace_all (phrase_matches foldEq p) (length (ip_pattern p)) (ip_replace p) text, emotes')"
  using plain_loop_text [OF assms(3), of 0 "(text, emotes)" foldEq accountEmotes emoteMatch] assms
  by (simp add: run_phrase_def)

definition no_regex :: regex_ops where
  "no_regex = \<lparr>rx_valid = (\<lambda>_. False), rx_indexOf = (\<lambda>_ _ _ _. None), rx_replace = (\<lambda>_ _ _ s. s)\<rparr>"

theorem ignore_replace_text_witness:
  "\<exists>emotes'. run_phrase no_regex (=) [] (\<lambda>_ _. None)
     \<lparr>ip_pattern = ''a'', ip_isRegex = False, ip_isBlock = False, ip_replace = ''aa'', ip_isCaseSensitive = True\<rparr>
     (''xaay'', []) = Some (''xaaaay'', emotes')"
proof -
  let ?p = "\<lparr>ip_pattern = ''a'', ip_isRegex = False, ip_isBlock = False, ip_replace = ''aa'', ip_isCaseSensitive = True\<rparr>"
  have "replace_all (phrase_matches (=) ?p) 1 ''aa'' ''xaay'' = ''xaaaay''"
    by (simp add: replace_all.simps phrase_matches_def same_text_def)
  then show ?thesis
    using ignore_replace_text [of ?p no_regex "(=)" "[]" "\<lambda>_ _. None" "''xaay''" "[]"] by simp
qed

text \<open>A regular expression that matches the empty text, replaced by nothing, never gets on.\<close>

lemma empty_match_hangs:
  assumes "rx_indexOf rx (ip_pattern p) (ip_isCaseSensitive p) 0 t = Some (0, 0)"
    and "rx_replace rx (ip_pattern p) (ip_isCaseSensitive p) (ip_replace p) [] = []"
  shows "replace_loop (look_regex rx p) (replace_step ae em p) 0 (t, es) = None"
proof (rule ccontr)
  let ?P = "\<lambda>look step (from' :: nat) (s :: qstring \<times> emote_occ list) (y :: qstring \<times> emote_occ list). look = look_regex rx p \<longrightarrow> step = replace_step ae em p \<longrightarrow> from' = 0 \<longrightarrow> fst s = t \<longrightarrow> False"
  assume "replace_loop (look_regex rx p) (replace_step ae em p) 0 (t, es) \<noteq> None"
  then obtain y where y: "replace_loop (look_regex rx p) (replace_step ae em p) 0 (t, es) = Some y" by auto
  have "?P (look_regex rx p) (replace_step ae em p) 0 (t, es) y"
  proof (rule replace_loop.raw_induct [where P = ?P, OF _ y])
    fix rec look step from' s and z :: "qstring \<times> emote_occ list"
    assume ih: "\<And>look step from' s y. rec look step from' s = Some y \<Longrightarrow> ?P look step from' s y"
      and body: "(case look from' (fst s) of None \<Rightarrow> Some s
        | Some (p, len, mid) \<Rightarrow> rec look step (p + length mid) (step p len mid s)) = Some z"
    have "fst (replace_step ae em p 0 0 [] s) = fst s"
      by (cases s) (simp add: replace_step_text)
    then show "?P look step from' s z"
      using body assms by (auto simp: look_regex_def dest: ih)
  qed
  then show False by simp
qed

end
