(* ===== verification/Twitch_Words_Correct.thy ===== *)
theory Twitch_Words_Correct
  imports Twitch_Text
begin

text \<open>
  \<open>addWords\<close> of \<open>providers/twitch/TwitchMessageBuilder.cpp\<close>: when every emote stands where its position
  says, the words and emotes it emits are the message without its spaces, and every emote comes out
  once. An emote whose end lies before its start makes the loop run for ever.
\<close>

section \<open>Emotes at their places\<close>

text \<open>
  The emotes stand in the rest of the text, from position \<open>cur\<close> on, one behind the other. \<open>end\<close> is
  the last character of the emote for emotes of the tag and the one behind it for emotes of a
  replacement.
\<close>

fun placed :: "int \<Rightarrow> qstring \<Rightarrow> emote_occ list \<Rightarrow> bool" where
  "placed cur rest [] = True"
| "placed cur rest (e # es) =
     (eo_name e \<noteq> [] \<and> CHR '' '' \<notin> set (eo_name e) \<and> cur \<le> eo_start e \<and>
      eo_start e \<le> eo_end e \<and> eo_end e \<le> eo_start e + int (length (eo_name e)) \<and>
      prefix (eo_name e) (drop (nat (eo_start e - cur)) rest) \<and>
      placed (eo_start e + int (length (eo_name e))) (drop (nat (eo_start e - cur) + length (eo_name e)) rest) es)"

fun piece_text :: "piece \<Rightarrow> qstring" where
  "piece_text (EmotePiece e n b) = n"
| "piece_text (TextPiece t) = t"

definition pieces_text :: "piece list \<Rightarrow> qstring" where
  "pieces_text ps = concat (map piece_text ps)"

fun piece_emotes :: "piece list \<Rightarrow> (nat option \<times> qstring) list" where
  "piece_emotes [] = []"
| "piece_emotes (EmotePiece e n b # ps) = (e, n) # piece_emotes ps"
| "piece_emotes (TextPiece t # ps) = piece_emotes ps"

definition occ_emotes :: "emote_occ list \<Rightarrow> (nat option \<times> qstring) list" where
  "occ_emotes es = map (\<lambda>e. (eo_ptr e, eo_name e)) es"

lemma piece_emotes_append [simp]: "piece_emotes (ps @ qs) = piece_emotes ps @ piece_emotes qs"
  by (induction ps rule: piece_emotes.induct) auto

lemma pieces_text_simps [simp]:
  "pieces_text [] = []" "pieces_text (ps @ qs) = pieces_text ps @ pieces_text qs" "pieces_text [p] = piece_text p"
  by (simp_all add: pieces_text_def)

lemma occ_emotes_simps [simp]:
  "occ_emotes [] = []" "occ_emotes (e # es) = (eo_ptr e, eo_name e) # occ_emotes es"
  by (simp_all add: occ_emotes_def)

lemma placed_skip:
  assumes "placed cur (skip @ rest) es" "es \<noteq> [] \<Longrightarrow> cur + int (length skip) \<le> eo_start (hd es)"
  shows "placed (cur + int (length skip)) rest es"
proof (cases es)
  case (Cons e es')
  define n where "n = nat (eo_start e - cur) - length skip"
  have n: "nat (eo_start e - cur) = length skip + n" "nat (eo_start e - (cur + int (length skip))) = n"
    using assms Cons by (simp_all add: n_def)
  show ?thesis using assms by (simp add: Cons n)
qed simp

text \<open>An emote that starts in a word ends in it, since its name has no space.\<close>

lemma emote_in_word:
  assumes "prefix name (drop k (word @ tail))" "CHR '' '' \<notin> set name" "name \<noteq> []"
    and "tail = [] \<or> hd tail = CHR '' ''" "k < length word"
  obtains w where "word = take k word @ name @ w"
proof -
  obtain post where post: "drop k word @ tail = name @ post"
    using assms(1,5) by (auto simp: prefix_def)
  have "length name \<le> length (drop k word)"
  proof (rule ccontr)
    assume c: "\<not> length name \<le> length (drop k word)"
    obtain us where "drop k word = name @ us \<or> name = drop k word @ us \<and> tail = us @ post"
      using post by (auto simp: append_eq_append_conv2)
    then have us: "name = drop k word @ us" "tail = us @ post" using c by (metis length_append le_add1)+
    then have "us \<noteq> []" using c by auto
    with us have "CHR '' '' \<in> set name" using assms(4) by (cases us) auto
    then show False using assms(2) by simp
  qed
  then obtain w where "drop k word = name @ w"
    using post by (auto simp: append_eq_append_conv2)
  then show ?thesis using that by (metis append_take_drop_id)
qed

section \<open>One word\<close>

definition word_done :: "int \<Rightarrow> qstring \<Rightarrow> qstring \<Rightarrow> emote_occ list \<Rightarrow> piece list
    \<Rightarrow> (int \<times> qstring \<times> emote_occ list \<times> piece list) option \<Rightarrow> bool" where
  "word_done cur word tail es out r \<longleftrightarrow>
     (\<exists>cur' word' es' out'. r = Some (cur', word', es', out') \<and>
        pieces_text out' @ word' = pieces_text out @ word \<and>
        piece_emotes out' @ occ_emotes es' = piece_emotes out @ occ_emotes es \<and>
        cur' + int (length word') + (if word' = [] then 0 else 1) = cur + int (length word) + 1 \<and>
        placed (cur + int (length word)) tail es')"

lemma word_loop_placed:
  assumes "word \<noteq> []" "CHR '' '' \<notin> set word" "tail = [] \<or> hd tail = CHR '' ''" "placed cur (word @ tail) es"
  shows "word_done cur word tail es out (word_loop cur word es out)"
  using assms
proof (induction es arbitrary: cur word out)
  case Nil
  then show ?case
    by (subst word_loop.simps) (simp add: doesWordContainATwitchEmote_def word_done_def)
next
  case (Cons e es)
  let ?n = "eo_name e"
  have e: "?n \<noteq> []" "CHR '' '' \<notin> set ?n" "cur \<le> eo_start e" "eo_start e \<le> eo_end e"
      "eo_end e \<le> eo_start e + int (length ?n)"
    using Cons.prems(4) by simp_all
  define k where "k = nat (eo_start e - cur)"
  have k: "eo_start e = cur + int k" using e(3) by (simp add: k_def)
  have pre: "prefix ?n (drop k (word @ tail))" using Cons.prems(4) by (simp add: k_def)
  show ?case
  proof (cases "k < length word")
    case False
    have "k \<noteq> length word"
      using pre e(1,2) Cons.prems(3) False by (cases ?n; cases tail) (auto simp: prefix_def)
    then have "\<not> doesWordContainATwitchEmote cur word (e # es)"
      using False e(4) k by (simp add: doesWordContainATwitchEmote_def)
    moreover have "placed (cur + int (length word)) tail (e # es)"
      using placed_skip [OF Cons.prems(4)] False k by simp
    ultimately show ?thesis by (subst word_loop.simps) (simp add: word_done_def Cons.prems(1))
  next
    case True
    obtain w where w: "word = take k word @ ?n @ w"
      by (rule emote_in_word [OF pre e(2,1) Cons.prems(3) True])
    have len: "length word = k + length ?n + length w" using w True by (metis append.assoc length_append length_take min.absorb4)
    have here: "word_done (eo_start e) (?n @ w) tail (e # es) out2 (word_loop (eo_start e) (?n @ w) (e # es) out2)" for out2
    proof -
      have contains: "doesWordContainATwitchEmote (eo_start e) (?n @ w) (e # es)"
        using e(5) by (simp add: doesWordContainATwitchEmote_def)
      have rest: "drop (k + length ?n) (word @ tail) = w @ tail"
        by (subst w) (use True in simp)
      have p: "placed (eo_start e + int (length ?n)) (w @ tail) es"
        using Cons.prems(4) rest by (simp add: k_def)
      show ?thesis
      proof (cases "w = []")
        case True
        then have "word_loop (eo_start e) (?n @ w) (e # es) out2 =
            Some (eo_start e + int (length ?n) + 1, [], es, out2 @ [EmotePiece (eo_ptr e) ?n True])"
          using contains by (subst word_loop.simps) (simp add: Let_def)
        then show ?thesis using p True by (simp add: word_done_def)
      next
        case False
        have "CHR '' '' \<notin> set w" using Cons.prems(2) by (subst (asm) w) simp
        then have "word_done (eo_start e + int (length ?n)) w tail es (out2 @ [EmotePiece (eo_ptr e) ?n False])
            (word_loop (eo_start e + int (length ?n)) w es (out2 @ [EmotePiece (eo_ptr e) ?n False]))"
          using Cons.IH False Cons.prems(3) p by blast
        moreover have "word_loop (eo_start e) (?n @ w) (e # es) out2 =
            word_loop (eo_start e + int (length ?n)) w es (out2 @ [EmotePiece (eo_ptr e) ?n False])"
          using contains False by (subst word_loop.simps) (simp add: Let_def)
        ultimately show ?thesis by (auto simp: word_done_def algebra_simps)
      qed
    qed
    show ?thesis
    proof (cases "k = 0")
      case True
      then show ?thesis using here w k by simp
    next
      case False
      have "doesWordContainATwitchEmote cur word (e # es)"
        using e(3,5) k len by (simp add: doesWordContainATwitchEmote_def)
      moreover have "drop k word = ?n @ w" by (subst w) (use True in simp)
      ultimately have "word_loop cur word (e # es) out =
          word_loop (eo_start e) (?n @ w) (e # es) (out @ [TextPiece (take k word)])"
        using False k True by (subst word_loop.simps) (simp add: Let_def min_def)
      moreover have "take k word @ ?n @ w = word" using w by simp
      ultimately show ?thesis using here [of "out @ [TextPiece (take k word)]"] k len
        by (auto simp: word_done_def algebra_simps)
    qed
  qed
qed

section \<open>All words\<close>

lemma words_loop_skip_space:
  assumes "placed cur (CHR '' '' # rest) es" shows "placed (cur + 1) rest es"
proof (cases es)
  case (Cons e es')
  have "eo_start e \<noteq> cur"
    using assms Cons by (cases "eo_name e") auto
  then show ?thesis using placed_skip [of cur "'' ''" rest es] assms Cons by simp
qed simp

lemma placed_end: "placed cur [] es \<Longrightarrow> es = []"
  by (cases es) auto

lemma words_loop_placed:
  assumes "\<forall>w \<in> set words. CHR '' '' \<notin> set w" "words \<noteq> []" "placed cur (join_with (CHR '' '') words) es"
  shows "\<exists>out'. words_loop words cur es out = Some out' \<and>
    pieces_text out' = pieces_text out @ concat words \<and> piece_emotes out' = piece_emotes out @ occ_emotes es"
  using assms
proof (induction words arbitrary: cur es out)
  case (Cons word words)
  define tail where "tail = (if words = [] then [] else CHR '' '' # join_with (CHR '' '') words)"
  have joined: "join_with (CHR '' '') (word # words) = word @ tail" by (cases words) (simp_all add: tail_def)
  text \<open>Going on behind the word.\<close>
  have next_words: "\<exists>out'. words_loop words (cur2 + 1) es2 out2 = Some out' \<and>
      pieces_text out' = pieces_text out2 @ concat words \<and> piece_emotes out' = piece_emotes out2 @ occ_emotes es2"
    if "placed cur2 tail es2" for cur2 es2 out2
  proof (cases "words = []")
    case True
    then show ?thesis using that placed_end by (force simp: tail_def)
  next
    case False
    then show ?thesis using Cons.IH [of "cur2 + 1" es2 out2] Cons.prems(1) words_loop_skip_space that
      by (simp add: tail_def)
  qed
  show ?case
  proof (cases "word = []")
    case True
    then show ?thesis using next_words [of cur es out] Cons.prems(3) unfolding joined by simp
  next
    case False
    have "tail = [] \<or> hd tail = CHR '' ''" by (simp add: tail_def)
    then have "word_done cur word tail es out (word_loop cur word es out)"
      using word_loop_placed False Cons.prems(1,3) unfolding joined by simp
    then obtain cur' word' es' out' where w: "word_loop cur word es out = Some (cur', word', es', out')"
        "pieces_text out' @ word' = pieces_text out @ word"
        "piece_emotes out' @ occ_emotes es' = piece_emotes out @ occ_emotes es"
        "cur' + int (length word') + (if word' = [] then 0 else 1) = cur + int (length word) + 1"
        "placed (cur + int (length word)) tail es'"
      unfolding word_done_def by auto
    define out2 where "out2 = (if word' = [] then out' else out' @ [TextPiece word'])"
    have "words_loop (word # words) cur es out = words_loop words (cur + int (length word) + 1) es' out2"
      using False w(1,4) by (auto simp: out2_def algebra_simps)
    moreover have "pieces_text out2 = pieces_text out @ word" "piece_emotes out2 @ occ_emotes es' = piece_emotes out @ occ_emotes es"
      using w(2,3) by (cases "word' = []"; simp add: out2_def)+
    ultimately show ?thesis using next_words [OF w(5), of out2] by (metis append.assoc concat.simps(2))
  qed
qed simp

text \<open>
  C12: when every emote of a message stands where its position says (they are sorted, do not overlap,
  and the text at the position is the name of the emote, a word's part), building the words of the
  message ends, and what is emitted is the message without its spaces, character for character, with
  every emote once and in order.
\<close>

theorem addWords_covers:
  assumes "placed 0 msg emotes"
  shows "\<exists>pieces. addWords (split_on (CHR '' '') msg) emotes = Some pieces \<and>
    pieces_text pieces = filter (\<lambda>c. c \<noteq> CHR '' '') msg \<and> piece_emotes pieces = occ_emotes emotes"
  using words_loop_placed [OF split_on_words split_on_nonempty, of 0 msg emotes "[]"] assms
  by (simp add: addWords_def join_split_on concat_split_on)

theorem addWords_covers_witness:
  "\<exists>pieces. addWords (split_on (CHR '' '') ''a xKappa b'')
     [\<lparr>eo_start = 3, eo_end = 7, eo_ptr = Some 25, eo_name = ''Kappa''\<rparr>] = Some pieces \<and>
   pieces_text pieces = ''axKappab'' \<and> piece_emotes pieces = [(Some 25, ''Kappa'')]"
  using addWords_covers [of "''a xKappa b''" "[\<lparr>eo_start = 3, eo_end = 7, eo_ptr = Some 25, eo_name = ''Kappa''\<rparr>]"]
  by simp

section \<open>Misplaced emotes\<close>

text \<open>
  An emote with its end before its start fits in every word that is past: the loop then adds nothing
  and goes nowhere. \<open>runIgnoreReplaces\<close> makes such emotes, since it moves the start of an emote that it
  adds back and leaves the end.
\<close>

lemma stale_end_hangs:
  assumes "cur < eo_start e" "eo_end e \<le> cur"
  shows "word_loop cur [] (e # es) out = None"
proof (rule ccontr)
  let ?P = "\<lambda>(cur' :: int) (w :: qstring) (es' :: emote_occ list) (out :: piece list)
    (r :: int \<times> qstring \<times> emote_occ list \<times> piece list). cur' = cur \<longrightarrow> w = [] \<longrightarrow> es' = e # es \<longrightarrow> False"
  assume "word_loop cur [] (e # es) out \<noteq> None"
  then obtain r where r: "word_loop cur [] (e # es) out = Some r" by auto
  have "?P cur [] (e # es) out r"
  proof (rule word_loop.raw_induct [where P = ?P, OF _ r])
    fix rec cur' w es' and out :: "piece list" and r
    assume ih: "\<And>cur' w es' out r. rec cur' w es' out = Some r \<Longrightarrow> ?P cur' w es' out r"
      and body: "(if \<not> doesWordContainATwitchEmote cur' w es' then Some (cur', w, es', out)
        else let e = hd es' in
          if eo_start e = cur' then
            let cursor' = cur' + int (length (eo_name e)); word' = drop (length (eo_name e)) w
            in if word' = [] then Some (cursor' + 1, word', tl es', out @ [EmotePiece (eo_ptr e) (eo_name e) True])
               else rec cursor' word' (tl es') (out @ [EmotePiece (eo_ptr e) (eo_name e) False])
          else let preText = take (nat (eo_start e - cur')) w
            in rec (cur' + int (length preText)) (drop (length preText) w) es' (out @ [TextPiece preText])) = Some r"
    show "?P cur' w es' out r"
      using body assms by (auto simp: doesWordContainATwitchEmote_def Let_def dest: ih)
  qed
  then show False by simp
qed

text \<open>The message \<open>Kappa x\<close> with the phrase \<open>Kappa\<close> replaced by \<open>aaaaaaaaaa Kappa\<close> never appears.\<close>

definition hang_phrase :: ignore_phrase where
  "hang_phrase = \<lparr>ip_pattern = ''Kappa'', ip_isRegex = False, ip_isBlock = False,
     ip_replace = ''aaaaaaaaaa Kappa'', ip_isCaseSensitive = True\<rparr>"

definition hang_emote :: "int \<Rightarrow> emote_occ" where
  "hang_emote start = \<lparr>eo_start = start, eo_end = 4, eo_ptr = Some 25, eo_name = ''Kappa''\<rparr>"

lemma hang_replaced:
  "run_phrase rx foldEq [] (\<lambda>_ _. Some (11, 0)) hang_phrase (''Kappa x'', [hang_emote 0]) =
     Some (''aaaaaaaaaa Kappa x'', [hang_emote 11])"
proof -
  let ?mid = "''aaaaaaaaaa Kappa''" and ?em = "\<lambda>_ _. Some (11, 0)"
  let ?loop = "replace_loop (look_plain foldEq hang_phrase) (replace_step [] ?em hang_phrase)"
  have look: "look_plain foldEq hang_phrase 0 ''Kappa x'' = Some (0, 5, ?mid)"
    "look_plain foldEq hang_phrase (length ?mid) ''aaaaaaaaaa Kappa x'' = None"
    by (simp_all add: look_plain_def hang_phrase_def indexOf_def same_text_def upt_rec)
  have step: "replace_step [] ?em hang_phrase 0 5 ?mid (''Kappa x'', [hang_emote 0]) =
      (''aaaaaaaaaa Kappa x'', [hang_emote 11])"
    by (simp add: replace_step_def removeEmotesInRange_def shiftIndicesAfter_def addReplEmotes_def ip_containsEmote_def
        ip_getEmotes_def hang_emote_def)
  have "?loop 0 (''Kappa x'', [hang_emote 0]) = ?loop (0 + length ?mid) (''aaaaaaaaaa Kappa x'', [hang_emote 11])"
    by (subst replace_loop.simps) (simp only: fst_conv look step option.case prod.case)
  also have "\<dots> = Some (''aaaaaaaaaa Kappa x'', [hang_emote 11])"
    by (subst replace_loop.simps) (simp only: fst_conv look add_0 option.case)
  finally show ?thesis by (simp add: run_phrase_def, simp add: hang_phrase_def)
qed

lemma hang_words: "addWords (split_on (CHR '' '') ''aaaaaaaaaa Kappa x'') (sort_emotes [hang_emote 11]) = None"
proof -
  have "word_loop 0 ''aaaaaaaaaa'' [hang_emote 11] [] = word_loop 10 [] [hang_emote 11] [TextPiece ''aaaaaaaaaa'']"
    by (subst word_loop.simps) (simp add: doesWordContainATwitchEmote_def hang_emote_def Let_def)
  also have "\<dots> = None" by (rule stale_end_hangs) (simp_all add: hang_emote_def)
  finally show ?thesis by (simp add: addWords_def sort_emotes_def)
qed

end
