(* ===== verification/Split_Tree.thy ===== *)
theory Split_Tree
  imports Prelude Complex_Main
begin

text \<open>
  The splits of a tab: \<open>widgets/splits/SplitContainer.cpp\<close>. A tab shows its splits (chat views) as a tree
  of nodes, whose leaves are splits and whose inner nodes lay their children out side by side or on top
  of each other; next to the tree the container keeps the list of its splits and the selected one.

  A node has an identity, its address; the pointer to its parent is the node that holds it. Positions
  refer to nodes by their identity, and so does the preferred focus target of a node, which is only ever
  compared with the addresses of its children; \<open>None\<close> stands for a pointer that was never set. Flexes
  are \<open>qreal\<close>s that the modelled code stores and compares, never rounds. A failed assertion or a use of a
  node that is not there is \<open>None\<close>. Geometry, painting and the widgets are left out; that a split gets the
  keyboard focus is kept as the last request, and \<open>focused\<close> of the split is an operation of its own.
\<close>

section \<open>Nodes\<close>

datatype direction = Left | Above | Right | Below

datatype node_type = EmptyRoot | SplitNode | VerticalContainer | HorizontalContainer

record 's node_data =
  nd_id :: nat
  nd_type :: node_type
  nd_split :: "'s option"
  nd_prefered :: "nat option"
  nd_flexH :: rat
  nd_flexV :: rat

datatype 's node = Node (nd_data: "'s node_data") (nd_children: "'s node list")

type_synonym position = "nat option \<times> direction"

definition empty_node :: "nat \<Rightarrow> 's node" where
  "empty_node i = Node \<lparr>nd_id = i, nd_type = EmptyRoot, nd_split = None, nd_prefered = None, nd_flexH = 1, nd_flexV = 1\<rparr> []"

definition split_node :: "nat \<Rightarrow> 's \<Rightarrow> 's node" where
  "split_node i s = Node \<lparr>nd_id = i, nd_type = SplitNode, nd_split = Some s, nd_prefered = None, nd_flexH = 1, nd_flexV = 1\<rparr> []"

abbreviation node_id :: "'s node \<Rightarrow> nat" where
  "node_id t \<equiv> nd_id (nd_data t)"

abbreviation node_kind :: "'s node \<Rightarrow> node_type" where
  "node_kind t \<equiv> nd_type (nd_data t)"

definition toContainerType :: "direction \<Rightarrow> node_type" where
  "toContainerType d = (if d = Left \<or> d = Right then HorizontalContainer else VerticalContainer)"

fun isOrContainsNode :: "nat \<Rightarrow> 's node \<Rightarrow> bool" where
  "isOrContainsNode k (Node h cs) \<longleftrightarrow> nd_id h = k \<or> list_ex (isOrContainsNode k) cs"

fun findNodeContainingSplit :: "'s \<Rightarrow> 's node \<Rightarrow> 's node option"
  and find_in_children :: "'s \<Rightarrow> 's node list \<Rightarrow> 's node option" where
  "findNodeContainingSplit s (Node h cs) =
     (if nd_type h = SplitNode \<and> nd_split h = Some s then Some (Node h cs) else find_in_children s cs)"
| "find_in_children s [] = None"
| "find_in_children s (c # cs) =
     (case findNodeContainingSplit s c of Some a \<Rightarrow> Some a | None \<Rightarrow> find_in_children s cs)"

text \<open>\<open>parent_\<close> of the node \<open>k\<close>, and an assignment through a pointer to the node \<open>k\<close>.\<close>

fun parentOf :: "nat \<Rightarrow> 's node \<Rightarrow> 's node option"
  and parent_in :: "nat \<Rightarrow> 's node list \<Rightarrow> 's node option" where
  "parentOf k (Node h cs) = (if list_ex (\<lambda>c. node_id c = k) cs then Some (Node h cs) else parent_in k cs)"
| "parent_in k [] = None"
| "parent_in k (c # cs) = (case parentOf k c of Some p \<Rightarrow> Some p | None \<Rightarrow> parent_in k cs)"

fun change :: "nat \<Rightarrow> ('s node \<Rightarrow> 's node) \<Rightarrow> 's node \<Rightarrow> 's node" where
  "change k f (Node h cs) = (if nd_id h = k then f (Node h cs) else Node h (map (change k f) cs))"

section \<open>Inserting\<close>

text \<open>
  The operations of a node: the first argument is a fresh identity for the node the code allocates (for
  the clone of \<open>nestSplitIntoCollection\<close>, with the next one for the new split).
\<close>

definition place_beside :: "direction \<Rightarrow> 's node \<Rightarrow> nat \<Rightarrow> 's node list \<Rightarrow> 's node list" where
  "place_beside d new k siblings =
     (case find_index (\<lambda>c. node_id c = k) siblings of
        Some i \<Rightarrow> insert_at (if d = Right \<or> d = Below then Suc i else i) new siblings
      | None \<Rightarrow> siblings)"

definition insertNextToThis :: "nat \<Rightarrow> 's \<Rightarrow> direction \<Rightarrow> nat \<Rightarrow> 's node \<Rightarrow> 's node" where
  "insertNextToThis n s d k parent =
     Node (nd_data parent) (place_beside d (split_node n s) k (nd_children parent))"

definition setSplit :: "'s \<Rightarrow> 's node \<Rightarrow> 's node option" where
  "setSplit s t =
     (if nd_split (nd_data t) \<noteq> None \<or> nd_children t \<noteq> [] then None
      else Some (Node ((nd_data t)\<lparr>nd_split := Some s, nd_type := SplitNode\<rparr>) (nd_children t)))"

definition nestSplitIntoCollection :: "nat \<Rightarrow> 's \<Rightarrow> direction \<Rightarrow> 's node \<Rightarrow> 's node" where
  "nestSplitIntoCollection n s d t =
     (if toContainerType d = node_kind t then Node (nd_data t) (nd_children t @ [split_node n s])
      else let clone = Node \<lparr>nd_id = n, nd_type = node_kind t, nd_split = nd_split (nd_data t),
                 nd_prefered = None, nd_flexH = 1, nd_flexV = 1\<rparr> (nd_children t);
               t' = Node ((nd_data t)\<lparr>nd_type := toContainerType d, nd_split := None\<rparr>) [clone]
           in insertNextToThis (Suc n) s d n t')"

definition insertSplitRelative :: "nat \<Rightarrow> 's \<Rightarrow> direction \<Rightarrow> nat \<Rightarrow> 's node \<Rightarrow> 's node option" where
  "insertSplitRelative n s d k t =
     (case parentOf k t of
        None \<Rightarrow> if node_kind t = EmptyRoot then setSplit s t else Some (nestSplitIntoCollection n s d t)
      | Some p \<Rightarrow>
          if node_kind p = toContainerType d then Some (change (node_id p) (insertNextToThis n s d k) t)
          else Some (change k (nestSplitIntoCollection n s d) t))"

section \<open>Releasing\<close>

text \<open>
  \<open>releaseSplit\<close> of the node \<open>k\<close>: where the split would have to be put back, and the tree. With two siblings
  the parent takes over the other one, all but its flexes; with one, \<open>siblings.back()\<close> is undefined.
\<close>

definition position_in :: "node_type \<Rightarrow> bool \<Rightarrow> direction" where
  "position_in ty before =
     (if ty = VerticalContainer then (if before then Above else Below) else (if before then Left else Right))"

definition release_from_parent :: "nat \<Rightarrow> 's node \<Rightarrow> (position \<times> 's node) option" where
  "release_from_parent k parent =
     (let siblings = nd_children parent; ty = node_kind parent in
      case find_index (\<lambda>c. node_id c = k) siblings of
        None \<Rightarrow> None
      | Some i \<Rightarrow>
          let rest = remove_at i siblings in
          if length siblings = 2 then
            (let sibling = hd rest in
             Some ((Some (node_id parent), position_in ty (i = 0)),
               Node ((nd_data parent)\<lparr>nd_type := node_kind sibling, nd_split := nd_split (nd_data sibling)\<rparr>)
                 (nd_children sibling)))
          else if Suc i = length siblings then
            (if rest = [] then None
             else Some ((Some (node_id (last rest)), position_in ty False), Node (nd_data parent) rest))
          else Some ((Some (node_id (siblings ! Suc i)), position_in ty True), Node (nd_data parent) rest))"

definition node_releaseSplit :: "nat \<Rightarrow> 's node \<Rightarrow> (position \<times> 's node) option" where
  "node_releaseSplit k t =
     (case parentOf k t of
        None \<Rightarrow> Some ((None, Right), Node ((nd_data t)\<lparr>nd_type := EmptyRoot, nd_split := None\<rparr>) (nd_children t))
      | Some p \<Rightarrow>
          case release_from_parent k p of
            None \<Rightarrow> None
          | Some (pos, p') \<Rightarrow> Some (pos, change (node_id p) (\<lambda>_. p') t))"

section \<open>Focus\<close>

text \<open>\<open>setPreferedTargetRecursive\<close> of the node \<open>k\<close>: every ancestor remembers the child the path goes through.\<close>

fun setPreferedTarget :: "nat \<Rightarrow> 's node \<Rightarrow> 's node" where
  "setPreferedTarget k (Node h cs) =
     (case List.find (isOrContainsNode k) cs of
        Some c \<Rightarrow> Node (h\<lparr>nd_prefered := Some (node_id c)\<rparr>)
          (map (\<lambda>c'. if isOrContainsNode k c' then setPreferedTarget k c' else c') cs)
      | None \<Rightarrow> Node h cs)"

lemma size_member [termination_simp]: "c \<in> set cs \<Longrightarrow> size c < Suc (size_list size cs)"
  by (simp add: le_imp_less_Suc size_list_estimation')

lemma size_nth [termination_simp]: "i < length cs \<Longrightarrow> size (cs ! i) < Suc (size_list size cs)"
  by (simp add: size_member)

lemma size_last [termination_simp]: "cs \<noteq> [] \<Longrightarrow> size (last cs) < Suc (size_list size cs)"
  by (simp add: size_member)

text \<open>The split that is focused; an empty container has no front child.\<close>

fun focusSplit :: "'s node \<Rightarrow> 's option" where
  "focusSplit (Node h cs) =
     (case nd_type h of
        SplitNode \<Rightarrow> nd_split h
      | EmptyRoot \<Rightarrow> None
      | _ \<Rightarrow>
          (case find_index (\<lambda>c. nd_prefered h = Some (node_id c)) cs of
             Some i \<Rightarrow> if i < length cs then focusSplit (cs ! i) else None
           | None \<Rightarrow> (case cs of [] \<Rightarrow> None | c # _ \<Rightarrow> focusSplit c)))"

text \<open>
  \<open>selectSplitRecursive\<close> climbs from the node \<open>k\<close>. Here it recurses down to it and comes back up: \<open>None\<close>
  means that no sibling was found yet and the climb goes on, otherwise a sibling is focused.
\<close>

fun selectSplit :: "direction \<Rightarrow> nat \<Rightarrow> 's node \<Rightarrow> 's option option" where
  "selectSplit d k (Node h cs) =
     (case find_index (isOrContainsNode k) cs of
        None \<Rightarrow> None
      | Some i \<Rightarrow>
          if i < length cs then
            (case selectSplit d k (cs ! i) of
               Some r \<Rightarrow> Some r
             | None \<Rightarrow>
                 if nd_type h = toContainerType d then
                   (if d = Left \<or> d = Above then (if i = 0 then None else Some (focusSplit (cs ! (i - 1))))
                    else (if Suc i = length cs then None else Some (focusSplit (cs ! Suc i))))
                 else None)
          else None)"

fun getTopRightSplit :: "'s node \<Rightarrow> 's option" where
  "getTopRightSplit (Node h cs) =
     (case nd_type h of
        SplitNode \<Rightarrow> nd_split h
      | VerticalContainer \<Rightarrow> (case cs of [] \<Rightarrow> None | c # _ \<Rightarrow> getTopRightSplit c)
      | HorizontalContainer \<Rightarrow> (if cs = [] then None else getTopRightSplit (last cs))
      | EmptyRoot \<Rightarrow> None)"

section \<open>The container\<close>

record 's container =
  baseNode :: "'s node"
  splits :: "'s list"
  selected_ptr :: "'s option"
  next_id :: nat
  focus_request :: "'s option"

definition SplitContainer :: "'s container" where
  "SplitContainer = \<lparr>baseNode = empty_node 0, splits = [], selected_ptr = None, next_id = 1, focus_request = None\<rparr>"

definition addSplit :: "'s \<Rightarrow> 's container \<Rightarrow> 's container" where
  "addSplit s c = c\<lparr>splits := splits c @ [s], focus_request := Some s\<rparr>"

definition insertSplit :: "'s \<Rightarrow> position \<Rightarrow> 's container \<Rightarrow> 's container option" where
  "insertSplit s pos c =
     (let n = next_id c; base = baseNode c; d = snd pos in
      map_option (\<lambda>t. addSplit s (c\<lparr>baseNode := t, next_id := n + 2\<rparr>))
        (case fst pos of
           None \<Rightarrow>
             if node_kind base = EmptyRoot then setSplit s base
             else if node_kind base = SplitNode then Some (nestSplitIntoCollection n s d base)
             else insertSplitRelative n s d (node_id base) base
         | Some k \<Rightarrow> if isOrContainsNode k base then insertSplitRelative n s d k base else None))"

definition appendSplit :: "'s \<Rightarrow> 's container \<Rightarrow> 's container option" where
  "appendSplit s = insertSplit s (None, Right)"

definition insertSplit_at_split :: "'s \<Rightarrow> direction \<Rightarrow> 's \<Rightarrow> 's container \<Rightarrow> 's container option" where
  "insertSplit_at_split s d relativeTo c =
     (case findNodeContainingSplit relativeTo (baseNode c) of
        None \<Rightarrow> None
      | Some node \<Rightarrow> insertSplit s (Some (node_id node), d) c)"

definition getSelectedSplit :: "'s container \<Rightarrow> 's option" where
  "getSelectedSplit c = (case selected_ptr c of Some s \<Rightarrow> if s \<in> set (splits c) then Some s else None | None \<Rightarrow> None)"

definition setSelected :: "'s \<Rightarrow> 's container \<Rightarrow> 's container" where
  "setSelected s c =
     (if s \<notin> set (splits c) then c
      else let c' = c\<lparr>selected_ptr := Some s\<rparr> in
        case findNodeContainingSplit s (baseNode c) of
          None \<Rightarrow> c'
        | Some node \<Rightarrow> c'\<lparr>focus_request := focusSplit node, baseNode := setPreferedTarget (node_id node) (baseNode c)\<rparr>)"

text \<open>
  With no split left, \<open>setSelected(nullptr)\<close> is called, which does nothing since the null pointer is not in
  the list: the selected pointer is left as it is. Otherwise the front split is focused.
\<close>

definition releaseSplit :: "'s \<Rightarrow> 's container \<Rightarrow> (position \<times> 's container) option" where
  "releaseSplit s c =
     (case findNodeContainingSplit s (baseNode c) of
        None \<Rightarrow> None
      | Some node \<Rightarrow>
          let rest = remove1 s (splits c) in
          case node_releaseSplit (node_id node) (baseNode c) of
            None \<Rightarrow> None
          | Some (pos, t) \<Rightarrow>
              Some (pos, c\<lparr>splits := rest, baseNode := t,
                focus_request := (if rest = [] then focus_request c else Some (hd rest))\<rparr>))"

definition selectNextSplit :: "direction \<Rightarrow> 's container \<Rightarrow> 's container" where
  "selectNextSplit d c =
     (case Option.bind (selected_ptr c) (\<lambda>s. findNodeContainingSplit s (baseNode c)) of
        None \<Rightarrow> c
      | Some node \<Rightarrow>
          (case selectSplit d (node_id node) (baseNode c) of
             Some (Some s) \<Rightarrow> c\<lparr>focus_request := Some s\<rparr>
           | _ \<Rightarrow> c))"

text \<open>A double click on a resize handle in front of the node \<open>k\<close>.\<close>

definition resetFlex :: "nat \<Rightarrow> 's container \<Rightarrow> 's container option" where
  "resetFlex k c =
     map_option (\<lambda>p. c\<lparr>baseNode := change (node_id p)
         (\<lambda>t. Node (nd_data t) (map (\<lambda>x. Node ((nd_data x)\<lparr>nd_flexH := 1, nd_flexV := 1\<rparr>) (nd_children x)) (nd_children t)))
         (baseNode c)\<rparr>)
       (parentOf k (baseNode c))"

text \<open>The title and the live state the container gives its tab, with the names and states of its channels.\<close>

fun title_loop :: "('s \<Rightarrow> qstring) \<Rightarrow> bool \<Rightarrow> qstring \<Rightarrow> 's list \<Rightarrow> qstring" where
  "title_loop nameOf first newTitle [] = newTitle"
| "title_loop nameOf first newTitle (s # ss) =
     (if nameOf s = [] then title_loop nameOf first newTitle ss
      else title_loop nameOf False ((if first then newTitle else newTitle @ '', '') @ nameOf s) ss)"

definition refreshTabTitle :: "('s \<Rightarrow> qstring) \<Rightarrow> 's container \<Rightarrow> qstring" where
  "refreshTabTitle nameOf c =
     (let newTitle = title_loop nameOf True [] (splits c) in if newTitle = [] then ''empty'' else newTitle)"

definition refreshTabLiveStatus :: "('s \<Rightarrow> bool) \<Rightarrow> 's container \<Rightarrow> bool" where
  "refreshTabLiveStatus isLive c = list_ex isLive (splits c)"

end
