(* ===== verification/Split_Tree_Correct.thy ===== *)
theory Split_Tree_Correct
  imports Split_Tree
begin

text \<open>
  The tree of a split container and its list of splits agree after every operation, and what the operations
  do to the order of the splits. The proofs look at a node of a tree through its context: the frames of
  its ancestors, innermost first, each with the children before and after the path.
\<close>

section \<open>Contents and well-formedness\<close>

fun ids :: "'s node \<Rightarrow> nat list" where
  "ids (Node h cs) = nd_id h # concat (map ids cs)"

fun own_list :: "node_type \<Rightarrow> 's option \<Rightarrow> 's list" where
  "own_list SplitNode (Some s) = [s]"
| "own_list _ _ = []"

lemma set_own_list [simp]: "s \<in> set (own_list ty x) \<longleftrightarrow> ty = SplitNode \<and> x = Some s"
  by (cases "(ty, x)" rule: own_list.cases) auto

definition own_split :: "'s node_data \<Rightarrow> 's list" where
  "own_split h = own_list (nd_type h) (nd_split h)"

fun leaves :: "'s node \<Rightarrow> 's list" where
  "leaves (Node h cs) = own_split h @ concat (map leaves cs)"

definition is_container :: "node_type \<Rightarrow> bool" where
  "is_container ty \<longleftrightarrow> ty = VerticalContainer \<or> ty = HorizontalContainer"

fun node_ok :: "'s node \<Rightarrow> bool" where
  "node_ok (Node h cs) \<longleftrightarrow>
     (if nd_type h = SplitNode then nd_split h \<noteq> None \<and> cs = []
      else is_container (nd_type h) \<and> nd_split h = None \<and> 2 \<le> length cs \<and> list_all node_ok cs)"

definition root_ok :: "'s node \<Rightarrow> bool" where
  "root_ok t \<longleftrightarrow> nd_flexH (nd_data t) = 1 \<and> nd_flexV (nd_data t) = 1 \<and>
     (node_ok t \<or> node_kind t = EmptyRoot \<and> nd_split (nd_data t) = None \<and> nd_children t = [])"

definition in_step :: "'s container \<Rightarrow> bool" where
  "in_step c \<longleftrightarrow> root_ok (baseNode c) \<and> distinct (ids (baseNode c)) \<and> list_all (\<lambda>i. i < next_id c) (ids (baseNode c)) \<and>
     mset (leaves (baseNode c)) = mset (splits c) \<and> distinct (splits c)"

lemma isOrContainsNode_ids [simp]: "isOrContainsNode k t \<longleftrightarrow> k \<in> set (ids t)"
  by (induction k t rule: isOrContainsNode.induct) (auto simp: list_ex_iff)

lemma node_id_in_ids [simp]: "node_id t \<in> set (ids t)"
  by (cases t) simp

lemma toContainerType_container [simp]: "is_container (toContainerType d)" "toContainerType d \<noteq> SplitNode" "toContainerType d \<noteq> EmptyRoot"
  by (auto simp: is_container_def toContainerType_def)

section \<open>Contexts\<close>

type_synonym 's frame = "'s node_data \<times> 's node list \<times> 's node list"

fun plug :: "'s frame list \<Rightarrow> 's node \<Rightarrow> 's node" where
  "plug [] u = u"
| "plug ((h, ls, rs) # C) u = plug C (Node h (ls @ u # rs))"

lemma plug_append: "plug (C @ D) u = plug D (plug C u)"
  by (induction C u rule: plug.induct) auto

text \<open>What a context has before and after its hole, for a function that collects from the nodes.\<close>

fun before :: "('s node_data \<Rightarrow> 'b list) \<Rightarrow> ('s node \<Rightarrow> 'b list) \<Rightarrow> 's frame list \<Rightarrow> 'b list" where
  "before g F [] = []"
| "before g F ((h, ls, rs) # C) = before g F C @ g h @ concat (map F ls)"

fun after :: "('s node \<Rightarrow> 'b list) \<Rightarrow> 's frame list \<Rightarrow> 'b list" where
  "after F [] = []"
| "after F ((h, ls, rs) # C) = concat (map F rs) @ after F C"

lemma collect_plug:
  assumes "\<And>h cs. F (Node h cs) = g h @ concat (map F cs)"
  shows "F (plug C u) = before g F C @ F u @ after F C"
  by (induction C u rule: plug.induct) (auto simp: assms)

lemma ids_plug: "ids (plug C u) = before (\<lambda>h. [nd_id h]) ids C @ ids u @ after ids C"
  by (rule collect_plug) simp

lemma distinct_hole: "distinct (ids (plug C u)) \<Longrightarrow> distinct (ids u)"
  by (simp only: ids_plug distinct_append)

lemma distinct_frame: "distinct (ids (plug ((h, ls, rs) # C) u)) \<Longrightarrow> distinct (ids (Node h (ls @ u # rs)))"
  using distinct_hole [of C "Node h (ls @ u # rs)"] by simp

lemma other_ids:
  assumes "distinct (ids (Node h (ls @ u # rs)))" "k \<in> set (ids u)"
  shows "k \<noteq> nd_id h" "c \<in> set ls \<Longrightarrow> k \<notin> set (ids c)" "c \<in> set rs \<Longrightarrow> k \<notin> set (ids c)"
proof -
  have d: "distinct (concat (map ids ls) @ ids u @ concat (map ids rs))" "nd_id h \<notin> set (ids u)"
    using assms(1) by auto
  then have "k \<notin> set (concat (map ids ls))" "k \<notin> set (concat (map ids rs))"
    using assms(2) by auto
  then show "c \<in> set ls \<Longrightarrow> k \<notin> set (ids c)" "c \<in> set rs \<Longrightarrow> k \<notin> set (ids c)" "k \<noteq> nd_id h"
    using d(2) assms(2) by auto
qed

lemma leaves_plug: "leaves (plug C u) = before own_split leaves C @ leaves u @ after leaves C"
  by (rule collect_plug) simp

fun frame_ok :: "'s frame \<Rightarrow> bool" where
  "frame_ok (h, ls, rs) \<longleftrightarrow> is_container (nd_type h) \<and> nd_split h = None \<and> ls @ rs \<noteq> [] \<and>
     list_all node_ok ls \<and> list_all node_ok rs"

lemma not_container_split [simp]: "\<not> is_container SplitNode" "\<not> is_container EmptyRoot"
  by (auto simp: is_container_def)

lemma node_ok_plug: "node_ok (plug C u) \<longleftrightarrow> list_all frame_ok C \<and> node_ok u"
proof (induction C u rule: plug.induct)
  case (2 h ls rs C u)
  have "2 \<le> length (ls @ u # rs) \<longleftrightarrow> ls @ rs \<noteq> []" by (cases ls; cases rs) auto
  moreover have "is_container (nd_type h) \<Longrightarrow> nd_type h \<noteq> SplitNode" by auto
  ultimately show ?case using 2 by auto
qed simp

lemma ids_split:
  "k \<in> set (ids t) \<Longrightarrow> \<exists>C u. t = plug C u \<and> node_id u = k"
proof (induction t rule: ids.induct)
  case (1 h cs)
  show ?case
  proof (cases "k = nd_id h")
    case True
    then show ?thesis by (intro exI [of _ "[]"]) simp
  next
    case False
    with 1(2) obtain c where c: "c \<in> set cs" "k \<in> set (ids c)" by auto
    from 1(1) [OF c] obtain C u where u: "c = plug C u" "node_id u = k" by auto
    from c(1) obtain ls rs where "cs = ls @ c # rs" by (auto simp: in_set_conv_decomp)
    then have "Node h cs = plug (C @ [(h, ls, rs)]) u" using u by (simp add: plug_append)
    then show ?thesis using u(2) by blast
  qed
qed

lemma find_split_node:
  "findNodeContainingSplit s t = Some u \<Longrightarrow> \<exists>C. t = plug C u \<and> node_kind u = SplitNode \<and> nd_split (nd_data u) = Some s"
  "find_in_children s cs = Some u \<Longrightarrow> \<exists>C ls c rs. cs = ls @ c # rs \<and> c = plug C u \<and> node_kind u = SplitNode \<and> nd_split (nd_data u) = Some s"
proof (induction s t and s cs rule: findNodeContainingSplit_find_in_children.induct)
  case (1 s h cs)
  show ?case
  proof (cases "nd_type h = SplitNode \<and> nd_split h = Some s")
    case True
    then show ?thesis using 1(2) by (intro exI [of _ "[]"]) auto
  next
    case False
    then obtain C ls c rs where "cs = ls @ c # rs" "c = plug C u" "node_kind u = SplitNode" "nd_split (nd_data u) = Some s"
      using 1 by (auto split: if_splits)
    then show ?thesis by (intro exI [of _ "C @ [(h, ls, rs)]"]) (simp add: plug_append)
  qed
next
  case (3 s c cs)
  show ?case
  proof (cases "findNodeContainingSplit s c")
    case None
    then obtain C ls d rs where "cs = ls @ d # rs" "d = plug C u" "node_kind u = SplitNode" "nd_split (nd_data u) = Some s"
      using 3 by auto
    then show ?thesis by (metis append_Cons)
  next
    case (Some a)
    then show ?thesis using 3 by (metis append_Nil find_in_children.simps(2) option.simps(5))
  qed
qed simp

lemma find_split_None:
  "findNodeContainingSplit s t = None \<longleftrightarrow> s \<notin> set (leaves t)"
  "find_in_children s cs = None \<longleftrightarrow> (\<forall>c \<in> set cs. s \<notin> set (leaves c))"
  by (induction s t and s cs rule: findNodeContainingSplit_find_in_children.induct)
    (auto simp: own_split_def split: option.splits)

section \<open>Operations in a context\<close>

lemma change_other: "k \<notin> set (ids t) \<Longrightarrow> change k f t = t"
  by (induction k f t rule: change.induct) (auto simp: map_idI)

lemma change_plug:
  "distinct (ids (plug C u)) \<Longrightarrow> k \<in> set (ids u) \<Longrightarrow> change k f (plug C u) = plug C (change k f u)"
proof (induction C u rule: plug.induct)
  case (2 h ls rs C u)
  let ?t = "Node h (ls @ u # rs)"
  have "distinct (ids ?t)" using 2(2) by (rule distinct_frame)
  then have "nd_id h \<noteq> k" "map (change k f) ls = ls" "map (change k f) rs = rs"
    using other_ids [OF _ 2(3)] by (auto intro!: map_idI change_other)
  then have "change k f ?t = Node h (ls @ change k f u # rs)" by simp
  moreover have "change k f (plug C ?t) = plug C (change k f ?t)" using 2 by simp
  ultimately show ?case by simp
qed simp

lemma change_at: "distinct (ids (plug C u)) \<Longrightarrow> change (node_id u) f (plug C u) = plug C (f u)"
  by (cases u) (simp add: change_plug)

lemma no_child_id:
  assumes "\<forall>c \<in> set cs. k \<notin> set (ids c)" shows "\<not> list_ex (\<lambda>c. node_id c = k) cs"
proof
  assume "list_ex (\<lambda>c. node_id c = k) cs"
  then obtain c where "c \<in> set cs" "node_id c = k" by (auto simp: list_ex_iff)
  then show False using assms node_id_in_ids [of c] by simp
qed

lemma parentOf_None:
  fixes t :: "'s node" and cs :: "'s node list"
  shows "k \<notin> set (ids t) \<Longrightarrow> parentOf k t = None"
    and "\<forall>c \<in> set cs. k \<notin> set (ids c) \<Longrightarrow> parent_in k cs = None"
proof (induction k t and k cs rule: parentOf_parent_in.induct)
  case (1 k h cs)
  then have "\<not> list_ex (\<lambda>c. node_id c = k) cs" by (intro no_child_id) auto
  then show ?case using 1 by simp
qed simp_all

lemma parent_in_append:
  "parent_in k (xs @ ys) = (case parent_in k xs of None \<Rightarrow> parent_in k ys | Some p \<Rightarrow> Some p)"
  by (induction xs) (auto split: option.splits)

lemma parentOf_plug_ne:
  "distinct (ids (plug C v)) \<Longrightarrow> k \<in> set (ids v) \<Longrightarrow> k \<noteq> node_id v \<Longrightarrow> parentOf k (plug C v) = parentOf k v"
proof (induction C v rule: plug.induct)
  case (2 h ls rs C v)
  let ?t = "Node h (ls @ v # rs)"
  have d: "distinct (ids ?t)" using 2(2) by (rule distinct_frame)
  then have n: "\<forall>c \<in> set ls \<union> set rs. k \<notin> set (ids c)" "k \<noteq> nd_id h"
    using other_ids [OF _ 2(3)] by auto
  then have "\<not> list_ex (\<lambda>c. node_id c = k) (ls @ v # rs)"
    using 2(4) no_child_id [of ls k] no_child_id [of rs k] by simp
  then have "parentOf k ?t = parentOf k v"
    using n parentOf_None(2) [of ls k] parentOf_None(2) [of rs k] by (auto simp: parent_in_append split: option.split)
  moreover have "parentOf k (plug C ?t) = parentOf k ?t" using 2 n by simp
  ultimately show ?case by simp
qed simp

lemma parentOf_root: "distinct (ids u) \<Longrightarrow> parentOf (node_id u) u = None"
proof (cases u)
  case (Node h cs)
  assume "distinct (ids u)"
  then have n: "\<forall>c \<in> set cs. nd_id h \<notin> set (ids c)" using Node by simp
  then have "\<not> list_ex (\<lambda>c. node_id c = nd_id h) cs" by (rule no_child_id)
  then show ?thesis using parentOf_None(2) [OF n] Node by simp
qed

lemma parentOf_frame:
  assumes "distinct (ids (plug ((h, ls, rs) # C) u))"
  shows "parentOf (node_id u) (plug ((h, ls, rs) # C) u) = Some (Node h (ls @ u # rs))"
proof -
  have "distinct (ids (Node h (ls @ u # rs)))" using assms by (rule distinct_frame)
  then have "node_id u \<noteq> nd_id h" by (cases u) auto
  then show ?thesis using parentOf_plug_ne [of C "Node h (ls @ u # rs)" "node_id u"] assms by simp
qed

text \<open>A new node beside another one, and what an insertion does to a node or its place.\<close>

definition beside :: "direction \<Rightarrow> 'b \<Rightarrow> 'b \<Rightarrow> 'b list" where
  "beside d new u = (if d = Right \<or> d = Below then [u, new] else [new, u])"

lemma find_index_here:
  "\<forall>c \<in> set ls. \<not> P c \<Longrightarrow> P u \<Longrightarrow> find_index P (ls @ u # rs) = Some (length ls)"
  by (induction ls) auto

lemma place_beside_here:
  "\<forall>c \<in> set ls. node_id c \<noteq> node_id u \<Longrightarrow> place_beside d new (node_id u) (ls @ u # rs) = ls @ beside d new u @ rs"
  by (simp add: place_beside_def find_index_here beside_def insert_at_def)

lemma sibling_ids:
  "distinct (ids (Node h (ls @ u # rs))) \<Longrightarrow> c \<in> set ls \<Longrightarrow> node_id c \<noteq> node_id u"
  using other_ids(2) [OF _ node_id_in_ids] node_id_in_ids by metis

lemma nest_alt:
  "nestSplitIntoCollection n s d t =
     (if toContainerType d = node_kind t then Node (nd_data t) (nd_children t @ [split_node n s])
      else Node ((nd_data t)\<lparr>nd_type := toContainerType d, nd_split := None\<rparr>)
        (beside d (split_node (Suc n) s) (Node \<lparr>nd_id = n, nd_type = node_kind t, nd_split = nd_split (nd_data t),
           nd_prefered = None, nd_flexH = 1, nd_flexV = 1\<rparr> (nd_children t))))"
  by (simp add: nestSplitIntoCollection_def insertNextToThis_def Let_def place_beside_def beside_def insert_at_def)

lemma insertSplitRelative_frame:
  assumes d: "distinct (ids (plug ((h, ls, rs) # C) u))"
  shows "insertSplitRelative n s d (node_id u) (plug ((h, ls, rs) # C) u) =
    Some (if nd_type h = toContainerType d then plug C (Node h (ls @ beside d (split_node n s) u @ rs))
          else plug ((h, ls, rs) # C) (nestSplitIntoCollection n s d u))"
proof -
  have p: "distinct (ids (Node h (ls @ u # rs)))" using d by (rule distinct_frame)
  have "change (nd_id h) (insertNextToThis n s d (node_id u)) (plug C (Node h (ls @ u # rs))) =
      plug C (Node h (ls @ beside d (split_node n s) u @ rs))"
    using change_at [of C "Node h (ls @ u # rs)"] d sibling_ids [OF p]
    by (simp add: insertNextToThis_def place_beside_here)
  then show ?thesis
    using change_at [OF d] parentOf_frame [OF d] by (simp add: insertSplitRelative_def)
qed

lemma insertSplitRelative_root:
  "distinct (ids u) \<Longrightarrow> insertSplitRelative n s d (node_id u) u =
     (if node_kind u = EmptyRoot then setSplit s u else Some (nestSplitIntoCollection n s d u))"
  by (simp add: insertSplitRelative_def parentOf_root)

definition absorb :: "'s node_data \<Rightarrow> 's node \<Rightarrow> 's node" where
  "absorb h v = Node (h\<lparr>nd_type := node_kind v, nd_split := nd_split (nd_data v)\<rparr>) (nd_children v)"

lemma node_releaseSplit_frame:
  assumes d: "distinct (ids (plug ((h, ls, rs) # C) u))" and ne: "ls @ rs \<noteq> []"
  shows "node_releaseSplit (node_id u) (plug ((h, ls, rs) # C) u) = Some
    (if length (ls @ rs) = 1 then ((Some (nd_id h), position_in (nd_type h) (ls = [])), plug C (absorb h (hd (ls @ rs))))
     else if rs = [] then ((Some (node_id (last ls)), position_in (nd_type h) False), plug C (Node h ls))
     else ((Some (node_id (hd rs)), position_in (nd_type h) True), plug C (Node h (ls @ rs))))"
proof -
  have p: "distinct (ids (Node h (ls @ u # rs)))" using d by (rule distinct_frame)
  have i: "find_index (\<lambda>c. node_id c = node_id u) (ls @ u # rs) = Some (length ls)"
    using sibling_ids [OF p] by (intro find_index_here) auto
  have r: "remove_at (length ls) (ls @ u # rs) = ls @ rs" by (simp add: remove_at_def)
  have l: "length (ls @ u # rs) = 2 \<longleftrightarrow> length (ls @ rs) = 1" by (cases ls; cases rs) auto
  have c: "change (nd_id h) (\<lambda>_. p') (plug C (Node h (ls @ u # rs))) = plug C p'" for p'
    using change_at [of C "Node h (ls @ u # rs)"] d by simp
  have c': "change (nd_id h) (\<lambda>_. p') (plug C (Node h (ls @ [u]))) = plug C p'" if "rs = []" for p'
    using c that by simp
  have n: "(ls @ u # rs) ! Suc (length ls) = hd rs" if "rs \<noteq> []" using that by (simp add: nth_append hd_conv_nth)
  show ?thesis
    using ne parentOf_frame [OF d] i r l n
    by (simp add: node_releaseSplit_def release_from_parent_def Let_def absorb_def c c')
qed

lemma node_releaseSplit_root:
  "distinct (ids u) \<Longrightarrow> node_releaseSplit (node_id u) u =
     Some ((None, Right), Node ((nd_data u)\<lparr>nd_type := EmptyRoot, nd_split := None\<rparr>) (nd_children u))"
  by (simp add: node_releaseSplit_def parentOf_root)

section \<open>Insertion\<close>

lemma distinct_replace:
  assumes "distinct (ids (plug C u))" "distinct (ids u')" "set (ids u') \<subseteq> N \<union> set (ids u)" "N \<inter> set (ids (plug C u)) = {}"
  shows "distinct (ids (plug C u'))"
  using assms unfolding ids_plug by auto

lemma set_ids_replace:
  "set (ids u') \<subseteq> N \<union> set (ids u) \<Longrightarrow> set (ids (plug C u')) \<subseteq> N \<union> set (ids (plug C u))"
  unfolding ids_plug by auto

lemma data_plug: "C \<noteq> [] \<Longrightarrow> nd_data (plug C u) = nd_data (plug C u')"
proof (induction C arbitrary: u u')
  case (Cons f C)
  obtain h ls rs where f: "f = (h, ls, rs)" by (cases f) auto
  show ?case by (cases "C = []") (use f Cons.IH in \<open>auto\<close>)
qed simp

lemma children_plug: "C \<noteq> [] \<Longrightarrow> nd_children (plug C u) \<noteq> []"
proof (induction C arbitrary: u)
  case (Cons f C)
  obtain h ls rs where f: "f = (h, ls, rs)" by (cases f) auto
  show ?case by (cases "C = []") (use f Cons.IH in \<open>auto\<close>)
qed simp

lemma root_ok_plug:
  "C \<noteq> [] \<Longrightarrow> root_ok (plug C u) \<Longrightarrow> node_ok (plug C u) \<and> node_ok u"
  using children_plug [of C u] by (auto simp: root_ok_def node_ok_plug)

lemma root_ok_replace:
  "C \<noteq> [] \<Longrightarrow> root_ok (plug C u) \<Longrightarrow> node_ok u' \<Longrightarrow> root_ok (plug C u')"
  using root_ok_plug [of C u] data_plug [of C u u'] by (simp add: root_ok_def node_ok_plug)

lemma split_node_simps [simp]:
  "node_ok (split_node i s)" "ids (split_node i s) = [i]" "leaves (split_node i s) = [s]"
  "node_id (split_node i s) = i" "node_kind (split_node i s) = SplitNode" "nd_split (nd_data (split_node i s)) = Some s"
  by (simp_all add: split_node_def own_split_def)

lemma own_split_container [simp]: "is_container (nd_type h) \<Longrightarrow> own_split h = []"
  by (cases "nd_type h"; cases "nd_split h") (auto simp: own_split_def)

lemma own_split_typed [simp]:
  "own_split (h\<lparr>nd_type := toContainerType d, nd_split := None\<rparr>) = []"
  by (simp add: own_split_def toContainerType_def)

definition nested_leaves :: "'s \<Rightarrow> direction \<Rightarrow> 's node \<Rightarrow> 's list" where
  "nested_leaves s d u =
     (if toContainerType d = node_kind u \<or> d = Right \<or> d = Below then leaves u @ [s] else s # leaves u)"

lemma nest_ok:
  assumes "node_ok u" shows "node_ok (nestSplitIntoCollection n s d u)"
proof (cases u)
  case (Node h cs)
  show ?thesis
  proof (cases "toContainerType d = nd_type h")
    case True
    then have "nd_type h \<noteq> SplitNode" by (metis toContainerType_container(2))
    then show ?thesis using assms Node True by (auto simp: nest_alt)
  next
    case False
    then show ?thesis using assms Node by (auto simp: nest_alt beside_def)
  qed
qed

lemma nest_contents:
  assumes "distinct (ids u)" "n \<notin> set (ids u)" "Suc n \<notin> set (ids u)"
  shows "distinct (ids (nestSplitIntoCollection n s d u))"
    and "set (ids (nestSplitIntoCollection n s d u)) \<subseteq> {n, Suc n} \<union> set (ids u)"
    and "leaves (nestSplitIntoCollection n s d u) = nested_leaves s d u"
    and "nd_flexH (nd_data (nestSplitIntoCollection n s d u)) = nd_flexH (nd_data u)"
    and "nd_flexV (nd_data (nestSplitIntoCollection n s d u)) = nd_flexV (nd_data u)"
  using assms by (cases u; auto simp: nest_alt beside_def nested_leaves_def own_split_def)+

text \<open>What an insertion relative to a node gives.\<close>

definition inserted_leaves :: "'s \<Rightarrow> direction \<Rightarrow> 's frame list \<Rightarrow> 's node \<Rightarrow> 's list" where
  "inserted_leaves s d C u =
     before own_split leaves C @
     (if C \<noteq> [] \<and> nd_type (fst (hd C)) = toContainerType d
      then (if d = Right \<or> d = Below then leaves u @ [s] else s # leaves u)
      else nested_leaves s d u) @ after leaves C"

lemma insertSplitRelative_step:
  assumes t: "root_ok (plug C u)" "distinct (ids (plug C u))" "\<forall>i \<in> set (ids (plug C u)). i < n"
  shows "\<exists>t'. insertSplitRelative n s d (node_id u) (plug C u) = Some t' \<and> root_ok t' \<and> distinct (ids t') \<and>
    (\<forall>i \<in> set (ids t'). i < n + 2) \<and> leaves t' = inserted_leaves s d C u"
proof (cases C)
  case Nil
  show ?thesis
  proof (cases "node_kind u = EmptyRoot")
    case True
    then have "\<not> node_ok u" by (cases u) auto
    moreover obtain h cs where u: "u = Node h cs" by (cases u) auto
    ultimately have h: "nd_split h = None" "cs = []" "nd_flexH h = 1" "nd_flexV h = 1" "nd_id h < n" "nd_type h = EmptyRoot"
      using t Nil True by (auto simp: root_ok_def)
    then have "insertSplitRelative n s d (node_id u) u = Some (Node (h\<lparr>nd_split := Some s, nd_type := SplitNode\<rparr>) [])"
      using insertSplitRelative_root [of u n s d] u by (simp add: setSplit_def)
    then show ?thesis using Nil u h by (simp add: root_ok_def inserted_leaves_def nested_leaves_def own_split_def)
  next
    case False
    then have o: "node_ok u" and n: "n \<notin> set (ids u)" "Suc n \<notin> set (ids u)" using t Nil by (auto simp: root_ok_def)
    have "distinct (ids u)" using t Nil by simp
    note c = nest_contents [OF this n, of s d]
    have "\<forall>i \<in> set (ids (nestSplitIntoCollection n s d u)). i < n + 2"
      using c(2) t(3) Nil by (auto dest!: subsetD)
    then show ?thesis using t False Nil c nest_ok [OF o, of n s d]
      by (simp add: insertSplitRelative_root root_ok_def inserted_leaves_def)
  qed
next
  case (Cons f C')
  obtain h ls rs where f: "f = (h, ls, rs)" by (cases f) auto
  have C: "C = (h, ls, rs) # C'" using Cons f by simp
  have o: "node_ok (plug C u)" "node_ok u" using t(1) root_ok_plug [of C u] C by auto
  have nids: "n \<notin> set (ids (plug C u))" "Suc n \<notin> set (ids (plug C u))" using t(3) by auto
  have n: "n \<notin> set (ids u)" "Suc n \<notin> set (ids u)" using nids by (auto simp: ids_plug)
  have N: "{n, Suc n} \<inter> set (ids (plug C u)) = {}" using nids by simp
  show ?thesis
  proof (cases "nd_type h = toContainerType d")
    case True
    let ?old = "Node h (ls @ u # rs)" and ?new = "Node h (ls @ beside d (split_node n s) u @ rs)"
    have h: "plug C u = plug C' ?old" using C by simp
    have ok: "node_ok ?old" using o(1) unfolding h node_ok_plug by blast
    then have ok': "node_ok ?new" by (auto simp: beside_def split: if_splits)
    have d: "distinct (ids ?new)" "set (ids ?new) \<subseteq> {n, Suc n} \<union> set (ids ?old)"
      using distinct_hole [of C' ?old] t(2) h nids by (auto simp: beside_def ids_plug)
    have "root_ok (plug C' ?new)"
    proof (cases "C' = []")
      case True
      then show ?thesis using t(1) h ok' by (auto simp: root_ok_def)
    next
      case False
      then show ?thesis using root_ok_replace [OF False _ ok'] t(1) h by simp
    qed
    moreover have "distinct (ids (plug C' ?new))"
      using distinct_replace [of C' ?old ?new, OF _ d] t(2) h N by simp
    moreover have "\<forall>i \<in> set (ids (plug C' ?new)). i < n + 2"
      using set_ids_replace [OF d(2), of C'] t(3) h by (auto dest!: subsetD)
    moreover have "leaves (plug C' ?new) = inserted_leaves s d C u"
      using True C by (simp add: leaves_plug inserted_leaves_def beside_def)
    ultimately show ?thesis using insertSplitRelative_frame [of h ls rs C' u] t(2) C True by simp
  next
    case False
    let ?u' = "nestSplitIntoCollection n s d u"
    have "distinct (ids u)" using t(2) by (rule distinct_hole)
    note c = nest_contents [OF this n, of s d]
    have "root_ok (plug C ?u')" using root_ok_replace [OF _ t(1) nest_ok [OF o(2)]] C by simp
    moreover have "distinct (ids (plug C ?u'))" using distinct_replace [OF t(2) c(1,2) N] .
    moreover have "\<forall>i \<in> set (ids (plug C ?u')). i < n + 2"
      using set_ids_replace [OF c(2), of C] t(3) by (auto dest!: subsetD)
    moreover have "leaves (plug C ?u') = inserted_leaves s d C u"
      using False C c(3) by (simp add: leaves_plug inserted_leaves_def)
    ultimately show ?thesis using insertSplitRelative_frame [of h ls rs C' u] t(2) C False by simp
  qed
qed

section \<open>Releasing\<close>

lemma absorb_props:
  "node_ok v \<Longrightarrow> node_ok (absorb h v)" "leaves (absorb h v) = leaves v"
  "ids (absorb h v) = nd_id h # tl (ids v)" "nd_data (absorb h v) = h\<lparr>nd_type := node_kind v, nd_split := nd_split (nd_data v)\<rparr>"
  by (cases v; auto simp: absorb_def own_split_def split: if_splits)+

lemma position_in_container: "is_container ty \<Longrightarrow> toContainerType (position_in ty b) = ty"
  by (auto simp: position_in_def toContainerType_def is_container_def)

lemma node_releaseSplit_step:
  assumes t: "root_ok (plug C u)" "distinct (ids (plug C u))" "node_kind u = SplitNode"
  shows "\<exists>p t'. node_releaseSplit (node_id u) (plug C u) = Some (p, t') \<and> root_ok t' \<and> distinct (ids t') \<and>
    set (ids t') \<subseteq> set (ids (plug C u)) \<and> leaves t' = before own_split leaves C @ after leaves C \<and>
    (case fst p of Some k \<Rightarrow> k \<in> set (ids t') | None \<Rightarrow> True)"
proof (cases C)
  case Nil
  obtain h cs where u: "u = Node h cs" by (cases u) auto
  have "cs = []" using t Nil u by (auto simp: root_ok_def)
  then show ?thesis using t Nil u node_releaseSplit_root [of u]
    by (auto simp: root_ok_def own_split_def)
next
  case (Cons f C')
  obtain h ls rs where f: "f = (h, ls, rs)" by (cases f) auto
  have C: "C = (h, ls, rs) # C'" using Cons f by simp
  let ?old = "Node h (ls @ u # rs)"
  have h: "plug C u = plug C' ?old" using C by simp
  have o: "node_ok (plug C u)" using t(1) root_ok_plug [of C u] C by auto
  then have "list_all frame_ok C" unfolding node_ok_plug by blast
  then have fr: "frame_ok (h, ls, rs)" using C by simp
  have d: "distinct (ids ?old)" using t(2) C distinct_frame by blast
  have ne: "ls @ rs \<noteq> []" using fr by simp
  have step: ?thesis if n: "node_ok new" "distinct (ids new)" "set (ids new) \<subseteq> set (ids ?old)"
      "leaves new = concat (map leaves ls) @ concat (map leaves rs)" "nd_flexH (nd_data new) = nd_flexH h" "nd_flexV (nd_data new) = nd_flexV h"
      "node_releaseSplit (node_id u) (plug C u) = Some ((Some k, dd), plug C' new)" "k \<in> set (ids new)" for new k dd
  proof -
    have "root_ok (plug C' new)"
    proof (cases "C' = []")
      case True
      then show ?thesis using t(1) h n(1,5,6) by (auto simp: root_ok_def)
    next
      case False
      then show ?thesis using root_ok_replace [OF False _ n(1)] t(1) h by simp
    qed
    moreover have "distinct (ids (plug C' new))"
      using distinct_replace [of C' ?old new "{}"] n(2,3) t(2) h by simp
    moreover have "set (ids (plug C' new)) \<subseteq> set (ids (plug C u))"
      using set_ids_replace [of new "{}" ?old C'] n(3) h by simp
    moreover have "k \<in> set (ids (plug C' new))" using n(8) by (simp add: ids_plug)
    moreover have "leaves (plug C' new) = before own_split leaves C @ after leaves C"
      using n(4) C fr by (simp add: leaves_plug)
    ultimately show ?thesis using n(7) by auto
  qed
  note r = node_releaseSplit_frame [of h ls rs C' u, folded C, OF t(2) ne]
  consider (two) v where "ls @ rs = [v]" | (last) "rs = []" "length ls \<ge> 2" | (mid) "rs \<noteq> []" "length (ls @ rs) \<ge> 2"
    using ne by (cases ls; cases rs; cases "tl ls"; cases "tl rs") auto
  then show ?thesis
  proof cases
    case two
    then have lr: "ls = [] \<and> rs = [v] \<or> ls = [v] \<and> rs = []" by (cases ls; cases rs) auto
    then have v: "node_ok v" using fr by auto
    obtain hv cv where V: "v = Node hv cv" by (cases v) auto
    have "distinct (nd_id h # tl (ids v))" "set (nd_id h # tl (ids v)) \<subseteq> set (ids ?old)"
      using d lr V by auto
    then show ?thesis using r two lr absorb_props(1) [OF v, of h] absorb_props(2-4) [of h v]
      by (intro step [of "absorb h v" "nd_id h"]) auto
  next
    case last
    then have "node_ok (Node h ls)" using fr by (auto simp: is_container_def)
    moreover have "last ls \<in> set ls" using last by (cases ls rule: rev_cases) auto
    then have "node_id (last ls) \<in> set (ids (Node h ls))" by (auto intro!: bexI [of _ "last ls"])
    ultimately show ?thesis using r last d fr
      by (intro step [of "Node h ls" "node_id (last ls)"]) auto
  next
    case mid
    then have "node_ok (Node h (ls @ rs))" using fr by (auto simp: is_container_def)
    moreover have "hd rs \<in> set rs" using mid by (cases rs) auto
    then have "node_id (hd rs) \<in> set (ids (Node h (ls @ rs)))" by (auto intro!: bexI [of _ "hd rs"])
    ultimately show ?thesis using r mid d fr
      by (intro step [of "Node h (ls @ rs)" "node_id (hd rs)"]) auto
  qed
qed

section \<open>Operations of the container\<close>

lemma nd_data_setPrefered [simp]:
  "nd_flexH (nd_data (setPreferedTarget k t)) = nd_flexH (nd_data t)" "nd_flexV (nd_data (setPreferedTarget k t)) = nd_flexV (nd_data t)"
  "node_kind (setPreferedTarget k t) = node_kind t" "nd_split (nd_data (setPreferedTarget k t)) = nd_split (nd_data t)"
  "nd_children (setPreferedTarget k t) = [] \<longleftrightarrow> nd_children t = []" "node_id (setPreferedTarget k t) = node_id t"
  by (cases t; auto split: option.split)+

lemma setPrefered_contents [simp]:
  "ids (setPreferedTarget k t) = ids t" "leaves (setPreferedTarget k t) = leaves t" "node_ok (setPreferedTarget k t) = node_ok t"
proof (induction k t rule: setPreferedTarget.induct)
  case (1 k h cs)
  let ?c = "\<lambda>c'. if isOrContainsNode k c' then setPreferedTarget k c' else c'"
  {
    case 1 show ?case using "1.IH" by (auto split: option.split intro!: arg_cong [where f = concat])
  next
    case 2 show ?case using "1.IH" by (auto simp: own_split_def split: option.split intro!: arg_cong [where f = concat])
  next
    case 3
    have "\<forall>c \<in> set cs. node_ok (?c c) = node_ok c" if "List.find (isOrContainsNode k) cs = Some c'" for c'
      using "1.IH"(3) that by simp
    then have "list_all node_ok (map ?c cs) = list_all node_ok cs" if "List.find (isOrContainsNode k) cs = Some c'" for c'
      using that by (auto simp: list_all_iff)
    then show ?case by (auto split: option.split)
  }
qed

definition unit_flex :: "'s node \<Rightarrow> 's node" where
  "unit_flex x = Node ((nd_data x)\<lparr>nd_flexH := 1, nd_flexV := 1\<rparr>) (nd_children x)"

lemma unit_flex_contents [simp]:
  "ids (unit_flex x) = ids x" "leaves (unit_flex x) = leaves x" "node_ok (unit_flex x) = node_ok x"
  by (cases x; simp add: unit_flex_def own_split_def)+

lemma reset_children_contents:
  fixes t :: "'s node" defines "t' \<equiv> Node (nd_data t) (map unit_flex (nd_children t))"
  shows "ids t' = ids t" "leaves t' = leaves t" "node_ok t' = node_ok t"
  unfolding t'_def by (cases t; simp add: comp_def list_all_iff)+

lemma resetFlex_alt:
  "resetFlex k c = map_option (\<lambda>p. c\<lparr>baseNode := change (node_id p) (\<lambda>t. Node (nd_data t) (map unit_flex (nd_children t))) (baseNode c)\<rparr>)
     (parentOf k (baseNode c))"
  by (simp add: resetFlex_def unit_flex_def [abs_def])

lemma in_step_start: "in_step SplitContainer"
  by (simp add: in_step_def SplitContainer_def empty_node_def root_ok_def own_split_def)

lemma in_step_parts:
  assumes "in_step c"
  shows "root_ok (baseNode c)" "distinct (ids (baseNode c))" "\<forall>i \<in> set (ids (baseNode c)). i < next_id c"
    "set (leaves (baseNode c)) = set (splits c)" "distinct (leaves (baseNode c))"
proof -
  have m: "mset (leaves (baseNode c)) = mset (splits c)" "distinct (splits c)" using assms by (auto simp: in_step_def)
  then show "set (leaves (baseNode c)) = set (splits c)" "distinct (leaves (baseNode c))"
    by (blast dest: mset_eq_setD mset_eq_imp_distinct_iff)+
qed (use assms in \<open>auto simp: in_step_def list_all_iff\<close>)

lemma insertSplit_alt:
  assumes "root_ok (baseNode c)" "distinct (ids (baseNode c))"
  shows "insertSplit s (k, d) c =
    (let k' = (case k of None \<Rightarrow> node_id (baseNode c) | Some k' \<Rightarrow> k') in
     if k' \<in> set (ids (baseNode c))
     then map_option (\<lambda>t. addSplit s (c\<lparr>baseNode := t, next_id := next_id c + 2\<rparr>))
       (insertSplitRelative (next_id c) s d k' (baseNode c)) else None)"
  using assms by (auto simp: insertSplit_def Let_def insertSplitRelative_root split: option.split)

lemma insertSplit_step:
  assumes c: "in_step c" and s: "s \<notin> set (splits c)" and u: "baseNode c = plug C u"
    and k: "k = Some (node_id u) \<or> k = None \<and> C = []"
  shows "\<exists>c'. insertSplit s (k, d) c = Some c' \<and> in_step c' \<and> leaves (baseNode c') = inserted_leaves s d C u"
proof -
  note p = in_step_parts [OF c]
  obtain t' where t: "insertSplitRelative (next_id c) s d (node_id u) (plug C u) = Some t'" "root_ok t'" "distinct (ids t')"
      "\<forall>i \<in> set (ids t'). i < next_id c + 2" "leaves t' = inserted_leaves s d C u"
    using insertSplitRelative_step [of C u "next_id c" s d] p u by auto
  have "mset (inserted_leaves s d C u) = add_mset s (mset (leaves (plug C u)))"
    by (simp add: inserted_leaves_def nested_leaves_def leaves_plug)
  then have "mset (leaves t') = add_mset s (mset (splits c))" using t(5) c u by (simp add: in_step_def)
  moreover have "node_id u \<in> set (ids (plug C u))" by (simp add: ids_plug)
  ultimately show ?thesis using insertSplit_alt [OF p(1,2), of s k d] t c s k u
    by (auto simp: addSplit_def in_step_def list_all_iff)
qed

lemma findNode_id:
  assumes "in_step c" "s \<in> set (splits c)"
  obtains C u where "findNodeContainingSplit s (baseNode c) = Some u" "baseNode c = plug C u"
    "node_kind u = SplitNode" "nd_split (nd_data u) = Some s" "leaves u = [s]" "nd_children u = []"
proof -
  have "findNodeContainingSplit s (baseNode c) \<noteq> None"
    unfolding find_split_None using in_step_parts(4) [OF assms(1)] assms(2) by simp
  then obtain u where f: "findNodeContainingSplit s (baseNode c) = Some u" by blast
  then obtain C where u: "baseNode c = plug C u" "node_kind u = SplitNode" "nd_split (nd_data u) = Some s"
    using find_split_node(1) [OF f] by auto
  have "node_ok u"
  proof (cases "C = []")
    case True
    then show ?thesis using in_step_parts(1) [OF assms(1)] u by (auto simp: root_ok_def)
  next
    case False
    then show ?thesis using root_ok_plug [OF False] in_step_parts(1) [OF assms(1)] u by simp
  qed
  then have "nd_children u = []" "leaves u = [s]" using u by (cases u; simp add: own_split_def)+
  then show ?thesis using that f u by blast
qed

lemma releaseSplit_step:
  assumes c: "in_step c" and s: "s \<in> set (splits c)"
  shows "\<exists>p c'. releaseSplit s c = Some (p, c') \<and> in_step c' \<and>
    leaves (baseNode c') = remove1 s (leaves (baseNode c)) \<and> splits c' = remove1 s (splits c) \<and>
    (case fst p of Some k \<Rightarrow> k \<in> set (ids (baseNode c')) | None \<Rightarrow> True)"
proof -
  obtain C u where u: "findNodeContainingSplit s (baseNode c) = Some u" "baseNode c = plug C u" "node_kind u = SplitNode" "leaves u = [s]"
    using findNode_id [OF c s] by metis
  note p = in_step_parts [OF c]
  obtain q t' where t: "node_releaseSplit (node_id u) (plug C u) = Some (q, t')" "root_ok t'" "distinct (ids t')"
      "set (ids t') \<subseteq> set (ids (plug C u))" "leaves t' = before own_split leaves C @ after leaves C"
      "case fst q of Some k \<Rightarrow> k \<in> set (ids t') | None \<Rightarrow> True"
    using node_releaseSplit_step [of C u] p u by auto
  have l: "leaves t' = remove1 s (leaves (plug C u))"
    using p(5) t(5) u(2,4) by (simp add: leaves_plug remove1_append)
  then have "mset (leaves t') = mset (remove1 s (splits c))"
    using c u(2) by (simp add: in_step_def)
  moreover have "\<forall>i \<in> set (ids t'). i < next_id c" using t(4) p(3) u(2) by auto
  moreover obtain f where "releaseSplit s c = Some (q, c\<lparr>splits := remove1 s (splits c), baseNode := t', focus_request := f\<rparr>)"
    using t(1) u by (simp add: releaseSplit_def Let_def)
  ultimately show ?thesis using t l u c
    by (cases "fst q") (simp_all add: in_step_def list_all_iff)
qed

text \<open>The operations a user or a split can ask for.\<close>

datatype 's split_op =
    Insert 's position
  | Insert_at 's direction 's
  | Release 's
  | Select 's
  | Select_next direction
  | Reset_flex nat

fun exec_op :: "'s split_op \<Rightarrow> 's container \<Rightarrow> 's container option" where
  "exec_op (Insert s p) c = insertSplit s p c"
| "exec_op (Insert_at s d r) c = insertSplit_at_split s d r c"
| "exec_op (Release s) c = map_option snd (releaseSplit s c)"
| "exec_op (Select s) c = Some (setSelected s c)"
| "exec_op (Select_next d) c = Some (selectNextSplit d c)"
| "exec_op (Reset_flex k) c = resetFlex k c"

text \<open>New splits are new, and what is pointed to is in the container.\<close>

fun op_ok :: "'s split_op \<Rightarrow> 's container \<Rightarrow> bool" where
  "op_ok (Insert s p) c \<longleftrightarrow> s \<notin> set (splits c) \<and> (case fst p of Some k \<Rightarrow> isOrContainsNode k (baseNode c) | None \<Rightarrow> True)"
| "op_ok (Insert_at s d r) c \<longleftrightarrow> s \<notin> set (splits c) \<and> r \<in> set (splits c)"
| "op_ok (Release s) c \<longleftrightarrow> s \<in> set (splits c)"
| "op_ok (Reset_flex k) c \<longleftrightarrow> isOrContainsNode k (baseNode c) \<and> k \<noteq> node_id (baseNode c)"
| "op_ok _ c \<longleftrightarrow> True"

lemma resetFlex_step:
  assumes c: "in_step c" and k: "k \<in> set (ids (baseNode c))" "k \<noteq> node_id (baseNode c)"
  shows "\<exists>c'. resetFlex k c = Some c' \<and> in_step c'"
proof -
  note p = in_step_parts [OF c]
  obtain C u where u: "baseNode c = plug C u" "node_id u = k" using ids_split [OF k(1)] by metis
  then obtain h ls rs C' where C: "C = (h, ls, rs) # C'" using k(2) by (cases C) auto
  let ?t = "Node h (ls @ u # rs)" and ?f = "\<lambda>t. Node (nd_data t) (map unit_flex (nd_children t))"
  have t: "baseNode c = plug C' ?t" using u C by simp
  have "node_ok (baseNode c)" using root_ok_plug [of C u] p(1) u C by simp
  then have "node_ok ?t" unfolding t node_ok_plug by blast
  then have ok: "node_ok (?f ?t)" using reset_children_contents(3) [of ?t] by (simp only:)
  have "resetFlex k c = Some (c\<lparr>baseNode := plug C' (?f ?t)\<rparr>)"
    using parentOf_frame [of h ls rs C' u] change_at [of C' ?t ?f] p(2) u t by (simp add: resetFlex_alt)
  moreover have "ids (plug C' (?f ?t)) = ids (plug C' ?t)" "leaves (plug C' (?f ?t)) = leaves (plug C' ?t)"
    using reset_children_contents [of ?t] by (simp_all only: ids_plug leaves_plug)
  moreover have "root_ok (plug C' (?f ?t))"
  proof (cases "C' = []")
    case True
    then show ?thesis using p(1) t ok by (simp add: root_ok_def del: node_ok.simps)
  next
    case False
    then show ?thesis using root_ok_replace [OF False _ ok] p(1) t by simp
  qed
  ultimately show ?thesis using c t by (simp add: in_step_def)
qed

lemma setSelected_step: "in_step c \<Longrightarrow> in_step (setSelected s c)"
  by (auto simp: setSelected_def Let_def in_step_def root_ok_def split: option.split)

text \<open>
  C14: the tree of a tab and its list of splits stay in step under every operation: the leaves of the tree
  are exactly the splits, each once, every inner node has at least two children, nodes are distinct, and
  no assertion of the code fails (no operation has the result \<open>None\<close>) as long as new splits are new and what
  is pointed to is there.
\<close>

theorem splits_in_step:
  assumes "in_step c" "op_ok op c"
  shows "\<exists>c'. exec_op op c = Some c' \<and> in_step c'"
proof (cases op)
  case (Insert s p)
  obtain k d where p: "p = (k, d)" by (cases p)
  show ?thesis
  proof (cases k)
    case None
    then show ?thesis using insertSplit_step [of c s "[]" "baseNode c" k d] Insert p assms by auto
  next
    case (Some k')
    then obtain C u where "baseNode c = plug C u" "node_id u = k'"
      using ids_split [of k' "baseNode c"] Insert p assms(2) by auto
    then show ?thesis using insertSplit_step [of c s C u k d] Insert p assms Some by auto
  qed
next
  case (Insert_at s d r)
  then have "r \<in> set (splits c)" using assms by simp
  then obtain C u where "findNodeContainingSplit r (baseNode c) = Some u" "baseNode c = plug C u"
    by (rule findNode_id [OF assms(1)])
  then show ?thesis using insertSplit_step [of c s C u "Some (node_id u)" d] Insert_at assms
    by (auto simp: insertSplit_at_split_def)
next
  case (Release s)
  then show ?thesis using releaseSplit_step [of c s] assms by auto
next
  case (Select_next d)
  then show ?thesis using assms by (auto simp: selectNextSplit_def in_step_def split: option.split)
next
  case (Reset_flex k)
  then show ?thesis using resetFlex_step [of c k] assms by auto
qed (use assms setSelected_step in auto)

theorem splits_in_step_witness:
  "\<exists>c'. exec_op (Insert (1 :: nat) (None, Above)) SplitContainer = Some c' \<and> in_step c'"
  by (rule splits_in_step [OF in_step_start]) (simp add: SplitContainer_def)

section \<open>The order of the splits\<close>

text \<open>A tab with the splits 1 and 2 side by side, for the examples.\<close>

definition row_of_two :: "nat container" where
  "row_of_two = \<lparr>baseNode = Node \<lparr>nd_id = 0, nd_type = HorizontalContainer, nd_split = None, nd_prefered = None, nd_flexH = 1, nd_flexV = 1\<rparr>
       [Node \<lparr>nd_id = 3, nd_type = SplitNode, nd_split = Some 1, nd_prefered = None, nd_flexH = 1, nd_flexV = 1\<rparr> [], split_node 4 2],
     splits = [1, 2], selected_ptr = None, next_id = 5, focus_request = Some 2\<rparr>"

lemmas row_of_two_simps = row_of_two_def split_node_def own_split_def insertSplit_at_split_def insertSplit_def appendSplit_def
  insertSplitRelative_def insertNextToThis_def place_beside_def toContainerType_def nestSplitIntoCollection_def addSplit_def insert_at_def releaseSplit_def
  node_releaseSplit_def release_from_parent_def remove_at_def position_in_def Let_def

lemma row_of_two_made: "Option.bind (appendSplit 1 SplitContainer) (appendSplit 2) = Some row_of_two"
  by (simp add: row_of_two_simps SplitContainer_def empty_node_def setSplit_def)

lemma row_of_two_in_step: "in_step row_of_two"
  by (simp add: row_of_two_def in_step_def root_ok_def own_split_def is_container_def split_node_def)


text \<open>The shape of a tree: without identities, focus targets and flexes.\<close>

datatype 's tree_shape = Empty_shape | Split_shape "'s option" | Box_shape node_type "'s tree_shape list"

fun shape :: "'s node \<Rightarrow> 's tree_shape" where
  "shape (Node h cs) =
     (case nd_type h of EmptyRoot \<Rightarrow> Empty_shape | SplitNode \<Rightarrow> Split_shape (nd_split h) | ty \<Rightarrow> Box_shape ty (map shape cs))"

fun alternating :: "'s node \<Rightarrow> bool" where
  "alternating (Node h cs) \<longleftrightarrow> list_all (\<lambda>c. node_kind c \<noteq> nd_type h \<and> alternating c) cs"

lemma shape_plug: "shape u = shape u' \<Longrightarrow> shape (plug C u) = shape (plug C u')"
proof (induction C arbitrary: u u')
  case (Cons f C)
  obtain h ls rs where f: "f = (h, ls, rs)" by (cases f) auto
  have "shape (Node h (ls @ u # rs)) = shape (Node h (ls @ u' # rs))"
    using Cons.prems by (simp split: node_type.split)
  then show ?case using Cons.IH f by simp
qed simp

lemma alternating_hole: "alternating (plug C u) \<Longrightarrow> alternating u"
proof (induction C arbitrary: u)
  case (Cons f C)
  obtain h ls rs where f: "f = (h, ls, rs)" by (cases f) auto
  then show ?case using Cons by fastforce
qed simp

lemma alternating_frame: "alternating (plug ((h, ls, rs) # C) u) \<Longrightarrow> node_kind u \<noteq> nd_type h"
  using alternating_hole [of C "Node h (ls @ u # rs)"] by simp

lemma container_shape:
  "is_container (nd_type h) \<Longrightarrow> shape (Node h cs) = Box_shape (nd_type h) (map shape cs)"
  by (auto simp: is_container_def)

lemma shape_split_node [simp]: "shape (split_node i s) = Split_shape (Some s)"
  by (simp add: split_node_def)

lemma shape_parts: "nd_type h = node_kind v \<Longrightarrow> nd_split h = nd_split (nd_data v) \<Longrightarrow> shape (Node h (nd_children v)) = shape v"
  by (cases v) (simp split: node_type.split)

lemma beside_position:
  "is_container ty \<Longrightarrow> beside (position_in ty b) new u = (if b then [new, u] else [u, new])"
  by (auto simp: position_in_def beside_def is_container_def)

lemma reinsert_tree:
  assumes t: "root_ok (plug C u)" "distinct (ids (plug C u))" "alternating (plug C u)" and C: "C = (h, ls, rs) # C'"
    and u: "shape u = Split_shape (Some s)"
    and r: "node_releaseSplit (node_id u) (plug C u) = Some ((k, d), t')"
    and k: "insertSplitRelative n s d (the k) t' = Some t''" and d': "distinct (ids t')"
  shows "shape t'' = shape (plug C u)"
proof -
  let ?old = "Node h (ls @ u # rs)"
  have old: "plug C u = plug C' ?old" using C by simp
  have "node_ok (plug C u)" using t(1) root_ok_plug [of C u] C by auto
  then have "list_all frame_ok C" unfolding node_ok_plug by blast
  then have fr: "is_container (nd_type h)" "ls @ rs \<noteq> []" using C by auto
  note r' = node_releaseSplit_frame [of h ls rs C' u, folded C, OF t(2) fr(2)] r
  have sh: "shape t'' = shape (plug C u)" if "t'' = plug C' new" "shape new = shape ?old" for new
    using that old shape_plug by metis
  consider (two) v where "ls @ rs = [v]" | (last) "rs = []" "length ls \<ge> 2" | (mid) "rs \<noteq> []" "length (ls @ rs) \<ge> 2"
    using fr(2) by (cases ls; cases rs; cases "tl ls"; cases "tl rs") auto
  then show ?thesis
  proof cases
    case two
    then have lr: "ls = [] \<and> rs = [v] \<or> ls = [v] \<and> rs = []" by (cases ls; cases rs) auto
    let ?a = "absorb h v"
    have t': "t' = plug C' ?a" "the k = nd_id h" "d = position_in (nd_type h) (ls = [])" using r' two by auto
    have id: "node_id ?a = nd_id h" by (simp add: absorb_def)
    have v: "node_kind v \<noteq> nd_type h"
      using alternating_hole [of C' ?old] t(3) old lr by auto
    have tc: "toContainerType d = nd_type h" using t'(3) position_in_container [OF fr(1)] by simp
    have "t'' = plug C' (nestSplitIntoCollection n s d ?a)"
    proof (cases C')
      case Nil
      have "insertSplitRelative n s d (node_id ?a) ?a = Some t''" using k t' Nil id by simp
      moreover have "node_kind ?a \<noteq> EmptyRoot"
        using \<open>node_ok (plug C u)\<close> Nil C lr by (cases v) (auto simp: absorb_def split: if_splits)
      ultimately show ?thesis using insertSplitRelative_root [of ?a n s d] d' t'(1) Nil by simp
    next
      case (Cons f D)
      obtain g xs ys where f: "C' = (g, xs, ys) # D" using Cons by (cases f) auto
      have "nd_type g \<noteq> nd_type h"
        using alternating_frame [of g xs ys D ?old] t(3) old f by simp
      then show ?thesis
        using insertSplitRelative_frame [of g xs ys D ?a n s d] k t' d' f id tc by simp
    qed
    moreover have "shape (nestSplitIntoCollection n s d ?a) = shape ?old"
      using v tc fr(1) lr u t'(3)
      by (auto simp: nest_alt absorb_def container_shape beside_position shape_parts simp del: shape.simps)
    ultimately show ?thesis by (rule sh)
  next
    case last
    then obtain xs x where ls: "ls = xs @ [x]" by (cases ls rule: rev_cases) auto
    then have ne: "xs \<noteq> []" using last by auto
    have t': "t' = plug ((h, xs, []) # C') x" "the k = node_id x" "d = position_in (nd_type h) False" using r' last ls ne by auto
    have "t'' = plug C' (Node h (xs @ beside d (split_node n s) x))"
      using insertSplitRelative_frame [of h xs "[]" C' x n s d] k d' t' position_in_container [OF fr(1)] by simp
    then show ?thesis using fr(1) u t'(3) ls last
      by (intro sh) (auto simp: container_shape beside_position simp del: shape.simps)
  next
    case mid
    then obtain x xs where rs: "rs = x # xs" by (cases rs) auto
    then have ne: "\<not> (ls = [] \<and> xs = [])" using mid by auto
    have t': "t' = plug ((h, ls, xs) # C') x" "the k = node_id x" "d = position_in (nd_type h) True" using r' mid rs ne by auto
    have "t'' = plug C' (Node h (ls @ beside d (split_node n s) x @ xs))"
      using insertSplitRelative_frame [of h ls xs C' x n s d] k d' t' position_in_container [OF fr(1)] by simp
    then show ?thesis using fr(1) u t'(3) rs
      by (intro sh) (auto simp: container_shape beside_position simp del: shape.simps)
  qed
qed

text \<open>
  A split that is taken out of a tab and put back at the position that taking it out answered restores
  the layout, whenever no container directly holds one of its own direction.
\<close>

theorem release_then_insert:
  assumes c: "in_step c" and a: "alternating (baseNode c)"
    and r: "releaseSplit s c = Some (pos, c1)" and i: "insertSplit s pos c1 = Some c2"
  shows "shape (baseNode c2) = shape (baseNode c)"
proof -
  have f: "findNodeContainingSplit s (baseNode c) \<noteq> None" using r by (auto simp: releaseSplit_def split: option.splits)
  then have s: "s \<in> set (splits c)" using find_split_None(1) in_step_parts(4) [OF c] by metis
  obtain C u where u: "findNodeContainingSplit s (baseNode c) = Some u" "baseNode c = plug C u" "node_kind u = SplitNode"
      "nd_split (nd_data u) = Some s" "nd_children u = []"
    using s by (rule findNode_id [OF c])
  have su: "shape u = Split_shape (Some s)" using u(3-5) by (cases u) simp
  obtain k d where p: "pos = (k, d)" by (cases pos)
  obtain t' where t': "node_releaseSplit (node_id u) (plug C u) = Some ((k, d), t')" "baseNode c1 = t'"
    using r u p by (auto simp: releaseSplit_def Let_def split: option.splits)
  have c1: "in_step c1" using releaseSplit_step [OF c s] r by auto
  note p1 = in_step_parts(1,2) [OF c1] and p0 = in_step_parts [OF c]
  obtain k' t'' where i': "insertSplitRelative (next_id c1) s d k' t' = Some t''" "baseNode c2 = t''"
      "k' = (case k of None \<Rightarrow> node_id t' | Some k' \<Rightarrow> k')"
    using i p t'(2) insertSplit_alt [OF p1, of s k d] by (auto simp: Let_def addSplit_def split: if_splits)
  show ?thesis
  proof (cases C)
    case Nil
    obtain h where h: "u = Node h []" using u(5) by (cases u) auto
    have "k = None" "t' = Node (h\<lparr>nd_type := EmptyRoot, nd_split := None\<rparr>) []"
      using t'(1) Nil h node_releaseSplit_root [of u] by auto
    then have "t'' = Node (h\<lparr>nd_type := SplitNode, nd_split := Some s\<rparr>) []"
      using i' insertSplitRelative_root [of t' "next_id c1" s d] by (auto simp: setSplit_def)
    then show ?thesis using i'(2) u(2) Nil su by simp
  next
    case (Cons f C')
    obtain h ls rs where C: "C = (h, ls, rs) # C'" using Cons by (cases f) auto
    have "node_ok (plug C u)" using root_ok_plug [of C u] p0(1) u(2) C by auto
    then have "list_all frame_ok C" unfolding node_ok_plug by blast
    then have "ls @ rs \<noteq> []" using C by simp
    then have "k \<noteq> None" using node_releaseSplit_frame [of h ls rs C' u] t'(1) C p0(2) u(2) by (auto split: if_splits)
    then have "insertSplitRelative (next_id c1) s d (the k) t' = Some t''" using i' by auto
    then have "shape t'' = shape (plug C u)"
      using reinsert_tree [of C u h ls rs C' s k d t' "next_id c1" t''] p0 u(2) a C su t' p1 by simp
    then show ?thesis using i'(2) u(2) by simp
  qed
qed

section \<open>Focus\<close>

lemma find_here: "\<forall>c \<in> set ls. \<not> P c \<Longrightarrow> P u \<Longrightarrow> List.find P (ls @ u # rs) = Some u"
  by (induction ls) auto

lemma focus_frame:
  assumes d: "distinct (ids (Node h (ls @ v # rs)))" and k: "k \<in> set (ids v)" and h: "is_container (nd_type h)"
  shows "focusSplit (setPreferedTarget k (Node h (ls @ v # rs))) = focusSplit (setPreferedTarget k v)"
proof -
  have o: "\<forall>c \<in> set ls. k \<notin> set (ids c)" "\<forall>c \<in> set rs. k \<notin> set (ids c)" using other_ids [OF d k] by auto
  let ?m = "map (\<lambda>c'. if isOrContainsNode k c' then setPreferedTarget k c' else c')"
  have m: "?m ls = ls" "?m rs = rs" using o by (auto intro: map_idI)
  have "List.find (isOrContainsNode k) (ls @ v # rs) = Some v" using o k by (intro find_here) auto
  then have "setPreferedTarget k (Node h (ls @ v # rs)) = Node (h\<lparr>nd_prefered := Some (node_id v)\<rparr>) (ls @ setPreferedTarget k v # rs)"
    using m k by simp
  moreover have "find_index (\<lambda>c. Some (node_id v) = Some (node_id c)) (ls @ setPreferedTarget k v # rs) = Some (length ls)"
    using sibling_ids [OF d] by (intro find_index_here) (metis option.inject, simp)
  ultimately show ?thesis using h by (auto simp: is_container_def)
qed

lemma focus_plug:
  "distinct (ids (plug C v)) \<Longrightarrow> k \<in> set (ids v) \<Longrightarrow> list_all frame_ok C \<Longrightarrow>
   focusSplit (setPreferedTarget k (plug C v)) = focusSplit (setPreferedTarget k v)"
proof (induction C v rule: plug.induct)
  case (2 h ls rs C v)
  have "focusSplit (setPreferedTarget k (plug C (Node h (ls @ v # rs)))) = focusSplit (setPreferedTarget k (Node h (ls @ v # rs)))"
    using 2 by simp
  then show ?case using focus_frame [OF distinct_frame [OF 2(2)] 2(3)] 2(4) by simp
qed simp

text \<open>
  Selecting a split makes it the selected one, focuses it, and is remembered by the whole tree: the tab,
  asked to focus itself, focuses the split that was selected.
\<close>

theorem selection_remembered:
  assumes c: "in_step c" and s: "s \<in> set (splits c)"
  shows "getSelectedSplit (setSelected s c) = Some s \<and> focus_request (setSelected s c) = Some s \<and>
    focusSplit (baseNode (setSelected s c)) = Some s"
proof -
  obtain C u where u: "findNodeContainingSplit s (baseNode c) = Some u" "baseNode c = plug C u" "node_kind u = SplitNode"
      "nd_split (nd_data u) = Some s" "nd_children u = []"
    using s by (rule findNode_id [OF c])
  have "node_ok (plug C u) \<or> C = []" using in_step_parts(1) [OF c] root_ok_plug [of C u] u(2) by auto
  then have "list_all frame_ok C" unfolding node_ok_plug by auto
  then have "focusSplit (setPreferedTarget (node_id u) (plug C u)) = focusSplit (setPreferedTarget (node_id u) u)"
    using focus_plug [of C u "node_id u"] in_step_parts(2) [OF c] u(2) by simp
  also have "\<dots> = Some s" using u(3-5) by (cases u) simp
  finally have f: "focusSplit (setPreferedTarget (node_id u) (baseNode c)) = Some s" using u(2) by simp
  have "focusSplit u = Some s" using u(3-5) by (cases u) simp
  then show ?thesis using f u(1) s by (simp add: setSelected_def getSelectedSplit_def Let_def)
qed

text \<open>
  A split that is inserted to the left of a row is put at its right end: the nodes of a row that is the
  root, or that is inside of a column, are asked to take it as one of their own.
\<close>

lemma left_of_row_is_right:
  "map_option (leaves \<circ> baseNode) (insertSplit 3 (Some 0, Left) row_of_two) = Some [1, 2, 3]"
  by (simp add: row_of_two_simps)


theorem release_then_insert_witness:
  "\<exists>pos c1 c2. releaseSplit 1 row_of_two = Some (pos, c1) \<and> insertSplit 1 pos c1 = Some c2 \<and>
    shape (baseNode c2) = shape (baseNode row_of_two)"
proof -
  have a: "alternating (baseNode row_of_two)" by (simp add: row_of_two_simps)
  obtain pos c1 where r: "releaseSplit 1 row_of_two = Some (pos, c1)" "insertSplit 1 pos c1 \<noteq> None"
    by (simp add: row_of_two_simps)
  then obtain c2 where i: "insertSplit 1 pos c1 = Some c2" by blast
  show ?thesis using release_then_insert [OF row_of_two_in_step a r(1) i] r(1) i by blast
qed

theorem selection_remembered_witness: "focusSplit (baseNode (setSelected 2 row_of_two)) = Some 2"
proof -
  have "2 \<in> set (splits row_of_two)" by (simp add: row_of_two_def)
  from selection_remembered [OF row_of_two_in_step this] show ?thesis by simp
qed

end
