(* ===== verification/Irc_Connection.thy ===== *)
theory Irc_Connection
  imports Ratelimit
begin

text \<open>
  \<open>providers/irc/IrcConnection2.cpp\<close>: a connection to an IRC server that watches itself. The socket and the
  protocol are Communi's; what the class does at their signals and at its timers is modelled as events.
  \<open>connectionLost\<close> and the lines it sends are recorded.
\<close>

record irc_connection =
  isConnected :: bool
  pingTimer :: bool
  reconnectTimer :: bool
  recentlyReceivedMessage :: bool
  waitingForPong :: bool
  expectConnectionLoss :: bool
  reconnectBackoff :: backoff
  lost :: "bool list"
  raw_lines :: "qstring list"
  opened :: nat

definition IrcConnection :: irc_connection where
  "IrcConnection = \<lparr>isConnected = False, pingTimer = True, reconnectTimer = False, recentlyReceivedMessage = True,
     waitingForPong = False, expectConnectionLoss = False, reconnectBackoff = ExponentialBackoff 1000,
     lost = [], raw_lines = [], opened = 0\<rparr>"

text \<open>\<open>open\<close> and \<open>close\<close> ask Communi to connect and to disconnect.\<close>

definition connection_open :: "irc_connection \<Rightarrow> irc_connection" where
  "connection_open c = c\<lparr>expectConnectionLoss := False, waitingForPong := False, recentlyReceivedMessage := False,
     opened := Suc (opened c)\<rparr>"

definition connection_close :: "irc_connection \<Rightarrow> irc_connection" where
  "connection_close c = c\<lparr>expectConnectionLoss := True, isConnected := False\<rparr>"

definition on_connected :: "irc_connection \<Rightarrow> irc_connection" where
  "on_connected c = c\<lparr>isConnected := True, pingTimer := True\<rparr>"

definition on_unconnected :: "irc_connection \<Rightarrow> irc_connection" where
  "on_unconnected c =
     (let c1 = c\<lparr>isConnected := False, pingTimer := False\<rparr> in
      if \<not> expectConnectionLoss c1 then c1\<lparr>lost := lost c1 @ [False]\<rparr> else c1)"

text \<open>\<open>smartReconnect\<close>; with at most five steps the backoff is always defined.\<close>

definition smart_reconnect :: "irc_connection \<Rightarrow> irc_connection" where
  "smart_reconnect c =
     (if reconnectTimer c then c
      else case backoff_next 5 (reconnectBackoff c) of
        None \<Rightarrow> c
      | Some (delay, b) \<Rightarrow> c\<lparr>reconnectBackoff := b, reconnectTimer := True\<rparr>)"

definition on_reconnect_timer :: "irc_connection \<Rightarrow> irc_connection" where
  "on_reconnect_timer c =
     (let c1 = c\<lparr>reconnectTimer := False\<rparr> in if isConnected c1 then c1 else connection_open c1)"

definition on_ping_timer :: "qstring \<Rightarrow> irc_connection \<Rightarrow> irc_connection" where
  "on_ping_timer payload c =
     (if isConnected c then
        (if recentlyReceivedMessage c then c\<lparr>recentlyReceivedMessage := False, waitingForPong := False\<rparr>
         else if waitingForPong c then
           (let c1 = connection_close c in c1\<lparr>lost := lost c1 @ [True]\<rparr>)
         else c\<lparr>raw_lines := raw_lines c @ [''PING '' @ payload], waitingForPong := True\<rparr>)
      else c)"

definition on_pong :: "qstring \<Rightarrow> qstring \<Rightarrow> irc_connection \<Rightarrow> irc_connection" where
  "on_pong payload argument c = (if argument = payload then c\<lparr>waitingForPong := False\<rparr> else c)"

definition on_message :: "qstring \<Rightarrow> irc_connection \<Rightarrow> irc_connection" where
  "on_message command c =
     (let c1 = c\<lparr>recentlyReceivedMessage := True\<rparr> in
      if command = ''372'' then c1\<lparr>reconnectBackoff := backoff_reset (reconnectBackoff c1)\<rparr> else c1)"

datatype connection_event = Connected | Unconnected | Ping_timer | Reconnect_timer | Pong qstring | Message qstring
  | Smart_reconnect | Open | Close

fun connection_step :: "qstring \<Rightarrow> connection_event \<Rightarrow> irc_connection \<Rightarrow> irc_connection" where
  "connection_step payload Connected c = on_connected c"
| "connection_step payload Unconnected c = on_unconnected c"
| "connection_step payload Ping_timer c = (if pingTimer c then on_ping_timer payload c else c)"
| "connection_step payload Reconnect_timer c = (if reconnectTimer c then on_reconnect_timer c else c)"
| "connection_step payload (Pong argument) c = on_pong payload argument c"
| "connection_step payload (Message command) c = on_message command c"
| "connection_step payload Smart_reconnect c = smart_reconnect c"
| "connection_step payload Open c = connection_open c"
| "connection_step payload Close c = connection_close c"

abbreviation connection_run :: "qstring \<Rightarrow> connection_event list \<Rightarrow> irc_connection \<Rightarrow> irc_connection" where
  "connection_run payload es c \<equiv> fold (connection_step payload) es c"

section \<open>Watching the connection\<close>

definition watched :: "irc_connection \<Rightarrow> bool" where
  "watched c \<longleftrightarrow> (isConnected c \<longrightarrow> pingTimer c) \<and> 1 \<le> step' (reconnectBackoff c) \<and> step' (reconnectBackoff c) \<le> 5"

lemma backoff_next_defined:
  assumes "1 \<le> step' b" "step' b \<le> 5"
  shows "\<exists>d b'. backoff_next 5 b = Some (d, b') \<and> 1 \<le> step' b' \<and> step' b' \<le> 5"
proof -
  have "step' b = 1 \<or> step' b = 2 \<or> step' b = 3 \<or> step' b = 4 \<or> step' b = 5"
  proof -
    have "unat (step' b) \<in> {1, 2, 3, 4, 5}" using assms by (auto simp: word_le_nat_alt)
    then show ?thesis by (auto simp: word_unat_eq_iff)
  qed
  then show ?thesis by (auto simp: backoff_next_def Let_def)
qed

lemma watched_step [invariants]: "watched c \<Longrightarrow> watched (connection_step payload e c)"
  using backoff_next_defined [of "reconnectBackoff c"]
  by (cases e) (auto simp: watched_def on_connected_def on_unconnected_def on_ping_timer_def on_reconnect_timer_def
      connection_open_def connection_close_def on_pong_def on_message_def smart_reconnect_def backoff_reset_def Let_def)

lemma watched_run: "watched c \<Longrightarrow> watched (connection_run payload es c)"
  by (induction es arbitrary: c) (auto intro: watched_step)

lemma watched_start: "watched IrcConnection"
  by (simp add: watched_def IrcConnection_def ExponentialBackoff_def)

text \<open>
  Whatever happened before, a connection on which nothing arrives any more is given up after at most
  three ticks of the ping timer, and given up once: \<open>connectionLost(true)\<close> is the only signal. A connection
  on which something arrives between any two ticks is never given up.
\<close>

theorem silence_is_noticed:
  fixes payload :: qstring
  defines "tick \<equiv> connection_step payload Ping_timer"
  assumes c: "c = connection_run payload es IrcConnection" "isConnected c"
  shows "(\<exists>k \<in> {1, 2, 3}. \<not> isConnected ((tick ^^ k) c) \<and> lost ((tick ^^ k) c) = lost c @ [True]) \<and>
    (\<forall>ms. lost (fold (\<lambda>m. tick \<circ> connection_step payload (Message m)) ms c) = lost c)"
proof -
  have "watched c" using c(1) watched_run watched_start by simp
  then have p: "pingTimer c" using c(2) by (simp add: watched_def)
  have tick: "tick = (\<lambda>c. if pingTimer c then on_ping_timer payload c else c)" by (simp add: tick_def fun_eq_iff)
  have "\<exists>k \<in> {1, 2, 3}. \<not> isConnected ((tick ^^ k) c) \<and> lost ((tick ^^ k) c) = lost c @ [True]"
    using p c(2) by (cases "recentlyReceivedMessage c"; cases "waitingForPong c")
      (simp_all add: tick on_ping_timer_def connection_close_def numeral_3_eq_3 numeral_2_eq_2)
  moreover have "lost (fold (\<lambda>m. tick \<circ> connection_step payload (Message m)) ms c) = lost c \<and>
      isConnected (fold (\<lambda>m. tick \<circ> connection_step payload (Message m)) ms c)" for ms
    using p c(2)
  proof (induction ms arbitrary: c)
    case (Cons m ms)
    let ?c = "(tick \<circ> connection_step payload (Message m)) c"
    have "lost ?c = lost c" "isConnected ?c" "pingTimer ?c"
      using Cons.prems by (simp_all add: tick on_message_def on_ping_timer_def Let_def)
    then show ?case using Cons.IH [of ?c] by simp
  qed simp
  ultimately show ?thesis by blast
qed

theorem silence_is_noticed_witness:
  "\<exists>k \<in> {1, 2, 3}. lost ((connection_step ''x'' Ping_timer ^^ k) (connection_run ''x'' [Connected] IrcConnection)) = [True]"
proof -
  have "isConnected (connection_run ''x'' [Connected] IrcConnection)" by (simp add: on_connected_def)
  note conjunct1 [OF silence_is_noticed [OF refl this]]
  moreover have "lost (connection_run ''x'' [Connected] IrcConnection) = []" by (simp add: on_connected_def IrcConnection_def)
  ultimately show ?thesis by auto
qed

end
