(* ===== verification/Qt_Json.thy ===== *)
theory Qt_Json
  imports Prelude Complex_Main
begin

text \<open>
  Qt's JSON values, as far as the program reads and writes its files with them. A member that is missing,
  or has another type, gives the default value of the conversion. Numbers are doubles; every number the
  program stores is kept exactly. An object is the list of its members, each name once; inserting a
  member replaces the one of the same name (Qt keeps the members sorted, which no reader notices).
\<close>

datatype qjson = QUndefined | QNull | QBool bool | QDouble rat | QString qstring | QArray "qjson list"
  | QObject "(qstring \<times> qjson) list"

type_synonym qobject = "(qstring \<times> qjson) list"

definition json_insert :: "qstring \<Rightarrow> qjson \<Rightarrow> qobject \<Rightarrow> qobject" where
  "json_insert k v obj = (k, v) # filter (\<lambda>m. fst m \<noteq> k) obj"

definition json_value :: "qobject \<Rightarrow> qstring \<Rightarrow> qjson" where
  "json_value obj k = (case map_of obj k of Some v \<Rightarrow> v | None \<Rightarrow> QUndefined)"

definition json_contains :: "qobject \<Rightarrow> qstring \<Rightarrow> bool" where
  "json_contains obj k \<longleftrightarrow> map_of obj k \<noteq> None"

fun toObject :: "qjson \<Rightarrow> qobject" where
  "toObject (QObject ms) = ms"
| "toObject _ = []"

fun toArray :: "qjson \<Rightarrow> qjson list" where
  "toArray (QArray vs) = vs"
| "toArray _ = []"

fun json_toString :: "qstring \<Rightarrow> qjson \<Rightarrow> qstring" where
  "json_toString d (QString s) = s"
| "json_toString d _ = d"

fun json_toBool :: "bool \<Rightarrow> qjson \<Rightarrow> bool" where
  "json_toBool d (QBool b) = b"
| "json_toBool d _ = d"

fun json_toDouble :: "rat \<Rightarrow> qjson \<Rightarrow> rat" where
  "json_toDouble d (QDouble r) = r"
| "json_toDouble d _ = d"

text \<open>\<open>toInt\<close> gives the default for numbers that are not whole or do not fit an \<open>int\<close>.\<close>

fun json_toInt :: "int \<Rightarrow> qjson \<Rightarrow> int" where
  "json_toInt d (QDouble r) = (if of_int \<lfloor>r\<rfloor> = r \<and> - (2 ^ 31) \<le> \<lfloor>r\<rfloor> \<and> \<lfloor>r\<rfloor> < 2 ^ 31 then \<lfloor>r\<rfloor> else d)"
| "json_toInt d _ = d"

definition is_int32 :: "int \<Rightarrow> bool" where
  "is_int32 i \<longleftrightarrow> - (2 ^ 31) \<le> i \<and> i < 2 ^ 31"

definition json_int :: "int \<Rightarrow> qjson" where
  "json_int i = QDouble (of_int i)"

lemma toInt_json_int [simp]: "is_int32 i \<Longrightarrow> json_toInt d (json_int i) = i"
  by (simp add: json_int_def is_int32_def)

lemma map_of_filter_ne: "k \<noteq> k' \<Longrightarrow> map_of (filter (\<lambda>m. fst m \<noteq> k) obj) k' = map_of obj k'"
  by (induction obj) auto

lemma json_value_insert [simp]: "json_value (json_insert k v obj) k' = (if k = k' then v else json_value obj k')"
  by (simp add: json_value_def json_insert_def map_of_filter_ne)

lemma json_value_empty [simp]: "json_value [] k = QUndefined"
  by (simp add: json_value_def)

lemma json_contains_insert [simp]: "json_contains (json_insert k v obj) k' \<longleftrightarrow> k = k' \<or> json_contains obj k'"
  by (simp add: json_contains_def json_insert_def map_of_filter_ne)

lemma json_contains_empty [simp]: "\<not> json_contains [] k"
  by (simp add: json_contains_def)

lemma json_insert_ne [simp]: "json_insert k v obj \<noteq> []"
  by (simp add: json_insert_def)

text \<open>What is read from an object is part of it; recursive readers end.\<close>

lemma map_of_size: "map_of obj k = Some v \<Longrightarrow> size v < size (QObject obj)"
proof (induction obj)
  case (Cons m obj)
  then show ?case by (cases m) (auto split: if_splits)
qed simp

lemma array_size: "v \<in> set vs \<Longrightarrow> size v < size (QArray vs)"
  by (simp add: le_imp_less_Suc size_list_estimation')

lemma member_array_size: "v \<in> set (toArray (json_value obj k)) \<Longrightarrow> size v < size (QObject obj)"
proof -
  assume v: "v \<in> set (toArray (json_value obj k))"
  then obtain vs where vs: "map_of obj k = Some (QArray vs)" "v \<in> set vs"
    by (cases "map_of obj k"; cases "json_value obj k") (auto simp: json_value_def)
  show ?thesis using map_of_size [OF vs(1)] array_size [OF vs(2)] by simp
qed

lemma toObject_size: "size (QObject (toObject v)) \<le> size v \<or> toObject v = []"
  by (cases v) auto

end
