(* ===== verification/Irc_Servers.thy ===== *)
theory Irc_Servers
  imports Channels Ratelimit Signal_Vector Qt_Json "HOL-Library.List_Lexorder" "HOL-Library.Char_ord"
begin

text \<open>
  The channels of IRC servers: \<open>providers/irc/AbstractIrcServer.cpp\<close> (the table of channels every server
  has, joining through the rate limit bucket, connected and disconnected messages), \<open>IrcServer.cpp\<close>,
  \<open>IrcChannel2.cpp\<close>, \<open>IrcCommands.cpp\<close>, \<open>Irc2.cpp\<close> (the list of servers and the channels that wait for a
  removed server to come back), and the name handling and sending limits of
  \<open>providers/twitch/TwitchIrcServer.cpp\<close>.

  A channel object is a number; \<open>objects\<close> maps those that are alive to their state, so that a weak pointer
  is a number that may have no object any more. A server keeps weak pointers by name. What a server
  subscribes to (\<open>destroyed\<close> of the channels it created) is a list that dies with the server. System messages
  are shared between channels in the code and copied here; they are never changed.
\<close>

section \<open>Channel objects\<close>

record 'b chan_object =
  co_channel :: "'b channel"
  co_server :: "int option"

type_synonym 'b objects = "nat \<Rightarrow> 'b chan_object option"

record irc_server =
  srv_channels :: "(qstring \<times> nat) list"
  srv_subs :: "(nat \<times> qstring) list"
  srv_bucket :: bucket
  srv_connected :: bool
  srv_raw :: "qstring list"

text \<open>What derived classes override: cleaning names, channels of their own, creating a channel.\<close>

record 'b server_class =
  cleanChannelName :: "qstring \<Rightarrow> qstring"
  getCustomChannel :: "qstring \<Rightarrow> nat option"
  createChannel :: "qstring \<Rightarrow> 'b chan_object"

definition JOIN_RATELIMIT_BUDGET :: int where
  "JOIN_RATELIMIT_BUDGET = 18"

definition AbstractIrcServer :: irc_server where
  "AbstractIrcServer = \<lparr>srv_channels = [], srv_subs = [], srv_bucket = RatelimitBucket JOIN_RATELIMIT_BUDGET,
     srv_connected = False, srv_raw = []\<rparr>"

definition abstract_cleanChannelName :: "qstring \<Rightarrow> qstring" where
  "abstract_cleanChannelName dirty = (case dirty of CHR ''#'' # n \<Rightarrow> n | _ \<Rightarrow> dirty)"

definition sendRaw :: "qstring \<Rightarrow> irc_server \<Rightarrow> irc_server" where
  "sendRaw line sv = sv\<lparr>srv_raw := srv_raw sv @ [line]\<rparr>"

definition raw_target :: "qstring \<Rightarrow> qstring \<Rightarrow> qstring" where
  "raw_target verb name = (if hd name = CHR ''$'' then verb @ '' '' @ tl name else verb @ '' #'' @ name)"

section \<open>Joining\<close>

text \<open>The callback of the join bucket, run for every name the bucket lets through.\<close>

definition actuallyJoin :: "qstring \<Rightarrow> irc_server \<Rightarrow> irc_server" where
  "actuallyJoin message sv =
     (if map_of (srv_channels sv) message = None then sv
      else if message = [] then sv
      else sendRaw (raw_target ''JOIN'' message) sv)"

definition with_bucket :: "(bucket \<Rightarrow> bucket) \<Rightarrow> irc_server \<Rightarrow> irc_server" where
  "with_bucket f sv =
     (let b = f (srv_bucket sv)
      in fold actuallyJoin (drop (length (called (srv_bucket sv))) (called b)) (sv\<lparr>srv_bucket := b\<rparr>))"

definition joinBucket_send :: "qstring \<Rightarrow> irc_server \<Rightarrow> irc_server" where
  "joinBucket_send name = with_bucket (bucket_send name)"

definition joinBucket_timer :: "irc_server \<Rightarrow> irc_server" where
  "joinBucket_timer sv = (if timers (srv_bucket sv) = 0 then sv else with_bucket bucket_timer sv)"

section \<open>The table of channels\<close>

definition lock :: "'b objects \<Rightarrow> nat \<Rightarrow> nat option" where
  "lock objs c = (if objs c = None then None else Some c)"

definition getChannelOrEmpty :: "'b server_class \<Rightarrow> 'b objects \<Rightarrow> irc_server \<Rightarrow> qstring \<Rightarrow> nat option" where
  "getChannelOrEmpty cls objs sv dirty =
     (let name = cleanChannelName cls dirty in
      case getCustomChannel cls name of
        Some c \<Rightarrow> Some c
      | None \<Rightarrow> (case map_of (srv_channels sv) name of Some c \<Rightarrow> lock objs c | None \<Rightarrow> None))"

text \<open>\<open>n\<close> is the number of the object that is created; the answer has the channel, the objects and the server.\<close>

definition getOrAddChannel :: "'b server_class \<Rightarrow> nat \<Rightarrow> qstring \<Rightarrow> 'b objects \<Rightarrow> irc_server \<Rightarrow> nat \<times> 'b objects \<times> irc_server" where
  "getOrAddChannel cls n dirty objs sv =
     (let name = cleanChannelName cls dirty in
      case getChannelOrEmpty cls objs sv name of
        Some c \<Rightarrow> (c, objs, sv)
      | None \<Rightarrow>
          let objs' = objs(n \<mapsto> createChannel cls name);
              sv1 = sv\<lparr>srv_channels := qmap_insert name n (srv_channels sv), srv_subs := srv_subs sv @ [(n, name)]\<rparr>;
              sv2 = (if srv_connected sv1 then joinBucket_send name sv1 else sv1)
          in (n, objs', sv2))"

text \<open>The callback on \<open>destroyed\<close>, for each time the server subscribed to the channel.\<close>

definition on_destroyed :: "qstring \<Rightarrow> irc_server \<Rightarrow> irc_server" where
  "on_destroyed name sv =
     (let sv1 = sv\<lparr>srv_channels := qmap_remove name (srv_channels sv)\<rparr>
      in if name = [] then sv1 else sendRaw (raw_target ''PART'' name) sv1)"

definition server_forgets :: "nat \<Rightarrow> irc_server \<Rightarrow> irc_server" where
  "server_forgets c sv =
     fold (\<lambda>s. on_destroyed (snd s)) (filter (\<lambda>s. fst s = c) (srv_subs sv))
       (sv\<lparr>srv_subs := filter (\<lambda>s. fst s \<noteq> c) (srv_subs sv)\<rparr>)"

definition getChannels :: "irc_server \<Rightarrow> nat list" where
  "getChannels sv = map snd (srv_channels sv)"

definition live_channels :: "'b objects \<Rightarrow> irc_server \<Rightarrow> nat list" where
  "live_channels objs sv = List.map_filter (lock objs) (getChannels sv)"

text \<open>\<open>forEachChannel\<close> with a change of the channels.\<close>

definition forEachChannel :: "('b channel \<Rightarrow> 'b channel) \<Rightarrow> irc_server \<Rightarrow> 'b objects \<Rightarrow> 'b objects" where
  "forEachChannel f sv objs =
     fold (\<lambda>c objs. case objs c of None \<Rightarrow> objs | Some co \<Rightarrow> objs(c \<mapsto> co\<lparr>co_channel := f (co_channel co)\<rparr>))
       (getChannels sv) objs"

section \<open>Messages to all channels\<close>

definition add_system_message :: "('b, msg_ptr) cbuf_ops \<Rightarrow> qstring option \<Rightarrow> message \<Rightarrow> 'b channel \<Rightarrow> 'b channel" where
  "add_system_message B platform m c =
     (let (p, c1) = allocate m c in addMessage B platform p None c1)"

definition addGlobalSystemMessage :: "('b, msg_ptr) cbuf_ops \<Rightarrow> qstring option \<Rightarrow> int \<Rightarrow> qstring \<Rightarrow> irc_server \<Rightarrow> 'b objects \<Rightarrow> 'b objects" where
  "addGlobalSystemMessage B platform now msg =
     forEachChannel (add_system_message B platform (system_message now msg))"

definition connected_message :: "('b, msg_ptr) cbuf_ops \<Rightarrow> qstring option \<Rightarrow> int \<Rightarrow> 'b channel \<Rightarrow> 'b channel" where
  "connected_message B platform now c =
     (let snapshot = getMessageSnapshot B c;
          replaceMessage' = (length snapshot > 0 \<and> msg_has (ch_heap c (last snapshot)) DisconnectedMessage)
      in if replaceMessage'
         then (let (p, c1) = allocate (set_flags [ConnectedMessage] (system_message now ''reconnected'')) c
               in replaceMessage B (last snapshot) p c1)
         else add_system_message B platform (set_flags [ConnectedMessage] (system_message now ''connected'')) c)"

definition onReadConnected :: "('b, msg_ptr) cbuf_ops \<Rightarrow> qstring option \<Rightarrow> int \<Rightarrow> irc_server \<Rightarrow> 'b objects \<Rightarrow> irc_server \<times> 'b objects" where
  "onReadConnected B platform now sv objs =
     (let names = map (\<lambda>c. ch_name (co_channel (the (objs c)))) (live_channels objs sv)
      in (fold joinBucket_send names (sv\<lparr>srv_connected := True\<rparr>), forEachChannel (connected_message B platform now) sv objs))"

definition onDisconnected :: "('b, msg_ptr) cbuf_ops \<Rightarrow> qstring option \<Rightarrow> int \<Rightarrow> irc_server \<Rightarrow> 'b objects \<Rightarrow> irc_server \<times> 'b objects" where
  "onDisconnected B platform now sv objs =
     (sv\<lparr>srv_connected := False\<rparr>,
      forEachChannel (add_system_message B platform (set_flags [DisconnectedMessage] (system_message now ''disconnected''))) sv objs)"

section \<open>IRC servers\<close>

type_synonym IrcAuthType = int

definition Anonymous :: IrcAuthType where "Anonymous = 0"

record irc_server_data =
  host :: qstring
  port :: int
  ssl :: bool
  user :: qstring
  nick :: qstring
  real :: qstring
  authType :: IrcAuthType
  connectCommands :: "qstring list"
  server_id :: int

definition IrcServerData :: "int \<Rightarrow> irc_server_data" where
  "IrcServerData garbage = \<lparr>host = [], port = 6697, ssl = True, user = [], nick = [], real = [], authType = Anonymous,
     connectCommands = [], server_id = garbage\<rparr>"

definition irc_class :: "('b, msg_ptr) cbuf_ops \<Rightarrow> nat \<Rightarrow> int \<Rightarrow> 'b server_class" where
  "irc_class B limit i = \<lparr>cleanChannelName = abstract_cleanChannelName, getCustomChannel = (\<lambda>_. None),
     createChannel = (\<lambda>name. \<lparr>co_channel = new_channel B limit name Irc, co_server = Some i\<rparr>)\<rparr>"

definition server_nick :: "irc_server_data \<Rightarrow> qstring" where
  "server_nick d = (if nick d = [] then user d else nick d)"

text \<open>What \<open>initializeConnection\<close> gives the connection; with a real name set, the nick is sent in its place.\<close>

record connection_setup =
  cs_secure :: bool
  cs_host :: qstring
  cs_port :: int
  cs_userName :: qstring
  cs_nickName :: qstring
  cs_realName :: qstring

definition initializeConnection :: "irc_server_data \<Rightarrow> connection_setup" where
  "initializeConnection d = \<lparr>cs_secure = ssl d, cs_host = host d, cs_port = port d, cs_userName = user d,
     cs_nickName = (if nick d = [] then user d else nick d), cs_realName = (if real d = [] then user d else nick d)\<rparr>"

text \<open>The connect commands are sent before anything else.\<close>

definition irc_onReadConnected :: "('b, msg_ptr) cbuf_ops \<Rightarrow> int \<Rightarrow> irc_server_data \<Rightarrow> irc_server \<Rightarrow> 'b objects \<Rightarrow> irc_server \<times> 'b objects" where
  "irc_onReadConnected B now d sv objs =
     onReadConnected B (Some (host d)) now
       (fold (\<lambda>command. sendRaw (command @ [CHR 0x0D, CHR 0x0A])) (connectCommands d) sv) objs"

section \<open>Commands and messages of an IRC channel\<close>

datatype irc_output = Raw qstring | System_message qstring

definition paramsAfter :: "qstring list \<Rightarrow> nat \<Rightarrow> qstring" where
  "paramsAfter params i = join_with CHR '' '' (drop (Suc i) params)"

text \<open>\<open>invokeIrcCommand\<close> for a channel with a server: whether it succeeded, and what is sent or shown.\<close>

definition invokeIrcCommand :: "(qstring \<Rightarrow> qstring) \<Rightarrow> (qstring \<Rightarrow> qstring) \<Rightarrow> bool \<Rightarrow> qstring \<Rightarrow> qstring \<Rightarrow> bool \<times> irc_output list" where
  "invokeIrcCommand toLower toUpper hasServer commandName allParams =
     (if \<not> hasServer then (False, [])
      else let cmd = toLower commandName; params = split_on CHR '' '' allParams in
        if cmd = ''join'' then (True, [System_message ''/join is not supported. Press ctrl+r to change the channel. If required use /raw JOIN #channel.''])
        else if cmd = ''part'' then (True, [System_message ''/part is not supported. Press ctrl+r to change the channel. If required use /raw PART #channel.''])
        else if cmd = ''msg'' then (True, [Raw (''PRIVMSG '' @ params ! 0 @ '' :'' @ paramsAfter params 0)])
        else if cmd = ''away'' then (True, [Raw (''AWAY '' @ params ! 0 @ '' :'' @ paramsAfter params 0)])
        else if cmd = ''knock'' then (True, [Raw (''KNOCK #'' @ params ! 0 @ '' '' @ paramsAfter params 0)])
        else if cmd = ''kick'' then
          (if length params < 2 then (False, [System_message ''Usage: /kick <channel> <client> [message]''])
           else let messageParam = paramsAfter params 1 in
             (True, [Raw (''KICK '' @ params ! 0 @ '' '' @ params ! 1 @ (if messageParam = [] then [] else '' :'' @ messageParam))]))
        else if cmd = ''wallops'' then (True, [Raw (''WALLOPS :'' @ allParams)])
        else if cmd = ''raw'' then (True, [Raw allParams])
        else (True, [Raw (toUpper cmd @ '' '' @ allParams)]))"

definition sendMessage :: "qstring \<Rightarrow> qstring \<Rightarrow> qstring" where
  "sendMessage channel msg = ''PRIVMSG #'' @ channel @ '' :'' @ msg"

text \<open>
  \<open>IrcChannel::sendMessage\<close>: a command, or what is sent and the message that is shown. The nick is read
  from the server even where there is none: \<open>None\<close>.
\<close>

datatype sent_message = Nothing | Command "bool \<times> irc_output list" | Sent qstring message

definition irc_channel_sendMessage :: "(qstring \<Rightarrow> qstring) \<Rightarrow> (qstring \<Rightarrow> qstring) \<Rightarrow> int \<Rightarrow> irc_server_data option \<Rightarrow> qstring \<Rightarrow> qstring \<Rightarrow> sent_message option" where
  "irc_channel_sendMessage toLower toUpper now server channel msg =
     (if msg = [] then Some Nothing
      else if hd msg = CHR ''/'' then
        (let rest = tl msg;
             command = takeWhile (\<lambda>c. c \<noteq> CHR '' '') rest;
             params = drop (Suc (length command)) rest
         in Some (Command (invokeIrcCommand toLower toUpper (server \<noteq> None) command params)))
      else case server of
        None \<Rightarrow> None
      | Some d \<Rightarrow>
          let n = server_nick d in
          Some (Sent (sendMessage channel msg)
            ((new_message now)\<lparr>messageText := msg, searchText := n @ '': '' @ msg, loginName := n, displayName := n\<rparr>)))"

section \<open>The list of servers\<close>

record 'b irc =
  irc_connections :: "irc_server_data signal_vector"
  irc_servers :: "(int \<times> irc_server_data \<times> irc_server) list"
  irc_abandoned :: "(int \<times> nat list) list"
  irc_currentId :: int
  irc_objects :: "'b objects"
  irc_next :: nat
  irc_erased :: "qstring list"

definition erase_key :: "'k \<Rightarrow> ('k \<times> 'v) list \<Rightarrow> ('k \<times> 'v) list" where
  "erase_key k m = filter (\<lambda>e. fst e \<noteq> k) m"

definition escape_colons :: "qstring \<Rightarrow> qstring" where
  "escape_colons s = concat (map (\<lambda>c. if c = CHR '':'' then ''::'' else [c]) s)"

definition getCredentialName :: "irc_server_data \<Rightarrow> qstring" where
  "getCredentialName d =
     escape_colons (show_int (server_id d)) @ '':'' @ escape_colons (user d) @ ''@'' @ escape_colons (host d)"

definition setServer :: "int option \<Rightarrow> nat list \<Rightarrow> 'b objects \<Rightarrow> 'b objects" where
  "setServer s cs objs = (\<lambda>c. if c \<in> set cs then map_option (\<lambda>co. co\<lparr>co_server := s\<rparr>) (objs c) else objs c)"

text \<open>The constructor with channels to restore: those alive are entered under their name.\<close>

definition restored_server :: "'b objects \<Rightarrow> nat list \<Rightarrow> irc_server" where
  "restored_server objs restoreChannels =
     AbstractIrcServer\<lparr>srv_channels := fold (\<lambda>c m. case objs c of None \<Rightarrow> m | Some co \<Rightarrow> qmap_insert (ch_name (co_channel co)) c m)
       restoreChannels []\<rparr>"

text \<open>The callbacks of the list of connections; a second server with the id of another fails an assertion.\<close>

definition irc_itemInserted :: "irc_server_data \<Rightarrow> 'b irc \<Rightarrow> 'b irc option" where
  "irc_itemInserted d w =
     (if map_of (irc_servers w) (server_id d) \<noteq> None then None
      else case map_of (irc_abandoned w) (server_id d) of
        Some ab \<Rightarrow>
          let server = restored_server (irc_objects w) ab in
          Some (w\<lparr>irc_objects := setServer (Some (server_id d)) ab (irc_objects w),
            irc_servers := (server_id d, d, server) # irc_servers w,
            irc_abandoned := erase_key (server_id d) (irc_abandoned w)\<rparr>)
      | None \<Rightarrow> Some (w\<lparr>irc_servers := (server_id d, d, AbstractIrcServer) # irc_servers w\<rparr>))"

definition irc_itemRemoved :: "bool \<Rightarrow> irc_server_data \<Rightarrow> 'b irc \<Rightarrow> 'b irc" where
  "irc_itemRemoved noEraseCredential d w =
     (let w1 = (case map_of (irc_servers w) (server_id d) of
            None \<Rightarrow> w
          | Some (d', server) \<Rightarrow>
              let abandoned = getChannels server in
              w\<lparr>irc_objects := setServer None abandoned (irc_objects w),
                irc_abandoned := (server_id d, abandoned) # erase_key (server_id d) (irc_abandoned w),
                irc_servers := erase_key (server_id d) (irc_servers w)\<rparr>)
      in if noEraseCredential then w1 else w1\<lparr>irc_erased := irc_erased w1 @ [getCredentialName d]\<rparr>)"

definition connections_insert :: "irc_server_data \<Rightarrow> int \<Rightarrow> 'b irc \<Rightarrow> 'b irc option" where
  "connections_insert d index w =
     (case sv_insert None d index (irc_connections w) of
        None \<Rightarrow> None
      | Some (i, v) \<Rightarrow> irc_itemInserted d (w\<lparr>irc_connections := v\<rparr>))"

definition connections_removeAt :: "int \<Rightarrow> bool \<Rightarrow> 'b irc \<Rightarrow> 'b irc option" where
  "connections_removeAt index noEraseCredential w =
     (case sv_removeAt index (irc_connections w) of
        None \<Rightarrow> None
      | Some (d, v) \<Rightarrow> Some (irc_itemRemoved noEraseCredential d (w\<lparr>irc_connections := v\<rparr>)))"

text \<open>A channel of a server that is not there is a new object every time it is asked for.\<close>

definition irc_getOrAddChannel :: "('b, msg_ptr) cbuf_ops \<Rightarrow> nat \<Rightarrow> int \<Rightarrow> qstring \<Rightarrow> 'b irc \<Rightarrow> nat \<times> 'b irc" where
  "irc_getOrAddChannel B limit i name w =
     (case map_of (irc_servers w) i of
        Some (d, server) \<Rightarrow>
          let (c, objs, server') = getOrAddChannel (irc_class B limit i) (irc_next w) name (irc_objects w) server
          in (c, w\<lparr>irc_objects := objs, irc_servers := (i, d, server') # erase_key i (irc_servers w), irc_next := Suc (irc_next w)\<rparr>)
      | None \<Rightarrow>
          let c = irc_next w in
          (c, w\<lparr>irc_objects := (irc_objects w)(c \<mapsto> \<lparr>co_channel = new_channel B limit name Irc, co_server = None\<rparr>), irc_next := Suc c,
             irc_abandoned := (i, (case map_of (irc_abandoned w) i of Some cs \<Rightarrow> cs | None \<Rightarrow> []) @ [c]) # erase_key i (irc_abandoned w)\<rparr>))"

text \<open>The last reference to a channel goes away.\<close>

definition irc_destroyed :: "nat \<Rightarrow> 'b irc \<Rightarrow> 'b irc" where
  "irc_destroyed c w = w\<lparr>irc_objects := (irc_objects w)(c := None),
     irc_servers := map (\<lambda>(i, d, sv). (i, d, server_forgets c sv)) (irc_servers w)\<rparr>"

text \<open>The first id from \<open>i\<close> on that neither a server nor abandoned channels use.\<close>

definition used_ids :: "'b irc \<Rightarrow> int list" where
  "used_ids w = map fst (irc_servers w) @ map fst (irc_abandoned w)"

function free_id :: "int list \<Rightarrow> int \<Rightarrow> int" where
  "free_id used i = (if i \<in> set used then free_id used (i + 1) else i)"
  by auto
termination
proof (relation "measure (\<lambda>(used, i). card {j \<in> set used. i \<le> j})")
  fix used :: "int list" and i
  assume a: "i \<in> set used"
  let ?A = "\<lambda>i. {j \<in> set used. i \<le> j}"
  have "i \<in> ?A i" "i \<notin> ?A (i + 1)" "?A (i + 1) \<subseteq> ?A i" using a by auto
  then have "?A (i + 1) \<subset> ?A i" by blast
  then have "card (?A (i + 1)) < card (?A i)" by (intro psubset_card_mono) auto
  then show "((used, i + 1), used, i) \<in> measure (\<lambda>(used, i). card {j \<in> set used. i \<le> j})" by simp
qed simp

declare free_id.simps [simp del]

definition uniqueId :: "'b irc \<Rightarrow> int \<times> 'b irc" where
  "uniqueId w = (let i = free_id (used_ids w) (irc_currentId w + 1) in (i, w\<lparr>irc_currentId := i\<rparr>))"

section \<open>Saving and loading the servers\<close>

definition put_server :: "irc_server_data \<Rightarrow> qjson" where
  "put_server d = QObject
     (json_insert ''authType'' (json_int (authType d))
     (json_insert ''id'' (json_int (server_id d))
     (json_insert ''connectCommands'' (QArray (map QString (connectCommands d)))
     (json_insert ''realname'' (QString (real d))
     (json_insert ''nickname'' (QString (nick d))
     (json_insert ''username'' (QString (user d))
     (json_insert ''ssl'' (QBool (ssl d))
     (json_insert ''port'' (json_int (port d))
     (json_insert ''host'' (QString (host d)) [])))))))))"

definition irc_save :: "irc_server_data list \<Rightarrow> qobject" where
  "irc_save conns = json_insert ''servers'' (QArray (map put_server conns)) []"

text \<open>\<open>toVariant().toStringList()\<close> is the argument \<open>stringList\<close>; the id of a server without one is \<open>garbage\<close>.\<close>

definition get_server :: "(qjson \<Rightarrow> qstring list) \<Rightarrow> int \<Rightarrow> qjson \<Rightarrow> irc_server_data" where
  "get_server stringList garbage v =
     (let obj = toObject v; data = IrcServerData garbage in
      \<lparr>host = json_toString (host data) (json_value obj ''host''), port = json_toInt (port data) (json_value obj ''port''),
       ssl = json_toBool (ssl data) (json_value obj ''ssl''), user = json_toString (user data) (json_value obj ''username''),
       nick = json_toString (nick data) (json_value obj ''nickname''), real = json_toString (real data) (json_value obj ''realname''),
       authType = json_toInt (authType data) (json_value obj ''authType''),
       connectCommands = stringList (json_value obj ''connectCommands''),
       server_id = json_toInt (server_id data) (json_value obj ''id'')\<rparr>)"

fun load_servers :: "(qjson \<Rightarrow> qstring list) \<Rightarrow> int \<Rightarrow> int list \<Rightarrow> qjson list \<Rightarrow> 'b irc \<Rightarrow> 'b irc option" where
  "load_servers stringList garbage ids [] w = Some w"
| "load_servers stringList garbage ids (v # vs) w =
     (let d = get_server stringList garbage v in
      if server_id d \<notin> set ids then
        (case connections_insert d (-1) w of
           None \<Rightarrow> None
         | Some w' \<Rightarrow> load_servers stringList garbage (server_id d # ids) vs w')
      else load_servers stringList garbage ids vs w)"

definition Irc_start :: "'b irc" where
  "Irc_start = \<lparr>irc_connections = SignalVector, irc_servers = [], irc_abandoned = [], irc_currentId = 0,
     irc_objects = (\<lambda>_. None), irc_next = 0, irc_erased = []\<rparr>"

definition irc_load :: "(qjson \<Rightarrow> qstring list) \<Rightarrow> int \<Rightarrow> qobject \<Rightarrow> 'b irc \<Rightarrow> 'b irc option" where
  "irc_load stringList garbage file w = load_servers stringList garbage [] (toArray (json_value file ''servers'')) w"

section \<open>Twitch: names, special channels, and how often messages are sent\<close>

definition twitch_cleanChannelName :: "(qstring \<Rightarrow> qstring) \<Rightarrow> qstring \<Rightarrow> qstring" where
  "twitch_cleanChannelName toLower dirty = (case dirty of CHR ''#'' # n \<Rightarrow> toLower n | _ \<Rightarrow> toLower dirty)"

record twitch_channels =
  whispersChannel :: nat
  mentionsChannel :: nat
  watchingChannel :: nat
  liveChannel :: nat
  testChannel :: nat

definition twitch_getCustomChannel :: "twitch_channels \<Rightarrow> qstring \<Rightarrow> nat option" where
  "twitch_getCustomChannel tw name =
     (if name = ''/whispers'' then Some (whispersChannel tw)
      else if name = ''/mentions'' then Some (mentionsChannel tw)
      else if name = ''/live'' then Some (liveChannel tw)
      else if name = ''$$$'' then Some (testChannel tw)
      else None)"

definition forEachChannelAndSpecialChannels :: "twitch_channels \<Rightarrow> ('b channel \<Rightarrow> 'b channel) \<Rightarrow> irc_server \<Rightarrow> 'b objects \<Rightarrow> 'b objects" where
  "forEachChannelAndSpecialChannels tw f sv objs =
     fold (\<lambda>c objs. case objs c of None \<Rightarrow> objs | Some co \<Rightarrow> objs(c \<mapsto> co\<lparr>co_channel := f (co_channel co)\<rparr>))
       [whispersChannel tw, mentionsChannel tw, liveChannel tw] (forEachChannel f sv objs)"

text \<open>The channel with a room id: \<open>roomOf\<close> answers for Twitch channels.\<close>

definition getChannelOrEmptyByID :: "(nat \<Rightarrow> qstring option) \<Rightarrow> 'b objects \<Rightarrow> irc_server \<Rightarrow> qstring \<Rightarrow> nat option" where
  "getChannelOrEmptyByID roomOf objs sv channelId =
     List.find (\<lambda>c. roomOf c = Some channelId \<and> length (split_on CHR '':'' (ch_name (co_channel (the (objs c))))) < 3)
       (live_channels objs sv)"

text \<open>\<open>prepareToSend\<close>: times in milliseconds; whether the message may be sent, and what is shown otherwise.\<close>

record send_state =
  lastMessageMod :: "int list"
  lastMessagePleb :: "int list"
  lastErrorTimeSpeed :: int
  lastErrorTimeAmount :: int

definition prepareToSend :: "int \<Rightarrow> int \<Rightarrow> int \<Rightarrow> bool \<Rightarrow> send_state \<Rightarrow> bool \<times> qstring option \<times> send_state" where
  "prepareToSend lowRateLimit highRateLimit now high st =
     (let lastMessage = (if high then lastMessageMod st else lastMessagePleb st);
          put = (\<lambda>q. if high then st\<lparr>lastMessageMod := q\<rparr> else st\<lparr>lastMessagePleb := q\<rparr>);
          maxMessageCount = (if high then 99 else 19 :: nat);
          minMessageOffset = (if high then highRateLimit else lowRateLimit)
      in if lastMessage \<noteq> [] \<and> last lastMessage + minMessageOffset > now then
           (if lastErrorTimeSpeed st + 30000 < now
            then (False, Some ''You are sending messages too quickly.'', st\<lparr>lastErrorTimeSpeed := now\<rparr>)
            else (False, None, st))
         else let lastMessage = dropWhile (\<lambda>t. t + 32000 < now) lastMessage in
           if length lastMessage \<ge> maxMessageCount then
             (if lastErrorTimeAmount st + 30000 < now
              then (False, Some ''You are sending too many messages.'', (put lastMessage)\<lparr>lastErrorTimeAmount := now\<rparr>)
              else (False, None, put lastMessage))
           else (True, None, put (lastMessage @ [now])))"

text \<open>\<open>onMessageSendRequested\<close> and \<open>onReplySendRequested\<close>: the line that is sent, if any.\<close>

definition onMessageSendRequested :: "int \<Rightarrow> int \<Rightarrow> int \<Rightarrow> bool \<Rightarrow> qstring \<Rightarrow> qstring \<Rightarrow> send_state \<Rightarrow> qstring option \<times> qstring option \<times> send_state" where
  "onMessageSendRequested low high' now high channel msg st =
     (case prepareToSend low high' now high st of (canSend, shown, st') \<Rightarrow>
        (if \<not> canSend then None
         else if channel \<noteq> [] \<and> hd channel = CHR ''$'' then Some (''PRIVMSG '' @ tl channel @ '' :'' @ msg)
         else Some (sendMessage channel msg), shown, st'))"

definition onReplySendRequested :: "int \<Rightarrow> int \<Rightarrow> int \<Rightarrow> bool \<Rightarrow> qstring \<Rightarrow> qstring \<Rightarrow> qstring \<Rightarrow> send_state \<Rightarrow> qstring option \<times> qstring option \<times> send_state" where
  "onReplySendRequested low high' now high channel msg replyId st =
     (case prepareToSend low high' now high st of (canSend, shown, st') \<Rightarrow>
        (if \<not> canSend then None
         else Some (''@reply-parent-msg-id='' @ replyId @ '' PRIVMSG #'' @ channel @ '' :'' @ msg), shown, st'))"

text \<open>What reaches \<open>bulkRefreshLiveStatus\<close>'s \<open>parseLiveStatus\<close> for one batch: the rooms found live, then the others as offline.\<close>

definition bulk_live_batch :: "qstring list \<Rightarrow> qstring list \<Rightarrow> qstring list \<Rightarrow> (qstring \<times> bool) list \<times> qstring list" where
  "bulk_live_batch batch streams rooms =
     (let taken = fold (\<lambda>s (out, rs). if s \<in> set rs then (out @ [(s, True)], filter (\<lambda>r. r \<noteq> s) rs) else (out, rs)) streams ([], rooms)
      in (fst taken @ map (\<lambda>r. (r, False)) (filter (\<lambda>r. r \<in> set (snd taken)) batch), snd taken))"

end
