(* ===== verification/Irc_Servers_Correct.thy ===== *)
theory Irc_Servers_Correct
  imports Irc_Servers
begin

text \<open>
  Properties of the IRC servers: how often Twitch messages are sent, that channels outlive the server they
  belong to, that the saved servers are read back, and that connecting joins every channel.
\<close>

section \<open>How often messages are sent\<close>

fun accepted :: "int \<Rightarrow> int \<Rightarrow> bool \<Rightarrow> (int \<times> bool) list \<Rightarrow> send_state \<Rightarrow> int list" where
  "accepted lo hi c [] st = []"
| "accepted lo hi c ((now, high) # es) st =
     (case prepareToSend lo hi now high st of
        (canSend, shown, st') \<Rightarrow> (if canSend \<and> high = c then [now] else []) @ accepted lo hi c es st')"

definition queue_of :: "bool \<Rightarrow> send_state \<Rightarrow> int list" where
  "queue_of c st = (if c then lastMessageMod st else lastMessagePleb st)"

definition class_max :: "bool \<Rightarrow> nat" where
  "class_max c = (if c then 99 else 19)"

definition class_offset :: "int \<Rightarrow> int \<Rightarrow> bool \<Rightarrow> int" where
  "class_offset lo hi c = (if c then hi else lo)"

definition spaced :: "nat \<Rightarrow> int \<Rightarrow> int list \<Rightarrow> bool" where
  "spaced m d acc \<longleftrightarrow> (\<forall>i. i + m < length acc \<longrightarrow> acc ! i + 32000 < acc ! (i + m)) \<and>
     (\<forall>i. Suc i < length acc \<longrightarrow> acc ! i + d \<le> acc ! Suc i)"

text \<open>All accepted times: those that have left the queue, which are old, and the queue.\<close>

definition sent_ok :: "int \<Rightarrow> int \<Rightarrow> bool \<Rightarrow> int list \<Rightarrow> int \<Rightarrow> send_state \<Rightarrow> bool" where
  "sent_ok lo hi c acc now st \<longleftrightarrow> spaced (class_max c) (class_offset lo hi c) acc \<and>
     (\<exists>old. acc = old @ queue_of c st \<and> (\<forall>t \<in> set old. t + 32000 < now) \<and> (queue_of c st = [] \<longrightarrow> old = []))"

lemma spaced_snoc:
  assumes "spaced m d (old @ q)" "length q < m" "\<forall>t \<in> set old. t + 32000 < now"
    and "old @ q \<noteq> [] \<longrightarrow> last (old @ q) + d \<le> now"
  shows "spaced m d (old @ q @ [now])"
proof -
  let ?acc = "old @ q"
  have "(?acc @ [now]) ! i + 32000 < (?acc @ [now]) ! (i + m)" if "i + m < length (?acc @ [now])" for i
  proof (cases "i + m < length ?acc")
    case True
    then show ?thesis using assms(1) by (simp add: spaced_def nth_append_left del: append_assoc)
  next
    case False
    then have e: "i + m = length ?acc" using that by simp
    then have "i < length old" using assms(2) by simp
    then show ?thesis using e assms(3) by (simp add: nth_append)
  qed
  moreover have "(?acc @ [now]) ! i + d \<le> (?acc @ [now]) ! Suc i" if "Suc i < length (?acc @ [now])" for i
  proof (cases "Suc i < length ?acc")
    case True
    then show ?thesis using assms(1) by (simp add: spaced_def nth_append_left del: append_assoc)
  next
    case False
    then have e: "Suc i = length ?acc" using that by simp
    then have "length ?acc - 1 = i" "?acc \<noteq> []" by auto
    then have "?acc \<noteq> []" "?acc ! i = last ?acc" using last_conv_nth [of ?acc] by auto
    then show ?thesis using e assms(4) by (simp add: nth_append_left nth_append del: append_assoc)
  qed
  ultimately show ?thesis by (simp add: spaced_def)
qed

lemma dropWhile_parts:
  obtains d where "q = d @ dropWhile P q" "\<forall>t \<in> set d. P t"
  using takeWhile_dropWhile_id [of P q] set_takeWhileD by metis

lemma prepareToSend_cases:
  assumes "prepareToSend lo hi now c st = (canSend, shown, st')"
  defines "q \<equiv> queue_of c st" and "q' \<equiv> dropWhile (\<lambda>t. t + 32000 < now) (queue_of c st)"
  shows "q \<noteq> [] \<and> now < last q + class_offset lo hi c \<and> \<not> canSend \<and> queue_of c st' = q \<or>
    class_max c \<le> length q' \<and> \<not> canSend \<and> queue_of c st' = q' \<or>
    (q = [] \<or> last q + class_offset lo hi c \<le> now) \<and> length q' < class_max c \<and> canSend \<and> queue_of c st' = q' @ [now]"
proof (cases c)
  case True
  then show ?thesis using assms(1) unfolding q_def q'_def
    by (simp add: prepareToSend_def Let_def queue_of_def class_max_def class_offset_def split: if_splits) auto
next
  case False
  then show ?thesis using assms(1) unfolding q_def q'_def
    by (simp add: prepareToSend_def Let_def queue_of_def class_max_def class_offset_def split: if_splits) auto
qed

lemma prepareToSend_step:
  assumes ok: "sent_ok lo hi c acc now st" and le: "now \<le> now'"
    and p: "prepareToSend lo hi now' high st = (canSend, shown, st')"
  shows "sent_ok lo hi c (acc @ (if canSend \<and> high = c then [now'] else [])) now' st'"
proof -
  obtain old where o: "acc = old @ queue_of c st" "\<forall>t \<in> set old. t + 32000 < now'" "queue_of c st = [] \<longrightarrow> old = []"
      "spaced (class_max c) (class_offset lo hi c) acc"
    using ok le unfolding sent_ok_def by force
  show ?thesis
  proof (cases "high = c")
    case False
    then have "queue_of c st' = queue_of c st"
      using p by (auto simp: prepareToSend_def Let_def queue_of_def split: if_splits)
    then show ?thesis using o False by (auto simp: sent_ok_def)
  next
    case True
    define q where "q = queue_of c st"
    define q' where "q' = dropWhile (\<lambda>t. t + 32000 < now') q"
    obtain d where d: "q = d @ q'" "\<forall>t \<in> set d. t + 32000 < now'" unfolding q'_def by (rule dropWhile_parts)
    have old: "\<forall>t \<in> set (old @ d). t + 32000 < now'" using o(2) d(2) by auto
    consider (fast) "q \<noteq> []" "now' < last q + class_offset lo hi c" "\<not> canSend" "queue_of c st' = q"
      | (many) "class_max c \<le> length q'" "\<not> canSend" "queue_of c st' = q'"
      | (send) "q = [] \<or> last q + class_offset lo hi c \<le> now'" "length q' < class_max c" canSend "queue_of c st' = q' @ [now']"
      using prepareToSend_cases [of lo hi now' c st canSend shown st'] p True unfolding q_def q'_def by blast
    then show ?thesis
    proof cases
      case fast
      then show ?thesis using o True q_def by (auto simp: sent_ok_def)
    next
      case many
      then have "q' \<noteq> []" by (auto simp: class_max_def split: if_splits)
      moreover have "acc = (old @ d) @ q'" using o(1) d(1) q_def by simp
      ultimately show ?thesis using many o(4) old unfolding sent_ok_def by (intro conjI exI [of _ "old @ d"]) auto
    next
      case send
      have e: "acc = (old @ d) @ q'" using o(1) d(1) q_def by simp
      have "acc \<noteq> [] \<longrightarrow> last acc + class_offset lo hi c \<le> now'"
      proof (cases "q = []")
        case True
        then show ?thesis using o(1,3) q_def by simp
      next
        case False
        then have "last acc = last q" using o(1) q_def by simp
        then show ?thesis using send(1) False by simp
      qed
      then have sp: "spaced (class_max c) (class_offset lo hi c) ((old @ d) @ q' @ [now'])"
        using spaced_snoc [OF _ send(2) old] o(4) unfolding e by blast
      have "acc @ (if canSend \<and> high = c then [now'] else []) = (old @ d) @ queue_of c st'"
        using send(3,4) True e by simp
      moreover have "queue_of c st' \<noteq> []" using send(4) by simp
      ultimately show ?thesis using sp old send(4) unfolding sent_ok_def by auto
    qed
  qed
qed

lemma accepted_ok:
  "sent_ok lo hi c acc now st \<Longrightarrow> sorted (now # map fst es) \<Longrightarrow>
   spaced (class_max c) (class_offset lo hi c) (acc @ accepted lo hi c es st)"
proof (induction es arbitrary: acc now st)
  case Nil
  then show ?case by (simp add: sent_ok_def)
next
  case (Cons e es)
  obtain now' high where e: "e = (now', high)" by (cases e)
  obtain canSend shown st' where p: "prepareToSend lo hi now' high st = (canSend, shown, st')" by (cases "prepareToSend lo hi now' high st")
  have "sent_ok lo hi c (acc @ (if canSend \<and> high = c then [now'] else [])) now' st'"
    using prepareToSend_step [OF Cons.prems(1) _ p] Cons.prems(2) e by simp
  from Cons.IH [OF this] show ?case using Cons.prems(2) e p by simp
qed



section \<open>Servers that are removed and added again\<close>

definition names_ok :: "'b objects \<Rightarrow> irc_server \<Rightarrow> bool" where
  "names_ok objs sv \<longleftrightarrow> qmap_ok (srv_channels sv) \<and>
     (\<forall>(n, c) \<in> set (srv_channels sv). case objs c of None \<Rightarrow> True | Some co \<Rightarrow> ch_name (co_channel co) = n)"

lemma restored_lookup:
  fixes es :: "(qstring \<times> nat) list" and acc :: "(qstring \<times> nat) list"
  assumes "distinct (map fst es)" "qmap_ok acc"
    and "\<forall>(n, c) \<in> set es. case objs c of None \<Rightarrow> True | Some co \<Rightarrow> ch_name (co_channel co) = n"
  shows "map_of (fold (\<lambda>c m. case objs c of None \<Rightarrow> m | Some co \<Rightarrow> qmap_insert (ch_name (co_channel co)) c m) (map snd es) acc) n =
    (case map_of es n of Some c \<Rightarrow> if objs c \<noteq> None then Some c else map_of acc n | None \<Rightarrow> map_of acc n)"
  using assms
proof (induction es arbitrary: acc)
  case (Cons e es)
  obtain k c where e: "e = (k, c)" by (cases e)
  have k: "map_of es k = None" using Cons.prems(1) e by (simp add: map_of_eq_None_iff)
  show ?case
  proof (cases "objs c")
    case None
    then show ?thesis using Cons e k by (cases "n = k") (simp_all split: option.split)
  next
    case (Some co)
    then have "ch_name (co_channel co) = k" using Cons.prems(3) e by auto
    then show ?thesis using Cons e Some k by (cases "n = k") (simp_all split: option.split)
  qed
qed simp

lemma map_of_erase_key: "map_of (erase_key k m) k' = (if k = k' then None else map_of m k')"
  unfolding erase_key_def by (induction m) auto

lemma setServer_id:
  assumes "\<forall>c \<in> set cs. \<forall>co. objs c = Some co \<longrightarrow> co_server co = s"
  shows "setServer s cs (setServer s' cs objs) = objs"
proof
  fix c
  show "setServer s cs (setServer s' cs objs) c = objs c"
  proof (cases "c \<in> set cs")
    case True
    then show ?thesis using assms by (cases "objs c") (auto simp: setServer_def)
  qed (simp add: setServer_def)
qed

text \<open>
  Changing a server, which removes it and adds it again under its id, loses no channel: while it is
  gone its channels belong to no server, and afterwards the objects are what they were and every name
  finds the channel it found before.
\<close>

theorem channels_survive_server:
  assumes sv: "map_of (irc_servers w) i = Some (d, sv)" and ids: "server_id d = i" "server_id d' = i"
    and n: "names_ok (irc_objects w) sv"
    and own: "\<forall>c \<in> set (getChannels sv). \<forall>co. irc_objects w c = Some co \<longrightarrow> co_server co = Some i"
    and w1: "w1 = irc_itemRemoved noErase d w"
  shows "(\<forall>c \<in> set (getChannels sv). \<forall>co. irc_objects w1 c = Some co \<longrightarrow> co_server co = None) \<and>
    (\<exists>w2 sv2. irc_itemInserted d' w1 = Some w2 \<and> irc_objects w2 = irc_objects w \<and>
      map_of (irc_servers w2) i = Some (d', sv2) \<and> map_of (irc_abandoned w2) i = None \<and>
      (\<forall>name. getChannelOrEmpty (irc_class B limit i) (irc_objects w2) sv2 name =
        getChannelOrEmpty (irc_class B limit i) (irc_objects w) sv name))"
proof -
  let ?cs = "getChannels sv"
  have w1': "irc_objects w1 = setServer None ?cs (irc_objects w)" "map_of (irc_servers w1) i = None"
      "map_of (irc_abandoned w1) i = Some ?cs"
    using sv ids(1) by (simp_all add: w1 irc_itemRemoved_def Let_def map_of_erase_key)
  have gone: "\<forall>c \<in> set ?cs. \<forall>co. irc_objects w1 c = Some co \<longrightarrow> co_server co = None"
    using w1'(1) by (auto simp: setServer_def)
  obtain w2 where w2: "irc_itemInserted d' w1 = Some w2" "irc_objects w2 = setServer (Some i) ?cs (irc_objects w1)"
      "map_of (irc_servers w2) i = Some (d', restored_server (irc_objects w1) ?cs)" "map_of (irc_abandoned w2) i = None"
    using w1' ids(2) by (simp add: irc_itemInserted_def Let_def map_of_erase_key)
  have objs: "irc_objects w2 = irc_objects w" unfolding w2(2) w1'(1) by (rule setServer_id [OF own])
  have same: "case irc_objects w1 c of None \<Rightarrow> irc_objects w c = None | Some co \<Rightarrow> \<exists>co'. irc_objects w c = Some co' \<and> co_channel co' = co_channel co" for c
    unfolding w1'(1) by (cases "irc_objects w c") (auto simp: setServer_def)
  have nm: "\<forall>(n, c) \<in> set (srv_channels sv). case irc_objects w1 c of None \<Rightarrow> True | Some co \<Rightarrow> ch_name (co_channel co) = n"
    using n same unfolding names_ok_def by (fastforce split: option.splits)
  have "distinct (map fst (srv_channels sv))" using n by (intro qmap_ok_distinct) (simp add: names_ok_def)
  from restored_lookup [OF this _ nm, of "[]"]
  have look: "map_of (srv_channels (restored_server (irc_objects w1) ?cs)) k =
      (case map_of (srv_channels sv) k of Some c \<Rightarrow> if irc_objects w1 c \<noteq> None then Some c else None | None \<Rightarrow> None)" for k
    by (simp add: restored_server_def getChannels_def split: option.split)
  have alive: "irc_objects w1 c = None \<longleftrightarrow> irc_objects w c = None" for c using same [of c] by (auto split: option.splits)
  have "getChannelOrEmpty (irc_class B limit i) (irc_objects w) (restored_server (irc_objects w1) ?cs) name =
      getChannelOrEmpty (irc_class B limit i) (irc_objects w) sv name" for name
    by (auto simp: getChannelOrEmpty_def irc_class_def look lock_def alive split: option.splits)
  then show ?thesis using gone w2 objs by auto
qed

definition one_channel :: "nat irc" where
  "one_channel = Irc_start\<lparr>irc_servers := [(7, (IrcServerData 7), AbstractIrcServer\<lparr>srv_channels := [(''a'', 0)]\<rparr>)],
     irc_objects := [0 \<mapsto> \<lparr>co_channel = \<lparr>ch_name = ''a'', ch_type = Irc, ch_messages = undefined, ch_heap = undefined, ch_next = 0, ch_signals = []\<rparr>,
       co_server = Some 7\<rparr>]\<rparr>"

theorem channels_survive_server_witness:
  "\<exists>w2. irc_itemInserted (IrcServerData 7) (irc_itemRemoved True (IrcServerData 7) one_channel) = Some w2 \<and>
    irc_objects w2 = irc_objects one_channel"
proof -
  let ?sv = "AbstractIrcServer\<lparr>srv_channels := [(''a'', 0)]\<rparr>" and ?d = "IrcServerData 7"
  have "map_of (irc_servers one_channel) 7 = Some (?d, ?sv)" "server_id ?d = 7"
    "names_ok (irc_objects one_channel) ?sv"
    "\<forall>c \<in> set (getChannels ?sv). \<forall>co. irc_objects one_channel c = Some co \<longrightarrow> co_server co = Some 7"
    by (simp_all add: one_channel_def names_ok_def IrcServerData_def getChannels_def)
  from channels_survive_server [OF this(1,2,2,3,4) refl, of True undefined undefined] show ?thesis by blast
qed

section \<open>Saved servers\<close>

definition data_ok :: "irc_server_data \<Rightarrow> bool" where
  "data_ok d \<longleftrightarrow> is_int32 (port d) \<and> is_int32 (authType d) \<and> is_int32 (server_id d)"

lemma get_put_server:
  assumes "data_ok d" "\<And>ss. stringList (QArray (map QString ss)) = ss"
  shows "get_server stringList garbage (put_server d) = d"
  using assms by (simp add: get_server_def put_server_def Let_def data_ok_def IrcServerData_def)

lemma load_servers_all:
  assumes sl: "\<And>ss. stringList (QArray (map QString ss)) = ss"
  shows "\<lbrakk>\<forall>d \<in> set ds. data_ok d; distinct (map server_id ds); set ids \<inter> server_id ` set ds = {};
    \<forall>d \<in> set ds. map_of (irc_servers w) (server_id d) = None; irc_abandoned w = []\<rbrakk> \<Longrightarrow>
    \<exists>w'. load_servers stringList garbage ids (map put_server ds) w = Some w' \<and>
      sv_items (irc_connections w') = sv_items (irc_connections w) @ ds \<and>
      (\<forall>d \<in> set ds. map_of (irc_servers w') (server_id d) = Some (d, AbstractIrcServer)) \<and>
      (\<forall>i. i \<notin> server_id ` set ds \<longrightarrow> map_of (irc_servers w') i = map_of (irc_servers w) i)"
proof (induction ds arbitrary: ids w)
  case (Cons d ds)
  have g: "get_server stringList garbage (put_server d) = d" using get_put_server [OF _ sl] Cons.prems(1) by simp
  obtain w1 where w1: "connections_insert d (-1) w = Some w1" "irc_abandoned w1 = []"
      "sv_items (irc_connections w1) = sv_items (irc_connections w) @ [d]"
      "irc_servers w1 = (server_id d, d, AbstractIrcServer) # irc_servers w"
    using Cons.prems(4,5) by (simp add: connections_insert_def sv_insert_def irc_itemInserted_def itemsChanged_def)
  have "\<forall>e \<in> set ds. server_id d \<noteq> server_id e" using Cons.prems(2) by (metis distinct.simps(2) image_eqI list.map(2) list.set_map)
  then have "\<forall>e \<in> set ds. map_of (irc_servers w1) (server_id e) = None" using Cons.prems(4) w1(4) by auto
  moreover have "set (server_id d # ids) \<inter> server_id ` set ds = {}" using Cons.prems(2,3) by auto
  ultimately obtain w' where w': "load_servers stringList garbage (server_id d # ids) (map put_server ds) w1 = Some w'"
      "sv_items (irc_connections w') = sv_items (irc_connections w1) @ ds"
      "\<forall>d \<in> set ds. map_of (irc_servers w') (server_id d) = Some (d, AbstractIrcServer)"
      "\<forall>i. i \<notin> server_id ` set ds \<longrightarrow> map_of (irc_servers w') i = map_of (irc_servers w1) i"
    using Cons.IH [of "server_id d # ids" w1] Cons.prems w1(2) by auto
  have "server_id d \<notin> set ids" "server_id d \<notin> server_id ` set ds" using Cons.prems(2,3) by auto
  then show ?case using w' w1 g by (auto simp: Let_def)
qed simp

text \<open>
  The servers that were saved are the servers that are loaded, in their order and each with a connection
  of its own, when no two have the same id.
\<close>

theorem saved_servers_load:
  assumes sl: "\<And>ss. stringList (QArray (map QString ss)) = ss"
    and ds: "\<forall>d \<in> set ds. data_ok d" "distinct (map server_id ds)"
  shows "\<exists>w. irc_load stringList garbage (irc_save ds) Irc_start = Some w \<and> sv_items (irc_connections w) = ds \<and>
    (\<forall>d \<in> set ds. map_of (irc_servers w) (server_id d) = Some (d, AbstractIrcServer))"
  using load_servers_all [of stringList ds "[]" Irc_start garbage, OF sl] ds
  by (auto simp: irc_load_def irc_save_def Irc_start_def SignalVector_def)

theorem saved_servers_load_witness:
  "\<exists>w. irc_load (\<lambda>v. map (json_toString []) (toArray v)) 0 (irc_save [IrcServerData 1, IrcServerData 2]) Irc_start = Some w \<and>
    sv_items (irc_connections w) = [IrcServerData 1, IrcServerData 2]"
proof -
  have "map (json_toString []) (toArray (QArray (map QString ss))) = ss" for ss by (simp add: map_idI)
  from saved_servers_load [of "\<lambda>v. map (json_toString []) (toArray v)", OF this, of "[IrcServerData 1, IrcServerData 2]" 0]
  show ?thesis by (auto simp: data_ok_def IrcServerData_def is_int32_def Anonymous_def)
qed

section \<open>Joining\<close>

definition join_line :: "qstring \<Rightarrow> qstring" where
  "join_line = raw_target ''JOIN''"

lemma actuallyJoin_simps [simp]:
  "srv_channels (actuallyJoin n sv) = srv_channels sv" "srv_bucket (actuallyJoin n sv) = srv_bucket sv"
  by (simp_all add: actuallyJoin_def sendRaw_def)

lemma fold_actuallyJoin:
  "srv_channels (fold actuallyJoin ns sv) = srv_channels sv \<and> srv_bucket (fold actuallyJoin ns sv) = srv_bucket sv \<and>
   set (srv_raw sv) \<subseteq> set (srv_raw (fold actuallyJoin ns sv)) \<and>
   (\<forall>n \<in> set ns. n \<noteq> [] \<and> map_of (srv_channels sv) n \<noteq> None \<longrightarrow> join_line n \<in> set (srv_raw (fold actuallyJoin ns sv)))"
proof (induction ns arbitrary: sv)
  case (Cons n ns)
  have "set (srv_raw sv) \<subseteq> set (srv_raw (actuallyJoin n sv))"
    "n \<noteq> [] \<and> map_of (srv_channels sv) n \<noteq> None \<longrightarrow> join_line n \<in> set (srv_raw (actuallyJoin n sv))"
    by (auto simp: actuallyJoin_def sendRaw_def join_line_def)
  then show ?case using Cons [of "actuallyJoin n sv"] by auto
qed simp

text \<open>Every name the bucket has let through since a moment was joined, if it is a channel of the server.\<close>

definition joined :: "nat \<Rightarrow> irc_server \<Rightarrow> bool" where
  "joined k sv \<longleftrightarrow> (\<forall>n \<in> set (drop k (called (srv_bucket sv))). n \<noteq> [] \<and> map_of (srv_channels sv) n \<noteq> None \<longrightarrow>
     join_line n \<in> set (srv_raw sv))"

lemma with_bucket_props:
  assumes b: "f (srv_bucket sv) = b" "called b = called (srv_bucket sv) @ xs"
  shows "srv_channels (with_bucket f sv) = srv_channels sv" "srv_bucket (with_bucket f sv) = b"
    "joined k sv \<Longrightarrow> k \<le> length (called (srv_bucket sv)) \<Longrightarrow> joined k (with_bucket f sv)"
  using fold_actuallyJoin [of xs "sv\<lparr>srv_bucket := b\<rparr>"] b
  by (auto simp: with_bucket_def Let_def joined_def)

lemma handleOne_called: "\<exists>xs. called (handleOne b) = called b @ xs"
  by (auto simp: handleOne_def split: list.split)

lemma bucket_called:
  "\<exists>xs. called (bucket_send n b) = called b @ xs" "\<exists>xs. called (bucket_timer b) = called b @ xs"
  using handleOne_called [of "b\<lparr>queue' := queue' b @ [n]\<rparr>"] handleOne_called [of "b\<lparr>timers := timers b - 1, budget := budget b + 1\<rparr>"]
  by (auto simp: bucket_send_def bucket_timer_def Let_def)

lemma called_length: "called b' = called b @ xs \<Longrightarrow> k \<le> length (called b) \<Longrightarrow> k \<le> length (called b')"
  by simp

definition join_inv :: "nat \<Rightarrow> qstring list \<Rightarrow> nat \<Rightarrow> (qstring \<times> nat) list \<Rightarrow> irc_server \<Rightarrow> bool" where
  "join_inv n cs k chans sv \<longleftrightarrow> bucket_inv n cs (srv_bucket sv) \<and> k \<le> length (called (srv_bucket sv)) \<and>
     joined k sv \<and> srv_channels sv = chans"

lemma join_inv_send: "join_inv n cs k chans sv \<Longrightarrow> join_inv n (cs @ [c]) k chans (joinBucket_send c sv)"
  using bucket_called(1) [of c "srv_bucket sv"] with_bucket_props [of "bucket_send c" sv "bucket_send c (srv_bucket sv)"]
    bucket_send_inv [of n cs "srv_bucket sv" c]
  by (auto simp: join_inv_def joinBucket_send_def)

lemma join_inv_sends: "join_inv n cs k chans sv \<Longrightarrow> join_inv n (cs @ ns) k chans (fold joinBucket_send ns sv)"
proof (induction ns arbitrary: cs sv)
  case (Cons c ns)
  then show ?case using join_inv_send [of n cs k chans sv c] by fastforce
qed simp

lemma join_inv_timer: "join_inv n cs k chans sv \<Longrightarrow> join_inv n cs k chans (joinBucket_timer sv)"
  using bucket_called(2) [of "srv_bucket sv"] with_bucket_props [of bucket_timer sv "bucket_timer (srv_bucket sv)"]
    bucket_timer_inv [of n cs "srv_bucket sv"]
  by (auto simp: join_inv_def joinBucket_timer_def)

lemma join_timers_drain:
  "join_inv n cs k chans sv \<Longrightarrow> 0 < n \<Longrightarrow> join_inv n cs k chans ((joinBucket_timer ^^ length (queue' (srv_bucket sv))) sv) \<and>
   queue' (srv_bucket ((joinBucket_timer ^^ length (queue' (srv_bucket sv))) sv)) = []"
proof (induction "length (queue' (srv_bucket sv))" arbitrary: sv)
  case 0
  then show ?case by simp
next
  case (Suc m)
  have t: "timers (srv_bucket sv) \<noteq> 0" using Suc.hyps(2) Suc.prems by (auto simp: join_inv_def bucket_inv_def)
  then have "srv_bucket (joinBucket_timer sv) = bucket_timer (srv_bucket sv)"
    using bucket_called(2) [of "srv_bucket sv"] with_bucket_props(2) [of bucket_timer sv "bucket_timer (srv_bucket sv)"]
    by (auto simp: joinBucket_timer_def)
  then have "m = length (queue' (srv_bucket (joinBucket_timer sv)))"
    using Suc.hyps(2) by (cases "queue' (srv_bucket sv)") (auto simp: bucket_timer_def handleOne_def)
  from Suc.hyps(1) [OF this join_inv_timer [OF Suc.prems(1)] Suc.prems(2)] this Suc.hyps(2) [symmetric]
  show ?case by (simp add: funpow_swap1 del: funpow.simps) (simp add: funpow_Suc_right del: funpow.simps)
qed

lemma live_listed: "objs c = Some co \<Longrightarrow> (n, c) \<in> set es \<Longrightarrow> c \<in> set (List.map_filter (lock objs) (map snd es))"
  by (induction es) (auto simp: List.map_filter_simps lock_def split: option.splits)

text \<open>
  A connection that is (re)established joins every channel of the server that is open: after as many
  ticks of the join limit as there are names waiting, the line that joins the channel has been sent.
\<close>

theorem connecting_joins_all:
  assumes b: "bucket_inv 18 cs (srv_bucket sv)" and n: "names_ok objs sv"
    and c: "map_of (srv_channels sv) name = Some c" "objs c \<noteq> None" "name \<noteq> []"
    and sv': "sv' = fst (onReadConnected B platform now sv objs)"
  shows "raw_target ''JOIN'' name \<in>
    set (srv_raw ((joinBucket_timer ^^ length (queue' (srv_bucket sv'))) sv'))"
proof -
  let ?k = "length (called (srv_bucket sv))"
  define ns where "ns = map (\<lambda>c. ch_name (co_channel (the (objs c)))) (live_channels objs sv)"
  have "join_inv 18 cs ?k (srv_channels sv) (sv\<lparr>srv_connected := True\<rparr>)"
    using b by (simp add: join_inv_def joined_def)
  then have i: "join_inv 18 (cs @ ns) ?k (srv_channels sv) sv'"
    using join_inv_sends unfolding sv' onReadConnected_def Let_def ns_def by fastforce
  let ?t = "(joinBucket_timer ^^ length (queue' (srv_bucket sv'))) sv'"
  have t: "join_inv 18 (cs @ ns) ?k (srv_channels sv) ?t" "queue' (srv_bucket ?t) = []"
    using join_timers_drain [OF i] by simp_all
  have "called (srv_bucket ?t) = cs @ ns" using t by (simp add: join_inv_def bucket_inv_def)
  moreover have "cs = called (srv_bucket sv) @ queue' (srv_bucket sv)" using b by (simp add: bucket_inv_def)
  ultimately have "set ns \<subseteq> set (drop ?k (called (srv_bucket ?t)))" by simp
  moreover have "name \<in> set ns"
  proof -
    obtain co where co: "objs c = Some co" using c(2) by blast
    have "(name, c) \<in> set (srv_channels sv)" using c(1) by (rule map_of_SomeD)
    then have "ch_name (co_channel co) = name" using n co by (fastforce simp: names_ok_def)
    moreover have "c \<in> set (live_channels objs sv)"
      using \<open>(name, c) \<in> set (srv_channels sv)\<close> co
      by (simp add: live_channels_def getChannels_def live_listed)
    ultimately have "ch_name (co_channel co) = name" "c \<in> set (live_channels objs sv)" by blast+
    then show ?thesis using co by (force simp: ns_def)
  qed
  ultimately have "join_line name \<in> set (srv_raw ?t)" using t(1) c(1,3) unfolding join_inv_def joined_def by auto
  then show ?thesis by (simp add: join_line_def)
qed

theorem connecting_joins_all_witness:
  "\<exists>sv'. sv' = fst (onReadConnected undefined None 0 (AbstractIrcServer\<lparr>srv_channels := [(''a'', 0)]\<rparr>) (irc_objects one_channel)) \<and>
    ''JOIN #a'' \<in> set (srv_raw ((joinBucket_timer ^^ length (queue' (srv_bucket sv'))) sv'))"
proof -
  let ?sv = "AbstractIrcServer\<lparr>srv_channels := [(''a'', 0)]\<rparr>"
  have "bucket_inv 18 [] (srv_bucket ?sv)" "names_ok (irc_objects one_channel) ?sv"
    "map_of (srv_channels ?sv) ''a'' = Some 0" "irc_objects one_channel 0 \<noteq> None"
    by (simp_all add: one_channel_def names_ok_def AbstractIrcServer_def bucket_inv_def RatelimitBucket_def JOIN_RATELIMIT_BUDGET_def)
  from connecting_joins_all [OF this _ refl, of undefined None 0]
  show ?thesis by (intro exI [of _ "fst (onReadConnected undefined None 0 ?sv (irc_objects one_channel))"])
    (simp add: raw_target_def)
qed

section \<open>The table of channels\<close>

text \<open>
  A channel that was added is found again, by each of its names, as long as cleaning its name once more
  changes nothing.
\<close>

lemma added_channel_found:
  assumes g: "getOrAddChannel cls n dirty objs sv = (c, objs', sv')" and q: "qmap_ok (srv_channels sv)"
    and clean: "cleanChannelName cls (cleanChannelName cls dirty) = cleanChannelName cls dirty"
  shows "getOrAddChannel cls n' dirty objs' sv' = (c, objs', sv')"
proof -
  let ?n = "cleanChannelName cls dirty"
  have keep: "srv_channels (joinBucket_send x s) = srv_channels s" for x s
    using bucket_called(1) [of x "srv_bucket s"] with_bucket_props(1) [of "bucket_send x" s "bucket_send x (srv_bucket s)"]
    by (auto simp: joinBucket_send_def)
  show ?thesis
  proof (cases "getChannelOrEmpty cls objs sv ?n")
    case (Some c')
    then show ?thesis using g by (auto simp: getOrAddChannel_def Let_def)
  next
    case None
    then have custom: "getCustomChannel cls ?n = None" using clean
      by (auto simp: getChannelOrEmpty_def Let_def split: option.splits)
    have "map_of (srv_channels sv') ?n = Some n" "c = n" "objs' n \<noteq> None"
      using g None q keep by (auto simp: getOrAddChannel_def Let_def)
    then show ?thesis using custom clean by (auto simp: getOrAddChannel_def getChannelOrEmpty_def lock_def Let_def)
  qed
qed

text \<open>
  A name that starts with \<open>##\<close> is cleaned once when the channel is entered and twice when it is looked for:
  a second channel is made for it.
\<close>

lemma double_hash_not_found:
  "let cls = irc_class undefined 10 1;
       (c, objs, sv) = getOrAddChannel cls 0 ''##a'' (\<lambda>_. None) AbstractIrcServer
   in fst (getOrAddChannel cls 1 ''##a'' objs sv) \<noteq> c"
  by (simp add: getOrAddChannel_def getChannelOrEmpty_def irc_class_def abstract_cleanChannelName_def AbstractIrcServer_def Let_def)

text \<open>Two splits that ask for a channel of a server that is gone get two channels; only one comes back.\<close>

lemma abandoned_channel_twice:
  "let (c, w) = irc_getOrAddChannel undefined 10 1 ''a'' Irc_start; (c', w') = irc_getOrAddChannel undefined 10 1 ''a'' w;
       sv = restored_server (irc_objects w') [c, c']
   in c \<noteq> c' \<and> srv_channels sv = [(''a'', c')]"
  by (simp add: irc_getOrAddChannel_def Irc_start_def restored_server_def AbstractIrcServer_def new_channel_def erase_key_def)

text \<open>A fresh id is used by no server and no abandoned channels.\<close>

lemma free_id_fresh: "free_id used i \<notin> set used \<and> i \<le> free_id used i"
  by (induction used i rule: free_id.induct) (subst (1 2) free_id.simps, auto)

lemma uniqueId_fresh: "fst (uniqueId w) \<notin> set (used_ids w)"
  by (simp add: uniqueId_def Let_def free_id_fresh)

end
