(* ===== verification/Notebook_Model.thy ===== *)
theory Notebook_Model
  imports Prelude
begin

text \<open>
  The tabs of a window: the pages of \<open>widgets/Notebook.cpp\<close> and which of them is selected. A page is its
  pointer; next to the selected page the model keeps which tabs are shown as selected and which pages are
  visible, two facts the code changes one by one. Positions and sizes of the tabs are left out.
\<close>

record 'p notebook =
  items :: "'p list"
  selectedPage :: "'p option"
  tab_selected :: "'p \<Rightarrow> bool"
  page_visible :: "'p \<Rightarrow> bool"
  layoutLocked :: bool

definition Notebook :: "'p notebook" where
  "Notebook = \<lparr>items = [], selectedPage = None, tab_selected = (\<lambda>_. False), page_visible = (\<lambda>_. False), layoutLocked = False\<rparr>"

definition containsPage :: "'p \<Rightarrow> 'p notebook \<Rightarrow> bool" where
  "containsPage page nb \<longleftrightarrow> list_ex (\<lambda>p. p = page) (items nb)"

definition indexOf :: "'p \<Rightarrow> 'p notebook \<Rightarrow> int" where
  "indexOf page nb = (case find_index (\<lambda>p. p = page) (items nb) of Some i \<Rightarrow> int i | None \<Rightarrow> -1)"

text \<open>Selecting a page that is not in the notebook fails an assertion, as does a selected page that is not.\<close>

definition select_page :: "'p option \<Rightarrow> 'p notebook \<Rightarrow> 'p notebook option" where
  "select_page page nb =
     (if page = selectedPage nb then Some nb
      else
        case (case page of
                None \<Rightarrow> Some nb
              | Some p \<Rightarrow>
                  if containsPage p nb
                  then Some (nb\<lparr>page_visible := (page_visible nb)(p := True), tab_selected := (tab_selected nb)(p := True)\<rparr>)
                  else None) of
          None \<Rightarrow> None
        | Some nb1 \<Rightarrow>
            (case selectedPage nb1 of
               None \<Rightarrow> Some (nb1\<lparr>selectedPage := page\<rparr>)
             | Some old \<Rightarrow>
                 if containsPage old nb1
                 then Some (nb1\<lparr>page_visible := (page_visible nb1)(old := False),
                        tab_selected := (tab_selected nb1)(old := False), selectedPage := page\<rparr>)
                 else None))"

definition addPage :: "'p \<Rightarrow> bool \<Rightarrow> 'p notebook \<Rightarrow> 'p notebook option" where
  "addPage page select nb =
     (let nb1 = nb\<lparr>items := items nb @ [page], page_visible := (page_visible nb)(page := False)\<rparr>
      in if select \<or> length (items nb1) = 1 then select_page (Some page) nb1 else Some nb1)"

text \<open>A neighbour of the removed page is selected, whichever page was selected before.\<close>

definition removePage :: "'p \<Rightarrow> 'p notebook \<Rightarrow> 'p notebook option" where
  "removePage page nb =
     (case find_index (\<lambda>p. p = page) (items nb) of
        None \<Rightarrow> Some nb
      | Some i \<Rightarrow>
          map_option (\<lambda>nb1. nb1\<lparr>items := remove_at i (items nb1)\<rparr>)
            (if length (items nb) = 1 then select_page None nb
             else if Suc i = length (items nb) then select_page (Some (items nb ! (i - 1))) nb
             else select_page (Some (items nb ! Suc i)) nb))"

definition removeCurrentPage :: "'p notebook \<Rightarrow> 'p notebook option" where
  "removeCurrentPage nb = (case selectedPage nb of Some p \<Rightarrow> removePage p nb | None \<Rightarrow> Some nb)"

definition selectIndex :: "int \<Rightarrow> 'p notebook \<Rightarrow> 'p notebook option" where
  "selectIndex index nb =
     (if index < 0 \<or> int (length (items nb)) \<le> index then Some nb else select_page (Some (items nb ! nat index)) nb)"

definition selected_index :: "'p notebook \<Rightarrow> int" where
  "selected_index nb = (case selectedPage nb of Some p \<Rightarrow> indexOf p nb | None \<Rightarrow> -1)"

definition selectNextTab :: "'p notebook \<Rightarrow> 'p notebook option" where
  "selectNextTab nb =
     (if length (items nb) \<le> 1 then Some nb
      else select_page (Some (items nb ! nat ((selected_index nb + 1) mod int (length (items nb))))) nb)"

definition selectPreviousTab :: "'p notebook \<Rightarrow> 'p notebook option" where
  "selectPreviousTab nb =
     (if length (items nb) \<le> 1 then Some nb
      else let i = selected_index nb - 1; index = (if i < 0 then i + int (length (items nb)) else i)
           in select_page (Some (items nb ! nat index)) nb)"

definition selectLastTab :: "'p notebook \<Rightarrow> 'p notebook option" where
  "selectLastTab nb =
     (if length (items nb) \<le> 1 then Some nb else select_page (Some (items nb ! (length (items nb) - 1))) nb)"

text \<open>\<open>QList::move\<close>; both indices must be inside of the list.\<close>

definition rearrangePage :: "'p \<Rightarrow> nat \<Rightarrow> 'p notebook \<Rightarrow> 'p notebook option" where
  "rearrangePage page index nb =
     (if layoutLocked nb then Some nb
      else case find_index (\<lambda>p. p = page) (items nb) of
        None \<Rightarrow> None
      | Some i \<Rightarrow> if index < length (items nb) then Some (nb\<lparr>items := insert_at index page (remove_at i (items nb))\<rparr>) else None)"

section \<open>The selected tab\<close>

definition notebook_ok :: "'p notebook \<Rightarrow> bool" where
  "notebook_ok nb \<longleftrightarrow> distinct (items nb) \<and>
     (case selectedPage nb of None \<Rightarrow> items nb = [] | Some p \<Rightarrow> p \<in> set (items nb)) \<and>
     (\<forall>p \<in> set (items nb). (tab_selected nb p \<longleftrightarrow> selectedPage nb = Some p) \<and> (page_visible nb p \<longleftrightarrow> selectedPage nb = Some p))"

lemma containsPage_in [simp]: "containsPage p nb \<longleftrightarrow> p \<in> set (items nb)"
  by (auto simp: containsPage_def list_ex_iff)

lemma select_page_ok:
  assumes "notebook_ok nb" "p \<in> set (items nb)"
  shows "\<exists>nb'. select_page (Some p) nb = Some nb' \<and> notebook_ok nb' \<and> items nb' = items nb \<and> selectedPage nb' = Some p \<and>
    layoutLocked nb' = layoutLocked nb"
  using assms by (auto simp: select_page_def notebook_ok_def split: option.splits)

lemma select_nth_ok:
  "notebook_ok nb \<Longrightarrow> i < length (items nb) \<Longrightarrow> \<exists>nb'. select_page (Some (items nb ! i)) nb = Some nb' \<and> notebook_ok nb'"
  using select_page_ok [of nb "items nb ! i"] by auto

datatype 'p notebook_op = Add 'p bool | Remove 'p | Remove_current | Select_index int | Next | Previous | Last | Rearrange 'p nat

fun notebook_exec :: "'p notebook_op \<Rightarrow> 'p notebook \<Rightarrow> 'p notebook option" where
  "notebook_exec (Add p s) nb = addPage p s nb"
| "notebook_exec (Remove p) nb = removePage p nb"
| "notebook_exec Remove_current nb = removeCurrentPage nb"
| "notebook_exec (Select_index i) nb = selectIndex i nb"
| "notebook_exec Next nb = selectNextTab nb"
| "notebook_exec Previous nb = selectPreviousTab nb"
| "notebook_exec Last nb = selectLastTab nb"
| "notebook_exec (Rearrange p i) nb = rearrangePage p i nb"

text \<open>Pages that are added are new; a page is moved to an index of the notebook.\<close>

fun notebook_op_ok :: "'p notebook_op \<Rightarrow> 'p notebook \<Rightarrow> bool" where
  "notebook_op_ok (Add p s) nb \<longleftrightarrow> p \<notin> set (items nb) \<and> \<not> tab_selected nb p"
| "notebook_op_ok (Rearrange p i) nb \<longleftrightarrow> p \<in> set (items nb) \<and> i < length (items nb)"
| "notebook_op_ok _ nb \<longleftrightarrow> True"

lemma selected_index_bounds:
  assumes "notebook_ok nb" "1 < length (items nb)"
  shows "0 \<le> selected_index nb \<and> selected_index nb < int (length (items nb))"
proof -
  obtain p where p: "selectedPage nb = Some p" "p \<in> set (items nb)" using assms by (auto simp: notebook_ok_def split: option.splits)
  then obtain i where "find_index (\<lambda>q. q = p) (items nb) = Some i" by fastforce
  then show ?thesis using p find_index_less by (fastforce simp: selected_index_def indexOf_def)
qed

lemma removePage_ok:
  assumes ok: "notebook_ok nb"
  shows "\<exists>nb'. removePage p nb = Some nb' \<and> notebook_ok nb'"
proof (cases "find_index (\<lambda>q. q = p) (items nb)")
  case None
  show ?thesis unfolding removePage_def None using ok by simp
next
  case (Some i)
  then have i: "i < length (items nb)" "items nb ! i = p" by (auto dest: find_index_SomeD)
  have d: "distinct (items nb)" using ok by (simp add: notebook_ok_def)
  show ?thesis
  proof (cases "length (items nb) = 1")
    case True
    then have "items nb = [p]" using i by (cases "items nb") auto
    then show ?thesis using ok Some by (auto simp: removePage_def select_page_def notebook_ok_def remove_at_def split: option.splits)
  next
    case False
    define j where "j = (if Suc i = length (items nb) then i - 1 else Suc i)"
    have j: "j < length (items nb)" "j \<noteq> i" using False i by (auto simp: j_def)
    let ?q = "items nb ! j"
    have q: "?q \<in> set (items nb)" "?q \<noteq> p" using j i d by (auto simp: nth_eq_iff_index_eq)
    obtain nb1 where nb1: "select_page (Some ?q) nb = Some nb1" "notebook_ok nb1" "items nb1 = items nb" "selectedPage nb1 = Some ?q"
      using select_page_ok [OF ok q(1)] by auto
    have s: "set (remove_at i (items nb)) = set (items nb) - {p}"
      using mset_remove_at [OF i(1)] i(2) d by (metis distinct_remove1 mset_remove1 mset_eq_setD add_mset_remove_trivial set_remove1_eq)
    have "removePage p nb = Some (nb1\<lparr>items := remove_at i (items nb1)\<rparr>)"
      using Some False nb1(1) by (auto simp: removePage_def j_def)
    moreover have "notebook_ok (nb1\<lparr>items := remove_at i (items nb1)\<rparr>)"
      using nb1 s q d by (auto simp: notebook_ok_def)
    ultimately show ?thesis by blast
  qed
qed

text \<open>
  In every window, whatever is added, closed, moved or selected, exactly one page is selected while
  there is one, exactly its tab is shown as selected and exactly it is visible, and no assertion fails.
\<close>

theorem one_tab_selected:
  assumes ok: "notebook_ok nb" "notebook_op_ok op nb"
  shows "\<exists>nb'. notebook_exec op nb = Some nb' \<and> notebook_ok nb'"
proof (cases op)
  case (Add p s)
  let ?nb = "nb\<lparr>items := items nb @ [p], page_visible := (page_visible nb)(p := False)\<rparr>"
  show ?thesis
  proof (cases "s \<or> items nb = []")
    case True
    then show ?thesis using ok Add
      by (auto simp: addPage_def select_page_def notebook_ok_def Let_def split: option.splits)
  next
    case False
    then show ?thesis using ok Add by (auto simp: addPage_def notebook_ok_def Let_def split: option.splits)
  qed
next
  case (Remove p)
  then show ?thesis using removePage_ok [OF ok(1)] by simp
next
  case Remove_current
  then show ?thesis using removePage_ok [OF ok(1)] ok(1) by (auto simp: removeCurrentPage_def split: option.split)
next
  case (Select_index i)
  then show ?thesis using ok(1) select_page_ok [OF ok(1), of "items nb ! nat i"] by (auto simp: selectIndex_def)
next
  case Next
  show ?thesis
  proof (cases "length (items nb) \<le> 1")
    case False
    then have "nat ((selected_index nb + 1) mod int (length (items nb))) < length (items nb)"
      using pos_mod_bound [of "int (length (items nb))" "selected_index nb + 1"]
        pos_mod_sign [of "int (length (items nb))" "selected_index nb + 1"] by linarith
    then show ?thesis using select_nth_ok [OF ok(1)] Next False by (simp add: selectNextTab_def)
  qed (use Next ok in \<open>simp add: selectNextTab_def\<close>)
next
  case Previous
  show ?thesis
  proof (cases "length (items nb) \<le> 1")
    case False
    let ?i = "selected_index nb - 1"
    have "nat (if ?i < 0 then ?i + int (length (items nb)) else ?i) < length (items nb)"
      using selected_index_bounds [OF ok(1)] False by auto
    then show ?thesis using select_nth_ok [OF ok(1)] Previous False by (simp add: selectPreviousTab_def Let_def)
  qed (use Previous ok in \<open>simp add: selectPreviousTab_def\<close>)
next
  case Last
  show ?thesis
  proof (cases "length (items nb) \<le> 1")
    case False
    then show ?thesis using select_page_ok [OF ok(1), of "items nb ! (length (items nb) - 1)"] Last by (auto simp: selectLastTab_def)
  qed (use Last ok in \<open>simp add: selectLastTab_def\<close>)
next
  case (Rearrange p i)
  show ?thesis
  proof (cases "layoutLocked nb")
    case True
    then show ?thesis using Rearrange ok by (simp add: rearrangePage_def)
  next
    case False
    have "find_index (\<lambda>q. q = p) (items nb) \<noteq> None" using ok(2) Rearrange unfolding find_index_None by auto
    then obtain j where j: "find_index (\<lambda>q. q = p) (items nb) = Some j" "j < length (items nb)" "items nb ! j = p"
      using find_index_SomeD by fastforce
    have m: "mset (insert_at i p (remove_at j (items nb))) = mset (items nb)"
      using mset_remove_at [OF j(2)] j(3) by simp
    then obtain xs where xs: "insert_at i p (remove_at j (items nb)) = xs" "mset xs = mset (items nb)" by blast
    have "set xs = set (items nb)" "distinct xs"
      using mset_eq_setD [OF xs(2)] mset_eq_imp_distinct_iff [OF xs(2)] ok(1) by (simp_all add: notebook_ok_def)
    then have "notebook_ok (nb\<lparr>items := xs\<rparr>)" using ok(1) by (cases "selectedPage nb") (auto simp: notebook_ok_def)
    moreover have "i < length (items nb)" using ok(2) Rearrange by simp
    ultimately show ?thesis using Rearrange j(1) False xs(1) by (simp add: rearrangePage_def)
  qed
qed

theorem one_tab_selected_witness:
  "\<exists>nb'. notebook_exec (Add (1 :: nat) False) Notebook = Some nb' \<and> notebook_ok nb'"
  by (rule one_tab_selected) (simp_all add: Notebook_def notebook_ok_def)

end
