(* ===== verification/Window_Layout.thy ===== *)
theory Window_Layout
  imports Split_Tree Notebook_Model Qt_Json Channels Filters
begin

text \<open>
  How the windows are stored and come back: the descriptors of \<open>common/WindowDescriptors.cpp\<close>, writing in
  \<open>singletons/WindowManager.cpp\<close> (\<open>save\<close>, \<open>encodeTab\<close>, \<open>encodeNodeRecursively\<close>, \<open>encodeChannel\<close>), reading back
  (\<open>loadFromFile\<close>), and building the windows from it (\<open>applyWindowLayout\<close>,
  \<open>SplitContainer::applyFromDescriptor\<close>).

  A channel is any type with the observations \<open>channel_view\<close> and the ways to get one \<open>channel_source\<close>; the
  theory of the IRC servers provides them. A split is an address with what it shows. The texts of ids are
  Qt's, and parameters.
\<close>

section \<open>Descriptors\<close>

record split_descriptor =
  sd_type :: qstring
  sd_channelName :: qstring
  sd_server :: int
  sd_moderationMode :: bool
  sd_filters :: "quuid list"

datatype node_descriptor =
    SplitNodeDescriptor split_descriptor rat rat
  | ContainerNodeDescriptor rat rat bool "node_descriptor list"

record tab_descriptor =
  td_customTitle :: qstring
  td_selected :: bool
  td_highlightsEnabled :: bool
  td_rootNode :: "node_descriptor option"

datatype window_type = MainWindow | PopupWindow | AttachedWindow

datatype window_state = WNone | Minimized | Maximized

type_synonym rect = "int \<times> int \<times> int \<times> int"

record window_descriptor =
  wd_type :: window_type
  wd_state :: window_state
  wd_geometry :: rect
  wd_tabs :: "tab_descriptor list"

record window_layout =
  wl_emotePopupPos :: "int \<times> int"
  wl_windows :: "window_descriptor list"

section \<open>Reading\<close>

definition loadFilters :: "(qstring \<Rightarrow> quuid) \<Rightarrow> qjson \<Rightarrow> quuid list" where
  "loadFilters parseUuid v = (if v \<noteq> QUndefined then map (\<lambda>i. parseUuid (json_toString [] i)) (toArray v) else [])"

definition split_loadFromJSON :: "(qstring \<Rightarrow> quuid) \<Rightarrow> qobject \<Rightarrow> qobject \<Rightarrow> split_descriptor" where
  "split_loadFromJSON parseUuid rootObj data =
     \<lparr>sd_type = json_toString [] (json_value data ''type''),
      sd_channelName = (if json_contains data ''channel'' then json_toString [] (json_value data ''channel'')
        else json_toString [] (json_value data ''name'')),
      sd_server = json_toInt (-1) (json_value data ''server''),
      sd_moderationMode = json_toBool False (json_value rootObj ''moderationMode''),
      sd_filters = loadFilters parseUuid (json_value rootObj ''filters'')\<rparr>"

definition loadSplitNode :: "(qstring \<Rightarrow> quuid) \<Rightarrow> qobject \<Rightarrow> node_descriptor" where
  "loadSplitNode parseUuid rootObj =
     SplitNodeDescriptor (split_loadFromJSON parseUuid rootObj (toObject (json_value rootObj ''data'')))
       (json_toDouble 1 (json_value rootObj ''flexh'')) (json_toDouble 1 (json_value rootObj ''flexv''))"

text \<open>Every item that is not a split is read as a container.\<close>

function loadContainerNode :: "(qstring \<Rightarrow> quuid) \<Rightarrow> qobject \<Rightarrow> node_descriptor" where
  "loadContainerNode parseUuid rootObj =
     ContainerNodeDescriptor (json_toDouble 1 (json_value rootObj ''flexh'')) (json_toDouble 1 (json_value rootObj ''flexv''))
       (json_toString [] (json_value rootObj ''type'') = ''vertical'')
       (map (\<lambda>v. let obj = toObject v in
           if json_value obj ''type'' = QString ''split'' then loadSplitNode parseUuid obj else loadContainerNode parseUuid obj)
         (toArray (json_value rootObj ''items'')))"
  by auto
termination
proof (relation "measure (\<lambda>(p, obj). size (QObject obj))")
  fix p :: "qstring \<Rightarrow> quuid" and rootObj v obj
  assume v: "v \<in> set (toArray (json_value rootObj ''items''))" and obj: "obj = toObject v"
  obtain vs where vs: "map_of rootObj ''items'' = Some (QArray vs)" "v \<in> set vs"
    using v by (cases "map_of rootObj ''items''"; cases "json_value rootObj ''items''") (auto simp: json_value_def)
  have "size (QObject obj) \<le> max (size v) 1" unfolding obj by (cases v) auto
  also have "\<dots> < size (QObject rootObj)" using map_of_size [OF vs(1)] array_size [OF vs(2)] by simp
  finally show "((p, obj), p, rootObj) \<in> measure (\<lambda>(p, obj). size (QObject obj))" by simp
qed simp

declare loadContainerNode.simps [simp del]

definition tab_loadFromJSON :: "(qstring \<Rightarrow> quuid) \<Rightarrow> qobject \<Rightarrow> tab_descriptor" where
  "tab_loadFromJSON parseUuid tabObj =
     (let splitRoot = toObject (json_value tabObj ''splits2'');
          nodeType = json_toString [] (json_value splitRoot ''type'')
      in \<lparr>td_customTitle = json_toString [] (json_value tabObj ''title''),
          td_selected = json_toBool False (json_value tabObj ''selected''),
          td_highlightsEnabled = json_toBool True (json_value tabObj ''highlightsEnabled''),
          td_rootNode =
            (if splitRoot = [] then None
             else if nodeType = ''split'' then Some (loadSplitNode parseUuid splitRoot)
             else if nodeType = ''horizontal'' \<or> nodeType = ''vertical'' then Some (loadContainerNode parseUuid splitRoot)
             else None)\<rparr>)"

text \<open>The loop over the tabs of a window: a second selected tab is not.\<close>

fun load_tabs :: "(qstring \<Rightarrow> quuid) \<Rightarrow> bool \<Rightarrow> qjson list \<Rightarrow> tab_descriptor list" where
  "load_tabs parseUuid hasSetASelectedTab [] = []"
| "load_tabs parseUuid hasSetASelectedTab (v # vs) =
     (let tab = tab_loadFromJSON parseUuid (toObject v) in
      if td_selected tab
      then (if hasSetASelectedTab then tab\<lparr>td_selected := False\<rparr> else tab) # load_tabs parseUuid True vs
      else tab # load_tabs parseUuid hasSetASelectedTab vs)"

definition load_window :: "(qstring \<Rightarrow> quuid) \<Rightarrow> bool \<Rightarrow> qobject \<Rightarrow> window_descriptor" where
  "load_window parseUuid hasSetAMainWindow windowObj =
     \<lparr>wd_type = (if json_toString [] (json_value windowObj ''type'') = ''main'' \<and> \<not> hasSetAMainWindow then MainWindow else PopupWindow),
      wd_state =
        (if json_value windowObj ''state'' = QString ''minimized'' then Minimized
         else if json_value windowObj ''state'' = QString ''maximized'' then Maximized else WNone),
      wd_geometry = (json_toInt (-1) (json_value windowObj ''x''), json_toInt (-1) (json_value windowObj ''y''),
        json_toInt (-1) (json_value windowObj ''width''), json_toInt (-1) (json_value windowObj ''height'')),
      wd_tabs = load_tabs parseUuid False (toArray (json_value windowObj ''tabs''))\<rparr>"

text \<open>The position of the emote popup is the one of the last window.\<close>

fun load_windows :: "(qstring \<Rightarrow> quuid) \<Rightarrow> bool \<Rightarrow> qjson list \<Rightarrow> window_layout \<Rightarrow> window_layout" where
  "load_windows parseUuid hasSetAMainWindow [] layout = layout"
| "load_windows parseUuid hasSetAMainWindow (v # vs) layout =
     (let windowObj = toObject v;
          window = load_window parseUuid hasSetAMainWindow windowObj;
          popup = toObject (json_value windowObj ''emotePopup'')
      in load_windows parseUuid (hasSetAMainWindow \<or> json_toString [] (json_value windowObj ''type'') = ''main'') vs
           (layout\<lparr>wl_emotePopupPos := (json_toInt 0 (json_value popup ''x''), json_toInt 0 (json_value popup ''y'')),
              wl_windows := wl_windows layout @ [window]\<rparr>))"

text \<open>\<open>loadFromFile\<close>, from the object the file holds.\<close>

definition loadFromFile :: "(qstring \<Rightarrow> quuid) \<Rightarrow> qobject \<Rightarrow> window_layout" where
  "loadFromFile parseUuid file =
     load_windows parseUuid False (toArray (json_value file ''windows'')) \<lparr>wl_emotePopupPos = (0, 0), wl_windows = []\<rparr>"

section \<open>Writing\<close>

record 'c channel_view =
  cv_type :: "'c \<Rightarrow> channel_type"
  cv_name :: "'c \<Rightarrow> qstring"
  cv_server :: "'c \<Rightarrow> int option"

text \<open>What a split shows: a channel directly, or whichever channel is being watched.\<close>

datatype 'c shown = DirectTo 'c | Watching

record 'c split_view =
  sp_channel :: "'c shown"
  sp_moderationMode :: bool
  sp_filters :: "quuid list"

type_synonym 'c split = "nat \<times> 'c split_view"

definition shown_type :: "'c channel_view \<Rightarrow> 'c shown \<Rightarrow> channel_type" where
  "shown_type cv s = (case s of DirectTo c \<Rightarrow> cv_type cv c | Watching \<Rightarrow> TwitchWatching)"

definition encodeChannel :: "'c channel_view \<Rightarrow> 'c shown \<Rightarrow> qobject" where
  "encodeChannel cv s =
     (case s of
        Watching \<Rightarrow> json_insert ''type'' (QString ''watching'') []
      | DirectTo c \<Rightarrow>
          (case cv_type cv c of
             Twitch \<Rightarrow> json_insert ''name'' (QString (cv_name cv c)) (json_insert ''type'' (QString ''twitch'') [])
           | TwitchMentions \<Rightarrow> json_insert ''type'' (QString ''mentions'') []
           | TwitchWatching \<Rightarrow> json_insert ''type'' (QString ''watching'') []
           | TwitchWhispers \<Rightarrow> json_insert ''type'' (QString ''whispers'') []
           | TwitchLive \<Rightarrow> json_insert ''type'' (QString ''live'') []
           | Irc \<Rightarrow>
               json_insert ''channel'' (QString (cv_name cv c))
                 (let obj = json_insert ''type'' (QString ''irc'') [] in
                  case cv_server cv c of Some i \<Rightarrow> json_insert ''server'' (json_int i) obj | None \<Rightarrow> obj)
           | _ \<Rightarrow> []))"

definition encodeFilters :: "(quuid \<Rightarrow> qstring) \<Rightarrow> quuid list \<Rightarrow> qjson list" where
  "encodeFilters uuidText filters = map (\<lambda>f. QString (uuidText f)) filters"

text \<open>A root without splits has flexes only.\<close>

fun encodeNode :: "(quuid \<Rightarrow> qstring) \<Rightarrow> 'c channel_view \<Rightarrow> 'c split node \<Rightarrow> qobject" where
  "encodeNode uuidText cv (Node h cs) =
     json_insert ''flexv'' (QDouble (nd_flexV h)) (json_insert ''flexh'' (QDouble (nd_flexH h))
       (case nd_type h of
          EmptyRoot \<Rightarrow> []
        | SplitNode \<Rightarrow>
            (case nd_split h of
               None \<Rightarrow> []
             | Some s \<Rightarrow>
                 json_insert ''filters'' (QArray (encodeFilters uuidText (sp_filters (snd s))))
                   (json_insert ''data'' (QObject (encodeChannel cv (sp_channel (snd s))))
                   (json_insert ''moderationMode'' (QBool (sp_moderationMode (snd s)))
                   (json_insert ''type'' (QString ''split'') []))))
        | ty \<Rightarrow>
            json_insert ''items'' (QArray (map (\<lambda>c. QObject (encodeNode uuidText cv c)) cs))
              (json_insert ''type'' (QString (if ty = HorizontalContainer then ''horizontal'' else ''vertical'')) [])))"

record 'c tab =
  tab_splits :: "'c split container"
  tab_customTitle :: qstring
  tab_highlightsEnabled :: bool

definition encodeTab :: "(quuid \<Rightarrow> qstring) \<Rightarrow> 'c channel_view \<Rightarrow> bool \<Rightarrow> 'c tab \<Rightarrow> qobject" where
  "encodeTab uuidText cv isSelected tab =
     (let obj1 = (if tab_customTitle tab \<noteq> [] then json_insert ''title'' (QString (tab_customTitle tab)) [] else []);
          obj2 = (if isSelected then json_insert ''selected'' (QBool True) obj1 else obj1);
          obj3 = json_insert ''highlightsEnabled'' (QBool (tab_highlightsEnabled tab)) obj2
      in json_insert ''splits2'' (QObject (encodeNode uuidText cv (baseNode (tab_splits tab)))) obj3)"

text \<open>A window: its notebook, whose pages are numbers, and their tabs.\<close>

record 'c window =
  win_type :: window_type
  win_maximized :: bool
  win_minimized :: bool
  win_bounds :: rect
  win_notebook :: "nat notebook"
  win_tab :: "nat \<Rightarrow> 'c tab"

definition save_window :: "(quuid \<Rightarrow> qstring) \<Rightarrow> 'c channel_view \<Rightarrow> int \<times> int \<Rightarrow> 'c window \<Rightarrow> qobject" where
  "save_window uuidText cv emotePopupPos window =
     (let obj1 = (case win_type window of
            MainWindow \<Rightarrow> json_insert ''type'' (QString ''main'') []
          | PopupWindow \<Rightarrow> json_insert ''type'' (QString ''popup'') []
          | AttachedWindow \<Rightarrow> []);
          obj2 = (if win_maximized window then json_insert ''state'' (QString ''maximized'') obj1
            else if win_minimized window then json_insert ''state'' (QString ''minimized'') obj1 else obj1);
          (x, y, width, height) = win_bounds window;
          obj3 = json_insert ''height'' (json_int height) (json_insert ''width'' (json_int width)
            (json_insert ''y'' (json_int y) (json_insert ''x'' (json_int x) obj2)));
          popup = json_insert ''y'' (json_int (snd emotePopupPos)) (json_insert ''x'' (json_int (fst emotePopupPos)) []);
          obj4 = json_insert ''emotePopup'' (QObject popup) obj3;
          tabsArr = map (\<lambda>p. QObject (encodeTab uuidText cv (selectedPage (win_notebook window) = Some p) (win_tab window p)))
            (items (win_notebook window))
      in json_insert ''tabs'' (QArray tabsArr) obj4)"

definition save_windows :: "(quuid \<Rightarrow> qstring) \<Rightarrow> 'c channel_view \<Rightarrow> int \<times> int \<Rightarrow> 'c window list \<Rightarrow> qobject" where
  "save_windows uuidText cv emotePopupPos ws =
     json_insert ''windows'' (QArray (map (\<lambda>w. QObject (save_window uuidText cv emotePopupPos w)) ws)) []"

section \<open>Building the windows\<close>

record 'c channel_source =
  cs_twitch :: "qstring \<Rightarrow> 'c"
  cs_mentions :: 'c
  cs_whispers :: 'c
  cs_live :: 'c
  cs_irc :: "int \<Rightarrow> qstring \<Rightarrow> 'c"
  cs_empty :: 'c

definition decodeChannel :: "'c channel_source \<Rightarrow> split_descriptor \<Rightarrow> 'c shown" where
  "decodeChannel src sd =
     (if sd_type sd = ''twitch'' then DirectTo (cs_twitch src (sd_channelName sd))
      else if sd_type sd = ''mentions'' then DirectTo (cs_mentions src)
      else if sd_type sd = ''watching'' then Watching
      else if sd_type sd = ''whispers'' then DirectTo (cs_whispers src)
      else if sd_type sd = ''live'' then DirectTo (cs_live src)
      else if sd_type sd = ''irc'' then DirectTo (cs_irc src (sd_server sd) (sd_channelName sd))
      else DirectTo (cs_empty src))"

definition make_split :: "'c channel_source \<Rightarrow> split_descriptor \<Rightarrow> 'c split_view" where
  "make_split src sd = \<lparr>sp_channel = decodeChannel src sd, sp_moderationMode = sd_moderationMode sd, sp_filters = sd_filters sd\<rparr>"

text \<open>
  The nodes \<open>applyFromDescriptorRecursively\<close> creates for the items of a container, and the splits in the
  order they are added; addresses are handed out in order, to the node first and then to its split.
\<close>

fun build_node :: "'c channel_source \<Rightarrow> node_descriptor \<Rightarrow> nat \<Rightarrow> 'c split node \<times> 'c split list \<times> nat"
  and build_items :: "'c channel_source \<Rightarrow> node_descriptor list \<Rightarrow> nat \<Rightarrow> 'c split node list \<times> 'c split list \<times> nat" where
  "build_node src (SplitNodeDescriptor sd fh fv) n =
     (let s = (Suc n, make_split src sd) in
      (Node \<lparr>nd_id = n, nd_type = SplitNode, nd_split = Some s, nd_prefered = None, nd_flexH = fh, nd_flexV = fv\<rparr> [], [s], n + 2))"
| "build_node src (ContainerNodeDescriptor fh fv vertical ds) n =
     (let (cs, ss, n') = build_items src ds (Suc n) in
      (Node \<lparr>nd_id = n, nd_type = (if vertical then VerticalContainer else HorizontalContainer), nd_split = None,
         nd_prefered = None, nd_flexH = fh, nd_flexV = fv\<rparr> cs, ss, n'))"
| "build_items src [] n = ([], [], n)"
| "build_items src (d # ds) n =
     (let (c, ss, n1) = build_node src d n; (cs, ss', n2) = build_items src ds n1 in (c # cs, ss @ ss', n2))"

definition applyFromDescriptor :: "'c channel_source \<Rightarrow> node_descriptor \<Rightarrow> 'c split container \<Rightarrow> 'c split container option" where
  "applyFromDescriptor src d c =
     (if node_kind (baseNode c) \<noteq> EmptyRoot then None
      else case d of
        SplitNodeDescriptor sd fh fv \<Rightarrow> appendSplit (next_id c, make_split src sd) (c\<lparr>next_id := Suc (next_id c)\<rparr>)
      | ContainerNodeDescriptor fh fv vertical ds \<Rightarrow>
          let (cs, ss, n) = build_items src ds (next_id c) in
          Some (c\<lparr>baseNode := Node ((nd_data (baseNode c))\<lparr>nd_type := (if vertical then VerticalContainer else HorizontalContainer)\<rparr>)
              (nd_children (baseNode c) @ cs),
            splits := splits c @ ss, next_id := n,
            focus_request := (if ss = [] then focus_request c else Some (last ss))\<rparr>))"

definition new_tab :: "'c tab" where
  "new_tab = \<lparr>tab_splits = SplitContainer, tab_customTitle = [], tab_highlightsEnabled = True\<rparr>"

definition apply_tab :: "'c channel_source \<Rightarrow> tab_descriptor \<Rightarrow> nat \<Rightarrow> 'c window \<Rightarrow> 'c window option" where
  "apply_tab src td page w =
     (let tab = new_tab\<lparr>tab_customTitle := td_customTitle td, tab_highlightsEnabled := td_highlightsEnabled td\<rparr> in
      case addPage page False (win_notebook w) of
        None \<Rightarrow> None
      | Some nb \<Rightarrow>
          (case (if td_selected td then select_page (Some page) nb else Some nb) of
             None \<Rightarrow> None
           | Some nb' \<Rightarrow>
               (case (case td_rootNode td of None \<Rightarrow> Some SplitContainer | Some d \<Rightarrow> applyFromDescriptor src d SplitContainer) of
                  None \<Rightarrow> None
                | Some c \<Rightarrow> Some (w\<lparr>win_notebook := nb', win_tab := (win_tab w)(page := tab\<lparr>tab_splits := c\<rparr>)\<rparr>))))"

fun apply_tabs :: "'c channel_source \<Rightarrow> tab_descriptor list \<Rightarrow> nat \<Rightarrow> 'c window \<Rightarrow> 'c window option" where
  "apply_tabs src [] page w = Some w"
| "apply_tabs src (td # tds) page w =
     (case apply_tab src td page w of None \<Rightarrow> None | Some w' \<Rightarrow> apply_tabs src tds (Suc page) w')"

text \<open>\<open>keep\<close> answers whether the bounds are on a screen, or the user wants to leave them as they are.\<close>

definition apply_window :: "'c channel_source \<Rightarrow> (rect \<Rightarrow> bool) \<Rightarrow> rect \<Rightarrow> window_descriptor \<Rightarrow> 'c window option" where
  "apply_window src keep defaultBounds wd =
     (let (x, y, width, height) = wd_geometry wd;
          bounds = (if keep (wd_geometry wd) \<and> x \<noteq> -1 \<and> y \<noteq> -1 \<and> width \<noteq> -1 \<and> height \<noteq> -1 then wd_geometry wd else defaultBounds);
          w = \<lparr>win_type = wd_type wd, win_maximized = (wd_state wd = Maximized), win_minimized = (wd_state wd = Minimized),
            win_bounds = bounds, win_notebook = Notebook, win_tab = (\<lambda>_. new_tab)\<rparr>
      in apply_tabs src (wd_tabs wd) 0 w)"

text \<open>A second main window fails an assertion.\<close>

fun apply_windows :: "'c channel_source \<Rightarrow> (rect \<Rightarrow> bool) \<Rightarrow> rect \<Rightarrow> bool \<Rightarrow> window_descriptor list \<Rightarrow> 'c window list option" where
  "apply_windows src keep defaultBounds hasMain [] = Some []"
| "apply_windows src keep defaultBounds hasMain (wd # wds) =
     (if wd_type wd = MainWindow \<and> hasMain then None
      else case apply_window src keep defaultBounds wd of
        None \<Rightarrow> None
      | Some w \<Rightarrow> map_option (Cons w) (apply_windows src keep defaultBounds (hasMain \<or> wd_type wd = MainWindow) wds))"

definition applyWindowLayout :: "'c channel_source \<Rightarrow> (rect \<Rightarrow> bool) \<Rightarrow> rect \<Rightarrow> window_layout \<Rightarrow> ((int \<times> int) \<times> 'c window list) option" where
  "applyWindowLayout src keep defaultBounds layout =
     map_option (Pair (wl_emotePopupPos layout)) (apply_windows src keep defaultBounds False (wl_windows layout))"

section \<open>Closed splits\<close>

text \<open>\<open>widgets/splits/ClosedSplits.cpp\<close>: what was closed, with the tab it was in while that exists.\<close>

record 't closed_split =
  cl_channelName :: qstring
  cl_filters :: "quuid list"
  cl_tab :: "'t option"

definition closed_push :: "'t closed_split \<Rightarrow> 't closed_split list \<Rightarrow> 't closed_split list" where
  "closed_push si cls = cls @ [si]"

definition closed_pop :: "'t closed_split list \<Rightarrow> ('t closed_split \<times> 't closed_split list) option" where
  "closed_pop cls = (if cls = [] then None else Some (last cls, butlast cls))"

fun invalidateTab :: "'t \<Rightarrow> 't closed_split list \<Rightarrow> 't closed_split list" where
  "invalidateTab t [] = []"
| "invalidateTab t (si # cls) =
     (if cl_tab si = Some t then si\<lparr>cl_tab := None\<rparr> # cls else si # invalidateTab t cls)"

text \<open>
  Each split that is closed has the tab invalidate one entry when it goes, so that none keeps the pointer
  as long as there is one invalidation for every entry.
\<close>

lemma invalidateTab_count:
  "length (filter (\<lambda>si. cl_tab si = Some t) (invalidateTab t xs)) = length (filter (\<lambda>si. cl_tab si = Some t) xs) - 1"
  by (induction t xs rule: invalidateTab.induct) auto

lemma invalidated_all:
  "length (filter (\<lambda>si. cl_tab si = Some t) xs) \<le> k \<Longrightarrow> filter (\<lambda>si. cl_tab si = Some t) ((invalidateTab t ^^ k) xs) = []"
proof (induction k arbitrary: xs)
  case (Suc k)
  have "length (filter (\<lambda>si. cl_tab si = Some t) (invalidateTab t xs)) \<le> k" using Suc.prems invalidateTab_count [of t xs] by simp
  from Suc.IH [OF this] show ?case by (simp add: funpow_swap1)
qed simp

end
