(* ===== verification/Window_Layout_Correct.thy ===== *)
theory Window_Layout_Correct
  imports Window_Layout Split_Tree_Correct
begin

text \<open>
  The windows come back as they were: what is written is read as the descriptors it was written from, and
  building from them gives the same tabs, trees of splits and channels. From any file, at most one window
  is the main window and at most one tab of each is selected.
\<close>

section \<open>Channels\<close>

text \<open>A channel that asking for it again gives back.\<close>

definition restorable :: "'c channel_view \<Rightarrow> 'c channel_source \<Rightarrow> 'c shown \<Rightarrow> bool" where
  "restorable cv src s \<longleftrightarrow>
     (case s of
        Watching \<Rightarrow> True
      | DirectTo c \<Rightarrow>
          (case cv_type cv c of
             Twitch \<Rightarrow> cs_twitch src (cv_name cv c) = c
           | TwitchMentions \<Rightarrow> c = cs_mentions src
           | TwitchWhispers \<Rightarrow> c = cs_whispers src
           | TwitchLive \<Rightarrow> c = cs_live src
           | TwitchWatching \<Rightarrow> False
           | Irc \<Rightarrow> (case cv_server cv c of
                 Some i \<Rightarrow> is_int32 i \<and> cs_irc src i (cv_name cv c) = c | None \<Rightarrow> cs_irc src (-1) (cv_name cv c) = c)
           | _ \<Rightarrow> c = cs_empty src))"

definition descriptor_of :: "'c channel_view \<Rightarrow> 'c split_view \<Rightarrow> split_descriptor" where
  "descriptor_of cv v =
     (let obj = encodeChannel cv (sp_channel v) in
      \<lparr>sd_type = json_toString [] (json_value obj ''type''),
       sd_channelName = (if json_contains obj ''channel'' then json_toString [] (json_value obj ''channel'')
         else json_toString [] (json_value obj ''name'')),
       sd_server = json_toInt (-1) (json_value obj ''server''),
       sd_moderationMode = sp_moderationMode v, sd_filters = sp_filters v\<rparr>)"

lemma decode_encode:
  assumes r: "restorable cv src (sp_channel v)"
  shows "decodeChannel src (descriptor_of cv v) = sp_channel v"
proof (cases "sp_channel v")
  case (DirectTo c)
  show ?thesis
  proof (cases "cv_type cv c = Irc")
    case True
    then show ?thesis using r DirectTo
      by (cases "cv_server cv c") (simp_all add: restorable_def descriptor_of_def decodeChannel_def encodeChannel_def Let_def)
  next
    case False
    then show ?thesis using r DirectTo
      by (cases "cv_type cv c") (simp_all add: restorable_def descriptor_of_def decodeChannel_def encodeChannel_def Let_def)
  qed
next
  case Watching
  then show ?thesis by (simp add: descriptor_of_def decodeChannel_def encodeChannel_def Let_def)
qed

lemma make_split_descriptor: "restorable cv src (sp_channel v) \<Longrightarrow> make_split src (descriptor_of cv v) = v"
  using decode_encode [of cv src v] by (simp add: make_split_def descriptor_of_def Let_def)

section \<open>Trees\<close>

fun node_descriptor_of :: "'c channel_view \<Rightarrow> 'c split node \<Rightarrow> node_descriptor" where
  "node_descriptor_of cv (Node h cs) =
     (if nd_type h = SplitNode then SplitNodeDescriptor (descriptor_of cv (snd (the (nd_split h)))) (nd_flexH h) (nd_flexV h)
      else ContainerNodeDescriptor (nd_flexH h) (nd_flexV h) (nd_type h = VerticalContainer) (map (node_descriptor_of cv) cs))"

lemma loadFilters_encode:
  "(\<And>u. parseUuid (uuidText u) = u) \<Longrightarrow> loadFilters parseUuid (QArray (encodeFilters uuidText us)) = us"
  by (simp add: loadFilters_def encodeFilters_def comp_def)

lemma load_split:
  assumes "\<And>u. parseUuid (uuidText u) = u" "nd_type h = SplitNode" "nd_split h = Some s"
  shows "loadSplitNode parseUuid (encodeNode uuidText cv (Node h cs)) = node_descriptor_of cv (Node h cs)"
  using loadFilters_encode [OF assms(1)] assms(2,3)
  by (simp add: loadSplitNode_def split_loadFromJSON_def descriptor_of_def Let_def)

lemma encode_type:
  "node_ok (Node h cs) \<Longrightarrow> json_value (encodeNode uuidText cv (Node h cs)) ''type'' =
     QString (if nd_type h = SplitNode then ''split'' else if nd_type h = HorizontalContainer then ''horizontal'' else ''vertical'')"
  by (auto simp: is_container_def split: if_splits)

lemma load_encode:
  assumes u: "\<And>u. parseUuid (uuidText u) = u"
  shows "node_ok t \<Longrightarrow>
    (if node_kind t = SplitNode then loadSplitNode parseUuid (encodeNode uuidText cv t)
     else loadContainerNode parseUuid (encodeNode uuidText cv t)) = node_descriptor_of cv t"
proof (induction t rule: node_ok.induct)
  case (1 h cs)
  show ?case
  proof (cases "nd_type h = SplitNode")
    case True
    then show ?thesis using load_split [OF u True] 1(2) by auto
  next
    case False
    then have c: "is_container (nd_type h)" "list_all node_ok cs" using 1(2) by auto
    have "(let obj = encodeNode uuidText cv c in
        if json_value obj ''type'' = QString ''split'' then loadSplitNode parseUuid obj else loadContainerNode parseUuid obj) =
        node_descriptor_of cv c" if "c \<in> set cs" for c
    proof -
      have ok: "node_ok c" using c(2) that by (simp add: list_all_iff)
      have "(json_value (encodeNode uuidText cv c) ''type'' = QString ''split'') = (node_kind c = SplitNode)"
        using encode_type [of "nd_data c" "nd_children c"] ok by (cases c) simp
      then show ?thesis using 1(1) [OF False that ok] by (simp add: Let_def)
    qed
    then show ?thesis using c(1) False
      by (subst loadContainerNode.simps) (auto simp: is_container_def comp_def)
  qed
qed

datatype 'c tree_layout = No_split | Split_layout "'c split_view option" rat rat | Box_layout node_type rat rat "'c tree_layout list"

fun layout :: "'c split node \<Rightarrow> 'c tree_layout" where
  "layout (Node h cs) =
     (case nd_type h of
        EmptyRoot \<Rightarrow> No_split
      | SplitNode \<Rightarrow> Split_layout (map_option snd (nd_split h)) (nd_flexH h) (nd_flexV h)
      | ty \<Rightarrow> Box_layout ty (nd_flexH h) (nd_flexV h) (map layout cs))"

text \<open>What is built from the descriptors of a tree.\<close>

definition built_ok :: "nat \<Rightarrow> 'c split node list \<Rightarrow> 'c split list \<Rightarrow> nat \<Rightarrow> bool" where
  "built_ok n cs ss n' \<longleftrightarrow> n \<le> n' \<and> list_all node_ok cs \<and> concat (map leaves cs) = ss \<and>
     distinct (concat (map ids cs)) \<and> (\<forall>i \<in> set (concat (map ids cs)). n \<le> i \<and> i < n') \<and>
     distinct (map fst ss) \<and> (\<forall>i \<in> set (map fst ss). n \<le> i \<and> i < n')"

lemma bounds_disjoint:
  "\<forall>i \<in> A. n \<le> i \<and> i < (m :: nat) \<Longrightarrow> \<forall>i \<in> B. m \<le> i \<and> i < k \<Longrightarrow> A \<inter> B = {}"
  by fastforce

lemma bounds_union:
  "\<forall>i \<in> A. n \<le> i \<and> i < (m :: nat) \<Longrightarrow> \<forall>i \<in> B. m \<le> i \<and> i < k \<Longrightarrow> n \<le> m \<Longrightarrow> m \<le> k \<Longrightarrow> \<forall>i \<in> A \<union> B. n \<le> i \<and> i < k"
  by fastforce

lemma built_append:
  assumes a: "built_ok n [c] ss n1" and b: "built_ok n1 cs ss' n2"
  shows "built_ok n (c # cs) (ss @ ss') n2"
proof -
  have le: "n \<le> n1" "n1 \<le> n2" using a b by (simp_all add: built_ok_def)
  have A: "\<forall>i \<in> set (ids c). n \<le> i \<and> i < n1" "\<forall>i \<in> set (map fst ss). n \<le> i \<and> i < n1"
    using a by (simp_all add: built_ok_def)
  have B: "\<forall>i \<in> set (concat (map ids cs)). n1 \<le> i \<and> i < n2" "\<forall>i \<in> set (map fst ss'). n1 \<le> i \<and> i < n2"
    using b by (simp_all add: built_ok_def)
  show ?thesis unfolding built_ok_def
  proof (intro conjI)
    show "\<forall>i \<in> set (concat (map ids (c # cs))). n \<le> i \<and> i < n2" using bounds_union [OF A(1) B(1) le] by simp
    show "\<forall>i \<in> set (map fst (ss @ ss')). n \<le> i \<and> i < n2" using bounds_union [OF A(2) B(2) le] by simp
    show "distinct (concat (map ids (c # cs)))"
      using a b bounds_disjoint [OF A(1) B(1)] by (simp add: built_ok_def)
    show "distinct (map fst (ss @ ss'))"
      using a b bounds_disjoint [OF A(2) B(2)] by (simp add: built_ok_def)
  qed (use a b le in \<open>simp_all add: built_ok_def\<close>)
qed

lemma build_descriptor:
  fixes t :: "'c split node" and ts :: "'c split node list"
  shows "node_ok t \<Longrightarrow> \<forall>s \<in> set (leaves t). restorable cv src (sp_channel (snd s)) \<Longrightarrow>
    build_node src (node_descriptor_of cv t) n = (t', ss, n') \<Longrightarrow>
    layout t' = layout t \<and> map snd ss = map snd (leaves t) \<and> built_ok n [t'] ss n'"
proof (induction t arbitrary: n t' ss n' rule: node_ok.induct)
  case (1 h cs)
  show ?case
  proof (cases "nd_type h = SplitNode")
    case True
    then obtain s where s: "nd_split h = Some s" "cs = []" using 1(2) by auto
    then have "make_split src (descriptor_of cv (snd s)) = snd s"
      using 1(3) True by (intro make_split_descriptor) (simp add: own_split_def)
    then show ?thesis using 1(4) True s by (auto simp: built_ok_def own_split_def Let_def)
  next
    case False
    then have c: "is_container (nd_type h)" "list_all node_ok cs" "2 \<le> length cs" "nd_split h = None" using 1(2) by auto
    have items: "build_items src (map (node_descriptor_of cv) xs) m = (xs', ss, m') \<Longrightarrow> set xs \<subseteq> set cs \<Longrightarrow>
        map layout xs' = map layout xs \<and> map snd ss = map snd (concat (map leaves xs)) \<and> built_ok m xs' ss m'" for xs m xs' ss m'
    proof (induction xs arbitrary: m xs' ss m')
      case Nil
      then show ?case by (simp add: built_ok_def)
    next
      case (Cons x xs)
      obtain x1 ss1 m1 where b1: "build_node src (node_descriptor_of cv x) m = (x1, ss1, m1)"
        by (cases "build_node src (node_descriptor_of cv x) m") auto
      obtain xs2 ss2 m2 where b2: "build_items src (map (node_descriptor_of cv) xs) m1 = (xs2, ss2, m2)"
        by (cases "build_items src (map (node_descriptor_of cv) xs) m1") auto
      have e: "xs' = x1 # xs2" "ss = ss1 @ ss2" "m' = m2" using Cons.prems(1) b1 b2 by auto
      have x: "x \<in> set cs" using Cons.prems(2) by simp
      have "node_ok x" "\<forall>s \<in> set (leaves x). restorable cv src (sp_channel (snd s))"
        using c(2) 1(3) x by (auto simp: list_all_iff)
      from 1(1) [OF False x this b1] have h1: "layout x1 = layout x" "map snd ss1 = map snd (leaves x)" "built_ok m [x1] ss1 m1"
        by auto
      have h2: "map layout xs2 = map layout xs \<and> map snd ss2 = map snd (concat (map leaves xs)) \<and> built_ok m1 xs2 ss2 m2"
        using Cons.IH [OF b2] Cons.prems(2) by simp
      show ?case using h1 h2 built_append [OF h1(3), of xs2 ss2 m2] e by simp
    qed
    obtain cs' ss' m where b: "build_items src (map (node_descriptor_of cv) cs) (Suc n) = (cs', ss', m)"
      by (cases "build_items src (map (node_descriptor_of cv) cs) (Suc n)") auto
    from items [OF b] have i: "map layout cs' = map layout cs" "map snd ss' = map snd (concat (map leaves cs))" "built_ok (Suc n) cs' ss' m"
      by auto
    have l: "length cs' = length cs" using i(1) by (metis length_map)
    let ?h = "\<lparr>nd_id = n, nd_type = nd_type h, nd_split = None, nd_prefered = None, nd_flexH = nd_flexH h, nd_flexV = nd_flexV h\<rparr>"
    have e: "t' = Node ?h cs'" "ss = ss'" "n' = m"
      using 1(4) b False c(1) by (auto simp: is_container_def)
    have "layout t' = layout (Node h cs)" using e(1) i(1) c(1) by (auto simp: is_container_def)
    moreover have "built_ok n [t'] ss n'"
      using i(3) l c e unfolding built_ok_def by (force simp: own_split_def)
    moreover have "own_split h = []" using c(1) by simp
    ultimately show ?thesis using i(2) e(2) by simp
  qed
qed

section \<open>Tabs\<close>

definition root_descriptor :: "'c channel_view \<Rightarrow> 'c split node \<Rightarrow> node_descriptor option" where
  "root_descriptor cv t = (if node_kind t = EmptyRoot then None else Some (node_descriptor_of cv t))"

lemma encode_root_type:
  assumes "node_kind t = EmptyRoot" shows "json_value (encodeNode uuidText cv t) ''type'' = QUndefined"
  using assms by (cases t) simp

lemma encodeNode_ne: "encodeNode uuidText cv t \<noteq> []"
  by (cases t) simp

lemma load_encode_tab:
  assumes u: "\<And>u. parseUuid (uuidText u) = u" and c: "in_step (tab_splits tab)"
  shows "tab_loadFromJSON parseUuid (encodeTab uuidText cv sel tab) =
    \<lparr>td_customTitle = tab_customTitle tab, td_selected = sel, td_highlightsEnabled = tab_highlightsEnabled tab,
     td_rootNode = root_descriptor cv (baseNode (tab_splits tab))\<rparr>"
proof -
  let ?t = "baseNode (tab_splits tab)" and ?j = "encodeNode uuidText cv (baseNode (tab_splits tab))"
  have r: "(let nodeType = json_toString [] (json_value ?j ''type'') in
      if ?j = [] then None
      else if nodeType = ''split'' then Some (loadSplitNode parseUuid ?j)
      else if nodeType = ''horizontal'' \<or> nodeType = ''vertical'' then Some (loadContainerNode parseUuid ?j)
      else None) = root_descriptor cv ?t"
  proof (cases "node_kind ?t = EmptyRoot")
    case True
    then show ?thesis by (simp add: encode_root_type encodeNode_ne root_descriptor_def)
  next
    case False
    then have ok: "node_ok ?t" using in_step_parts(1) [OF c] by (auto simp: root_ok_def)
    then have "json_value ?j ''type'' =
        QString (if node_kind ?t = SplitNode then ''split'' else if node_kind ?t = HorizontalContainer then ''horizontal'' else ''vertical'')"
      using encode_type [of "nd_data ?t" "nd_children ?t"] by simp
    then show ?thesis using load_encode [of parseUuid uuidText, OF u ok, of cv] False
      by (auto simp: Let_def encodeNode_ne root_descriptor_def split: if_splits)
  qed
  have s: "toObject (json_value (encodeTab uuidText cv sel tab) ''splits2'') = ?j" by (simp add: encodeTab_def Let_def)
  show ?thesis unfolding tab_loadFromJSON_def s using r by (simp add: Let_def encodeTab_def)
qed

definition all_restorable :: "'c channel_view \<Rightarrow> 'c channel_source \<Rightarrow> 'c tab \<Rightarrow> bool" where
  "all_restorable cv src tab \<longleftrightarrow> in_step (tab_splits tab) \<and> (\<forall>s \<in> set (splits (tab_splits tab)). restorable cv src (sp_channel (snd s)))"

lemma restore_container:
  assumes c: "in_step c" and r: "\<forall>s \<in> set (splits c). restorable cv src (sp_channel (snd s))"
  shows "\<exists>c'. (case root_descriptor cv (baseNode c) of None \<Rightarrow> Some SplitContainer | Some d \<Rightarrow> applyFromDescriptor src d SplitContainer) = Some c' \<and>
    layout (baseNode c') = layout (baseNode c) \<and> in_step c' \<and> map snd (splits c') = map snd (leaves (baseNode c))"
proof -
  obtain h cs where t: "baseNode c = Node h cs" by (cases "baseNode c")
  have f: "nd_flexH h = 1" "nd_flexV h = 1" and ok: "node_ok (Node h cs) \<or> nd_type h = EmptyRoot \<and> cs = []"
    using in_step_parts(1) [OF c] t by (auto simp: root_ok_def)
  have r': "\<forall>s \<in> set (leaves (Node h cs)). restorable cv src (sp_channel (snd s))"
    using r in_step_parts(4) [OF c] t by simp
  show ?thesis
  proof (cases "nd_type h = EmptyRoot")
    case True
    then have "cs = []" using ok by auto
    then show ?thesis using True t in_step_start
      by (auto simp: root_descriptor_def SplitContainer_def empty_node_def own_split_def)
  next
    case False
    then have ok: "node_ok (Node h cs)" using ok by blast
    show ?thesis
    proof (cases "nd_type h = SplitNode")
      case True
      then obtain s where s: "nd_split h = Some s" "cs = []" using ok by auto
      then have m: "make_split src (descriptor_of cv (snd s)) = snd s"
        using r' True by (intro make_split_descriptor) (simp add: own_split_def)
      let ?c = "addSplit (Suc 0, snd s) (SplitContainer\<lparr>next_id := Suc (Suc (Suc (Suc 0))), baseNode := Node \<lparr>nd_id = 0, nd_type = SplitNode, nd_split = Some (Suc 0, snd s),
          nd_prefered = None, nd_flexH = 1, nd_flexV = 1\<rparr> []\<rparr>)"
      have "applyFromDescriptor src (node_descriptor_of cv (Node h cs)) SplitContainer = Some ?c"
        using True s m by (simp add: applyFromDescriptor_def SplitContainer_def empty_node_def appendSplit_def insertSplit_def
            setSplit_def Let_def)
      moreover have "in_step ?c"
        by (simp add: in_step_def addSplit_def SplitContainer_def root_ok_def own_split_def)
      ultimately show ?thesis using True s t f
        by (auto simp: root_descriptor_def addSplit_def SplitContainer_def own_split_def)
    next
      case split: False
      then have ct: "is_container (nd_type h)" "2 \<le> length cs" "nd_split h = None" using ok by auto
      obtain t' ss n' where b: "build_node src (node_descriptor_of cv (Node h cs)) 0 = (t', ss, n')"
        by (cases "build_node src (node_descriptor_of cv (Node h cs)) 0") auto
      from build_descriptor [OF ok r' b] have p: "layout t' = layout (Node h cs)" "map snd ss = map snd (leaves (Node h cs))" "built_ok 0 [t'] ss n'"
        by auto
      obtain cs' where b': "build_items src (map (node_descriptor_of cv) cs) 1 = (cs', ss, n')"
          "t' = Node \<lparr>nd_id = 0, nd_type = nd_type h, nd_split = None, nd_prefered = None, nd_flexH = 1, nd_flexV = 1\<rparr> cs'"
        using b split ct(1) f by (auto simp: is_container_def split: prod.splits)
      let ?c = "SplitContainer\<lparr>baseNode := t', splits := ss, next_id := n', focus_request := (if ss = [] then None else Some (last ss))\<rparr>"
      have "applyFromDescriptor src (node_descriptor_of cv (Node h cs)) SplitContainer = Some ?c"
        using b' split ct(1) by (auto simp: applyFromDescriptor_def SplitContainer_def empty_node_def is_container_def)
      moreover have "in_step ?c"
        using p(3) b'(2) unfolding built_ok_def in_step_def root_ok_def
        by (auto simp: SplitContainer_def list_all_iff distinct_map)
      ultimately show ?thesis using p(1,2) t False by (auto simp: root_descriptor_def SplitContainer_def)
    qed
  qed
qed

section \<open>Windows\<close>

definition same_tab :: "'c tab \<Rightarrow> 'c tab \<Rightarrow> bool" where
  "same_tab t t' \<longleftrightarrow> tab_customTitle t' = tab_customTitle t \<and> tab_highlightsEnabled t' = tab_highlightsEnabled t \<and>
     layout (baseNode (tab_splits t')) = layout (baseNode (tab_splits t)) \<and> in_step (tab_splits t')"

definition window_tabs :: "'c window \<Rightarrow> (bool \<times> 'c tab) list" where
  "window_tabs w = map (\<lambda>p. (selectedPage (win_notebook w) = Some p, win_tab w p)) (items (win_notebook w))"

definition same_window :: "'c window \<Rightarrow> 'c window \<Rightarrow> bool" where
  "same_window w w' \<longleftrightarrow> win_type w' = win_type w \<and> win_maximized w' = win_maximized w \<and>
     win_minimized w' = (win_minimized w \<and> \<not> win_maximized w) \<and> win_bounds w' = win_bounds w \<and>
     list_all2 (\<lambda>(s, t) (s', t'). s' = s \<and> same_tab t t') (window_tabs w) (window_tabs w') \<and> notebook_ok (win_notebook w')"

definition good_rect :: "(rect \<Rightarrow> bool) \<Rightarrow> rect \<Rightarrow> bool" where
  "good_rect keep r \<longleftrightarrow> keep r \<and> (case r of (x, y, width, height) \<Rightarrow>
     (\<forall>i \<in> {x, y, width, height}. is_int32 i \<and> i \<noteq> -1))"

definition window_ok :: "'c channel_view \<Rightarrow> 'c channel_source \<Rightarrow> (rect \<Rightarrow> bool) \<Rightarrow> 'c window \<Rightarrow> bool" where
  "window_ok cv src keep w \<longleftrightarrow> win_type w \<noteq> AttachedWindow \<and> good_rect keep (win_bounds w) \<and> notebook_ok (win_notebook w) \<and>
     (\<forall>p \<in> set (items (win_notebook w)). all_restorable cv src (win_tab w p))"

text \<open>The descriptors of the tabs, and that reading them changes no selection since there is only one.\<close>

definition tab_descriptor_of :: "'c channel_view \<Rightarrow> bool \<times> 'c tab \<Rightarrow> tab_descriptor" where
  "tab_descriptor_of cv st = \<lparr>td_customTitle = tab_customTitle (snd st), td_selected = fst st,
     td_highlightsEnabled = tab_highlightsEnabled (snd st), td_rootNode = root_descriptor cv (baseNode (tab_splits (snd st)))\<rparr>"

lemma load_tabs_encode:
  assumes u: "\<And>u. parseUuid (uuidText u) = u"
  shows "\<forall>st \<in> set sts. in_step (tab_splits (snd st)) \<Longrightarrow> length (filter fst sts) + (if b then 1 else 0) \<le> 1 \<Longrightarrow>
    load_tabs parseUuid b (map (\<lambda>st. QObject (encodeTab uuidText cv (fst st) (snd st))) sts) = map (tab_descriptor_of cv) sts"
proof (induction sts arbitrary: b)
  case (Cons st sts)
  have "tab_loadFromJSON parseUuid (encodeTab uuidText cv (fst st) (snd st)) = tab_descriptor_of cv st"
    using load_encode_tab [of parseUuid uuidText "snd st", OF u] Cons.prems(1) by (simp add: tab_descriptor_of_def)
  then show ?case using Cons by (cases "fst st"; cases b) (auto simp: Let_def tab_descriptor_of_def)
qed simp

lemma one_selected:
  assumes "notebook_ok (win_notebook w)" shows "length (filter fst (window_tabs w)) \<le> 1"
proof -
  have "filter fst (window_tabs w) = map (\<lambda>p. (True, win_tab w p)) (filter (\<lambda>p. selectedPage (win_notebook w) = Some p) (items (win_notebook w)))"
    by (induction "items (win_notebook w)") (auto simp: window_tabs_def filter_map comp_def intro!: map_cong)
  moreover have "length (filter (\<lambda>p. selectedPage (win_notebook w) = Some p) xs) \<le> 1" if "distinct xs" for xs
    using that by (induction xs) (auto simp: filter_empty_conv)
  ultimately show ?thesis using assms by (simp add: notebook_ok_def)
qed

lemma load_save_window:
  assumes u: "\<And>u. parseUuid (uuidText u) = u" and w: "window_ok cv src keep w" and m: "win_type w = MainWindow \<Longrightarrow> \<not> b"
  shows "load_window parseUuid b (save_window uuidText cv emote w) =
    \<lparr>wd_type = win_type w, wd_state = (if win_maximized w then Maximized else if win_minimized w then Minimized else WNone),
     wd_geometry = win_bounds w, wd_tabs = map (tab_descriptor_of cv) (window_tabs w)\<rparr>"
proof -
  obtain x y width height where r: "win_bounds w = (x, y, width, height)" by (cases "win_bounds w") auto
  have i: "is_int32 x" "is_int32 y" "is_int32 width" "is_int32 height" using w r by (auto simp: window_ok_def good_rect_def)
  have "load_tabs parseUuid False (map (\<lambda>st. QObject (encodeTab uuidText cv (fst st) (snd st))) (window_tabs w)) =
      map (tab_descriptor_of cv) (window_tabs w)"
    using w one_selected [of w] by (intro load_tabs_encode [OF u]) (auto simp: window_ok_def all_restorable_def window_tabs_def)
  then have t: "load_tabs parseUuid False (map (\<lambda>p. QObject (encodeTab uuidText cv (selectedPage (win_notebook w) = Some p) (win_tab w p)))
      (items (win_notebook w))) = map (tab_descriptor_of cv) (window_tabs w)"
    by (simp add: window_tabs_def comp_def)
  show ?thesis using w m i t r
    by (cases "win_type w") (auto simp: load_window_def save_window_def window_ok_def Let_def)
qed

text \<open>Adding the tabs of a window one after the other.\<close>

definition fresh_pages :: "nat notebook \<Rightarrow> bool" where
  "fresh_pages nb \<longleftrightarrow> (\<forall>p. tab_selected nb p \<longrightarrow> p \<in> set (items nb))"

lemma add_and_select:
  assumes nb: "notebook_ok nb" "items nb = [0..<page]" "fresh_pages nb"
  shows "\<exists>nb1 nb2. addPage page False nb = Some nb1 \<and> (if sel then select_page (Some page) nb1 else Some nb1) = Some nb2 \<and>
    notebook_ok nb2 \<and> items nb2 = [0..<Suc page] \<and> fresh_pages nb2 \<and>
    selectedPage nb2 = (if sel \<or> page = 0 then Some page else selectedPage nb)"
proof -
  let ?nb = "nb\<lparr>items := items nb @ [page], page_visible := (page_visible nb)(page := False)\<rparr>"
  have f: "\<not> tab_selected nb page" using nb(2,3) by (auto simp: fresh_pages_def)
  show ?thesis
  proof (cases "page = 0")
    case True
    then have "selectedPage nb = None" using nb by (auto simp: notebook_ok_def split: option.splits)
    then have "addPage page False nb = Some (?nb\<lparr>page_visible := (page_visible ?nb)(page := True),
        tab_selected := (tab_selected ?nb)(page := True), selectedPage := Some page\<rparr>)" (is "_ = Some ?nb1")
      using True nb(2) by (simp add: addPage_def select_page_def)
    moreover have "(if sel then select_page (Some page) ?nb1 else Some ?nb1) = Some ?nb1" by (simp add: select_page_def)
    moreover have "notebook_ok ?nb1" "fresh_pages ?nb1"
      using nb True by (auto simp: notebook_ok_def fresh_pages_def split: option.splits)
    moreover have "items ?nb1 = [0..<Suc page]" "selectedPage ?nb1 = (if sel \<or> page = 0 then Some page else selectedPage nb)"
      using nb(2) True by simp_all
    ultimately show ?thesis by blast
  next
    case False
    then have a: "addPage page False nb = Some ?nb" using nb(2) by (simp add: addPage_def)
    have ne: "items nb \<noteq> []" using nb(2) False by simp
    obtain q where q: "selectedPage nb = Some q" using nb(1) ne by (cases "selectedPage nb") (simp_all add: notebook_ok_def)
    have ok: "notebook_ok ?nb" using nb(1,2) f q by (auto simp: notebook_ok_def)
    have fr: "fresh_pages ?nb" using nb by (auto simp: fresh_pages_def)
    show ?thesis
    proof (cases sel)
      case True
      obtain nb2 where n2: "select_page (Some page) ?nb = Some nb2" "notebook_ok nb2" "items nb2 = items ?nb" "selectedPage nb2 = Some page"
        using select_page_ok [OF ok, of page] by auto
      have "fresh_pages nb2" using n2(1,3) fr by (auto simp: fresh_pages_def select_page_def split: if_splits option.splits)
      then show ?thesis using a n2 nb(2) True False by simp
    next
      case False
      then show ?thesis using a ok fr nb(2) \<open>page \<noteq> 0\<close> by simp
    qed
  qed
qed

definition same_frame :: "'c window \<Rightarrow> 'c window \<Rightarrow> bool" where
  "same_frame w w' \<longleftrightarrow> win_type w' = win_type w \<and> win_maximized w' = win_maximized w \<and> win_minimized w' = win_minimized w \<and>
     win_bounds w' = win_bounds w"

lemma apply_tab_step:
  assumes nb: "notebook_ok (win_notebook w)" "items (win_notebook w) = [0..<page]" "fresh_pages (win_notebook w)"
    and r: "all_restorable cv src (snd st)"
  shows "\<exists>w' t'. apply_tab src (tab_descriptor_of cv st) page w = Some w' \<and> same_tab (snd st) t' \<and>
    win_tab w' = (win_tab w)(page := t') \<and> items (win_notebook w') = [0..<Suc page] \<and> notebook_ok (win_notebook w') \<and>
    fresh_pages (win_notebook w') \<and>
    selectedPage (win_notebook w') = (if fst st \<or> page = 0 then Some page else selectedPage (win_notebook w)) \<and> same_frame w w'"
proof -
  obtain nb1 nb2 where n: "addPage page False (win_notebook w) = Some nb1"
      "(if fst st then select_page (Some page) nb1 else Some nb1) = Some nb2" "notebook_ok nb2" "items nb2 = [0..<Suc page]"
      "fresh_pages nb2" "selectedPage nb2 = (if fst st \<or> page = 0 then Some page else selectedPage (win_notebook w))"
    using add_and_select [OF nb, of "fst st"] by blast
  obtain c' where c: "(case root_descriptor cv (baseNode (tab_splits (snd st))) of None \<Rightarrow> Some SplitContainer
        | Some d \<Rightarrow> applyFromDescriptor src d SplitContainer) = Some c'"
      "layout (baseNode c') = layout (baseNode (tab_splits (snd st)))" "in_step c'"
    using restore_container [of "tab_splits (snd st)" cv src] r by (auto simp: all_restorable_def)
  let ?t = "\<lparr>tab_splits = c', tab_customTitle = tab_customTitle (snd st), tab_highlightsEnabled = tab_highlightsEnabled (snd st)\<rparr>"
  have "apply_tab src (tab_descriptor_of cv st) page w = Some (w\<lparr>win_notebook := nb2, win_tab := (win_tab w)(page := ?t)\<rparr>)"
    using n(1,2) c(1) by (simp add: apply_tab_def tab_descriptor_of_def new_tab_def)
  moreover have "same_tab (snd st) ?t" using c by (simp add: same_tab_def)
  ultimately show ?thesis using n by (auto simp: same_frame_def)
qed

fun selected_after :: "(bool \<times> 'c tab) list \<Rightarrow> nat \<Rightarrow> nat option \<Rightarrow> nat option" where
  "selected_after [] page s = s"
| "selected_after (st # sts) page s = selected_after sts (Suc page) (if fst st \<or> page = 0 then Some page else s)"

lemma apply_tabs_all:
  "\<lbrakk>notebook_ok (win_notebook w); items (win_notebook w) = [0..<page]; fresh_pages (win_notebook w);
    \<forall>st \<in> set sts. all_restorable cv src (snd st)\<rbrakk> \<Longrightarrow>
   \<exists>w'. apply_tabs src (map (tab_descriptor_of cv) sts) page w = Some w' \<and> items (win_notebook w') = [0..<page + length sts] \<and>
     notebook_ok (win_notebook w') \<and> same_frame w w' \<and> (\<forall>p < page. win_tab w' p = win_tab w p) \<and>
     (\<forall>i < length sts. same_tab (snd (sts ! i)) (win_tab w' (page + i))) \<and>
     selectedPage (win_notebook w') = selected_after sts page (selectedPage (win_notebook w))"
proof (induction sts arbitrary: page w)
  case Nil
  then show ?case by (simp add: same_frame_def)
next
  case (Cons st sts)
  obtain w1 t1 where w1: "apply_tab src (tab_descriptor_of cv st) page w = Some w1" "same_tab (snd st) t1"
      "win_tab w1 = (win_tab w)(page := t1)" "items (win_notebook w1) = [0..<Suc page]" "notebook_ok (win_notebook w1)"
      "fresh_pages (win_notebook w1)" "same_frame w w1"
      "selectedPage (win_notebook w1) = (if fst st \<or> page = 0 then Some page else selectedPage (win_notebook w))"
    using apply_tab_step [OF Cons.prems(1-3), of cv src st] Cons.prems(4) by auto
  obtain w' where w': "apply_tabs src (map (tab_descriptor_of cv) sts) (Suc page) w1 = Some w'"
      "items (win_notebook w') = [0..<Suc page + length sts]" "notebook_ok (win_notebook w')" "same_frame w1 w'"
      "\<forall>p < Suc page. win_tab w' p = win_tab w1 p" "\<forall>i < length sts. same_tab (snd (sts ! i)) (win_tab w' (Suc page + i))"
      "selectedPage (win_notebook w') = selected_after sts (Suc page) (selectedPage (win_notebook w1))"
    using Cons.IH [OF w1(5,4,6)] Cons.prems(4) by auto
  have "same_tab (snd ((st # sts) ! i)) (win_tab w' (page + i))" if "i < length (st # sts)" for i
    using w1(2,3) w'(5,6) that by (cases i) auto
  moreover have "\<forall>p < page. win_tab w' p = win_tab w p" using w'(5) w1(3) by auto
  moreover have "same_frame w w'" using w1(7) w'(4) by (simp add: same_frame_def)
  ultimately show ?case using w1(1,8) w'(1,2,3,7) by simp
qed

lemma selected_after_none: "\<forall>st \<in> set sts. \<not> fst st \<Longrightarrow> page \<noteq> 0 \<Longrightarrow> selected_after sts page s = s"
  by (induction sts arbitrary: page) auto

lemma selected_after_one:
  "\<forall>st \<in> set ys. \<not> fst st \<Longrightarrow> selected_after (xs @ (True, t) # ys) page s = Some (page + length xs)"
  by (induction xs arbitrary: page s) (auto simp: selected_after_none)

lemma restored_selection:
  assumes "notebook_ok nb" "i < length (items nb)"
  shows "(selected_after (map (\<lambda>p. (selectedPage nb = Some p, f p)) (items nb)) 0 None = Some i) = (selectedPage nb = Some (items nb ! i))"
proof -
  obtain p where p: "selectedPage nb = Some p" "p \<in> set (items nb)" using assms by (auto simp: notebook_ok_def split: option.splits)
  then obtain xs ys where e: "items nb = xs @ p # ys" by (auto simp: in_set_conv_decomp)
  then have d: "p \<notin> set xs" "p \<notin> set ys" using assms(1) by (auto simp: notebook_ok_def)
  then have "selected_after (map (\<lambda>q. (selectedPage nb = Some q, f q)) (items nb)) 0 None = Some (length xs)"
    using selected_after_one [of "map (\<lambda>q. (selectedPage nb = Some q, f q)) ys" "map (\<lambda>q. (selectedPage nb = Some q, f q)) xs" "f p" 0 None] p(1) e
    by auto
  moreover have "items nb ! i = p \<longleftrightarrow> i = length xs"
  proof -
    have "items nb ! length xs = p" "length xs < length (items nb)" "distinct (items nb)"
      using e assms(1) by (simp_all add: notebook_ok_def)
    then show ?thesis using nth_eq_iff_index_eq [of "items nb" i "length xs"] assms(2) by auto
  qed
  ultimately show ?thesis using p(1) by auto
qed

lemma apply_window_restores:
  assumes w: "window_ok cv src keep w"
    and d: "wd = \<lparr>wd_type = win_type w, wd_state = (if win_maximized w then Maximized else if win_minimized w then Minimized else WNone),
      wd_geometry = win_bounds w, wd_tabs = map (tab_descriptor_of cv) (window_tabs w)\<rparr>"
  shows "\<exists>w'. apply_window src keep def wd = Some w' \<and> same_window w w'"
proof -
  obtain x y width height where r: "win_bounds w = (x, y, width, height)" by (cases "win_bounds w") auto
  let ?nb = "win_notebook w"
  let ?w = "\<lparr>win_type = win_type w, win_maximized = win_maximized w, win_minimized = (win_minimized w \<and> \<not> win_maximized w),
    win_bounds = win_bounds w, win_notebook = Notebook, win_tab = (\<lambda>_. new_tab)\<rparr>"
  have a: "apply_window src keep def wd = apply_tabs src (map (tab_descriptor_of cv) (window_tabs w)) 0 ?w"
    using w r d by (auto simp: apply_window_def window_ok_def good_rect_def)
  have "notebook_ok (win_notebook ?w)" "items (win_notebook ?w) = [0..<0]" "fresh_pages (win_notebook ?w)"
    by (simp_all add: Notebook_def notebook_ok_def fresh_pages_def)
  moreover have "\<forall>st \<in> set (window_tabs w). all_restorable cv src (snd st)" using w by (auto simp: window_ok_def window_tabs_def)
  ultimately obtain w' where w': "apply_tabs src (map (tab_descriptor_of cv) (window_tabs w)) 0 ?w = Some w'"
      "items (win_notebook w') = [0..<length (window_tabs w)]" "notebook_ok (win_notebook w')" "same_frame ?w w'"
      "\<forall>i < length (window_tabs w). same_tab (snd (window_tabs w ! i)) (win_tab w' i)"
      "selectedPage (win_notebook w') = selected_after (window_tabs w) 0 None"
    using apply_tabs_all [of ?w 0 "window_tabs w" cv src] by (auto simp: Notebook_def)
  have "list_all2 (\<lambda>(s, t) (s', t'). s' = s \<and> same_tab t t') (window_tabs w) (window_tabs w')"
  proof (rule list_all2_all_nthI)
    show "length (window_tabs w) = length (window_tabs w')" using w'(2) by (simp add: window_tabs_def)
  next
    fix i assume i: "i < length (window_tabs w)"
    then have il: "i < length (items ?nb)" by (simp add: window_tabs_def)
    have "window_tabs w ! i = (selectedPage ?nb = Some (items ?nb ! i), win_tab w (items ?nb ! i))"
      using il by (simp add: window_tabs_def)
    moreover have "window_tabs w' ! i = (selectedPage (win_notebook w') = Some i, win_tab w' i)"
      using i w'(2) by (simp add: window_tabs_def)
    moreover have "(selectedPage (win_notebook w') = Some i) = (selectedPage ?nb = Some (items ?nb ! i))"
      using restored_selection [OF _ il, of "win_tab w"] w w'(6) by (simp add: window_ok_def window_tabs_def)
    moreover have "same_tab (snd (window_tabs w ! i)) (win_tab w' i)" using w'(5) i by simp
    ultimately show "(case window_tabs w ! i of (s, t) \<Rightarrow> \<lambda>(s', t'). s' = s \<and> same_tab t t') (window_tabs w' ! i)"
      by simp
  qed
  then show ?thesis using a w'(1,3,4) by (auto simp: same_window_def same_frame_def)
qed

text \<open>All windows. At most one of them is the main window, as in the program.\<close>

definition main_windows :: "'c window list \<Rightarrow> nat" where
  "main_windows ws = length (filter (\<lambda>w. win_type w = MainWindow) ws)"

definition window_descriptor_of :: "'c channel_view \<Rightarrow> 'c window \<Rightarrow> window_descriptor" where
  "window_descriptor_of cv w = \<lparr>wd_type = win_type w, wd_state = (if win_maximized w then Maximized else if win_minimized w then Minimized else WNone),
     wd_geometry = win_bounds w, wd_tabs = map (tab_descriptor_of cv) (window_tabs w)\<rparr>"

lemma apply_windows_restore:
  "\<lbrakk>\<forall>w \<in> set ws. window_ok cv src keep w; main_windows ws + (if b then 1 else 0) \<le> 1\<rbrakk> \<Longrightarrow>
   \<exists>ws'. apply_windows src keep def b (map (window_descriptor_of cv) ws) = Some ws' \<and> list_all2 same_window ws ws'"
proof (induction ws arbitrary: b)
  case (Cons w ws)
  obtain w' where w': "apply_window src keep def (window_descriptor_of cv w) = Some w'" "same_window w w'"
    using apply_window_restores [of cv src keep w "window_descriptor_of cv w" "def"] Cons.prems(1)
    by (auto simp: window_descriptor_of_def)
  have t: "wd_type (window_descriptor_of cv w) = win_type w" by (simp add: window_descriptor_of_def)
  have "main_windows ws + (if b \<or> win_type w = MainWindow then 1 else 0) \<le> 1"
    using Cons.prems(2) by (auto simp: main_windows_def split: if_splits)
  from Cons.IH [OF _ this] Cons.prems(1) obtain ws' where
    "apply_windows src keep def (b \<or> win_type w = MainWindow) (map (window_descriptor_of cv) ws) = Some ws'" "list_all2 same_window ws ws'"
    by auto
  then show ?case using w' t Cons.prems(2) by (auto simp: main_windows_def)
qed simp

lemma main_type_saved: "json_toString [] (json_value (save_window uuidText cv emote w) ''type'') = ''main'' \<longleftrightarrow> win_type w = MainWindow"
  by (cases "win_type w"; cases "win_bounds w") (auto simp: save_window_def Let_def)

lemma emote_saved:
  assumes "is_int32 (fst emote)" "is_int32 (snd emote)"
  shows "(json_toInt 0 (json_value (toObject (json_value (save_window uuidText cv emote w) ''emotePopup'')) ''x''),
    json_toInt 0 (json_value (toObject (json_value (save_window uuidText cv emote w) ''emotePopup'')) ''y'')) = emote"
  using assms by (cases "win_bounds w") (simp add: save_window_def Let_def)

lemma load_windows_saved:
  assumes u: "\<And>u. parseUuid (uuidText u) = u" and e: "is_int32 (fst emote)" "is_int32 (snd emote)"
  shows "\<lbrakk>\<forall>w \<in> set ws. window_ok cv src keep w; main_windows ws + (if b then 1 else 0) \<le> 1\<rbrakk> \<Longrightarrow>
    load_windows parseUuid b (map (\<lambda>w. QObject (save_window uuidText cv emote w)) ws) l =
      \<lparr>wl_emotePopupPos = (if ws = [] then wl_emotePopupPos l else emote),
       wl_windows = wl_windows l @ map (window_descriptor_of cv) ws\<rparr>"
proof (induction ws arbitrary: b l)
  case (Cons w ws)
  have m: "win_type w = MainWindow \<Longrightarrow> \<not> b" and
    n: "main_windows ws + (if b \<or> win_type w = MainWindow then 1 else 0) \<le> 1"
    using Cons.prems(2) by (auto simp: main_windows_def split: if_splits)
  have "load_window parseUuid b (save_window uuidText cv emote w) = window_descriptor_of cv w"
    using load_save_window [of parseUuid uuidText cv src keep w b emote, OF u _ m] Cons.prems(1)
    by (simp add: window_descriptor_of_def)
  then show ?case using Cons.IH [OF _ n] Cons.prems(1) emote_saved [OF e, of uuidText cv w] main_type_saved [of uuidText cv emote w]
    by (simp add: Let_def)
qed simp

text \<open>
  C16: Windows come back. If every channel that is shown is one that asking for it again gives back, writing
  the windows and loading them again gives the same windows with the same bounds and states, the same
  tabs with the same tab selected, and in every tab the same splits in the same arrangement; a window
  that is both maximized and minimized comes back maximized only.
\<close>

theorem windows_survive_restart:
  assumes "\<And>u. parseUuid (uuidText u) = u" "is_int32 (fst emote)" "is_int32 (snd emote)"
    and "\<forall>w \<in> set ws. window_ok cv src keep w" "main_windows ws \<le> 1" "ws \<noteq> []"
  shows "\<exists>ws'. applyWindowLayout src keep defaultBounds (loadFromFile parseUuid (save_windows uuidText cv emote ws)) = Some (emote, ws') \<and>
    list_all2 same_window ws ws'"
proof -
  have "loadFromFile parseUuid (save_windows uuidText cv emote ws) =
      \<lparr>wl_emotePopupPos = emote, wl_windows = map (window_descriptor_of cv) ws\<rparr>"
    using load_windows_saved [OF assms(1-4), of False] assms(5,6) by (simp add: loadFromFile_def save_windows_def)
  then show ?thesis using apply_windows_restore [OF assms(4), of False defaultBounds] assms(5) by (auto simp: applyWindowLayout_def)
qed

text \<open>A popup window with a tab of two splits, for the example; channels are their names.\<close>

definition sample_view :: "qstring channel_view" where
  "sample_view = \<lparr>cv_type = (\<lambda>_. Twitch), cv_name = id, cv_server = (\<lambda>_. None)\<rparr>"

definition sample_source :: "qstring channel_source" where
  "sample_source = \<lparr>cs_twitch = id, cs_mentions = [], cs_whispers = [], cs_live = [], cs_irc = (\<lambda>_ n. n), cs_empty = []\<rparr>"

definition sample_split :: "nat \<Rightarrow> qstring split" where
  "sample_split n = (n, \<lparr>sp_channel = DirectTo (show_nat n), sp_moderationMode = (n = 1), sp_filters = []\<rparr>)"

definition sample_tab :: "qstring tab" where
  "sample_tab = \<lparr>tab_splits = \<lparr>baseNode = Node \<lparr>nd_id = 0, nd_type = HorizontalContainer, nd_split = None, nd_prefered = None, nd_flexH = 1, nd_flexV = 1\<rparr>
       [split_node 3 (sample_split 1), split_node 4 (sample_split 2)],
     splits = [sample_split 1, sample_split 2], selected_ptr = None, next_id = 5, focus_request = None\<rparr>,
     tab_customTitle = ''chat'', tab_highlightsEnabled = False\<rparr>"

definition sample_window :: "qstring window" where
  "sample_window = \<lparr>win_type = PopupWindow, win_maximized = False, win_minimized = True, win_bounds = (10, 20, 300, 400),
     win_notebook = \<lparr>items = [7], selectedPage = Some 7, tab_selected = (\<lambda>p. p = 7), page_visible = (\<lambda>p. p = 7), layoutLocked = False\<rparr>,
     win_tab = (\<lambda>_. sample_tab)\<rparr>"

theorem windows_survive_restart_witness:
  "\<exists>ws'. applyWindowLayout sample_source (\<lambda>_. True) (0, 0, 1, 1)
      (loadFromFile length (save_windows (\<lambda>u. replicate u CHR ''0'') sample_view (5, 6) [sample_window])) = Some ((5, 6), ws') \<and>
    list_all2 same_window [sample_window] ws'"
proof -
  have "in_step (tab_splits sample_tab)"
    by (simp add: sample_tab_def in_step_def root_ok_def own_split_def is_container_def split_node_def sample_split_def)
  then have "window_ok sample_view sample_source (\<lambda>_. True) sample_window"
    by (simp add: window_ok_def sample_window_def good_rect_def is_int32_def notebook_ok_def all_restorable_def)
      (simp add: sample_tab_def sample_split_def restorable_def sample_view_def sample_source_def)
  then show ?thesis
    by (intro windows_survive_restart [of length "\<lambda>u. replicate u CHR ''0''"]) (simp_all add: is_int32_def main_windows_def sample_window_def)
qed

section \<open>Files written by hand\<close>

definition main_descriptors :: "window_descriptor list \<Rightarrow> nat" where
  "main_descriptors wds = length (filter (\<lambda>wd. wd_type wd = MainWindow) wds)"

lemma load_windows_main:
  "main_descriptors (wl_windows (load_windows parseUuid b vs l)) \<le> main_descriptors (wl_windows l) + (if b then 0 else 1)"
proof (induction vs arbitrary: b l)
  case (Cons v vs)
  let ?m = "json_toString [] (json_value (toObject v) ''type'') = ''main''"
  let ?popup = "toObject (json_value (toObject v) ''emotePopup'')"
  let ?l = "l\<lparr>wl_emotePopupPos := (json_toInt 0 (json_value ?popup ''x''), json_toInt 0 (json_value ?popup ''y'')),
    wl_windows := wl_windows l @ [load_window parseUuid b (toObject v)]\<rparr>"
  have e: "load_windows parseUuid b (v # vs) l = load_windows parseUuid (b \<or> ?m) vs ?l" by (simp add: Let_def)
  have "main_descriptors (wl_windows (load_windows parseUuid b (v # vs) l)) \<le> main_descriptors (wl_windows ?l) + (if b \<or> ?m then 0 else 1)"
    unfolding e by (rule Cons.IH)
  also have "main_descriptors (wl_windows ?l) = main_descriptors (wl_windows l) + (if ?m \<and> \<not> b then 1 else 0)"
    by (simp add: main_descriptors_def load_window_def)
  finally show ?case by (cases b; cases ?m) simp_all
qed simp

lemma applyFromDescriptor_start: "applyFromDescriptor src d SplitContainer \<noteq> None"
  by (cases d) (auto simp: applyFromDescriptor_def SplitContainer_def empty_node_def appendSplit_def insertSplit_def insertSplitRelative_def
    setSplit_def Let_def split: prod.splits)

lemma apply_tabs_defined:
  "\<lbrakk>notebook_ok (win_notebook w); items (win_notebook w) = [0..<page]; fresh_pages (win_notebook w)\<rbrakk> \<Longrightarrow>
   \<exists>w'. apply_tabs src tds page w = Some w' \<and> notebook_ok (win_notebook w') \<and> win_type w' = win_type w"
proof (induction tds arbitrary: page w)
  case (Cons td tds)
  obtain nb1 nb2 where n: "addPage page False (win_notebook w) = Some nb1"
      "(if td_selected td then select_page (Some page) nb1 else Some nb1) = Some nb2" "notebook_ok nb2" "items nb2 = [0..<Suc page]"
      "fresh_pages nb2"
    using add_and_select [OF Cons.prems, of "td_selected td"] by blast
  obtain c where c: "(case td_rootNode td of None \<Rightarrow> Some SplitContainer | Some d \<Rightarrow> applyFromDescriptor src d SplitContainer) = Some c"
    using applyFromDescriptor_start by (cases "td_rootNode td") fastforce+
  obtain w1 where w1: "apply_tab src td page w = Some w1" "win_notebook w1 = nb2" "win_type w1 = win_type w"
    using n(1,2) c by (simp add: apply_tab_def)
  show ?case using Cons.IH [of w1 "Suc page"] w1 n(3-5) by simp
qed simp

lemma apply_windows_defined:
  "main_descriptors wds + (if b then 1 else 0) \<le> 1 \<Longrightarrow>
   \<exists>ws. apply_windows src keep def b wds = Some ws \<and> list_all (\<lambda>w. notebook_ok (win_notebook w)) ws \<and>
     main_windows ws = main_descriptors wds"
proof (induction wds arbitrary: b)
  case (Cons wd wds)
  let ?w = "\<lambda>bounds. \<lparr>win_type = wd_type wd, win_maximized = (wd_state wd = Maximized), win_minimized = (wd_state wd = Minimized),
    win_bounds = bounds, win_notebook = Notebook, win_tab = (\<lambda>_. new_tab)\<rparr>"
  have "notebook_ok (win_notebook (?w r))" "items (win_notebook (?w r)) = [0..<0]" "fresh_pages (win_notebook (?w r))" for r
    by (simp_all add: Notebook_def notebook_ok_def fresh_pages_def)
  note tabs = apply_tabs_defined [OF this, of src "wd_tabs wd"]
  obtain r where "apply_window src keep def wd = apply_tabs src (wd_tabs wd) 0 (?w r)"
    by (cases "wd_geometry wd") (auto simp: apply_window_def Let_def)
  with tabs [of r] obtain w where w: "apply_window src keep def wd = Some w" "notebook_ok (win_notebook w)" "win_type w = wd_type wd"
    by auto
  have "main_descriptors wds + (if b \<or> wd_type wd = MainWindow then 1 else 0) \<le> 1"
    using Cons.prems by (auto simp: main_descriptors_def split: if_splits)
  from Cons.IH [OF this] obtain ws where
    "apply_windows src keep def (b \<or> wd_type wd = MainWindow) wds = Some ws" "list_all (\<lambda>w. notebook_ok (win_notebook w)) ws"
    "main_windows ws = main_descriptors wds" by blast
  then show ?case using w Cons.prems by (auto simp: main_windows_def main_descriptors_def split: if_splits)
qed (simp add: main_windows_def main_descriptors_def)

text \<open>
  Whatever the layout file holds, loading and applying it never fails an assertion: at most one window is
  the main window, and in every window that has tabs exactly one of them is selected.
\<close>

theorem any_layout_applies:
  "\<exists>emote ws. applyWindowLayout src keep defaultBounds (loadFromFile parseUuid file) = Some (emote, ws) \<and>
    main_windows ws \<le> 1 \<and> list_all (\<lambda>w. notebook_ok (win_notebook w)) ws"
proof -
  have m: "main_descriptors (wl_windows (loadFromFile parseUuid file)) \<le> 1"
    using load_windows_main [of parseUuid False "toArray (json_value file ''windows'')" "\<lparr>wl_emotePopupPos = (0, 0), wl_windows = []\<rparr>"]
    by (simp add: loadFromFile_def main_descriptors_def)
  then show ?thesis
    using apply_windows_defined [of "wl_windows (loadFromFile parseUuid file)" False src keep defaultBounds]
    by (auto simp: applyWindowLayout_def)
qed

end
