(* ===== verification/Message_Similarity.thy ===== *)
theory Message_Similarity
  imports Complex_Main Channels "HOL-Library.Sublist"
begin

text \<open>
  \<open>providers/twitch/IrcMessageHandler.cpp\<close>, hiding of similar messages: the share of the longest common
  substring in the longer of two texts, and the flags of a message that repeats a recent one.
  Quotients are of type \<open>float\<close> in the program: \<open>rnd\<close> is the rounding of a quotient, and the quotients
  themselves are rational numbers.
\<close>

section \<open>The table of common substrings\<close>

text \<open>One round of the inner loop; the vector of vectors is a function of the two indices.\<close>

definition tree_cell :: "qstring \<Rightarrow> qstring \<Rightarrow> nat \<Rightarrow> nat \<Rightarrow> (nat \<Rightarrow> nat \<Rightarrow> int) \<times> int \<Rightarrow> (nat \<Rightarrow> nat \<Rightarrow> int) \<times> int" where
  "tree_cell str1 str2 i j = (\<lambda>(tree, z).
     if str1 ! i = str2 ! j then
       (let v = (if i = 0 \<or> j = 0 then 1 else tree (i - 1) (j - 1) + 1)
        in (tree(i := (tree i)(j := v)), if v > z then v else z))
     else (tree(i := (tree i)(j := 0)), z))"

definition tree_row :: "qstring \<Rightarrow> qstring \<Rightarrow> nat \<Rightarrow> (nat \<Rightarrow> nat \<Rightarrow> int) \<times> int \<Rightarrow> (nat \<Rightarrow> nat \<Rightarrow> int) \<times> int" where
  "tree_row str1 str2 i st = fold (tree_cell str1 str2 i) [0..<length str2] st"

definition longest_common :: "qstring \<Rightarrow> qstring \<Rightarrow> int" where
  "longest_common str1 str2 = snd (fold (tree_row str1 str2) [0..<length str1] (\<lambda>_ _. 0, 0))"

definition relativeSimilarity :: "(rat \<Rightarrow> rat) \<Rightarrow> qstring \<Rightarrow> qstring \<Rightarrow> rat" where
  "relativeSimilarity rnd str1 str2 =
     (let z = longest_common str1 str2
      in if z = 0 then 0 else rnd (of_int z / of_int (max 1 (max (int (length str1)) (int (length str2))))))"

section \<open>Similar messages\<close>

record similarity_settings =
  similarityEnabled :: bool
  similarityPercentage :: rat
  hideSimilarMaxMessagesToCheck :: int
  hideSimilarMaxDelay :: int
  hideSimilarBySameUser :: bool
  hideSimilarMyself :: bool
  colorSimilarDisabled :: bool

text \<open>\<open>QTime::secsTo\<close> of times of the day in milliseconds.\<close>

definition secsTo :: "int \<Rightarrow> int \<Rightarrow> int" where
  "secsTo t u = u div 1000 - t div 1000"

text \<open>The loop over the previous messages, newest first.\<close>

fun similarity_loop :: "(rat \<Rightarrow> rat) \<Rightarrow> similarity_settings \<Rightarrow> int \<Rightarrow> message \<Rightarrow> message list \<Rightarrow> int \<Rightarrow> rat \<Rightarrow> rat" where
  "similarity_loop rnd s now msg [] checked best = best"
| "similarity_loop rnd s now msg (prevMsg # older) checked best =
     (if checked \<ge> hideSimilarMaxMessagesToCheck s then best
      else if secsTo (parseTime prevMsg) now \<ge> hideSimilarMaxDelay s then best
      else if hideSimilarBySameUser s \<and> loginName msg \<noteq> loginName prevMsg then
        similarity_loop rnd s now msg older checked best
      else similarity_loop rnd s now msg older (checked + 1)
             (max best (relativeSimilarity rnd (messageText msg) (messageText prevMsg))))"

definition similarity :: "(rat \<Rightarrow> rat) \<Rightarrow> similarity_settings \<Rightarrow> int \<Rightarrow> message \<Rightarrow> message list \<Rightarrow> rat" where
  "similarity rnd s now msg messages = similarity_loop rnd s now msg (rev messages) 0 0"

definition setSimilarityFlags :: "(rat \<Rightarrow> rat) \<Rightarrow> similarity_settings \<Rightarrow> int \<Rightarrow> qstring \<Rightarrow> message list \<Rightarrow> message \<Rightarrow> message" where
  "setSimilarityFlags rnd s now currentUser snapshot msg =
     (if \<not> similarityEnabled s then msg
      else if loginName msg = currentUser \<and> \<not> hideSimilarMyself s then msg
      else if similarity rnd s now msg snapshot > similarityPercentage s then
        (let m = msg\<lparr>flags := fe_set_to (flag_value Similar) True (flags msg)\<rparr>
         in if colorSimilarDisabled s then m\<lparr>flags := fe_set_to (flag_value Disabled) True (flags m)\<rparr> else m)
      else msg)"

section \<open>The longest common substring\<close>

text \<open>The length of the longest common suffix of the texts up to two positions.\<close>

fun common_back :: "qstring \<Rightarrow> qstring \<Rightarrow> nat \<Rightarrow> nat \<Rightarrow> nat" where
  "common_back s t i j =
     (if s ! i = t ! j then (if i = 0 \<or> j = 0 then 1 else Suc (common_back s t (i - 1) (j - 1))) else 0)"

declare common_back.simps [simp del]

lemma common_back_bound: "common_back s t i j \<le> Suc i \<and> common_back s t i j \<le> Suc j"
proof (induction s t i j rule: common_back.induct)
  case (1 s t i j)
  then show ?case by (subst (1 2) common_back.simps) auto
qed

lemma common_back_chars: "d < common_back s t i j \<Longrightarrow> s ! (i - d) = t ! (j - d)"
proof (induction s t i j arbitrary: d rule: common_back.induct)
  case (1 s t i j)
  show ?case
  proof (cases d)
    case 0
    then show ?thesis using 1(2) by (subst (asm) common_back.simps) (auto split: if_splits)
  next
    case (Suc e)
    from 1(2) Suc have c: "s ! i = t ! j" "\<not> (i = 0 \<or> j = 0)" "e < common_back s t (i - 1) (j - 1)"
      by (subst (asm) common_back.simps, auto split: if_splits)+
    from 1(1) [OF c] show ?thesis using Suc by simp
  qed
qed

lemma common_back_long:
  "\<lbrakk>n \<le> Suc i; n \<le> Suc j; \<forall>d < n. s ! (i - d) = t ! (j - d)\<rbrakk> \<Longrightarrow> n \<le> common_back s t i j"
proof (induction n arbitrary: i j)
  case (Suc n)
  from Suc.prems(3) have e: "s ! i = t ! j" by force
  show ?case
  proof (cases "i = 0 \<or> j = 0")
    case True
    then have "n = 0" using Suc.prems(1,2) by auto
    then show ?thesis using e by (subst common_back.simps) auto
  next
    case False
    have "s ! (i - 1 - d) = t ! (j - 1 - d)" if "d < n" for d using Suc.prems(3) [rule_format, of "Suc d"] that by simp
    then have "n \<le> common_back s t (i - 1) (j - 1)" using Suc.prems(1,2) False by (intro Suc.IH) auto
    then show ?thesis using e False by (subst common_back.simps) auto
  qed
qed simp

lemma common_back_sublist:
  assumes "i < length s" "j < length t" defines "n \<equiv> common_back s t i j"
  shows "\<exists>w. length w = n \<and> sublist w s \<and> sublist w t"
proof -
  have b: "n \<le> Suc i" "n \<le> Suc j" using common_back_bound [of s t i j] by (simp_all add: n_def)
  let ?w = "take n (drop (Suc i - n) s)"
  have "take n (drop (Suc i - n) s) = take n (drop (Suc j - n) t)"
  proof (rule nth_equalityI)
    show "length (take n (drop (Suc i - n) s)) = length (take n (drop (Suc j - n) t))" using b assms by simp
  next
    fix k assume "k < length (take n (drop (Suc i - n) s))"
    then have k: "k < n" by simp
    then have "n - Suc k < common_back s t i j" by (simp add: n_def)
    from common_back_chars [OF this] k b assms(1,2)
    show "take n (drop (Suc i - n) s) ! k = take n (drop (Suc j - n) t) ! k" by (simp add: Suc_diff_le)
  qed
  moreover have "sublist (take n (drop m xs)) xs" for m :: nat and xs :: qstring
    by (metis sublist_order.order.trans sublist_drop sublist_take)
  moreover have "length ?w = n" using b assms(1) by simp
  ultimately show ?thesis by metis
qed

lemma nth_in_middle: "m < length w \<Longrightarrow> (xs @ w @ ys) ! (length xs + m) = w ! m"
  by (simp add: nth_append)

lemma sublist_common_back:
  assumes "sublist w s" "sublist w t" "w \<noteq> []"
  shows "\<exists>i < length s. \<exists>j < length t. length w \<le> common_back s t i j"
proof -
  obtain a b c d where e: "s = a @ w @ b" "t = c @ w @ d" using assms(1,2) by (auto simp: sublist_def)
  let ?i = "length a + length w - 1" and ?j = "length c + length w - 1"
  have "s ! (?i - k) = t ! (?j - k)" if "k < length w" for k
  proof -
    have "?i - k = length a + (length w - Suc k)" "?j - k = length c + (length w - Suc k)" using that by simp_all
    moreover have "s ! (length a + (length w - Suc k)) = w ! (length w - Suc k)"
      unfolding e by (rule nth_in_middle) (use that in simp)
    moreover have "t ! (length c + (length w - Suc k)) = w ! (length w - Suc k)"
      unfolding e by (rule nth_in_middle) (use that in simp)
    ultimately show ?thesis by simp
  qed
  then have "length w \<le> common_back s t ?i ?j" using assms(3) by (intro common_back_long) (auto simp: Suc_le_eq)
  moreover have "?i < length s" "?j < length t" using e assms(3) by (cases w; simp)+
  ultimately show ?thesis by blast
qed

text \<open>What the table holds while it is filled.\<close>

definition tree_inv :: "qstring \<Rightarrow> qstring \<Rightarrow> (nat \<times> nat) set \<Rightarrow> (nat \<Rightarrow> nat \<Rightarrow> int) \<times> int \<Rightarrow> bool" where
  "tree_inv s t filled st \<longleftrightarrow> (\<forall>i j. (i, j) \<in> filled \<longrightarrow> fst st i j = int (common_back s t i j)) \<and>
     (\<forall>i j. (i, j) \<in> filled \<longrightarrow> int (common_back s t i j) \<le> snd st) \<and> 0 \<le> snd st \<and>
     (snd st = 0 \<or> (\<exists>i j. (i, j) \<in> filled \<and> snd st = int (common_back s t i j)))"

lemma tree_cell_inv:
  assumes inv: "tree_inv s t filled st" and new: "(i, j) \<notin> filled" and diag: "\<lbrakk>i \<noteq> 0; j \<noteq> 0\<rbrakk> \<Longrightarrow> (i - 1, j - 1) \<in> filled"
  shows "tree_inv s t (insert (i, j) filled) (tree_cell s t i j st)"
proof -
  obtain tree z where st: "st = (tree, z)" by (cases st)
  let ?v = "int (common_back s t i j)"
  have "tree_cell s t i j st = (tree(i := (tree i)(j := ?v)), max z ?v)"
  proof (cases "s ! i = t ! j")
    case True
    have "?v = (if i = 0 \<or> j = 0 then 1 else tree (i - 1) (j - 1) + 1)"
      using True diag inv by (subst common_back.simps) (auto simp: tree_inv_def st)
    then show ?thesis using True by (auto simp: tree_cell_def st Let_def)
  next
    case False
    then have "?v = 0" by (subst common_back.simps) simp
    then show ?thesis using False inv by (simp add: tree_cell_def st tree_inv_def)
  qed
  moreover have "tree_inv s t (insert (i, j) filled) (tree(i := (tree i)(j := ?v)), max z ?v)"
    unfolding tree_inv_def
  proof (intro conjI)
    show "\<forall>p q. (p, q) \<in> insert (i, j) filled \<longrightarrow>
        fst (tree(i := (tree i)(j := ?v)), max z ?v) p q = int (common_back s t p q)"
      using inv new by (auto simp: tree_inv_def st)
    show "\<forall>p q. (p, q) \<in> insert (i, j) filled \<longrightarrow>
        int (common_back s t p q) \<le> snd (tree(i := (tree i)(j := ?v)), max z ?v)"
      using inv by (force simp: tree_inv_def st)
    show "0 \<le> snd (tree(i := (tree i)(j := ?v)), max z ?v)" by simp
    show "snd (tree(i := (tree i)(j := ?v)), max z ?v) = 0 \<or>
        (\<exists>p q. (p, q) \<in> insert (i, j) filled \<and> snd (tree(i := (tree i)(j := ?v)), max z ?v) = int (common_back s t p q))"
      using inv by (cases "z \<le> ?v") (auto simp: tree_inv_def st)
  qed
  ultimately show ?thesis by simp
qed

lemma tree_row_inv:
  assumes "tree_inv s t ({..<i} \<times> {..<length t}) st" "n \<le> length t"
  shows "tree_inv s t ({..<i} \<times> {..<length t} \<union> {i} \<times> {..<n}) (fold (tree_cell s t i) [0..<n] st)"
  using assms(2)
proof (induction n)
  case (Suc n)
  have e: "{..<i} \<times> {..<length t} \<union> {i} \<times> {..<Suc n} = insert (i, n) ({..<i} \<times> {..<length t} \<union> {i} \<times> {..<n})" by auto
  have "tree_inv s t ({..<i} \<times> {..<length t} \<union> {i} \<times> {..<n}) (fold (tree_cell s t i) [0..<n] st)"
    using Suc by simp
  from tree_cell_inv [OF this, of i n] Suc.prems show ?case unfolding e by force
qed (use assms(1) in simp)

lemma tree_inv_all: "tree_inv s t ({..<n} \<times> {..<length t}) (fold (tree_row s t) [0..<n] (\<lambda>_ _. 0, 0))"
proof (induction n)
  case (Suc n)
  have e: "{..<Suc n} \<times> {..<length t} = {..<n} \<times> {..<length t} \<union> {n} \<times> {..<length t}" by auto
  show ?case using tree_row_inv [OF Suc.IH le_refl] unfolding e by (simp add: tree_row_def)
qed (simp add: tree_inv_def)

lemma longest_common_Max:
  "longest_common s t = Max {int (length w) |w. sublist w s \<and> sublist w t}"
proof -
  let ?S = "{int (length w) |w. sublist w s \<and> sublist w t}" and ?z = "longest_common s t"
  have inv: "tree_inv s t ({..<length s} \<times> {..<length t}) (fold (tree_row s t) [0..<length s] (\<lambda>_ _. 0, 0))"
    by (rule tree_inv_all)
  then have z: "?z = 0 \<or> (\<exists>i j. i < length s \<and> j < length t \<and> ?z = int (common_back s t i j))"
    and le: "\<And>i j. i < length s \<Longrightarrow> j < length t \<Longrightarrow> int (common_back s t i j) \<le> ?z" and pos: "0 \<le> ?z"
    by (auto simp: tree_inv_def longest_common_def)
  have "?S \<subseteq> int ` {..length s}" using sublist_length_le by force
  then have "finite ?S" by (rule finite_subset) simp
  moreover have "?z \<in> ?S"
    using z
  proof
    assume "?z = 0"
    then show ?thesis by (intro CollectI exI [of _ "[]"]) simp
  next
    assume "\<exists>i j. i < length s \<and> j < length t \<and> ?z = int (common_back s t i j)"
    then show ?thesis using common_back_sublist by (metis (mono_tags, lifting) CollectI)
  qed
  moreover have "x \<le> ?z" if x: "x \<in> ?S" for x
  proof -
    obtain w where w: "x = int (length w)" "sublist w s" "sublist w t" using x by auto
    show ?thesis
    proof (cases "w = []")
      case False
      with sublist_common_back w(2,3) obtain i j where "i < length s" "j < length t" "length w \<le> common_back s t i j" by metis
      with le [of i j] w(1) show ?thesis by linarith
    qed (use w(1) pos in simp)
  qed
  ultimately show ?thesis by (intro Max_eqI [symmetric]) auto
qed

text \<open>
  The table computes the length of the longest common substring of two texts: it is the greatest
  length of a text that is part of both.
\<close>

theorem longest_common_correct:
  "longest_common s t = Max {int (length w) |w. sublist w s \<and> sublist w t}"
  by (rule longest_common_Max)

lemma similar_to_itself:
  assumes "s \<noteq> []" "rnd 1 = 1"
  shows "relativeSimilarity rnd s s = 1"
proof -
  have "longest_common s s = int (length s)"
    unfolding longest_common_Max
  proof (rule Max_eqI)
    have "{int (length w) |w. sublist w s \<and> sublist w s} \<subseteq> int ` {..length s}" using sublist_length_le by force
    then show "finite {int (length w) |w. sublist w s \<and> sublist w s}" by (rule finite_subset) simp
  qed (auto dest: sublist_length_le)
  then show ?thesis using assms by (cases s) (simp_all add: relativeSimilarity_def max_def)
qed

end
