(* ===== verification/Twitch_Message.thy ===== *)
theory Twitch_Message
  imports Message_Similarity Text_Utils Highlights Twitch_Text Qt_Json
begin

text \<open>
  Messages made from what Twitch sends: \<open>TwitchMessageBuilder::build\<close> (the fields of the message, its text
  and the words; badges, emotes and links as display elements are left out), the notices of
  \<open>IrcMessageHandler\<close> and the system messages at the end of \<open>TwitchMessageBuilder.cpp\<close>.
  What libcommuni reads from a line is the record \<open>irc_message\<close>; the tags are a list of keys and texts.
\<close>

section \<open>Lines\<close>

record irc_message =
  im_command :: qstring
  im_nick :: qstring
  im_tags :: "(qstring \<times> qstring) list"
  im_params :: "qstring list"
  im_content :: qstring
  im_target :: qstring
  im_isAction :: bool

definition tag :: "irc_message \<Rightarrow> qstring \<Rightarrow> qstring option" where
  "tag m k = map_of (im_tags m) k"

definition tag_text :: "irc_message \<Rightarrow> qstring \<Rightarrow> qstring" where
  "tag_text m k = (case tag m k of Some v \<Rightarrow> v | None \<Rightarrow> [])"

definition parameter :: "irc_message \<Rightarrow> nat \<Rightarrow> qstring" where
  "parameter m i = (if i < length (im_params m) then im_params m ! i else [])"

definition trimChannelName :: "qstring \<Rightarrow> qstring option" where
  "trimChannelName target =
     (if length target < 2 then None
      else if hd target \<noteq> CHR ''#'' then Some (CHR ''$'' # target)
      else Some (tl target))"

text \<open>\<open>parseTagString\<close> for the texts of this model: characters are read as UTF-16 units and back.\<close>

definition unescape_text :: "qstring \<Rightarrow> qstring" where
  "unescape_text s = map (\<lambda>w. char_of (unat w)) (parseTagString (map (\<lambda>c. of_nat (of_char c)) s))"

section \<open>What the builder reads\<close>

text \<open>
  Conversions of Qt (numbers, dates, colours, case), the settings, the current user and the third-party
  data the builder consults.
\<close>

record builder_env =
  be_now :: int
  be_nowDate :: int
  be_toInt :: "qstring \<Rightarrow> int option"
  be_toLongLong :: "qstring \<Rightarrow> int option"
  be_isoDate :: "qstring \<Rightarrow> int"
  be_toColor :: "qstring \<Rightarrow> int option"
  be_digitValue :: "char \<Rightarrow> int"
  be_foldEq :: "qstring \<Rightarrow> qstring \<Rightarrow> bool"
  be_toLower :: "qstring \<Rightarrow> qstring"
  be_isLowSurrogate :: "char \<Rightarrow> bool"
  be_toUInt :: "qstring \<Rightarrow> nat"
  be_twitchEmote :: "qstring \<Rightarrow> qstring \<Rightarrow> nat option"
  be_accountEmotes :: "(qstring \<times> nat option) list"
  be_emoteMatch :: "qstring \<Rightarrow> qstring \<Rightarrow> (nat \<times> nat) option"
  be_regex :: regex_ops
  be_phrases :: "ignore_phrase list"
  be_enableTwitchBlockedUsers :: bool
  be_blocks :: "qstring set"
  be_showBlocked :: show_ignored
  be_colorizeNicknames :: bool
  be_nonceFuckery :: bool
  be_highlightInlineWhispers :: bool
  be_whisperColor :: "int option"
  be_checks :: "highlight_check list"
  be_blacklisted :: "qstring \<Rightarrow> bool"
  be_fallbackSound :: qstring
  be_userName :: qstring

record parse_args =
  pa_isReceivedWhisper :: bool
  pa_trimSubscriberUsername :: bool
  pa_isStaffOrBroadcaster :: bool
  pa_isSubscriptionMessage :: bool
  pa_channelPointRewardId :: qstring

definition MessageParseArgs :: parse_args where
  "MessageParseArgs = \<lparr>pa_isReceivedWhisper = False, pa_trimSubscriberUsername = False,
     pa_isStaffOrBroadcaster = False, pa_isSubscriptionMessage = False, pa_channelPointRewardId = []\<rparr>"

text \<open>\<open>calculateMessageTime\<close>; a text that is no number is 0.\<close>

definition to_time :: "builder_env \<Rightarrow> qstring \<Rightarrow> int" where
  "to_time e s = (case be_toLongLong e s of Some t \<Rightarrow> t | None \<Rightarrow> 0)"

definition calculateMessageTime :: "builder_env \<Rightarrow> irc_message \<Rightarrow> int" where
  "calculateMessageTime e m =
     (if tag m ''historical'' \<noteq> None then
        (case be_toLongLong e (tag_text m ''rm-received-ts'') of
           Some ts \<Rightarrow> ts
         | None \<Rightarrow> to_time e (tag_text m ''tmi-sent-ts''))
      else case tag m ''tmi-sent-ts'' of
        Some ts \<Rightarrow> to_time e ts
      | None \<Rightarrow> (case tag m ''time'' of Some t \<Rightarrow> be_isoDate e t | None \<Rightarrow> be_nowDate e))"

section \<open>Rewards\<close>

record channel_point_reward =
  rw_id :: qstring
  rw_channelId :: qstring
  rw_title :: qstring
  rw_cost :: int
  rw_isUserInputRequired :: bool
  rw_user_id :: qstring
  rw_user_login :: qstring
  rw_user_displayName :: qstring

definition ChannelPointReward :: "qobject \<Rightarrow> channel_point_reward" where
  "ChannelPointReward redemption =
     (let reward = toObject (json_value redemption ''reward'');
          text = (\<lambda>ob k. json_toString [] (json_value ob k));
          needsInput = json_toBool False (json_value reward ''is_user_input_required'');
          user = (if needsInput then [] else toObject (json_value redemption ''user''))
      in \<lparr>rw_id = text reward ''id'', rw_channelId = text reward ''channel_id'', rw_title = text reward ''title'',
          rw_cost = json_toInt 0 (json_value reward ''cost''), rw_isUserInputRequired = needsInput,
          rw_user_id = text user ''id'', rw_user_login = text user ''login'', rw_user_displayName = text user ''display_name''\<rparr>)"

definition join_space :: "qstring list \<Rightarrow> qstring" where
  "join_space ws = join_with (CHR '' '') ws"

text \<open>The text of a reward; nothing is added for an ignored user.\<close>

definition appendChannelPointRewardMessage :: "builder_env \<Rightarrow> channel_point_reward \<Rightarrow> bool \<Rightarrow> bool \<Rightarrow> message \<Rightarrow> message" where
  "appendChannelPointRewardMessage e reward isMod isBroadcaster m =
     (if isIgnoredMessage (be_regex e) (be_foldEq e) (be_phrases e) (be_enableTwitchBlockedUsers e) (be_blocks e) (be_showBlocked e)
           \<lparr>igp_message = [], igp_twitchUserID = rw_user_id reward, igp_isMod = isMod, igp_isBroadcaster = isBroadcaster\<rparr>
      then m
      else
        (let textList = (if rw_isUserInputRequired reward then [''Redeemed''] else [rw_user_login reward, ''redeemed'']) @
               [rw_title reward, show_int (rw_cost reward)]
         in (set_flags [RedeemedChannelPointReward] m)\<lparr>messageText := join_space textList, searchText := join_space textList\<rparr>))"

section \<open>Building a message\<close>

text \<open>
  The channel the message is for: its name, whether it is a TwitchChannel and which rewards that knows,
  and the role of the current user in it.
\<close>

record channel_info =
  ci_name :: qstring
  ci_isTwitch :: bool
  ci_rewards :: "(qstring \<times> channel_point_reward) list"
  ci_isMod :: bool
  ci_isBroadcaster :: bool

record built =
  bt_highlight :: builder_highlight
  bt_userName :: qstring
  bt_color :: "int option"
  bt_historical :: bool
  bt_moderation :: bool
  bt_bitsLeft :: "int option"
  bt_pieces :: "piece list"

definition isIgnored :: "builder_env \<Rightarrow> channel_info \<Rightarrow> irc_message \<Rightarrow> qstring \<Rightarrow> bool" where
  "isIgnored e ci m content =
     isIgnoredMessage (be_regex e) (be_foldEq e) (be_phrases e) (be_enableTwitchBlockedUsers e) (be_blocks e) (be_showBlocked e)
       \<lparr>igp_message = content, igp_twitchUserID = tag_text m ''user-id'', igp_isMod = ci_isMod ci,
        igp_isBroadcaster = ci_isBroadcaster ci\<rparr>"

definition rgb_number :: "nat \<times> nat \<times> nat \<Rightarrow> int" where
  "rgb_number = (\<lambda>(r, g, b). int r * 65536 + int g * 256 + int b)"

definition parseUsernameColor :: "builder_env \<Rightarrow> irc_message \<Rightarrow> int option" where
  "parseUsernameColor e m =
     (if tag_text m ''color'' \<noteq> [] then be_toColor e (tag_text m ''color'')
      else if be_colorizeNicknames e \<and> tag m ''user-id'' \<noteq> None
      then map_option rgb_number (getRandomColor (be_toInt e) (be_digitValue e) (tag_text m ''user-id''))
      else None)"

definition parseUsername :: "parse_args \<Rightarrow> irc_message \<Rightarrow> qstring" where
  "parseUsername args m =
     (if im_nick m = [] \<or> pa_trimSubscriberUsername args then tag_text m ''login'' else im_nick m)"

definition isAbnormalNonce :: "qstring \<Rightarrow> bool" where
  "isAbnormalNonce nonce \<longleftrightarrow>
     length nonce \<noteq> 32 \<or>
     list_ex (\<lambda>c. let n = of_char c :: nat in (48 > n \<or> n > 57) \<and> (97 > n \<or> n > 102)) nonce"

definition shouldAddModerationElements :: "parse_args \<Rightarrow> bool \<Rightarrow> irc_message \<Rightarrow> bool" where
  "shouldAddModerationElements args senderIsBroadcaster m =
     (if senderIsBroadcaster then False
      else if tag_text m ''user-type'' = ''mod'' \<and> \<not> pa_isStaffOrBroadcaster args then False
      else True)"

text \<open>A map keeps the first entry of a key (\<open>emplace\<close>).\<close>

definition parseBadgeInfoTag :: "irc_message \<Rightarrow> (qstring \<times> qstring) list" where
  "parseBadgeInfoTag m =
     (case tag m ''badge-info'' of
        None \<Rightarrow> []
      | Some info \<Rightarrow>
          fold (\<lambda>badge infoMap. case slashKeyValue badge of (k, v) \<Rightarrow>
              if map_of infoMap k = None then infoMap @ [(k, v)] else infoMap)
            (split_skip (CHR '','') info) [])"

definition appendUsername :: "builder_env \<Rightarrow> irc_message \<Rightarrow> qstring \<Rightarrow> message \<Rightarrow> message" where
  "appendUsername e m userName msg =
     (let msg1 = msg\<lparr>loginName := userName\<rparr>
      in case tag m ''display-name'' of
           None \<Rightarrow> msg1
         | Some t \<Rightarrow>
             (let name = q_trimmed (unescape_text t) in
              if be_foldEq e name userName then msg1\<lparr>displayName := name\<rparr>
              else msg1\<lparr>displayName := userName, localizedName := name\<rparr>))"

text \<open>The flags the tags set, in the order of \<open>build\<close>.\<close>

definition tag_flags :: "builder_env \<Rightarrow> irc_message \<Rightarrow> bool \<Rightarrow> MessageFlag list" where
  "tag_flags e m inThread =
     (if tag m ''client-nonce'' \<noteq> None \<and> be_nonceFuckery e \<and> \<not> isAbnormalNonce (tag_text m ''client-nonce'')
        then [WebchatDetected] else []) @
     (if tag m ''rm-deleted'' \<noteq> None then [Disabled] else []) @
     (if tag m ''msg-id'' \<noteq> None \<and> ''highlighted-message'' \<in> set (split_on (CHR '';'') (tag_text m ''msg-id''))
        then [RedeemedHighlight] else []) @
     (if tag m ''first-msg'' \<noteq> None \<and> tag_text m ''first-msg'' = ''1'' then [FirstMessage] else []) @
     (if inThread then [ReplyMessage] else [])"

text \<open>
  \<open>build\<close>: \<open>extra\<close> are the flags set on the builder before. \<open>None\<close> where the text is not built
  (\<open>build_text\<close>).
\<close>

definition build :: "builder_env \<Rightarrow> parse_args \<Rightarrow> channel_info \<Rightarrow> irc_message \<Rightarrow> qstring \<Rightarrow> bool \<Rightarrow> message \<Rightarrow> built option" where
  "build e args ci m content inThread start =
     (let color = parseUsernameColor e m;
          userName = parseUsername args m;
          senderIsBroadcaster = (userName = ci_name ci);
          m1 = (set_flags [Collapsed] start)\<lparr>usernameColor := color, loginName := userName, channelName := ci_name ci\<rparr>;
          m2 = (case tag m ''id'' of Some i \<Rightarrow> m1\<lparr>id' := i\<rparr> | None \<Rightarrow> m1);
          m3 = (if pa_channelPointRewardId args \<noteq> [] then
                  (case map_of (ci_rewards ci) (pa_channelPointRewardId args) of
                     Some reward \<Rightarrow> appendChannelPointRewardMessage e reward (ci_isMod ci) (ci_isBroadcaster ci) m2
                   | None \<Rightarrow> m2)
                else m2);
          m4 = (set_flags (tag_flags e m inThread) m3)\<lparr>serverReceivedTime := calculateMessageTime e m\<rparr>;
          badgeList = parseBadgeTag (tag m ''badges'');
          m5 = (if ci_isTwitch ci then m4\<lparr>badges := map fst badgeList, badgeInfos := parseBadgeInfoTag m\<rparr> else m4);
          m6 = appendUsername e m userName m5
      in case build_text (be_toUInt e) (be_twitchEmote e) (be_isLowSurrogate e) (be_regex e) (be_foldEq e)
                (be_accountEmotes e) (be_emoteMatch e) (be_phrases e) (tag m ''emotes'') content of
           None \<Rightarrow> None
         | Some (text, pieces) \<Rightarrow>
             (let m7 = m6\<lparr>messageText := text, searchText := localizedName m6 @ '' '' @ userName @ '': '' @ text\<rparr>;
                  b = parseHighlights (be_blacklisted e (im_nick m)) (be_checks e) (be_userName e) (be_fallbackSound e)
                        \<lparr>isSubscriptionMessage = pa_isSubscriptionMessage args, isReceivedWhisper = pa_isReceivedWhisper args,
                         ca_badges = badgeList, ca_sender = im_nick m, ca_message = text, ca_self = False\<rparr>
                        \<lparr>bh_message = m7, highlightAlert = False, highlightSound = False, highlightSoundUrl = []\<rparr>;
                  b' = (if pa_isReceivedWhisper args \<and> be_highlightInlineWhispers e
                        then b\<lparr>bh_message := (set_flags [HighlightedWhisper] (bh_message b))\<lparr>highlightColor := be_whisperColor e\<rparr>\<rparr>
                        else b)
              in Some \<lparr>bt_highlight = b', bt_userName = userName, bt_color = color, bt_historical = (tag m ''historical'' \<noteq> None),
                   bt_moderation = shouldAddModerationElements args senderIsBroadcaster m,
                   bt_bitsLeft = map_option (\<lambda>b. case be_toInt e b of Some i \<Rightarrow> i | None \<Rightarrow> 0) (tag m ''bits''), bt_pieces = pieces\<rparr>))"

abbreviation built_message :: "built \<Rightarrow> message" where
  "built_message b \<equiv> bh_message (bt_highlight b)"

section \<open>Notices\<close>

definition generateBannedMessage :: "int \<Rightarrow> bool \<Rightarrow> message" where
  "generateBannedMessage now confirmedBan =
     (let bannedText = (if confirmedBan then ''You were banned from this channel!''
            else ''Your connection to this channel was unexpectedly dropped.'');
          prompt = (if confirmedBan then ''If you believe you have been unbanned, try reconnecting.'' else ''Try reconnecting.'');
          t = bannedText @ '' '' @ prompt
      in (set_flags [System] (new_message now))\<lparr>messageText := t, searchText := t\<rparr>)"

definition specialMessageTypes :: "qstring list" where
  "specialMessageTypes = [''sub'', ''subgift'', ''resub'', ''bitsbadgetier'', ''ritual'', ''announcement'']"

definition kFormatNumbers :: "int \<Rightarrow> qstring" where
  "kFormatNumbers number = show_int (sgn number * (\<bar>number\<bar> div 1000)) @ ''K''"

text \<open>\<open>%1 just earned a new %2 Bits badge!\<close> is filled in one pass.\<close>

definition systemMsgText :: "builder_env \<Rightarrow> irc_message \<Rightarrow> qstring \<Rightarrow> qstring" where
  "systemMsgText e m systemMsg =
     (let msgType = tag_text m ''msg-id'' in
      if msgType = ''bitsbadgetier'' then
        tag_text m ''display-name'' @ '' just earned a new '' @
          kFormatNumbers (case be_toInt e (tag_text m ''msg-param-threshold'') of Some n \<Rightarrow> n | None \<Rightarrow> 0) @ '' Bits badge!''
      else if msgType = ''announcement'' then ''Announcement''
      else systemMsg)"

definition userNotice_message :: "builder_env \<Rightarrow> irc_message \<Rightarrow> message option" where
  "userNotice_message e m =
     map_option (\<lambda>t. set_flags [Subscription] (system_message (be_now e) (unescape_text (systemMsgText e m t)))) (tag m ''system-msg'')"

definition parseUserNoticeMessage :: "builder_env \<Rightarrow> channel_info \<Rightarrow> irc_message \<Rightarrow> message list option" where
  "parseUserNoticeMessage e ci m =
     (let content = (if length (im_params m) \<ge> 2 then im_params m ! 1 else []);
          notice = (case userNotice_message e m of Some n \<Rightarrow> [n] | None \<Rightarrow> [])
      in if tag_text m ''msg-id'' \<in> set specialMessageTypes \<and> content \<noteq> [] then
           map_option (\<lambda>b. built_message b # notice)
             (build e (MessageParseArgs\<lparr>pa_trimSubscriberUsername := True\<rparr>) ci m content False
                (set_flags [Subscription] (new_message (be_now e))))
         else Some notice)"

definition parseNoticeMessage :: "builder_env \<Rightarrow> irc_message \<Rightarrow> message list" where
  "parseNoticeMessage e m =
     (if be_foldEq e (take 10 (im_content m)) ''Login auth'' then
        (let t = (''Login expired for user '' @ [CHR 34] @ be_userName e @ [CHR 34] @ ''!'') @ '' '' @ ''Try adding your account again.''
         in [system_message (be_now e) t])
      else if take 27 (im_content m) = ''You are permanently banned '' then [generateBannedMessage (be_now e) True]
      else if tag_text m ''msg-id'' = ''msg_timedout'' then
        (let parts = split_on (CHR '' '') (im_content m);
             remainingTime = formatTime_string (be_toInt e) (if 5 < length parts then parts ! 5 else [])
         in [system_message (be_now e) (''You are timed out for '' @ (if remainingTime = [] then ''0s'' else remainingTime) @ ''.'')])
      else [system_message (be_now e) (im_content m)])"

definition parsePrivMessage :: "builder_env \<Rightarrow> channel_info \<Rightarrow> irc_message \<Rightarrow> built list option" where
  "parsePrivMessage e ci m =
     (if isIgnored e ci m (im_content m) then Some []
      else map_option (\<lambda>b. [b]) (build e MessageParseArgs ci m (im_content m) False (new_message (be_now e))))"

text \<open>\<open>parseMessage\<close>, for the messages of the history.\<close>

definition parseMessage :: "builder_env \<Rightarrow> channel_info \<Rightarrow> irc_message \<Rightarrow> message list option" where
  "parseMessage e ci m =
     (if im_command m = ''PRIVMSG'' then map_option (map built_message) (parsePrivMessage e ci m)
      else if im_command m = ''USERNOTICE'' then parseUserNoticeMessage e ci m
      else if im_command m = ''NOTICE'' then Some (parseNoticeMessage e m)
      else Some [])"

section \<open>System messages of a channel\<close>

definition liveMessage :: "int \<Rightarrow> qstring \<Rightarrow> message" where
  "liveMessage now channel = (let t = channel @ '' is live!'' in (new_message now)\<lparr>messageText := t, searchText := t\<rparr>)"

definition liveSystemMessage :: "int \<Rightarrow> qstring \<Rightarrow> message" where
  "liveSystemMessage now channel = system_message now (channel @ '' is live!'')"

definition offlineSystemMessage :: "int \<Rightarrow> qstring \<Rightarrow> message" where
  "offlineSystemMessage now channel = system_message now (channel @ '' is now offline.'')"

definition hostingSystemMessage :: "int \<Rightarrow> qstring \<Rightarrow> bool \<Rightarrow> message" where
  "hostingSystemMessage now channel hostOn =
     system_message now (if hostOn then ''Now hosting '' @ channel @ ''.''
       else channel @ '' has gone offline. Exiting host mode.'')"

definition deletionMessage :: "int \<Rightarrow> message \<Rightarrow> message" where
  "deletionMessage now originalMessage =
     (set_flags [System, DoNotTriggerNotification, Timeout] (new_message now))\<lparr>timeoutUser := ''msg:'' @ id' originalMessage\<rparr>"

definition join_comma :: "qstring list \<Rightarrow> qstring" where
  "join_comma us = concat (map (\<lambda>i. (if i = 0 then [] else '', '') @ us ! i) [0..<length us])"

definition listOfUsersSystemMessage :: "int \<Rightarrow> qstring \<Rightarrow> qstring list \<Rightarrow> message" where
  "listOfUsersSystemMessage now prefixText users = system_message now (prefixText @ join_comma users)"

end
