(* ===== verification/Twitch_Server.thy ===== *)
theory Twitch_Server
  imports Twitch_Message Chatters Irc_Servers
begin

text \<open>
  What Twitch sends and what it does to the channels: \<open>providers/twitch/IrcMessageHandler.cpp\<close> and the state
  of \<open>TwitchChannel.cpp\<close> it changes, with the dispatch of \<open>TwitchIrcServer.cpp\<close>.

  The state is one record: the channel objects and the table of the server (\<open>Irc_Servers\<close>), what a
  TwitchChannel has beyond a Channel, one store for all messages (a message that is in a channel and in the
  mentions is one message, so disabling it shows in both), and the reply threads. What leaves the model
  (network requests, sounds) is recorded as an effect. \<open>None\<close> is a failed assertion, a null pointer or an index out of
  range. Threads and messages are held by shared pointers also outside the model: whether one is still
  alive is asked of the environment.
\<close>

section \<open>State\<close>

record room_modes =
  submode :: bool
  r9k :: bool
  emoteOnly :: bool
  followerOnly :: int
  slowMode :: int

definition RoomModes :: room_modes where
  "RoomModes = \<lparr>submode = False, r9k = False, emoteOnly = False, followerOnly = -1, slowMode = 0\<rparr>"

record stream_status =
  ss_live :: bool
  ss_rerun :: bool
  ss_viewerCount :: nat
  ss_title :: qstring
  ss_game :: qstring
  ss_gameId :: qstring
  ss_uptime :: qstring
  ss_streamType :: qstring

definition StreamStatus :: stream_status where
  "StreamStatus = \<lparr>ss_live = False, ss_rerun = False, ss_viewerCount = 0, ss_title = [], ss_game = [], ss_gameId = [], ss_uptime = [],
     ss_streamType = []\<rparr>"

text \<open>A cheer emote: what it costs at least, its colour and its pictures. A set has the prefix its expression is made of.\<close>

record cheer_emote =
  cheer_minBits :: int
  cheer_color :: qstring
  cheer_tooltip :: qstring
  cheer_animated :: "qstring list"
  cheer_static :: "qstring list"

record cheer_set =
  cset_prefix :: qstring
  cset_emotes :: "cheer_emote list"

text \<open>The pictures of a badge in three sizes, its description and its address.\<close>

record badge_emote =
  bde_images :: "qstring list"
  bde_tooltip :: qstring
  bde_url :: qstring

text \<open>A message that waits for its reward: the arguments of \<open>addMessage\<close>.\<close>

record waiting_message =
  wm_reward :: qstring
  wm_message :: irc_message
  wm_target :: qstring
  wm_content :: qstring
  wm_isSub :: bool
  wm_isAction :: bool

record twitch_info =
  ti_displayName :: qstring
  ti_localizedName :: qstring
  ti_roomId :: qstring
  ti_modes :: room_modes
  ti_mod :: bool
  ti_vip :: bool
  ti_staff :: bool
  ti_status :: stream_status
  ti_threads :: "(qstring \<times> nat) list"
  ti_rewards :: "(qstring \<times> channel_point_reward) list"
  ti_waiting :: "waiting_message list"
  ti_loadingRecent :: bool
  ti_lastSent :: qstring
  ti_chatters :: "int option channel_chatters"
  ti_chatterCount :: int
  ti_badgeSets :: "(qstring \<times> (qstring \<times> badge_emote) list) list"
  ti_cheerSets :: "cheer_set list"
  ti_titleTimer :: "int option"
  ti_clipTimer :: "int option"
  ti_clipInProgress :: bool

definition TwitchChannel :: "qstring \<Rightarrow> twitch_info" where
  "TwitchChannel name = \<lparr>ti_displayName = name, ti_localizedName = name, ti_roomId = [], ti_modes = RoomModes, ti_mod = False,
     ti_vip = False, ti_staff = False, ti_status = StreamStatus, ti_threads = [], ti_rewards = [], ti_waiting = [],
     ti_loadingRecent = False, ti_lastSent = [], ti_chatters = ChannelChatters,
     ti_chatterCount = 0, ti_badgeSets = [], ti_cheerSets = [], ti_titleTimer = None, ti_clipTimer = None, ti_clipInProgress = False\<rparr>"

record message_thread =
  th_rootId :: qstring
  th_root :: msg_ptr
  th_replies :: "msg_ptr list"

datatype tw_effect = RefreshPubSub qstring | GetChannel qstring | GetStream qstring | GetChatters qstring | CreateClip qstring | Toast qstring |
    PlayNotification | FlashTaskbar | DisplayNameChanged nat | NotificationsSaved "qstring list" | FetchStreams "qstring list" | RoomIdChanged nat | LoadRecentMessages nat | LoadUserstateEmotes | LoadEmotes
  | Highlight "highlight_effect list" | RoomModesChanged nat | LiveStatusChanged nat | Connect

record 'b tw_world =
  w_server :: irc_server
  w_objects :: "'b objects"
  w_special :: twitch_channels
  w_info :: "nat \<Rightarrow> twitch_info option"
  w_heap :: "msg_ptr \<Rightarrow> message"
  w_next :: msg_ptr
  w_replyThread :: "msg_ptr \<Rightarrow> nat option"
  w_threads :: "nat \<Rightarrow> message_thread"
  w_nextThread :: nat
  w_lastWhisper :: qstring
  w_emoteSets :: "qstring list"
  w_selfColor :: "int option"
  w_playerUrl :: qstring
  w_effects :: "tw_effect list"

record server_env =
  se_builder :: builder_env
  se_timeout :: timeout_env
  se_combine :: "qstring \<Rightarrow> qstring"
  se_caseKey :: "qstring \<Rightarrow> qstring"
  se_similarity :: similarity_settings
  se_round :: "rat \<Rightarrow> rat"
  se_hideSimilar :: bool
  se_similarHighlights :: bool
  se_hideDeletionActions :: bool
  se_inlineWhispers :: bool
  se_showJoins :: bool
  se_showParts :: bool
  se_loadHistory :: bool
  se_streamerMute :: bool
  se_mutedChannel :: "qstring \<Rightarrow> bool"
  se_hasFocus :: bool
  se_alwaysPlaySound :: bool
  se_guiThread :: bool
  se_threadAlive :: "nat \<Rightarrow> bool"
  se_messageAlive :: "msg_ptr \<Rightarrow> bool"

abbreviation env_now :: "server_env \<Rightarrow> int" where
  "env_now e \<equiv> be_now (se_builder e)"

abbreviation env_user :: "server_env \<Rightarrow> qstring" where
  "env_user e \<equiv> be_userName (se_builder e)"

definition effect :: "tw_effect \<Rightarrow> 'b tw_world \<Rightarrow> 'b tw_world" where
  "effect f w = w\<lparr>w_effects := w_effects w @ [f]\<rparr>"

section \<open>Channels in the common store\<close>

text \<open>A Channel operation of the channel object \<open>c\<close>, on the common store of messages.\<close>

definition view_channel :: "'b tw_world \<Rightarrow> 'b channel \<Rightarrow> 'b channel" where
  "view_channel w ch = ch\<lparr>ch_heap := w_heap w, ch_next := w_next w\<rparr>"

definition on_channel :: "nat \<Rightarrow> ('b channel \<Rightarrow> 'b channel) \<Rightarrow> 'b tw_world \<Rightarrow> 'b tw_world" where
  "on_channel c f w =
     (case w_objects w c of
        None \<Rightarrow> w
      | Some co \<Rightarrow>
          (let ch = f (view_channel w (co_channel co))
           in w\<lparr>w_objects := (w_objects w)(c \<mapsto> co\<lparr>co_channel := ch\<rparr>), w_heap := ch_heap ch, w_next := ch_next ch\<rparr>))"

definition channel_of :: "'b tw_world \<Rightarrow> nat \<Rightarrow> 'b channel option" where
  "channel_of w c = map_option (\<lambda>co. view_channel w (co_channel co)) (w_objects w c)"

definition snapshot_of :: "('b, msg_ptr) cbuf_ops \<Rightarrow> 'b tw_world \<Rightarrow> nat \<Rightarrow> msg_ptr list" where
  "snapshot_of B w c = (case channel_of w c of None \<Rightarrow> [] | Some ch \<Rightarrow> getMessageSnapshot B ch)"

definition change_info :: "nat \<Rightarrow> (twitch_info \<Rightarrow> twitch_info) \<Rightarrow> 'b tw_world \<Rightarrow> 'b tw_world" where
  "change_info c f w = (case w_info w c of None \<Rightarrow> w | Some i \<Rightarrow> w\<lparr>w_info := (w_info w)(c \<mapsto> f i)\<rparr>)"

definition make_message :: "message \<Rightarrow> 'b tw_world \<Rightarrow> msg_ptr \<times> 'b tw_world" where
  "make_message m w = (w_next w, w\<lparr>w_heap := (w_heap w)(w_next w := m), w_next := Suc (w_next w)\<rparr>)"

text \<open>\<open>MessageThread::liveCount\<close>.\<close>

definition liveCount :: "(msg_ptr \<Rightarrow> bool) \<Rightarrow> message_thread \<Rightarrow> nat" where
  "liveCount alive t = length (filter alive (th_replies t))"

definition liveCount_without :: "(msg_ptr \<Rightarrow> bool) \<Rightarrow> msg_ptr \<Rightarrow> message_thread \<Rightarrow> nat" where
  "liveCount_without alive exclude t = length (filter (\<lambda>r. alive r \<and> r \<noteq> exclude) (th_replies t))"

text \<open>What a TwitchChannel does when a message leaves at the start: a thread without other replies is forgotten.\<close>

definition forget_thread :: "server_env \<Rightarrow> nat \<Rightarrow> msg_ptr \<Rightarrow> 'b tw_world \<Rightarrow> 'b tw_world" where
  "forget_thread e c p w =
     (case w_replyThread w p of
        None \<Rightarrow> w
      | Some t \<Rightarrow>
          if liveCount_without (se_messageAlive e) p (w_threads w t) = 0
          then change_info c (\<lambda>i. i\<lparr>ti_threads := filter (\<lambda>(k, _). k \<noteq> th_rootId (w_threads w t)) (ti_threads i)\<rparr>) w
          else w)"

fun removed_messages :: "channel_signal list \<Rightarrow> msg_ptr list" where
  "removed_messages [] = []"
| "removed_messages (MessageRemovedFromStart (Some p) # ss) = p # removed_messages ss"
| "removed_messages (_ # ss) = removed_messages ss"

definition signals_of :: "'b tw_world \<Rightarrow> nat \<Rightarrow> channel_signal list" where
  "signals_of w c = (case w_objects w c of None \<Rightarrow> [] | Some co \<Rightarrow> ch_signals (co_channel co))"

definition run_channel :: "server_env \<Rightarrow> nat \<Rightarrow> ('b channel \<Rightarrow> 'b channel) \<Rightarrow> 'b tw_world \<Rightarrow> 'b tw_world" where
  "run_channel e c f w =
     (let w1 = on_channel c f w
      in fold (forget_thread e c) (removed_messages (drop (length (signals_of w c)) (signals_of w1 c))) w1)"

definition add_to :: "('b, msg_ptr) cbuf_ops \<Rightarrow> server_env \<Rightarrow> nat \<Rightarrow> msg_ptr \<Rightarrow> 'b tw_world \<Rightarrow> 'b tw_world" where
  "add_to B e c p = run_channel e c (addMessage B None p None)"

definition add_new :: "('b, msg_ptr) cbuf_ops \<Rightarrow> server_env \<Rightarrow> nat \<Rightarrow> message \<Rightarrow> 'b tw_world \<Rightarrow> 'b tw_world" where
  "add_new B e c m w = (let (p, w1) = make_message m w in add_to B e c p w1)"

text \<open>\<open>forEachChannel\<close> with an operation on every channel that is alive.\<close>

definition live_list :: "'b tw_world \<Rightarrow> nat list" where
  "live_list w = live_channels (w_objects w) (w_server w)"

definition add_to_all :: "('b, msg_ptr) cbuf_ops \<Rightarrow> server_env \<Rightarrow> msg_ptr \<Rightarrow> flags option \<Rightarrow> 'b tw_world \<Rightarrow> 'b tw_world" where
  "add_to_all B e p overrideFlags w =
     fold (\<lambda>c. run_channel e c (addMessage B None p overrideFlags)) (live_list w) w"

section \<open>Finding channels\<close>

definition twitch_class :: "('b, msg_ptr) cbuf_ops \<Rightarrow> nat \<Rightarrow> server_env \<Rightarrow> 'b tw_world \<Rightarrow> 'b server_class" where
  "twitch_class B limit e w =
     \<lparr>cleanChannelName = twitch_cleanChannelName (be_toLower (se_builder e)),
      getCustomChannel = twitch_getCustomChannel (w_special w),
      createChannel = (\<lambda>name. \<lparr>co_channel = new_channel B limit name Twitch, co_server = None\<rparr>)\<rparr>"

text \<open>\<open>getChannelOrEmpty\<close>, and \<open>isEmpty\<close> of the answer.\<close>

definition find_channel :: "('b, msg_ptr) cbuf_ops \<Rightarrow> server_env \<Rightarrow> 'b tw_world \<Rightarrow> qstring \<Rightarrow> nat option" where
  "find_channel B e w name =
     (case getChannelOrEmpty (twitch_class B 0 e w) (w_objects w) (w_server w) name of
        None \<Rightarrow> None
      | Some c \<Rightarrow> (case w_objects w c of
            None \<Rightarrow> None
          | Some co \<Rightarrow> if ch_name (co_channel co) = [] then None else Some c))"

definition name_of :: "'b tw_world \<Rightarrow> nat \<Rightarrow> qstring" where
  "name_of w c = (case w_objects w c of None \<Rightarrow> [] | Some co \<Rightarrow> ch_name (co_channel co))"

text \<open>Roles: of a Channel that is no TwitchChannel they are false.\<close>

definition is_mod :: "'b tw_world \<Rightarrow> nat \<Rightarrow> bool" where
  "is_mod w c = (case w_info w c of None \<Rightarrow> False | Some i \<Rightarrow> ti_mod i)"

definition isBroadcaster :: "server_env \<Rightarrow> 'b tw_world \<Rightarrow> nat \<Rightarrow> bool" where
  "isBroadcaster e w c = (case w_info w c of None \<Rightarrow> False | Some _ \<Rightarrow> name_of w c = env_user e)"

definition hasHighRateLimit :: "server_env \<Rightarrow> 'b tw_world \<Rightarrow> nat \<Rightarrow> bool" where
  "hasHighRateLimit e w c =
     (is_mod w c \<or> isBroadcaster e w c \<or> (case w_info w c of None \<Rightarrow> False | Some i \<Rightarrow> ti_vip i))"

definition info_for :: "server_env \<Rightarrow> 'b tw_world \<Rightarrow> nat \<Rightarrow> channel_info" where
  "info_for e w c = \<lparr>ci_name = name_of w c, ci_isTwitch = (w_info w c \<noteq> None),
     ci_rewards = (case w_info w c of None \<Rightarrow> [] | Some i \<Rightarrow> ti_rewards i),
     ci_isMod = is_mod w c, ci_isBroadcaster = isBroadcaster e w c\<rparr>"

section \<open>State of a TwitchChannel\<close>

definition refreshPubSub :: "nat \<Rightarrow> 'b tw_world \<Rightarrow> 'b tw_world" where
  "refreshPubSub c w =
     (case w_info w c of None \<Rightarrow> w | Some i \<Rightarrow> if ti_roomId i = [] then w else effect (RefreshPubSub (ti_roomId i)) w)"

definition setMod :: "bool \<Rightarrow> nat \<Rightarrow> 'b tw_world \<Rightarrow> 'b tw_world" where
  "setMod v c w =
     (case w_info w c of None \<Rightarrow> w
      | Some i \<Rightarrow> if ti_mod i \<noteq> v then refreshPubSub c (change_info c (\<lambda>i. i\<lparr>ti_mod := v\<rparr>) w) else w)"

definition setVIP :: "bool \<Rightarrow> nat \<Rightarrow> 'b tw_world \<Rightarrow> 'b tw_world" where
  "setVIP v c w =
     (case w_info w c of None \<Rightarrow> w
      | Some i \<Rightarrow> if ti_vip i \<noteq> v then refreshPubSub c (change_info c (\<lambda>i. i\<lparr>ti_vip := v\<rparr>) w) else w)"

definition setStaff :: "bool \<Rightarrow> nat \<Rightarrow> 'b tw_world \<Rightarrow> 'b tw_world" where
  "setStaff v c w =
     (case w_info w c of None \<Rightarrow> w
      | Some i \<Rightarrow> if ti_staff i \<noteq> v then refreshPubSub c (change_info c (\<lambda>i. i\<lparr>ti_staff := v\<rparr>) w) else w)"

definition loadRecentMessages :: "server_env \<Rightarrow> nat \<Rightarrow> 'b tw_world \<Rightarrow> 'b tw_world" where
  "loadRecentMessages e c w =
     (case w_info w c of None \<Rightarrow> w
      | Some i \<Rightarrow>
          if \<not> se_loadHistory e then w
          else if ti_loadingRecent i then w
          else effect (LoadRecentMessages c) (change_info c (\<lambda>i. i\<lparr>ti_loadingRecent := True\<rparr>) w))"

text \<open>The same after a reconnect; the answers are in \<open>Recent_Messages\<close>.\<close>

definition loadRecentMessagesReconnect :: "server_env \<Rightarrow> nat \<Rightarrow> 'b tw_world \<Rightarrow> 'b tw_world" where
  "loadRecentMessagesReconnect e c w =
     (case w_info w c of None \<Rightarrow> w
      | Some i \<Rightarrow>
          if \<not> se_loadHistory e then w
          else if ti_loadingRecent i then w
          else effect (LoadRecentMessages c) (change_info c (\<lambda>i. i\<lparr>ti_loadingRecent := True\<rparr>) w))"

definition setRoomId :: "server_env \<Rightarrow> qstring \<Rightarrow> nat \<Rightarrow> 'b tw_world \<Rightarrow> 'b tw_world" where
  "setRoomId e i c w =
     (case w_info w c of None \<Rightarrow> w
      | Some ti \<Rightarrow>
          if ti_roomId ti \<noteq> i
          then loadRecentMessages e c (effect (RoomIdChanged c) (refreshPubSub c (change_info c (\<lambda>ti. ti\<lparr>ti_roomId := i\<rparr>) w)))
          else w)"

definition setRoomModes :: "room_modes \<Rightarrow> nat \<Rightarrow> 'b tw_world \<Rightarrow> 'b tw_world" where
  "setRoomModes modes c w = effect (RoomModesChanged c) (change_info c (\<lambda>i. i\<lparr>ti_modes := modes\<rparr>) w)"

definition addReplyThread :: "nat \<Rightarrow> nat \<Rightarrow> 'b tw_world \<Rightarrow> 'b tw_world" where
  "addReplyThread t c w =
     change_info c (\<lambda>i. i\<lparr>ti_threads := (th_rootId (w_threads w t), t) #
       filter (\<lambda>(k, _). k \<noteq> th_rootId (w_threads w t)) (ti_threads i)\<rparr>) w"

definition cleanUpReplyThreads :: "server_env \<Rightarrow> nat \<Rightarrow> 'b tw_world \<Rightarrow> 'b tw_world" where
  "cleanUpReplyThreads e c w =
     change_info c (\<lambda>i. i\<lparr>ti_threads :=
       filter (\<lambda>(_, t). se_threadAlive e t \<and> liveCount (se_messageAlive e) (w_threads w t) \<noteq> 0) (ti_threads i)\<rparr>) w"

end
