(* ===== verification/Twitch_Handlers.thy ===== *)
theory Twitch_Handlers
  imports Twitch_Server "HOL-Library.Monad_Syntax"
begin

text \<open>
  The handlers of \<open>IrcMessageHandler.cpp\<close>, one per command, and the dispatch of \<open>TwitchIrcServer.cpp\<close>.
\<close>

section \<open>Chat messages\<close>

text \<open>The thread of a reply: the one the channel knows while it is alive, or a new one on a known message.\<close>

definition new_thread :: "('b, msg_ptr) cbuf_ops \<Rightarrow> nat \<Rightarrow> qstring \<Rightarrow> 'b tw_world \<Rightarrow> nat option \<times> 'b tw_world" where
  "new_thread B c replyID w =
     (case (case channel_of w c of None \<Rightarrow> None | Some ch \<Rightarrow> findMessage B replyID ch) of
        None \<Rightarrow> (None, w)
      | Some p \<Rightarrow>
          (let t = w_nextThread w;
               w1 = w\<lparr>w_threads := (w_threads w)(t := \<lparr>th_rootId = id' (w_heap w p), th_root = p, th_replies = []\<rparr>),
                 w_nextThread := Suc t\<rparr>
           in (Some t, addReplyThread t c w1)))"

definition find_thread :: "('b, msg_ptr) cbuf_ops \<Rightarrow> server_env \<Rightarrow> nat \<Rightarrow> qstring \<Rightarrow> 'b tw_world \<Rightarrow> nat option \<times> 'b tw_world" where
  "find_thread B e c replyID w =
     (case (case w_info w c of None \<Rightarrow> None | Some i \<Rightarrow> map_of (ti_threads i) replyID) of
        Some t \<Rightarrow> if se_threadAlive e t then (Some t, w) else new_thread B c replyID w
      | None \<Rightarrow> new_thread B c replyID w)"

text \<open>What \<open>build\<close> changes outside the message: the room id, the colours of users, the thread.\<close>

definition build_effects :: "server_env \<Rightarrow> nat \<Rightarrow> irc_message \<Rightarrow> built \<Rightarrow> 'b tw_world \<Rightarrow> 'b tw_world" where
  "build_effects e c m b w =
     (let w1 = change_info c (\<lambda>i. i\<lparr>ti_chatters := setUserColor (be_toLower (se_builder e)) (bt_userName b) (bt_color b) (ti_chatters i)\<rparr>) w;
          w2 = (if im_nick m = env_user e then w1\<lparr>w_selfColor := bt_color b\<rparr> else w1)
      in case w_info w2 c of
           None \<Rightarrow> w2
         | Some i \<Rightarrow> (case tag m ''room-id'' of
               Some r \<Rightarrow> if ti_roomId i = [] then setRoomId e r c w2 else w2
             | None \<Rightarrow> w2))"

definition in_thread :: "nat option \<Rightarrow> msg_ptr \<Rightarrow> 'b tw_world \<Rightarrow> 'b tw_world" where
  "in_thread thread p w =
     (case thread of None \<Rightarrow> w
      | Some t \<Rightarrow> w\<lparr>w_replyThread := (w_replyThread w)(p := Some t),
          w_threads := (w_threads w)(t := (w_threads w t)\<lparr>th_replies := th_replies (w_threads w t) @ [p]\<rparr>)\<rparr>)"

definition trigger :: "server_env \<Rightarrow> nat \<Rightarrow> built \<Rightarrow> 'b tw_world \<Rightarrow> 'b tw_world" where
  "trigger e c b w =
     (if bt_historical b then w
      else
        (let (url, effs) = triggerHighlights (se_streamerMute e) (se_mutedChannel e (name_of w c)) (se_hasFocus e)
               (se_alwaysPlaySound e) (se_guiThread e) (bt_highlight b) (w_playerUrl w)
         in effect (Highlight effs) (w\<lparr>w_playerUrl := url\<rparr>)))"

text \<open>The built message after the check for similar messages, and what becomes of it.\<close>

definition checked_message :: "('b, msg_ptr) cbuf_ops \<Rightarrow> server_env \<Rightarrow> nat \<Rightarrow> built \<Rightarrow> 'b tw_world \<Rightarrow> message" where
  "checked_message B e c b w =
     setSimilarityFlags (se_round e) (se_similarity e) (env_now e) (env_user e) (map (w_heap w) (snapshot_of B w c)) (built_message b)"

definition show_message :: "('b, msg_ptr) cbuf_ops \<Rightarrow> server_env \<Rightarrow> nat \<Rightarrow> built \<Rightarrow> message \<Rightarrow> msg_ptr \<Rightarrow> 'b tw_world \<Rightarrow> 'b tw_world" where
  "show_message B e c b msg p w =
     (let w1 = (if \<not> msg_has msg Similar \<or> \<not> se_hideSimilar e \<and> se_similarHighlights e then trigger e c b w else w);
          w2 = (if msg_has msg Highlighted \<and> msg_has msg ShowInMentions then add_to B e (mentionsChannel (w_special w1)) p w1 else w1);
          w3 = add_to B e c p w2
      in change_info c (\<lambda>i. i\<lparr>ti_chatters := cc_addRecentChatter (be_toLower (se_builder e)) (displayName msg) (ti_chatters i)\<rparr>) w3)"

text \<open>A subscription message is marked, and is no highlight, before it is built.\<close>

definition started_message :: "server_env \<Rightarrow> bool \<Rightarrow> message" where
  "started_message e isSub =
     (let start = new_message (env_now e)
      in if isSub then (set_flags [Subscription] start)\<lparr>flags := fe_unset (flag_value Highlighted) (flags (set_flags [Subscription] start))\<rparr>
         else start)"

text \<open>\<open>addMessage\<close> from where the channel is known and no reward is waited for.\<close>

definition deliver :: "('b, msg_ptr) cbuf_ops \<Rightarrow> server_env \<Rightarrow> nat \<Rightarrow> parse_args \<Rightarrow> irc_message \<Rightarrow> qstring \<Rightarrow> bool \<Rightarrow> 'b tw_world \<Rightarrow> 'b tw_world option" where
  "deliver B e c args m content isSub w =
     (if tag m ''reply-parent-msg-id'' \<noteq> None \<and> w_info w c = None then None
      else let (thread, w1) = (case tag m ''reply-parent-msg-id'' of
            Some replyID \<Rightarrow> find_thread B e c replyID w | None \<Rightarrow> (None, w))
      in if \<not> isSub \<and> isIgnored (se_builder e) (info_for e w c) m content then Some w1
         else
           (case build (se_builder e) args (info_for e w1 c) m content (thread \<noteq> None) (started_message e isSub) of
              None \<Rightarrow> None
            | Some b \<Rightarrow>
                (let w2 = build_effects e c m b w1;
                     msg = checked_message B e c b w2;
                     (p, w3) = make_message msg w2
                 in Some (show_message B e c b msg p (in_thread thread p w3)))))"

definition args_for :: "server_env \<Rightarrow> 'b tw_world \<Rightarrow> nat \<Rightarrow> bool \<Rightarrow> qstring \<Rightarrow> parse_args" where
  "args_for e w c isSub reward =
     MessageParseArgs\<lparr>pa_isSubscriptionMessage := isSub, pa_trimSubscriberUsername := isSub,
       pa_isStaffOrBroadcaster := isBroadcaster e w c, pa_channelPointRewardId := reward\<rparr>"

definition handler_addMessage :: "('b, msg_ptr) cbuf_ops \<Rightarrow> server_env \<Rightarrow> irc_message \<Rightarrow> qstring \<Rightarrow> qstring \<Rightarrow> bool \<Rightarrow> bool \<Rightarrow> 'b tw_world \<Rightarrow> 'b tw_world option" where
  "handler_addMessage B e m target content isSub isAction w =
     (case trimChannelName target of
        None \<Rightarrow> Some w
      | Some name \<Rightarrow>
          (case find_channel B e w name of
             None \<Rightarrow> Some w
           | Some c \<Rightarrow>
               (case tag m ''custom-reward-id'' of
                  None \<Rightarrow> deliver B e c (args_for e w c isSub []) m content isSub w
                | Some rewardId \<Rightarrow>
                    (case w_info w c of
                       None \<Rightarrow> None
                     | Some i \<Rightarrow>
                         if map_of (ti_rewards i) rewardId = None
                         then Some (change_info c (\<lambda>i. i\<lparr>ti_waiting := ti_waiting i @
                           [\<lparr>wm_reward = rewardId, wm_message = m, wm_target = target, wm_content = content, wm_isSub = isSub,
                             wm_isAction = isAction\<rparr>]\<rparr>) w)
                         else deliver B e c (args_for e w c isSub rewardId) m content isSub w))))"

definition handlePrivMessage :: "('b, msg_ptr) cbuf_ops \<Rightarrow> server_env \<Rightarrow> irc_message \<Rightarrow> 'b tw_world \<Rightarrow> 'b tw_world option" where
  "handlePrivMessage B e m w =
     handler_addMessage B e m (im_target m) (se_combine e (im_content m)) False (im_isAction m) w"

text \<open>\<open>addChannelPointReward\<close>: the messages that waited for the reward are added, in the order they came.\<close>

definition addChannelPointReward :: "('b, msg_ptr) cbuf_ops \<Rightarrow> server_env \<Rightarrow> channel_point_reward \<Rightarrow> nat \<Rightarrow> 'b tw_world \<Rightarrow> 'b tw_world option" where
  "addChannelPointReward B e reward c w =
     (case w_info w c of
        None \<Rightarrow> None
      | Some i \<Rightarrow>
          if \<not> rw_isUserInputRequired reward then
            Some (add_new B e c (appendChannelPointRewardMessage (se_builder e) reward (is_mod w c) (isBroadcaster e w c)
              (new_message (env_now e))) w)
          else if map_of (ti_rewards i) (rw_id reward) \<noteq> None then Some w
          else
            (let (ready, others) = partition (\<lambda>x. wm_reward x = rw_id reward) (ti_waiting i);
                 w1 = change_info c (\<lambda>i. i\<lparr>ti_rewards := ti_rewards i @ [(rw_id reward, reward)], ti_waiting := others\<rparr>) w
             in fold (\<lambda>x r. r \<bind> handler_addMessage B e (wm_message x) (wm_target x) (wm_content x) (wm_isSub x) (wm_isAction x))
                  ready (Some w1)))"

section \<open>The state of rooms and users\<close>

definition flag_tag :: "irc_message \<Rightarrow> qstring \<Rightarrow> bool \<Rightarrow> bool" where
  "flag_tag m k old = (case tag m k of Some v \<Rightarrow> v = ''1'' | None \<Rightarrow> old)"

definition number_tag :: "server_env \<Rightarrow> irc_message \<Rightarrow> qstring \<Rightarrow> int \<Rightarrow> int" where
  "number_tag e m k old =
     (case tag m k of Some v \<Rightarrow> (case be_toInt (se_builder e) v of Some n \<Rightarrow> n | None \<Rightarrow> 0) | None \<Rightarrow> old)"

definition handleRoomStateMessage :: "('b, msg_ptr) cbuf_ops \<Rightarrow> server_env \<Rightarrow> irc_message \<Rightarrow> 'b tw_world \<Rightarrow> 'b tw_world" where
  "handleRoomStateMessage B e m w =
     (case trimChannelName (parameter m 0) of
        None \<Rightarrow> w
      | Some name \<Rightarrow>
          (case find_channel B e w name of
             None \<Rightarrow> w
           | Some c \<Rightarrow>
               (case w_info w c of
                  None \<Rightarrow> w
                | Some i \<Rightarrow>
                    (let w1 = (case tag m ''room-id'' of Some r \<Rightarrow> setRoomId e r c w | None \<Rightarrow> w);
                         modes = \<lparr>submode = flag_tag m ''subs-only'' (submode (ti_modes i)),
                           r9k = flag_tag m ''r9k'' (r9k (ti_modes i)),
                           emoteOnly = flag_tag m ''emote-only'' (emoteOnly (ti_modes i)),
                           followerOnly = number_tag e m ''followers-only'' (followerOnly (ti_modes i)),
                           slowMode = number_tag e m ''slow'' (slowMode (ti_modes i))\<rparr>
                     in effect (RoomModesChanged c) (setRoomModes modes c w1)))))"

text \<open>\<open>parseBadges\<close>: a QMap, of which only the keys are asked.\<close>

definition parseBadges :: "qstring \<Rightarrow> (qstring \<times> qstring) list" where
  "parseBadges badgesString =
     fold (\<lambda>badgeData bs. case split_on (CHR ''/'') badgeData of
         [k, v] \<Rightarrow> qmap_insert k v bs
       | _ \<Rightarrow> bs) (split_on (CHR '','') badgesString) []"

definition set_roles :: "irc_message \<Rightarrow> nat option \<Rightarrow> 'b tw_world \<Rightarrow> 'b tw_world" where
  "set_roles m chan w =
     (case chan of
        None \<Rightarrow> w
      | Some c \<Rightarrow>
          (case tag m ''badges'' of
             None \<Rightarrow> w
           | Some b \<Rightarrow>
               (let parsed = map fst (parseBadges b)
                in setStaff (''staff'' \<in> set parsed) c (setVIP (''vip'' \<in> set parsed) c w))))"

definition set_mod :: "irc_message \<Rightarrow> nat option \<Rightarrow> 'b tw_world \<Rightarrow> 'b tw_world" where
  "set_mod m chan w =
     (case chan of None \<Rightarrow> w | Some c \<Rightarrow> (case tag m ''mod'' of None \<Rightarrow> w | Some v \<Rightarrow> setMod (v = ''1'') c w))"

text \<open>\<open>TwitchAccount::setUserstateEmoteSets\<close>.\<close>

definition setUserstateEmoteSets :: "qstring list \<Rightarrow> 'b tw_world \<Rightarrow> bool \<times> 'b tw_world" where
  "setUserstateEmoteSets newEmoteSets w =
     (let sorted = sort newEmoteSets
      in if w_emoteSets w = sorted then (False, w) else (True, w\<lparr>w_emoteSets := sorted\<rparr>))"

definition handleUserStateMessage :: "('b, msg_ptr) cbuf_ops \<Rightarrow> server_env \<Rightarrow> irc_message \<Rightarrow> 'b tw_world \<Rightarrow> 'b tw_world" where
  "handleUserStateMessage B e m w =
     (let (emoteSetsChanged, w1) = setUserstateEmoteSets (split_on (CHR '','') (tag_text m ''emote-sets'')) w;
          w2 = (if emoteSetsChanged then effect LoadUserstateEmotes w1 else w1)
      in case trimChannelName (parameter m 0) of
           None \<Rightarrow> w2
         | Some name \<Rightarrow>
             (let c = find_channel B e w2 name; pu = find_channel B e w2 (CHR ''$'' # name) in
              if c = None \<and> pu = None then w2
              else set_mod m pu (set_mod m c (set_roles m pu (set_roles m c w2)))))"

definition handleGlobalUserStateMessage :: "irc_message \<Rightarrow> 'b tw_world \<Rightarrow> 'b tw_world" where
  "handleGlobalUserStateMessage m w =
     effect LoadEmotes (snd (setUserstateEmoteSets (split_on (CHR '','') (tag_text m ''emote-sets'')) w))"

section \<open>Moderation\<close>

definition handleClearChatMessage :: "('b, msg_ptr) cbuf_ops \<Rightarrow> server_env \<Rightarrow> irc_message \<Rightarrow> 'b tw_world \<Rightarrow> 'b tw_world" where
  "handleClearChatMessage B e m w =
     (if length (im_params m) < 1 then w
      else case trimChannelName (parameter m 0) of
        None \<Rightarrow> w
      | Some name \<Rightarrow>
          (case find_channel B e w name of
             None \<Rightarrow> w
           | Some c \<Rightarrow>
               if length (im_params m) = 1
               then add_new B e c (system_message (env_now e) ''Chat has been cleared by a moderator.'')
                      (run_channel e c (disableAllMessages B) w)
               else
                 (let duration = tag_text m ''ban-duration'';
                      (p, w1) = make_message (timeout_message (be_toInt (se_builder e)) formatTime (env_now e) (parameter m 1) duration False) w
                  in run_channel e c (addOrReplaceTimeout B (se_timeout e) p) w1)))"

definition handleClearMessageMessage :: "('b, msg_ptr) cbuf_ops \<Rightarrow> server_env \<Rightarrow> irc_message \<Rightarrow> 'b tw_world \<Rightarrow> 'b tw_world" where
  "handleClearMessageMessage B e m w =
     (if length (im_params m) < 1 then w
      else case trimChannelName (parameter m 0) of
        None \<Rightarrow> w
      | Some name \<Rightarrow>
          (case find_channel B e w name of
             None \<Rightarrow> w
           | Some c \<Rightarrow>
               (case (case channel_of w c of None \<Rightarrow> None | Some ch \<Rightarrow> findMessage B (tag_text m ''target-msg-id'') ch) of
                  None \<Rightarrow> w
                | Some p \<Rightarrow>
                    (let w1 = run_channel e c (set_flag p Disabled) w
                     in if \<not> se_hideDeletionActions e then add_new B e c (deletionMessage (env_now e) (w_heap w1 p)) w1 else w1))))"

section \<open>Whispers and notices\<close>

definition handleWhisperMessage :: "('b, msg_ptr) cbuf_ops \<Rightarrow> server_env \<Rightarrow> irc_message \<Rightarrow> 'b tw_world \<Rightarrow> 'b tw_world option" where
  "handleWhisperMessage B e m w =
     (let c = whispersChannel (w_special w);
          content = se_combine e (parameter m 1);
          ci = info_for e w c
      in if isIgnored (se_builder e) ci m content then Some w
         else case build (se_builder e) (MessageParseArgs\<lparr>pa_isReceivedWhisper := True\<rparr>) ci m content False
                (set_flags [Whisper] (new_message (env_now e))) of
           None \<Rightarrow> None
         | Some b \<Rightarrow>
             (let w1 = build_effects e c m b w;
                  msg = built_message b;
                  (p, w2) = make_message msg w1;
                  w3 = (trigger e c b w2)\<lparr>w_lastWhisper := bt_userName b\<rparr>;
                  w4 = (if msg_has msg Highlighted then add_to B e (mentionsChannel (w_special w3)) p w3 else w3);
                  w5 = add_to B e c p w4;
                  overrideFlags = fe_set (flag_value DoNotLog) (fe_set (flag_value DoNotTriggerNotification) (flags msg))
              in Some (if se_inlineWhispers e then add_to_all B e p (Some overrideFlags) w5 else w5)))"

definition handleUserNoticeMessage :: "('b, msg_ptr) cbuf_ops \<Rightarrow> server_env \<Rightarrow> irc_message \<Rightarrow> 'b tw_world \<Rightarrow> 'b tw_world option" where
  "handleUserNoticeMessage B e m w =
     (if im_params m = [] then None
      else
        (let content = (if length (im_params m) \<ge> 2 then im_params m ! 1 else [])
         in (if tag_text m ''msg-id'' \<in> set specialMessageTypes \<and> content \<noteq> []
             then handler_addMessage B e m (im_params m ! 0) content True False w else Some w) \<bind>
            (\<lambda>w1. case userNotice_message (se_builder e) m of
               None \<Rightarrow> Some w1
             | Some n \<Rightarrow>
                 (case trimChannelName (parameter m 0) of
                    None \<Rightarrow> Some w1
                  | Some name \<Rightarrow>
                      (case find_channel B e w1 name of
                         None \<Rightarrow> Some w1
                       | Some c \<Rightarrow> Some (add_new B e c n w1))))))"

text \<open>Splitting at a comma and a space.\<close>

fun split_comma :: "qstring \<Rightarrow> qstring list" where
  "split_comma [] = [[]]"
| "split_comma (c # s) =
     (if c = CHR '','' \<and> take 1 s = '' '' then [] # split_comma (drop 1 s)
      else case split_comma s of p # ps \<Rightarrow> (c # p) # ps | [] \<Rightarrow> [[c]])"

text \<open>\<open>forEachChannelAndSpecialChannels\<close> with one message for all.\<close>

definition to_every_channel :: "('b, msg_ptr) cbuf_ops \<Rightarrow> server_env \<Rightarrow> message \<Rightarrow> 'b tw_world \<Rightarrow> 'b tw_world" where
  "to_every_channel B e msg w =
     (let (p, w1) = make_message msg w; w2 = add_to_all B e p None w1
      in fold (\<lambda>c. add_to B e c p) [whispersChannel (w_special w2), mentionsChannel (w_special w2), liveChannel (w_special w2)] w2)"

text \<open>What a notice becomes in the channel it is for, given the message that was parsed from it; \<open>Some None\<close> where nothing is shown.\<close>

definition notice_for_channel :: "server_env \<Rightarrow> bool \<Rightarrow> qstring \<Rightarrow> message \<Rightarrow> message option option" where
  "notice_for_channel e isTwitch tags msg =
     (if tags = ''usage_delete'' then
        Some (Some (system_message (env_now e)
          ''Usage: /delete <msg-id> - Deletes the specified message. Can't take more than one argument.''))
      else if tags = ''bad_delete_message_error'' then
        Some (Some (system_message (env_now e)
          ''There was a problem deleting the message. It might be from another channel or too old to delete.''))
      else if tags = ''host_on'' \<or> tags = ''host_target_went_offline'' then
        (let hostOn = (tags = ''host_on''); parts = split_on (CHR '' '') (messageText msg) in
         if hostOn \<and> length parts \<noteq> 3 \<or> \<not> hostOn \<and> length parts \<noteq> 7 then Some None
         else
           (let name = (if hostOn then parts ! 2 else parts ! 0) in
            if length name < 2 then Some None
            else Some (Some (hostingSystemMessage (env_now e) (if hostOn then butlast name else name) hostOn))))
      else if tags = ''room_mods'' \<or> tags = ''vips_success'' then
        (let noticeText = (if tags = ''vips_success'' then butlast (messageText msg) else messageText msg);
             msgParts = split_on (CHR '':'') noticeText
         in if \<not> isTwitch \<or> length msgParts < 2 then None
            else Some (Some (listOfUsersSystemMessage (env_now e) (msgParts ! 0)
              (sort_key (se_caseKey e) (split_comma (drop 1 (msgParts ! 1)))))))
      else Some (Some msg))"

definition handleNoticeMessage :: "('b, msg_ptr) cbuf_ops \<Rightarrow> server_env \<Rightarrow> irc_message \<Rightarrow> 'b tw_world \<Rightarrow> 'b tw_world option" where
  "handleNoticeMessage B e m w =
     (case parseNoticeMessage (se_builder e) m of
        [] \<Rightarrow> Some w
      | msg # _ \<Rightarrow>
          (case trimChannelName (im_target m) of
             None \<Rightarrow> Some (to_every_channel B e msg w)
           | Some name \<Rightarrow>
               if name = ''jtv'' then Some (to_every_channel B e msg w)
               else (case find_channel B e w name of
                 None \<Rightarrow> Some w
               | Some c \<Rightarrow>
                   (case notice_for_channel e (w_info w c \<noteq> None) (tag_text m ''msg-id'') msg of
                      None \<Rightarrow> None
                    | Some None \<Rightarrow> Some w
                    | Some (Some n) \<Rightarrow> Some (add_new B e c n w)))))"

section \<open>Users that come and go\<close>

definition handleJoinMessage :: "('b, msg_ptr) cbuf_ops \<Rightarrow> server_env \<Rightarrow> irc_message \<Rightarrow> 'b tw_world \<Rightarrow> 'b tw_world" where
  "handleJoinMessage B e m w =
     (case find_channel B e w (drop 1 (parameter m 0)) of
        None \<Rightarrow> w
      | Some c \<Rightarrow>
          if im_nick m \<noteq> env_user e \<and> se_showJoins e
          then change_info c (\<lambda>i. i\<lparr>ti_chatters := addJoinedUser (im_nick m) (ti_chatters i)\<rparr>) w else w)"

definition handlePartMessage :: "('b, msg_ptr) cbuf_ops \<Rightarrow> server_env \<Rightarrow> irc_message \<Rightarrow> 'b tw_world \<Rightarrow> 'b tw_world" where
  "handlePartMessage B e m w =
     (case find_channel B e w (drop 1 (parameter m 0)) of
        None \<Rightarrow> w
      | Some c \<Rightarrow>
          if w_info w c = None then w
          else
            (let w1 = (if im_nick m \<noteq> env_user e \<and> se_showParts e
               then change_info c (\<lambda>i. i\<lparr>ti_chatters := addPartedUser (im_nick m) (ti_chatters i)\<rparr>) w else w)
             in if im_nick m = env_user e then add_new B e c (generateBannedMessage (env_now e) False) w1 else w1))"

section \<open>Dispatch\<close>

definition reconnect_requested :: "('b, msg_ptr) cbuf_ops \<Rightarrow> server_env \<Rightarrow> 'b tw_world \<Rightarrow> 'b tw_world" where
  "reconnect_requested B e w =
     (let (p, w1) = make_message (system_message (env_now e) ''Twitch Servers requested us to reconnect, reconnecting'') w
      in effect Connect (add_to_all B e p None w1))"

definition readConnectionMessageReceived :: "('b, msg_ptr) cbuf_ops \<Rightarrow> server_env \<Rightarrow> irc_message \<Rightarrow> 'b tw_world \<Rightarrow> 'b tw_world option" where
  "readConnectionMessageReceived B e m w =
     (let command = im_command m in
      if command = ''PRIVMSG'' then Some w
      else if command = ''JOIN'' then Some (handleJoinMessage B e m w)
      else if command = ''PART'' then Some (handlePartMessage B e m w)
      else if command = ''USERSTATE'' then Some (handleUserStateMessage B e m w)
      else if command = ''ROOMSTATE'' then Some (handleRoomStateMessage B e m w)
      else if command = ''CLEARCHAT'' then Some (handleClearChatMessage B e m w)
      else if command = ''CLEARMSG'' then Some (handleClearMessageMessage B e m w)
      else if command = ''USERNOTICE'' then handleUserNoticeMessage B e m w
      else if command = ''NOTICE'' then handleNoticeMessage B e m w
      else if command = ''WHISPER'' then handleWhisperMessage B e m w
      else if command = ''RECONNECT'' then Some (reconnect_requested B e w)
      else if command = ''GLOBALUSERSTATE'' then Some (handleGlobalUserStateMessage m w)
      else Some w)"

definition writeConnectionMessageReceived :: "('b, msg_ptr) cbuf_ops \<Rightarrow> server_env \<Rightarrow> irc_message \<Rightarrow> 'b tw_world \<Rightarrow> 'b tw_world option" where
  "writeConnectionMessageReceived B e m w =
     (if im_command m = ''USERSTATE'' then Some (handleUserStateMessage B e m w)
      else if im_command m = ''NOTICE'' then handleNoticeMessage B e m w
      else if im_command m = ''RECONNECT'' then Some (reconnect_requested B e w)
      else Some w)"

text \<open>A line from the read connection: PRIVMSG has a signal of its own, every line is also received.\<close>

definition line_received :: "('b, msg_ptr) cbuf_ops \<Rightarrow> server_env \<Rightarrow> irc_message \<Rightarrow> 'b tw_world \<Rightarrow> 'b tw_world option" where
  "line_received B e m w =
     readConnectionMessageReceived B e m w \<bind>
       (\<lambda>w1. if im_command m = ''PRIVMSG'' then handlePrivMessage B e m w1 else Some w1)"

end
