(* ===== verification/Twitch_Frame.thy ===== *)
theory Twitch_Frame
  imports Twitch_Handlers Channels_Correct
begin

text \<open>
  What the operations on the Twitch state leave alone: \<open>keeps\<close> for those that touch no channel and no
  message, \<open>touches S\<close> for those that change at most the channels of \<open>S\<close>, and what adding a message to one
  channel of the common store does.
\<close>

section \<open>Operations that touch no message\<close>

definition keeps :: "'b tw_world \<Rightarrow> 'b tw_world \<Rightarrow> bool" where
  "keeps w w' \<longleftrightarrow> w_objects w' = w_objects w \<and> w_heap w' = w_heap w \<and> w_next w' = w_next w \<and>
     w_special w' = w_special w \<and> w_server w' = w_server w \<and> (\<forall>c. w_info w' c = None \<longleftrightarrow> w_info w c = None)"

named_theorems keeps_intros

lemma keeps_refl [keeps_intros]: "keeps w w"
  by (simp add: keeps_def)

lemma keeps_trans: "keeps w w' \<Longrightarrow> keeps w' w'' \<Longrightarrow> keeps w w''"
  by (simp add: keeps_def)

lemma keeps_effect [keeps_intros]: "keeps w w' \<Longrightarrow> keeps w (effect f w')"
  by (simp add: keeps_def effect_def)

lemma change_info_simps [simp]:
  "w_objects (change_info c f w) = w_objects w" "w_heap (change_info c f w) = w_heap w" "w_next (change_info c f w) = w_next w"
  "w_special (change_info c f w) = w_special w" "w_server (change_info c f w) = w_server w"
  "w_info (change_info c f w) d = None \<longleftrightarrow> w_info w d = None"
  by (auto simp: change_info_def split: option.splits)

lemma keeps_change_info [keeps_intros]: "keeps w w' \<Longrightarrow> keeps w (change_info c f w')"
  by (simp add: keeps_def)

lemma keeps_refreshPubSub [keeps_intros]: "keeps w w' \<Longrightarrow> keeps w (refreshPubSub c w')"
  by (auto simp: refreshPubSub_def intro: keeps_intros split: option.splits)

lemma keeps_roles [keeps_intros]:
  "keeps w w' \<Longrightarrow> keeps w (setMod v c w')" "keeps w w' \<Longrightarrow> keeps w (setVIP v c w')" "keeps w w' \<Longrightarrow> keeps w (setStaff v c w')"
  by (auto simp: setMod_def setVIP_def setStaff_def intro: keeps_intros split: option.splits)

lemma keeps_loadRecent [keeps_intros]: "keeps w w' \<Longrightarrow> keeps w (loadRecentMessages e c w')"
  by (auto simp: loadRecentMessages_def intro: keeps_intros split: option.splits)

lemma keeps_room [keeps_intros]:
  "keeps w w' \<Longrightarrow> keeps w (setRoomId e i c w')" "keeps w w' \<Longrightarrow> keeps w (setRoomModes ms c w')"
  by (auto simp: setRoomId_def setRoomModes_def intro!: keeps_intros split: option.splits)

lemma keeps_forget [keeps_intros]: "keeps w w' \<Longrightarrow> keeps w (forget_thread e c p w')"
  by (auto simp: forget_thread_def intro: keeps_intros split: option.splits)

lemma keeps_forgets [keeps_intros]: "keeps w w' \<Longrightarrow> keeps w (fold (forget_thread e c) ps w')"
  by (induction ps arbitrary: w') (auto intro: keeps_intros)

lemma keeps_new_thread: "keeps w (snd (new_thread B c r w))"
  by (auto simp: new_thread_def addReplyThread_def Let_def keeps_def change_info_def split: option.splits)

lemma keeps_find_thread: "keeps w (snd (find_thread B e c r w))"
  by (auto simp: find_thread_def keeps_new_thread intro: keeps_intros split: option.splits)

lemma keeps_selfColor [keeps_intros]: "keeps w w' \<Longrightarrow> keeps w (w'\<lparr>w_selfColor := x\<rparr>)"
  by (simp add: keeps_def)

lemma keeps_lastWhisper [keeps_intros]: "keeps w w' \<Longrightarrow> keeps w (w'\<lparr>w_lastWhisper := x\<rparr>)"
  by (simp add: keeps_def)

lemma keeps_playerUrl [keeps_intros]: "keeps w w' \<Longrightarrow> keeps w (w'\<lparr>w_playerUrl := x\<rparr>)"
  by (simp add: keeps_def)

lemma keeps_build_effects [keeps_intros]: "keeps w w' \<Longrightarrow> keeps w (build_effects e c m b w')"
  by (auto simp: build_effects_def Let_def intro!: keeps_intros split: option.splits)

lemma keeps_in_thread [keeps_intros]: "keeps w w' \<Longrightarrow> keeps w (in_thread t p w')"
  by (auto simp: in_thread_def keeps_def split: option.splits)

lemma keeps_trigger [keeps_intros]: "keeps w w' \<Longrightarrow> keeps w (trigger e c b w')"
  by (auto simp: trigger_def Let_def intro!: keeps_intros split: prod.splits)

lemma keeps_emoteSets [keeps_intros]: "keeps w w' \<Longrightarrow> keeps w (snd (setUserstateEmoteSets s w'))"
  by (auto simp: setUserstateEmoteSets_def Let_def keeps_def)

lemma keeps_set_roles [keeps_intros]: "keeps w w' \<Longrightarrow> keeps w (set_roles m c w')" "keeps w w' \<Longrightarrow> keeps w (set_mod m c w')"
  by (auto simp: set_roles_def set_mod_def Let_def intro!: keeps_intros split: option.splits)

lemma keeps_snapshot: "keeps w w' \<Longrightarrow> snapshot_of B w' c = snapshot_of B w c"
  by (simp add: keeps_def snapshot_of_def channel_of_def view_channel_def)

lemma keeps_userState: "keeps w (handleUserStateMessage B e m w)"
proof -
  obtain ch w1 where s: "setUserstateEmoteSets (split_on (CHR '','') (tag_text m ''emote-sets'')) w = (ch, w1)" by fastforce
  then have "keeps w w1" using keeps_emoteSets [OF keeps_refl, of w] by (metis snd_conv)
  then show ?thesis using s
    by (auto simp: handleUserStateMessage_def Let_def intro!: keeps_intros split: option.splits)
qed

lemma keeps_roomState: "keeps w (handleRoomStateMessage B e m w)"
  by (auto simp: handleRoomStateMessage_def Let_def intro!: keeps_intros split: option.splits)

lemma keeps_globalUserState: "keeps w (handleGlobalUserStateMessage m w)"
  by (auto simp: handleGlobalUserStateMessage_def intro!: keeps_intros)

lemma keeps_join: "keeps w (handleJoinMessage B e m w)"
  by (auto simp: handleJoinMessage_def intro!: keeps_intros split: option.splits)

section \<open>Operations that touch some channels\<close>

definition touches :: "nat set \<Rightarrow> 'b tw_world \<Rightarrow> 'b tw_world \<Rightarrow> bool" where
  "touches S w w' \<longleftrightarrow> w_special w' = w_special w \<and> w_server w' = w_server w \<and>
     (\<forall>d. map_option (\<lambda>co. ch_name (co_channel co)) (w_objects w' d) = map_option (\<lambda>co. ch_name (co_channel co)) (w_objects w d)) \<and>
     (\<forall>d. d \<notin> S \<longrightarrow> w_objects w' d = w_objects w d)"

lemma touches_refl: "touches S w w"
  by (simp add: touches_def)

lemma touches_trans: "touches S w w' \<Longrightarrow> touches S w' w'' \<Longrightarrow> touches S w w''"
  by (simp add: touches_def)

lemma touches_mono: "touches S w w' \<Longrightarrow> S \<subseteq> S' \<Longrightarrow> touches S' w w'"
  by (auto simp: touches_def)

lemma keeps_touches: "keeps w w' \<Longrightarrow> touches S w w'"
  by (simp add: keeps_def touches_def)

lemma touches_objects_None: "touches S w w' \<Longrightarrow> w_objects w' d = None \<longleftrightarrow> w_objects w d = None"
  unfolding touches_def by (metis map_option_is_None)

lemma touches_name: "touches S w w' \<Longrightarrow> name_of w' d = name_of w d"
  using touches_objects_None [of S w w' d]
  by (fastforce simp: touches_def name_of_def map_option_case split: option.splits)

lemma touches_lock: "touches S w w' \<Longrightarrow> lock (w_objects w') d = lock (w_objects w) d"
  using touches_objects_None [of S w w' d] by (simp add: lock_def)

lemma touches_live:
  assumes "touches S w w'"
  shows "live_list w' = live_list w"
proof -
  have "lock (w_objects w') = lock (w_objects w)" by (rule ext) (rule touches_lock [OF assms])
  then show ?thesis using assms by (simp add: live_list_def live_channels_def touches_def)
qed

lemma touches_find_channel:
  assumes "touches S w w'"
  shows "find_channel B e w' n = find_channel B e w n"
proof -
  have g: "getChannelOrEmpty (twitch_class B 0 e w') (w_objects w') (w_server w') n =
      getChannelOrEmpty (twitch_class B 0 e w) (w_objects w) (w_server w) n"
    using assms touches_lock [OF assms]
    by (auto simp: getChannelOrEmpty_def twitch_class_def touches_def Let_def split: option.splits)
  have o: "w_objects w' c = None \<longleftrightarrow> w_objects w c = None" "name_of w' c = name_of w c" for c
    using touches_objects_None [OF assms] touches_name [OF assms] by auto
  show ?thesis
    unfolding find_channel_def g using o by (fastforce simp: name_of_def split: option.splits)
qed

lemma keeps_find_channel: "keeps w w' \<Longrightarrow> find_channel B e w' n = find_channel B e w n"
  using keeps_touches [of w w' "{}"] touches_find_channel by blast

lemma touches_snapshot: "touches S w w' \<Longrightarrow> d \<notin> S \<Longrightarrow> snapshot_of B w' d = snapshot_of B w d"
  by (simp add: touches_def snapshot_of_def channel_of_def view_channel_def getMessageSnapshot_def map_option_case
      split: option.splits)

section \<open>Channel operations keep the name\<close>

lemma name_addMessage [simp]: "ch_name (addMessage B i p fl c) = ch_name c"
  by (simp add: addMessage_def Let_def split: prod.splits)

lemma name_addAtStart [simp]: "ch_name (addMessagesAtStart B ps c) = ch_name c"
  by (simp add: addMessagesAtStart_def Let_def split: prod.splits)

lemma name_replaceMessage [simp]: "ch_name (replaceMessage B s r c) = ch_name c"
  by (simp add: replaceMessage_def Let_def split: prod.splits)

lemma name_set_flag [simp]: "ch_name (set_flag p f c) = ch_name c"
  by (simp add: set_flag_def)

lemma name_disable_loop [simp]: "ch_name (disable_loop u xs c) = ch_name c"
  by (induction u xs c rule: disable_loop.induct) simp_all

lemma name_disableAll_loop [simp]: "ch_name (disableAll_loop xs c) = ch_name c"
  by (induction xs c rule: disableAll_loop.induct) simp_all

lemma name_disableAll [simp]: "ch_name (disableAllMessages B c) = ch_name c"
  by (simp add: disableAllMessages_def)

lemma name_timeout [simp]: "ch_name (addOrReplaceTimeout B env p c) = ch_name c"
proof -
  obtain add c1 where l: "timeout_loop B env p (last_messages (getMessageSnapshot B c)) c = (add, c1)" by fastforce
  then have "ch_name c1 = ch_name c" using timeout_loop_cases [OF l] by (auto simp: allocate_def)
  then show ?thesis by (simp add: addOrReplaceTimeout_def l Let_def)
qed

lemma name_view [simp]: "ch_name (view_channel w c) = ch_name c"
  by (simp add: view_channel_def)

section \<open>Handlers\<close>

named_theorems touches_intros

lemma touches_keeps [touches_intros]: "touches S w w' \<Longrightarrow> keeps w' w'' \<Longrightarrow> touches S w w''"
  by (rule touches_trans [OF _ keeps_touches])

lemma touches_on_channel:
  assumes "\<And>ch. ch_name (f ch) = ch_name ch" "c \<in> S"
  shows "touches S w (on_channel c f w)"
  using assms by (auto simp: touches_def on_channel_def Let_def split: option.splits)

lemma touches_run_channel [touches_intros]:
  assumes "touches S w w'" "\<And>ch. ch_name (f ch) = ch_name ch" "c \<in> S"
  shows "touches S w (run_channel e c f w')"
  unfolding run_channel_def Let_def
  by (rule touches_keeps [OF touches_trans [OF assms(1) touches_on_channel [OF assms(2,3)]] keeps_forgets [OF keeps_refl]])

lemma touches_make [touches_intros]: "touches S w w' \<Longrightarrow> touches S w (snd (make_message m w'))"
  by (simp add: touches_def make_message_def)

lemma touches_add_to [touches_intros]: "touches S w w' \<Longrightarrow> c \<in> S \<Longrightarrow> touches S w (add_to B e c p w')"
  unfolding add_to_def by (rule touches_run_channel) simp_all

lemma touches_add_new [touches_intros]: "touches S w w' \<Longrightarrow> c \<in> S \<Longrightarrow> touches S w (add_new B e c m w')"
  by (simp add: add_new_def make_message_def touches_def flip: touches_def) (rule touches_add_to, simp_all add: touches_def)

lemma touches_add_to_all [touches_intros]:
  assumes "touches S w w'" "set (live_list w') \<subseteq> S"
  shows "touches S w (add_to_all B e p fl w')"
proof -
  have "touches S w (fold (\<lambda>c. run_channel e c (addMessage B None p fl)) cs w'')" if "touches S w w''" "set cs \<subseteq> S" for cs w''
    using that by (induction cs arbitrary: w'') (simp_all add: touches_run_channel)
  then show ?thesis using assms by (simp add: add_to_all_def)
qed


lemma touches_change_info [touches_intros]: "touches S w w' \<Longrightarrow> touches S w (change_info c f w')"
  by (simp add: touches_def)

lemma touches_trigger [touches_intros]: "touches S w w' \<Longrightarrow> touches S w (trigger e c b w')"
  by (rule touches_keeps [OF _ keeps_trigger [OF keeps_refl]])

lemma special_trigger [simp]: "w_special (trigger e c b w) = w_special w"
  using keeps_trigger [OF keeps_refl, of w e c b] by (simp add: keeps_def)

lemma touches_show_message:
  assumes "touches S w w'" "c \<in> S" "mentionsChannel (w_special w) \<in> S"
  shows "touches S w (show_message B e c b msg p w')"
proof -
  have "w_special w' = w_special w" using assms(1) by (simp add: touches_def)
  then show ?thesis using assms by (auto simp: show_message_def Let_def intro!: touches_intros)
qed

lemma keeps_thread:
  "(case r of Some replyID \<Rightarrow> find_thread B e c replyID w | None \<Rightarrow> (None, w)) = (thread, w1) \<Longrightarrow> keeps w w1"
  using keeps_find_thread [of w B e c "the r"] by (cases r) (auto simp: keeps_refl)

lemma touches_deliver:
  assumes d: "deliver B e c args m content isSub w = Some w'" and S: "c \<in> S" "mentionsChannel (w_special w) \<in> S"
  shows "touches S w w'"
proof -
  obtain thread w1 where t: "(case tag m ''reply-parent-msg-id'' of
      Some replyID \<Rightarrow> find_thread B e c replyID w | None \<Rightarrow> (None, w)) = (thread, w1)" by fastforce
  have k: "touches S w w1" by (rule keeps_touches [OF keeps_thread [OF t]])
  consider "w' = w1" | b where "w' = show_message B e c b (checked_message B e c b (build_effects e c m b w1))
      (fst (make_message (checked_message B e c b (build_effects e c m b w1)) (build_effects e c m b w1)))
      (in_thread thread (fst (make_message (checked_message B e c b (build_effects e c m b w1)) (build_effects e c m b w1)))
        (snd (make_message (checked_message B e c b (build_effects e c m b w1)) (build_effects e c m b w1))))"
    using d unfolding deliver_def t by (auto simp: Let_def case_prod_beta split: if_splits option.splits)
  then show ?thesis
  proof cases
    case 2
    show ?thesis unfolding 2
      by (rule touches_show_message [OF _ S])
        (intro touches_keeps [OF _ keeps_in_thread [OF keeps_refl]] touches_make touches_keeps [OF k keeps_build_effects [OF keeps_refl]])
  qed (use k in simp)
qed

lemma touches_handler:
  assumes "handler_addMessage B e m target content isSub isAction w = Some w'"
    and "\<And>name c. trimChannelName target = Some name \<Longrightarrow> find_channel B e w name = Some c \<Longrightarrow> c \<in> S"
    and "mentionsChannel (w_special w) \<in> S"
  shows "touches S w w'"
  using assms touches_refl [of S w]
  by (auto simp: handler_addMessage_def intro: touches_deliver touches_change_info split: option.splits if_splits)

end
