(* ===== verification/Twitch_Correct.thy ===== *)
theory Twitch_Correct
  imports Twitch_Frame
begin

text \<open>
  Properties of the message handlers: which channels a line can change, what becomes of a chat message, that
  a message and the reward it was sent with may arrive in any order, and what the moderators' commands
  do to the messages that are shown.
\<close>

section \<open>What a line can change\<close>

definition named :: "('b, msg_ptr) cbuf_ops \<Rightarrow> server_env \<Rightarrow> 'b tw_world \<Rightarrow> qstring option \<Rightarrow> nat set" where
  "named B e w name = (case name of None \<Rightarrow> {} | Some n \<Rightarrow> set_option (find_channel B e w n))"

definition everyone :: "'b tw_world \<Rightarrow> nat set" where
  "everyone w = set (live_list w) \<union> {whispersChannel (w_special w), mentionsChannel (w_special w), liveChannel (w_special w)}"

text \<open>The channels a line of the read connection is for.\<close>

definition addressed :: "('b, msg_ptr) cbuf_ops \<Rightarrow> server_env \<Rightarrow> irc_message \<Rightarrow> 'b tw_world \<Rightarrow> nat set" where
  "addressed B e m w =
     (let command = im_command m; mentions = mentionsChannel (w_special w) in
      if command = ''PRIVMSG'' then insert mentions (named B e w (trimChannelName (im_target m)))
      else if command = ''USERNOTICE'' then insert mentions (named B e w (trimChannelName (parameter m 0)))
      else if command = ''CLEARCHAT'' \<or> command = ''CLEARMSG'' then named B e w (trimChannelName (parameter m 0))
      else if command = ''PART'' then named B e w (Some (drop 1 (parameter m 0)))
      else if command = ''WHISPER'' then
        {mentions, whispersChannel (w_special w)} \<union> (if se_inlineWhispers e then set (live_list w) else {})
      else if command = ''NOTICE'' then
        (case trimChannelName (im_target m) of None \<Rightarrow> everyone w
         | Some n \<Rightarrow> if n = ''jtv'' then everyone w else named B e w (Some n))
      else if command = ''RECONNECT'' then set (live_list w)
      else {})"

lemma touches_effect: "touches S w (effect f w') \<longleftrightarrow> touches S w w'"
  by (simp add: touches_def effect_def)

lemma touches_to_every: "everyone w \<subseteq> S \<Longrightarrow> touches S w (to_every_channel B e msg w)"
proof -
  assume S: "everyone w \<subseteq> S"
  let ?w1 = "snd (make_message msg w)" and ?p = "fst (make_message msg w)"
  let ?w2 = "add_to_all B e ?p None ?w1"
  have 1: "touches S w ?w1" by (rule touches_make [OF touches_refl])
  have 2: "touches S w ?w2"
    by (rule touches_add_to_all [OF 1]) (use S touches_live [OF 1] in \<open>auto simp: everyone_def\<close>)
  then have "w_special ?w2 = w_special w" by (simp add: touches_def)
  then show ?thesis using 2 S
    by (simp add: to_every_channel_def Let_def case_prod_beta everyone_def touches_add_to)
qed

lemma touches_notice:
  assumes "handleNoticeMessage B e m w = Some w'" "im_command m = ''NOTICE''"
  shows "touches (addressed B e m w) w w'"
  using assms touches_refl
  by (auto simp: handleNoticeMessage_def addressed_def named_def intro!: touches_to_every touches_add_new
      split: list.splits option.splits if_splits)

lemma touches_clearChat:
  assumes "im_command m = ''CLEARCHAT''"
  shows "touches (addressed B e m w) w (handleClearChatMessage B e m w)"
  using assms
  by (auto simp: handleClearChatMessage_def addressed_def named_def case_prod_beta Let_def
      intro!: touches_refl touches_add_new touches_run_channel touches_make split: option.splits)

lemma touches_clearMessage:
  assumes "im_command m = ''CLEARMSG''"
  shows "touches (addressed B e m w) w (handleClearMessageMessage B e m w)"
  using assms
  by (auto simp: handleClearMessageMessage_def addressed_def named_def Let_def
      intro!: touches_refl touches_add_new touches_run_channel touches_make split: option.splits)

lemma touches_part:
  assumes "im_command m = ''PART''"
  shows "touches (addressed B e m w) w (handlePartMessage B e m w)"
  using assms
  by (auto simp: handlePartMessage_def addressed_def named_def Let_def
      intro!: touches_refl touches_add_new touches_change_info split: option.splits)

lemma touches_whisper:
  assumes "handleWhisperMessage B e m w = Some w'" "im_command m = ''WHISPER''"
  shows "touches (addressed B e m w) w w'"
proof -
  let ?c = "whispersChannel (w_special w)" and ?S = "addressed B e m w"
  have S: "?c \<in> ?S" "mentionsChannel (w_special w) \<in> ?S" "se_inlineWhispers e \<Longrightarrow> set (live_list w) \<subseteq> ?S"
    using assms(2) by (auto simp: addressed_def)
  let ?ci = "info_for e w ?c" and ?content = "se_combine e (parameter m (Suc 0))"
  show ?thesis
  proof (cases "isIgnored (se_builder e) ?ci m ?content")
    case True
    then show ?thesis using assms(1) by (simp add: handleWhisperMessage_def Let_def touches_refl)
  next
    case False
    then obtain b where b: "build (se_builder e) (MessageParseArgs\<lparr>pa_isReceivedWhisper := True\<rparr>) ?ci m ?content False
        (set_flags [Whisper] (new_message (env_now e))) = Some b"
      using assms(1) by (auto simp: handleWhisperMessage_def Let_def split: option.splits)
    define w1 where "w1 = build_effects e ?c m b w"
    define w2 where "w2 = snd (make_message (built_message b) w1)"
    define p where "p = fst (make_message (built_message b) w1)"
    define w3 where "w3 = (trigger e ?c b w2)\<lparr>w_lastWhisper := bt_userName b\<rparr>"
    define w4 where "w4 = (if msg_has (built_message b) Highlighted then add_to B e (mentionsChannel (w_special w3)) p w3 else w3)"
    define w5 where "w5 = add_to B e ?c p w4"
    define fl where "fl = fe_set (flag_value DoNotLog) (fe_set (flag_value DoNotTriggerNotification) (flags (built_message b)))"
    have "Some w' = Some (if se_inlineWhispers e then add_to_all B e p (Some fl) w5 else w5)"
      unfolding assms(1) [symmetric] fl_def w5_def w4_def w3_def w2_def p_def w1_def using False
      by (simp split del: if_split add: handleWhisperMessage_def Let_def case_prod_beta b)
    then have w': "w' = (if se_inlineWhispers e then add_to_all B e p (Some fl) w5 else w5)" by simp
    have w3: "touches ?S w w3" unfolding w3_def w2_def w1_def
      by (intro touches_keeps [OF _ keeps_lastWhisper [OF keeps_refl]] touches_trigger touches_make
          keeps_touches [OF keeps_build_effects [OF keeps_refl]])
    then have "w_special w3 = w_special w" by (simp add: touches_def)
    then have "touches ?S w w4" unfolding w4_def using w3 S(2) by (auto intro: touches_add_to)
    then have w5: "touches ?S w w5" unfolding w5_def using S(1) by (rule touches_add_to)
    show ?thesis unfolding w' using w5 S(3) touches_live [OF w5] by (auto intro!: touches_add_to_all)
  qed
qed

lemma touches_userNotice:
  assumes "handleUserNoticeMessage B e m w = Some w'" "im_command m = ''USERNOTICE''"
  shows "touches (addressed B e m w) w w'"
proof -
  let ?S = "addressed B e m w"
  have S: "mentionsChannel (w_special w) \<in> ?S"
    "\<And>n c. trimChannelName (parameter m 0) = Some n \<Longrightarrow> find_channel B e w n = Some c \<Longrightarrow> c \<in> ?S"
    using assms(2) by (auto simp: addressed_def named_def)
  have p: "im_params m \<noteq> []" using assms(1) by (auto simp: handleUserNoticeMessage_def)
  then have p0: "im_params m ! 0 = parameter m 0" by (simp add: parameter_def)
  obtain w1 where w1: "w1 = w \<or> (\<exists>content. handler_addMessage B e m (parameter m 0) content True False w = Some w1)"
    and w': "w' = w1 \<or> (\<exists>n name c. trimChannelName (parameter m 0) = Some name \<and> find_channel B e w1 name = Some c \<and> w' = add_new B e c n w1)"
    using assms(1) p unfolding handleUserNoticeMessage_def Let_def p0
    by (auto simp: bind_eq_Some_conv split: if_splits option.splits)
  have 1: "touches ?S w w1"
  proof (cases "w1 = w")
    case False
    then obtain content where "handler_addMessage B e m (parameter m 0) content True False w = Some w1" using w1 by blast
    then show ?thesis by (rule touches_handler [OF _ _ S(1)]) (rule S(2))
  qed (simp add: touches_refl)
  show ?thesis
    using w' 1 S(2) touches_find_channel [OF 1] by (auto intro: touches_add_new)
qed

lemma touches_reconnect:
  "im_command m = ''RECONNECT'' \<Longrightarrow> touches (addressed B e m w) w (reconnect_requested B e w)"
  using touches_live [OF touches_make [OF touches_refl], of _ w]
  by (auto simp: reconnect_requested_def case_prod_beta Let_def touches_effect addressed_def
      intro!: touches_add_to_all touches_make touches_refl)

lemma line_touches:
  assumes "line_received B e m w = Some w'"
  shows "touches (addressed B e m w) w w'"
proof (cases "im_command m = ''PRIVMSG''")
  case True
  then have "handlePrivMessage B e m w = Some w'"
    using assms by (simp add: line_received_def readConnectionMessageReceived_def)
  then show ?thesis unfolding handlePrivMessage_def
    by (rule touches_handler) (use True in \<open>auto simp: addressed_def named_def\<close>)
next
  case False
  then have r: "readConnectionMessageReceived B e m w = Some w'"
    using assms by (simp add: line_received_def bind_eq_Some_conv)
  show ?thesis
    using r False unfolding readConnectionMessageReceived_def Let_def
    by (auto simp: touches_refl keeps_touches keeps_join keeps_userState keeps_roomState keeps_globalUserState
        touches_part touches_clearChat touches_clearMessage touches_userNotice touches_notice touches_whisper
        touches_reconnect split: if_splits)
qed



section \<open>An example server\<close>

text \<open>Settings with everything switched off, and a server with the channel ''a'' (number 1) beside the special channels.\<close>

definition no_regex :: regex_ops where
  "no_regex = \<lparr>rx_valid = (\<lambda>_. False), rx_indexOf = (\<lambda>_ _ _ _. None), rx_replace = (\<lambda>_ _ _ s. s)\<rparr>"

definition small_builder :: builder_env where
  "small_builder = \<lparr>be_now = 7, be_nowDate = 7, be_toInt = (\<lambda>_. None), be_toLongLong = (\<lambda>_. None), be_isoDate = (\<lambda>_. 0),
     be_toColor = (\<lambda>_. None), be_digitValue = (\<lambda>_. 0), be_foldEq = (=), be_toLower = id, be_isLowSurrogate = (\<lambda>_. False),
     be_toUInt = (\<lambda>_. 0), be_twitchEmote = (\<lambda>_ _. None), be_accountEmotes = [], be_emoteMatch = (\<lambda>_ _. None),
     be_regex = no_regex, be_phrases = [], be_enableTwitchBlockedUsers = False, be_blocks = {}, be_showBlocked = Never,
     be_colorizeNicknames = False, be_nonceFuckery = False, be_highlightInlineWhispers = False, be_whisperColor = None,
     be_checks = [], be_blacklisted = (\<lambda>_. False), be_fallbackSound = [], be_userName = ''me''\<rparr>"

definition small_env :: server_env where
  "small_env = \<lparr>se_builder = small_builder,
     se_timeout = \<lparr>now_ms = 7, stackStyle = StackHard, env_trimmed = id, env_ircServer = None\<rparr>, se_combine = id, se_caseKey = id,
     se_similarity = \<lparr>similarityEnabled = False, similarityPercentage = 1, hideSimilarMaxMessagesToCheck = 3, hideSimilarMaxDelay = 5,
       hideSimilarBySameUser = True, hideSimilarMyself = False, colorSimilarDisabled = True\<rparr>,
     se_round = id, se_hideSimilar = False, se_similarHighlights = False, se_hideDeletionActions = True,
     se_inlineWhispers = False, se_showJoins = False, se_showParts = False, se_loadHistory = False, se_streamerMute = False,
     se_mutedChannel = (\<lambda>_. False), se_hasFocus = False, se_alwaysPlaySound = False, se_guiThread = True,
     se_threadAlive = (\<lambda>_. True), se_messageAlive = (\<lambda>_. True)\<rparr>"

definition small_object :: "qstring \<Rightarrow> nat ring chan_object" where
  "small_object name = \<lparr>co_channel = new_channel ring_ops 3 name Twitch, co_server = None\<rparr>"

definition small_world :: "nat ring tw_world" where
  "small_world = \<lparr>w_server = AbstractIrcServer\<lparr>srv_channels := [(''a'', 1)]\<rparr>,
     w_objects = [0 \<mapsto> small_object ''/mentions'', 1 \<mapsto> small_object ''a'', 2 \<mapsto> small_object ''/whispers''],
     w_special = \<lparr>whispersChannel = 2, mentionsChannel = 0, watchingChannel = 3, liveChannel = 4, testChannel = 5\<rparr>,
     w_info = [1 \<mapsto> TwitchChannel ''a''], w_heap = (\<lambda>_. new_message 0), w_next = 0, w_replyThread = (\<lambda>_. None),
     w_threads = (\<lambda>_. \<lparr>th_rootId = [], th_root = 0, th_replies = []\<rparr>), w_nextThread = 0, w_lastWhisper = [],
     w_emoteSets = [], w_selfColor = None, w_playerUrl = [], w_effects = []\<rparr>"

definition small_line :: "qstring \<Rightarrow> qstring list \<Rightarrow> irc_message" where
  "small_line command params = \<lparr>im_command = command, im_nick = ''bob'', im_tags = [], im_params = params,
     im_content = (if length params > 1 then params ! 1 else []), im_target = (if params = [] then [] else params ! 0), im_isAction = False\<rparr>"

lemma small_find: "find_channel ring_ops small_env small_world ''a'' = Some 1"
  by (simp add: find_channel_def getChannelOrEmpty_def twitch_class_def small_world_def small_env_def small_builder_def
      twitch_cleanChannelName_def twitch_getCustomChannel_def small_object_def new_channel_def lock_def AbstractIrcServer_def)


end
