(* ===== verification/Twitch_Delivery.thy ===== *)
theory Twitch_Delivery
  imports Twitch_Correct
begin

text \<open>
  What becomes of a chat message and of the messages moderators remove: the effect of the channel
  operations on the common store, then the handlers.
\<close>

section \<open>Channel operations on the common store\<close>

definition has_room :: "('b, msg_ptr) cbuf_ops \<Rightarrow> ('b \<Rightarrow> bool) \<Rightarrow> 'b tw_world \<Rightarrow> nat \<Rightarrow> bool" where
  "has_room B ok w c \<longleftrightarrow>
     (\<exists>co. w_objects w c = Some co \<and> lq_ok B ok (ch_messages (co_channel co)) \<and> 0 < q_limit (ch_messages (co_channel co)))"

definition limit_of :: "'b tw_world \<Rightarrow> nat \<Rightarrow> nat" where
  "limit_of w c = (case w_objects w c of None \<Rightarrow> 0 | Some co \<Rightarrow> q_limit (ch_messages (co_channel co)))"

text \<open>The last \<open>n\<close> messages.\<close>

definition newest :: "nat \<Rightarrow> 'a list \<Rightarrow> 'a list" where
  "newest n xs = drop (length xs - n) xs"

lemma newest_snoc:
  "length xs \<le> n \<Longrightarrow> 0 < n \<Longrightarrow> newest n (xs @ [x]) = (if length xs < n then xs @ [x] else tl xs @ [x])"
  by (cases xs) (auto simp: newest_def)

lemma view_simps [simp]:
  "ch_messages (view_channel w ch) = ch_messages ch" "ch_heap (view_channel w ch) = w_heap w"
  "ch_next (view_channel w ch) = w_next w"
  by (simp_all add: view_channel_def)

lemma snapshot_of_items: "w_objects w c = Some co \<Longrightarrow> snapshot_of B w c = lq_items B (ch_messages (co_channel co))"
  by (simp add: snapshot_of_def channel_of_def getMessageSnapshot_def lq_getSnapshot_def)

lemma snapshot_same: "w_objects w' c = w_objects w c \<Longrightarrow> snapshot_of B w' c = snapshot_of B w c"
  by (simp add: snapshot_of_def channel_of_def getMessageSnapshot_def lq_getSnapshot_def map_option_case split: option.splits)

lemma run_channel_effect:
  fixes f
  assumes "w_objects w c = Some co"
  defines "ch \<equiv> f (view_channel w (co_channel co))"
  shows "w_heap (run_channel e c f w) = ch_heap ch" "w_next (run_channel e c f w) = ch_next ch"
    "w_objects (run_channel e c f w) = (w_objects w)(c \<mapsto> co\<lparr>co_channel := ch\<rparr>)"
    "w_special (run_channel e c f w) = w_special w"
proof -
  have k: "keeps (on_channel c f w) (run_channel e c f w)"
    by (auto simp: run_channel_def Let_def intro!: keeps_intros)
  have o: "on_channel c f w = w\<lparr>w_objects := (w_objects w)(c \<mapsto> co\<lparr>co_channel := ch\<rparr>), w_heap := ch_heap ch, w_next := ch_next ch\<rparr>"
    by (simp add: on_channel_def assms Let_def)
  show "w_heap (run_channel e c f w) = ch_heap ch" "w_next (run_channel e c f w) = ch_next ch"
    "w_objects (run_channel e c f w) = (w_objects w)(c \<mapsto> co\<lparr>co_channel := ch\<rparr>)"
    "w_special (run_channel e c f w) = w_special w"
    using k unfolding o keeps_def by simp_all
qed

lemma keeps_room_limit: "keeps w w' \<Longrightarrow> has_room B ok w' c \<longleftrightarrow> has_room B ok w c" "keeps w w' \<Longrightarrow> limit_of w' c = limit_of w c"
  by (simp_all add: keeps_def has_room_def limit_of_def)

context message_buffer
begin

lemma add_to_effect:
  assumes "has_room B ok w c"
  shows "w_heap (add_to B e c p w) = w_heap w" "w_next (add_to B e c p w) = w_next w"
    "snapshot_of B (add_to B e c p w) c = newest (limit_of w c) (snapshot_of B w c @ [p])"
    "\<And>d. has_room B ok w d \<Longrightarrow> has_room B ok (add_to B e c p w) d" "\<And>d. limit_of (add_to B e c p w) d = limit_of w d"
    "\<And>d. d \<noteq> c \<Longrightarrow> w_objects (add_to B e c p w) d = w_objects w d"
    "w_special (add_to B e c p w) = w_special w"
proof -
  obtain co where co: "w_objects w c = Some co" "lq_ok B ok (ch_messages (co_channel co))" "0 < q_limit (ch_messages (co_channel co))"
    using assms by (auto simp: has_room_def)
  have v: "lq_ok B ok (ch_messages (view_channel w (co_channel co)))" "0 < q_limit (ch_messages (view_channel w (co_channel co)))"
    using co by simp_all
  note a = addMessage_items [OF v, of None p None]
  note r = run_channel_effect [OF co(1), where e = e and f = "addMessage B None p None"]
  show "w_heap (add_to B e c p w) = w_heap w" "w_next (add_to B e c p w) = w_next w"
    "w_special (add_to B e c p w) = w_special w"
    "\<And>d. d \<noteq> c \<Longrightarrow> w_objects (add_to B e c p w) d = w_objects w d"
    by (simp_all add: add_to_def r a)
  show "limit_of (add_to B e c p w) d = limit_of w d" for d
    using a(2) by (simp add: add_to_def r limit_of_def co)
  show "has_room B ok w d \<Longrightarrow> has_room B ok (add_to B e c p w) d" for d
    using a(1,2) co(3) by (auto simp: add_to_def r has_room_def)
  have "w_objects (add_to B e c p w) c = Some (co\<lparr>co_channel := addMessage B None p None (view_channel w (co_channel co))\<rparr>)"
    by (simp add: add_to_def r)
  then show "snapshot_of B (add_to B e c p w) c = newest (limit_of w c) (snapshot_of B w c @ [p])"
    using a(5) newest_snoc [of "lq_items B (ch_messages (co_channel co))" "q_limit (ch_messages (co_channel co))" p]
      queue_bounded [OF co(2)] co
    by (simp add: snapshot_of_items limit_of_def)
qed

lemma add_new_effect:
  assumes "has_room B ok w c"
  shows "w_heap (add_new B e c m w) = (w_heap w)(w_next w := m)"
    "snapshot_of B (add_new B e c m w) c = newest (limit_of w c) (snapshot_of B w c @ [w_next w])"
    "\<And>d. d \<noteq> c \<Longrightarrow> w_objects (add_new B e c m w) d = w_objects w d"
proof -
  let ?w = "snd (make_message m w)"
  have r: "has_room B ok ?w c" "limit_of ?w c = limit_of w c" "snapshot_of B ?w c = snapshot_of B w c" "w_objects ?w = w_objects w"
    using assms snapshot_same [of ?w c w] by (simp_all add: has_room_def limit_of_def make_message_def)
  have n: "add_new B e c m w = add_to B e c (w_next w) ?w" "w_heap ?w = (w_heap w)(w_next w := m)"
    by (simp_all add: add_new_def make_message_def)
  show "w_heap (add_new B e c m w) = (w_heap w)(w_next w := m)"
    "snapshot_of B (add_new B e c m w) c = newest (limit_of w c) (snapshot_of B w c @ [w_next w])"
    "\<And>d. d \<noteq> c \<Longrightarrow> w_objects (add_new B e c m w) d = w_objects w d"
    unfolding n(1) using add_to_effect [OF r(1), where e = e and p = "w_next w"] r n(2) by simp_all
qed

end

section \<open>Chat messages\<close>

lemma show_message_objects:
  "w_heap (in_thread t p w) = w_heap w"
  by (simp add: in_thread_def split: option.splits)

context message_buffer
begin

lemma show_message_effect:
  assumes room: "has_room B ok w c" "has_room B ok w k" and k: "mentionsChannel (w_special w) = k" "c \<noteq> k"
  shows "w_heap (show_message B e c b msg p w) = w_heap w \<and>
    snapshot_of B (show_message B e c b msg p w) c = newest (limit_of w c) (snapshot_of B w c @ [p]) \<and>
    snapshot_of B (show_message B e c b msg p w) k =
      (if msg_has msg Highlighted \<and> msg_has msg ShowInMentions then newest (limit_of w k) (snapshot_of B w k @ [p])
       else snapshot_of B w k) \<and>
    (\<forall>d. d \<noteq> c \<longrightarrow> d \<noteq> k \<longrightarrow> w_objects (show_message B e c b msg p w) d = w_objects w d)"
proof -
  define w1 where "w1 = (if \<not> msg_has msg Similar \<or> \<not> se_hideSimilar e \<and> se_similarHighlights e then trigger e c b w else w)"
  define w2 where "w2 = (if msg_has msg Highlighted \<and> msg_has msg ShowInMentions then add_to B e k p w1 else w1)"
  define w3 where "w3 = add_to B e c p w2"
  have k1: "keeps w w1" by (simp add: w1_def keeps_trigger keeps_refl)
  then have k1': "w_heap w1 = w_heap w" "w_objects w1 = w_objects w" "w_special w1 = w_special w"
    by (simp_all add: keeps_def)
  have s: "show_message B e c b msg p w =
      change_info c (\<lambda>i. i\<lparr>ti_chatters := cc_addRecentChatter (be_toLower (se_builder e)) (displayName msg) (ti_chatters i)\<rparr>) w3"
    unfolding show_message_def w1_def [symmetric] Let_def k1' k w2_def [symmetric] w3_def [symmetric] by simp
  have r1: "has_room B ok w1 c" "has_room B ok w1 k" using room keeps_room_limit(1) [OF k1] by simp_all
  have r2: "has_room B ok w2 c" using r1 add_to_effect(4) [OF r1(2) r1(1)] by (simp add: w2_def)
  have w2: "w_heap w2 = w_heap w" "snapshot_of B w2 c = snapshot_of B w c" "limit_of w2 c = limit_of w c"
    "snapshot_of B w2 k = (if msg_has msg Highlighted \<and> msg_has msg ShowInMentions
       then newest (limit_of w k) (snapshot_of B w k @ [p]) else snapshot_of B w k)"
    "\<And>d. d \<noteq> k \<Longrightarrow> w_objects w2 d = w_objects w d"
    using add_to_effect [OF r1(2), where e = e and p = p] k1' keeps_snapshot [OF k1] keeps_room_limit(2) [OF k1] k(2)
      snapshot_same [of "add_to B e k p w1" c w1]
    by (auto simp: w2_def)
  have w3k: "w_objects w3 k = w_objects w2 k" using add_to_effect(6) [OF r2, where d = k] k(2) by (auto simp: w3_def)
  then have "snapshot_of B w3 k = snapshot_of B w2 k" by (rule snapshot_same)
  then have "w_heap w3 = w_heap w \<and> snapshot_of B w3 c = newest (limit_of w c) (snapshot_of B w c @ [p]) \<and>
      snapshot_of B w3 k = (if msg_has msg Highlighted \<and> msg_has msg ShowInMentions
        then newest (limit_of w k) (snapshot_of B w k @ [p]) else snapshot_of B w k) \<and>
      (\<forall>d. d \<noteq> c \<longrightarrow> d \<noteq> k \<longrightarrow> w_objects w3 d = w_objects w d)"
    using add_to_effect [OF r2, where e = e and p = p] w2 by (simp add: w3_def)
  then show ?thesis unfolding s using keeps_snapshot [OF keeps_change_info [OF keeps_refl], where w = w3 and B = B] by simp
qed

lemma deliver_effect:
  assumes room: "has_room B ok w c" "has_room B ok w k" and k: "mentionsChannel (w_special w) = k" "c \<noteq> k"
    and plain: "tag m ''reply-parent-msg-id'' = None"
    and show': "isSub \<or> \<not> isIgnored (se_builder e) (info_for e w c) m content"
    and b: "build (se_builder e) args (info_for e w c) m content False (started_message e isSub) = Some b"
  defines "msg \<equiv> checked_message B e c b w"
  shows "\<exists>w'. deliver B e c args m content isSub w = Some w' \<and> w_heap w' = (w_heap w)(w_next w := msg) \<and>
    snapshot_of B w' c = newest (limit_of w c) (snapshot_of B w c @ [w_next w]) \<and>
    snapshot_of B w' k = (if msg_has msg Highlighted \<and> msg_has msg ShowInMentions
      then newest (limit_of w k) (snapshot_of B w k @ [w_next w]) else snapshot_of B w k) \<and>
    (\<forall>d. d \<noteq> c \<longrightarrow> d \<noteq> k \<longrightarrow> w_objects w' d = w_objects w d)"
proof -
  let ?w2 = "build_effects e c m b w"
  let ?w3 = "snd (make_message msg ?w2)"
  have k2: "keeps w ?w2" by (rule keeps_build_effects [OF keeps_refl])
  have m: "checked_message B e c b ?w2 = msg"
    using keeps_snapshot [OF k2, of B c] k2 by (simp add: msg_def checked_message_def keeps_def)
  have n: "w_next ?w2 = w_next w" "w_heap ?w2 = w_heap w" "w_objects ?w2 = w_objects w" "w_special ?w2 = w_special w"
    using k2 by (simp_all add: keeps_def)
  have d: "deliver B e c args m content isSub w = Some (show_message B e c b msg (w_next w) ?w3)"
    using show' plain n by (auto simp: deliver_def b Let_def m make_message_def in_thread_def)
  have w3: "w_heap ?w3 = (w_heap w)(w_next w := msg)" "w_objects ?w3 = w_objects w" "w_special ?w3 = w_special w"
    by (simp_all add: make_message_def n)
  have r: "has_room B ok ?w3 x = has_room B ok w x" "limit_of ?w3 x = limit_of w x" "snapshot_of B ?w3 x = snapshot_of B w x" for x
    using w3 snapshot_same [of ?w3 x w] by (simp_all add: has_room_def limit_of_def)
  show ?thesis
    using show_message_effect [of ?w3 c k e b msg "w_next w"] room k w3 r d by auto
qed

end

text \<open>
  C6: a chat message that is not ignored is stored once and becomes the newest message of the channel it
  was sent to, where at most the oldest one gives way; the same message is added to the mentions exactly
  if it is highlighted there, and no other channel and no other message changes.
\<close>

theorem message_delivered:
  assumes "message_buffer B ok" "trimChannelName (im_target m) = Some name" "find_channel B e w name = Some c"
    and "has_room B ok w c" "has_room B ok w k" "mentionsChannel (w_special w) = k" "c \<noteq> k"
    and "tag m ''custom-reward-id'' = None" "tag m ''reply-parent-msg-id'' = None"
    and "\<not> isIgnored (se_builder e) (info_for e w c) m (se_combine e (im_content m))"
    and "build (se_builder e) (args_for e w c False []) (info_for e w c) m (se_combine e (im_content m)) False
           (new_message (env_now e)) = Some b"
  shows "\<exists>w' msg. handlePrivMessage B e m w = Some w' \<and> msg = checked_message B e c b w \<and>
    w_heap w' = (w_heap w)(w_next w := msg) \<and>
    snapshot_of B w' c = newest (limit_of w c) (snapshot_of B w c @ [w_next w]) \<and>
    snapshot_of B w' k = (if msg_has msg Highlighted \<and> msg_has msg ShowInMentions
      then newest (limit_of w k) (snapshot_of B w k @ [w_next w]) else snapshot_of B w k) \<and>
    (\<forall>d. d \<noteq> c \<longrightarrow> d \<noteq> k \<longrightarrow> w_objects w' d = w_objects w d)"
proof -
  have "started_message e False = new_message (env_now e)" by (simp add: started_message_def)
  with message_buffer.deliver_effect [OF assms(1,4-7,9), of False e "se_combine e (im_content m)" "args_for e w c False []" b] assms(10,11)
  show ?thesis by (simp add: handlePrivMessage_def handler_addMessage_def assms(2,3,8))
qed

lemma small_lookups:
  "w_objects small_world (Suc 0) = Some (small_object ''a'')" "w_objects small_world 0 = Some (small_object ''/mentions'')"
  "mentionsChannel (w_special small_world) = 0" "w_info small_world (Suc 0) = Some (TwitchChannel ''a'')" "w_next small_world = 0"
  "w_heap small_world = (\<lambda>_. new_message 0)"
  by (simp_all add: small_world_def)

lemma small_channel:
  "has_room ring_ops ring_ok small_world 1" "has_room ring_ops ring_ok small_world 0"
  "snapshot_of ring_ops small_world 1 = []" "limit_of small_world 1 = 3"
  using boost_ring.new_queue [of 3]
  by (simp_all add: has_room_def limit_of_def snapshot_of_items small_lookups small_object_def new_channel_def
      LimitedQueue_def [of ring_ops 3, simplified])

lemma small_build: "\<exists>b. build small_builder args ci (small_line ''PRIVMSG'' [''#a'', ''hi'']) ''hi'' False start = Some b"
proof -
  have "sort_emotes [] = []" by (simp add: sort_emotes_def)
  moreover have "word_loop 0 ''hi'' [] [] = Some (0, ''hi'', [], [])"
    by (subst word_loop.simps) (simp add: doesWordContainATwitchEmote_def)
  ultimately show ?thesis
    by (simp add: build_def Let_def small_builder_def small_line_def tag_def build_text_def addWords_def)
qed

theorem message_delivered_witness:
  "\<exists>w'. handlePrivMessage ring_ops small_env (small_line ''PRIVMSG'' [''#a'', ''hi'']) small_world = Some w' \<and>
     snapshot_of ring_ops w' 1 = [0]"
proof -
  let ?m = "small_line ''PRIVMSG'' [''#a'', ''hi'']"
  obtain b where b: "build small_builder (args_for small_env small_world 1 False []) (info_for small_env small_world 1) ?m ''hi'' False
      (new_message (env_now small_env)) = Some b"
    using small_build by blast
  have e: "se_builder small_env = small_builder" "se_combine small_env (im_content ?m) = ''hi''"
    by (simp_all add: small_env_def small_line_def)
  have t: "trimChannelName (im_target ?m) = Some ''a''" "tag ?m k = None" for k
    by (simp_all add: small_line_def trimChannelName_def tag_def)
  have i: "\<not> isIgnored small_builder ci ?m ''hi''" for ci
    by (simp add: isIgnored_def isIgnoredMessage_def small_builder_def)
  show ?thesis
    using message_delivered [OF ring_messages.message_buffer_axioms t(1) small_find small_channel(1,2) small_lookups(3) _ t(2) t(2), of b]
      b i small_channel by (auto simp: e newest_def small_lookups)
qed

section \<open>Rewards\<close>

text \<open>
  C7: a message that was sent with a reward and the notice of that reward may arrive in any order: a
  message that comes first waits, and when the reward becomes known everything is as if the reward
  had been known before the message arrived.
\<close>

theorem reward_order_irrelevant:
  assumes "tag m ''custom-reward-id'' = Some (rw_id reward)" "rw_isUserInputRequired reward"
    and "trimChannelName (im_target m) = Some name" "find_channel B e w name = Some c"
    and "w_info w c = Some i" "map_of (ti_rewards i) (rw_id reward) = None"
  shows "(case handlePrivMessage B e m w of None \<Rightarrow> None | Some w1 \<Rightarrow> addChannelPointReward B e reward c w1) =
    (case addChannelPointReward B e reward c w of None \<Rightarrow> None | Some w1 \<Rightarrow> handlePrivMessage B e m w1)"
proof -
  let ?x = "\<lparr>wm_reward = rw_id reward, wm_message = m, wm_target = im_target m, wm_content = se_combine e (im_content m),
    wm_isSub = False, wm_isAction = im_isAction m\<rparr>"
  let ?w = "change_info c (\<lambda>i. i\<lparr>ti_waiting := ti_waiting i @ [?x]\<rparr>) w"
  let ?step = "\<lambda>x r. r \<bind> handler_addMessage B e (wm_message x) (wm_target x) (wm_content x) (wm_isSub x) (wm_isAction x)"
  have h: "handlePrivMessage B e m w = Some ?w"
    using assms by (simp add: handlePrivMessage_def handler_addMessage_def)
  have priv: "handlePrivMessage B e m = handler_addMessage B e m (im_target m) (se_combine e (im_content m)) False (im_isAction m)"
    by (rule ext) (simp add: handlePrivMessage_def)
  have i: "w_info ?w c = Some (i\<lparr>ti_waiting := ti_waiting i @ [?x]\<rparr>)" by (simp add: change_info_def assms)
  have "change_info c (\<lambda>i. i\<lparr>ti_rewards := ti_rewards i @ [(rw_id reward, reward)],
      ti_waiting := filter (\<lambda>x. wm_reward x \<noteq> rw_id reward) (ti_waiting (the (w_info w c)))\<rparr>) ?w =
    change_info c (\<lambda>i. i\<lparr>ti_rewards := ti_rewards i @ [(rw_id reward, reward)],
      ti_waiting := filter (\<lambda>x. wm_reward x \<noteq> rw_id reward) (ti_waiting (the (w_info w c)))\<rparr>) w"
    by (simp add: change_info_def assms)
  then have "addChannelPointReward B e reward c ?w = addChannelPointReward B e reward c w \<bind> handlePrivMessage B e m"
    using assms by (simp add: addChannelPointReward_def i o_def priv Let_def)
  then show ?thesis by (cases "addChannelPointReward B e reward c w") (simp_all add: h)
qed

text \<open>A message sent with the reward ''r'', that needs a text.\<close>

definition small_reward :: channel_point_reward where
  "small_reward = \<lparr>rw_id = ''r'', rw_channelId = [], rw_title = ''Hello'', rw_cost = 5, rw_isUserInputRequired = True,
     rw_user_id = [], rw_user_login = [], rw_user_displayName = []\<rparr>"

definition reward_line :: irc_message where
  "reward_line = (small_line ''PRIVMSG'' [''#a'', ''hi''])\<lparr>im_tags := [(''custom-reward-id'', ''r'')]\<rparr>"

theorem reward_order_irrelevant_witness:
  "(case handlePrivMessage ring_ops small_env reward_line small_world of None \<Rightarrow> None
      | Some w1 \<Rightarrow> addChannelPointReward ring_ops small_env small_reward 1 w1) =
    (case addChannelPointReward ring_ops small_env small_reward 1 small_world of None \<Rightarrow> None
      | Some w1 \<Rightarrow> handlePrivMessage ring_ops small_env reward_line w1)"
  by (rule reward_order_irrelevant [of _ _ "''a''" _ _ _ _ "TwitchChannel ''a''"])
    (simp_all add: small_find small_lookups TwitchChannel_def reward_line_def small_line_def small_reward_def tag_def trimChannelName_def)

section \<open>Moderation\<close>

text \<open>Messages that clearing the chat leaves visible.\<close>

definition protected_message :: "message \<Rightarrow> bool" where
  "protected_message m \<longleftrightarrow> msg_has m System \<or> msg_has m Timeout \<or> msg_has m Whisper"

lemma protected_iff:
  "fe_hasAny (flags m) (fe_list [flag_value System, flag_value Timeout, flag_value Whisper]) \<longleftrightarrow> protected_message m"
  using hasAny_iff [of "flags m" "[System, Timeout, Whisper]"] by (auto simp: protected_message_def)

lemma protected_disabled [simp]: "protected_message (disabled m) \<longleftrightarrow> protected_message m"
  by (simp add: protected_message_def disabled_def has_set)

lemma disableAll_loop_effect:
  "ch_heap (disableAll_loop xs c) p =
     (if p \<in> set xs \<and> \<not> protected_message (ch_heap c p) then disabled (ch_heap c p) else ch_heap c p)"
  "ch_messages (disableAll_loop xs c) = ch_messages c" "ch_next (disableAll_loop xs c) = ch_next c"
  by (induction xs c rule: disableAll_loop.induct) (auto simp: protected_iff set_flag_Disabled)

text \<open>An operation that only changes messages in the store.\<close>

lemma heap_only_effect:
  assumes "w_objects w c = Some co" "\<And>ch. ch_messages (f ch) = ch_messages ch" "\<And>ch. ch_next (f ch) = ch_next ch"
  shows "snapshot_of B (run_channel e c f w) d = snapshot_of B w d" "limit_of (run_channel e c f w) d = limit_of w d"
    "has_room B ok (run_channel e c f w) d \<longleftrightarrow> has_room B ok w d" "w_next (run_channel e c f w) = w_next w"
proof -
  note r = run_channel_effect [OF assms(1), where e = e and f = f]
  show "limit_of (run_channel e c f w) d = limit_of w d" "w_next (run_channel e c f w) = w_next w"
    "has_room B ok (run_channel e c f w) d \<longleftrightarrow> has_room B ok w d"
    using assms by (simp_all add: r limit_of_def has_room_def)
  show "snapshot_of B (run_channel e c f w) d = snapshot_of B w d"
    using assms by (simp add: r snapshot_of_def channel_of_def getMessageSnapshot_def lq_getSnapshot_def map_option_case
        split: option.splits)
qed

text \<open>
  C22: clearing the chat disables exactly the messages shown in the channel that are no system messages,
  timeouts or whispers, in every place they are shown, keeps them in their order, and adds one line that
  says so; channels that do not show them stay as they are.
\<close>

theorem clear_chat_disables:
  assumes "message_buffer B ok" "im_params m = [p0]" "trimChannelName p0 = Some name" "find_channel B e w name = Some c"
    and "has_room B ok w c"
  shows "let w' = handleClearChatMessage B e m w in
    w_heap w' = (\<lambda>p. if p = w_next w then system_message (env_now e) ''Chat has been cleared by a moderator.''
      else if p \<in> set (snapshot_of B w c) \<and> \<not> protected_message (w_heap w p) then disabled (w_heap w p) else w_heap w p) \<and>
    snapshot_of B w' c = newest (limit_of w c) (snapshot_of B w c @ [w_next w]) \<and>
    (\<forall>d. d \<noteq> c \<longrightarrow> w_objects w' d = w_objects w d)"
proof -
  obtain co where co: "w_objects w c = Some co" using assms(5) by (auto simp: has_room_def)
  let ?w1 = "run_channel e c (disableAllMessages B) w"
  note r = run_channel_effect [OF co, where e = e and f = "disableAllMessages B"]
  have da: "ch_messages (disableAllMessages B ch) = ch_messages ch" "ch_next (disableAllMessages B ch) = ch_next ch" for ch
    by (simp_all add: disableAllMessages_def disableAll_loop_effect)
  note h = heap_only_effect [OF co, where f = "disableAllMessages B" and e = e, OF da]
  have room: "has_room B ok ?w1 c" using assms(5) h(3) by simp
  have heap: "w_heap ?w1 p = (if p \<in> set (snapshot_of B w c) \<and> \<not> protected_message (w_heap w p) then disabled (w_heap w p) else w_heap w p)" for p
    by (simp add: r disableAllMessages_def disableAll_loop_effect getMessageSnapshot_def lq_getSnapshot_def snapshot_of_items [OF co])
  have w': "handleClearChatMessage B e m w =
      add_new B e c (system_message (env_now e) ''Chat has been cleared by a moderator.'') ?w1"
    using assms by (simp add: handleClearChatMessage_def parameter_def)
  show ?thesis
    unfolding Let_def w' using message_buffer.add_new_effect [OF assms(1) room, where e = e] h r heap
    by (auto simp: fun_eq_iff)
qed

theorem clear_chat_disables_witness:
  "snapshot_of ring_ops (handleClearChatMessage ring_ops small_env (small_line ''CLEARCHAT'' [''#a'']) small_world) 1 = [0]"
  using clear_chat_disables [OF ring_messages.message_buffer_axioms, of "small_line ''CLEARCHAT'' [''#a'']" "''#a''" "''a''" small_env small_world 1]
    small_find small_channel
  by (simp add: Let_def small_line_def trimChannelName_def newest_def small_lookups)

text \<open>
  Deleting one message disables exactly the newest message of the channel that has the id, for every
  view of that message (it is one object in the channel and in the mentions), and, unless such actions are
  hidden, adds one line about it; if no message has the id, nothing happens at all.
\<close>

theorem delete_disables_one:
  assumes "message_buffer B ok" "im_params m = p0 # ps" "trimChannelName p0 = Some name" "find_channel B e w name = Some c"
    and "has_room B ok w c"
  shows "let w' = handleClearMessageMessage B e m w;
      found = List.find (\<lambda>p. id' (w_heap w p) = tag_text m ''target-msg-id'') (rev (snapshot_of B w c)) in
    (case found of None \<Rightarrow> w' = w
     | Some p \<Rightarrow>
         (\<forall>q. q \<noteq> w_next w \<longrightarrow> w_heap w' q = (if q = p then disabled (w_heap w q) else w_heap w q)) \<and>
         snapshot_of B w' c = (if se_hideDeletionActions e then snapshot_of B w c
           else newest (limit_of w c) (snapshot_of B w c @ [w_next w])) \<and>
         (\<forall>d. d \<noteq> c \<longrightarrow> w_objects w' d = w_objects w d))"
proof -
  obtain co where co: "w_objects w c = Some co" using assms(5) by (auto simp: has_room_def)
  have f: "(case channel_of w c of None \<Rightarrow> None | Some ch \<Rightarrow> findMessage B i ch) =
      List.find (\<lambda>p. id' (w_heap w p) = i) (rev (snapshot_of B w c))" for i
    by (simp add: channel_of_def co findMessage_def lq_rfind_def snapshot_of_items)
  show ?thesis
  proof (cases "List.find (\<lambda>p. id' (w_heap w p) = tag_text m ''target-msg-id'') (rev (snapshot_of B w c))")
    case None
    then show ?thesis using assms f by (simp add: handleClearMessageMessage_def parameter_def)
  next
    case (Some p)
    let ?w1 = "run_channel e c (set_flag p Disabled) w"
    note r = run_channel_effect [OF co, where e = e and f = "set_flag p Disabled"]
    note h = heap_only_effect [OF co, where f = "set_flag p Disabled" and e = e]
    have heap: "w_heap ?w1 q = (if q = p then disabled (w_heap w q) else w_heap w q)" for q
      by (simp add: r set_flag_Disabled)
    have n: "w_next ?w1 = w_next w" "snapshot_of B ?w1 c = snapshot_of B w c" "limit_of ?w1 c = limit_of w c" "has_room B ok ?w1 c"
      using assms(5) by (simp_all add: h set_flag_def)
    have w': "handleClearMessageMessage B e m w =
        (if \<not> se_hideDeletionActions e then add_new B e c (deletionMessage (env_now e) (w_heap ?w1 p)) ?w1 else ?w1)"
      using assms f Some by (simp add: handleClearMessageMessage_def parameter_def Let_def)
    show ?thesis
      unfolding Let_def w' Some using message_buffer.add_new_effect [OF assms(1) n(4), where e = e and m = "deletionMessage (env_now e) (w_heap ?w1 p)"] n heap r
      by auto
  qed
qed

theorem delete_disables_one_witness:
  "handleClearMessageMessage ring_ops small_env (small_line ''CLEARMSG'' [''#a'']) small_world = small_world"
  using delete_disables_one [OF ring_messages.message_buffer_axioms, of "small_line ''CLEARMSG'' [''#a'']" "''#a''" "[]" "''a''" small_env small_world 1]
    small_find small_channel
  by (simp add: Let_def small_line_def trimChannelName_def)

end
