(* ===== verification/Recent_Messages.thy ===== *)
theory Recent_Messages
  imports Twitch_Delivery
begin

text \<open>
  The message history: \<open>providers/RecentMessagesApi.cpp\<close> and what it uses of \<open>IrcMessageHandler.cpp\<close>
  (\<open>parseMessageWithReply\<close>, \<open>populateReply\<close>). libcommuni's parser (\<open>fromData\<close>) and the calendar are
  parameters; messages that are built are entered in the common store.
\<close>

section \<open>Reading the answer\<close>

record history_env =
  he_server :: server_env
  he_fromData :: "qstring \<Rightarrow> irc_message"
  he_date :: "int \<Rightarrow> int"
  he_dateText :: "int \<Rightarrow> qstring"

abbreviation he_builder :: "history_env \<Rightarrow> builder_env" where
  "he_builder e \<equiv> se_builder (he_server e)"

text \<open>A CLEARCHAT becomes a NOTICE that says what happened, with the tags of the original.\<close>

definition convertClearchatToNotice :: "history_env \<Rightarrow> irc_message \<Rightarrow> irc_message" where
  "convertClearchatToNotice e m =
     (let noticeMessage =
            (if tag m ''target-user-id'' \<noteq> None then
               (if tag m ''ban-duration'' \<noteq> None
                then qarg (qarg ''%1 has been timed out for %2.'' (parameter m 1))
                       (formatTime_string (be_toInt (he_builder e)) (tag_text m ''ban-duration''))
                else qarg ''%1 has been permanently banned.'' (parameter m 1))
             else ''Chat has been cleared by a moderator.'');
          s = qarg (qarg '':tmi.twitch.tv NOTICE %1 :%2'' (parameter m 0)) noticeMessage
      in (he_fromData e s)\<lparr>im_tags := im_tags m\<rparr>)"

definition parseRecentMessages :: "history_env \<Rightarrow> qobject \<Rightarrow> irc_message list" where
  "parseRecentMessages e jsonRoot =
     map (\<lambda>j. let m = he_fromData e (se_combine (he_server e) (json_toString [] j))
               in if im_command m = ''CLEARCHAT'' then convertClearchatToNotice e m else m)
       (toArray (json_value jsonRoot ''messages''))"

section \<open>Building messages\<close>

text \<open>A thread on the first of the loaded messages that has the id, or on one of the channel.\<close>

definition new_root_thread :: "('b, msg_ptr) cbuf_ops \<Rightarrow> nat \<Rightarrow> msg_ptr list \<Rightarrow> qstring \<Rightarrow> 'b tw_world \<Rightarrow> nat option \<times> 'b tw_world" where
  "new_root_thread B c otherLoaded replyID w =
     (case List.find (\<lambda>p. id' (w_heap w p) = replyID) otherLoaded of
        None \<Rightarrow> new_thread B c replyID w
      | Some p \<Rightarrow>
          (let t = w_nextThread w;
               w1 = w\<lparr>w_threads := (w_threads w)(t := \<lparr>th_rootId = id' (w_heap w p), th_root = p, th_replies = []\<rparr>),
                 w_nextThread := Suc t\<rparr>
           in (Some t, addReplyThread t c w1)))"

text \<open>The root of a reply is looked for in the messages loaded so far, then in the channel.\<close>

definition populateReply :: "('b, msg_ptr) cbuf_ops \<Rightarrow> server_env \<Rightarrow> nat \<Rightarrow> msg_ptr list \<Rightarrow> irc_message \<Rightarrow> 'b tw_world \<Rightarrow> nat option \<times> 'b tw_world" where
  "populateReply B e c otherLoaded m w =
     (case tag m ''reply-parent-msg-id'' of
        None \<Rightarrow> (None, w)
      | Some replyID \<Rightarrow>
          (case (case w_info w c of None \<Rightarrow> None | Some i \<Rightarrow> map_of (ti_threads i) replyID) of
             Some t \<Rightarrow> if se_threadAlive e t then (Some t, w) else new_root_thread B c otherLoaded replyID w
           | None \<Rightarrow> new_root_thread B c otherLoaded replyID w))"

text \<open>A built message enters the store, with what building changes elsewhere.\<close>

definition enter_built :: "server_env \<Rightarrow> nat \<Rightarrow> irc_message \<Rightarrow> nat option \<Rightarrow> built \<Rightarrow> 'b tw_world \<Rightarrow> msg_ptr \<times> 'b tw_world" where
  "enter_built e c m thread b w =
     (let (p, w1) = make_message (built_message b) (build_effects e c m b w)
      in (p, trigger e c b (in_thread thread p w1)))"

definition enter_all :: "message list \<Rightarrow> 'b tw_world \<Rightarrow> msg_ptr list \<times> 'b tw_world" where
  "enter_all ms w = fold (\<lambda>m (ps, w). let (p, w') = make_message m w in (ps @ [p], w')) ms ([], w)"

definition parseMessageWithReply :: "('b, msg_ptr) cbuf_ops \<Rightarrow> server_env \<Rightarrow> nat \<Rightarrow> irc_message \<Rightarrow> msg_ptr list \<Rightarrow> 'b tw_world \<Rightarrow> (msg_ptr list \<times> 'b tw_world) option" where
  "parseMessageWithReply B e c m otherLoaded w =
     (if im_command m = ''PRIVMSG'' then
        (let (thread, w1) = (if w_info w c = None then (None, w) else populateReply B e c otherLoaded m w);
             ci = info_for e w1 c
         in if isIgnored (se_builder e) ci m (im_content m) then Some ([], w1)
            else case build (se_builder e) MessageParseArgs ci m (im_content m) (thread \<noteq> None) (new_message (env_now e)) of
              None \<Rightarrow> None
            | Some b \<Rightarrow> (case enter_built e c m thread b w1 of (p, w2) \<Rightarrow> Some ([p], w2)))
      else if im_command m = ''USERNOTICE'' then
        map_option (\<lambda>ms. enter_all ms w) (parseUserNoticeMessage (se_builder e) (info_for e w c) m)
      else if im_command m = ''NOTICE'' then Some (enter_all (parseNoticeMessage (se_builder e) m) w)
      else Some ([], w))"

text \<open>
  The line that says a new day began, for messages that have a time of their own. The last date is kept by the
  channel (\<open>lastDate_\<close>), and is a number of days here.
\<close>

definition new_day :: "history_env \<Rightarrow> irc_message \<Rightarrow> int option \<Rightarrow> int option \<times> message list" where
  "new_day e m lastDate =
     (case tag m ''rm-received-ts'' of
        None \<Rightarrow> (lastDate, [])
      | Some ts \<Rightarrow>
          (let msgDate = he_date e (to_time (he_builder e) ts)
           in if Some msgDate = lastDate then (lastDate, [])
              else (Some msgDate, [(set_flags [RecentMessage] (system_message (env_now (he_server e)) (he_dateText e msgDate)))])))"

definition flag_recent :: "msg_ptr list \<Rightarrow> 'b tw_world \<Rightarrow> 'b tw_world" where
  "flag_recent ps w = fold (\<lambda>p w. w\<lparr>w_heap := (w_heap w)(p := set_flags [RecentMessage] (w_heap w p))\<rparr>) ps w"

fun buildRecentMessages :: "('b, msg_ptr) cbuf_ops \<Rightarrow> history_env \<Rightarrow> nat \<Rightarrow> irc_message list \<Rightarrow> int option \<Rightarrow> msg_ptr list \<Rightarrow> 'b tw_world
    \<Rightarrow> (int option \<times> msg_ptr list \<times> 'b tw_world) option" where
  "buildRecentMessages B e c [] lastDate allBuilt w = Some (lastDate, allBuilt, w)"
| "buildRecentMessages B e c (m # ms) lastDate allBuilt w =
     (let (lastDate', days) = new_day e m lastDate; (ds, w1) = enter_all days w
      in case parseMessageWithReply B (he_server e) c m (allBuilt @ ds) w1 of
           None \<Rightarrow> None
         | Some (ps, w2) \<Rightarrow> buildRecentMessages B e c ms lastDate' (allBuilt @ ds @ ps) (flag_recent ps w2))"

section \<open>The request\<close>

text \<open>The answer: the channel is told about a gap before the messages are handed over; an error is shown.\<close>

definition history_loaded :: "('b, msg_ptr) cbuf_ops \<Rightarrow> history_env \<Rightarrow> nat \<Rightarrow> qobject \<Rightarrow> int option \<Rightarrow> 'b tw_world \<Rightarrow> (int option \<times> msg_ptr list \<times> 'b tw_world) option" where
  "history_loaded B e c jsonRoot lastDate w =
     (case buildRecentMessages B e c (parseRecentMessages e jsonRoot) lastDate [] w of
        None \<Rightarrow> None
      | Some (lastDate', ps, w1) \<Rightarrow>
          Some (lastDate', ps,
            if json_toString [] (json_value jsonRoot ''error_code'') = ''channel_not_joined'' \<and> ps \<noteq> []
            then add_new B (he_server e) c (system_message (env_now (he_server e))
              ''Message history service recovering, there may be gaps in the message history.'') w1
            else w1))"

definition history_failed :: "('b, msg_ptr) cbuf_ops \<Rightarrow> history_env \<Rightarrow> nat \<Rightarrow> int \<Rightarrow> 'b tw_world \<Rightarrow> 'b tw_world" where
  "history_failed B e c status w =
     change_info c (\<lambda>i. i\<lparr>ti_loadingRecent := False\<rparr>)
       (add_new B (he_server e) c (system_message (env_now (he_server e))
         (qarg ''Message history service unavailable (Error %1)'' (show_int status))) w)"

text \<open>The history when the room is entered.\<close>

definition recentMessagesLoaded :: "('b, msg_ptr) cbuf_ops \<Rightarrow> history_env \<Rightarrow> nat \<Rightarrow> qobject \<Rightarrow> int option \<Rightarrow> 'b tw_world \<Rightarrow> (int option \<times> 'b tw_world) option" where
  "recentMessagesLoaded B e c jsonRoot lastDate w =
     map_option (\<lambda>(lastDate', ps, w1).
         (lastDate', change_info c (\<lambda>i. i\<lparr>ti_loadingRecent := False\<rparr>) (run_channel (he_server e) c (addMessagesAtStart B ps) w1)))
       (history_loaded B e c jsonRoot lastDate w)"

text \<open>After a reconnect the missing messages are filled in; an empty channel is read out of bounds then.\<close>

definition missedMessagesLoaded :: "('b, msg_ptr) cbuf_ops \<Rightarrow> history_env \<Rightarrow> nat \<Rightarrow> qobject \<Rightarrow> int option \<Rightarrow> 'b tw_world \<Rightarrow> (int option \<times> 'b tw_world) option" where
  "missedMessagesLoaded B e c jsonRoot lastDate w =
     (case history_loaded B e c jsonRoot lastDate w of
        None \<Rightarrow> None
      | Some (lastDate', ps, w1) \<Rightarrow>
          (case channel_of w1 c of
             None \<Rightarrow> None
           | Some ch \<Rightarrow>
               (case fillInMissingMessages B ps ch of
                  None \<Rightarrow> None
                | Some ch' \<Rightarrow>
                    Some (lastDate', change_info c (\<lambda>i. i\<lparr>ti_loadingRecent := False\<rparr>)
                      (run_channel (he_server e) c (\<lambda>_. ch') w1)))))"

end
