(* ===== verification/Custom_Commands.thy ===== *)
theory Custom_Commands
  imports Settings_Items Text_Utils Qt_Text
begin

text \<open>
  \<open>controllers/commands/CommandController.cpp\<close>: the commands a user defines, and the text one of them
  stands for. The expression \<open>parseCommand\<close> is written out as a matcher; the variables a command may name
  are looked up in what the controller knows of the channel, the user and the message.
\<close>

section \<open>The table of commands\<close>

record user_commands =
  uc_items :: "command list"
  uc_map :: "(qstring \<times> command) list"
  uc_maxSpaces :: nat

definition no_user_commands :: user_commands where
  "no_user_commands = \<lparr>uc_items = [], uc_map = [], uc_maxSpaces = 0\<rparr>"

definition count_spaces :: "qstring \<Rightarrow> nat" where
  "count_spaces s = length (filter (\<lambda>c. c = CHR '' '') s)"

text \<open>The callback on every insertion and removal: the first command with the name is the one that counts.\<close>

definition addFirstMatchToMap :: "command \<Rightarrow> user_commands \<Rightarrow> user_commands" where
  "addFirstMatchToMap item u =
     (let removed = filter (\<lambda>e. fst e \<noteq> cmd_name item) (uc_map u);
          found = List.find (\<lambda>c. cmd_name c = cmd_name item) (uc_items u);
          maxSpaces = foldl (\<lambda>m c. if count_spaces (cmd_name c) > m then count_spaces (cmd_name c) else m) 0 (uc_items u)
      in u\<lparr>uc_map := (case found of Some c \<Rightarrow> (cmd_name c, c) # removed | None \<Rightarrow> removed), uc_maxSpaces := maxSpaces\<rparr>)"

definition uc_insert :: "nat \<Rightarrow> command \<Rightarrow> user_commands \<Rightarrow> user_commands" where
  "uc_insert i c u = addFirstMatchToMap c (u\<lparr>uc_items := insert_at i c (uc_items u)\<rparr>)"

definition uc_removeAt :: "nat \<Rightarrow> user_commands \<Rightarrow> user_commands" where
  "uc_removeAt i u =
     (if i < length (uc_items u) then addFirstMatchToMap (uc_items u ! i) (u\<lparr>uc_items := remove_at i (uc_items u)\<rparr>) else u)"

inductive reachable_commands :: "user_commands \<Rightarrow> bool" where
  start: "reachable_commands no_user_commands"
| inserted: "reachable_commands u \<Longrightarrow> i \<le> length (uc_items u) \<Longrightarrow> reachable_commands (uc_insert i c u)"
| removed: "reachable_commands u \<Longrightarrow> reachable_commands (uc_removeAt i u)"

definition commands_ok :: "user_commands \<Rightarrow> bool" where
  "commands_ok u \<longleftrightarrow>
     (\<forall>n. map_of (uc_map u) n = List.find (\<lambda>c. cmd_name c = n) (uc_items u)) \<and>
     (\<forall>c \<in> set (uc_items u). count_spaces (cmd_name c) \<le> uc_maxSpaces u)"

lemma find_insert_other:
  "i \<le> length xs \<Longrightarrow> \<not> P x \<Longrightarrow> List.find P (insert_at i x xs) = List.find P xs"
  using find_append [of P "take i xs" "x # drop i xs"] find_append [of P "take i xs" "drop i xs"]
  by (simp add: insert_at_def split: option.splits)

lemma find_remove_other:
  "i < length xs \<Longrightarrow> \<not> P (xs ! i) \<Longrightarrow> List.find P (remove_at i xs) = List.find P xs"
  using find_append [of P "take i xs" "drop (Suc i) xs"] find_append [of P "take i xs" "xs ! i # drop (Suc i) xs"]
  by (simp add: remove_at_def split: option.splits flip: id_take_nth_drop)

lemma maxSpaces_bound:
  "m \<le> foldl (\<lambda>m c. if f c > m then f c else m) m xs \<and> (\<forall>c \<in> set xs. f c \<le> foldl (\<lambda>m c. if f c > m then f c else m) (m :: nat) xs)"
proof (induction xs arbitrary: m)
  case (Cons x xs)
  let ?m = "if f x > m then f x else m"
  have "m \<le> ?m" "f x \<le> ?m" by auto
  moreover have "?m \<le> foldl (\<lambda>m c. if f c > m then f c else m) ?m xs" using Cons [of ?m] by blast
  ultimately show ?case using Cons [of ?m] by (simp only: foldl.simps list.set ball_simps) linarith
qed simp

lemma map_of_filter_other: "map_of (filter (\<lambda>e. fst e \<noteq> k) m) n = (if n = k then None else map_of m n)"
  by (induction m) auto

lemma addFirst_ok:
  assumes "\<And>n. n \<noteq> cmd_name c \<Longrightarrow> map_of (uc_map u) n = List.find (\<lambda>d. cmd_name d = n) (uc_items u)"
  shows "commands_ok (addFirstMatchToMap c u)"
proof -
  have f: "cmd_name d = cmd_name c" if "List.find (\<lambda>d. cmd_name d = cmd_name c) (uc_items u) = Some d" for d
    using that by (auto simp: find_Some_iff)
  have "map_of (uc_map (addFirstMatchToMap c u)) n = List.find (\<lambda>d. cmd_name d = n) (uc_items u)" for n
  proof (cases "List.find (\<lambda>d. cmd_name d = cmd_name c) (uc_items u)")
    case None
    then show ?thesis using assms [of n] by (cases "n = cmd_name c") (simp_all add: addFirstMatchToMap_def Let_def map_of_filter_other)
  next
    case (Some d)
    then show ?thesis using assms [of n] f [OF Some]
      by (cases "n = cmd_name c") (simp_all add: addFirstMatchToMap_def Let_def map_of_filter_other)
  qed
  then show ?thesis
    using maxSpaces_bound [of 0 "\<lambda>c. count_spaces (cmd_name c)" "uc_items u"]
    by (simp add: commands_ok_def addFirstMatchToMap_def Let_def)
qed

text \<open>
  Whatever commands are added, moved and removed, the command a name stands for is the first one in the
  list with that name, and no name has more blanks than the lookup tries.
\<close>

theorem first_command_counts:
  assumes "reachable_commands u"
  shows "map_of (uc_map u) n = List.find (\<lambda>c. cmd_name c = n) (uc_items u) \<and>
    (c \<in> set (uc_items u) \<longrightarrow> count_spaces (cmd_name c) \<le> uc_maxSpaces u)"
proof -
  have "commands_ok u"
    using assms
  proof (induction rule: reachable_commands.induct)
    case (inserted u i c)
    then show ?case unfolding uc_insert_def
      by (intro addFirst_ok) (simp add: commands_ok_def find_insert_other)
  next
    case (removed u i)
    show ?case
    proof (cases "i < length (uc_items u)")
      case True
      then have "commands_ok (addFirstMatchToMap (uc_items u ! i) (u\<lparr>uc_items := remove_at i (uc_items u)\<rparr>))"
        using removed by (intro addFirst_ok) (simp add: commands_ok_def find_remove_other)
      then show ?thesis using True by (simp add: uc_removeAt_def)
    qed (use removed in \<open>simp add: uc_removeAt_def\<close>)
  qed (simp add: commands_ok_def no_user_commands_def)
  then show ?thesis by (simp add: commands_ok_def)
qed

theorem first_command_counts_witness:
  "map_of (uc_map (uc_insert 0 \<lparr>cmd_name = ''/a b'', cmd_func = ''x'', cmd_showInMsgContextMenu = False\<rparr> no_user_commands)) ''/a b'' =
     Some \<lparr>cmd_name = ''/a b'', cmd_func = ''x'', cmd_showInMsgContextMenu = False\<rparr>"
  using first_command_counts [OF reachable_commands.inserted [OF reachable_commands.start, of 0]]
  by (simp add: no_user_commands_def uc_insert_def addFirstMatchToMap_def Let_def)

section \<open>Placeholders\<close>

definition name_char :: "char \<Rightarrow> bool" where
  "name_char c \<longleftrightarrow> (let n = of_char c :: nat in (97 \<le> n \<and> n \<le> 122) \<or> (65 \<le> n \<and> n \<le> 90) \<or> n = 46 \<or> n = 45)"

definition newline :: char where
  "newline = char_of (10 :: nat)"

text \<open>\<open>.+?\<close> up to a closing brace: at least one character, none of them a line break.\<close>

definition find_alt :: "qstring \<Rightarrow> qstring option" where
  "find_alt t =
     (case t of
        [] \<Rightarrow> None
      | c # u \<Rightarrow>
          if c = newline then None
          else let a = takeWhile (\<lambda>c. c \<noteq> CHR ''}'' \<and> c \<noteq> newline) u in
            if drop (length a) u \<noteq> [] \<and> hd (drop (length a) u) = CHR ''}'' then Some (c # a) else None)"

text \<open>
  Behind an opening brace: digits with an optional plus, or a name with an optional text behind a semicolon,
  and the closing brace. The answer is the whole (group 3), the name and the text (groups 4 and 5).
\<close>

definition match_inner :: "qstring \<Rightarrow> (qstring \<times> qstring \<times> qstring) option" where
  "match_inner s =
     (let ds = takeWhile is_digit s; r = drop (length ds) s in
      if ds \<noteq> [] then
        (if take 2 r = ''+}'' then Some (ds @ ''+'', [], [])
         else if take 1 r = ''}'' then Some (ds, [], []) else None)
      else let ns = takeWhile name_char s; r = drop (length ns) s in
        if ns = [] then None
        else if take 1 r = ''}'' then Some (ns, ns, [])
        else if take 1 r = '';'' then map_option (\<lambda>alt. (ns @ '';'' @ alt, ns, alt)) (find_alt (drop 1 r))
        else None)"

definition braces :: "qstring \<Rightarrow> nat" where
  "braces s = length (takeWhile (\<lambda>c. c = CHR ''{'') s)"

text \<open>\<open>({{)*{\<close> and the rest: an odd number of braces. The answer starts with the end of the match.\<close>

definition match_body :: "qstring \<Rightarrow> nat \<Rightarrow> (nat \<times> qstring \<times> qstring \<times> qstring) option" where
  "match_body func q =
     (let b = braces (drop q func) in
      if odd b then map_option (\<lambda>(i, n, a). (q + b + length i + 1, i, n, a)) (match_inner (drop (q + b) func)) else None)"

text \<open>A match that starts at \<open>p\<close>: at the beginning of the text, or with a character that is no brace.\<close>

definition match_at :: "qstring \<Rightarrow> nat \<Rightarrow> (nat \<times> qstring \<times> qstring \<times> qstring) option" where
  "match_at func p =
     (case (if p = 0 then match_body func 0 else None) of
        Some m \<Rightarrow> Some m
      | None \<Rightarrow> if p < length func \<and> func ! p \<noteq> CHR ''{'' then match_body func (Suc p) else None)"

fun first_match :: "qstring \<Rightarrow> nat list \<Rightarrow> (nat \<times> nat \<times> qstring \<times> qstring \<times> qstring) option" where
  "first_match func [] = None"
| "first_match func (p # ps) =
     (case match_at func p of Some m \<Rightarrow> Some (p, m) | None \<Rightarrow> first_match func ps)"

definition parseCommand_match :: "qstring \<Rightarrow> nat \<Rightarrow> (nat \<times> nat \<times> qstring \<times> qstring \<times> qstring) option" where
  "parseCommand_match func offset = first_match func [offset..<Suc (length func)]"

section \<open>What a placeholder stands for\<close>

text \<open>A decimal number of 31 bits.\<close>

definition word_index :: "qstring \<Rightarrow> nat option" where
  "word_index s =
     (let v = foldl (\<lambda>v c. 10 * v + digit_value c) 0 s
      in if s = [] \<or> \<not> list_all is_digit s \<or> v \<ge> 2 ^ 31 then None else Some v)"

record command_context =
  cx_words :: "qstring list"
  cx_context :: "(qstring \<times> qstring) list"
  cx_vars :: "qstring \<Rightarrow> (qstring \<Rightarrow> qstring) option"

definition placeholder_value :: "command_context \<Rightarrow> qstring \<Rightarrow> qstring \<Rightarrow> qstring \<Rightarrow> qstring" where
  "placeholder_value cx inner varName altText =
     (let plus = (last inner = CHR ''+'');
          wordIndex = (case word_index (filter (\<lambda>c. c \<noteq> CHR ''+'' \<and> c \<noteq> CHR ''='') inner) of Some n \<Rightarrow> n | None \<Rightarrow> 0)
      in if wordIndex = 0 then
           (case map_of (cx_context cx) varName of
              Some v \<Rightarrow> if v = [] then altText else v
            | None \<Rightarrow> (case cx_vars cx varName of Some f \<Rightarrow> f altText | None \<Rightarrow> ''{'' @ inner @ ''}''))
         else if length (cx_words cx) \<le> wordIndex then []
         else if plus then join_with (CHR '' '') (drop wordIndex (cx_words cx))
         else cx_words cx ! wordIndex)"

definition mid_text :: "nat \<Rightarrow> nat \<Rightarrow> qstring \<Rightarrow> qstring" where
  "mid_text i n s = take n (drop i s)"

lemma match_body_end: "match_body func q = Some (e, i, n, a) \<Longrightarrow> Suc q < e"
  by (cases "braces (drop q func)") (auto simp: match_body_def Let_def split: if_splits)

lemma match_at_end: "match_at func p = Some (e, i, n, a) \<Longrightarrow> Suc p < e"
  using match_body_end [of func 0] match_body_end [of func "Suc p"]
  by (fastforce simp: match_at_def split: if_splits option.splits)

lemma first_match_Some: "first_match func ps = Some (p, m) \<Longrightarrow> p \<in> set ps \<and> match_at func p = Some m"
  by (induction ps) (auto split: option.splits)

text \<open>The loop of \<open>execCustomCommand\<close>: it goes on one character before the end of the last match.\<close>

function custom_loop :: "command_context \<Rightarrow> qstring \<Rightarrow> nat \<Rightarrow> nat \<Rightarrow> qstring \<Rightarrow> nat \<times> qstring" where
  "custom_loop cx func lastCaptureEnd matchOffset result =
     (case parseCommand_match func matchOffset of
        None \<Rightarrow> (lastCaptureEnd, result)
      | Some (start, e, inner, varName, altText) \<Rightarrow>
          custom_loop cx func e (e - 1)
            (result @ mid_text lastCaptureEnd (Suc start - lastCaptureEnd) func @ placeholder_value cx inner varName altText))"
  by pat_completeness auto
termination
proof (relation "measure (\<lambda>(_, func, _, offset, _). Suc (length func) - offset)")
  fix cx func lastCaptureEnd offset result x start y e z inner u varName altText
  assume "parseCommand_match func offset = Some x" "(start, y) = x" "(e, z) = y" "(inner, u) = z" "(varName, altText) = u"
  then have m: "first_match func [offset..<Suc (length func)] = Some (start, e, inner, varName, altText)"
    by (simp add: parseCommand_match_def del: upt_Suc)
  have "offset \<le> start" "start < Suc (length func)" "Suc start < e"
    using first_match_Some [OF m] match_at_end [of func start e inner varName altText] by (simp_all del: upt_Suc)
  then show "((cx, func, e, e - 1, result @ mid_text lastCaptureEnd (Suc start - lastCaptureEnd) func @
      placeholder_value cx inner varName altText), cx, func, lastCaptureEnd, offset, result)
      \<in> measure (\<lambda>(_, func, _, offset, _). Suc (length func) - offset)"
    by simp
qed simp

declare custom_loop.simps [simp del]

fun unescape_braces :: "qstring \<Rightarrow> qstring" where
  "unescape_braces [] = []"
| "unescape_braces [c] = [c]"
| "unescape_braces (c # d # s) =
     (if c = CHR ''{'' \<and> d = CHR ''{'' then c # unescape_braces s else c # unescape_braces (d # s))"

text \<open>The text of a custom command, before whispers are looked at.\<close>

definition custom_text :: "command_context \<Rightarrow> qstring \<Rightarrow> qstring" where
  "custom_text cx func =
     (let (lastCaptureEnd, r) = custom_loop cx func 0 0 [];
          result = r @ drop lastCaptureEnd func
      in unescape_braces (if result \<noteq> [] \<and> hd result = CHR ''{'' then tl result else result))"

section \<open>Commands made of texts and placeholders\<close>

datatype placeholder = Word nat | WordsFrom nat | Variable qstring | VariableOr qstring qstring

definition placeholder_inner :: "placeholder \<Rightarrow> qstring" where
  "placeholder_inner ph =
     (case ph of Word n \<Rightarrow> show_nat n | WordsFrom n \<Rightarrow> show_nat n @ ''+'' | Variable v \<Rightarrow> v | VariableOr v alt \<Rightarrow> v @ '';'' @ alt)"

definition placeholder_ok :: "placeholder \<Rightarrow> bool" where
  "placeholder_ok ph =
     (case ph of
        Word n \<Rightarrow> 0 < n \<and> n < 2 ^ 31 | WordsFrom n \<Rightarrow> 0 < n \<and> n < 2 ^ 31
      | Variable v \<Rightarrow> v \<noteq> [] \<and> list_all name_char v
      | VariableOr v alt \<Rightarrow> v \<noteq> [] \<and> list_all name_char v \<and> alt \<noteq> [] \<and> newline \<notin> set alt \<and> CHR ''}'' \<notin> set alt)"

definition value_of :: "command_context \<Rightarrow> placeholder \<Rightarrow> qstring" where
  "value_of cx ph =
     (let variable = (\<lambda>v alt whole. case map_of (cx_context cx) v of
            Some x \<Rightarrow> if x = [] then alt else x
          | None \<Rightarrow> (case cx_vars cx v of Some f \<Rightarrow> f alt | None \<Rightarrow> ''{'' @ whole @ ''}''))
      in case ph of
           Word n \<Rightarrow> if n < length (cx_words cx) then cx_words cx ! n else []
         | WordsFrom n \<Rightarrow> join_with (CHR '' '') (drop n (cx_words cx))
         | Variable v \<Rightarrow> variable v [] v
         | VariableOr v alt \<Rightarrow> variable v alt (v @ '';'' @ alt))"

fun command_text :: "(qstring \<times> placeholder) list \<Rightarrow> qstring \<Rightarrow> qstring" where
  "command_text [] t = t"
| "command_text ((l, ph) # ps) t = l @ ''{'' @ placeholder_inner ph @ ''}'' @ command_text ps t"

fun expanded :: "command_context \<Rightarrow> (qstring \<times> placeholder) list \<Rightarrow> qstring \<Rightarrow> qstring" where
  "expanded cx [] t = t"
| "expanded cx ((l, ph) # ps) t = l @ value_of cx ph @ expanded cx ps t"

lemma name_not_digit: "name_char c \<Longrightarrow> \<not> is_digit c"
  by (auto simp: name_char_def is_digit_def Let_def)

lemma name_not_special: "name_char c \<Longrightarrow> c \<noteq> CHR ''}'' \<and> c \<noteq> CHR '';'' \<and> c \<noteq> CHR ''{'' \<and> c \<noteq> CHR ''+''"
  by (auto simp: name_char_def Let_def)

lemma digit_not_special: "is_digit c \<Longrightarrow> c \<noteq> CHR ''}'' \<and> c \<noteq> CHR '';'' \<and> c \<noteq> CHR ''{'' \<and> c \<noteq> CHR ''+'' \<and> c \<noteq> CHR ''=''"
  by (auto simp: is_digit_def)

lemma takeWhile_stop: "\<forall>c \<in> set xs. P c \<Longrightarrow> ys = [] \<or> \<not> P (hd ys) \<Longrightarrow> takeWhile P (xs @ ys) = xs"
  by (induction xs) (cases ys, auto)

lemma word_index_show_nat: "n < 2 ^ 31 \<Longrightarrow> word_index (show_nat n) = Some n"
proof -
  have d: "digit_value (digit_char d) = d" if "d < 10" for d
    using that by (simp add: digit_value_def digit_char_def)
  have "foldl (\<lambda>v c. 10 * v + digit_value c) 0 (show_nat n) = n"
  proof (induction n rule: show_nat.induct)
    case (1 n)
    then show ?case using d [of n] d [of "n mod 10"] by (subst show_nat.simps) (simp add: show_nat.simps [of n])
  qed
  moreover assume "n < 2 ^ 31"
  ultimately show ?thesis using show_nat_digits [of n] by (simp add: word_index_def list_all_iff)
qed

lemma word_index_name: "\<not> is_digit c \<Longrightarrow> c \<in> set s \<Longrightarrow> word_index s = None"
  by (auto simp: word_index_def list_all_iff Let_def)

lemma match_inner_placeholder:
  assumes "placeholder_ok ph"
  shows "\<exists>n a. match_inner (placeholder_inner ph @ CHR ''}'' # rest) = Some (placeholder_inner ph, n, a) \<and>
    placeholder_value cx (placeholder_inner ph) n a = value_of cx ph"
proof -
  have close: "\<not> is_digit CHR ''}''" "\<not> is_digit CHR ''+''" "\<not> name_char CHR ''}''" "\<not> name_char CHR '';''"
    by (simp_all add: is_digit_def name_char_def Let_def)
  have dg: "\<forall>c \<in> set (show_nat n). is_digit c" for n by (rule show_nat_digits)
  have fd: "filter (\<lambda>c. c \<noteq> CHR ''+'' \<and> c \<noteq> CHR ''='') (show_nat n) = show_nat n" for n
    using dg digit_not_special by (simp add: filter_id_conv)
  have tw: "takeWhile is_digit (show_nat n @ c # r) = show_nat n" if "\<not> is_digit c" for n c r
    using that dg by (intro takeWhile_stop) auto
  have nm: "takeWhile is_digit (v @ r) = []" "takeWhile name_char (v @ c # r') = v"
    "word_index (filter (\<lambda>c. c \<noteq> CHR ''+'' \<and> c \<noteq> CHR ''='') (v @ r)) = None"
    if vn: "v \<noteq> []" "list_all name_char v" and cn: "\<not> name_char c" for v r c r'
  proof -
    obtain x v' where v: "v = x # v'" "name_char x" using vn by (cases v) auto
    show "takeWhile is_digit (v @ r) = []" using v name_not_digit by simp
    show "takeWhile name_char (v @ c # r') = v" using vn cn by (intro takeWhile_stop) (auto simp: list_all_iff)
    have "x \<noteq> CHR ''+''" "x \<noteq> CHR ''=''" using v(2) by (auto simp: name_char_def Let_def)
    then show "word_index (filter (\<lambda>c. c \<noteq> CHR ''+'' \<and> c \<noteq> CHR ''='') (v @ r)) = None"
      using v name_not_digit by (intro word_index_name [of x]) auto
  qed
  show ?thesis
  proof (cases ph)
    case (Word n)
    have "last (show_nat n) \<noteq> CHR ''+''" using dg digit_not_special show_nat_nonempty last_in_set by metis
    then show ?thesis using Word assms
      by (auto simp: placeholder_inner_def placeholder_ok_def match_inner_def tw close Let_def placeholder_value_def fd
          word_index_show_nat value_of_def)
  next
    case (WordsFrom n)
    then show ?thesis using assms
      by (auto simp: placeholder_inner_def placeholder_ok_def match_inner_def tw close Let_def placeholder_value_def fd
          word_index_show_nat value_of_def)
  next
    case (Variable v)
    then have v: "v \<noteq> []" "list_all name_char v" using assms by (simp_all add: placeholder_ok_def)
    note n = nm [OF v close(3)]
    show ?thesis using v n(3) [of "[]"]
      by (simp add: Variable placeholder_inner_def match_inner_def n(1,2) Let_def placeholder_value_def value_of_def)
  next
    case (VariableOr v alt)
    then have v: "v \<noteq> []" "list_all name_char v" and alt: "alt \<noteq> []" "newline \<notin> set alt" "CHR ''}'' \<notin> set alt"
      using assms by (simp_all add: placeholder_ok_def)
    note n = nm [OF v close(4)]
    obtain c u where u: "alt = c # u" using alt by (cases alt) auto
    have "takeWhile (\<lambda>c. c \<noteq> CHR ''}'' \<and> c \<noteq> newline) (u @ CHR ''}'' # rest) = u"
      using alt u by (intro takeWhile_stop) auto
    moreover have "c \<noteq> newline" using alt(2) u by auto
    ultimately have f: "find_alt (alt @ CHR ''}'' # rest) = Some alt" using u by (simp add: find_alt_def Let_def)
    show ?thesis using v n(3) [of "CHR '';'' # alt"] f
      by (simp add: VariableOr placeholder_inner_def match_inner_def n(1,2) Let_def placeholder_value_def value_of_def)
  qed
qed

text \<open>No match starts before the next brace.\<close>

lemma no_match_body: "q < length func \<Longrightarrow> func ! q \<noteq> CHR ''{'' \<Longrightarrow> match_body func q = None"
  by (simp add: match_body_def braces_def Cons_nth_drop_Suc [symmetric])

lemma no_match_behind: "length func \<le> q \<Longrightarrow> match_body func q = None"
  by (simp add: match_body_def braces_def)

lemma inner_no_brace: "placeholder_ok ph \<Longrightarrow> takeWhile (\<lambda>c. c = CHR ''{'') (placeholder_inner ph @ r) = []"
proof -
  assume ok: "placeholder_ok ph"
  have "\<exists>c s. placeholder_inner ph = c # s \<and> (is_digit c \<or> name_char c)"
  proof (cases ph)
    case (Word n)
    then show ?thesis using show_nat_digits [of n] by (cases "show_nat n") (auto simp: placeholder_inner_def)
  next
    case (WordsFrom n)
    then show ?thesis using show_nat_digits [of n] by (cases "show_nat n") (auto simp: placeholder_inner_def)
  next
    case (Variable v)
    then show ?thesis using ok by (cases v) (auto simp: placeholder_inner_def placeholder_ok_def)
  next
    case (VariableOr v alt)
    then show ?thesis using ok by (cases v) (auto simp: placeholder_inner_def placeholder_ok_def)
  qed
  then show ?thesis using name_not_special digit_not_special by fastforce
qed

lemma match_body_here:
  assumes "placeholder_ok ph" "drop q func = CHR ''{'' # placeholder_inner ph @ CHR ''}'' # rest"
  shows "\<exists>n a. match_body func q = Some (q + length (placeholder_inner ph) + 2, placeholder_inner ph, n, a) \<and>
    placeholder_value cx (placeholder_inner ph) n a = value_of cx ph"
proof -
  have "braces (drop q func) = 1" using inner_no_brace [OF assms(1)] by (simp add: braces_def assms(2))
  moreover have "drop (Suc q) func = placeholder_inner ph @ CHR ''}'' # rest" using assms(2) by (metis drop_Suc list.sel(3) tl_drop)
  ultimately show ?thesis using match_inner_placeholder [OF assms(1), of rest cx] by (auto simp: match_body_def)
qed

lemma first_match_append: "(\<forall>p \<in> set ps. match_at func p = None) \<Longrightarrow> first_match func (ps @ qs) = first_match func qs"
  by (induction ps) auto

lemma first_match_at:
  assumes "p \<le> length func" "from \<le> p" "match_at func p = Some m" "\<And>q. from \<le> q \<Longrightarrow> q < p \<Longrightarrow> match_at func q = None"
  shows "parseCommand_match func from = Some (p, m)"
proof -
  have "[from..<Suc (length func)] = [from..<p] @ [p..<Suc (length func)]"
    using upt_add_eq_append [of "from" p "Suc (length func) - p"] assms(1,2) by (simp del: upt_Suc)
  also have "[p..<Suc (length func)] = p # [Suc p..<Suc (length func)]" using assms(1) by (intro upt_conv_Cons) simp
  finally show ?thesis using assms(3,4) by (simp add: parseCommand_match_def first_match_append del: upt_Suc)
qed

lemma next_placeholder:
  fixes rest :: qstring and pre :: qstring
  assumes "placeholder_ok ph" "CHR ''{'' \<notin> set l" "pre = [] \<or> last pre \<noteq> CHR ''{''"
  defines "func \<equiv> pre @ l @ CHR ''{'' # placeholder_inner ph @ CHR ''}'' # rest"
  shows "\<exists>n a. parseCommand_match func (length pre - 1) =
      Some (length pre + length l - 1, length pre + length l + length (placeholder_inner ph) + 2, placeholder_inner ph, n, a) \<and>
    placeholder_value cx (placeholder_inner ph) n a = value_of cx ph"
proof -
  let ?k = "length pre + length l"
  have nob: "func ! x \<noteq> CHR ''{''" if "length pre - 1 \<le> x" "x < ?k" for x
  proof (cases "x < length pre")
    case True
    then have "x = length pre - 1" "pre \<noteq> []" using that by auto
    then have "func ! x = last pre" "pre \<noteq> []" by (simp_all add: func_def nth_append last_conv_nth)
    then show ?thesis using assms(3) by simp
  next
    case False
    then have "func ! x = l ! (x - length pre)" "x - length pre < length l" using that by (auto simp: func_def nth_append)
    then show ?thesis using assms(2) nth_mem by metis
  qed
  have len: "?k < length func" by (simp add: func_def)
  have d: "drop ?k func = CHR ''{'' # placeholder_inner ph @ CHR ''}'' # rest" by (simp add: func_def)
  obtain n a where m: "match_body func ?k = Some (?k + length (placeholder_inner ph) + 2, placeholder_inner ph, n, a)"
      "placeholder_value cx (placeholder_inner ph) n a = value_of cx ph"
    using match_body_here [OF assms(1) d] by blast
  have at: "match_at func (?k - 1) = Some (?k + length (placeholder_inner ph) + 2, placeholder_inner ph, n, a)"
  proof (cases "?k = 0")
    case True
    then show ?thesis using m by (simp add: match_at_def)
  next
    case False
    have b: "func ! (?k - 1) \<noteq> CHR ''{''" using False by (intro nob) auto
    moreover have "?k - 1 = 0 \<Longrightarrow> match_body func 0 = None"
      using b len by (intro no_match_body) auto
    moreover have "?k - 1 < length func" "Suc (?k - 1) = ?k" using len False by auto
    ultimately show ?thesis using m by (cases "?k - 1 = 0") (simp_all add: match_at_def)
  qed
  have before: "match_at func q = None" if "length pre - 1 \<le> q" "q < ?k - 1" for q
    using that nob [of q] nob [of "Suc q"] len no_match_body [of q func] no_match_body [of "Suc q" func]
    by (auto simp: match_at_def)
  show ?thesis
    by (intro exI conjI first_match_at) (use len at before m in auto)
qed

lemma no_placeholder:
  assumes "CHR ''{'' \<notin> set t" "pre = [] \<or> last pre \<noteq> CHR ''{''"
  shows "parseCommand_match (pre @ t) (length pre - 1) = None"
proof -
  let ?f = "pre @ t"
  have nob: "?f ! x \<noteq> CHR ''{''" if "length pre - 1 \<le> x" "x < length ?f" for x
  proof (cases "x < length pre")
    case True
    then have "x = length pre - 1" "pre \<noteq> []" using that by auto
    then have "?f ! x = last pre" "pre \<noteq> []" by (simp_all add: nth_append last_conv_nth)
    then show ?thesis using assms(2) by simp
  next
    case False
    then have "?f ! x = t ! (x - length pre)" "x - length pre < length t" using that by (auto simp: nth_append)
    then show ?thesis using assms(1) nth_mem by metis
  qed
  have "match_body ?f q = None" if "length pre - 1 \<le> q" for q
    using no_match_body [of q ?f] no_match_behind [of ?f q] nob [OF that] by (cases "q < length ?f") simp_all
  then have "match_at ?f q = None" if "length pre - 1 \<le> q" for q
    using that by (auto simp: match_at_def)
  then have "first_match ?f ([length pre - 1..<Suc (length ?f)] @ []) = first_match ?f []"
    by (intro first_match_append) (simp del: upt_Suc)
  then show ?thesis by (simp add: parseCommand_match_def del: upt_Suc)
qed

lemma custom_loop_expands:
  assumes "\<forall>(l, ph) \<in> set ps. CHR ''{'' \<notin> set l \<and> placeholder_ok ph" "CHR ''{'' \<notin> set t"
    and "pre = [] \<or> last pre \<noteq> CHR ''{''" "func = pre @ command_text ps t"
  shows "\<exists>e r'. custom_loop cx func (length pre) (length pre - 1) r = (e, r') \<and>
    r' @ drop e func = r @ (if pre = [] \<and> ps \<noteq> [] \<and> fst (hd ps) = [] then ''{'' else []) @ expanded cx ps t"
  using assms
proof (induction ps arbitrary: pre r)
  case Nil
  then show ?case using no_placeholder [of t pre] by (subst custom_loop.simps) simp
next
  case (Cons q ps)
  obtain l ph where q: "q = (l, ph)" by force
  let ?i = "placeholder_inner ph" and ?k = "length pre + length l"
  let ?pre = "pre @ l @ CHR ''{'' # ?i @ ''}''"
  have ok: "placeholder_ok ph" "CHR ''{'' \<notin> set l" using Cons.prems(1) q by auto
  have func: "func = pre @ l @ CHR ''{'' # ?i @ CHR ''}'' # command_text ps t" using Cons.prems(4) q by simp
  obtain n a where m: "parseCommand_match func (length pre - 1) = Some (?k - 1, ?k + length ?i + 2, ?i, n, a)"
      "placeholder_value cx ?i n a = value_of cx ph"
    using next_placeholder [OF ok Cons.prems(3)] unfolding func by blast
  have len: "?k + length ?i + 2 = length ?pre" by simp
  have "mid_text (length pre) (Suc (?k - 1) - length pre) func = (if pre = [] \<and> l = [] then ''{'' else l)"
    by (cases "?k = 0") (auto simp: mid_text_def func)
  then have step: "custom_loop cx func (length pre) (length pre - 1) r =
      custom_loop cx func (length ?pre) (length ?pre - 1) (r @ (if pre = [] \<and> l = [] then ''{'' else l) @ value_of cx ph)"
    using m len by (subst custom_loop.simps) (simp only: m option.case prod.case append_assoc)
  have "\<exists>e r'. custom_loop cx func (length ?pre) (length ?pre - 1) (r @ (if pre = [] \<and> l = [] then ''{'' else l) @ value_of cx ph) = (e, r') \<and>
      r' @ drop e func = (r @ (if pre = [] \<and> l = [] then ''{'' else l) @ value_of cx ph) @
        (if ?pre = [] \<and> ps \<noteq> [] \<and> fst (hd ps) = [] then ''{'' else []) @ expanded cx ps t"
    by (rule Cons.IH) (use Cons.prems func in auto)
  then show ?case unfolding step q by auto
qed

lemma custom_text_command:
  assumes "\<forall>(l, ph) \<in> set ps. CHR ''{'' \<notin> set l \<and> placeholder_ok ph" "CHR ''{'' \<notin> set t"
  shows "custom_text cx (command_text ps t) = unescape_braces (expanded cx ps t)"
proof -
  let ?f = "command_text ps t" and ?b = "if ps \<noteq> [] \<and> fst (hd ps) = [] then ''{'' else []"
  obtain e r where r: "custom_loop cx ?f 0 0 [] = (e, r)" "r @ drop e ?f = ?b @ expanded cx ps t"
    using custom_loop_expands [OF assms, of "[]" ?f cx "[]"] by auto
  have strip: "(if ?b @ expanded cx ps t \<noteq> [] \<and> hd (?b @ expanded cx ps t) = CHR ''{'' then tl (?b @ expanded cx ps t)
      else ?b @ expanded cx ps t) = expanded cx ps t"
  proof (cases ps)
    case Nil
    then show ?thesis using assms(2) by (cases t) auto
  next
    case (Cons q qs)
    then obtain l ph where q: "q = (l, ph)" by force
    then show ?thesis using assms(1) Cons by (cases l) auto
  qed
  show ?thesis by (simp only: custom_text_def r prod.case Let_def strip)
qed



text \<open>
  Doubled braces are undone in the whole result, also in what the user wrote; and an escaped brace directly before
  a placeholder is not copied, since it is part of the match.
\<close>

lemma braces_of_the_user_undone:
  "custom_text \<lparr>cx_words = [''/c'', ''x{{y''], cx_context = [], cx_vars = (\<lambda>_. None)\<rparr> ''say {1}'' = ''say x{y''"
proof -
  let ?cx = "\<lparr>cx_words = [''/c'', ''x{{y''], cx_context = [], cx_vars = (\<lambda>_. None)\<rparr>"
  have c: "command_text [(''say '', Word 1)] [] = ''say {1}''"
    by (simp add: placeholder_inner_def show_nat.simps digit_char_def char_of_def bit_iff_odd)
  have e: "expanded ?cx [(''say '', Word 1)] [] = ''say x{{y''" by (simp add: value_of_def Let_def)
  have "custom_text ?cx (command_text [(''say '', Word 1)] []) = unescape_braces (expanded ?cx [(''say '', Word 1)] [])"
    by (rule custom_text_command) (simp_all add: placeholder_ok_def)
  then show ?thesis by (simp only: c e) simp
qed

lemma escaped_brace_dropped:
  "custom_text \<lparr>cx_words = [''/c'', ''v''], cx_context = [], cx_vars = (\<lambda>_. None)\<rparr> ''a{{{1}'' = ''av''"
proof -
  let ?cx = "\<lparr>cx_words = [''/c'', ''v''], cx_context = [], cx_vars = (\<lambda>_. None)\<rparr>"
  have m: "parseCommand_match ''a{{{1}'' 0 = Some (0, 6, ''1'', [], [])" "parseCommand_match ''a{{{1}'' 5 = None"
    by (simp_all add: parseCommand_match_def match_at_def match_body_def braces_def match_inner_def is_digit_def name_char_def
        upt_rec Let_def)
  have v: "placeholder_value ?cx ''1'' [] [] = ''v''"
    by (simp add: placeholder_value_def word_index_def is_digit_def digit_value_def)
  have "custom_loop ?cx ''a{{{1}'' 6 5 ''av'' = (6, ''av'')" by (subst custom_loop.simps) (simp add: m)
  then have "custom_loop ?cx ''a{{{1}'' 0 0 [] = (6, ''av'')"
    by (subst custom_loop.simps) (simp add: m v mid_text_def)
  then show ?thesis by (simp add: custom_text_def)
qed

end
