(* ===== verification/Twitch_Live.thy ===== *)
theory Twitch_Live
  imports Twitch_Handlers
begin

text \<open>
  The state of a stream and what is asked about it: \<open>setLive\<close> and \<open>parseLiveStatus\<close> of
  \<open>TwitchChannel.cpp\<close>, titles, display names, chatters, badges, cheer emotes and clips, and
  \<open>NotificationController.cpp\<close>. Requests are effects, their answers are operations of their own.
\<close>

section \<open>Settings and notifications\<close>

record live_env =
  le_server :: server_env
  le_toasts :: bool
  le_playSound :: bool
  le_flashTaskbar :: bool
  le_onAnyChannel :: bool
  le_streamerSuppress :: bool
  le_onlySmallStreamers :: bool
  le_smallStreamerLimit :: int

abbreviation le_lower :: "live_env \<Rightarrow> qstring \<Rightarrow> qstring" where
  "le_lower e \<equiv> be_toLower (se_builder (le_server e))"

text \<open>The channels the user asked to be told about, and those outside the open channels that are live.\<close>

record notifications =
  nt_channels :: "qstring list"
  nt_fakeChannels :: "qstring list"

definition isChannelNotified :: "live_env \<Rightarrow> qstring \<Rightarrow> notifications \<Rightarrow> bool" where
  "isChannelNotified e chan n = list_ex (\<lambda>channel. le_lower e chan = le_lower e channel) (nt_channels n)"

definition addChannelNotification :: "qstring \<Rightarrow> notifications \<Rightarrow> notifications" where
  "addChannelNotification chan n = n\<lparr>nt_channels := nt_channels n @ [chan]\<rparr>"

text \<open>The loop with an index that is lowered again after an element was removed.\<close>

function remove_loop :: "live_env \<Rightarrow> qstring \<Rightarrow> nat \<Rightarrow> qstring list \<Rightarrow> qstring list" where
  "remove_loop e chan i cs =
     (if i \<ge> length cs then cs
      else if le_lower e (cs ! i) = le_lower e chan then remove_loop e chan i (remove_at i cs)
      else remove_loop e chan (Suc i) cs)"
  by pat_completeness auto
termination
  by (relation "measure (\<lambda>(_, _, i, cs). length cs - i)") auto

declare remove_loop.simps [simp del]

definition removeChannelNotification :: "live_env \<Rightarrow> qstring \<Rightarrow> notifications \<Rightarrow> notifications" where
  "removeChannelNotification e chan n = n\<lparr>nt_channels := remove_loop e chan 0 (nt_channels n)\<rparr>"

definition updateChannelNotification :: "live_env \<Rightarrow> qstring \<Rightarrow> notifications \<Rightarrow> notifications" where
  "updateChannelNotification e chan n =
     (if isChannelNotified e chan n then removeChannelNotification e chan n
      else addChannelNotification chan n)"

text \<open>Disabling the newest of the last 200 messages of the live channel that says the channel is live.\<close>

definition withdraw_live :: "('b, msg_ptr) cbuf_ops \<Rightarrow> server_env \<Rightarrow> qstring \<Rightarrow> 'b tw_world \<Rightarrow> 'b tw_world" where
  "withdraw_live B e name w =
     (let c = liveChannel (w_special w); snapshot = snapshot_of B w c;
          recent = rev (drop (length snapshot - 200) snapshot)
      in case List.find (\<lambda>p. messageText (w_heap w p) = qarg ''%1 is live!'' name) recent of
           None \<Rightarrow> w
         | Some p \<Rightarrow> run_channel e c (set_flag p Disabled) w)"

definition removeFakeChannel :: "('b, msg_ptr) cbuf_ops \<Rightarrow> live_env \<Rightarrow> qstring \<Rightarrow> notifications \<times> 'b tw_world \<Rightarrow> notifications \<times> 'b tw_world" where
  "removeFakeChannel B e chan = (\<lambda>(n, w).
     case find_index (\<lambda>x. x = chan) (nt_fakeChannels n) of
       None \<Rightarrow> (n, w)
     | Some i \<Rightarrow> (n\<lparr>nt_fakeChannels := remove_at i (nt_fakeChannels n)\<rparr>, withdraw_live B (le_server e) chan w))"

definition checkStream :: "('b, msg_ptr) cbuf_ops \<Rightarrow> live_env \<Rightarrow> bool \<Rightarrow> qstring \<Rightarrow> notifications \<times> 'b tw_world \<Rightarrow> notifications \<times> 'b tw_world" where
  "checkStream B e live chan = (\<lambda>(n, w).
     if \<not> live then removeFakeChannel B e chan (n, w)
     else if chan \<in> set (nt_fakeChannels n) then (n, w)
     else
       (let w1 = (if le_toasts e then effect (Toast chan) w else w);
            w2 = (if le_playSound e \<and> \<not> le_streamerSuppress e then effect PlayNotification w1 else w1);
            w3 = (if le_flashTaskbar e \<and> \<not> le_streamerSuppress e then effect FlashTaskbar w2 else w2);
            w4 = add_new B (le_server e) (liveChannel (w_special w3)) (liveMessage (env_now (le_server e)) chan) w3
        in (n\<lparr>nt_fakeChannels := nt_fakeChannels n @ [chan]\<rparr>, w4)))"

text \<open>The channels that are asked for: those no channel is open for, in batches of a hundred.\<close>

definition fake_channels_to_fetch :: "('b, msg_ptr) cbuf_ops \<Rightarrow> live_env \<Rightarrow> notifications \<Rightarrow> 'b tw_world \<Rightarrow> qstring list" where
  "fake_channels_to_fetch B e n w = filter (\<lambda>name. find_channel B (le_server e) w name = None) (nt_channels n)"

definition fetchFakeChannels :: "('b, msg_ptr) cbuf_ops \<Rightarrow> live_env \<Rightarrow> notifications \<Rightarrow> 'b tw_world \<Rightarrow> 'b tw_world" where
  "fetchFakeChannels B e n w =
     fold (\<lambda>batch. effect (FetchStreams batch)) (splitListIntoBatches 100 (fake_channels_to_fetch B e n w)) w"

text \<open>The answer to one batch: the logins of the streams that are live.\<close>

definition fakeChannelsFetched :: "('b, msg_ptr) cbuf_ops \<Rightarrow> live_env \<Rightarrow> qstring list \<Rightarrow> qstring list \<Rightarrow> notifications \<times> 'b tw_world \<Rightarrow> notifications \<times> 'b tw_world" where
  "fakeChannelsFetched B e batch liveStreams =
     fold (\<lambda>name. checkStream B e (le_lower e name \<in> set liveStreams) name) batch"

section \<open>Live status\<close>

definition change_status :: "nat \<Rightarrow> (stream_status \<Rightarrow> stream_status) \<Rightarrow> 'b tw_world \<Rightarrow> 'b tw_world" where
  "change_status c f = change_info c (\<lambda>i. i\<lparr>ti_status := f (ti_status i)\<rparr>)"

definition setLive :: "('b, msg_ptr) cbuf_ops \<Rightarrow> live_env \<Rightarrow> notifications \<Rightarrow> bool \<Rightarrow> nat \<Rightarrow> 'b tw_world \<Rightarrow> 'b tw_world" where
  "setLive B e n newLiveStatus c w =
     (case w_info w c of
        None \<Rightarrow> w
      | Some i \<Rightarrow>
          if ss_live (ti_status i) = newLiveStatus then w
          else
            (let s = le_server e; now = env_now s; name = ti_displayName i;
                 w1 = (if newLiveStatus then
                     (let v1 = (if isChannelNotified e (name_of w c) n then
                            (let u1 = (if le_toasts e then effect (Toast (name_of w c)) w else w);
                                 u2 = (if le_playSound e then effect PlayNotification u1 else u1)
                             in if le_flashTaskbar e then effect FlashTaskbar u2 else u2) else w);
                          v2 = add_new B s c (liveSystemMessage now name) v1;
                          v3 = add_new B s (liveChannel (w_special v2)) (liveMessage now name) v2
                      in if le_onAnyChannel e \<and> \<not> le_streamerSuppress e then effect PlayNotification v3 else v3)
                   else withdraw_live B s name (add_new B s c (offlineSystemMessage now name) w))
             in effect (LiveStatusChanged c) (change_status c (\<lambda>s. s\<lparr>ss_live := newLiveStatus\<rparr>) w1)))"

record helix_stream =
  hs_viewerCount :: nat
  hs_gameId :: qstring
  hs_gameName :: qstring
  hs_title :: qstring
  hs_startedAt :: int
  hs_type :: qstring

text \<open>Division of C++ rounds towards zero; times are in seconds.\<close>

definition trunc_div :: "int \<Rightarrow> int \<Rightarrow> int" where
  "trunc_div a b = sgn a * (\<bar>a\<bar> div b)"

definition trunc_mod :: "int \<Rightarrow> int \<Rightarrow> int" where
  "trunc_mod a b = a - b * trunc_div a b"

definition uptime :: "int \<Rightarrow> qstring" where
  "uptime diff = show_int (trunc_div diff 3600) @ ''h '' @ show_int (trunc_div (trunc_mod diff 3600) 60) @ ''m''"

definition parseLiveStatus :: "('b, msg_ptr) cbuf_ops \<Rightarrow> live_env \<Rightarrow> notifications \<Rightarrow> int \<Rightarrow> bool \<Rightarrow> helix_stream \<Rightarrow> nat \<Rightarrow> 'b tw_world \<Rightarrow> 'b tw_world" where
  "parseLiveStatus B e n nowSecs live stream c w =
     (if \<not> live then setLive B e n False c w
      else
        (let w1 = change_status c (\<lambda>s. s\<lparr>ss_viewerCount := hs_viewerCount stream, ss_gameId := hs_gameId stream, ss_game := hs_gameName stream,
               ss_title := hs_title stream, ss_uptime := uptime (nowSecs - hs_startedAt stream), ss_rerun := False,
               ss_streamType := hs_type stream\<rparr>) w
         in effect (LiveStatusChanged c) (setLive B e n True c w1)))"

definition refreshLiveStatus :: "('b, msg_ptr) cbuf_ops \<Rightarrow> live_env \<Rightarrow> notifications \<Rightarrow> nat \<Rightarrow> 'b tw_world \<Rightarrow> 'b tw_world" where
  "refreshLiveStatus B e n c w =
     (case w_info w c of None \<Rightarrow> w
      | Some i \<Rightarrow> if ti_roomId i = [] then setLive B e n False c w else effect (GetStream (ti_roomId i)) w)"

section \<open>Titles, names and chatters\<close>

definition TITLE_REFRESH_PERIOD :: int where
  "TITLE_REFRESH_PERIOD = 10000"

text \<open>The first refresh asks even without a room id.\<close>

definition refreshTitle :: "int \<Rightarrow> nat \<Rightarrow> 'b tw_world \<Rightarrow> 'b tw_world" where
  "refreshTitle now c w =
     (case w_info w c of None \<Rightarrow> w
      | Some i \<Rightarrow>
          if (case ti_titleTimer i of None \<Rightarrow> False
              | Some started \<Rightarrow> ti_roomId i = [] \<or> now - started < TITLE_REFRESH_PERIOD)
          then w
          else effect (GetChannel (ti_roomId i)) (change_info c (\<lambda>i. i\<lparr>ti_titleTimer := Some now\<rparr>) w))"

definition titleRefreshed :: "qstring \<Rightarrow> nat \<Rightarrow> 'b tw_world \<Rightarrow> 'b tw_world" where
  "titleRefreshed title c w = effect (LiveStatusChanged c) (change_status c (\<lambda>s. s\<lparr>ss_title := title\<rparr>) w)"

definition displayNameFetched :: "(qstring \<Rightarrow> qstring \<Rightarrow> bool) \<Rightarrow> server_env \<Rightarrow> qstring \<Rightarrow> nat \<Rightarrow> 'b tw_world \<Rightarrow> 'b tw_world" where
  "displayNameFetched sameText e userDisplayName c w =
     (let name = name_of w c;
          w1 = change_info c (\<lambda>i. if sameText userDisplayName name
            then i\<lparr>ti_displayName := userDisplayName, ti_localizedName := userDisplayName\<rparr>
            else i\<lparr>ti_localizedName := qarg (qarg ''%1(%2)'' name) userDisplayName\<rparr>) w;
          w2 = change_info c (\<lambda>i. i\<lparr>ti_chatters := cc_addRecentChatter (be_toLower (se_builder e)) (ti_displayName i) (ti_chatters i)\<rparr>) w1
      in effect (DisplayNameChanged c) w2)"

definition refreshChatters :: "live_env \<Rightarrow> nat \<Rightarrow> 'b tw_world \<Rightarrow> 'b tw_world" where
  "refreshChatters e c w =
     (case w_info w c of None \<Rightarrow> w
      | Some i \<Rightarrow>
          if le_onlySmallStreamers e \<and> ss_live (ti_status i) \<and> int (ss_viewerCount (ti_status i)) > le_smallStreamerLimit e
          then w else effect (GetChatters (name_of w c)) w)"

definition parseChatters :: "qobject \<Rightarrow> qstring list" where
  "parseChatters jsonRoot =
     (let jsonCategories = toObject (json_value jsonRoot ''chatters'')
      in remdups (concat (map (\<lambda>category. map (json_toString []) (toArray (json_value jsonCategories category)))
           [''broadcaster'', ''vips'', ''moderators'', ''staff'', ''admins'', ''global_mods'', ''viewers''])))"

text \<open>An error of the cache the names are kept in is no world.\<close>

definition chattersFetched :: "qobject \<Rightarrow> nat \<Rightarrow> 'b tw_world \<Rightarrow> 'b tw_world option" where
  "chattersFetched jsonRoot c w =
     (case w_info w c of None \<Rightarrow> Some w
      | Some i \<Rightarrow>
          (case cc_updateOnlineChatters (parseChatters jsonRoot) (ti_chatters i) of
             Inl _ \<Rightarrow> None
           | Inr cs \<Rightarrow> Some (change_info c (\<lambda>i. i\<lparr>ti_chatterCount := json_toInt 0 (json_value jsonRoot ''chatter_count''), ti_chatters := cs\<rparr>) w)))"

section \<open>Badges and cheer emotes\<close>

text \<open>Versions a set has already are kept (\<open>emplace\<close>).\<close>

definition badge_of_json :: "qobject \<Rightarrow> badge_emote" where
  "badge_of_json v =
     (let text = (\<lambda>k. json_toString [] (json_value v k))
      in \<lparr>bde_images = [text ''image_url_1x'', text ''image_url_2x'', text ''image_url_4x''], bde_tooltip = text ''description'',
          bde_url = text ''clickURL''\<rparr>)"

definition emplace :: "'k \<Rightarrow> 'v \<Rightarrow> ('k \<times> 'v) list \<Rightarrow> ('k \<times> 'v) list" where
  "emplace k v m = (if map_of m k = None then m @ [(k, v)] else m)"

definition add_badge_set :: "qstring \<Rightarrow> qjson \<Rightarrow> (qstring \<times> (qstring \<times> badge_emote) list) list \<Rightarrow> (qstring \<times> (qstring \<times> badge_emote) list) list" where
  "add_badge_set key jsonSet sets =
     (let versions = (case map_of sets key of Some vs \<Rightarrow> vs | None \<Rightarrow> []);
          vs = fold (\<lambda>(k, v). emplace k (badge_of_json (toObject v))) (toObject (json_value (toObject jsonSet) ''versions'')) versions
      in (key, vs) # filter (\<lambda>s. fst s \<noteq> key) sets)"

definition badgesFetched :: "qobject \<Rightarrow> nat \<Rightarrow> 'b tw_world \<Rightarrow> 'b tw_world" where
  "badgesFetched jsonRoot c =
     change_info c (\<lambda>i. i\<lparr>ti_badgeSets := fold (\<lambda>(k, v). add_badge_set k v) (toObject (json_value jsonRoot ''badge_sets'')) (ti_badgeSets i)\<rparr>)"

definition twitchBadge :: "qstring \<Rightarrow> qstring \<Rightarrow> twitch_info \<Rightarrow> badge_emote option" where
  "twitchBadge set' version i = (case map_of (ti_badgeSets i) set' of None \<Rightarrow> None | Some vs \<Rightarrow> map_of vs version)"

record helix_tier =
  ht_id :: qstring
  ht_minBits :: int
  ht_color :: qstring
  ht_darkAnimated :: "qstring list"
  ht_darkStatic :: "qstring list"

definition cheer_set_of :: "qstring \<times> helix_tier list \<Rightarrow> cheer_set" where
  "cheer_set_of = (\<lambda>(prefix', tiers).
     \<lparr>cset_prefix = prefix', cset_emotes = sort_key (\<lambda>em. - cheer_minBits em)
       (map (\<lambda>t. \<lparr>cheer_minBits = ht_minBits t, cheer_color = ht_color t, cheer_tooltip = prefix' @ ht_id t @ ''<br>Twitch Cheer Emote'',
          cheer_animated = ht_darkAnimated t, cheer_static = ht_darkStatic t\<rparr>) tiers)\<rparr>)"

definition cheerEmotesFetched :: "(qstring \<times> helix_tier list) list \<Rightarrow> nat \<Rightarrow> 'b tw_world \<Rightarrow> 'b tw_world" where
  "cheerEmotesFetched cheermoteSets c = change_info c (\<lambda>i. i\<lparr>ti_cheerSets := map cheer_set_of cheermoteSets\<rparr>)"

text \<open>\<open>amountOf prefix s\<close> is the number behind the prefix, if the expression matches; a number out of range is 0.\<close>

fun cheerEmote :: "(qstring \<Rightarrow> int option) \<Rightarrow> (qstring \<Rightarrow> qstring \<Rightarrow> qstring option) \<Rightarrow> cheer_set list \<Rightarrow> qstring \<Rightarrow> cheer_emote option" where
  "cheerEmote toInt amountOf [] s = None"
| "cheerEmote toInt amountOf (set' # sets) s =
     (case amountOf (cset_prefix set') s of
        None \<Rightarrow> cheerEmote toInt amountOf sets s
      | Some amount \<Rightarrow>
          (let bitAmount = (case toInt amount of Some b \<Rightarrow> b | None \<Rightarrow> 0)
           in case List.find (\<lambda>em. bitAmount \<ge> cheer_minBits em) (cset_emotes set') of
                Some em \<Rightarrow> Some em
              | None \<Rightarrow> cheerEmote toInt amountOf sets s))"

section \<open>Clips\<close>

definition CLIP_CREATION_COOLDOWN :: int where
  "CLIP_CREATION_COOLDOWN = 5000"

definition createClip :: "('b, msg_ptr) cbuf_ops \<Rightarrow> server_env \<Rightarrow> int \<Rightarrow> nat \<Rightarrow> 'b tw_world \<Rightarrow> 'b tw_world" where
  "createClip B e now c w =
     (case w_info w c of None \<Rightarrow> w
      | Some i \<Rightarrow>
          if \<not> ss_live (ti_status i) then
            add_new B e c (system_message (env_now e) ''Cannot create clip while the channel is offline!'') w
          else if (case ti_clipTimer i of None \<Rightarrow> False
                   | Some started \<Rightarrow> now - started < CLIP_CREATION_COOLDOWN \<or> ti_clipInProgress i)
          then w
          else
            (let w1 = change_info c (\<lambda>i. if ti_clipTimer i = None then i\<lparr>ti_clipTimer := Some now\<rparr> else i) w;
                 w2 = add_new B e c (system_message (env_now e) ''Creating clip...'') w1
             in effect (CreateClip (ti_roomId i)) (change_info c (\<lambda>i. i\<lparr>ti_clipInProgress := True\<rparr>) w2)))"

datatype helix_clip_error = ClipsDisabled | UserNotAuthenticated | ClipErrorUnknown

definition clip_failure_text :: "helix_clip_error \<Rightarrow> qstring" where
  "clip_failure_text err =
     (case err of
        ClipsDisabled \<Rightarrow>
          ''Failed to create a clip - the streamer has clips disabled entirely or requires a certain subscriber or follower status to create clips.''
      | UserNotAuthenticated \<Rightarrow>
          ''Failed to create a clip - you need to re-authenticate.'' @ '' '' @ ''Click here to add your account again.''
      | ClipErrorUnknown \<Rightarrow> ''Failed to create a clip - an unknown error occurred.'')"

text \<open>The answer, and what is done in any case afterwards.\<close>

definition clipAnswered :: "('b, msg_ptr) cbuf_ops \<Rightarrow> server_env \<Rightarrow> int \<Rightarrow> helix_clip_error option \<Rightarrow> nat \<Rightarrow> 'b tw_world \<Rightarrow> 'b tw_world" where
  "clipAnswered B e now err c w =
     (let t = (case err of None \<Rightarrow> ''Clip created! Copy link to clipboard or edit it in browser.'' | Some x \<Rightarrow> clip_failure_text x);
          w1 = add_new B e c ((set_flags [System] (new_message (env_now e)))\<lparr>messageText := t, searchText := t\<rparr>) w
      in change_info c (\<lambda>i. i\<lparr>ti_clipTimer := Some now, ti_clipInProgress := False\<rparr>) w1)"

end
