(* ===== verification/Emojis.thy ===== *)
theory Emojis
  imports Text_Utils Qt_Text "HOL-Library.List_Lexorder" "HOL-Library.Char_ord"
begin

text \<open>
  \<open>providers/emoji/Emojis.cpp\<close>: the tables of emojis, splitting a text at the emojis in it, and replacing
  short codes. Texts with emojis are lists of UTF-16 units; what rapidjson reads of one entry of
  \<open>emoji.json\<close> is the record \<open>emoji_entry\<close> (a missing text leaves the field as it is: empty). An emote is its
  picture's address.
\<close>

section \<open>Emojis\<close>

record emoji_entry =
  ee_short_names :: "qstring list"
  ee_non_qualified :: "qstring option"
  ee_unified :: "qstring option"
  ee_apple :: bool
  ee_google :: bool
  ee_twitter :: bool
  ee_facebook :: bool

record emoji_data =
  em_value :: utf16
  em_unifiedCode :: qstring
  em_nonQualifiedCode :: qstring
  em_shortCodes :: "qstring list"
  em_capabilities :: "qstring list"
  em_emote :: qstring

definition EmojiData :: emoji_data where
  "EmojiData = \<lparr>em_value = [], em_unifiedCode = [], em_nonQualifiedCode = [], em_shortCodes = [], em_capabilities = [], em_emote = []\<rparr>"

text \<open>Hexadecimal numbers of 32 bits; a text that is none is 0.\<close>

definition hex_digit :: "char \<Rightarrow> nat option" where
  "hex_digit c =
     (let n = of_char c :: nat in
      if 48 \<le> n \<and> n \<le> 57 then Some (n - 48)
      else if 97 \<le> n \<and> n \<le> 102 then Some (n - 87)
      else if 65 \<le> n \<and> n \<le> 70 then Some (n - 55) else None)"

definition hex_number :: "qstring \<Rightarrow> nat" where
  "hex_number s =
     (let ds = map hex_digit s;
          v = foldl (\<lambda>v d. 16 * v + the d) 0 ds
      in if s = [] \<or> None \<in> set ds \<or> v \<ge> 2 ^ 32 then 0 else v)"

text \<open>\<open>QString::fromUcs4\<close> and \<open>QChar::highSurrogate\<close>, \<open>lowSurrogate\<close>.\<close>

definition utf16_of_ucs4 :: "nat \<Rightarrow> utf16" where
  "utf16_of_ucs4 n =
     (if n < 0x10000 then [of_nat n] else [of_nat (n div 1024 + 0xD7C0), of_nat (n mod 1024 + 0xDC00)])"

text \<open>\<open>QString::toLower\<close> of a code: only ASCII letters occur.\<close>

definition lower_char :: "char \<Rightarrow> char" where
  "lower_char c = (let n = of_char c :: nat in if 65 \<le> n \<and> n \<le> 90 then char_of (n + 32) else c)"

text \<open>More than nine code points are an exception of \<open>std::array::at\<close>.\<close>

definition parseEmoji :: "emoji_entry \<Rightarrow> qstring \<Rightarrow> emoji_data option" where
  "parseEmoji entry shortCode =
     (let codes = (if shortCode \<noteq> [] then [shortCode] else ee_short_names entry);
          nonQualified = (case ee_non_qualified entry of Some s \<Rightarrow> s | None \<Rightarrow> []);
          unified = (case ee_unified entry of Some s \<Rightarrow> s | None \<Rightarrow> []);
          capabilities = (if ee_apple entry then [''Apple''] else []) @ (if ee_google entry then [''Google''] else []) @
            (if ee_twitter entry then [''Twitter''] else []) @ (if ee_facebook entry then [''Facebook''] else []);
          characters = split_on (CHR ''-'') (map lower_char (if nonQualified \<noteq> [] then nonQualified else unified))
      in if length characters > 9 then None
         else Some (EmojiData\<lparr>em_value := concat (map (\<lambda>c. utf16_of_ucs4 (hex_number c)) characters),
           em_unifiedCode := unified, em_nonQualifiedCode := nonQualified, em_shortCodes := codes, em_capabilities := capabilities\<rparr>))"

definition toneNames :: "(qstring \<times> qstring) list" where
  "toneNames = [(''1F3FB'', ''tone1''), (''1F3FC'', ''tone2''), (''1F3FD'', ''tone3''), (''1F3FE'', ''tone4''), (''1F3FF'', ''tone5'')]"

text \<open>No known tone fails an assertion.\<close>

definition getToneNames :: "qstring \<Rightarrow> qstring option" where
  "getToneNames tones =
     (let names = List.map_filter (map_of toneNames) (split_on (CHR ''-'') tones)
      in if names = [] then None else Some (join_with (CHR ''-'') names))"

section \<open>The tables\<close>

record emoji_tables =
  et_emojis :: "(qstring \<times> emoji_data) list"
  et_shortCodes :: "qstring list"
  et_shortCodeToEmoji :: "(qstring \<times> emoji_data) list"
  et_firstByte :: "(16 word \<times> emoji_data list) list"

definition Emojis_tables :: emoji_tables where
  "Emojis_tables = \<lparr>et_emojis = [], et_shortCodes = [], et_shortCodeToEmoji = [], et_firstByte = []\<rparr>"

definition map_put :: "'k \<Rightarrow> 'v \<Rightarrow> ('k \<times> 'v) list \<Rightarrow> ('k \<times> 'v) list" where
  "map_put k v m = (k, v) # filter (\<lambda>e. fst e \<noteq> k) m"

definition append_first :: "emoji_data \<Rightarrow> (16 word \<times> emoji_data list) list \<Rightarrow> (16 word \<times> emoji_data list) list" where
  "append_first em m =
     map_put (hd (em_value em)) ((case map_of m (hd (em_value em)) of Some es \<Rightarrow> es | None \<Rightarrow> []) @ [em]) m"

definition enter_emoji :: "emoji_data \<Rightarrow> qstring list \<Rightarrow> emoji_tables \<Rightarrow> emoji_tables" where
  "enter_emoji em codes t =
     \<lparr>et_emojis = map_put (em_unifiedCode em) em (et_emojis t),
      et_shortCodes = et_shortCodes t @ codes,
      et_shortCodeToEmoji = fold (\<lambda>c. map_put c em) codes (et_shortCodeToEmoji t),
      et_firstByte = append_first em (et_firstByte t)\<rparr>"

text \<open>An entry and its skin variations: each is a name of tones and an entry. An emoji without short codes is read out of bounds.\<close>

fun load_variations :: "emoji_data \<Rightarrow> (qstring \<times> emoji_entry) list \<Rightarrow> emoji_tables \<Rightarrow> emoji_tables option" where
  "load_variations em [] t = Some t"
| "load_variations em ((tones, entry) # vs) t =
     (case (getToneNames tones, em_shortCodes em) of
        (Some toneName, code # _) \<Rightarrow>
          (case parseEmoji entry (code @ ''_'' @ toneName) of
             Some v \<Rightarrow> load_variations em vs (enter_emoji v [code @ ''_'' @ toneName] t)
           | None \<Rightarrow> None)
      | _ \<Rightarrow> None)"

fun loadEmojis :: "(emoji_entry \<times> (qstring \<times> emoji_entry) list) list \<Rightarrow> emoji_tables \<Rightarrow> emoji_tables option" where
  "loadEmojis [] t = Some t"
| "loadEmojis ((entry, variations) # es) t =
     (case parseEmoji entry [] of
        None \<Rightarrow> None
      | Some em \<Rightarrow>
          (case load_variations em variations (enter_emoji em (em_shortCodes em) t) of
             None \<Rightarrow> None | Some t' \<Rightarrow> loadEmojis es t'))"

text \<open>The longest emojis first, in a stable way; short codes in their order.\<close>

definition sortEmojis :: "emoji_tables \<Rightarrow> emoji_tables" where
  "sortEmojis t =
     t\<lparr>et_firstByte := map (\<lambda>(k, es). (k, sort_key (\<lambda>em. - int (length (em_value em))) es)) (et_firstByte t),
       et_shortCodes := sort (et_shortCodes t)\<rparr>"

definition emojiSets :: "(qstring \<times> qstring) list" where
  "emojiSets = [(''Twitter'', ''https://pajbot.com/static/emoji-v2/img/twitter/64/''),
     (''Facebook'', ''https://pajbot.com/static/emoji-v2/img/facebook/64/''),
     (''Apple'', ''https://pajbot.com/static/emoji-v2/img/apple/64/''),
     (''Google'', ''https://pajbot.com/static/emoji-v2/img/google/64/'')]"

text \<open>The picture of an emoji in the set the user chose. The emojis are shared between the tables.\<close>

definition emoji_url :: "qstring \<Rightarrow> emoji_data \<Rightarrow> qstring" where
  "emoji_url emojiSet em =
     (let setToUse = (if emojiSet \<notin> set (em_capabilities em) then ''Twitter'' else emojiSet);
          urlPrefix = (case map_of emojiSets setToUse of Some u \<Rightarrow> u | None \<Rightarrow> ''https://pajbot.com/static/emoji-v2/img/twitter/64/'')
      in urlPrefix @ map lower_char (em_unifiedCode em) @ ''.png'')"

definition loadEmojiSet :: "qstring \<Rightarrow> emoji_tables \<Rightarrow> emoji_tables" where
  "loadEmojiSet emojiSet t =
     (let f = (\<lambda>em. em\<lparr>em_emote := emoji_url emojiSet em\<rparr>)
      in t\<lparr>et_emojis := map (\<lambda>(k, em). (k, f em)) (et_emojis t),
           et_shortCodeToEmoji := map (\<lambda>(k, em). (k, f em)) (et_shortCodeToEmoji t),
           et_firstByte := map (\<lambda>(k, es). (k, map f es)) (et_firstByte t)\<rparr>)"

definition emojis_load :: "qstring \<Rightarrow> (emoji_entry \<times> (qstring \<times> emoji_entry) list) list \<Rightarrow> emoji_tables option" where
  "emojis_load emojiSet entries = map_option (\<lambda>t. loadEmojiSet emojiSet (sortEmojis t)) (loadEmojis entries Emojis_tables)"

section \<open>Parsing\<close>

datatype emoji_piece = Emoji emoji_data | Plain utf16

definition isLowSurrogate :: "16 word \<Rightarrow> bool" where
  "isLowSurrogate c \<longleftrightarrow> 0xDC00 \<le> c \<and> c \<le> 0xDFFF"

text \<open>The comparison starts at the second unit: the first one is the key of the table.\<close>

definition emoji_matches :: "utf16 \<Rightarrow> nat \<Rightarrow> emoji_data \<Rightarrow> bool" where
  "emoji_matches text i em \<longleftrightarrow>
     int (length (em_value em)) - 1 \<le> int (length text) - int i - 1 \<and>
     list_all (\<lambda>j. text ! (i + j) = em_value em ! j) [1..<length (em_value em)]"

definition emoji_at :: "emoji_tables \<Rightarrow> utf16 \<Rightarrow> nat \<Rightarrow> emoji_data option" where
  "emoji_at t text i =
     (if isLowSurrogate (text ! i) then None
      else case map_of (et_firstByte t) (text ! i) of
        None \<Rightarrow> None
      | Some possibleEmojis \<Rightarrow>
          (case List.find (emoji_matches text i) possibleEmojis of
             Some em \<Rightarrow> if length (em_value em) = 0 then None else Some em
           | None \<Rightarrow> None))"

definition mid :: "nat \<Rightarrow> nat \<Rightarrow> utf16 \<Rightarrow> utf16" where
  "mid i n s = take n (drop i s)"

lemma emoji_at_length: "emoji_at t text i = Some em \<Longrightarrow> 0 < length (em_value em)"
  by (auto simp: emoji_at_def split: if_splits option.splits)

lemma emoji_at_progress:
  "emoji_at t text i = Some em \<Longrightarrow> i < length text \<Longrightarrow> length text - (i + length (em_value em)) < length text - i"
  using emoji_at_length [of t "text" i em] by (cases "em_value em") auto

text \<open>The loop at index \<open>i\<close>, with the end of the last emoji.\<close>

function parse_loop :: "emoji_tables \<Rightarrow> utf16 \<Rightarrow> nat \<Rightarrow> nat \<Rightarrow> emoji_piece list \<Rightarrow> emoji_piece list" where
  "parse_loop t text i lastEnd result =
     (if i \<ge> length text then
        (if lastEnd < length text then result @ [Plain (drop lastEnd text)] else result)
      else case emoji_at t text i of
        None \<Rightarrow> parse_loop t text (Suc i) lastEnd result
      | Some em \<Rightarrow>
          parse_loop t text (i + length (em_value em)) (i + length (em_value em))
            ((if i > lastEnd then result @ [Plain (mid lastEnd (i - lastEnd) text)] else result) @ [Emoji em]))"
  by pat_completeness auto
termination
  by (relation "measure (\<lambda>(t, text, i, _). length text - i)") (auto simp: emoji_at_progress)

declare parse_loop.simps [simp del]

definition emojis_parse :: "emoji_tables \<Rightarrow> utf16 \<Rightarrow> emoji_piece list" where
  "emojis_parse t text = parse_loop t text 0 0 []"

section \<open>Short codes\<close>

definition code_unit :: "16 word \<Rightarrow> bool" where
  "code_unit c \<longleftrightarrow> (48 \<le> c \<and> c \<le> 57) \<or> (65 \<le> c \<and> c \<le> 90) \<or> (97 \<le> c \<and> c \<le> 122) \<or> c = 95 \<or> c = 45 \<or> c = 43"

text \<open>The matches of \<open>:([-+\w]+):\<close> from a position on: where they start and how long they are.\<close>

function code_matches :: "nat \<Rightarrow> utf16 \<Rightarrow> (nat \<times> nat) list" where
  "code_matches pos [] = []"
| "code_matches pos (c # s) =
     (let run = takeWhile code_unit s; rest = drop (length run) s in
      if c = 58 \<and> run \<noteq> [] \<and> rest \<noteq> [] \<and> hd rest = 58
      then (pos, length run + 2) # code_matches (pos + length run + 2) (tl rest)
      else code_matches (Suc pos) s)"
  by pat_completeness auto
termination
  by (relation "measure (\<lambda>(_, s). length s)") auto

definition lower_unit :: "16 word \<Rightarrow> 16 word" where
  "lower_unit c = (if 65 \<le> c \<and> c \<le> 90 then c + 32 else c)"

definition text_of_units :: "utf16 \<Rightarrow> qstring" where
  "text_of_units s = map (\<lambda>w. char_of (unat w)) s"

definition units_of_text :: "qstring \<Rightarrow> utf16" where
  "units_of_text s = map (\<lambda>c. of_nat (of_char c)) s"

definition code_value :: "emoji_tables \<Rightarrow> utf16 \<Rightarrow> utf16 option" where
  "code_value t capturedString =
     map_option em_value (map_of (et_shortCodeToEmoji t)
       (text_of_units (take (length capturedString - 2) (drop 1 (map lower_unit capturedString)))))"

text \<open>\<open>offset\<close> is how much the result has grown; \<open>replace\<close> at a position of the result.\<close>

definition replace_units :: "int \<Rightarrow> nat \<Rightarrow> utf16 \<Rightarrow> utf16 \<Rightarrow> utf16" where
  "replace_units pos len after s = take (nat pos) s @ after @ drop (nat pos + len) s"

definition code_step :: "emoji_tables \<Rightarrow> utf16 \<Rightarrow> nat \<times> nat \<Rightarrow> utf16 \<times> int \<Rightarrow> utf16 \<times> int" where
  "code_step t text = (\<lambda>(start, len) (ret, offset).
     case code_value t (mid start len text) of
       None \<Rightarrow> (ret, offset)
     | Some v \<Rightarrow> (replace_units (offset + int start) len v ret, offset + int (length v) - int len))"

definition replaceShortCodes :: "emoji_tables \<Rightarrow> utf16 \<Rightarrow> utf16" where
  "replaceShortCodes t text = fst (fold (code_step t text) (code_matches 0 text) (text, 0))"

section \<open>Parsing loses nothing\<close>

definition piece_units :: "emoji_piece \<Rightarrow> utf16" where
  "piece_units p = (case p of Emoji em \<Rightarrow> em_value em | Plain s \<Rightarrow> s)"

text \<open>The table finds an emoji under its first unit.\<close>

definition first_units :: "emoji_tables \<Rightarrow> bool" where
  "first_units t \<longleftrightarrow> (\<forall>k es em. (k, es) \<in> set (et_firstByte t) \<longrightarrow> em \<in> set es \<longrightarrow> em_value em \<noteq> [] \<and> hd (em_value em) = k)"

lemma emoji_at_mid:
  assumes "first_units t" "emoji_at t text i = Some em" "i < length text"
  shows "mid i (length (em_value em)) text = em_value em" "i + length (em_value em) \<le> length text"
proof -
  obtain es where es: "map_of (et_firstByte t) (text ! i) = Some es" "List.find (emoji_matches text i) es = Some em"
    using assms(2) by (auto simp: emoji_at_def split: if_splits option.splits)
  have em: "em \<in> set es" "emoji_matches text i em" using es(2) by (auto simp: find_Some_iff)
  have h: "em_value em \<noteq> []" "hd (em_value em) = text ! i"
    using assms(1) map_of_SomeD [OF es(1)] em(1) by (auto simp: first_units_def)
  show l: "i + length (em_value em) \<le> length text" using em(2) assms(3) by (simp add: emoji_matches_def)
  show "mid i (length (em_value em)) text = em_value em"
  proof (rule nth_equalityI)
    have eq: "text ! (i + j) = em_value em ! j" if "Suc 0 \<le> j" "j < length (em_value em)" for j
      using em(2) that by (auto simp: emoji_matches_def list_all_iff)
    fix j assume "j < length (mid i (length (em_value em)) text)"
    then have j: "j < length (em_value em)" using l by (simp add: mid_def)
    then show "mid i (length (em_value em)) text ! j = em_value em ! j"
      using eq [of j] h l by (cases j) (auto simp: mid_def hd_conv_nth)
  qed (use l in \<open>simp add: mid_def\<close>)
qed

lemma parse_loop_lossless:
  assumes "first_units t" "lastEnd \<le> i" "lastEnd \<le> length text"
  shows "concat (map piece_units (parse_loop t text i lastEnd result)) = concat (map piece_units result) @ drop lastEnd text"
  using assms
proof (induction t "text" i lastEnd result rule: parse_loop.induct)
  case (1 t s i lastEnd result)
  show ?case
  proof (cases "i \<ge> length s")
    case True
    then show ?thesis using 1 by (subst parse_loop.simps) (auto simp: piece_units_def)
  next
    case False
    note i = False
    show ?thesis
    proof (cases "emoji_at t s i")
      case None
      then show ?thesis using 1 i by (subst parse_loop.simps) simp
    next
      case (Some em)
      let ?n = "i + length (em_value em)"
      let ?r = "(if i > lastEnd then result @ [Plain (mid lastEnd (i - lastEnd) s)] else result) @ [Emoji em]"
      have m: "mid i (length (em_value em)) s = em_value em" "?n \<le> length s"
        using emoji_at_mid [OF 1(3) Some] i by simp_all
      have "drop lastEnd s = mid lastEnd (i - lastEnd) s @ drop i s"
        using 1(4) append_take_drop_id [of "i - lastEnd" "drop lastEnd s"] by (simp add: mid_def)
      moreover have "drop i s = em_value em @ drop ?n s"
        using append_take_drop_id [of "length (em_value em)" "drop i s"] m(1) by (simp add: mid_def add.commute)
      moreover have "parse_loop t s i lastEnd result = parse_loop t s ?n ?n ?r"
        using i Some by (subst parse_loop.simps) simp
      moreover have "concat (map piece_units ?r) = concat (map piece_units result) @ mid lastEnd (i - lastEnd) s @ em_value em"
        using 1(4) by (auto simp: piece_units_def mid_def)
      ultimately show ?thesis using 1(2) [OF i Some 1(3)] m(2) by simp
    qed
  qed
qed

section \<open>What loading gives\<close>

lemma parseEmoji_value: "parseEmoji entry code = Some em \<Longrightarrow> em_value em \<noteq> []"
proof -
  assume p: "parseEmoji entry code = Some em"
  have u: "utf16_of_ucs4 n \<noteq> []" for n by (simp add: utf16_of_ucs4_def)
  obtain s where "em_value em = concat (map (\<lambda>c. utf16_of_ucs4 (hex_number c)) (split_on (CHR ''-'') s))"
    using p by (auto simp: parseEmoji_def Let_def split: if_splits)
  then show ?thesis using u split_on_nonempty [of "CHR ''-''" s] by (cases "split_on (CHR ''-'') s") auto
qed

lemma in_map_put: "x \<in> set (map_put k v m) \<longleftrightarrow> x = (k, v) \<or> (x \<in> set m \<and> fst x \<noteq> k)"
  by (auto simp: map_put_def)

lemma first_units_enter:
  assumes "first_units t" "em_value em \<noteq> []"
  shows "first_units (enter_emoji em codes t)"
  unfolding first_units_def
proof (intro allI impI)
  fix k es x
  assume k: "(k, es) \<in> set (et_firstByte (enter_emoji em codes t))" and x: "x \<in> set es"
  let ?old = "case map_of (et_firstByte t) (hd (em_value em)) of Some es \<Rightarrow> es | None \<Rightarrow> []"
  consider "(k, es) \<in> set (et_firstByte t)" | "k = hd (em_value em)" "es = ?old @ [em]"
    using k by (auto simp: enter_emoji_def append_first_def in_map_put)
  then show "em_value x \<noteq> [] \<and> hd (em_value x) = k"
  proof cases
    case 1
    then show ?thesis using assms(1) x by (simp add: first_units_def)
  next
    case 2
    consider "x = em" | es' where "map_of (et_firstByte t) k = Some es'" "x \<in> set es'"
      using 2 x by (auto split: option.splits)
    then show ?thesis
    proof cases
      case (2 es')
      show ?thesis using assms(1) map_of_SomeD [OF 2(1)] 2(2) by (simp add: first_units_def)
    qed (use 2 assms(2) in simp)
  qed
qed

lemma first_units_variations: "load_variations em vs t = Some t' \<Longrightarrow> first_units t \<Longrightarrow> first_units t'"
proof (induction em vs t rule: load_variations.induct)
  case (2 em tones entry vs t)
  obtain tone code codes v where "getToneNames tones = Some tone" "em_shortCodes em = code # codes"
      "parseEmoji entry (code @ ''_'' @ tone) = Some v" "load_variations em vs (enter_emoji v [code @ ''_'' @ tone] t) = Some t'"
    using 2(2) by (auto split: option.splits list.splits)
  moreover from this have "first_units (enter_emoji v [code @ ''_'' @ tone] t)"
    using 2(3) first_units_enter parseEmoji_value by blast
  ultimately show ?case using 2(1) by simp
qed simp

lemma first_units_load: "loadEmojis es t = Some t' \<Longrightarrow> first_units t \<Longrightarrow> first_units t'"
proof (induction es t rule: loadEmojis.induct)
  case (2 entry variations es t)
  obtain em t1 where "parseEmoji entry [] = Some em" "load_variations em variations (enter_emoji em (em_shortCodes em) t) = Some t1"
      "loadEmojis es t1 = Some t'"
    using 2(2) by (auto split: option.splits)
  moreover from this have "first_units t1"
    using 2(3) first_units_enter parseEmoji_value first_units_variations by blast
  ultimately show ?case using 2(1) by simp
qed simp

definition longest_first :: "emoji_tables \<Rightarrow> bool" where
  "longest_first t \<longleftrightarrow> (\<forall>(k, es) \<in> set (et_firstByte t). sorted_wrt (\<lambda>a b. length (em_value b) \<le> length (em_value a)) es)"

lemma sorted_longest: "sorted_wrt (\<lambda>a b. length (em_value b) \<le> length (em_value a)) (sort_key (\<lambda>em. - int (length (em_value em))) es)"
  using sorted_sort_key [of "\<lambda>em. - int (length (em_value em))" es] by (simp add: sorted_map)

lemma loaded_tables:
  assumes "emojis_load emojiSet entries = Some t"
  shows "first_units t" "longest_first t"
proof -
  obtain t' where t': "loadEmojis entries Emojis_tables = Some t'" "t = loadEmojiSet emojiSet (sortEmojis t')"
    using assms by (auto simp: emojis_load_def)
  have "first_units t'" by (rule first_units_load [OF t'(1)]) (simp add: first_units_def Emojis_tables_def)
  then show "first_units t" by (fastforce simp: t' first_units_def sortEmojis_def loadEmojiSet_def Let_def)
  show "longest_first t"
    using sorted_longest by (fastforce simp: t' longest_first_def sortEmojis_def loadEmojiSet_def Let_def sorted_wrt_map)
qed

definition table_emojis :: "emoji_tables \<Rightarrow> emoji_data set" where
  "table_emojis t = {em. \<exists>k es. map_of (et_firstByte t) k = Some es \<and> em \<in> set es}"

lemma find_longest:
  "sorted_wrt (\<lambda>a b. length (f b) \<le> length (f a)) xs \<Longrightarrow> List.find P xs = Some a \<Longrightarrow> b \<in> set xs \<Longrightarrow> P b \<Longrightarrow> length (f b) \<le> length (f a)"
  by (induction xs) (auto split: if_splits)

lemma emoji_at_longest:
  assumes "first_units t" "longest_first t" "emoji_at t s i = Some em" "em' \<in> table_emojis t"
    and "mid i (length (em_value em')) s = em_value em'" "i < length s"
  shows "length (em_value em') \<le> length (em_value em)"
proof -
  obtain k es' where es': "map_of (et_firstByte t) k = Some es'" "em' \<in> set es'" using assms(4) by (auto simp: table_emojis_def)
  have v: "em_value em' \<noteq> []" "hd (em_value em') = k"
    using assms(1) map_of_SomeD [OF es'(1)] es'(2) by (auto simp: first_units_def)
  have "hd (em_value em') = s ! i" using assms(5,6) v(1)
    by (metis hd_drop_conv_nth hd_take length_greater_0_conv mid_def)
  then have k: "k = s ! i" using v by simp
  obtain es where es: "map_of (et_firstByte t) (s ! i) = Some es" "List.find (emoji_matches s i) es = Some em"
    using assms(3) by (auto simp: emoji_at_def split: if_splits option.splits)
  have l: "i + length (em_value em') \<le> length s"
    using arg_cong [OF assms(5), of length] assms(6) by (simp add: mid_def)
  have "s ! (i + j) = em_value em' ! j" if "j < length (em_value em')" for j
    using arg_cong [OF assms(5), of "\<lambda>x. x ! j"] that l by (simp add: mid_def)
  then have "emoji_matches s i em'" using l by (auto simp: emoji_matches_def list_all_iff)
  moreover have "sorted_wrt (\<lambda>a b. length (em_value b) \<le> length (em_value a)) es"
    using assms(2) map_of_SomeD [OF es(1)] by (fastforce simp: longest_first_def)
  ultimately show ?thesis using find_longest es(2) es'(2) es'(1) es(1) k by (metis option.inject)
qed

text \<open>
  C23: splitting a text at its emojis loses nothing: the emojis and the texts between them are the text
  again, and with the tables the program loads the emoji found at a place is the longest one that stands
  there.
\<close>

theorem emoji_parse_lossless:
  assumes "emojis_load emojiSet entries = Some t"
  shows "concat (map piece_units (emojis_parse t s)) = s \<and>
    (\<forall>i em em'. i < length s \<longrightarrow> emoji_at t s i = Some em \<longrightarrow> em' \<in> table_emojis t \<longrightarrow>
      mid i (length (em_value em')) s = em_value em' \<longrightarrow> length (em_value em') \<le> length (em_value em))"
  using parse_loop_lossless [OF loaded_tables(1) [OF assms], of 0 0 s "[]"] emoji_at_longest [OF loaded_tables [OF assms]]
  by (simp add: emojis_parse_def)

text \<open>One entry: a sun with a single unit.\<close>

definition sun_entry :: emoji_entry where
  "sun_entry = \<lparr>ee_short_names = [''sun''], ee_non_qualified = None, ee_unified = Some ''2600'', ee_apple = False, ee_google = False,
     ee_twitter = True, ee_facebook = False\<rparr>"

theorem emoji_parse_lossless_witness:
  "concat (map piece_units (emojis_parse (the (emojis_load ''Twitter'' [(sun_entry, [])])) [0x61, 0x2600, 0x62])) = [0x61, 0x2600, 0x62]"
proof -
  have "emojis_load ''Twitter'' [(sun_entry, [])] \<noteq> None"
    by (simp add: emojis_load_def parseEmoji_def sun_entry_def)
  then show ?thesis
    using emoji_parse_lossless [of "''Twitter''" "[(sun_entry, [])]" _ "[0x61, 0x2600, 0x62]"] by auto
qed

section \<open>Short codes are replaced in one pass\<close>

text \<open>The text with every known code replaced where it stands.\<close>

function with_codes :: "emoji_tables \<Rightarrow> utf16 \<Rightarrow> utf16" where
  "with_codes t [] = []"
| "with_codes t (c # s) =
     (let run = takeWhile code_unit s; rest = drop (length run) s; code = c # run @ [58] in
      if c = 58 \<and> run \<noteq> [] \<and> rest \<noteq> [] \<and> hd rest = 58
      then (case code_value t code of Some v \<Rightarrow> v | None \<Rightarrow> code) @ with_codes t (tl rest)
      else c # with_codes t s)"
  by pat_completeness auto
termination
  by (relation "measure (\<lambda>(_, s). length s)") auto

lemma replace_fold:
  assumes "s = drop p u" "ret = out @ s" "int (length out) = int p + offset"
  shows "fst (fold (code_step t u) (code_matches p s) (ret, offset)) = out @ with_codes t s"
  using assms
proof (induction p s arbitrary: ret out offset rule: code_matches.induct)
  case (2 p c s)
  let ?run = "takeWhile code_unit s"
  let ?rest = "drop (length ?run) s"
  have u: "drop (Suc p) u = s" using 2(3) by (metis drop_Suc list.sel(3) tl_drop)
  show ?case
  proof (cases "c = 58 \<and> ?run \<noteq> [] \<and> ?rest \<noteq> [] \<and> hd ?rest = 58")
    case True
    let ?n = "length ?run + 2" and ?code = "c # ?run @ [58]"
    have s: "c # s = ?code @ tl ?rest"
      using True by (metis append_Cons append_Nil append_assoc append_take_drop_id list.collapse takeWhile_eq_take)
    have cap: "mid p ?n u = ?code" unfolding mid_def 2(3) [symmetric] by (subst s) simp
    have rest: "tl ?rest = drop (p + length ?run + 2) u"
    proof -
      have "drop (p + ?n) u = drop ?n (c # s)" unfolding 2(3) by (simp add: add.commute)
      also have "\<dots> = tl ?rest" unfolding s by simp
      finally show ?thesis by (simp add: add.assoc)
    qed
    show ?thesis
    proof (cases "code_value t ?code")
      case None
      have "fst (fold (code_step t u) (code_matches (p + length ?run + 2) (tl ?rest)) (ret, offset)) = (out @ ?code) @ with_codes t (tl ?rest)"
        by (rule 2(1) [OF refl refl True rest]) (use 2(4,5) s in auto)
      then show ?thesis using True None cap by (simp add: code_step_def Let_def)
    next
      case (Some v)
      have "nat (offset + int p) = length out" using 2(5) by simp
      then have "replace_units (offset + int p) ?n v ret = (out @ v) @ tl ?rest"
        unfolding replace_units_def 2(4) s by simp
      then have "fst (fold (code_step t u) (code_matches (p + length ?run + 2) (tl ?rest))
          (replace_units (offset + int p) ?n v ret, offset + int (length v) - int ?n)) = (out @ v) @ with_codes t (tl ?rest)"
        by (intro 2(1) [OF refl refl True rest]) (use 2(5) in auto)
      then show ?thesis using True Some cap by (simp add: code_step_def Let_def)
    qed
  next
    case False
    have "fst (fold (code_step t u) (code_matches (Suc p) s) (ret, offset)) = (out @ [c]) @ with_codes t s"
      by (rule 2(2) [OF refl refl False]) (use 2(4,5) u in auto)
    then show ?thesis using False by (auto simp: Let_def)
  qed
qed simp

text \<open>
  Replacing short codes by positions found in the original text, with a running offset, gives the text in
  which every known code is replaced where it stands: no replacement is found twice, none is cut off by an
  earlier one, and unknown codes stay.
\<close>

theorem replaceShortCodes_spec: "replaceShortCodes t s = with_codes t s"
  using replace_fold [of s 0 s s "[]" 0 t] by (simp add: replaceShortCodes_def)

end
