(* ===== verification/Twitch_Sending.thy ===== *)
theory Twitch_Sending
  imports Twitch_Live Emojis
begin

text \<open>
  Sending messages: \<open>prepareMessage\<close>, \<open>sendMessage\<close> and \<open>sendReply\<close> of \<open>TwitchChannel.cpp\<close> together with the
  limits of \<open>TwitchIrcServer::prepareToSend\<close>. What the user writes is a list of UTF-16 units.
\<close>

section \<open>Texts of Qt\<close>

definition unit_isSpace :: "16 word \<Rightarrow> bool" where
  "unit_isSpace c \<longleftrightarrow>
     c = 0x20 \<or> (0x09 \<le> c \<and> c \<le> 0x0D) \<or> c = 0x85 \<or> c = 0xA0 \<or> c = 0x1680 \<or> (0x2000 \<le> c \<and> c \<le> 0x200A) \<or>
     c = 0x2028 \<or> c = 0x2029 \<or> c = 0x202F \<or> c = 0x205F \<or> c = 0x3000"

text \<open>\<open>QString::simplified\<close>: no white space at the ends, a single space between words.\<close>

function unit_words :: "utf16 \<Rightarrow> utf16 list" where
  "unit_words s =
     (let t = dropWhile unit_isSpace s
      in if t = [] then [] else takeWhile (\<lambda>c. \<not> unit_isSpace c) t # unit_words (dropWhile (\<lambda>c. \<not> unit_isSpace c) t))"
  by pat_completeness auto
termination
proof (relation "measure length")
  fix s :: utf16 and t
  assume t: "t = dropWhile unit_isSpace s" "t \<noteq> []"
  then have "\<not> unit_isSpace (hd t)" using hd_dropWhile by metis
  then have "length (dropWhile (\<lambda>c. \<not> unit_isSpace c) t) < length t"
    using t(2) length_dropWhile_le [of "\<lambda>c. \<not> unit_isSpace c" "tl t"] by (cases t) auto
  then show "(dropWhile (\<lambda>c. \<not> unit_isSpace c) t, s) \<in> measure length"
    using length_dropWhile_le [of unit_isSpace s] t(1) by simp
qed simp

declare unit_words.simps [simp del]

fun join_units :: "utf16 list \<Rightarrow> utf16" where
  "join_units [] = []"
| "join_units [w] = w"
| "join_units (w # ws) = w @ 0x20 # join_units ws"

definition simplified :: "utf16 \<Rightarrow> utf16" where
  "simplified s = join_units (unit_words s)"

definition unit_index :: "16 word \<Rightarrow> nat \<Rightarrow> utf16 \<Rightarrow> nat option" where
  "unit_index c from s = map_option (\<lambda>i. from + i) (find_index (\<lambda>x. x = c) (drop from s))"

section \<open>Preparing a message\<close>

definition ZERO_WIDTH_JOINER :: "16 word" where
  "ZERO_WIDTH_JOINER = 0x200D"

definition ESCAPE_TAG :: utf16 where
  "ESCAPE_TAG = utf16_of_ucs4 0xE0002"

definition MAGIC_MESSAGE_SUFFIX :: utf16 where
  "MAGIC_MESSAGE_SUFFIX = 0x20 # utf16_of_ucs4 0xE0000"

definition escape_joiners :: "utf16 \<Rightarrow> utf16" where
  "escape_joiners s = concat (map (\<lambda>c. if c = ZERO_WIDTH_JOINER then ESCAPE_TAG else [c]) s)"

text \<open>
  A text that was just sent is changed a little: another space behind its first word (behind its second word
  where the first is a command), or an invisible character at the end. The search of the second space starts
  behind the first one, or at the beginning where there is none.
\<close>

definition vary :: "utf16 \<Rightarrow> utf16" where
  "vary s =
     (let first = unit_index 0x20 0 s;
          spaceIndex = (if s ! 0 = 0x2F \<or> s ! 0 = 0x2E
            then unit_index 0x20 (case first of Some i \<Rightarrow> Suc i | None \<Rightarrow> 0) s else first)
      in case spaceIndex of
           None \<Rightarrow> s @ MAGIC_MESSAGE_SUFFIX
         | Some i \<Rightarrow> take i s @ [0x20, 0x20] @ drop (Suc i) s)"

definition prepareMessage :: "emoji_tables \<Rightarrow> bool \<Rightarrow> bool \<Rightarrow> utf16 \<Rightarrow> utf16 \<Rightarrow> utf16" where
  "prepareMessage t highRateLimit allowDuplicateMessages lastSent message =
     (let parsed = simplified (escape_joiners (replaceShortCodes t message))
      in if parsed = [] then []
         else if \<not> highRateLimit \<and> allowDuplicateMessages \<and> parsed = lastSent then vary parsed
         else parsed)"

section \<open>Sending\<close>

text \<open>What a channel and the server keep for sending, and the lines sent so far.\<close>

record sender =
  sd_lastSent :: utf16
  sd_limits :: send_state
  sd_lines :: "utf16 list"
  sd_shown :: "qstring list"

record sender_env =
  sn_tables :: emoji_tables
  sn_highRateLimit :: bool
  sn_allowDuplicates :: bool
  sn_loggedIn :: bool
  sn_lowOffset :: int
  sn_highOffset :: int

text \<open>
  \<open>sendMessage\<close> and \<open>sendReply\<close>: \<open>line\<close> makes the line of the text. Without a login a hint is shown; a message
  the limits refuse may show why, and only a message that was sent is the last one.
\<close>

definition login_hint :: qstring where
  "login_hint = ''You need to log in to send messages. You can link your Twitch account in the settings.''"

definition send_line :: "(utf16 \<Rightarrow> utf16) \<Rightarrow> sender_env \<Rightarrow> int \<Rightarrow> utf16 \<Rightarrow> sender \<Rightarrow> sender" where
  "send_line line e now message s =
     (if \<not> sn_loggedIn e then (if message \<noteq> [] then s\<lparr>sd_shown := sd_shown s @ [login_hint]\<rparr> else s)
      else
        (let parsed = prepareMessage (sn_tables e) (sn_highRateLimit e) (sn_allowDuplicates e) (sd_lastSent s) message
         in if parsed = [] then s
            else
              (case prepareToSend (sn_lowOffset e) (sn_highOffset e) now (sn_highRateLimit e) (sd_limits s) of
                 (canSend, shown, limits) \<Rightarrow>
                   (let s1 = s\<lparr>sd_limits := limits, sd_shown := sd_shown s @ (case shown of Some t \<Rightarrow> [t] | None \<Rightarrow> [])\<rparr>
                    in if canSend then s1\<lparr>sd_lines := sd_lines s1 @ [line parsed], sd_lastSent := parsed\<rparr> else s1))))"

definition channel_sendMessage :: "sender_env \<Rightarrow> int \<Rightarrow> qstring \<Rightarrow> utf16 \<Rightarrow> sender \<Rightarrow> sender" where
  "channel_sendMessage e now chan =
     send_line (\<lambda>parsed. units_of_text (if chan \<noteq> [] \<and> hd chan = CHR ''$'' then ''PRIVMSG '' @ tl chan @ '' :''
       else ''PRIVMSG #'' @ chan @ '' :'') @ parsed) e now"

definition channel_sendReply :: "sender_env \<Rightarrow> int \<Rightarrow> qstring \<Rightarrow> qstring \<Rightarrow> utf16 \<Rightarrow> sender \<Rightarrow> sender" where
  "channel_sendReply e now chan replyId =
     send_line (\<lambda>parsed. units_of_text (''@reply-parent-msg-id='' @ replyId @ '' PRIVMSG #'' @ chan @ '' :'') @ parsed) e now"

text \<open>A sequence of messages, each with the time it is written at.\<close>

definition send_all :: "sender_env \<Rightarrow> qstring \<Rightarrow> (int \<times> utf16) list \<Rightarrow> sender \<Rightarrow> sender" where
  "send_all e chan ms s = fold (\<lambda>(now, message). channel_sendMessage e now chan message) ms s"

section \<open>Properties\<close>

lemma unit_words_word: "w \<in> set (unit_words s) \<Longrightarrow> w \<noteq> [] \<and> (\<forall>c \<in> set w. \<not> unit_isSpace c)"
proof (induction s rule: unit_words.induct)
  case (1 s)
  let ?t = "dropWhile unit_isSpace s"
  show ?case
  proof (cases "?t = []")
    case True
    then show ?thesis using 1(2) by (simp add: unit_words.simps [of s])
  next
    case False
    then have "\<not> unit_isSpace (hd ?t)" using hd_dropWhile by metis
    then have "takeWhile (\<lambda>c. \<not> unit_isSpace c) ?t \<noteq> []" using False by (cases ?t) auto
    moreover have "w = takeWhile (\<lambda>c. \<not> unit_isSpace c) ?t \<or> w \<in> set (unit_words (dropWhile (\<lambda>c. \<not> unit_isSpace c) ?t))"
      using 1(2) False unfolding unit_words.simps [of s] by (simp only: Let_def if_False list.set insert_iff)
    ultimately show ?thesis using 1(1) [OF refl False] set_takeWhileD by fastforce
  qed
qed

lemma unit_words_space: "unit_isSpace c \<Longrightarrow> unit_words (a @ c # b) = unit_words a @ unit_words b"
proof (induction a rule: unit_words.induct)
  case (1 a)
  let ?t = "dropWhile unit_isSpace a"
  show ?case
  proof (cases "?t = []")
    case True
    then have d: "dropWhile unit_isSpace (a @ c # b) = dropWhile unit_isSpace b"
      using 1(2) by (subst dropWhile_append2) (auto simp: dropWhile_eq_Nil_conv)
    show ?thesis unfolding unit_words.simps [of "a @ c # b"] unit_words.simps [of a] unit_words.simps [of b] d True by simp
  next
    case False
    then have d: "dropWhile unit_isSpace (a @ c # b) = ?t @ c # b"
      by (metis append_is_Nil_conv dropWhile_append dropWhile_eq_Nil_conv)
    have tw: "takeWhile (\<lambda>c. \<not> unit_isSpace c) (t @ c # b) = takeWhile (\<lambda>c. \<not> unit_isSpace c) t"
      "dropWhile (\<lambda>c. \<not> unit_isSpace c) (t @ c # b) = dropWhile (\<lambda>c. \<not> unit_isSpace c) t @ c # b" for t
      using 1(2) by (induction t) auto
    show ?thesis
      unfolding unit_words.simps [of "a @ c # b"] unit_words.simps [of a] d using False 1(1) [OF refl False 1(2)]
      by (simp add: Let_def tw)
  qed
qed

lemma isSpace_blank: "unit_isSpace 0x20"
  by (simp add: unit_isSpace_def)

lemma unit_words_single: "w \<noteq> [] \<Longrightarrow> \<forall>c \<in> set w. \<not> unit_isSpace c \<Longrightarrow> unit_words w = [w]"
proof -
  assume w: "w \<noteq> []" "\<forall>c \<in> set w. \<not> unit_isSpace c"
  then have d: "dropWhile unit_isSpace w = w" by (cases w) auto
  have t: "takeWhile (\<lambda>c. \<not> unit_isSpace c) w = w" "dropWhile (\<lambda>c. \<not> unit_isSpace c) w = []" using w by (simp_all add: takeWhile_eq_all_conv dropWhile_eq_Nil_conv)
  show ?thesis unfolding unit_words.simps [of w] d Let_def t using w by (simp add: unit_words.simps [of "[]"])
qed

lemma unit_words_join_units:
  "\<forall>w \<in> set ws. w \<noteq> [] \<and> (\<forall>c \<in> set w. \<not> unit_isSpace c) \<Longrightarrow> unit_words (join_units ws) = ws"
  by (induction ws rule: join_units.induct) (simp_all add: unit_words.simps [of "[]"] unit_words_single unit_words_space isSpace_blank)

lemma unit_words_simplified: "unit_words (simplified s) = unit_words s"
  unfolding simplified_def using unit_words_join_units [of "unit_words s"] unit_words_word by blast

lemma unit_index_at: "unit_index c from s = Some i \<Longrightarrow> i < length s \<and> s ! i = c"
  by (auto simp: unit_index_def dest: find_index_SomeD)

lemma vary_words: "vary s \<noteq> s" "unit_words (vary s) = unit_words s \<or> vary s = s @ MAGIC_MESSAGE_SUFFIX"
proof -
  consider "vary s = s @ MAGIC_MESSAGE_SUFFIX" | i where "vary s = take i s @ [0x20, 0x20] @ drop (Suc i) s" "i < length s" "s ! i = 0x20"
  proof (cases "if s ! 0 = 0x2F \<or> s ! 0 = 0x2E
        then unit_index 0x20 (case unit_index 0x20 0 s of Some i \<Rightarrow> Suc i | None \<Rightarrow> 0) s else unit_index 0x20 0 s")
    case None
    then show ?thesis using that(1) by (simp add: vary_def Let_def)
  next
    case (Some i)
    then have "i < length s" "s ! i = 0x20" by (auto dest: unit_index_at split: if_splits)
    then show ?thesis using that(2) Some by (simp add: vary_def Let_def)
  qed
  note cases = this
  have len: "length (vary s) \<noteq> length s" using cases by cases (auto simp: MAGIC_MESSAGE_SUFFIX_def)
  then show "vary s \<noteq> s" by metis
  show "unit_words (vary s) = unit_words s \<or> vary s = s @ MAGIC_MESSAGE_SUFFIX"
    using cases
  proof cases
    case (2 i)
    have s: "s = take i s @ 0x20 # drop (Suc i) s" using 2(2,3) id_take_nth_drop by metis
    have "unit_words (vary s) = unit_words (take i s) @ unit_words (drop (Suc i) s)"
      unfolding 2(1) using unit_words_space [OF isSpace_blank, of "[]"] by (simp add: unit_words_space isSpace_blank unit_words.simps [of "[]"])
    also have "\<dots> = unit_words s" by (subst (3) s) (simp add: unit_words_space isSpace_blank)
    finally show ?thesis by simp
  qed simp
qed

text \<open>
  A message that may be sent again is never the text that was sent last, and the user's words are all in
  it: it has the words of the simplified message, or that message with an invisible mark at the end.
\<close>

theorem prepared_differs:
  assumes "allowDuplicates" "\<not> highRateLimit" "prepareMessage t highRateLimit allowDuplicates lastSent message \<noteq> []"
  shows "prepareMessage t highRateLimit allowDuplicates lastSent message \<noteq> lastSent \<and>
    (let ws = unit_words (escape_joiners (replaceShortCodes t message)) in
     unit_words (prepareMessage t highRateLimit allowDuplicates lastSent message) = ws \<or>
     prepareMessage t highRateLimit allowDuplicates lastSent message = join_units ws @ MAGIC_MESSAGE_SUFFIX)"
proof -
  let ?p = "simplified (escape_joiners (replaceShortCodes t message))"
  have "prepareMessage t highRateLimit allowDuplicates lastSent message = (if ?p = lastSent then vary ?p else ?p)"
    using assms by (auto simp: prepareMessage_def Let_def split: if_splits)
  then show ?thesis
    using vary_words [of ?p] by (auto simp: unit_words_simplified Let_def simp flip: simplified_def)
qed

theorem prepared_differs_witness:
  "prepareMessage Emojis_tables False True [0x61] [0x61] \<noteq> [0x61]"
proof -
  have "unit_words [0x61] = [[0x61]]" by (rule unit_words_single) (simp_all add: unit_isSpace_def)
  then have p: "simplified (escape_joiners (replaceShortCodes Emojis_tables [0x61])) = [0x61]"
    by (simp add: simplified_def escape_joiners_def replaceShortCodes_def ZERO_WIDTH_JOINER_def)
  have "prepareMessage Emojis_tables False True [0x61] [0x61] \<noteq> []"
    by (simp add: prepareMessage_def p vary_def Let_def MAGIC_MESSAGE_SUFFIX_def split: option.splits)
  then show ?thesis using prepared_differs [of True False Emojis_tables "[0x61]" "[0x61]"] by simp
qed

text \<open>
  Twitch refuses a line that repeats the one before. With the setting that allows duplicates no two lines
  in a row are the same, whatever is written and whatever the rate limits refuse in between.
\<close>

theorem sent_lines_differ:
  assumes "sn_allowDuplicates e" "\<not> sn_highRateLimit e" "sd_lines s = []"
  shows "distinct_adj (sd_lines (send_all e chan ms s))"
proof -
  define line where "line = (\<lambda>parsed. units_of_text (if chan \<noteq> [] \<and> hd chan = CHR ''$'' then ''PRIVMSG '' @ tl chan @ '' :''
       else ''PRIVMSG #'' @ chan @ '' :'') @ parsed)"
  define inv where "inv = (\<lambda>s :: sender. distinct_adj (sd_lines s) \<and> (sd_lines s \<noteq> [] \<longrightarrow> last (sd_lines s) = line (sd_lastSent s)))"
  have inj: "line a = line b \<Longrightarrow> a = b" for a b by (simp add: line_def)
  have step: "inv (channel_sendMessage e now chan message s)" if s: "inv s" for now message s
  proof -
    let ?p = "prepareMessage (sn_tables e) (sn_highRateLimit e) (sn_allowDuplicates e) (sd_lastSent s) message"
    let ?s = "channel_sendMessage e now chan message s"
    have "?p \<noteq> [] \<Longrightarrow> ?p \<noteq> sd_lastSent s"
      using vary_words(1) [of "sd_lastSent s"] assms(1,2) by (simp add: prepareMessage_def Let_def split: if_splits)
    then have same: "?p \<noteq> [] \<Longrightarrow> line ?p \<noteq> line (sd_lastSent s)" using inj by blast
    consider "sd_lines ?s = sd_lines s" "sd_lastSent ?s = sd_lastSent s"
      | "sd_lines ?s = sd_lines s @ [line ?p]" "sd_lastSent ?s = ?p" "?p \<noteq> []"
    proof -
      obtain canSend shown limits where r: "prepareToSend (sn_lowOffset e) (sn_highOffset e) now (sn_highRateLimit e) (sd_limits s) =
          (canSend, shown, limits)" by (cases "prepareToSend (sn_lowOffset e) (sn_highOffset e) now (sn_highRateLimit e) (sd_limits s)")
      have c: "channel_sendMessage e now chan message s = send_line line e now message s"
        by (simp only: channel_sendMessage_def line_def)
      show ?thesis
      proof (cases "sn_loggedIn e \<and> ?p \<noteq> [] \<and> canSend")
        case True
        then show ?thesis using that(2) by (simp add: c send_line_def Let_def r)
      next
        case False
        then show ?thesis using that(1) by (cases "sn_loggedIn e"; cases "?p = []"; cases canSend) (simp_all add: c send_line_def Let_def r)
      qed
    qed
    then show ?thesis
      using s same by cases (auto simp: inv_def distinct_adj_append_iff)
  qed
  have "inv (send_all e chan ms s)" if "inv s" for s
    using that unfolding send_all_def by (induction ms arbitrary: s) (auto intro: step)
  then show ?thesis using assms(3) by (simp add: inv_def)
qed

theorem sent_lines_differ_witness:
  "distinct_adj (sd_lines (send_all \<lparr>sn_tables = Emojis_tables, sn_highRateLimit = False, sn_allowDuplicates = True, sn_loggedIn = True,
     sn_lowOffset = 1100, sn_highOffset = 100\<rparr> ''a'' [(0, [0x61]), (2000, [0x61])]
     \<lparr>sd_lastSent = [], sd_limits = \<lparr>lastMessageMod = [], lastMessagePleb = [], lastErrorTimeSpeed = 0, lastErrorTimeAmount = 0\<rparr>,
      sd_lines = [], sd_shown = []\<rparr>))"
  by (rule sent_lines_differ) simp_all

end
