(* ===== verification/Command_Handlers.thy ===== *)
theory Command_Handlers
  imports Custom_Commands Twitch_Sending
begin

text \<open>
  \<open>controllers/commands/CommandController.cpp\<close>: the commands the program knows itself, whispers, and
  \<open>execCommand\<close>, which decides what a line of the user is. A command reads the environment and answers with the
  text that is sent instead of the line and a list of what it does; \<open>None\<close> is a null pointer that is used. What
  the requests of a command answer later is a definition of its own.
\<close>

section \<open>What a command reads and does\<close>

text \<open>A message as far as the commands look at it: its id, the login of its author, the root id of its thread.\<close>

record known_message =
  km_id :: qstring
  km_loginName :: qstring
  km_thread :: "qstring option"

text \<open>
  \<open>cm_isTwitch\<close>: the channel is a TwitchChannel (the cast succeeds); \<open>cm_selected\<close>: the selected page of the main
  window, if any, and whether it has a selected split; \<open>cm_channelNamed\<close>: the name of the channel that is open
  under a name. Of Qt: what \<open>QUuid\<close>, \<open>QUrl\<close> and the desktop answer.
\<close>

record command_env =
  cm_type :: channel_type
  cm_isTwitch :: bool
  cm_name :: qstring
  cm_roomId :: qstring
  cm_status :: stream_status
  cm_chatterCount :: int
  cm_broadcaster :: bool
  cm_messages :: "known_message list"
  cm_userName :: qstring
  cm_userId :: qstring
  cm_isAnon :: bool
  cm_channelNamed :: "qstring \<Rightarrow> qstring option"
  cm_selected :: "bool option"
  cm_arguments :: "qstring list"
  cm_recentMessagesApiUrl :: qstring
  cm_linkResolverUrl :: qstring
  cm_twitchServerHost :: qstring
  cm_twitchServerPort :: nat
  cm_twitchServerSecure :: bool
  cm_isUuid :: "qstring \<Rightarrow> bool"
  cm_userUrl :: "qstring \<Rightarrow> qstring option"
  cm_canOpen :: "qstring \<Rightarrow> bool"
  cm_incognito :: bool
  cm_caseKey :: "qstring \<Rightarrow> qstring"
  cm_localizeNumbers :: "int \<Rightarrow> qstring"
  cm_emojis :: emoji_tables
  cm_twitchEmotes :: "qstring list"
  cm_bttvEmotes :: "qstring list"
  cm_ffzEmotes :: "qstring list"
  cm_matchLink :: "qstring \<Rightarrow> qstring"
  cm_inlineWhispers :: bool

definition cm_isEmpty :: "command_env \<Rightarrow> bool" where
  "cm_isEmpty e \<longleftrightarrow> cm_name e = []"

definition cm_isTwitchChannel :: "command_env \<Rightarrow> bool" where
  "cm_isTwitchChannel e \<longleftrightarrow> cm_type e \<in> {Twitch, TwitchWhispers, TwitchWatching, TwitchMentions, TwitchLive}"

text \<open>The elements of a whisper that is shown locally; an emote has the flag of its source.\<close>

datatype emote_source = TwitchEmote | BttvEmote | FfzEmote

datatype whisper_element =
    Timestamp
  | BoldText qstring
  | SystemText qstring
  | NormalText qstring
  | EmoteOf emote_source qstring
  | EmojiOf emoji_data
  | LinkTo qstring qstring

datatype command_effect =
    SystemMessage qstring
  | DebugLine qstring
  | LookUpUser bool qstring
  | CreateClipOf qstring
  | CreateMarker qstring qstring
  | UpdateTitle qstring qstring
  | SearchGames qstring
  | OpenUrl qstring
  | OpenIncognito qstring
  | ShowUsercard qstring qstring
  | OpenStreamlink qstring
  | PopupSplit
  | PopupChannel qstring
  | ClearMessages
  | SendRaw qstring
  | StartThread qstring
  | SendReply qstring qstring
  | FakeMessage qstring
  | CopyText qstring
  | WhisperShown "whisper_element list" flags
  | WhisperInlined "whisper_element list" flags
  | SendWhisper utf16

type_synonym command_result = "(qstring \<times> command_effect list) option"

text \<open>\<open>channel->addMessage(makeSystemMessage(t)); return "";\<close>\<close>

abbreviation tells :: "qstring \<Rightarrow> command_result" where
  "tells t \<equiv> Some ([], [SystemMessage t])"

abbreviation does :: "command_effect \<Rightarrow> command_result" where
  "does x \<equiv> Some ([], [x])"

text \<open>\<open>words.value(i)\<close> and \<open>words.mid(i).join(" ")\<close>.\<close>

definition word_or_empty :: "nat \<Rightarrow> qstring list \<Rightarrow> qstring" where
  "word_or_empty i ws = (if i < length ws then ws ! i else [])"

definition words_from :: "nat \<Rightarrow> qstring list \<Rightarrow> qstring" where
  "words_from i ws = join_with (CHR '' '') (drop i ws)"

section \<open>Blocking\<close>

definition block_command :: "command_env \<Rightarrow> qstring list \<Rightarrow> command_result" where
  "block_command e ws =
     (if length ws < 2 then tells ''Usage: /block <user>''
      else if cm_isAnon e then tells ''You must be logged in to block someone!''
      else does (LookUpUser True (stripChannelName (ws ! 1))))"

definition unblock_command :: "command_env \<Rightarrow> qstring list \<Rightarrow> command_result" where
  "unblock_command e ws =
     (if length ws < 2 then tells ''Usage: /unblock <user>''
      else if cm_isAnon e then tells ''You must be logged in to unblock someone!''
      else does (LookUpUser False (stripChannelName (ws ! 1))))"

text \<open>The answers: no such user, or how the request for the user's id ended.\<close>

datatype block_answer = NoSuchUser | BlockFailed | BlockDone

definition block_answered :: "qstring \<Rightarrow> block_answer \<Rightarrow> qstring" where
  "block_answered target a =
     (case a of
        BlockDone \<Rightarrow> qarg ''You successfully blocked user %1'' target
      | BlockFailed \<Rightarrow> qarg ''User %1 couldn't be blocked, an unknown error occurred!'' target
      | NoSuchUser \<Rightarrow> qarg ''User %1 couldn't be blocked, no user with that name found!'' target)"

definition unblock_answered :: "qstring \<Rightarrow> block_answer \<Rightarrow> qstring" where
  "unblock_answered target a =
     (case a of
        BlockDone \<Rightarrow> qarg ''You successfully unblocked user %1'' target
      | BlockFailed \<Rightarrow> qarg ''User %1 couldn't be unblocked, an unknown error occurred!'' target
      | NoSuchUser \<Rightarrow> qarg ''User %1 couldn't be unblocked, no user with that name found!'' target)"

definition ignore_command :: "command_env \<Rightarrow> qstring list \<Rightarrow> command_result" where
  "ignore_command e ws =
     map_option (\<lambda>(r, xs). ([], SystemMessage ''Ignore command has been renamed to /block, please use it from now on as /ignore is going to be removed soon.'' # xs))
       (block_command e ws)"

definition unignore_command :: "command_env \<Rightarrow> qstring list \<Rightarrow> command_result" where
  "unignore_command e ws =
     map_option (\<lambda>(r, xs). ([], SystemMessage ''Unignore command has been renamed to /unblock, please use it from now on as /unignore is going to be removed soon.'' # xs))
       (unblock_command e ws)"

definition follow_command :: "command_env \<Rightarrow> qstring list \<Rightarrow> command_result" where
  "follow_command e ws =
     tells ''Twitch has removed the ability to follow users through third-party applications. For more information, see https://github.com/Chatterino/chatterino2/issues/3076''"

definition unfollow_command :: "command_env \<Rightarrow> qstring list \<Rightarrow> command_result" where
  "unfollow_command e ws =
     tells ''Twitch has removed the ability to unfollow users through third-party applications. For more information, see https://github.com/Chatterino/chatterino2/issues/3076''"

section \<open>Commands about the channel\<close>

definition debug_args_command :: "command_env \<Rightarrow> qstring list \<Rightarrow> command_result" where
  "debug_args_command e ws = tells (join_with (CHR '' '') (cm_arguments e))"

definition debug_env_command :: "command_env \<Rightarrow> qstring list \<Rightarrow> command_result" where
  "debug_env_command e ws =
     Some ([], map DebugLine
       [''recentMessagesApiUrl: '' @ cm_recentMessagesApiUrl e,
        ''linkResolverUrl: '' @ cm_linkResolverUrl e,
        ''twitchServerHost: '' @ cm_twitchServerHost e,
        ''twitchServerPort: '' @ show_nat (cm_twitchServerPort e),
        ''twitchServerSecure: '' @ show_nat (if cm_twitchServerSecure e then 1 else 0)])"

definition uptime_command :: "command_env \<Rightarrow> qstring list \<Rightarrow> command_result" where
  "uptime_command e ws =
     (if \<not> cm_isTwitch e then tells ''The /uptime command only works in Twitch Channels''
      else tells (if ss_live (cm_status e) then ss_uptime (cm_status e) else ''Channel is not live.''))"

definition openTwitchUsercard :: "qstring \<Rightarrow> qstring \<Rightarrow> command_effect" where
  "openTwitchUsercard channel username =
     OpenUrl (''https://www.twitch.tv/popout/'' @ channel @ ''/viewercard/'' @ username)"

definition user_command :: "command_env \<Rightarrow> qstring list \<Rightarrow> command_result" where
  "user_command e ws =
     (if length ws < 2 then tells ''Usage: /user <user> [channel]''
      else does (openTwitchUsercard (if length ws > 2 then stripChannelName (ws ! 2) else cm_name e) (stripUserName (ws ! 1))))"

definition usercard_command :: "command_env \<Rightarrow> qstring list \<Rightarrow> command_result" where
  "usercard_command e ws =
     (if length ws < 2 then tells ''Usage: /usercard <user> [channel]''
      else if length ws > 2 then
        (case cm_channelNamed e (stripChannelName (ws ! 2)) of
           None \<Rightarrow> tells ''A usercard can only be displayed for a channel that is currently opened in Chatterino.''
         | Some channel \<Rightarrow> does (ShowUsercard (stripUserName (ws ! 1)) channel))
      else does (ShowUsercard (stripUserName (ws ! 1)) (cm_name e)))"

text \<open>\<open>/requests\<close>, \<open>/streamlink\<close> and \<open>/popout\<close> take the channel itself where none is named.\<close>

definition target_or_channel :: "command_env \<Rightarrow> qstring list \<Rightarrow> qstring option" where
  "target_or_channel e ws =
     (let target = word_or_empty 1 ws
      in if target = [] then (if cm_type e = Twitch \<and> \<not> cm_isEmpty e then Some (stripChannelName (cm_name e)) else None)
         else Some (stripChannelName target))"

definition requests_command :: "command_env \<Rightarrow> qstring list \<Rightarrow> command_result" where
  "requests_command e ws =
     (case target_or_channel e ws of
        Some target \<Rightarrow> does (OpenUrl (qarg ''https://www.twitch.tv/popout/%1/reward-queue'' target))
      | None \<Rightarrow> tells ''Usage: /requests [channel]. You can also use the command without arguments in any Twitch channel to open its channel points requests queue. Only the broadcaster and moderators have permission to view the queue.'')"

definition streamlink_command :: "command_env \<Rightarrow> qstring list \<Rightarrow> command_result" where
  "streamlink_command e ws =
     (case target_or_channel e ws of
        Some target \<Rightarrow> does (OpenStreamlink target)
      | None \<Rightarrow> tells ''/streamlink [channel]. Open specified Twitch channel in streamlink. If no channel argument is specified, open the current Twitch channel instead.'')"

definition popout_command :: "command_env \<Rightarrow> qstring list \<Rightarrow> command_result" where
  "popout_command e ws =
     (case target_or_channel e ws of
        Some target \<Rightarrow> does (OpenUrl (qarg ''https://www.twitch.tv/popout/%1/chat?popout='' target))
      | None \<Rightarrow> tells ''Usage: /popout <channel>. You can also use the command without arguments in any Twitch channel to open its popout chat.'')"

definition popup_command :: "command_env \<Rightarrow> qstring list \<Rightarrow> command_result" where
  "popup_command e ws =
     (let target = stripChannelName (word_or_empty 1 ws)
      in if target = [] then
           (if cm_selected e = Some True then does PopupSplit
            else tells ''Usage: /popup [channel]. Open specified Twitch channel in a new window. If no channel argument is specified, open the currently selected split instead.'')
         else does (PopupChannel target))"

text \<open>\<open>currentPage\<close> is used without a check.\<close>

definition clearmessages_command :: "command_env \<Rightarrow> qstring list \<Rightarrow> command_result" where
  "clearmessages_command e ws =
     (case cm_selected e of None \<Rightarrow> None | Some split \<Rightarrow> if split then does ClearMessages else Some ([], []))"

definition chatters_command :: "command_env \<Rightarrow> qstring list \<Rightarrow> command_result" where
  "chatters_command e ws =
     (if \<not> cm_isTwitch e then tells ''The /chatters command only works in Twitch Channels''
      else tells (qarg ''Chatter count: %1'' (cm_localizeNumbers e (cm_chatterCount e))))"

text \<open>A channel of the type \<open>TwitchWatching\<close> that is no TwitchChannel is a null pointer here.\<close>

definition clip_command :: "command_env \<Rightarrow> qstring list \<Rightarrow> command_result" where
  "clip_command e ws =
     (if cm_type e \<noteq> Twitch \<and> cm_type e \<noteq> TwitchWatching then Some ([], [])
      else if cm_isTwitch e then does (CreateClipOf (cm_roomId e)) else None)"

definition marker_command :: "command_env \<Rightarrow> qstring list \<Rightarrow> command_result" where
  "marker_command e ws =
     (if \<not> cm_isTwitch e then tells ''The /marker command only works in Twitch channels''
      else if cm_isAnon e then tells ''You need to be logged in to create stream markers!''
      else if \<not> ss_live (cm_status e) then
        tells ''You can only add stream markers during live streams. Try again when the channel is live streaming.''
      else does (CreateMarker (cm_roomId e) (take 140 (words_from 1 ws))))"

datatype marker_answer =
    MarkerSet int qstring
  | MarkerNotAuthorized
  | MarkerNotAuthenticated
  | MarkerUnknown

definition marker_answered :: "marker_answer \<Rightarrow> qstring" where
  "marker_answered a =
     (case a of
        MarkerSet positionSeconds description \<Rightarrow>
          qarg (qarg ''Successfully added a stream marker at %1%2'' (formatTime positionSeconds))
            (if description = [] then [] else qarg '': \"%1\"'' description)
      | MarkerNotAuthorized \<Rightarrow> ''Failed to create stream marker - '' @ ''you don't have permission to perform that action.''
      | MarkerNotAuthenticated \<Rightarrow> ''Failed to create stream marker - '' @ ''you need to re-authenticate.''
      | MarkerUnknown \<Rightarrow> ''Failed to create stream marker - '' @ ''an unknown error occurred.'')"

section \<open>Commands of the streamer and of the user\<close>

definition settitle_command :: "command_env \<Rightarrow> qstring list \<Rightarrow> command_result" where
  "settitle_command e ws =
     (if length ws < 2 then tells ''Usage: /settitle <stream title>''
      else if cm_isTwitch e then does (UpdateTitle (cm_roomId e) (words_from 1 ws))
      else tells ''Unable to set title of non-Twitch channel.'')"

definition settitle_answered :: "qstring \<Rightarrow> bool \<Rightarrow> qstring" where
  "settitle_answered title ok =
     (if ok then qarg ''Updated title to %1'' title else ''Title update failed! Are you missing the required scope?'')"

definition setgame_command :: "command_env \<Rightarrow> qstring list \<Rightarrow> command_result" where
  "setgame_command e ws =
     (if length ws < 2 then tells ''Usage: /setgame <stream game>''
      else if cm_isTwitch e then does (SearchGames (words_from 1 ws))
      else tells ''Unable to set game of non-Twitch channel.'')"

text \<open>The games found (id and name): the first, unless another has just the name that was asked for.\<close>

definition matchedGame :: "(qstring \<Rightarrow> qstring) \<Rightarrow> qstring \<Rightarrow> (qstring \<times> qstring) list \<Rightarrow> (qstring \<times> qstring) option" where
  "matchedGame lower gameName games =
     (case games of
        [] \<Rightarrow> None
      | g # rest \<Rightarrow>
          if rest = [] then Some g
          else (case List.find (\<lambda>x. lower (snd x) = lower gameName) games of Some x \<Rightarrow> Some x | None \<Rightarrow> Some g))"

text \<open>\<open>Inl\<close>: a message; \<open>Inr\<close>: the game the channel is updated to.\<close>

definition games_found :: "(qstring \<Rightarrow> qstring) \<Rightarrow> qstring \<Rightarrow> (qstring \<times> qstring) list option \<Rightarrow> qstring + qstring \<times> qstring" where
  "games_found lower gameName answer =
     (case answer of
        None \<Rightarrow> Inl ''Failed to look up game.''
      | Some games \<Rightarrow> (case matchedGame lower gameName games of None \<Rightarrow> Inl ''Game not found.'' | Some g \<Rightarrow> Inr g))"

definition setgame_answered :: "qstring \<times> qstring \<Rightarrow> bool \<Rightarrow> qstring" where
  "setgame_answered game ok =
     (if ok then qarg ''Updated game to %1'' (snd game) else ''Game update failed! Are you missing the required scope?'')"

definition openurl_command :: "command_env \<Rightarrow> qstring list \<Rightarrow> command_result" where
  "openurl_command e ws =
     (if length ws < 2 then tells ''Usage: /openurl <URL>''
      else case cm_userUrl e (words_from 1 ws) of
             None \<Rightarrow> tells ''Invalid URL specified.''
           | Some url \<Rightarrow>
               Some ([], (if cm_incognito e then OpenIncognito url else OpenUrl url) #
                 (if cm_canOpen e url then [] else [SystemMessage ''Could not open URL.''])))"

text \<open>\<open>findMessage\<close>: the newest message with the id.\<close>

definition known :: "command_env \<Rightarrow> qstring \<Rightarrow> known_message option" where
  "known e messageID = List.find (\<lambda>m. km_id m = messageID) (rev (cm_messages e))"

definition delete_command :: "command_env \<Rightarrow> qstring list \<Rightarrow> command_result" where
  "delete_command e ws =
     (if length ws < 2 then tells ''Usage: /delete <msg-id> - Deletes the specified message.''
      else let messageID = ws ! 1 in
        if \<not> cm_isUuid e messageID then tells (qarg ''Invalid msg-id: \"%1\"'' messageID)
        else if (case known e messageID of None \<Rightarrow> False | Some m \<Rightarrow> km_loginName m = cm_name e \<and> \<not> cm_broadcaster e)
        then tells ''You cannot delete the broadcaster's messages unless you are the broadcaster.''
        else Some (''/delete '' @ messageID, []))"

definition raw_command :: "command_env \<Rightarrow> qstring list \<Rightarrow> command_result" where
  "raw_command e ws = does (SendRaw (words_from 1 ws))"

text \<open>The newest message of the user is answered; a message without a thread becomes the root of a new one.\<close>

definition reply_command :: "command_env \<Rightarrow> qstring list \<Rightarrow> command_result" where
  "reply_command e ws =
     (if \<not> cm_isTwitch e then tells ''The /reply command only works in Twitch channels''
      else if length ws < 3 then tells ''Usage: /reply <username> <message>''
      else let username = stripChannelName (ws ! 1) in
        (case List.find (\<lambda>m. cm_caseKey e (km_loginName m) = cm_caseKey e username) (rev (cm_messages e)) of
           None \<Rightarrow> tells ''A message from that user wasn't found''
         | Some m \<Rightarrow>
             (case km_thread m of
                None \<Rightarrow> Some ([], [StartThread (km_id m), SendReply (words_from 2 ws) (km_id m)])
              | Some rootId \<Rightarrow> does (SendReply (words_from 2 ws) rootId))))"

definition fakemsg_command :: "command_env \<Rightarrow> qstring list \<Rightarrow> command_result" where
  "fakemsg_command e ws =
     (if length ws < 2 then tells ''Usage: /fakemsg (raw irc text) - injects raw irc text as if it was a message received from TMI''
      else does (FakeMessage (words_from 1 ws)))"

definition copy_command :: "command_env \<Rightarrow> qstring list \<Rightarrow> command_result" where
  "copy_command e ws =
     (if length ws < 2 then tells ''Usage: /copy <text> - copies provided text to clipboard.''
      else does (CopyText (words_from 1 ws)))"

section \<open>Whispers\<close>

definition TWITCH_WHISPER_COMMANDS :: "qstring list" where
  "TWITCH_WHISPER_COMMANDS = [''/w'', ''.w'']"

definition is_whisper :: "command_env \<Rightarrow> qstring \<Rightarrow> bool" where
  "is_whisper e commandName \<longleftrightarrow> (\<exists>w \<in> set TWITCH_WHISPER_COMMANDS. cm_caseKey e w = cm_caseKey e commandName)"

definition short_codes :: "command_env \<Rightarrow> qstring \<Rightarrow> qstring" where
  "short_codes e s = text_of_units (replaceShortCodes (cm_emojis e) (units_of_text s))"

text \<open>What \<open>sendMessage("jtv", ...)\<close> gets.\<close>

definition sendWhisperMessage :: "qstring \<Rightarrow> command_effect" where
  "sendWhisperMessage text' = SendWhisper (escape_joiners (simplified (units_of_text text')))"

definition whisper_word :: "command_env \<Rightarrow> qstring \<Rightarrow> whisper_element list" where
  "whisper_word e w =
     (if w \<in> set (cm_twitchEmotes e) then [EmoteOf TwitchEmote w]
      else if w \<in> set (cm_bttvEmotes e) then [EmoteOf BttvEmote w]
      else if w \<in> set (cm_ffzEmotes e) then [EmoteOf FfzEmote w]
      else map (\<lambda>piece. case piece of
             Emoji em \<Rightarrow> EmojiOf em
           | Plain u \<Rightarrow>
               (let linkString = cm_matchLink e (text_of_units u)
                in if linkString = [] then NormalText (text_of_units u) else LinkTo (text_of_units u) linkString))
           (emojis_parse (cm_emojis e) (units_of_text w)))"

definition whisper_flags :: flags where
  "whisper_flags = fe_list [flag_value DoNotTriggerNotification, flag_value Whisper]"

definition appendWhisperMessageWordsLocally :: "command_env \<Rightarrow> qstring list \<Rightarrow> command_effect list" where
  "appendWhisperMessageWordsLocally e ws =
     (let els = [Timestamp, BoldText (cm_userName e), SystemText ''->'', BoldText (ws ! 1 @ '':'')] @
            concat (map (whisper_word e) (drop 2 ws))
      in WhisperShown els whisper_flags #
         (if cm_inlineWhispers e then [WhisperInlined els (fe_set (flag_value DoNotLog) whisper_flags)] else []))"

text \<open>\<open>None\<close>: false, nothing was shown.\<close>

definition appendWhisperMessageStringLocally :: "command_env \<Rightarrow> qstring \<Rightarrow> command_effect list option" where
  "appendWhisperMessageStringLocally e textNoEmoji =
     (let ws = split_skip (CHR '' '') (short_codes e textNoEmoji)
      in if ws \<noteq> [] \<and> is_whisper e (hd ws) \<and> length ws > 2 then Some (appendWhisperMessageWordsLocally e ws) else None)"

section \<open>Variables\<close>

definition message_variable :: "(message \<Rightarrow> qstring) \<Rightarrow> message option \<Rightarrow> qstring \<Rightarrow> qstring" where
  "message_variable f m altText = (case m of None \<Rightarrow> altText | Some x \<Rightarrow> if f x = [] then altText else f x)"

definition COMMAND_VARS :: "command_env \<Rightarrow> message option \<Rightarrow> qstring \<Rightarrow> (qstring \<Rightarrow> qstring) option" where
  "COMMAND_VARS e m = map_of
     [(''channel.name'', \<lambda>altText. cm_name e),
      (''channel.id'', \<lambda>altText. if cm_isTwitch e then cm_roomId e else altText),
      (''channel'', \<lambda>altText. cm_name e),
      (''stream.game'', \<lambda>altText. if cm_isTwitch e \<and> ss_live (cm_status e) then ss_game (cm_status e) else altText),
      (''stream.title'', \<lambda>altText. if cm_isTwitch e \<and> ss_live (cm_status e) then ss_title (cm_status e) else altText),
      (''my.id'', \<lambda>altText. if cm_userId e = [] then altText else cm_userId e),
      (''my.name'', \<lambda>altText. if cm_userName e = [] then altText else cm_userName e),
      (''user.name'', message_variable loginName m),
      (''user'', message_variable loginName m),
      (''msg.id'', message_variable id' m),
      (''msg-id'', message_variable id' m),
      (''msg.text'', message_variable messageText m),
      (''message'', message_variable messageText m),
      (''input.text'', \<lambda>altText. altText)]"

section \<open>Running a line\<close>

definition execCustomCommand ::
  "command_env \<Rightarrow> qstring list \<Rightarrow> command \<Rightarrow> bool \<Rightarrow> message option \<Rightarrow> (qstring \<times> qstring) list \<Rightarrow> qstring \<times> command_effect list" where
  "execCustomCommand e ws c dryRun m context =
     (let res = custom_text \<lparr>cx_words = ws, cx_context = context, cx_vars = COMMAND_VARS e m\<rparr> (cmd_func c)
      in if dryRun then (res, [])
         else (case appendWhisperMessageStringLocally e res of
                 None \<Rightarrow> (res, [])
               | Some shown \<Rightarrow> ([], shown @ [sendWhisperMessage res])))"

type_synonym command_table = "(qstring \<times> (command_env \<Rightarrow> qstring list \<Rightarrow> command_result)) list"

text \<open>\<open>initialize\<close>; \<open>/fakemsg\<close> is there in debug builds only.\<close>

definition registered_commands :: "bool \<Rightarrow> command_table" where
  "registered_commands debug =
     [(''/ignore'', ignore_command), (''/unignore'', unignore_command), (''/follow'', follow_command),
      (''/unfollow'', unfollow_command), (''/debug-args'', debug_args_command), (''/debug-env'', debug_env_command),
      (''/uptime'', uptime_command), (''/block'', block_command), (''/unblock'', unblock_command), (''/user'', user_command),
      (''/usercard'', usercard_command), (''/requests'', requests_command), (''/chatters'', chatters_command),
      (''/clip'', clip_command), (''/marker'', marker_command), (''/streamlink'', streamlink_command),
      (''/popout'', popout_command), (''/popup'', popup_command), (''/clearmessages'', clearmessages_command),
      (''/settitle'', settitle_command), (''/setgame'', setgame_command), (''/openurl'', openurl_command),
      (''/delete'', delete_command), (''/raw'', raw_command), (''/reply'', reply_command)] @
     (if debug then [(''/fakemsg'', fakemsg_command)] else []) @ [(''/copy'', copy_command)]"

text \<open>The names of several words: the first words are tried one more at a time.\<close>

fun longer_command :: "user_commands \<Rightarrow> nat \<Rightarrow> qstring \<Rightarrow> qstring list \<Rightarrow> command option" where
  "longer_command u 0 commandName rest = None"
| "longer_command u (Suc n) commandName [] = None"
| "longer_command u (Suc n) commandName (w # rest) =
     (let name = commandName @ '' '' @ w
      in case map_of (uc_map u) name of Some c \<Rightarrow> Some c | None \<Rightarrow> longer_command u n name rest)"

text \<open>What follows the custom command of one word: the text, its words, and what was done so far.\<close>

definition exec_rest ::
  "command_env \<Rightarrow> command_table \<Rightarrow> user_commands \<Rightarrow> bool \<Rightarrow> qstring \<Rightarrow> command_effect list \<Rightarrow> command_result" where
  "exec_rest e table u dryRun text' done' =
     (let ws = split_skip (CHR '' '') text'
      in if ws = [] then Some (text', done')
         else case (if \<not> dryRun \<and> cm_isTwitchChannel e then map_of table (hd ws) else None) of
                Some f \<Rightarrow> map_option (\<lambda>(r, xs). (r, done' @ xs)) (f e ws)
              | None \<Rightarrow>
                  (case longer_command u (min (uc_maxSpaces u) (length ws - 1)) (hd ws) (tl ws) of
                     Some c \<Rightarrow> (case execCustomCommand e ws c dryRun None [] of (r, xs) \<Rightarrow> Some (r, done' @ xs))
                   | None \<Rightarrow>
                       if \<not> dryRun \<and> cm_type e = TwitchWhispers
                       then Some ([], done' @ [SystemMessage ''Use /w <username> <message> to whisper''])
                       else Some (text', done')))"

definition execCommand :: "command_env \<Rightarrow> command_table \<Rightarrow> user_commands \<Rightarrow> bool \<Rightarrow> qstring \<Rightarrow> command_result" where
  "execCommand e table u dryRun textNoEmoji =
     (let text' = short_codes e textNoEmoji; ws = split_skip (CHR '' '') text'
      in if ws = [] then Some (text', [])
         else if \<not> dryRun \<and> cm_isTwitchChannel e \<and> is_whisper e (hd ws) then
           (if length ws > 2 then Some ([], appendWhisperMessageWordsLocally e ws @ [sendWhisperMessage text'])
            else tells ''Usage: /w <username> <message>'')
         else case map_of (uc_map u) (hd ws) of
                None \<Rightarrow> exec_rest e table u dryRun text' []
              | Some c \<Rightarrow>
                  (case execCustomCommand e ws c dryRun None [] of
                     (r, xs) \<Rightarrow> exec_rest e table u dryRun (short_codes e r) xs))"

section \<open>Properties\<close>

lemmas command_defs = block_command_def unblock_command_def ignore_command_def unignore_command_def follow_command_def
  unfollow_command_def debug_args_command_def debug_env_command_def uptime_command_def user_command_def
  usercard_command_def requests_command_def streamlink_command_def popout_command_def popup_command_def
  chatters_command_def marker_command_def settitle_command_def setgame_command_def
  openurl_command_def raw_command_def reply_command_def fakemsg_command_def copy_command_def

text \<open>A command that answers, and sends nothing instead of the line.\<close>

definition silent :: "(command_env \<Rightarrow> qstring list \<Rightarrow> command_result) \<Rightarrow> command_env \<Rightarrow> qstring list \<Rightarrow> bool" where
  "silent f e ws \<longleftrightarrow> (\<exists>xs. f e ws = Some ([], xs))"

lemma silent_commands:
  "silent block_command e ws" "silent unblock_command e ws" "silent ignore_command e ws" "silent unignore_command e ws"
  "silent follow_command e ws" "silent unfollow_command e ws" "silent debug_args_command e ws" "silent debug_env_command e ws"
  "silent uptime_command e ws" "silent user_command e ws" "silent usercard_command e ws" "silent requests_command e ws"
  "silent streamlink_command e ws" "silent popout_command e ws" "silent popup_command e ws" "silent chatters_command e ws"
  "silent marker_command e ws" "silent settitle_command e ws" "silent setgame_command e ws" "silent openurl_command e ws"
  "silent raw_command e ws" "silent reply_command e ws" "silent fakemsg_command e ws" "silent copy_command e ws"
  by (auto simp: silent_def command_defs Let_def split: option.split)

lemma delete_answers: "delete_command e ws = Some (r, xs) \<Longrightarrow> r = [] \<or>
    (1 < length ws \<and> r = ''/delete '' @ ws ! 1 \<and> cm_isUuid e (ws ! 1) \<and> xs = [] \<and>
     (cm_broadcaster e \<or> (\<forall>m. known e (ws ! 1) = Some m \<longrightarrow> km_loginName m \<noteq> cm_name e)))"
  by (auto simp: delete_command_def Let_def split: if_splits option.splits)

lemma registered_cases:
  assumes "map_of (registered_commands debug) name = Some f"
  shows "silent f e ws \<or> f = delete_command \<or> f = clip_command \<or> f = clearmessages_command"
proof -
  have "(name, f) \<in> set (registered_commands debug)" using assms by (rule map_of_SomeD)
  then have "\<exists>x \<in> set (registered_commands debug). f = snd x" by force
  moreover have "\<forall>x \<in> set (registered_commands debug). silent (snd x) e ws \<or> snd x = delete_command \<or> snd x = clip_command \<or>
      snd x = clearmessages_command"
    using silent_commands [of e ws] by (simp add: registered_commands_def)
  ultimately show ?thesis by blast
qed


lemma split_skip_words: "w \<in> set (split_skip c s) \<Longrightarrow> w \<noteq> []"
  by (simp add: split_skip_def)

lemma exec_custom_dry:
  "execCustomCommand e ws c True m cx =
    (custom_text \<lparr>cx_words = ws, cx_context = cx, cx_vars = COMMAND_VARS e m\<rparr> (cmd_func c), [])"
  by (simp add: execCustomCommand_def Let_def)

lemma exec_rest_dry:
  "\<exists>r. exec_rest e table u True text' [] = Some (r, []) \<and> exec_rest e [] u True text' [] = Some (r, [])"
proof -
  let ?ws = "split_skip (CHR '' '') text'"
  show ?thesis
    by (cases "longer_command u (min (uc_maxSpaces u) (length ?ws - 1)) (hd ?ws) (tl ?ws)")
      (simp_all add: exec_rest_def Let_def exec_custom_dry)
qed

text \<open>
  A dry run (the text as it is shown while it is written) always answers, shows nothing, sends nothing
  and asks for nothing, whatever the commands are; it depends on the user's own commands alone.
\<close>

theorem dry_run_has_no_effects:
  "\<exists>r. execCommand e table u True t = Some (r, []) \<and> execCommand e [] u True t = Some (r, [])"
proof (cases "split_skip (CHR '' '') (short_codes e t)")
  case Nil
  then show ?thesis by (simp add: execCommand_def Let_def)
next
  case (Cons w ws)
  show ?thesis
  proof (cases "map_of (uc_map u) w")
    case None
    then show ?thesis using Cons exec_rest_dry [of e table u "short_codes e t"] by (simp add: execCommand_def Let_def)
  next
    case (Some c)
    let ?r = "custom_text \<lparr>cx_words = w # ws, cx_context = [], cx_vars = COMMAND_VARS e None\<rparr> (cmd_func c)"
    show ?thesis using Cons Some exec_rest_dry [of e table u "short_codes e ?r"]
      by (simp add: execCommand_def Let_def exec_custom_dry)
  qed
qed


lemma exec_rest_None:
  assumes "exec_rest e table u dryRun text' done' = None"
  shows "\<exists>name f ws. \<not> dryRun \<and> cm_isTwitchChannel e \<and> map_of table name = Some f \<and> f e ws = None"
proof (cases "\<not> dryRun \<and> cm_isTwitchChannel e")
  case True
  let ?ws = "split_skip (CHR '' '') text'"
  show ?thesis
  proof (cases "map_of table (hd ?ws)")
    case None
    then show ?thesis using assms by (auto simp: exec_rest_def Let_def split: if_splits option.splits prod.splits)
  next
    case (Some f)
    then have "f e ?ws = None" using assms True by (simp add: exec_rest_def Let_def split: if_splits)
    then show ?thesis using Some True by blast
  qed
next
  case False
  then show ?thesis using assms by (auto simp: exec_rest_def Let_def split: if_splits option.splits prod.splits)
qed


section \<open>The properties on an example\<close>

definition sample_env :: command_env where
  "sample_env = \<lparr>cm_type = Twitch, cm_isTwitch = True, cm_name = ''c'', cm_roomId = ''1'', cm_status = StreamStatus,
     cm_chatterCount = 0, cm_broadcaster = False, cm_messages = [], cm_userName = ''me'', cm_userId = ''2'', cm_isAnon = False,
     cm_channelNamed = (\<lambda>_. None), cm_selected = None, cm_arguments = [], cm_recentMessagesApiUrl = [], cm_linkResolverUrl = [],
     cm_twitchServerHost = [], cm_twitchServerPort = 0, cm_twitchServerSecure = True, cm_isUuid = (\<lambda>s. s = ''u''),
     cm_userUrl = (\<lambda>_. None), cm_canOpen = (\<lambda>_. False), cm_incognito = False, cm_caseKey = id, cm_localizeNumbers = (\<lambda>_. []),
     cm_emojis = Emojis_tables, cm_twitchEmotes = [], cm_bttvEmotes = [], cm_ffzEmotes = [], cm_matchLink = (\<lambda>_. []),
     cm_inlineWhispers = False\<rparr>"

lemma no_code_matches: "58 \<notin> set s \<Longrightarrow> code_matches pos s = []"
  by (induction pos s rule: code_matches.induct) (auto simp: Let_def)

lemma short_codes_plain: "CHR '':'' \<notin> set s \<Longrightarrow> short_codes e s = s"
proof -
  assume s: "CHR '':'' \<notin> set s"
  have w: "unat (of_nat (of_char c) :: 16 word) = of_char c" for c
  proof -
    have "of_char c < (65536 :: nat)" using nat_of_char_less_256 [of c] by linarith
    then show ?thesis by (simp add: unsigned_of_nat take_bit_eq_mod)
  qed
  have "of_char c \<noteq> (58 :: nat)" if "c \<in> set s" for c
  proof
    assume "of_char c = (58 :: nat)"
    then have "c = char_of (58 :: nat)" by (metis char_of_char)
    then show False using s that by (simp add: char_of_def bit_iff_odd)
  qed
  note ne = this
  have "58 \<notin> set (units_of_text s)"
  proof
    assume "58 \<in> set (units_of_text s)"
    then obtain c where c: "c \<in> set s" "(of_nat (of_char c) :: 16 word) = 58" by (force simp: units_of_text_def)
    then have "of_char c = (58 :: nat)" using w [of c] by simp
    then show False using ne [OF c(1)] by contradiction
  qed
  then show ?thesis
    using w by (simp add: short_codes_def replaceShortCodes_def no_code_matches text_of_units_def units_of_text_def comp_def)
qed




end
