(* ===== verification/Stream_Link.thy ===== *)
theory Stream_Link
  imports Text_Utils Qt_Text
begin

text \<open>
  \<open>util/StreamLink.cpp\<close>: which program is started with which arguments to watch a stream in Streamlink, and how
  the list of qualities it prints is read.
\<close>

section \<open>The process\<close>

record streamlink_settings =
  sl_windows :: bool
  sl_flatpak :: bool
  sl_useCustomPath :: bool
  sl_path :: qstring
  sl_opts :: qstring
  sl_preferredQuality :: qstring

definition getBinaryName :: "bool \<Rightarrow> qstring" where
  "getBinaryName windows = (if windows then ''streamlink.exe'' else ''streamlink'')"

definition streamlinkNotFound :: "bool \<Rightarrow> qstring" where
  "streamlinkNotFound useCustomPath =
     (if useCustomPath
      then ''Unable to find Streamlink executable'' @ [char_of (10 :: nat)] @
        ''Make sure your custom path is pointing to the DIRECTORY where the streamlink executable is located''
      else ''Unable to find Streamlink executable.'' @ [char_of (10 :: nat)] @
        ''If you have Streamlink installed, you might need to enable the custom path option'')"

text \<open>The program and its arguments.\<close>

definition createStreamlinkProcess :: "streamlink_settings \<Rightarrow> qstring \<times> qstring list" where
  "createStreamlinkProcess s =
     (let path = (if sl_useCustomPath s then sl_path s @ ''/'' @ getBinaryName (sl_windows s) else getBinaryName (sl_windows s))
      in if sl_flatpak s then (''flatpak-spawn'', [''--host'', path]) else (path, []))"

definition qualities_process :: "streamlink_settings \<Rightarrow> qstring \<Rightarrow> qstring \<times> qstring list" where
  "qualities_process s channelURL =
     (case createStreamlinkProcess s of (program, arguments) \<Rightarrow> (program, arguments @ [channelURL, ''--default-stream=KKona'']))"

text \<open>Empty arguments are removed before the user's own options are appended.\<close>

definition openStreamlink :: "(char \<Rightarrow> bool) \<Rightarrow> streamlink_settings \<Rightarrow> qstring \<Rightarrow> qstring \<Rightarrow> qstring list \<Rightarrow> qstring \<times> qstring list" where
  "openStreamlink isSpace s channelURL quality extraArguments =
     (case createStreamlinkProcess s of (program, arguments) \<Rightarrow>
        (program, filter (\<lambda>a. a \<noteq> []) (arguments @ extraArguments @ [channelURL, quality]) @ splitCommand isSpace (sl_opts s)))"

text \<open>The quality of Streamlink for that of the settings, and the qualities left out.\<close>

definition streamlink_quality :: "qstring \<Rightarrow> qstring \<times> qstring" where
  "streamlink_quality preferredQuality =
     (if preferredQuality = ''high'' then (''high,best'', ''>720p30'')
      else if preferredQuality = ''medium'' then (''medium,best'', ''>540p30'')
      else if preferredQuality = ''low'' then (''low,best'', ''>360p30'')
      else if preferredQuality = ''audio only'' then (''audio,audio_only'', [])
      else (''best'', []))"

datatype streamlink_start =
    AskQuality "qstring \<times> qstring list"
  | Watch "qstring \<times> qstring list"

definition openStreamlinkForChannel :: "(char \<Rightarrow> bool) \<Rightarrow> (qstring \<Rightarrow> qstring) \<Rightarrow> streamlink_settings \<Rightarrow> qstring \<Rightarrow> qstring \<times> streamlink_start" where
  "openStreamlinkForChannel isSpace lower s channel =
     (let channelURL = ''twitch.tv/'' @ channel;
          preferredQuality = lower (sl_preferredQuality s)
      in (qarg ''Opening %1 in Streamlink ...'' channel,
          if preferredQuality = ''choose'' then AskQuality (qualities_process s channelURL)
          else (case streamlink_quality preferredQuality of (quality, exclude) \<Rightarrow>
            Watch (openStreamlink isSpace s channelURL quality
              (if exclude \<noteq> [] then [''--stream-sorting-excludes'', exclude] else [])))))"

section \<open>The list of qualities\<close>

fun split_comma :: "qstring \<Rightarrow> qstring list" where
  "split_comma [] = [[]]"
| "split_comma [c] = [[c]]"
| "split_comma (c # d # s) =
     (if c = CHR '','' \<and> d = CHR '' '' then [] # split_comma s
      else (case split_comma (d # s) of [] \<Rightarrow> [[c]] | w # ws \<Rightarrow> (c # w) # ws))"

text \<open>\<open>QString::left\<close> of the length less \<open>n\<close>: everything where that is negative.\<close>

definition left_of_end :: "nat \<Rightarrow> qstring \<Rightarrow> qstring" where
  "left_of_end n s = (if length s < n then s else take (length s - n) s)"

text \<open>The loop from the last part on; \<open>None\<close> is an index out of range.\<close>

fun quality_loop :: "qstring list \<Rightarrow> qstring list option" where
  "quality_loop [] = Some []"
| "quality_loop (option' # rest) =
     (if option' = ''best)'' then
        (case rest of [] \<Rightarrow> None | option2 # rest2 \<Rightarrow> map_option ((#) (left_of_end 7 option2)) (quality_loop rest2))
      else map_option ((#) (if suffix '' (worst)'' option' then left_of_end 8 option'
          else if suffix '' (best)'' option' then left_of_end 7 option' else option')) (quality_loop rest))"

definition last_line :: "qstring \<Rightarrow> qstring" where
  "last_line output = q_trimmed (last (split_on (char_of (10 :: nat)) (q_trimmed output)))"

text \<open>\<open>Some\<close>: the callback is called with the result.\<close>

definition read_qualities :: "qstring \<Rightarrow> qstring list option option" where
  "read_qualities output =
     (let lastLine = last_line output
      in if prefix ''Available streams: '' lastLine then Some (quality_loop (rev (split_comma (drop 19 lastLine)))) else None)"

section \<open>Properties\<close>

fun join_comma_space :: "qstring list \<Rightarrow> qstring" where
  "join_comma_space [] = []"
| "join_comma_space [w] = w"
| "join_comma_space (w # ws) = w @ '', '' @ join_comma_space ws"

text \<open>What Streamlink prints: the qualities from the worst to the best; a single one is both.\<close>

definition print_qualities :: "qstring list \<Rightarrow> qstring" where
  "print_qualities qs =
     ''Available streams: '' @
     (case qs of
        [q] \<Rightarrow> q @ '' (worst, best)''
      | _ \<Rightarrow> join_comma_space ([hd qs @ '' (worst)''] @ butlast (tl qs) @ [last qs @ '' (best)'']))"

definition quality_name :: "qstring \<Rightarrow> bool" where
  "quality_name q \<longleftrightarrow> q \<noteq> [] \<and> (\<forall>c \<in> set q. c \<noteq> CHR '','' \<and> c \<noteq> CHR '')'' \<and> \<not> q_isSpace c)"

lemma split_comma_single: "CHR '','' \<notin> set w \<Longrightarrow> split_comma w = [w]"
  by (induction w rule: split_comma.induct) auto

lemma split_comma_Cons: "CHR '','' \<notin> set w \<Longrightarrow> split_comma (w @ '', '' @ s) = w # split_comma s"
proof (induction w)
  case (Cons c w)
  then show ?case by (cases w) (auto split: list.splits)
qed simp

lemma split_comma_join: "ws \<noteq> [] \<Longrightarrow> \<forall>w \<in> set ws. CHR '','' \<notin> set w \<Longrightarrow> split_comma (join_comma_space ws) = ws"
proof (induction ws rule: join_comma_space.induct)
  case (3 w v ws)
  then show ?case using split_comma_Cons [of w "join_comma_space (v # ws)"] by simp
qed (simp_all add: split_comma_single)

lemma suffix_close: "suffix (s @ '')'') w \<Longrightarrow> CHR '')'' \<in> set w"
  by (auto simp: suffix_def)

lemma quality_plain: "\<forall>q \<in> set qs. quality_name q \<Longrightarrow> quality_loop (qs @ r) = map_option ((@) qs) (quality_loop r)"
proof (induction qs)
  case (Cons q qs)
  then have "CHR '')'' \<notin> set q" by (auto simp: quality_name_def)
  then have "q \<noteq> ''best)''" "\<not> suffix '' (worst)'' q" "\<not> suffix '' (best)'' q"
    using suffix_close [of "'' (worst''" q] suffix_close [of "'' (best''" q] by auto
  then show ?case using Cons by (cases "quality_loop r") simp_all
next
  case Nil
  show ?case by (cases "quality_loop r") simp_all
qed

lemma last_split_on: "sep \<notin> set p \<Longrightarrow> last (split_on sep (a @ sep # p)) = p"
proof -
  assume p: "sep \<notin> set p"
  have one: "split_on sep p = [p]" using p by (induction p) auto
  have "split_on sep (a @ sep # p) \<noteq> [] \<and> tl (split_on sep (a @ sep # p)) \<noteq> [] \<and> last (split_on sep (a @ sep # p)) = p"
    by (induction a) (auto simp: one split: list.splits)
  then show ?thesis by blast
qed

lemma last_line_same:
  assumes "p \<noteq> []" "\<not> q_isSpace (hd p)" "\<not> q_isSpace (last p)" "char_of (10 :: nat) \<notin> set p"
  shows "last_line (before @ [char_of (10 :: nat)] @ p @ [char_of (10 :: nat)]) = p"
proof -
  let ?n = "char_of (10 :: nat)"
  have n: "q_isSpace ?n" by (simp add: q_isSpace_def)
  have one: "split_on ?n p = [p]" using assms(4) by (induction p) auto
  have fr: "dropWhile q_isSpace (p @ x) = p @ x" for x using assms(1,2) by (cases p) auto
  have bk: "dropWhile q_isSpace (rev (x @ p @ y)) = rev (x @ p)" if "\<forall>c \<in> set y. q_isSpace c" for x y
  proof -
    obtain ys c where "p = ys @ [c]" using assms(1) by (cases p rule: rev_cases) auto
    moreover have "dropWhile q_isSpace (rev y @ c # z) = dropWhile q_isSpace (c # z)" for z
      using that by (intro dropWhile_append2) simp
    ultimately show ?thesis using assms(3) by simp
  qed
  have p: "q_trimmed p = p" using fr [of "[]"] bk [of "[]" "[]"] by (simp add: q_trimmed_def)
  show ?thesis
  proof (cases "dropWhile q_isSpace before = []")
    case True
    then have "\<forall>c \<in> set before. q_isSpace c" by (simp add: dropWhile_eq_Nil_conv)
    then have "dropWhile q_isSpace (before @ [?n] @ p @ [?n]) = p @ [?n]" using n fr [of "[?n]"] by (simp add: dropWhile_append2)
    then have "q_trimmed (before @ [?n] @ p @ [?n]) = p" using bk [of "[?n]" "[]"] n by (simp add: q_trimmed_def)
    then show ?thesis by (simp add: last_line_def one p)
  next
    case False
    then have "dropWhile q_isSpace (before @ [?n] @ p @ [?n]) = dropWhile q_isSpace before @ [?n] @ p @ [?n]"
      by (metis dropWhile_append dropWhile_eq_Nil_conv)
    then have "q_trimmed (before @ [?n] @ p @ [?n]) = dropWhile q_isSpace before @ [?n] @ p"
      using bk [of "[?n]" "dropWhile q_isSpace before @ [?n]"] n by (simp add: q_trimmed_def)
    then show ?thesis using last_split_on [OF assms(4), of "dropWhile q_isSpace before"] by (simp add: last_line_def p)
  qed
qed

lemma join_comma_chars: "set (join_comma_space ws) \<subseteq> (\<Union>w \<in> set ws. set w) \<union> {CHR '','', CHR '' ''}"
  by (induction ws rule: join_comma_space.induct) auto

lemma join_comma_last: "ws \<noteq> [] \<Longrightarrow> last ws \<noteq> [] \<Longrightarrow> join_comma_space ws \<noteq> [] \<and> last (join_comma_space ws) = last (last ws)"
  by (induction ws rule: join_comma_space.induct) auto

text \<open>What is printed behind the heading, as a list of parts.\<close>

definition parts :: "qstring list \<Rightarrow> qstring list" where
  "parts qs = (case qs of [q] \<Rightarrow> [q @ '' (worst'', ''best)''] | _ \<Rightarrow> [hd qs @ '' (worst)''] @ butlast (tl qs) @ [last qs @ '' (best)''])"

lemma print_parts: "print_qualities qs = ''Available streams: '' @ join_comma_space (parts qs)"
  by (simp add: print_qualities_def parts_def split: list.split)

lemma parts_read:
  assumes "qs \<noteq> []" "\<forall>q \<in> set qs. quality_name q"
  shows "quality_loop (rev (parts qs)) = Some (rev qs)"
proof (cases qs rule: rev_cases)
  case Nil
  then show ?thesis using assms(1) by simp
next
  case (snoc init best)
  show ?thesis
  proof (cases init)
    case Nil
    then show ?thesis using snoc by (simp add: parts_def left_of_end_def)
  next
    case (Cons worst mid)
    have p: "parts qs = (worst @ '' (worst)'') # mid @ [best @ '' (best)'']"
      using snoc Cons by (cases mid) (simp_all add: parts_def)
    have "\<forall>q \<in> set (rev mid). quality_name q" using assms(2) snoc Cons by auto
    moreover have "best @ '' (best)'' \<noteq> ''best)''" "worst @ '' (worst)'' \<noteq> ''best)''"
      by (cases best; simp) (cases worst; simp)
    moreover have "\<not> suffix '' (worst)'' (best @ '' (best)'')"
    proof
      assume "suffix '' (worst)'' (best @ '' (best)'')"
      then have "prefix (rev '' (worst)'') (rev (best @ '' (best)''))" by (simp only: suffix_to_prefix)
      then show False by simp
    qed
    moreover have "rev (parts qs) = (best @ '' (best)'') # rev mid @ [worst @ '' (worst)'']" "rev qs = best # rev mid @ [worst]"
      using p snoc Cons by simp_all
    ultimately show ?thesis by (simp add: quality_plain left_of_end_def suffix_def)
  qed
qed

text \<open>
  The qualities Streamlink prints are read back, the best first, whether there are several or a single one
  that is the best and the worst; lines printed before do not matter.
\<close>

theorem qualities_read_back:
  assumes "qs \<noteq> []" "\<forall>q \<in> set qs. quality_name q"
  shows "read_qualities (before @ [char_of (10 :: nat)] @ print_qualities qs @ [char_of (10 :: nat)]) = Some (Some (rev qs))"
proof -
  let ?p = "print_qualities qs"
  have "q_isSpace (char_of (10 :: nat))" by (simp add: q_isSpace_def)
  then have nl: "quality_name q \<Longrightarrow> char_of (10 :: nat) \<notin> set q \<and> CHR '','' \<notin> set q" for q
    unfolding quality_name_def by blast
  have names: "quality_name (hd qs)" "quality_name (last qs)" "\<forall>q \<in> set (butlast (tl qs)). quality_name q"
    using assms by (auto dest: in_set_butlastD list.set_sel(2))
  have lit: "char_of (10 :: nat) \<notin> set '' (worst, best)''" by (simp add: char_of_def bit_iff_odd)
  have ws: "(\<forall>w \<in> set (parts qs). CHR '','' \<notin> set w \<and> char_of (10 :: nat) \<notin> set w) \<and> parts qs \<noteq> [] \<and>
      last (last (parts qs)) = CHR '')'' \<and> last (parts qs) \<noteq> []"
  proof (cases "tl qs = []")
    case True
    then obtain q where q: "qs = [q]" using assms(1) by (cases qs) auto
    show ?thesis using names(1) nl [of q] lit unfolding q by (simp add: parts_def)
  next
    case False
    then have p: "parts qs = [hd qs @ '' (worst)''] @ butlast (tl qs) @ [last qs @ '' (best)'']"
      by (cases qs; cases "tl qs") (simp_all add: parts_def)
    show ?thesis unfolding p using nl [OF names(1)] nl [OF names(2)] names(3) nl lit by simp
  qed
  have "\<not> q_isSpace (hd ?p)" "hd ?p = CHR ''A''" by (simp_all add: print_qualities_def q_isSpace_def)
  moreover have "last ?p = CHR '')''" "?p \<noteq> []" using join_comma_last [of "parts qs"] ws by (simp_all add: print_parts)
  moreover have "char_of (10 :: nat) \<notin> set ?p"
    using ws join_comma_chars [of "parts qs"] by (auto simp: print_parts char_of_def bit_iff_odd)
  ultimately have "last_line (before @ [char_of (10 :: nat)] @ ?p @ [char_of (10 :: nat)]) = ?p"
    by (intro last_line_same) (simp_all add: q_isSpace_def)
  then show ?thesis
    using split_comma_join [of "parts qs"] ws parts_read [OF assms] by (simp add: read_qualities_def print_parts)
qed

theorem qualities_read_back_witness:
  "read_qualities ([char_of (10 :: nat)] @ print_qualities [''360p'', ''best''] @ [char_of (10 :: nat)]) = Some (Some [''best'', ''360p''])"
  using qualities_read_back [of "[''360p'', ''best'']" "[]"] by (simp add: quality_name_def q_isSpace_def)

end
