(* ===== verification/Pubsub_Actions.thy ===== *)
theory Pubsub_Actions
  imports Twitch_Delivery PubSub_Model Qt_Json
begin

text \<open>
  Moderation actions: the handlers in the constructor of \<open>PubSubManager.cpp\<close> that read an action from its JSON
  (\<open>PubSubActions.cpp\<close>, \<open>pubsubmessages/\<close>), the messages \<open>MessageBuilder.cpp\<close> makes of an action, and what
  \<open>Application::initPubSub\<close> does with it in the channel it is about. \<open>postToThread\<close> runs what it is given after
  the signal returned.
\<close>

section \<open>Actions\<close>

record action_user =
  au_id :: qstring
  au_login :: qstring
  au_displayName :: qstring
  au_color :: "int option"

definition ActionUser :: action_user where
  "ActionUser = \<lparr>au_id = [], au_login = [], au_displayName = [], au_color = None\<rparr>"

record pubsub_action =
  pa_source :: action_user
  pa_roomID :: qstring

datatype chat_mode = Slow | R9K | SubscribersOnly | EmoteOnly

datatype term_change = AddPermitted | RemovePermitted | AddBlocked | RemoveBlocked | AutomodProperties

datatype automod_info = OnHold | Denied | Approved

datatype mod_signal =
    ChatCleared pubsub_action
  | ModeChanged pubsub_action chat_mode bool "32 word"
  | ModerationStateChanged pubsub_action action_user bool
  | UserBanned pubsub_action action_user qstring "32 word"
  | MessageDeleted pubsub_action action_user qstring qstring
  | UserUnbanned pubsub_action action_user bool
  | AutomodUserMessage pubsub_action term_change qstring
  | AutomodInfoMessage pubsub_action automod_info

definition json_text :: "qobject \<Rightarrow> qstring \<Rightarrow> qstring" where
  "json_text data k = json_toString [] (json_value data k)"

definition PubSubAction :: "qobject \<Rightarrow> qstring \<Rightarrow> pubsub_action" where
  "PubSubAction data roomID =
     \<lparr>pa_source = ActionUser\<lparr>au_id := json_text data ''created_by_user_id'', au_login := json_text data ''created_by''\<rparr>,
      pa_roomID = roomID\<rparr>"

definition getModeName :: "chat_mode \<Rightarrow> qstring" where
  "getModeName m = (case m of Slow \<Rightarrow> ''slow'' | R9K \<Rightarrow> ''r9k'' | SubscribersOnly \<Rightarrow> ''subscribers-only'' | EmoteOnly \<Rightarrow> ''emote-only'')"

section \<open>The handlers\<close>

definition action_args :: "qobject \<Rightarrow> qstring list" where
  "action_args data = map (json_toString []) (toArray (json_value data ''args''))"

text \<open>An element of the array, empty where it is missing.\<close>

definition arg_at :: "qstring list \<Rightarrow> nat \<Rightarrow> qstring" where
  "arg_at args i = (if i < length args then args ! i else [])"

definition target_of :: "qobject \<Rightarrow> qstring \<Rightarrow> action_user" where
  "target_of data login = ActionUser\<lparr>au_id := json_text data ''target_user_id'', au_login := login\<rparr>"

text \<open>\<open>toUInt\<close>: the number, 0 where the text is none.\<close>

type_synonym read_uint = "qstring \<Rightarrow> 32 word"

definition handle_slow :: "read_uint \<Rightarrow> qobject \<Rightarrow> qstring \<Rightarrow> mod_signal option" where
  "handle_slow toUInt data roomID =
     (let args = action_args data
      in if args = [] then None else Some (ModeChanged (PubSubAction data roomID) Slow True (toUInt (args ! 0))))"

definition handle_unmod :: "qobject \<Rightarrow> qstring \<Rightarrow> mod_signal option" where
  "handle_unmod data roomID =
     (let args = action_args data
      in if args = [] then None
         else Some (ModerationStateChanged (PubSubAction data roomID) (target_of data (args ! 0)) False))"

definition handle_mod :: "qobject \<Rightarrow> qstring \<Rightarrow> mod_signal option" where
  "handle_mod data roomID =
     (if json_text data ''type'' = ''chat_login_moderation'' then None
      else Some (ModerationStateChanged (PubSubAction data roomID) (target_of data (json_text data ''target_user_login'')) True))"

definition handle_timeout :: "read_uint \<Rightarrow> qobject \<Rightarrow> qstring \<Rightarrow> mod_signal option" where
  "handle_timeout toUInt data roomID =
     (let args = action_args data
      in if length args < 2 then None
         else Some (UserBanned (PubSubAction data roomID) (target_of data (args ! 0)) (arg_at args 2) (toUInt (args ! 1))))"

definition handle_delete :: "qobject \<Rightarrow> qstring \<Rightarrow> mod_signal option" where
  "handle_delete data roomID =
     (let args = action_args data
      in if length args < 3 then None
         else Some (MessageDeleted (PubSubAction data roomID) (target_of data (args ! 0)) (args ! 2) (args ! 1)))"

definition handle_ban :: "qobject \<Rightarrow> qstring \<Rightarrow> mod_signal option" where
  "handle_ban data roomID =
     (let args = action_args data
      in if args = [] then None
         else Some (UserBanned (PubSubAction data roomID) (target_of data (args ! 0)) (arg_at args 1) 0))"

definition handle_unban :: "bool \<Rightarrow> qobject \<Rightarrow> qstring \<Rightarrow> mod_signal option" where
  "handle_unban wasBan data roomID =
     (let args = action_args data
      in if args = [] then None else Some (UserUnbanned (PubSubAction data roomID) (target_of data (args ! 0)) wasBan))"

text \<open>Terms: of the moderation topic the user is who created the action, of the topic of terms who requested it.\<close>

definition handle_deleted_term :: "term_change \<Rightarrow> qobject \<Rightarrow> qstring \<Rightarrow> mod_signal option" where
  "handle_deleted_term change data roomID =
     (let args = action_args data
      in if args = [] then None else Some (AutomodUserMessage (PubSubAction data roomID) change (args ! 0)))"

definition handle_term :: "term_change \<Rightarrow> qobject \<Rightarrow> qstring \<Rightarrow> mod_signal option" where
  "handle_term change data roomID =
     (let a = PubSubAction data roomID
      in Some (AutomodUserMessage (a\<lparr>pa_source := (pa_source a)\<lparr>au_login := json_text data ''requester_login''\<rparr>\<rparr>)
           change (json_text data ''text'')))"

definition mode_handler :: "chat_mode \<Rightarrow> bool \<Rightarrow> qobject \<Rightarrow> qstring \<Rightarrow> mod_signal option" where
  "mode_handler m on data roomID = Some (ModeChanged (PubSubAction data roomID) m on 0)"

definition info_handler :: "automod_info \<Rightarrow> qobject \<Rightarrow> qstring \<Rightarrow> mod_signal option" where
  "info_handler info data roomID = Some (AutomodInfoMessage (PubSubAction data roomID) info)"

type_synonym action_handlers = "(qstring \<times> (qobject \<Rightarrow> qstring \<Rightarrow> mod_signal option)) list"

definition moderationActionHandlers :: "read_uint \<Rightarrow> action_handlers" where
  "moderationActionHandlers toUInt =
     [(''clear'', \<lambda>data roomID. Some (ChatCleared (PubSubAction data roomID))),
      (''slowoff'', mode_handler Slow False), (''slow'', handle_slow toUInt),
      (''r9kbetaoff'', mode_handler R9K False), (''r9kbeta'', mode_handler R9K True),
      (''subscribersoff'', mode_handler SubscribersOnly False), (''subscribers'', mode_handler SubscribersOnly True),
      (''emoteonlyoff'', mode_handler EmoteOnly False), (''emoteonly'', mode_handler EmoteOnly True),
      (''unmod'', handle_unmod), (''mod'', handle_mod), (''timeout'', handle_timeout toUInt), (''delete'', handle_delete),
      (''ban'', handle_ban), (''unban'', handle_unban True), (''untimeout'', handle_unban False),
      (''automod_message_rejected'', info_handler OnHold),
      (''automod_message_denied'', info_handler Denied),
      (''automod_message_approved'', info_handler Approved),
      (''delete_permitted_term'', handle_deleted_term RemovePermitted),
      (''delete_blocked_term'', handle_deleted_term RemoveBlocked),
      (''denied_automod_message'', \<lambda>data roomID. None), (''approved_automod_message'', \<lambda>data roomID. None)]"

definition channelTermsActionHandlers :: action_handlers where
  "channelTermsActionHandlers =
     [(''add_permitted_term'', handle_term AddPermitted), (''add_blocked_term'', handle_term AddBlocked),
      (''delete_permitted_term'', handle_term RemovePermitted), (''delete_blocked_term'', handle_term RemoveBlocked)]"

text \<open>\<open>PubSubChatModeratorActionMessage\<close> of the inner JSON, and the handler it is given to.\<close>

definition moderator_message :: "qobject \<Rightarrow> mod_type" where
  "moderator_message inner =
     (let typeString = json_text inner ''type''; data = toObject (json_value inner ''data'')
      in if typeString = ''moderation_action'' then ModerationAction (json_text data ''moderation_action'')
         else if typeString = ''channel_terms_action'' then ChannelTermsAction (json_text data ''type'')
         else ModInvalid)"

definition run_handler :: "action_handlers \<Rightarrow> qstring \<Rightarrow> qobject \<Rightarrow> qstring \<Rightarrow> mod_signal option" where
  "run_handler table name data channelID = (case map_of table name of None \<Rightarrow> None | Some h \<Rightarrow> h data channelID)"

definition moderator_signal :: "read_uint \<Rightarrow> qstring \<Rightarrow> qobject \<Rightarrow> mod_signal option" where
  "moderator_signal toUInt channelID inner =
     (let data = toObject (json_value inner ''data'')
      in case moderator_message inner of
           ModerationAction a \<Rightarrow> run_handler (moderationActionHandlers toUInt) a data channelID
         | ChannelTermsAction a \<Rightarrow> run_handler channelTermsActionHandlers a data channelID
         | ModInvalid \<Rightarrow> None)"

section \<open>The messages made of actions\<close>

definition formatDuration :: "32 word \<Rightarrow> qstring" where
  "formatDuration d = formatTime (sint d)"

definition isBan :: "32 word \<Rightarrow> bool" where
  "isBan duration \<longleftrightarrow> duration = 0"

text \<open>The pieces of a ban's text; each is followed by a space.\<close>

definition ban_pieces :: "qstring \<Rightarrow> pubsub_action \<Rightarrow> action_user \<Rightarrow> qstring \<Rightarrow> 32 word \<Rightarrow> nat \<Rightarrow> qstring list" where
  "ban_pieces userId a target reason duration howOften =
     (let source = au_login (pa_source a)
      in if au_id target = userId then
           [''You were'', if isBan duration then ''banned'' else qarg ''timed out for %1'' (formatDuration duration)] @
           (if source \<noteq> [] then [''by'', source @ (if reason = [] then ''.'' else '':'')] else []) @
           (if reason \<noteq> [] then [qarg ''\"%1\".'' reason] else [])
         else if isBan duration then
           [source, ''banned''] @ (if reason = [] then [au_login target] else [au_login target @ '':'', qarg ''\"%1\".'' reason])
         else
           [source, ''timed out'', au_login target,
            if reason = [] then qarg ''for %1.'' (formatDuration duration)
            else qarg (qarg ''for %1: \"%2\".'' (formatDuration duration)) reason] @
           (if howOften > 1 then [qarg ''(%1 times)'' (show_nat howOften)] else []))"

definition ban_message :: "int \<Rightarrow> qstring \<Rightarrow> pubsub_action \<Rightarrow> action_user \<Rightarrow> qstring \<Rightarrow> 32 word \<Rightarrow> nat \<Rightarrow> message" where
  "ban_message now userId a target reason duration howOften =
     (let t = fold system_text (ban_pieces userId a target reason duration howOften) []
      in (set_flags [System, Timeout] (new_message now))
           \<lparr>timeoutUser := au_login target, count' := of_nat howOften, messageText := t, searchText := t\<rparr>)"

definition unban_message :: "int \<Rightarrow> pubsub_action \<Rightarrow> action_user \<Rightarrow> bool \<Rightarrow> message" where
  "unban_message now a target wasBan =
     (let t = fold system_text [au_login (pa_source a), if wasBan then ''unbanned'' else ''untimedout'', au_login target] []
      in (set_flags [System, Untimeout] (new_message now))\<lparr>timeoutUser := au_login target, messageText := t, searchText := t\<rparr>)"

definition term_text :: "pubsub_action \<Rightarrow> term_change \<Rightarrow> qstring \<Rightarrow> qstring" where
  "term_text a change term' =
     (let login = au_login (pa_source a)
      in case change of
           AddPermitted \<Rightarrow> login @ '' added \"'' @ term' @ ''\" as a permitted term on AutoMod.''
         | AddBlocked \<Rightarrow> login @ '' added \"'' @ term' @ ''\" as a blocked term on AutoMod.''
         | RemovePermitted \<Rightarrow> login @ '' removed \"'' @ term' @ ''\" as a permitted term on AutoMod.''
         | RemoveBlocked \<Rightarrow> login @ '' removed \"'' @ term' @ ''\" as a blocked term on AutoMod.''
         | AutomodProperties \<Rightarrow> qarg ''%1 modified the AutoMod properties.'' login)"

definition automod_user_message :: "int \<Rightarrow> pubsub_action \<Rightarrow> term_change \<Rightarrow> qstring \<Rightarrow> message" where
  "automod_user_message now a change term' =
     (let t = term_text a change term' in (set_flags [System] (new_message now))\<lparr>messageText := t, searchText := t\<rparr>)"

definition makeAutomodInfoMessage :: "int \<Rightarrow> automod_info \<Rightarrow> message" where
  "makeAutomodInfoMessage now info =
     (let t = ''AutoMod: '' @ (case info of
            OnHold \<Rightarrow> ''Hey! Your message is being checked by mods and has not been sent.''
          | Denied \<Rightarrow> ''Mods have removed your message.''
          | Approved \<Rightarrow> ''Mods have accepted your message.'')
      in (set_flags [MessageFlag.PubSub, AutoMod] (new_message now))\<lparr>messageText := t, searchText := t\<rparr>)"

text \<open>The explanation with its buttons, and the message that is held.\<close>

definition makeAutomodMessage :: "int \<Rightarrow> action_user \<Rightarrow> qstring \<Rightarrow> qstring \<Rightarrow> message \<times> message" where
  "makeAutomodMessage now target message' reason =
     (let t1 = qarg ''AutoMod: Held a message for reason: %1. Allow will post it in chat. Allow Deny'' reason;
          t2 = au_displayName target @ '': '' @ message'
      in ((set_flags [MessageFlag.PubSub, Timeout, AutoMod] (new_message now))\<lparr>loginName := ''automod'', messageText := t1, searchText := t1\<rparr>,
          (set_flags [MessageFlag.PubSub, Timeout, AutoMod] (new_message now))\<lparr>loginName := au_login target, messageText := t2, searchText := t2\<rparr>))"

definition deletion_action_message :: "int \<Rightarrow> qstring \<Rightarrow> message" where
  "deletion_action_message now messageId =
     (set_flags [System, DoNotTriggerNotification, Timeout] (new_message now))\<lparr>timeoutUser := ''msg:'' @ messageId\<rparr>"

section \<open>What is done with an action\<close>

definition room_of :: "'b tw_world \<Rightarrow> nat \<Rightarrow> qstring option" where
  "room_of w c = map_option ti_roomId (w_info w c)"

text \<open>The channel with the room id; the empty channel, and one without a name, is \<open>None\<close>.\<close>

definition channel_of_room :: "'b tw_world \<Rightarrow> qstring \<Rightarrow> nat option" where
  "channel_of_room w roomID =
     (case getChannelOrEmptyByID (room_of w) (w_objects w) (w_server w) roomID of
        None \<Rightarrow> None
      | Some c \<Rightarrow> if name_of w c = [] then None else Some c)"

definition mode_text :: "pubsub_action \<Rightarrow> chat_mode \<Rightarrow> bool \<Rightarrow> 32 word \<Rightarrow> qstring" where
  "mode_text a m on duration =
     qarg (qarg (qarg ''%1 turned %2 %3 mode'' (au_login (pa_source a))) (if on then ''on'' else ''off'')) (getModeName m) @
     (if duration > 0 then qarg '' (%1 seconds)'' (show_nat (unat duration)) else [])"

text \<open>
  A deletion takes the place of the newest of the last 200 messages that is about the same message and did not
  come from PubSub; otherwise it is added.
\<close>

definition deletion_place :: "('b, msg_ptr) cbuf_ops \<Rightarrow> qstring \<Rightarrow> nat \<Rightarrow> 'b tw_world \<Rightarrow> msg_ptr option" where
  "deletion_place B target c w =
     (let snapshot = snapshot_of B w c
      in List.find (\<lambda>p. \<not> msg_has (w_heap w p) MessageFlag.PubSub \<and> timeoutUser (w_heap w p) = target)
           (rev (drop (length snapshot - 200) snapshot)))"

definition show_deletion :: "('b, msg_ptr) cbuf_ops \<Rightarrow> server_env \<Rightarrow> message \<Rightarrow> nat \<Rightarrow> 'b tw_world \<Rightarrow> 'b tw_world" where
  "show_deletion B e m c w =
     (let (p, w1) = make_message m w
      in case deletion_place B (timeoutUser m) c w1 of
           Some s \<Rightarrow> run_channel e c (replaceMessage B s p) w1
         | None \<Rightarrow> add_to B e c p w1)"

definition action_of :: "mod_signal \<Rightarrow> pubsub_action" where
  "action_of s =
     (case s of
        ChatCleared a \<Rightarrow> a | ModeChanged a _ _ _ \<Rightarrow> a | ModerationStateChanged a _ _ \<Rightarrow> a | UserBanned a _ _ _ \<Rightarrow> a
      | MessageDeleted a _ _ _ \<Rightarrow> a | UserUnbanned a _ _ \<Rightarrow> a | AutomodUserMessage a _ _ \<Rightarrow> a | AutomodInfoMessage a _ \<Rightarrow> a)"

text \<open>
  The connected functions, in the channel the action is about. The change of a term also deletes the message
  with the id of the message it made, which has none.
\<close>

definition show_action :: "('b, msg_ptr) cbuf_ops \<Rightarrow> server_env \<Rightarrow> qstring \<Rightarrow> mod_signal \<Rightarrow> nat \<Rightarrow> 'b tw_world \<Rightarrow> 'b tw_world" where
  "show_action B e userId s c w =
     (case s of
        ChatCleared a \<Rightarrow> add_new B e c (system_message (env_now e) (qarg ''%1 cleared the chat'' (au_login (pa_source a)))) w
      | ModeChanged a m on duration \<Rightarrow> add_new B e c (system_message (env_now e) (mode_text a m on duration)) w
      | ModerationStateChanged a target modded \<Rightarrow>
          add_new B e c (system_message (env_now e) (au_login (pa_source a) @ '' '' @
            (if modded then ''modded'' else ''unmodded'') @ '' '' @ au_login target)) w
      | UserBanned a target reason duration \<Rightarrow>
          (let (p, w1) = make_message (set_flags [MessageFlag.PubSub] (ban_message (env_now e) userId a target reason duration 1)) w
           in run_channel e c (addOrReplaceTimeout B (se_timeout e) p) w1)
      | MessageDeleted a target messageId messageText' \<Rightarrow>
          if se_hideDeletionActions e then w
          else show_deletion B e (set_flags [MessageFlag.PubSub] (deletion_action_message (env_now e) messageId)) c w
      | UserUnbanned a target wasBan \<Rightarrow> add_new B e c (unban_message (env_now e) a target wasBan) w
      | AutomodUserMessage a change term' \<Rightarrow>
          (let m = automod_user_message (env_now e) a change term'
           in add_new B e c m (run_channel e c (deleteMessage B (id' m)) w))
      | AutomodInfoMessage a info \<Rightarrow> add_new B e c (makeAutomodInfoMessage (env_now e) info) w)"

definition on_mod_signal :: "('b, msg_ptr) cbuf_ops \<Rightarrow> server_env \<Rightarrow> qstring \<Rightarrow> mod_signal \<Rightarrow> 'b tw_world \<Rightarrow> 'b tw_world" where
  "on_mod_signal B e userId s w =
     (case channel_of_room w (pa_roomID (action_of s)) of None \<Rightarrow> w | Some c \<Rightarrow> show_action B e userId s c w)"

text \<open>A message on the topic of moderator actions, from its JSON to the channel.\<close>

definition on_moderator_message ::
  "('b, msg_ptr) cbuf_ops \<Rightarrow> server_env \<Rightarrow> qstring \<Rightarrow> read_uint \<Rightarrow> qstring \<Rightarrow> qobject \<Rightarrow> 'b tw_world \<Rightarrow> 'b tw_world" where
  "on_moderator_message B e userId toUInt channelID inner w =
     (case moderator_signal toUInt channelID inner of None \<Rightarrow> w | Some s \<Rightarrow> on_mod_signal B e userId s w)"

section \<open>Messages held by AutoMod\<close>

record automod_queue =
  aq_caught :: bool
  aq_status :: qstring
  aq_category :: qstring
  aq_level :: int
  aq_messageID :: qstring
  aq_text :: qstring
  aq_userID :: qstring
  aq_login :: qstring
  aq_displayName :: qstring
  aq_color :: qstring

definition PubSubAutoModQueueMessage :: "qobject \<Rightarrow> automod_queue" where
  "PubSubAutoModQueueMessage inner =
     (let data = toObject (json_value inner ''data'');
          contentClassification = toObject (json_value data ''content_classification'');
          message' = toObject (json_value data ''message'');
          messageContent = toObject (json_value message' ''content'');
          messageSender = toObject (json_value message' ''sender'')
      in \<lparr>aq_caught = (json_text inner ''type'' = ''automod_caught_message''), aq_status = json_text data ''status'',
          aq_category = json_text contentClassification ''category'', aq_level = json_toInt 0 (json_value contentClassification ''level''),
          aq_messageID = json_text message' ''id'', aq_text = json_text messageContent ''text'',
          aq_userID = json_text messageSender ''user_id'', aq_login = json_text messageSender ''login'',
          aq_displayName = json_text messageSender ''display_name'', aq_color = json_text messageSender ''chat_color''\<rparr>)"

text \<open>\<open>readColor\<close>: the colour a text names, if any; \<open>same\<close>: comparison without case.\<close>

definition automod_sender :: "(qstring \<Rightarrow> int option) \<Rightarrow> (qstring \<Rightarrow> int) \<Rightarrow> (qstring \<Rightarrow> qstring \<Rightarrow> bool) \<Rightarrow> bool \<Rightarrow> username_display \<Rightarrow> automod_queue \<Rightarrow> action_user" where
  "automod_sender readColor randomColor same colorizeNicknames displayMode q =
     (let hasLocalizedName = (aq_displayName q \<noteq> [] \<and> \<not> same (aq_displayName q) (aq_login q))
      in \<lparr>au_id = aq_userID q, au_login = aq_login q,
          au_displayName = (case displayMode of
              Username \<Rightarrow> if hasLocalizedName then aq_login q else aq_displayName q
            | LocalizedName \<Rightarrow> aq_displayName q
            | UsernameAndLocalizedName \<Rightarrow>
                if hasLocalizedName then aq_login q @ ''('' @ aq_displayName q @ '')'' else aq_displayName q),
          au_color = (case readColor (aq_color q) of
              Some c \<Rightarrow> Some c
            | None \<Rightarrow> if colorizeNicknames then Some (randomColor (aq_userID q)) else None)\<rparr>)"

definition on_automod_caught ::
  "('b, msg_ptr) cbuf_ops \<Rightarrow> server_env \<Rightarrow> (automod_queue \<Rightarrow> action_user) \<Rightarrow> automod_queue \<Rightarrow> qstring \<Rightarrow> 'b tw_world \<Rightarrow> 'b tw_world" where
  "on_automod_caught B e sender q channelID w =
     (case channel_of_room w channelID of
        None \<Rightarrow> w
      | Some c \<Rightarrow>
          if aq_caught q \<and> aq_status q = ''PENDING'' then
            (let (m1, m2) = makeAutomodMessage (env_now e) (sender q) (aq_text q)
                   (qarg (qarg ''%1 level %2'' (aq_category q)) (show_int (aq_level q)))
             in add_new B e c m2 (add_new B e c m1 w))
          else w)"

text \<open>A reward that was redeemed, given to the channel of its room.\<close>

definition on_reward_redeemed :: "('b, msg_ptr) cbuf_ops \<Rightarrow> server_env \<Rightarrow> qobject \<Rightarrow> 'b tw_world \<Rightarrow> 'b tw_world option" where
  "on_reward_redeemed B e data w =
     (let channelId = json_text data ''channel_id''
      in if channelId = [] then Some w
         else case getChannelOrEmptyByID (room_of w) (w_objects w) (w_server w) channelId of
                None \<Rightarrow> Some w
              | Some c \<Rightarrow> addChannelPointReward B e (ChannelPointReward data) c w)"

section \<open>Properties\<close>

lemma action_room: "moderator_signal toUInt channelID inner = Some s \<Longrightarrow> pa_roomID (action_of s) = channelID"
proof -
  assume s: "moderator_signal toUInt channelID inner = Some s"
  have a: "pa_roomID (PubSubAction data r) = r" for data r by (simp add: PubSubAction_def)
  have h: "pa_roomID (action_of x) = r"
    if "(n, h) \<in> set (moderationActionHandlers toUInt) \<union> set channelTermsActionHandlers" "h data r = Some x" for n h data r x
    using that
    by (auto simp: moderationActionHandlers_def channelTermsActionHandlers_def mode_handler_def info_handler_def handle_slow_def handle_unmod_def
        handle_mod_def handle_timeout_def handle_delete_def handle_ban_def handle_unban_def handle_deleted_term_def
        handle_term_def action_of_def a Let_def split: if_splits)
  show ?thesis using s
    by (auto simp: moderator_signal_def run_handler_def Let_def split: mod_type.splits option.splits dest!: map_of_SomeD intro: h)
qed

lemma touches_show_action: "touches {c} w (show_action B e userId s c w)"
proof (cases s)
  case (UserBanned a target reason duration)
  show ?thesis unfolding UserBanned show_action_def mod_signal.case make_message_def Let_def prod.case
    by (intro touches_run_channel) (simp_all add: touches_def)
next
  case (MessageDeleted a target messageId t)
  have "touches {c} w (show_deletion B e m c w)" for m
    unfolding show_deletion_def make_message_def Let_def prod.case
    by (cases "deletion_place B (timeoutUser m) c (w\<lparr>w_heap := (w_heap w)(w_next w := m), w_next := Suc (w_next w)\<rparr>)")
      (simp_all add: touches_add_to touches_run_channel touches_def [of _ w "_\<lparr>w_heap := _, w_next := _\<rparr>"])
  then show ?thesis by (simp add: MessageDeleted show_action_def touches_refl)
next
  case (AutomodUserMessage a change t)
  show ?thesis unfolding AutomodUserMessage show_action_def mod_signal.case Let_def
    by (intro touches_add_new touches_run_channel touches_refl) (simp_all add: deleteMessage_def split: option.split)
qed (simp_all add: show_action_def touches_add_new touches_refl)


context message_buffer
begin

lemma replace_effect:
  assumes "has_room B ok w c" "distinct (snapshot_of B w c)" "s \<in> set (snapshot_of B w c)"
  shows "snapshot_of B (run_channel e c (replaceMessage B s p) w) c = map (\<lambda>q. if q = s then p else q) (snapshot_of B w c)"
    "\<And>d. d \<noteq> c \<Longrightarrow> w_objects (run_channel e c (replaceMessage B s p) w) d = w_objects w d"
proof -
  obtain co where co: "w_objects w c = Some co" "lq_ok B ok (ch_messages (co_channel co))"
    using assms(1) by (auto simp: has_room_def)
  let ?xs = "lq_items B (ch_messages (co_channel co))"
  have v: "lq_ok B ok (ch_messages (view_channel w (co_channel co)))" using co by simp
  note r = run_channel_effect [OF co(1), where e = e and f = "replaceMessage B s p"]
  show "\<And>d. d \<noteq> c \<Longrightarrow> w_objects (run_channel e c (replaceMessage B s p) w) d = w_objects w d" by (simp add: r)
  have xs: "snapshot_of B w c = ?xs" using snapshot_of_items [OF co(1)] by simp
  from replaceMessage_items(5) [OF v, of s p] assms(3) xs
  obtain i where i: "i < length ?xs" "?xs ! i = s"
      "lq_items B (ch_messages (replaceMessage B s p (view_channel w (co_channel co)))) = ?xs[i := p]"
    by auto
  have "?xs[i := p] = map (\<lambda>q. if q = s then p else q) ?xs"
    using assms(2) i(1,2) xs by (auto simp: list_eq_iff_nth_eq nth_list_update nth_eq_iff_index_eq)
  then show "snapshot_of B (run_channel e c (replaceMessage B s p) w) c = map (\<lambda>q. if q = s then p else q) (snapshot_of B w c)"
    using i(3) xs by (simp add: snapshot_of_def channel_of_def r getMessageSnapshot_def lq_getSnapshot_def)
qed

end

lemma show_deletion_eq:
  "show_deletion B e m c w =
     (case deletion_place B (timeoutUser m) c (snd (make_message m w)) of
        Some s \<Rightarrow> run_channel e c (replaceMessage B s (w_next w)) (snd (make_message m w))
      | None \<Rightarrow> add_to B e c (w_next w) (snd (make_message m w)))"
  by (simp only: show_deletion_def make_message_def Let_def prod.case snd_conv)



text \<open>
  The connected function for changed terms deletes the message with the id of its own message, which is
  empty: the newest message of the channel that has no id (any system message) is disabled.
\<close>

lemma term_change_disables_message:
  assumes "message_buffer B ok" "has_room B ok w c" "List.find (\<lambda>p. id' (w_heap w p) = []) (rev (snapshot_of B w c)) = Some p"
    and "p < w_next w"
  shows "w_heap (show_action B e userId (AutomodUserMessage a change t) c w) p = disabled (w_heap w p)"
proof -
  let ?m = "automod_user_message (env_now e) a change t"
  obtain co where co: "w_objects w c = Some co" using assms(2) by (auto simp: has_room_def)
  have i: "id' ?m = []" by (simp add: automod_user_message_def Let_def set_flags_def new_message_def)
  let ?w1 = "run_channel e c (deleteMessage B []) w"
  note r = run_channel_effect [OF co, where e = e and f = "deleteMessage B []"]
  have f: "findMessage B [] (view_channel w (co_channel co)) = Some p"
    using assms(3) by (simp add: findMessage_def lq_rfind_def snapshot_of_items [OF co])
  have d: "deleteMessage B [] (view_channel w (co_channel co)) = set_flag p Disabled (view_channel w (co_channel co))"
    using f by (simp add: deleteMessage_def)
  have room: "has_room B ok ?w1 c" using assms(2) co by (simp add: has_room_def r d set_flag_def)
  have h: "w_heap ?w1 p = disabled (w_heap w p)" "w_next ?w1 = w_next w" by (simp_all add: r d set_flag_Disabled)
  have "show_action B e userId (AutomodUserMessage a change t) c w = add_new B e c ?m ?w1"
    by (simp add: show_action_def i)
  then show ?thesis
    using message_buffer.add_new_effect(1) [OF assms(1) room, where e = e and m = ?m] h assms(4) by simp
qed

end
