(* ===== verification/Helix_Api.thy ===== *)
theory Helix_Api
  imports Qt_Json Qt_Text
begin

text \<open>
  \<open>providers/twitch/api/Helix.cpp\<close>: the requests to Twitch's HTTP interface and how their answers are read.
  A request is a value; what its answer means is a function to a sum: \<open>Inr\<close> what the success callback is
  called with, \<open>Inl\<close> what the failure callback is called with. \<open>None\<close> is a failed assertion or an index out of range.
\<close>

section \<open>Requests and answers\<close>

datatype request_type = Get | Post | Put | Delete | Patch

record http_request =
  hr_url :: qstring
  hr_query :: "(qstring \<times> qstring) list"
  hr_type :: request_type
  hr_headers :: "(qstring \<times> qstring) list"
  hr_payload :: "qobject option"

text \<open>What the network reports: the JSON object that was read (empty where there is none), or a status.\<close>

datatype http_answer = Answered qobject | Failed int

record helix =
  hx_clientId :: qstring
  hx_oauthToken :: qstring

definition hx_update :: "qstring \<Rightarrow> qstring \<Rightarrow> helix \<Rightarrow> helix" where
  "hx_update clientId oauthToken h = h\<lparr>hx_clientId := clientId, hx_oauthToken := oauthToken\<rparr>"

definition makeRequest :: "helix \<Rightarrow> qstring \<Rightarrow> (qstring \<times> qstring) list \<Rightarrow> http_request" where
  "makeRequest h url urlQuery =
     \<lparr>hr_url = ''https://api.twitch.tv/helix/'' @ url, hr_query = urlQuery, hr_type = Get,
      hr_headers = [(''Accept'', ''application/json''), (''Client-ID'', hx_clientId h), (''Authorization'', ''Bearer '' @ hx_oauthToken h)],
      hr_payload = None\<rparr>"

definition json_header :: "http_request \<Rightarrow> http_request" where
  "json_header r = r\<lparr>hr_headers := hr_headers r @ [(''Content-Type'', ''application/json'')]\<rparr>"

definition text_member :: "qobject \<Rightarrow> qstring \<Rightarrow> qstring" where
  "text_member j k = json_toString [] (json_value j k)"

definition int_member :: "qobject \<Rightarrow> qstring \<Rightarrow> int" where
  "int_member j k = json_toInt 0 (json_value j k)"

definition object_member :: "qobject \<Rightarrow> qstring \<Rightarrow> qobject" where
  "object_member j k = toObject (json_value j k)"

text \<open>The member \<open>data\<close>, where it is an array.\<close>

definition data_array :: "qobject \<Rightarrow> qobject list option" where
  "data_array j = (case json_value j ''data'' of QArray vs \<Rightarrow> Some (map toObject vs) | _ \<Rightarrow> None)"

definition read_list :: "(qobject \<Rightarrow> 'a) \<Rightarrow> http_answer \<Rightarrow> unit + 'a list" where
  "read_list decode a =
     (case a of
        Failed _ \<Rightarrow> Inl ()
      | Answered j \<Rightarrow> (case data_array j of None \<Rightarrow> Inl () | Some ms \<Rightarrow> Inr (map decode ms)))"

text \<open>\<open>data.toArray()[0]\<close>: without a check that there is an element.\<close>

definition read_first :: "'e \<Rightarrow> (int \<Rightarrow> 'e) \<Rightarrow> (qobject \<Rightarrow> 'a) \<Rightarrow> http_answer \<Rightarrow> ('e + 'a) option" where
  "read_first malformed failure decode a =
     (case a of
        Failed status \<Rightarrow> Some (Inl (failure status))
      | Answered j \<Rightarrow>
          (case data_array j of None \<Rightarrow> Some (Inl malformed) | Some [] \<Rightarrow> None | Some (m # _) \<Rightarrow> Some (Inr (decode m))))"

definition read_nothing :: "(int \<Rightarrow> 'e) \<Rightarrow> http_answer \<Rightarrow> 'e + unit" where
  "read_nothing failure a = (case a of Failed status \<Rightarrow> Inl (failure status) | Answered _ \<Rightarrow> Inr ())"

definition first_or_fail :: "unit + 'a list \<Rightarrow> unit + 'a" where
  "first_or_fail r = (case r of Inl _ \<Rightarrow> Inl () | Inr [] \<Rightarrow> Inl () | Inr (x # _) \<Rightarrow> Inr x)"

definition query_items :: "qstring \<Rightarrow> qstring list \<Rightarrow> (qstring \<times> qstring) list" where
  "query_items k vs = map (Pair k) vs"

section \<open>What is read\<close>

record helix_user =
  hu_id :: qstring
  hu_login :: qstring
  hu_displayName :: qstring
  hu_createdAt :: qstring
  hu_description :: qstring
  hu_profileImageUrl :: qstring

definition HelixUser :: "qobject \<Rightarrow> helix_user" where
  "HelixUser j = \<lparr>hu_id = text_member j ''id'', hu_login = text_member j ''login'', hu_displayName = text_member j ''display_name'',
     hu_createdAt = text_member j ''created_at'', hu_description = text_member j ''description'',
     hu_profileImageUrl = text_member j ''profile_image_url''\<rparr>"

record helix_follow =
  hf_fromId :: qstring
  hf_fromName :: qstring
  hf_toId :: qstring
  hf_toName :: qstring
  hf_followedAt :: qstring

definition HelixUsersFollowsRecord :: "qobject \<Rightarrow> helix_follow" where
  "HelixUsersFollowsRecord j = \<lparr>hf_fromId = text_member j ''from_id'', hf_fromName = text_member j ''from_name'',
     hf_toId = text_member j ''to_id'', hf_toName = text_member j ''to_name'', hf_followedAt = text_member j ''followed_at''\<rparr>"

definition HelixUsersFollowsResponse :: "qobject \<Rightarrow> int \<times> helix_follow list" where
  "HelixUsersFollowsResponse j =
     (int_member j ''total'', map (\<lambda>v. HelixUsersFollowsRecord (toObject v)) (toArray (json_value j ''data'')))"

record helix_stream =
  hs_id :: qstring
  hs_userId :: qstring
  hs_userLogin :: qstring
  hs_userName :: qstring
  hs_gameId :: qstring
  hs_gameName :: qstring
  hs_type :: qstring
  hs_title :: qstring
  hs_viewerCount :: int
  hs_startedAt :: qstring
  hs_language :: qstring
  hs_thumbnailUrl :: qstring

definition HelixStream :: "qobject \<Rightarrow> helix_stream" where
  "HelixStream j = \<lparr>hs_id = text_member j ''id'', hs_userId = text_member j ''user_id'', hs_userLogin = text_member j ''user_login'',
     hs_userName = text_member j ''user_name'', hs_gameId = text_member j ''game_id'', hs_gameName = text_member j ''game_name'',
     hs_type = text_member j ''type'', hs_title = text_member j ''title'', hs_viewerCount = int_member j ''viewer_count'',
     hs_startedAt = text_member j ''started_at'', hs_language = text_member j ''language'',
     hs_thumbnailUrl = text_member j ''thumbnail_url''\<rparr>"

record helix_game =
  hg_id :: qstring
  hg_name :: qstring
  hg_boxArtUrl :: qstring

definition HelixGame :: "qobject \<Rightarrow> helix_game" where
  "HelixGame j = \<lparr>hg_id = text_member j ''id'', hg_name = text_member j ''name'', hg_boxArtUrl = text_member j ''box_art_url''\<rparr>"

record helix_tag =
  ht_id :: qstring
  ht_isAuto :: bool
  ht_englishName :: qstring
  ht_englishDescription :: qstring

definition HelixTag :: "qobject \<Rightarrow> helix_tag" where
  "HelixTag j = \<lparr>ht_id = text_member j ''tag_id'', ht_isAuto = json_toBool False (json_value j ''is_auto''),
     ht_englishName = text_member (object_member j ''localization_names'') ''en-us'',
     ht_englishDescription = text_member (object_member j ''localization_descriptions'') ''en-us''\<rparr>"

definition HelixClip :: "qobject \<Rightarrow> qstring \<times> qstring" where
  "HelixClip j = (text_member j ''id'', text_member j ''edit_url'')"

record helix_channel =
  hc_userId :: qstring
  hc_name :: qstring
  hc_language :: qstring
  hc_gameId :: qstring
  hc_gameName :: qstring
  hc_title :: qstring

definition HelixChannel :: "qobject \<Rightarrow> helix_channel" where
  "HelixChannel j = \<lparr>hc_userId = text_member j ''broadcaster_id'', hc_name = text_member j ''broadcaster_name'',
     hc_language = text_member j ''broadcaster_language'', hc_gameId = text_member j ''game_id'',
     hc_gameName = text_member j ''game_name'', hc_title = text_member j ''title''\<rparr>"

record helix_marker =
  hm_createdAt :: qstring
  hm_description :: qstring
  hm_id :: qstring
  hm_positionSeconds :: int

definition HelixStreamMarker :: "qobject \<Rightarrow> helix_marker" where
  "HelixStreamMarker j = \<lparr>hm_createdAt = text_member j ''created_at'', hm_description = text_member j ''description'',
     hm_id = text_member j ''id'', hm_positionSeconds = int_member j ''position_seconds''\<rparr>"

record helix_block =
  hb_userId :: qstring
  hb_userName :: qstring
  hb_displayName :: qstring

definition HelixBlock :: "qobject \<Rightarrow> helix_block" where
  "HelixBlock j = \<lparr>hb_userId = text_member j ''user_id'', hb_userName = text_member j ''user_login'',
     hb_displayName = text_member j ''display_name''\<rparr>"

record cheermote_image =
  ci_url1x :: qstring
  ci_url2x :: qstring
  ci_url4x :: qstring

definition HelixCheermoteImage :: "qobject \<Rightarrow> cheermote_image" where
  "HelixCheermoteImage j = \<lparr>ci_url1x = text_member j ''1'', ci_url2x = text_member j ''2'', ci_url4x = text_member j ''4''\<rparr>"

record cheermote_tier =
  ct_id :: qstring
  ct_color :: qstring
  ct_minBits :: int
  ct_darkAnimated :: cheermote_image
  ct_darkStatic :: cheermote_image
  ct_lightAnimated :: cheermote_image
  ct_lightStatic :: cheermote_image

definition HelixCheermoteTier :: "qobject \<Rightarrow> cheermote_tier" where
  "HelixCheermoteTier j =
     (let img = (\<lambda>theme kind. HelixCheermoteImage (object_member (object_member (object_member j ''images'') theme) kind))
      in \<lparr>ct_id = text_member j ''id'', ct_color = text_member j ''color'', ct_minBits = int_member j ''min_bits'',
          ct_darkAnimated = img ''dark'' ''animated'', ct_darkStatic = img ''dark'' ''static'',
          ct_lightAnimated = img ''light'' ''animated'', ct_lightStatic = img ''light'' ''static''\<rparr>)"

definition HelixCheermoteSet :: "qobject \<Rightarrow> qstring \<times> qstring \<times> cheermote_tier list" where
  "HelixCheermoteSet j = (text_member j ''prefix'', text_member j ''type'',
     map (\<lambda>v. HelixCheermoteTier (toObject v)) (toArray (json_value j ''tiers'')))"

record emote_set_data =
  es_setId :: qstring
  es_ownerId :: qstring
  es_emoteType :: qstring

definition HelixEmoteSetData :: "qobject \<Rightarrow> emote_set_data" where
  "HelixEmoteSetData j = \<lparr>es_setId = text_member j ''emote_set_id'', es_ownerId = text_member j ''owner_id'',
     es_emoteType = text_member j ''emote_type''\<rparr>"

record channel_emote =
  cem_emoteId :: qstring
  cem_name :: qstring
  cem_type :: qstring
  cem_setId :: qstring
  cem_url :: qstring

text \<open>\<open>QString::replace\<close> of a text that is not empty, and the address of an emote.\<close>

function replace_all :: "qstring \<Rightarrow> qstring \<Rightarrow> qstring \<Rightarrow> qstring" where
  "replace_all before after s =
     (if before = [] \<or> s = [] then s
      else if prefix before s then after @ replace_all before after (drop (length before) s)
      else hd s # replace_all before after (tl s))"
  by pat_completeness auto
termination
  by (relation "measure (\<lambda>(_, _, s). length s)") auto

declare replace_all.simps [simp del]

definition TWITCH_EMOTE_TEMPLATE :: qstring where
  "TWITCH_EMOTE_TEMPLATE = ''https://static-cdn.jtvnw.net/emoticons/v2/{id}/default/dark/{scale}''"

definition getEmoteLink :: "qstring \<Rightarrow> qstring \<Rightarrow> qstring" where
  "getEmoteLink emoteId scale = replace_all ''{scale}'' scale (replace_all ''{id}'' emoteId TWITCH_EMOTE_TEMPLATE)"

definition HelixChannelEmote :: "qobject \<Rightarrow> channel_emote" where
  "HelixChannelEmote j =
     \<lparr>cem_emoteId = text_member j ''id'', cem_name = text_member j ''name'', cem_type = text_member j ''emote_type'',
      cem_setId = text_member j ''emote_set_id'', cem_url = getEmoteLink (text_member j ''id'') ''3.0''\<rparr>"

section \<open>The requests\<close>

definition fetchUsers :: "helix \<Rightarrow> qstring list \<Rightarrow> qstring list \<Rightarrow> http_request \<times> (http_answer \<Rightarrow> unit + helix_user list)" where
  "fetchUsers h userIds userLogins =
     (makeRequest h ''users'' (query_items ''id'' userIds @ query_items ''login'' userLogins), read_list HelixUser)"

definition getUserByName :: "helix \<Rightarrow> qstring \<Rightarrow> http_request \<times> (http_answer \<Rightarrow> unit + helix_user)" where
  "getUserByName h userName = (case fetchUsers h [] [userName] of (r, f) \<Rightarrow> (r, first_or_fail \<circ> f))"

definition getUserById :: "helix \<Rightarrow> qstring \<Rightarrow> http_request \<times> (http_answer \<Rightarrow> unit + helix_user)" where
  "getUserById h userId = (case fetchUsers h [userId] [] of (r, f) \<Rightarrow> (r, first_or_fail \<circ> f))"

definition fetchUsersFollows ::
  "helix \<Rightarrow> qstring \<Rightarrow> qstring \<Rightarrow> (http_request \<times> (http_answer \<Rightarrow> unit + (int \<times> helix_follow list))) option" where
  "fetchUsersFollows h fromId toId =
     (if fromId = [] \<and> toId = [] then None
      else Some (makeRequest h ''users/follows'' ((if fromId \<noteq> [] then [(''from_id'', fromId)] else []) @
             (if toId \<noteq> [] then [(''to_id'', toId)] else [])),
           \<lambda>a. case a of Failed _ \<Rightarrow> Inl () | Answered j \<Rightarrow> if j = [] then Inl () else Inr (HelixUsersFollowsResponse j)))"

definition getUserFollowers :: "helix \<Rightarrow> qstring \<Rightarrow> (http_request \<times> (http_answer \<Rightarrow> unit + (int \<times> helix_follow list))) option" where
  "getUserFollowers h userId = fetchUsersFollows h [] userId"

definition fetchStreams :: "helix \<Rightarrow> qstring list \<Rightarrow> qstring list \<Rightarrow> http_request \<times> (http_answer \<Rightarrow> unit + helix_stream list)" where
  "fetchStreams h userIds userLogins =
     (makeRequest h ''streams'' (query_items ''user_id'' userIds @ query_items ''user_login'' userLogins), read_list HelixStream)"

text \<open>A user who is not live has no stream: the callback gets \<open>None\<close> (\<open>false\<close> in the code).\<close>

definition one_stream :: "unit + helix_stream list \<Rightarrow> unit + helix_stream option" where
  "one_stream r = (case r of Inl _ \<Rightarrow> Inl () | Inr [] \<Rightarrow> Inr None | Inr (s # _) \<Rightarrow> Inr (Some s))"

definition getStreamById :: "helix \<Rightarrow> qstring \<Rightarrow> http_request \<times> (http_answer \<Rightarrow> unit + helix_stream option)" where
  "getStreamById h userId = (case fetchStreams h [userId] [] of (r, f) \<Rightarrow> (r, one_stream \<circ> f))"

definition getStreamByName :: "helix \<Rightarrow> qstring \<Rightarrow> http_request \<times> (http_answer \<Rightarrow> unit + helix_stream option)" where
  "getStreamByName h userName = (case fetchStreams h [] [userName] of (r, f) \<Rightarrow> (r, one_stream \<circ> f))"

definition fetchGames :: "helix \<Rightarrow> qstring list \<Rightarrow> qstring list \<Rightarrow> (http_request \<times> (http_answer \<Rightarrow> unit + helix_game list)) option" where
  "fetchGames h gameIds gameNames =
     (if length gameIds + length gameNames = 0 then None
      else Some (makeRequest h ''games'' (query_items ''id'' gameIds @ query_items ''name'' gameNames), read_list HelixGame))"

definition getGameById :: "helix \<Rightarrow> qstring \<Rightarrow> (http_request \<times> (http_answer \<Rightarrow> unit + helix_game)) option" where
  "getGameById h gameId = map_option (\<lambda>(r, f). (r, first_or_fail \<circ> f)) (fetchGames h [gameId] [])"

definition hx_searchGames :: "helix \<Rightarrow> qstring \<Rightarrow> http_request \<times> (http_answer \<Rightarrow> unit + helix_game list)" where
  "hx_searchGames h gameName = (makeRequest h ''search/categories'' [(''query'', gameName)], read_list HelixGame)"

definition updateStreamTags :: "helix \<Rightarrow> qstring \<Rightarrow> qstring list \<Rightarrow> http_request \<times> (http_answer \<Rightarrow> unit + unit)" where
  "updateStreamTags h broadcasterId tags =
     (json_header (makeRequest h ''streams/tags'' [(''broadcaster_id'', broadcasterId)])
        \<lparr>hr_type := Put, hr_payload := Some (json_insert ''tag_ids'' (QArray (map QString tags)) [])\<rparr>, read_nothing (\<lambda>_. ()))"

definition getStreamTags :: "helix \<Rightarrow> qstring \<Rightarrow> http_request \<times> (http_answer \<Rightarrow> unit + helix_tag list)" where
  "getStreamTags h broadcasterId = (makeRequest h ''streams/tags'' [(''broadcaster_id'', broadcasterId)], read_list HelixTag)"

text \<open>A page of tags with the cursor of the next one.\<close>

definition fetchStreamTags :: "helix \<Rightarrow> qstring \<Rightarrow> http_request \<times> (http_answer \<Rightarrow> unit + (helix_tag list \<times> qstring))" where
  "fetchStreamTags h after =
     (makeRequest h ''tags/streams'' ((if after \<noteq> [] then [(''after'', after)] else []) @ [(''first'', ''100'')]),
      \<lambda>a. case a of
             Failed _ \<Rightarrow> Inl ()
           | Answered j \<Rightarrow>
               (case data_array j of
                  None \<Rightarrow> Inl ()
                | Some ms \<Rightarrow> Inr (map HelixTag ms, text_member (object_member j ''pagination'') ''cursor'')))"

datatype clip_error = ClipUnknown | ClipsOff | ClipNotAuthenticated

definition hx_createClip :: "helix \<Rightarrow> qstring \<Rightarrow> http_request \<times> (http_answer \<Rightarrow> (clip_error + (qstring \<times> qstring)) option)" where
  "hx_createClip h channelId =
     (json_header (makeRequest h ''clips'' [(''broadcaster_id'', channelId)])\<lparr>hr_type := Post\<rparr>,
      read_first ClipUnknown
        (\<lambda>status. if status = 503 then ClipsOff else if status = 401 then ClipNotAuthenticated else ClipUnknown) HelixClip)"

definition getChannel :: "helix \<Rightarrow> qstring \<Rightarrow> http_request \<times> (http_answer \<Rightarrow> (unit + helix_channel) option)" where
  "getChannel h broadcasterId =
     (makeRequest h ''channels'' [(''broadcaster_id'', broadcasterId)], read_first () (\<lambda>_. ()) HelixChannel)"

datatype marker_error = MarkerErrorUnknown | MarkerErrorNotAuthorized | MarkerErrorNotAuthenticated

definition createStreamMarker :: "helix \<Rightarrow> qstring \<Rightarrow> qstring \<Rightarrow> http_request \<times> (http_answer \<Rightarrow> (marker_error + helix_marker) option)" where
  "createStreamMarker h broadcasterId description =
     ((json_header (makeRequest h ''streams/markers'' []))
        \<lparr>hr_type := Post,
         hr_payload := Some (json_insert ''user_id'' (QString broadcasterId)
           (if description \<noteq> [] then json_insert ''description'' (QString description) [] else []))\<rparr>,
      read_first MarkerErrorUnknown
        (\<lambda>status. if status = 403 then MarkerErrorNotAuthorized else if status = 401 then MarkerErrorNotAuthenticated
          else MarkerErrorUnknown) HelixStreamMarker)"

definition hx_loadBlocks :: "helix \<Rightarrow> qstring \<Rightarrow> http_request \<times> (http_answer \<Rightarrow> unit + helix_block list)" where
  "hx_loadBlocks h userId =
     (makeRequest h ''users/blocks'' [(''broadcaster_id'', userId), (''first'', ''100'')], read_list HelixBlock)"

definition hx_blockUser :: "helix \<Rightarrow> qstring \<Rightarrow> http_request \<times> (http_answer \<Rightarrow> unit + unit)" where
  "hx_blockUser h targetUserId =
     ((makeRequest h ''users/blocks'' [(''target_user_id'', targetUserId)])\<lparr>hr_type := Put\<rparr>, read_nothing (\<lambda>_. ()))"

definition hx_unblockUser :: "helix \<Rightarrow> qstring \<Rightarrow> http_request \<times> (http_answer \<Rightarrow> unit + unit)" where
  "hx_unblockUser h targetUserId =
     ((makeRequest h ''users/blocks'' [(''target_user_id'', targetUserId)])\<lparr>hr_type := Delete\<rparr>, read_nothing (\<lambda>_. ()))"

text \<open>Without anything to change no request is made and no callback is called.\<close>

definition updateChannel ::
  "helix \<Rightarrow> qstring \<Rightarrow> qstring \<Rightarrow> qstring \<Rightarrow> qstring \<Rightarrow> (http_request \<times> (http_answer \<Rightarrow> unit + unit)) option" where
  "updateChannel h broadcasterId gameId language title =
     (let member = (\<lambda>k v obj. if v \<noteq> [] then json_insert k (QString v) obj else obj);
          obj = member ''title'' title (member ''broadcaster_language'' language (member ''game_id'' gameId []))
      in if title = [] \<and> gameId = [] \<and> language = [] then None
         else Some ((json_header (makeRequest h ''channels'' [(''broadcaster_id'', broadcasterId)]))
                \<lparr>hr_type := Patch, hr_payload := Some obj\<rparr>, read_nothing (\<lambda>_. ())))"

datatype automod_error = AutomodUnknown | MessageAlreadyProcessed | AutomodNotAuthenticated | AutomodNotAuthorized | MessageNotFound

definition manageAutoModMessages :: "helix \<Rightarrow> qstring \<Rightarrow> qstring \<Rightarrow> qstring \<Rightarrow> http_request \<times> (http_answer \<Rightarrow> automod_error + unit)" where
  "manageAutoModMessages h userID msgID action =
     ((json_header (makeRequest h ''moderation/automod/message'' []))
        \<lparr>hr_type := Post,
         hr_payload := Some (json_insert ''action'' (QString action) (json_insert ''msg_id'' (QString msgID)
           (json_insert ''user_id'' (QString userID) [])))\<rparr>,
      read_nothing (\<lambda>status.
        if status = 400 then MessageAlreadyProcessed else if status = 401 then AutomodNotAuthenticated
        else if status = 403 then AutomodNotAuthorized else if status = 404 then MessageNotFound else AutomodUnknown))"

definition getCheermotes :: "helix \<Rightarrow> qstring \<Rightarrow> http_request \<times> (http_answer \<Rightarrow> unit + (qstring \<times> qstring \<times> cheermote_tier list) list)" where
  "getCheermotes h broadcasterId =
     (makeRequest h ''bits/cheermotes'' [(''broadcaster_id'', broadcasterId)], read_list HelixCheermoteSet)"

definition getEmoteSetData :: "helix \<Rightarrow> qstring \<Rightarrow> http_request \<times> (http_answer \<Rightarrow> unit + emote_set_data)" where
  "getEmoteSetData h emoteSetId =
     (makeRequest h ''chat/emotes/set'' [(''emote_set_id'', emoteSetId)], first_or_fail \<circ> read_list HelixEmoteSetData)"

definition getChannelEmotes :: "helix \<Rightarrow> qstring \<Rightarrow> http_request \<times> (http_answer \<Rightarrow> unit + channel_emote list)" where
  "getChannelEmotes h broadcasterId =
     (makeRequest h ''chat/emotes'' [(''broadcaster_id'', broadcasterId)], read_list HelixChannelEmote)"

text \<open>An answer without an element, which Twitch gives for an id it does not know, is an index out of range.\<close>

lemma empty_data_out_of_range:
  "snd (getChannel h i) (Answered [(''data'', QArray [])]) = None"
  "snd (hx_createClip h i) (Answered [(''data'', QArray [])]) = None"
  "snd (createStreamMarker h i d) (Answered [(''data'', QArray [])]) = None"
  by (simp_all add: getChannel_def hx_createClip_def createStreamMarker_def read_first_def data_array_def json_value_def)

end
