(* ===== verification/Twitch_Accounts.thy ===== *)
theory Twitch_Accounts
  imports Helix_Api Text_Utils Category_Models Hotkeys_Correct "HOL-Library.List_Lexorder" "HOL-Library.Char_ord"
begin

text \<open>
  \<open>providers/twitch/TwitchAccount.cpp\<close> (blocked users, emote sets, answers to AutoMod), \<open>TwitchAccountManager.cpp\<close>,
  \<open>TwitchEmotes.cpp\<close>, \<open>TwitchBadges.cpp\<close> and \<open>IvrApi.cpp\<close>. Requests are effects, their answers operations of their own.
\<close>

section \<open>Emotes\<close>

text \<open>The codes contain backslashes, which are written as carets here.\<close>

definition escapes :: "qstring \<Rightarrow> qstring" where
  "escapes s = map (\<lambda>c. if c = CHR ''^'' then CHR 0x5C else c) s"

definition emoteNameReplacements :: "(qstring \<times> qstring) list" where
  "emoteNameReplacements =
     [(escapes ''[oO](_|^.)[oO]'', ''O_o''),
      (escapes ''^&gt^;^('', ''&gt;(''),
      (escapes ''^&lt^;3'', ''&lt;3''),
      (escapes ''^:-?(o|O)'', '':O''),
      (escapes ''^:-?(p|P)'', '':P''),
      (escapes ''^:-?[^^/]'', '':/''),
      (escapes ''^:-?[z|Z|^|]'', '':Z''),
      (escapes ''^:-?^('', '':(''),
      (escapes ''^:-?^)'', '':)''),
      (escapes ''^:-?D'', '':D''),
      (escapes ''^;-?(p|P)'', '';P''),
      (escapes ''^;-?^)'', '';)''),
      (escapes ''R-?^)'', ''R)''),
      (escapes ''B-?^)'', ''B)'')]"

definition cleanUpEmoteCode :: "qstring \<Rightarrow> qstring" where
  "cleanUpEmoteCode dirtyEmoteCode =
     (case map_of emoteNameReplacements dirtyEmoteCode of Some c \<Rightarrow> c | None \<Rightarrow> dirtyEmoteCode)"

text \<open>An emote as it is made for an id: its name, its pictures with their scales, and its page.\<close>

record twitch_emote =
  te_name :: qstring
  te_images :: "(qstring \<times> rat) list"
  te_url :: qstring

definition new_emote :: "qstring \<Rightarrow> qstring \<Rightarrow> twitch_emote" where
  "new_emote emoteId code =
     \<lparr>te_name = code,
      te_images = [(getEmoteLink emoteId ''1.0'', 1), (getEmoteLink emoteId ''2.0'', 1 / 2), (getEmoteLink emoteId ''3.0'', 286 / 1000)],
      te_url = qarg ''https://emotes.raccatta.cc/twitch/emote/%1'' emoteId\<rparr>"

text \<open>The cache holds weak references: \<open>alive\<close> says which of its emotes still exist.\<close>

definition getOrCreateEmote :: "(qstring \<Rightarrow> bool) \<Rightarrow> qstring \<Rightarrow> qstring \<Rightarrow> (qstring \<times> twitch_emote) list \<Rightarrow> twitch_emote \<times> (qstring \<times> twitch_emote) list" where
  "getOrCreateEmote alive emoteId emoteName cache =
     (case (if alive emoteId then map_of cache emoteId else None) of
        Some e \<Rightarrow> (e, cache)
      | None \<Rightarrow>
          (let e = new_emote emoteId (cleanUpEmoteCode emoteName)
           in (e, (emoteId, e) # filter (\<lambda>(k, _). k \<noteq> emoteId) cache)))"

section \<open>An account\<close>

record blocked_user =
  bu_id :: qstring
  bu_name :: qstring
  bu_displayName :: qstring

record emote_set =
  ems_key :: qstring
  ems_channelName :: qstring
  ems_text :: qstring
  ems_local :: bool
  ems_emotes :: "(qstring \<times> qstring) list"

record tw_account =
  ta_userName :: qstring
  ta_userId :: qstring
  ta_oauthClient :: qstring
  ta_oauthToken :: qstring
  ta_isAnon :: bool
  ta_userstateEmoteSets :: "qstring list"
  ta_ignores :: "(qstring \<times> blocked_user) list"
  ta_ignoresUserIds :: "qstring list"
  ta_emoteSets :: "emote_set list"
  ta_emotes :: "(qstring \<times> qstring) list"
  ta_localEmotes :: "(qstring \<times> (qstring \<times> qstring) list) list"

definition ANONYMOUS_USERNAME :: qstring where
  "ANONYMOUS_USERNAME = ''justinfan64537''"

definition TwitchAccount :: "qstring \<Rightarrow> qstring \<Rightarrow> qstring \<Rightarrow> qstring \<Rightarrow> tw_account" where
  "TwitchAccount username oauthToken oauthClient userID =
     \<lparr>ta_userName = username, ta_userId = userID, ta_oauthClient = oauthClient, ta_oauthToken = oauthToken,
      ta_isAnon = (username = ANONYMOUS_USERNAME), ta_userstateEmoteSets = [], ta_ignores = [], ta_ignoresUserIds = [],
      ta_emoteSets = [], ta_emotes = [], ta_localEmotes = []\<rparr>"

definition setOAuthClient :: "qstring \<Rightarrow> tw_account \<Rightarrow> bool \<times> tw_account" where
  "setOAuthClient newClientID a = (if ta_oauthClient a = newClientID then (False, a) else (True, a\<lparr>ta_oauthClient := newClientID\<rparr>))"

definition setOAuthToken :: "qstring \<Rightarrow> tw_account \<Rightarrow> bool \<times> tw_account" where
  "setOAuthToken newOAuthToken a =
     (if ta_oauthToken a = newOAuthToken then (False, a) else (True, a\<lparr>ta_oauthToken := newOAuthToken\<rparr>))"

subsection \<open>Blocked users\<close>

text \<open>A \<open>std::set\<close> ordered by the id: an element with a known id is not inserted again.\<close>

definition ignores_insert :: "blocked_user \<Rightarrow> tw_account \<Rightarrow> tw_account" where
  "ignores_insert u a =
     a\<lparr>ta_ignores := (if map_of (ta_ignores a) (bu_id u) = None then qmap_insert (bu_id u) u (ta_ignores a) else ta_ignores a),
       ta_ignoresUserIds := List.insert (bu_id u) (ta_ignoresUserIds a)\<rparr>"

definition user_of_block :: "helix_block \<Rightarrow> blocked_user" where
  "user_of_block b = \<lparr>bu_id = helix_block.hb_userId b, bu_name = helix_block.hb_userName b, bu_displayName = helix_block.hb_displayName b\<rparr>"

definition blocks_loaded :: "helix_block list \<Rightarrow> tw_account \<Rightarrow> tw_account" where
  "blocks_loaded bs a = fold (\<lambda>b. ignores_insert (user_of_block b)) bs (a\<lparr>ta_ignores := [], ta_ignoresUserIds := []\<rparr>)"

definition user_blocked :: "qstring \<Rightarrow> tw_account \<Rightarrow> tw_account" where
  "user_blocked userId a = ignores_insert \<lparr>bu_id = userId, bu_name = [], bu_displayName = []\<rparr> a"

definition user_unblocked :: "qstring \<Rightarrow> tw_account \<Rightarrow> tw_account" where
  "user_unblocked userId a =
     a\<lparr>ta_ignores := qmap_remove userId (ta_ignores a), ta_ignoresUserIds := filter (\<lambda>i. i \<noteq> userId) (ta_ignoresUserIds a)\<rparr>"

subsection \<open>Emote sets\<close>

definition acc_setUserstateEmoteSets :: "qstring list \<Rightarrow> tw_account \<Rightarrow> bool \<times> tw_account" where
  "acc_setUserstateEmoteSets newEmoteSets a =
     (if ta_userstateEmoteSets a = sort newEmoteSets then (False, a)
      else (True, a\<lparr>ta_userstateEmoteSets := sort newEmoteSets\<rparr>))"

definition join_commas :: "qstring list \<Rightarrow> qstring" where
  "join_commas ws = join_with (CHR '','') ws"

definition missing_sets :: "tw_account \<Rightarrow> qstring list" where
  "missing_sets a = filter (\<lambda>k. k \<notin> set (map ems_key (ta_emoteSets a))) (ta_userstateEmoteSets a)"

text \<open>The lists of keys that are requested, one request for a hundred sets.\<close>

definition loadUserstateEmotes :: "tw_account \<Rightarrow> qstring list list" where
  "loadUserstateEmotes a =
     (if ta_userstateEmoteSets a = [] then [] else if missing_sets a = [] then [] else splitListIntoBatches 100 (missing_sets a))"

definition loadEmotes :: "tw_account \<Rightarrow> qstring list list \<times> tw_account" where
  "loadEmotes a =
     (if ta_oauthClient a = [] \<or> ta_oauthToken a = [] then ([], a)
      else let b = a\<lparr>ta_emoteSets := [], ta_emotes := []\<rparr> in (loadUserstateEmotes b, b))"

record ivr_emote_set =
  iv_setId :: qstring
  iv_displayName :: qstring
  iv_login :: qstring
  iv_channelId :: qstring
  iv_tier :: qstring
  iv_emotes :: "qobject list"

definition IvrEmoteSet :: "qobject \<Rightarrow> ivr_emote_set" where
  "IvrEmoteSet j = \<lparr>iv_setId = text_member j ''setID'', iv_displayName = text_member j ''channelName'', iv_login = text_member j ''channelLogin'',
     iv_channelId = text_member j ''channelID'', iv_tier = text_member j ''tier'',
     iv_emotes = map toObject (toArray (json_value j ''emoteList''))\<rparr>"

record ivr_emote =
  ie_code :: qstring
  ie_id :: qstring
  ie_setId :: qstring
  ie_url :: qstring
  ie_emoteType :: qstring
  ie_imageType :: qstring

definition IvrEmote :: "qobject \<Rightarrow> ivr_emote" where
  "IvrEmote j = \<lparr>ie_code = text_member j ''code'', ie_id = text_member j ''id'', ie_setId = text_member j ''setID'',
     ie_url = getEmoteLink (text_member j ''id'') ''3.0'', ie_emoteType = text_member j ''type'', ie_imageType = text_member j ''assetType''\<rparr>"

text \<open>\<open>emplace\<close> keeps the element that is there.\<close>

definition emplace :: "'k \<Rightarrow> 'v \<Rightarrow> ('k \<times> 'v) list \<Rightarrow> ('k \<times> 'v) list" where
  "emplace k v m = (if map_of m k = None then m @ [(k, v)] else m)"

definition emplace_local :: "qstring \<Rightarrow> qstring \<Rightarrow> qstring \<Rightarrow> (qstring \<times> (qstring \<times> qstring) list) list \<Rightarrow> (qstring \<times> (qstring \<times> qstring) list) list" where
  "emplace_local channelId code emote m =
     map (\<lambda>(k, es). (k, if k = channelId then emplace code emote es else es)) (emplace channelId [] m)"

definition add_ivr_emote :: "qstring \<Rightarrow> qobject \<Rightarrow> emote_set \<times> tw_account \<Rightarrow> emote_set \<times> tw_account" where
  "add_ivr_emote channelId j = (\<lambda>(es, a).
     let e = IvrEmote j; code = cleanUpEmoteCode (ie_code e); es1 = es\<lparr>ems_emotes := ems_emotes es @ [(ie_id e, code)]\<rparr>
     in if ie_emoteType e = ''FOLLOWER''
        then (es1\<lparr>ems_local := True\<rparr>, a\<lparr>ta_localEmotes := emplace_local channelId code (ie_id e) (ta_localEmotes a)\<rparr>)
        else (es1, a\<lparr>ta_emotes := emplace code (ie_id e) (ta_emotes a)\<rparr>))"

definition add_ivr_set :: "qobject \<Rightarrow> tw_account \<Rightarrow> tw_account" where
  "add_ivr_set j a =
     (let s = IvrEmoteSet j
      in if iv_setId s \<in> set (map ems_key (ta_emoteSets a)) then a
         else (case fold (add_ivr_emote (iv_channelId s)) (iv_emotes s)
                     (\<lparr>ems_key = iv_setId s, ems_channelName = iv_login s, ems_text = iv_displayName s, ems_local = False, ems_emotes = []\<rparr>, a) of
                 (es, b) \<Rightarrow> b\<lparr>ta_emoteSets := ta_emoteSets b @ [es\<lparr>ems_emotes := sort_key snd (ems_emotes es)\<rparr>]\<rparr>))"

text \<open>The answer to one request.\<close>

definition emoteSetsFetched :: "qobject list \<Rightarrow> tw_account \<Rightarrow> tw_account" where
  "emoteSetsFetched js a = fold add_ivr_set js a"

subsection \<open>Requests to the IVR interface\<close>

definition ivr_makeRequest :: "qstring \<Rightarrow> (qstring \<times> qstring) list \<Rightarrow> http_request" where
  "ivr_makeRequest url urlQuery = \<lparr>hr_url = ''https://api.ivr.fi/'' @ url, hr_query = urlQuery, hr_type = Get,
     hr_headers = [(''Accept'', ''application/json'')], hr_payload = None\<rparr>"

record ivr_subage =
  is_isSubHidden :: bool
  is_isSubbed :: bool
  is_subTier :: qstring
  is_totalSubMonths :: int
  is_followingSince :: qstring

definition IvrSubage :: "qobject \<Rightarrow> ivr_subage" where
  "IvrSubage j = \<lparr>is_isSubHidden = json_toBool False (json_value j ''hidden''), is_isSubbed = json_toBool False (json_value j ''subscribed''),
     is_subTier = text_member (object_member j ''meta'') ''tier'',
     is_totalSubMonths = int_member (object_member j ''cumulative'') ''months'', is_followingSince = text_member j ''followedAt''\<rparr>"

text \<open>\<open>None\<close>: a failed assertion.\<close>

definition getSubage :: "qstring \<Rightarrow> qstring \<Rightarrow> (http_request \<times> (http_answer \<Rightarrow> unit + ivr_subage)) option" where
  "getSubage userName chanName =
     (if userName = [] \<or> chanName = [] then None
      else Some (ivr_makeRequest (qarg (qarg ''twitch/subage/%1/%2'' userName) chanName) [],
                 \<lambda>a. case a of Answered j \<Rightarrow> Inr (IvrSubage j) | Failed _ \<Rightarrow> Inl ()))"

definition getBulkEmoteSets :: "qstring \<Rightarrow> http_request" where
  "getBulkEmoteSets emoteSetList = ivr_makeRequest ''v2/twitch/emotes/sets'' [(''set_id'', emoteSetList)]"

definition emote_requests :: "tw_account \<Rightarrow> http_request list" where
  "emote_requests a = map (\<lambda>b. getBulkEmoteSets (join_commas b)) (loadUserstateEmotes a)"

subsection \<open>The owner of an emote set\<close>

text \<open>\<open>statics\<close>: the sets that are known. What happens after the data of the set came: the set, and the id of the user to ask for.\<close>

definition static_set :: "(qstring \<times> qstring \<times> qstring) list \<Rightarrow> emote_set \<Rightarrow> emote_set option" where
  "static_set statics es =
     (case map_of statics (ems_key es) of None \<Rightarrow> None
      | Some (chanName, text') \<Rightarrow> Some (es\<lparr>ems_channelName := chanName, ems_text := text'\<rparr>))"

definition emoteSetDataLoaded :: "emote_set_data \<Rightarrow> emote_set \<Rightarrow> emote_set \<times> qstring option" where
  "emoteSetDataLoaded d es =
     (let es1 = (if es_emoteType d = ''follower'' then es\<lparr>ems_local := True\<rparr> else es)
      in if es_ownerId d = [] \<or> es_setId d \<noteq> ems_key es1
         then (es1\<lparr>ems_channelName := ''twitch'', ems_text := ''Twitch''\<rparr>, None)
         else if es_ownerId d = ''0'' then (es1\<lparr>ems_text := ''Twitch Global''\<rparr>, None)
         else (es1, Some (es_ownerId d)))"

definition ownerLoaded :: "helix_user \<Rightarrow> emote_set \<Rightarrow> emote_set" where
  "ownerLoaded u es = es\<lparr>ems_channelName := hu_login u, ems_text := hu_displayName u\<rparr>"

subsection \<open>AutoMod\<close>

definition automod_error_text :: "automod_error \<Rightarrow> qstring" where
  "automod_error_text err =
     (case err of
        MessageAlreadyProcessed \<Rightarrow> ''message has already been processed.''
      | AutomodNotAuthenticated \<Rightarrow> ''you need to re-authenticate.''
      | AutomodNotAuthorized \<Rightarrow> ''you don't have permission to perform that action''
      | MessageNotFound \<Rightarrow> ''target message not found.''
      | AutomodUnknown \<Rightarrow> ''an unknown error occured.'')"

text \<open>The request, and the text that is shown where it fails.\<close>

definition autoModAllow :: "helix \<Rightarrow> qstring \<Rightarrow> tw_account \<Rightarrow> http_request \<times> (http_answer \<Rightarrow> qstring option)" where
  "autoModAllow h msgID a =
     (case manageAutoModMessages h (ta_userId a) msgID ''ALLOW'' of (r, f) \<Rightarrow>
        (r, \<lambda>x. case f x of Inr _ \<Rightarrow> None | Inl err \<Rightarrow> Some (''Failed to allow AutoMod message - '' @ automod_error_text err)))"

definition autoModDeny :: "helix \<Rightarrow> qstring \<Rightarrow> tw_account \<Rightarrow> http_request \<times> (http_answer \<Rightarrow> qstring option)" where
  "autoModDeny h msgID a =
     (case manageAutoModMessages h (ta_userId a) msgID ''DENY'' of (r, f) \<Rightarrow>
        (r, \<lambda>x. case f x of Inr _ \<Rightarrow> None | Inl err \<Rightarrow> Some (''Failed to deny AutoMod message - '' @ automod_error_text err)))"

section \<open>The accounts\<close>

text \<open>
  Accounts are objects that are shared: the list and the current user name them by number, 0 is the anonymous
  user. \<open>same\<close> is comparison without case.
\<close>

datatype account_effect =
    HelixUpdate qstring qstring
  | CurrentUserChanged
  | LoadBlocks qstring
  | UserListUpdated
  | RemoveSetting qstring

record account_manager =
  am_objects :: "nat \<Rightarrow> tw_account"
  am_next :: nat
  am_accounts :: "nat signal_vector"
  am_current :: "nat option"
  am_currentUsername :: qstring
  am_effects :: "account_effect list"

definition TwitchAccountManager :: account_manager where
  "TwitchAccountManager = \<lparr>am_objects = (\<lambda>_. TwitchAccount ANONYMOUS_USERNAME [] [] []), am_next = 1, am_accounts = SignalVector,
     am_current = None, am_currentUsername = [], am_effects = []\<rparr>"

definition am_emit :: "account_effect list \<Rightarrow> account_manager \<Rightarrow> account_manager" where
  "am_emit es s = s\<lparr>am_effects := am_effects s @ es\<rparr>"

definition getCurrent :: "account_manager \<Rightarrow> nat" where
  "getCurrent s = (case am_current s of None \<Rightarrow> 0 | Some i \<Rightarrow> i)"

definition am_userName :: "account_manager \<Rightarrow> nat \<Rightarrow> qstring" where
  "am_userName s i = ta_userName (am_objects s i)"

text \<open>The signal, with the connected function that loads the blocked users.\<close>

definition currentUserChanged :: "account_manager \<Rightarrow> account_manager" where
  "currentUserChanged s = am_emit [CurrentUserChanged, LoadBlocks (ta_userId (am_objects s (getCurrent s)))] s"

definition getUsernames :: "account_manager \<Rightarrow> qstring list" where
  "getUsernames s = map (am_userName s) (sv_items (am_accounts s))"

definition findUserByUsername :: "(qstring \<Rightarrow> qstring \<Rightarrow> bool) \<Rightarrow> qstring \<Rightarrow> account_manager \<Rightarrow> nat option" where
  "findUserByUsername same username s = List.find (\<lambda>i. same username (am_userName s i)) (sv_items (am_accounts s))"

definition userExists :: "(qstring \<Rightarrow> qstring \<Rightarrow> bool) \<Rightarrow> qstring \<Rightarrow> account_manager \<Rightarrow> bool" where
  "userExists same username s \<longleftrightarrow> findUserByUsername same username s \<noteq> None"

record user_data =
  ud_username :: qstring
  ud_userID :: qstring
  ud_clientID :: qstring
  ud_oauthToken :: qstring

datatype add_response = UserAlreadyExists | UserValuesUpdated | UserAdded

text \<open>\<open>SharedPtrElementLess\<close>, with \<open>TwitchAccount::toString\<close>.\<close>

definition account_of :: "account_manager \<Rightarrow> nat \<Rightarrow> account" where
  "account_of s i = \<lparr>acc_category = ''Twitch'', acc_text = am_userName s i\<rparr>"

definition addUser :: "(qstring \<Rightarrow> qstring \<Rightarrow> bool) \<Rightarrow> user_data \<Rightarrow> account_manager \<Rightarrow> add_response \<times> account_manager" where
  "addUser same d s =
     (case findUserByUsername same (ud_username d) s of
        Some i \<Rightarrow>
          (let (u1, a1) = setOAuthClient (ud_clientID d) (am_objects s i);
               (u2, a2) = setOAuthToken (ud_oauthToken d) a1
           in (if u1 \<or> u2 then UserValuesUpdated else UserAlreadyExists, s\<lparr>am_objects := (am_objects s)(i := a2)\<rparr>))
      | None \<Rightarrow>
          (let i = am_next s;
               s1 = s\<lparr>am_objects := (am_objects s)(i := TwitchAccount (ud_username d) (ud_oauthToken d) (ud_clientID d) (ud_userID d)),
                      am_next := Suc i\<rparr>
           in (UserAdded,
               case sv_insert (Some (\<lambda>a b. account_less (account_of s1 a) (account_of s1 b))) i (-1) (am_accounts s1) of
                 None \<Rightarrow> s1 | Some (_, v) \<Rightarrow> s1\<lparr>am_accounts := v\<rparr>)))"

text \<open>One entry of the settings, and all of them: the keys with their members.\<close>

definition reload_user :: "(qstring \<Rightarrow> qstring \<Rightarrow> bool) \<Rightarrow> qstring \<times> user_data \<Rightarrow> bool \<times> account_manager \<Rightarrow> bool \<times> account_manager" where
  "reload_user same = (\<lambda>(uid, d) (listUpdated, s).
     if uid = ''current'' then (listUpdated, s)
     else if ud_username d = [] \<or> ud_userID d = [] \<or> ud_clientID d = [] \<or> ud_oauthToken d = [] then (listUpdated, s)
     else
       (let name = q_trimmed (ud_username d);
            (r, s1) = addUser same \<lparr>ud_username = name, ud_userID = q_trimmed (ud_userID d), ud_clientID = q_trimmed (ud_clientID d),
               ud_oauthToken = q_trimmed (ud_oauthToken d)\<rparr> s
        in case r of
             UserAlreadyExists \<Rightarrow> (listUpdated, s1)
           | UserValuesUpdated \<Rightarrow> (listUpdated, if name = am_userName s1 (getCurrent s1) then currentUserChanged s1 else s1)
           | UserAdded \<Rightarrow> (True, s1)))"

definition reloadUsers :: "(qstring \<Rightarrow> qstring \<Rightarrow> bool) \<Rightarrow> (qstring \<times> user_data) list \<Rightarrow> account_manager \<Rightarrow> account_manager" where
  "reloadUsers same keys s =
     (case fold (reload_user same) keys (False, s) of (listUpdated, s1) \<Rightarrow> if listUpdated then am_emit [UserListUpdated] s1 else s1)"

text \<open>The function connected to the setting of the current user's name, and an assignment to it.\<close>

definition currentUsername_changed :: "(qstring \<Rightarrow> qstring \<Rightarrow> bool) \<Rightarrow> qstring \<Rightarrow> account_manager \<Rightarrow> account_manager" where
  "currentUsername_changed same newUsername s =
     (case findUserByUsername same newUsername s of
        Some i \<Rightarrow>
          currentUserChanged (am_emit [HelixUpdate (ta_oauthClient (am_objects s i)) (ta_oauthToken (am_objects s i))] (s\<lparr>am_current := Some i\<rparr>))
      | None \<Rightarrow> currentUserChanged (s\<lparr>am_current := Some 0\<rparr>))"

definition set_currentUsername :: "(qstring \<Rightarrow> qstring \<Rightarrow> bool) \<Rightarrow> qstring \<Rightarrow> account_manager \<Rightarrow> account_manager" where
  "set_currentUsername same n s = currentUsername_changed same n (s\<lparr>am_currentUsername := n\<rparr>)"

definition isLoggedIn :: "account_manager \<Rightarrow> bool" where
  "isLoggedIn s \<longleftrightarrow> (case am_current s of None \<Rightarrow> False | Some i \<Rightarrow> \<not> ta_isAnon (am_objects s i))"

definition removeUser :: "(qstring \<Rightarrow> qstring \<Rightarrow> bool) \<Rightarrow> nat \<Rightarrow> account_manager \<Rightarrow> account_manager" where
  "removeUser same i s =
     (let userID = ta_userId (am_objects s i);
          s1 = (if userID \<noteq> [] then am_emit [RemoveSetting (qarg ''/accounts/uid%1'' userID)] s else s);
          s2 = (if am_userName s1 i = am_currentUsername s1 then set_currentUsername same [] s1 else s1)
      in am_emit [UserListUpdated] s2)"

text \<open>The user takes an account out of the list.\<close>

definition remove_account :: "(qstring \<Rightarrow> qstring \<Rightarrow> bool) \<Rightarrow> nat \<Rightarrow> account_manager \<Rightarrow> account_manager" where
  "remove_account same index s =
     (case sv_removeAt (int index) (am_accounts s) of
        None \<Rightarrow> s
      | Some (i, v) \<Rightarrow> removeUser same i (s\<lparr>am_accounts := v\<rparr>))"

section \<open>Badges\<close>

record badge_images =
  bi_url1x :: qstring
  bi_url2x :: qstring
  bi_url4x :: qstring
  bi_tooltip :: qstring
  bi_url :: qstring

text \<open>A callback is a number. What is done: an image is loaded for a callback, or a callback is called.\<close>

datatype badge_effect = LoadBadgeImage qstring qstring nat | BadgeIcon qstring nat

record twitch_badges =
  tb_loaded :: bool
  tb_sets :: "(qstring \<times> (qstring \<times> badge_images) list) list"
  tb_icons :: "qstring list"
  tb_queue :: "(qstring \<times> nat) list"
  tb_effects :: "badge_effect list"

definition TwitchBadges :: twitch_badges where
  "TwitchBadges = \<lparr>tb_loaded = False, tb_sets = [], tb_icons = [], tb_queue = [], tb_effects = []\<rparr>"

definition badge_of :: "qstring \<Rightarrow> qstring \<Rightarrow> twitch_badges \<Rightarrow> badge_images option" where
  "badge_of set' version b = (case map_of (tb_sets b) set' of None \<Rightarrow> None | Some vs \<Rightarrow> map_of vs version)"

text \<open>\<open>front\<close> is the element an unordered map begins with.\<close>

type_synonym map_front = "(qstring \<times> badge_images) list \<Rightarrow> badge_images"

definition some_badge_of :: "map_front \<Rightarrow> qstring \<Rightarrow> twitch_badges \<Rightarrow> badge_images option" where
  "some_badge_of front set' b =
     (case map_of (tb_sets b) set' of None \<Rightarrow> None | Some vs \<Rightarrow> if vs = [] then None else Some (front vs))"

definition getBadgeIcon :: "map_front \<Rightarrow> qstring \<Rightarrow> nat \<Rightarrow> twitch_badges \<Rightarrow> twitch_badges" where
  "getBadgeIcon front name callback b =
     (if \<not> tb_loaded b then b\<lparr>tb_queue := tb_queue b @ [(name, callback)]\<rparr>
      else if name \<in> set (tb_icons b) then b\<lparr>tb_effects := tb_effects b @ [BadgeIcon name callback]\<rparr>
      else
        (let targetBadge = split_on (CHR ''/'') (hd (split_on (CHR '','') name));
             badge = (if length targetBadge = 2 then badge_of (targetBadge ! 0) (targetBadge ! 1) b
               else some_badge_of front (targetBadge ! 0) b)
         in case badge of
              None \<Rightarrow> b
            | Some e \<Rightarrow> b\<lparr>tb_effects := tb_effects b @ [LoadBadgeImage name (bi_url4x e) callback]\<rparr>))"

definition getBadgeIcons :: "map_front \<Rightarrow> (qstring \<times> nat) list \<Rightarrow> twitch_badges \<Rightarrow> twitch_badges" where
  "getBadgeIcons front rs b = fold (\<lambda>(name, callback). getBadgeIcon front name callback) rs b"

text \<open>\<open>loaded\<close>: \<open>None\<close> is the failed assertion of a second call; the queue is worked off from its front.\<close>

definition badges_loaded :: "map_front \<Rightarrow> twitch_badges \<Rightarrow> twitch_badges option" where
  "badges_loaded front b =
     (if tb_loaded b then None
      else Some (getBadgeIcons front (tb_queue b) (b\<lparr>tb_loaded := True, tb_queue := []\<rparr>)))"

definition read_badge :: "qobject \<Rightarrow> badge_images" where
  "read_badge j = \<lparr>bi_url1x = text_member j ''image_url_1x'', bi_url2x = text_member j ''image_url_2x'',
     bi_url4x = text_member j ''image_url_4x'', bi_tooltip = text_member j ''title'', bi_url = text_member j ''click_url''\<rparr>"

definition put :: "'k \<Rightarrow> 'v \<Rightarrow> ('k \<times> 'v) list \<Rightarrow> ('k \<times> 'v) list" where
  "put k v m = (k, v) # filter (\<lambda>(k', _). k' \<noteq> k) m"

definition read_badge_sets :: "qobject \<Rightarrow> (qstring \<times> (qstring \<times> badge_images) list) list \<Rightarrow> (qstring \<times> (qstring \<times> badge_images) list) list" where
  "read_badge_sets j sets =
     fold (\<lambda>(key, s) m. fold (\<lambda>(version, v) m. put key (put version (read_badge (toObject v))
           (case map_of m key of Some vs \<Rightarrow> vs | None \<Rightarrow> [])) m) (object_member (toObject s) ''versions'') m)
       (object_member j ''badge_sets'') sets"

text \<open>The answer to the request for the badges; a failure also counts as loaded.\<close>

definition badgesAnswered :: "map_front \<Rightarrow> http_answer \<Rightarrow> twitch_badges \<Rightarrow> twitch_badges option" where
  "badgesAnswered front a b =
     badges_loaded front (case a of Answered j \<Rightarrow> b\<lparr>tb_sets := read_badge_sets j (tb_sets b)\<rparr> | Failed _ \<Rightarrow> b)"

text \<open>An image that could be read.\<close>

definition badgeImageLoaded :: "qstring \<Rightarrow> nat \<Rightarrow> twitch_badges \<Rightarrow> twitch_badges" where
  "badgeImageLoaded name callback b =
     b\<lparr>tb_icons := List.insert name (tb_icons b), tb_effects := tb_effects b @ [BadgeIcon name callback]\<rparr>"

section \<open>Invariants\<close>

subsection \<open>Blocked users\<close>

datatype block_event = BlocksLoaded "helix_block list" | UserBlocked qstring | UserUnblocked qstring

definition block_step :: "block_event \<Rightarrow> tw_account \<Rightarrow> tw_account" where
  "block_step e a = (case e of BlocksLoaded bs \<Rightarrow> blocks_loaded bs a | UserBlocked i \<Rightarrow> user_blocked i a | UserUnblocked i \<Rightarrow> user_unblocked i a)"

definition blocked_in_step :: "tw_account \<Rightarrow> bool" where
  "blocked_in_step a \<longleftrightarrow> set (map fst (ta_ignores a)) = set (ta_ignoresUserIds a) \<and> distinct (ta_ignoresUserIds a) \<and>
     (\<forall>(k, u) \<in> set (ta_ignores a). bu_id u = k)"

lemma blocked_insert: "blocked_in_step a \<Longrightarrow> blocked_in_step (ignores_insert u a)"
  by (auto simp: blocked_in_step_def ignores_insert_def map_of_eq_None_iff dest!: set_qmap_insert dest: map_of_SomeD)

lemma blocked_fold: "blocked_in_step a \<Longrightarrow> blocked_in_step (fold (\<lambda>b. ignores_insert (user_of_block b)) bs a)"
  by (induction bs arbitrary: a) (simp_all add: blocked_insert)

lemma blocked_step: "blocked_in_step a \<Longrightarrow> blocked_in_step (block_step e a)"
  by (cases e) (auto simp: block_step_def blocks_loaded_def user_blocked_def intro!: blocked_fold blocked_insert,
      auto simp: blocked_in_step_def user_unblocked_def qmap_remove_def)

subsection \<open>Accounts\<close>

definition accounts_unique :: "(qstring \<Rightarrow> qstring \<Rightarrow> bool) \<Rightarrow> account_manager \<Rightarrow> bool" where
  "accounts_unique same s \<longleftrightarrow> pairwise (\<lambda>i j. \<not> same (am_userName s i) (am_userName s j)) (set (sv_items (am_accounts s))) \<and>
     distinct (sv_items (am_accounts s)) \<and> (\<forall>i \<in> set (sv_items (am_accounts s)). 0 < i \<and> i < am_next s) \<and> 0 < am_next s \<and>
     sorted_wrt (\<lambda>i j. am_userName s i \<le> am_userName s j) (sv_items (am_accounts s))"

lemma insert_sorted:
  fixes f :: "'a \<Rightarrow> 'b::linorder"
  shows "sorted_wrt (\<lambda>a b. f a \<le> f b) xs \<Longrightarrow>
     sorted_wrt (\<lambda>a b. f a \<le> f b) (takeWhile (\<lambda>a. f a < f x) xs @ x # dropWhile (\<lambda>a. f a < f x) xs)"
proof (induction xs)
  case (Cons y ys)
  have "f x \<le> f z" if "z \<in> set ys" "\<not> f y < f x" for z
    using Cons.prems that by (meson le_less_trans linorder_not_less sorted_wrt.simps(2) order_trans)
  then show ?case using Cons by (auto dest: set_takeWhileD set_dropWhileD)
qed simp

lemma set_take_drop_while: "set (takeWhile P xs) \<union> set (dropWhile P xs) = set xs"
  by (metis set_append takeWhile_dropWhile_id)

lemma distinct_take_drop_while:
  "distinct xs \<Longrightarrow> x \<notin> set xs \<Longrightarrow> distinct (takeWhile P xs @ x # dropWhile P xs)"
proof -
  assume d: "distinct xs" "x \<notin> set xs"
  have "distinct (takeWhile P xs @ dropWhile P xs)" using d(1) by simp
  then have "distinct (takeWhile P xs)" "distinct (dropWhile P xs)" "set (takeWhile P xs) \<inter> set (dropWhile P xs) = {}"
    by (simp_all only: distinct_append)
  then show ?thesis using d(2) set_take_drop_while [of P xs] by auto
qed

lemma account_less_name: "account_less (account_of s i) (account_of s j) \<longleftrightarrow> am_userName s i < am_userName s j"
  by (simp add: account_less_def account_of_def)

lemma set_client_name [simp]: "ta_userName (snd (setOAuthClient c a)) = ta_userName a"
  by (simp add: setOAuthClient_def)

lemma set_token_name [simp]: "ta_userName (snd (setOAuthToken t a)) = ta_userName a"
  by (simp add: setOAuthToken_def)

lemma unique_names_only:
  assumes "accounts_unique same s" and "am_accounts t = am_accounts s" and "am_next t = am_next s" and "am_userName t = am_userName s"
  shows "accounts_unique same t"
  using assms by (simp add: accounts_unique_def)

lemma add_user_unique:
  assumes sym: "\<And>a b. same a b = same b a" and u: "accounts_unique same s"
  shows "accounts_unique same (snd (addUser same d s))"
proof (cases "findUserByUsername same (ud_username d) s")
  case (Some i)
  have names: "am_userName (snd (addUser same d s)) = am_userName s"
    by (auto simp: addUser_def Some am_userName_def fun_eq_iff Let_def case_prod_beta)
  show ?thesis using u by (rule unique_names_only) (simp_all only: names, simp_all add: addUser_def Some Let_def case_prod_beta)
next
  case None
  define k where "k = am_next s"
  define t where "t = s\<lparr>am_objects := (am_objects s)(k := TwitchAccount (ud_username d) (ud_oauthToken d) (ud_clientID d) (ud_userID d)), am_next := Suc k\<rparr>"
  define xs where "xs = sv_items (am_accounts s)"
  have kname: "am_userName t k = ud_username d" by (simp add: t_def am_userName_def TwitchAccount_def)
  have new: "k \<notin> set xs" using u by (auto simp: accounts_unique_def xs_def k_def)
  have old: "am_userName t i = am_userName s i" if "i \<in> set xs" for i using that new by (auto simp: t_def am_userName_def)
  have fresh: "\<not> same (ud_username d) (am_userName s i)" if "i \<in> set xs" for i
    using None that by (auto simp: findUserByUsername_def find_None_iff xs_def)
  define P where "P = (\<lambda>i. am_userName t i < am_userName t k)"
  have res: "snd (addUser same d s) = t\<lparr>am_accounts := itemsChanged ((am_accounts s)\<lparr>sv_items := takeWhile P xs @ k # dropWhile P xs\<rparr>)\<rparr>"
    by (simp add: addUser_def None Let_def sv_insert_def account_less_name insert_at_takeWhile flip: k_def xs_def P_def)
       (simp add: t_def k_def P_def xs_def account_less_name insert_at_takeWhile)
  have srt: "sorted_wrt (\<lambda>i j. am_userName t i \<le> am_userName t j) xs"
    using u old by (auto simp: accounts_unique_def xs_def intro: sorted_wrt_mono_rel [rotated])
  have mem: "set (takeWhile P xs @ k # dropWhile P xs) = insert k (set xs)" using set_take_drop_while [of P xs] by auto
  have pw: "pairwise (\<lambda>i j. \<not> same (am_userName t i) (am_userName t j)) (insert k (set xs))"
    using u old fresh sym by (auto simp: pairwise_insert accounts_unique_def xs_def [symmetric] pairwise_def kname)
  have names: "am_userName (t\<lparr>am_accounts := v\<rparr>) = am_userName t" for v by (simp add: am_userName_def fun_eq_iff)
  have bound: "\<forall>i \<in> insert k (set xs). 0 < i \<and> i < am_next t" using u by (auto simp: accounts_unique_def xs_def t_def k_def)
  show ?thesis
    using pw bound insert_sorted [OF srt] distinct_take_drop_while [OF _ new] u mem
    by (simp add: accounts_unique_def res names itemsChanged_def P_def [abs_def] xs_def [symmetric])
qed

lemma am_emit_unique: "accounts_unique same s \<Longrightarrow> accounts_unique same (am_emit es s)"
  by (erule unique_names_only) (simp_all add: am_emit_def am_userName_def fun_eq_iff)

lemma current_changed_unique: "accounts_unique same s \<Longrightarrow> accounts_unique same (currentUserChanged s)"
  by (simp add: currentUserChanged_def am_emit_unique)

lemma set_current_unique: "accounts_unique same s \<Longrightarrow> accounts_unique same (set_currentUsername same n s)"
proof -
  assume u: "accounts_unique same s"
  have upd: "accounts_unique same (s\<lparr>am_currentUsername := n, am_current := c\<rparr>)" for c
    using u by (rule unique_names_only) (simp_all add: am_userName_def fun_eq_iff)
  show ?thesis
    unfolding set_currentUsername_def currentUsername_changed_def
    by (auto split: option.split intro!: current_changed_unique am_emit_unique upd)
qed

lemma reload_user_unique:
  assumes sym: "\<And>a b. same a b = same b a" and u: "accounts_unique same (snd ls)"
  shows "accounts_unique same (snd (reload_user same e ls))"
proof -
  obtain uid d l s where e: "e = (uid, d)" "ls = (l, s)" by force
  have "accounts_unique same (snd (addUser same d' s))" for d'
    using sym u by (intro add_user_unique) (simp_all add: e)
  then show ?thesis using u
    by (auto simp: reload_user_def e Let_def case_prod_beta intro: current_changed_unique split: add_response.split)
qed

lemma reload_fold_unique:
  assumes sym: "\<And>a b. same a b = same b a"
  shows "accounts_unique same (snd ls) \<Longrightarrow> accounts_unique same (snd (fold (reload_user same) es ls))"
  by (induction es arbitrary: ls) (simp_all add: reload_user_unique [OF sym])

lemma remove_unique:
  assumes u: "accounts_unique same s" shows "accounts_unique same (remove_account same index s)"
proof (cases "index < length (sv_items (am_accounts s))")
  case True
  define v where "v = itemsChanged ((am_accounts s)\<lparr>sv_items := remove_at index (sv_items (am_accounts s))\<rparr>)"
  have items: "sv_items v = take index (sv_items (am_accounts s)) @ drop (Suc index) (sv_items (am_accounts s))"
    by (simp add: v_def itemsChanged_def remove_at_def)
  have sub: "set (sv_items v) \<subseteq> set (sv_items (am_accounts s))"
    unfolding items by (auto dest: in_set_takeD in_set_dropD)
  have parts: "sv_items (am_accounts s) = take index (sv_items (am_accounts s)) @ sv_items (am_accounts s) ! index # drop (Suc index) (sv_items (am_accounts s))"
    using True by (rule id_take_nth_drop)
  have "distinct (sv_items (am_accounts s))" "sorted_wrt (\<lambda>i j. am_userName s i \<le> am_userName s j) (sv_items (am_accounts s))"
    using u by (simp_all add: accounts_unique_def)
  then have dst: "distinct (sv_items v)" and srt: "sorted_wrt (\<lambda>i j. am_userName s i \<le> am_userName s j) (sv_items v)"
    unfolding items by (subst (asm) (1 2) parts, simp add: sorted_wrt_append)+
  have pw: "pairwise (\<lambda>i j. \<not> same (am_userName s i) (am_userName s j)) (set (sv_items v))"
    using u sub unfolding accounts_unique_def by (blast intro: pairwise_subset)
  have "accounts_unique same (s\<lparr>am_accounts := v\<rparr>)"
    using u sub dst srt pw by (auto simp: accounts_unique_def am_userName_def)
  then show ?thesis using True
    by (auto simp: remove_account_def sv_removeAt_def removeUser_def Let_def v_def intro!: am_emit_unique set_current_unique)
qed (use u in \<open>simp add: remove_account_def sv_removeAt_def\<close>)

text \<open>What can happen to the accounts.\<close>

datatype account_event =
    Reload "(qstring \<times> user_data) list"
  | AddAccount user_data
  | SetCurrent qstring
  | RemoveAccount nat

definition account_step :: "(qstring \<Rightarrow> qstring \<Rightarrow> bool) \<Rightarrow> account_event \<Rightarrow> account_manager \<Rightarrow> account_manager" where
  "account_step same e s =
     (case e of Reload keys \<Rightarrow> reloadUsers same keys s | AddAccount d \<Rightarrow> snd (addUser same d s)
      | SetCurrent n \<Rightarrow> set_currentUsername same n s | RemoveAccount i \<Rightarrow> remove_account same i s)"

lemma account_step_unique:
  assumes sym: "\<And>a b. same a b = same b a" and u: "accounts_unique same s"
  shows "accounts_unique same (account_step same e s)"
proof (cases e)
  case (Reload keys)
  have "accounts_unique same (snd (fold (reload_user same) keys (False, s)))"
    by (rule reload_fold_unique [OF sym]) (simp add: u)
  then show ?thesis by (simp add: Reload account_step_def reloadUsers_def case_prod_beta am_emit_unique)
next
  case (AddAccount d)
  show ?thesis unfolding AddAccount account_step_def account_event.case by (rule add_user_unique [OF sym u])
qed (simp_all add: account_step_def set_current_unique remove_unique u)

text \<open>
  \<open>removeUser\<close> compares the names with case, the lookup of the current user does not: an account that was chosen
  with another spelling stays the current one after it was removed.
\<close>

definition ascii_lower :: "char \<Rightarrow> char" where
  "ascii_lower c = (let n = of_char c :: nat in if 65 \<le> n \<and> n \<le> 90 then char_of (n + 32) else c)"

lemma removed_account_stays_current:
  defines "s \<equiv> fold (account_step (\<lambda>a b. map ascii_lower a = map ascii_lower b)) [AddAccount \<lparr>ud_username = ''Pajlada'', ud_userID = ''1'', ud_clientID = ''c'', ud_oauthToken = ''t''\<rparr>,
      SetCurrent ''pajlada'', RemoveAccount 0] TwitchAccountManager"
  shows "getUsernames s = [] \<and> am_userName s (getCurrent s) = ''Pajlada'' \<and> isLoggedIn s"
  unfolding s_def by code_simp

section \<open>Properties\<close>

text \<open>
  C30: whatever accounts are loaded, added, chosen and removed, and in whatever order, no two accounts of the list have
  names that differ in case only, no account is listed twice, the list is sorted by name, and none of them is the
  anonymous user.
\<close>

theorem accounts_stay_unique:
  assumes sym: "\<And>a b. same a b = same b a"
  shows "accounts_unique same (fold (account_step same) es TwitchAccountManager)"
proof -
  have "accounts_unique same s \<Longrightarrow> accounts_unique same (fold (account_step same) es s)" for s
    by (induction es arbitrary: s) (simp_all add: account_step_unique [OF sym])
  moreover have "accounts_unique same TwitchAccountManager"
    by (simp add: accounts_unique_def TwitchAccountManager_def SignalVector_def pairwise_def)
  ultimately show ?thesis by blast
qed

theorem accounts_stay_unique_witness:
  "accounts_unique (\<lambda>a b. map ascii_lower a = map ascii_lower b) (fold (account_step (\<lambda>a b. map ascii_lower a = map ascii_lower b))
     [SetCurrent ''a'', RemoveAccount 0] TwitchAccountManager)"
  by (rule accounts_stay_unique) auto

text \<open>
  Whatever users are blocked and unblocked and whatever lists are loaded, the set of ids of blocked users that
  messages are checked against holds the ids of the users of the block list, each once.
\<close>

theorem blocked_ids_in_step: "blocked_in_step (fold block_step es (TwitchAccount n t c i))"
proof -
  have "blocked_in_step a \<Longrightarrow> blocked_in_step (fold block_step es a)" for a
    by (induction es arbitrary: a) (simp_all add: blocked_step)
  moreover have "blocked_in_step (TwitchAccount n t c i)" by (simp add: blocked_in_step_def TwitchAccount_def)
  ultimately show ?thesis by blast
qed

text \<open>
  It makes no difference whether badge icons are asked for before or after the badges were loaded: the requests
  that wait are answered when the answer comes, each once, in their order, as if they had been made then.
\<close>

theorem badge_requests_wait:
  assumes "\<not> tb_loaded b"
  shows "badgesAnswered front a (getBadgeIcons front rs b) = map_option (getBadgeIcons front rs) (badgesAnswered front a b)"
proof -
  have q: "getBadgeIcons front rs b = b\<lparr>tb_queue := tb_queue b @ rs\<rparr>" if "\<not> tb_loaded b" for b
    using that
  proof (induction rs arbitrary: b)
    case (Cons r rs)
    obtain n c where r: "r = (n, c)" by force
    have "getBadgeIcons front (r # rs) b = getBadgeIcons front rs (b\<lparr>tb_queue := tb_queue b @ [(n, c)]\<rparr>)"
      using Cons.prems by (simp add: getBadgeIcons_def r getBadgeIcon_def)
    then show ?case using Cons.IH [of "b\<lparr>tb_queue := tb_queue b @ [(n, c)]\<rparr>"] Cons.prems by (simp add: r)
  qed (simp add: getBadgeIcons_def)
  have app: "getBadgeIcons front (xs @ ys) c = getBadgeIcons front ys (getBadgeIcons front xs c)" for xs ys c
    by (simp add: getBadgeIcons_def)
  show ?thesis
    using assms by (cases a) (simp_all add: badgesAnswered_def q badges_loaded_def app)
qed

theorem badge_requests_wait_witness:
  "badgesAnswered (\<lambda>vs. snd (hd vs)) (Failed 500) (getBadgeIcons (\<lambda>vs. snd (hd vs)) [(''mod/1'', 3)] TwitchBadges) =
     map_option (getBadgeIcons (\<lambda>vs. snd (hd vs)) [(''mod/1'', 3)]) (badgesAnswered (\<lambda>vs. snd (hd vs)) (Failed 500) TwitchBadges)"
  by (rule badge_requests_wait) (simp add: TwitchBadges_def)

end
