(* ===== verification/Emotes.thy ===== *)
theory Emotes
  imports Helix_Api "HOL-Library.AList" "HOL-Library.Sublist"
begin

text \<open>
  \<open>messages/Emote.cpp\<close> and \<open>ImageSet.cpp\<close>, and the emotes and badges of third parties:
  \<open>providers/seventv/SeventvEmotes.cpp\<close>, \<open>providers/bttv/BttvEmotes.cpp\<close>, \<open>providers/ffz\<close>, and the badges of
  7TV, Chatterino and Dankerino. Answers of the network are arguments; what is done with one is a list of effects.
\<close>

section \<open>Emotes and their pictures\<close>

text \<open>
  A picture is its address and its scale, the quotient of two numbers that is taken in floating point. Pictures are
  shared by address, so two pictures are the same object if their addresses are equal. \<open>None\<close> is the empty picture.
\<close>

type_synonym picture = "(qstring \<times> rat \<times> rat) option"

record image_set =
  is_1 :: picture
  is_2 :: picture
  is_3 :: picture
  is_4 :: picture

definition picture_url :: "qstring \<Rightarrow> rat \<Rightarrow> rat \<Rightarrow> picture" where
  "picture_url url a b = Some (url, a, b)"

definition picture_or_empty :: "qstring \<Rightarrow> rat \<Rightarrow> rat \<Rightarrow> picture" where
  "picture_or_empty url a b = (if url = [] then None else picture_url url a b)"

definition ImageSet_urls :: "qstring \<Rightarrow> qstring \<Rightarrow> qstring \<Rightarrow> qstring \<Rightarrow> image_set" where
  "ImageSet_urls i1 i2 i3 i4 = \<lparr>is_1 = picture_url i1 1 1, is_2 = picture_or_empty i2 1 2,
     is_3 = picture_or_empty i3 1 4, is_4 = picture_or_empty i4 1 8\<rparr>"

definition same_pictures :: "image_set \<Rightarrow> image_set \<Rightarrow> bool" where
  "same_pictures a b \<longleftrightarrow> map_option fst (is_1 a) = map_option fst (is_1 b) \<and> map_option fst (is_2 a) = map_option fst (is_2 b) \<and>
     map_option fst (is_3 a) = map_option fst (is_3 b) \<and> map_option fst (is_4 a) = map_option fst (is_4 b)"

text \<open>The scale is multiplied with the setting; the fourth picture is not chosen.\<close>

definition getImagePriv :: "rat \<Rightarrow> rat \<Rightarrow> image_set \<Rightarrow> picture" where
  "getImagePriv emoteScale scale0 s =
     (let scale = scale0 * emoteScale;
          quality = (if scale > 3001 / 1000 then 4 else if scale > 2001 / 1000 then 3 else if scale > 1001 / 1000 then 2 else 1 :: nat)
      in if is_3 s \<noteq> None \<and> quality \<ge> 3 then is_3 s
         else if is_2 s \<noteq> None \<and> quality \<ge> 2 then is_2 s
         else is_1 s)"

text \<open>\<open>loaded\<close>: which pictures have their frames, after the chosen one was asked to load.\<close>

definition getImageOrLoaded :: "(picture \<Rightarrow> bool) \<Rightarrow> rat \<Rightarrow> rat \<Rightarrow> image_set \<Rightarrow> picture" where
  "getImageOrLoaded loaded emoteScale scale s =
     (let result = getImagePriv emoteScale scale s
      in if loaded result then result
         else if is_4 s \<noteq> None \<and> loaded (is_4 s) then is_4 s
         else if is_3 s \<noteq> None \<and> loaded (is_3 s) then is_3 s
         else if is_2 s \<noteq> None \<and> loaded (is_2 s) then is_2 s
         else if loaded (is_1 s) then is_1 s
         else result)"

record emote =
  e_name :: qstring
  e_images :: image_set
  e_tooltip :: qstring
  e_homePage :: qstring
  e_zeroWidth :: bool

text \<open>\<open>operator==\<close> does not look at \<open>zeroWidth\<close>.\<close>

definition same_emote :: "emote \<Rightarrow> emote \<Rightarrow> bool" where
  "same_emote a b \<longleftrightarrow> e_homePage a = e_homePage b \<and> e_name a = e_name b \<and> e_tooltip a = e_tooltip b \<and>
     same_pictures (e_images a) (e_images b)"

text \<open>
  Maps from names to emotes, in the order they are iterated over. A cache holds weak references: \<open>alive\<close> says
  which of its emotes still exist.
\<close>

type_synonym emote_map = "(qstring \<times> emote) list"
type_synonym emote_cache = "(qstring \<times> emote) list"

definition reuse_emote :: "emote \<Rightarrow> emote_map \<Rightarrow> emote" where
  "reuse_emote e m = (case map_of m (e_name e) of Some old \<Rightarrow> if same_emote old e then old else e | None \<Rightarrow> e)"

definition cache_get :: "(qstring \<Rightarrow> bool) \<Rightarrow> emote_cache \<Rightarrow> qstring \<Rightarrow> emote option" where
  "cache_get alive cache i = (if alive i then map_of cache i else None)"

definition cachedOrMake :: "(qstring \<Rightarrow> bool) \<Rightarrow> emote \<Rightarrow> qstring \<Rightarrow> emote_cache \<Rightarrow> emote \<times> emote_cache" where
  "cachedOrMake alive e i cache =
     (case cache_get alive cache i of
        Some shared \<Rightarrow> if same_emote shared e then (shared, cache) else (e, AList.update i e cache)
      | None \<Rightarrow> (e, AList.update i e cache))"

section \<open>Emotes of 7TV\<close>

definition stv_link :: "qstring \<Rightarrow> qstring \<Rightarrow> qstring" where
  "stv_link i scale = ''https://cdn.7tv.app/emote/'' @ i @ ''/'' @ scale"

definition visibility_bit :: "nat \<Rightarrow> qobject \<Rightarrow> bool" where
  "visibility_bit k j = bit (json_toInt 0 (json_value j ''visibility'')) k"

definition height_at :: "qjson list \<Rightarrow> nat \<Rightarrow> rat" where
  "height_at hs k = (if k < length hs then json_toDouble 0 (hs ! k) else 0)"

definition createEmote :: "qobject \<Rightarrow> bool \<Rightarrow> qstring \<times> emote" where
  "createEmote j isGlobal =
     (let i = text_member j ''id''; n = text_member j ''name''; author = text_member (object_member j ''owner'') ''display_name'';
          hs = toArray (json_value j ''height'');
          size1x = height_at hs 0;
          size = (\<lambda>k. if length hs > k then height_at hs k else size1x * of_nat (Suc k))
      in (i, \<lparr>e_name = n,
            e_images = \<lparr>is_1 = picture_url (stv_link i ''1x'') size1x size1x, is_2 = picture_url (stv_link i ''2x'') size1x (size 1),
              is_3 = picture_url (stv_link i ''3x'') size1x (size 2), is_4 = picture_url (stv_link i ''4x'') size1x (size 3)\<rparr>,
            e_tooltip = n @ ''<br>'' @ (if isGlobal then ''Global'' else ''Channel'') @ '' 7TV Emote<br>By: '' @ author,
            e_homePage = ''https://7tv.app/emotes/'' @ i,
            e_zeroWidth = visibility_bit 7 j\<rparr>))"

definition stv_parseGlobalEmotes :: "qobject list \<Rightarrow> emote_map \<Rightarrow> emote_map" where
  "stv_parseGlobalEmotes js current =
     fold (\<lambda>j m. let e = snd (createEmote j True) in AList.update (e_name e) (reuse_emote e current) m) js []"

definition checkEmoteVisibility :: "bool \<Rightarrow> qobject \<Rightarrow> bool" where
  "checkEmoteVisibility showUnlisted j \<longleftrightarrow> \<not> visibility_bit 2 j \<or> showUnlisted"

definition put_emote :: "(qstring \<Rightarrow> bool) \<Rightarrow> qstring \<times> emote \<Rightarrow> emote_map \<times> emote_cache \<Rightarrow> emote_map \<times> emote_cache" where
  "put_emote alive = (\<lambda>(i, e) (m, cache). case cachedOrMake alive e i cache of (p, cache') \<Rightarrow> (AList.update (e_name e) p m, cache'))"

definition stv_parseChannelEmotes :: "(qstring \<Rightarrow> bool) \<Rightarrow> bool \<Rightarrow> qobject \<Rightarrow> emote_cache \<Rightarrow> emote_map \<times> emote_cache" where
  "stv_parseChannelEmotes alive showUnlisted j cache =
     fold (\<lambda>v s. if checkEmoteVisibility showUnlisted (toObject v) then put_emote alive (createEmote (toObject v) False) s else s)
       (toArray (json_value j ''emotes'')) ([], cache)"

definition findEmote :: "(qstring \<Rightarrow> bool) \<Rightarrow> emote_cache \<Rightarrow> emote_map \<Rightarrow> qstring \<Rightarrow> qobject \<Rightarrow> emote option" where
  "findEmote alive cache m emoteBaseName j =
     (let i = text_member j ''id'';
          look = (\<lambda>n. case map_of m n of Some e \<Rightarrow> if suffix i (e_homePage e) then Some e else None | None \<Rightarrow> None)
      in case look emoteBaseName of
           Some e \<Rightarrow> Some e
         | None \<Rightarrow>
             (case (case cache_get alive cache i of Some c \<Rightarrow> look (e_name c) | None \<Rightarrow> None) of
                Some e \<Rightarrow> Some e
              | None \<Rightarrow> map_option snd (List.find (\<lambda>(_, e). suffix i (e_homePage e)) m)))"

definition stv_addEmote :: "(qstring \<Rightarrow> bool) \<Rightarrow> bool \<Rightarrow> qobject \<Rightarrow> emote_map \<times> emote_cache \<Rightarrow> emote option \<times> emote_map \<times> emote_cache" where
  "stv_addEmote alive showUnlisted j = (\<lambda>(m, cache).
     if \<not> checkEmoteVisibility showUnlisted j then (None, m, cache)
     else (case put_emote alive (createEmote j False) (m, cache) of (m', cache') \<Rightarrow>
       (map_of m' (e_name (snd (createEmote j False))), m', cache')))"

text \<open>The new emote and the name of the old one.\<close>

definition stv_updateEmote ::
  "(qstring \<Rightarrow> bool) \<Rightarrow> qstring \<Rightarrow> qobject \<Rightarrow> emote_map \<times> emote_cache \<Rightarrow> (emote \<times> qstring) option \<times> emote_map \<times> emote_cache" where
  "stv_updateEmote alive emoteBaseName j = (\<lambda>(m, cache).
     case findEmote alive cache m emoteBaseName j of
       None \<Rightarrow> (None, m, cache)
     | Some old \<Rightarrow>
         (case createEmote j False of (i, e) \<Rightarrow>
           (case put_emote alive (i, e) (AList.delete (e_name old) m, cache) of
              (m', cache') \<Rightarrow> (Some (fst (cachedOrMake alive e i cache), e_name old), m', cache'))))"

definition stv_removeEmote :: "qstring \<Rightarrow> emote_map \<Rightarrow> bool \<times> emote_map" where
  "stv_removeEmote n m = (if map_of m n = None then (False, m) else (True, AList.delete n m))"

section \<open>Loading the emotes of a channel\<close>

text \<open>
  What is done when an answer comes. \<open>alive\<close> is whether the channel still exists: the callbacks check it, the
  messages after a manual refresh do not (\<open>None\<close>: a null pointer is dereferenced).
\<close>

datatype load_effect =
    SetEmotes emote_map
  | SetModBadge "emote option"
  | SetVipBadge "emote option"
  | Announce qstring

definition announce_reload :: "bool \<Rightarrow> bool \<Rightarrow> bool \<Rightarrow> qstring \<Rightarrow> qstring \<Rightarrow> load_effect list \<Rightarrow> load_effect list option" where
  "announce_reload channelAlive manualRefresh hasEmotes yes no es =
     (if \<not> manualRefresh then Some es
      else if \<not> channelAlive then None
      else Some (es @ [Announce (if hasEmotes then yes else no)]))"

definition announce_failure :: "bool \<Rightarrow> bool \<Rightarrow> int \<Rightarrow> int \<Rightarrow> qstring \<Rightarrow> qstring \<Rightarrow> load_effect list" where
  "announce_failure channelAlive manualRefresh noneStatus status provider no =
     (if \<not> channelAlive then []
      else if status = noneStatus then (if manualRefresh then [Announce no] else [])
      else if status = - 2 then [Announce (''Failed to fetch '' @ provider @ '' channel emotes. (timed out)'')]
      else [Announce (''Failed to fetch '' @ provider @ '' channel emotes. (unknown error)'')])"

definition when_alive :: "bool \<Rightarrow> load_effect list \<Rightarrow> load_effect list" where
  "when_alive channelAlive es = (if channelAlive then es else [])"

definition stv_loadChannel ::
  "(qstring \<Rightarrow> bool) \<Rightarrow> bool \<Rightarrow> bool \<Rightarrow> bool \<Rightarrow> http_answer \<Rightarrow> emote_cache \<Rightarrow> load_effect list option \<times> emote_cache" where
  "stv_loadChannel alive showUnlisted channelAlive manualRefresh a cache =
     (case a of
        Answered j \<Rightarrow>
          (case stv_parseChannelEmotes alive showUnlisted (object_member (object_member j ''data'') ''user'') cache of
             (m, cache') \<Rightarrow>
               (announce_reload channelAlive manualRefresh (m \<noteq> []) ''7TV channel emotes reloaded.''
                  ''This channel has no 7TV channel emotes.'' (if m \<noteq> [] then when_alive channelAlive [SetEmotes m] else []), cache'))
      | Failed status \<Rightarrow>
          (Some (announce_failure channelAlive manualRefresh 400 status ''7TV'' ''This channel has no 7TV channel emotes.''), cache))"

definition stv_loadEmotes :: "http_answer \<Rightarrow> emote_map \<Rightarrow> emote_map" where
  "stv_loadEmotes a global =
     (case a of Failed _ \<Rightarrow> global
      | Answered j \<Rightarrow> stv_parseGlobalEmotes (map toObject (toArray (json_value (object_member j ''data'') ''search_emotes''))) global)"

section \<open>Emotes of BetterTTV\<close>

definition getEmoteLinkV3 :: "qstring \<Rightarrow> qstring \<Rightarrow> qstring" where
  "getEmoteLinkV3 i scale = ''https://cdn.betterttv.net/emote/'' @ i @ ''/'' @ scale"

definition bttv_emote :: "qstring \<Rightarrow> qstring \<Rightarrow> rat \<Rightarrow> qstring \<Rightarrow> emote" where
  "bttv_emote i n scale3 tooltip =
     \<lparr>e_name = n,
      e_images = \<lparr>is_1 = picture_url (getEmoteLinkV3 i ''1x'') 1 1, is_2 = picture_url (getEmoteLinkV3 i ''2x'') 1 2,
        is_3 = picture_url (getEmoteLinkV3 i ''3x'') scale3 1, is_4 = None\<rparr>,
      e_tooltip = tooltip, e_homePage = ''https://betterttv.com/emotes/'' @ i, e_zeroWidth = False\<rparr>"

definition bttv_parseGlobalEmotes :: "qobject list \<Rightarrow> emote_map \<Rightarrow> emote_map" where
  "bttv_parseGlobalEmotes js current =
     fold (\<lambda>j m. let n = text_member j ''code'';
             e = bttv_emote (text_member j ''id'') n (286 / 1000) (n @ ''<br>Global BetterTTV Emote'')
           in AList.update n (reuse_emote e current) m) js []"

definition bttv_channel_emote :: "qstring \<Rightarrow> qobject \<Rightarrow> qstring \<times> emote" where
  "bttv_channel_emote channelDisplayName j =
     (let i = text_member j ''id''; n = text_member j ''code''; author = text_member (object_member j ''user'') ''displayName''
      in (i, bttv_emote i n (1 / 4)
           (qarg (qarg (qarg ''%1<br>%2 BetterTTV Emote<br>By: %3'' n) (if author = [] then ''Channel'' else ''Shared''))
              (if author = [] then channelDisplayName else author))))"

definition bttv_innerParse :: "(qstring \<Rightarrow> bool) \<Rightarrow> qstring \<Rightarrow> qobject \<Rightarrow> qstring \<Rightarrow> emote_map \<times> emote_cache \<Rightarrow> emote_map \<times> emote_cache" where
  "bttv_innerParse alive channelDisplayName j key =
     fold (\<lambda>v. put_emote alive (bttv_channel_emote channelDisplayName (toObject v))) (toArray (json_value j key))"

definition bttv_parseChannelEmotes :: "(qstring \<Rightarrow> bool) \<Rightarrow> qobject \<Rightarrow> qstring \<Rightarrow> emote_cache \<Rightarrow> emote_map \<times> emote_cache" where
  "bttv_parseChannelEmotes alive j channelDisplayName cache =
     bttv_innerParse alive channelDisplayName j ''sharedEmotes'' (bttv_innerParse alive channelDisplayName j ''channelEmotes'' ([], cache))"

definition bttv_loadChannel ::
  "(qstring \<Rightarrow> bool) \<Rightarrow> qstring \<Rightarrow> bool \<Rightarrow> bool \<Rightarrow> http_answer \<Rightarrow> emote_cache \<Rightarrow> load_effect list option \<times> emote_cache" where
  "bttv_loadChannel alive channelDisplayName channelAlive manualRefresh a cache =
     (case a of
        Answered j \<Rightarrow>
          (case bttv_parseChannelEmotes alive j channelDisplayName cache of
             (m, cache') \<Rightarrow>
               (announce_reload channelAlive manualRefresh (m \<noteq> []) ''BetterTTV channel emotes reloaded.''
                  ''This channel has no BetterTTV channel emotes.'' (when_alive channelAlive [SetEmotes m]), cache'))
      | Failed status \<Rightarrow>
          (Some (announce_failure channelAlive manualRefresh 404 status ''BetterTTV'' ''This channel has no BetterTTV channel emotes.''), cache))"

section \<open>Emotes of FrankerFaceZ\<close>

text \<open>\<open>None\<close>: a failed assertion.\<close>

definition ffz_getEmoteLink :: "qobject \<Rightarrow> qstring \<Rightarrow> qstring option" where
  "ffz_getEmoteLink urls emoteScale =
     (case json_value urls emoteScale of QUndefined \<Rightarrow> Some [] | QNull \<Rightarrow> Some [] | QString s \<Rightarrow> Some (''https:'' @ s) | _ \<Rightarrow> None)"

definition ffz_images :: "qobject \<Rightarrow> image_set option" where
  "ffz_images urls =
     (case (ffz_getEmoteLink urls ''1'', ffz_getEmoteLink urls ''2'', ffz_getEmoteLink urls ''4'') of
        (Some u1, Some u2, Some u4) \<Rightarrow>
          Some \<lparr>is_1 = picture_url u1 1 1, is_2 = picture_or_empty u2 1 2, is_3 = picture_or_empty u4 1 4, is_4 = None\<rparr>
      | _ \<Rightarrow> None)"

definition ffz_emote :: "bool \<Rightarrow> qobject \<Rightarrow> (qstring \<times> emote) option" where
  "ffz_emote isGlobal j =
     (let n = text_member j ''name''; i = show_int (int_member j ''id'');
          author = text_member (object_member j ''owner'') ''display_name''
      in map_option (\<lambda>images. (i,
           \<lparr>e_name = n, e_images = images,
            e_tooltip = (if isGlobal then n @ ''<br>Global FFZ Emote'' else qarg (qarg ''%1<br>Channel FFZ Emote<br>By: %2'' n) author),
            e_homePage = qarg (qarg ''https://www.frankerfacez.com/emoticon/%1-%2'' i) n, e_zeroWidth = False\<rparr>))
         (ffz_images (object_member j ''urls'')))"

definition ffz_set_emotes :: "qobject \<Rightarrow> qobject list" where
  "ffz_set_emotes j = concat (map (\<lambda>(_, s). map toObject (toArray (json_value (toObject s) ''emoticons''))) (object_member j ''sets''))"

definition ffz_parseGlobalEmotes :: "qobject \<Rightarrow> emote_map \<Rightarrow> emote_map option" where
  "ffz_parseGlobalEmotes j current =
     fold (\<lambda>x m. case (m, ffz_emote True x) of
         (Some m', Some (_, e)) \<Rightarrow> Some (AList.update (e_name e) (reuse_emote e current) m') | _ \<Rightarrow> None) (ffz_set_emotes j) (Some [])"

definition parseAuthorityBadge :: "qobject \<Rightarrow> qstring \<Rightarrow> emote option option" where
  "parseAuthorityBadge badgeUrls tooltip =
     (if badgeUrls = [] then Some None
      else (case (ffz_images badgeUrls, ffz_getEmoteLink badgeUrls ''1'') of
          (Some images, Some u1) \<Rightarrow>
            Some (Some \<lparr>e_name = [], e_images = images, e_tooltip = tooltip, e_homePage = u1, e_zeroWidth = False\<rparr>)
        | _ \<Rightarrow> None))"

definition ffz_parseChannelEmotes :: "(qstring \<Rightarrow> bool) \<Rightarrow> qobject \<Rightarrow> emote_cache \<Rightarrow> (emote_map \<times> emote_cache) option" where
  "ffz_parseChannelEmotes alive j cache =
     fold (\<lambda>x s. case (s, ffz_emote False x) of (Some s', Some ie) \<Rightarrow> Some (put_emote alive ie s') | _ \<Rightarrow> None)
       (ffz_set_emotes j) (Some ([], cache))"

text \<open>\<open>None\<close>: a failed assertion or a null pointer.\<close>

definition ffz_loadChannel ::
  "(qstring \<Rightarrow> bool) \<Rightarrow> bool \<Rightarrow> bool \<Rightarrow> http_answer \<Rightarrow> emote_cache \<Rightarrow> (load_effect list \<times> emote_cache) option" where
  "ffz_loadChannel alive channelAlive manualRefresh a cache =
     (case a of
        Answered j \<Rightarrow>
          (let room = object_member j ''room''
           in case (ffz_parseChannelEmotes alive j cache, parseAuthorityBadge (object_member room ''mod_urls'') ''Moderator'',
                   parseAuthorityBadge (object_member room ''vip_badge'') ''VIP'') of
                (Some (m, cache'), Some modBadge, Some vipBadge) \<Rightarrow>
                  map_option (\<lambda>es. (es, cache'))
                    (announce_reload channelAlive manualRefresh (m \<noteq> []) ''FrankerFaceZ channel emotes reloaded.''
                       ''This channel has no FrankerFaceZ channel emotes.''
                       (when_alive channelAlive [SetEmotes m, SetModBadge modBadge, SetVipBadge vipBadge]))
              | _ \<Rightarrow> None)
      | Failed status \<Rightarrow>
          Some (announce_failure channelAlive manualRefresh 404 status ''FrankerFaceZ''
             ''This channel has no FrankerFaceZ channel emotes.'', cache))"

section \<open>Badges\<close>

text \<open>Badges of Chatterino and Dankerino, and of 7TV: the badges in order and the index of the badge of every user.\<close>

type_synonym badge_table = "emote list \<times> (qstring \<times> nat) list"

definition badge_emote :: "image_set \<Rightarrow> qstring \<Rightarrow> emote" where
  "badge_emote images tooltip = \<lparr>e_name = [], e_images = images, e_tooltip = tooltip, e_homePage = [], e_zeroWidth = False\<rparr>"

definition read_c2_badge :: "qobject \<Rightarrow> emote" where
  "read_c2_badge j = badge_emote (ImageSet_urls (text_member j ''image1'') (text_member j ''image2'') (text_member j ''image3'') [])
     (text_member j ''tooltip'')"

definition json_at :: "qjson list \<Rightarrow> nat \<Rightarrow> qjson" where
  "json_at vs k = (if k < length vs then vs ! k else QUndefined)"

definition read_stv_badge :: "qobject \<Rightarrow> emote" where
  "read_stv_badge j =
     (let urls = toArray (json_value j ''urls''); url = (\<lambda>k. json_toString [] (json_at (toArray (json_at urls k)) 1))
      in badge_emote (ImageSet_urls (url 0) (url 1) (url 2) []) (text_member j ''tooltip''))"

text \<open>\<open>index\<close> counts the badges of this answer.\<close>

definition load_badge :: "(qobject \<Rightarrow> emote) \<Rightarrow> qobject \<Rightarrow> nat \<times> badge_table \<Rightarrow> nat \<times> badge_table" where
  "load_badge readBadge j = (\<lambda>(index, emotes, badgeMap).
     (Suc index, emotes @ [readBadge j],
      fold (\<lambda>user. AList.update (json_toString [] user) index) (toArray (json_value j ''users'')) badgeMap))"

definition load_badges :: "(qobject \<Rightarrow> emote) \<Rightarrow> qobject \<Rightarrow> badge_table \<Rightarrow> badge_table" where
  "load_badges readBadge j t = snd (fold (load_badge readBadge) (map toObject (toArray (json_value j ''badges''))) (0, t))"

text \<open>\<open>None\<close>: an index out of range.\<close>

definition getBadge :: "badge_table \<Rightarrow> qstring \<Rightarrow> emote option option" where
  "getBadge t userId =
     (case map_of (snd t) userId of
        None \<Rightarrow> Some None
      | Some k \<Rightarrow> if k < length (fst t) then Some (Some (fst t ! k)) else None)"

record ffz_badges =
  fb_badges :: "(int \<times> emote \<times> qstring) list"
  fb_users :: "(qstring \<times> int list) list"

definition ffz_getBadge :: "ffz_badges \<Rightarrow> int \<Rightarrow> (emote \<times> qstring) option" where
  "ffz_getBadge b badgeID = map_of (fb_badges b) badgeID"

definition ffz_getUserBadges :: "ffz_badges \<Rightarrow> qstring \<Rightarrow> (emote \<times> qstring) list" where
  "ffz_getUserBadges b userId =
     (case map_of (fb_users b) userId of None \<Rightarrow> [] | Some ids \<Rightarrow> List.map_filter (ffz_getBadge b) ids)"

definition ffz_user_badge :: "int \<Rightarrow> qjson \<Rightarrow> (qstring \<times> int list) list \<Rightarrow> (qstring \<times> int list) list" where
  "ffz_user_badge badgeID user m =
     (let u = show_int (json_toInt 0 user)
      in AList.update u (case map_of m u of None \<Rightarrow> [badgeID] | Some ids \<Rightarrow> ids @ [badgeID]) m)"

definition ffz_load_badge :: "qobject \<Rightarrow> qobject \<Rightarrow> ffz_badges \<Rightarrow> ffz_badges" where
  "ffz_load_badge whole j b =
     (let urls = object_member j ''urls''; url = (\<lambda>k. ''https:'' @ text_member urls k); badgeID = int_member j ''id'';
          e = badge_emote (ImageSet_urls (url ''1'') (url ''2'') (url ''4'') []) (text_member j ''title'')
      in b\<lparr>fb_badges := AList.update badgeID (e, text_member j ''color'') (fb_badges b),
           fb_users := fold (ffz_user_badge badgeID) (toArray (json_value (object_member whole ''users'') (show_int badgeID))) (fb_users b)\<rparr>)"

definition ffz_load_badges :: "qobject \<Rightarrow> ffz_badges \<Rightarrow> ffz_badges" where
  "ffz_load_badges whole = fold (\<lambda>v. ffz_load_badge whole (toObject v)) (toArray (json_value whole ''badges''))"

section \<open>The map of a channel's emotes\<close>

text \<open>Every emote is listed under its name, once.\<close>

definition names_ok :: "emote_map \<Rightarrow> bool" where
  "names_ok m \<longleftrightarrow> distinct (map fst m) \<and> (\<forall>n e. map_of m n = Some e \<longrightarrow> e_name e = n)"

lemma names_ok_empty [simp]: "names_ok []"
  by (simp add: names_ok_def)

lemma names_ok_update [invariants]: "names_ok m \<Longrightarrow> e_name e = n \<Longrightarrow> names_ok (AList.update n e m)"
  by (simp add: names_ok_def distinct_update update_conv')

lemma names_ok_delete [invariants]: "names_ok m \<Longrightarrow> names_ok (AList.delete n m)"
  by (simp add: names_ok_def distinct_delete delete_conv')

lemma cachedOrMake_name: "e_name (fst (cachedOrMake alive e i c)) = e_name e"
  by (auto simp: cachedOrMake_def same_emote_def split: option.split)

lemma put_emote_fst: "fst (put_emote alive (i, e) (m, c)) = AList.update (e_name e) (fst (cachedOrMake alive e i c)) m"
  by (simp add: put_emote_def case_prod_beta)

lemma put_emote_ok: "names_ok (fst s) \<Longrightarrow> names_ok (fst (put_emote alive ie s))"
  by (cases ie; cases s) (simp add: put_emote_fst names_ok_update cachedOrMake_name)

lemma channel_emotes_ok: "names_ok (fst (stv_parseChannelEmotes alive u j cache))"
proof -
  have "names_ok (fst s) \<Longrightarrow> names_ok (fst (fold (\<lambda>v s. if checkEmoteVisibility u (toObject v)
      then put_emote alive (createEmote (toObject v) False) s else s) vs s))" for vs s
    by (induction vs arbitrary: s) (simp_all add: put_emote_ok)
  then show ?thesis by (simp add: stv_parseChannelEmotes_def)
qed

text \<open>What happens to the map: it is replaced by what was loaded, or one emote is added, changed or removed.\<close>

datatype stv_event = StvLoaded qobject | StvAdded qobject | StvUpdated qstring qobject | StvRemoved qstring

definition stv_step :: "bool \<Rightarrow> (qstring \<Rightarrow> bool) \<times> stv_event \<Rightarrow> emote_map \<times> emote_cache \<Rightarrow> emote_map \<times> emote_cache" where
  "stv_step showUnlisted = (\<lambda>(alive, ev) (m, cache).
     case ev of
       StvLoaded j \<Rightarrow> stv_parseChannelEmotes alive showUnlisted j cache
     | StvAdded j \<Rightarrow> snd (stv_addEmote alive showUnlisted j (m, cache))
     | StvUpdated n j \<Rightarrow> snd (stv_updateEmote alive n j (m, cache))
     | StvRemoved n \<Rightarrow> (snd (stv_removeEmote n m), cache))"

lemma stv_step_ok: "names_ok (fst s) \<Longrightarrow> names_ok (fst (stv_step u ae s))"
proof -
  assume ok: "names_ok (fst s)"
  obtain m c where s: "s = (m, c)" by force
  obtain alive ev where ae: "ae = (alive, ev)" by force
  have add: "fst (snd (stv_addEmote alive u j (m, c))) = (if checkEmoteVisibility u j then fst (put_emote alive (createEmote j False) (m, c)) else m)" for j
    by (simp add: stv_addEmote_def case_prod_beta)
  have upd: "fst (snd (stv_updateEmote alive n j (m, c))) = (case findEmote alive c m n j of None \<Rightarrow> m
      | Some old \<Rightarrow> fst (put_emote alive (createEmote j False) (AList.delete (e_name old) m, c)))" for n j
    by (simp add: stv_updateEmote_def case_prod_beta split: option.split)
  show ?thesis
    using ok put_emote_ok [of "(m, c)"] put_emote_ok [of "(AList.delete n m, c)" for n]
    by (cases ev) (auto simp: stv_step_def s ae channel_emotes_ok add upd stv_removeEmote_def names_ok_delete split: option.split)
qed

lemma findEmote_listed:
  assumes "findEmote alive cache m emoteBaseName j = Some e"
  shows "(\<exists>n. (n, e) \<in> set m) \<and> suffix (text_member j ''id'') (e_homePage e)"
  using assms unfolding findEmote_def Let_def
  by (auto dest!: map_of_SomeD find_SomeD split: option.splits if_splits)

section \<open>Properties\<close>

text \<open>
  Whatever is loaded, added, renamed and removed, every emote of a channel is listed once, under its own name.
\<close>

theorem emotes_under_their_names: "names_ok (fst (fold (stv_step showUnlisted) es ([], cache)))"
proof -
  have "names_ok (fst s) \<Longrightarrow> names_ok (fst (fold (stv_step showUnlisted) es s))" for s
    by (induction es arbitrary: s) (simp_all add: stv_step_ok)
  then show ?thesis by simp
qed

text \<open>
  The search for the emote that an update is about finds one exactly if the channel has an emote with that id,
  wherever the cache and the given name lead: the shortcuts change which one is looked at first, not whether one is found.
\<close>

theorem findEmote_complete:
  "case findEmote alive cache m emoteBaseName j of
     None \<Rightarrow> filter (\<lambda>(_, e). suffix (text_member j ''id'') (e_homePage e)) m = []
   | Some e \<Rightarrow> e \<in> snd ` set (filter (\<lambda>(_, e). suffix (text_member j ''id'') (e_homePage e)) m)"
proof (cases "findEmote alive cache m emoteBaseName j")
  case None
  then have "List.find (\<lambda>(_, e). suffix (text_member j ''id'') (e_homePage e)) m = None"
    unfolding findEmote_def Let_def by (simp split: option.splits if_splits)
  then show ?thesis by (auto simp: None find_None_iff filter_empty_conv)
next
  case (Some e)
  then show ?thesis using findEmote_listed [OF Some] by force
qed

text \<open>
  An update of an emote takes the place of exactly the emote that was found: the old name is gone unless the new
  emote has it, the new name stands for the emote of the update, and every other name is untouched; the old name is
  what is announced.
\<close>

theorem update_renames:
  assumes "names_ok m" and "findEmote alive cache m emoteBaseName j = Some old"
  shows "case stv_updateEmote alive emoteBaseName j (m, cache) of (r, m', _) \<Rightarrow>
     \<exists>e. r = Some (e, e_name old) \<and> e_name e = text_member j ''name'' \<and> map_of m (e_name old) = Some old \<and>
       map_of m' = (map_of m)(e_name old := None, text_member j ''name'' \<mapsto> e)"
proof -
  obtain i e where c: "createEmote j False = (i, e)" by force
  have n: "e_name e = text_member j ''name''" using c by (auto simp: createEmote_def Let_def)
  have "\<exists>n. (n, old) \<in> set m" using findEmote_listed [OF assms(2)] by blast
  then obtain k where k: "map_of m k = Some old" using assms(1) by (auto simp: names_ok_def)
  then have "map_of m (e_name old) = Some old" using assms(1) by (auto simp: names_ok_def)
  then show ?thesis
    by (simp add: stv_updateEmote_def assms(2) c put_emote_def case_prod_beta n cachedOrMake_name update_conv' delete_conv')
qed

theorem update_renames_witness:
  "\<exists>e m'. stv_updateEmote (\<lambda>_. False) ''Old'' [(''id'', QString ''7''), (''name'', QString ''New'')]
       ([(''Old'', snd (createEmote [(''id'', QString ''7''), (''name'', QString ''Old'')] False))], []) = (Some (e, ''Old''), m') \<and>
     map_of (fst m') ''Old'' = None"
proof -
  let ?old = "snd (createEmote [(''id'', QString ''7''), (''name'', QString ''Old'')] False)"
  let ?j = "[(''id'', QString ''7''), (''name'', QString ''New'')]"
  have n: "e_name ?old = ''Old''" "e_homePage ?old = ''https://7tv.app/emotes/7''"
    by (simp_all add: createEmote_def Let_def text_member_def json_value_def)
  have ok: "names_ok [(''Old'', ?old)]" by (simp add: names_ok_def n)
  have f: "findEmote (\<lambda>_. False) [] [(''Old'', ?old)] ''Old'' ?j = Some ?old"
    by (simp add: findEmote_def n text_member_def json_value_def suffix_def)
  from update_renames [OF ok f] show ?thesis
    by (auto simp: n text_member_def json_value_def split: prod.splits)
qed

fun find_last :: "('a \<Rightarrow> bool) \<Rightarrow> 'a list \<Rightarrow> nat option" where
  "find_last P [] = None"
| "find_last P (x # xs) = (case find_last P xs of Some k \<Rightarrow> Some (Suc k) | None \<Rightarrow> if P x then Some 0 else None)"

lemma find_last_spec:
  "List.find P (rev xs) = map_option (\<lambda>k. xs ! k) (find_last P xs) \<and> (case find_last P xs of Some k \<Rightarrow> k < length xs | None \<Rightarrow> True)"
  by (induction xs) (auto simp: find_append split: option.splits)

text \<open>
  The badge of a user is the last badge of the answer whose list of users has the user's id.
\<close>

theorem last_badge_wins:
  "getBadge (load_badges readBadge j ([], [])) userId =
     Some (map_option readBadge (List.find (\<lambda>b. userId \<in> json_toString [] ` set (toArray (json_value b ''users'')))
       (rev (map toObject (toArray (json_value j ''badges''))))))"
proof -
  let ?has = "\<lambda>b. userId \<in> json_toString [] ` set (toArray (json_value b ''users''))"
  have users: "map_of (fold (\<lambda>user. AList.update (json_toString [] user) index) us m) userId =
      (if userId \<in> json_toString [] ` set us then Some index else map_of m userId)" for us index and m :: "(qstring \<times> nat) list"
    by (induction us arbitrary: m) (auto simp: update_conv')
  have one: "load_badge readBadge b (k, es, m) = (Suc k, es @ [readBadge b],
      fold (\<lambda>user. AList.update (json_toString [] user) k) (toArray (json_value b ''users'')) m)" for b k es m
    by (simp add: load_badge_def)
  have run: "fold (load_badge readBadge) bs (length es, es, m) = (n', es', m') \<Longrightarrow>
      n' = length es + length bs \<and> es' = es @ map readBadge bs \<and>
      map_of m' userId = (case find_last ?has bs of Some k \<Rightarrow> Some (length es + k) | None \<Rightarrow> map_of m userId)" for bs es m n' es' m'
  proof (induction bs arbitrary: es m)
    case (Cons b bs)
    from Cons.prems have "fold (load_badge readBadge) bs (length (es @ [readBadge b]), es @ [readBadge b],
        fold (\<lambda>user. AList.update (json_toString [] user) (length es)) (toArray (json_value b ''users'')) m) = (n', es', m')"
      by (simp add: one)
    from Cons.IH [OF this] show ?case by (auto simp: users split: option.splits)
  qed simp
  obtain n' es' m' where f: "fold (load_badge readBadge) (map toObject (toArray (json_value j ''badges''))) (0, [], []) = (n', es', m')"
    by (metis prod_cases3)
  let ?bs = "map toObject (toArray (json_value j ''badges''))"
  have r: "es' = map readBadge ?bs" "map_of m' userId = find_last ?has ?bs"
    using run [of "?bs" "[]" "[]" n' es' m'] f by (simp_all split: option.splits)
  show ?thesis
    using find_last_spec [of ?has ?bs] by (simp add: getBadge_def load_badges_def f r split: option.splits)
qed

text \<open>A picture that is loaded is shown whenever the set of pictures has one.\<close>

theorem loaded_picture_preferred:
  assumes "p \<in> {is_1 s, is_2 s, is_3 s, is_4 s}" "p \<noteq> None" "loaded p"
  shows "loaded (getImageOrLoaded loaded emoteScale scale s)"
proof (cases "loaded (getImagePriv emoteScale scale s)")
  case False
  have "is_1 s \<noteq> None \<and> loaded (is_1 s) \<or> is_2 s \<noteq> None \<and> loaded (is_2 s) \<or> is_3 s \<noteq> None \<and> loaded (is_3 s) \<or> is_4 s \<noteq> None \<and> loaded (is_4 s)"
    using assms by blast
  then show ?thesis by (elim disjE conjE) (simp_all only: getImageOrLoaded_def Let_def False if_False simp_thms if_True split: if_splits, blast+)
qed (simp add: getImageOrLoaded_def Let_def)

theorem loaded_picture_preferred_witness:
  "getImageOrLoaded (\<lambda>p. p = Some (''1'', 1, 1)) 1 3 (ImageSet_urls ''1'' ''2'' ''3'' []) = Some (''1'', 1, 1)"
  using loaded_picture_preferred [of "Some (''1'', 1, 1)" "ImageSet_urls ''1'' ''2'' ''3'' []" "\<lambda>p. p = Some (''1'', 1, 1)" 1 3]
  by (simp add: ImageSet_urls_def picture_url_def)

section \<open>Where the program differs from what it means to do\<close>

text \<open>Two emotes that differ in \<open>zeroWidth\<close> only are the same, so the change of the flag has no effect.\<close>

lemma zero_width_change_lost:
  assumes "alive i" "map_of cache i = Some e"
  shows "cachedOrMake alive (e\<lparr>e_zeroWidth := \<not> e_zeroWidth e\<rparr>) i cache = (e, cache)"
  using assms by (simp add: cachedOrMake_def cache_get_def same_emote_def same_pictures_def)

text \<open>A channel that lost its last emote keeps the old ones, although the reload says that it has none.\<close>

lemma last_emotes_stay:
  "fst (stv_loadChannel alive u True True (Answered []) cache) = Some [Announce ''This channel has no 7TV channel emotes.'']"
  by (simp add: stv_loadChannel_def stv_parseChannelEmotes_def object_member_def announce_reload_def)

text \<open>A manual reload whose channel was closed in the meantime dereferences a null pointer.\<close>

lemma reload_of_closed_channel:
  "fst (stv_loadChannel alive u False True (Answered j) cache) = None"
  "fst (bttv_loadChannel alive n False True (Answered j) cache) = None"
  "ffz_loadChannel alive False True (Answered j) cache = None"
  by (simp_all add: stv_loadChannel_def bttv_loadChannel_def ffz_loadChannel_def announce_reload_def case_prod_beta Let_def split: option.split prod.split)

end
