(* ===== verification/Seventv_Events.thy ===== *)
theory Seventv_Events
  imports Emotes Twitch_Delivery PubSub_Correct
begin

text \<open>
  \<open>providers/seventv/SeventvEventApiClient.cpp\<close> and \<open>SeventvEventApiManager.cpp\<close>: the channels whose changes of
  7TV emotes the program listens to, spread over connections of at most 100 channels; the messages of the
  connections (\<open>eventapimessages/\<close>), and what a change does to a channel (\<open>Application.cpp\<close>, \<open>TwitchChannel.cpp\<close>).
  As for PubSub, all handlers run on one thread; the websocket library is not in the repository, so the outcome of
  a call that may fail is an argument and a callback is an event. Times are milliseconds.
\<close>

section \<open>A client\<close>

definition EV_MAX_LISTENS :: nat where
  "EV_MAX_LISTENS = 100"

definition CHECK_PING_INTERVAL :: int where
  "CHECK_PING_INTERVAL = 60000"

record ev_client =
  ec_channels :: "qstring list"
  ec_lastPing :: int
  ec_started :: bool

definition SeventvEventApiClient :: "int \<Rightarrow> ev_client" where
  "SeventvEventApiClient now = \<lparr>ec_channels = [], ec_lastPing = now, ec_started = False\<rparr>"

datatype ev_effect =
    EvConnect
  | SendJoin conn_handle qstring
  | SendPart conn_handle qstring
  | EvClose conn_handle qstring
  | StartCheckTimer conn_handle
  | StartRetryTimer int

definition ec_join :: "qstring \<Rightarrow> ev_client \<Rightarrow> ev_client option" where
  "ec_join channel' c = (if length (ec_channels c) \<ge> EV_MAX_LISTENS then None else Some (c\<lparr>ec_channels := ec_channels c @ [channel']\<rparr>))"

definition ec_part :: "qstring \<Rightarrow> ev_client \<Rightarrow> ev_client option" where
  "ec_part channel' c = (if channel' \<in> set (ec_channels c) then Some (c\<lparr>ec_channels := remove1 channel' (ec_channels c)\<rparr>) else None)"

definition ec_handlePing :: "int \<Rightarrow> ev_client \<Rightarrow> ev_client" where
  "ec_handlePing now c = c\<lparr>ec_lastPing := now\<rparr>"

definition ec_isJoinedChannel :: "qstring \<Rightarrow> ev_client \<Rightarrow> bool" where
  "ec_isJoinedChannel channel' c \<longleftrightarrow> channel' \<in> set (ec_channels c)"

text \<open>\<open>None\<close>: a failed assertion.\<close>

definition ec_checkPing :: "int \<Rightarrow> conn_handle \<Rightarrow> ev_client \<Rightarrow> ev_effect list option" where
  "ec_checkPing now h c =
     (if \<not> ec_started c then None
      else if now - ec_lastPing c > CHECK_PING_INTERVAL then Some [EvClose h (''Didn'' @ [CHR 0x27] @ ''t receive a ping in time'')]
      else Some [StartCheckTimer h])"

definition ec_start :: "int \<Rightarrow> conn_handle \<Rightarrow> ev_client \<Rightarrow> (ev_effect list \<times> ev_client) option" where
  "ec_start now h c =
     (if ec_started c then None
      else (let c' = c\<lparr>ec_started := True, ec_lastPing := now\<rparr> in map_option (\<lambda>es. (es, c')) (ec_checkPing now h c')))"

definition ec_stop :: "ev_client \<Rightarrow> ev_client option" where
  "ec_stop c = (if ec_started c then Some (c\<lparr>ec_started := False\<rparr>) else None)"

section \<open>The manager\<close>

record ev_manager =
  ev_clients :: "(conn_handle \<times> ev_client) list"
  ev_pending :: "qstring list"
  ev_adding :: bool
  ev_backoff :: backoff
  ev_stopping :: bool
  ev_effects :: "ev_effect list"

definition SeventvEventApi :: ev_manager where
  "SeventvEventApi = \<lparr>ev_clients = [], ev_pending = [], ev_adding = False, ev_backoff = ExponentialBackoff 1000,
     ev_stopping = False, ev_effects = []\<rparr>"

definition ev_emit :: "ev_effect list \<Rightarrow> ev_manager \<Rightarrow> ev_manager" where
  "ev_emit es s = s\<lparr>ev_effects := ev_effects s @ es\<rparr>"

definition ev_put :: "conn_handle \<Rightarrow> ev_client \<Rightarrow> ev_manager \<Rightarrow> ev_manager" where
  "ev_put h c s = s\<lparr>ev_clients := qmap_insert h c (ev_clients s)\<rparr>"

text \<open>When \<open>get_connection\<close> fails, \<open>addingClient\<close> stays set.\<close>

definition ev_addClient :: "bool \<Rightarrow> ev_manager \<Rightarrow> ev_manager" where
  "ev_addClient connOk s =
     (if ev_adding s then s
      else if connOk then ev_emit [EvConnect] (s\<lparr>ev_adding := True\<rparr>) else s\<lparr>ev_adding := True\<rparr>)"

definition ev_stop :: "ev_manager \<Rightarrow> ev_manager" where
  "ev_stop s = ev_emit (map (\<lambda>(h, _). EvClose h ''Shutting down'') (ev_clients s)) (s\<lparr>ev_stopping := True\<rparr>)"

text \<open>The first client that has room.\<close>

fun tryJoin_loop :: "(conn_handle \<times> ev_client) list \<Rightarrow> qstring \<Rightarrow> ev_manager \<Rightarrow> ev_manager option" where
  "tryJoin_loop [] channel' s = None"
| "tryJoin_loop ((h, c) # rest) channel' s =
     (case ec_join channel' c of
        Some c' \<Rightarrow> Some (ev_emit [SendJoin h channel'] (ev_put h c' s))
      | None \<Rightarrow> tryJoin_loop rest channel' s)"

definition tryJoinChannel :: "qstring \<Rightarrow> ev_manager \<Rightarrow> ev_manager option" where
  "tryJoinChannel channel' s = tryJoin_loop (ev_clients s) channel' s"

definition ev_joinChannel :: "bool \<Rightarrow> qstring \<Rightarrow> ev_manager \<Rightarrow> ev_manager" where
  "ev_joinChannel connOk channel' s =
     (case tryJoinChannel channel' s of
        Some s' \<Rightarrow> s'
      | None \<Rightarrow> (let s1 = ev_addClient connOk s in s1\<lparr>ev_pending := ev_pending s1 @ [channel']\<rparr>))"

definition ev_partChannel :: "qstring \<Rightarrow> ev_manager \<Rightarrow> ev_manager" where
  "ev_partChannel channel' s =
     (case List.find (\<lambda>(_, c). ec_isJoinedChannel channel' c) (ev_clients s) of
        None \<Rightarrow> s
      | Some (h, c) \<Rightarrow> (case ec_part channel' c of None \<Rightarrow> s | Some c' \<Rightarrow> ev_emit [SendPart h channel'] (ev_put h c' s)))"

definition ev_isJoinedChannel :: "qstring \<Rightarrow> ev_manager \<Rightarrow> bool" where
  "ev_isJoinedChannel channel' s \<longleftrightarrow> list_ex (\<lambda>(_, c). ec_isJoinedChannel channel' c) (ev_clients s)"

subsection \<open>Connections\<close>

text \<open>A new client takes waiting channels from the end, as many as it may have; a channel it does not accept is lost.\<close>

fun take_pending :: "nat \<Rightarrow> conn_handle \<Rightarrow> ev_client \<Rightarrow> ev_manager \<Rightarrow> bool \<times> ev_manager" where
  "take_pending 0 h c s = (True, s)"
| "take_pending (Suc k) h c s =
     (if ev_pending s = [] then (True, s)
      else
        (let last' = last (ev_pending s); s1 = s\<lparr>ev_pending := butlast (ev_pending s)\<rparr>
         in case ec_join last' c of
              None \<Rightarrow> (False, s1)
            | Some c' \<Rightarrow> take_pending k h c' (ev_emit [SendJoin h last'] (ev_put h c' s1))))"

definition ev_onConnectionOpen :: "bool \<Rightarrow> int \<Rightarrow> conn_handle \<Rightarrow> ev_manager \<Rightarrow> ev_manager option" where
  "ev_onConnectionOpen connOk now h s =
     (let s1 = s\<lparr>ev_adding := False, ev_backoff := backoff_reset (ev_backoff s)\<rparr>
      in case ec_start now h (SeventvEventApiClient now) of
           None \<Rightarrow> None
         | Some (es, c) \<Rightarrow>
             (let s2 = ev_put h c (ev_emit es s1)
              in case take_pending (min (length (ev_pending s2)) EV_MAX_LISTENS) h c s2 of
                   (ok, s3) \<Rightarrow> Some (if ok \<and> ev_pending s3 \<noteq> [] then ev_addClient connOk s3 else s3)))"

text \<open>The backoff has five steps, so its delay is defined.\<close>

definition ev_onConnectionFail :: "ev_manager \<Rightarrow> ev_manager option" where
  "ev_onConnectionFail s =
     (let s1 = s\<lparr>ev_adding := False\<rparr>
      in if ev_pending s1 \<noteq> [] then
           (case backoff_next 5 (ev_backoff s1) of
              None \<Rightarrow> None
            | Some (d, b) \<Rightarrow> Some (ev_emit [StartRetryTimer d] (s1\<lparr>ev_backoff := b\<rparr>)))
         else Some s1)"

definition ev_onRetryTimer :: "bool \<Rightarrow> ev_manager \<Rightarrow> ev_manager" where
  "ev_onRetryTimer connOk s = ev_addClient connOk s"

definition ev_onConnectionClose :: "bool \<Rightarrow> conn_handle \<Rightarrow> ev_manager \<Rightarrow> ev_manager option" where
  "ev_onConnectionClose connOk h s =
     (case map_of (ev_clients s) h of
        None \<Rightarrow> None
      | Some client \<Rightarrow>
          (let s1 = s\<lparr>ev_clients := qmap_remove h (ev_clients s)\<rparr>
           in case ec_stop client of
                None \<Rightarrow> None
              | Some client' \<Rightarrow>
                  Some (if \<not> ev_stopping s1 then fold (ev_joinChannel connOk) (ec_channels client') s1 else s1)))"

definition ev_onPing :: "int \<Rightarrow> conn_handle \<Rightarrow> ev_manager \<Rightarrow> ev_manager option" where
  "ev_onPing now h s = (case map_of (ev_clients s) h of None \<Rightarrow> None | Some c \<Rightarrow> Some (ev_put h (ec_handlePing now c) s))"

text \<open>The timer keeps its client alive; one that was stopped does nothing.\<close>

definition ev_onCheckTimer :: "int \<Rightarrow> conn_handle \<Rightarrow> ev_manager \<Rightarrow> ev_manager option" where
  "ev_onCheckTimer now h s =
     (case map_of (ev_clients s) h of
        None \<Rightarrow> Some s
      | Some c \<Rightarrow> if ec_started c then map_option (\<lambda>es. ev_emit es s) (ec_checkPing now h c) else Some s)"

section \<open>Messages\<close>

datatype ev_action = EvPing | EvSuccess | EvUpdate | EvError | EvInvalid

datatype emote_action = EmoteAdd | EmoteRemove | EmoteUpdate | EmoteInvalid

text \<open>
  The member \<open>action\<close> is not initialised: where the text names no action it has whatever value was there before,
  which is the argument \<open>garbage\<close>.
\<close>

definition message_action :: "ev_action \<Rightarrow> qobject \<Rightarrow> ev_action" where
  "message_action garbage j =
     (let a = text_member j ''action''
      in if a = ''ping'' then EvPing else if a = ''success'' then EvSuccess else if a = ''update'' then EvUpdate
         else if a = ''error'' then EvError else if a = ''INVALID'' then EvInvalid else garbage)"

record emote_update =
  eu_channel :: qstring
  eu_emoteId :: qstring
  eu_actor :: qstring
  eu_emoteName :: qstring
  eu_action :: emote_action
  eu_emote :: "(qobject \<times> qstring) option"

definition null_if_missing :: "qjson \<Rightarrow> qjson" where
  "null_if_missing v = (case v of QUndefined \<Rightarrow> QNull | _ \<Rightarrow> v)"

definition EventApiEmoteUpdate :: "emote_action \<Rightarrow> qobject \<Rightarrow> emote_update" where
  "EventApiEmoteUpdate garbage j =
     (let a = text_member j ''action''
      in \<lparr>eu_channel = text_member j ''channel'', eu_emoteId = text_member j ''emote_id'', eu_actor = text_member j ''actor'',
          eu_emoteName = text_member j ''name'',
          eu_action = (if a = ''ADD'' then EmoteAdd else if a = ''UPDATE'' then EmoteUpdate else if a = ''REMOVE'' then EmoteRemove
              else if a = ''INVALID'' then EmoteInvalid else garbage),
          eu_emote = (case json_value j ''emote'' of
              QObject e \<Rightarrow>
                Some (json_insert ''id'' (null_if_missing (json_value j ''emote_id''))
                        (json_insert ''name'' (null_if_missing (json_value j ''name'')) e), text_member e ''name'')
            | _ \<Rightarrow> None)\<rparr>)"

text \<open>\<open>parse\<close> reads a text as JSON, \<open>None\<close> where it is not.\<close>

definition ev_toInner :: "(qstring \<Rightarrow> qjson option) \<Rightarrow> emote_action \<Rightarrow> qobject \<Rightarrow> emote_update option" where
  "ev_toInner parse garbage j =
     (case json_value j ''payload'' of
        QString t \<Rightarrow> (case parse t of Some (QObject d) \<Rightarrow> Some (EventApiEmoteUpdate garbage d) | _ \<Rightarrow> None)
      | _ \<Rightarrow> None)"

definition ev_onMessage ::
  "(qstring \<Rightarrow> qjson option) \<Rightarrow> ev_action \<Rightarrow> emote_action \<Rightarrow> int \<Rightarrow> conn_handle \<Rightarrow> qstring \<Rightarrow> ev_manager \<Rightarrow> (emote_update option \<times> ev_manager) option" where
  "ev_onMessage parse garbage garbage' now h payload s =
     (case parse payload of
        None \<Rightarrow> Some (None, s)
      | Some v \<Rightarrow>
          (case message_action garbage (toObject v) of
             EvPing \<Rightarrow> map_option (Pair None) (ev_onPing now h s)
           | EvUpdate \<Rightarrow> Some (ev_toInner parse garbage' (toObject v), s)
           | _ \<Rightarrow> Some (None, s)))"

section \<open>What a change does to its channel\<close>

text \<open>The emotes of every channel and the cache, beside the state of the Twitch server.\<close>

record 'b stv_world =
  sw_world :: "'b tw_world"
  sw_emotes :: "nat \<Rightarrow> emote_map"
  sw_cache :: emote_cache

definition announce_change :: "('b, msg_ptr) cbuf_ops \<Rightarrow> server_env \<Rightarrow> message \<Rightarrow> nat \<Rightarrow> 'b tw_world \<Rightarrow> 'b tw_world" where
  "announce_change B e m c w =
     (let (p, w1) = make_message m w in run_channel e c (addOrReplaceSevenTvEventAddRemove B (se_timeout e) p) w1)"

definition addSeventvEmote ::
  "('b, msg_ptr) cbuf_ops \<Rightarrow> server_env \<Rightarrow> (qstring \<Rightarrow> bool) \<Rightarrow> bool \<Rightarrow> emote_update \<Rightarrow> nat \<Rightarrow> 'b stv_world \<Rightarrow> 'b stv_world" where
  "addSeventvEmote B e alive showUnlisted u c s =
     (case eu_emote u of
        None \<Rightarrow> s
      | Some (j, _) \<Rightarrow>
          (case stv_addEmote alive showUnlisted j (sw_emotes s c, sw_cache s) of
             (_, m, cache) \<Rightarrow>
               \<lparr>sw_world = announce_change B e (seventvAddEmote (env_now e) (eu_actor u) [text_member j ''name'']) c (sw_world s),
                sw_emotes = (sw_emotes s)(c := m), sw_cache = cache\<rparr>))"

definition updateSeventvEmote ::
  "('b, msg_ptr) cbuf_ops \<Rightarrow> server_env \<Rightarrow> (qstring \<Rightarrow> bool) \<Rightarrow> emote_update \<Rightarrow> nat \<Rightarrow> 'b stv_world \<Rightarrow> 'b stv_world" where
  "updateSeventvEmote B e alive u c s =
     (case eu_emote u of
        None \<Rightarrow> s
      | Some (j, baseName) \<Rightarrow>
          (case stv_updateEmote alive baseName j (sw_emotes s c, sw_cache s) of
             (None, _, _) \<Rightarrow> s
           | (Some (_, oldName), m, cache) \<Rightarrow>
               \<lparr>sw_world = add_new B e c (seventvUpdateEmote (env_now e) (eu_actor u) (text_member j ''name'') oldName) (sw_world s),
                sw_emotes = (sw_emotes s)(c := m), sw_cache = cache\<rparr>))"

definition removeSeventvEmote :: "('b, msg_ptr) cbuf_ops \<Rightarrow> server_env \<Rightarrow> emote_update \<Rightarrow> nat \<Rightarrow> 'b stv_world \<Rightarrow> 'b stv_world" where
  "removeSeventvEmote B e u c s =
     (case stv_removeEmote (eu_emoteName u) (sw_emotes s c) of
        (False, _) \<Rightarrow> s
      | (True, m) \<Rightarrow>
          s\<lparr>sw_world := announce_change B e (seventvRemoveEmote (env_now e) (eu_actor u) [eu_emoteName u]) c (sw_world s),
            sw_emotes := (sw_emotes s)(c := m)\<rparr>)"

text \<open>\<open>handleUpdateAction\<close> and the connected functions: only a Twitch channel has such emotes.\<close>

definition handleUpdateAction ::
  "('b, msg_ptr) cbuf_ops \<Rightarrow> server_env \<Rightarrow> (qstring \<Rightarrow> bool) \<Rightarrow> bool \<Rightarrow> emote_update \<Rightarrow> 'b stv_world \<Rightarrow> 'b stv_world" where
  "handleUpdateAction B e alive showUnlisted u s =
     (case find_channel B e (sw_world s) (eu_channel u) of
        None \<Rightarrow> s
      | Some c \<Rightarrow>
          if w_info (sw_world s) c = None then s
          else (case eu_action u of
              EmoteAdd \<Rightarrow> addSeventvEmote B e alive showUnlisted u c s
            | EmoteUpdate \<Rightarrow> updateSeventvEmote B e alive u c s
            | EmoteRemove \<Rightarrow> removeSeventvEmote B e u c s
            | EmoteInvalid \<Rightarrow> s))"

section \<open>No channel is lost\<close>

definition joined_channels :: "(conn_handle \<times> ev_client) list \<Rightarrow> qstring multiset" where
  "joined_channels m = sum_list (map (\<lambda>(h, c). mset (ec_channels c)) m)"

definition wanted_channels :: "ev_manager \<Rightarrow> qstring multiset" where
  "wanted_channels s = joined_channels (ev_clients s) + mset (ev_pending s)"

definition ev_client_ok :: "ev_client \<Rightarrow> bool" where
  "ev_client_ok c \<longleftrightarrow> length (ec_channels c) \<le> EV_MAX_LISTENS \<and> ec_started c"

definition ev_clients_ok :: "(conn_handle \<times> ev_client) list \<Rightarrow> bool" where
  "ev_clients_ok m \<longleftrightarrow> qmap_ok m \<and> (\<forall>e \<in> set m. ev_client_ok (snd e))"

lemma joined_simps [simp]:
  "joined_channels [] = {#}" "joined_channels ((h, c) # m) = mset (ec_channels c) + joined_channels m"
  by (simp_all add: joined_channels_def)

lemma joined_new: "map_of m h = None \<Longrightarrow> joined_channels (qmap_insert h c m) = mset (ec_channels c) + joined_channels m"
  by (induction h c m rule: qmap_insert.induct) (auto split: if_splits)

lemma joined_update:
  "qmap_ok m \<Longrightarrow> map_of m h = Some c0 \<Longrightarrow>
   joined_channels (qmap_insert h c m) + mset (ec_channels c0) = joined_channels m + mset (ec_channels c)"
proof (induction h c m rule: qmap_insert.induct)
  case (2 h c h' c' m)
  have "h < h' \<Longrightarrow> map_of m h = None" using 2(2) by (auto simp: map_of_eq_None_iff)
  then show ?case using 2 by (auto split: if_splits)
qed simp

lemma joined_remove:
  assumes "qmap_ok m" "map_of m h = Some c"
  shows "joined_channels (qmap_remove h m) + mset (ec_channels c) = joined_channels m"
proof -
  have "map_of (qmap_remove h m) h = None" by simp
  then have "joined_channels (qmap_insert h c (qmap_remove h m)) = mset (ec_channels c) + joined_channels (qmap_remove h m)"
    by (rule joined_new)
  moreover have "qmap_insert h c (qmap_remove h m) = m"
    using assms
  proof (induction m)
    case (Cons e m)
    obtain k d where e: "e = (k, d)" by force
    have none: "k = h \<Longrightarrow> qmap_remove h m = m" and less: "\<And>x. x \<in> set m \<Longrightarrow> k < fst x"
      using Cons.prems(1) e by (auto simp: qmap_remove_def intro!: filter_True)
    show ?case
    proof (cases "k = h")
      case True
      then have "qmap_remove h (e # m) = m" using none e by (simp add: qmap_remove_def)
      moreover have "qmap_insert h c m = (h, c) # m" using less True by (cases m) force+
      ultimately show ?thesis using Cons.prems(2) e True by simp
    next
      case False
      then have "k < h" using Cons.prems(2) less e by (auto dest!: map_of_SomeD)
      then show ?thesis using Cons False e by (simp add: qmap_remove_def)
    qed
  qed simp
  ultimately show ?thesis by simp
qed

lemma ev_clients_ok_insert: "ev_clients_ok m \<Longrightarrow> ev_client_ok c \<Longrightarrow> ev_clients_ok (qmap_insert h c m)"
  by (auto simp: ev_clients_ok_def dest: set_qmap_insert)

lemma ev_clients_ok_remove: "ev_clients_ok m \<Longrightarrow> ev_clients_ok (qmap_remove h m)"
  by (auto simp: ev_clients_ok_def) (auto simp: qmap_remove_def)

lemma ev_clients_okD: "ev_clients_ok m \<Longrightarrow> map_of m h = Some c \<Longrightarrow> ev_client_ok c"
  using map_of_SomeD [of m h c] by (auto simp: ev_clients_ok_def)

definition ev_inv :: "ev_manager \<Rightarrow> bool" where
  "ev_inv s \<longleftrightarrow> ev_clients_ok (ev_clients s) \<and> backoff_ok (ev_backoff s) \<and> \<not> ev_stopping s"

lemma addClient_frame [simp]:
  "ev_clients (ev_addClient k s) = ev_clients s" "ev_pending (ev_addClient k s) = ev_pending s"
  "ev_backoff (ev_addClient k s) = ev_backoff s" "ev_stopping (ev_addClient k s) = ev_stopping s"
  by (simp_all add: ev_addClient_def ev_emit_def)

lemma tryJoin_spec:
  assumes "tryJoin_loop m ch s = Some s'" "\<forall>(h, c) \<in> set m. map_of (ev_clients s) h = Some c" "ev_inv s"
  shows "ev_inv s' \<and> wanted_channels s' = add_mset ch (wanted_channels s)"
  using assms
proof (induction m ch s rule: tryJoin_loop.induct)
  case (2 h c rest ch s)
  show ?case
  proof (cases "ec_join ch c")
    case None
    then show ?thesis using 2 by auto
  next
    case (Some c')
    have h: "map_of (ev_clients s) h = Some c" using 2(3) by auto
    have ok: "ev_clients_ok (ev_clients s)" using 2(4) by (simp add: ev_inv_def)
    have c': "ev_client_ok c'" "ec_channels c' = ec_channels c @ [ch]"
      using Some ev_clients_okD [OF ok h] by (auto simp: ec_join_def ev_client_ok_def split: if_splits)
    have "joined_channels (qmap_insert h c' (ev_clients s)) = add_mset ch (joined_channels (ev_clients s))"
      using joined_update [OF _ h, of c'] ok c'(2) by (simp add: ev_clients_ok_def)
    then show ?thesis using 2(2,4) Some c'(1) ok
      by (auto simp: ev_inv_def wanted_channels_def ev_emit_def ev_put_def ev_clients_ok_insert)
  qed
qed simp

lemma join_spec:
  assumes "ev_inv s"
  shows "ev_inv (ev_joinChannel k ch s) \<and> wanted_channels (ev_joinChannel k ch s) = add_mset ch (wanted_channels s)"
proof (cases "tryJoinChannel ch s")
  case None
  then show ?thesis using assms by (simp add: ev_joinChannel_def ev_inv_def wanted_channels_def Let_def)
next
  case (Some s')
  have "\<forall>(h, c) \<in> set (ev_clients s). map_of (ev_clients s) h = Some c"
    using assms by (intro map_of_all) (simp add: ev_inv_def ev_clients_ok_def)
  then show ?thesis using tryJoin_spec [OF Some [unfolded tryJoinChannel_def] _ assms] Some by (simp add: ev_joinChannel_def)
qed

lemma join_fold:
  "ev_inv s \<Longrightarrow> ev_inv (fold (ev_joinChannel k) chs s) \<and> wanted_channels (fold (ev_joinChannel k) chs s) = wanted_channels s + mset chs"
  by (induction chs arbitrary: s) (simp_all add: join_spec)

lemma part_spec:
  assumes inv: "ev_inv s"
  shows "ev_inv (ev_partChannel ch s) \<and> wanted_channels (ev_partChannel ch s) =
    (if ev_isJoinedChannel ch s then wanted_channels s - {#ch#} else wanted_channels s)"
proof (cases "List.find (\<lambda>(_, c). ec_isJoinedChannel ch c) (ev_clients s)")
  case None
  then have "\<not> ev_isJoinedChannel ch s" by (auto simp: ev_isJoinedChannel_def find_None_iff list_ex_iff)
  then show ?thesis using inv None by (simp add: ev_partChannel_def)
next
  case (Some hc)
  obtain h c where hc: "hc = (h, c)" by force
  have ok: "ev_clients_ok (ev_clients s)" using inv by (simp add: ev_inv_def)
  from find_SomeD [OF Some] have mem: "(h, c) \<in> set (ev_clients s)" "ch \<in> set (ec_channels c)"
    by (auto simp: hc ec_isJoinedChannel_def)
  then have h: "map_of (ev_clients s) h = Some c" using map_of_all [of "ev_clients s"] ok by (auto simp: ev_clients_ok_def)
  let ?c = "c\<lparr>ec_channels := remove1 ch (ec_channels c)\<rparr>"
  have c': "ev_client_ok ?c" using ev_clients_okD [OF ok h] by (auto simp: ev_client_ok_def length_remove1)
  have "joined_channels (qmap_insert h ?c (ev_clients s)) + mset (ec_channels c) =
      joined_channels (ev_clients s) + (mset (ec_channels c) - {#ch#})"
    using joined_update [OF _ h, of ?c] ok by (simp add: ev_clients_ok_def)
  moreover obtain Y where Y: "mset (ec_channels c) = add_mset ch Y" using mem by (meson multi_member_split in_multiset_in_set)
  ultimately have "add_mset ch (joined_channels (qmap_insert h ?c (ev_clients s))) = joined_channels (ev_clients s)" by simp
  then have "joined_channels (qmap_insert h ?c (ev_clients s)) = joined_channels (ev_clients s) - {#ch#}"
    and "ch \<in># joined_channels (ev_clients s)"
    by (metis add_mset_remove_trivial, metis union_single_eq_member)
  moreover have "ev_isJoinedChannel ch s" using mem by (auto simp: ev_isJoinedChannel_def list_ex_iff ec_isJoinedChannel_def)
  ultimately show ?thesis using inv Some mem(2) c' ok
    by (simp add: ev_partChannel_def hc ec_part_def ev_emit_def ev_put_def ev_inv_def wanted_channels_def ev_clients_ok_insert)
qed

lemma take_pending_spec:
  "ev_inv s \<Longrightarrow> map_of (ev_clients s) h = Some c \<Longrightarrow> length (ec_channels c) + k \<le> EV_MAX_LISTENS \<Longrightarrow>
     \<exists>s'. take_pending k h c s = (True, s') \<and> ev_inv s' \<and> wanted_channels s' = wanted_channels s"
proof (induction k h c s rule: take_pending.induct)
  case (2 k h c s)
  show ?case
  proof (cases "ev_pending s = []")
    case False
    let ?l = "last (ev_pending s)"
    let ?c = "c\<lparr>ec_channels := ec_channels c @ [?l]\<rparr>"
    let ?s = "ev_emit [SendJoin h ?l] (ev_put h ?c (s\<lparr>ev_pending := butlast (ev_pending s)\<rparr>))"
    have ok: "ev_clients_ok (ev_clients s)" using 2(2) by (simp add: ev_inv_def)
    have j: "ec_join ?l c = Some ?c" using 2(4) by (simp add: ec_join_def)
    have c': "ev_client_ok ?c" using 2(4) ev_clients_okD [OF ok 2(3)] by (simp add: ev_client_ok_def)
    have "joined_channels (qmap_insert h ?c (ev_clients s)) = add_mset ?l (joined_channels (ev_clients s))"
      using joined_update [OF _ 2(3), of ?c] ok by (simp add: ev_clients_ok_def)
    moreover have "add_mset ?l (mset (butlast (ev_pending s))) = mset (ev_pending s)"
      using append_butlast_last_id [OF False] by (metis mset_append mset.simps(1,2) union_mset_add_mset_right add.right_neutral)
    ultimately have w: "wanted_channels ?s = wanted_channels s"
      by (simp add: wanted_channels_def ev_emit_def ev_put_def)
    have i: "ev_inv ?s" using 2(2) c' ok by (simp add: ev_inv_def ev_emit_def ev_put_def ev_clients_ok_insert)
    have q: "qmap_ok (ev_clients s)" using ok by (simp add: ev_clients_ok_def)
    have l: "map_of (ev_clients ?s) h = Some ?c" by (simp add: ev_emit_def ev_put_def qmap_lookup_insert [OF q])
    have n: "length (ec_channels ?c) + k \<le> EV_MAX_LISTENS" using 2(4) by simp
    show ?thesis using 2(1) [OF False refl refl j i l n] w False j by (simp add: Let_def)
  qed (use 2 in simp)
qed simp

lemma open_channels_spec:
  assumes inv: "ev_inv s" and h: "map_of (ev_clients s) h = None"
  shows "\<exists>s'. ev_onConnectionOpen k now h s = Some s' \<and> ev_inv s' \<and> wanted_channels s' = wanted_channels s"
proof -
  let ?c = "\<lparr>ec_channels = [], ec_lastPing = now, ec_started = True\<rparr>"
  have st: "ec_start now h (SeventvEventApiClient now) = Some ([StartCheckTimer h], ?c)"
    by (simp add: ec_start_def SeventvEventApiClient_def ec_checkPing_def CHECK_PING_INTERVAL_def Let_def)
  let ?s1 = "s\<lparr>ev_adding := False, ev_backoff := backoff_reset (ev_backoff s)\<rparr>"
  let ?s2 = "ev_put h ?c (ev_emit [StartCheckTimer h] ?s1)"
  have ok: "ev_clients_ok (ev_clients s)" and q: "qmap_ok (ev_clients s)" using inv by (simp_all add: ev_inv_def ev_clients_ok_def)
  have i: "ev_inv ?s2" using inv ok
    by (auto simp: ev_inv_def ev_put_def ev_emit_def backoff_reset_def backoff_ok_def ev_client_ok_def intro!: ev_clients_ok_insert)
  have w: "wanted_channels ?s2 = wanted_channels s" using joined_new [OF h, of ?c] by (simp add: wanted_channels_def ev_put_def ev_emit_def)
  have l: "map_of (ev_clients ?s2) h = Some ?c" using qmap_lookup_insert [OF q, of h ?c] by (simp add: ev_put_def ev_emit_def)
  obtain s3 where t: "take_pending (min (length (ev_pending ?s2)) EV_MAX_LISTENS) h ?c ?s2 = (True, s3)" "ev_inv s3"
      "wanted_channels s3 = wanted_channels ?s2"
    using take_pending_spec [OF i l, of "min (length (ev_pending ?s2)) EV_MAX_LISTENS"] by auto
  have f: "ev_inv (ev_addClient k s3)" "wanted_channels (ev_addClient k s3) = wanted_channels s3"
    using t(2) by (simp_all add: ev_inv_def wanted_channels_def)
  show ?thesis unfolding ev_onConnectionOpen_def Let_def st using t f w by simp
qed

lemma close_channels_spec:
  assumes inv: "ev_inv s" and h: "map_of (ev_clients s) h = Some c"
  shows "\<exists>s'. ev_onConnectionClose k h s = Some s' \<and> ev_inv s' \<and> wanted_channels s' = wanted_channels s"
proof -
  have ok: "ev_clients_ok (ev_clients s)" "qmap_ok (ev_clients s)" "ec_started c"
    using inv ev_clients_okD [OF _ h] by (auto simp: ev_inv_def ev_clients_ok_def ev_client_ok_def)
  let ?s = "s\<lparr>ev_clients := qmap_remove h (ev_clients s)\<rparr>"
  have i: "ev_inv ?s" using inv ok by (simp add: ev_inv_def ev_clients_ok_remove)
  have w: "wanted_channels ?s + mset (ec_channels c) = wanted_channels s"
    using joined_remove [OF ok(2) h] by (simp add: wanted_channels_def add_ac)
  show ?thesis using join_fold [OF i] w h ok(3) inv by (simp add: ev_onConnectionClose_def ec_stop_def ev_inv_def)
qed

lemma fail_channels_spec:
  assumes "ev_inv s"
  shows "\<exists>s'. ev_onConnectionFail s = Some s' \<and> ev_inv s' \<and> wanted_channels s' = wanted_channels s"
proof -
  obtain d b where "backoff_next 5 (ev_backoff s) = Some (d, b)" "backoff_ok b"
    using backoff_next_ok [of "ev_backoff s"] assms by (auto simp: ev_inv_def)
  then show ?thesis using assms by (simp add: ev_onConnectionFail_def Let_def ev_inv_def wanted_channels_def ev_emit_def)
qed

lemma ping_channels_spec:
  assumes inv: "ev_inv s" and h: "map_of (ev_clients s) h = Some c"
  shows "\<exists>s'. ev_onPing now h s = Some s' \<and> ev_inv s' \<and> wanted_channels s' = wanted_channels s"
proof -
  have ok: "ev_clients_ok (ev_clients s)" "qmap_ok (ev_clients s)" "ev_client_ok (ec_handlePing now c)"
    using inv ev_clients_okD [OF _ h] by (auto simp: ev_inv_def ev_clients_ok_def ev_client_ok_def ec_handlePing_def)
  then show ?thesis using inv joined_update [OF ok(2) h, of "ec_handlePing now c"]
    by (simp add: ev_onPing_def h ev_put_def ev_inv_def wanted_channels_def ev_clients_ok_insert ec_handlePing_def)
qed

text \<open>
  The states the manager can be in, with the channels that were joined and not parted. A handle is new when its
  connection opens; pings and closing are for open connections.
\<close>

inductive ev_reach :: "bool \<Rightarrow> qstring multiset \<Rightarrow> ev_manager \<Rightarrow> bool" for k where
  reach_start: "ev_reach k {#} SeventvEventApi"
| reach_join: "ev_reach k J s \<Longrightarrow> ev_reach k (add_mset ch J) (ev_joinChannel k ch s)"
| reach_part: "ev_reach k J s \<Longrightarrow> ev_reach k (if ev_isJoinedChannel ch s then J - {#ch#} else J) (ev_partChannel ch s)"
| reach_open: "ev_reach k J s \<Longrightarrow> map_of (ev_clients s) h = None \<Longrightarrow> ev_onConnectionOpen k now h s = Some s' \<Longrightarrow> ev_reach k J s'"
| reach_close: "ev_reach k J s \<Longrightarrow> ev_onConnectionClose k h s = Some s' \<Longrightarrow> ev_reach k J s'"
| reach_fail: "ev_reach k J s \<Longrightarrow> ev_onConnectionFail s = Some s' \<Longrightarrow> ev_reach k J s'"
| reach_ping: "ev_reach k J s \<Longrightarrow> ev_onPing now h s = Some s' \<Longrightarrow> ev_reach k J s'"
| reach_check: "ev_reach k J s \<Longrightarrow> ev_onCheckTimer now h s = Some s' \<Longrightarrow> ev_reach k J s'"
| reach_retry: "ev_reach k J s \<Longrightarrow> ev_reach k J (ev_onRetryTimer k s)"

lemma ev_reach_inv: "ev_reach k J s \<Longrightarrow> ev_inv s \<and> wanted_channels s = J"
proof (induction rule: ev_reach.induct)
  case reach_start
  show ?case by (simp add: ev_inv_def SeventvEventApi_def ev_clients_ok_def backoff_ok_def ExponentialBackoff_def wanted_channels_def)
next
  case (reach_open J s h now s')
  then show ?case using open_channels_spec [of s h k now] by auto
next
  case (reach_close J s h s')
  then obtain c where "map_of (ev_clients s) h = Some c" by (auto simp: ev_onConnectionClose_def split: option.splits)
  then show ?case using close_channels_spec [of s h c k] reach_close by auto
next
  case (reach_fail J s s')
  then show ?case using fail_channels_spec [of s] by auto
next
  case (reach_ping J s now h s')
  then obtain c where "map_of (ev_clients s) h = Some c" by (auto simp: ev_onPing_def split: option.splits)
  then show ?case using ping_channels_spec [of s h c now] reach_ping by auto
next
  case (reach_check J s now h s')
  then show ?case by (auto simp: ev_onCheckTimer_def ev_emit_def ev_inv_def wanted_channels_def split: option.splits if_splits)
next
  case (reach_retry J s)
  then show ?case by (simp add: ev_onRetryTimer_def ev_inv_def wanted_channels_def)
qed (simp_all add: join_spec part_spec)

section \<open>Properties\<close>



section \<open>Where the program differs from what it means to do\<close>

text \<open>A channel that is parted while it waits for a connection is joined all the same.\<close>

lemma parted_while_waiting:
  "tryJoinChannel ch s = None \<Longrightarrow> \<not> ev_isJoinedChannel ch s \<Longrightarrow> ch \<in> set (ev_pending (ev_partChannel ch (ev_joinChannel k ch s)))"
  by (auto simp: ev_joinChannel_def Let_def ev_partChannel_def ev_isJoinedChannel_def list_ex_iff split: option.splits dest!: find_SomeD)

text \<open>An emote that is not listed is announced although it is not added.\<close>

lemma unlisted_emote_announced:
  assumes "eu_emote u = Some (j, n)" "\<not> checkEmoteVisibility False j"
  shows "addSeventvEmote B e alive False u c s =
     s\<lparr>sw_world := announce_change B e (seventvAddEmote (env_now e) (eu_actor u) [text_member j ''name'']) c (sw_world s)\<rparr>"
  using assms by (simp add: addSeventvEmote_def stv_addEmote_def)

text \<open>What a message with an action the program does not know does depends on memory that was not initialised.\<close>

lemma unknown_action_undefined:
  "message_action EvPing [(''action'', QString ''hello'')] = EvPing \<and> message_action EvInvalid [(''action'', QString ''hello'')] = EvInvalid"
  by (simp add: message_action_def text_member_def json_value_def Let_def)

end
