(* ===== verification/Message_Layout.thy ===== *)
theory Message_Layout
  imports Messages Qt_Text Complex_Main
begin

text \<open>
  \<open>messages/MessageElement.cpp\<close>, \<open>messages/layouts/MessageLayoutElement.cpp\<close>, \<open>MessageLayoutContainer.cpp\<close> and
  \<open>messages/Selection.hpp\<close>: how the elements of a message are broken into lines, and what a selection of its
  characters means. The widths of texts are given by the fonts, an argument; scales are exact. An index out of range
  is \<open>None\<close>.
\<close>

section \<open>Selections\<close>

record selection_item =
  si_message :: int
  si_char :: int

definition si_less :: "selection_item \<Rightarrow> selection_item \<Rightarrow> bool" where
  "si_less a b \<longleftrightarrow> si_message a < si_message b \<or> \<not> si_message b < si_message a \<and> si_char a < si_char b"

definition si_equal :: "selection_item \<Rightarrow> selection_item \<Rightarrow> bool" where
  "si_equal a b \<longleftrightarrow> si_message a = si_message b \<and> si_char a = si_char b"

definition si_greater :: "selection_item \<Rightarrow> selection_item \<Rightarrow> bool" where
  "si_greater a b \<longleftrightarrow> \<not> si_equal a b \<and> si_less b a"

definition si_unequal :: "selection_item \<Rightarrow> selection_item \<Rightarrow> bool" where
  "si_unequal a b \<longleftrightarrow> si_equal a b"

record selection =
  sel_start :: selection_item
  sel_end :: selection_item
  sel_min :: selection_item
  sel_max :: selection_item

definition Selection :: "selection_item \<Rightarrow> selection_item \<Rightarrow> selection" where
  "Selection a b =
     (if si_greater a b then \<lparr>sel_start = a, sel_end = b, sel_min = b, sel_max = a\<rparr>
      else \<lparr>sel_start = a, sel_end = b, sel_min = a, sel_max = b\<rparr>)"

definition sel_isEmpty :: "selection \<Rightarrow> bool" where
  "sel_isEmpty s \<longleftrightarrow> si_equal (sel_start s) (sel_end s)"

definition sel_isSingleMessage :: "selection \<Rightarrow> bool" where
  "sel_isSingleMessage s \<longleftrightarrow> si_message (sel_min s) = si_message (sel_max s)"

section \<open>Flags of elements\<close>

datatype element_flag =
    ElMisc | ElText | ElUsername | ElTimestamp | TwitchEmoteImage | TwitchEmoteText | BttvEmoteImage | BttvEmoteText
  | ElChannelPointReward | FfzEmoteImage | FfzEmoteText | BitsStatic | BitsAnimated | BadgeGlobalAuthority | BadgePredictions
  | BadgeChannelAuthority | BadgeSubscription | BadgeVanity | BadgeChatterino | BadgeFfz | ElChannelName | BitsAmount
  | ModeratorTools | EmojiImage | EmojiText | AlwaysShow | ElCollapsed | BoldUsername | NonBoldUsername | LowercaseLink
  | OriginalLink | ZeroWidthEmote | RepliedMessage | ReplyButton | BadgeDankerino | SeventvEmoteImage | SeventvEmoteText | BadgeSeventv

fun element_bit :: "element_flag \<Rightarrow> nat" where
  "element_bit ElMisc = 0"
| "element_bit ElText = 1"
| "element_bit ElUsername = 2"
| "element_bit ElTimestamp = 3"
| "element_bit TwitchEmoteImage = 4"
| "element_bit TwitchEmoteText = 5"
| "element_bit BttvEmoteImage = 6"
| "element_bit BttvEmoteText = 7"
| "element_bit ElChannelPointReward = 8"
| "element_bit FfzEmoteImage = 9"
| "element_bit FfzEmoteText = 10"
| "element_bit BitsStatic = 11"
| "element_bit BitsAnimated = 12"
| "element_bit BadgeGlobalAuthority = 13"
| "element_bit BadgePredictions = 14"
| "element_bit BadgeChannelAuthority = 15"
| "element_bit BadgeSubscription = 16"
| "element_bit BadgeVanity = 17"
| "element_bit BadgeChatterino = 18"
| "element_bit BadgeFfz = 19"
| "element_bit ElChannelName = 20"
| "element_bit BitsAmount = 21"
| "element_bit ModeratorTools = 22"
| "element_bit EmojiImage = 23"
| "element_bit EmojiText = 24"
| "element_bit AlwaysShow = 25"
| "element_bit ElCollapsed = 26"
| "element_bit BoldUsername = 27"
| "element_bit NonBoldUsername = 28"
| "element_bit LowercaseLink = 29"
| "element_bit OriginalLink = 30"
| "element_bit ZeroWidthEmote = 31"
| "element_bit RepliedMessage = 32"
| "element_bit ReplyButton = 33"
| "element_bit BadgeDankerino = 34"
| "element_bit SeventvEmoteImage = 35"
| "element_bit SeventvEmoteText = 36"
| "element_bit BadgeSeventv = 40"

type_synonym element_flags = "64 word"

definition el_mask :: "element_flag list \<Rightarrow> element_flags" where
  "el_mask fs = fold (\<lambda>f v. word_or v (push_bit (element_bit f) 1)) fs 0"

definition el_hasAny :: "element_flags \<Rightarrow> element_flags \<Rightarrow> bool" where
  "el_hasAny v fs \<longleftrightarrow> word_and v fs \<noteq> 0"

definition EmoteImages :: element_flags where
  "EmoteImages = el_mask [TwitchEmoteImage, BttvEmoteImage, FfzEmoteImage, SeventvEmoteImage]"

definition BadgeFlags :: element_flags where
  "BadgeFlags = el_mask [BadgeGlobalAuthority, BadgePredictions, BadgeChannelAuthority, BadgeSubscription, BadgeVanity,
     BadgeChatterino, BadgeFfz, BadgeDankerino, BadgeSeventv]"

section \<open>The elements of a layout\<close>

text \<open>A text, an image with what is copied for it where it is an emote, a button of text, the curve of a reply.\<close>

datatype element_kind = TextEl qstring | ImageEl "qstring option" | TextIconEl qstring qstring | CurveEl

record layout_element =
  le_kind :: element_kind
  le_flags :: element_flags
  le_w :: int
  le_h :: int
  le_x :: int
  le_y :: int
  le_line :: int
  le_space :: bool

definition le_has :: "layout_element \<Rightarrow> element_flag \<Rightarrow> bool" where
  "le_has e f = el_hasAny (le_flags e) (el_mask [f])"

definition le_left :: "layout_element \<Rightarrow> int" where
  "le_left e = le_x e"

text \<open>Of a \<open>QRect\<close> the right and bottom edges are inside.\<close>

definition le_right :: "layout_element \<Rightarrow> int" where
  "le_right e = le_x e + le_w e - 1"

definition new_element :: "element_kind \<Rightarrow> element_flags \<Rightarrow> int \<Rightarrow> int \<Rightarrow> bool \<Rightarrow> layout_element" where
  "new_element k f w h space = \<lparr>le_kind = k, le_flags = f, le_w = w, le_h = h, le_x = 0, le_y = 0, le_line = 0, le_space = space\<rparr>"

definition getSelectionIndexCount :: "layout_element \<Rightarrow> int" where
  "getSelectionIndexCount e =
     (case le_kind e of
        TextEl t \<Rightarrow> int (length t) + (if le_space e then 1 else 0)
      | CurveEl \<Rightarrow> 1
      | _ \<Rightarrow> if le_space e then 2 else 1)"

text \<open>Fonts: the advance of a text, of one unit of it, and the height of a line. \<open>fm_high\<close>, \<open>fm_low\<close>: surrogates.\<close>

record fonts =
  fm_advance :: "qstring \<Rightarrow> int"
  fm_unit :: "char \<Rightarrow> int"
  fm_height :: int
  fm_high :: "char \<Rightarrow> bool"
  fm_low :: "char \<Rightarrow> bool"

fun mouse_loop :: "fonts \<Rightarrow> int \<Rightarrow> int \<Rightarrow> int \<Rightarrow> qstring \<Rightarrow> int option" where
  "mouse_loop f px x i [] = None"
| "mouse_loop f px x i (c # t) =
     (if x + fm_unit f c > px then Some (if t \<noteq> [] \<and> fm_low f c then i + 1 else i)
      else mouse_loop f px (x + fm_unit f c) (i + 1) t)"

definition getMouseOverIndex :: "fonts \<Rightarrow> int \<Rightarrow> layout_element \<Rightarrow> int" where
  "getMouseOverIndex f px e =
     (case le_kind e of
        TextEl t \<Rightarrow>
          if px < le_left e then 0
          else (case mouse_loop f px (le_left e) 0 t of
              Some i \<Rightarrow> i
            | None \<Rightarrow> getSelectionIndexCount e - (if le_space e then 1 else 0))
      | _ \<Rightarrow> 0)"

definition getXFromIndex :: "fonts \<Rightarrow> int \<Rightarrow> layout_element \<Rightarrow> int" where
  "getXFromIndex f index e =
     (if index \<le> 0 then le_left e
      else (case le_kind e of
          TextEl t \<Rightarrow>
            if index < int (length t) then sum_list (map (fm_unit f) (take (nat index) t)) + le_left e else le_right e
        | _ \<Rightarrow> le_right e))"

text \<open>\<open>QString::mid\<close>: a negative length is the rest.\<close>

definition q_mid :: "int \<Rightarrow> int \<Rightarrow> qstring \<Rightarrow> qstring" where
  "q_mid from' n s =
     (let (p, k) = (if from' < 0 then (0, if n < 0 then n else n + from') else (from', n))
      in if n < 0 then drop (nat p) s else if k < 0 then [] else take (nat k) (drop (nat p) s))"

text \<open>The emote's code is cleaned up together with all the text that was there before.\<close>

definition addCopyText :: "(qstring \<Rightarrow> qstring) \<Rightarrow> int \<Rightarrow> int \<Rightarrow> layout_element \<Rightarrow> qstring \<Rightarrow> qstring" where
  "addCopyText cleanUp from' to' e str =
     (case le_kind e of
        TextEl t \<Rightarrow> str @ q_mid from' (to' - from') t @ (if le_space e then '' '' else [])
      | ImageEl (Some code) \<Rightarrow> cleanUp (str @ code) @ (if le_space e then '' '' else [])
      | _ \<Rightarrow> str)"

definition INT_MAX :: int where
  "INT_MAX = 2 ^ 31 - 1"

section \<open>The container\<close>

record layout_settings =
  ls_scale :: rat
  ls_compactEmotes :: bool
  ls_removeSpaces :: bool
  ls_minLines :: int
  ls_textLineHeight :: int
  ls_spaceWidth :: int
  ls_dotdotdotWidth :: int

text \<open>Conversion of a floating-point number to an \<open>int\<close>, and the margins 4, 8, 4, 8.\<close>

definition trunc :: "rat \<Rightarrow> int" where
  "trunc r = (if r \<ge> 0 then \<lfloor>r\<rfloor> else \<lceil>r\<rceil>)"

definition margin_vertical :: "layout_settings \<Rightarrow> int" where
  "margin_vertical s = trunc (4 * ls_scale s)"

definition margin_side :: "layout_settings \<Rightarrow> int" where
  "margin_side s = trunc (8 * ls_scale s)"

record layout_line =
  ll_start :: nat
  ll_end :: nat
  ll_startChar :: int
  ll_endChar :: int
  ll_top :: int
  ll_bottom :: int

record layout_container =
  lc_width :: int
  lc_flags :: flags
  lc_line :: int
  lc_height :: int
  lc_x :: int
  lc_y :: int
  lc_charIndex :: int
  lc_lineStart :: nat
  lc_lineHeight :: int
  lc_canAdd :: bool
  lc_collapsed :: bool
  lc_elements :: "layout_element list"
  lc_lines :: "layout_line list"

definition lc_begin :: "int \<Rightarrow> flags \<Rightarrow> layout_container" where
  "lc_begin width fs = \<lparr>lc_width = width, lc_flags = fs, lc_line = 0, lc_height = 0, lc_x = 0, lc_y = 0, lc_charIndex = 0,
     lc_lineStart = 0, lc_lineHeight = 0, lc_canAdd = True, lc_collapsed = False, lc_elements = [], lc_lines = []\<rparr>"

definition canCollapse :: "layout_settings \<Rightarrow> layout_container \<Rightarrow> bool" where
  "canCollapse s c \<longleftrightarrow> ls_minLines s > 0 \<and> fe_has (lc_flags c) (flag_value Collapsed)"

definition atStartOfLine :: "layout_container \<Rightarrow> bool" where
  "atStartOfLine c \<longleftrightarrow> lc_lineStart c = length (lc_elements c)"

definition fitsInLine :: "layout_settings \<Rightarrow> int \<Rightarrow> layout_container \<Rightarrow> bool" where
  "fitsInLine s w c \<longleftrightarrow> lc_x c + w \<le> lc_width c - margin_side s - margin_side s -
     (if lc_line c + 1 = ls_minLines s then ls_dotdotdotWidth s else 0)"

definition is_compact :: "layout_settings \<Rightarrow> layout_container \<Rightarrow> layout_element \<Rightarrow> bool" where
  "is_compact s c e \<longleftrightarrow> ls_compactEmotes s \<and> \<not> fe_has (lc_flags c) (flag_value DisableCompactEmotes) \<and> el_hasAny (le_flags e) EmoteImages"

definition shouldRemoveSpace :: "layout_container \<Rightarrow> bool" where
  "shouldRemoveSpace c \<longleftrightarrow> lc_elements c \<noteq> [] \<and> le_space (last (lc_elements c)) \<and>
     le_line (last (lc_elements c)) = lc_line c \<and> el_hasAny (le_flags (last (lc_elements c))) EmoteImages"

definition add_element :: "layout_settings \<Rightarrow> bool \<Rightarrow> layout_element \<Rightarrow> layout_container \<Rightarrow> layout_container" where
  "add_element s forceAdd e c =
     (if \<not> lc_canAdd c \<and> \<not> forceAdd then c
      else
        (let y = (if lc_elements c = [] then margin_vertical s else lc_y c);
             newLineHeight = (if is_compact s c e then trunc (of_int (le_h e) - 4 * ls_scale s) else le_h e);
             zero = le_has e ZeroWidthEmote;
             xOffset = (if zero then - (le_w e + ls_spaceWidth s) else 0);
             yOffset = (if le_has e ElChannelPointReward \<and> \<not> le_has e TwitchEmoteImage then trunc (- (4 * ls_scale s)) else 0);
             x = (if ls_removeSpaces s \<and> el_hasAny (le_flags e) EmoteImages \<and> \<not> zero \<and> shouldRemoveSpace c
                  then lc_x c - ls_spaceWidth s else lc_x c)
         in c\<lparr>lc_y := y, lc_lineHeight := max (lc_lineHeight c) newLineHeight,
              lc_elements := lc_elements c @ [e\<lparr>le_x := x + xOffset, le_y := y - le_h e + yOffset, le_line := lc_line c\<rparr>],
              lc_x := x + (if zero then 0 else le_w e) + (if le_space e then ls_spaceWidth s else 0)\<rparr>))"

definition shift_element :: "layout_settings \<Rightarrow> layout_container \<Rightarrow> int \<Rightarrow> layout_element \<Rightarrow> layout_element" where
  "shift_element s c xOffset e =
     e\<lparr>le_x := le_x e + xOffset + margin_side s,
       le_y := le_y e + lc_lineHeight c + (if is_compact s c e then trunc (2 * ls_scale s) else 0)\<rparr>"

definition close_line :: "nat \<Rightarrow> int \<Rightarrow> layout_line list \<Rightarrow> layout_line list" where
  "close_line e ch ls = (if ls = [] then [] else butlast ls @ [(last ls)\<lparr>ll_end := e, ll_endChar := ch\<rparr>])"

text \<open>C++ division rounds towards zero.\<close>

definition centered_offset :: "layout_settings \<Rightarrow> layout_container \<Rightarrow> int" where
  "centered_offset s c =
     (if fe_has (lc_flags c) (flag_value Centered) \<and> lc_elements c \<noteq> []
      then trunc (of_int (lc_width c - (margin_side s + margin_side s) - le_right (last (lc_elements c))) / 2) else 0)"

definition breakLine :: "layout_settings \<Rightarrow> layout_container \<Rightarrow> layout_container" where
  "breakLine s c =
     (let es = take (lc_lineStart c) (lc_elements c) @ map (shift_element s c (centered_offset s c)) (drop (lc_lineStart c) (lc_elements c));
          line = \<lparr>ll_start = lc_lineStart c, ll_end = 0, ll_startChar = lc_charIndex c, ll_endChar = 0,
                  ll_top = lc_y c, ll_bottom = lc_y c + lc_lineHeight c - 1\<rparr>;
          c1 = c\<lparr>lc_elements := es, lc_lines := close_line (lc_lineStart c) (lc_charIndex c) (lc_lines c) @ [line],
                 lc_charIndex := lc_charIndex c + sum_list (map getSelectionIndexCount (drop (lc_lineStart c) es)),
                 lc_lineStart := length es\<rparr>
      in if canCollapse s c1 \<and> lc_line c1 + 1 \<ge> ls_minLines s then c1\<lparr>lc_canAdd := False\<rparr>
         else c1\<lparr>lc_x := 0, lc_y := lc_y c1 + lc_lineHeight c1, lc_height := lc_y c1 + lc_lineHeight c1 + margin_vertical s,
                 lc_lineHeight := 0, lc_line := lc_line c1 + 1\<rparr>)"

definition addElement :: "layout_settings \<Rightarrow> layout_element \<Rightarrow> layout_container \<Rightarrow> layout_container" where
  "addElement s e c =
     add_element s False e (if \<not> le_has e ZeroWidthEmote \<and> \<not> fitsInLine s (le_w e) c then breakLine s c else c)"

definition addElementNoLineBreak :: "layout_settings \<Rightarrow> layout_element \<Rightarrow> layout_container \<Rightarrow> layout_container" where
  "addElementNoLineBreak s e c = add_element s False e c"

definition dotdotdot :: "layout_settings \<Rightarrow> layout_element" where
  "dotdotdot s = new_element (TextEl ''...'') (el_mask [ElCollapsed]) (ls_dotdotdotWidth s) (ls_textLineHeight s) True"

definition lc_end :: "layout_settings \<Rightarrow> layout_container \<Rightarrow> layout_container" where
  "lc_end s c =
     (let c1 = (if \<not> lc_canAdd c then (add_element s True (dotdotdot s) c)\<lparr>lc_collapsed := True\<rparr> else c);
          c2 = (if \<not> atStartOfLine c1 then breakLine s c1 else c1);
          c3 = c2\<lparr>lc_height := lc_height c2 + lc_lineHeight c2\<rparr>;
          first' = (\<lambda>ls. case ls of [] \<Rightarrow> [] | l # r \<Rightarrow> l\<lparr>ll_top := - 100000\<rparr> # r);
          last' = (\<lambda>ls. if ls = [] then [] else butlast ls @ [(last ls)\<lparr>ll_bottom := 100000\<rparr>])
      in c3\<lparr>lc_lines := close_line (length (lc_elements c3)) (lc_charIndex c3) (last' (first' (lc_lines c3)))\<rparr>)"

definition getElementAt :: "int \<Rightarrow> int \<Rightarrow> layout_container \<Rightarrow> layout_element option" where
  "getElementAt px py c =
     List.find (\<lambda>e. le_left e \<le> px \<and> px \<le> le_right e \<and> le_y e \<le> py \<and> py \<le> le_y e + le_h e - 1) (lc_elements c)"

subsection \<open>Characters\<close>

definition line_contains :: "int \<Rightarrow> int \<Rightarrow> layout_line \<Rightarrow> bool" where
  "line_contains px py l \<longleftrightarrow> - 100000 \<le> px \<and> px \<le> 99999 \<and> ll_top l \<le> py \<and> py \<le> ll_bottom l"

text \<open>The lines from the first one that contains the point.\<close>

definition lines_from :: "int \<Rightarrow> int \<Rightarrow> layout_container \<Rightarrow> layout_line list" where
  "lines_from px py c = dropWhile (\<lambda>l. \<not> line_contains px py l) (lc_lines c)"

fun index_in_line :: "layout_settings \<Rightarrow> fonts \<Rightarrow> int \<Rightarrow> layout_element list \<Rightarrow> int" where
  "index_in_line s f px [] = 0"
| "index_in_line s f px (e # es) =
     (if px \<le> le_right e + (if le_space e then ls_spaceWidth s else 0) then getMouseOverIndex f px e
      else getSelectionIndexCount e + index_in_line s f px es)"

text \<open>\<open>None\<close>: there are elements but no lines.\<close>

definition getSelectionIndex :: "layout_settings \<Rightarrow> fonts \<Rightarrow> int \<Rightarrow> int \<Rightarrow> layout_container \<Rightarrow> int option" where
  "getSelectionIndex s f px py c =
     (if lc_elements c = [] then Some 0
      else if lc_lines c = [] then None
      else
        (let rest = lines_from px py c;
             lineStart = (case rest of [] \<Rightarrow> ll_start (last (lc_lines c)) | l # _ \<Rightarrow> ll_start l);
             lineEnd = (case rest of _ # l # _ \<Rightarrow> ll_start l | _ \<Rightarrow> length (lc_elements c))
         in Some (sum_list (map getSelectionIndexCount (take (min lineStart lineEnd) (lc_elements c))) +
              index_in_line s f px (drop lineStart (take lineEnd (lc_elements c))))))"

definition getLastCharacterIndex :: "layout_container \<Rightarrow> int" where
  "getLastCharacterIndex c = (if lc_lines c = [] then 0 else ll_endChar (last (lc_lines c)))"

definition getFirstMessageCharacterIndex :: "layout_container \<Rightarrow> int" where
  "getFirstMessageCharacterIndex c =
     sum_list (map getSelectionIndexCount
       (takeWhile (\<lambda>e. el_hasAny (le_flags e) (word_or (el_mask [ElUsername, ElTimestamp]) BadgeFlags)) (lc_elements c)))"

datatype copy_mode = CopyEverything | CopyEverythingButReplies | CopyOnlyTextAndEmotes

definition is_copied :: "copy_mode \<Rightarrow> layout_element \<Rightarrow> bool" where
  "is_copied m e \<longleftrightarrow> \<not> (m \<noteq> CopyEverything \<and> le_has e RepliedMessage) \<and>
     \<not> (m = CopyOnlyTextAndEmotes \<and> el_hasAny (le_flags e) (word_or (el_mask [ElTimestamp, ElUsername]) BadgeFlags))"

text \<open>Elements that are not copied do not count for the index.\<close>

fun selection_rest :: "(qstring \<Rightarrow> qstring) \<Rightarrow> int \<Rightarrow> int \<Rightarrow> layout_element list \<Rightarrow> qstring \<Rightarrow> qstring" where
  "selection_rest cl to' index [] str = str"
| "selection_rest cl to' index (e # es) str =
     (if index + getSelectionIndexCount e > to' then addCopyText cl 0 (to' - index) e str
      else selection_rest cl to' (index + getSelectionIndexCount e) es (addCopyText cl 0 INT_MAX e str))"

fun selection_first :: "(qstring \<Rightarrow> qstring) \<Rightarrow> int \<Rightarrow> int \<Rightarrow> int \<Rightarrow> layout_element list \<Rightarrow> qstring \<Rightarrow> qstring" where
  "selection_first cl from' to' index [] str = str"
| "selection_first cl from' to' index (e # es) str =
     (let index' = index + getSelectionIndexCount e
      in if index' > from' then
           (let str' = addCopyText cl (from' - index) (to' - index) e str
            in if index' > to' then str' else selection_rest cl to' index' es str')
         else selection_first cl from' to' index' es str)"

definition addSelectionText :: "(qstring \<Rightarrow> qstring) \<Rightarrow> int \<Rightarrow> int \<Rightarrow> copy_mode \<Rightarrow> layout_container \<Rightarrow> qstring \<Rightarrow> qstring" where
  "addSelectionText cl from' to' m c str = selection_first cl from' to' 0 (filter (is_copied m) (lc_elements c)) str"

subsection \<open>What is painted for a selection\<close>

record paint_rect =
  pr_top :: int
  pr_bottom :: int
  pr_left :: int
  pr_right :: int

text \<open>A line from one column to another, at the place of the message in the view.\<close>

definition line_rect :: "layout_container \<Rightarrow> int \<Rightarrow> layout_line \<Rightarrow> int \<Rightarrow> int \<Rightarrow> paint_rect" where
  "line_rect c yOffset l x r = \<lparr>pr_top = max 0 (ll_top l) + yOffset, pr_bottom = min (lc_height c) (ll_bottom l) + yOffset, pr_left = x, pr_right = r\<rparr>"

text \<open>The edges of a line's elements; \<open>None\<close> where the first or the last of them is out of range.\<close>

definition line_edges :: "layout_container \<Rightarrow> layout_line \<Rightarrow> (int \<times> int) option" where
  "line_edges c l =
     (if ll_start l < length (lc_elements c) \<and> 0 < ll_end l \<and> ll_end l - 1 < length (lc_elements c)
      then Some (le_left (lc_elements c ! ll_start l), le_right (lc_elements c ! (ll_end l - 1))) else None)"

definition whole_line :: "layout_container \<Rightarrow> int \<Rightarrow> layout_line \<Rightarrow> paint_rect option" where
  "whole_line c yOffset l = map_option (\<lambda>(x, r). line_rect c yOffset l x r) (line_edges c l)"

fun all_rects :: "('a \<Rightarrow> 'b option) \<Rightarrow> 'a list \<Rightarrow> 'b list option" where
  "all_rects f [] = Some []"
| "all_rects f (l # ls) = (case f l of None \<Rightarrow> None | Some r \<Rightarrow> map_option ((#) r) (all_rects f ls))"

definition line_elements :: "layout_container \<Rightarrow> layout_line \<Rightarrow> layout_element list" where
  "line_elements c l = drop (ll_start l) (take (ll_end l) (lc_elements c))"

text \<open>The column of a character in a line, if the line has it.\<close>

fun x_of_char :: "fonts \<Rightarrow> int \<Rightarrow> int \<Rightarrow> layout_element list \<Rightarrow> int option" where
  "x_of_char f target index [] = None"
| "x_of_char f target index (e # es) =
     (if index + getSelectionIndexCount e > target then Some (getXFromIndex f (target - index) e)
      else x_of_char f target (index + getSelectionIndexCount e) es)"

fun paint_end :: "fonts \<Rightarrow> layout_container \<Rightarrow> int \<Rightarrow> int \<Rightarrow> layout_line list \<Rightarrow> paint_rect list option" where
  "paint_end f c yOffset maxChar [] = Some []"
| "paint_end f c yOffset maxChar (l # ls) =
     (case line_edges c l of
        None \<Rightarrow> None
      | Some (x, r) \<Rightarrow>
          if ll_endChar l < maxChar then map_option ((#) (line_rect c yOffset l x r)) (paint_end f c yOffset maxChar ls)
          else Some [line_rect c yOffset l x (case x_of_char f maxChar (ll_startChar l) (line_elements c l) of Some r' \<Rightarrow> r' | None \<Rightarrow> r)])"

text \<open>\<open>maxChar\<close> is \<open>None\<close> where the selection ends in another message.\<close>

fun paint_start :: "fonts \<Rightarrow> layout_container \<Rightarrow> int \<Rightarrow> int \<Rightarrow> int option \<Rightarrow> layout_line list \<Rightarrow> paint_rect list option" where
  "paint_start f c yOffset minChar maxChar [] = Some []"
| "paint_start f c yOffset minChar maxChar (l # ls) =
     (case line_edges c l of
        None \<Rightarrow> None
      | Some (x, r) \<Rightarrow>
          if ll_endChar l \<le> minChar then paint_start f c yOffset minChar maxChar ls
          else (case x_of_char f minChar (ll_startChar l) (line_elements c l) of
              None \<Rightarrow> map_option ((#) (line_rect c yOffset l x r)) (paint_start f c yOffset minChar maxChar ls)
            | Some x' \<Rightarrow>
                (case maxChar of
                   None \<Rightarrow> map_option (\<lambda>rs. rs @ [line_rect c yOffset l x' r]) (all_rects (whole_line c yOffset) ls)
                 | Some m \<Rightarrow>
                     if ll_endChar l > m then
                       Some [line_rect c yOffset l x' (case x_of_char f m (ll_startChar l) (line_elements c l) of Some r' \<Rightarrow> r' | None \<Rightarrow> r)]
                     else map_option ((#) (line_rect c yOffset l x' r)) (paint_end f c yOffset m ls))))"

definition paintSelection :: "fonts \<Rightarrow> layout_container \<Rightarrow> int \<Rightarrow> selection \<Rightarrow> int \<Rightarrow> paint_rect list option" where
  "paintSelection f c messageIndex sel yOffset =
     (let a = sel_min sel; b = sel_max sel
      in if si_message a > messageIndex \<or> si_message b < messageIndex then Some []
         else if si_message a < messageIndex \<and> si_message b > messageIndex then all_rects (whole_line c yOffset) (lc_lines c)
         else if si_message a = messageIndex
         then paint_start f c yOffset (si_char a) (if si_message b = messageIndex then Some (si_char b) else None) (lc_lines c)
         else paint_end f c yOffset (si_char b) (lc_lines c))"

section \<open>The elements of a message\<close>

text \<open>
  Pictures are given by their size where they are not empty. The sizes in the layout are scaled: an \<open>int\<close> made of a
  floating-point number is truncated, a \<open>QSize\<close> times a number is rounded.
\<close>

type_synonym pixels = "int \<times> int"

datatype message_element =
    EmptyElement
  | ImageElement element_flags pixels bool
  | CircularImageElement element_flags pixels int bool
  | EmoteElement element_flags qstring "pixels option" bool
  | BadgeElement element_flags "pixels option" bool
  | TextElement element_flags "qstring list" bool
  | SingleLineTextElement element_flags "qstring list" bool
  | TwitchModerationElement "(bool \<times> qstring \<times> qstring) list" bool
  | LinebreakElement element_flags
  | ScalingImageElement element_flags "pixels option" bool
  | ReplyCurveElement

definition text_element :: "fonts \<Rightarrow> element_flags \<Rightarrow> qstring \<Rightarrow> int \<Rightarrow> bool \<Rightarrow> layout_element" where
  "text_element f fl t w space = new_element (TextEl t) fl w (fm_height f) space"

definition scaled :: "rat \<Rightarrow> pixels \<Rightarrow> pixels" where
  "scaled k p = (trunc (of_int (fst p) * k), trunc (of_int (snd p) * k))"

definition q_round :: "rat \<Rightarrow> int" where
  "q_round r = (if r \<ge> 0 then \<lfloor>r + 1 / 2\<rfloor> else \<lceil>r - 1 / 2\<rceil>)"

definition rounded :: "rat \<Rightarrow> pixels \<Rightarrow> pixels" where
  "rounded k p = (q_round (of_int (fst p) * k), q_round (of_int (snd p) * k))"

definition image_el :: "element_kind \<Rightarrow> element_flags \<Rightarrow> pixels \<Rightarrow> bool \<Rightarrow> layout_element" where
  "image_el k fl p space = new_element k fl (fst p) (snd p) space"

text \<open>Wrapping a word that is longer than a line: the unit that is looked at, where the piece starts, its width.\<close>

definition unit_width :: "fonts \<Rightarrow> qstring \<Rightarrow> nat \<Rightarrow> int \<times> nat" where
  "unit_width f text' i =
     (if length text' > i + 1 \<and> fm_high f (text' ! i) then (fm_advance f (take 2 (drop i text')), i + 2)
      else (fm_unit f (text' ! i), i + 1))"

function wrap_loop ::
  "layout_settings \<Rightarrow> fonts \<Rightarrow> element_flags \<Rightarrow> qstring \<Rightarrow> nat \<Rightarrow> nat \<Rightarrow> int \<Rightarrow> layout_container \<Rightarrow> nat \<times> int \<times> layout_container" where
  "wrap_loop s f fl text' i wordStart width c =
     (if i < length text' then
        (let (charWidth, i') = unit_width f text' i
         in if \<not> fitsInLine s (width + charWidth) c
            then wrap_loop s f fl text' i' i charWidth
                   (breakLine s (addElementNoLineBreak s (text_element f fl (take (i - wordStart) (drop wordStart text')) width False) c))
            else wrap_loop s f fl text' i' wordStart (width + charWidth) c)
      else (wordStart, width, c))"
  by pat_completeness auto
termination
  by (relation "measure (\<lambda>(_, _, _, t, i, _). length t - i)") (auto simp: unit_width_def split: if_splits)

declare wrap_loop.simps [simp del]

definition wrap_word :: "layout_settings \<Rightarrow> fonts \<Rightarrow> element_flags \<Rightarrow> bool \<Rightarrow> qstring \<Rightarrow> layout_container \<Rightarrow> layout_container" where
  "wrap_word s f fl space word' c =
     (case wrap_loop s f fl word' 0 0 0 c of
        (wordStart, width, c1) \<Rightarrow> addElementNoLineBreak s (text_element f fl (drop wordStart word') width space) c1)"

definition add_word :: "layout_settings \<Rightarrow> fonts \<Rightarrow> element_flags \<Rightarrow> bool \<Rightarrow> qstring \<Rightarrow> layout_container \<Rightarrow> layout_container" where
  "add_word s f fl space word' c =
     (let w = fm_advance f word'; el = text_element f fl word' w space
      in if fitsInLine s w c then addElementNoLineBreak s el c
         else if \<not> atStartOfLine c then
           (let c1 = breakLine s c
            in if fitsInLine s w c1 then addElementNoLineBreak s el c1 else wrap_word s f fl space word' c1)
         else wrap_word s f fl space word' c)"

text \<open>A line of text that is cut off with an ellipsis: what the emoji parser finds first in a word is an argument.\<close>

datatype first_word = NoWord | EmojiWord "pixels option" | PlainWord

definition add_ellipsis :: "layout_settings \<Rightarrow> fonts \<Rightarrow> element_flags \<Rightarrow> layout_container \<Rightarrow> layout_container" where
  "add_ellipsis s f fl = addElementNoLineBreak s (text_element f fl ''...'' (fm_advance f ''...'') False)"

definition cut_word :: "layout_settings \<Rightarrow> fonts \<Rightarrow> qstring \<Rightarrow> layout_container \<Rightarrow> qstring option" where
  "cut_word s f word' c =
     List.find (\<lambda>t. fitsInLine s (fm_advance f t) c) (map (\<lambda>cut. take (length word' - cut) word' @ ''...'') [1..<length word'])"

fun add_words :: "layout_settings \<Rightarrow> fonts \<Rightarrow> (qstring \<Rightarrow> first_word) \<Rightarrow> rat \<Rightarrow> element_flags \<Rightarrow> bool \<Rightarrow> qstring list \<Rightarrow> layout_container \<Rightarrow> layout_container" where
  "add_words s f parse emoteScale fl space [] c = c"
| "add_words s f parse emoteScale fl space (w # ws) c =
     (case parse w of
        NoWord \<Rightarrow> add_words s f parse emoteScale fl space ws c
      | EmojiWord None \<Rightarrow> add_words s f parse emoteScale fl space ws c
      | EmojiWord (Some p) \<Rightarrow>
          (let size' = rounded (emoteScale * ls_scale s) p
           in if \<not> fitsInLine s (fst size') c then add_ellipsis s f fl c
              else add_words s f parse emoteScale fl space ws (addElementNoLineBreak s (image_el (ImageEl None) fl size' space) c))
      | PlainWord \<Rightarrow>
          (if fitsInLine s (fm_advance f w) c
           then add_words s f parse emoteScale fl space ws (addElementNoLineBreak s (text_element f fl w (fm_advance f w) space) c)
           else (case cut_word s f w c of
               Some t \<Rightarrow> addElementNoLineBreak s (text_element f fl t (fm_advance f t) False) c
             | None \<Rightarrow> add_ellipsis s f fl c)))"

type_synonym adding = "layout_container \<Rightarrow> layout_container"

definition add_image :: "layout_settings \<Rightarrow> element_flags \<Rightarrow> pixels \<Rightarrow> bool \<Rightarrow> adding" where
  "add_image s fl p space = addElement s (image_el (ImageEl None) fl (scaled (ls_scale s) p) space)"

definition add_circular_image :: "layout_settings \<Rightarrow> element_flags \<Rightarrow> pixels \<Rightarrow> int \<Rightarrow> bool \<Rightarrow> adding" where
  "add_circular_image s fl p padding space =
     (let q = rounded (ls_scale s) p
      in addElement s (image_el (ImageEl None) fl (fst q + 2 * padding, snd q + 2 * padding) space))"

definition add_emote :: "layout_settings \<Rightarrow> fonts \<Rightarrow> rat \<Rightarrow> element_flags \<Rightarrow> element_flags \<Rightarrow> qstring \<Rightarrow> pixels option \<Rightarrow> bool \<Rightarrow> adding" where
  "add_emote s f emoteScale shown fl code pic space c =
     (if el_hasAny shown EmoteImages then
        (case pic of None \<Rightarrow> c
         | Some p \<Rightarrow> addElement s (image_el (ImageEl (Some code)) fl (scaled (ls_scale s * emoteScale) p) space) c)
      else fold (add_word s f (el_mask [ElMisc]) True) (split_on (CHR '' '') code) c)"

definition add_badge :: "layout_settings \<Rightarrow> element_flags \<Rightarrow> pixels option \<Rightarrow> bool \<Rightarrow> adding" where
  "add_badge s fl pic space c =
     (case pic of None \<Rightarrow> c | Some p \<Rightarrow> addElement s (image_el (ImageEl None) fl (scaled (ls_scale s) p) space) c)"

text \<open>A button for each moderation action: its picture, or two lines of text.\<close>

definition add_moderation :: "layout_settings \<Rightarrow> (bool \<times> qstring \<times> qstring) list \<Rightarrow> bool \<Rightarrow> adding" where
  "add_moderation s actions space =
     (let size' = (trunc (ls_scale s * 16), trunc (ls_scale s * 16))
      in fold (\<lambda>(hasImage, l1, l2). addElement s
           (if hasImage then image_el (ImageEl None) (el_mask [ModeratorTools]) size' space
            else image_el (TextIconEl l1 l2) (el_mask [ModeratorTools]) size' True)) actions)"

definition add_scaling_image :: "layout_settings \<Rightarrow> element_flags \<Rightarrow> pixels option \<Rightarrow> bool \<Rightarrow> adding" where
  "add_scaling_image s fl pic space c =
     (case pic of None \<Rightarrow> c | Some p \<Rightarrow> addElement s (image_el (ImageEl None) fl (scaled (ls_scale s) p) space) c)"

definition add_reply_curve :: "layout_settings \<Rightarrow> adding" where
  "add_reply_curve s = addElement s (image_el CurveEl (el_mask [RepliedMessage]) (rounded (ls_scale s) (18, 14)) True)"

definition element_flags_of :: "message_element \<Rightarrow> element_flags" where
  "element_flags_of el =
     (case el of
        EmptyElement \<Rightarrow> 0 | ImageElement fl _ _ \<Rightarrow> fl | CircularImageElement fl _ _ _ \<Rightarrow> fl | EmoteElement fl _ _ _ \<Rightarrow> fl
      | BadgeElement fl _ _ \<Rightarrow> fl | TextElement fl _ _ \<Rightarrow> fl | SingleLineTextElement fl _ _ \<Rightarrow> fl
      | TwitchModerationElement _ _ \<Rightarrow> el_mask [ModeratorTools] | LinebreakElement fl \<Rightarrow> fl | ScalingImageElement fl _ _ \<Rightarrow> fl
      | ReplyCurveElement \<Rightarrow> el_mask [RepliedMessage])"

definition addToContainer ::
  "layout_settings \<Rightarrow> fonts \<Rightarrow> (qstring \<Rightarrow> first_word) \<Rightarrow> rat \<Rightarrow> element_flags \<Rightarrow> message_element \<Rightarrow> adding" where
  "addToContainer s f parse emoteScale shown el c =
     (if \<not> el_hasAny shown (element_flags_of el) then c
      else (case el of
        EmptyElement \<Rightarrow> c
      | ImageElement fl p space \<Rightarrow> add_image s fl p space c
      | CircularImageElement fl p padding space \<Rightarrow> add_circular_image s fl p padding space c
      | EmoteElement fl code pic space \<Rightarrow> add_emote s f emoteScale shown fl code pic space c
      | BadgeElement fl pic space \<Rightarrow> add_badge s fl pic space c
      | TextElement fl ws space \<Rightarrow> fold (add_word s f fl space) ws c
      | SingleLineTextElement fl ws space \<Rightarrow> breakLine s (add_words s f parse emoteScale fl space ws c)
      | TwitchModerationElement actions space \<Rightarrow> add_moderation s actions space c
      | LinebreakElement fl \<Rightarrow> breakLine s c
      | ScalingImageElement fl pic space \<Rightarrow> add_scaling_image s fl pic space c
      | ReplyCurveElement \<Rightarrow> add_reply_curve s c))"

section \<open>The layout of a message\<close>

record layout_state =
  lo_width :: int
  lo_generation :: int
  lo_wordFlags :: element_flags
  lo_requiresLayout :: bool
  lo_updateBuffer :: bool
  lo_expanded :: bool
  lo_collapsed :: bool
  lo_scale :: rat
  lo_height :: int
  lo_container :: layout_container
  lo_buffer :: bool
  lo_bufferValid :: bool
  lo_renderReplies :: bool

record hide_settings =
  hs_hideModerated :: bool
  hs_hideModerationActions :: bool
  hs_hideSimilar :: bool

definition element_hidden :: "hide_settings \<Rightarrow> flags \<Rightarrow> bool \<Rightarrow> message_element \<Rightarrow> bool" where
  "element_hidden h mf renderReplies el \<longleftrightarrow>
     hs_hideModerated h \<and> fe_has mf (flag_value Disabled) \<or>
     hs_hideModerationActions h \<and> (fe_has mf (flag_value Timeout) \<or> fe_has mf (flag_value Untimeout)) \<or>
     hs_hideSimilar h \<and> fe_has mf (flag_value Similar) \<or>
     \<not> renderReplies \<and> el_hasAny (element_flags_of el) (el_mask [RepliedMessage])"

definition layout_flags :: "bool \<Rightarrow> element_flags \<Rightarrow> flags \<Rightarrow> flags" where
  "layout_flags expanded shown mf =
     (if expanded \<or> el_hasAny shown (el_mask [ModeratorTools]) \<and> \<not> fe_has mf (flag_value Disabled)
      then fe_unset (flag_value Collapsed) mf else mf)"

definition laid_elements ::
  "layout_settings \<Rightarrow> fonts \<Rightarrow> (qstring \<Rightarrow> first_word) \<Rightarrow> rat \<Rightarrow> hide_settings \<Rightarrow> flags \<Rightarrow> message_element list \<Rightarrow> int \<Rightarrow> element_flags
     \<Rightarrow> bool \<Rightarrow> bool \<Rightarrow> layout_container" where
  "laid_elements s f parse emoteScale h mf els width shown expanded renderReplies =
     fold (\<lambda>el c. if element_hidden h mf renderReplies el then c else addToContainer s f parse emoteScale shown el c) els
       (lc_begin width (layout_flags expanded shown mf))"

definition actuallyLayout ::
  "layout_settings \<Rightarrow> fonts \<Rightarrow> (qstring \<Rightarrow> first_word) \<Rightarrow> rat \<Rightarrow> hide_settings \<Rightarrow> flags \<Rightarrow> message_element list \<Rightarrow> int \<Rightarrow> element_flags
     \<Rightarrow> bool \<Rightarrow> bool \<Rightarrow> layout_container" where
  "actuallyLayout s f parse emoteScale h mf els width shown expanded renderReplies =
     lc_end s (laid_elements s f parse emoteScale h mf els width shown expanded renderReplies)"

text \<open>
  Whether a redraw is required, and the layout with its buffer. \<open>run\<close> gives the container with all elements and the same
  after its end: the buffer is dropped where the height of the former is not the last height of the latter.
\<close>

type_synonym layout_run = "bool \<Rightarrow> bool \<Rightarrow> rat \<Rightarrow> int \<Rightarrow> element_flags \<Rightarrow> layout_container \<times> layout_container"

definition message_run :: "(rat \<Rightarrow> layout_settings) \<Rightarrow> fonts \<Rightarrow> (qstring \<Rightarrow> first_word) \<Rightarrow> rat \<Rightarrow> hide_settings \<Rightarrow> flags \<Rightarrow> message_element list \<Rightarrow> layout_run" where
  "message_run s f parse emoteScale h mf els expanded renderReplies scale width shown =
     (laid_elements (s scale) f parse emoteScale h mf els width shown expanded renderReplies,
      actuallyLayout (s scale) f parse emoteScale h mf els width shown expanded renderReplies)"

definition ml_actuallyLayout :: "layout_run \<Rightarrow> int \<Rightarrow> element_flags \<Rightarrow> layout_state \<Rightarrow> layout_state" where
  "ml_actuallyLayout run width shown l =
     (let (before, c) = run (lo_expanded l) (lo_renderReplies l) (lo_scale l) width shown
      in l\<lparr>lo_container := c, lo_height := lc_height c, lo_collapsed := lc_collapsed c,
           lo_buffer := (lo_buffer l \<and> lo_height l = lc_height before)\<rparr>)"

definition ml_layout :: "layout_run \<Rightarrow> int \<Rightarrow> int \<Rightarrow> rat \<Rightarrow> element_flags \<Rightarrow> layout_state \<Rightarrow> bool \<times> layout_state" where
  "ml_layout run generation width scale shown l =
     (let widthChanged = (width \<noteq> lo_width l);
          required = (widthChanged \<or> lo_generation l \<noteq> generation \<or> lo_wordFlags l \<noteq> shown \<or> lo_requiresLayout l \<or> lo_scale l \<noteq> scale);
          l1 = l\<lparr>lo_width := width, lo_generation := generation, lo_wordFlags := shown, lo_requiresLayout := False, lo_scale := scale,
                 lo_updateBuffer := (lo_updateBuffer l \<or> lo_generation l \<noteq> generation)\<rparr>
      in if \<not> required then (False, l1)
         else (let l2 = ml_actuallyLayout run width shown l1
               in (True, l2\<lparr>lo_bufferValid := False,
                      lo_buffer := (lo_buffer l2 \<and> \<not> (widthChanged \<or> lc_height (lo_container l2) \<noteq> lc_height (lo_container l)))\<rparr>)))"

definition isReplyable :: "message \<Rightarrow> bool" where
  "isReplyable m \<longleftrightarrow> loginName m \<noteq> [] \<and>
     \<not> fe_hasAny (flags m) (fe_list [flag_value System, flag_value Subscription, flag_value Timeout, flag_value Whisper])"

end
