(* ===== verification/Layout_Correct.thy ===== *)
theory Layout_Correct
  imports Message_Layout
begin

text \<open>
  What holds of every layout of a message: its lines cut the elements and the characters into consecutive pieces, a point
  is always turned into a character of the message, a wrapped word loses no letter, and only what is wider than a whole
  line goes past its end.
\<close>

section \<open>Lines\<close>

definition chars :: "layout_element list \<Rightarrow> int" where
  "chars es = sum_list (map getSelectionIndexCount es)"

lemma chars_simps [simp]:
  "chars [] = 0" "chars (e # es) = getSelectionIndexCount e + chars es" "chars (xs @ ys) = chars xs + chars ys"
  by (simp_all add: chars_def)

lemma count_nonneg [simp]: "0 \<le> getSelectionIndexCount e"
  by (simp add: getSelectionIndexCount_def split: element_kind.split)

lemma chars_nonneg [simp]: "0 \<le> chars es"
  by (induction es) auto

text \<open>Lines that follow each other from one element to another, with the characters before their ends.\<close>

fun lines_cut :: "layout_element list \<Rightarrow> nat \<Rightarrow> layout_line list \<Rightarrow> nat \<Rightarrow> bool" where
  "lines_cut es a [] b \<longleftrightarrow> a = b"
| "lines_cut es a (l # ls) b \<longleftrightarrow>
     ll_start l = a \<and> a \<le> ll_end l \<and> ll_startChar l = chars (take a es) \<and> ll_endChar l = chars (take (ll_end l) es) \<and>
     lines_cut es (ll_end l) ls b"

lemma lines_cut_append: "lines_cut es a (ls @ ms) b \<longleftrightarrow> (\<exists>k. lines_cut es a ls k \<and> lines_cut es k ms b)"
  by (induction ls arbitrary: a) auto

lemma lines_cut_le: "lines_cut es a ls b \<Longrightarrow> a \<le> b"
  by (induction ls arbitrary: a) fastforce+

definition same_counts :: "nat \<Rightarrow> layout_element list \<Rightarrow> layout_element list \<Rightarrow> bool" where
  "same_counts n es fs \<longleftrightarrow> map getSelectionIndexCount (take n es) = map getSelectionIndexCount (take n fs)"

lemma same_counts_chars: "same_counts n es fs \<Longrightarrow> k \<le> n \<Longrightarrow> chars (take k es) = chars (take k fs)"
proof -
  assume h: "same_counts n es fs" "k \<le> n"
  have "take k (map getSelectionIndexCount (take n es)) = take k (map getSelectionIndexCount (take n fs))"
    using h(1) by (simp add: same_counts_def)
  then show ?thesis using h(2) by (simp add: take_map chars_def min_def)
qed

lemma lines_cut_cong: "same_counts b es fs \<Longrightarrow> lines_cut es a ls b \<Longrightarrow> lines_cut fs a ls b"
proof (induction ls arbitrary: a)
  case (Cons l ls)
  then show ?case using lines_cut_le [of es "ll_end l" ls b] same_counts_chars [of b es fs a]
      same_counts_chars [of b es fs "ll_end l"] by auto
qed simp

definition container_ok :: "layout_container \<Rightarrow> bool" where
  "container_ok c \<longleftrightarrow> lc_lineStart c \<le> length (lc_elements c) \<and> lc_charIndex c = chars (take (lc_lineStart c) (lc_elements c)) \<and>
     lines_cut (lc_elements c) 0 (close_line (lc_lineStart c) (lc_charIndex c) (lc_lines c)) (lc_lineStart c)"

lemma begin_ok: "container_ok (lc_begin w fs)"
  by (simp add: container_ok_def lc_begin_def close_line_def)

lemma add_fields:
  "lc_lineStart (add_element s force e c) = lc_lineStart c"
  "lc_charIndex (add_element s force e c) = lc_charIndex c"
  "lc_lines (add_element s force e c) = lc_lines c"
  "lc_flags (add_element s force e c) = lc_flags c"
  "lc_width (add_element s force e c) = lc_width c"
  "lc_line (add_element s force e c) = lc_line c"
  "lc_canAdd (add_element s force e c) = lc_canAdd c"
  by (simp_all add: add_element_def Let_def)

lemma add_elements: "\<exists>new. lc_elements (add_element s force e c) = lc_elements c @ new"
  by (simp add: add_element_def Let_def)

lemma add_ok: "container_ok c \<Longrightarrow> container_ok (add_element s force e c)"
proof -
  assume h: "container_ok c"
  obtain new where n: "lc_elements (add_element s force e c) = lc_elements c @ new"
    using add_elements by blast
  have "same_counts (lc_lineStart c) (lc_elements c) (lc_elements c @ new)"
    using h by (simp add: same_counts_def container_ok_def)
  then show ?thesis using h lines_cut_cong by (auto simp: container_ok_def add_fields n)
qed

lemma shift_count [simp]: "getSelectionIndexCount (shift_element s c x e) = getSelectionIndexCount e"
  by (simp add: shift_element_def getSelectionIndexCount_def)

lemma shift_counts: "map getSelectionIndexCount (map (shift_element s c x) es) = map getSelectionIndexCount es"
  by simp

lemma shift_chars [simp]: "chars (map (shift_element s c x) es) = chars es"
  unfolding chars_def shift_counts ..

definition shifted :: "layout_settings \<Rightarrow> layout_container \<Rightarrow> layout_element list" where
  "shifted s c = take (lc_lineStart c) (lc_elements c) @ map (shift_element s c (centered_offset s c)) (drop (lc_lineStart c) (lc_elements c))"

lemma break_fields:
  "lc_elements (breakLine s c) = shifted s c"
  "lc_lineStart (breakLine s c) = length (shifted s c)"
  "lc_charIndex (breakLine s c) = lc_charIndex c + chars (drop (lc_lineStart c) (shifted s c))"
  "\<exists>t b. lc_lines (breakLine s c) = close_line (lc_lineStart c) (lc_charIndex c) (lc_lines c) @
     [\<lparr>ll_start = lc_lineStart c, ll_end = 0, ll_startChar = lc_charIndex c, ll_endChar = 0, ll_top = t, ll_bottom = b\<rparr>]"
  "lc_flags (breakLine s c) = lc_flags c"
  "lc_width (breakLine s c) = lc_width c"
  by (simp_all add: breakLine_def shifted_def chars_def Let_def)

lemma close_last: "close_line e ch (ls @ [l]) = ls @ [l\<lparr>ll_end := e, ll_endChar := ch\<rparr>]"
  by (simp add: close_line_def)

lemma break_ok: "container_ok c \<Longrightarrow> container_ok (breakLine s c)"
proof -
  assume h: "container_ok c"
  let ?a = "lc_lineStart c"
  have le: "?a \<le> length (lc_elements c)" using h by (simp add: container_ok_def)
  have same: "same_counts ?a (lc_elements c) (shifted s c)" using le by (simp add: same_counts_def shifted_def)
  have len: "length (shifted s c) = length (lc_elements c)" using le by (simp add: shifted_def)
  have cut: "lines_cut (shifted s c) 0 (close_line ?a (lc_charIndex c) (lc_lines c)) ?a"
    using h same lines_cut_cong by (auto simp: container_ok_def)
  have ci: "lc_charIndex c = chars (take ?a (shifted s c))"
    using h same_counts_chars [OF same, of ?a] by (simp add: container_ok_def)
  then have total: "lc_charIndex c + chars (drop ?a (shifted s c)) = chars (shifted s c)"
    by (metis append_take_drop_id chars_simps(3))
  obtain t b where lines: "lc_lines (breakLine s c) = close_line ?a (lc_charIndex c) (lc_lines c) @
     [\<lparr>ll_start = ?a, ll_end = 0, ll_startChar = lc_charIndex c, ll_endChar = 0, ll_top = t, ll_bottom = b\<rparr>]"
    using break_fields(4) by blast
  show ?thesis
    unfolding container_ok_def lines close_last break_fields total lines_cut_append
    using cut ci le len by auto
qed

lemmas layout_ops = addElement_def addElementNoLineBreak_def add_ellipsis_def

lemma addElement_ok: "container_ok c \<Longrightarrow> container_ok (addElement s e c)"
  by (simp add: layout_ops add_ok break_ok)

lemma noLineBreak_ok: "container_ok c \<Longrightarrow> container_ok (addElementNoLineBreak s e c)"
  by (simp add: layout_ops add_ok)

lemma collapse_ok: "container_ok c \<Longrightarrow> container_ok (c\<lparr>lc_collapsed := True\<rparr>)"
  by (auto simp: container_ok_def)

text \<open>
  When an element may be put into the line as it is: it fits, or it can not be cut and starts the line, or it is placed
  over the one before, or it is the ellipsis.
\<close>

definition indivisible :: "layout_element \<Rightarrow> bool" where
  "indivisible e \<longleftrightarrow> (case le_kind e of TextEl t \<Rightarrow> length t \<le> 2 | _ \<Rightarrow> True)"

definition has_room :: "layout_settings \<Rightarrow> layout_element \<Rightarrow> layout_container \<Rightarrow> bool" where
  "has_room s e c \<longleftrightarrow> le_has e ZeroWidthEmote \<or> le_kind e = TextEl ''...'' \<or> fitsInLine s (le_w e) c \<or> atStartOfLine c \<and> indivisible e"

lemma break_at_start: "atStartOfLine (breakLine s c)"
  by (simp add: atStartOfLine_def break_fields)

lemma text_element_simps [simp]:
  "le_kind (text_element f fl t w sp) = TextEl t" "le_w (text_element f fl t w sp) = w" "le_kind (image_el k fl p sp) = k"
  "le_w (image_el k fl p sp) = fst p"
  by (simp_all add: text_element_def image_el_def new_element_def)

lemmas adding_defs = add_image_def add_circular_image_def add_emote_def add_badge_def add_moderation_def add_scaling_image_def add_reply_curve_def

text \<open>Whatever the basic operations keep is kept by every element of a message, and by its whole layout.\<close>

locale layout_operations =
  fixes ok :: "layout_settings \<Rightarrow> layout_container \<Rightarrow> bool"
  assumes add: "ok s c \<Longrightarrow> has_room s e c \<Longrightarrow> force \<longrightarrow> le_kind e = TextEl ''...'' \<Longrightarrow> ok s (add_element s force e c)"
    and break': "ok s c \<Longrightarrow> ok s (breakLine s c)"
    and collapse: "ok s c \<Longrightarrow> ok s (c\<lparr>lc_collapsed := True\<rparr>)"
begin

lemma addElement: "ok s c \<Longrightarrow> indivisible e \<Longrightarrow> ok s (addElement s e c)"
  by (auto simp: addElement_def has_room_def break_at_start intro!: add break')

lemma noLineBreak: "ok s c \<Longrightarrow> has_room s e c \<Longrightarrow> ok s (addElementNoLineBreak s e c)"
  by (simp add: addElementNoLineBreak_def add)

definition piece_ok :: "layout_settings \<Rightarrow> int \<Rightarrow> nat \<Rightarrow> layout_container \<Rightarrow> bool" where
  "piece_ok s w n c \<longleftrightarrow> ok s c \<and> atStartOfLine c \<and> (fitsInLine s w c \<or> n \<le> 2)"

lemma piece: "piece_ok s w n c \<Longrightarrow> length t \<le> n \<Longrightarrow> ok s (addElementNoLineBreak s (text_element f fl t w sp) c)"
  by (auto simp: piece_ok_def has_room_def indivisible_def intro!: noLineBreak)

lemma wrap_loop:
  "piece_ok s x (i - w) c \<Longrightarrow> wrap_loop s f fl t i w x c = (w', x', c') \<Longrightarrow> piece_ok s x' (length t - w') c'"
proof (induction s f fl t i w x c rule: wrap_loop.induct)
  case (1 s f fl t i w x c)
  obtain cw i' where u: "unit_width f t i = (cw, i')" by (cases "unit_width f t i") auto
  have "i' - i \<le> 2" using u by (auto simp: unit_width_def split: if_splits)
  then have next_line: "piece_ok s cw (i' - i) (breakLine s (addElementNoLineBreak s (text_element f fl (take (i - w) (drop w t)) x False) c))"
    using piece [OF 1(3)] break' by (simp add: piece_ok_def break_at_start)
  have same_line: "fitsInLine s (x + cw) c \<Longrightarrow> piece_ok s (x + cw) (i' - w) c" using 1(3) by (simp add: piece_ok_def)
  have done': "\<not> i < length t \<Longrightarrow> piece_ok s x (length t - w) c" using 1(3) by (auto simp: piece_ok_def)
  show ?case
    using 1(1) [OF _ u [symmetric] refl _ next_line] 1(2) [OF _ u [symmetric] refl _ same_line] 1(4) done'
    by (subst (asm) wrap_loop.simps) (simp add: u split: if_splits)
qed

lemma wrap_word: "ok s c \<Longrightarrow> atStartOfLine c \<Longrightarrow> ok s (wrap_word s f fl sp t c)"
proof -
  assume h: "ok s c" "atStartOfLine c"
  obtain w' x' c' where r: "wrap_loop s f fl t 0 0 0 c = (w', x', c')" by (cases "wrap_loop s f fl t 0 0 0 c") auto
  have "piece_ok s 0 (0 - 0) c" using h by (simp add: piece_ok_def)
  from wrap_loop [OF this r] have "piece_ok s x' (length t - w') c'" .
  then show ?thesis by (simp add: wrap_word_def r piece)
qed

lemma add_word: "ok s c \<Longrightarrow> ok s (add_word s f fl sp t c)"
  by (simp add: add_word_def Let_def noLineBreak has_room_def wrap_word break' break_at_start)

lemma cut_word: "cut_word s f t c = Some u \<Longrightarrow> fitsInLine s (fm_advance f u) c"
  by (auto simp: cut_word_def find_Some_iff)

lemma fitting: "ok s c \<Longrightarrow> fitsInLine s (le_w e) c \<Longrightarrow> ok s (addElementNoLineBreak s e c)"
  by (simp add: noLineBreak has_room_def)

lemma ellipsis: "ok s c \<Longrightarrow> ok s (add_ellipsis s f fl c)"
  by (simp add: add_ellipsis_def noLineBreak has_room_def)

lemma add_words: "ok s c \<Longrightarrow> ok s (add_words s f parse es fl sp ws c)"
proof (induction ws arbitrary: c)
  case (Cons t ws)
  then show ?case
    by (auto simp: Let_def ellipsis dest: cut_word intro!: fitting Cons.IH split: first_word.split option.split)
qed simp

lemma fold_kept: "(\<And>x c. ok s c \<Longrightarrow> ok s (g x c)) \<Longrightarrow> ok s c \<Longrightarrow> ok s (fold g xs c)"
  by (induction xs arbitrary: c) auto

lemma words: "ok s c \<Longrightarrow> ok s (fold (add_word s f fl sp) ws c)"
  by (rule fold_kept) (rule add_word)

lemma picture: "ok s c \<Longrightarrow> (\<And>t. k \<noteq> TextEl t) \<Longrightarrow> ok s (addElement s (image_el k fl p sp) c)"
  by (rule addElement) (auto simp: indivisible_def split: element_kind.split)

lemma element: "ok s c \<Longrightarrow> ok s (addToContainer s f parse es shown el c)"
  by (cases el) (auto simp: addToContainer_def adding_defs Let_def picture break' add_words
      intro!: words fold_kept split: option.split)

lemma elements:
  "ok s c \<Longrightarrow> ok s (fold (\<lambda>el c. if element_hidden h mf rr el then c else addToContainer s f parse es shown el c) els c)"
  by (rule fold_kept) (simp_all add: element)

lemma last_dots: "ok s c \<Longrightarrow> ok s (add_element s True (dotdotdot s) c)"
  by (rule add) (simp_all add: has_room_def dotdotdot_def new_element_def)

text \<open>What the end of the layout does before the height and the outer lines are set.\<close>

lemma before_end:
  "ok s c \<Longrightarrow> \<exists>c2. ok s c2 \<and> atStartOfLine c2 \<and> lc_elements (lc_end s c) = lc_elements c2"
proof -
  assume h: "ok s c"
  define c1 where "c1 = (if \<not> lc_canAdd c then (add_element s True (dotdotdot s) c)\<lparr>lc_collapsed := True\<rparr> else c)"
  have "ok s c1" using h last_dots collapse by (simp add: c1_def)
  moreover have "lc_elements (lc_end s c) = lc_elements (if \<not> atStartOfLine c1 then breakLine s c1 else c1)"
    by (simp add: lc_end_def Let_def c1_def)
  ultimately show ?thesis by (intro exI [of _ "if \<not> atStartOfLine c1 then breakLine s c1 else c1"]) (simp add: break' break_at_start)
qed

end

text \<open>What a new layout has as well is so for everything that is laid out.\<close>

locale layout_invariant = layout_operations +
  assumes start: "ok s (lc_begin w fs)"
begin

lemma laid_out:
  "ok s (fold (\<lambda>el c. if element_hidden h mf rr el then c else addToContainer s f parse es shown el c) els (lc_begin w fs))"
  by (rule elements) (rule start)

end

interpretation lines: layout_invariant "\<lambda>s. container_ok"
  by unfold_locales (simp_all add: begin_ok add_ok break_ok collapse_ok)

text \<open>The lines with their elements, once a layout is finished.\<close>

definition finished_ok :: "layout_container \<Rightarrow> bool" where
  "finished_ok c \<longleftrightarrow> lines_cut (lc_elements c) 0 (lc_lines c) (length (lc_elements c))"

lemma lines_cut_outer:
  "map (\<lambda>l. (ll_start l, ll_end l, ll_startChar l, ll_endChar l)) ls = map (\<lambda>l. (ll_start l, ll_end l, ll_startChar l, ll_endChar l)) ms \<Longrightarrow>
   lines_cut es a ls b = lines_cut es a ms b"
proof (induction ls arbitrary: a ms)
  case (Cons l ls)
  then obtain m ms' where "ms = m # ms'" by auto
  then show ?case using Cons by auto
qed auto

lemma end_ok: "container_ok c \<Longrightarrow> finished_ok (lc_end s c)"
proof -
  assume h: "container_ok c"
  define c1 where "c1 = (if \<not> lc_canAdd c then (add_element s True (dotdotdot s) c)\<lparr>lc_collapsed := True\<rparr> else c)"
  define c2 where "c2 = (if \<not> atStartOfLine c1 then breakLine s c1 else c1)"
  have "container_ok (add_element s True (dotdotdot s) c)" using h by (rule add_ok)
  then have c1: "container_ok c1" using h by (cases "lc_canAdd c") (auto simp: c1_def container_ok_def)
  then have c2: "container_ok c2" by (simp add: c2_def break_ok)
  have at: "lc_lineStart c2 = length (lc_elements c2)"
    by (simp add: c2_def atStartOfLine_def break_fields)
  define outer where "outer = (\<lambda>ls :: layout_line list. if ls = [] then [] else butlast ls @ [(last ls)\<lparr>ll_bottom := 100000\<rparr>])"
  define first where "first = (\<lambda>ls :: layout_line list. case ls of [] \<Rightarrow> [] | l # r \<Rightarrow> l\<lparr>ll_top := - 100000\<rparr> # r)"
  have lines: "lc_lines (lc_end s c) = close_line (length (lc_elements c2)) (lc_charIndex c2) (outer (first (lc_lines c2)))"
    and els: "lc_elements (lc_end s c) = lc_elements c2"
    by (simp_all add: lc_end_def Let_def c1_def c2_def outer_def first_def)
  let ?v = "\<lambda>l. (ll_start l, ll_end l, ll_startChar l, ll_endChar l)"
  have same: "map ?v (close_line k ch (outer (first ls))) = map ?v (close_line k ch ls)" for k ch ls
  proof (cases ls)
    case (Cons l r)
    then show ?thesis by (cases r rule: rev_cases) (simp_all add: close_line_def outer_def first_def)
  qed (simp add: close_line_def outer_def first_def)
  show ?thesis
    unfolding finished_ok_def lines els lines_cut_outer [OF same] using c2 unfolding container_ok_def at by blast
qed

lemma layout_finished: "finished_ok (actuallyLayout s f parse es h mf els w shown ex rr)"
  by (simp add: actuallyLayout_def end_ok lines.laid_out laid_elements_def)

lemma drop_take_join: "a \<le> k \<Longrightarrow> k \<le> b \<Longrightarrow> drop a (take k xs) @ drop k (take b xs) = drop a (take b xs)"
  using take_add [of "k - a" "b - k" "drop a xs"] by (simp add: drop_take)

lemma lines_cut_concat:
  "lines_cut es a ls b \<Longrightarrow> b \<le> length es \<Longrightarrow> concat (map (\<lambda>l. drop (ll_start l) (take (ll_end l) es)) ls) = drop a (take b es)"
proof (induction ls arbitrary: a)
  case (Cons l ls)
  let ?e = "ll_end l"
  have "a \<le> ?e" "?e \<le> b" using Cons.prems lines_cut_le by auto
  then have "drop a (take ?e es) @ drop ?e (take b es) = drop a (take b es)"
    by (rule drop_take_join)
  then show ?case using Cons.IH [of ?e] Cons.prems by simp
qed simp

lemma lines_cut_ends: "lines_cut es a ls b \<Longrightarrow> ls \<noteq> [] \<Longrightarrow> ll_end (last ls) = b \<and> ll_endChar (last ls) = chars (take b es)"
  by (induction ls arbitrary: a) (auto split: if_splits)

lemma last_character: "finished_ok c \<Longrightarrow> getLastCharacterIndex c = chars (lc_elements c)"
  using lines_cut_ends [of "lc_elements c" 0 "lc_lines c" "length (lc_elements c)"]
  by (cases "lc_lines c = []") (auto simp: finished_ok_def getLastCharacterIndex_def)

lemma line_chars:
  "lines_cut es a ls b \<Longrightarrow> list_all (\<lambda>l. ll_startChar l = chars (take (ll_start l) es) \<and> ll_endChar l = chars (take (ll_end l) es)) ls"
  by (induction ls arbitrary: a) auto

text \<open>
  C31: The lines of a laid-out message, in their order, hold exactly its elements in theirs; every line knows the
  characters before its first and after its last element, and the last character of the message is the number of all
  of them, whatever the elements, the width, the flags and the collapsing.
\<close>

theorem lines_partition_the_message:
  "let c = actuallyLayout s f parse es h mf els w shown ex rr
   in concat (map (line_elements c) (lc_lines c)) = lc_elements c \<and>
      list_all (\<lambda>l. ll_startChar l = chars (take (ll_start l) (lc_elements c)) \<and> ll_endChar l = chars (take (ll_end l) (lc_elements c))) (lc_lines c) \<and>
      getLastCharacterIndex c = chars (lc_elements c)"
proof -
  let ?c = "actuallyLayout s f parse es h mf els w shown ex rr"
  have ok: "finished_ok ?c" by (rule layout_finished)
  then have "concat (map (line_elements ?c) (lc_lines ?c)) = lc_elements ?c"
    using lines_cut_concat [of "lc_elements ?c" 0 "lc_lines ?c" "length (lc_elements ?c)"]
    by (simp add: finished_ok_def line_elements_def [abs_def])
  moreover have "list_all (\<lambda>l. ll_startChar l = chars (take (ll_start l) (lc_elements ?c)) \<and>
      ll_endChar l = chars (take (ll_end l) (lc_elements ?c))) (lc_lines ?c)"
    using ok line_chars by (simp add: finished_ok_def)
  ultimately show ?thesis using last_character [OF ok] unfolding Let_def by blast
qed

section \<open>Nothing goes past the end of a line\<close>

text \<open>An element of the line that is being filled, at most \<open>b\<close> wide, and the same once the line has got its left edge \<open>a\<close>.\<close>

definition placed :: "int \<Rightarrow> int \<Rightarrow> layout_element \<Rightarrow> bool" where
  "placed a b e \<longleftrightarrow> le_has e ZeroWidthEmote \<or> le_kind e = TextEl ''...'' \<or> le_x e \<le> a \<and> indivisible e \<or> le_x e + le_w e \<le> b"

definition inside_ok :: "layout_settings \<Rightarrow> layout_container \<Rightarrow> bool" where
  "inside_ok s c \<longleftrightarrow> 0 \<le> ls_spaceWidth s \<and> 0 \<le> ls_dotdotdotWidth s \<and> \<not> fe_has (lc_flags c) (flag_value Centered) \<longrightarrow>
     (lc_canAdd c \<and> atStartOfLine c \<longrightarrow> lc_x c = 0) \<and> lc_lineStart c \<le> length (lc_elements c) \<and>
     list_all (placed (margin_side s) (lc_width c - margin_side s)) (take (lc_lineStart c) (lc_elements c)) \<and>
     list_all (placed 0 (lc_width c - margin_side s - margin_side s)) (drop (lc_lineStart c) (lc_elements c))"

lemma inside_begin: "inside_ok s (lc_begin w fs)"
  by (simp add: inside_ok_def lc_begin_def)

lemma shift_flags [simp]: "le_has (shift_element s c x e) k = le_has e k" "le_kind (shift_element s c x e) = le_kind e"
  "indivisible (shift_element s c x e) = indivisible e"
  by (simp_all add: shift_element_def le_has_def indivisible_def)

lemma shift_placed: "placed 0 (b - margin_side s) e \<Longrightarrow> placed (margin_side s) b (shift_element s c 0 e)"
  unfolding placed_def shift_flags by (auto simp: shift_element_def)

lemma not_centered: "\<not> fe_has (lc_flags c) (flag_value Centered) \<Longrightarrow> centered_offset s c = 0"
  by (simp add: centered_offset_def)

lemma shift_all_placed:
  "list_all (placed 0 (b - margin_side s)) es \<Longrightarrow> list_all (placed (margin_side s) b) (map (shift_element s c 0) es)"
  by (induction es) (simp_all add: shift_placed)

lemma break_x: "lc_canAdd (breakLine s c) \<Longrightarrow> lc_canAdd c \<Longrightarrow> lc_x (breakLine s c) = 0"
  by (auto simp: breakLine_def Let_def split: if_splits)

lemma break_canAdd: "lc_canAdd (breakLine s c) \<Longrightarrow> lc_canAdd c"
  by (auto simp: breakLine_def Let_def split: if_splits)

lemma inside_break: "inside_ok s c \<Longrightarrow> inside_ok s (breakLine s c)"
  using shift_all_placed [of "lc_width c - margin_side s" s "drop (lc_lineStart c) (lc_elements c)" c] break_x [of s c] break_canAdd [of s c]
  by (auto simp: inside_ok_def break_fields shifted_def not_centered)

text \<open>Where an element is put, and how little the place is moved.\<close>

lemma added_element:
  assumes "lc_canAdd c \<or> force"
  shows "\<exists>e'. lc_elements (add_element s force e c) = lc_elements c @ [e'] \<and> le_kind e' = le_kind e \<and> le_w e' = le_w e \<and>
     le_flags e' = le_flags e \<and> (0 \<le> ls_spaceWidth s \<and> \<not> le_has e ZeroWidthEmote \<longrightarrow> le_x e' \<le> lc_x c)"
  using assms by (simp add: add_element_def Let_def)

lemma fits_limit:
  "fitsInLine s w c \<Longrightarrow> 0 \<le> ls_dotdotdotWidth s \<Longrightarrow> lc_x c + w \<le> lc_width c - margin_side s - margin_side s"
  by (simp add: fitsInLine_def split: if_splits)

lemma inside_add: 
  assumes ok: "inside_ok s c" and room: "has_room s e c" and dots: "force \<longrightarrow> le_kind e = TextEl ''...''"
  shows "inside_ok s (add_element s force e c)"
proof (cases "(lc_canAdd c \<or> force) \<and> 0 \<le> ls_spaceWidth s \<and> 0 \<le> ls_dotdotdotWidth s \<and> \<not> fe_has (lc_flags c) (flag_value Centered)")
  case False
  show ?thesis
  proof (cases "lc_canAdd c \<or> force")
    case True
    then show ?thesis using False by (auto simp: inside_ok_def add_fields)
  next
    case nothing: False
    then have "add_element s force e c = c" by (simp add: add_element_def)
    then show ?thesis using ok by simp
  qed
next
  case True
  then obtain e' where e': "lc_elements (add_element s force e c) = lc_elements c @ [e']" "le_kind e' = le_kind e" "le_w e' = le_w e"
      "le_flags e' = le_flags e" and x: "\<not> le_has e ZeroWidthEmote \<longrightarrow> le_x e' \<le> lc_x c"
    using added_element [of c force s e] by blast
  have same: "le_has e' k = le_has e k" "indivisible e' = indivisible e" for k
    using e' by (simp_all add: le_has_def indivisible_def)
  have at: "lc_canAdd c \<Longrightarrow> atStartOfLine c \<Longrightarrow> lc_x c = 0" and len: "lc_lineStart c \<le> length (lc_elements c)"
    using ok True by (simp_all add: inside_ok_def)
  have "placed 0 (lc_width c - margin_side s - margin_side s) e'"
  proof (cases "le_has e ZeroWidthEmote \<or> le_kind e = TextEl ''...''")
    case False
    then have "lc_canAdd c" "le_x e' \<le> lc_x c" using True dots x by auto
    moreover have "fitsInLine s (le_w e) c \<or> atStartOfLine c \<and> indivisible e" using room False by (simp add: has_room_def)
    ultimately show ?thesis using at True fits_limit [of s "le_w e" c] by (auto simp: placed_def same e'(3))
  qed (auto simp: placed_def same e'(2))
  then show ?thesis using ok True len by (auto simp: inside_ok_def add_fields e'(1) atStartOfLine_def)
qed

lemma inside_collapse: "inside_ok s c \<Longrightarrow> inside_ok s (c\<lparr>lc_collapsed := True\<rparr>)"
  by (simp add: inside_ok_def atStartOfLine_def)

interpretation inside: layout_invariant inside_ok
  by unfold_locales (simp_all add: inside_begin inside_add inside_break inside_collapse)

lemma begin_message: "lc_width (lc_begin w fs) = w" "lc_flags (lc_begin w fs) = fs"
  by (simp_all add: lc_begin_def)

text \<open>Both together, with the message's width and flags.\<close>

interpretation both: layout_operations "\<lambda>s c. inside_ok s c \<and> lc_width c = w \<and> lc_flags c = fs" for w fs
  by unfold_locales (simp_all add: inside_add inside_break inside_collapse add_fields break_fields)

lemma end_inside:
  assumes c: "inside_ok s c" and fs: "\<not> fe_has (lc_flags c) (flag_value Centered)"
    and s: "0 \<le> ls_spaceWidth s" "0 \<le> ls_dotdotdotWidth s"
  shows "list_all (placed (margin_side s) (lc_width c - margin_side s)) (lc_elements (lc_end s c))"
proof -
  obtain c2 where "inside_ok s c2" "atStartOfLine c2" "lc_elements (lc_end s c) = lc_elements c2"
      "lc_flags c2 = lc_flags c" "lc_width c2 = lc_width c"
    using both.before_end [of s c] c by blast
  then show ?thesis using fs s by (simp add: inside_ok_def atStartOfLine_def)
qed

text \<open>
  C33: In a message that is not centred every element of the finished layout ends before the right margin, unless it can
  not be cut and starts its line, lies over the element before it, or is the ellipsis of a message that is cut off.
\<close>

theorem nothing_past_the_margin:
  assumes "0 \<le> ls_spaceWidth s" "0 \<le> ls_dotdotdotWidth s" "\<not> fe_has (layout_flags ex shown mf) (flag_value Centered)"
  shows "list_all (\<lambda>e. le_has e ZeroWidthEmote \<or> le_kind e = TextEl ''...'' \<or> le_x e \<le> margin_side s \<and> indivisible e \<or>
      le_x e + le_w e \<le> w - margin_side s) (lc_elements (actuallyLayout s f parse es h mf els w shown ex rr))"
proof -
  define c where "c = fold (\<lambda>el c. if element_hidden h mf rr el then c else addToContainer s f parse es shown el c) els
     (lc_begin w (layout_flags ex shown mf))"
  have "inside_ok s c \<and> lc_width c = w \<and> lc_flags c = layout_flags ex shown mf"
    unfolding c_def by (rule both.elements) (simp add: inside_begin begin_message)
  then show ?thesis using end_inside [of s c] assms
    by (simp add: actuallyLayout_def laid_elements_def placed_def [abs_def] flip: c_def)
qed

section \<open>Wrapping\<close>

definition all_text :: "layout_element list \<Rightarrow> qstring" where
  "all_text es = concat (map (\<lambda>e. case le_kind e of TextEl t \<Rightarrow> t | _ \<Rightarrow> []) es)"

lemma all_text_simps [simp]: "all_text [] = []" "all_text (xs @ ys) = all_text xs @ all_text ys"
  by (simp_all add: all_text_def)

lemma shift_text [simp]: "all_text (map (shift_element s c x) es) = all_text es"
  by (induction es) (simp_all add: all_text_def)

lemma break_text [simp]: "all_text (lc_elements (breakLine s c)) = all_text (lc_elements c)"
  unfolding break_fields shifted_def all_text_simps shift_text by (metis all_text_simps(2) append_take_drop_id)

definition open_to_all :: "layout_settings \<Rightarrow> layout_container \<Rightarrow> bool" where
  "open_to_all s c \<longleftrightarrow> lc_canAdd c \<and> \<not> canCollapse s c"

lemma open_break [simp]: "open_to_all s c \<Longrightarrow> open_to_all s (breakLine s c)"
  by (auto simp: open_to_all_def breakLine_def Let_def canCollapse_def)

lemma open_add [simp]: "open_to_all s c \<Longrightarrow> open_to_all s (addElementNoLineBreak s e c)"
  by (simp add: open_to_all_def addElementNoLineBreak_def add_fields canCollapse_def)

lemma add_text:
  "open_to_all s c \<Longrightarrow> all_text (lc_elements (addElementNoLineBreak s (text_element f fl t w sp) c)) = all_text (lc_elements c) @ t"
  by (simp add: open_to_all_def addElementNoLineBreak_def add_element_def Let_def all_text_def text_element_def new_element_def)

lemma wrap_loop_text:
  "wrap_loop s f fl t i w x c = (w', x', c') \<Longrightarrow> open_to_all s c \<Longrightarrow> w \<le> i \<Longrightarrow>
   all_text (lc_elements c') @ drop w' t = all_text (lc_elements c) @ drop w t \<and> open_to_all s c'"
proof (induction s f fl t i w x c rule: wrap_loop.induct)
  case (1 s f fl t i w x c)
  obtain cw i' where u: "unit_width f t i = (cw, i')" by (cases "unit_width f t i") auto
  have i': "i \<le> i'" using u by (auto simp: unit_width_def split: if_splits)
  have "take (i - w) (drop w t) @ drop i t = drop w t"
    using 1(5) by (metis append_take_drop_id drop_drop le_add_diff_inverse2)
  then show ?case
    using 1(1) [OF _ u [symmetric] refl] 1(2) [OF _ u [symmetric] refl] 1(3,4,5) i'
    by (subst (asm) wrap_loop.simps) (auto simp: u add_text split: if_splits)
qed

lemma wrap_word_text: "open_to_all s c \<Longrightarrow> all_text (lc_elements (wrap_word s f fl sp t c)) = all_text (lc_elements c) @ t"
  using wrap_loop_text [of s f fl t 0 0 0 c]
  by (cases "wrap_loop s f fl t 0 0 0 c") (simp add: wrap_word_def add_text)

lemma wrap_word_open: "open_to_all s c \<Longrightarrow> open_to_all s (wrap_word s f fl sp t c)"
  using wrap_loop_text [of s f fl t 0 0 0 c]
  by (cases "wrap_loop s f fl t 0 0 0 c") (simp add: wrap_word_def)

lemma add_word_text:
  "open_to_all s c \<Longrightarrow> all_text (lc_elements (add_word s f fl sp t c)) = all_text (lc_elements c) @ t \<and> open_to_all s (add_word s f fl sp t c)"
  by (simp add: add_word_def Let_def add_text wrap_word_text wrap_word_open)

text \<open>
  C32: In a message that need not collapse the pieces of text that a text element adds to the layout are its words, in
  their order and with every letter: breaking lines and cutting words that are longer than a line loses and
  repeats nothing.
\<close>

theorem wrapping_keeps_every_letter:
  assumes "lc_canAdd c" "\<not> canCollapse s c" "el_hasAny shown fl"
  shows "all_text (lc_elements (addToContainer s f parse es shown (TextElement fl ws sp) c)) = all_text (lc_elements c) @ concat ws"
proof -
  have "open_to_all s c \<Longrightarrow> all_text (lc_elements (fold (add_word s f fl sp) ws c)) = all_text (lc_elements c) @ concat ws"
    by (induction ws arbitrary: c) (simp_all add: add_word_text)
  then show ?thesis using assms by (simp add: addToContainer_def element_flags_of_def open_to_all_def)
qed

section \<open>When a message is laid out\<close>

definition layout_current :: "layout_run \<Rightarrow> layout_state \<Rightarrow> bool" where
  "layout_current run l \<longleftrightarrow> lo_requiresLayout l \<or>
     lo_container l = snd (run (lo_expanded l) (lo_renderReplies l) (lo_scale l) (lo_width l) (lo_wordFlags l))"

text \<open>
  A message that is laid out for a width, scale, window generation and kinds of elements holds the layout for exactly
  these, and doing the same again changes nothing and asks for no redraw, where the layout it had was the one for the
  values it remembers.
\<close>

theorem layout_is_current:
  assumes "layout_current run l"
  shows "let l' = snd (ml_layout run g w sc shown l)
         in lo_container l' = snd (run (lo_expanded l) (lo_renderReplies l) sc w shown) \<and> ml_layout run g w sc shown l' = (False, l')"
  using assms by (auto simp: layout_current_def ml_layout_def ml_actuallyLayout_def Let_def split: prod.split)

section \<open>Points\<close>

lemma mouse_range: "mouse_loop f px x i t = Some k \<Longrightarrow> i \<le> k \<and> k < i + int (length t)"
proof (induction t arbitrary: x i)
  case (Cons a t)
  show ?case
  proof (cases "x + fm_unit f a > px")
    case True
    then show ?thesis using Cons.prems by (cases t) (auto split: if_splits)
  next
    case False
    then show ?thesis using Cons.IH [of "x + fm_unit f a" "i + 1"] Cons.prems by simp
  qed
qed simp

lemma mouse_index_range: "0 \<le> getMouseOverIndex f px e \<and> getMouseOverIndex f px e \<le> getSelectionIndexCount e"
  using mouse_range [of f px "le_left e" 0]
  by (fastforce simp: getMouseOverIndex_def getSelectionIndexCount_def split: element_kind.split option.split)

lemma index_in_line_range: "0 \<le> index_in_line s f px es \<and> index_in_line s f px es \<le> chars es"
proof (induction es)
  case (Cons e es)
  then show ?case using mouse_index_range [of f px e] chars_nonneg [of es] count_nonneg [of e] by (auto simp del: chars_nonneg count_nonneg)
qed simp

lemma dropWhile_split: "\<exists>pre. xs = pre @ dropWhile P xs"
  by (metis takeWhile_dropWhile_id)

text \<open>
  Wherever the mouse is, the character found for it lies between the first and the last of the message: the index
  is never out of range, and there is always a line to look into.
\<close>

theorem every_point_has_a_character:
  "(case getSelectionIndex s f px py (actuallyLayout st f' parse es h mf els w shown ex rr) of
      None \<Rightarrow> False
    | Some i \<Rightarrow> 0 \<le> i \<and> i \<le> getLastCharacterIndex (actuallyLayout st f' parse es h mf els w shown ex rr))"
proof -
  define c where "c = actuallyLayout st f' parse es h mf els w shown ex rr"
  have ok: "finished_ok c" by (simp add: c_def layout_finished)
  let ?es = "lc_elements c"
  have total: "getLastCharacterIndex c = chars ?es" using ok by (rule last_character)
  have cut: "lines_cut ?es 0 (lc_lines c) (length ?es)" using ok by (simp add: finished_ok_def)
  have split_bound: "chars (take (min a b) ?es) + chars (drop a (take b ?es)) \<le> chars ?es" if "a \<le> b" for a b
  proof -
    have "chars (take a ?es) + chars (drop a (take b ?es)) = chars (take b ?es)"
      using that by (metis append_take_drop_id chars_simps(3) min.absorb1 take_take)
    also have "\<dots> \<le> chars ?es"
      by (metis append_take_drop_id chars_nonneg chars_simps(3) le_add_same_cancel1)
    finally show ?thesis using that by (simp add: min_absorb1)
  qed
  show ?thesis
  proof (cases "?es = []")
    case True
    then show ?thesis by (simp add: getSelectionIndex_def total flip: c_def)
  next
    case False
    then have nl: "lc_lines c \<noteq> []" using cut by auto
    define rest where "rest = lines_from px py c"
    define a where "a = (case rest of [] \<Rightarrow> ll_start (last (lc_lines c)) | l # _ \<Rightarrow> ll_start l)"
    define b where "b = (case rest of _ # l # _ \<Rightarrow> ll_start l | _ \<Rightarrow> length ?es)"
    obtain pre where pre: "lc_lines c = pre @ rest" using dropWhile_split [of "lc_lines c"] by (auto simp: rest_def lines_from_def)
    obtain k where k: "lines_cut ?es k rest (length ?es)" using cut unfolding pre lines_cut_append by blast
    have "a \<le> b"
    proof (cases rest)
      case Nil
      have "lines_cut ?es 0 (butlast (lc_lines c) @ [last (lc_lines c)]) (length ?es)" using cut nl by simp
      then show ?thesis unfolding lines_cut_append by (auto simp: a_def b_def Nil)
    next
      case (Cons l r)
      then show ?thesis using k lines_cut_le by (cases r) (fastforce simp: a_def b_def)+
    qed
    moreover have "getSelectionIndex s f px py c =
        Some (chars (take (min a b) ?es) + index_in_line s f px (drop a (take b ?es)))"
      using False nl by (simp add: getSelectionIndex_def Let_def chars_def a_def b_def rest_def)
    ultimately show ?thesis
      using split_bound index_in_line_range [of s f px "drop a (take b ?es)"] chars_nonneg [of "take (min a b) ?es"]
      by (fastforce simp: total simp del: chars_nonneg simp flip: c_def)
  qed
qed

section \<open>Painting a selection\<close>

definition line_filled :: "layout_line \<Rightarrow> bool" where
  "line_filled l \<longleftrightarrow> ll_start l < ll_end l"

lemma filled_edges: "lines_cut es a ls b \<Longrightarrow> b \<le> length (lc_elements c) \<Longrightarrow> list_all line_filled ls \<Longrightarrow> list_all (\<lambda>l. line_edges c l \<noteq> None) ls"
proof (induction ls arbitrary: a)
  case (Cons l ls)
  then have "line_edges c l \<noteq> None" using lines_cut_le [of es "ll_end l" ls b] by (auto simp: line_filled_def line_edges_def)
  then show ?case using Cons.IH [of "ll_end l"] Cons.prems by simp
qed simp

lemma all_rects_defined: "list_all (\<lambda>l. f l \<noteq> None) ls \<Longrightarrow> all_rects f ls \<noteq> None"
  by (induction ls) auto

lemma paint_end_defined: "list_all (\<lambda>l. line_edges c l \<noteq> None) ls \<Longrightarrow> paint_end f c y m ls \<noteq> None"
  by (induction ls) auto

lemma whole_line_defined: "line_edges c l \<noteq> None \<Longrightarrow> whole_line c y l \<noteq> None"
  by (simp add: whole_line_def)

lemma whole_lines_defined: "list_all (\<lambda>l. line_edges c l \<noteq> None) ls \<Longrightarrow> all_rects (whole_line c y) ls \<noteq> None"
  by (rule all_rects_defined) (rule list.pred_mono_strong, assumption, rule whole_line_defined)

lemma paint_start_defined: "list_all (\<lambda>l. line_edges c l \<noteq> None) ls \<Longrightarrow> paint_start f c y a m ls \<noteq> None"
proof (induction ls)
  case (Cons l ls)
  have rest: "list_all (\<lambda>l. line_edges c l \<noteq> None) ls" "\<exists>x r. line_edges c l = Some (x, r)" using Cons.prems by auto
  then show ?case using Cons.IH paint_end_defined [OF rest(1)] whole_lines_defined [OF rest(1)]
    by (auto split: option.split)
qed simp

text \<open>
  Painting a selection over a laid-out message that has no empty line never reads an element that does not exist,
  whatever the selection and the place of the message.
\<close>

theorem painting_reads_no_missing_element:
  assumes "list_all line_filled (lc_lines (actuallyLayout s f parse es h mf els w shown ex rr))"
  shows "paintSelection f' (actuallyLayout s f parse es h mf els w shown ex rr) i sel y \<noteq> None"
proof -
  define c where "c = actuallyLayout s f parse es h mf els w shown ex rr"
  have "finished_ok c" by (simp add: c_def layout_finished)
  then have "list_all (\<lambda>l. line_edges c l \<noteq> None) (lc_lines c)"
    using filled_edges [of "lc_elements c" 0 "lc_lines c" "length (lc_elements c)" c] assms by (simp add: finished_ok_def c_def)
  then show ?thesis
    unfolding c_def [symmetric] paintSelection_def Let_def
    by (simp only: paint_start_defined paint_end_defined whole_lines_defined split: if_split) simp
qed

text \<open>A font whose letters are as wide as three, and a layout of words for it.\<close>

definition plain_font :: fonts where
  "plain_font = \<lparr>fm_advance = (\<lambda>t. 3 * int (length t)), fm_unit = (\<lambda>_. 3), fm_height = 5, fm_high = (\<lambda>_. False), fm_low = (\<lambda>_. False)\<rparr>"

definition plain_layout :: layout_settings where
  "plain_layout = \<lparr>ls_scale = 1, ls_compactEmotes = False, ls_removeSpaces = False, ls_minLines = 0, ls_textLineHeight = 5,
     ls_spaceWidth = 1, ls_dotdotdotWidth = 3\<rparr>"

definition no_hiding :: hide_settings where
  "no_hiding = \<lparr>hs_hideModerated = False, hs_hideModerationActions = False, hs_hideSimilar = False\<rparr>"

definition plain_message :: "message_element list \<Rightarrow> layout_container" where
  "plain_message els = actuallyLayout plain_layout plain_font (\<lambda>_. PlainWord) 1 no_hiding 0 els 40 (el_mask [ElText, EmojiImage]) False False"

lemmas layout_eval = plain_message_def plain_layout_def plain_font_def no_hiding_def actuallyLayout_def laid_elements_def lc_begin_def layout_flags_def
  el_hasAny_def el_mask_def element_hidden_def element_flags_of_def addToContainer_def add_word_def fitsInLine_def margin_side_def
  margin_vertical_def trunc_def text_element_def new_element_def addElementNoLineBreak_def add_element_def le_has_def is_compact_def
  EmoteImages_def shouldRemoveSpace_def atStartOfLine_def breakLine_def close_line_def shift_element_def canCollapse_def centered_offset_def
  getSelectionIndexCount_def lc_end_def addElement_def image_el_def scaled_def adding_defs

lemma painting_witness:
  "paintSelection plain_font (plain_message [TextElement (el_mask [ElText]) [''abc'', ''defgh''] True]) 0
     (Selection \<lparr>si_message = 0, si_char = 1\<rparr> \<lparr>si_message = 0, si_char = 6\<rparr>) 0 \<noteq> None"
  unfolding plain_message_def
  by (rule painting_reads_no_missing_element) (simp add: layout_eval Let_def line_filled_def)

text \<open>A picture that is wider than the message starts with an empty line, which has no last element to paint.\<close>

lemma wide_picture_first:
  "paintSelection plain_font (plain_message [ImageElement (el_mask [ElText]) (100, 10) True]) 0
     (Selection \<lparr>si_message = 0, si_char = 0\<rparr> \<lparr>si_message = 1, si_char = 0\<rparr>) 0 = None"
  by (simp add: layout_eval Let_def Selection_def si_greater_def si_equal_def si_less_def paintSelection_def line_edges_def)

lemma nothing_past_the_margin_witness:
  "list_all (\<lambda>e. le_has e ZeroWidthEmote \<or> le_kind e = TextEl ''...'' \<or> le_x e \<le> margin_side plain_layout \<and> indivisible e \<or>
      le_x e + le_w e \<le> 40 - margin_side plain_layout)
    (lc_elements (plain_message [TextElement (el_mask [ElText]) [''abc'', ''defghijklm''] True]))"
  unfolding plain_message_def
  by (rule nothing_past_the_margin) (simp_all add: plain_layout_def layout_flags_def el_hasAny_def el_mask_def fe_has_def flag_value_def)

lemma wrapping_keeps_every_letter_witness:
  "all_text (lc_elements (addToContainer plain_layout plain_font (\<lambda>_. PlainWord) 1 (el_mask [ElText])
     (TextElement (el_mask [ElText]) [''abc'', ''defghijklmnopq''] True) (lc_begin 40 0))) = ''abcdefghijklmnopq''"
  by (subst wrapping_keeps_every_letter)
     (simp_all add: lc_begin_def canCollapse_def plain_layout_def el_hasAny_def el_mask_def all_text_def)


definition plain_run :: layout_run where
  "plain_run = message_run (\<lambda>_. plain_layout) plain_font (\<lambda>_. PlainWord) 1 no_hiding 0 [TextElement (el_mask [ElText]) [''abc''] True]"

definition new_state :: layout_state where
  "new_state = \<lparr>lo_width = 0, lo_generation = 0, lo_wordFlags = 0, lo_requiresLayout = True, lo_updateBuffer = False, lo_expanded = False,
     lo_collapsed = False, lo_scale = 1, lo_height = 0, lo_container = lc_begin 0 0, lo_buffer = False, lo_bufferValid = False,
     lo_renderReplies = True\<rparr>"

lemma layout_witness:
  "let l' = snd (ml_layout plain_run 1 40 1 (el_mask [ElText]) new_state)
   in lo_container l' = snd (plain_run (lo_expanded new_state) (lo_renderReplies new_state) 1 40 (el_mask [ElText])) \<and>
      ml_layout plain_run 1 40 1 (el_mask [ElText]) l' = (False, l')"
  by (rule layout_is_current) (simp add: layout_current_def new_state_def)

end
