(* ===== verification/Chat_Input.thy ===== *)
theory Chat_Input
  imports Text_Utils Chatters Qt_Text
begin

text \<open>
  The input of a chat: \<open>common/CompletionModel.cpp\<close> and \<open>widgets/splits/InputCompletionPopup.cpp\<close> (what is offered while
  a word is typed), \<open>widgets/helper/ResizingTextEdit.cpp\<close> (the word under the cursor) and
  \<open>widgets/splits/SplitInput.cpp\<close> (sending, the history of what was sent, replies). A text is edited at a cursor and an
  anchor; that it was changed is always followed by \<open>editTextChanged\<close>.
\<close>

section \<open>The completion of a word\<close>

datatype completion_type =
    Username
  | EmoteStart | FFZGlobalEmote | FFZChannelEmote | SEVENTVGlobalEmote | SEVENTVChannelEmote | BTTVGlobalEmote | BTTVChannelEmote
  | TwitchGlobalEmote | TwitchLocalEmote | TwitchSubscriberEmote | EmojiCode | EmoteEnd
  | CustomCommand | ChatterinoCommand | TwitchCommand

fun completion_value :: "completion_type \<Rightarrow> nat" where
  "completion_value Username = 0"
| "completion_value EmoteStart = 1"
| "completion_value FFZGlobalEmote = 2"
| "completion_value FFZChannelEmote = 3"
| "completion_value SEVENTVGlobalEmote = 4"
| "completion_value SEVENTVChannelEmote = 5"
| "completion_value BTTVGlobalEmote = 6"
| "completion_value BTTVChannelEmote = 7"
| "completion_value TwitchGlobalEmote = 8"
| "completion_value TwitchLocalEmote = 9"
| "completion_value TwitchSubscriberEmote = 10"
| "completion_value EmojiCode = 11"
| "completion_value EmoteEnd = 12"
| "completion_value CustomCommand = 13"
| "completion_value ChatterinoCommand = 14"
| "completion_value TwitchCommand = 15"

record tagged_string =
  tg_string :: qstring
  tg_type :: completion_type

definition tg_isEmote :: "tagged_string \<Rightarrow> bool" where
  "tg_isEmote t \<longleftrightarrow> completion_value (tg_type t) > completion_value EmoteStart \<and> completion_value (tg_type t) < completion_value EmoteEnd"

text \<open>\<open>fold_case\<close>: the folding of case by which Qt compares without case.\<close>

definition compareStrings :: "(qstring \<Rightarrow> qstring) \<Rightarrow> qstring \<Rightarrow> qstring \<Rightarrow> bool" where
  "compareStrings fold_case a b = (if fold_case a = fold_case b then a > b else fold_case a < fold_case b)"

definition tagged_less :: "(qstring \<Rightarrow> qstring) \<Rightarrow> tagged_string \<Rightarrow> tagged_string \<Rightarrow> bool" where
  "tagged_less fold_case a b =
     (if tg_isEmote a \<noteq> tg_isEmote b then tg_isEmote a else compareStrings fold_case (tg_string a) (tg_string b))"

text \<open>\<open>std::set::emplace\<close>: an element that is neither less nor greater is there already.\<close>

fun set_emplace :: "('a \<Rightarrow> 'a \<Rightarrow> bool) \<Rightarrow> 'a \<Rightarrow> 'a list \<Rightarrow> 'a list" where
  "set_emplace lt x [] = [x]"
| "set_emplace lt x (y # ys) =
     (if lt x y then x # y # ys else if lt y x then y # set_emplace lt x ys else y # ys)"

text \<open>
  What the model reads: Qt's search without case, the settings, the emotes by the table they come from, the chatters
  (\<open>ce_chatters\<close> filters them by a prefix), and the commands. \<open>ce_channel\<close>: the channel is a \<open>TwitchChannel\<close>, not only
  one of the special channels.
\<close>

record completion_env =
  ce_fold :: "qstring \<Rightarrow> qstring"
  ce_startsWith :: "qstring \<Rightarrow> qstring \<Rightarrow> bool"
  ce_contains :: "qstring \<Rightarrow> qstring \<Rightarrow> bool"
  ce_lower :: "qstring \<Rightarrow> qstring"
  ce_prefixOnly :: bool
  ce_onlyWithAt :: bool
  ce_withComma :: bool
  ce_lowercaseNames :: bool
  ce_isTwitch :: bool
  ce_channel :: bool
  ce_accountEmotes :: "qstring list"
  ce_localEmotes :: "qstring list option"
  ce_global7tv :: "qstring list"
  ce_globalBttv :: "qstring list"
  ce_globalFfz :: "qstring list"
  ce_shortCodes :: "qstring list"
  ce_chatters :: "qstring \<Rightarrow> qstring list"
  ce_channel7tv :: "qstring list"
  ce_channelBttv :: "qstring list"
  ce_channelFfz :: "qstring list"
  ce_commands :: "qstring list"
  ce_builtin :: "qstring list"

definition TWITCH_DEFAULT_COMMANDS :: "qstring list" where
  "TWITCH_DEFAULT_COMMANDS =
     [''help'', ''w'', ''me'', ''disconnect'', ''mods'', ''vips'', ''color'', ''commercial'', ''mod'', ''unmod'', ''vip'', ''unvip'',
      ''ban'', ''unban'', ''timeout'', ''untimeout'', ''slow'', ''slowoff'', ''r9kbeta'', ''r9kbetaoff'', ''emoteonly'', ''emoteonlyoff'',
      ''clear'', ''subscribers'', ''subscribersoff'', ''followers'', ''followersoff'', ''host'', ''unhost'', ''raid'', ''unraid'',
      ''delete'', ''announce'', ''requests'']"

definition completion_matches :: "completion_env \<Rightarrow> qstring \<Rightarrow> qstring \<Rightarrow> bool" where
  "completion_matches e pre str = startsWithOrContains (ce_startsWith e) (ce_contains e) str pre (ce_prefixOnly e)"

definition addString :: "completion_env \<Rightarrow> qstring \<Rightarrow> tagged_string \<Rightarrow> tagged_string list \<Rightarrow> tagged_string list" where
  "addString e pre t items =
     (let str = tg_string t; ty = tg_type t
      in if ty = TwitchCommand then
           (if length pre < 2 \<or> hd pre \<notin> {CHR ''/'', CHR ''.''} then items
            else if completion_matches e pre (hd pre # str)
            then set_emplace (tagged_less (ce_fold e)) \<lparr>tg_string = hd pre # str @ '' '', tg_type = ty\<rparr> items
            else items)
         else if completion_matches e pre str then set_emplace (tagged_less (ce_fold e)) \<lparr>tg_string = str @ '' '', tg_type = ty\<rparr> items
         else items)"

definition tagged :: "completion_type \<Rightarrow> qstring list \<Rightarrow> tagged_string list" where
  "tagged ty ss = map (\<lambda>s. \<lparr>tg_string = s, tg_type = ty\<rparr>) ss"

definition completion_names :: "completion_env \<Rightarrow> qstring \<Rightarrow> bool \<Rightarrow> qstring list" where
  "completion_names e pre isFirstWord =
     (let mention = (\<lambda>n. formatUserMention (ce_lower e) n isFirstWord (ce_withComma e) (ce_lowercaseNames e))
      in if prefix ''@'' pre then map (\<lambda>n. ''@'' @ mention n) (ce_chatters e (drop 1 pre))
         else if \<not> ce_onlyWithAt e then map mention (ce_chatters e pre)
         else [])"

definition completion_sources :: "completion_env \<Rightarrow> qstring \<Rightarrow> bool \<Rightarrow> tagged_string list" where
  "completion_sources e pre isFirstWord =
     tagged TwitchGlobalEmote (ce_accountEmotes e) @
     (case ce_localEmotes e of Some es \<Rightarrow> if ce_channel e then tagged TwitchLocalEmote es else [] | None \<Rightarrow> []) @
     tagged SEVENTVGlobalEmote (ce_global7tv e) @ tagged BTTVChannelEmote (ce_globalBttv e) @ tagged FFZChannelEmote (ce_globalFfz e) @
     (if prefix '':'' pre then tagged EmojiCode (map (\<lambda>m. '':'' @ m @ '':'') (ce_shortCodes e)) else []) @
     (if \<not> ce_channel e then []
      else tagged Username (completion_names e pre isFirstWord) @ tagged SEVENTVChannelEmote (ce_channel7tv e) @
           tagged BTTVGlobalEmote (ce_channelBttv e) @ tagged BTTVGlobalEmote (ce_channelFfz e) @
           tagged CustomCommand (ce_commands e) @ tagged ChatterinoCommand (ce_builtin e) @ tagged TwitchCommand TWITCH_DEFAULT_COMMANDS)"

definition refresh :: "completion_env \<Rightarrow> qstring \<Rightarrow> bool \<Rightarrow> tagged_string list" where
  "refresh e pre isFirstWord =
     (if length pre < 2 \<or> \<not> ce_isTwitch e then []
      else fold (addString e pre) (completion_sources e pre isFirstWord) [])"

section \<open>The popup\<close>

record popup_emote =
  pe_name :: qstring
  pe_displayName :: qstring
  pe_provider :: qstring

definition maxEntryCount :: nat where
  "maxEntryCount = 200"

text \<open>An entry of a table of emotes: its key and the name of the emote. An emoji: its emote and its short codes.\<close>

definition addEmotes :: "(qstring \<Rightarrow> qstring \<Rightarrow> bool) \<Rightarrow> qstring \<Rightarrow> (qstring \<times> qstring) list \<times> qstring \<Rightarrow> popup_emote list \<Rightarrow> popup_emote list" where
  "addEmotes contains text' = (\<lambda>(m, provider) out.
     out @ map (\<lambda>(_, n). \<lparr>pe_name = n, pe_displayName = n, pe_provider = provider\<rparr>) (filter (\<lambda>(k, _). contains k text') m))"

definition addEmojis :: "(qstring \<Rightarrow> qstring \<Rightarrow> bool) \<Rightarrow> qstring \<Rightarrow> (qstring \<times> qstring list) list \<Rightarrow> popup_emote list \<Rightarrow> popup_emote list" where
  "addEmojis contains text' m out =
     out @ concat (map (\<lambda>(n, codes). map (\<lambda>c. \<lparr>pe_name = n, pe_displayName = c, pe_provider = ''Emoji''\<rparr>)
       (filter (\<lambda>c. contains c text') codes)) m)"

text \<open>The first exact match behind the first entry comes first.\<close>

definition exact_first :: "(qstring \<Rightarrow> qstring) \<Rightarrow> qstring \<Rightarrow> popup_emote list \<Rightarrow> popup_emote list" where
  "exact_first fold_case text' emotes =
     (let exact = (\<lambda>e. fold_case (pe_displayName e) = fold_case text' \<or> fold_case (pe_displayName e) = fold_case ('':'' @ text'))
      in case emotes of
           [] \<Rightarrow> []
         | e # es \<Rightarrow> (case find_index exact es of None \<Rightarrow> emotes | Some i \<Rightarrow> es ! i # e # remove_at i es))"

definition updateEmotes ::
  "(qstring \<Rightarrow> qstring) \<Rightarrow> (qstring \<Rightarrow> qstring \<Rightarrow> bool) \<Rightarrow> bool \<Rightarrow> ((qstring \<times> qstring) list \<times> qstring) list \<Rightarrow> (qstring \<times> qstring list) list
     \<Rightarrow> qstring \<Rightarrow> (qstring \<times> qstring) list" where
  "updateEmotes fold_case contains isTwitch tables emojis text' =
     map (\<lambda>e. (pe_name e, pe_displayName e @ '' - '' @ pe_provider e))
       (take (maxEntryCount + 1)
         (exact_first fold_case text'
           (if isTwitch then addEmojis contains text' emojis (fold (addEmotes contains text') tables []) else [])))"

definition updateUsers :: "(qstring \<Rightarrow> qstring) \<Rightarrow> bool \<Rightarrow> qstring list \<Rightarrow> qstring list" where
  "updateUsers toLower lowercaseUsernames chatters =
     take (maxEntryCount + 1) (map (\<lambda>n. if lowercaseUsernames then toLower n else n) chatters)"

section \<open>The text and the word under the cursor\<close>

record edit_state =
  ed_text :: qstring
  ed_pos :: nat
  ed_anchor :: nat

definition isFirstWord :: "edit_state \<Rightarrow> bool" where
  "isFirstWord s \<longleftrightarrow> CHR '' '' \<notin> set (take (ed_pos s) (ed_text s))"

text \<open>The word, and whether there is a space between it and the cursor.\<close>

definition textUnderCursor :: "edit_state \<Rightarrow> qstring \<times> bool" where
  "textUnderCursor s =
     (let ws = rev (split_on (CHR '' '') (take (min (ed_pos s) (ed_anchor s)) (ed_text s)))
      in case ws of
           [] \<Rightarrow> ([], False)
         | w # rest \<Rightarrow> if w \<noteq> [] then (w, False) else ((case rest of [] \<Rightarrow> [] | v # _ \<Rightarrow> v), True))"

definition insertCompletion :: "qstring \<Rightarrow> edit_state \<Rightarrow> edit_state" where
  "insertCompletion completion s =
     (let (pre, hadSpace) = textUnderCursor s;
          n = length pre + (if hadSpace then 1 else 0);
          from' = min (ed_anchor s) (ed_pos s - n); to' = max (ed_anchor s) (ed_pos s - n)
      in \<lparr>ed_text = take from' (ed_text s) @ completion @ drop to' (ed_text s),
          ed_pos = from' + length completion, ed_anchor = from' + length completion\<rparr>)"

text \<open>Going through the rows of a completion with Tab and Backtab; \<open>setCurrentRow\<close> fails out of range.\<close>

definition next_row :: "nat \<Rightarrow> int \<Rightarrow> int" where
  "next_row n row = (if 0 \<le> row + 1 \<and> row + 1 < int n then row + 1 else if 0 < n then 0 else row)"

definition previous_row :: "nat \<Rightarrow> int \<Rightarrow> int" where
  "previous_row n row = (if 0 \<le> row - 1 \<and> row - 1 < int n then row - 1 else if 0 < n then int n - 1 else row)"

section \<open>The input\<close>

text \<open>The thread that is replied to: the id of its root and the name that the root shows.\<close>

record reply_thread =
  rt_rootId :: qstring
  rt_displayName :: qstring

record chat_input = edit_state +
  in_prevMsg :: "qstring list"
  in_currMsg :: qstring
  in_prevIndex :: int
  in_reply :: "reply_thread option"
  in_inline :: bool
  in_hidden :: bool
  in_length :: qstring
  in_tooLong :: bool

text \<open>
  What the input reads: whether its channel belongs to Twitch, and is a \<open>TwitchChannel\<close>; the last user that whispered;
  what the commands make of a text while it is typed and when it is sent; the settings.
\<close>

record input_env =
  ie_fold :: "qstring \<Rightarrow> qstring"
  ie_lower :: "qstring \<Rightarrow> qstring"
  ie_isTwitch :: bool
  ie_channel :: bool
  ie_lastWhisper :: qstring
  ie_dryRun :: "qstring \<Rightarrow> qstring"
  ie_command :: "qstring \<Rightarrow> qstring"
  ie_showLength :: bool
  ie_emoteColon :: bool
  ie_userMenu :: bool
  ie_withComma :: bool
  ie_lowercaseNames :: bool

definition starts_ci :: "input_env \<Rightarrow> qstring \<Rightarrow> qstring \<Rightarrow> bool" where
  "starts_ci e p t \<longleftrightarrow> length p \<le> length t \<and> ie_fold e (take (length p) t) = ie_fold e p"

definition TWITCH_MESSAGE_LIMIT :: nat where
  "TWITCH_MESSAGE_LIMIT = 500"

text \<open>The shorthands for whispers: what replaces them, if anything.\<close>

datatype shorthand = NoShorthand | Unchanged | Rewritten qstring

definition whisper_shorthand :: "input_env \<Rightarrow> qstring \<Rightarrow> shorthand" where
  "whisper_shorthand e t =
     (if starts_ci e ''/r '' t \<and> ie_isTwitch e then
        (if ie_lastWhisper e \<noteq> [] then Rewritten (''/w '' @ ie_lastWhisper e @ drop 2 t) else Unchanged)
      else if starts_ci e [CHR ''/'', CHR 0x24] t \<and> ie_isTwitch e then Rewritten (''/w supibot '' @ drop 1 t)
      else if starts_ci e ''/_'' t \<and> ie_isTwitch e then Rewritten (''/w mm_sutilitybot '' @ drop 1 t)
      else NoShorthand)"

definition reply_prefix :: "reply_thread \<Rightarrow> qstring" where
  "reply_prefix r = ''@'' @ rt_displayName r"

definition is_reply_text :: "reply_thread \<Rightarrow> qstring \<Rightarrow> bool" where
  "is_reply_text r t \<longleftrightarrow> prefix (reply_prefix r) t \<and>
     (length t > length (reply_prefix r) \<longrightarrow> t ! length (reply_prefix r) = CHR '' '')"

text \<open>The length that is shown, and whether the text still is a reply.\<close>

definition edit_finish :: "input_env \<Rightarrow> qstring \<Rightarrow> chat_input \<Rightarrow> chat_input" where
  "edit_finish e t s =
     (let shown = t \<noteq> [] \<and> ie_showLength e
      in s\<lparr>in_length := (if shown then show_nat (length t) else []),
           in_tooLong := (if shown then length t > TWITCH_MESSAGE_LIMIT else in_tooLong s),
           in_reply := (if in_inline s then (case in_reply s of Some r \<Rightarrow> if is_reply_text r t then Some r else None | None \<Rightarrow> None)
                        else in_reply s)\<rparr>)"

text \<open>The end of the first line.\<close>

definition end_of_block :: "qstring \<Rightarrow> nat" where
  "end_of_block t = length (takeWhile (\<lambda>c. c \<noteq> CHR 10) t)"

definition put_text :: "qstring \<Rightarrow> nat \<Rightarrow> chat_input \<Rightarrow> chat_input" where
  "put_text t p s = s\<lparr>ed_text := t, ed_pos := p, ed_anchor := p\<rparr>"

text \<open>A shorthand is rewritten once; what replaces it starts with /w and is none.\<close>

definition edit_plain :: "input_env \<Rightarrow> chat_input \<Rightarrow> chat_input" where
  "edit_plain e s = edit_finish e (ie_dryRun e (q_trimmed (ed_text s))) s"

definition editTextChanged :: "input_env \<Rightarrow> chat_input \<Rightarrow> chat_input" where
  "editTextChanged e s =
     (let t = ed_text s
      in case whisper_shorthand e t of
           NoShorthand \<Rightarrow> edit_plain e s
         | Unchanged \<Rightarrow> edit_finish e t s
         | Rewritten u \<Rightarrow> edit_finish e t (put_text u (end_of_block u) (edit_plain e (put_text u 0 s))))"

definition setPlainText :: "input_env \<Rightarrow> qstring \<Rightarrow> chat_input \<Rightarrow> chat_input" where
  "setPlainText e t s = editTextChanged e (put_text t 0 s)"

definition cursor_to_end :: "chat_input \<Rightarrow> chat_input" where
  "cursor_to_end s = put_text (ed_text s) (length (ed_text s)) s"

text \<open>Whatever the user does to the text.\<close>

definition user_edit :: "input_env \<Rightarrow> qstring \<Rightarrow> nat \<Rightarrow> nat \<Rightarrow> chat_input \<Rightarrow> chat_input" where
  "user_edit e t p a s = editTextChanged e (s\<lparr>ed_text := t, ed_pos := p, ed_anchor := a\<rparr>)"

definition clearInput :: "input_env \<Rightarrow> chat_input \<Rightarrow> chat_input" where
  "clearInput e s =
     (let s1 = setPlainText e [] (s\<lparr>in_currMsg := []\<rparr>);
          s2 = put_text (ed_text s1) 0 s1
      in if in_inline s2 then s2\<lparr>in_reply := None\<rparr> else s2)"

text \<open>\<open>None\<close> where there is no thread to reply to.\<close>

definition setReply :: "input_env \<Rightarrow> reply_thread option \<Rightarrow> chat_input \<Rightarrow> chat_input option" where
  "setReply e reply s =
     (let s1 = s\<lparr>in_reply := reply\<rparr>
      in if \<not> in_inline s then Some s1
         else (case reply of
             None \<Rightarrow> None
           | Some r \<Rightarrow> (let s2 = setPlainText e (reply_prefix r @ '' '') s1 in Some (put_text (ed_text s2) (end_of_block (ed_text s2)) s2))))"

subsection \<open>Sending\<close>

datatype sent = NotSent | SentMessage qstring | SentReply qstring qstring

definition one_line :: "qstring \<Rightarrow> qstring" where
  "one_line t = map (\<lambda>c. if c = CHR 10 then CHR '' '' else c) t"

text \<open>Without the name that an inline reply starts with.\<close>

definition without_name :: "reply_thread \<Rightarrow> qstring \<Rightarrow> qstring" where
  "without_name r t =
     (let m = drop (length (rt_displayName r) + 1) t
      in if m \<noteq> [] \<and> hd m = CHR '' '' then tl m else m)"

definition postMessageSend :: "input_env \<Rightarrow> qstring \<Rightarrow> qstring list \<Rightarrow> chat_input \<Rightarrow> chat_input" where
  "postMessageSend e m arguments s =
     (let s1 = (if (in_prevMsg s = [] \<or> last (in_prevMsg s) \<noteq> m) \<and> q_trimmed m \<noteq> [] then s\<lparr>in_prevMsg := in_prevMsg s @ [m]\<rparr> else s);
          s2 = (if arguments = [] \<or> hd arguments \<noteq> ''keepInput'' then clearInput e s1 else s1)
      in s2\<lparr>in_prevIndex := int (length (in_prevMsg s2))\<rparr>)"

definition handleSendMessage :: "input_env \<Rightarrow> bool \<Rightarrow> qstring list \<Rightarrow> chat_input \<Rightarrow> sent \<times> chat_input" where
  "handleSendMessage e hasChannel arguments s =
     (if \<not> hasChannel then (NotSent, s)
      else (case (if ie_isTwitch e then in_reply s else None) of
          None \<Rightarrow> (let m = one_line (ed_text s) in (SentMessage (ie_command e m), postMessageSend e m arguments s))
        | Some r \<Rightarrow>
            if \<not> ie_channel e then (NotSent, s)
            else (let m = one_line (if in_inline s then without_name r (ed_text s) else ed_text s)
                  in (SentReply (rt_rootId r) (ie_command e m), postMessageSend e m arguments s))))"

subsection \<open>The history\<close>

definition previousMessage :: "input_env \<Rightarrow> chat_input \<Rightarrow> chat_input" where
  "previousMessage e s =
     (if in_prevMsg s \<noteq> [] \<and> in_prevIndex s \<noteq> 0 then
        (let s1 = (if in_prevIndex s = int (length (in_prevMsg s)) then s\<lparr>in_currMsg := ed_text s\<rparr> else s);
             s2 = s1\<lparr>in_prevIndex := in_prevIndex s1 - 1\<rparr>
         in cursor_to_end (setPlainText e (in_prevMsg s2 ! nat (in_prevIndex s2)) s2))
      else s)"

definition nextMessage :: "input_env \<Rightarrow> chat_input \<Rightarrow> chat_input" where
  "nextMessage e s =
     (if in_prevMsg s = [] then s
      else (let n = int (length (in_prevMsg s))
            in if in_prevIndex s \<noteq> n - 1 \<and> in_prevIndex s \<noteq> n then
                 cursor_to_end (setPlainText e (in_prevMsg s ! nat (in_prevIndex s + 1)) (s\<lparr>in_prevIndex := in_prevIndex s + 1\<rparr>))
               else
                 (let m = ed_text s; s1 = s\<lparr>in_prevIndex := n\<rparr>
                  in if m = last (in_prevMsg s) then cursor_to_end (setPlainText e (in_currMsg s) s1)
                     else if m \<noteq> in_currMsg s then s1\<lparr>in_currMsg := m\<rparr> else s1)))"

subsection \<open>Actions on the text\<close>

datatype input_answer = Fine | InvalidArguments | InvalidSelect

definition cursorTo :: "nat \<Rightarrow> qstring list \<Rightarrow> chat_input \<Rightarrow> input_answer \<times> chat_input" where
  "cursorTo place arguments s =
     (case arguments of
        [a] \<Rightarrow> if a = ''withSelection'' then (Fine, s\<lparr>ed_pos := place\<rparr>)
               else if a = ''withoutSelection'' then (Fine, s\<lparr>ed_pos := place, ed_anchor := place\<rparr>)
               else (InvalidSelect, s)
      | _ \<Rightarrow> (InvalidArguments, s))"

definition cursorToStart :: "qstring list \<Rightarrow> chat_input \<Rightarrow> input_answer \<times> chat_input" where
  "cursorToStart arguments s = cursorTo 0 arguments s"

definition cursorToEnd :: "qstring list \<Rightarrow> chat_input \<Rightarrow> input_answer \<times> chat_input" where
  "cursorToEnd arguments s = cursorTo (length (ed_text s)) arguments s"

text \<open>Whether a copy takes the text of the chat or of the input; \<open>None\<close>: a text that explains the argument.\<close>

definition copy_from_split :: "qstring list \<Rightarrow> chat_input \<Rightarrow> bool option" where
  "copy_from_split arguments s =
     (case arguments of
        [] \<Rightarrow> None
      | mode # _ \<Rightarrow> Some (mode = ''split'' \<or> mode = ''auto'' \<and> ed_pos s = ed_anchor s))"

text \<open>An emote that is clicked is set off from what is before it.\<close>

definition insert_emote :: "input_env \<Rightarrow> qstring \<Rightarrow> chat_input \<Rightarrow> chat_input" where
  "insert_emote e v s =
     (let a = min (ed_pos s) (ed_anchor s); b = max (ed_pos s) (ed_anchor s);
          spaced = ed_pos s > 0 \<and> \<not> q_isSpace (ed_text s ! (ed_pos s - 1));
          new = (if spaced then '' '' else []) @ v @ '' ''
      in user_edit e (take a (ed_text s) @ new @ drop b (ed_text s)) (a + length new) (a + length new) s)"

definition clearSelection :: "chat_input \<Rightarrow> chat_input" where
  "clearSelection s = s\<lparr>ed_anchor := ed_pos s\<rparr>"

definition hide_input :: "chat_input \<Rightarrow> chat_input" where
  "hide_input s = s\<lparr>in_hidden := True\<rparr>"

definition show_input :: "chat_input \<Rightarrow> chat_input" where
  "show_input s = s\<lparr>in_hidden := False\<rparr>"

subsection \<open>The completion of emotes and users\<close>

datatype popup_request = HidePopup | ShowEmotes qstring | ShowUsers qstring

fun popup_scan :: "bool \<Rightarrow> bool \<Rightarrow> qstring \<Rightarrow> nat \<Rightarrow> nat \<Rightarrow> popup_request" where
  "popup_scan emotes users text' position i =
     (let wordStart = (i = 0 \<or> q_isSpace (text' ! (i - 1)));
          typed = drop 1 (take (position - i + 1) (drop i text'))
      in if text' ! i = CHR '' '' then HidePopup
         else if text' ! i = CHR '':'' \<and> emotes then (if wordStart then ShowEmotes typed else HidePopup)
         else if text' ! i = CHR ''@'' \<and> users then (if wordStart then ShowUsers typed else HidePopup)
         else (case i of 0 \<Rightarrow> HidePopup | Suc j \<Rightarrow> popup_scan emotes users text' position j))"

declare popup_scan.simps [simp del]

definition updateCompletionPopup :: "input_env \<Rightarrow> chat_input \<Rightarrow> popup_request" where
  "updateCompletionPopup e s =
     (let emotes = (ie_isTwitch e \<and> ie_emoteColon e); users = (ie_channel e \<and> ie_userMenu e)
      in if \<not> emotes \<and> \<not> users then HidePopup
         else if ed_text s = [] \<or> ed_pos s = 0 then HidePopup
         else popup_scan emotes users (ed_text s) (ed_pos s - 1) (min (ed_pos s - 1) (length (ed_text s) - 1)))"

text \<open>Back from the cursor to a colon or an @, which is replaced together with everything up to the cursor.\<close>

fun completion_start :: "qstring \<Rightarrow> nat \<Rightarrow> nat option" where
  "completion_start text' i =
     (if text' ! i = CHR '':'' \<or> text' ! i = CHR ''@'' then Some i
      else (case i of 0 \<Rightarrow> None | Suc j \<Rightarrow> completion_start text' j))"

declare completion_start.simps [simp del]

definition insertCompletionText :: "input_env \<Rightarrow> qstring \<Rightarrow> chat_input \<Rightarrow> chat_input option" where
  "insertCompletionText e input s =
     (if ed_text s = [] then None
      else (case completion_start (ed_text s) (min (ed_pos s - 1) (length (ed_text s) - 1)) of
        None \<Rightarrow> Some s
      | Some i \<Rightarrow>
          (let t = ed_text s;
               new = (if t ! i = CHR '':'' then input @ '' ''
                      else ''@'' @ formatUserMention (ie_lower e) input (isFirstWord \<lparr>ed_text = t, ed_pos = ed_pos s, ed_anchor = ed_anchor s\<rparr>)
                             (ie_withComma e) (ie_lowercaseNames e) @ '' '');
               s1 = setPlainText e (take i t @ new @ drop (ed_pos s) t) s;
               p = i + length new
           in Some (if p \<le> length (ed_text s1) then s1\<lparr>ed_pos := p, ed_anchor := p\<rparr> else s1))))"

section \<open>Completion lists what matches\<close>

text \<open>A comparison as \<open>std::set\<close> needs it, with what two equivalent elements have in common.\<close>

locale comparator =
  fixes lt :: "'a \<Rightarrow> 'a \<Rightarrow> bool" and key :: "'a \<Rightarrow> 'k"
  assumes trans: "lt a b \<Longrightarrow> lt b c \<Longrightarrow> lt a c"
    and asym: "lt a b \<Longrightarrow> \<not> lt b a"
    and total: "\<not> lt a b \<Longrightarrow> \<not> lt b a \<Longrightarrow> key a = key b"
begin

lemma emplace_keys: "key ` set (set_emplace lt x xs) = insert (key x) (key ` set xs)"
  by (induction xs) (auto dest: total)

lemma emplace_sorted: "sorted_wrt lt xs \<Longrightarrow> sorted_wrt lt (set_emplace lt x xs)"
proof (induction xs)
  case (Cons y ys)
  have "z = x \<or> z \<in> set ys" if "z \<in> set (set_emplace lt x ys)" for z
    using that by (induction ys) (auto split: if_splits)
  then show ?case using Cons by (auto intro: trans)
qed simp

lemma emplace_all:
  "sorted_wrt lt xs \<Longrightarrow> sorted_wrt lt (fold (set_emplace lt) ys xs) \<and> key ` set (fold (set_emplace lt) ys xs) = key ` set xs \<union> key ` set ys"
  by (induction ys arbitrary: xs) (auto simp: emplace_sorted emplace_keys)

end

interpretation offers: comparator "tagged_less fold_case" "\<lambda>t. (tg_isEmote t, tg_string t)" for fold_case
  by unfold_locales (auto simp: tagged_less_def compareStrings_def split: if_splits)

text \<open>What is offered for an entry: its text with a space, for a command of Twitch behind the character that was typed.\<close>

definition completed :: "completion_env \<Rightarrow> qstring \<Rightarrow> tagged_string \<Rightarrow> tagged_string list" where
  "completed e pre t =
     (let ty = tg_type t; command = (ty = TwitchCommand); str = (if command then hd pre # tg_string t else tg_string t)
      in if (command \<longrightarrow> hd pre \<in> {CHR ''/'', CHR ''.''}) \<and> completion_matches e pre str
         then [\<lparr>tg_string = str @ '' '', tg_type = ty\<rparr>] else [])"

lemma addString_completed:
  "2 \<le> length pre \<Longrightarrow> addString e pre t items = fold (set_emplace (tagged_less (ce_fold e))) (completed e pre t) items"
  by (auto simp: addString_def completed_def Let_def)

lemma addStrings_completed:
  "2 \<le> length pre \<Longrightarrow>
   fold (addString e pre) ts items = fold (set_emplace (tagged_less (ce_fold e))) (concat (map (completed e pre) ts)) items"
  by (induction ts arbitrary: items) (simp_all add: addString_completed)

text \<open>
  The completion of a word of two letters or more offers exactly the texts that match it, from all emotes, emojis,
  users and commands at hand, each of them once, emotes first, and ordered without case.
\<close>

theorem completion_offers_matches:
  assumes "2 \<le> length pre" "ce_isTwitch e"
  shows "sorted_wrt (tagged_less (ce_fold e)) (refresh e pre first) \<and>
     (\<lambda>t. (tg_isEmote t, tg_string t)) ` set (refresh e pre first) =
     (\<lambda>t. (tg_isEmote t, tg_string t)) ` set (concat (map (completed e pre) (completion_sources e pre first)))"
proof -
  have "refresh e pre first = fold (set_emplace (tagged_less (ce_fold e))) (concat (map (completed e pre) (completion_sources e pre first))) []"
    using assms by (simp add: refresh_def addStrings_completed)
  then show ?thesis using offers.emplace_all [where xs = "[]" and fold_case = "ce_fold e"] by simp
qed

definition few_emotes :: completion_env where
  "few_emotes = \<lparr>ce_fold = map (\<lambda>c. if c = CHR ''K'' then CHR ''k'' else c), ce_startsWith = (\<lambda>s p. prefix p s), ce_contains = (\<lambda>s p. sublist p s),
     ce_lower = id, ce_prefixOnly = False, ce_onlyWithAt = True, ce_withComma = True, ce_lowercaseNames = False, ce_isTwitch = True,
     ce_channel = False, ce_accountEmotes = [''PogChamp'', ''kappa'', ''Kappa''], ce_localEmotes = None, ce_global7tv = [''Kappa''],
     ce_globalBttv = [], ce_globalFfz = [], ce_shortCodes = [], ce_chatters = (\<lambda>_. []), ce_channel7tv = [], ce_channelBttv = [],
     ce_channelFfz = [], ce_commands = [], ce_builtin = []\<rparr>"

lemma completion_offers_matches_witness:
  "sorted_wrt (tagged_less (ce_fold few_emotes)) (refresh few_emotes ''app'' True) \<and>
     (\<lambda>t. (tg_isEmote t, tg_string t)) ` set (refresh few_emotes ''app'' True) =
     (\<lambda>t. (tg_isEmote t, tg_string t)) ` set (concat (map (completed few_emotes ''app'') (completion_sources few_emotes ''app'' True)))"
  by (rule completion_offers_matches) (simp_all add: few_emotes_def)

section \<open>An exact match comes first\<close>

lemma exact_first_mset: "mset (exact_first f t es) = mset es"
proof (cases es)
  case (Cons x xs)
  show ?thesis
  proof (cases "find_index (\<lambda>e. f (pe_displayName e) = f t \<or> f (pe_displayName e) = f ('':'' @ t)) xs")
    case (Some i)
    then have "i < length xs" by (rule find_index_less)
    then have "xs = take i xs @ xs ! i # drop (Suc i) xs" by (rule id_take_nth_drop)
    then have "mset xs = add_mset (xs ! i) (mset (remove_at i xs))"
      unfolding remove_at_def by (metis mset.simps(2) mset_append union_mset_add_mset_right)
    then show ?thesis using Cons Some by (simp add: exact_first_def Let_def)
  next
    case None
    then show ?thesis by (simp only: exact_first_def Cons Let_def list.case option.case)
  qed
qed (simp add: exact_first_def)

section \<open>The history\<close>

lemma edit_finish_keeps [simp]:
  "ed_text (edit_finish e t s) = ed_text s" "ed_pos (edit_finish e t s) = ed_pos s" "ed_anchor (edit_finish e t s) = ed_anchor s"
  "in_prevMsg (edit_finish e t s) = in_prevMsg s" "in_currMsg (edit_finish e t s) = in_currMsg s"
  "in_prevIndex (edit_finish e t s) = in_prevIndex s" "in_inline (edit_finish e t s) = in_inline s"
  by (simp_all add: edit_finish_def Let_def)

lemma put_text_keeps [simp]:
  "ed_text (put_text t p s) = t" "ed_pos (put_text t p s) = p" "ed_anchor (put_text t p s) = p" "in_prevMsg (put_text t p s) = in_prevMsg s"
  "in_currMsg (put_text t p s) = in_currMsg s" "in_prevIndex (put_text t p s) = in_prevIndex s" "in_inline (put_text t p s) = in_inline s"
  "in_reply (put_text t p s) = in_reply s"
  by (simp_all add: put_text_def)

lemma editTextChanged_keeps [simp]:
  "in_prevMsg (editTextChanged e s) = in_prevMsg s" "in_currMsg (editTextChanged e s) = in_currMsg s"
  "in_prevIndex (editTextChanged e s) = in_prevIndex s" "in_inline (editTextChanged e s) = in_inline s"
  by (simp_all add: editTextChanged_def edit_plain_def Let_def split: shorthand.split)

definition kept :: "input_env \<Rightarrow> qstring \<Rightarrow> bool" where
  "kept e t \<longleftrightarrow> (case whisper_shorthand e t of Rewritten u \<Rightarrow> u = t | _ \<Rightarrow> True)"

lemma setPlainText_kept [simp]: "kept e t \<Longrightarrow> ed_text (setPlainText e t s) = t"
  by (simp add: setPlainText_def editTextChanged_def edit_plain_def kept_def split: shorthand.split_asm shorthand.split)

lemma setPlainText_keeps [simp]:
  "in_prevMsg (setPlainText e t s) = in_prevMsg s" "in_currMsg (setPlainText e t s) = in_currMsg s"
  "in_prevIndex (setPlainText e t s) = in_prevIndex s" "in_inline (setPlainText e t s) = in_inline s"
  by (simp_all add: setPlainText_def)

lemma cursor_to_end_keeps [simp]:
  "ed_text (cursor_to_end s) = ed_text s" "in_prevMsg (cursor_to_end s) = in_prevMsg s" "in_currMsg (cursor_to_end s) = in_currMsg s"
  "in_prevIndex (cursor_to_end s) = in_prevIndex s"
  by (simp_all add: cursor_to_end_def)

text \<open>The draft \<open>d\<close> is \<open>k\<close> messages away.\<close>

definition steps_back :: "qstring list \<Rightarrow> qstring \<Rightarrow> nat \<Rightarrow> chat_input \<Rightarrow> bool" where
  "steps_back M d k s \<longleftrightarrow> in_prevMsg s = M \<and> k \<le> length M \<and> in_prevIndex s = int (length M - k) \<and>
     ed_text s = (if k = 0 then d else M ! (length M - k)) \<and> (0 < k \<longrightarrow> in_currMsg s = d)"

lemma back_up:
  assumes "steps_back M d k s" "k < length M" "\<forall>t \<in> set M. kept e t"
  shows "steps_back M d (Suc k) (previousMessage e s)"
proof -
  have "nat (int (length M - k) - 1) = length M - Suc k" by simp
  then show ?thesis using assms by (auto simp: steps_back_def previousMessage_def Let_def)
qed

lemma back_down:
  assumes "steps_back M d (Suc k) s" "\<forall>t \<in> set M. kept e t" "kept e d"
  shows "steps_back M d k (nextMessage e s)"
proof (cases k)
  case 0
  then show ?thesis using assms by (auto simp: steps_back_def nextMessage_def Let_def last_conv_nth)
next
  case (Suc j)
  have "nat (int (length M - Suc k) + 1) = length M - k" using assms(1) by (simp add: steps_back_def)
  then show ?thesis using assms Suc by (auto simp: steps_back_def nextMessage_def Let_def)
qed

lemma back_up_times: "steps_back M d 0 s \<Longrightarrow> k \<le> length M \<Longrightarrow> \<forall>t \<in> set M. kept e t \<Longrightarrow> steps_back M d k ((previousMessage e ^^ k) s)"
  by (induction k) (simp_all add: back_up)

lemma back_down_times: "steps_back M d k s \<Longrightarrow> \<forall>t \<in> set M. kept e t \<Longrightarrow> kept e d \<Longrightarrow> steps_back M d 0 ((nextMessage e ^^ k) s)"
  by (induction k arbitrary: s) (simp_all add: back_down funpow_swap1)

text \<open>
  Going back through the messages that were sent and the same number of times forward again brings back the text
  that was being written, however far one goes, if none of the texts is a shorthand that is rewritten.
\<close>

theorem history_and_back:
  assumes "in_prevIndex s = int (length (in_prevMsg s))" "k \<le> length (in_prevMsg s)"
    and "list_all (kept e) (ed_text s # in_prevMsg s)"
  shows "let s' = (nextMessage e ^^ k) ((previousMessage e ^^ k) s)
         in ed_text s' = ed_text s \<and> in_prevMsg s' = in_prevMsg s \<and> in_prevIndex s' = in_prevIndex s"
proof -
  have k: "\<forall>t \<in> set (in_prevMsg s). kept e t" "kept e (ed_text s)" using assms(3) by (simp_all add: list_all_iff)
  have "steps_back (in_prevMsg s) (ed_text s) 0 s" using assms(1) by (simp add: steps_back_def)
  from back_down_times [OF back_up_times [OF this assms(2) k(1)] k]
  show ?thesis using assms(1) by (simp add: steps_back_def Let_def)
qed

definition plain_env :: input_env where
  "plain_env = \<lparr>ie_fold = map (\<lambda>c. if c = CHR ''R'' then CHR ''r'' else c), ie_lower = id, ie_isTwitch = True, ie_channel = True,
     ie_lastWhisper = ''bob'', ie_dryRun = id, ie_command = id, ie_showLength = True, ie_emoteColon = True, ie_userMenu = True,
     ie_withComma = True, ie_lowercaseNames = False\<rparr>"

definition plain_input :: "qstring \<Rightarrow> chat_input" where
  "plain_input t = \<lparr>ed_text = t, ed_pos = length t, ed_anchor = length t, in_prevMsg = [''one'', ''two''], in_currMsg = [], in_prevIndex = 2,
     in_reply = None, in_inline = True, in_hidden = False, in_length = [], in_tooLong = False\<rparr>"

lemma history_and_back_witness:
  "let s' = (nextMessage plain_env ^^ 2) ((previousMessage plain_env ^^ 2) (plain_input ''draft''))
   in ed_text s' = ed_text (plain_input ''draft'') \<and> in_prevMsg s' = in_prevMsg (plain_input ''draft'') \<and>
      in_prevIndex s' = in_prevIndex (plain_input ''draft'')"
  by (rule history_and_back) (simp_all add: plain_input_def plain_env_def kept_def whisper_shorthand_def starts_ci_def)

text \<open>Who writes the message sent last once more and goes forward loses it.\<close>

lemma repeated_text_lost:
  "ed_text (nextMessage plain_env (plain_input ''two'')) = []"
  by (simp add: nextMessage_def plain_input_def plain_env_def setPlainText_def put_text_def editTextChanged_def whisper_shorthand_def starts_ci_def
      edit_plain_def edit_finish_def cursor_to_end_def q_trimmed_def Let_def)

section \<open>Replies\<close>

text \<open>What can happen to an input: the user writes, sends, goes through the history, replies, completes or clears.\<close>

inductive input_step :: "input_env \<Rightarrow> chat_input \<Rightarrow> chat_input \<Rightarrow> bool" for e where
  written: "input_step e s (user_edit e t p a s)"
| send: "input_step e s (snd (handleSendMessage e hasChannel arguments s))"
| up: "input_step e s (previousMessage e s)"
| down: "input_step e s (nextMessage e s)"
| reply: "setReply e (Some r) s = Some s' \<Longrightarrow> input_step e s s'"
| complete: "insertCompletionText e t s = Some s' \<Longrightarrow> input_step e s s'"
| emote: "input_step e s (insert_emote e t s)"
| clear: "input_step e s (clearInput e s)"
| start_of_text: "input_step e s (snd (cursorToStart arguments s))"
| end_of_text: "input_step e s (snd (cursorToEnd arguments s))"
| no_selection: "input_step e s (clearSelection s)"

definition reply_ok :: "input_env \<Rightarrow> chat_input \<Rightarrow> bool" where
  "reply_ok e s \<longleftrightarrow> in_inline s \<longrightarrow> (\<forall>r. in_reply s = Some r \<longrightarrow> is_reply_text r (ie_dryRun e (q_trimmed (ed_text s))))"

lemma reply_ok_updates [simp]:
  "reply_ok e (s\<lparr>in_prevIndex := i\<rparr>) = reply_ok e s" "reply_ok e (s\<lparr>in_currMsg := t\<rparr>) = reply_ok e s"
  "reply_ok e (s\<lparr>in_prevMsg := ms\<rparr>) = reply_ok e s" "reply_ok e (s\<lparr>ed_pos := p\<rparr>) = reply_ok e s"
  "reply_ok e (s\<lparr>ed_anchor := p\<rparr>) = reply_ok e s" "reply_ok e (put_text (ed_text s) p s) = reply_ok e s"
  by (simp_all add: reply_ok_def)

lemma finish_reply: "in_inline s \<Longrightarrow> in_reply (edit_finish e t s) = Some r \<Longrightarrow> in_reply s = Some r \<and> is_reply_text r t"
  by (auto simp: edit_finish_def Let_def split: option.splits if_splits)

lemma edit_reply_ok:
  assumes "\<And>t. starts_ci e ''/r '' t \<Longrightarrow> \<not> prefix ''@'' t"
  shows "reply_ok e (editTextChanged e s)"
proof (cases "whisper_shorthand e (ed_text s)")
  case Unchanged
  then have "starts_ci e ''/r '' (ed_text s)" by (simp add: whisper_shorthand_def split: if_splits)
  then have "\<not> is_reply_text r (ed_text s)" for r
    using assms by (auto simp: is_reply_text_def reply_prefix_def prefix_def)
  then show ?thesis using finish_reply [of s e "ed_text s"] Unchanged
    by (auto simp: reply_ok_def editTextChanged_def split: option.split)
next
  case (Rewritten u)
  then show ?thesis
    using finish_reply [of "put_text u 0 s" e "ie_dryRun e (q_trimmed u)"]
      finish_reply [of "put_text u (end_of_block u) (edit_plain e (put_text u 0 s))" e "ed_text s"]
    by (auto simp: reply_ok_def editTextChanged_def edit_plain_def split: option.split)
next
  case NoShorthand
  then show ?thesis using finish_reply [of s e "ie_dryRun e (q_trimmed (ed_text s))"]
    by (auto simp: reply_ok_def editTextChanged_def edit_plain_def split: option.split)
qed

lemma set_reply_ok: "(\<And>t. starts_ci e ''/r '' t \<Longrightarrow> \<not> prefix ''@'' t) \<Longrightarrow> reply_ok e (setPlainText e t s)"
  by (simp add: setPlainText_def edit_reply_ok)

lemma end_reply_ok [simp]: "reply_ok e (cursor_to_end s) = reply_ok e s"
  by (simp add: cursor_to_end_def)

lemma clear_reply_ok: "(\<And>t. starts_ci e ''/r '' t \<Longrightarrow> \<not> prefix ''@'' t) \<Longrightarrow> reply_ok e (clearInput e s)"
  by (simp add: clearInput_def Let_def reply_ok_def)

lemma post_reply_ok:
  "(\<And>t. starts_ci e ''/r '' t \<Longrightarrow> \<not> prefix ''@'' t) \<Longrightarrow> reply_ok e s \<Longrightarrow> reply_ok e (postMessageSend e m args s)"
  by (simp add: postMessageSend_def Let_def clear_reply_ok)

lemma step_reply_ok:
  assumes f: "\<And>t. starts_ci e ''/r '' t \<Longrightarrow> \<not> prefix ''@'' t" and s: "reply_ok e s" and step: "input_step e s s'"
  shows "reply_ok e s'"
  using step
proof (cases rule: input_step.cases)
  case (send hasChannel arguments)
  then show ?thesis using s post_reply_ok [OF f s]
    by (simp add: handleSendMessage_def Let_def split: option.split)
next
  case up
  then show ?thesis using s by (simp add: previousMessage_def Let_def set_reply_ok [OF f])
next
  case down
  then show ?thesis using s by (simp add: nextMessage_def Let_def set_reply_ok [OF f])
next
  case (reply r)
  have "\<not> in_inline s \<Longrightarrow> reply_ok e (s\<lparr>in_reply := Some r\<rparr>)" by (simp add: reply_ok_def)
  then show ?thesis using reply
    by (auto simp: setReply_def Let_def set_reply_ok [OF f] split: if_splits)
next
  case (complete t)
  then show ?thesis using s
    by (auto simp: insertCompletionText_def Let_def set_reply_ok [OF f] split: if_splits option.splits)
next
  case (start_of_text arguments)
  then show ?thesis using s by (simp add: cursorToStart_def cursorTo_def split: list.split)
next
  case (end_of_text arguments)
  then show ?thesis using s by (simp add: cursorToEnd_def cursorTo_def split: list.split)
next
  case no_selection
  then show ?thesis using s by (simp add: clearSelection_def)
qed (simp_all add: user_edit_def insert_emote_def edit_reply_ok clear_reply_ok f Let_def)



text \<open>What is sent: the text behind the name, to the thread of the reply.\<close>

lemma reply_is_sent:
  assumes "in_inline s" "in_reply s = Some r" "ie_isTwitch e" "ie_channel e" "ed_text s = reply_prefix r @ '' '' @ m"
  shows "fst (handleSendMessage e True args s) = SentReply (rt_rootId r) (ie_command e (one_line m))"
  using assms by (simp add: handleSendMessage_def without_name_def reply_prefix_def Let_def)

text \<open>A space before the name is not seen by the check, which trims the text, but is cut instead of the name's last letter.\<close>

lemma space_before_reply:
  "fst (handleSendMessage plain_env True []
      (user_edit plain_env '' @bob hi'' 0 0 ((plain_input []) \<lparr>in_reply := Some \<lparr>rt_rootId = ''id'', rt_displayName = ''bob''\<rparr>\<rparr>))) =
   SentReply ''id'' ''b hi''"
  by (simp add: handleSendMessage_def user_edit_def plain_input_def plain_env_def editTextChanged_def whisper_shorthand_def starts_ci_def
      edit_plain_def edit_finish_def q_trimmed_def q_isSpace_def is_reply_text_def reply_prefix_def without_name_def one_line_def Let_def)

section \<open>The completion replaces what was typed\<close>

lemma scan_start:
  assumes "popup_scan True True t p i = ShowEmotes q \<or> popup_scan True True t p i = ShowUsers q" "i \<le> p" "i < length t"
  shows "\<exists>k \<le> i. completion_start t i = Some k \<and> q = drop 1 (take (p - k + 1) (drop k t)) \<and>
     (t ! k = CHR '':'' \<longleftrightarrow> popup_scan True True t p i = ShowEmotes q) \<and> (t ! k = CHR '':'' \<or> t ! k = CHR ''@'')"
  using assms
proof (induction i)
  case 0
  then show ?case by (simp add: popup_scan.simps [of _ _ _ _ 0] completion_start.simps [of _ 0] Let_def split: if_splits)
next
  case (Suc j)
  show ?case
  proof (cases "t ! Suc j = CHR '':'' \<or> t ! Suc j = CHR ''@''")
    case True
    then show ?thesis using Suc.prems
      by (intro exI [of _ "Suc j"]) (auto simp: popup_scan.simps [of _ _ _ _ "Suc j"] completion_start.simps [of _ "Suc j"] Let_def split: if_splits)
  next
    case False
    then have same: "popup_scan True True t p (Suc j) = popup_scan True True t p j" "completion_start t (Suc j) = completion_start t j"
      using Suc.prems by (auto simp: popup_scan.simps [of _ _ _ _ "Suc j"] completion_start.simps [of _ "Suc j"] Let_def split: if_splits)
    then show ?thesis using Suc.IH Suc.prems by (metis Suc_leD Suc_lessD le_Suc_eq)
  qed
qed



lemma popup_shown: "updateCompletionPopup plain_env (plain_input ''hi :Kap'') = ShowEmotes ''Kap''"
  by (simp add: updateCompletionPopup_def plain_env_def plain_input_def popup_scan.simps Let_def q_isSpace_def)

text \<open>Where only the emotes have a popup, an @ within the name of an emote misleads the completion.\<close>

lemma completed_at_wrong_place:
  "let e = plain_env\<lparr>ie_userMenu := False\<rparr>; s = plain_input '':a@b''
   in updateCompletionPopup e s = ShowEmotes ''a@b'' \<and> map_option ed_text (insertCompletionText e ''emote'' s) = Some '':a@emote, ''"
  by (simp add: updateCompletionPopup_def plain_env_def plain_input_def popup_scan.simps completion_start.simps Let_def q_isSpace_def
      insertCompletionText_def setPlainText_def put_text_def editTextChanged_def whisper_shorthand_def starts_ci_def edit_plain_def
      edit_finish_def formatUserMention_def isFirstWord_def)

end
