(* ===== verification/Message_Search.thy ===== *)
theory Message_Search
  imports Messages Qt_Text "HOL-Library.List_Lexorder" "HOL-Library.Char_ord" "HOL-Library.Multiset"
begin

text \<open>
  Links and searching: \<open>common/LinkParser.cpp\<close>, the predicates of \<open>messages/search\<close>, and
  \<open>widgets/helper/SearchPopup.cpp\<close> (the tags of a search, the messages of several channels, what is found). The list of
  top-level domains, comparing without case and regular expressions are arguments.
\<close>

section \<open>Links\<close>

record link_env =
  le_tlds :: "qstring \<Rightarrow> bool"
  le_lower :: "qstring \<Rightarrow> qstring"

definition isValidHostname :: "link_env \<Rightarrow> qstring \<Rightarrow> bool" where
  "isValidHostname e host \<longleftrightarrow> CHR ''.'' \<in> set host \<and> le_tlds e (le_lower e (last (split_on (CHR ''.'') host)))"

text \<open>\<open>^\d{1,3}(?:\.\d{1,3}){3}$\<close>, where \<open>$\<close> also stands before a line feed at the end.\<close>

definition isValidIpv4 :: "qstring \<Rightarrow> bool" where
  "isValidIpv4 host \<longleftrightarrow>
     (let h = (if host \<noteq> [] \<and> last host = CHR 10 then butlast host else host); ws = split_on (CHR ''.'') h
      in length ws = 4 \<and> list_all (\<lambda>w. length w \<in> {1, 2, 3} \<and> list_all is_digit w) ws)"

definition strip_protocol :: "(qstring \<Rightarrow> qstring) \<Rightarrow> qstring \<Rightarrow> qstring" where
  "strip_protocol lower l =
     (if length l \<ge> 8 \<and> lower (take 8 l) = ''https://'' then drop 8 l
      else if length l \<ge> 7 \<and> lower (take 7 l) = ''http://'' then drop 7 l else l)"

text \<open>Where the host ends and what comes then; \<open>None\<close> is an error.\<close>

datatype after_host = HostOnly qstring | PortAfter qstring qstring | PathAfter qstring

fun host_loop :: "bool \<Rightarrow> bool \<Rightarrow> bool \<Rightarrow> qstring \<Rightarrow> qstring \<Rightarrow> after_host option" where
  "host_loop first lastWasDot inIpv6 done' [] = (if lastWasDot then None else Some (HostOnly done'))"
| "host_loop first lastWasDot inIpv6 done' (c # l) =
     (if c = CHR ''.'' \<and> lastWasDot then None
      else if c = CHR '':'' \<and> \<not> inIpv6 then Some (PortAfter done' l)
      else if c = CHR ''/'' \<or> c = CHR ''?'' \<or> c = CHR ''#'' then Some (PathAfter done')
      else if c = CHR ''['' \<and> \<not> first then None
      else host_loop False (c = CHR ''.'') (if c = CHR ''['' then True else if c = CHR '']'' then False else inIpv6) (done' @ [c]) l)"

text \<open>The first five characters of a port.\<close>

fun port_ok :: "nat \<Rightarrow> qstring \<Rightarrow> bool" where
  "port_ok 0 l = True"
| "port_ok (Suc n) [] = True"
| "port_ok (Suc n) (c # l) = (if c = CHR ''/'' \<or> c = CHR ''?'' \<or> c = CHR ''#'' then True else is_digit c \<and> port_ok n l)"

definition valid_host :: "link_env \<Rightarrow> qstring \<Rightarrow> bool" where
  "valid_host e host \<longleftrightarrow> isValidHostname e host \<or> isValidIpv4 host"

definition link_hasMatch :: "link_env \<Rightarrow> qstring \<Rightarrow> bool" where
  "link_hasMatch e s =
     (case host_loop True True False [] (strip_protocol (le_lower e) s) of
        None \<Rightarrow> False
      | Some (HostOnly h) \<Rightarrow> valid_host e h
      | Some (PortAfter h l) \<Rightarrow> port_ok 5 l \<and> valid_host e h
      | Some (PathAfter h) \<Rightarrow> valid_host e h)"

section \<open>Predicates\<close>

datatype search_predicate =
    AuthorPredicate "qstring list"
  | ChannelPredicate "qstring list"
  | LinkPredicate
  | MessageFlagsPredicate flags
  | RegexPredicate qstring
  | SubstringPredicate qstring

definition split_values :: "qstring list \<Rightarrow> qstring list" where
  "split_values entries = concat (map (split_skip (CHR '','')) entries)"

fun flag_tag :: "qstring \<Rightarrow> MessageFlag option" where
  "flag_tag t =
     (if t = ''deleted'' \<or> t = ''disabled'' then Some Disabled
      else if t = ''sub'' \<or> t = ''subscription'' then Some Subscription
      else if t = ''timeout'' \<or> t = ''ban'' then Some Timeout
      else if t = ''highlighted'' then Some Highlighted
      else if t = ''system'' then Some System
      else if t = ''first-msg'' then Some FirstMessage
      else None)"

definition flags_of_tags :: "qstring \<Rightarrow> flags" where
  "flags_of_tags value' =
     fold (\<lambda>t fs. case flag_tag t of None \<Rightarrow> fs | Some f \<Rightarrow> fe_set (flag_value f) fs) (split_skip (CHR '','') value') 0"

text \<open>\<open>se_regex\<close>: the search of a regular expression, if it is valid.\<close>

record search_env = link_env +
  se_contains :: "qstring \<Rightarrow> qstring \<Rightarrow> bool"
  se_regex :: "qstring \<Rightarrow> (qstring \<Rightarrow> bool) option"

definition list_contains :: "search_env \<Rightarrow> qstring list \<Rightarrow> qstring \<Rightarrow> bool" where
  "list_contains e xs t \<longleftrightarrow> list_ex (\<lambda>x. le_lower e x = le_lower e t) xs"

definition flags_apply :: "flags \<Rightarrow> message \<Rightarrow> bool" where
  "flags_apply fs m \<longleftrightarrow>
     (if fe_has fs (flag_value System) \<and> \<not> fe_has fs (flag_value Timeout)
      then fe_hasAny (flags m) fs \<and> \<not> msg_has m Timeout
      else fe_hasAny (flags m) fs)"

fun appliesTo :: "search_env \<Rightarrow> search_predicate \<Rightarrow> message \<Rightarrow> bool" where
  "appliesTo e (AuthorPredicate as) m = (list_contains e as (displayName m) \<or> list_contains e as (loginName m))"
| "appliesTo e (ChannelPredicate cs) m = list_contains e cs (channelName m)"
| "appliesTo e LinkPredicate m = list_ex (link_hasMatch (link_env.truncate e)) (split_skip (CHR '' '') (messageText m))"
| "appliesTo e (MessageFlagsPredicate fs) m = flags_apply fs m"
| "appliesTo e (RegexPredicate r) m = (case se_regex e r of None \<Rightarrow> False | Some f \<Rightarrow> f (messageText m))"
| "appliesTo e (SubstringPredicate t) m = se_contains e (searchText m) t"

section \<open>The search\<close>

text \<open>A match of the expression for tags: the whole of it, the name and the value. Quotation marks around a value go.\<close>

record tag_match =
  tm_captured :: qstring
  tm_name :: qstring
  tm_value :: qstring

definition without_quotes :: "qstring \<Rightarrow> qstring" where
  "without_quotes v =
     (let u = (if v \<noteq> [] \<and> hd v = CHR 0x22 then tl v else v)
      in if u \<noteq> [] \<and> last u = CHR 0x22 then butlast u else u)"

definition tag_predicate :: "tag_match \<Rightarrow> search_predicate" where
  "tag_predicate t =
     (let n = tm_name t; v = without_quotes (tm_value t)
      in if n = ''has'' \<and> v = ''link'' then LinkPredicate
         else if n = ''is'' then MessageFlagsPredicate (flags_of_tags v)
         else if n = ''regex'' then RegexPredicate v
         else SubstringPredicate (tm_captured t))"

fun parse_tags :: "tag_match list \<Rightarrow> search_predicate list \<times> qstring list \<times> qstring list \<Rightarrow> search_predicate list \<times> qstring list \<times> qstring list" where
  "parse_tags [] acc = acc"
| "parse_tags (t # ts) (ps, authors, channels) =
     (if tm_name t = ''from'' then parse_tags ts (ps, authors @ [without_quotes (tm_value t)], channels)
      else if tm_name t = ''in'' then parse_tags ts (ps, authors, channels @ [without_quotes (tm_value t)])
      else parse_tags ts (ps @ [tag_predicate t], authors, channels))"

definition parsePredicates :: "tag_match list \<Rightarrow> search_predicate list" where
  "parsePredicates ts =
     (case parse_tags ts ([], [], []) of
        (ps, authors, channels) \<Rightarrow>
          ps @ (if authors = [] then [] else [AuthorPredicate (split_values authors)]) @
               (if channels = [] then [] else [ChannelPredicate (split_values channels)]))"

definition search_filter :: "search_env \<Rightarrow> tag_match list \<Rightarrow> message list \<Rightarrow> message list" where
  "search_filter e ts snapshot = filter (\<lambda>m. list_all (\<lambda>p. appliesTo e p m) (parsePredicates ts)) snapshot"

text \<open>
  The messages of several channels, each seen through the filters of its split, without doubles. \<open>std::sort\<close>
  (\<open>sort_by\<close>) is given what comes before what.
\<close>

fun std_unique :: "('a \<Rightarrow> 'a \<Rightarrow> bool) \<Rightarrow> 'a list \<Rightarrow> 'a list" where
  "std_unique same [] = []"
| "std_unique same [x] = [x]"
| "std_unique same (x # y # xs) = (if same x y then std_unique same (x # xs) else x # std_unique same (y # xs))"

definition same_id :: "message \<Rightarrow> message \<Rightarrow> bool" where
  "same_id a b \<longleftrightarrow> id' a \<noteq> [] \<and> id' a = id' b"

definition combined_snapshot ::
  "((message \<Rightarrow> message \<Rightarrow> bool) \<Rightarrow> message list \<Rightarrow> message list) \<Rightarrow> (message list \<times> (message \<Rightarrow> bool) option) list \<Rightarrow> message list" where
  "combined_snapshot sort_by channels =
     (let all' = concat (map (\<lambda>(ms, f). case f of None \<Rightarrow> ms | Some g \<Rightarrow> filter g ms) channels);
          by_id = sort_by (\<lambda>a b. id' a > id' b) all';
          once = std_unique same_id by_id
      in sort_by (\<lambda>a b. serverReceivedTime a < serverReceivedTime b) once)"

definition buildSnapshot ::
  "((message \<Rightarrow> message \<Rightarrow> bool) \<Rightarrow> message list \<Rightarrow> message list) \<Rightarrow> (message list \<times> (message \<Rightarrow> bool) option) list \<Rightarrow> message list" where
  "buildSnapshot sort_by channels = (case channels of [(ms, _)] \<Rightarrow> ms | _ \<Rightarrow> combined_snapshot sort_by channels)"

section \<open>What a link is\<close>

text \<open>No dot at the start and no two dots in a row.\<close>

fun dots_ok :: "bool \<Rightarrow> qstring \<Rightarrow> bool" where
  "dots_ok lastWasDot [] = True"
| "dots_ok lastWasDot (c # cs) = ((c = CHR ''.'' \<longrightarrow> \<not> lastWasDot) \<and> dots_ok (c = CHR ''.'') cs)"

definition in_host :: "char \<Rightarrow> bool" where
  "in_host c \<longleftrightarrow> c \<notin> {CHR '':'', CHR ''/'', CHR ''?'', CHR ''#''}"

lemma split_on_single: "split_on sep h = [[]] \<longleftrightarrow> h = []"
  by (cases h) (auto split: list.split)

lemma host_loop_spec:
  "CHR ''['' \<notin> set l \<Longrightarrow>
   host_loop first lwd False pre l =
     (let h = takeWhile in_host l
      in if \<not> dots_ok lwd h then None
         else case dropWhile in_host l of
                [] \<Rightarrow> if last (split_on (CHR ''.'') h) = [] \<and> (h = [] \<longrightarrow> lwd) then None else Some (HostOnly (pre @ h))
              | c # r \<Rightarrow> Some (if c = CHR '':'' then PortAfter (pre @ h) r else PathAfter (pre @ h)))"
proof (induction l arbitrary: first lwd pre)
  case Nil
  then show ?case by simp
next
  case (Cons c l)
  have last_dot: "last (split_on (CHR ''.'') (c # h)) = [] \<longleftrightarrow> last (split_on (CHR ''.'') h) = [] \<and> (h = [] \<longrightarrow> c = CHR ''.'')" for h
    using split_on_single [of "CHR ''.''" h] by (cases "split_on (CHR ''.'') h") (auto split: if_splits)
  show ?case
  proof (cases "in_host c")
    case True
    then have step: "host_loop first lwd False pre (c # l) =
        (if c = CHR ''.'' \<and> lwd then None else host_loop False (c = CHR ''.'') False (pre @ [c]) l)"
      using Cons.prems by (auto simp: in_host_def)
    have IH: "host_loop False (c = CHR ''.'') False (pre @ [c]) l =
      (let h = takeWhile in_host l
       in if \<not> dots_ok (c = CHR ''.'') h then None
          else case dropWhile in_host l of
                 [] \<Rightarrow> if last (split_on (CHR ''.'') h) = [] \<and> (h = [] \<longrightarrow> c = CHR ''.'') then None else Some (HostOnly ((pre @ [c]) @ h))
               | c' # r \<Rightarrow> Some (if c' = CHR '':'' then PortAfter ((pre @ [c]) @ h) r else PathAfter ((pre @ [c]) @ h)))"
      using Cons.prems by (intro Cons.IH) simp
    define h d where "h = takeWhile in_host l" and "d = dropWhile in_host l"
    have parts: "takeWhile in_host (c # l) = c # h" "dropWhile in_host (c # l) = d" using True by (simp_all add: h_def d_def)
    show ?thesis
      unfolding step IH parts Let_def h_def [symmetric] d_def [symmetric]
      by (cases d) (simp_all del: split_on.simps add: last_dot)
  next
    case False
    then show ?thesis by (auto simp: in_host_def Let_def)
  qed
qed

lemma dots_labels:
  "dots_ok lwd h \<longleftrightarrow> (case split_on (CHR ''.'') h of w # ws \<Rightarrow> (lwd \<and> ws \<noteq> [] \<longrightarrow> w \<noteq> []) \<and> list_all (\<lambda>v. v \<noteq> []) (butlast ws) | [] \<Rightarrow> False)"
proof (induction h arbitrary: lwd)
  case (Cons c h)
  obtain w ws where w: "split_on (CHR ''.'') h = w # ws" using split_on_nonempty [of "CHR ''.''" h] by (cases "split_on (CHR ''.'') h") auto
  show ?case using Cons.IH by (auto simp: w)
qed simp

lemma dots_labels_start: "dots_ok True h \<longleftrightarrow> list_all (\<lambda>v. v \<noteq> []) (butlast (split_on (CHR ''.'') h))"
  unfolding dots_labels by (cases "split_on (CHR ''.'') h") auto

text \<open>
  C37: A word without an opening bracket is a link exactly if, without its protocol, what stands before the first colon,
  slash, question mark or number sign is a host of labels that are not empty (the last one may be if something follows),
  and what follows a colon starts like a port.
\<close>

theorem link_parser_spec:
  assumes "CHR ''['' \<notin> set s"
  shows "link_hasMatch e s \<longleftrightarrow>
    (let l = strip_protocol (le_lower e) s; host = takeWhile in_host l; rest = dropWhile in_host l; labels = split_on (CHR ''.'') host
     in list_all (\<lambda>w. w \<noteq> []) (butlast labels) \<and> valid_host e host \<and>
        (case rest of [] \<Rightarrow> last labels \<noteq> [] | c # r \<Rightarrow> c \<noteq> CHR '':'' \<or> port_ok 5 r))"
proof -
  let ?l = "strip_protocol (le_lower e) s"
  have "CHR ''['' \<notin> set ?l" using assms by (auto simp: strip_protocol_def dest: in_set_dropD)
  note spec = host_loop_spec [OF this, of True True "[]", unfolded dots_labels_start]
  define h d where "h = takeWhile in_host ?l" and "d = dropWhile in_host ?l"
  have "\<not> valid_host e []" by (simp add: valid_host_def isValidHostname_def isValidIpv4_def)
  then show ?thesis
    unfolding link_hasMatch_def spec Let_def h_def [symmetric] d_def [symmetric]
    by (cases d) auto
qed

definition two_tlds :: link_env where
  "two_tlds = \<lparr>le_tlds = (\<lambda>t. t \<in> {''com'', ''tv''}), le_lower = id\<rparr>"

lemma link_parser_spec_witness:
  "link_hasMatch two_tlds ''https://twitch.tv/forsen'' \<longleftrightarrow>
    (let l = strip_protocol id ''https://twitch.tv/forsen''; host = takeWhile in_host l; rest = dropWhile in_host l;
         labels = split_on (CHR ''.'') host
     in list_all (\<lambda>w. w \<noteq> []) (butlast labels) \<and> valid_host two_tlds host \<and>
        (case rest of [] \<Rightarrow> last labels \<noteq> [] | c # r \<Rightarrow> c \<noteq> CHR '':'' \<or> port_ok 5 r))"
  using link_parser_spec [of "''https://twitch.tv/forsen''" two_tlds] by (simp add: two_tlds_def)

text \<open>Only five characters of a port are looked at: what comes behind them may be anything.\<close>

lemma port_with_letters: "link_hasMatch two_tlds ''twitch.tv:12345abc''"
  by (simp add: link_hasMatch_def strip_protocol_def two_tlds_def valid_host_def isValidHostname_def is_digit_def eval_nat_numeral)

section \<open>What a search finds\<close>

lemma parse_tags_spec:
  "parse_tags ts (ps, authors, channels) =
     (ps @ map tag_predicate (filter (\<lambda>t. tm_name t \<noteq> ''from'' \<and> tm_name t \<noteq> ''in'') ts),
      authors @ map (\<lambda>t. without_quotes (tm_value t)) (filter (\<lambda>t. tm_name t = ''from'') ts),
      channels @ map (\<lambda>t. without_quotes (tm_value t)) (filter (\<lambda>t. tm_name t = ''in'') ts))"
  by (induction ts arbitrary: ps authors channels) auto

text \<open>
  A search finds exactly the messages to which all its tags and words apply, in their order, where several authors
  are alternatives to each other, and so are several channels, however they are spread over tags and lists.
\<close>

theorem search_finds:
  "search_filter e ts ms =
     filter (\<lambda>m.
       list_all (\<lambda>t. appliesTo e (tag_predicate t) m) (filter (\<lambda>t. tm_name t \<noteq> ''from'' \<and> tm_name t \<noteq> ''in'') ts) \<and>
       (filter (\<lambda>t. tm_name t = ''from'') ts = [] \<or>
        list_ex (\<lambda>t. list_ex (\<lambda>a. le_lower e a \<in> {le_lower e (displayName m), le_lower e (loginName m)})
          (split_skip (CHR '','') (without_quotes (tm_value t)))) (filter (\<lambda>t. tm_name t = ''from'') ts)) \<and>
       (filter (\<lambda>t. tm_name t = ''in'') ts = [] \<or>
        list_ex (\<lambda>t. list_ex (\<lambda>a. le_lower e a = le_lower e (channelName m)) (split_skip (CHR '','') (without_quotes (tm_value t))))
          (filter (\<lambda>t. tm_name t = ''in'') ts))) ms"
  unfolding search_filter_def
  by (rule filter_cong [OF refl])
     (auto simp: parsePredicates_def parse_tags_spec list_contains_def split_values_def list_ex_iff list_all_iff)

text \<open>Messages of several channels: sorted by their ids, equal ones stand together.\<close>

lemma unique_ids: "set (map id' (std_unique same_id xs)) = set (map id' xs)"
  by (induction same_id xs rule: std_unique.induct) (auto simp: same_id_def)

lemma unique_without_id:
  "filter (\<lambda>m. id' m = []) (std_unique same_id xs) = filter (\<lambda>m. id' m = []) xs"
  by (induction same_id xs rule: std_unique.induct) (auto simp: same_id_def)

lemma unique_distinct:
  "sorted_wrt (\<lambda>a b. id' b \<le> id' a) xs \<Longrightarrow>
   distinct (filter (\<lambda>i. i \<noteq> []) (map id' (std_unique same_id xs)))"
proof (induction same_id xs rule: std_unique.induct)
  case (3 x y xs)
  show ?case
  proof (cases "same_id x y")
    case True
    then show ?thesis using 3 by (auto simp: same_id_def)
  next
    case False
    have "id' x \<notin> set (map id' (y # xs))" if "id' x \<noteq> []"
      using False that 3(3) by (auto simp: same_id_def dest: order_antisym)
    then show ?thesis using False 3 unique_ids [of "y # xs"] by auto
  qed
qed auto


text \<open>Insertion sort is such a sort.\<close>

fun insert_by :: "('a \<Rightarrow> 'a \<Rightarrow> bool) \<Rightarrow> 'a \<Rightarrow> 'a list \<Rightarrow> 'a list" where
  "insert_by lt x [] = [x]"
| "insert_by lt x (y # ys) = (if lt y x then y # insert_by lt x ys else x # y # ys)"

definition insertion_sort :: "('a \<Rightarrow> 'a \<Rightarrow> bool) \<Rightarrow> 'a list \<Rightarrow> 'a list" where
  "insertion_sort lt xs = foldr (insert_by lt) xs []"

lemma insert_by_mset: "mset (insert_by lt x ys) = add_mset x (mset ys)"
  by (induction ys) auto

lemma insertion_sort_mset: "mset (insertion_sort lt xs) = mset xs"
  by (induction xs) (simp_all add: insertion_sort_def insert_by_mset)

lemma insertion_sorted: "sorted_wrt (\<lambda>a b. \<not> f b > (f a :: 'b :: linorder)) (insertion_sort (\<lambda>a b. f a > f b) xs)"
proof (induction xs)
  case (Cons x xs)
  have "sorted_wrt (\<lambda>a b. \<not> f b > f a) ys \<Longrightarrow> sorted_wrt (\<lambda>a b. \<not> f b > f a) (insert_by (\<lambda>a b. f a > f b) x ys)" for ys
  proof (induction ys)
    case (Cons y ys)
    have "z = x \<or> z \<in> set ys" if "z \<in> set (insert_by (\<lambda>a b. f a > f b) x ys)" for z
      using that mset_eq_setD [of _ "x # ys", unfolded mset.simps, OF insert_by_mset] by auto
    then show ?case using Cons by fastforce
  qed simp
  then show ?case using Cons by (simp add: insertion_sort_def)
qed (simp add: insertion_sort_def)


end
