(* ===== verification/Spec2Isabelle.thy ===== *)
theory Spec2Isabelle
  imports
    Limited_Queue Lru_Cache Chatters
    Filter_Roundtrip Filters
    Message_Builder Channels_Correct Highlights
    Ratelimit PubSub_Correct Text_Utils
    Category_Models Settings_Json Twitch_Text_Correct Twitch_Words_Correct
    Split_Tree_Correct Irc_Connection Irc_Servers_Correct Window_Layout_Correct
    Twitch_Delivery Recent_Messages Command_Handlers Stream_Link
    Pubsub_Actions Twitch_Accounts Seventv_Events Layout_Correct
    Chat_Input Message_Search
begin

text \<open>
  A verification library for Dankerino, a Twitch and IRC chat client (a fork of Chatterino). The
  program is C++ on Qt; this library models the parts of \<open>src/src\<close> that hold its own logic and are
  independent of the user interface, as executable definitions over explicit state, and proves what
  makes them correct.

  \<^bold>\<open>How the parts interact.\<close> A channel (\<open>common/Channel.cpp\<close>) keeps its messages in a bounded
  queue (\<open>messages/LimitedQueue.hpp\<close>). Servers and \<open>MessageBuilder\<close> create messages
  (\<open>messages/Message.hpp\<close>, flags in \<open>common/FlagsEnum.hpp\<close>); the highlight controller decides whether a
  message is highlighted; a split shows the messages its filter set lets through
  (\<open>controllers/filters\<close>). The chatters of a channel (\<open>ChatterSet\<close>, \<open>ChannelChatters\<close>) are kept in LRU
  caches (\<open>lib/lrucache\<close>) and feed the completion of names. The PubSub manager spreads its topics
  over websocket connections, with \<open>ExponentialBackoff\<close> between attempts; \<open>RatelimitBucket\<close> paces
  JOINs.

  \<^bold>\<open>Theories.\<close>
  \<^item> \<open>Prelude\<close>: strings, insertion and removal in lists, maps sorted by key (QMap), decimal numbers, and
    the collections \<open>invariants\<close> and \<open>contents\<close>. \<open>Qt_Text\<close>: \<open>QString::arg\<close>, splitting and sections.
  \<^item> \<open>Limited_Queue\<close>: \<open>LimitedQueue.hpp\<close>, \<open>LimitedQueueSnapshot.hpp\<close>. The record \<open>cbuf_ops\<close> holds the
    operations of \<open>boost::circular_buffer\<close> the class calls; the locale \<open>circular_buffer\<close> is Boost's
    documented contract, under which every operation of the queue is specified. \<open>ring_ops\<close> is an array
    ring that meets the contract.
  \<^item> \<open>Lru_Cache\<close>: \<open>lrucache.hpp\<close>, refined to a bounded move-to-front list; the locale \<open>recency_cache\<close> is
    what \<open>Chatters\<close> (\<open>ChatterSet.cpp\<close>, \<open>ChannelChatters.cpp\<close>) relies on.
  \<^item> \<open>Filter_Types\<close>, \<open>Filter_Print\<close> (\<open>parser/Types.cpp\<close>), \<open>Filter_Parser\<close> (\<open>Tokenizer.cpp\<close>,
    \<open>FilterParser.cpp\<close>), \<open>Filter_Parser_Correct\<close> (the parser always returns),
    \<open>Filter_Roundtrip\<close> (printing and parsing again), \<open>Filters\<close> (\<open>FilterRecord.hpp\<close>, \<open>FilterSet.hpp\<close>,
    \<open>buildContextMap\<close>).
  \<^item> \<open>Messages\<close> (\<open>FlagsEnum.hpp\<close>, \<open>Message.cpp\<close>), \<open>Message_Builder\<close> (constructors of
    \<open>MessageBuilder.cpp\<close> whose messages are stacked), \<open>Channels\<close> and \<open>Channels_Correct\<close> (\<open>Channel.cpp\<close>):
    adding, stacking of timeouts, disabling, filling in missed messages. Messages live in an explicit
    store since the code changes flags through shared pointers.
  \<^item> \<open>Highlights\<close>: \<open>controllers/highlights\<close> and the part of \<open>SharedMessageBuilder.cpp\<close> that uses it.
  \<^item> \<open>Ratelimit\<close>: \<open>ExponentialBackoff.hpp\<close>, \<open>RatelimitBucket.cpp\<close>. \<open>PubSub_Model\<close>, \<open>PubSub_Correct\<close>:
    \<open>PubSubClient.cpp\<close>, \<open>PubSubManager.cpp\<close> as a state machine of handlers and events.
  \<^item> \<open>Text_Utils\<close>: the string helpers of \<open>util\<close>.
  \<^item> \<open>Signal_Vector\<close>, \<open>Table_Correct\<close>: \<open>SignalVector.hpp\<close> and \<open>SignalVectorModel.hpp\<close>, a list of the settings
    with the table that shows it. The locale \<open>row_model\<close> is what a derived table model has to provide;
    \<open>Table_Models\<close> and \<open>Category_Models\<close> interpret it with the program's models.
  \<^item> \<open>Hotkeys\<close>, \<open>Hotkeys_Correct\<close>: \<open>controllers/hotkeys\<close>. The locale \<open>settings_store\<close> is what the settings
    library promises; \<open>path_store\<close> meets it.
  \<^item> \<open>Settings_Items\<close>: ignored phrases and messages, nicknames, custom commands, moderation buttons.
    \<open>Settings_Json\<close>: their JSON form and how lists are stored; the locale \<open>entry\<close> is what the list relies on.
    \<open>Twitch_Text\<close> (with \<open>Twitch_Text_Correct\<close>, \<open>Twitch_Words_Correct\<close>): the text of a Twitch message in
    \<open>TwitchMessageBuilder.cpp\<close>, from the emotes tag over the ignored phrases to the words.
  \<^item> \<open>Irc_Connection\<close> (\<open>IrcConnection2.cpp\<close>), \<open>Irc_Servers\<close> and \<open>Irc_Servers_Correct\<close>
    (\<open>AbstractIrcServer.cpp\<close>, \<open>IrcServer.cpp\<close>, \<open>Irc2.cpp\<close>, \<open>IrcChannel2.cpp\<close>, \<open>IrcCommands.cpp\<close> and the sending
    part of \<open>TwitchIrcServer.cpp\<close>): connections with their ping timer, the channels of a server, joining,
    the list of servers and its file. \<open>Qt_Json\<close>: \<open>QJsonValue\<close> and its reading functions.
  \<^item> \<open>Split_Tree\<close> and \<open>Split_Tree_Correct\<close> (\<open>SplitContainer.cpp\<close>): the tree of splits of a tab.
    \<open>Notebook_Model\<close> (\<open>Notebook.cpp\<close>): the tabs of a window. \<open>Window_Layout\<close> and
    \<open>Window_Layout_Correct\<close>: the layout file
    (\<open>WindowDescriptors.cpp\<close>, the saving and loading of \<open>WindowManager.cpp\<close>, \<open>ClosedSplits.cpp\<close>).
  \<^item> \<open>Message_Similarity\<close>, \<open>Twitch_Message\<close>, \<open>Twitch_Server\<close>, \<open>Twitch_Handlers\<close> (\<open>IrcMessageHandler.cpp\<close>,
    \<open>TwitchChannel.cpp\<close>, \<open>TwitchMessageBuilder::build\<close>, the dispatch of \<open>TwitchIrcServer.cpp\<close>): what a line
    from Twitch does. The state \<open>tw_world\<close> has the channels of the server, what a TwitchChannel has beyond a
    Channel, one store for all messages, reply threads, and the effects that leave the model.
    \<open>Twitch_Frame\<close> shows what each handler leaves alone, \<open>Twitch_Correct\<close> and \<open>Twitch_Delivery\<close> what it
    does. \<open>Recent_Messages\<close>: \<open>RecentMessagesApi.cpp\<close>. \<open>Twitch_Live\<close>: live status, badges, cheer emotes and
    clips, with \<open>NotificationController.cpp\<close>. \<open>Emojis\<close>: \<open>Emojis.cpp\<close>. \<open>Twitch_Sending\<close>: what is
    done to a message before it is sent.
  \<^item> \<open>Custom_Commands\<close> and \<open>Command_Handlers\<close> (\<open>CommandController.cpp\<close>): the commands a user defines with their
    placeholders, and the commands of the program, each a function from what it reads to the text that is
    sent instead of the line and a list of effects. \<open>Stream_Link\<close>: \<open>StreamLink.cpp\<close>.
  \<^item> \<open>Pubsub_Actions\<close> (\<open>PubSubActions.cpp\<close>, the handlers of \<open>PubSubManager.cpp\<close> and \<open>Application::initPubSub\<close>):
    what moderators do, from the JSON of a topic to the message of a channel. \<open>Helix_Api\<close> (\<open>Helix.cpp\<close>): every
    request with the meaning of its answer. \<open>Twitch_Accounts\<close> (\<open>TwitchAccount.cpp\<close>, \<open>TwitchAccountManager.cpp\<close>,
    \<open>TwitchBadges.cpp\<close>, \<open>TwitchEmotes.cpp\<close>, \<open>IvrApi.cpp\<close>): the accounts, their blocked users, emotes and badges.
  \<^item> \<open>Emotes\<close> (\<open>ImageSet.cpp\<close>, \<open>Emote.cpp\<close> and the providers BTTV, FFZ, 7TV, Chatterino, Dankerino): emotes of a
    channel and badges. \<open>Seventv_Events\<close> (\<open>providers/seventv\<close> and \<open>Application::initEventApi\<close>): the events of 7TV,
    as a state machine of connections, and what they change in a channel.
  \<^item> \<open>Message_Layout\<close> and \<open>Layout_Correct\<close> (\<open>MessageElement.cpp\<close>, \<open>messages/layouts\<close>, \<open>Selection.hpp\<close>): how a
    message is broken into lines, and the characters at a point, of a selection and of a copy. The locale
    \<open>layout_operations\<close> is what the two basic operations have to keep for every element of a message to keep it.

  \<^bold>\<open>What the lemmas show.\<close> Queue and cache: refinement to lists, bounds, nothing lost or reported
  twice. Filters: the parser terminates on every text, printing and parsing round-trips, evaluation
  is total without arithmetic, sets follow the settings. Channels: the newest messages are
  kept, timeouts disable exactly the user's messages, missed messages are merged by time. Highlights:
  the early exit does not change the combined result. PubSub and rate limiting: invariants of all
  reachable states, conservation of topics, and progress. Tables: every row reads back as its item after
  any operations. Hotkeys: saving and loading, resetting, grouping. Twitch text: nothing of a message
  is lost, replacing phrases ends. Splits and tabs: every split stands once in its tree, inserting and
  releasing keep the order, one tab is selected. Servers: what was saved is loaded, channels survive the editing
  of their server, every channel is joined, sending stays below the rate limit, a silent connection is
  noticed. Twitch messages: a line changes only the channels it is for, a chat message is shown where it belongs,
  moderation disables exactly the messages it names, rewards and messages may come in any order, texts are
  split at emojis without loss, and no line is sent twice in a row. Commands: placeholders are replaced in order, a
  whisper stays private, a command of the program is not sent by mistake. PubSub actions and accounts: an action is shown
  in its room only and once, accounts stay sorted and unique. Emotes: an update replaces the emote it is about, the
  channels with events are those that were joined. Layout: lines partition a message, wrapping keeps every letter,
  nothing goes past the margin, every point has a character. Text: round trips with the inverse the
  program or its protocol defines.

  \<^bold>\<open>Bounds and fuel.\<close> The parser's methods are mutually recursive and recurse through \<open>fuel\<close>; the fuel
  \<open>parse_fuel\<close> is eight per token and a constant, and \<open>FilterParser_total\<close> shows that it is never
  exhausted, since every cycle of calls consumes a token. No other definition needs fuel; the loops of
  \<open>Twitch_Text\<close> that need not end are partial functions, with \<open>None\<close> for a loop that does not.

  \<^bold>\<open>Not modelled.\<close> Qt, Boost and websocketpp are parameters or written out where the code depends on
  their documented behaviour: tokenizing by a regular expression, QVariant conversions, case folding
  and date handling are arguments of the definitions that use them. The user interface
  (painting, geometry and events of \<open>widgets\<close>, layouts, display elements), network requests and JSON decoding of replies, the settings library and
  platform glue are not modelled. Timers and callbacks are events of step relations; mutexes make every
  operation of a locked class atomic.

  \<^bold>\<open>Plan.\<close> Next come the moderation actions of PubSub, completion, selections, the link
  parser, search predicates, the layout container and the 7TV event manager.
\<close>

end
